(* ===== verification/Chatto_Prelude.thy ===== *)
theory Chatto_Prelude
  imports
    Main
    "HOL-Library.Finite_Map"
    "HOL-Library.List_Lexorder"
    "HOL-Library.Char_ord"
    "HOL-Library.Product_Lexorder"
    "HOL-Library.Word"
begin

text \<open>
  Shared vocabulary of the development: the types every component names
  (identifiers, stream sequence numbers, event envelopes, error values), the
  generic loops the Go code repeats (a range loop that returns at the first
  error, a loop that fills a map from distinct rows) and the lemmas on finite
  maps and sorted key lists that carry the snapshot proofs.

  Conventions. A Go \<open>string\<close> is a byte string, so it is a \<^typ>\<open>string\<close> here and
  Go's string comparison is the lexicographic order of \<open>List_Lexorder\<close> over
  \<open>Char_ord\<close>. A Go map is an \<^typ>\<open>('k, 'v) fmap\<close>: finite, extensional, with no
  order of its own; where the code ranges over a map and then sorts, the model
  enumerates the keys in sorted order. A \<open>uint64\<close> is a \<^typ>\<open>64 word\<close>, an \<open>int32\<close> a
  \<^typ>\<open>32 word\<close> compared signed. An error return is the left side of a sum.
\<close>

section \<open>Collections of the development's facts\<close>

named_theorems guard_simps "equations of the replay guard"
named_theorems keeps_guard "operations that leave the replay guard alone"
named_theorems rbac_inv_intros "operations that keep the RBAC projection well formed"

section \<open>Types\<close>

type_synonym seq = "64 word"
type_synonym i32 = "32 word"
type_synonym time = int

text \<open>The zero value of \<open>time.Time\<close>, in nanoseconds since the Unix epoch.\<close>

abbreviation zero_time :: time where "zero_time \<equiv> - 62135596800000000000"

text \<open>
  The durable event envelope (\<open>evtv1.Event\<close>, generated from
  \<open>proto/chatto/core/evt/v1\<close>): the identity, the acting account, the creation
  time and the payload of the oneof. A payload a component does not know, or an
  unset oneof, is \<^const>\<open>None\<close>: the type switch of every projection falls through.
\<close>

record 'e event =
  ev_id :: string
  ev_actor :: string
  ev_created_at :: "time option"
  ev_payload :: "'e option"

section \<open>Loops that stop at the first error\<close>

text \<open>
  \<open>for _, row := range rows { ...; if bad { return err }; state = ... }\<close>
\<close>

fun fold_res :: "('a \<Rightarrow> 's \<Rightarrow> 'err + 's) \<Rightarrow> 'a list \<Rightarrow> 's \<Rightarrow> 'err + 's" where
  "fold_res f [] s = Inr s"
| "fold_res f (x # xs) s = (case f x s of Inl e \<Rightarrow> Inl e | Inr s' \<Rightarrow> fold_res f xs s')"

lemma fold_res_append:
  "fold_res f (xs @ ys) s =
     (case fold_res f xs s of Inl e \<Rightarrow> Inl e | Inr s' \<Rightarrow> fold_res f ys s')"
  by (induction xs arbitrary: s) (auto split: sum.splits)

lemma fold_res_ok:
  assumes "\<And>x s. x \<in> set xs \<Longrightarrow> f x s = Inr (g x s)"
  shows "fold_res f xs s = Inr (fold g xs s)"
  using assms by (induction xs arbitrary: s) auto

text \<open>An invariant of the loop's state, as a Hoare rule.\<close>

lemma fold_res_inv:
  assumes "fold_res f xs s = Inr t" and "P s"
    and "\<And>x s s'. x \<in> set xs \<Longrightarrow> P s \<Longrightarrow> f x s = Inr s' \<Longrightarrow> P s'"
  shows "P t"
  using assms
proof (induction xs arbitrary: s)
  case Nil
  then show ?case by simp
next
  case (Cons x xs)
  from Cons.prems(1) obtain s' where s': "f x s = Inr s'" "fold_res f xs s' = Inr t"
    by (auto split: sum.splits)
  have "P s'"
    using Cons.prems(2,3) s'(1) by auto
  then show ?case
    using Cons.IH [OF s'(2)] Cons.prems(3) by auto
qed

section \<open>Option-valued folds: a panic stops the run\<close>

fun fold_opt :: "('a \<Rightarrow> 's \<Rightarrow> 's option) \<Rightarrow> 'a list \<Rightarrow> 's \<Rightarrow> 's option" where
  "fold_opt f [] s = Some s"
| "fold_opt f (x # xs) s = (case f x s of None \<Rightarrow> None | Some s' \<Rightarrow> fold_opt f xs s')"

lemma fold_opt_append:
  "fold_opt f (xs @ ys) s = (case fold_opt f xs s of None \<Rightarrow> None | Some s' \<Rightarrow> fold_opt f ys s')"
  by (induction xs arbitrary: s) (auto split: option.splits)

section \<open>Finite maps and their sorted key lists\<close>

text \<open>The library's congruence rule would keep \<open>simp\<close> out of the filtered map.\<close>

declare fmfilter_cong [cong del]

lemma fmap_eqI: "(\<And>k. fmlookup m k = fmlookup n k) \<Longrightarrow> m = n"
  by (rule fmap_ext) blast

lemma fmdom_nonempty: "fmlookup m k = Some v \<Longrightarrow> fmdom m \<noteq> {||}"
  by (metis fempty_iff fmdomI)

lemma fmdrop_upd_same [simp]: "fmdrop k (fmupd k v m) = fmdrop k m"
  by (rule fmap_eqI) simp

definition sortedMapKeys :: "('k::linorder, 'v) fmap \<Rightarrow> 'k list" where
  "sortedMapKeys m = sorted_list_of_fset (fmdom m)"

lemma set_sortedMapKeys [simp]: "set (sortedMapKeys m) = fset (fmdom m)"
  by (simp add: sortedMapKeys_def)

lemma distinct_sortedMapKeys [simp]: "distinct (sortedMapKeys m)"
  by (simp add: sortedMapKeys_def sorted_list_of_fset.rep_eq)

lemma sorted_sortedMapKeys [simp]: "sorted (sortedMapKeys m)"
  by (simp add: sortedMapKeys_def sorted_list_of_fset.rep_eq)

lemma sortedMapKeys_empty [simp]: "sortedMapKeys fmempty = []"
  by (simp add: sortedMapKeys_def sorted_list_of_fset.rep_eq)

lemma mem_sortedMapKeys_iff: "k \<in> set (sortedMapKeys m) \<longleftrightarrow> fmlookup m k \<noteq> None"
  by (simp add: fmlookup_dom_iff)

text \<open>
  The restore loops of the snapshots read rows, refuse a repeated key and store
  the value. Over the rows a snapshot wrote for a map, such a loop rebuilds the
  map itself.
\<close>

lemma fold_res_upd:
  assumes "distinct ks"
    and "\<And>k a. k \<in> set ks \<Longrightarrow> fmlookup a k = fmlookup acc k \<Longrightarrow> step (row k) a = Inr (fmupd k (val k) a)"
  shows "fold_res step (map row ks) acc = Inr (fold (\<lambda>k. fmupd k (val k)) ks acc)"
  using assms
proof (induction ks arbitrary: acc)
  case Nil
  then show ?case by simp
next
  case (Cons k ks)
  have step: "step (row k) acc = Inr (fmupd k (val k) acc)"
    using Cons.prems(2) by simp
  have "fold_res step (map row ks) (fmupd k (val k) acc)
      = Inr (fold (\<lambda>k. fmupd k (val k)) ks (fmupd k (val k) acc))"
    using Cons.prems by (intro Cons.IH) (auto intro!: Cons.prems(2))
  then show ?case using step by simp
qed

lemma fmlookup_fold_upd:
  "distinct ks \<Longrightarrow> fmlookup (fold (\<lambda>k. fmupd k (val k)) ks acc) x
     = (if x \<in> set ks then Some (val x) else fmlookup acc x)"
  by (induction ks arbitrary: acc) auto

lemma fold_res_rebuild:
  assumes "\<And>k v a. fmlookup m k = Some v \<Longrightarrow> fmlookup a k = None \<Longrightarrow>
             step (row k) a = Inr (fmupd k v a)"
  shows "fold_res step (map row (sortedMapKeys m)) fmempty = Inr m"
proof -
  have "fold_res step (map row (sortedMapKeys m)) fmempty
      = Inr (fold (\<lambda>k. fmupd k (the (fmlookup m k))) (sortedMapKeys m) fmempty)"
    by (rule fold_res_upd) (auto simp: fmlookup_dom_iff intro!: assms)
  also have "fold (\<lambda>k. fmupd k (the (fmlookup m k))) (sortedMapKeys m) fmempty = m"
    by (rule fmap_eqI) (auto simp: fmlookup_fold_upd fmlookup_dom_iff intro: fmdom_notD)
  finally show ?thesis .
qed

text \<open>Enumerating the entries of a map whose keys satisfy a test, sorted by key.\<close>

definition sortedMapValues :: "('k::linorder, 'v) fmap \<Rightarrow> 'v list" where
  "sortedMapValues m = map (\<lambda>k. the (fmlookup m k)) (sortedMapKeys m)"

lemma set_sortedMapValues: "set (sortedMapValues m) = fset (fmran m)"
  by (force simp: sortedMapValues_def fmlookup_dom_iff fmlookup_ran_iff image_iff)

end
