(* ===== verification/Replay_Guard.thy ===== *)
theory Replay_Guard
  imports Chatto_Prelude
begin

text \<open>
  The replay guard that every event-sourced projection of \<open>cli/internal/core\<close>
  owns (\<open>projection_helpers.go\<close>), its snapshot form
  (\<open>projection_snapshot_helpers.go\<close>), and the contract a projection has with it,
  as the locales \<open>guarded_projection\<close> and \<open>snapshot_projection\<close>. A component proves
  the contract once, by interpretation, and obtains the replay theorems.

  The event-ID set of the guard is a Go map that may be nil. Reading a nil map is
  allowed; writing one panics. So the set is an option, and an operation that
  writes it returns \<^const>\<open>None\<close> for the panic.
\<close>

section \<open>The event-ID set\<close>

type_synonym eventIDSet = "string fset"

definition newEventIDSet :: eventIDSet where
  "newEventIDSet = {||}"

definition eventIDSet_has :: "eventIDSet option \<Rightarrow> 'e event \<Rightarrow> bool" where
  "eventIDSet_has s ev =
     (if ev_id ev = [] then False
      else case s of None \<Rightarrow> False | Some ids \<Rightarrow> ev_id ev |\<in>| ids)"

definition eventIDSet_mark :: "eventIDSet option \<Rightarrow> 'e event \<Rightarrow> eventIDSet option option" where
  "eventIDSet_mark s ev =
     (if ev_id ev = [] then Some s
      else case s of None \<Rightarrow> None | Some ids \<Rightarrow> Some (Some (finsert (ev_id ev) ids)))"

section \<open>The guard\<close>

record replay_guard =
  eventIDs :: "eventIDSet option"
  highestSeq :: seq
  replayComplete :: bool
  compatibilityMode :: bool

definition newProjectionReplayGuard :: replay_guard where
  "newProjectionReplayGuard =
     \<lparr>eventIDs = Some newEventIDSet, highestSeq = 0, replayComplete = False,
      compatibilityMode = False\<rparr>"

text \<open>\<open>seen\<close> may switch compatibility mode on, so it returns the guard as well.\<close>

definition guard_seen :: "replay_guard \<Rightarrow> 'e event \<Rightarrow> seq \<Rightarrow> bool \<times> replay_guard" where
  "guard_seen g ev sq =
     (if replayComplete g \<and> \<not> compatibilityMode g then (sq \<le> highestSeq g, g)
      else if eventIDSet_has (eventIDs g) ev then (True, g\<lparr>compatibilityMode := True\<rparr>)
      else (False, g))"

definition guard_mark :: "replay_guard \<Rightarrow> 'e event \<Rightarrow> seq \<Rightarrow> replay_guard option" where
  "guard_mark g ev sq =
     (let g' = (if highestSeq g < sq then g\<lparr>highestSeq := sq\<rparr> else g) in
      if \<not> replayComplete g' \<or> compatibilityMode g' then
        (case eventIDSet_mark (eventIDs g') ev of
           None \<Rightarrow> None
         | Some ids \<Rightarrow> Some (g'\<lparr>eventIDs := ids\<rparr>))
      else Some g')"

definition guard_seenOrMark ::
  "replay_guard \<Rightarrow> 'e event \<Rightarrow> seq \<Rightarrow> (bool \<times> replay_guard) option" where
  "guard_seenOrMark g ev sq =
     (case guard_seen g ev sq of
        (True, g') \<Rightarrow> Some (True, g')
      | (False, g') \<Rightarrow> map_option (Pair False) (guard_mark g' ev sq))"

definition guard_completeReplay :: "replay_guard \<Rightarrow> replay_guard" where
  "guard_completeReplay g =
     (let g' = g\<lparr>replayComplete := True\<rparr> in
      if \<not> compatibilityMode g' then g'\<lparr>eventIDs := None\<rparr> else g')"

definition guard_compatibilityValue :: "replay_guard \<Rightarrow> int" where
  "guard_compatibilityValue g = (if compatibilityMode g then 1 else 0)"

section \<open>The guard's invariant\<close>

text \<open>
  The set is nil exactly when replay is over and the guard relies on stream
  order alone; it never holds the empty identifier.
\<close>

definition guard_ok :: "replay_guard \<Rightarrow> bool" where
  "guard_ok g \<longleftrightarrow>
     (eventIDs g = None \<longleftrightarrow> replayComplete g \<and> \<not> compatibilityMode g) \<and>
     (\<forall>ids. eventIDs g = Some ids \<longrightarrow> [] |\<notin>| ids)"

lemma guard_ok_new [simp]: "guard_ok newProjectionReplayGuard"
  by (simp add: guard_ok_def newProjectionReplayGuard_def newEventIDSet_def)

lemma guard_ok_complete [simp]: "guard_ok g \<Longrightarrow> guard_ok (guard_completeReplay g)"
  by (auto simp: guard_ok_def guard_completeReplay_def Let_def)

definition seq_only :: "replay_guard \<Rightarrow> bool" where
  "seq_only g \<longleftrightarrow> replayComplete g \<and> \<not> compatibilityMode g"

lemma guard_ids_same: "eventIDs g = x \<Longrightarrow> g\<lparr>eventIDs := x\<rparr> = g"
  by simp

text \<open>The whole operation as one case distinction, the form the proofs use.\<close>

lemma guard_seenOrMark_cases:
  "guard_seenOrMark g ev sq =
     (if seq_only g then
        (if sq \<le> highestSeq g then Some (True, g) else Some (False, g\<lparr>highestSeq := sq\<rparr>))
      else if eventIDSet_has (eventIDs g) ev then Some (True, g\<lparr>compatibilityMode := True\<rparr>)
      else map_option (\<lambda>ids. (False, g\<lparr>eventIDs := ids, highestSeq := max (highestSeq g) sq\<rparr>))
             (eventIDSet_mark (eventIDs g) ev))"
  by (cases "eventIDSet_mark (eventIDs g) ev")
    (auto simp: guard_seenOrMark_def guard_seen_def guard_mark_def Let_def seq_only_def max_def
      split: bool.splits)

lemma guard_ok_mark:
  assumes "guard_ok g" and "\<not> seq_only g"
  shows "\<exists>ids. eventIDSet_mark (eventIDs g) ev = Some (Some ids) \<and> [] |\<notin>| ids"
proof -
  from assms obtain ids where "eventIDs g = Some ids" "[] |\<notin>| ids"
    by (cases "eventIDs g") (auto simp: guard_ok_def seq_only_def)
  then show ?thesis by (simp add: eventIDSet_mark_def)
qed

lemma guard_seenOrMark_ok:
  assumes "guard_ok g"
  shows "\<exists>b g'. guard_seenOrMark g ev sq = Some (b, g') \<and> guard_ok g'"
proof (cases "seq_only g")
  case True
  with assms show ?thesis
    by (auto simp: guard_seenOrMark_cases guard_ok_def seq_only_def)
next
  case False
  then obtain ids where "eventIDSet_mark (eventIDs g) ev = Some (Some ids)" "[] |\<notin>| ids"
    using guard_ok_mark [OF assms] by blast
  with False assms show ?thesis
    by (auto simp: guard_seenOrMark_cases guard_ok_def seq_only_def eventIDSet_has_def
        split: if_splits option.splits)
qed

lemma guard_seenOrMark_keeps_ok:
  "guard_ok g \<Longrightarrow> guard_seenOrMark g ev sq = Some (b, g') \<Longrightarrow> guard_ok g'"
  using guard_seenOrMark_ok [of g ev sq] by auto

lemma guard_seenOrMark_keeps_complete:
  "guard_seenOrMark g ev sq = Some (b, g') \<Longrightarrow> replayComplete g' = replayComplete g"
  by (auto simp: guard_seenOrMark_cases split: if_splits)

text \<open>Behaviour of the guard after replay, ordered by sequence only.\<close>

lemma guard_seenOrMark_seq_only:
  "seq_only g \<Longrightarrow> guard_seenOrMark g ev sq =
     (if sq \<le> highestSeq g then Some (True, g) else Some (False, g\<lparr>highestSeq := sq\<rparr>))"
  by (simp add: guard_seenOrMark_cases)

text \<open>Behaviour while event identities are kept.\<close>

lemma guard_seenOrMark_by_id:
  assumes "\<not> seq_only g" and "eventIDs g = Some ids" and "ev_id ev \<noteq> []"
  shows "guard_seenOrMark g ev sq =
     (if ev_id ev |\<in>| ids then Some (True, g\<lparr>compatibilityMode := True\<rparr>)
      else Some (False, g\<lparr>eventIDs := Some (finsert (ev_id ev) ids),
             highestSeq := max (highestSeq g) sq\<rparr>))"
  using assms by (simp add: guard_seenOrMark_cases eventIDSet_has_def eventIDSet_mark_def)

section \<open>The guard in a snapshot\<close>

record guard_snapshot =
  gs_highest_sequence :: seq
  gs_compatibility_mode :: bool
  gs_replay_complete :: bool
  gs_event_ids :: "string list"

datatype guard_error = EventIDsOutsideCompatibility | EmptyEventID | RepeatedEventID string

definition sortedEventIDs :: "eventIDSet option \<Rightarrow> string list" where
  "sortedEventIDs s = (case s of None \<Rightarrow> [] | Some ids \<Rightarrow> sorted_list_of_fset ids)"

definition snapshotReplayGuard :: "replay_guard \<Rightarrow> guard_snapshot" where
  "snapshotReplayGuard g =
     \<lparr>gs_highest_sequence = highestSeq g,
      gs_compatibility_mode = compatibilityMode g,
      gs_replay_complete = replayComplete g,
      gs_event_ids = (if compatibilityMode g then sortedEventIDs (eventIDs g) else [])\<rparr>"

definition restoreEventID :: "string \<Rightarrow> eventIDSet \<Rightarrow> guard_error + eventIDSet" where
  "restoreEventID i ids =
     (if i = [] then Inl EmptyEventID
      else if i |\<in>| ids then Inl (RepeatedEventID i)
      else Inr (finsert i ids))"

definition restoreReplayGuard :: "guard_snapshot option \<Rightarrow> guard_error + replay_guard" where
  "restoreReplayGuard snap =
     (case snap of
        None \<Rightarrow> Inr newProjectionReplayGuard
      | Some s \<Rightarrow>
          if gs_event_ids s \<noteq> [] \<and> \<not> gs_compatibility_mode s
          then Inl EventIDsOutsideCompatibility
          else (case fold_res restoreEventID (gs_event_ids s) newEventIDSet of
                  Inl e \<Rightarrow> Inl e
                | Inr ids \<Rightarrow>
                    Inr \<lparr>eventIDs = (if gs_replay_complete s \<and> \<not> gs_compatibility_mode s
                                     then None else Some ids),
                         highestSeq = gs_highest_sequence s,
                         replayComplete = gs_replay_complete s,
                         compatibilityMode = gs_compatibility_mode s\<rparr>))"

lemma fold_res_restoreEventID:
  assumes "distinct xs" and "[] \<notin> set xs" and "set xs \<inter> fset ids = {}"
  shows "fold_res restoreEventID xs ids = Inr (fset_of_list xs |\<union>| ids)"
  using assms by (induction xs arbitrary: ids) (auto simp: restoreEventID_def)

text \<open>
  Event identities survive a snapshot only in compatibility mode. Outside it, a
  guard taken after replay comes back unchanged; one taken during replay forgets
  the identities it had collected.
\<close>

lemma restore_snapshot_guard:
  assumes "guard_ok g"
  shows "restoreReplayGuard (Some (snapshotReplayGuard g)) =
     Inr (if replayComplete g \<or> compatibilityMode g then g
          else g\<lparr>eventIDs := Some newEventIDSet\<rparr>)"
proof -
  have ids: "fold_res restoreEventID (sorted_list_of_fset ids) newEventIDSet = Inr ids"
    if "eventIDs g = Some ids" for ids
    using assms that
    by (subst fold_res_restoreEventID)
      (auto simp: guard_ok_def newEventIDSet_def sorted_list_of_fset.rep_eq fset_inverse
        fset_of_list.abs_eq eq_onp_same_args)
  show ?thesis
    using assms ids
    by (cases "eventIDs g")
      (auto simp: restoreReplayGuard_def snapshotReplayGuard_def sortedEventIDs_def guard_ok_def
        newEventIDSet_def)
qed

lemma restoreReplayGuard_ok:
  assumes "restoreReplayGuard s = Inr g"
  shows "guard_ok g"
proof (cases s)
  case None
  then show ?thesis using assms by (simp add: restoreReplayGuard_def)
next
  case (Some gs)
  then obtain ids where ids: "fold_res restoreEventID (gs_event_ids gs) newEventIDSet = Inr ids"
    and g: "eventIDs g = (if gs_replay_complete gs \<and> \<not> gs_compatibility_mode gs then None else Some ids)"
      "replayComplete g = gs_replay_complete gs" "compatibilityMode g = gs_compatibility_mode gs"
    using assms by (auto simp: restoreReplayGuard_def split: if_splits sum.splits)
  have "[] |\<notin>| ids"
    by (rule fold_res_inv [OF ids]) (auto simp: newEventIDSet_def restoreEventID_def split: if_splits)
  then show ?thesis using g by (auto simp: guard_ok_def)
qed

end
