(* ===== verification/Projection_Contract.thy ===== *)
theory Projection_Contract
  imports Replay_Guard
begin

text \<open>
  The contract between a guarded projection and its clients. The projector hands
  a projection every record of the stream at least once, in stream order; the
  projection passes it through its replay guard and, unless the guard has seen
  it, reduces it into its state. What follows from that alone is proved here once
  (a run never panics, repeated identities and redelivered sequences change
  nothing, a restored snapshot continues the run), and every projection of the
  development is an interpretation.
\<close>

section \<open>Guarded projections\<close>

text \<open>
  The events of a log that count while identities are kept: the first event of
  each identity, and every event without one.
\<close>

fun first_wins :: "string fset \<Rightarrow> ('e event \<times> seq) list \<Rightarrow> ('e event \<times> seq) list" where
  "first_wins ids [] = []"
| "first_wins ids ((ev, sq) # log) =
     (if ev_id ev = [] then (ev, sq) # first_wins ids log
      else if ev_id ev |\<in>| ids then first_wins ids log
      else (ev, sq) # first_wins (finsert (ev_id ev) ids) log)"

lemma first_wins_distinct:
  assumes "distinct (map (ev_id \<circ> fst) log)" and "ev_id ` fst ` set log \<inter> fset ids = {}"
  shows "first_wins ids log = log"
  using assms
  by (induction ids log rule: first_wins.induct) (auto simp: image_iff)

text \<open>A record of a log that the stream order alone accepts: sequences strictly increase.\<close>

fun increasing_from :: "seq \<Rightarrow> ('e event \<times> seq) list \<Rightarrow> bool" where
  "increasing_from b [] = True"
| "increasing_from b ((ev, sq) # log) = (b < sq \<and> increasing_from sq log)"

fun last_seq :: "seq \<Rightarrow> ('e event \<times> seq) list \<Rightarrow> seq" where
  "last_seq b [] = b"
| "last_seq b ((ev, sq) # log) = last_seq sq log"

lemma last_seq_ge: "increasing_from b log \<Longrightarrow> b \<le> last_seq b log"
  by (induction b log rule: increasing_from.induct) (auto intro: order_trans less_imp_le)

lemma increasing_le_last:
  "increasing_from b log \<Longrightarrow> (ev, sq) \<in> set log \<Longrightarrow> sq \<le> last_seq b log"
  by (induction b log rule: increasing_from.induct) (auto dest: last_seq_ge)

text \<open>
  The projector's delivery of a log to a projection's \<open>Apply\<close>, in stream order; the
  run stops when an \<open>Apply\<close> does. And the state a log reduces to, event by event.
\<close>

definition deliver ::
  "('p \<Rightarrow> 'e event option \<Rightarrow> seq \<Rightarrow> 'p option) \<Rightarrow> ('e event \<times> seq) list \<Rightarrow> 'p \<Rightarrow> 'p option" where
  "deliver apply_ev log p = fold_opt (\<lambda>(ev, sq) p. apply_ev p (Some ev) sq) log p"

definition reduce_log ::
  "('e event \<Rightarrow> seq \<Rightarrow> 'p \<Rightarrow> 'p) \<Rightarrow> ('e event \<times> seq) list \<Rightarrow> 'p \<Rightarrow> 'p" where
  "reduce_log reduce log p = fold (\<lambda>(ev, sq). reduce ev sq) log p"

lemma deliver_Nil [simp]: "deliver ap [] p = Some p"
  by (simp add: deliver_def)

lemma deliver_Cons [simp]:
  "deliver ap ((ev, sq) # log) p =
     (case ap p (Some ev) sq of None \<Rightarrow> None | Some q \<Rightarrow> deliver ap log q)"
  by (simp add: deliver_def split: option.splits)

lemma deliver_append:
  "deliver ap (xs @ ys) p = (case deliver ap xs p of None \<Rightarrow> None | Some q \<Rightarrow> deliver ap ys q)"
  by (simp add: deliver_def fold_opt_append split: option.splits)

lemma reduce_log_simps [simp]:
  "reduce_log red [] p = p"
  "reduce_log red ((ev, sq) # log) p = reduce_log red log (red ev sq p)"
  by (simp_all add: reduce_log_def)

locale guarded_projection =
  fixes guard :: "'p \<Rightarrow> replay_guard"
    and set_guard :: "replay_guard \<Rightarrow> 'p \<Rightarrow> 'p"
    and reduce :: "'e event \<Rightarrow> seq \<Rightarrow> 'p \<Rightarrow> 'p"
    and apply_ev :: "'p \<Rightarrow> 'e event option \<Rightarrow> seq \<Rightarrow> 'p option"
    and complete :: "'p \<Rightarrow> 'p"
  assumes guard_set: "guard (set_guard g p) = g"
    and set_guard_twice: "set_guard g (set_guard g' p) = set_guard g p"
    and set_guard_same: "set_guard (guard p) p = p"
    and reduce_set_guard: "reduce ev sq (set_guard g p) = set_guard g (reduce ev sq p)"
    and apply_nil: "apply_ev p None sq = Some p"
    and apply_event: "apply_ev p (Some ev) sq =
          (case guard_seenOrMark (guard p) ev sq of
             None \<Rightarrow> None
           | Some (seen, g) \<Rightarrow>
               Some (if seen then set_guard g p else reduce ev sq (set_guard g p)))"
    and complete_guard: "complete p = set_guard (guard_completeReplay (guard p)) p"
begin

abbreviation run :: "('e event \<times> seq) list \<Rightarrow> 'p \<Rightarrow> 'p option" where
  "run \<equiv> deliver apply_ev"

abbreviation reduce_all :: "('e event \<times> seq) list \<Rightarrow> 'p \<Rightarrow> 'p" where
  "reduce_all \<equiv> reduce_log reduce"

lemma guard_reduce: "guard (reduce ev sq p) = guard p"
  by (metis guard_set reduce_set_guard set_guard_same)

lemma guard_reduce_all: "guard (reduce_all log p) = guard p"
  by (induction log arbitrary: p) (auto simp: guard_reduce)

lemma reduce_all_set_guard: "reduce_all log (set_guard g p) = set_guard g (reduce_all log p)"
  by (induction log arbitrary: p) (auto simp: reduce_set_guard)

text \<open>No event makes a well-formed projection panic.\<close>

lemma apply_total:
  assumes "guard_ok (guard p)"
  shows "\<exists>q. apply_ev p (Some ev) sq = Some q \<and> guard_ok (guard q)
     \<and> replayComplete (guard q) = replayComplete (guard p)"
  using guard_seenOrMark_ok [OF assms, of ev sq]
  by (auto simp: apply_event guard_set guard_reduce dest: guard_seenOrMark_keeps_complete)

lemma run_total:
  assumes "guard_ok (guard p)"
  shows "\<exists>q. run log p = Some q \<and> guard_ok (guard q)
     \<and> replayComplete (guard q) = replayComplete (guard p)"
  using assms
proof (induction log arbitrary: p)
  case Nil
  then show ?case by simp
next
  case (Cons x log)
  obtain ev sq where x: "x = (ev, sq)" by force
  from apply_total [OF Cons.prems, of ev sq] obtain q where
    q: "apply_ev p (Some ev) sq = Some q" "guard_ok (guard q)"
       "replayComplete (guard q) = replayComplete (guard p)"
    by blast
  with Cons.IH [of q] show ?case by (auto simp: x)
qed

text \<open>
  While identities are kept, a run has the effect of its first-wins log: a
  republished event identity is ignored, whatever its payload and sequence.
\<close>

lemma run_first_wins:
  assumes "guard_ok (guard p)" and "\<not> seq_only (guard p)" and "eventIDs (guard p) = Some ids"
  shows "\<exists>q. run log p = Some q \<and>
     set_guard g (reduce_all (first_wins ids log) p) = set_guard g q"
  using assms
proof (induction log arbitrary: p ids)
  case Nil
  then show ?case by simp
next
  case (Cons x log)
  obtain ev sq where x: "x = (ev, sq)" by force
  show ?case
  proof (cases "ev_id ev = []")
    case True
    let ?g = "(guard p)\<lparr>highestSeq := max (highestSeq (guard p)) sq\<rparr>"
    have ap: "apply_ev p (Some ev) sq = Some (set_guard ?g (reduce ev sq p))"
      using True Cons.prems(2,3)
      by (simp add: apply_event guard_seenOrMark_cases eventIDSet_has_def eventIDSet_mark_def
          reduce_set_guard guard_ids_same)
    have "guard_ok ?g" "\<not> seq_only ?g"
      using Cons.prems by (auto simp: guard_ok_def seq_only_def)
    then obtain q where "run log (set_guard ?g (reduce ev sq p)) = Some q"
      and "set_guard g (reduce_all (first_wins ids log) (set_guard ?g (reduce ev sq p))) = set_guard g q"
      using Cons.IH [of "set_guard ?g (reduce ev sq p)" ids] Cons.prems(3) by (auto simp: guard_set)
    then show ?thesis
      using ap True by (simp add: x reduce_all_set_guard set_guard_twice)
  next
    case False
    note by_id = guard_seenOrMark_by_id [OF Cons.prems(2,3) False, of sq]
    show ?thesis
    proof (cases "ev_id ev |\<in>| ids")
      case True
      let ?g = "(guard p)\<lparr>compatibilityMode := True\<rparr>"
      have ap: "apply_ev p (Some ev) sq = Some (set_guard ?g p)"
        using True by (simp add: apply_event by_id)
      have "guard_ok ?g" "\<not> seq_only ?g"
        using Cons.prems by (auto simp: guard_ok_def seq_only_def)
      then obtain q where "run log (set_guard ?g p) = Some q"
        and "set_guard g (reduce_all (first_wins ids log) (set_guard ?g p)) = set_guard g q"
        using Cons.IH [of "set_guard ?g p" ids] Cons.prems(3) by (auto simp: guard_set)
      then show ?thesis
        using ap True False by (simp add: x reduce_all_set_guard set_guard_twice)
    next
      case new: False
      let ?g = "(guard p)\<lparr>eventIDs := Some (finsert (ev_id ev) ids),
                  highestSeq := max (highestSeq (guard p)) sq\<rparr>"
      have ap: "apply_ev p (Some ev) sq = Some (set_guard ?g (reduce ev sq p))"
        using new by (simp add: apply_event by_id reduce_set_guard)
      have "guard_ok ?g" "\<not> seq_only ?g"
        using Cons.prems False by (auto simp: guard_ok_def seq_only_def)
      then obtain q where "run log (set_guard ?g (reduce ev sq p)) = Some q"
        and "set_guard g (reduce_all (first_wins (finsert (ev_id ev) ids) log)
               (set_guard ?g (reduce ev sq p))) = set_guard g q"
        using Cons.IH [of "set_guard ?g (reduce ev sq p)" "finsert (ev_id ev) ids"]
        by (auto simp: guard_set)
      then show ?thesis
        using ap new False by (simp add: x reduce_all_set_guard set_guard_twice)
    qed
  qed
qed

text \<open>
  After replay the stream order decides: an increasing log is reduced in full,
  and records at or below the highest sequence are redeliveries without effect.
\<close>

lemma run_increasing:
  assumes "seq_only (guard p)" and "increasing_from (highestSeq (guard p)) log"
  shows "run log p =
    Some (set_guard ((guard p)\<lparr>highestSeq := last_seq (highestSeq (guard p)) log\<rparr>)
            (reduce_all log p))"
  using assms
proof (induction log arbitrary: p)
  case Nil
  then show ?case by (simp add: set_guard_same)
next
  case (Cons x log)
  obtain ev sq where x: "x = (ev, sq)" by force
  let ?p = "reduce ev sq (set_guard ((guard p)\<lparr>highestSeq := sq\<rparr>) p)"
  have ap: "apply_ev p (Some ev) sq = Some ?p"
    using Cons.prems by (auto simp: apply_event guard_seenOrMark_seq_only x)
  have g: "guard ?p = (guard p)\<lparr>highestSeq := sq\<rparr>"
    by (simp add: guard_reduce guard_set)
  have "seq_only (guard ?p)"
    using Cons.prems(1) g by (simp add: seq_only_def)
  then have "run log ?p = Some (set_guard ((guard ?p)\<lparr>highestSeq := last_seq sq log\<rparr>) (reduce_all log ?p))"
    using Cons.IH [of ?p] Cons.prems(2) g by (simp add: x)
  then show ?case
    by (simp add: x ap g guard_set reduce_set_guard reduce_all_set_guard set_guard_twice)
qed

lemma run_redelivered:
  assumes "seq_only (guard p)" and "\<forall>(ev, sq) \<in> set log. sq \<le> highestSeq (guard p)"
  shows "run log p = Some p"
  using assms
  by (induction log)
    (auto simp: apply_event guard_seenOrMark_seq_only set_guard_same)

lemma run_at_least_once:
  assumes "seq_only (guard p)" and "increasing_from (highestSeq (guard p)) log"
    and "set again \<subseteq> set log"
  shows "run (log @ again) p = run log p"
proof -
  let ?q = "set_guard ((guard p)\<lparr>highestSeq := last_seq (highestSeq (guard p)) log\<rparr>) (reduce_all log p)"
  have "run again ?q = Some ?q"
  proof (rule run_redelivered)
    show "seq_only (guard ?q)" using assms(1) by (simp add: guard_set seq_only_def)
    show "\<forall>(ev, sq) \<in> set again. sq \<le> highestSeq (guard ?q)"
      using assms(2,3) by (auto simp: guard_set dest: increasing_le_last)
  qed
  then show ?thesis
    by (simp add: deliver_append run_increasing [OF assms(1,2)])
qed

end

section \<open>Projections with snapshots\<close>

locale snapshot_projection = guarded_projection guard set_guard reduce apply_ev complete
  for guard :: "'p \<Rightarrow> replay_guard"
    and set_guard :: "replay_guard \<Rightarrow> 'p \<Rightarrow> 'p"
    and reduce :: "'e event \<Rightarrow> seq \<Rightarrow> 'p \<Rightarrow> 'p"
    and apply_ev :: "'p \<Rightarrow> 'e event option \<Rightarrow> seq \<Rightarrow> 'p option"
    and complete :: "'p \<Rightarrow> 'p" +
  fixes snapshot :: "'p \<Rightarrow> 'm"
    and restore :: "'m \<Rightarrow> 'err + 'p"
    and wf :: "'p \<Rightarrow> bool"
  assumes wf_reduce: "wf p \<Longrightarrow> wf (reduce ev sq p)"
    and wf_set_guard: "wf (set_guard g p) = wf p"
    and restore_snapshot: "wf p \<Longrightarrow> guard_ok (guard p) \<Longrightarrow> replayComplete (guard p) \<Longrightarrow>
          restore (snapshot p) = Inr p"
begin

lemma wf_apply: "wf p \<Longrightarrow> apply_ev p (Some ev) sq = Some q \<Longrightarrow> wf q"
  by (auto simp: apply_event wf_set_guard wf_reduce split: option.splits prod.splits if_splits)

lemma wf_run: "wf p \<Longrightarrow> run log p = Some q \<Longrightarrow> wf q"
proof (induction log arbitrary: p)
  case Nil
  then show ?case by simp
next
  case (Cons x log)
  then show ?case by (cases x) (auto split: option.splits dest: wf_apply)
qed

lemma wf_complete: "wf p \<Longrightarrow> wf (complete p)"
  by (simp add: complete_guard wf_set_guard)

text \<open>
  Restart from a snapshot: capture the state after any prefix of the live log,
  restore it in a fresh process and deliver the rest; the result is that of the
  uninterrupted run.
\<close>

lemma resume_from_snapshot:
  assumes "wf p" and "guard_ok (guard p)" and "replayComplete (guard p)"
    and "run before p = Some q" and "restore (snapshot q) = Inr r"
  shows "run after r = run (before @ after) p"
proof -
  have "guard_ok (guard q)" "replayComplete (guard q)"
    using run_total [OF assms(2), of before] assms(3,4) by auto
  then have "restore (snapshot q) = Inr q"
    using wf_run [OF assms(1,4)] by (simp add: restore_snapshot)
  then have "r = q" using assms(5) by simp
  then show ?thesis using assms(4) by (simp add: deliver_append)
qed

end

section \<open>The snapshot codec\<close>

text \<open>What the code relies on of the protobuf library: decoding inverts encoding,
  and no bytes encode the empty message.\<close>

definition proto_codec ::
  "'m \<Rightarrow> ('m \<Rightarrow> 8 word list option) \<Rightarrow> (8 word list \<Rightarrow> 'm option) \<Rightarrow> bool" where
  "proto_codec dflt marshal unmarshal \<longleftrightarrow>
     (\<forall>m d. marshal m = Some d \<longrightarrow> unmarshal d = Some m) \<and> unmarshal [] = Some dflt"

section \<open>Components that restart from a snapshot\<close>

text \<open>
  The contract of a component without a replay guard: a step for each record, a
  snapshot and a restore. Records the writers never produce may leave the states a
  snapshot can describe, so the contract names the records it covers.
\<close>

locale snapshot_component =
  fixes step :: "'x \<Rightarrow> 'p \<Rightarrow> 'p"
    and snapshot :: "'p \<Rightarrow> 'm"
    and restore :: "'m \<Rightarrow> 'err + 'p"
    and wf :: "'p \<Rightarrow> bool"
    and covered :: "'x \<Rightarrow> bool"
  assumes wf_step: "wf p \<Longrightarrow> covered x \<Longrightarrow> wf (step x p)"
    and restore_of_snapshot: "wf p \<Longrightarrow> restore (snapshot p) = Inr p"
begin

lemma wf_steps: "wf p \<Longrightarrow> \<forall>x \<in> set xs. covered x \<Longrightarrow> wf (fold step xs p)"
  by (induction xs arbitrary: p) (auto simp: wf_step)

lemma restart:
  assumes "wf p" and "\<forall>x \<in> set xs. covered x"
  shows "restore (snapshot (fold step xs p)) = Inr (fold step xs p)"
  using assms by (intro restore_of_snapshot wf_steps)

end

end
