(* ===== verification/Permission_Catalog.thy ===== *)
theory Permission_Catalog
  imports Chatto_Prelude "HOL-Library.Multiset"
begin

text \<open>
  The permission catalog of \<open>cli/internal/core/permission.go\<close>: scopes, categories,
  the known permissions with their metadata, the validation that the package
  initialiser runs over the catalog, the lookups derived from the validated
  index, and the default grants of the built-in roles. With it the role names of
  \<open>permissions.go\<close>, the role positions of \<open>rbac_positions.go\<close> and the subject
  kinds of \<open>rbac_subject.go\<close>.
\<close>

section \<open>Scopes, categories, permissions\<close>

datatype permission_scope = ScopeServer | ScopeGroup | ScopeRoom | ScopeDM

primrec scope_string :: "permission_scope \<Rightarrow> string" where
  "scope_string ScopeServer = ''server''"
| "scope_string ScopeGroup = ''group''"
| "scope_string ScopeRoom = ''room''"
| "scope_string ScopeDM = ''dm''"

lemma scope_string_inject [simp]: "scope_string a = scope_string b \<longleftrightarrow> a = b"
  by (cases a; cases b) simp_all

text \<open>Go compares scopes as strings; the order of the type is that order.\<close>

instantiation permission_scope :: linorder
begin

definition less_eq_permission_scope :: "permission_scope \<Rightarrow> permission_scope \<Rightarrow> bool" where
  "a \<le> b \<longleftrightarrow> scope_string a \<le> scope_string b"

definition less_permission_scope :: "permission_scope \<Rightarrow> permission_scope \<Rightarrow> bool" where
  "a < b \<longleftrightarrow> scope_string a < scope_string b"

instance
  by standard
    (auto simp: less_eq_permission_scope_def less_permission_scope_def order_less_le)

end

datatype permission_category =
  CategoryServer | CategoryRoom | CategoryCall | CategoryMessage
| CategoryRole | CategoryAdmin | CategoryUser | CategoryBot

type_synonym permission = string

abbreviation PermServerManage :: permission where "PermServerManage \<equiv> ''server.manage''"
abbreviation PermServerManageNeighbors :: permission where "PermServerManageNeighbors \<equiv> ''server.manage-neighbors''"
abbreviation PermRoomCreate :: permission where "PermRoomCreate \<equiv> ''room.create''"
abbreviation PermRoomJoin :: permission where "PermRoomJoin \<equiv> ''room.join''"
abbreviation PermRoomInvite :: permission where "PermRoomInvite \<equiv> ''room.invite''"
abbreviation PermRoomList :: permission where "PermRoomList \<equiv> ''room.list''"
abbreviation PermRoomManage :: permission where "PermRoomManage \<equiv> ''room.manage''"
abbreviation PermRoomManageNotice :: permission where "PermRoomManageNotice \<equiv> ''room.manage-notice''"
abbreviation PermRoomMemberRemove :: permission where "PermRoomMemberRemove \<equiv> ''room.remove-member''"
abbreviation PermCallStart :: permission where "PermCallStart \<equiv> ''call.start''"
abbreviation PermCallJoin :: permission where "PermCallJoin \<equiv> ''call.join''"
abbreviation PermCallVoice :: permission where "PermCallVoice \<equiv> ''call.voice''"
abbreviation PermCallCamera :: permission where "PermCallCamera \<equiv> ''call.camera''"
abbreviation PermCallScreenShare :: permission where "PermCallScreenShare \<equiv> ''call.screenshare''"
abbreviation PermMessageRead :: permission where "PermMessageRead \<equiv> ''message.read''"
abbreviation PermMessageReadInteractions :: permission where "PermMessageReadInteractions \<equiv> ''message.read-interactions''"
abbreviation PermMessagePost :: permission where "PermMessagePost \<equiv> ''message.post''"
abbreviation PermMessagePostInThread :: permission where "PermMessagePostInThread \<equiv> ''message.post-in-thread''"
abbreviation PermMessagePostInInteractions :: permission where "PermMessagePostInInteractions \<equiv> ''message.post-in-interactions''"
abbreviation PermMessageAttach :: permission where "PermMessageAttach \<equiv> ''message.attach''"
abbreviation PermMessageManage :: permission where "PermMessageManage \<equiv> ''message.manage''"
abbreviation PermMessagePin :: permission where "PermMessagePin \<equiv> ''message.pin''"
abbreviation PermMessageReact :: permission where "PermMessageReact \<equiv> ''message.react''"
abbreviation PermMessageEcho :: permission where "PermMessageEcho \<equiv> ''message.echo''"
abbreviation PermRoleManage :: permission where "PermRoleManage \<equiv> ''role.manage''"
abbreviation PermRoleAssign :: permission where "PermRoleAssign \<equiv> ''role.assign''"
abbreviation PermAdminUsersView :: permission where "PermAdminUsersView \<equiv> ''admin.view-users''"
abbreviation PermAdminAuditView :: permission where "PermAdminAuditView \<equiv> ''admin.view-audit''"
abbreviation PermUserDeleteAny :: permission where "PermUserDeleteAny \<equiv> ''user.delete-any''"
abbreviation PermUserDeleteSelf :: permission where "PermUserDeleteSelf \<equiv> ''user.delete-self''"
abbreviation PermUserInvite :: permission where "PermUserInvite \<equiv> ''user.invite''"
abbreviation PermUserManageInvites :: permission where "PermUserManageInvites \<equiv> ''user.manage-invites''"
abbreviation PermUserManageAccounts :: permission where "PermUserManageAccounts \<equiv> ''user.manage-accounts''"
abbreviation PermUserManagePermissions :: permission where "PermUserManagePermissions \<equiv> ''user.manage-permissions''"
abbreviation PermBotCreate :: permission where "PermBotCreate \<equiv> ''bot.create''"
abbreviation PermBotManage :: permission where "PermBotManage \<equiv> ''bot.manage''"

record permission_metadata =
  pm_permission :: permission
  pm_category :: permission_category
  pm_scopes :: "permission_scope list"
  pm_includes :: "permission list"
  pm_requires_privileged :: bool

abbreviation perm_meta ::
  "permission \<Rightarrow> permission_category \<Rightarrow> permission_scope list \<Rightarrow> permission list \<Rightarrow> bool
    \<Rightarrow> permission_metadata" where
  "perm_meta p c s i r \<equiv>
     \<lparr>pm_permission = p, pm_category = c, pm_scopes = s, pm_includes = i,
      pm_requires_privileged = r\<rparr>"

definition allPermissions :: "permission_metadata list" where
  "allPermissions = [
    perm_meta PermServerManage CategoryServer [ScopeServer] [PermServerManageNeighbors] True,
    perm_meta PermServerManageNeighbors CategoryServer [ScopeServer] [] True,
    perm_meta PermRoomCreate CategoryRoom [ScopeServer, ScopeGroup] [] True,
    perm_meta PermRoomJoin CategoryRoom [ScopeServer, ScopeGroup, ScopeRoom] [] False,
    perm_meta PermRoomInvite CategoryRoom [ScopeServer, ScopeGroup, ScopeRoom] [] False,
    perm_meta PermRoomList CategoryRoom [ScopeServer, ScopeGroup, ScopeRoom] [] False,
    perm_meta PermRoomManage CategoryRoom [ScopeServer, ScopeGroup, ScopeRoom] [] True,
    perm_meta PermRoomManageNotice CategoryRoom [ScopeServer, ScopeGroup, ScopeRoom] [] False,
    perm_meta PermRoomMemberRemove CategoryRoom [ScopeServer, ScopeGroup, ScopeRoom] [] True,
    perm_meta PermCallStart CategoryCall [ScopeServer, ScopeGroup, ScopeRoom, ScopeDM] [] False,
    perm_meta PermCallJoin CategoryCall [ScopeServer, ScopeGroup, ScopeRoom, ScopeDM] [] False,
    perm_meta PermCallVoice CategoryCall [ScopeServer, ScopeGroup, ScopeRoom, ScopeDM] [] False,
    perm_meta PermCallCamera CategoryCall [ScopeServer, ScopeGroup, ScopeRoom, ScopeDM] [] False,
    perm_meta PermCallScreenShare CategoryCall [ScopeServer, ScopeGroup, ScopeRoom, ScopeDM] [] False,
    perm_meta PermMessageRead CategoryMessage [ScopeServer, ScopeGroup, ScopeRoom, ScopeDM] [PermMessageReadInteractions] False,
    perm_meta PermMessageReadInteractions CategoryMessage [ScopeServer, ScopeGroup, ScopeRoom, ScopeDM] [] False,
    perm_meta PermMessagePost CategoryMessage [ScopeServer, ScopeGroup, ScopeRoom, ScopeDM] [PermMessagePostInThread, PermMessagePostInInteractions] False,
    perm_meta PermMessagePostInThread CategoryMessage [ScopeServer, ScopeGroup, ScopeRoom, ScopeDM] [] False,
    perm_meta PermMessagePostInInteractions CategoryMessage [ScopeServer, ScopeGroup, ScopeRoom, ScopeDM] [] False,
    perm_meta PermMessageAttach CategoryMessage [ScopeServer, ScopeGroup, ScopeRoom, ScopeDM] [] False,
    perm_meta PermMessageManage CategoryMessage [ScopeServer, ScopeGroup, ScopeRoom, ScopeDM] [] True,
    perm_meta PermMessagePin CategoryMessage [ScopeServer, ScopeGroup, ScopeRoom] [] False,
    perm_meta PermMessageReact CategoryMessage [ScopeServer, ScopeGroup, ScopeRoom, ScopeDM] [] False,
    perm_meta PermMessageEcho CategoryMessage [ScopeServer, ScopeGroup, ScopeRoom, ScopeDM] [] False,
    perm_meta PermRoleManage CategoryRole [ScopeServer] [] True,
    perm_meta PermRoleAssign CategoryRole [ScopeServer] [] True,
    perm_meta PermAdminUsersView CategoryAdmin [ScopeServer] [] True,
    perm_meta PermAdminAuditView CategoryAdmin [ScopeServer] [] True,
    perm_meta PermUserDeleteAny CategoryUser [ScopeServer] [] True,
    perm_meta PermUserDeleteSelf CategoryUser [ScopeServer] [] False,
    perm_meta PermUserInvite CategoryUser [ScopeServer] [] False,
    perm_meta PermUserManageInvites CategoryUser [ScopeServer] [] True,
    perm_meta PermUserManageAccounts CategoryUser [ScopeServer] [] True,
    perm_meta PermUserManagePermissions CategoryUser [ScopeServer] [] True,
    perm_meta PermBotCreate CategoryBot [ScopeServer] [] False,
    perm_meta PermBotManage CategoryBot [ScopeServer] [] True
  ]"

section \<open>Validation of a catalog\<close>

datatype catalog_error =
  EmptyPermission
| DuplicatePermission permission
| IncludesUnknown permission permission
| IncludesItself permission
| DifferentCategories permission permission
| DifferentScopes permission permission
| DifferentPrivilegedMode permission permission

text \<open>
  \<open>samePermissionScopes\<close> counts the scopes of the left list up and those of the
  right list down in one map and requires every counter to end at zero.
\<close>

type_synonym scope_counts = "(permission_scope, int) fmap"

definition bump_scope :: "int \<Rightarrow> permission_scope \<Rightarrow> scope_counts \<Rightarrow> scope_counts" where
  "bump_scope d s m = fmupd s ((case fmlookup m s of None \<Rightarrow> 0 | Some c \<Rightarrow> c) + d) m"

definition samePermissionScopes :: "permission_scope list \<Rightarrow> permission_scope list \<Rightarrow> bool" where
  "samePermissionScopes l r =
     (if length l \<noteq> length r then False
      else let counts = fold (bump_scope (-1)) r (fold (bump_scope 1) l fmempty)
           in fmpred (\<lambda>_ c. c = 0) counts)"

type_synonym permission_index = "(permission, permission_metadata) fmap"

definition catalog_insert ::
  "permission_metadata \<Rightarrow> permission_index \<Rightarrow> catalog_error + permission_index" where
  "catalog_insert md index =
     (if pm_permission md = [] then Inl EmptyPermission
      else if fmlookup index (pm_permission md) \<noteq> None
      then Inl (DuplicatePermission (pm_permission md))
      else Inr (fmupd (pm_permission md) md index))"

definition check_included ::
  "permission_index \<Rightarrow> permission_metadata \<Rightarrow> permission \<Rightarrow> catalog_error + unit" where
  "check_included index md inc =
     (case fmlookup index inc of
        None \<Rightarrow> Inl (IncludesUnknown (pm_permission md) inc)
      | Some included \<Rightarrow>
          if pm_permission md = inc then Inl (IncludesItself (pm_permission md))
          else if pm_category md \<noteq> pm_category included
          then Inl (DifferentCategories (pm_permission md) inc)
          else if \<not> samePermissionScopes (pm_scopes md) (pm_scopes included)
          then Inl (DifferentScopes (pm_permission md) inc)
          else if pm_requires_privileged md \<noteq> pm_requires_privileged included
          then Inl (DifferentPrivilegedMode (pm_permission md) inc)
          else Inr ())"

definition validatePermissionCatalog ::
  "permission_metadata list \<Rightarrow> catalog_error + permission_index" where
  "validatePermissionCatalog catalog =
     (case fold_res catalog_insert catalog fmempty of
        Inl e \<Rightarrow> Inl e
      | Inr index \<Rightarrow>
          (case fold_res (\<lambda>md _. fold_res (\<lambda>inc _. check_included index md inc)
                                   (pm_includes md) ()) catalog () of
             Inl e \<Rightarrow> Inl e
           | Inr _ \<Rightarrow> Inr index))"

text \<open>
  The package initialiser panics on an invalid catalog. The index that every
  lookup reads is the one it stores otherwise.
\<close>

definition permissionIndex :: permission_index where
  "permissionIndex =
     (case validatePermissionCatalog allPermissions of Inl _ \<Rightarrow> fmempty | Inr index \<Rightarrow> index)"

section \<open>Lookups\<close>

definition GetPermissionMetadata :: "permission \<Rightarrow> permission_metadata option" where
  "GetPermissionMetadata perm = fmlookup permissionIndex perm"

definition ValidatePermission :: "permission \<Rightarrow> bool" where
  "ValidatePermission perm \<longleftrightarrow> fmlookup permissionIndex perm \<noteq> None"

definition PermissionAppliesAtScope :: "permission \<Rightarrow> permission_scope \<Rightarrow> bool" where
  "PermissionAppliesAtScope perm scope =
     (case fmlookup permissionIndex perm of
        None \<Rightarrow> False
      | Some md \<Rightarrow> scope \<in> set (pm_scopes md))"

definition includingPermissionsFrom :: "permission_index \<Rightarrow> permission \<Rightarrow> permission list" where
  "includingPermissionsFrom index perm =
     (if fmlookup index perm = None then []
      else filter (\<lambda>candidate. case fmlookup index candidate of
                     None \<Rightarrow> False | Some md \<Rightarrow> perm \<in> set (pm_includes md))
             (sortedMapKeys index))"

definition includingPermissions :: "permission \<Rightarrow> permission list" where
  "includingPermissions perm = includingPermissionsFrom permissionIndex perm"

definition PermissionsForScope :: "permission_scope \<Rightarrow> permission_metadata list" where
  "PermissionsForScope scope = filter (\<lambda>p. scope \<in> set (pm_scopes p)) allPermissions"

definition PermissionsForCategory :: "permission_category \<Rightarrow> permission_metadata list" where
  "PermissionsForCategory c = filter (\<lambda>p. pm_category p = c) allPermissions"

section \<open>Default grants of the built-in roles\<close>

definition DefaultEveryonePermissions :: "permission list" where
  "DefaultEveryonePermissions =
     [PermUserDeleteSelf, PermRoomList, PermRoomJoin, PermMessageRead, PermMessagePost,
      PermMessagePostInThread, PermMessageAttach, PermMessageReact, PermMessageEcho,
      PermCallStart, PermCallJoin, PermCallVoice, PermCallCamera, PermCallScreenShare]"

definition DefaultModeratorPermissions :: "permission list" where
  "DefaultModeratorPermissions =
     [PermMessageManage, PermMessagePin, PermRoomMemberRemove]"

definition DefaultAdminPermissions :: "permission list" where
  "DefaultAdminPermissions =
     [PermServerManage, PermUserInvite, PermUserManageInvites, PermRoomCreate,
      PermRoomJoin, PermRoomList, PermRoomManage, PermRoomManageNotice, PermRoomInvite,
      PermRoomMemberRemove, PermMessageManage, PermMessagePin, PermRoleManage,
      PermRoleAssign, PermAdminUsersView, PermAdminAuditView, PermUserDeleteAny,
      PermUserDeleteSelf, PermUserManageAccounts, PermUserManagePermissions, PermBotCreate,
      PermBotManage]"

definition DefaultAnnouncementsEveryoneDenials :: "permission list" where
  "DefaultAnnouncementsEveryoneDenials =
     [PermMessagePost]"

definition DefaultAnnouncementsAdminPermissions :: "permission list" where
  "DefaultAnnouncementsAdminPermissions =
     [PermMessagePost]"

section \<open>Role names, positions and subjects\<close>

abbreviation RoleOwner :: string where "RoleOwner \<equiv> ''owner''"
abbreviation RoleAdmin :: string where "RoleAdmin \<equiv> ''admin''"
abbreviation RoleModerator :: string where "RoleModerator \<equiv> ''moderator''"
abbreviation RoleEveryone :: string where "RoleEveryone \<equiv> ''everyone''"

definition IsSystemRole :: "string \<Rightarrow> bool" where
  "IsSystemRole name \<longleftrightarrow>
     name = RoleOwner \<or> name = RoleAdmin \<or> name = RoleModerator \<or> name = RoleEveryone"

abbreviation PositionEveryone :: i32 where "PositionEveryone \<equiv> 0"
abbreviation PositionCustomFirst :: i32 where "PositionCustomFirst \<equiv> 1"
abbreviation PositionModerator :: i32 where "PositionModerator \<equiv> 100"
abbreviation PositionAdmin :: i32 where "PositionAdmin \<equiv> 900"
abbreviation PositionOwner :: i32 where "PositionOwner \<equiv> 1000"

definition isSystemPosition :: "i32 \<Rightarrow> bool" where
  "isSystemPosition p \<longleftrightarrow> p = PositionModerator \<or> p = PositionAdmin \<or> p = PositionOwner"

definition IsUserSubject :: "string \<Rightarrow> bool" where
  "IsUserSubject subject = (case subject of [] \<Rightarrow> False | c # _ \<Rightarrow> c = CHR ''U'')"

section \<open>Facts on catalogs\<close>

definition scope_count :: "scope_counts \<Rightarrow> permission_scope \<Rightarrow> int" where
  "scope_count m s = (case fmlookup m s of None \<Rightarrow> 0 | Some c \<Rightarrow> c)"

lemma scope_count_bump: "scope_count (bump_scope d x m) s = scope_count m s + (if s = x then d else 0)"
  by (auto simp: scope_count_def bump_scope_def split: option.splits)

lemma scope_count_fold:
  "scope_count (fold (bump_scope d) xs m) s = scope_count m s + d * int (count (mset xs) s)"
  by (induction xs arbitrary: m) (auto simp: scope_count_bump algebra_simps)

lemma fmpred_zero_iff: "fmpred (\<lambda>_ c. c = 0) m \<longleftrightarrow> (\<forall>s. scope_count m s = 0)"
  by (auto simp: fmpred_iff scope_count_def split: option.splits)

lemma length_mset_eq: "mset l = mset r \<Longrightarrow> length l = length r"
  by (metis size_mset)

lemma samePermissionScopes_counts:
  assumes "length l = length r"
  shows "samePermissionScopes l r \<longleftrightarrow> (\<forall>s. count (mset l) s = count (mset r) s)"
  using assms
  by (simp add: samePermissionScopes_def fmpred_zero_iff scope_count_fold)
    (simp add: scope_count_def)

text \<open>
  The counter map of \<open>samePermissionScopes\<close> decides exactly
  whether the two scope lists are equal as multisets, whatever their order and
  repetitions.
\<close>

theorem samePermissionScopes_iff_mset: "samePermissionScopes l r \<longleftrightarrow> mset l = mset r"
proof (cases "length l = length r")
  case True
  then show ?thesis by (simp add: samePermissionScopes_counts multiset_eq_iff)
next
  case False
  then show ?thesis by (auto simp: samePermissionScopes_def dest: length_mset_eq)
qed

lemma samePermissionScopes_set: "samePermissionScopes l r \<Longrightarrow> set l = set r"
  by (metis samePermissionScopes_counts samePermissionScopes_def multiset_eq_iff set_mset_mset)

text \<open>What a successful validation gives: the index is the catalog, keyed.\<close>

definition catalog_lookup :: "permission_metadata list \<Rightarrow> permission \<Rightarrow> permission_metadata option" where
  "catalog_lookup c = map_of (map (\<lambda>md. (pm_permission md, md)) c)"

lemma catalog_insert_Inr:
  "catalog_insert md index = Inr index' \<longleftrightarrow>
     pm_permission md \<noteq> [] \<and> fmlookup index (pm_permission md) = None
     \<and> index' = fmupd (pm_permission md) md index"
  by (auto simp: catalog_insert_def)

lemma fold_catalog_insert:
  assumes "fold_res catalog_insert c m = Inr index"
  shows "(\<forall>p. fmlookup index p = (catalog_lookup c ++ fmlookup m) p)
     \<and> distinct (map pm_permission c) \<and> [] \<notin> pm_permission ` set c
     \<and> (\<forall>p \<in> pm_permission ` set c. fmlookup m p = None)"
  using assms
proof (induction c arbitrary: m)
  case Nil
  then show ?case by (simp add: catalog_lookup_def map_add_def)
next
  case (Cons md c)
  from Cons.prems have md: "pm_permission md \<noteq> []" "fmlookup m (pm_permission md) = None"
    and rest: "fold_res catalog_insert c (fmupd (pm_permission md) md m) = Inr index"
    by (auto split: sum.splits simp: catalog_insert_Inr)
  note IH = Cons.IH [OF rest]
  have notin: "pm_permission md \<notin> pm_permission ` set c" using IH by auto
  then have "catalog_lookup c (pm_permission md) = None"
    by (force simp: catalog_lookup_def map_of_eq_None_iff)
  then have "fmlookup index p = (catalog_lookup (md # c) ++ fmlookup m) p" for p
    using IH md(2) by (auto simp: catalog_lookup_def map_add_def split: option.splits)
  then show ?case using IH md notin by (auto split: if_splits)
qed

lemma fold_check_unit:
  "fold_res f xs () = Inr () \<longleftrightarrow> (\<forall>x \<in> set xs. f x () = Inr ())"
  by (induction xs) (auto split: sum.splits)

definition includes_ok :: "permission_index \<Rightarrow> permission_metadata \<Rightarrow> permission \<Rightarrow> bool" where
  "includes_ok index md inc \<longleftrightarrow>
     (\<exists>included. fmlookup index inc = Some included \<and> pm_permission md \<noteq> inc
        \<and> pm_category md = pm_category included
        \<and> samePermissionScopes (pm_scopes md) (pm_scopes included)
        \<and> pm_requires_privileged md = pm_requires_privileged included)"

lemma check_included_Inr: "check_included index md inc = Inr () \<longleftrightarrow> includes_ok index md inc"
  by (auto simp: check_included_def includes_ok_def split: option.splits)

lemma validatePermissionCatalog_Inr:
  assumes "validatePermissionCatalog c = Inr index"
  shows "fmlookup index = catalog_lookup c"
    and "distinct (map pm_permission c)" and "[] \<notin> pm_permission ` set c"
    and "\<And>md inc. md \<in> set c \<Longrightarrow> inc \<in> set (pm_includes md) \<Longrightarrow> includes_ok index md inc"
proof -
  from assms have ins: "fold_res catalog_insert c fmempty = Inr index"
    and chk: "fold_res (\<lambda>md _. fold_res (\<lambda>inc _. check_included index md inc) (pm_includes md) ()) c () = Inr ()"
    by (auto simp: validatePermissionCatalog_def split: sum.splits)
  have e: "(\<lambda>_. None) = Map.empty" by simp
  show "fmlookup index = catalog_lookup c"
    using fold_catalog_insert [OF ins] by (auto simp: map_add_def fun_eq_iff split: option.splits)
  show "distinct (map pm_permission c)" "[] \<notin> pm_permission ` set c"
    using fold_catalog_insert [OF ins] by auto
  show "includes_ok index md inc" if "md \<in> set c" "inc \<in> set (pm_includes md)" for md inc
    using chk that by (simp add: fold_check_unit check_included_Inr)
qed

section \<open>Facts on the program's catalog\<close>

lemma allPermissions_accepted:
  "case validatePermissionCatalog allPermissions of Inl _ \<Rightarrow> False | Inr _ \<Rightarrow> True"
  by code_simp

lemma allPermissions_valid: "validatePermissionCatalog allPermissions = Inr permissionIndex"
  using allPermissions_accepted by (auto simp: permissionIndex_def split: sum.splits)

lemma permissionIndex_lookup: "fmlookup permissionIndex = catalog_lookup allPermissions"
  by (rule validatePermissionCatalog_Inr(1) [OF allPermissions_valid])

lemma metadata_in_catalog:
  "GetPermissionMetadata p = Some md \<longleftrightarrow> md \<in> set allPermissions \<and> pm_permission md = p"
proof
  assume "GetPermissionMetadata p = Some md"
  then show "md \<in> set allPermissions \<and> pm_permission md = p"
    by (auto simp: GetPermissionMetadata_def permissionIndex_lookup catalog_lookup_def
        dest: map_of_SomeD)
next
  assume "md \<in> set allPermissions \<and> pm_permission md = p"
  then show "GetPermissionMetadata p = Some md"
    using validatePermissionCatalog_Inr(2) [OF allPermissions_valid]
    by (auto simp: GetPermissionMetadata_def permissionIndex_lookup catalog_lookup_def comp_def
        intro!: map_of_is_SomeI)
qed

text \<open>
  An including permission is itself known, and is configurable at exactly the
  scopes of the permission it includes, with the same privileged-mode rule: an
  allow for it can be resolved wherever the included permission is asked for.
\<close>

lemma includingPermissions_iff:
  "q \<in> set (includingPermissions p) \<longleftrightarrow>
     (\<exists>pmd qmd. GetPermissionMetadata p = Some pmd \<and> GetPermissionMetadata q = Some qmd
        \<and> p \<in> set (pm_includes qmd))"
  by (auto simp: includingPermissions_def includingPermissionsFrom_def GetPermissionMetadata_def
      fmlookup_dom_iff split: option.splits)

lemma including_same_metadata:
  assumes "q \<in> set (includingPermissions p)"
  obtains pmd qmd where "GetPermissionMetadata p = Some pmd" and "GetPermissionMetadata q = Some qmd"
    and "q \<noteq> p" and "set (pm_scopes qmd) = set (pm_scopes pmd)"
    and "pm_requires_privileged qmd = pm_requires_privileged pmd"
    and "pm_category qmd = pm_category pmd"
proof -
  from assms obtain pmd qmd where md: "GetPermissionMetadata p = Some pmd"
    "GetPermissionMetadata q = Some qmd" "p \<in> set (pm_includes qmd)"
    by (auto simp: includingPermissions_iff)
  then have "qmd \<in> set allPermissions" "pm_permission qmd = q"
    by (auto simp: metadata_in_catalog)
  then have "includes_ok permissionIndex qmd p"
    using md(3) validatePermissionCatalog_Inr(4) [OF allPermissions_valid] by blast
  then show ?thesis
    using md(1,2) \<open>pm_permission qmd = q\<close> that
    by (auto simp: includes_ok_def GetPermissionMetadata_def dest: samePermissionScopes_set)
qed

lemma including_applies:
  "q \<in> set (includingPermissions p) \<Longrightarrow> PermissionAppliesAtScope q s = PermissionAppliesAtScope p s"
  by (erule including_same_metadata)
    (auto simp: PermissionAppliesAtScope_def GetPermissionMetadata_def)

text \<open>
  Inclusion is one step deep: no permission that another one includes includes a
  third, so the single pass over the including permissions is complete.
\<close>

lemma inclusion_one_step:
  "\<forall>md \<in> set allPermissions. \<forall>inc \<in> set (pm_includes md). \<forall>md' \<in> set allPermissions.
     pm_permission md' = inc \<longrightarrow> pm_includes md' = []"
  by (simp add: allPermissions_def)

definition known_at :: "permission_scope \<Rightarrow> permission list \<Rightarrow> bool" where
  "known_at s ps \<longleftrightarrow> (\<forall>p \<in> set ps. PermissionAppliesAtScope p s)"

lemma PermissionAppliesAtScope_alt:
  "PermissionAppliesAtScope p s \<longleftrightarrow> (\<exists>md. GetPermissionMetadata p = Some md \<and> s \<in> set (pm_scopes md))"
  by (auto simp: PermissionAppliesAtScope_def GetPermissionMetadata_def split: option.splits)

lemma PermissionAppliesAtScope_iff:
  "PermissionAppliesAtScope p s \<longleftrightarrow> (\<exists>md \<in> set allPermissions. pm_permission md = p \<and> s \<in> set (pm_scopes md))"
  by (auto simp: PermissionAppliesAtScope_alt metadata_in_catalog)

lemma default_grants_known:
  "known_at ScopeServer DefaultEveryonePermissions"
  "known_at ScopeServer DefaultModeratorPermissions"
  "known_at ScopeServer DefaultAdminPermissions"
  "known_at ScopeRoom DefaultAnnouncementsEveryoneDenials"
  "known_at ScopeRoom DefaultAnnouncementsAdminPermissions"
  by (simp_all add: known_at_def PermissionAppliesAtScope_iff allPermissions_def
      DefaultEveryonePermissions_def DefaultModeratorPermissions_def DefaultAdminPermissions_def
      DefaultAnnouncementsEveryoneDenials_def DefaultAnnouncementsAdminPermissions_def)


section \<open>The catalog as its list, for evaluation\<close>

lemma GetPermissionMetadata_code [code]: "GetPermissionMetadata perm = catalog_lookup allPermissions perm"
  by (simp add: GetPermissionMetadata_def permissionIndex_lookup)

lemma ValidatePermission_code [code]: "ValidatePermission perm \<longleftrightarrow> catalog_lookup allPermissions perm \<noteq> None"
  by (simp add: ValidatePermission_def permissionIndex_lookup)

lemma PermissionAppliesAtScope_code [code]:
  "PermissionAppliesAtScope perm scope =
     (case catalog_lookup allPermissions perm of None \<Rightarrow> False | Some md \<Rightarrow> scope \<in> set (pm_scopes md))"
  by (simp add: PermissionAppliesAtScope_def permissionIndex_lookup)

lemma includingPermissions_code [code]:
  "includingPermissions perm =
     (if catalog_lookup allPermissions perm = None then []
      else sort (map pm_permission (filter (\<lambda>md. perm \<in> set (pm_includes md)) allPermissions)))"
proof (rule sorted_distinct_set_unique)
  have lookup: "fmlookup permissionIndex p = Some md \<longleftrightarrow> md \<in> set allPermissions \<and> pm_permission md = p" for p md
    using metadata_in_catalog by (simp add: GetPermissionMetadata_def)
  have "c \<in> set (includingPermissions perm) \<longleftrightarrow>
      fmlookup permissionIndex perm \<noteq> None \<and> (\<exists>md. fmlookup permissionIndex c = Some md \<and> perm \<in> set (pm_includes md))" for c
    by (auto simp: includingPermissions_def includingPermissionsFrom_def fmlookup_dom_iff split: option.splits)
  note members = this
  show "set (includingPermissions perm) =
      set (if catalog_lookup allPermissions perm = None then []
           else sort (map pm_permission (filter (\<lambda>md. perm \<in> set (pm_includes md)) allPermissions)))"
  proof (cases "fmlookup permissionIndex perm")
    case None
    then show ?thesis
      by (simp add: includingPermissions_def includingPermissionsFrom_def permissionIndex_lookup [symmetric])
  next
    case (Some md)
    have "set (includingPermissions perm) = pm_permission ` {md \<in> set allPermissions. perm \<in> set (pm_includes md)}"
      by (auto simp: set_eq_iff members Some) (auto simp: lookup)
    with Some show ?thesis by (auto simp: permissionIndex_lookup [symmetric])
  qed
qed (use validatePermissionCatalog_Inr(2) [OF allPermissions_valid] in
    \<open>auto simp: includingPermissions_def includingPermissionsFrom_def sorted_wrt_filter distinct_map
       intro: inj_on_subset\<close>)

end
