(* ===== verification/RBAC_Projection.thy ===== *)
theory RBAC_Projection
  imports Projection_Contract Permission_Catalog
begin

text \<open>
  The projection of roles, role assignments and explicit permission decisions
  (\<open>cli/internal/core/rbac_projection.go\<close>): its state, one operation per event,
  the dispatch of \<open>Apply\<close> behind the replay guard, the event builders of
  \<open>rbac_events.go\<close>, and its reads. The snapshot is in theory \<open>RBAC_Snapshot\<close>.
\<close>

section \<open>Decisions and their keys\<close>

datatype decision_kind = DecisionAllow | DecisionDeny | DecisionNone

primrec decision_string :: "decision_kind \<Rightarrow> string" where
  "decision_string DecisionAllow = ''allow''"
| "decision_string DecisionDeny = ''deny''"
| "decision_string DecisionNone = ''none''"

text \<open>Protobuf enums are open: any number may arrive.\<close>

type_synonym proto_enum = int

abbreviation SCOPE_KIND_SERVER :: proto_enum where "SCOPE_KIND_SERVER \<equiv> 1"
abbreviation SCOPE_KIND_GROUP :: proto_enum where "SCOPE_KIND_GROUP \<equiv> 2"
abbreviation SCOPE_KIND_ROOM :: proto_enum where "SCOPE_KIND_ROOM \<equiv> 3"
abbreviation SCOPE_KIND_DM :: proto_enum where "SCOPE_KIND_DM \<equiv> 4"

abbreviation SUBJECT_KIND_UNSPECIFIED :: proto_enum where "SUBJECT_KIND_UNSPECIFIED \<equiv> 0"
abbreviation SUBJECT_KIND_ROLE :: proto_enum where "SUBJECT_KIND_ROLE \<equiv> 1"
abbreviation SUBJECT_KIND_USER :: proto_enum where "SUBJECT_KIND_USER \<equiv> 2"

datatype rbacDecisionKey =
  RbacKey (rk_scope: permission_scope) (rk_scopeID: string) (rk_subjectKind: proto_enum)
    (rk_subject: string) (rk_permission: permission)

definition key_tuple ::
  "rbacDecisionKey \<Rightarrow> permission_scope \<times> string \<times> proto_enum \<times> string \<times> permission" where
  "key_tuple k = (rk_scope k, rk_scopeID k, rk_subjectKind k, rk_subject k, rk_permission k)"

lemma key_tuple_inject: "key_tuple a = key_tuple b \<longleftrightarrow> a = b"
  by (cases a; cases b) (simp add: key_tuple_def)

text \<open>The field by field comparison by which the snapshot sorts the decision keys.\<close>

instantiation rbacDecisionKey :: linorder
begin

definition less_eq_rbacDecisionKey :: "rbacDecisionKey \<Rightarrow> rbacDecisionKey \<Rightarrow> bool" where
  "a \<le> b \<longleftrightarrow> key_tuple a \<le> key_tuple b"

definition less_rbacDecisionKey :: "rbacDecisionKey \<Rightarrow> rbacDecisionKey \<Rightarrow> bool" where
  "a < b \<longleftrightarrow> key_tuple a < key_tuple b"

instance
  by standard
    (auto simp: less_eq_rbacDecisionKey_def less_rbacDecisionKey_def key_tuple_inject
      order_less_le)

end

definition rbacPermissionSubjectKindForID :: "string \<Rightarrow> proto_enum" where
  "rbacPermissionSubjectKindForID subject =
     (if IsUserSubject subject then SUBJECT_KIND_USER else SUBJECT_KIND_ROLE)"

definition rbacDecisionKeyFor ::
  "permission_scope \<Rightarrow> string \<Rightarrow> string \<Rightarrow> permission \<Rightarrow> rbacDecisionKey" where
  "rbacDecisionKeyFor scope scopeID subject perm =
     (let sid = (if scope = ScopeServer \<or> scope = ScopeDM then [] else scopeID)
      in RbacKey scope sid (rbacPermissionSubjectKindForID subject) subject perm)"

section \<open>Events\<close>

record rbac_scope =
  sc_kind :: proto_enum
  sc_id :: string

record rbac_subject =
  su_kind :: proto_enum
  su_id :: string

text \<open>
  The unknown fields of a decoded message, as the wire decoder yields them one
  after another: a length-delimited field, a field of another type, or bytes it
  cannot decode.
\<close>

datatype wire_field = WireBytes nat string | WireOther nat | WireMalformed

record permission_decision_event =
  pd_scope :: "rbac_scope option"
  pd_subject :: "rbac_subject option"
  pd_permission :: string
  pd_unknown :: "wire_field list"

record role =
  role_name :: string
  role_display_name :: string
  role_description :: string
  role_position :: i32
  role_pingable :: bool

record role_created =
  rc_role_name :: string
  rc_display_name :: string
  rc_description :: string
  rc_rank :: i32
  rc_pingable :: bool

datatype rbac_event =
  RbacRoleCreated "role_created option"
| RbacRoleDisplayNameChanged string string
| RbacRoleDescriptionChanged string string
| RbacRolePingableChanged string bool
| RbacRoleDeleted string
| RbacRolesReordered "string list"
| RbacRoleAssigned string string string
| RbacRoleRevoked string string
| RbacPermissionGranted permission_decision_event
| RbacPermissionDenied permission_decision_event
| RbacPermissionCleared permission_decision_event

section \<open>State\<close>

type_synonym assignment_map = "(string, (string, string) fmap) fmap"

record rbac_projection =
  roles :: "(string, role) fmap"
  assignments :: assignment_map
  decisions :: "(rbacDecisionKey, decision_kind) fmap"
  rbac_guard :: replay_guard

definition NewRBACProjection :: rbac_projection where
  "NewRBACProjection =
     \<lparr>roles = fmempty, assignments = fmempty, decisions = fmempty,
      rbac_guard = newProjectionReplayGuard\<rparr>"

text \<open>Reading the inner map of an absent user reads Go's nil map: it is empty.\<close>

definition user_assignments :: "assignment_map \<Rightarrow> string \<Rightarrow> (string, string) fmap" where
  "user_assignments a u = (case fmlookup a u of None \<Rightarrow> fmempty | Some m \<Rightarrow> m)"

section \<open>Role operations\<close>

definition rbacRoleFromCreated :: "role_created option \<Rightarrow> role option" where
  "rbacRoleFromCreated e =
     map_option (\<lambda>c. \<lparr>role_name = rc_role_name c, role_display_name = rc_display_name c,
       role_description = rc_description c, role_position = rc_rank c,
       role_pingable = rc_pingable c\<rparr>) e"

definition applyRoleUpsert :: "role option \<Rightarrow> rbac_projection \<Rightarrow> rbac_projection" where
  "applyRoleUpsert r p =
     (case r of
        None \<Rightarrow> p
      | Some rl \<Rightarrow> if role_name rl = [] then p
                  else p\<lparr>roles := fmupd (role_name rl) rl (roles p)\<rparr>)"

text \<open>The three setters share their shape: skip an unnamed or unknown role.\<close>

definition update_role :: "string \<Rightarrow> (role \<Rightarrow> role) \<Rightarrow> rbac_projection \<Rightarrow> rbac_projection" where
  "update_role name f p =
     (if name = [] then p
      else case fmlookup (roles p) name of
             None \<Rightarrow> p
           | Some r \<Rightarrow> p\<lparr>roles := fmupd name (f r) (roles p)\<rparr>)"

definition applyRoleDisplayNameChanged :: "string \<Rightarrow> string \<Rightarrow> rbac_projection \<Rightarrow> rbac_projection" where
  "applyRoleDisplayNameChanged name displayName =
     update_role name (\<lambda>r. r\<lparr>role_display_name := displayName\<rparr>)"

definition applyRoleDescriptionChanged :: "string \<Rightarrow> string \<Rightarrow> rbac_projection \<Rightarrow> rbac_projection" where
  "applyRoleDescriptionChanged name description =
     update_role name (\<lambda>r. r\<lparr>role_description := description\<rparr>)"

definition applyRolePingableChanged :: "string \<Rightarrow> bool \<Rightarrow> rbac_projection \<Rightarrow> rbac_projection" where
  "applyRolePingableChanged name pingable =
     update_role name (\<lambda>r. r\<lparr>role_pingable := pingable\<rparr>)"

text \<open>The loop \<open>for isSystemPosition(position) { position++ }\<close>.\<close>

lemma isSystemPosition_next: "isSystemPosition p \<Longrightarrow> \<not> isSystemPosition (p + 1)"
  by (auto simp: isSystemPosition_def)

function skip_system_positions :: "i32 \<Rightarrow> i32" where
  "skip_system_positions p = (if isSystemPosition p then skip_system_positions (p + 1) else p)"
  by pat_completeness auto
termination
  by (relation "measure (\<lambda>p. if isSystemPosition p then 1 else 0)")
    (auto dest: isSystemPosition_next)

declare skip_system_positions.simps [simp del]

lemma skip_system_positions_eq:
  "skip_system_positions p = (if isSystemPosition p then p + 1 else p)"
  using isSystemPosition_next [of p]
  by (simp add: skip_system_positions.simps [of p] skip_system_positions.simps [of "p + 1"])

definition reorder_step ::
  "string \<Rightarrow> i32 \<times> (string, role) fmap \<Rightarrow> i32 \<times> (string, role) fmap" where
  "reorder_step name st =
     (case st of (position, rs) \<Rightarrow>
        (case fmlookup rs name of
           None \<Rightarrow> (position, rs)
         | Some r \<Rightarrow>
             if IsSystemRole name then (position, rs)
             else let pos = skip_system_positions position
                  in (pos + 1, fmupd name (r\<lparr>role_position := pos\<rparr>) rs)))"

definition applyRolesReordered :: "string list \<Rightarrow> rbac_projection \<Rightarrow> rbac_projection" where
  "applyRolesReordered names p =
     p\<lparr>roles := snd (fold reorder_step names (PositionCustomFirst, roles p))\<rparr>"

definition drop_role_assignments :: "string \<Rightarrow> assignment_map \<Rightarrow> assignment_map" where
  "drop_role_assignments name a =
     (let a' = fmmap (fmdrop name) a
      in fmfilter (\<lambda>u. fmdom (user_assignments a' u) \<noteq> {||}) a')"

definition applyRoleDeleted :: "string \<Rightarrow> rbac_projection \<Rightarrow> rbac_projection" where
  "applyRoleDeleted name p =
     (if name = [] then p
      else p\<lparr>roles := fmdrop name (roles p),
             assignments := drop_role_assignments name (assignments p),
             decisions := fmfilter (\<lambda>k. \<not> (rk_subjectKind k = SUBJECT_KIND_ROLE \<and> rk_subject k = name))
                            (decisions p)\<rparr>)"

section \<open>Assignment operations\<close>

definition applyRoleAssigned :: "string \<Rightarrow> string \<Rightarrow> string \<Rightarrow> rbac_projection \<Rightarrow> rbac_projection" where
  "applyRoleAssigned userID roleName ownerIssuer p =
     (if userID = [] \<or> roleName = [] then p
      else let m = user_assignments (assignments p) userID in
           if fmlookup m roleName \<noteq> None
           then p\<lparr>assignments := fmupd userID m (assignments p)\<rparr>
           else p\<lparr>assignments := fmupd userID (fmupd roleName ownerIssuer m) (assignments p)\<rparr>)"

definition applyRoleRevoked :: "string \<Rightarrow> string \<Rightarrow> rbac_projection \<Rightarrow> rbac_projection" where
  "applyRoleRevoked userID roleName p =
     (if userID = [] \<or> roleName = [] then p
      else let m = fmdrop roleName (user_assignments (assignments p) userID) in
           if fmdom m = {||} then p\<lparr>assignments := fmdrop userID (assignments p)\<rparr>
           else p\<lparr>assignments := fmupd userID m (assignments p)\<rparr>)"

section \<open>Permission decisions\<close>

definition permissionScopeFromProto :: "rbac_scope option \<Rightarrow> permission_scope option" where
  "permissionScopeFromProto scope =
     (case scope of
        None \<Rightarrow> None
      | Some s \<Rightarrow>
          if sc_kind s = SCOPE_KIND_SERVER then Some ScopeServer
          else if sc_kind s = SCOPE_KIND_GROUP then (if sc_id s \<noteq> [] then Some ScopeGroup else None)
          else if sc_kind s = SCOPE_KIND_ROOM then (if sc_id s \<noteq> [] then Some ScopeRoom else None)
          else if sc_kind s = SCOPE_KIND_DM then (if sc_id s = [] then Some ScopeDM else None)
          else None)"

definition rbacDecisionKeyFromFields ::
  "rbac_scope option \<Rightarrow> rbac_subject option \<Rightarrow> string \<Rightarrow> rbacDecisionKey option" where
  "rbacDecisionKeyFromFields scope subject permission =
     (case (scope, subject) of
        (Some sc, Some su) \<Rightarrow>
          if su_id su = [] \<or> permission = [] then None
          else if su_kind su = SUBJECT_KIND_UNSPECIFIED then None
          else (case permissionScopeFromProto scope of
                  None \<Rightarrow> None
                | Some ps \<Rightarrow>
                    Some (RbacKey ps (if ps = ScopeServer then [] else sc_id sc) (su_kind su)
                            (su_id su) permission))
      | _ \<Rightarrow> None)"

definition rbacScopeFromLegacyLocation :: "string \<Rightarrow> permission_scope option" where
  "rbacScopeFromLegacyLocation location =
     (case location of
        [] \<Rightarrow> None
      | c # _ \<Rightarrow> if c = CHR ''G'' then Some ScopeGroup
                 else if c = CHR ''R'' then Some ScopeRoom else None)"

definition rbacDecisionKeyFromLegacyFields ::
  "string \<Rightarrow> string \<Rightarrow> string \<Rightarrow> rbacDecisionKey option" where
  "rbacDecisionKeyFromLegacyFields location subject permission =
     (if subject = [] \<or> permission = [] then None
      else if location = scope_string ScopeServer
      then Some (RbacKey ScopeServer [] (rbacPermissionSubjectKindForID subject) subject permission)
      else case rbacScopeFromLegacyLocation location of
             None \<Rightarrow> None
           | Some scope \<Rightarrow>
               Some (RbacKey scope location (rbacPermissionSubjectKindForID subject) subject permission))"

text \<open>The loop over the unknown fields: the last field 1 and the last field 2 win.\<close>

fun legacy_fields :: "wire_field list \<Rightarrow> string \<times> string \<Rightarrow> (string \<times> string) option" where
  "legacy_fields [] st = Some st"
| "legacy_fields (WireMalformed # _) st = None"
| "legacy_fields (WireOther _ # fs) st = legacy_fields fs st"
| "legacy_fields (WireBytes num v # fs) (location, subject) =
     (if num = 1 then legacy_fields fs (v, subject)
      else if num = 2 then legacy_fields fs (location, v)
      else legacy_fields fs (location, subject))"

definition legacyRBACDecisionKeyFromUnknown ::
  "wire_field list \<Rightarrow> string \<Rightarrow> rbacDecisionKey option" where
  "legacyRBACDecisionKeyFromUnknown unknown permission =
     (if permission = [] then None
      else case legacy_fields unknown ([], []) of
             None \<Rightarrow> None
           | Some (location, subject) \<Rightarrow> rbacDecisionKeyFromLegacyFields location subject permission)"

definition decision_event_key :: "permission_decision_event \<Rightarrow> rbacDecisionKey option" where
  "decision_event_key e =
     (case rbacDecisionKeyFromFields (pd_scope e) (pd_subject e) (pd_permission e) of
        Some k \<Rightarrow> Some k
      | None \<Rightarrow> legacyRBACDecisionKeyFromUnknown (pd_unknown e) (pd_permission e))"

definition applyPermissionDecision ::
  "permission_decision_event \<Rightarrow> decision_kind \<Rightarrow> rbac_projection \<Rightarrow> rbac_projection" where
  "applyPermissionDecision e d p =
     (case decision_event_key e of
        None \<Rightarrow> p
      | Some k \<Rightarrow> p\<lparr>decisions := fmupd k d (decisions p)\<rparr>)"

definition applyPermissionCleared ::
  "permission_decision_event \<Rightarrow> rbac_projection \<Rightarrow> rbac_projection" where
  "applyPermissionCleared e p =
     (case decision_event_key e of
        None \<Rightarrow> p
      | Some k \<Rightarrow> p\<lparr>decisions := fmdrop k (decisions p)\<rparr>)"

section \<open>Apply\<close>

text \<open>The type switch of \<open>Apply\<close>.\<close>

fun rbac_switch :: "rbac_event \<Rightarrow> rbac_projection \<Rightarrow> rbac_projection" where
  "rbac_switch (RbacRoleCreated c) p = applyRoleUpsert (rbacRoleFromCreated c) p"
| "rbac_switch (RbacRoleDisplayNameChanged n d) p = applyRoleDisplayNameChanged n d p"
| "rbac_switch (RbacRoleDescriptionChanged n d) p = applyRoleDescriptionChanged n d p"
| "rbac_switch (RbacRolePingableChanged n b) p = applyRolePingableChanged n b p"
| "rbac_switch (RbacRoleDeleted n) p = applyRoleDeleted n p"
| "rbac_switch (RbacRolesReordered ns) p = applyRolesReordered ns p"
| "rbac_switch (RbacRoleAssigned u n iss) p = applyRoleAssigned u n iss p"
| "rbac_switch (RbacRoleRevoked u n) p = applyRoleRevoked u n p"
| "rbac_switch (RbacPermissionGranted e) p = applyPermissionDecision e DecisionAllow p"
| "rbac_switch (RbacPermissionDenied e) p = applyPermissionDecision e DecisionDeny p"
| "rbac_switch (RbacPermissionCleared e) p = applyPermissionCleared e p"

definition rbac_reduce :: "rbac_event event \<Rightarrow> seq \<Rightarrow> rbac_projection \<Rightarrow> rbac_projection" where
  "rbac_reduce ev sq p = (case ev_payload ev of None \<Rightarrow> p | Some e \<Rightarrow> rbac_switch e p)"

definition set_rbac_guard :: "replay_guard \<Rightarrow> rbac_projection \<Rightarrow> rbac_projection" where
  "set_rbac_guard g p = p\<lparr>rbac_guard := g\<rparr>"

definition RBAC_Apply ::
  "rbac_projection \<Rightarrow> rbac_event event option \<Rightarrow> seq \<Rightarrow> rbac_projection option" where
  "RBAC_Apply p event sq =
     (case event of
        None \<Rightarrow> Some p
      | Some ev \<Rightarrow>
          (case guard_seenOrMark (rbac_guard p) ev sq of
             None \<Rightarrow> None
           | Some (seen, g) \<Rightarrow>
               Some (if seen then set_rbac_guard g p else rbac_reduce ev sq (set_rbac_guard g p))))"

definition RBAC_CompleteStartupReplay :: "rbac_projection \<Rightarrow> rbac_projection" where
  "RBAC_CompleteStartupReplay p = set_rbac_guard (guard_completeReplay (rbac_guard p)) p"

section \<open>Writers\<close>

text \<open>
  The event builders of \<open>rbac_events.go\<close>. The three event types carry the same
  fields, so one record serves granted, denied and cleared.
\<close>

definition rbacPermissionScope :: "permission_scope \<Rightarrow> string \<Rightarrow> rbac_scope" where
  "rbacPermissionScope scope scopeID =
     (case scope of
        ScopeServer \<Rightarrow> \<lparr>sc_kind = SCOPE_KIND_SERVER, sc_id = []\<rparr>
      | ScopeGroup \<Rightarrow> \<lparr>sc_kind = SCOPE_KIND_GROUP, sc_id = scopeID\<rparr>
      | ScopeRoom \<Rightarrow> \<lparr>sc_kind = SCOPE_KIND_ROOM, sc_id = scopeID\<rparr>
      | ScopeDM \<Rightarrow> \<lparr>sc_kind = SCOPE_KIND_DM, sc_id = []\<rparr>)"

definition rbacPermissionSubject :: "proto_enum \<Rightarrow> string \<Rightarrow> rbac_subject" where
  "rbacPermissionSubject kind sid = \<lparr>su_kind = kind, su_id = sid\<rparr>"

definition rbacPermissionEvent ::
  "permission_scope \<Rightarrow> string \<Rightarrow> proto_enum \<Rightarrow> string \<Rightarrow> permission \<Rightarrow> permission_decision_event" where
  "rbacPermissionEvent scope scopeID subjectKind subjectID perm =
     \<lparr>pd_scope = Some (rbacPermissionScope scope scopeID),
      pd_subject = Some (rbacPermissionSubject subjectKind subjectID),
      pd_permission = perm, pd_unknown = []\<rparr>"

definition rbacPermissionGrantedEvent ::
  "permission_scope \<Rightarrow> string \<Rightarrow> proto_enum \<Rightarrow> string \<Rightarrow> permission \<Rightarrow> rbac_event" where
  "rbacPermissionGrantedEvent scope scopeID k sid perm =
     RbacPermissionGranted (rbacPermissionEvent scope scopeID k sid perm)"

definition rbacPermissionDeniedEvent ::
  "permission_scope \<Rightarrow> string \<Rightarrow> proto_enum \<Rightarrow> string \<Rightarrow> permission \<Rightarrow> rbac_event" where
  "rbacPermissionDeniedEvent scope scopeID k sid perm =
     RbacPermissionDenied (rbacPermissionEvent scope scopeID k sid perm)"

definition rbacPermissionClearedEvent ::
  "permission_scope \<Rightarrow> string \<Rightarrow> proto_enum \<Rightarrow> string \<Rightarrow> permission \<Rightarrow> rbac_event" where
  "rbacPermissionClearedEvent scope scopeID k sid perm =
     RbacPermissionCleared (rbacPermissionEvent scope scopeID k sid perm)"

definition rbacRolePermissionGrantedEvent ::
  "permission_scope \<Rightarrow> string \<Rightarrow> string \<Rightarrow> permission \<Rightarrow> rbac_event" where
  "rbacRolePermissionGrantedEvent scope scopeID roleName perm =
     rbacPermissionGrantedEvent scope scopeID SUBJECT_KIND_ROLE roleName perm"

definition rbacRolePermissionDeniedEvent ::
  "permission_scope \<Rightarrow> string \<Rightarrow> string \<Rightarrow> permission \<Rightarrow> rbac_event" where
  "rbacRolePermissionDeniedEvent scope scopeID roleName perm =
     rbacPermissionDeniedEvent scope scopeID SUBJECT_KIND_ROLE roleName perm"

definition rbacRolePermissionClearedEvent ::
  "permission_scope \<Rightarrow> string \<Rightarrow> string \<Rightarrow> permission \<Rightarrow> rbac_event" where
  "rbacRolePermissionClearedEvent scope scopeID roleName perm =
     rbacPermissionClearedEvent scope scopeID SUBJECT_KIND_ROLE roleName perm"

definition rbacUserPermissionGrantedEvent ::
  "permission_scope \<Rightarrow> string \<Rightarrow> string \<Rightarrow> permission \<Rightarrow> rbac_event" where
  "rbacUserPermissionGrantedEvent scope scopeID userID perm =
     rbacPermissionGrantedEvent scope scopeID SUBJECT_KIND_USER userID perm"

definition rbacUserPermissionDeniedEvent ::
  "permission_scope \<Rightarrow> string \<Rightarrow> string \<Rightarrow> permission \<Rightarrow> rbac_event" where
  "rbacUserPermissionDeniedEvent scope scopeID userID perm =
     rbacPermissionDeniedEvent scope scopeID SUBJECT_KIND_USER userID perm"

definition rbacUserPermissionClearedEvent ::
  "permission_scope \<Rightarrow> string \<Rightarrow> string \<Rightarrow> permission \<Rightarrow> rbac_event" where
  "rbacUserPermissionClearedEvent scope scopeID userID perm =
     rbacPermissionClearedEvent scope scopeID SUBJECT_KIND_USER userID perm"

section \<open>Reads\<close>

definition GetRole :: "rbac_projection \<Rightarrow> string \<Rightarrow> role option" where
  "GetRole p name = fmlookup (roles p) name"

definition RoleExists :: "rbac_projection \<Rightarrow> string \<Rightarrow> bool" where
  "RoleExists p name \<longleftrightarrow> fmlookup (roles p) name \<noteq> None"

definition ListRoles :: "rbac_projection \<Rightarrow> role list" where
  "ListRoles p = sort_key (\<lambda>r. (sint (role_position r), role_name r)) (sortedMapValues (roles p))"

definition GetUserRoles :: "rbac_projection \<Rightarrow> string \<Rightarrow> string list" where
  "GetUserRoles p userID = sortedMapKeys (user_assignments (assignments p) userID)"

definition HasRole :: "rbac_projection \<Rightarrow> string \<Rightarrow> string \<Rightarrow> bool" where
  "HasRole p userID roleName \<longleftrightarrow> fmlookup (user_assignments (assignments p) userID) roleName \<noteq> None"

definition ProviderAssignments :: "rbac_projection \<Rightarrow> string \<Rightarrow> string \<Rightarrow> string list" where
  "ProviderAssignments p userID issuer =
     (if issuer = [] then []
      else filter (\<lambda>r. fmlookup (user_assignments (assignments p) userID) r = Some issuer)
             (sortedMapKeys (user_assignments (assignments p) userID)))"

definition AssignmentOwner :: "rbac_projection \<Rightarrow> string \<Rightarrow> string \<Rightarrow> string option" where
  "AssignmentOwner p userID roleName = fmlookup (user_assignments (assignments p) userID) roleName"

definition GetRoleUsers :: "rbac_projection \<Rightarrow> string \<Rightarrow> string list" where
  "GetRoleUsers p roleName = filter (\<lambda>u. HasRole p u roleName) (sortedMapKeys (assignments p))"

record scoped_role_decision =
  srd_scope :: permission_scope
  srd_scope_id :: string
  srd_permission :: permission
  srd_decision :: decision_kind

definition RolePermissionDecisions :: "rbac_projection \<Rightarrow> string \<Rightarrow> scoped_role_decision list" where
  "RolePermissionDecisions p roleName =
     map (\<lambda>k. \<lparr>srd_scope = rk_scope k, srd_scope_id = rk_scopeID k, srd_permission = rk_permission k,
                srd_decision = the (fmlookup (decisions p) k)\<rparr>)
       (filter (\<lambda>k. rk_subjectKind k = SUBJECT_KIND_ROLE \<and> rk_subject k = roleName)
          (sortedMapKeys (decisions p)))"

definition GetDecision ::
  "rbac_projection \<Rightarrow> permission_scope \<Rightarrow> string \<Rightarrow> string \<Rightarrow> permission \<Rightarrow> decision_kind" where
  "GetDecision p scope scopeID subject perm =
     (case fmlookup (decisions p) (rbacDecisionKeyFor scope scopeID subject perm) of
        Some d \<Rightarrow> d | None \<Rightarrow> DecisionNone)"

definition decided_permissions ::
  "rbac_projection \<Rightarrow> permission_scope \<Rightarrow> string \<Rightarrow> string \<Rightarrow> decision_kind \<Rightarrow> permission list" where
  "decided_permissions p scope scopeID subject d =
     sort (map rk_permission
       (filter (\<lambda>k. rk_scope k = scope \<and> rk_scopeID k = scopeID \<and> rk_subject k = subject
                  \<and> fmlookup (decisions p) k = Some d) (sortedMapKeys (decisions p))))"

definition DecisionsFor ::
  "rbac_projection \<Rightarrow> permission_scope \<Rightarrow> string \<Rightarrow> string \<Rightarrow> permission list \<times> permission list" where
  "DecisionsFor p scope scopeID subject =
     (decided_permissions p scope scopeID subject DecisionAllow,
      decided_permissions p scope scopeID subject DecisionDeny)"

definition DecisionsForRoleServer :: "rbac_projection \<Rightarrow> string \<Rightarrow> permission list \<times> permission list" where
  "DecisionsForRoleServer p roleName = DecisionsFor p ScopeServer [] roleName"

definition Assignments :: "rbac_projection \<Rightarrow> (string \<times> string) list" where
  "Assignments p =
     concat (map (\<lambda>u. map (Pair u) (sortedMapKeys (user_assignments (assignments p) u)))
               (sortedMapKeys (assignments p)))"

definition HasAnyPrivilegedModeAllow :: "rbac_projection \<Rightarrow> string \<Rightarrow> bool" where
  "HasAnyPrivilegedModeAllow p userID \<longleftrightarrow>
     list_ex (\<lambda>k.
        fmlookup (decisions p) k = Some DecisionAllow
        \<and> (case GetPermissionMetadata (rk_permission k) of
             None \<Rightarrow> False | Some md \<Rightarrow> pm_requires_privileged md)
        \<and> (rk_subjectKind k = SUBJECT_KIND_USER \<and> rk_subject k = userID
           \<or> rk_subjectKind k = SUBJECT_KIND_ROLE \<and> rk_subject k = RoleEveryone
           \<or> rk_subjectKind k = SUBJECT_KIND_ROLE \<and> HasRole p userID (rk_subject k)))
       (sortedMapKeys (decisions p))"

definition NextAvailablePosition :: "rbac_projection \<Rightarrow> i32" where
  "NextAvailablePosition p =
     (let maxCustom = fold (\<lambda>r m. if IsSystemRole (role_name r) then m
                                   else if sint m < sint (role_position r) then role_position r
                                   else m)
                        (sortedMapValues (roles p)) PositionEveryone
      in skip_system_positions (maxCustom + 1))"

record role_counts =
  member_count :: nat
  permission_grant_count :: nat
  permission_denial_count :: nat

definition no_counts :: role_counts where
  "no_counts = \<lparr>member_count = 0, permission_grant_count = 0, permission_denial_count = 0\<rparr>"

type_synonym role_count_map = "(string, role_counts) fmap"

definition count_of :: "role_count_map \<Rightarrow> string \<Rightarrow> role_counts" where
  "count_of m n = (case fmlookup m n of None \<Rightarrow> no_counts | Some c \<Rightarrow> c)"

definition count_member :: "rbac_projection \<Rightarrow> string \<Rightarrow> role_count_map \<Rightarrow> role_count_map" where
  "count_member p userID counts =
     fold (\<lambda>name m. if name = RoleEveryone \<or> fmlookup (roles p) name = None then m
                     else fmupd name ((count_of m name)\<lparr>member_count := Suc (member_count (count_of m name))\<rparr>) m)
       (GetUserRoles p userID) counts"

definition count_decision :: "rbac_projection \<Rightarrow> rbacDecisionKey \<Rightarrow> role_count_map \<Rightarrow> role_count_map" where
  "count_decision p k m =
     (if rk_subjectKind k \<noteq> SUBJECT_KIND_ROLE \<or> fmlookup (roles p) (rk_subject k) = None then m
      else let c = count_of m (rk_subject k) in
        fmupd (rk_subject k)
          (case the (fmlookup (decisions p) k) of
             DecisionAllow \<Rightarrow> c\<lparr>permission_grant_count := Suc (permission_grant_count c)\<rparr>
           | DecisionDeny \<Rightarrow> c\<lparr>permission_denial_count := Suc (permission_denial_count c)\<rparr>
           | DecisionNone \<Rightarrow> c) m)"

definition RoleCounts :: "rbac_projection \<Rightarrow> string list \<Rightarrow> role_count_map" where
  "RoleCounts p activeHumanIDs =
     (let counts = fmmap (\<lambda>_. no_counts) (roles p);
          counts = fold (count_member p) activeHumanIDs counts;
          counts = (if fmlookup counts RoleEveryone = None then counts
                    else fmupd RoleEveryone
                           ((count_of counts RoleEveryone)\<lparr>member_count := length activeHumanIDs\<rparr>) counts)
      in fold (count_decision p) (sortedMapKeys (decisions p)) counts)"

end
