(* ===== verification/RBAC_Snapshot.thy ===== *)
theory RBAC_Snapshot
  imports RBAC_Projection
begin

text \<open>
  The snapshot of the RBAC projection (\<open>rbac_projection_snapshot.go\<close>), the
  well-formedness its operations maintain, and the proof that the projection
  meets the contract of theory \<open>Projection_Contract\<close>.

  A snapshot is a protobuf message that a third-party library encodes. The
  message is a record here; the codec is a parameter of the functions that call
  it, and the law they rely on is \<open>proto_codec\<close>.
\<close>

section \<open>The message\<close>

record role_snapshot =
  rs_name :: string
  rs_display_name :: string
  rs_description :: string
  rs_position :: i32
  rs_pingable :: bool

record assignment_snapshot =
  as_user_id :: string
  as_role_names :: "string list"
  as_provider_assignments :: "(string \<times> string) list"

record decision_snapshot =
  ds_scope :: string
  ds_scope_id :: string
  ds_subject_kind :: proto_enum
  ds_subject :: string
  ds_permission :: string
  ds_decision :: string

record rbac_snapshot =
  rb_replay_guard :: "guard_snapshot option"
  rb_roles :: "role_snapshot list"
  rb_assignments :: "assignment_snapshot list"
  rb_decisions :: "decision_snapshot list"

definition empty_rbac_snapshot :: rbac_snapshot where
  "empty_rbac_snapshot =
     \<lparr>rb_replay_guard = None, rb_roles = [], rb_assignments = [], rb_decisions = []\<rparr>"

definition snapshotRole :: "role \<Rightarrow> role_snapshot" where
  "snapshotRole r =
     \<lparr>rs_name = role_name r, rs_display_name = role_display_name r,
      rs_description = role_description r, rs_position = role_position r,
      rs_pingable = role_pingable r\<rparr>"

definition restoreRole :: "role_snapshot \<Rightarrow> role" where
  "restoreRole r =
     \<lparr>role_name = rs_name r, role_display_name = rs_display_name r,
      role_description = rs_description r, role_position = rs_position r,
      role_pingable = rs_pingable r\<rparr>"

lemma restoreRole_snapshotRole [simp]: "restoreRole (snapshotRole r) = r"
  by (simp add: restoreRole_def snapshotRole_def)

section \<open>Writing\<close>

definition snapshotAssignment :: "assignment_map \<Rightarrow> string \<Rightarrow> assignment_snapshot" where
  "snapshotAssignment a userID =
     (let m = user_assignments a userID; names = sortedMapKeys m
      in \<lparr>as_user_id = userID, as_role_names = names,
          as_provider_assignments =
            map (\<lambda>n. (n, the (fmlookup m n)))
              (filter (\<lambda>n. fmlookup m n \<noteq> Some []) names)\<rparr>)"

definition snapshotDecision :: "rbac_projection \<Rightarrow> rbacDecisionKey \<Rightarrow> decision_snapshot" where
  "snapshotDecision p k =
     \<lparr>ds_scope = scope_string (rk_scope k), ds_scope_id = rk_scopeID k,
      ds_subject_kind = rk_subjectKind k, ds_subject = rk_subject k,
      ds_permission = rk_permission k,
      ds_decision = decision_string (the (fmlookup (decisions p) k))\<rparr>"

definition rbac_snapshot_message :: "rbac_projection \<Rightarrow> rbac_snapshot" where
  "rbac_snapshot_message p =
     \<lparr>rb_replay_guard = Some (snapshotReplayGuard (rbac_guard p)),
      rb_roles = map (\<lambda>n. snapshotRole (the (fmlookup (roles p) n))) (sortedMapKeys (roles p)),
      rb_assignments = map (snapshotAssignment (assignments p)) (sortedMapKeys (assignments p)),
      rb_decisions = map (snapshotDecision p) (sortedMapKeys (decisions p))\<rparr>"

definition RBAC_Snapshot_bytes ::
  "(rbac_snapshot \<Rightarrow> 8 word list option) \<Rightarrow> rbac_projection \<Rightarrow> 8 word list option" where
  "RBAC_Snapshot_bytes marshal p = marshal (rbac_snapshot_message p)"

section \<open>Reading\<close>

datatype rbac_restore_error =
  UnmarshalFailed
| GuardRejected guard_error
| EmptyRoleName
| RepeatedRole string
| EmptyAssignmentUser
| RepeatedAssignmentUser string
| EmptyAssignedRole
| RepeatedAssignedRole string
| InvalidProviderAssignment string
| InvalidScope string
| EmptyScopedObject
| UnexpectedSingletonScope
| InvalidDecisionRow
| InvalidDecisionKind string
| RepeatedDecision

definition restore_role_row ::
  "role_snapshot \<Rightarrow> (string, role) fmap \<Rightarrow> rbac_restore_error + (string, role) fmap" where
  "restore_role_row r m =
     (if rs_name r = [] then Inl EmptyRoleName
      else if fmlookup m (rs_name r) \<noteq> None then Inl (RepeatedRole (rs_name r))
      else Inr (fmupd (rs_name r) (restoreRole r) m))"

definition restore_role_member ::
  "string \<Rightarrow> (string, string) fmap \<Rightarrow> rbac_restore_error + (string, string) fmap" where
  "restore_role_member n m =
     (if n = [] then Inl EmptyAssignedRole
      else if fmlookup m n \<noteq> None then Inl (RepeatedAssignedRole n)
      else Inr (fmupd n [] m))"

definition restore_provider ::
  "string \<times> string \<Rightarrow> (string, string) fmap \<Rightarrow> rbac_restore_error + (string, string) fmap" where
  "restore_provider owned m =
     (case owned of (n, issuer) \<Rightarrow>
        if fmlookup m n \<noteq> Some [] \<or> issuer = [] then Inl (InvalidProviderAssignment n)
        else Inr (fmupd n issuer m))"

definition restore_assignment_row ::
  "assignment_snapshot \<Rightarrow> assignment_map \<Rightarrow> rbac_restore_error + assignment_map" where
  "restore_assignment_row a m =
     (if as_user_id a = [] then Inl EmptyAssignmentUser
      else if fmlookup m (as_user_id a) \<noteq> None then Inl (RepeatedAssignmentUser (as_user_id a))
      else case fold_res restore_role_member (as_role_names a) fmempty of
             Inl e \<Rightarrow> Inl e
           | Inr s \<Rightarrow>
               (case fold_res restore_provider (as_provider_assignments a) s of
                  Inl e \<Rightarrow> Inl e
                | Inr s' \<Rightarrow> Inr (fmupd (as_user_id a) s' m)))"

definition parse_scope :: "string \<Rightarrow> permission_scope option" where
  "parse_scope s = find (\<lambda>c. scope_string c = s) [ScopeServer, ScopeGroup, ScopeRoom, ScopeDM]"

definition parse_decision :: "string \<Rightarrow> decision_kind option" where
  "parse_decision s = find (\<lambda>d. decision_string d = s) [DecisionAllow, DecisionDeny]"

definition restore_decision_row ::
  "decision_snapshot \<Rightarrow> (rbacDecisionKey, decision_kind) fmap
    \<Rightarrow> rbac_restore_error + (rbacDecisionKey, decision_kind) fmap" where
  "restore_decision_row row m =
     (case parse_scope (ds_scope row) of
        None \<Rightarrow> Inl (InvalidScope (ds_scope row))
      | Some scope \<Rightarrow>
          if (scope = ScopeGroup \<or> scope = ScopeRoom) \<and> ds_scope_id row = []
          then Inl EmptyScopedObject
          else if (scope = ScopeServer \<or> scope = ScopeDM) \<and> ds_scope_id row \<noteq> []
          then Inl UnexpectedSingletonScope
          else if ds_subject_kind row = SUBJECT_KIND_UNSPECIFIED \<or> ds_subject row = []
                  \<or> ds_permission row = []
          then Inl InvalidDecisionRow
          else (case parse_decision (ds_decision row) of
                  None \<Rightarrow> Inl (InvalidDecisionKind (ds_decision row))
                | Some d \<Rightarrow>
                    let k = RbacKey scope (ds_scope_id row) (ds_subject_kind row) (ds_subject row)
                              (ds_permission row)
                    in if fmlookup m k \<noteq> None then Inl RepeatedDecision else Inr (fmupd k d m)))"

definition restore_rbac_message :: "rbac_snapshot \<Rightarrow> rbac_restore_error + rbac_projection" where
  "restore_rbac_message s =
     (case restoreReplayGuard (rb_replay_guard s) of
        Inl e \<Rightarrow> Inl (GuardRejected e)
      | Inr g \<Rightarrow>
     (case fold_res restore_role_row (rb_roles s) fmempty of
        Inl e \<Rightarrow> Inl e
      | Inr rs \<Rightarrow>
     (case fold_res restore_assignment_row (rb_assignments s) fmempty of
        Inl e \<Rightarrow> Inl e
      | Inr as \<Rightarrow>
     (case fold_res restore_decision_row (rb_decisions s) fmempty of
        Inl e \<Rightarrow> Inl e
      | Inr ds \<Rightarrow>
          Inr \<lparr>roles = rs, assignments = as, decisions = ds, rbac_guard = g\<rparr>))))"

text \<open>
  \<open>Restore\<close> replaces the state only after every row was accepted; on an error the
  projection keeps the state it had.
\<close>

definition RBAC_Restore ::
  "(8 word list \<Rightarrow> rbac_snapshot option) \<Rightarrow> 8 word list \<Rightarrow> rbac_projection
    \<Rightarrow> rbac_restore_error option \<times> rbac_projection" where
  "RBAC_Restore unmarshal data p =
     (case (if data = [] then Some empty_rbac_snapshot else unmarshal data) of
        None \<Rightarrow> (Some UnmarshalFailed, p)
      | Some s \<Rightarrow>
          (case restore_rbac_message s of
             Inl e \<Rightarrow> (Some e, p)
           | Inr q \<Rightarrow> (None, q)))"

section \<open>Well-formedness\<close>

definition decision_key_ok :: "rbacDecisionKey \<Rightarrow> bool" where
  "decision_key_ok k \<longleftrightarrow>
     (rk_scope k = ScopeGroup \<or> rk_scope k = ScopeRoom \<longleftrightarrow> rk_scopeID k \<noteq> [])
     \<and> rk_subjectKind k \<noteq> SUBJECT_KIND_UNSPECIFIED \<and> rk_subject k \<noteq> [] \<and> rk_permission k \<noteq> []"

definition role_entry_ok :: "string \<Rightarrow> role \<Rightarrow> bool" where
  "role_entry_ok n r \<longleftrightarrow> n \<noteq> [] \<and> role_name r = n"

definition assignment_entry_ok :: "string \<Rightarrow> (string, string) fmap \<Rightarrow> bool" where
  "assignment_entry_ok u m \<longleftrightarrow> u \<noteq> [] \<and> fmdom m \<noteq> {||} \<and> [] |\<notin>| fmdom m"

definition decision_entry_ok :: "rbacDecisionKey \<Rightarrow> decision_kind \<Rightarrow> bool" where
  "decision_entry_ok k d \<longleftrightarrow> decision_key_ok k \<and> d \<noteq> DecisionNone"

definition rbac_wf :: "rbac_projection \<Rightarrow> bool" where
  "rbac_wf p \<longleftrightarrow> fmpred role_entry_ok (roles p) \<and> fmpred assignment_entry_ok (assignments p)
     \<and> fmpred decision_entry_ok (decisions p)"

lemma rbac_wf_new [simp]: "rbac_wf NewRBACProjection"
  by (simp add: rbac_wf_def NewRBACProjection_def)

lemma rbac_wf_set_guard [simp]: "rbac_wf (set_rbac_guard g p) = rbac_wf p"
  by (simp add: rbac_wf_def set_rbac_guard_def)

lemma wf_applyRoleUpsert [rbac_inv_intros]: "rbac_wf p \<Longrightarrow> rbac_wf (applyRoleUpsert r p)"
  by (auto simp: rbac_wf_def applyRoleUpsert_def role_entry_ok_def split: option.splits)

lemma role_entry_update:
  assumes "fmpred role_entry_ok m" and "fmlookup m n = Some r" and "role_name r' = role_name r"
  shows "fmpred role_entry_ok (fmupd n r' m)"
proof -
  have "role_entry_ok n r" using assms(1,2) by (rule fmpredD)
  then show ?thesis using assms(1,3) by (auto simp: role_entry_ok_def intro!: fmpred_upd)
qed

lemma wf_update_role:
  "rbac_wf p \<Longrightarrow> (\<And>r. role_name (f r) = role_name r) \<Longrightarrow> rbac_wf (update_role n f p)"
  by (auto simp: rbac_wf_def update_role_def intro!: role_entry_update split: option.splits)

lemma wf_role_setters [rbac_inv_intros]:
  "rbac_wf p \<Longrightarrow> rbac_wf (applyRoleDisplayNameChanged n d p)"
  "rbac_wf p \<Longrightarrow> rbac_wf (applyRoleDescriptionChanged n d p)"
  "rbac_wf p \<Longrightarrow> rbac_wf (applyRolePingableChanged n b p)"
  by (auto simp: applyRoleDisplayNameChanged_def applyRoleDescriptionChanged_def
      applyRolePingableChanged_def intro!: wf_update_role)

lemma reorder_step_ok:
  "fmpred role_entry_ok (snd st) \<Longrightarrow> fmpred role_entry_ok (snd (reorder_step n st))"
  by (auto simp: reorder_step_def Let_def intro!: role_entry_update split: prod.splits option.splits)

lemma fold_reorder_ok:
  "fmpred role_entry_ok (snd st) \<Longrightarrow> fmpred role_entry_ok (snd (fold reorder_step ns st))"
  by (induction ns arbitrary: st) (auto simp: reorder_step_ok)

lemma wf_applyRolesReordered [rbac_inv_intros]: "rbac_wf p \<Longrightarrow> rbac_wf (applyRolesReordered ns p)"
  by (auto simp: rbac_wf_def applyRolesReordered_def intro!: fold_reorder_ok)

lemma drop_role_assignments_lookup:
  "fmlookup (drop_role_assignments n a) u =
     (case fmlookup a u of
        None \<Rightarrow> None
      | Some m \<Rightarrow> if fmdom (fmdrop n m) = {||} then None else Some (fmdrop n m))"
  by (auto simp: drop_role_assignments_def user_assignments_def Let_def split: option.splits)

lemma assignment_entry_drop:
  "assignment_entry_ok u m \<Longrightarrow> fmdom (fmdrop n m) \<noteq> {||} \<Longrightarrow> assignment_entry_ok u (fmdrop n m)"
  by (auto simp: assignment_entry_ok_def)

lemma wf_applyRoleDeleted [rbac_inv_intros]: "rbac_wf p \<Longrightarrow> rbac_wf (applyRoleDeleted n p)"
  by (auto simp: rbac_wf_def applyRoleDeleted_def fmpred_iff drop_role_assignments_lookup
      intro!: assignment_entry_drop split: option.splits if_splits)

lemma user_assignments_ok:
  "rbac_wf p \<Longrightarrow> [] |\<notin>| fmdom (user_assignments (assignments p) u)"
  by (auto simp: rbac_wf_def user_assignments_def assignment_entry_ok_def fmpred_iff split: option.splits)

lemma wf_set_assignments:
  "rbac_wf p \<Longrightarrow> assignment_entry_ok u m \<Longrightarrow> rbac_wf (p\<lparr>assignments := fmupd u m (assignments p)\<rparr>)"
  by (auto simp: rbac_wf_def intro!: fmpred_upd)

lemma wf_applyRoleAssigned [rbac_inv_intros]: "rbac_wf p \<Longrightarrow> rbac_wf (applyRoleAssigned u n i p)"
  using user_assignments_ok [of p u]
  by (auto simp: applyRoleAssigned_def assignment_entry_ok_def Let_def
      intro!: wf_set_assignments dest: fmdom_nonempty)

lemma wf_applyRoleRevoked [rbac_inv_intros]: "rbac_wf p \<Longrightarrow> rbac_wf (applyRoleRevoked u n p)"
  using user_assignments_ok [of p u]
  by (auto simp: applyRoleRevoked_def Let_def assignment_entry_ok_def intro!: wf_set_assignments)
    (auto simp: rbac_wf_def)

lemma permissionScopeFromProto_ok:
  "permissionScopeFromProto (Some sc) = Some s \<Longrightarrow>
     s = ScopeServer \<or> (s = ScopeDM \<and> sc_id sc = []) \<or> ((s = ScopeGroup \<or> s = ScopeRoom) \<and> sc_id sc \<noteq> [])"
  by (auto simp: permissionScopeFromProto_def split: if_splits)

lemma key_from_fields_ok: "rbacDecisionKeyFromFields sc su perm = Some k \<Longrightarrow> decision_key_ok k"
  by (auto simp: rbacDecisionKeyFromFields_def decision_key_ok_def
      dest!: permissionScopeFromProto_ok split: option.splits if_splits)

lemma key_from_legacy_ok: "rbacDecisionKeyFromLegacyFields loc su perm = Some k \<Longrightarrow> decision_key_ok k"
  by (cases loc)
    (auto simp: rbacDecisionKeyFromLegacyFields_def decision_key_ok_def
      rbacPermissionSubjectKindForID_def rbacScopeFromLegacyLocation_def split: if_splits)

lemma decision_event_key_ok: "decision_event_key e = Some k \<Longrightarrow> decision_key_ok k"
  by (auto simp: decision_event_key_def legacyRBACDecisionKeyFromUnknown_def
      dest: key_from_fields_ok key_from_legacy_ok split: option.splits if_splits prod.splits)

lemma wf_applyPermission [rbac_inv_intros]:
  "rbac_wf p \<Longrightarrow> d \<noteq> DecisionNone \<Longrightarrow> rbac_wf (applyPermissionDecision e d p)"
  "rbac_wf p \<Longrightarrow> rbac_wf (applyPermissionCleared e p)"
  by (auto simp: rbac_wf_def applyPermissionDecision_def applyPermissionCleared_def
      decision_entry_ok_def intro!: fmpred_upd dest: decision_event_key_ok split: option.splits)

lemma wf_rbac_switch: "rbac_wf p \<Longrightarrow> rbac_wf (rbac_switch e p)"
  by (cases e) (auto intro: rbac_inv_intros)

lemma wf_rbac_reduce: "rbac_wf p \<Longrightarrow> rbac_wf (rbac_reduce ev sq p)"
  by (auto simp: rbac_reduce_def wf_rbac_switch split: option.splits)

section \<open>The round trip\<close>

lemma restore_roles:
  assumes "fmpred role_entry_ok m"
  shows "fold_res restore_role_row (map (\<lambda>n. snapshotRole (the (fmlookup m n))) (sortedMapKeys m)) fmempty
    = Inr m"
proof (rule fold_res_rebuild)
  fix n r and a :: "(string, role) fmap"
  assume "fmlookup m n = Some r" and "fmlookup a n = None"
  moreover from this assms have "role_entry_ok n r" by auto
  ultimately show "restore_role_row (snapshotRole (the (fmlookup m n))) a = Inr (fmupd n r a)"
    by (simp add: restore_role_row_def role_entry_ok_def) (simp add: snapshotRole_def restoreRole_def)
qed

lemma sortedMapKeys_fmmap [simp]: "sortedMapKeys (fmmap f m) = sortedMapKeys m"
  by (simp add: sortedMapKeys_def)

lemma restore_members:
  assumes "[] |\<notin>| fmdom m"
  shows "fold_res restore_role_member (sortedMapKeys m) fmempty = Inr (fmmap (\<lambda>_. []) m)"
proof -
  have "fold_res restore_role_member (map (\<lambda>n. n) (sortedMapKeys (fmmap (\<lambda>_. [] :: string) m))) fmempty
    = Inr (fmmap (\<lambda>_. []) m)"
    using assms by (intro fold_res_rebuild) (auto simp: restore_role_member_def dest: fmdomI)
  then show ?thesis by simp
qed

lemma restore_providers:
  "fold_res restore_provider
     (map (\<lambda>n. (n, the (fmlookup m n))) (filter (\<lambda>n. fmlookup m n \<noteq> Some []) (sortedMapKeys m)))
     (fmmap (\<lambda>_. []) m) = Inr m"
proof -
  let ?ks = "filter (\<lambda>n. fmlookup m n \<noteq> Some []) (sortedMapKeys m)"
  have "fold_res restore_provider (map (\<lambda>n. (n, the (fmlookup m n))) ?ks) (fmmap (\<lambda>_. []) m)
    = Inr (fold (\<lambda>n. fmupd n (the (fmlookup m n))) ?ks (fmmap (\<lambda>_. []) m))"
    by (rule fold_res_upd) (auto simp: restore_provider_def fmlookup_dom_iff)
  also have "fold (\<lambda>n. fmupd n (the (fmlookup m n))) ?ks (fmmap (\<lambda>_. []) m) = m"
    by (rule fmap_eqI) (auto simp: fmlookup_fold_upd fmlookup_dom_iff)
  finally show ?thesis .
qed

lemma restore_assignments:
  assumes "fmpred assignment_entry_ok m"
  shows "fold_res restore_assignment_row (map (snapshotAssignment m) (sortedMapKeys m)) fmempty = Inr m"
proof (rule fold_res_rebuild)
  fix u ms and a :: assignment_map
  assume u: "fmlookup m u = Some ms" and a: "fmlookup a u = None"
  then have "assignment_entry_ok u ms" using assms by auto
  moreover have "user_assignments m u = ms" using u by (simp add: user_assignments_def)
  ultimately show "restore_assignment_row (snapshotAssignment m u) a = Inr (fmupd u ms a)"
    using a
    by (simp add: restore_assignment_row_def snapshotAssignment_def Let_def assignment_entry_ok_def
        restore_members restore_providers)
qed

lemma parse_scope_string [simp]: "parse_scope (scope_string s) = Some s"
  by (cases s) (simp_all add: parse_scope_def)

lemma parse_decision_string [simp]: "d \<noteq> DecisionNone \<Longrightarrow> parse_decision (decision_string d) = Some d"
  by (cases d) (simp_all add: parse_decision_def)

lemma restore_decisions:
  assumes "fmpred decision_entry_ok (decisions p)"
  shows "fold_res restore_decision_row (map (snapshotDecision p) (sortedMapKeys (decisions p))) fmempty
    = Inr (decisions p)"
proof (rule fold_res_rebuild)
  fix k d and a :: "(rbacDecisionKey, decision_kind) fmap"
  assume k: "fmlookup (decisions p) k = Some d" and a: "fmlookup a k = None"
  then have "decision_entry_ok k d" using assms by auto
  then show "restore_decision_row (snapshotDecision p k) a = Inr (fmupd k d a)"
    using k a
    by (cases k; cases "rk_scope k")
      (auto simp: restore_decision_row_def snapshotDecision_def decision_entry_ok_def decision_key_ok_def
        simp del: scope_string.simps decision_string.simps)
qed

lemma restore_rbac_snapshot:
  assumes "rbac_wf p" and "guard_ok (rbac_guard p)"
    and "replayComplete (rbac_guard p) \<or> compatibilityMode (rbac_guard p)"
  shows "restore_rbac_message (rbac_snapshot_message p) = Inr p"
  using assms
  by (simp add: restore_rbac_message_def rbac_snapshot_message_def restore_snapshot_guard rbac_wf_def
      restore_roles restore_assignments restore_decisions)

section \<open>The contract\<close>

lemma rbac_switch_guard [keeps_guard]:
  "rbac_switch e (set_rbac_guard g p) = set_rbac_guard g (rbac_switch e p)"
  by (cases p; cases e)
    (simp_all add: applyRoleUpsert_def applyRoleDisplayNameChanged_def applyRoleDescriptionChanged_def
      applyRolePingableChanged_def update_role_def applyRoleDeleted_def applyRolesReordered_def
      applyRoleAssigned_def applyRoleRevoked_def applyPermissionDecision_def applyPermissionCleared_def
      set_rbac_guard_def Let_def split: option.split)

lemma set_rbac_guard_laws:
  "rbac_guard (set_rbac_guard g p) = g"
  "set_rbac_guard g (set_rbac_guard g' p) = set_rbac_guard g p"
  "set_rbac_guard (rbac_guard p) p = p"
  by (simp_all add: set_rbac_guard_def)

lemma rbac_reduce_guard [keeps_guard]:
  "rbac_reduce ev sq (set_rbac_guard g p) = set_rbac_guard g (rbac_reduce ev sq p)"
  by (simp add: rbac_reduce_def keeps_guard split: option.split)

lemma RBAC_Apply_Some:
  "RBAC_Apply p (Some ev) sq =
     (case guard_seenOrMark (rbac_guard p) ev sq of
        None \<Rightarrow> None
      | Some (seen, g) \<Rightarrow> Some (if seen then set_rbac_guard g p else rbac_reduce ev sq (set_rbac_guard g p)))"
  by (simp add: RBAC_Apply_def)

interpretation rbac: snapshot_projection rbac_guard set_rbac_guard rbac_reduce RBAC_Apply
  RBAC_CompleteStartupReplay rbac_snapshot_message restore_rbac_message rbac_wf
  by unfold_locales
    (simp_all add: set_rbac_guard_laws keeps_guard RBAC_Apply_Some RBAC_CompleteStartupReplay_def
      wf_rbac_reduce restore_rbac_snapshot, simp add: RBAC_Apply_def)

end
