(* ===== verification/RBAC_Properties.thy ===== *)
theory RBAC_Properties
  imports RBAC_Snapshot
begin

text \<open>
  What the RBAC projection promises its readers: it survives any log, ignores
  redelivered and republished events, restarts from its snapshot, and answers its
  reads by the last event that concerns them.
\<close>

section \<open>Facts on the reads\<close>

lemma key_of_builder:
  assumes "perm \<noteq> []" and "sid \<noteq> []" and "k \<noteq> SUBJECT_KIND_UNSPECIFIED"
    and "scope = ScopeGroup \<or> scope = ScopeRoom \<Longrightarrow> scopeID \<noteq> []"
    and "k = rbacPermissionSubjectKindForID sid"
  shows "decision_event_key (rbacPermissionEvent scope scopeID k sid perm)
    = Some (rbacDecisionKeyFor scope scopeID sid perm)"
  using assms
  by (cases scope)
    (auto simp: decision_event_key_def rbacPermissionEvent_def rbacPermissionScope_def
      rbacPermissionSubject_def rbacDecisionKeyFromFields_def permissionScopeFromProto_def
      rbacDecisionKeyFor_def)

lemma subject_kind_specified: "rbacPermissionSubjectKindForID s \<noteq> SUBJECT_KIND_UNSPECIFIED"
  by (simp add: rbacPermissionSubjectKindForID_def)

lemma HasRole_deleted:
  "n \<noteq> [] \<Longrightarrow> HasRole (applyRoleDeleted n p) u r \<longleftrightarrow> r \<noteq> n \<and> HasRole p u r"
  by (auto simp: HasRole_def applyRoleDeleted_def user_assignments_def drop_role_assignments_lookup
      split: option.splits dest: fmdomI)

lemma HasRole_assigned:
  "u \<noteq> [] \<Longrightarrow> n \<noteq> [] \<Longrightarrow>
     HasRole (applyRoleAssigned u n i p) v r \<longleftrightarrow> (v = u \<and> r = n) \<or> HasRole p v r"
  by (auto simp: HasRole_def applyRoleAssigned_def user_assignments_def Let_def split: option.splits if_splits)

lemma HasRole_revoked:
  "u \<noteq> [] \<Longrightarrow> n \<noteq> [] \<Longrightarrow>
     HasRole (applyRoleRevoked u n p) v r \<longleftrightarrow> (v, r) \<noteq> (u, n) \<and> HasRole p v r"
  by (auto simp: HasRole_def applyRoleRevoked_def user_assignments_def Let_def
      split: option.splits if_splits dest: fmdomI)

section \<open>Reordering\<close>

text \<open>The names of a reorder request that name an existing custom role.\<close>

definition custom_names :: "(string, role) fmap \<Rightarrow> string list \<Rightarrow> string list" where
  "custom_names rs ns = filter (\<lambda>n. fmlookup rs n \<noteq> None \<and> \<not> IsSystemRole n) ns"

definition position_in :: "(string, role) fmap \<Rightarrow> string \<Rightarrow> int" where
  "position_in rs n = (case fmlookup rs n of None \<Rightarrow> 0 | Some r \<Rightarrow> sint (role_position r))"

lemma sint_succ: "sint (p :: i32) < 2 ^ 31 - 1 \<Longrightarrow> sint (p + 1) = sint p + 1"
  using sint_ge [of p] by (simp add: sint_word_ariths signed_take_bit_int_eq_self)

lemma skip_bounds:
  assumes "sint p < 2 ^ 31 - 2"
  shows "sint p \<le> sint (skip_system_positions p)" "sint (skip_system_positions p) \<le> sint p + 1"
    "\<not> isSystemPosition (skip_system_positions p)"
  using assms sint_succ [of p] isSystemPosition_next [of p] by (auto simp: skip_system_positions_eq)

lemma reorder_loop:
  assumes "distinct (custom_names rs ns)" and "0 < sint pos"
    and "sint pos + 2 * int (length ns) < 2 ^ 31 - 2"
    and "fold reorder_step ns (pos, rs) = (pos', rs')"
  shows "(\<forall>n. n \<notin> set (custom_names rs ns) \<longrightarrow> fmlookup rs' n = fmlookup rs n)
    \<and> (\<forall>n \<in> set (custom_names rs ns). \<exists>r q. fmlookup rs n = Some r
          \<and> fmlookup rs' n = Some (r\<lparr>role_position := q\<rparr>) \<and> \<not> isSystemPosition q \<and> sint pos \<le> sint q)
    \<and> sorted_wrt (<) (map (position_in rs') (custom_names rs ns))"
  using assms
proof (induction ns arbitrary: pos rs)
  case Nil
  then show ?case by (simp add: custom_names_def)
next
  case (Cons n ns)
  show ?case
  proof (cases "fmlookup rs n = None \<or> IsSystemRole n")
    case True
    then have "reorder_step n (pos, rs) = (pos, rs)" "custom_names rs (n # ns) = custom_names rs ns"
      by (auto simp: reorder_step_def custom_names_def split: option.split)
    then show ?thesis using Cons.IH [of rs pos] Cons.prems by simp
  next
    case False
    then obtain r where r: "fmlookup rs n = Some r" by auto
    let ?q = "skip_system_positions pos"
    let ?rs = "fmupd n (r\<lparr>role_position := ?q\<rparr>) rs"
    have step: "reorder_step n (pos, rs) = (?q + 1, ?rs)"
      using r False by (simp add: reorder_step_def Let_def)
    have cn: "custom_names rs (n # ns) = n # custom_names rs ns"
      "custom_names ?rs ns = custom_names rs ns"
      using r False by (auto simp: custom_names_def intro: filter_cong)
    have q: "sint pos \<le> sint ?q" "sint ?q \<le> sint pos + 1" "\<not> isSystemPosition ?q"
      using Cons.prems(3) by (auto intro!: skip_bounds)
    have q1: "sint (?q + 1) = sint ?q + 1"
      using q(2) Cons.prems(3) by (intro sint_succ) simp
    have nd: "n \<notin> set (custom_names rs ns)" "distinct (custom_names rs ns)"
      using Cons.prems(1) cn(1) by auto
    note IH = Cons.IH [of ?rs "?q + 1", unfolded cn(2)]
    have ih: "(\<forall>m. m \<notin> set (custom_names rs ns) \<longrightarrow> fmlookup rs' m = fmlookup ?rs m)
      \<and> (\<forall>m \<in> set (custom_names rs ns). \<exists>r q. fmlookup ?rs m = Some r
          \<and> fmlookup rs' m = Some (r\<lparr>role_position := q\<rparr>) \<and> \<not> isSystemPosition q \<and> sint ?q + 1 \<le> sint q)
      \<and> sorted_wrt (<) (map (position_in rs') (custom_names rs ns))"
      using IH nd(2) Cons.prems(2,3,4) q q1 step by simp
    have n': "fmlookup rs' n = Some (r\<lparr>role_position := ?q\<rparr>)"
      using ih nd(1) by simp
    have later: "sint ?q < position_in rs' m" if m: "m \<in> set (custom_names rs ns)" for m
    proof -
      from ih m obtain r' q' where "fmlookup rs' m = Some (r'\<lparr>role_position := q'\<rparr>)" "sint ?q + 1 \<le> sint q'"
        by blast
      then show ?thesis by (simp add: position_in_def)
    qed
    have rest: "\<exists>r q. fmlookup rs m = Some r \<and> fmlookup rs' m = Some (r\<lparr>role_position := q\<rparr>)
        \<and> \<not> isSystemPosition q \<and> sint pos \<le> sint q" if m: "m \<in> set (custom_names rs ns)" for m
    proof -
      from ih m obtain r' q' where "fmlookup ?rs m = Some r'" "fmlookup rs' m = Some (r'\<lparr>role_position := q'\<rparr>)"
        "\<not> isSystemPosition q'" "sint ?q + 1 \<le> sint q'"
        by blast
      moreover have "m \<noteq> n" using m nd(1) by auto
      ultimately show ?thesis using q(1) by auto
    qed
    show ?thesis
      using ih nd(1) n' r q later rest
      by (auto simp: cn(1) position_in_def [of rs' n])
  qed
qed

section \<open>The next free position\<close>

definition max_custom :: "role \<Rightarrow> i32 \<Rightarrow> i32" where
  "max_custom r m =
     (if IsSystemRole (role_name r) then m
      else if sint m < sint (role_position r) then role_position r else m)"

lemma max_custom_fold:
  "sint m \<le> sint (fold max_custom rs m)
   \<and> (\<forall>r \<in> set rs. \<not> IsSystemRole (role_name r) \<longrightarrow> sint (role_position r) \<le> sint (fold max_custom rs m))
   \<and> (\<forall>b. sint m < b \<and> (\<forall>r \<in> set rs. \<not> IsSystemRole (role_name r) \<longrightarrow> sint (role_position r) < b)
          \<longrightarrow> sint (fold max_custom rs m) < b)"
proof (induction rs arbitrary: m)
  case Nil
  then show ?case by simp
next
  case (Cons r rs)
  have "sint m \<le> sint (max_custom r m)"
    "\<not> IsSystemRole (role_name r) \<longrightarrow> sint (role_position r) \<le> sint (max_custom r m)"
    "sint m < b \<Longrightarrow> (\<not> IsSystemRole (role_name r) \<longrightarrow> sint (role_position r) < b) \<Longrightarrow> sint (max_custom r m) < b" for b
    by (auto simp: max_custom_def)
  then show ?case using Cons.IH [of "max_custom r m"] by fastforce
qed

lemma NextAvailablePosition_alt:
  "NextAvailablePosition p = skip_system_positions (fold max_custom (sortedMapValues (roles p)) PositionEveryone + 1)"
proof -
  have "max_custom = (\<lambda>r m. if IsSystemRole (role_name r) then m
          else if sint m < sint (role_position r) then role_position r else m)"
    by (intro ext) (simp add: max_custom_def)
  then show ?thesis by (simp add: NextAvailablePosition_def Let_def)
qed

section \<open>Robustness of replay and restart\<close>

text \<open>C24 (safety). Whatever log the stream holds, delivering it to a fresh RBAC projection,
  completing startup replay and delivering further records never panics on the
  replay guard's nil map, and leaves the projection and its guard well formed.\<close>

theorem rbac_replay_safe:
  "\<exists>p q. deliver RBAC_Apply log NewRBACProjection = Some p
     \<and> deliver RBAC_Apply live (RBAC_CompleteStartupReplay p) = Some q
     \<and> rbac_wf q \<and> guard_ok (rbac_guard q)"
proof -
  have "guard_ok (rbac_guard NewRBACProjection)" by (simp add: NewRBACProjection_def)
  from rbac.run_total [OF this, of log] obtain p where
    p: "deliver RBAC_Apply log NewRBACProjection = Some p" "guard_ok (rbac_guard p)"
    by blast
  have "guard_ok (rbac_guard (RBAC_CompleteStartupReplay p))"
    using p(2) by (simp add: RBAC_CompleteStartupReplay_def set_rbac_guard_def)
  from rbac.run_total [OF this, of live] obtain q where
    q: "deliver RBAC_Apply live (RBAC_CompleteStartupReplay p) = Some q" "guard_ok (rbac_guard q)"
    by blast
  have "rbac_wf (RBAC_CompleteStartupReplay p)"
    using rbac.wf_run [OF rbac_wf_new p(1)] by (rule rbac.wf_complete)
  then have "rbac_wf q" using q(1) by (rule rbac.wf_run)
  then show ?thesis using p q by blast
qed

text \<open>A replay from an empty projection has the state of its
  first-wins log: for every event identity the first record decides, and later
  records that repeat the identity change nothing but the guard.\<close>

theorem rbac_replay_first_wins:
  "map_option (set_rbac_guard g) (deliver RBAC_Apply log NewRBACProjection)
     = Some (set_rbac_guard g (reduce_log rbac_reduce (first_wins {||} log) NewRBACProjection))"
proof -
  have "guard_ok (rbac_guard NewRBACProjection)" "\<not> seq_only (rbac_guard NewRBACProjection)"
    "eventIDs (rbac_guard NewRBACProjection) = Some {||}"
    by (simp_all add: NewRBACProjection_def seq_only_def)
      (simp_all add: newProjectionReplayGuard_def newEventIDSet_def)
  from rbac.run_first_wins [OF this, of log g] show ?thesis by auto
qed

text \<open>After startup, at-least-once delivery is exactly-once in effect:
  when the live records arrive in stream order, delivering any of them again
  leaves the projection, its guard included, as it was.\<close>

theorem rbac_redelivery_ignored:
  assumes "seq_only (rbac_guard p)"
    and "increasing_from (highestSeq (rbac_guard p)) log"
    and "set again \<subseteq> set log"
  shows "deliver RBAC_Apply (log @ again) p = deliver RBAC_Apply log p"
  using assms by (rule rbac.run_at_least_once)

definition sample_event :: "string \<Rightarrow> rbac_event \<Rightarrow> rbac_event event" where
  "sample_event i e = \<lparr>ev_id = i, ev_actor = ''Uroot'', ev_created_at = None, ev_payload = Some e\<rparr>"

definition sample_live :: rbac_projection where
  "sample_live = RBAC_CompleteStartupReplay NewRBACProjection"

lemma rbac_redelivery_ignored_witness:
  "let e = (sample_event ''a'' (RbacRoleAssigned ''U1'' ''mods'' ''''), 5);
       f = (sample_event ''b'' (RbacRoleRevoked ''U1'' ''mods''), 6)
   in deliver RBAC_Apply ([e, f] @ [e]) sample_live = deliver RBAC_Apply [e, f] sample_live"
  unfolding Let_def
  by (rule rbac_redelivery_ignored)
    (simp_all add: sample_live_def RBAC_CompleteStartupReplay_def NewRBACProjection_def
      set_rbac_guard_def guard_completeReplay_def newProjectionReplayGuard_def seq_only_def)

text \<open>C39 (roundtrip). A snapshot taken from any state the projection reaches after startup,
  encoded and restored in a fresh process, is that state: the restored projection
  equals the one captured, whatever the target held before.\<close>

theorem rbac_snapshot_restores_state:
  assumes "proto_codec empty_rbac_snapshot marshal unmarshal"
    and "deliver RBAC_Apply log NewRBACProjection = Some p"
    and "deliver RBAC_Apply live (RBAC_CompleteStartupReplay p) = Some q"
    and "RBAC_Snapshot_bytes marshal q = Some data"
  shows "RBAC_Restore unmarshal data fresh = (None, q)"
proof -
  have "guard_ok (rbac_guard NewRBACProjection)" by (simp add: NewRBACProjection_def)
  from rbac.run_total [OF this, of log] assms(2) have "guard_ok (rbac_guard p)" by auto
  then have g: "guard_ok (rbac_guard (RBAC_CompleteStartupReplay p))"
    "replayComplete (rbac_guard (RBAC_CompleteStartupReplay p))"
    by (simp_all add: RBAC_CompleteStartupReplay_def set_rbac_guard_def)
      (simp add: guard_completeReplay_def Let_def)
  have q: "guard_ok (rbac_guard q)" "replayComplete (rbac_guard q)"
    using rbac.run_total [OF g(1), of live] g(2) assms(3) by auto
  have "rbac_wf (RBAC_CompleteStartupReplay p)"
    using rbac.wf_run [OF rbac_wf_new assms(2)] by (rule rbac.wf_complete)
  then have "rbac_wf q" using assms(3) by (rule rbac.wf_run)
  then have "restore_rbac_message (rbac_snapshot_message q) = Inr q"
    using q by (simp add: restore_rbac_snapshot)
  moreover have "(if data = [] then Some empty_rbac_snapshot else unmarshal data)
      = Some (rbac_snapshot_message q)"
    using assms(1,4) by (auto simp: proto_codec_def RBAC_Snapshot_bytes_def)
  ultimately show ?thesis by (simp add: RBAC_Restore_def)
qed

definition sample_log :: "(rbac_event event \<times> seq) list" where
  "sample_log =
     [(sample_event ''a'' (RbacRoleCreated (Some \<lparr>rc_role_name = ''mods'', rc_display_name = ''Mods'',
         rc_description = '''', rc_rank = 7, rc_pingable = True\<rparr>)), 1),
      (sample_event ''b'' (RbacRoleAssigned ''U1'' ''mods'' ''idp''), 2)]"

definition sample_state :: rbac_projection where
  "sample_state = the (deliver RBAC_Apply sample_log NewRBACProjection)"

definition sample_codec :: "rbac_snapshot \<Rightarrow> 8 word list option" where
  "sample_codec m =
     (if m = rbac_snapshot_message (RBAC_CompleteStartupReplay sample_state) then Some [1] else None)"

definition sample_decode :: "8 word list \<Rightarrow> rbac_snapshot option" where
  "sample_decode d =
     (if d = [] then Some empty_rbac_snapshot
      else if d = [1] then Some (rbac_snapshot_message (RBAC_CompleteStartupReplay sample_state))
      else None)"

lemma sample_state_eq: "deliver RBAC_Apply sample_log NewRBACProjection = Some sample_state"
proof -
  have "guard_ok (rbac_guard NewRBACProjection)" by (simp add: NewRBACProjection_def)
  from rbac.run_total [OF this, of sample_log] show ?thesis by (auto simp: sample_state_def)
qed

lemma rbac_snapshot_restores_state_witness:
  "RBAC_Restore sample_decode [1] NewRBACProjection
     = (None, RBAC_CompleteStartupReplay sample_state)"
  by (rule rbac_snapshot_restores_state [where marshal = sample_codec and log = sample_log
        and live = "[]" and p = sample_state])
    (auto simp: proto_codec_def sample_codec_def sample_decode_def sample_state_eq RBAC_Snapshot_bytes_def)

lemma fold_res_pred:
  assumes "fold_res f xs fmempty = Inr m"
    and "\<And>x m m'. fmpred P m \<Longrightarrow> f x m = Inr m' \<Longrightarrow> fmpred P m'"
  shows "fmpred P m"
  by (rule fold_res_inv [OF assms(1)]) (auto intro: assms(2))

definition loaded_assignment_ok :: "string \<Rightarrow> (string, string) fmap \<Rightarrow> bool" where
  "loaded_assignment_ok u m \<longleftrightarrow> u \<noteq> [] \<and> [] |\<notin>| fmdom m"

lemma restored_roles:
  "fold_res restore_role_row rows fmempty = Inr m \<Longrightarrow> fmpred role_entry_ok m"
  by (erule fold_res_pred)
    (auto simp: restore_role_row_def role_entry_ok_def restoreRole_def intro!: fmpred_upd split: if_splits)

lemma restored_members:
  "fold_res restore_role_member ns fmempty = Inr m \<Longrightarrow> [] |\<notin>| fmdom m"
  by (rule fold_res_inv [where P = "\<lambda>m. [] |\<notin>| fmdom m"])
    (auto simp: restore_role_member_def split: if_splits)

lemma restored_providers:
  "fold_res restore_provider ps m = Inr m' \<Longrightarrow> [] |\<notin>| fmdom m \<Longrightarrow> [] |\<notin>| fmdom m'"
  by (rule fold_res_inv [where P = "\<lambda>m. [] |\<notin>| fmdom m"])
    (auto simp: restore_provider_def fmlookup_dom_iff split: if_splits prod.splits)

lemma restored_assignments:
  "fold_res restore_assignment_row rows fmempty = Inr m \<Longrightarrow> fmpred loaded_assignment_ok m"
  by (erule fold_res_pred)
    (auto simp: restore_assignment_row_def loaded_assignment_ok_def intro!: fmpred_upd
      dest!: restored_members dest: restored_providers split: if_splits sum.splits)

lemma parse_decision_not_none: "parse_decision s = Some d \<Longrightarrow> d \<noteq> DecisionNone"
  by (auto simp: parse_decision_def split: if_splits)

lemma restored_decisions:
  "fold_res restore_decision_row rows fmempty = Inr m \<Longrightarrow> fmpred decision_entry_ok m"
proof (erule fold_res_pred)
  fix row m m'
  assume "fmpred decision_entry_ok m" and "restore_decision_row row m = Inr m'"
  then show "fmpred decision_entry_ok m'"
    by (cases "parse_scope (ds_scope row)")
      (auto simp: restore_decision_row_def Let_def decision_entry_ok_def decision_key_ok_def
        parse_decision_not_none intro!: fmpred_upd split: if_splits option.splits
        intro: permission_scope.exhaust)
qed

text \<open>Restoring never yields a corrupt state: whatever bytes the store
  returns, either the restore is refused and the projection keeps its state, or the
  result has a consistent guard, roles filed under their own non-empty names,
  assignments between non-empty identifiers, and decisions that are allow or deny
  under a valid key.\<close>

theorem rbac_restore_sound:
  "case RBAC_Restore unmarshal data p of
     (Some e, q) \<Rightarrow> q = p
   | (None, q) \<Rightarrow> guard_ok (rbac_guard q) \<and> fmpred role_entry_ok (roles q)
       \<and> fmpred loaded_assignment_ok (assignments q) \<and> fmpred decision_entry_ok (decisions q)"
  by (auto simp: RBAC_Restore_def restore_rbac_message_def restoreReplayGuard_ok restored_roles
      restored_assignments restored_decisions split: option.splits sum.splits if_splits)

section \<open>What the reads answer\<close>

text \<open>Deleting a role leaves no trace of it: nobody holds it, it is not
  listed, it has no decisions, and every other role, every other assignment and
  every decision of another subject is as before. So re-creating the name later
  inherits neither members nor permissions.\<close>

theorem role_deletion_complete:
  assumes "name \<noteq> []"
  shows "(let q = rbac_switch (RbacRoleDeleted name) p in
     GetRole q name = None \<and> GetRoleUsers q name = [] \<and> RolePermissionDecisions q name = []
     \<and> (\<forall>u r. HasRole q u r \<longleftrightarrow> r \<noteq> name \<and> HasRole p u r)
     \<and> (\<forall>r. r \<noteq> name \<longrightarrow> GetRole q r = GetRole p r)
     \<and> (\<forall>scope scopeID s perm. s \<noteq> name \<longrightarrow>
          GetDecision q scope scopeID s perm = GetDecision p scope scopeID s perm))"
proof -
  have keys: "rk_subject (rbacDecisionKeyFor sc i s perm) = s" for sc i s perm
    by (simp add: rbacDecisionKeyFor_def)
  have none: "RolePermissionDecisions (applyRoleDeleted name p) name = []"
    using assms
    by (auto simp: RolePermissionDecisions_def applyRoleDeleted_def filter_empty_conv fmlookup_dom_iff)
  show ?thesis
    using assms none
    by (simp add: Let_def HasRole_deleted GetRoleUsers_def)
      (simp add: GetRole_def GetDecision_def applyRoleDeleted_def keys)
qed

lemma role_deletion_complete_witness:
  "GetRoleUsers (rbac_switch (RbacRoleDeleted ''mods'') sample_state) ''mods'' = []"
  using role_deletion_complete [of "''mods''" sample_state] by (simp add: Let_def)

text \<open>What a writer grants, denies or clears is what the resolver reads:
  applying the event that the builders of a role's or user's decision produce sets
  the answer of \<open>GetDecision\<close> at that scope, subject and permission, and changes no
  other answer.\<close>

theorem written_decision_is_read:
  assumes "perm \<noteq> []" and "sid \<noteq> []" and "scope = ScopeGroup \<or> scope = ScopeRoom \<Longrightarrow> scopeID \<noteq> []"
    and "kind = rbacPermissionSubjectKindForID sid"
    and "(e, d) \<in> {(rbacPermissionGrantedEvent scope scopeID kind sid perm, DecisionAllow),
                   (rbacPermissionDeniedEvent scope scopeID kind sid perm, DecisionDeny),
                   (rbacPermissionClearedEvent scope scopeID kind sid perm, DecisionNone)}"
  shows "GetDecision (rbac_switch e p) scope2 scopeID2 sid2 perm2 =
     (if rbacDecisionKeyFor scope2 scopeID2 sid2 perm2 = rbacDecisionKeyFor scope scopeID sid perm
      then d else GetDecision p scope2 scopeID2 sid2 perm2)"
proof -
  have "decision_event_key (rbacPermissionEvent scope scopeID kind sid perm)
      = Some (rbacDecisionKeyFor scope scopeID sid perm)"
    using assms subject_kind_specified by (intro key_of_builder) auto
  then show ?thesis
    using assms(5)
    by (auto simp: GetDecision_def rbacPermissionGrantedEvent_def rbacPermissionDeniedEvent_def
        rbacPermissionClearedEvent_def applyPermissionDecision_def applyPermissionCleared_def)
qed

lemma written_decision_is_read_witness:
  "GetDecision (rbac_switch (rbacUserPermissionGrantedEvent ScopeRoom ''R1'' ''U1'' PermMessagePost) sample_state)
     ScopeRoom ''R1'' ''U1'' PermMessagePost = DecisionAllow"
  using written_decision_is_read [of PermMessagePost "''U1''" ScopeRoom "''R1''" SUBJECT_KIND_USER
      "rbacUserPermissionGrantedEvent ScopeRoom ''R1'' ''U1'' PermMessagePost" DecisionAllow sample_state
      ScopeRoom "''R1''" "''U1''" PermMessagePost]
  by (simp add: rbacUserPermissionGrantedEvent_def rbacPermissionSubjectKindForID_def IsUserSubject_def)

text \<open>Assigning a role and revoking it move exactly one membership, and the
  first assignment decides who owns it: assigning a held role again keeps the
  recorded owner, so a provider cannot take over a manual assignment.\<close>

theorem assignment_operations:
  assumes "u \<noteq> []" and "n \<noteq> []"
  shows "(\<forall>v r. HasRole (rbac_switch (RbacRoleAssigned u n i) p) v r \<longleftrightarrow> (v, r) = (u, n) \<or> HasRole p v r)
     \<and> (\<forall>v r. HasRole (rbac_switch (RbacRoleRevoked u n) p) v r \<longleftrightarrow> (v, r) \<noteq> (u, n) \<and> HasRole p v r)
     \<and> AssignmentOwner (rbac_switch (RbacRoleAssigned u n i) p) u n
         = (if HasRole p u n then AssignmentOwner p u n else Some i)"
proof -
  have "AssignmentOwner (applyRoleAssigned u n i p) u n
      = (if HasRole p u n then AssignmentOwner p u n else Some i)"
    using assms
    by (auto simp: AssignmentOwner_def applyRoleAssigned_def HasRole_def user_assignments_def Let_def
        split: option.splits)
  then show ?thesis using assms by (auto simp: HasRole_assigned HasRole_revoked)
qed

lemma assignment_operations_witness:
  "HasRole (rbac_switch (RbacRoleAssigned ''U1'' ''mods'' '''') NewRBACProjection) ''U1'' ''mods''
   \<and> \<not> HasRole (rbac_switch (RbacRoleRevoked ''U1'' ''mods'') sample_state) ''U1'' ''mods''"
  using assignment_operations [of "''U1''" "''mods''" "''''" NewRBACProjection]
    assignment_operations [of "''U1''" "''mods''" "''''" sample_state]
  by simp

text \<open>Reordering gives the named custom roles strictly increasing
  positions in the requested order, none of them a position of a built-in role, and
  changes nothing else: built-in roles and roles the request does not name keep
  their record, and a moved role keeps everything but its position.\<close>

theorem reorder_positions:
  assumes "distinct (custom_names (roles p) names)" and "length names < 2 ^ 29"
  shows "(let q = rbac_switch (RbacRolesReordered names) p; moved = custom_names (roles p) names in
     sorted_wrt (<) (map (position_in (roles q)) moved)
     \<and> (\<forall>n \<in> set moved. \<exists>r i. GetRole p n = Some r \<and> GetRole q n = Some (r\<lparr>role_position := i\<rparr>)
           \<and> \<not> isSystemPosition i \<and> PositionEveryone <s i)
     \<and> (\<forall>n. n \<notin> set moved \<longrightarrow> GetRole q n = GetRole p n))"
proof -
  obtain pos' rs' where f: "fold reorder_step names (PositionCustomFirst, roles p) = (pos', rs')"
    by force
  have "0 < sint PositionCustomFirst" by simp
  moreover have "sint PositionCustomFirst + 2 * int (length names) < 2 ^ 31 - 2"
    using assms(2) by simp
  ultimately have *: "(\<forall>n. n \<notin> set (custom_names (roles p) names) \<longrightarrow> fmlookup rs' n = fmlookup (roles p) n)
    \<and> (\<forall>n \<in> set (custom_names (roles p) names). \<exists>r q. fmlookup (roles p) n = Some r
          \<and> fmlookup rs' n = Some (r\<lparr>role_position := q\<rparr>) \<and> \<not> isSystemPosition q
          \<and> sint PositionCustomFirst \<le> sint q)
    \<and> sorted_wrt (<) (map (position_in rs') (custom_names (roles p) names))"
    using reorder_loop [OF assms(1) _ _ f] by blast
  have q: "roles (rbac_switch (RbacRolesReordered names) p) = rs'"
    by (simp add: applyRolesReordered_def f)
  show ?thesis
    using * unfolding Let_def GetRole_def q
    by (fastforce simp: word_sless_alt)
qed

lemma reorder_positions_witness:
  "sorted_wrt (<) (map (position_in (roles (rbac_switch (RbacRolesReordered [''mods'']) sample_state)))
     (custom_names (roles sample_state) [''mods'']))"
  using reorder_positions [of sample_state "[''mods'']"] by (simp add: Let_def custom_names_def)

text \<open>The position offered to a new role is above that of every custom role and
  is not one of a built-in role, as long as the custom roles leave two positions
  free below the largest 32-bit value.\<close>

theorem next_position_fresh:
  assumes "\<forall>r \<in> fset (fmran (roles p)). \<not> IsSystemRole (role_name r) \<longrightarrow> sint (role_position r) < 2 ^ 31 - 3"
  shows "\<not> isSystemPosition (NextAvailablePosition p)
    \<and> PositionEveryone <s NextAvailablePosition p
    \<and> (\<forall>r \<in> fset (fmran (roles p)). \<not> IsSystemRole (role_name r) \<longrightarrow>
         role_position r <s NextAvailablePosition p)"
proof -
  let ?m = "fold max_custom (sortedMapValues (roles p)) PositionEveryone"
  note m = max_custom_fold [of PositionEveryone "sortedMapValues (roles p)", unfolded set_sortedMapValues]
  have lt: "sint ?m < 2 ^ 31 - 3" using m assms by auto
  then have succ: "sint (?m + 1) = sint ?m + 1" by (intro sint_succ) simp
  have "sint ?m < sint (skip_system_positions (?m + 1))"
    "\<not> isSystemPosition (skip_system_positions (?m + 1))"
    using skip_bounds [of "?m + 1"] succ lt by auto
  then show ?thesis
    using m unfolding NextAvailablePosition_alt by (fastforce simp: word_sless_alt)
qed

lemma next_position_fresh_witness: "\<not> isSystemPosition (NextAvailablePosition NewRBACProjection)"
  using next_position_fresh [of NewRBACProjection] by (simp add: NewRBACProjection_def)

end
