(* ===== verification/Room_Directory.thy ===== *)
theory Room_Directory
  imports Projection_Contract
begin

text \<open>
  The room directory: the catalog of rooms (\<open>room_catalog_projection.go\<close>), the
  membership indexes (\<open>room_membership_projection.go\<close>), the bans
  (\<open>room_ban_projection.go\<close>) and the projection that combines the three
  (\<open>room_directory_projection.go\<close>). The snapshot is in theory
  \<open>Room_Directory_Snapshot\<close>.

  The directory has no replay guard: every operation is written so that applying
  an event again in order is harmless. Protobuf timestamps are the instants they
  denote, in nanoseconds since the Unix epoch.
\<close>

section \<open>Events\<close>

abbreviation ROOM_KIND_UNSPECIFIED :: int where "ROOM_KIND_UNSPECIFIED \<equiv> 0"
abbreviation ROOM_KIND_CHANNEL :: int where "ROOM_KIND_CHANNEL \<equiv> 1"
abbreviation ROOM_KIND_DM :: int where "ROOM_KIND_DM \<equiv> 2"

abbreviation THREADING_UNSPECIFIED :: int where "THREADING_UNSPECIFIED \<equiv> 0"
abbreviation THREADING_REQUIRED :: int where "THREADING_REQUIRED \<equiv> 1"
abbreviation THREADING_ENCOURAGED :: int where "THREADING_ENCOURAGED \<equiv> 2"
abbreviation THREADING_ENABLED :: int where "THREADING_ENABLED \<equiv> 3"
abbreviation THREADING_DISABLED :: int where "THREADING_DISABLED \<equiv> 4"

record room_created =
  cr_room_id :: string
  cr_name :: string
  cr_description :: string
  cr_purpose :: string
  cr_kind :: int
  cr_universal :: bool
  cr_threading_mode :: int

record notice_change =
  nc_room_id :: string
  nc_body :: string
  nc_announced :: bool

record member_banned =
  mb_room_id :: string
  mb_user_id :: string
  mb_reason :: string
  mb_expires_at :: "time option"

datatype room_event =
  RoomCreated room_created
| RoomUpdated string string string "string option"
| RoomNoticeChanged notice_change
| RoomArchived string
| RoomUnarchived string
| RoomUniversalChanged string bool
| RoomSlowModeChanged string "32 word" "32 word option"
| RoomThreadingModeChanged string int
| RoomMembershipEventsVisibilityChanged string bool
| RoomDeleted string
| UserJoinedRoom string
| UserLeftRoom string
| RoomMemberBanned member_banned
| RoomMemberUnbanned string string

section \<open>The catalog\<close>

record room_notice =
  rn_version :: string
  rn_publication_id :: string
  rn_body :: string
  rn_published_at :: "time option"

record room_entry =
  re_created_at :: "time option"
  re_name :: string
  re_description :: string
  re_purpose :: string
  re_kind :: int
  re_archived :: bool
  re_universal :: bool
  re_slow_mode :: "32 word"
  re_thread_slow_mode :: "32 word option"
  re_threading_mode :: int
  re_show_membership :: bool
  re_notice :: "room_notice option"

record room_catalog =
  cat_rooms :: "(string, room_entry) fmap"
  cat_seq :: seq

definition NewRoomCatalogProjection :: room_catalog where
  "NewRoomCatalogProjection = \<lparr>cat_rooms = fmempty, cat_seq = 0\<rparr>"

text \<open>The getters of a nil notice answer empty.\<close>

definition noticeAfterChange ::
  "room_notice option \<Rightarrow> room_event event \<Rightarrow> notice_change \<Rightarrow> room_notice" where
  "noticeAfterChange current ev change =
     (let (publicationID, publicationTime) =
        (if nc_body change = [] then ([], None)
         else if nc_announced change then (ev_id ev, ev_created_at ev)
         else (case current of None \<Rightarrow> ([], None) | Some n \<Rightarrow> (rn_publication_id n, rn_published_at n)))
      in \<lparr>rn_version = ev_id ev, rn_publication_id = publicationID, rn_body = nc_body change,
          rn_published_at = publicationTime\<rparr>)"

text \<open>\<open>if entry := p.rooms[id]; entry != nil { ... }\<close>\<close>

definition update_entry ::
  "string \<Rightarrow> (room_entry \<Rightarrow> room_entry) \<Rightarrow> (string, room_entry) fmap \<Rightarrow> (string, room_entry) fmap" where
  "update_entry i f rs = (case fmlookup rs i of None \<Rightarrow> rs | Some e \<Rightarrow> fmupd i (f e) rs)"

definition entry_from_created :: "room_event event \<Rightarrow> room_created \<Rightarrow> room_entry" where
  "entry_from_created ev c =
     \<lparr>re_created_at = ev_created_at ev, re_name = cr_name c, re_description = cr_description c,
      re_purpose = cr_purpose c, re_kind = cr_kind c, re_archived = False,
      re_universal = cr_universal c, re_slow_mode = 0, re_thread_slow_mode = None,
      re_threading_mode = cr_threading_mode c, re_show_membership = True, re_notice = None\<rparr>"

fun catalog_switch ::
  "room_event event \<Rightarrow> room_event \<Rightarrow> (string, room_entry) fmap \<Rightarrow> (string, room_entry) fmap" where
  "catalog_switch ev (RoomCreated c) rs = fmupd (cr_room_id c) (entry_from_created ev c) rs"
| "catalog_switch ev (RoomUpdated i name description purpose) rs =
     update_entry i (\<lambda>e. e\<lparr>re_name := name, re_description := description,
       re_purpose := (case purpose of None \<Rightarrow> re_purpose e | Some p \<Rightarrow> p)\<rparr>) rs"
| "catalog_switch ev (RoomNoticeChanged c) rs =
     update_entry (nc_room_id c) (\<lambda>e. e\<lparr>re_notice := Some (noticeAfterChange (re_notice e) ev c)\<rparr>) rs"
| "catalog_switch ev (RoomArchived i) rs = update_entry i (\<lambda>e. e\<lparr>re_archived := True\<rparr>) rs"
| "catalog_switch ev (RoomUnarchived i) rs = update_entry i (\<lambda>e. e\<lparr>re_archived := False\<rparr>) rs"
| "catalog_switch ev (RoomUniversalChanged i b) rs = update_entry i (\<lambda>e. e\<lparr>re_universal := b\<rparr>) rs"
| "catalog_switch ev (RoomSlowModeChanged i s t) rs =
     update_entry i (\<lambda>e. e\<lparr>re_slow_mode := s, re_thread_slow_mode := t\<rparr>) rs"
| "catalog_switch ev (RoomThreadingModeChanged i m) rs =
     update_entry i (\<lambda>e. e\<lparr>re_threading_mode := m\<rparr>) rs"
| "catalog_switch ev (RoomMembershipEventsVisibilityChanged i b) rs =
     update_entry i (\<lambda>e. e\<lparr>re_show_membership := b\<rparr>) rs"
| "catalog_switch ev (RoomDeleted i) rs = fmdrop i rs"
| "catalog_switch ev (UserJoinedRoom _) rs = rs"
| "catalog_switch ev (UserLeftRoom _) rs = rs"
| "catalog_switch ev (RoomMemberBanned _) rs = rs"
| "catalog_switch ev (RoomMemberUnbanned _ _) rs = rs"

definition Catalog_Apply :: "room_event event option \<Rightarrow> seq \<Rightarrow> room_catalog \<Rightarrow> room_catalog" where
  "Catalog_Apply event sq p =
     (case event of
        None \<Rightarrow> p
      | Some ev \<Rightarrow>
          let p' = (if cat_seq p < sq then p\<lparr>cat_seq := sq\<rparr> else p)
          in (case ev_payload ev of
                None \<Rightarrow> p'
              | Some e \<Rightarrow> p'\<lparr>cat_rooms := catalog_switch ev e (cat_rooms p')\<rparr>))"

definition Catalog_Kind :: "room_catalog \<Rightarrow> string \<Rightarrow> int option" where
  "Catalog_Kind p roomID = map_option re_kind (fmlookup (cat_rooms p) roomID)"

definition Catalog_Exists :: "room_catalog \<Rightarrow> string \<Rightarrow> bool" where
  "Catalog_Exists p roomID \<longleftrightarrow> fmlookup (cat_rooms p) roomID \<noteq> None"

definition Catalog_Count :: "room_catalog \<Rightarrow> nat" where
  "Catalog_Count p = length (sortedMapKeys (cat_rooms p))"

text \<open>The read model of a room.\<close>

record room =
  rm_id :: string
  rm_group_id :: string
  rm_created_at :: "time option"
  rm_name :: string
  rm_description :: string
  rm_purpose :: string
  rm_kind :: int
  rm_archived :: bool
  rm_universal :: bool
  rm_slow_mode :: "32 word"
  rm_thread_slow_mode :: "32 word option"
  rm_threading_mode :: int
  rm_show_membership :: bool
  rm_notice :: "room_notice option"

definition IsValidRoomThreadingMode :: "int \<Rightarrow> bool" where
  "IsValidRoomThreadingMode m \<longleftrightarrow>
     m = THREADING_REQUIRED \<or> m = THREADING_ENCOURAGED \<or> m = THREADING_ENABLED \<or> m = THREADING_DISABLED"

definition normalizedRoomThreadingMode :: "int \<Rightarrow> int \<Rightarrow> int" where
  "normalizedRoomThreadingMode kind mode =
     (if kind = ROOM_KIND_DM then THREADING_ENABLED
      else if mode = THREADING_UNSPECIFIED then THREADING_ENABLED
      else if IsValidRoomThreadingMode mode then mode
      else THREADING_DISABLED)"

definition EffectiveRoomThreadingMode :: "room option \<Rightarrow> int" where
  "EffectiveRoomThreadingMode r =
     (case r of
        None \<Rightarrow> THREADING_UNSPECIFIED
      | Some rm \<Rightarrow> normalizedRoomThreadingMode (rm_kind rm) (rm_threading_mode rm))"

definition entryToRoom :: "string \<Rightarrow> room_entry \<Rightarrow> room" where
  "entryToRoom i e =
     \<lparr>rm_id = i, rm_group_id = [], rm_created_at = re_created_at e, rm_name = re_name e,
      rm_description = re_description e, rm_purpose = re_purpose e, rm_kind = re_kind e,
      rm_archived = re_archived e, rm_universal = re_universal e, rm_slow_mode = re_slow_mode e,
      rm_thread_slow_mode = re_thread_slow_mode e,
      rm_threading_mode = normalizedRoomThreadingMode (re_kind e) (re_threading_mode e),
      rm_show_membership = re_show_membership e, rm_notice = re_notice e\<rparr>"

definition Catalog_Get :: "room_catalog \<Rightarrow> string \<Rightarrow> room option" where
  "Catalog_Get p roomID = map_option (entryToRoom roomID) (fmlookup (cat_rooms p) roomID)"

text \<open>Go ranges over the map in no particular order; the model takes the order of the keys.\<close>

definition Catalog_AllByKind :: "room_catalog \<Rightarrow> int \<Rightarrow> room list" where
  "Catalog_AllByKind p kind =
     filter (\<lambda>r. rm_kind r = kind)
       (map (\<lambda>i. entryToRoom i (the (fmlookup (cat_rooms p) i))) (sortedMapKeys (cat_rooms p)))"

text \<open>
  The comparison key of a room name is computed by the Unicode normalisation
  library, which is a parameter.
\<close>

record name_claim =
  claim_conflict :: string
  claim_seq :: seq

definition NameClaimSnapshot ::
  "(string \<Rightarrow> string) \<Rightarrow> room_catalog \<Rightarrow> string \<Rightarrow> string \<Rightarrow> name_claim" where
  "NameClaimSnapshot canonicalRoomName p name excludeRoomID =
     (let target = canonicalRoomName name in
      if target = [] then \<lparr>claim_conflict = [], claim_seq = 0\<rparr>
      else case find (\<lambda>i. i \<noteq> excludeRoomID
                   \<and> (case fmlookup (cat_rooms p) i of
                        None \<Rightarrow> False
                      | Some e \<Rightarrow> re_kind e = ROOM_KIND_CHANNEL \<and> canonicalRoomName (re_name e) = target))
                 (sortedMapKeys (cat_rooms p)) of
             None \<Rightarrow> \<lparr>claim_conflict = [], claim_seq = cat_seq p\<rparr>
           | Some i \<Rightarrow> \<lparr>claim_conflict = i, claim_seq = cat_seq p\<rparr>)"

definition FindByName :: "(string \<Rightarrow> string) \<Rightarrow> room_catalog \<Rightarrow> string \<Rightarrow> string" where
  "FindByName canonicalRoomName p name = claim_conflict (NameClaimSnapshot canonicalRoomName p name [])"

section \<open>Membership\<close>

datatype room_event_error =
  JoinedMissingIDs
| LeftMissingIDs
| BannedMissingIDs
| BannedMissingReason
| DeletedMissingID

type_synonym index = "(string, string fset) fmap"

record room_membership =
  byRoom :: index
  byUser :: index

definition NewRoomMembershipProjection :: room_membership where
  "NewRoomMembershipProjection = \<lparr>byRoom = fmempty, byUser = fmempty\<rparr>"

definition index_get :: "index \<Rightarrow> string \<Rightarrow> string fset" where
  "index_get m k = (case fmlookup m k of None \<Rightarrow> {||} | Some s \<Rightarrow> s)"

definition index_add :: "string \<Rightarrow> string \<Rightarrow> index \<Rightarrow> index" where
  "index_add k x m = fmupd k (finsert x (index_get m k)) m"

definition index_remove :: "string \<Rightarrow> string \<Rightarrow> index \<Rightarrow> index" where
  "index_remove k x m =
     (case fmlookup m k of
        None \<Rightarrow> m
      | Some s \<Rightarrow> let s' = s |-| {|x|} in if s' = {||} then fmdrop k m else fmupd k s' m)"

definition addLocked :: "string \<Rightarrow> string \<Rightarrow> room_membership \<Rightarrow> room_membership" where
  "addLocked roomID userID p =
     p\<lparr>byRoom := index_add roomID userID (byRoom p), byUser := index_add userID roomID (byUser p)\<rparr>"

definition removeLocked :: "string \<Rightarrow> string \<Rightarrow> room_membership \<Rightarrow> room_membership" where
  "removeLocked roomID userID p =
     p\<lparr>byRoom := index_remove roomID userID (byRoom p), byUser := index_remove userID roomID (byUser p)\<rparr>"

definition dropRoomLocked :: "string \<Rightarrow> room_membership \<Rightarrow> room_membership" where
  "dropRoomLocked roomID p =
     (case fmlookup (byRoom p) roomID of
        None \<Rightarrow> p
      | Some users \<Rightarrow>
          p\<lparr>byUser := fold (\<lambda>u. index_remove u roomID) (sorted_list_of_fset users) (byUser p),
            byRoom := fmdrop roomID (byRoom p)\<rparr>)"

text \<open>
  \<open>roomKind\<close> is the catalog's \<open>Kind\<close>, or nil for a projection on its own. An
  application that fails leaves the membership alone.
\<close>

type_synonym room_kind_lookup = "(string \<Rightarrow> int option) option"

definition left_dm :: "room_kind_lookup \<Rightarrow> string \<Rightarrow> bool" where
  "left_dm roomKind roomID =
     (case roomKind of None \<Rightarrow> False | Some f \<Rightarrow> f roomID = Some ROOM_KIND_DM)"

definition Membership_Apply ::
  "room_kind_lookup \<Rightarrow> room_event event option \<Rightarrow> room_membership \<Rightarrow> room_event_error + room_membership" where
  "Membership_Apply roomKind event p =
     (case event of
        None \<Rightarrow> Inr p
      | Some ev \<Rightarrow>
          (case ev_payload ev of
             Some (UserJoinedRoom roomID) \<Rightarrow>
               if roomID = [] \<or> ev_actor ev = [] then Inl JoinedMissingIDs
               else Inr (addLocked roomID (ev_actor ev) p)
           | Some (UserLeftRoom roomID) \<Rightarrow>
               if roomID = [] \<or> ev_actor ev = [] then Inl LeftMissingIDs
               else Inr (if left_dm roomKind roomID then p else removeLocked roomID (ev_actor ev) p)
           | Some (RoomMemberBanned b) \<Rightarrow>
               if mb_room_id b = [] \<or> mb_user_id b = [] then Inl BannedMissingIDs
               else Inr (removeLocked (mb_room_id b) (mb_user_id b) p)
           | Some (RoomDeleted roomID) \<Rightarrow>
               if roomID = [] then Inl DeletedMissingID else Inr (dropRoomLocked roomID p)
           | _ \<Rightarrow> Inr p))"

definition IsMember :: "room_membership \<Rightarrow> string \<Rightarrow> string \<Rightarrow> bool" where
  "IsMember p roomID userID \<longleftrightarrow> userID |\<in>| index_get (byRoom p) roomID"

definition Members :: "room_membership \<Rightarrow> string \<Rightarrow> string list" where
  "Members p roomID = sorted_list_of_fset (index_get (byRoom p) roomID)"

definition Rooms :: "room_membership \<Rightarrow> string \<Rightarrow> string list" where
  "Rooms p userID = sorted_list_of_fset (index_get (byUser p) userID)"

definition Membership_Stats :: "room_membership \<Rightarrow> nat \<times> nat" where
  "Membership_Stats p =
     (length (sortedMapKeys (byRoom p)), sum_list (map fcard (sortedMapValues (byRoom p))))"

section \<open>Bans\<close>

record room_ban =
  ban_event_id :: string
  ban_room_id :: string
  ban_user_id :: string
  ban_moderator_id :: string
  ban_reason :: string
  ban_created_at :: time
  ban_expires_at :: "time option"

definition Ban_Active :: "room_ban \<Rightarrow> time \<Rightarrow> bool" where
  "Ban_Active b now = (case ban_expires_at b of None \<Rightarrow> True | Some t \<Rightarrow> now < t)"

type_synonym ban_map = "(string, (string, room_ban) fmap) fmap"

definition room_bans :: "ban_map \<Rightarrow> string \<Rightarrow> (string, room_ban) fmap" where
  "room_bans m r = (case fmlookup m r of None \<Rightarrow> fmempty | Some us \<Rightarrow> us)"

definition ban_from_event :: "room_event event \<Rightarrow> member_banned \<Rightarrow> room_ban" where
  "ban_from_event ev b =
     \<lparr>ban_event_id = ev_id ev, ban_room_id = mb_room_id b, ban_user_id = mb_user_id b,
      ban_moderator_id = ev_actor ev, ban_reason = mb_reason b,
      ban_created_at = (case ev_created_at ev of None \<Rightarrow> zero_time | Some t \<Rightarrow> t),
      ban_expires_at = mb_expires_at b\<rparr>"

definition Bans_remove :: "string \<Rightarrow> string \<Rightarrow> ban_map \<Rightarrow> ban_map" where
  "Bans_remove roomID userID m =
     (case fmlookup m roomID of
        None \<Rightarrow> m
      | Some users \<Rightarrow>
          let users' = fmdrop userID users
          in if fmdom users' = {||} then fmdrop roomID m else fmupd roomID users' m)"

definition Bans_Apply :: "room_event event option \<Rightarrow> ban_map \<Rightarrow> room_event_error + ban_map" where
  "Bans_Apply event m =
     (case event of
        None \<Rightarrow> Inr m
      | Some ev \<Rightarrow>
          (case ev_payload ev of
             Some (RoomMemberBanned b) \<Rightarrow>
               if mb_room_id b = [] \<or> mb_user_id b = [] \<or> mb_reason b = [] then Inl BannedMissingReason
               else Inr (fmupd (mb_room_id b)
                          (fmupd (mb_user_id b) (ban_from_event ev b) (room_bans m (mb_room_id b))) m)
           | Some (RoomMemberUnbanned roomID userID) \<Rightarrow> Inr (Bans_remove roomID userID m)
           | Some (RoomDeleted roomID) \<Rightarrow> Inr (fmdrop roomID m)
           | _ \<Rightarrow> Inr m))"

definition Bans_ActiveBan :: "ban_map \<Rightarrow> string \<Rightarrow> string \<Rightarrow> time \<Rightarrow> room_ban option" where
  "Bans_ActiveBan m roomID userID now =
     (case fmlookup (room_bans m roomID) userID of
        None \<Rightarrow> None
      | Some b \<Rightarrow> if Ban_Active b now then Some b else None)"

definition Bans_IsActive :: "ban_map \<Rightarrow> string \<Rightarrow> string \<Rightarrow> time \<Rightarrow> bool" where
  "Bans_IsActive m roomID userID now =
     (case fmlookup (room_bans m roomID) userID of None \<Rightarrow> False | Some b \<Rightarrow> Ban_Active b now)"

definition sort_bans :: "room_ban list \<Rightarrow> room_ban list" where
  "sort_bans = sort_key (\<lambda>b. (- ban_created_at b, ban_event_id b))"

definition Bans_ActiveRoomBans :: "ban_map \<Rightarrow> string \<Rightarrow> time \<Rightarrow> room_ban list" where
  "Bans_ActiveRoomBans m roomID now =
     sort_bans (filter (\<lambda>b. Ban_Active b now) (sortedMapValues (room_bans m roomID)))"

definition Bans_ActiveBans :: "ban_map \<Rightarrow> time \<Rightarrow> room_ban list" where
  "Bans_ActiveBans m now =
     sort_bans (filter (\<lambda>b. Ban_Active b now) (concat (map sortedMapValues (sortedMapValues m))))"

section \<open>The directory\<close>

record room_directory =
  Catalog :: room_catalog
  Membership :: room_membership
  Bans :: ban_map

definition NewRoomDirectoryProjection :: room_directory where
  "NewRoomDirectoryProjection =
     \<lparr>Catalog = NewRoomCatalogProjection, Membership = NewRoomMembershipProjection, Bans = fmempty\<rparr>"

text \<open>
  The catalog, then the membership, then the bans; the first error stops the
  chain, and what was applied before it stays applied.
\<close>

definition RoomDirectory_Apply ::
  "room_event event option \<Rightarrow> seq \<Rightarrow> room_directory \<Rightarrow> room_event_error option \<times> room_directory" where
  "RoomDirectory_Apply event sq d =
     (let d1 = d\<lparr>Catalog := Catalog_Apply event sq (Catalog d)\<rparr> in
      case Membership_Apply (Some (Catalog_Kind (Catalog d1))) event (Membership d1) of
        Inl e \<Rightarrow> (Some e, d1)
      | Inr m \<Rightarrow>
          let d2 = d1\<lparr>Membership := m\<rparr> in
          (case Bans_Apply event (Bans d2) of
             Inl e \<Rightarrow> (Some e, d2)
           | Inr b \<Rightarrow> (None, d2\<lparr>Bans := b\<rparr>)))"

definition validateRoomDirectoryEvent :: "room_event event option \<Rightarrow> room_event_error option" where
  "validateRoomDirectoryEvent event =
     (case event of
        None \<Rightarrow> None
      | Some ev \<Rightarrow>
          (case ev_payload ev of
             Some (UserJoinedRoom roomID) \<Rightarrow>
               if roomID = [] \<or> ev_actor ev = [] then Some JoinedMissingIDs else None
           | Some (UserLeftRoom roomID) \<Rightarrow>
               if roomID = [] \<or> ev_actor ev = [] then Some LeftMissingIDs else None
           | Some (RoomMemberBanned b) \<Rightarrow>
               if mb_room_id b = [] \<or> mb_user_id b = [] \<or> mb_reason b = []
               then Some BannedMissingReason else None
           | Some (RoomDeleted roomID) \<Rightarrow> if roomID = [] then Some DeletedMissingID else None
           | _ \<Rightarrow> None))"

text \<open>
  \<open>Prepare\<close> refuses an event or returns the mutation to commit. Committing runs
  \<open>Apply\<close> and panics, here \<^const>\<open>None\<close>, when that fails.
\<close>

definition RoomDirectory_Prepare ::
  "room_event event option \<Rightarrow> seq \<Rightarrow> room_event_error + (room_directory \<Rightarrow> room_directory option)" where
  "RoomDirectory_Prepare event sq =
     (case validateRoomDirectoryEvent event of
        Some e \<Rightarrow> Inl e
      | None \<Rightarrow> Inr (\<lambda>d. case RoomDirectory_Apply event sq d of
                          (None, d') \<Rightarrow> Some d' | (Some _, _) \<Rightarrow> None))"

end
