(* ===== verification/Room_Directory_Properties.thy ===== *)
theory Room_Directory_Properties
  imports Room_Directory
begin

text \<open>
  What the room directory promises: its two membership indexes are one relation,
  the events that pass validation never fail halfway, a ban ends a membership and
  lasts until it expires, and direct messages keep their participants.
\<close>

section \<open>The indexes\<close>

lemma index_get_empty [simp]: "index_get fmempty k = {||}"
  by (simp add: index_get_def)

lemma index_get_add [simp]:
  "index_get (index_add k x m) k' = (if k' = k then finsert x (index_get m k) else index_get m k')"
  by (simp add: index_get_def index_add_def)

lemma index_get_remove [simp]:
  "index_get (index_remove k x m) k' = (if k' = k then index_get m k |-| {|x|} else index_get m k')"
  by (auto simp: index_get_def index_remove_def Let_def split: option.split)

lemma index_get_drop [simp]: "index_get (fmdrop k m) k' = (if k' = k then {||} else index_get m k')"
  by (simp add: index_get_def)

lemma index_get_fold_remove:
  "index_get (fold (\<lambda>u. index_remove u x) us m) k =
     (if k \<in> set us then index_get m k |-| {|x|} else index_get m k)"
  by (induction us arbitrary: m) auto

definition index_entry_ok :: "string \<Rightarrow> string fset \<Rightarrow> bool" where
  "index_entry_ok k s \<longleftrightarrow> k \<noteq> [] \<and> s \<noteq> {||} \<and> [] |\<notin>| s"

lemma index_ok_get: "fmpred index_entry_ok m \<Longrightarrow> [] |\<notin>| index_get m k"
  by (auto simp: index_get_def index_entry_ok_def split: option.splits)

lemma index_ok_add:
  "fmpred index_entry_ok m \<Longrightarrow> k \<noteq> [] \<Longrightarrow> x \<noteq> [] \<Longrightarrow> fmpred index_entry_ok (index_add k x m)"
  using index_ok_get [of m k] by (auto simp: index_add_def index_entry_ok_def intro!: fmpred_upd)

lemma index_ok_remove:
  assumes "fmpred index_entry_ok m"
  shows "fmpred index_entry_ok (index_remove k x m)"
proof (cases "fmlookup m k")
  case None
  then show ?thesis using assms by (simp add: index_remove_def)
next
  case (Some s)
  with assms have "index_entry_ok k s" by (rule fmpredD)
  then have "s |-| {|x|} \<noteq> {||} \<Longrightarrow> index_entry_ok k (s |-| {|x|})"
    by (simp add: index_entry_ok_def)
  then show ?thesis
    using assms Some unfolding index_remove_def Let_def
    by (auto intro!: fmpred_upd simp del: fminus_fsubset_conv split: if_splits)
qed

lemma index_ok_fold_remove:
  "fmpred index_entry_ok m \<Longrightarrow> fmpred index_entry_ok (fold (\<lambda>u. index_remove u x) us m)"
  by (induction us arbitrary: m) (auto simp: index_ok_remove)

section \<open>Membership as a relation\<close>

definition members_of :: "room_membership \<Rightarrow> (string \<times> string) set" where
  "members_of p = {(r, u). u |\<in>| index_get (byRoom p) r}"

definition membership_ok :: "room_membership \<Rightarrow> bool" where
  "membership_ok p \<longleftrightarrow>
     (\<forall>r u. u |\<in>| index_get (byRoom p) r \<longleftrightarrow> r |\<in>| index_get (byUser p) u)
     \<and> fmpred index_entry_ok (byRoom p) \<and> fmpred index_entry_ok (byUser p)"

lemma membership_ok_new [simp]: "membership_ok NewRoomMembershipProjection"
  by (simp add: membership_ok_def NewRoomMembershipProjection_def)

lemma add_refines:
  assumes "membership_ok p" and "r \<noteq> []" and "u \<noteq> []"
  shows "membership_ok (addLocked r u p) \<and> members_of (addLocked r u p) = insert (r, u) (members_of p)"
  using assms
  by (auto simp: membership_ok_def members_of_def addLocked_def index_ok_add split: if_splits)

lemma remove_refines:
  assumes "membership_ok p"
  shows "membership_ok (removeLocked r u p) \<and> members_of (removeLocked r u p) = members_of p - {(r, u)}"
  using assms
  by (auto simp: membership_ok_def members_of_def removeLocked_def index_ok_remove split: if_splits)

lemma drop_refines:
  assumes "membership_ok p"
  shows "membership_ok (dropRoomLocked r p) \<and> members_of (dropRoomLocked r p) = members_of p - ({r} \<times> UNIV)"
proof (cases "fmlookup (byRoom p) r")
  case None
  then have "index_get (byRoom p) r = {||}" by (simp add: index_get_def)
  then show ?thesis using assms None by (auto simp: dropRoomLocked_def members_of_def)
next
  case (Some users)
  then have users: "index_get (byRoom p) r = users" by (simp add: index_get_def)
  have set_users: "set (sorted_list_of_fset users) = fset users" by simp
  show ?thesis
    using assms Some
    by (auto simp: dropRoomLocked_def membership_ok_def members_of_def index_get_fold_remove
        index_ok_fold_remove users [symmetric] intro: fmpred_drop split: if_splits)
qed

text \<open>The contract: what a membership event does to the relation.\<close>

fun membership_spec ::
  "bool \<Rightarrow> string \<Rightarrow> room_event \<Rightarrow> (string \<times> string) set \<Rightarrow> (string \<times> string) set" where
  "membership_spec dm actor (UserJoinedRoom r) M = insert (r, actor) M"
| "membership_spec dm actor (UserLeftRoom r) M = (if dm then M else M - {(r, actor)})"
| "membership_spec dm actor (RoomMemberBanned b) M = M - {(mb_room_id b, mb_user_id b)}"
| "membership_spec dm actor (RoomDeleted r) M = M - ({r} \<times> UNIV)"
| "membership_spec dm actor e M = M"

fun left_room :: "room_event \<Rightarrow> string" where
  "left_room (UserLeftRoom r) = r"
| "left_room _ = []"

lemma membership_refines:
  assumes "membership_ok p" and "Membership_Apply k (Some ev) p = Inr q" and "ev_payload ev = Some e"
  shows "membership_ok q \<and> members_of q = membership_spec (left_dm k (left_room e)) (ev_actor ev) e (members_of p)"
  using assms add_refines remove_refines drop_refines
  by (cases e) (auto simp: Membership_Apply_def split: if_splits)

lemma membership_refines_none:
  "Membership_Apply k None p = Inr p"
  "ev_payload ev = None \<Longrightarrow> Membership_Apply k (Some ev) p = Inr p"
  by (simp_all add: Membership_Apply_def)

lemma membership_ok_apply:
  assumes "membership_ok p" and "Membership_Apply k event p = Inr q"
  shows "membership_ok q"
proof (cases event)
  case None
  then show ?thesis using assms by (simp add: membership_refines_none)
next
  case (Some ev)
  then show ?thesis
    using assms membership_refines_none(2) membership_refines by (cases "ev_payload ev") force+
qed

section \<open>Applying an event again\<close>

lemma event_cases:
  assumes "event = None \<Longrightarrow> P"
    and "\<And>ev. event = Some ev \<Longrightarrow> ev_payload ev = None \<Longrightarrow> P"
    and "\<And>ev e. event = Some ev \<Longrightarrow> ev_payload ev = Some e \<Longrightarrow> P"
  shows P
  using assms by (metis option.exhaust)

lemma update_entry_twice:
  "(\<And>e. f (f e) = f e) \<Longrightarrow> update_entry i f (update_entry i f rs) = update_entry i f rs"
  by (auto simp: update_entry_def split: option.split)

lemma fmupd_same: "fmupd k v (fmupd k v m) = fmupd k v m"
  by (rule fmap_eqI) simp

lemma notice_twice:
  "noticeAfterChange (Some (noticeAfterChange n ev c)) ev c = noticeAfterChange n ev c"
  by (simp add: noticeAfterChange_def Let_def split: prod.split)

lemma catalog_switch_twice: "catalog_switch ev e (catalog_switch ev e rs) = catalog_switch ev e rs"
  by (cases e) (auto simp: notice_twice fmupd_same intro!: update_entry_twice split: option.split)

lemma Catalog_Apply_twice: "Catalog_Apply event sq (Catalog_Apply event sq p) = Catalog_Apply event sq p"
  by (cases p) (auto simp: Catalog_Apply_def Let_def catalog_switch_twice split: option.split)

lemma index_add_twice: "index_add k x (index_add k x m) = index_add k x m"
  by (simp add: index_add_def index_get_def fmupd_same)

lemma fmdrop_same: "fmdrop k (fmdrop k m) = fmdrop k m"
  by (rule fmap_eqI) simp

lemma fmdrop_absent: "fmlookup m k = None \<Longrightarrow> fmdrop k m = m"
  by (rule fmap_eqI) simp

lemma index_remove_twice: "index_remove k x (index_remove k x m) = index_remove k x m"
  by (auto simp: index_remove_def Let_def fmupd_same split: option.split)

lemma Membership_Apply_twice:
  "Membership_Apply k event p = Inr q \<Longrightarrow> Membership_Apply k event q = Inr q"
  apply (rule event_cases [of event], simp_all add: membership_refines_none Membership_Apply_def)
  subgoal for ev e
    by (cases e) (auto simp: addLocked_def removeLocked_def dropRoomLocked_def index_add_twice
        index_remove_twice split: option.splits if_splits)
  done

lemma Bans_remove_twice: "Bans_remove r u (Bans_remove r u m) = Bans_remove r u m"
  by (auto simp: Bans_remove_def Let_def fmupd_same fmdrop_same split: option.split)

lemma Bans_Apply_twice: "Bans_Apply event m = Inr n \<Longrightarrow> Bans_Apply event n = Inr n"
  apply (rule event_cases [of event], simp_all add: Bans_Apply_def)
  subgoal for ev e
    by (cases e) (auto simp: room_bans_def fmupd_same fmdrop_same Bans_remove_twice split: if_splits)
  done

text \<open>The room directory has no replay guard and needs none for a record
  delivered twice in a row: applying the same record again changes nothing and
  reports the same error, if any.\<close>

theorem directory_apply_idempotent:
  "RoomDirectory_Apply event sq (snd (RoomDirectory_Apply event sq d)) = RoomDirectory_Apply event sq d"
proof (cases "Membership_Apply (Some (Catalog_Kind (Catalog_Apply event sq (Catalog d)))) event (Membership d)")
  case (Inl e)
  then show ?thesis by (simp add: RoomDirectory_Apply_def Catalog_Apply_twice)
next
  case (Inr m)
  note m = Inr Membership_Apply_twice [OF Inr]
  show ?thesis
  proof (cases "Bans_Apply event (Bans d)")
    case (Inl e)
    then show ?thesis using m by (simp add: RoomDirectory_Apply_def Catalog_Apply_twice)
  next
    case (Inr n)
    then show ?thesis
      using m Bans_Apply_twice [OF Inr] by (simp add: RoomDirectory_Apply_def Catalog_Apply_twice)
  qed
qed

section \<open>Validation\<close>

lemma validate_membership:
  "validateRoomDirectoryEvent event = None \<Longrightarrow> \<exists>q. Membership_Apply k event p = Inr q"
  apply (rule event_cases [of event], simp_all add: validateRoomDirectoryEvent_def Membership_Apply_def)
  subgoal for ev e by (cases e) (auto split: if_splits)
  done

lemma validate_bans: "validateRoomDirectoryEvent event = None \<Longrightarrow> \<exists>n. Bans_Apply event m = Inr n"
  apply (rule event_cases [of event], simp_all add: validateRoomDirectoryEvent_def Bans_Apply_def)
  subgoal for ev e by (cases e) (auto split: if_splits)
  done

lemma validated_apply:
  assumes "validateRoomDirectoryEvent event = None"
  shows "\<exists>m b. Membership_Apply (Some (Catalog_Kind (Catalog_Apply event sq (Catalog d)))) event (Membership d) = Inr m
     \<and> Bans_Apply event (Bans d) = Inr b
     \<and> RoomDirectory_Apply event sq d =
         (None, d\<lparr>Catalog := Catalog_Apply event sq (Catalog d), Membership := m, Bans := b\<rparr>)"
proof -
  from validate_membership [OF assms] obtain m where
    "Membership_Apply (Some (Catalog_Kind (Catalog_Apply event sq (Catalog d)))) event (Membership d) = Inr m"
    by blast
  moreover from validate_bans [OF assms] obtain b where "Bans_Apply event (Bans d) = Inr b" by blast
  ultimately show ?thesis by (simp add: RoomDirectory_Apply_def Let_def)
qed

lemma invalid_apply:
  "validateRoomDirectoryEvent event = Some e \<Longrightarrow> fst (RoomDirectory_Apply event sq d) \<noteq> None"
  apply (rule event_cases [of event], simp_all add: validateRoomDirectoryEvent_def
      RoomDirectory_Apply_def Membership_Apply_def Bans_Apply_def Let_def)
  subgoal for ev e' by (cases e') (auto simp: Let_def Bans_Apply_def split: if_splits)
  done

text \<open>The validation that \<open>Prepare\<close> runs before the content view commits
  anything is exact: it refuses precisely the events on which \<open>Apply\<close> would fail
  after changing some of the components, and the mutation of an accepted event never
  panics, whatever state it is committed to.\<close>

theorem prepared_never_panics:
  "case RoomDirectory_Prepare event sq of
     Inl e \<Rightarrow> \<forall>d. fst (RoomDirectory_Apply event sq d) \<noteq> None
   | Inr commit \<Rightarrow> \<forall>d. commit d = Some (snd (RoomDirectory_Apply event sq d))"
proof (cases "validateRoomDirectoryEvent event")
  case None
  then have "RoomDirectory_Apply event sq d = (None, snd (RoomDirectory_Apply event sq d))" for d
    using validated_apply [OF None, of sq d] by auto
  then have "(case RoomDirectory_Apply event sq d of (None, d') \<Rightarrow> Some d' | (Some _, _) \<Rightarrow> None)
      = Some (snd (RoomDirectory_Apply event sq d))" for d
    by (metis (no_types, lifting) case_prod_conv option.simps(4))
  then show ?thesis using None by (simp add: RoomDirectory_Prepare_def)
next
  case (Some e)
  then show ?thesis by (simp add: RoomDirectory_Prepare_def invalid_apply)
qed

text \<open>The run of a prepared log.\<close>

definition directory_run :: "(room_event event \<times> seq) list \<Rightarrow> room_directory \<Rightarrow> room_directory" where
  "directory_run log d = fold (\<lambda>(ev, sq) d. snd (RoomDirectory_Apply (Some ev) sq d)) log d"

lemma apply_keeps_membership_ok:
  "membership_ok (Membership d) \<Longrightarrow> membership_ok (Membership (snd (RoomDirectory_Apply event sq d)))"
  by (auto simp: RoomDirectory_Apply_def Let_def dest: membership_ok_apply split: sum.splits)

lemma run_keeps_membership_ok:
  "membership_ok (Membership d) \<Longrightarrow> membership_ok (Membership (directory_run log d))"
  by (induction log arbitrary: d) (auto simp: directory_run_def apply_keeps_membership_ok)

lemma directory_membership_ok: "membership_ok (Membership (directory_run log NewRoomDirectoryProjection))"
  by (intro run_keeps_membership_ok) (simp add: NewRoomDirectoryProjection_def)

lemma kind_after_left:
  "ev_payload ev = Some (UserLeftRoom r) \<Longrightarrow> Catalog_Kind (Catalog_Apply (Some ev) sq c) = Catalog_Kind c"
  by (auto simp: Catalog_Apply_def Catalog_Kind_def Let_def)

lemma left_room_kind:
  assumes "ev_payload ev = Some e"
  shows "membership_spec (left_dm (Some (Catalog_Kind (Catalog_Apply (Some ev) sq c))) (left_room e)) a e M
    = membership_spec (Catalog_Kind c (left_room e) = Some ROOM_KIND_DM) a e M"
  using assms kind_after_left [of ev _ sq c] by (cases e) (auto simp: left_dm_def)

lemma reads_of_relation:
  assumes "membership_ok p"
  shows "IsMember p r u \<longleftrightarrow> (r, u) \<in> members_of p"
    and "set (Members p r) = {u. (r, u) \<in> members_of p}"
    and "set (Rooms p u) = {r. (r, u) \<in> members_of p}"
  using assms by (auto simp: membership_ok_def members_of_def IsMember_def Members_def Rooms_def)

text \<open>The membership indexes implement one relation between rooms and
  users. After any log, an accepted event changes that relation exactly as its
  contract says (join adds the actor; leave removes the actor unless the room is a
  direct message; a ban removes the target; deleting a room removes all of it), and
  all three reads, by room, by user and by pair, answer from it.\<close>

theorem membership_refines_relation:
  fixes log
  defines "d \<equiv> directory_run log NewRoomDirectoryProjection"
  assumes "validateRoomDirectoryEvent (Some ev) = None" and "ev_payload ev = Some e"
  shows "(let q = Membership (snd (RoomDirectory_Apply (Some ev) sq d));
              M = membership_spec (Catalog_Kind (Catalog d) (left_room e) = Some ROOM_KIND_DM)
                    (ev_actor ev) e (members_of (Membership d))
          in (\<forall>r u. IsMember q r u \<longleftrightarrow> (r, u) \<in> M)
             \<and> (\<forall>r. set (Members q r) = {u. (r, u) \<in> M})
             \<and> (\<forall>u. set (Rooms q u) = {r. (r, u) \<in> M}))"
proof -
  have ok: "membership_ok (Membership d)" unfolding d_def by (rule directory_membership_ok)
  from validated_apply [OF assms(2), of sq d] obtain m where
    m: "Membership_Apply (Some (Catalog_Kind (Catalog_Apply (Some ev) sq (Catalog d)))) (Some ev) (Membership d) = Inr m"
    and q: "Membership (snd (RoomDirectory_Apply (Some ev) sq d)) = m"
    by auto
  from membership_refines [OF ok m assms(3)] have
    r: "membership_ok m" "members_of m = membership_spec (Catalog_Kind (Catalog d) (left_room e) = Some ROOM_KIND_DM)
                    (ev_actor ev) e (members_of (Membership d))"
    using left_room_kind [OF assms(3)] by auto
  show ?thesis by (simp add: Let_def q reads_of_relation [OF r(1)] r(2))
qed

definition room_sample :: "string \<Rightarrow> string \<Rightarrow> room_event \<Rightarrow> room_event event" where
  "room_sample i actor e = \<lparr>ev_id = i, ev_actor = actor, ev_created_at = Some 0, ev_payload = Some e\<rparr>"

lemma membership_refines_relation_witness:
  "IsMember (Membership (snd (RoomDirectory_Apply (Some (room_sample ''e'' ''U1'' (UserJoinedRoom ''R1''))) 1
     (directory_run [] NewRoomDirectoryProjection)))) ''R1'' ''U1''"
  using membership_refines_relation [of "room_sample ''e'' ''U1'' (UserJoinedRoom ''R1'')"
      "UserJoinedRoom ''R1''" 1 "[]"]
  by (simp add: Let_def room_sample_def validateRoomDirectoryEvent_def)

section \<open>Bans and deletion\<close>

lemma room_bans_simps [simp]:
  "room_bans (fmupd r us m) r' = (if r' = r then us else room_bans m r')"
  "room_bans (fmdrop r m) r' = (if r' = r then fmempty else room_bans m r')"
  by (simp_all add: room_bans_def)

lemma ban_step:
  assumes "membership_ok (Membership d)" and "ev_payload ev = Some (RoomMemberBanned b)"
    and "mb_room_id b \<noteq> []" and "mb_user_id b \<noteq> []" and "mb_reason b \<noteq> []"
  shows "IsMember (Membership (snd (RoomDirectory_Apply (Some ev) sq d))) r u \<longleftrightarrow>
      IsMember (Membership d) r u \<and> (r, u) \<noteq> (mb_room_id b, mb_user_id b)"
    and "Bans_IsActive (Bans (snd (RoomDirectory_Apply (Some ev) sq d))) r u now \<longleftrightarrow>
      (if (r, u) = (mb_room_id b, mb_user_id b)
       then (case mb_expires_at b of None \<Rightarrow> True | Some t \<Rightarrow> now < t)
       else Bans_IsActive (Bans d) r u now)"
proof -
  have d': "snd (RoomDirectory_Apply (Some ev) sq d) =
      d\<lparr>Catalog := Catalog_Apply (Some ev) sq (Catalog d),
        Membership := removeLocked (mb_room_id b) (mb_user_id b) (Membership d),
        Bans := fmupd (mb_room_id b)
           (fmupd (mb_user_id b) (ban_from_event ev b) (room_bans (Bans d) (mb_room_id b))) (Bans d)\<rparr>"
    using assms(2-) by (simp add: RoomDirectory_Apply_def Let_def Membership_Apply_def Bans_Apply_def)
  show "Bans_IsActive (Bans (snd (RoomDirectory_Apply (Some ev) sq d))) r u now \<longleftrightarrow>
      (if (r, u) = (mb_room_id b, mb_user_id b)
       then (case mb_expires_at b of None \<Rightarrow> True | Some t \<Rightarrow> now < t)
       else Bans_IsActive (Bans d) r u now)"
    unfolding d' by (auto simp: Bans_IsActive_def ban_from_event_def Ban_Active_def)
  show "IsMember (Membership (snd (RoomDirectory_Apply (Some ev) sq d))) r u \<longleftrightarrow>
      IsMember (Membership d) r u \<and> (r, u) \<noteq> (mb_room_id b, mb_user_id b)"
    using remove_refines [OF assms(1), of "mb_room_id b" "mb_user_id b"]
    by (simp add: d' reads_of_relation assms(1))
qed

text \<open>A ban takes effect at once and for its time only: applying it ends the
  target's membership of that room and nobody else's, and the target counts as banned
  there from then on, until exactly the expiry instant when there is one; bans of
  other users and rooms are as before.\<close>

theorem ban_takes_effect:
  fixes log
  defines "d \<equiv> directory_run log NewRoomDirectoryProjection"
  assumes "ev_payload ev = Some (RoomMemberBanned b)"
    and "mb_room_id b \<noteq> []" and "mb_user_id b \<noteq> []" and "mb_reason b \<noteq> []"
  shows "(let d' = snd (RoomDirectory_Apply (Some ev) sq d) in
     (\<forall>r u. IsMember (Membership d') r u \<longleftrightarrow>
         IsMember (Membership d) r u \<and> (r, u) \<noteq> (mb_room_id b, mb_user_id b))
     \<and> (\<forall>r u now. Bans_IsActive (Bans d') r u now \<longleftrightarrow>
         (if (r, u) = (mb_room_id b, mb_user_id b)
          then (case mb_expires_at b of None \<Rightarrow> True | Some t \<Rightarrow> now < t)
          else Bans_IsActive (Bans d) r u now)))"
proof -
  have ok: "membership_ok (Membership d)" unfolding d_def by (rule directory_membership_ok)
  show ?thesis
    using ban_step [OF ok assms(2-5)] by (simp add: Let_def)
qed

lemma ban_takes_effect_witness:
  "Bans_IsActive (Bans (snd (RoomDirectory_Apply (Some (room_sample ''e'' ''Umod''
       (RoomMemberBanned \<lparr>mb_room_id = ''R1'', mb_user_id = ''U1'', mb_reason = ''spam'', mb_expires_at = Some 10\<rparr>))) 1
     (directory_run [] NewRoomDirectoryProjection)))) ''R1'' ''U1'' 9"
  using ban_takes_effect [of "room_sample ''e'' ''Umod''
       (RoomMemberBanned \<lparr>mb_room_id = ''R1'', mb_user_id = ''U1'', mb_reason = ''spam'', mb_expires_at = Some 10\<rparr>)"
      "\<lparr>mb_room_id = ''R1'', mb_user_id = ''U1'', mb_reason = ''spam'', mb_expires_at = Some 10\<rparr>" 1 "[]"]
  by (simp add: Let_def room_sample_def)

text \<open>Deleting a room removes it from all three components, the catalog, the
  memberships (in both directions) and the bans, and leaves every other room alone.\<close>

theorem room_deletion_complete:
  fixes log
  defines "d \<equiv> directory_run log NewRoomDirectoryProjection"
  assumes "ev_payload ev = Some (RoomDeleted room)" and "room \<noteq> []"
  shows "(let d' = snd (RoomDirectory_Apply (Some ev) sq d) in
     Catalog_Get (Catalog d') room = None \<and> Members (Membership d') room = []
     \<and> (\<forall>u. room \<notin> set (Rooms (Membership d') u))
     \<and> (\<forall>u now. \<not> Bans_IsActive (Bans d') room u now)
     \<and> (\<forall>r. r \<noteq> room \<longrightarrow> Catalog_Get (Catalog d') r = Catalog_Get (Catalog d) r
           \<and> set (Members (Membership d') r) = set (Members (Membership d) r)
           \<and> (\<forall>u now. Bans_IsActive (Bans d') r u now = Bans_IsActive (Bans d) r u now)))"
proof -
  have ok: "membership_ok (Membership d)" unfolding d_def by (rule directory_membership_ok)
  note drop = drop_refines [OF ok, of room]
  have d': "snd (RoomDirectory_Apply (Some ev) sq d) =
      d\<lparr>Catalog := Catalog_Apply (Some ev) sq (Catalog d),
        Membership := dropRoomLocked room (Membership d), Bans := fmdrop room (Bans d)\<rparr>"
    using assms(2-) by (simp add: RoomDirectory_Apply_def Let_def Membership_Apply_def Bans_Apply_def)
  have cat: "Catalog_Get (Catalog_Apply (Some ev) sq (Catalog d)) r
      = (if r = room then None else Catalog_Get (Catalog d) r)" for r
    using assms(2) by (simp add: Catalog_Get_def Catalog_Apply_def Let_def)
  have "set (Members (dropRoomLocked room (Membership d)) room) = {}"
    using drop by (simp add: reads_of_relation)
  then have "Members (dropRoomLocked room (Membership d)) room = []" by simp
  then show ?thesis
    using drop by (simp add: Let_def d' cat reads_of_relation ok) (simp add: Bans_IsActive_def)
qed

lemma room_deletion_complete_witness:
  "Members (Membership (snd (RoomDirectory_Apply (Some (room_sample ''f'' ''U1'' (RoomDeleted ''R1''))) 2
     (directory_run [(room_sample ''e'' ''U1'' (UserJoinedRoom ''R1''), 1)] NewRoomDirectoryProjection)))) ''R1'' = []"
  using room_deletion_complete [of "room_sample ''f'' ''U1'' (RoomDeleted ''R1'')" "''R1''" 2
      "[(room_sample ''e'' ''U1'' (UserJoinedRoom ''R1''), 1)]"]
  by (simp add: Let_def room_sample_def)

section \<open>Names\<close>

text \<open>A room name is reported free exactly when no other channel room has a
  name with the same comparison key, whatever the normalisation; archived rooms keep
  their claim, and an empty key claims nothing. (The catalog files rooms under
  non-empty identifiers.)\<close>

theorem name_claim_exact:
  assumes "fmlookup (cat_rooms p) [] = None" and "canonical name \<noteq> []"
  shows "claim_conflict (NameClaimSnapshot canonical p name exclude) = [] \<longleftrightarrow>
     \<not> (\<exists>i e. fmlookup (cat_rooms p) i = Some e \<and> i \<noteq> exclude \<and> re_kind e = ROOM_KIND_CHANNEL
          \<and> canonical (re_name e) = canonical name)"
proof -
  let ?P = "\<lambda>i. i \<noteq> exclude \<and> (case fmlookup (cat_rooms p) i of None \<Rightarrow> False
     | Some e \<Rightarrow> re_kind e = ROOM_KIND_CHANNEL \<and> canonical (re_name e) = canonical name)"
  show ?thesis
  proof (cases "find ?P (sortedMapKeys (cat_rooms p))")
    case None
    then have "\<forall>i \<in> fset (fmdom (cat_rooms p)). \<not> ?P i" by (simp add: find_None_iff)
    then have "\<not> (\<exists>i e. fmlookup (cat_rooms p) i = Some e \<and> i \<noteq> exclude \<and> re_kind e = ROOM_KIND_CHANNEL
          \<and> canonical (re_name e) = canonical name)"
      by (force simp: fmlookup_dom_iff)
    then show ?thesis using assms(2) None by (simp add: NameClaimSnapshot_def Let_def)
  next
    case (Some i)
    then have i: "?P i" by (auto simp: find_Some_iff)
    then obtain e where e: "fmlookup (cat_rooms p) i = Some e" by (auto split: option.splits)
    then have "i \<noteq> []" using assms(1) by auto
    then show ?thesis using assms(2) Some i e by (auto simp: NameClaimSnapshot_def Let_def)
  qed
qed

lemma name_claim_exact_witness:
  "claim_conflict (NameClaimSnapshot (\<lambda>n. n) NewRoomCatalogProjection ''lobby'' []) = []"
  using name_claim_exact [of NewRoomCatalogProjection "\<lambda>n. n" "''lobby''" "[]"]
  by (simp add: NewRoomCatalogProjection_def)

end
