(* ===== verification/Room_Directory_Snapshot.thy ===== *)
theory Room_Directory_Snapshot
  imports Room_Directory_Properties
begin

text \<open>
  The snapshot of the room directory (\<open>room_directory_projection_snapshot.go\<close>) and
  the proof that it restores the three components. The protobuf library decides
  whether a timestamp is valid (\<open>CheckValid\<close>); that test is the parameter
  \<open>check_valid\<close>.
\<close>

section \<open>The message\<close>

record notice_snapshot =
  ns_version :: string
  ns_publication_id :: string
  ns_body :: string
  ns_published_at :: "time option"

record room_snapshot =
  rms_id :: string
  rms_created_at :: "time option"
  rms_name :: string
  rms_description :: string
  rms_purpose :: string
  rms_kind :: int
  rms_archived :: bool
  rms_universal :: bool
  rms_slow_mode :: "32 word"
  rms_thread_slow_mode :: "32 word option"
  rms_threading_mode :: int
  rms_show_membership :: bool
  rms_notice :: "notice_snapshot option"

record membership_snapshot =
  ms_room_id :: string
  ms_user_ids :: "string list"

record ban_snapshot =
  bs_event_id :: string
  bs_room_id :: string
  bs_user_id :: string
  bs_moderator_id :: string
  bs_reason :: string
  bs_created_at :: "time option"
  bs_expires_at :: "time option"

record directory_snapshot =
  dsn_catalog_sequence :: seq
  dsn_rooms :: "room_snapshot list"
  dsn_memberships :: "membership_snapshot list"
  dsn_bans :: "ban_snapshot list"

section \<open>Writing\<close>

definition snapshotRoomNotice :: "room_notice option \<Rightarrow> notice_snapshot option" where
  "snapshotRoomNotice = map_option (\<lambda>n.
     \<lparr>ns_version = rn_version n, ns_publication_id = rn_publication_id n, ns_body = rn_body n,
      ns_published_at = rn_published_at n\<rparr>)"

definition restoreRoomNotice :: "notice_snapshot option \<Rightarrow> room_notice option" where
  "restoreRoomNotice = map_option (\<lambda>n.
     \<lparr>rn_version = ns_version n, rn_publication_id = ns_publication_id n, rn_body = ns_body n,
      rn_published_at = ns_published_at n\<rparr>)"

lemma restore_notice [simp]: "restoreRoomNotice (snapshotRoomNotice n) = n"
  by (cases n) (simp_all add: restoreRoomNotice_def snapshotRoomNotice_def)

definition room_row :: "string \<Rightarrow> room_entry \<Rightarrow> room_snapshot" where
  "room_row i e =
     \<lparr>rms_id = i, rms_created_at = re_created_at e, rms_name = re_name e,
      rms_description = re_description e, rms_purpose = re_purpose e, rms_kind = re_kind e,
      rms_archived = re_archived e, rms_universal = re_universal e,
      rms_slow_mode = re_slow_mode e, rms_thread_slow_mode = re_thread_slow_mode e,
      rms_threading_mode = re_threading_mode e, rms_show_membership = re_show_membership e,
      rms_notice = snapshotRoomNotice (re_notice e)\<rparr>"

definition membership_row :: "index \<Rightarrow> string \<Rightarrow> membership_snapshot" where
  "membership_row m r = \<lparr>ms_room_id = r, ms_user_ids = sorted_list_of_fset (index_get m r)\<rparr>"

definition ban_row :: "room_ban \<Rightarrow> ban_snapshot" where
  "ban_row b =
     \<lparr>bs_event_id = ban_event_id b, bs_room_id = ban_room_id b, bs_user_id = ban_user_id b,
      bs_moderator_id = ban_moderator_id b, bs_reason = ban_reason b,
      bs_created_at = (if ban_created_at b = zero_time then None else Some (ban_created_at b)),
      bs_expires_at = ban_expires_at b\<rparr>"

definition directory_snapshot_message :: "room_directory \<Rightarrow> directory_snapshot" where
  "directory_snapshot_message d =
     \<lparr>dsn_catalog_sequence = cat_seq (Catalog d),
      dsn_rooms = map (\<lambda>i. room_row i (the (fmlookup (cat_rooms (Catalog d)) i)))
        (sortedMapKeys (cat_rooms (Catalog d))),
      dsn_memberships = map (membership_row (byRoom (Membership d))) (sortedMapKeys (byRoom (Membership d))),
      dsn_bans = concat (map (\<lambda>r. map (\<lambda>u. ban_row (the (fmlookup (room_bans (Bans d) r) u)))
                                     (sortedMapKeys (room_bans (Bans d) r)))
                   (sortedMapKeys (Bans d)))\<rparr>"

section \<open>Reading\<close>

datatype directory_restore_error =
  EmptyRoomID
| RepeatedRoom string
| EmptyMembershipRoom
| RepeatedMembershipRoom string
| EmptyMember string
| RepeatedMember string string
| InvalidBan
| InvalidBanTime
| RepeatedBan string string

definition entry_of_row :: "room_snapshot \<Rightarrow> room_entry" where
  "entry_of_row row =
     \<lparr>re_created_at = rms_created_at row, re_name = rms_name row,
      re_description = rms_description row, re_purpose = rms_purpose row, re_kind = rms_kind row,
      re_archived = rms_archived row, re_universal = rms_universal row,
      re_slow_mode = rms_slow_mode row, re_thread_slow_mode = rms_thread_slow_mode row,
      re_threading_mode = rms_threading_mode row, re_show_membership = rms_show_membership row,
      re_notice = restoreRoomNotice (rms_notice row)\<rparr>"

lemma entry_of_room_row [simp]: "entry_of_row (room_row i e) = e" "rms_id (room_row i e) = i"
  by (cases e, simp add: entry_of_row_def room_row_def) (simp add: room_row_def)

definition restore_room_row ::
  "room_snapshot \<Rightarrow> (string, room_entry) fmap \<Rightarrow> directory_restore_error + (string, room_entry) fmap" where
  "restore_room_row row m =
     (if rms_id row = [] then Inl EmptyRoomID
      else if fmlookup m (rms_id row) \<noteq> None then Inl (RepeatedRoom (rms_id row))
      else Inr (fmupd (rms_id row) (entry_of_row row) m))"

definition restore_member ::
  "string \<Rightarrow> string \<Rightarrow> string fset \<times> index \<Rightarrow> directory_restore_error + string fset \<times> index" where
  "restore_member roomID userID st =
     (case st of (users, bu) \<Rightarrow>
        if userID = [] then Inl (EmptyMember roomID)
        else if userID |\<in>| users then Inl (RepeatedMember userID roomID)
        else Inr (finsert userID users, index_add userID roomID bu))"

definition restore_membership_row ::
  "membership_snapshot \<Rightarrow> index \<times> index \<Rightarrow> directory_restore_error + index \<times> index" where
  "restore_membership_row row st =
     (case st of (br, bu) \<Rightarrow>
        if ms_room_id row = [] then Inl EmptyMembershipRoom
        else if fmlookup br (ms_room_id row) \<noteq> None then Inl (RepeatedMembershipRoom (ms_room_id row))
        else case fold_res (restore_member (ms_room_id row)) (ms_user_ids row) ({||}, bu) of
               Inl e \<Rightarrow> Inl e
             | Inr (users, bu') \<Rightarrow> Inr (fmupd (ms_room_id row) users br, bu'))"

definition snapshotTime :: "(time \<Rightarrow> bool) \<Rightarrow> time option \<Rightarrow> directory_restore_error + time" where
  "snapshotTime check_valid value =
     (case value of
        None \<Rightarrow> Inr zero_time
      | Some t \<Rightarrow> if check_valid t then Inr t else Inl InvalidBanTime)"

definition restore_expiry ::
  "(time \<Rightarrow> bool) \<Rightarrow> time option \<Rightarrow> directory_restore_error + time option" where
  "restore_expiry check_valid value =
     (case value of
        None \<Rightarrow> Inr None
      | Some t \<Rightarrow> (case snapshotTime check_valid (Some t) of Inl e \<Rightarrow> Inl e | Inr v \<Rightarrow> Inr (Some v)))"

definition restore_ban_row ::
  "(time \<Rightarrow> bool) \<Rightarrow> ban_snapshot \<Rightarrow> ban_map \<Rightarrow> directory_restore_error + ban_map" where
  "restore_ban_row check_valid row m =
     (if bs_room_id row = [] \<or> bs_user_id row = [] \<or> bs_reason row = [] then Inl InvalidBan
      else case snapshotTime check_valid (bs_created_at row) of
             Inl e \<Rightarrow> Inl e
           | Inr createdAt \<Rightarrow>
               (case restore_expiry check_valid (bs_expires_at row) of
                  Inl e \<Rightarrow> Inl e
                | Inr expiresAt \<Rightarrow>
                    if fmlookup (room_bans m (bs_room_id row)) (bs_user_id row) \<noteq> None
                    then Inl (RepeatedBan (bs_room_id row) (bs_user_id row))
                    else Inr (fmupd (bs_room_id row)
                      (fmupd (bs_user_id row)
                         \<lparr>ban_event_id = bs_event_id row, ban_room_id = bs_room_id row,
                          ban_user_id = bs_user_id row, ban_moderator_id = bs_moderator_id row,
                          ban_reason = bs_reason row, ban_created_at = createdAt,
                          ban_expires_at = expiresAt\<rparr>
                         (room_bans m (bs_room_id row))) m)))"

definition restore_directory_message ::
  "(time \<Rightarrow> bool) \<Rightarrow> directory_snapshot \<Rightarrow> directory_restore_error + room_directory" where
  "restore_directory_message check_valid s =
     (case fold_res restore_room_row (dsn_rooms s) fmempty of
        Inl e \<Rightarrow> Inl e
      | Inr rs \<Rightarrow>
     (case fold_res restore_membership_row (dsn_memberships s) (fmempty, fmempty) of
        Inl e \<Rightarrow> Inl e
      | Inr (br, bu) \<Rightarrow>
     (case fold_res (restore_ban_row check_valid) (dsn_bans s) fmempty of
        Inl e \<Rightarrow> Inl e
      | Inr bs \<Rightarrow>
          Inr \<lparr>Catalog = \<lparr>cat_rooms = rs, cat_seq = dsn_catalog_sequence s\<rparr>,
               Membership = \<lparr>byRoom = br, byUser = bu\<rparr>, Bans = bs\<rparr>)))"

text \<open>\<open>Snapshot\<close> and \<open>Restore\<close> over bytes; a failed restore keeps the state.\<close>

definition empty_directory_snapshot :: directory_snapshot where
  "empty_directory_snapshot =
     \<lparr>dsn_catalog_sequence = 0, dsn_rooms = [], dsn_memberships = [], dsn_bans = []\<rparr>"

definition RoomDirectory_Snapshot_bytes ::
  "(directory_snapshot \<Rightarrow> 8 word list option) \<Rightarrow> room_directory \<Rightarrow> 8 word list option" where
  "RoomDirectory_Snapshot_bytes marshal d = marshal (directory_snapshot_message d)"

definition RoomDirectory_Restore ::
  "(8 word list \<Rightarrow> directory_snapshot option) \<Rightarrow> (time \<Rightarrow> bool) \<Rightarrow> 8 word list \<Rightarrow> room_directory
    \<Rightarrow> bool \<times> room_directory" where
  "RoomDirectory_Restore unmarshal check_valid data d =
     (case (if data = [] then Some empty_directory_snapshot else unmarshal data) of
        None \<Rightarrow> (False, d)
      | Some s \<Rightarrow>
          (case restore_directory_message check_valid s of
             Inl _ \<Rightarrow> (False, d)
           | Inr q \<Rightarrow> (True, q)))"

section \<open>The round trip\<close>

lemma index_ext:
  assumes "fmpred index_entry_ok m" and "fmpred index_entry_ok n" and "\<And>k. index_get m k = index_get n k"
  shows "m = n"
proof (rule fmap_eqI)
  fix k
  have "s \<noteq> {||}" if "fmlookup m k = Some s \<or> fmlookup n k = Some s" for s
    using that assms(1,2) by (auto simp: index_entry_ok_def)
  then show "fmlookup m k = fmlookup n k"
    using assms(3) [of k] by (auto simp: index_get_def split: option.splits)
qed

lemma restore_rooms:
  assumes "fmlookup m [] = None"
  shows "fold_res restore_room_row (map (\<lambda>i. room_row i (the (fmlookup m i))) (sortedMapKeys m)) fmempty = Inr m"
  using assms by (intro fold_res_rebuild) (auto simp: restore_room_row_def)

lemma restore_members_fold:
  "distinct us \<Longrightarrow> [] \<notin> set us \<Longrightarrow> set us \<inter> fset acc = {} \<Longrightarrow>
     fold_res (restore_member r) us (acc, bu) =
       Inr (fset_of_list us |\<union>| acc, fold (\<lambda>u. index_add u r) us bu)"
  by (induction us arbitrary: acc bu) (auto simp: restore_member_def)

lemma index_get_fold_add:
  "index_get (fold (\<lambda>u. index_add u r) us bu) u =
     (if u \<in> set us then finsert r (index_get bu u) else index_get bu u)"
  by (induction us arbitrary: bu) auto

lemma index_ok_fold_add:
  "fmpred index_entry_ok bu \<Longrightarrow> r \<noteq> [] \<Longrightarrow> [] \<notin> set us \<Longrightarrow>
     fmpred index_entry_ok (fold (\<lambda>u. index_add u r) us bu)"
  by (induction us arbitrary: bu) (auto simp: index_ok_add)

lemma distinct_sorted_fset [simp]: "distinct (sorted_list_of_fset s)"
  by (simp add: sorted_list_of_fset.rep_eq)

lemma fset_of_sorted [simp]: "fset_of_list (sorted_list_of_fset s) = s"
  by (simp add: sorted_list_of_fset.rep_eq fset_of_list.abs_eq eq_onp_same_args fset_inverse)

lemma restore_row_ok:
  assumes "index_entry_ok r s" and "index_get m r = s" and "fmlookup br r = None"
  shows "restore_membership_row (membership_row m r) (br, bu) =
    Inr (fmupd r s br, fold (\<lambda>u. index_add u r) (sorted_list_of_fset s) bu)"
  using assms restore_members_fold [of "sorted_list_of_fset s" "{||}" r bu]
  by (simp add: restore_membership_row_def membership_row_def index_entry_ok_def)

lemma restore_memberships_fold:
  assumes "fmpred index_entry_ok m" and "distinct ks" and "set ks \<subseteq> fset (fmdom m)"
    and "\<forall>k \<in> set ks. fmlookup br k = None" and "fmpred index_entry_ok bu"
  shows "\<exists>br' bu'. fold_res restore_membership_row (map (membership_row m) ks) (br, bu) = Inr (br', bu')
    \<and> br' = fold (\<lambda>k. fmupd k (index_get m k)) ks br \<and> fmpred index_entry_ok bu'
    \<and> (\<forall>u r. r |\<in>| index_get bu' u \<longleftrightarrow> r |\<in>| index_get bu u \<or> r \<in> set ks \<and> u |\<in>| index_get m r)"
  using assms(2-)
proof (induction ks arbitrary: br bu)
  case Nil
  then show ?case by simp
next
  case (Cons k ks)
  obtain s where s: "fmlookup m k = Some s" using Cons.prems(2) by (auto simp: fmlookup_dom_iff)
  then have ok: "index_entry_ok k s" and get: "index_get m k = s"
    using assms(1) by (auto simp: index_get_def)
  let ?bu = "fold (\<lambda>u. index_add u k) (sorted_list_of_fset s) bu"
  have bu: "fmpred index_entry_ok ?bu"
    using Cons.prems(4) ok unfolding index_entry_ok_def [of k s] by (intro index_ok_fold_add) auto
  have step: "restore_membership_row (membership_row m k) (br, bu) = Inr (fmupd k s br, ?bu)"
    using restore_row_ok [OF ok get] Cons.prems(3) by simp
  have "\<exists>br' bu'. fold_res restore_membership_row (map (membership_row m) ks) (fmupd k s br, ?bu) = Inr (br', bu')
    \<and> br' = fold (\<lambda>k. fmupd k (index_get m k)) ks (fmupd k s br) \<and> fmpred index_entry_ok bu'
    \<and> (\<forall>u r. r |\<in>| index_get bu' u \<longleftrightarrow> r |\<in>| index_get ?bu u \<or> r \<in> set ks \<and> u |\<in>| index_get m r)"
    using Cons.prems bu by (intro Cons.IH) auto
  then show ?case
    by (auto simp: step get index_get_fold_add)
qed

lemma restore_memberships:
  assumes "membership_ok p"
  shows "fold_res restore_membership_row (map (membership_row (byRoom p)) (sortedMapKeys (byRoom p)))
    (fmempty, fmempty) = Inr (byRoom p, byUser p)"
proof -
  have ok: "fmpred index_entry_ok (byRoom p)" "fmpred index_entry_ok (byUser p)"
    using assms by (auto simp: membership_ok_def)
  have "\<exists>br' bu'. fold_res restore_membership_row (map (membership_row (byRoom p)) (sortedMapKeys (byRoom p)))
      (fmempty, fmempty) = Inr (br', bu')
    \<and> br' = fold (\<lambda>k. fmupd k (index_get (byRoom p) k)) (sortedMapKeys (byRoom p)) fmempty
    \<and> fmpred index_entry_ok bu'
    \<and> (\<forall>u r. r |\<in>| index_get bu' u \<longleftrightarrow> r |\<in>| index_get fmempty u
         \<or> r \<in> set (sortedMapKeys (byRoom p)) \<and> u |\<in>| index_get (byRoom p) r)"
    by (rule restore_memberships_fold) (auto simp: ok)
  then obtain br' bu' where r: "fold_res restore_membership_row
      (map (membership_row (byRoom p)) (sortedMapKeys (byRoom p))) (fmempty, fmempty) = Inr (br', bu')"
    and br: "br' = fold (\<lambda>k. fmupd k (index_get (byRoom p) k)) (sortedMapKeys (byRoom p)) fmempty"
    and bu: "fmpred index_entry_ok bu'"
    and get: "\<And>u r. r |\<in>| index_get bu' u \<longleftrightarrow> r |\<in>| fmdom (byRoom p) \<and> u |\<in>| index_get (byRoom p) r"
    by auto
  have "br' = byRoom p"
    unfolding br by (rule fmap_eqI) (auto simp: fmlookup_fold_upd fmlookup_dom_iff index_get_def intro: fmdom_notD)
  moreover have "bu' = byUser p"
  proof (rule index_ext [OF bu ok(2)])
    fix u
    have "r |\<in>| fmdom (byRoom p)" if "u |\<in>| index_get (byRoom p) r" for r
      using that by (auto simp: index_get_def fmlookup_dom_iff split: option.splits)
    then show "index_get bu' u = index_get (byUser p) u"
      using assms get by (auto simp: membership_ok_def intro!: fset_eqI)
  qed
  ultimately show ?thesis using r by simp
qed

section \<open>Bans\<close>

definition ban_entry_ok :: "(time \<Rightarrow> bool) \<Rightarrow> string \<Rightarrow> string \<Rightarrow> room_ban \<Rightarrow> bool" where
  "ban_entry_ok check_valid r u b \<longleftrightarrow> r \<noteq> [] \<and> u \<noteq> [] \<and> ban_room_id b = r \<and> ban_user_id b = u
     \<and> ban_reason b \<noteq> [] \<and> (ban_created_at b \<noteq> zero_time \<longrightarrow> check_valid (ban_created_at b))
     \<and> (\<forall>t. ban_expires_at b = Some t \<longrightarrow> check_valid t)"

definition bans_ok :: "(time \<Rightarrow> bool) \<Rightarrow> ban_map \<Rightarrow> bool" where
  "bans_ok check_valid m \<longleftrightarrow>
     (\<forall>r us. fmlookup m r = Some us \<longrightarrow> fmdom us \<noteq> {||})
     \<and> (\<forall>r u b. fmlookup (room_bans m r) u = Some b \<longrightarrow> ban_entry_ok check_valid r u b)"

lemma bans_ext:
  assumes "\<And>r us. fmlookup m r = Some us \<Longrightarrow> fmdom us \<noteq> {||}"
    and "\<And>r us. fmlookup n r = Some us \<Longrightarrow> fmdom us \<noteq> {||}"
    and "\<And>r. room_bans m r = room_bans n r"
  shows "m = n"
proof (rule fmap_eqI)
  fix r
  show "fmlookup m r = fmlookup n r"
    using assms(1) [of r] assms(2) [of r] assms(3) [of r]
    by (auto simp: room_bans_def split: option.splits)
qed

definition ban_keys :: "ban_map \<Rightarrow> (string \<times> string) list" where
  "ban_keys m = concat (map (\<lambda>r. map (Pair r) (sortedMapKeys (room_bans m r))) (sortedMapKeys m))"

definition ban_at :: "ban_map \<Rightarrow> string \<times> string \<Rightarrow> room_ban" where
  "ban_at m k = the (fmlookup (room_bans m (fst k)) (snd k))"

definition put_ban :: "ban_map \<Rightarrow> string \<times> string \<Rightarrow> ban_map \<Rightarrow> ban_map" where
  "put_ban m k n = fmupd (fst k) (fmupd (snd k) (ban_at m k) (room_bans n (fst k))) n"

lemma ban_rows_eq:
  "concat (map (\<lambda>r. map (\<lambda>u. ban_row (the (fmlookup (room_bans m r) u))) (sortedMapKeys (room_bans m r)))
     (sortedMapKeys m)) = map (\<lambda>k. ban_row (ban_at m k)) (ban_keys m)"
  by (simp add: ban_keys_def ban_at_def map_concat comp_def)

lemma mem_ban_keys: "k \<in> set (ban_keys m) \<longleftrightarrow> fmlookup (room_bans m (fst k)) (snd k) \<noteq> None"
proof -
  have "fst k |\<in>| fmdom m" if "fmlookup (room_bans m (fst k)) (snd k) \<noteq> None"
    using that by (cases "fmlookup m (fst k)") (auto simp: room_bans_def fmdomI)
  moreover have "k \<in> set (ban_keys m) \<longleftrightarrow> fst k |\<in>| fmdom m \<and> snd k |\<in>| fmdom (room_bans m (fst k))"
    by (cases k) (auto simp: ban_keys_def)
  ultimately show ?thesis by (auto simp: fmlookup_dom_iff)
qed

lemma distinct_ban_keys: "distinct (ban_keys m)"
proof -
  have "distinct (concat (map (\<lambda>r. map (Pair r) (f r)) ks))"
    if "distinct ks" and "\<And>r. distinct (f r)" for ks :: "string list" and f :: "string \<Rightarrow> string list"
    using that by (induction ks) (auto simp: distinct_map inj_on_def)
  then show ?thesis by (simp add: ban_keys_def)
qed

lemma restore_ban_ok:
  assumes "bans_ok check_valid m" and "k \<in> set (ban_keys m)" and "fmlookup (room_bans n (fst k)) (snd k) = None"
  shows "restore_ban_row check_valid (ban_row (ban_at m k)) n = Inr (put_ban m k n)"
proof -
  from assms(2) obtain b where b: "fmlookup (room_bans m (fst k)) (snd k) = Some b"
    by (auto simp: mem_ban_keys)
  then have "ban_entry_ok check_valid (fst k) (snd k) b" using assms(1) by (auto simp: bans_ok_def)
  then show ?thesis
    using b assms(3)
    by (cases b)
      (auto simp: ban_entry_ok_def restore_ban_row_def ban_row_def ban_at_def put_ban_def
        snapshotTime_def restore_expiry_def split: option.splits)
qed

lemma restore_bans_fold:
  assumes "bans_ok check_valid m" and "distinct ks" and "set ks \<subseteq> set (ban_keys m)"
    and "\<forall>k \<in> set ks. fmlookup (room_bans n (fst k)) (snd k) = None"
    and "\<And>r us. fmlookup n r = Some us \<Longrightarrow> fmdom us \<noteq> {||}"
  shows "\<exists>n'. fold_res (restore_ban_row check_valid) (map (\<lambda>k. ban_row (ban_at m k)) ks) n = Inr n'
    \<and> (\<forall>r us. fmlookup n' r = Some us \<longrightarrow> fmdom us \<noteq> {||})
    \<and> (\<forall>r u. fmlookup (room_bans n' r) u =
          (if (r, u) \<in> set ks then Some (ban_at m (r, u)) else fmlookup (room_bans n r) u))"
  using assms(2-)
proof (induction ks arbitrary: n)
  case Nil
  then show ?case by simp
next
  case (Cons k ks)
  have step: "restore_ban_row check_valid (ban_row (ban_at m k)) n = Inr (put_ban m k n)"
    using Cons.prems assms(1) by (intro restore_ban_ok) auto
  have put: "fmlookup (room_bans (put_ban m k n) r) u
      = (if (r, u) = k then Some (ban_at m k) else fmlookup (room_bans n r) u)" for r u
    by (cases k) (auto simp: put_ban_def)
  have "\<exists>n'. fold_res (restore_ban_row check_valid) (map (\<lambda>k. ban_row (ban_at m k)) ks) (put_ban m k n) = Inr n'
    \<and> (\<forall>r us. fmlookup n' r = Some us \<longrightarrow> fmdom us \<noteq> {||})
    \<and> (\<forall>r u. fmlookup (room_bans n' r) u =
          (if (r, u) \<in> set ks then Some (ban_at m (r, u)) else fmlookup (room_bans (put_ban m k n) r) u))"
  proof (rule Cons.IH)
    show "\<forall>k' \<in> set ks. fmlookup (room_bans (put_ban m k n) (fst k')) (snd k') = None"
      using Cons.prems(1,3) by (auto simp: put)
    show "fmdom us \<noteq> {||}" if "fmlookup (put_ban m k n) r = Some us" for r us
      using that Cons.prems(4) by (auto simp: put_ban_def split: if_splits)
  qed (use Cons.prems in auto)
  then show ?case using step by (auto simp: put)
qed

lemma restore_bans:
  assumes "bans_ok check_valid m"
  shows "fold_res (restore_ban_row check_valid)
     (concat (map (\<lambda>r. map (\<lambda>u. ban_row (the (fmlookup (room_bans m r) u))) (sortedMapKeys (room_bans m r)))
        (sortedMapKeys m))) fmempty = Inr m"
proof -
  from restore_bans_fold [OF assms distinct_ban_keys order_refl, of fmempty]
  obtain n where n: "fold_res (restore_ban_row check_valid) (map (\<lambda>k. ban_row (ban_at m k)) (ban_keys m)) fmempty = Inr n"
    and ne: "\<And>r us. fmlookup n r = Some us \<Longrightarrow> fmdom us \<noteq> {||}"
    and get: "\<And>r u. fmlookup (room_bans n r) u =
          (if (r, u) \<in> set (ban_keys m) then Some (ban_at m (r, u)) else None)"
    by (auto simp: room_bans_def)
  have "n = m"
  proof (rule bans_ext [OF ne])
    show "fmdom us \<noteq> {||}" if "fmlookup m r = Some us" for r us
      using that assms by (auto simp: bans_ok_def)
    show "room_bans n r = room_bans m r" for r
      by (rule fmap_eqI) (auto simp: get mem_ban_keys ban_at_def)
  qed
  then show ?thesis using n by (simp add: ban_rows_eq)
qed

section \<open>The contract\<close>

definition directory_wf :: "(time \<Rightarrow> bool) \<Rightarrow> room_directory \<Rightarrow> bool" where
  "directory_wf check_valid d \<longleftrightarrow> fmlookup (cat_rooms (Catalog d)) [] = None
     \<and> membership_ok (Membership d) \<and> bans_ok check_valid (Bans d)"

text \<open>
  The records the writers produce: a created room has an identifier, and a ban has
  timestamps the protobuf library accepts.
\<close>

definition record_covered :: "(time \<Rightarrow> bool) \<Rightarrow> room_event event \<times> seq \<Rightarrow> bool" where
  "record_covered check_valid rec =
     (case ev_payload (fst rec) of
        Some (RoomCreated c) \<Rightarrow> cr_room_id c \<noteq> []
      | Some (RoomMemberBanned b) \<Rightarrow>
          (case ev_created_at (fst rec) of None \<Rightarrow> True | Some t \<Rightarrow> check_valid t)
          \<and> (case mb_expires_at b of None \<Rightarrow> True | Some t \<Rightarrow> check_valid t)
      | _ \<Rightarrow> True)"

definition directory_step :: "room_event event \<times> seq \<Rightarrow> room_directory \<Rightarrow> room_directory" where
  "directory_step rec d = snd (RoomDirectory_Apply (Some (fst rec)) (snd rec) d)"

lemma update_entry_absent: "fmlookup rs k = None \<Longrightarrow> fmlookup (update_entry i f rs) k = None"
  by (auto simp: update_entry_def split: option.split)

lemma catalog_keeps_ids:
  assumes "fmlookup (cat_rooms c) [] = None" and "record_covered check_valid (ev, sq)"
  shows "fmlookup (cat_rooms (Catalog_Apply (Some ev) sq c)) [] = None"
proof (cases "ev_payload ev")
  case None
  then show ?thesis using assms by (simp add: Catalog_Apply_def Let_def)
next
  case (Some e)
  then show ?thesis
    using assms by (cases e) (auto simp: Catalog_Apply_def Let_def record_covered_def update_entry_absent)
qed

lemma bans_ok_drop: "bans_ok cv m \<Longrightarrow> bans_ok cv (fmdrop r m)"
  by (auto simp: bans_ok_def split: if_splits)

lemma bans_ok_upd:
  assumes "bans_ok cv m" and "fmdom us \<noteq> {||}"
    and "\<And>u b. fmlookup us u = Some b \<Longrightarrow> ban_entry_ok cv r u b"
  shows "bans_ok cv (fmupd r us m)"
  using assms by (auto simp: bans_ok_def split: if_splits)

lemma bans_ok_remove: "bans_ok cv m \<Longrightarrow> bans_ok cv (Bans_remove r u m)"
  by (auto simp: Bans_remove_def Let_def bans_ok_drop intro!: bans_ok_upd split: option.split)
    (auto simp: bans_ok_def room_bans_def split: if_splits option.splits)

lemma bans_ok_ban:
  assumes "bans_ok cv m" and "mb_room_id b \<noteq> []" "mb_user_id b \<noteq> []" "mb_reason b \<noteq> []"
    and "record_covered cv (ev, sq)" and "ev_payload ev = Some (RoomMemberBanned b)"
  shows "bans_ok cv (fmupd (mb_room_id b)
     (fmupd (mb_user_id b) (ban_from_event ev b) (room_bans m (mb_room_id b))) m)"
proof (rule bans_ok_upd [OF assms(1)])
  have "ban_entry_ok cv (mb_room_id b) (mb_user_id b) (ban_from_event ev b)"
    using assms(2-) by (auto simp: ban_entry_ok_def ban_from_event_def record_covered_def split: option.splits)
  then show "ban_entry_ok cv (mb_room_id b) u b'"
    if "fmlookup (fmupd (mb_user_id b) (ban_from_event ev b) (room_bans m (mb_room_id b))) u = Some b'" for u b'
    using that assms(1) by (auto simp: bans_ok_def split: if_splits)
qed simp

lemma bans_keep_ok:
  assumes "bans_ok cv m" and "record_covered cv (ev, sq)" and "Bans_Apply (Some ev) m = Inr n"
  shows "bans_ok cv n"
proof (cases "ev_payload ev")
  case None
  then show ?thesis using assms by (simp add: Bans_Apply_def)
next
  case (Some e)
  then show ?thesis
    using assms by (cases e) (auto simp: Bans_Apply_def bans_ok_drop bans_ok_remove bans_ok_ban split: if_splits)
qed

lemma directory_step_wf:
  assumes "directory_wf cv d" and "record_covered cv rec"
  shows "directory_wf cv (directory_step rec d)"
proof -
  obtain ev sq where rec: "rec = (ev, sq)" by force
  have cat: "fmlookup (cat_rooms (Catalog_Apply (Some ev) sq (Catalog d))) [] = None"
    using assms by (auto simp: rec directory_wf_def intro: catalog_keeps_ids)
  show ?thesis
    using assms cat
    by (auto simp: rec directory_wf_def directory_step_def RoomDirectory_Apply_def Let_def
        dest: membership_ok_apply bans_keep_ok split: sum.split)
qed

lemma restore_directory:
  assumes "directory_wf cv d"
  shows "restore_directory_message cv (directory_snapshot_message d) = Inr d"
proof -
  have "fold_res restore_room_row (dsn_rooms (directory_snapshot_message d)) fmempty = Inr (cat_rooms (Catalog d))"
    using assms by (simp add: directory_snapshot_message_def directory_wf_def restore_rooms)
  moreover have "fold_res restore_membership_row (dsn_memberships (directory_snapshot_message d)) (fmempty, fmempty)
      = Inr (byRoom (Membership d), byUser (Membership d))"
    using assms by (simp add: directory_snapshot_message_def directory_wf_def restore_memberships)
  moreover have "fold_res (restore_ban_row cv) (dsn_bans (directory_snapshot_message d)) fmempty = Inr (Bans d)"
    using assms by (simp add: directory_snapshot_message_def directory_wf_def restore_bans)
  moreover have "dsn_catalog_sequence (directory_snapshot_message d) = cat_seq (Catalog d)"
    by (simp add: directory_snapshot_message_def)
  ultimately show ?thesis by (simp add: restore_directory_message_def)
qed

interpretation directory: snapshot_component directory_step directory_snapshot_message
  "restore_directory_message cv" "directory_wf cv" "record_covered cv" for cv
  by unfold_locales (auto intro: directory_step_wf restore_directory)

text \<open>A room directory restored from the bytes of its snapshot is the
  directory that was captured, both indexes and every ban included, after any log of
  records whose created rooms have identifiers and whose ban timestamps the protobuf
  library accepts.\<close>

theorem directory_snapshot_restores_state:
  assumes "proto_codec empty_directory_snapshot marshal unmarshal"
    and "\<forall>rec \<in> set log. record_covered check_valid rec"
    and "RoomDirectory_Snapshot_bytes marshal (directory_run log NewRoomDirectoryProjection) = Some data"
  shows "RoomDirectory_Restore unmarshal check_valid data fresh
    = (True, directory_run log NewRoomDirectoryProjection)"
proof -
  have run: "directory_run log NewRoomDirectoryProjection = fold directory_step log NewRoomDirectoryProjection"
    by (simp add: directory_run_def directory_step_def [abs_def] case_prod_unfold)
  have "directory_wf check_valid NewRoomDirectoryProjection"
    by (simp add: directory_wf_def NewRoomDirectoryProjection_def NewRoomCatalogProjection_def bans_ok_def room_bans_def)
  from directory.restart [OF this assms(2)] have
    r: "restore_directory_message check_valid (directory_snapshot_message (directory_run log NewRoomDirectoryProjection))
      = Inr (directory_run log NewRoomDirectoryProjection)"
    by (simp add: run)
  have "(if data = [] then Some empty_directory_snapshot else unmarshal data)
      = Some (directory_snapshot_message (directory_run log NewRoomDirectoryProjection))"
    using assms(1,3) by (auto simp: proto_codec_def RoomDirectory_Snapshot_bytes_def)
  then show ?thesis by (simp add: RoomDirectory_Restore_def r)
qed

definition directory_sample :: room_directory where
  "directory_sample =
     directory_run [(room_sample ''e'' ''U1'' (UserJoinedRoom ''R1''), 1)] NewRoomDirectoryProjection"

lemma directory_snapshot_restores_state_witness:
  "RoomDirectory_Restore
     (\<lambda>d. if d = [] then Some empty_directory_snapshot
          else if d = [7] then Some (directory_snapshot_message directory_sample) else None)
     (\<lambda>t. 0 \<le> t) [7] NewRoomDirectoryProjection = (True, directory_sample)"
  unfolding directory_sample_def
  by (rule directory_snapshot_restores_state
      [where marshal = "\<lambda>m. if m = directory_snapshot_message directory_sample then Some [7] else None"])
    (auto simp: proto_codec_def record_covered_def room_sample_def RoomDirectory_Snapshot_bytes_def directory_sample_def)

end
