(* ===== verification/Room_Groups.thy ===== *)
theory Room_Groups
  imports Projection_Contract
begin

text \<open>
  The sidebar: room groups with their ordered rooms and links
  (\<open>room_group_projection.go\<close>), the explicit order of the groups
  (\<open>room_layout_projection.go\<close>), the projection that combines them
  (\<open>room_group_layout_projection.go\<close>), the ordered listing
  (\<open>room_catalog_reads.go\<close>) and the pure steps of the placement commands
  (\<open>room_groups.go\<close>). Where Go ranges over the map of groups and stops at the first
  match, the model ranges in the order of the group identifiers.
\<close>

section \<open>State\<close>

abbreviation ENTRY_ROOM :: int where "ENTRY_ROOM \<equiv> 1"
abbreviation ENTRY_LINK :: int where "ENTRY_LINK \<equiv> 2"

record sidebar_entry =
  se_kind :: int
  se_id :: string

record sidebar_link =
  sl_id :: string
  sl_label :: string
  sl_url :: string

record group_entry =
  ge_name :: string
  ge_description :: string
  ge_roomIDs :: "string list"
  ge_entries :: "sidebar_entry list"
  ge_links :: "(string, sidebar_link) fmap"

record room_groups =
  rg_groups :: "(string, group_entry) fmap"
  rg_seq :: seq

definition NewRoomGroupProjection :: room_groups where
  "NewRoomGroupProjection = \<lparr>rg_groups = fmempty, rg_seq = 0\<rparr>"

datatype group_event =
  RoomGroupCreated string string string
| RoomGroupUpdated string string string
| RoomGroupDeleted string
| RoomAddedToGroup string string
| RoomRemovedFromGroup string string
| RoomsInGroupReordered string "string list"
| SidebarLinkAddedToGroup string string string string
| SidebarLinkUpdated string string string string
| SidebarLinkRemovedFromGroup string string
| SidebarGroupEntriesReordered string "sidebar_entry list"
| RoomGroupsReordered "string list"

section \<open>Operations on one group\<close>

abbreviation room_entry_of :: "string \<Rightarrow> sidebar_entry" where
  "room_entry_of i \<equiv> \<lparr>se_kind = ENTRY_ROOM, se_id = i\<rparr>"

abbreviation link_entry_of :: "string \<Rightarrow> sidebar_entry" where
  "link_entry_of i \<equiv> \<lparr>se_kind = ENTRY_LINK, se_id = i\<rparr>"

definition removeEntry :: "int \<Rightarrow> string \<Rightarrow> sidebar_entry list \<Rightarrow> sidebar_entry list" where
  "removeEntry kind i es = filter (\<lambda>e. \<not> (se_kind e = kind \<and> se_id e = i)) es"

definition addEntry :: "sidebar_entry \<Rightarrow> sidebar_entry list \<Rightarrow> sidebar_entry list" where
  "addEntry e es = (if se_id e = [] then es else removeEntry (se_kind e) (se_id e) es @ [e])"

text \<open>
  The loop over the present entries: a room's slot takes the next room of the new
  order, or disappears when there is none; every other entry stays. Rooms left over
  go to the end.
\<close>

fun reorder_slots :: "sidebar_entry list \<Rightarrow> sidebar_entry list \<Rightarrow> sidebar_entry list" where
  "reorder_slots [] next = next"
| "reorder_slots (e # es) next =
     (if se_kind e = ENTRY_ROOM
      then (case next of [] \<Rightarrow> reorder_slots es [] | r # rs \<Rightarrow> r # reorder_slots es rs)
      else e # reorder_slots es next)"

definition reorderRoomEntries :: "string list \<Rightarrow> sidebar_entry list \<Rightarrow> sidebar_entry list" where
  "reorderRoomEntries roomIDs es =
     (let nextRooms = map room_entry_of roomIDs
      in if es = [] then nextRooms else reorder_slots es nextRooms)"

definition roomIDsFromEntries :: "sidebar_entry list \<Rightarrow> string list" where
  "roomIDsFromEntries es = map se_id (filter (\<lambda>e. se_kind e = ENTRY_ROOM) es)"

definition hasLink :: "string \<Rightarrow> group_entry \<Rightarrow> bool" where
  "hasLink linkID g \<longleftrightarrow> fmlookup (ge_links g) linkID \<noteq> None
     \<or> list_ex (\<lambda>e. se_kind e = ENTRY_LINK \<and> se_id e = linkID) (ge_entries g)"

definition clonedEntries :: "group_entry \<Rightarrow> sidebar_entry list" where
  "clonedEntries g = (if ge_entries g \<noteq> [] then ge_entries g else map room_entry_of (ge_roomIDs g))"

text \<open>The links in the order of the entries, then the others by identifier.\<close>

definition clonedLinks :: "group_entry \<Rightarrow> sidebar_link list" where
  "clonedLinks g =
     (let shown = List.map_filter
            (\<lambda>e. if se_kind e = ENTRY_LINK then fmlookup (ge_links g) (se_id e) else None) (ge_entries g);
          used = map sl_id shown;
          orphans = filter (\<lambda>i. i \<notin> set used) (sortedMapKeys (ge_links g))
      in shown @ map (\<lambda>i. the (fmlookup (ge_links g) i)) orphans)"

section \<open>Apply\<close>

definition update_group ::
  "string \<Rightarrow> (group_entry \<Rightarrow> group_entry) \<Rightarrow> (string, group_entry) fmap \<Rightarrow> (string, group_entry) fmap" where
  "update_group i f gs = (case fmlookup gs i of None \<Rightarrow> gs | Some g \<Rightarrow> fmupd i (f g) gs)"

definition new_group :: group_entry where
  "new_group =
     \<lparr>ge_name = [], ge_description = [], ge_roomIDs = [], ge_entries = [], ge_links = fmempty\<rparr>"

definition add_room :: "string \<Rightarrow> group_entry \<Rightarrow> group_entry" where
  "add_room r g =
     g\<lparr>ge_roomIDs := (if r \<in> set (ge_roomIDs g) then ge_roomIDs g else ge_roomIDs g @ [r]),
       ge_entries := addEntry (room_entry_of r) (ge_entries g)\<rparr>"

definition remove_room :: "string \<Rightarrow> group_entry \<Rightarrow> group_entry" where
  "remove_room r g =
     g\<lparr>ge_roomIDs := filter (\<lambda>i. i \<noteq> r) (ge_roomIDs g),
       ge_entries := removeEntry ENTRY_ROOM r (ge_entries g)\<rparr>"

definition add_link :: "string \<Rightarrow> string \<Rightarrow> string \<Rightarrow> group_entry \<Rightarrow> group_entry" where
  "add_link l label url g =
     g\<lparr>ge_links := fmupd l \<lparr>sl_id = l, sl_label = label, sl_url = url\<rparr> (ge_links g),
       ge_entries := addEntry (link_entry_of l) (ge_entries g)\<rparr>"

definition update_link :: "string \<Rightarrow> string \<Rightarrow> string \<Rightarrow> group_entry \<Rightarrow> group_entry" where
  "update_link l label url g =
     (if fmlookup (ge_links g) l = None then g
      else g\<lparr>ge_links := fmupd l \<lparr>sl_id = l, sl_label = label, sl_url = url\<rparr> (ge_links g)\<rparr>)"

definition remove_link :: "string \<Rightarrow> group_entry \<Rightarrow> group_entry" where
  "remove_link l g =
     g\<lparr>ge_links := fmdrop l (ge_links g), ge_entries := removeEntry ENTRY_LINK l (ge_entries g)\<rparr>"

fun group_switch :: "group_event \<Rightarrow> (string, group_entry) fmap \<Rightarrow> (string, group_entry) fmap" where
  "group_switch (RoomGroupCreated i name description) gs =
     (let g = (case fmlookup gs i of None \<Rightarrow> new_group | Some g \<Rightarrow> g)
      in fmupd i (g\<lparr>ge_name := name, ge_description := description\<rparr>) gs)"
| "group_switch (RoomGroupUpdated i name description) gs =
     update_group i (\<lambda>g. g\<lparr>ge_name := name, ge_description := description\<rparr>) gs"
| "group_switch (RoomGroupDeleted i) gs = fmdrop i gs"
| "group_switch (RoomAddedToGroup i r) gs = update_group i (add_room r) gs"
| "group_switch (RoomRemovedFromGroup i r) gs = update_group i (remove_room r) gs"
| "group_switch (RoomsInGroupReordered i rs) gs =
     update_group i (\<lambda>g. g\<lparr>ge_roomIDs := rs, ge_entries := reorderRoomEntries rs (ge_entries g)\<rparr>) gs"
| "group_switch (SidebarLinkAddedToGroup i l label url) gs = update_group i (add_link l label url) gs"
| "group_switch (SidebarLinkUpdated i l label url) gs = update_group i (update_link l label url) gs"
| "group_switch (SidebarLinkRemovedFromGroup i l) gs = update_group i (remove_link l) gs"
| "group_switch (SidebarGroupEntriesReordered i es) gs =
     update_group i (\<lambda>g. g\<lparr>ge_entries := es, ge_roomIDs := roomIDsFromEntries es\<rparr>) gs"
| "group_switch (RoomGroupsReordered _) gs = gs"

definition Groups_Apply :: "group_event event option \<Rightarrow> seq \<Rightarrow> room_groups \<Rightarrow> room_groups" where
  "Groups_Apply event sq p =
     (case event of
        None \<Rightarrow> p
      | Some ev \<Rightarrow>
          let p' = (if rg_seq p < sq then p\<lparr>rg_seq := sq\<rparr> else p)
          in (case ev_payload ev of
                None \<Rightarrow> p'
              | Some e \<Rightarrow> p'\<lparr>rg_groups := group_switch e (rg_groups p')\<rparr>))"

text \<open>The layout keeps the last explicit order of the groups.\<close>

definition Layout_Apply :: "group_event event option \<Rightarrow> string list \<Rightarrow> string list" where
  "Layout_Apply event ids =
     (case event of
        None \<Rightarrow> ids
      | Some ev \<Rightarrow> (case ev_payload ev of Some (RoomGroupsReordered gs) \<Rightarrow> gs | _ \<Rightarrow> ids))"

record group_layout =
  gl_groups :: room_groups
  gl_layout :: "string list"

definition NewRoomGroupLayoutProjection :: group_layout where
  "NewRoomGroupLayoutProjection = \<lparr>gl_groups = NewRoomGroupProjection, gl_layout = []\<rparr>"

definition GroupLayout_Apply :: "group_event event option \<Rightarrow> seq \<Rightarrow> group_layout \<Rightarrow> group_layout" where
  "GroupLayout_Apply event sq p =
     (case event of
        Some ev \<Rightarrow>
          (case ev_payload ev of
             Some (RoomGroupsReordered _) \<Rightarrow> p\<lparr>gl_layout := Layout_Apply event (gl_layout p)\<rparr>
           | _ \<Rightarrow> p\<lparr>gl_groups := Groups_Apply event sq (gl_groups p),
                    gl_layout := Layout_Apply event (gl_layout p)\<rparr>)
      | None \<Rightarrow> p\<lparr>gl_groups := Groups_Apply event sq (gl_groups p),
                 gl_layout := Layout_Apply event (gl_layout p)\<rparr>)"

section \<open>Reads\<close>

record group_model =
  gm_id :: string
  gm_name :: string
  gm_description :: string
  gm_room_ids :: "string list"
  gm_entries :: "sidebar_entry list"
  gm_links :: "sidebar_link list"

definition entryToGroup :: "string \<Rightarrow> group_entry \<Rightarrow> group_model" where
  "entryToGroup i g =
     \<lparr>gm_id = i, gm_name = ge_name g, gm_description = ge_description g,
      gm_room_ids = ge_roomIDs g, gm_entries = clonedEntries g, gm_links = clonedLinks g\<rparr>"

definition Groups_Get :: "room_groups \<Rightarrow> string \<Rightarrow> group_model option" where
  "Groups_Get p i = map_option (entryToGroup i) (fmlookup (rg_groups p) i)"

definition Groups_Exists :: "room_groups \<Rightarrow> string \<Rightarrow> bool" where
  "Groups_Exists p i \<longleftrightarrow> fmlookup (rg_groups p) i \<noteq> None"

definition Groups_All :: "room_groups \<Rightarrow> group_model list" where
  "Groups_All p = map (\<lambda>i. entryToGroup i (the (fmlookup (rg_groups p) i))) (sortedMapKeys (rg_groups p))"

definition Groups_Count :: "room_groups \<Rightarrow> nat" where
  "Groups_Count p = length (sortedMapKeys (rg_groups p))"

definition find_group :: "(group_entry \<Rightarrow> bool) \<Rightarrow> room_groups \<Rightarrow> string option" where
  "find_group P p =
     find (\<lambda>i. case fmlookup (rg_groups p) i of None \<Rightarrow> False | Some g \<Rightarrow> P g) (sortedMapKeys (rg_groups p))"

record move_snapshot =
  mv_target_exists :: bool
  mv_source :: string
  mv_seq :: seq

definition MoveSnapshot :: "room_groups \<Rightarrow> string \<Rightarrow> string \<Rightarrow> move_snapshot" where
  "MoveSnapshot p roomID target =
     \<lparr>mv_target_exists = (target = [] \<or> Groups_Exists p target),
      mv_source = (case find_group (\<lambda>g. roomID \<in> set (ge_roomIDs g)) p of None \<Rightarrow> [] | Some i \<Rightarrow> i),
      mv_seq = rg_seq p\<rparr>"

definition GroupForRoom :: "room_groups \<Rightarrow> string \<Rightarrow> string" where
  "GroupForRoom p roomID = mv_source (MoveSnapshot p roomID [])"

definition GroupForSidebarLink :: "room_groups \<Rightarrow> string \<Rightarrow> string" where
  "GroupForSidebarLink p linkID = (case find_group (hasLink linkID) p of None \<Rightarrow> [] | Some i \<Rightarrow> i)"

record link_move_snapshot =
  lm_target_exists :: bool
  lm_source :: string
  lm_link :: "sidebar_link option"
  lm_seq :: seq

definition LinkMoveSnapshot :: "room_groups \<Rightarrow> string \<Rightarrow> string \<Rightarrow> link_move_snapshot" where
  "LinkMoveSnapshot p linkID target =
     (let src = find_group (\<lambda>g. fmlookup (ge_links g) linkID \<noteq> None) p in
      \<lparr>lm_target_exists = (target = [] \<or> Groups_Exists p target),
       lm_source = (case src of None \<Rightarrow> [] | Some i \<Rightarrow> i),
       lm_link = Option.bind src (\<lambda>i. Option.bind (fmlookup (rg_groups p) i) (\<lambda>g. fmlookup (ge_links g) linkID)),
       lm_seq = rg_seq p\<rparr>)"

record placement_snapshot =
  ps_source :: string
  ps_source_group :: "group_model option"
  ps_target_group :: "group_model option"
  ps_link :: "sidebar_link option"
  ps_seq :: seq

definition PlacementSnapshot :: "room_groups \<Rightarrow> sidebar_entry option \<Rightarrow> string \<Rightarrow> placement_snapshot" where
  "PlacementSnapshot p item target =
     (let base = \<lparr>ps_source = [], ps_source_group = None, ps_target_group = Groups_Get p target,
                  ps_link = None, ps_seq = rg_seq p\<rparr> in
      case item of
        None \<Rightarrow> base
      | Some it \<Rightarrow>
          if se_id it = [] then base
          else case find_group (\<lambda>g. list_ex (\<lambda>e. se_kind e = se_kind it \<and> se_id e = se_id it) (ge_entries g)) p of
                 None \<Rightarrow> base
               | Some i \<Rightarrow>
                   base\<lparr>ps_source := i, ps_source_group := Groups_Get p i,
                        ps_link := (if se_kind it = ENTRY_LINK
                                    then Option.bind (fmlookup (rg_groups p) i) (\<lambda>g. fmlookup (ge_links g) (se_id it))
                                    else None)\<rparr>)"

text \<open>
  The groups in the layout's order, without repetitions and without references to
  groups that no longer exist, then the groups the layout does not mention.
\<close>

fun ordered_loop :: "(string, group_model) fmap \<Rightarrow> string list \<Rightarrow> string list \<Rightarrow> group_model list \<Rightarrow> string list \<times> group_model list" where
  "ordered_loop docs [] used out = (used, out)"
| "ordered_loop docs (i # order) used out =
     (if i \<in> set used then ordered_loop docs order used out
      else case fmlookup docs i of
             None \<Rightarrow> ordered_loop docs order used out
           | Some g \<Rightarrow> ordered_loop docs order (i # used) (out @ [g]))"

definition ListRoomGroupsOrdered :: "group_layout \<Rightarrow> bool \<Rightarrow> group_model list" where
  "ListRoomGroupsOrdered p channel =
     (if \<not> channel then []
      else let docs = fold (\<lambda>g m. fmupd (gm_id g) g m) (Groups_All (gl_groups p)) fmempty;
               (used, out) = ordered_loop docs (gl_layout p) [] [];
               orphans = filter (\<lambda>i. i \<notin> set used) (sortedMapKeys docs)
           in out @ map (\<lambda>i. the (fmlookup docs i)) orphans)"

section \<open>Steps of the placement commands\<close>

datatype group_error =
  ErrRoomGroupNotFound
| ErrRoomGroupOrderMismatch
| ErrSidebarItemNotFound
| ErrSidebarItemPlacement
| ErrInvalidItem

definition sidebarEntryKey :: "sidebar_entry \<Rightarrow> string" where
  "sidebarEntryKey e =
     (if se_id e = [] then []
      else if se_kind e = ENTRY_ROOM then ''room:'' @ se_id e
      else if se_kind e = ENTRY_LINK then ''link:'' @ se_id e
      else [])"

fun index_where :: "('a \<Rightarrow> bool) \<Rightarrow> 'a list \<Rightarrow> nat option" where
  "index_where P [] = None"
| "index_where P (x # xs) = (if P x then Some 0 else map_option Suc (index_where P xs))"

definition insert_at :: "nat \<Rightarrow> 'a \<Rightarrow> 'a list \<Rightarrow> 'a list" where
  "insert_at n x xs = take n xs @ x # drop n xs"

definition placeStringBefore ::
  "string list \<Rightarrow> string \<Rightarrow> string \<Rightarrow> group_error + (string list \<times> bool)" where
  "placeStringBefore current movingID beforeID =
     (if movingID \<notin> set current then Inl ErrRoomGroupNotFound
      else if beforeID = movingID then Inl ErrRoomGroupOrderMismatch
      else let next = filter (\<lambda>i. i \<noteq> movingID) current in
           case (if beforeID = [] then Some (length next) else index_where (\<lambda>i. i = beforeID) next) of
             None \<Rightarrow> Inl ErrRoomGroupNotFound
           | Some at \<Rightarrow> let next' = insert_at at movingID next in Inr (next', current \<noteq> next'))"

definition sameSidebarEntryOrder :: "sidebar_entry list \<Rightarrow> sidebar_entry list \<Rightarrow> bool" where
  "sameSidebarEntryOrder l r \<longleftrightarrow> map sidebarEntryKey l = map sidebarEntryKey r"

definition placeSidebarEntryBefore ::
  "sidebar_entry list \<Rightarrow> sidebar_entry \<Rightarrow> sidebar_entry option \<Rightarrow> bool
    \<Rightarrow> group_error + (sidebar_entry list \<times> bool)" where
  "placeSidebarEntryBefore current item before removeItem =
     (let next = (if removeItem
                  then filter (\<lambda>e. sidebarEntryKey e \<noteq> sidebarEntryKey item) current else current) in
      case (case before of
              None \<Rightarrow> Some (length next)
            | Some b \<Rightarrow> index_where (\<lambda>e. sidebarEntryKey e = sidebarEntryKey b) next) of
        None \<Rightarrow> Inl ErrSidebarItemPlacement
      | Some at \<Rightarrow>
          let next' = insert_at at item next
          in Inr (next', \<not> sameSidebarEntryOrder current next'))"

type_synonym key_counts = "(string, int) fmap"

definition bump_key :: "int \<Rightarrow> string \<Rightarrow> key_counts \<Rightarrow> key_counts" where
  "bump_key d k m = fmupd k ((case fmlookup m k of None \<Rightarrow> 0 | Some c \<Rightarrow> c) + d) m"

fun count_entries :: "sidebar_entry list \<Rightarrow> key_counts \<Rightarrow> key_counts option" where
  "count_entries [] m = Some m"
| "count_entries (e # es) m =
     (if sidebarEntryKey e = [] then None else count_entries es (bump_key 1 (sidebarEntryKey e) m))"

fun uncount_entries :: "sidebar_entry list \<Rightarrow> key_counts \<Rightarrow> key_counts option" where
  "uncount_entries [] m = Some m"
| "uncount_entries (e # es) m =
     (if sidebarEntryKey e = [] then None
      else let m' = bump_key (-1) (sidebarEntryKey e) m
           in if (case fmlookup m' (sidebarEntryKey e) of None \<Rightarrow> 0 | Some c \<Rightarrow> c) < 0 then None
              else uncount_entries es m')"

definition sameSidebarEntrySet :: "sidebar_entry list \<Rightarrow> sidebar_entry list \<Rightarrow> bool" where
  "sameSidebarEntrySet current next =
     (if length current \<noteq> length next then False
      else case count_entries current fmempty of
             None \<Rightarrow> False
           | Some m \<Rightarrow>
               (case uncount_entries next m of
                  None \<Rightarrow> False
                | Some m' \<Rightarrow> fmpred (\<lambda>_ c. c = 0) m'))"

text \<open>The three events of a move between groups, in the order of the batch.\<close>

definition sidebarItemMoveEvents ::
  "placement_snapshot \<Rightarrow> sidebar_entry \<Rightarrow> string \<Rightarrow> sidebar_entry list \<Rightarrow> group_error + group_event list" where
  "sidebarItemMoveEvents snap item target targetEntries =
     (let reordered = SidebarGroupEntriesReordered target targetEntries in
      if se_kind item = ENTRY_ROOM
      then Inr [RoomRemovedFromGroup (ps_source snap) (se_id item),
                RoomAddedToGroup target (se_id item), reordered]
      else if se_kind item = ENTRY_LINK
      then (case ps_link snap of
              None \<Rightarrow> Inl ErrSidebarItemNotFound
            | Some l \<Rightarrow> Inr [SidebarLinkRemovedFromGroup (ps_source snap) (se_id item),
                             SidebarLinkAddedToGroup target (sl_id l) (sl_label l) (sl_url l), reordered])
      else Inl ErrInvalidItem)"

text \<open>
  What \<open>placeSidebarItem\<close> decides from one snapshot, between reading it and
  appending: an error, nothing to do, or the events to append at the snapshot's
  sequence. Authorization and the retry after a conflict surround it.
\<close>

definition planSidebarPlacement ::
  "room_groups \<Rightarrow> sidebar_entry \<Rightarrow> string \<Rightarrow> sidebar_entry option \<Rightarrow> group_error + group_event list" where
  "planSidebarPlacement p item target before =
     (if sidebarEntryKey item = [] then Inl ErrInvalidItem
      else if (case before of None \<Rightarrow> False | Some b \<Rightarrow> sidebarEntryKey b = []) then Inl ErrInvalidItem
      else if (case before of None \<Rightarrow> False | Some b \<Rightarrow> sidebarEntryKey b = sidebarEntryKey item)
      then Inl ErrSidebarItemPlacement
      else let snap = PlacementSnapshot p (Some item) target in
        (case ps_target_group snap of
           None \<Rightarrow> Inl ErrRoomGroupNotFound
         | Some tg \<Rightarrow>
             if ps_source_group snap = None then Inl ErrSidebarItemNotFound
             else case placeSidebarEntryBefore (gm_entries tg) item before (ps_source snap = target) of
                    Inl e \<Rightarrow> Inl e
                  | Inr (targetEntries, changed) \<Rightarrow>
                      if ps_source snap = target
                      then Inr (if changed then [SidebarGroupEntriesReordered target targetEntries] else [])
                      else sidebarItemMoveEvents snap item target targetEntries))"

end
