(* ===== verification/Room_Groups_Properties.thy ===== *)
theory Room_Groups_Properties
  imports Room_Groups "HOL-Library.Multiset"
begin

text \<open>
  What the sidebar promises: the rooms of a group and the room entries it shows are
  the same, a move takes an item from exactly one group to exactly one other, and
  the ordered listing shows every group once.
\<close>

section \<open>The invariant of a group\<close>

definition link_ok :: "string \<Rightarrow> sidebar_link \<Rightarrow> bool" where
  "link_ok i l \<longleftrightarrow> i \<noteq> [] \<and> sl_id l = i"

definition group_ok :: "group_entry \<Rightarrow> bool" where
  "group_ok g \<longleftrightarrow> distinct (ge_roomIDs g) \<and> distinct (roomIDsFromEntries (ge_entries g))
     \<and> set (roomIDsFromEntries (ge_entries g)) = set (ge_roomIDs g) \<and> [] \<notin> set (ge_roomIDs g)
     \<and> fmpred link_ok (ge_links g)"

lemma room_ids_append [simp]: "roomIDsFromEntries (xs @ ys) = roomIDsFromEntries xs @ roomIDsFromEntries ys"
  by (simp add: roomIDsFromEntries_def)

lemma room_ids_simps [simp]:
  "roomIDsFromEntries [] = []"
  "roomIDsFromEntries (e # es) = (if se_kind e = ENTRY_ROOM then [se_id e] else []) @ roomIDsFromEntries es"
  by (simp_all add: roomIDsFromEntries_def)

lemma room_ids_of_rooms [simp]: "roomIDsFromEntries (map room_entry_of rs) = rs"
  by (induction rs) auto

lemma room_ids_remove:
  "roomIDsFromEntries (removeEntry kind i es) =
     (if kind = ENTRY_ROOM then filter (\<lambda>r. r \<noteq> i) (roomIDsFromEntries es) else roomIDsFromEntries es)"
  by (induction es) (auto simp: removeEntry_def)

lemma room_ids_add_room: "r \<noteq> [] \<Longrightarrow>
   roomIDsFromEntries (addEntry (room_entry_of r) es) = filter (\<lambda>i. i \<noteq> r) (roomIDsFromEntries es) @ [r]"
  by (simp add: addEntry_def room_ids_remove)

lemma room_ids_add_link: "roomIDsFromEntries (addEntry (link_entry_of l) es) = roomIDsFromEntries es"
  by (simp add: addEntry_def room_ids_remove)

lemma room_ids_reorder_slots:
  "\<forall>e \<in> set next. se_kind e = ENTRY_ROOM \<Longrightarrow>
     roomIDsFromEntries (reorder_slots es next) = map se_id next"
  by (induction es "next" rule: reorder_slots.induct)
    (auto simp: roomIDsFromEntries_def filter_id_conv split: list.splits)

lemma room_ids_reorder [simp]: "roomIDsFromEntries (reorderRoomEntries rs es) = rs"
  by (simp add: reorderRoomEntries_def Let_def room_ids_reorder_slots comp_def)

lemma links_reorder_slots:
  "\<forall>e \<in> set next. se_kind e = ENTRY_ROOM \<Longrightarrow>
     filter (\<lambda>e. se_kind e \<noteq> ENTRY_ROOM) (reorder_slots es next) = filter (\<lambda>e. se_kind e \<noteq> ENTRY_ROOM) es"
  by (induction es "next" rule: reorder_slots.induct) (auto simp: filter_empty_conv split: list.splits)

lemma reorder_slots_nth:
  assumes "\<forall>e \<in> set next. se_kind e = ENTRY_ROOM" and "length next = length (roomIDsFromEntries es)"
  shows "length (reorder_slots es next) = length es
     \<and> (\<forall>i < length es. se_kind (es ! i) \<noteq> ENTRY_ROOM \<longrightarrow> reorder_slots es next ! i = es ! i)"
  using assms
proof (induction es arbitrary: "next")
  case Nil
  then show ?case by simp
next
  case (Cons e es)
  show ?case
  proof (cases "se_kind e = ENTRY_ROOM")
    case True
    then obtain r rs where "next = r # rs" using Cons.prems(2) by (cases "next") auto
    then show ?thesis using Cons True by (auto simp: less_Suc_eq_0_disj)
  next
    case False
    then show ?thesis using Cons by (auto simp: less_Suc_eq_0_disj)
  qed
qed

lemma group_ok_new [simp]: "group_ok new_group"
  by (simp add: group_ok_def new_group_def)

lemma group_ok_rename [simp]: "group_ok (g\<lparr>ge_name := n, ge_description := d\<rparr>) = group_ok g"
  by (simp add: group_ok_def)

lemma group_ok_add_room: "group_ok g \<Longrightarrow> r \<noteq> [] \<Longrightarrow> group_ok (add_room r g)"
  by (auto simp: group_ok_def add_room_def room_ids_add_room)

lemma group_ok_remove_room: "group_ok g \<Longrightarrow> group_ok (remove_room r g)"
  by (auto simp: group_ok_def remove_room_def room_ids_remove)

lemma link_map_upd:
  "fmpred link_ok m \<Longrightarrow> l \<noteq> [] \<Longrightarrow> fmpred link_ok (fmupd l \<lparr>sl_id = l, sl_label = a, sl_url = u\<rparr> m)"
  by (auto simp: link_ok_def intro!: fmpred_upd)

lemma group_ok_links:
  "group_ok g \<Longrightarrow> l \<noteq> [] \<Longrightarrow> group_ok (add_link l a u g)"
  "group_ok g \<Longrightarrow> group_ok (remove_link l g)"
  by (simp_all add: group_ok_def add_link_def remove_link_def room_ids_add_link room_ids_remove link_map_upd)
    auto

lemma group_ok_update_link: "group_ok g \<Longrightarrow> group_ok (update_link l a u g)"
  by (auto simp: group_ok_def update_link_def link_ok_def intro!: link_map_upd dest: fmpredD)

section \<open>Logs\<close>

text \<open>
  The records the commands append: identifiers are not empty, and a reorder names no
  room twice (\<open>ReorderRoomsInGroup\<close> and \<open>reorderSidebarItemsInGroup\<close> check that
  it is a permutation of what the group holds).
\<close>

fun group_event_covered :: "group_event \<Rightarrow> bool" where
  "group_event_covered (RoomGroupCreated i _ _) = (i \<noteq> [])"
| "group_event_covered (RoomAddedToGroup _ r) = (r \<noteq> [])"
| "group_event_covered (RoomsInGroupReordered _ rs) = (distinct rs \<and> [] \<notin> set rs)"
| "group_event_covered (SidebarLinkAddedToGroup _ l _ _) = (l \<noteq> [])"
| "group_event_covered (SidebarGroupEntriesReordered _ es) =
     (distinct (roomIDsFromEntries es) \<and> [] \<notin> set (roomIDsFromEntries es))"
| "group_event_covered (RoomGroupsReordered gs) = (distinct gs \<and> [] \<notin> set gs)"
| "group_event_covered _ = True"

definition group_slot_ok :: "string \<Rightarrow> group_entry \<Rightarrow> bool" where
  "group_slot_ok i g \<longleftrightarrow> i \<noteq> [] \<and> group_ok g"

lemma update_group_ok:
  assumes "fmpred group_slot_ok gs" and "\<And>g. group_ok g \<Longrightarrow> group_ok (f g)"
  shows "fmpred group_slot_ok (update_group i f gs)"
proof (cases "fmlookup gs i")
  case None
  then show ?thesis using assms(1) by (simp add: update_group_def)
next
  case (Some g)
  with assms(1) have "group_slot_ok i g" by (rule fmpredD)
  then show ?thesis using assms Some by (auto simp: update_group_def group_slot_ok_def intro!: fmpred_upd)
qed

lemma group_switch_ok:
  assumes "fmpred group_slot_ok gs" and "group_event_covered e"
  shows "fmpred group_slot_ok (group_switch e gs)"
proof (cases e)
  case (RoomGroupCreated i n d)
  have "group_ok g" if "fmlookup gs i = Some g" for g
    using fmpredD [OF assms(1) that] by (simp add: group_slot_ok_def)
  then show ?thesis
    using assms RoomGroupCreated
    by (auto simp: Let_def group_slot_ok_def intro!: fmpred_upd split: option.splits)
qed (use assms in \<open>auto intro!: update_group_ok group_ok_add_room group_ok_remove_room group_ok_links
       group_ok_update_link\<close>, auto simp: group_ok_def)

definition group_record_covered :: "group_event event \<times> seq \<Rightarrow> bool" where
  "group_record_covered rec =
     (case ev_payload (fst rec) of None \<Rightarrow> True | Some e \<Rightarrow> group_event_covered e)"

definition group_step :: "group_event event \<times> seq \<Rightarrow> group_layout \<Rightarrow> group_layout" where
  "group_step rec p = GroupLayout_Apply (Some (fst rec)) (snd rec) p"

definition group_layout_wf :: "group_layout \<Rightarrow> bool" where
  "group_layout_wf p \<longleftrightarrow> fmpred group_slot_ok (rg_groups (gl_groups p))
     \<and> distinct (gl_layout p) \<and> [] \<notin> set (gl_layout p)"

lemma group_layout_wf_new [simp]: "group_layout_wf NewRoomGroupLayoutProjection"
  by (simp add: group_layout_wf_def NewRoomGroupLayoutProjection_def NewRoomGroupProjection_def)

lemma Groups_Apply_groups:
  "rg_groups (Groups_Apply (Some ev) sq p) =
     (case ev_payload ev of None \<Rightarrow> rg_groups p | Some e \<Rightarrow> group_switch e (rg_groups p))"
  by (auto simp: Groups_Apply_def Let_def split: option.split)

lemma group_step_wf:
  assumes "group_layout_wf p" and "group_record_covered rec"
  shows "group_layout_wf (group_step rec p)"
proof (cases "ev_payload (fst rec)")
  case None
  then show ?thesis
    using assms by (simp add: group_step_def GroupLayout_Apply_def group_layout_wf_def Groups_Apply_groups Layout_Apply_def)
next
  case (Some e)
  have "fmpred group_slot_ok (group_switch e (rg_groups (gl_groups p)))"
    using assms Some by (intro group_switch_ok) (auto simp: group_layout_wf_def group_record_covered_def)
  then show ?thesis
    using assms Some
    by (cases e) (auto simp: group_step_def GroupLayout_Apply_def group_layout_wf_def Groups_Apply_groups
        Layout_Apply_def group_record_covered_def)
qed

lemma group_steps_wf:
  "group_layout_wf p \<Longrightarrow> \<forall>rec \<in> set log. group_record_covered rec \<Longrightarrow> group_layout_wf (fold group_step log p)"
  by (induction log arbitrary: p) (auto simp: group_step_wf)

text \<open>Whatever the commands append, in every group the list of room
  identifiers and the room entries of the sidebar hold the same rooms, each once and
  none of them empty, and every link is filed under its own identifier.\<close>

theorem groups_stay_consistent:
  assumes "\<forall>rec \<in> set log. group_record_covered rec"
    and "fmlookup (rg_groups (gl_groups (fold group_step log NewRoomGroupLayoutProjection))) i = Some g"
  shows "distinct (ge_roomIDs g) \<and> [] \<notin> set (ge_roomIDs g)
     \<and> mset (roomIDsFromEntries (clonedEntries g)) = mset (ge_roomIDs g)
     \<and> (\<forall>l \<in> fset (fmran (ge_links g)). fmlookup (ge_links g) (sl_id l) = Some l)"
proof -
  have "group_layout_wf (fold group_step log NewRoomGroupLayoutProjection)"
    using assms(1) by (intro group_steps_wf) auto
  then have "group_slot_ok i g"
    using assms(2) by (auto simp: group_layout_wf_def dest: fmpredD)
  then have ok: "group_ok g" by (simp add: group_slot_ok_def)
  then have "mset (roomIDsFromEntries (clonedEntries g)) = mset (ge_roomIDs g)"
    by (cases "ge_entries g = []") (auto simp: clonedEntries_def group_ok_def set_eq_iff_mset_eq_distinct)
  moreover have "fmlookup (ge_links g) (sl_id l) = Some l" if "l \<in> fset (fmran (ge_links g))" for l
    using that ok by (auto simp: group_ok_def link_ok_def fmlookup_ran_iff dest: fmpredD)
  ultimately show ?thesis using ok by (auto simp: group_ok_def)
qed

definition group_sample :: "group_event \<Rightarrow> group_event event \<times> seq" where
  "group_sample e = (\<lparr>ev_id = ''e'', ev_actor = ''U1'', ev_created_at = None, ev_payload = Some e\<rparr>, 1)"

lemma groups_stay_consistent_witness:
  "distinct (ge_roomIDs (add_room ''R1'' (new_group\<lparr>ge_name := ''Lobby'', ge_description := ''''\<rparr>)))"
  using groups_stay_consistent [of "map group_sample [RoomGroupCreated ''G1'' ''Lobby'' '''', RoomAddedToGroup ''G1'' ''R1'']"
      "''G1''" "add_room ''R1'' (new_group\<lparr>ge_name := ''Lobby'', ge_description := ''''\<rparr>)"]
  by (simp add: group_record_covered_def group_sample_def group_step_def GroupLayout_Apply_def Groups_Apply_def
      NewRoomGroupLayoutProjection_def NewRoomGroupProjection_def update_group_def Let_def)

text \<open>Reordering the rooms of a group gives them exactly the requested order
  among the sidebar entries and never moves a link past another link; when the request
  has as many rooms as the sidebar shows, every link keeps its slot.\<close>

theorem room_reorder_keeps_links:
  "roomIDsFromEntries (reorderRoomEntries rs es) = rs
   \<and> filter (\<lambda>e. se_kind e \<noteq> ENTRY_ROOM) (reorderRoomEntries rs es) = filter (\<lambda>e. se_kind e \<noteq> ENTRY_ROOM) es
   \<and> (length rs \<noteq> length (roomIDsFromEntries es) \<or>
        length (reorderRoomEntries rs es) = length es
        \<and> (\<forall>i < length es. se_kind (es ! i) = ENTRY_ROOM \<or> reorderRoomEntries rs es ! i = es ! i))"
proof -
  have rooms: "\<forall>e \<in> set (map room_entry_of rs). se_kind e = ENTRY_ROOM" by auto
  show ?thesis
    using links_reorder_slots [OF rooms, of es] reorder_slots_nth [OF rooms, of es]
    by (auto simp: reorderRoomEntries_def Let_def filter_empty_conv room_ids_reorder_slots comp_def)
qed

lemma room_reorder_keeps_links_witness:
  "reorderRoomEntries [''B'', ''A''] [room_entry_of ''A'', link_entry_of ''L'', room_entry_of ''B''] ! 1 = link_entry_of ''L''"
  using room_reorder_keeps_links [of "[''B'', ''A'']" "[room_entry_of ''A'', link_entry_of ''L'', room_entry_of ''B'']"]
  by auto

section \<open>Placing an item\<close>

lemma fmlookup_update_group [simp]:
  "fmlookup (update_group i f gs) j = (if j = i then map_option f (fmlookup gs i) else fmlookup gs j)"
  by (auto simp: update_group_def split: option.split)

lemma fmdom_update_group [simp]: "fmdom (update_group i f gs) = fmdom gs"
proof (cases "fmlookup gs i")
  case None
  then show ?thesis by (simp add: update_group_def)
next
  case (Some g)
  then have "i |\<in>| fmdom gs" by (rule fmdomI)
  then show ?thesis using Some by (simp add: update_group_def finsert_absorb)
qed

definition items_exclusive :: "(string, group_entry) fmap \<Rightarrow> bool" where
  "items_exclusive gs \<longleftrightarrow>
     (\<forall>i j g h e. fmlookup gs i = Some g \<longrightarrow> fmlookup gs j = Some h \<longrightarrow> sidebarEntryKey e \<noteq> [] \<longrightarrow>
        e \<in> set (ge_entries g) \<longrightarrow> e \<in> set (ge_entries h) \<longrightarrow> i = j)"

lemma key_inject: "sidebarEntryKey a \<noteq> [] \<Longrightarrow> sidebarEntryKey a = sidebarEntryKey b \<longleftrightarrow> a = b"
  by (cases a; cases b) (auto simp: sidebarEntryKey_def split: if_splits)

lemma key_kind: "sidebarEntryKey e \<noteq> [] \<Longrightarrow> (se_kind e = ENTRY_ROOM \<or> se_kind e = ENTRY_LINK) \<and> se_id e \<noteq> []"
  by (auto simp: sidebarEntryKey_def split: if_splits)

lemma entry_eq_iff: "se_kind (a :: sidebar_entry) = se_kind b \<and> se_id a = se_id b \<longleftrightarrow> a = b"
  by (cases a; cases b) auto

lemma cloned_ok: "group_ok g \<Longrightarrow> clonedEntries g = ge_entries g"
  by (cases "ge_entries g = []") (auto simp: clonedEntries_def group_ok_def)

lemma set_insert_at [simp]: "set (insert_at n x xs) = insert x (set xs)"
proof -
  have "set (take n xs @ drop n xs) = set xs"
    by simp
  then show ?thesis unfolding insert_at_def set_append by auto
qed

lemma distinct_insert_middle: "distinct (A @ B) \<Longrightarrow> x \<notin> set (A @ B) \<Longrightarrow> distinct (A @ x # B)"
  by auto

lemma distinct_room_ids_insert:
  assumes "distinct (roomIDsFromEntries xs)" and "se_kind x = ENTRY_ROOM \<Longrightarrow> se_id x \<notin> set (roomIDsFromEntries xs)"
  shows "distinct (roomIDsFromEntries (insert_at n x xs))"
proof -
  define A where "A = roomIDsFromEntries (take n xs)"
  define B where "B = roomIDsFromEntries (drop n xs)"
  have split: "A @ B = roomIDsFromEntries xs"
    unfolding A_def B_def room_ids_append [symmetric] by simp
  have "roomIDsFromEntries (insert_at n x xs) = (if se_kind x = ENTRY_ROOM then A @ se_id x # B else A @ B)"
    by (simp add: insert_at_def A_def B_def)
  then show ?thesis
    using assms distinct_insert_middle [of A B "se_id x"] unfolding split [symmetric] by auto
qed

lemma room_entry_iff: "room_entry_of r = e \<longleftrightarrow> se_kind e = ENTRY_ROOM \<and> r = se_id e"
  by (cases e) simp

lemma set_room_ids: "r \<in> set (roomIDsFromEntries es) \<longleftrightarrow> room_entry_of r \<in> set es"
  by (induction es) (auto simp: room_entry_iff)

lemma index_where_Some:
  "index_where P xs = Some n \<Longrightarrow> \<exists>ys y zs. xs = ys @ y # zs \<and> length ys = n \<and> P y"
proof (induction xs arbitrary: n)
  case Nil
  then show ?case by simp
next
  case (Cons x xs)
  show ?case
  proof (cases "P x")
    case True
    with Cons.prems show ?thesis by (intro exI [of _ "[]"]) auto
  next
    case False
    with Cons.prems obtain m where m: "index_where P xs = Some m" "n = Suc m" by auto
    from Cons.IH [OF m(1)] obtain ys y zs where "xs = ys @ y # zs" "length ys = m" "P y" by blast
    then show ?thesis using m(2) by (intro exI [of _ "x # ys"]) auto
  qed
qed

text \<open>Where an item stands in a sidebar: just before \<open>before\<close>, or last, and only there.\<close>

definition placed_before :: "sidebar_entry \<Rightarrow> sidebar_entry option \<Rightarrow> sidebar_entry list \<Rightarrow> bool" where
  "placed_before item before es \<longleftrightarrow>
     (\<exists>xs ys. map sidebarEntryKey es = xs @ sidebarEntryKey item # ys \<and> sidebarEntryKey item \<notin> set xs \<union> set ys
        \<and> (case before of None \<Rightarrow> ys = [] | Some b \<Rightarrow> ys \<noteq> [] \<and> hd ys = sidebarEntryKey b))"

definition without :: "bool \<Rightarrow> sidebar_entry \<Rightarrow> sidebar_entry list \<Rightarrow> sidebar_entry list" where
  "without removeItem item es =
     (if removeItem then filter (\<lambda>e. sidebarEntryKey e \<noteq> sidebarEntryKey item) es else es)"

lemma place_entry:
  assumes "placeSidebarEntryBefore es item before removeItem = Inr (es', changed)"
    and "item \<notin> set (without removeItem item es)" and "sidebarEntryKey item \<noteq> []"
  shows "\<exists>n. es' = insert_at n item (without removeItem item es)" and "placed_before item before es'"
    and "changed = (map sidebarEntryKey es \<noteq> map sidebarEntryKey es')"
proof -
  let ?next = "without removeItem item es"
  obtain n where n: "es' = insert_at n item ?next"
    and at: "(case before of None \<Rightarrow> Some (length ?next)
            | Some b \<Rightarrow> index_where (\<lambda>e. sidebarEntryKey e = sidebarEntryKey b) ?next) = Some n"
    and ch: "changed = (map sidebarEntryKey es \<noteq> map sidebarEntryKey es')"
    using assms(1)
    by (auto simp: placeSidebarEntryBefore_def without_def Let_def sameSidebarEntryOrder_def split: option.splits)
  from n show "\<exists>n. es' = insert_at n item ?next" by blast
  from ch show "changed = (map sidebarEntryKey es \<noteq> map sidebarEntryKey es')" .
  have fresh: "sidebarEntryKey item \<notin> set (map sidebarEntryKey ?next)"
    using assms(2,3) by (metis (mono_tags, lifting) imageE key_inject list.set_map)
  show "placed_before item before es'"
  proof (cases before)
    case None
    then have "map sidebarEntryKey es' = map sidebarEntryKey ?next @ [sidebarEntryKey item]"
      using at n by (simp add: insert_at_def)
    then show ?thesis using fresh None unfolding placed_before_def
      by (intro exI [of _ "map sidebarEntryKey ?next"] exI [of _ "[]"]) simp
  next
    case (Some b)
    with at have "index_where (\<lambda>e. sidebarEntryKey e = sidebarEntryKey b) ?next = Some n" by simp
    from index_where_Some [OF this] obtain ys y zs where
      "?next = ys @ y # zs" "length ys = n" "sidebarEntryKey y = sidebarEntryKey b"
      by blast
    then show ?thesis using fresh n Some unfolding placed_before_def
      by (intro exI [of _ "map sidebarEntryKey ys"] exI [of _ "map sidebarEntryKey (y # zs)"])
        (simp add: insert_at_def)
  qed
qed

text \<open>The contract of a placement: the item is in the target and nowhere else, and nothing
  else changed group.\<close>

definition item_moved ::
  "sidebar_entry \<Rightarrow> string \<Rightarrow> (string, group_entry) fmap \<Rightarrow> (string, group_entry) fmap \<Rightarrow> bool" where
  "item_moved item target old new \<longleftrightarrow> fmdom new = fmdom old
     \<and> (\<forall>i g g' e. fmlookup old i = Some g \<longrightarrow> fmlookup new i = Some g' \<longrightarrow>
          (e \<in> set (ge_entries g') \<longleftrightarrow> (if e = item then i = target else e \<in> set (ge_entries g))))"

lemma moved_exclusive:
  assumes "items_exclusive old" and "item_moved item target old new"
  shows "items_exclusive new"
  unfolding items_exclusive_def
proof (intro allI impI)
  fix i j g' h' e
  assume l: "fmlookup new i = Some g'" "fmlookup new j = Some h'" and k: "sidebarEntryKey e \<noteq> []"
    and m: "e \<in> set (ge_entries g')" "e \<in> set (ge_entries h')"
  have "i |\<in>| fmdom old" "j |\<in>| fmdom old"
    using l assms(2) by (metis fmdomI item_moved_def)+
  then obtain g h where gh: "fmlookup old i = Some g" "fmlookup old j = Some h" by (auto simp: fmlookup_dom_iff)
  have "if e = item then i = target else e \<in> set (ge_entries g)"
    "if e = item then j = target else e \<in> set (ge_entries h)"
    using assms(2) gh l m unfolding item_moved_def by blast+
  then show "i = j" using assms(1) gh k unfolding items_exclusive_def by (metis (full_types))
qed

lemma room_ids_filter_distinct: "distinct (roomIDsFromEntries es) \<Longrightarrow> distinct (roomIDsFromEntries (filter P es))"
proof -
  have "filter (\<lambda>e. se_kind e = ENTRY_ROOM) (filter P es) = filter P (filter (\<lambda>e. se_kind e = ENTRY_ROOM) es)"
    by (simp add: conj_commute)
  then show "distinct (roomIDsFromEntries es) \<Longrightarrow> distinct (roomIDsFromEntries (filter P es))"
    by (simp only: roomIDsFromEntries_def distinct_map_filter)
qed

lemma covered_placement:
  assumes "group_ok g" and "item \<notin> set (without removeItem item (ge_entries g))" and "sidebarEntryKey item \<noteq> []"
  shows "group_event_covered
     (SidebarGroupEntriesReordered t (insert_at n item (without removeItem item (ge_entries g))))"
proof -
  let ?next = "without removeItem item (ge_entries g)"
  have "distinct (roomIDsFromEntries ?next)"
    using assms(1) by (auto simp: without_def group_ok_def intro: room_ids_filter_distinct)
  moreover have "se_kind item = ENTRY_ROOM \<Longrightarrow> se_id item \<notin> set (roomIDsFromEntries ?next)"
    using assms(2) by (metis room_entry_iff set_room_ids)
  moreover have "room_entry_of [] \<notin> set (insert_at n item ?next)"
    using assms(1,3) key_kind [OF assms(3)] unfolding group_ok_def
    by (auto simp: without_def set_room_ids [symmetric] room_entry_iff split: if_splits)
      (auto simp: set_room_ids)
  ultimately show ?thesis by (auto simp: distinct_room_ids_insert set_room_ids)
qed

lemma fold_switch_ok:
  "fmpred group_slot_ok gs \<Longrightarrow> \<forall>e \<in> set evs. group_event_covered e \<Longrightarrow>
     fmpred group_slot_ok (fold group_switch evs gs)"
  by (induction evs arbitrary: gs) (auto simp: group_switch_ok)

lemma set_removeEntry: "set (removeEntry (se_kind item) (se_id item) es) = set es - {item :: sidebar_entry}"
  by (auto simp: removeEntry_def entry_eq_iff)

text \<open>The events a placement appends, by the group the item comes from.\<close>

definition placement_events ::
  "string \<Rightarrow> group_entry \<Rightarrow> string \<Rightarrow> sidebar_entry \<Rightarrow> sidebar_entry list \<Rightarrow> bool \<Rightarrow> group_event list" where
  "placement_events s sg target item es' changed =
     (if s = target then (if changed then [SidebarGroupEntriesReordered target es'] else [])
      else if se_kind item = ENTRY_ROOM
      then [RoomRemovedFromGroup s (se_id item), RoomAddedToGroup target (se_id item),
            SidebarGroupEntriesReordered target es']
      else [SidebarLinkRemovedFromGroup s (se_id item),
            SidebarLinkAddedToGroup target (se_id item)
              (sl_label (the (fmlookup (ge_links sg) (se_id item))))
              (sl_url (the (fmlookup (ge_links sg) (se_id item)))),
            SidebarGroupEntriesReordered target es'])"

lemma plan_cases:
  assumes "fmpred group_slot_ok (rg_groups p)" and "planSidebarPlacement p item target before = Inr evs"
  shows "\<exists>s sg tg es' changed. sidebarEntryKey item \<noteq> []
     \<and> fmlookup (rg_groups p) target = Some tg \<and> group_ok tg
     \<and> fmlookup (rg_groups p) s = Some sg \<and> group_ok sg \<and> item \<in> set (ge_entries sg)
     \<and> placeSidebarEntryBefore (ge_entries tg) item before (s = target) = Inr (es', changed)
     \<and> evs = placement_events s sg target item es' changed"
proof -
  let ?snap = "PlacementSnapshot p (Some item) target"
  let ?P = "\<lambda>g. list_ex (\<lambda>e. se_kind e = se_kind item \<and> se_id e = se_id item) (ge_entries g)"
  have key: "sidebarEntryKey item \<noteq> []"
    using assms(2) by (auto simp: planSidebarPlacement_def)
  then have id: "se_id item \<noteq> []" by (simp add: key_kind)
  obtain tgm where tgm: "ps_target_group ?snap = Some tgm"
    using assms(2) by (auto simp: planSidebarPlacement_def Let_def split: if_splits option.splits)
  have "ps_source_group ?snap \<noteq> None"
    using assms(2) by (auto simp: planSidebarPlacement_def Let_def split: if_splits option.splits)
  then obtain s where s: "find_group ?P p = Some s"
    using id by (cases "find_group ?P p") (auto simp: PlacementSnapshot_def)
  have target: "ps_target_group ?snap = Groups_Get p target"
    using id s by (simp add: PlacementSnapshot_def Let_def)
  have snap: "ps_source ?snap = s"
    "ps_link ?snap = (if se_kind item = ENTRY_LINK
       then Option.bind (fmlookup (rg_groups p) s) (\<lambda>g. fmlookup (ge_links g) (se_id item)) else None)"
    using id s by (simp_all add: PlacementSnapshot_def Let_def)
  from tgm target obtain tg where tg: "fmlookup (rg_groups p) target = Some tg" "tgm = entryToGroup target tg"
    by (auto simp: Groups_Get_def)
  from s obtain sg where sg: "fmlookup (rg_groups p) s = Some sg" "?P sg"
    by (auto simp: find_group_def find_Some_iff split: option.splits)
  have ok: "group_slot_ok target tg" "group_slot_ok s sg"
    using assms(1) tg(1) sg(1) by (auto dest: fmpredD)
  have item: "item \<in> set (ge_entries sg)"
    using sg(2) by (auto simp: list_ex_iff entry_eq_iff)
  have entries: "gm_entries tgm = ge_entries tg"
    using ok(1) by (simp add: tg(2) entryToGroup_def cloned_ok group_slot_ok_def)
  have "(case placeSidebarEntryBefore (ge_entries tg) item before (ps_source ?snap = target) of
      Inl e \<Rightarrow> Inl e
    | Inr (targetEntries, changed) \<Rightarrow>
        if ps_source ?snap = target
        then Inr (if changed then [SidebarGroupEntriesReordered target targetEntries] else [])
        else sidebarItemMoveEvents ?snap item target targetEntries) = Inr evs"
    using assms(2) key \<open>ps_source_group ?snap \<noteq> None\<close>
    by (auto simp: planSidebarPlacement_def Let_def tgm entries split: if_splits)
  note plan = this [unfolded snap(1)]
  from plan obtain es' changed where place: "placeSidebarEntryBefore (ge_entries tg) item before (s = target) = Inr (es', changed)"
    by (auto split: sum.splits)
  have link: "sl_id l = se_id item" if "fmlookup (ge_links sg) (se_id item) = Some l" for l
    using that ok(2) by (auto simp: group_slot_ok_def group_ok_def link_ok_def dest: fmpredD)
  have evs: "evs = placement_events s sg target item es' changed"
    using plan place key_kind [OF key] link
    by (auto simp: sidebarItemMoveEvents_def Let_def snap sg(1) placement_events_def split: if_splits option.splits)
  have "group_ok tg" "group_ok sg" using ok by (simp_all add: group_slot_ok_def)
  show ?thesis
    by (intro exI [of _ s] exI [of _ sg] exI [of _ tg] exI [of _ es'] exI [of _ changed] conjI; fact)
qed

lemma moved_same_group:
  assumes "items_exclusive gs" and "fmlookup gs target = Some tg" and "item \<in> set (ge_entries tg)"
    and "sidebarEntryKey item \<noteq> []" and "set es' = set (ge_entries tg)"
  shows "item_moved item target gs (group_switch (SidebarGroupEntriesReordered target es') gs)"
proof -
  have only: "i = target" if "fmlookup gs i = Some g" "item \<in> set (ge_entries g)" for i g
    using assms(1-4) that unfolding items_exclusive_def by blast
  have "e \<in> set (ge_entries g') \<longleftrightarrow> (if e = item then i = target else e \<in> set (ge_entries g))"
    if g: "fmlookup gs i = Some g"
      and g': "fmlookup (group_switch (SidebarGroupEntriesReordered target es') gs) i = Some g'" for i g g' e
  proof (cases "i = target")
    case True
    then have "g = tg" "ge_entries g' = es'" using g g' assms(2) by auto
    then show ?thesis using True assms(3,5) by (cases "e = item") simp_all
  next
    case False
    then have "g' = g" using g g' by simp
    then show ?thesis using False only [OF g] by (cases "e = item") auto
  qed
  then show ?thesis unfolding item_moved_def by simp
qed

lemma moved_across:
  assumes "items_exclusive gs" and "fmlookup gs target = Some tg" and "fmlookup gs s = Some sg"
    and "item \<in> set (ge_entries sg)" and "s \<noteq> target" and "sidebarEntryKey item \<noteq> []"
    and "set es' = insert item (set (ge_entries tg))"
    and "\<And>g. set (ge_entries (f g)) = set (ge_entries g) - {item}"
  shows "item_moved item target gs
     (group_switch (SidebarGroupEntriesReordered target es') (update_group target h (update_group s f gs)))"
proof -
  have only: "i = s" if "fmlookup gs i = Some g" "item \<in> set (ge_entries g)" for i g
    using assms(1,3,4,6) that unfolding items_exclusive_def by blast
  let ?new = "group_switch (SidebarGroupEntriesReordered target es') (update_group target h (update_group s f gs))"
  have "e \<in> set (ge_entries g') \<longleftrightarrow> (if e = item then i = target else e \<in> set (ge_entries g))"
    if g: "fmlookup gs i = Some g" and g': "fmlookup ?new i = Some g'" for i g g' e
  proof (cases "i = target \<or> i = s")
    case True
    then show ?thesis using g g' assms(2,3,5,7,8) by auto
  next
    case False
    then show ?thesis using g g' only [OF g] by auto
  qed
  then show ?thesis unfolding item_moved_def by simp
qed

lemma placed_item_fresh:
  assumes "items_exclusive gs" and "fmlookup gs target = Some tg" and "fmlookup gs s = Some sg"
    and "item \<in> set (ge_entries sg)" and "sidebarEntryKey item \<noteq> []"
  shows "item \<notin> set (without (s = target) item (ge_entries tg))"
proof (cases "s = target")
  case False
  then have "item \<notin> set (ge_entries tg)"
    using assms unfolding items_exclusive_def by blast
  then show ?thesis using False by (simp add: without_def)
qed (simp add: without_def)

lemma placement_events_move:
  assumes excl: "items_exclusive gs" and tg: "fmlookup gs target = Some tg" and sg: "fmlookup gs s = Some sg"
    and item: "item \<in> set (ge_entries sg)" and key: "sidebarEntryKey item \<noteq> []"
    and es': "es' = insert_at n item (without (s = target) item (ge_entries tg))"
  shows "item_moved item target gs (fold group_switch (placement_events s sg target item es' changed) gs)"
proof (cases "s = target")
  case True
  then have item': "item \<in> set (ge_entries tg)" using item sg tg by simp
  then have same: "set es' = set (ge_entries tg)"
    using True by (auto simp: es' without_def key_inject [OF key] dest: sym)
  have "item_moved item target gs gs"
    using excl tg item' key unfolding items_exclusive_def item_moved_def by (metis option.inject)
  then show ?thesis
    using moved_same_group [OF excl tg item' key same] True by (simp add: placement_events_def)
next
  case False
  then have es'_set: "set es' = insert item (set (ge_entries tg))" by (simp add: es' without_def)
  have kind: "se_kind item = ENTRY_ROOM \<or> se_kind item = ENTRY_LINK" using key_kind [OF key] by auto
  have sets: "set (ge_entries (remove_room (se_id item) g)) = set (ge_entries g) - {item}"
    if "se_kind item = ENTRY_ROOM" for g
    using set_removeEntry [of item] that by (simp add: remove_room_def)
  have setl: "set (ge_entries (remove_link (se_id item) g)) = set (ge_entries g) - {item}"
    if "se_kind item = ENTRY_LINK" for g
    using set_removeEntry [of item] that by (simp add: remove_link_def)
  note across = moved_across [OF excl tg sg item False key es'_set]
  show ?thesis using kind across [OF sets] across [OF setl] False by (auto simp: placement_events_def)
qed

lemma placement_events_target:
  assumes "fmlookup gs target = Some tg" and "fmlookup gs s = Some sg"
    and "changed = (map sidebarEntryKey (ge_entries tg) \<noteq> map sidebarEntryKey es')"
    and "placed_before item before es'"
  shows "\<exists>g. fmlookup (fold group_switch (placement_events s sg target item es' changed) gs) target = Some g
     \<and> placed_before item before (ge_entries g)"
proof -
  have "\<exists>g. fmlookup (fold group_switch (placement_events s sg target item es' changed) gs) target = Some g
      \<and> map sidebarEntryKey (ge_entries g) = map sidebarEntryKey es'"
    using assms(1-3) by (auto simp: placement_events_def)
  then show ?thesis using assms(4) unfolding placed_before_def by metis
qed


definition placement_sample :: room_groups where
  "placement_sample =
     \<lparr>rg_groups = fmupd ''G1'' (add_room ''A'' new_group) (fmupd ''G2'' (add_room ''B'' new_group) fmempty),
      rg_seq = 1\<rparr>"

lemma sample_keys: "sortedMapKeys (rg_groups placement_sample) = [''G1'', ''G2'']"
proof -
  have "fmdom (rg_groups placement_sample) = fset_of_list [''G1'', ''G2'']"
    by (auto simp: placement_sample_def)
  then show ?thesis
    by (simp add: sortedMapKeys_def sorted_list_of_fset.rep_eq fset_of_list.rep_eq)
qed


section \<open>The ordered listing\<close>

lemma docs_lookup:
  "fmlookup (fold (\<lambda>g m. fmupd (gm_id g) g m) (Groups_All p) fmempty) i
     = map_option (entryToGroup i) (fmlookup (rg_groups p) i)"
proof -
  have "fold (\<lambda>g m. fmupd (gm_id g) g m) (Groups_All p) fmempty
      = fold (\<lambda>k. fmupd k (entryToGroup k (the (fmlookup (rg_groups p) k)))) (sortedMapKeys (rg_groups p)) fmempty"
    by (simp add: Groups_All_def fold_map comp_def entryToGroup_def)
  then show ?thesis
    by (auto simp: fmlookup_fold_upd fmlookup_dom_iff intro: fmdom_notD)
qed

lemma ordered_loop_eq:
  assumes "\<And>i g. fmlookup docs i = Some g \<Longrightarrow> gm_id g = i"
  shows "ordered_loop docs order used (map (\<lambda>i. the (fmlookup docs i)) (rev used)) =
    (let u = fold List.insert (filter (\<lambda>i. fmlookup docs i \<noteq> None) order) used
     in (u, map (\<lambda>i. the (fmlookup docs i)) (rev u)))"
proof (induction order arbitrary: used)
  case Nil
  then show ?case by (simp add: Let_def)
next
  case (Cons i order)
  show ?case
  proof (cases "i \<in> set used \<or> fmlookup docs i = None")
    case True
    then show ?thesis using Cons.IH [of used] by (auto split: option.split)
  next
    case False
    then obtain g where g: "fmlookup docs i = Some g" "i \<notin> set used" by auto
    then show ?thesis using Cons.IH [of "i # used"] by (simp add: List.insert_def)
  qed
qed

lemma set_fold_insert: "set (fold List.insert xs us) = set xs \<union> set us"
  by (induction xs arbitrary: us) auto

lemma distinct_fold_insert: "distinct us \<Longrightarrow> distinct (fold List.insert xs us)"
  by (induction xs arbitrary: us) auto

text \<open>The sidebar lists every existing group exactly once: first those the
  layout names, each at its first mention, then the others by identifier; identifiers
  of deleted groups and repeated mentions in the layout have no effect.\<close>

theorem ordered_listing_complete:
  "(let ids = map gm_id (ListRoomGroupsOrdered p True);
        named = filter (Groups_Exists (gl_groups p)) (gl_layout p)
    in ids = rev (fold List.insert named [])
             @ filter (\<lambda>i. i \<notin> set (gl_layout p)) (sortedMapKeys (rg_groups (gl_groups p)))
       \<and> distinct ids \<and> set ids = fset (fmdom (rg_groups (gl_groups p)))
       \<and> ListRoomGroupsOrdered p True = map (\<lambda>i. the (Groups_Get (gl_groups p) i)) ids)"
proof -
  let ?gs = "rg_groups (gl_groups p)"
  let ?docs = "fold (\<lambda>g m. fmupd (gm_id g) g m) (Groups_All (gl_groups p)) fmempty"
  let ?named = "filter (Groups_Exists (gl_groups p)) (gl_layout p)"
  let ?u = "fold List.insert ?named []"
  let ?rest = "filter (\<lambda>i. i \<notin> set (gl_layout p)) (sortedMapKeys ?gs)"
  have docs: "fmlookup ?docs i = Groups_Get (gl_groups p) i" for i
    by (simp add: docs_lookup Groups_Get_def)
  have dom: "fmdom ?docs = fmdom ?gs"
    by (rule fset_eqI) (simp add: fmlookup_dom_iff docs_lookup)
  have id: "gm_id g = i" if "fmlookup ?docs i = Some g" for i g
    using that by (auto simp: docs_lookup entryToGroup_def)
  have named: "filter (\<lambda>i. fmlookup ?docs i \<noteq> None) (gl_layout p) = ?named"
    by (rule filter_cong) (auto simp: docs_lookup Groups_Exists_def)
  have set_u: "set ?u = set (gl_layout p) \<inter> fset (fmdom ?gs)"
    by (auto simp: set_fold_insert Groups_Exists_def fmlookup_dom_iff)
  have rest: "filter (\<lambda>i. i \<notin> set ?u) (sortedMapKeys ?docs) = ?rest"
    unfolding sortedMapKeys_def dom by (rule filter_cong) (auto simp: set_u)
  have loop: "ordered_loop ?docs (gl_layout p) [] [] = (?u, map (\<lambda>i. the (fmlookup ?docs i)) (rev ?u))"
    using ordered_loop_eq [of ?docs "gl_layout p" "[]", OF id] unfolding named Let_def
    by (simp only: rev.simps list.map)
  have result: "ListRoomGroupsOrdered p True = map (\<lambda>i. the (fmlookup ?docs i)) (rev ?u @ ?rest)"
    by (simp only: ListRoomGroupsOrdered_def Let_def loop rest prod.case map_append if_False simp_thms)
  have ids: "map gm_id (ListRoomGroupsOrdered p True) = rev ?u @ ?rest"
  proof -
    have "gm_id (the (fmlookup ?docs i)) = i" if "i \<in> set (rev ?u @ ?rest)" for i
    proof -
      have "i |\<in>| fmdom ?docs" using that set_u dom by auto
      then show ?thesis using id by (auto simp: fmlookup_dom_iff)
    qed
    then show ?thesis unfolding result by (simp only: map_map comp_def) (rule map_idI)
  qed
  have "distinct (rev ?u @ ?rest)" by (auto simp: distinct_fold_insert set_u)
  moreover have "set (rev ?u @ ?rest) = fset (fmdom ?gs)" by (auto simp: set_u)
  ultimately show ?thesis using ids result by (simp add: Let_def docs)
qed

section \<open>Permutation check of a reorder\<close>

definition key_count :: "key_counts \<Rightarrow> string \<Rightarrow> int" where
  "key_count m k = (case fmlookup m k of None \<Rightarrow> 0 | Some c \<Rightarrow> c)"

lemma key_count_bump [simp]: "key_count (bump_key d k m) j = key_count m j + (if j = k then d else 0)"
  by (simp add: key_count_def bump_key_def)

lemma count_entries_Some:
  "count_entries es m = Some m' \<Longrightarrow> (\<forall>e \<in> set es. sidebarEntryKey e \<noteq> [])
     \<and> (\<forall>k. key_count m' k = key_count m k + int (count (mset (map sidebarEntryKey es)) k))"
  by (induction es arbitrary: m) (auto split: if_splits)

lemma count_entries_ok: "\<forall>e \<in> set es. sidebarEntryKey e \<noteq> [] \<Longrightarrow> \<exists>m'. count_entries es m = Some m'"
  by (induction es arbitrary: m) auto

lemma uncount_entries_Some:
  "uncount_entries es m = Some m' \<Longrightarrow> (\<forall>e \<in> set es. sidebarEntryKey e \<noteq> [])
     \<and> (\<forall>k. key_count m' k = key_count m k - int (count (mset (map sidebarEntryKey es)) k))"
  by (induction es arbitrary: m) (auto simp: Let_def split: if_splits)

lemma uncount_entries_ok:
  assumes "\<forall>e \<in> set es. sidebarEntryKey e \<noteq> []"
    and "\<forall>k. int (count (mset (map sidebarEntryKey es)) k) \<le> key_count m k"
  shows "\<exists>m'. uncount_entries es m = Some m'"
  using assms
proof (induction es arbitrary: m)
  case Nil
  then show ?case by simp
next
  case (Cons e es)
  let ?m = "bump_key (- 1) (sidebarEntryKey e) m"
  have le: "int (count (mset (map sidebarEntryKey es)) k) \<le> key_count ?m k" for k
    using Cons.prems(2) [rule_format, of k] by (auto split: if_splits)
  then have "0 \<le> key_count ?m (sidebarEntryKey e)"
    by (meson dual_order.trans of_nat_0_le_iff)
  then have "\<not> (case fmlookup ?m (sidebarEntryKey e) of None \<Rightarrow> 0 | Some c \<Rightarrow> c) < 0"
    by (simp add: key_count_def)
  then show ?case using Cons le by (simp add: Let_def)
qed

lemma all_zero: "fmpred (\<lambda>_ c. c = 0) m \<longleftrightarrow> (\<forall>k. key_count m k = 0)"
proof -
  have "(\<forall>k c. fmlookup m k = Some c \<longrightarrow> c = 0) \<longleftrightarrow> (\<forall>k. key_count m k = 0)"
    by (auto simp: key_count_def split: option.splits)
  then show ?thesis by (simp add: fmpred_iff)
qed

lemma key_mset_eq:
  assumes "\<forall>e \<in> set xs. sidebarEntryKey e \<noteq> []"
  shows "mset (map sidebarEntryKey xs) = mset (map sidebarEntryKey ys) \<longleftrightarrow> mset xs = mset ys"
proof
  assume eq: "mset (map sidebarEntryKey xs) = mset (map sidebarEntryKey ys)"
  have inv: "inv_into (set xs) sidebarEntryKey (sidebarEntryKey e) = e" if "e \<in> set xs" for e
    using that assms key_inject by (intro inv_into_f_f) (auto simp: inj_on_def)
  have "e \<in> set xs" if "e \<in> set ys" for e
  proof -
    have "sidebarEntryKey e \<in> set (map sidebarEntryKey xs)" using eq that by (metis image_eqI list.set_map mset_eq_setD)
    then obtain x where "x \<in> set xs" "sidebarEntryKey e = sidebarEntryKey x" by auto
    then show ?thesis using assms key_inject by metis
  qed
  then have ys: "map (\<lambda>e. inv_into (set xs) sidebarEntryKey (sidebarEntryKey e)) ys = ys"
    using inv by (intro map_idI) auto
  have xs: "map (\<lambda>e. inv_into (set xs) sidebarEntryKey (sidebarEntryKey e)) xs = xs"
    using inv by (intro map_idI) auto
  have "image_mset (inv_into (set xs) sidebarEntryKey) (mset (map sidebarEntryKey xs))
      = image_mset (inv_into (set xs) sidebarEntryKey) (mset (map sidebarEntryKey ys))"
    by (simp only: eq)
  then show "mset xs = mset ys"
    using xs ys by (simp add: mset_map [symmetric] comp_def del: mset_map)
qed (simp add: mset_map)

text \<open>The counting check that a sidebar reorder runs before it appends
  accepts exactly the permutations of the present entries, and only when all of them
  are well-formed rooms or links.\<close>

theorem reorder_check_exact:
  "sameSidebarEntrySet current next \<longleftrightarrow>
     mset next = mset current \<and> (\<forall>e \<in> set current. sidebarEntryKey e \<noteq> [])"
proof
  assume same: "sameSidebarEntrySet current next"
  then obtain m m' where m: "count_entries current fmempty = Some m" "uncount_entries next m = Some m'"
    and zero: "fmpred (\<lambda>_ c. c = 0) m'"
    by (auto simp: sameSidebarEntrySet_def split: option.splits if_splits)
  note c = count_entries_Some [OF m(1)] uncount_entries_Some [OF m(2)]
  have "count (mset (map sidebarEntryKey current)) k = count (mset (map sidebarEntryKey next)) k" for k
  proof -
    have "key_count m' k = 0" using zero by (simp add: all_zero)
    then show ?thesis using c by (simp add: key_count_def)
  qed
  then have "mset (map sidebarEntryKey current) = mset (map sidebarEntryKey next)" by (rule multiset_eqI)
  then show "mset next = mset current \<and> (\<forall>e \<in> set current. sidebarEntryKey e \<noteq> [])"
    using c(1) key_mset_eq [of current "next"] by simp
next
  assume perm: "mset next = mset current \<and> (\<forall>e \<in> set current. sidebarEntryKey e \<noteq> [])"
  then have keys: "\<forall>e \<in> set next. sidebarEntryKey e \<noteq> []" "length next = length current"
    "mset (map sidebarEntryKey next) = mset (map sidebarEntryKey current)"
    by (auto dest: mset_eq_setD mset_eq_length simp: mset_map)
  obtain m where m: "count_entries current fmempty = Some m" using count_entries_ok perm by blast
  have km: "key_count m k = int (count (mset (map sidebarEntryKey current)) k)" for k
    using count_entries_Some [OF m] by (simp add: key_count_def)
  obtain m' where m': "uncount_entries next m = Some m'"
    using uncount_entries_ok [OF keys(1), of m] km keys(3) by auto
  have "key_count m' k = 0" for k
    using uncount_entries_Some [OF m'] km keys(3) by simp
  then show "sameSidebarEntrySet current next"
    using m m' keys(2) by (simp add: sameSidebarEntrySet_def all_zero)
qed

lemma reorder_check_exact_witness:
  "sameSidebarEntrySet [room_entry_of ''A'', link_entry_of ''L''] [link_entry_of ''L'', room_entry_of ''A'']"
  using reorder_check_exact by (simp add: sidebarEntryKey_def)

section \<open>The group of a room\<close>

text \<open>The group that permission checks read for a room is the group that
  lists it, and it is empty exactly when none does; with items exclusive to one group
  the answer does not depend on the order in which the map of groups is scanned.\<close>

theorem group_for_room_exact:
  assumes "fmpred group_slot_ok (rg_groups p)" and "items_exclusive (rg_groups p)" and "r \<noteq> []"
  shows "GroupForRoom p r = i \<longleftrightarrow>
     (if i = [] then \<forall>j g. fmlookup (rg_groups p) j = Some g \<longrightarrow> r \<notin> set (ge_roomIDs g)
      else \<exists>g. fmlookup (rg_groups p) i = Some g \<and> r \<in> set (ge_roomIDs g))"
proof -
  let ?P = "\<lambda>g. r \<in> set (ge_roomIDs g)"
  have slot: "j \<noteq> [] \<and> (?P g \<longleftrightarrow> room_entry_of r \<in> set (ge_entries g))"
    if "fmlookup (rg_groups p) j = Some g" for j g
    using fmpredD [OF assms(1) that] set_room_ids [of r "ge_entries g"] by (auto simp: group_slot_ok_def group_ok_def)
  have key: "sidebarEntryKey (room_entry_of r) \<noteq> []" using assms(3) by (simp add: sidebarEntryKey_def)
  have unique: "j = k" if "fmlookup (rg_groups p) j = Some g" "?P g" "fmlookup (rg_groups p) k = Some h" "?P h" for j k g h
    using assms(2) key that slot unfolding items_exclusive_def by blast
  show ?thesis
  proof (cases "find_group ?P p")
    case None
    then have "\<not> ?P g" if "fmlookup (rg_groups p) j = Some g" for j g
      using that fmdomI [OF that] by (force simp: find_group_def find_None_iff)
    then show ?thesis using None slot by (auto simp: GroupForRoom_def MoveSnapshot_def)
  next
    case (Some s)
    then obtain g where g: "fmlookup (rg_groups p) s = Some g" "?P g"
      by (auto simp: find_group_def find_Some_iff split: option.splits)
    then have "s \<noteq> []" using slot by blast
    moreover have "GroupForRoom p r = s" using Some by (simp add: GroupForRoom_def MoveSnapshot_def)
    ultimately show ?thesis using g unique by auto
  qed
qed

lemma group_for_room_exact_witness: "GroupForRoom NewRoomGroupProjection ''R1'' = []"
  using group_for_room_exact [of NewRoomGroupProjection "''R1''" "[]"]
  by (simp add: NewRoomGroupProjection_def items_exclusive_def)

end
