(* ===== verification/Room_Groups_Snapshot.thy ===== *)
theory Room_Groups_Snapshot
  imports Room_Groups_Properties
begin

text \<open>
  The snapshot of the sidebar projection
  (\<open>room_group_layout_projection_snapshot.go\<close>) and its round trip.
\<close>

section \<open>The message\<close>

record link_snapshot =
  ls_id :: string
  ls_label :: string
  ls_url :: string

record group_snapshot =
  gs_id :: string
  gs_name :: string
  gs_description :: string
  gs_room_ids :: "string list"
  gs_entries :: "sidebar_entry list"
  gs_links :: "link_snapshot list"

record layout_snapshot =
  lay_sequence :: seq
  lay_groups :: "group_snapshot list"
  lay_group_ids :: "string list"

definition empty_layout_snapshot :: layout_snapshot where
  "empty_layout_snapshot = \<lparr>lay_sequence = 0, lay_groups = [], lay_group_ids = []\<rparr>"

section \<open>Writing\<close>

definition snapshotSidebarLink :: "sidebar_link \<Rightarrow> link_snapshot" where
  "snapshotSidebarLink l = \<lparr>ls_id = sl_id l, ls_label = sl_label l, ls_url = sl_url l\<rparr>"

definition restoreSidebarLink :: "link_snapshot \<Rightarrow> sidebar_link" where
  "restoreSidebarLink l = \<lparr>sl_id = ls_id l, sl_label = ls_label l, sl_url = ls_url l\<rparr>"

definition snapshotSidebarLinks :: "group_entry \<Rightarrow> link_snapshot list" where
  "snapshotSidebarLinks g =
     map (\<lambda>i. snapshotSidebarLink (the (fmlookup (ge_links g) i))) (sortedMapKeys (ge_links g))"

definition group_row :: "string \<Rightarrow> group_entry \<Rightarrow> group_snapshot" where
  "group_row i g =
     \<lparr>gs_id = i, gs_name = ge_name g, gs_description = ge_description g,
      gs_room_ids = ge_roomIDs g, gs_entries = clonedEntries g, gs_links = snapshotSidebarLinks g\<rparr>"

definition layout_snapshot_message :: "group_layout \<Rightarrow> layout_snapshot" where
  "layout_snapshot_message p =
     \<lparr>lay_sequence = rg_seq (gl_groups p),
      lay_groups = map (\<lambda>i. group_row i (the (fmlookup (rg_groups (gl_groups p)) i)))
        (sortedMapKeys (rg_groups (gl_groups p))),
      lay_group_ids = gl_layout p\<rparr>"

definition GroupLayout_Snapshot_bytes ::
  "(layout_snapshot \<Rightarrow> 8 word list option) \<Rightarrow> group_layout \<Rightarrow> 8 word list option" where
  "GroupLayout_Snapshot_bytes marshal p = marshal (layout_snapshot_message p)"

section \<open>Reading\<close>

datatype layout_restore_error =
  EmptyGroupID
| RepeatedGroup string
| EmptyLinkID string
| RepeatedLink string
| EmptyLayoutGroup
| RepeatedLayoutGroup string

definition restore_link_row ::
  "string \<Rightarrow> link_snapshot \<Rightarrow> (string, sidebar_link) fmap \<Rightarrow> layout_restore_error + (string, sidebar_link) fmap" where
  "restore_link_row gid l m =
     (if ls_id l = [] then Inl (EmptyLinkID gid)
      else if fmlookup m (ls_id l) \<noteq> None then Inl (RepeatedLink (ls_id l))
      else Inr (fmupd (ls_id l) (restoreSidebarLink l) m))"

definition restore_group_row ::
  "group_snapshot \<Rightarrow> (string, group_entry) fmap \<Rightarrow> layout_restore_error + (string, group_entry) fmap" where
  "restore_group_row row m =
     (if gs_id row = [] then Inl EmptyGroupID
      else if fmlookup m (gs_id row) \<noteq> None then Inl (RepeatedGroup (gs_id row))
      else case fold_res (restore_link_row (gs_id row)) (gs_links row) fmempty of
             Inl e \<Rightarrow> Inl e
           | Inr links \<Rightarrow>
               Inr (fmupd (gs_id row)
                 \<lparr>ge_name = gs_name row, ge_description = gs_description row,
                  ge_roomIDs = gs_room_ids row, ge_entries = gs_entries row, ge_links = links\<rparr> m))"

definition check_layout_id :: "string \<Rightarrow> string fset \<Rightarrow> layout_restore_error + string fset" where
  "check_layout_id i seen =
     (if i = [] then Inl EmptyLayoutGroup
      else if i |\<in>| seen then Inl (RepeatedLayoutGroup i)
      else Inr (finsert i seen))"

definition restore_layout_message :: "layout_snapshot \<Rightarrow> layout_restore_error + group_layout" where
  "restore_layout_message s =
     (case fold_res restore_group_row (lay_groups s) fmempty of
        Inl e \<Rightarrow> Inl e
      | Inr gs \<Rightarrow>
          (case fold_res check_layout_id (lay_group_ids s) {||} of
             Inl e \<Rightarrow> Inl e
           | Inr _ \<Rightarrow>
               Inr \<lparr>gl_groups = \<lparr>rg_groups = gs, rg_seq = lay_sequence s\<rparr>, gl_layout = lay_group_ids s\<rparr>))"

definition GroupLayout_Restore ::
  "(8 word list \<Rightarrow> layout_snapshot option) \<Rightarrow> 8 word list \<Rightarrow> group_layout \<Rightarrow> bool \<times> group_layout" where
  "GroupLayout_Restore unmarshal data p =
     (case (if data = [] then Some empty_layout_snapshot else unmarshal data) of
        None \<Rightarrow> (False, p)
      | Some s \<Rightarrow> (case restore_layout_message s of Inl _ \<Rightarrow> (False, p) | Inr q \<Rightarrow> (True, q)))"

section \<open>The round trip\<close>

lemma restore_link [simp]: "restoreSidebarLink (snapshotSidebarLink l) = l" "ls_id (snapshotSidebarLink l) = sl_id l"
  by (cases l, simp add: restoreSidebarLink_def snapshotSidebarLink_def) (simp add: snapshotSidebarLink_def)

lemma restore_links:
  assumes "fmpred link_ok m"
  shows "fold_res (restore_link_row gid)
     (map (\<lambda>i. snapshotSidebarLink (the (fmlookup m i))) (sortedMapKeys m)) fmempty = Inr m"
proof (rule fold_res_rebuild)
  fix i l and a :: "(string, sidebar_link) fmap"
  assume l: "fmlookup m i = Some l" and a: "fmlookup a i = None"
  from fmpredD [OF assms l] show "restore_link_row gid (snapshotSidebarLink (the (fmlookup m i))) a = Inr (fmupd i l a)"
    using l a by (simp add: restore_link_row_def link_ok_def)
qed

lemma restore_groups:
  assumes "fmpred group_slot_ok gs"
  shows "fold_res restore_group_row (map (\<lambda>i. group_row i (the (fmlookup gs i))) (sortedMapKeys gs)) fmempty = Inr gs"
proof (rule fold_res_rebuild)
  fix i g and a :: "(string, group_entry) fmap"
  assume g: "fmlookup gs i = Some g" and a: "fmlookup a i = None"
  from fmpredD [OF assms g] have ok: "i \<noteq> []" "group_ok g" by (auto simp: group_slot_ok_def)
  then have "fold_res (restore_link_row i) (snapshotSidebarLinks g) fmempty = Inr (ge_links g)"
    by (simp add: snapshotSidebarLinks_def restore_links group_ok_def)
  then show "restore_group_row (group_row i (the (fmlookup gs i))) a = Inr (fmupd i g a)"
    using g a ok by (cases g) (simp add: restore_group_row_def group_row_def cloned_ok)
qed

lemma check_layout_ok:
  "distinct ids \<Longrightarrow> [] \<notin> set ids \<Longrightarrow> set ids \<inter> fset seen = {} \<Longrightarrow>
     \<exists>s. fold_res check_layout_id ids seen = Inr s"
  by (induction ids arbitrary: seen) (auto simp: check_layout_id_def)

lemma restore_layout:
  assumes "group_layout_wf p"
  shows "restore_layout_message (layout_snapshot_message p) = Inr p"
proof -
  obtain s where "fold_res check_layout_id (gl_layout p) {||} = Inr s"
    using check_layout_ok [of "gl_layout p" "{||}"] assms by (auto simp: group_layout_wf_def)
  then show ?thesis
    using assms by (simp add: restore_layout_message_def layout_snapshot_message_def group_layout_wf_def restore_groups)
qed

interpretation sidebar: snapshot_component group_step layout_snapshot_message restore_layout_message
  group_layout_wf group_record_covered
  by unfold_locales (auto intro: group_step_wf restore_layout)

text \<open>The sidebar restored from the bytes of its snapshot is the one that
  was captured: groups with their rooms, entries and links, and the order of the groups,
  after any log the commands append.\<close>

theorem sidebar_snapshot_restores_state:
  assumes "proto_codec empty_layout_snapshot marshal unmarshal"
    and "\<forall>rec \<in> set log. group_record_covered rec"
    and "GroupLayout_Snapshot_bytes marshal (fold group_step log NewRoomGroupLayoutProjection) = Some data"
  shows "GroupLayout_Restore unmarshal data fresh = (True, fold group_step log NewRoomGroupLayoutProjection)"
proof -
  have r: "restore_layout_message (layout_snapshot_message (fold group_step log NewRoomGroupLayoutProjection))
      = Inr (fold group_step log NewRoomGroupLayoutProjection)"
    using sidebar.restart [OF group_layout_wf_new assms(2)] .
  have "(if data = [] then Some empty_layout_snapshot else unmarshal data)
      = Some (layout_snapshot_message (fold group_step log NewRoomGroupLayoutProjection))"
    using assms(1,3) by (auto simp: proto_codec_def GroupLayout_Snapshot_bytes_def)
  then show ?thesis by (simp add: GroupLayout_Restore_def r)
qed

definition sidebar_sample :: group_layout where
  "sidebar_sample = fold group_step [group_sample (RoomGroupCreated ''G1'' ''Lobby'' '''')] NewRoomGroupLayoutProjection"

lemma sidebar_snapshot_restores_state_witness:
  "GroupLayout_Restore
     (\<lambda>d. if d = [] then Some empty_layout_snapshot
          else if d = [7] then Some (layout_snapshot_message sidebar_sample) else None)
     [7] NewRoomGroupLayoutProjection = (True, sidebar_sample)"
  unfolding sidebar_sample_def
  by (rule sidebar_snapshot_restores_state
      [where marshal = "\<lambda>m. if m = layout_snapshot_message sidebar_sample then Some [7] else None"])
    (auto simp: proto_codec_def group_record_covered_def group_sample_def GroupLayout_Snapshot_bytes_def sidebar_sample_def)

end
