(* ===== verification/User_Accounts.thy ===== *)
theory User_Accounts
  imports Projection_Contract
begin

text \<open>
  The account projection (\<open>user_projection.go\<close>): the lifecycle of human and bot
  accounts, the lookup indexes for logins, verified e-mails, public avatars and
  the bots of an owner, and the wrapped data-encryption keys. Profile fields stay
  encrypted in the state; a login or e-mail is decrypted only while its event is
  applied, to derive the digest that indexes it.

  The key service and the ciphers are parameters (record \<open>crypto\<close>): the digest of
  a lookup value, the resolution of a wrapped key (\<open>unwrappedDEKResolver\<close>, which
  asks the KMS) and the AEAD. The credential projection that shares the event
  stream is fed by its own projector (\<open>authExternal\<close>, the wiring of the server).
\<close>

section \<open>Events\<close>

record encrypted_string =
  es_value :: string
  es_nonce :: string
  es_epoch :: i32

record dek_generated =
  dg_user_id :: string
  dg_purpose :: int
  dg_epoch :: i32
  dg_content_key_ref :: string
  dg_wrapping_key_ref :: string
  dg_wrapping_algorithm :: string
  dg_wrapping_metadata :: string

abbreviation DEK_PURPOSE_UNSPECIFIED :: int where "DEK_PURPOSE_UNSPECIFIED \<equiv> 0"
abbreviation DEK_PURPOSE_MESSAGE_BODY :: int where "DEK_PURPOSE_MESSAGE_BODY \<equiv> 1"
abbreviation DEK_PURPOSE_USER_PII :: int where "DEK_PURPOSE_USER_PII \<equiv> 2"

record account_created =
  ac_user_id :: string
  ac_is_bot :: bool
  ac_bot_owner :: string
  ac_login :: "encrypted_string option"
  ac_display_name :: "encrypted_string option"

record custom_status =
  cs_emoji :: string
  cs_text :: string
  cs_expires_at :: "time option"

text \<open>The storage oneof of an asset, the legacy avatar pointer and the asset record.\<close>

datatype storage = NatsAsset string | S3Asset string "string option"

record asset_record =
  as_id :: string
  as_filename :: string
  as_content_type :: string
  as_size :: int
  as_width :: i32
  as_height :: i32
  as_duration_ms :: int
  as_bitrate :: i32
  as_storage :: "storage option"

text \<open>Server preferences are one message the projection stores and returns whole.\<close>

record preferences =
  pf_wire :: string

datatype user_event =
  UserDekGenerated dek_generated
| UserAccountCreated account_created
| BotOwnerReassigned string string string
| UserLoginChanged string "encrypted_string option"
| UserDisplayNameChanged string "encrypted_string option"
| UserBioChanged string "encrypted_string option"
| UserAvatarSet string "storage option option"
| UserAvatarCleared string
| AssetCreated string "asset_record option"
| AssetDeleted string
| UserVerifiedEmailAdded string "encrypted_string option"
| UserPrimaryEmailChanged string string
| UserServerPreferencesChanged string "preferences option"
| UserLoginCooldownStarted string
| UserLoginCooldownCleared string
| UserCustomStatusSet string "custom_status option"
| UserCustomStatusCleared string
| UserAccountDeleted string
| UserAccountDeactivationChanged string bool
| UserKeyShreddingRequested string
| UserKeyShredded string

section \<open>Encrypted profile fields\<close>

datatype dek_fault = ErrKeyNotFound | DekUnavailable

datatype user_error = ResolveLookupKey dek_fault | DecryptFailed

text \<open>
  The parameters: \<open>lookup_digest\<close> is the hex SHA-256 of the trimmed, lower-cased
  value; \<open>resolve_dek\<close> unwraps a key for a purpose, and is missing when the
  projection has no resolver; \<open>aead_open\<close> takes a key, a ciphertext, a nonce
  and the associated data.
\<close>

record crypto =
  lookup_digest :: "string \<Rightarrow> string"
  resolve_dek :: "(dek_generated \<Rightarrow> int \<Rightarrow> dek_fault + string option) option"
  aead_open :: "string \<Rightarrow> string \<Rightarrow> string \<Rightarrow> string \<Rightarrow> string option"

fun digits :: "nat \<Rightarrow> string" where
  "digits n = (if n < 10 then [char_of (48 + n)] else digits (n div 10) @ [char_of (48 + n mod 10)])"

definition itoa :: "int \<Rightarrow> string" where
  "itoa i = (if i < 0 then ''-'' @ digits (nat (- i)) else digits (nat i))"

definition userPIIAAD :: "string \<Rightarrow> string \<Rightarrow> string \<Rightarrow> string \<Rightarrow> i32 \<Rightarrow> string" where
  "userPIIAAD eventID userID eventType purpose epoch =
     ''chatto:user-pii-context:v1'' @ [CHR 0x00] @ ''event_id='' @ eventID
     @ [CHR 0x00] @ ''user_id='' @ userID @ [CHR 0x00] @ ''event_type='' @ eventType
     @ [CHR 0x00] @ ''field='' @ purpose @ [CHR 0x00] @ ''content_key_epoch='' @ itoa (sint epoch)"

definition decryptUserPIIString ::
  "crypto \<Rightarrow> string \<Rightarrow> string \<Rightarrow> string \<Rightarrow> string \<Rightarrow> string \<Rightarrow> encrypted_string \<Rightarrow> string option" where
  "decryptUserPIIString c key eventID userID eventType purpose enc =
     (if sint (es_epoch enc) \<le> 0 then None
      else aead_open c key (es_value enc) (es_nonce enc)
             (userPIIAAD eventID userID eventType purpose (es_epoch enc)))"

definition userPIILookupHash :: "crypto \<Rightarrow> string \<Rightarrow> string" where
  "userPIILookupHash c = lookup_digest c"

definition emailHash :: "crypto \<Rightarrow> string \<Rightarrow> string" where
  "emailHash c email = userPIILookupHash c email"

text \<open>The event types that bind a field to its event.\<close>

abbreviation EventUserAccountCreated :: string where "EventUserAccountCreated \<equiv> ''account_created''"
abbreviation EventUserLoginChanged :: string where "EventUserLoginChanged \<equiv> ''login_changed''"
abbreviation EventUserDisplayNameChanged :: string where
  "EventUserDisplayNameChanged \<equiv> ''display_name_changed''"
abbreviation EventUserBioChanged :: string where "EventUserBioChanged \<equiv> ''bio_changed''"
abbreviation EventUserVerifiedEmailAdded :: string where
  "EventUserVerifiedEmailAdded \<equiv> ''verified_email_added''"

section \<open>State\<close>

record user =
  us_id :: string
  us_created_at :: "time option"
  us_custom_status :: "custom_status option"
  us_is_bot :: bool
  us_bot_owner :: string
  us_deactivated :: bool

record user_pii =
  up_event_id :: string
  up_event_type :: string
  up_purpose :: string
  up_encrypted :: encrypted_string

record verified_email =
  ve_pii :: "user_pii option"
  ve_verified_at :: time

record projected_user =
  pu_user :: "user option"
  pu_login :: "user_pii option"
  pu_login_hash :: string
  pu_display_name :: "user_pii option"
  pu_bio :: "user_pii option"
  pu_deleted :: bool
  pu_shredded :: bool
  pu_avatar :: "asset_record option"
  pu_verified_email :: "(string, verified_email) fmap"
  pu_primary_email :: string
  pu_preferences :: "preferences option"
  pu_login_changed :: time

definition empty_user :: projected_user where
  "empty_user =
     \<lparr>pu_user = None, pu_login = None, pu_login_hash = [], pu_display_name = None, pu_bio = None,
      pu_deleted = False, pu_shredded = False, pu_avatar = None, pu_verified_email = fmempty,
      pu_primary_email = [], pu_preferences = None, pu_login_changed = zero_time\<rparr>"

definition plain_user :: "string \<Rightarrow> time option \<Rightarrow> user" where
  "plain_user userID createdAt =
     \<lparr>us_id = userID, us_created_at = createdAt, us_custom_status = None, us_is_bot = False,
      us_bot_owner = [], us_deactivated = False\<rparr>"

record user_projection =
  ua_users :: "(string, projected_user) fmap"
  ua_login_index :: "(string, string) fmap"
  ua_email_index :: "(string, string) fmap"
  ua_avatar_index :: "(string, int) fmap"
  ua_owner_bots :: "(string, string fset) fmap"
  ua_guard :: replay_guard
  ua_dek_events :: "(string, (int \<times> i32, dek_generated) fmap) fmap"

definition newUserProjection :: user_projection where
  "newUserProjection =
     \<lparr>ua_users = fmempty, ua_login_index = fmempty, ua_email_index = fmempty,
      ua_avatar_index = fmempty, ua_owner_bots = fmempty,
      ua_guard = newProjectionReplayGuard, ua_dek_events = fmempty\<rparr>"

section \<open>Resolving a lookup value\<close>

definition user_deks :: "user_projection \<Rightarrow> string \<Rightarrow> (int \<times> i32, dek_generated) fmap" where
  "user_deks p userID = (case fmlookup (ua_dek_events p) userID of None \<Rightarrow> fmempty | Some m \<Rightarrow> m)"

text \<open>The key of a profile field: its purpose first, then keys from before purposes existed.\<close>

definition pii_dek :: "user_projection \<Rightarrow> string \<Rightarrow> i32 \<Rightarrow> dek_generated option" where
  "pii_dek p userID epoch =
     (case fmlookup (user_deks p userID) (DEK_PURPOSE_USER_PII, epoch) of
        Some d \<Rightarrow> Some d
      | None \<Rightarrow> fmlookup (user_deks p userID) (DEK_PURPOSE_UNSPECIFIED, epoch))"

text \<open>\<^const>\<open>None\<close> is the code's \<open>("", false, nil)\<close>: the value cannot be read, and that is no error.\<close>

definition userPIIString ::
  "crypto \<Rightarrow> user_projection \<Rightarrow> string \<Rightarrow> string \<Rightarrow> string \<Rightarrow> string \<Rightarrow> encrypted_string option
     \<Rightarrow> user_error + string option" where
  "userPIIString c p eventID userID eventType purpose encrypted =
     (case encrypted of
        None \<Rightarrow> Inr None
      | Some enc \<Rightarrow>
          (case (pii_dek p userID (es_epoch enc), resolve_dek c) of
             (Some dek, Some resolve) \<Rightarrow>
               (case resolve dek DEK_PURPOSE_USER_PII of
                  Inl ErrKeyNotFound \<Rightarrow> Inr None
                | Inl fault \<Rightarrow> Inl (ResolveLookupKey fault)
                | Inr None \<Rightarrow> Inr None
                | Inr (Some key) \<Rightarrow>
                    if key = [] then Inr None
                    else (case decryptUserPIIString c key eventID userID eventType purpose enc of
                            None \<Rightarrow> Inl DecryptFailed
                          | Some plaintext \<Rightarrow> Inr (Some plaintext)))
           | _ \<Rightarrow> Inr None))"

definition newProjectedUserPII ::
  "string \<Rightarrow> string \<Rightarrow> string \<Rightarrow> encrypted_string option \<Rightarrow> user_pii option" where
  "newProjectedUserPII eventID eventType purpose encrypted =
     map_option (\<lambda>enc. \<lparr>up_event_id = eventID, up_event_type = eventType, up_purpose = purpose,
                        up_encrypted = enc\<rparr>) encrypted"

section \<open>Helpers of the operations\<close>

definition ensure_user :: "string \<Rightarrow> user_projection \<Rightarrow> projected_user" where
  "ensure_user userID p = (case fmlookup (ua_users p) userID of None \<Rightarrow> empty_user | Some u \<Rightarrow> u)"

definition put_user :: "string \<Rightarrow> projected_user \<Rightarrow> user_projection \<Rightarrow> user_projection" where
  "put_user userID u p = p\<lparr>ua_users := fmupd userID u (ua_users p)\<rparr>"

text \<open>\<open>u := p.ensureUserLocked(id); u.field = ...\<close>: the entry exists afterwards.\<close>

definition edit_user ::
  "string \<Rightarrow> (projected_user \<Rightarrow> projected_user) \<Rightarrow> user_projection \<Rightarrow> user_projection" where
  "edit_user userID f p = put_user userID (f (ensure_user userID p)) p"

definition owned_bots :: "(string, string fset) fmap \<Rightarrow> string \<Rightarrow> string fset" where
  "owned_bots ob owner = (case fmlookup ob owner of None \<Rightarrow> {||} | Some s \<Rightarrow> s)"

definition addBotOwnerIndex :: "string \<Rightarrow> string \<Rightarrow> user_projection \<Rightarrow> user_projection" where
  "addBotOwnerIndex owner botID p =
     p\<lparr>ua_owner_bots := fmupd owner (finsert botID (owned_bots (ua_owner_bots p) owner)) (ua_owner_bots p)\<rparr>"

definition removeBotOwnerIndexLocked :: "string \<Rightarrow> projected_user \<Rightarrow> user_projection \<Rightarrow> user_projection" where
  "removeBotOwnerIndexLocked userID u p =
     (case pu_user u of
        None \<Rightarrow> p
      | Some usr \<Rightarrow>
          if \<not> us_is_bot usr then p
          else
            let owner = us_bot_owner usr;
                rest = owned_bots (ua_owner_bots p) owner |-| {|userID|}
            in p\<lparr>ua_owner_bots :=
                 (if rest = {||} then fmdrop owner (ua_owner_bots p)
                  else fmupd owner rest (ua_owner_bots p))\<rparr>)"

definition storage_nats_key :: "asset_record \<Rightarrow> string" where
  "storage_nats_key a = (case as_storage a of Some (NatsAsset k) \<Rightarrow> k | _ \<Rightarrow> [])"

definition storage_s3_key :: "asset_record \<Rightarrow> string" where
  "storage_s3_key a = (case as_storage a of Some (S3Asset k _) \<Rightarrow> k | _ \<Rightarrow> [])"

definition assetRecordKeys :: "asset_record option \<Rightarrow> string fset" where
  "assetRecordKeys asset =
     (case asset of
        None \<Rightarrow> {||}
      | Some a \<Rightarrow> fset_of_list (filter (\<lambda>k. k \<noteq> []) [as_id a, storage_nats_key a, storage_s3_key a]))"

definition avatar_count :: "(string, int) fmap \<Rightarrow> string \<Rightarrow> int" where
  "avatar_count ix k = (case fmlookup ix k of None \<Rightarrow> 0 | Some n \<Rightarrow> n)"

definition drop_avatar_key :: "string \<Rightarrow> (string, int) fmap \<Rightarrow> (string, int) fmap" where
  "drop_avatar_key k ix =
     (if avatar_count ix k \<le> 1 then fmdrop k ix else fmupd k (avatar_count ix k - 1) ix)"

definition add_avatar_key :: "string \<Rightarrow> (string, int) fmap \<Rightarrow> (string, int) fmap" where
  "add_avatar_key k ix = fmupd k (avatar_count ix k + 1) ix"

text \<open>The keys of one asset are distinct, so the order of the code's range does not matter.\<close>

definition key_list :: "string fset \<Rightarrow> string list" where
  "key_list ks = sorted_list_of_fset ks"

text \<open>The new entry of the account and the new index.\<close>

definition replaceAvatarLocked ::
  "string \<Rightarrow> projected_user \<Rightarrow> asset_record option \<Rightarrow> user_projection \<Rightarrow> user_projection" where
  "replaceAvatarLocked userID u avatar p =
     (let dropped = fold drop_avatar_key (key_list (assetRecordKeys (pu_avatar u))) (ua_avatar_index p);
          index = (if pu_deleted u then dropped
                   else fold add_avatar_key (key_list (assetRecordKeys avatar)) dropped)
      in put_user userID (u\<lparr>pu_avatar := avatar\<rparr>) (p\<lparr>ua_avatar_index := index\<rparr>))"

definition assetIDFromAsset :: "storage option \<Rightarrow> string" where
  "assetIDFromAsset asset = (case asset of Some (NatsAsset k) \<Rightarrow> k | Some (S3Asset k _) \<Rightarrow> k | None \<Rightarrow> [])"

definition assetFromDeprecatedAsset :: "storage option \<Rightarrow> string \<Rightarrow> string \<Rightarrow> asset_record" where
  "assetFromDeprecatedAsset pointer filename contentType =
     \<lparr>as_id = assetIDFromAsset pointer, as_filename = filename, as_content_type = contentType,
      as_size = 0, as_width = 0, as_height = 0, as_duration_ms = 0, as_bitrate = 0,
      as_storage = pointer\<rparr>"

section \<open>Operations\<close>

definition applyDEKGenerated :: "dek_generated \<Rightarrow> user_projection \<Rightarrow> user_projection" where
  "applyDEKGenerated e p =
     (if dg_user_id e = [] \<or> sint (dg_epoch e) \<le> 0 \<or> dg_content_key_ref e = [] then p
      else if (case fmlookup (ua_users p) (dg_user_id e) of None \<Rightarrow> False | Some u \<Rightarrow> pu_shredded u) then p
      else p\<lparr>ua_dek_events :=
        fmupd (dg_user_id e) (fmupd (dg_purpose e, dg_epoch e) e (user_deks p (dg_user_id e)))
          (ua_dek_events p)\<rparr>)"

definition applyAccountCreatedWithLogin ::
  "crypto \<Rightarrow> string \<Rightarrow> account_created \<Rightarrow> time option \<Rightarrow> string \<Rightarrow> user_projection \<Rightarrow> user_projection" where
  "applyAccountCreatedWithLogin c eventID e createdAt login p =
     (let loginHash = userPIILookupHash c login;
          userID = ac_user_id e;
          u = (ensure_user userID p)
                \<lparr>pu_user := Some ((plain_user userID createdAt)
                    \<lparr>us_is_bot := ac_is_bot e, us_bot_owner := ac_bot_owner e\<rparr>)\<rparr>;
          p1 = (if ac_is_bot e \<and> ac_bot_owner e \<noteq> [] then addBotOwnerIndex (ac_bot_owner e) userID p else p);
          p2 = put_user userID
                 (u\<lparr>pu_login := newProjectedUserPII eventID EventUserAccountCreated ''login'' (ac_login e),
                    pu_login_hash := loginHash,
                    pu_display_name :=
                      newProjectedUserPII eventID EventUserAccountCreated ''display_name'' (ac_display_name e),
                    pu_deleted := False, pu_shredded := False\<rparr>) p1
      in p2\<lparr>ua_login_index := fmupd loginHash userID (ua_login_index p2)\<rparr>)"

definition applyAccountCreated ::
  "crypto \<Rightarrow> string \<Rightarrow> account_created \<Rightarrow> time option \<Rightarrow> user_projection \<Rightarrow> user_error option \<times> user_projection" where
  "applyAccountCreated c eventID e createdAt p =
     (if ac_user_id e = [] \<or> ac_login e = None \<or> ac_display_name e = None then (None, p)
      else case userPIIString c p eventID (ac_user_id e) EventUserAccountCreated ''login'' (ac_login e) of
             Inl err \<Rightarrow> (Some err, p)
           | Inr None \<Rightarrow> (None, p)
           | Inr (Some login) \<Rightarrow>
               if login = [] then (None, p)
               else (None, applyAccountCreatedWithLogin c eventID e createdAt login p))"

definition applyBotOwnerReassigned :: "string \<Rightarrow> string \<Rightarrow> user_projection \<Rightarrow> user_projection" where
  "applyBotOwnerReassigned userID ownerID p =
     (if userID = [] \<or> ownerID = [] then p
      else case fmlookup (ua_users p) userID of
             None \<Rightarrow> p
           | Some u \<Rightarrow>
               (case pu_user u of
                  None \<Rightarrow> p
                | Some usr \<Rightarrow>
                    if pu_deleted u \<or> pu_shredded u \<or> \<not> us_is_bot usr then p
                    else
                      addBotOwnerIndex ownerID userID
                        (put_user userID (u\<lparr>pu_user := Some (usr\<lparr>us_bot_owner := ownerID\<rparr>)\<rparr>)
                          (removeBotOwnerIndexLocked userID u p))))"

text \<open>Releasing an index entry that still names the account.\<close>

definition release_login :: "string \<Rightarrow> string \<Rightarrow> user_projection \<Rightarrow> user_projection" where
  "release_login userID hash p =
     (if hash \<noteq> [] \<and> fmlookup (ua_login_index p) hash = Some userID
      then p\<lparr>ua_login_index := fmdrop hash (ua_login_index p)\<rparr> else p)"

definition release_emails :: "string \<Rightarrow> user_projection \<Rightarrow> user_projection" where
  "release_emails userID p =
     p\<lparr>ua_email_index := fmfilter (\<lambda>h. fmlookup (ua_email_index p) h \<noteq> Some userID) (ua_email_index p)\<rparr>"

definition applyLoginChangedWithLogin ::
  "crypto \<Rightarrow> string \<Rightarrow> string \<Rightarrow> encrypted_string option \<Rightarrow> time option \<Rightarrow> string \<Rightarrow> user_projection \<Rightarrow> user_projection" where
  "applyLoginChangedWithLogin c eventID userID enc createdAt login p =
     (let loginHash = userPIILookupHash c login;
          u0 = ensure_user userID p;
          u = (case pu_user u0 of
                 None \<Rightarrow> u0\<lparr>pu_user := Some (plain_user userID createdAt)\<rparr>
               | Some _ \<Rightarrow> u0);
          p1 = put_user userID
                 (u\<lparr>pu_login := newProjectedUserPII eventID EventUserLoginChanged ''login'' enc,
                    pu_login_hash := loginHash\<rparr>)
                 (release_login userID (pu_login_hash u) p)
      in p1\<lparr>ua_login_index := fmupd loginHash userID (ua_login_index p1)\<rparr>)"

definition applyLoginChanged ::
  "crypto \<Rightarrow> string \<Rightarrow> string \<Rightarrow> encrypted_string option \<Rightarrow> time option \<Rightarrow> user_projection
     \<Rightarrow> user_error option \<times> user_projection" where
  "applyLoginChanged c eventID userID enc createdAt p =
     (if userID = [] \<or> enc = None then (None, p)
      else case userPIIString c p eventID userID EventUserLoginChanged ''login'' enc of
             Inl err \<Rightarrow> (Some err, p)
           | Inr None \<Rightarrow> (None, p)
           | Inr (Some login) \<Rightarrow>
               if login = [] then (None, p)
               else (None, applyLoginChangedWithLogin c eventID userID enc createdAt login p))"

definition applyDisplayNameChanged ::
  "string \<Rightarrow> string \<Rightarrow> encrypted_string option \<Rightarrow> user_projection \<Rightarrow> user_projection" where
  "applyDisplayNameChanged eventID userID enc p =
     (if userID = [] \<or> enc = None then p
      else edit_user userID (\<lambda>u. u
             \<lparr>pu_user := (case pu_user u of None \<Rightarrow> Some (plain_user userID None) | Some usr \<Rightarrow> Some usr),
              pu_display_name := newProjectedUserPII eventID EventUserDisplayNameChanged ''display_name'' enc\<rparr>) p)"

definition applyBioChanged ::
  "string \<Rightarrow> string \<Rightarrow> encrypted_string option \<Rightarrow> user_projection \<Rightarrow> user_projection" where
  "applyBioChanged eventID userID enc p =
     (if userID = [] then p
      else edit_user userID (\<lambda>u. u\<lparr>pu_bio := newProjectedUserPII eventID EventUserBioChanged ''bio'' enc\<rparr>) p)"

definition applyAvatarSet :: "string \<Rightarrow> storage option option \<Rightarrow> user_projection \<Rightarrow> user_projection" where
  "applyAvatarSet userID avatar p =
     (if userID = [] then p
      else let u = ensure_user userID p in
        (case avatar of
           None \<Rightarrow> put_user userID u p
         | Some pointer \<Rightarrow>
             replaceAvatarLocked userID u
               (Some (assetFromDeprecatedAsset pointer ''avatar.webp'' ''image/webp'')) p))"

definition applyAssetCreated :: "string \<Rightarrow> asset_record option \<Rightarrow> user_projection \<Rightarrow> user_projection" where
  "applyAssetCreated userID asset p =
     (if asset = None \<or> userID = [] then p
      else replaceAvatarLocked userID (ensure_user userID p) asset p)"

definition clear_avatar_if :: "string \<Rightarrow> string \<Rightarrow> user_projection \<Rightarrow> user_projection" where
  "clear_avatar_if assetID userID p =
     (case fmlookup (ua_users p) userID of
        None \<Rightarrow> p
      | Some u \<Rightarrow>
          (case pu_avatar u of
             None \<Rightarrow> p
           | Some a \<Rightarrow> if as_id a = assetID then replaceAvatarLocked userID u None p else p))"

definition applyAssetDeleted :: "string \<Rightarrow> user_projection \<Rightarrow> user_projection" where
  "applyAssetDeleted assetID p =
     (if assetID = [] then p
      else fold (clear_avatar_if assetID) (sortedMapKeys (ua_users p)) p)"

definition applyAvatarCleared :: "string \<Rightarrow> user_projection \<Rightarrow> user_projection" where
  "applyAvatarCleared userID p =
     (if userID = [] then p else replaceAvatarLocked userID (ensure_user userID p) None p)"

definition applyVerifiedEmailAddedWithEmail ::
  "crypto \<Rightarrow> time \<Rightarrow> string \<Rightarrow> string \<Rightarrow> encrypted_string option \<Rightarrow> time option \<Rightarrow> string
     \<Rightarrow> user_projection \<Rightarrow> user_projection" where
  "applyVerifiedEmailAddedWithEmail c now eventID userID enc createdAt email p =
     (let hash = emailHash c email;
          u = ensure_user userID p;
          previous = fmlookup (pu_verified_email u) hash;
          verifiedAt = (case createdAt of None \<Rightarrow> now | Some t \<Rightarrow> t);
          replacesPrimary =
            (case previous of
               None \<Rightarrow> False
             | Some v \<Rightarrow> (case ve_pii v of None \<Rightarrow> False | Some pii \<Rightarrow> up_event_id pii = pu_primary_email u));
          p1 = put_user userID
                 (u\<lparr>pu_verified_email := fmupd hash
                      \<lparr>ve_pii = newProjectedUserPII eventID EventUserVerifiedEmailAdded ''email'' enc,
                       ve_verified_at = verifiedAt\<rparr> (pu_verified_email u),
                    pu_primary_email :=
                      (if pu_primary_email u = [] \<or> replacesPrimary then eventID else pu_primary_email u)\<rparr>) p
      in p1\<lparr>ua_email_index := fmupd hash userID (ua_email_index p1)\<rparr>)"

definition applyVerifiedEmailAdded ::
  "crypto \<Rightarrow> time \<Rightarrow> string \<Rightarrow> string \<Rightarrow> encrypted_string option \<Rightarrow> time option \<Rightarrow> user_projection
     \<Rightarrow> user_error option \<times> user_projection" where
  "applyVerifiedEmailAdded c now eventID userID enc createdAt p =
     (if userID = [] \<or> enc = None then (None, p)
      else case userPIIString c p eventID userID EventUserVerifiedEmailAdded ''email'' enc of
             Inl err \<Rightarrow> (Some err, p)
           | Inr None \<Rightarrow> (None, p)
           | Inr (Some email) \<Rightarrow>
               if email = [] then (None, p)
               else (None, applyVerifiedEmailAddedWithEmail c now eventID userID enc createdAt email p))"

definition names_event :: "string \<Rightarrow> verified_email \<Rightarrow> bool" where
  "names_event eventID v = (case ve_pii v of None \<Rightarrow> False | Some pii \<Rightarrow> up_event_id pii = eventID)"

definition applyPrimaryEmailChanged :: "string \<Rightarrow> string \<Rightarrow> user_projection \<Rightarrow> user_projection" where
  "applyPrimaryEmailChanged userID emailEventID p =
     (if userID = [] \<or> emailEventID = [] then p
      else edit_user userID (\<lambda>u.
             if list_ex (names_event emailEventID) (sortedMapValues (pu_verified_email u))
             then u\<lparr>pu_primary_email := emailEventID\<rparr> else u) p)"

definition applyServerPreferencesChanged ::
  "string \<Rightarrow> preferences option \<Rightarrow> user_projection \<Rightarrow> user_projection" where
  "applyServerPreferencesChanged userID pf p =
     (if userID = [] then p else edit_user userID (\<lambda>u. u\<lparr>pu_preferences := pf\<rparr>) p)"

definition applyLoginCooldownStarted :: "string \<Rightarrow> time option \<Rightarrow> user_projection \<Rightarrow> user_projection" where
  "applyLoginCooldownStarted userID createdAt p =
     (case createdAt of
        None \<Rightarrow> p
      | Some t \<Rightarrow> if userID = [] then p else edit_user userID (\<lambda>u. u\<lparr>pu_login_changed := t\<rparr>) p)"

definition applyLoginCooldownCleared :: "string \<Rightarrow> user_projection \<Rightarrow> user_projection" where
  "applyLoginCooldownCleared userID p =
     (if userID = [] then p else edit_user userID (\<lambda>u. u\<lparr>pu_login_changed := zero_time\<rparr>) p)"

definition applyCustomStatusSet :: "string \<Rightarrow> custom_status option \<Rightarrow> user_projection \<Rightarrow> user_projection" where
  "applyCustomStatusSet userID status p =
     (if userID = [] \<or> status = None then p
      else edit_user userID (\<lambda>u. u\<lparr>pu_user :=
             Some ((case pu_user u of None \<Rightarrow> plain_user userID None | Some usr \<Rightarrow> usr)
                     \<lparr>us_custom_status := status\<rparr>)\<rparr>) p)"

definition applyCustomStatusCleared :: "string \<Rightarrow> user_projection \<Rightarrow> user_projection" where
  "applyCustomStatusCleared userID p =
     (if userID = [] then p
      else edit_user userID
             (\<lambda>u. u\<lparr>pu_user := map_option (\<lambda>usr. usr\<lparr>us_custom_status := None\<rparr>) (pu_user u)\<rparr>) p)"

definition applyAccountDeactivationChanged :: "string \<Rightarrow> bool \<Rightarrow> user_projection \<Rightarrow> user_projection" where
  "applyAccountDeactivationChanged userID deactivated p =
     (case fmlookup (ua_users p) userID of
        None \<Rightarrow> p
      | Some u \<Rightarrow>
          (case pu_user u of
             None \<Rightarrow> p
           | Some usr \<Rightarrow>
               if pu_deleted u then p
               else put_user userID (u\<lparr>pu_user := Some (usr\<lparr>us_deactivated := deactivated\<rparr>)\<rparr>) p))"

definition applyAccountDeleted :: "string \<Rightarrow> user_projection \<Rightarrow> user_projection" where
  "applyAccountDeleted userID p =
     (if userID = [] then p
      else
        let u = (ensure_user userID p)\<lparr>pu_deleted := True\<rparr>;
            p1 = removeBotOwnerIndexLocked userID u p;
            p2 = release_login userID (pu_login_hash u) p1;
            p3 = release_emails userID p2;
            p4 = replaceAvatarLocked userID u None p3;
            p5 = put_user userID
                   (u\<lparr>pu_avatar := None, pu_preferences := None,
                      pu_user := map_option (\<lambda>usr. usr\<lparr>us_custom_status := None\<rparr>) (pu_user u),
                      pu_login := None, pu_login_hash := [], pu_display_name := None, pu_bio := None,
                      pu_verified_email := fmempty, pu_primary_email := [],
                      pu_login_changed := zero_time\<rparr>) p4
        in p5\<lparr>ua_dek_events := fmdrop userID (ua_dek_events p5)\<rparr>)"

definition applyKeyShredded :: "string \<Rightarrow> user_projection \<Rightarrow> user_projection" where
  "applyKeyShredded userID p =
     (if userID = [] then p
      else
        let p0 = p\<lparr>ua_dek_events := fmdrop userID (ua_dek_events p)\<rparr>;
            u = ensure_user userID p0;
            p1 = removeBotOwnerIndexLocked userID u p0;
            p2 = release_login userID (pu_login_hash u) p1;
            p3 = release_emails userID p2
        in put_user userID
             (u\<lparr>pu_shredded := True, pu_user := Some (plain_user userID None), pu_login := None,
                pu_login_hash := [], pu_display_name := None, pu_bio := None, pu_preferences := None,
                pu_verified_email := fmempty, pu_primary_email := [],
                pu_login_changed := zero_time\<rparr>) p3)"

section \<open>The fold\<close>

text \<open>The operations that cannot fail, as the type switches of both paths call them.\<close>

definition user_switch :: "user_event event \<Rightarrow> user_event \<Rightarrow> user_projection \<Rightarrow> user_projection" where
  "user_switch ev e p =
     (case e of
        UserDekGenerated d \<Rightarrow> applyDEKGenerated d p
      | UserAccountCreated _ \<Rightarrow> p
      | BotOwnerReassigned userID _ ownerID \<Rightarrow> applyBotOwnerReassigned userID ownerID p
      | UserLoginChanged _ _ \<Rightarrow> p
      | UserDisplayNameChanged userID enc \<Rightarrow> applyDisplayNameChanged (ev_id ev) userID enc p
      | UserBioChanged userID enc \<Rightarrow> applyBioChanged (ev_id ev) userID enc p
      | UserAvatarSet userID avatar \<Rightarrow> applyAvatarSet userID avatar p
      | UserAvatarCleared userID \<Rightarrow> applyAvatarCleared userID p
      | AssetCreated userID asset \<Rightarrow> applyAssetCreated userID asset p
      | AssetDeleted assetID \<Rightarrow> applyAssetDeleted assetID p
      | UserVerifiedEmailAdded _ _ \<Rightarrow> p
      | UserPrimaryEmailChanged userID i \<Rightarrow> applyPrimaryEmailChanged userID i p
      | UserServerPreferencesChanged userID pf \<Rightarrow> applyServerPreferencesChanged userID pf p
      | UserLoginCooldownStarted userID \<Rightarrow> applyLoginCooldownStarted userID (ev_created_at ev) p
      | UserLoginCooldownCleared userID \<Rightarrow> applyLoginCooldownCleared userID p
      | UserCustomStatusSet userID status \<Rightarrow> applyCustomStatusSet userID status p
      | UserCustomStatusCleared userID \<Rightarrow> applyCustomStatusCleared userID p
      | UserAccountDeleted userID \<Rightarrow> applyAccountDeleted userID p
      | UserAccountDeactivationChanged userID b \<Rightarrow> applyAccountDeactivationChanged userID b p
      | UserKeyShreddingRequested userID \<Rightarrow> applyKeyShredded userID p
      | UserKeyShredded userID \<Rightarrow> applyKeyShredded userID p)"

definition set_ua_guard :: "replay_guard \<Rightarrow> user_projection \<Rightarrow> user_projection" where
  "set_ua_guard g p = p\<lparr>ua_guard := g\<rparr>"

definition user_dispatch ::
  "crypto \<Rightarrow> time \<Rightarrow> user_event event \<Rightarrow> user_event \<Rightarrow> user_projection \<Rightarrow> user_error option \<times> user_projection" where
  "user_dispatch c now ev e p =
     (case e of
        UserAccountCreated a \<Rightarrow> applyAccountCreated c (ev_id ev) a (ev_created_at ev) p
      | UserLoginChanged userID enc \<Rightarrow> applyLoginChanged c (ev_id ev) userID enc (ev_created_at ev) p
      | UserVerifiedEmailAdded userID enc \<Rightarrow>
          applyVerifiedEmailAdded c now (ev_id ev) userID enc (ev_created_at ev) p
      | _ \<Rightarrow> (None, user_switch ev e p))"

text \<open>
  \<open>Apply\<close>: the returned error and the state it leaves. The guard marks the event
  before the switch runs, so an event whose lookup value could not be resolved
  counts as seen. \<^const>\<open>None\<close> is the panic of a write into the nil identity set.
\<close>

definition Users_Apply ::
  "crypto \<Rightarrow> time \<Rightarrow> user_projection \<Rightarrow> user_event event option \<Rightarrow> seq
     \<Rightarrow> (user_error option \<times> user_projection) option" where
  "Users_Apply c now p event sq =
     (case event of
        None \<Rightarrow> Some (None, p)
      | Some ev \<Rightarrow>
          (case guard_seenOrMark (ua_guard p) ev sq of
             None \<Rightarrow> None
           | Some (seen, g) \<Rightarrow>
               let p' = set_ua_guard g p in
               Some (if seen then (None, p')
                     else (case ev_payload ev of
                             None \<Rightarrow> (None, p')
                           | Some e \<Rightarrow> user_dispatch c now ev e p'))))"

definition Users_CompleteStartupReplay :: "user_projection \<Rightarrow> user_projection" where
  "Users_CompleteStartupReplay p = set_ua_guard (guard_completeReplay (ua_guard p)) p"

section \<open>The two-phase path of the content view\<close>

text \<open>
  \<open>Prepare\<close> does the fallible work and changes nothing; the mutation it returns is
  applied once every component has prepared. A missing value is one that could
  not be read (\<open>lookupReady\<close> is false).
\<close>

definition lookup_of_event ::
  "crypto \<Rightarrow> user_event event \<Rightarrow> user_event \<Rightarrow> user_projection \<Rightarrow> user_error + string option" where
  "lookup_of_event c ev e p =
     (case e of
        UserAccountCreated a \<Rightarrow>
          if ac_user_id a \<noteq> [] \<and> ac_login a \<noteq> None \<and> ac_display_name a \<noteq> None
          then userPIIString c p (ev_id ev) (ac_user_id a) EventUserAccountCreated ''login'' (ac_login a)
          else Inr None
      | UserLoginChanged userID enc \<Rightarrow>
          if userID \<noteq> [] \<and> enc \<noteq> None
          then userPIIString c p (ev_id ev) userID EventUserLoginChanged ''login'' enc
          else Inr None
      | UserVerifiedEmailAdded userID enc \<Rightarrow>
          if userID \<noteq> [] \<and> enc \<noteq> None
          then userPIIString c p (ev_id ev) userID EventUserVerifiedEmailAdded ''email'' enc
          else Inr None
      | _ \<Rightarrow> Inr None)"

definition Users_Prepare ::
  "crypto \<Rightarrow> user_projection \<Rightarrow> user_event event \<Rightarrow> seq \<Rightarrow> user_error + string option" where
  "Users_Prepare c p ev sq =
     (if fst (guard_seen (ua_guard p) ev sq) then Inr None
      else case ev_payload ev of None \<Rightarrow> Inr None | Some e \<Rightarrow> lookup_of_event c ev e p)"

definition prepared_dispatch ::
  "crypto \<Rightarrow> time \<Rightarrow> user_event event \<Rightarrow> user_event \<Rightarrow> string option \<Rightarrow> user_projection \<Rightarrow> user_projection" where
  "prepared_dispatch c now ev e prepared p =
     (case e of
        UserAccountCreated a \<Rightarrow>
          (case prepared of
             None \<Rightarrow> p
           | Some v \<Rightarrow> if v = [] then p else applyAccountCreatedWithLogin c (ev_id ev) a (ev_created_at ev) v p)
      | UserLoginChanged userID enc \<Rightarrow>
          (case prepared of
             None \<Rightarrow> p
           | Some v \<Rightarrow>
               if v = [] then p
               else applyLoginChangedWithLogin c (ev_id ev) userID enc (ev_created_at ev) v p)
      | UserVerifiedEmailAdded userID enc \<Rightarrow>
          (case prepared of
             None \<Rightarrow> p
           | Some v \<Rightarrow>
               if v = [] then p
               else applyVerifiedEmailAddedWithEmail c now (ev_id ev) userID enc (ev_created_at ev) v p)
      | _ \<Rightarrow> user_switch ev e p)"

definition applyPreparedContentEvent ::
  "crypto \<Rightarrow> time \<Rightarrow> user_event event \<Rightarrow> seq \<Rightarrow> string option \<Rightarrow> user_projection \<Rightarrow> user_projection option" where
  "applyPreparedContentEvent c now ev sq prepared p =
     (case guard_seenOrMark (ua_guard p) ev sq of
        None \<Rightarrow> None
      | Some (seen, g) \<Rightarrow>
          let p' = set_ua_guard g p in
          Some (if seen then p'
                else (case ev_payload ev of
                        None \<Rightarrow> p'
                      | Some e \<Rightarrow> prepared_dispatch c now ev e prepared p')))"

section \<open>Reads\<close>

definition Deactivated :: "user_projection \<Rightarrow> string \<Rightarrow> bool" where
  "Deactivated p userID =
     (case fmlookup (ua_users p) userID of
        None \<Rightarrow> False
      | Some u \<Rightarrow> (case pu_user u of None \<Rightarrow> False | Some usr \<Rightarrow> us_deactivated usr))"

definition active_entry :: "projected_user \<Rightarrow> bool" where
  "active_entry u \<longleftrightarrow> \<not> pu_deleted u \<and> \<not> pu_shredded u"

definition is_active :: "user_projection \<Rightarrow> string \<Rightarrow> bool" where
  "is_active p userID = (case fmlookup (ua_users p) userID of None \<Rightarrow> False | Some u \<Rightarrow> active_entry u)"

text \<open>Bot status and owner of an account, when it exists.\<close>

definition IsBotAndOwner :: "user_projection \<Rightarrow> string \<Rightarrow> (bool \<times> string) option" where
  "IsBotAndOwner p userID =
     (case fmlookup (ua_users p) userID of
        None \<Rightarrow> None
      | Some u \<Rightarrow>
          if active_entry u then map_option (\<lambda>usr. (us_is_bot usr, us_bot_owner usr)) (pu_user u) else None)"

definition BotIDsOwnedBy :: "user_projection \<Rightarrow> string \<Rightarrow> string list" where
  "BotIDsOwnedBy p owner = filter (is_active p) (sorted_list_of_fset (owned_bots (ua_owner_bots p) owner))"

definition active_bot_entry :: "projected_user \<Rightarrow> bool" where
  "active_bot_entry u \<longleftrightarrow> active_entry u \<and> (case pu_user u of None \<Rightarrow> False | Some usr \<Rightarrow> us_is_bot usr)"

definition BotIDs :: "user_projection \<Rightarrow> string list" where
  "BotIDs p = filter (\<lambda>i. active_bot_entry (the (fmlookup (ua_users p) i))) (sortedMapKeys (ua_users p))"

definition ActiveIDs :: "user_projection \<Rightarrow> string list \<Rightarrow> string list" where
  "ActiveIDs p ids = filter (is_active p) ids"

definition AllActiveIDs :: "user_projection \<Rightarrow> string list" where
  "AllActiveIDs p = filter (is_active p) (sortedMapKeys (ua_users p))"

definition KeyShreddingRequested :: "user_projection \<Rightarrow> string \<Rightarrow> bool" where
  "KeyShreddingRequested p userID =
     (case fmlookup (ua_users p) userID of None \<Rightarrow> False | Some u \<Rightarrow> pu_shredded u)"

definition LoginExists :: "crypto \<Rightarrow> user_projection \<Rightarrow> string \<Rightarrow> bool" where
  "LoginExists c p login \<longleftrightarrow> fmlookup (ua_login_index p) (userPIILookupHash c login) \<noteq> None"

text \<open>A missing entry and an empty owner both answer no owner.\<close>

definition EmailOwnerID :: "crypto \<Rightarrow> user_projection \<Rightarrow> string \<Rightarrow> string option" where
  "EmailOwnerID c p email =
     (case fmlookup (ua_email_index p) (emailHash c email) of
        None \<Rightarrow> None
      | Some userID \<Rightarrow> if userID = [] then None else Some userID)"

definition EmailClaimed :: "crypto \<Rightarrow> user_projection \<Rightarrow> string \<Rightarrow> bool" where
  "EmailClaimed c p email \<longleftrightarrow> EmailOwnerID c p email \<noteq> None"

definition live_entry :: "user_projection \<Rightarrow> string \<Rightarrow> projected_user option" where
  "live_entry p userID =
     (case fmlookup (ua_users p) userID of None \<Rightarrow> None | Some u \<Rightarrow> if pu_deleted u then None else Some u)"

definition Avatar :: "user_projection \<Rightarrow> string \<Rightarrow> asset_record option" where
  "Avatar p userID = (case live_entry p userID of None \<Rightarrow> None | Some u \<Rightarrow> pu_avatar u)"

definition IsPublicAvatarAsset :: "user_projection \<Rightarrow> string \<Rightarrow> bool" where
  "IsPublicAvatarAsset p assetID \<longleftrightarrow> assetID \<noteq> [] \<and> 0 < avatar_count (ua_avatar_index p) assetID"

definition Preferences :: "user_projection \<Rightarrow> string \<Rightarrow> preferences option" where
  "Preferences p userID = (case live_entry p userID of None \<Rightarrow> None | Some u \<Rightarrow> pu_preferences u)"

definition HasVerifiedEmail :: "user_projection \<Rightarrow> string \<Rightarrow> bool" where
  "HasVerifiedEmail p userID =
     (case live_entry p userID of None \<Rightarrow> False | Some u \<Rightarrow> sortedMapKeys (pu_verified_email u) \<noteq> [])"

definition LoginChangedAt :: "user_projection \<Rightarrow> string \<Rightarrow> time" where
  "LoginChangedAt p userID =
     (case live_entry p userID of None \<Rightarrow> zero_time | Some u \<Rightarrow> pu_login_changed u)"

definition verifiedEmailEventID :: "crypto \<Rightarrow> user_projection \<Rightarrow> string \<Rightarrow> string \<Rightarrow> string option" where
  "verifiedEmailEventID c p userID email =
     (case fmlookup (ua_users p) userID of
        None \<Rightarrow> None
      | Some u \<Rightarrow>
          if pu_deleted u \<or> pu_shredded u then None
          else (case fmlookup (pu_verified_email u) (emailHash c email) of
                  None \<Rightarrow> None
                | Some v \<Rightarrow>
                    (case ve_pii v of
                       None \<Rightarrow> None
                     | Some pii \<Rightarrow> if up_event_id pii = [] then None else Some (up_event_id pii))))"

definition primaryVerifiedEmailEventID :: "user_projection \<Rightarrow> string \<Rightarrow> string" where
  "primaryVerifiedEmailEventID p userID =
     (case fmlookup (ua_users p) userID of
        None \<Rightarrow> []
      | Some u \<Rightarrow> if pu_deleted u \<or> pu_shredded u then [] else pu_primary_email u)"

definition Users_Count :: "user_projection \<Rightarrow> nat" where
  "Users_Count p =
     length (filter (\<lambda>u. \<not> pu_deleted u \<and> pu_user u \<noteq> None) (sortedMapValues (ua_users p)))"

definition VerifiedUserIDs :: "user_projection \<Rightarrow> string list" where
  "VerifiedUserIDs p =
     filter (\<lambda>i. live_entry p i \<noteq> None) (sorted_list_of_fset (fmran (ua_email_index p)))"

section \<open>Hydrating a profile\<close>

text \<open>A field together with the key event it needs, taken under the lock.\<close>

definition piiSnapshotLocked :: "user_projection \<Rightarrow> string \<Rightarrow> user_pii option \<Rightarrow> (user_pii \<times> dek_generated) option" where
  "piiSnapshotLocked p userID value =
     (case value of
        None \<Rightarrow> None
      | Some pii \<Rightarrow> map_option (Pair pii) (pii_dek p userID (es_epoch (up_encrypted pii))))"

datatype hydrate_error = ResolveProfileKey dek_fault | DecryptProfile

definition decryptPIISnapshot ::
  "crypto \<Rightarrow> string \<Rightarrow> (user_pii \<times> dek_generated) option \<Rightarrow> hydrate_error + string option" where
  "decryptPIISnapshot c userID snapshot =
     (case (snapshot, resolve_dek c) of
        (Some (pii, dek), Some resolve) \<Rightarrow>
          (case resolve dek DEK_PURPOSE_USER_PII of
             Inl fault \<Rightarrow> Inl (ResolveProfileKey fault)
           | Inr None \<Rightarrow> Inr None
           | Inr (Some key) \<Rightarrow>
               if key = [] then Inr None
               else (case decryptUserPIIString c key (up_event_id pii) userID (up_event_type pii)
                            (up_purpose pii) (up_encrypted pii) of
                       None \<Rightarrow> Inl DecryptProfile
                     | Some plaintext \<Rightarrow> Inr (Some plaintext)))
      | _ \<Rightarrow> Inr None)"

record user_profile =
  pr_user :: user
  pr_login :: string
  pr_display_name :: string
  pr_bio :: string

definition statusExpired :: "custom_status option \<Rightarrow> time \<Rightarrow> bool" where
  "statusExpired status now =
     (case status of
        None \<Rightarrow> False
      | Some s \<Rightarrow> (case cs_expires_at s of None \<Rightarrow> False | Some t \<Rightarrow> t \<le> now))"

definition hydrateUser ::
  "crypto \<Rightarrow> time \<Rightarrow> user_projection \<Rightarrow> projected_user \<Rightarrow> user \<Rightarrow> string \<Rightarrow> hydrate_error + user_profile option" where
  "hydrateUser c now p u usr owner =
     (let field = (\<lambda>v. decryptPIISnapshot c (us_id usr) (piiSnapshotLocked p owner v)) in
      case field (pu_login u) of
        Inl err \<Rightarrow> Inl err
      | Inr None \<Rightarrow> Inr None
      | Inr (Some login) \<Rightarrow>
          if login = [] then Inr None
          else (case field (pu_display_name u) of
            Inl err \<Rightarrow> Inl err
          | Inr None \<Rightarrow> Inr None
          | Inr (Some displayName) \<Rightarrow>
              if displayName = [] then Inr None
              else (case field (pu_bio u) of
                Inl err \<Rightarrow> Inl err
              | Inr bio \<Rightarrow>
                  Inr (Some
                    \<lparr>pr_user = (if statusExpired (us_custom_status usr) now
                                then usr\<lparr>us_custom_status := None\<rparr> else usr),
                     pr_login = login, pr_display_name = displayName,
                     pr_bio = (case bio of None \<Rightarrow> [] | Some b \<Rightarrow> b)\<rparr>))))"

definition GetContext ::
  "crypto \<Rightarrow> time \<Rightarrow> user_projection \<Rightarrow> string \<Rightarrow> hydrate_error + user_profile option" where
  "GetContext c now p userID =
     (case fmlookup (ua_users p) userID of
        None \<Rightarrow> Inr None
      | Some u \<Rightarrow>
          if pu_deleted u \<or> pu_shredded u then Inr None
          else (case pu_user u of None \<Rightarrow> Inr None | Some usr \<Rightarrow> hydrateUser c now p u usr userID))"

datatype user_reference = Live user_profile | DeletedUserReference string

definition GetReferenceContext ::
  "crypto \<Rightarrow> time \<Rightarrow> user_projection \<Rightarrow> string \<Rightarrow> hydrate_error + user_reference option" where
  "GetReferenceContext c now p userID =
     (case fmlookup (ua_users p) userID of
        None \<Rightarrow> Inr None
      | Some u \<Rightarrow>
          (case GetContext c now p userID of
             Inl err \<Rightarrow> Inl err
           | Inr (Some prof) \<Rightarrow> Inr (Some (Live prof))
           | Inr None \<Rightarrow>
               if pu_deleted u \<or> pu_shredded u then Inr (Some (DeletedUserReference userID)) else Inr None))"

definition GetByLoginContext ::
  "crypto \<Rightarrow> time \<Rightarrow> user_projection \<Rightarrow> string \<Rightarrow> hydrate_error + user_profile option" where
  "GetByLoginContext c now p login =
     (let lookupHash = userPIILookupHash c login in
      case fmlookup (ua_login_index p) lookupHash of
        None \<Rightarrow> Inr None
      | Some userID \<Rightarrow>
          if userID = [] then Inr None
          else (case GetContext c now p userID of
                  Inl err \<Rightarrow> Inl err
                | Inr None \<Rightarrow> Inr None
                | Inr (Some prof) \<Rightarrow>
                    if userPIILookupHash c (pr_login prof) \<noteq> lookupHash then Inr None
                    else Inr (Some prof)))"

end
