(* ===== verification/User_Accounts_Properties.thy ===== *)
theory User_Accounts_Properties
  imports User_Accounts
begin

text \<open>
  What the account projection guarantees: the two-phase path of the content view
  equals the direct one, key shredding is final for every log, and on every state
  reachable by events the writers emit the four lookup indexes say exactly what
  the account entries say.
\<close>

section \<open>Reading back an edited state\<close>

lemma ensure_put [simp]:
  "ensure_user i (put_user j u p) = (if i = j then u else ensure_user i p)"
  by (simp add: ensure_user_def put_user_def)

lemma ensure_cong: "ua_users p = ua_users q \<Longrightarrow> ensure_user i p = ensure_user i q"
  by (simp add: ensure_user_def)

lemma ensure_updates [simp]:
  "ensure_user i (p\<lparr>ua_login_index := a\<rparr>) = ensure_user i p"
  "ensure_user i (p\<lparr>ua_email_index := a\<rparr>) = ensure_user i p"
  "ensure_user i (p\<lparr>ua_avatar_index := x\<rparr>) = ensure_user i p"
  "ensure_user i (p\<lparr>ua_owner_bots := y\<rparr>) = ensure_user i p"
  "ensure_user i (p\<lparr>ua_guard := g\<rparr>) = ensure_user i p"
  "ensure_user i (p\<lparr>ua_dek_events := z\<rparr>) = ensure_user i p"
  by (simp_all add: ensure_user_def)

lemma put_user_fields [simp]:
  "ua_login_index (put_user i u p) = ua_login_index p"
  "ua_email_index (put_user i u p) = ua_email_index p"
  "ua_avatar_index (put_user i u p) = ua_avatar_index p"
  "ua_owner_bots (put_user i u p) = ua_owner_bots p"
  "ua_guard (put_user i u p) = ua_guard p"
  "ua_dek_events (put_user i u p) = ua_dek_events p"
  by (simp_all add: put_user_def)

lemma ua_users_put [simp]: "ua_users (put_user i u p) = fmupd i u (ua_users p)"
  by (simp add: put_user_def)

lemma release_fields [simp]:
  "ua_users (release_login i h p) = ua_users p"
  "ua_email_index (release_login i h p) = ua_email_index p"
  "ua_avatar_index (release_login i h p) = ua_avatar_index p"
  "ua_owner_bots (release_login i h p) = ua_owner_bots p"
  "ua_dek_events (release_login i h p) = ua_dek_events p"
  "ua_users (release_emails i p) = ua_users p"
  "ua_login_index (release_emails i p) = ua_login_index p"
  "ua_avatar_index (release_emails i p) = ua_avatar_index p"
  "ua_owner_bots (release_emails i p) = ua_owner_bots p"
  "ua_dek_events (release_emails i p) = ua_dek_events p"
  by (simp_all add: release_login_def release_emails_def)

lemma owner_index_fields [simp]:
  "ua_users (addBotOwnerIndex ow b p) = ua_users p"
  "ua_login_index (addBotOwnerIndex ow b p) = ua_login_index p"
  "ua_email_index (addBotOwnerIndex ow b p) = ua_email_index p"
  "ua_avatar_index (addBotOwnerIndex ow b p) = ua_avatar_index p"
  "ua_dek_events (addBotOwnerIndex ow b p) = ua_dek_events p"
  "ua_users (removeBotOwnerIndexLocked i u p) = ua_users p"
  "ua_login_index (removeBotOwnerIndexLocked i u p) = ua_login_index p"
  "ua_email_index (removeBotOwnerIndexLocked i u p) = ua_email_index p"
  "ua_avatar_index (removeBotOwnerIndexLocked i u p) = ua_avatar_index p"
  "ua_dek_events (removeBotOwnerIndexLocked i u p) = ua_dek_events p"
  by (simp_all add: addBotOwnerIndex_def removeBotOwnerIndexLocked_def Let_def split: option.split)

lemma ensure_helpers [simp]:
  "ensure_user i (release_login j h p) = ensure_user i p"
  "ensure_user i (release_emails j p) = ensure_user i p"
  "ensure_user i (addBotOwnerIndex ow b p) = ensure_user i p"
  "ensure_user i (removeBotOwnerIndexLocked j u p) = ensure_user i p"
  by (rule ensure_cong, simp)+

lemma release_login_lookup [simp]:
  "fmlookup (ua_login_index (release_login i h p)) x =
     (if x = h \<and> h \<noteq> [] \<and> fmlookup (ua_login_index p) h = Some i then None
      else fmlookup (ua_login_index p) x)"
  by (simp add: release_login_def)

lemma release_emails_lookup [simp]:
  "fmlookup (ua_email_index (release_emails i p)) x =
     (if fmlookup (ua_email_index p) x = Some i then None else fmlookup (ua_email_index p) x)"
  by (simp add: release_emails_def)

lemma owned_bots_add [simp]:
  "owned_bots (ua_owner_bots (addBotOwnerIndex ow b p)) x =
     (if x = ow then finsert b (owned_bots (ua_owner_bots p) ow) else owned_bots (ua_owner_bots p) x)"
  by (simp add: addBotOwnerIndex_def owned_bots_def)

definition bot_owner_of :: "projected_user \<Rightarrow> string option" where
  "bot_owner_of u =
     (case pu_user u of None \<Rightarrow> None | Some usr \<Rightarrow> if us_is_bot usr then Some (us_bot_owner usr) else None)"

lemma owned_bots_remove [simp]:
  "owned_bots (ua_owner_bots (removeBotOwnerIndexLocked i u p)) x =
     (if bot_owner_of u = Some x then owned_bots (ua_owner_bots p) x |-| {|i|}
      else owned_bots (ua_owner_bots p) x)"
  by (auto simp: removeBotOwnerIndexLocked_def bot_owner_of_def owned_bots_def Let_def split: option.split)

section \<open>The avatar counts\<close>

lemma avatar_count_drop [simp]:
  "avatar_count (drop_avatar_key k ix) x =
     (if x = k then (if avatar_count ix k \<le> 1 then 0 else avatar_count ix k - 1) else avatar_count ix x)"
  by (simp add: drop_avatar_key_def avatar_count_def)

lemma avatar_count_add [simp]:
  "avatar_count (add_avatar_key k ix) x = (if x = k then avatar_count ix k + 1 else avatar_count ix x)"
  by (simp add: add_avatar_key_def avatar_count_def)

lemma avatar_count_drops:
  "distinct ks \<Longrightarrow> avatar_count (fold drop_avatar_key ks ix) x =
     (if x \<in> set ks then (if avatar_count ix x \<le> 1 then 0 else avatar_count ix x - 1) else avatar_count ix x)"
  by (induction ks arbitrary: ix) auto

lemma avatar_count_adds:
  "distinct ks \<Longrightarrow> avatar_count (fold add_avatar_key ks ix) x =
     (if x \<in> set ks then avatar_count ix x + 1 else avatar_count ix x)"
  by (induction ks arbitrary: ix) auto

lemma key_list_facts [simp]: "distinct (key_list ks)" "set (key_list ks) = fset ks"
  by (simp_all add: key_list_def sorted_list_of_fset.rep_eq)

lemma replaceAvatar_fields [simp]:
  "ua_users (replaceAvatarLocked i u a p) = fmupd i (u\<lparr>pu_avatar := a\<rparr>) (ua_users p)"
  "ua_login_index (replaceAvatarLocked i u a p) = ua_login_index p"
  "ua_email_index (replaceAvatarLocked i u a p) = ua_email_index p"
  "ua_owner_bots (replaceAvatarLocked i u a p) = ua_owner_bots p"
  "ua_dek_events (replaceAvatarLocked i u a p) = ua_dek_events p"
  by (simp_all add: replaceAvatarLocked_def Let_def)

lemma ensure_replaceAvatar [simp]:
  "ensure_user j (replaceAvatarLocked i u a p) = (if j = i then u\<lparr>pu_avatar := a\<rparr> else ensure_user j p)"
  by (simp add: ensure_user_def)

lemma avatar_count_replace [simp]:
  "avatar_count (ua_avatar_index (replaceAvatarLocked i u a p)) x =
     (let dropped = (if x |\<in>| assetRecordKeys (pu_avatar u)
                     then (if avatar_count (ua_avatar_index p) x \<le> 1 then 0
                           else avatar_count (ua_avatar_index p) x - 1)
                     else avatar_count (ua_avatar_index p) x)
      in if \<not> pu_deleted u \<and> x |\<in>| assetRecordKeys a then dropped + 1 else dropped)"
  by (simp add: replaceAvatarLocked_def Let_def avatar_count_adds avatar_count_drops)

section \<open>The invariants\<close>

definition login_inv :: "user_projection \<Rightarrow> bool" where
  "login_inv p \<longleftrightarrow>
     (\<forall>h i. fmlookup (ua_login_index p) h = Some i \<longrightarrow>
        h \<noteq> [] \<and> pu_login_hash (ensure_user i p) = h \<and> active_entry (ensure_user i p))"

definition email_inv :: "user_projection \<Rightarrow> bool" where
  "email_inv p \<longleftrightarrow>
     (\<forall>h i. fmlookup (ua_email_index p) h = Some i \<longrightarrow>
        fmlookup (pu_verified_email (ensure_user i p)) h \<noteq> None \<and> active_entry (ensure_user i p))"

definition bots_inv :: "user_projection \<Rightarrow> bool" where
  "bots_inv p \<longleftrightarrow>
     (\<forall>ow b. b |\<in>| owned_bots (ua_owner_bots p) ow \<longleftrightarrow>
        active_entry (ensure_user b p) \<and> bot_owner_of (ensure_user b p) = Some ow \<and> ow \<noteq> [])"

definition avatar_holders :: "user_projection \<Rightarrow> string \<Rightarrow> string set" where
  "avatar_holders p k =
     {i. \<not> pu_deleted (ensure_user i p) \<and> k |\<in>| assetRecordKeys (pu_avatar (ensure_user i p))}"

definition avatar_inv :: "user_projection \<Rightarrow> bool" where
  "avatar_inv p \<longleftrightarrow>
     (\<forall>k. avatar_count (ua_avatar_index p) k = int (card (avatar_holders p k))) \<and>
     (\<forall>i. pu_deleted (ensure_user i p) \<longrightarrow> pu_avatar (ensure_user i p) = None)"

definition accounts_inv :: "user_projection \<Rightarrow> bool" where
  "accounts_inv p \<longleftrightarrow> login_inv p \<and> email_inv p \<and> bots_inv p \<and> avatar_inv p"

text \<open>What the invariants look at in an entry, and the operations that leave all of it alone.\<close>

definition entry_view ::
  "projected_user \<Rightarrow> string \<times> bool \<times> bool \<times> asset_record option \<times> (string, verified_email) fmap \<times> string option" where
  "entry_view u = (pu_login_hash u, pu_deleted u, pu_shredded u, pu_avatar u, pu_verified_email u, bot_owner_of u)"

definition quiet :: "user_projection \<Rightarrow> user_projection \<Rightarrow> bool" where
  "quiet p q \<longleftrightarrow>
     (\<forall>i. entry_view (ensure_user i q) = entry_view (ensure_user i p)) \<and>
     ua_login_index q = ua_login_index p \<and> ua_email_index q = ua_email_index p \<and>
     ua_avatar_index q = ua_avatar_index p \<and> ua_owner_bots q = ua_owner_bots p"

lemma quiet_refl [simp]: "quiet p p"
  by (simp add: quiet_def)

lemma accounts_inv_quiet: "quiet p q \<Longrightarrow> accounts_inv p \<Longrightarrow> accounts_inv q"
  unfolding quiet_def entry_view_def accounts_inv_def login_inv_def email_inv_def bots_inv_def
    avatar_inv_def avatar_holders_def active_entry_def by simp

lemma quiet_edit:
  "(\<And>u. entry_view (f u) = entry_view u) \<Longrightarrow> quiet p (edit_user i f p)"
  by (simp add: quiet_def edit_user_def)

lemma quiet_put: "entry_view u = entry_view (ensure_user i p) \<Longrightarrow> quiet p (put_user i u p)"
  by (simp add: quiet_def)

lemma quiet_operations:
  "quiet p (applyDisplayNameChanged ei i enc p)"
  "quiet p (applyBioChanged ei i enc p)"
  "quiet p (applyPrimaryEmailChanged i x p)"
  "quiet p (applyServerPreferencesChanged i pf p)"
  "quiet p (applyLoginCooldownStarted i t p)"
  "quiet p (applyLoginCooldownCleared i p)"
  "quiet p (applyCustomStatusSet i s p)"
  "quiet p (applyCustomStatusCleared i p)"
  unfolding applyDisplayNameChanged_def applyBioChanged_def applyPrimaryEmailChanged_def
    applyServerPreferencesChanged_def applyLoginCooldownStarted_def applyLoginCooldownCleared_def
    applyCustomStatusSet_def applyCustomStatusCleared_def
  by (auto intro!: quiet_edit
      simp: entry_view_def bot_owner_of_def plain_user_def split: option.splits)

lemma quiet_deactivation: "quiet p (applyAccountDeactivationChanged i b p)"
  by (auto simp: applyAccountDeactivationChanged_def entry_view_def bot_owner_of_def ensure_user_def
      intro!: quiet_put split: option.splits)

lemma quiet_dek: "quiet p (applyDEKGenerated d p)"
  by (simp add: applyDEKGenerated_def quiet_def)

lemma quiet_guard: "quiet p (set_ua_guard g p)"
  by (simp add: set_ua_guard_def quiet_def)

section \<open>Every operation keeps the invariants\<close>

lemma finite_avatar_holders [simp]: "finite (avatar_holders p k)"
proof (rule finite_subset)
  show "avatar_holders p k \<subseteq> fset (fmdom (ua_users p))"
  proof
    fix i
    assume "i \<in> avatar_holders p k"
    then have "ensure_user i p \<noteq> empty_user"
      by (auto simp: avatar_holders_def assetRecordKeys_def empty_user_def)
    then show "i \<in> fset (fmdom (ua_users p))"
      by (auto simp: ensure_user_def fmlookup_dom_iff split: option.splits)
  qed
qed simp

lemma avatar_inv_cong:
  assumes "avatar_inv p"
    and "\<And>i. pu_avatar (ensure_user i q) = pu_avatar (ensure_user i p)"
    and "\<And>i. pu_deleted (ensure_user i q) = pu_deleted (ensure_user i p)"
    and "ua_avatar_index q = ua_avatar_index p"
  shows "avatar_inv q"
  using assms by (simp add: avatar_inv_def avatar_holders_def)

lemma login_inv_cong:
  assumes "login_inv p" and "ua_login_index q = ua_login_index p"
    and "\<And>i. pu_login_hash (ensure_user i q) = pu_login_hash (ensure_user i p)"
    and "\<And>i. active_entry (ensure_user i q) = active_entry (ensure_user i p)"
  shows "login_inv q"
  using assms by (simp add: login_inv_def)

lemma email_inv_cong:
  assumes "email_inv p" and "ua_email_index q = ua_email_index p"
    and "\<And>i. pu_verified_email (ensure_user i q) = pu_verified_email (ensure_user i p)"
    and "\<And>i. active_entry (ensure_user i q) = active_entry (ensure_user i p)"
  shows "email_inv q"
  using assms by (simp add: email_inv_def)

lemma bots_inv_cong:
  assumes "bots_inv p" and "ua_owner_bots q = ua_owner_bots p"
    and "\<And>i. active_entry (ensure_user i p) \<or> active_entry (ensure_user i q) \<Longrightarrow>
           bot_owner_of (ensure_user i q) = bot_owner_of (ensure_user i p)"
    and "\<And>i. active_entry (ensure_user i q) = active_entry (ensure_user i p)"
  shows "bots_inv q"
  using assms unfolding bots_inv_def by metis

lemma avatar_inv_replace:
  assumes inv: "avatar_inv p"
    and same: "pu_avatar u = pu_avatar (ensure_user i p)"
    and mono: "pu_deleted (ensure_user i p) \<longrightarrow> pu_deleted u"
    and gone: "pu_deleted u \<longrightarrow> a = None"
  shows "avatar_inv (replaceAvatarLocked i u a p)"
proof -
  have "avatar_count (ua_avatar_index (replaceAvatarLocked i u a p)) k
      = int (card (avatar_holders (replaceAvatarLocked i u a p) k))" for k
  proof -
    let ?old = "avatar_holders p k"
    have count: "avatar_count (ua_avatar_index p) k = int (card ?old)"
      using inv by (simp add: avatar_inv_def)
    have iff: "i \<in> ?old \<longleftrightarrow> k |\<in>| assetRecordKeys (pu_avatar u)"
      using inv same by (auto simp: avatar_holders_def avatar_inv_def assetRecordKeys_def)
    have holders: "avatar_holders (replaceAvatarLocked i u a p) k
        = (if \<not> pu_deleted u \<and> k |\<in>| assetRecordKeys a then insert i (?old - {i}) else ?old - {i})"
      by (auto simp: avatar_holders_def)
    show ?thesis
    proof (cases "i \<in> ?old")
      case True
      then have pos: "0 < card ?old" by (auto simp: card_gt_0_iff)
      with True iff count holders show ?thesis
        by (simp add: Let_def card_Diff_singleton insert_absorb)
    next
      case False
      with iff count holders show ?thesis by (simp add: Let_def)
    qed
  qed
  moreover have "pu_deleted (ensure_user j (replaceAvatarLocked i u a p))
      \<longrightarrow> pu_avatar (ensure_user j (replaceAvatarLocked i u a p)) = None" for j
    using inv gone by (simp add: avatar_inv_def)
  ultimately show ?thesis by (simp add: avatar_inv_def)
qed

text \<open>An avatar change leaves the other three indexes alone.\<close>

lemma other_inv_replace:
  assumes "entry_view (u\<lparr>pu_avatar := x\<rparr>) = entry_view ((ensure_user i p)\<lparr>pu_avatar := x\<rparr>)"
  shows "login_inv p \<Longrightarrow> login_inv (replaceAvatarLocked i u a p)"
    and "email_inv p \<Longrightarrow> email_inv (replaceAvatarLocked i u a p)"
    and "bots_inv p \<Longrightarrow> bots_inv (replaceAvatarLocked i u a p)"
  using assms
  by (auto simp: login_inv_def email_inv_def bots_inv_def entry_view_def active_entry_def bot_owner_of_def)

lemma accounts_inv_replace:
  assumes "accounts_inv p" and "pu_deleted (ensure_user i p) \<longrightarrow> a = None"
  shows "accounts_inv (replaceAvatarLocked i (ensure_user i p) a p)"
  using assms other_inv_replace [OF refl] avatar_inv_replace [of p "ensure_user i p" i a]
  by (simp add: accounts_inv_def)

lemma accounts_inv_clear_if: "accounts_inv p \<Longrightarrow> accounts_inv (clear_avatar_if x i p)"
  using accounts_inv_replace [of p i None]
  by (auto simp: clear_avatar_if_def ensure_user_def split: option.splits)

lemma accounts_inv_fold:
  "accounts_inv p \<Longrightarrow> accounts_inv (fold (clear_avatar_if x) is p)"
  by (induction "is" arbitrary: p) (auto intro: accounts_inv_clear_if)

lemma accounts_inv_avatar_operations:
  assumes "accounts_inv p" and "\<not> pu_deleted (ensure_user i p)"
  shows "accounts_inv (applyAvatarSet i av p)" and "accounts_inv (applyAssetCreated i asset p)"
proof -
  have "accounts_inv (put_user i (ensure_user i p) p)"
    using accounts_inv_quiet [OF quiet_put assms(1)] by blast
  then show "accounts_inv (applyAvatarSet i av p)" "accounts_inv (applyAssetCreated i asset p)"
    using accounts_inv_replace assms
    by (auto simp: applyAvatarSet_def applyAssetCreated_def Let_def split: option.split)
qed

lemma accounts_inv_avatar_removals:
  assumes "accounts_inv p"
  shows "accounts_inv (applyAvatarCleared i p)" and "accounts_inv (applyAssetDeleted x p)"
  using assms accounts_inv_replace [of p i None] accounts_inv_fold
  by (auto simp: applyAvatarCleared_def applyAssetDeleted_def)

text \<open>A reassigned bot moves from its old owner's set to the new one's.\<close>

lemma accounts_inv_reassigned:
  assumes inv: "accounts_inv p"
  shows "accounts_inv (applyBotOwnerReassigned b ow p)"
proof (cases "applyBotOwnerReassigned b ow p = p")
  case True
  with inv show ?thesis by simp
next
  case False
  then obtain u usr where ok: "b \<noteq> []" "ow \<noteq> []" "fmlookup (ua_users p) b = Some u" "pu_user u = Some usr"
      "\<not> pu_deleted u" "\<not> pu_shredded u" "us_is_bot usr"
    by (auto simp: applyBotOwnerReassigned_def split: if_splits option.splits)
  let ?u' = "u\<lparr>pu_user := Some (usr\<lparr>us_bot_owner := ow\<rparr>)\<rparr>"
  let ?q = "addBotOwnerIndex ow b (put_user b ?u' (removeBotOwnerIndexLocked b u p))"
  have q: "applyBotOwnerReassigned b ow p = ?q"
    using ok by (simp add: applyBotOwnerReassigned_def)
  have old: "ensure_user b p = u" using ok by (simp add: ensure_user_def)
  have new: "ensure_user j ?q = (if j = b then ?u' else ensure_user j p)" for j
    by simp
  have entries: "pu_login_hash (ensure_user j ?q) = pu_login_hash (ensure_user j p)"
      "active_entry (ensure_user j ?q) = active_entry (ensure_user j p)"
      "pu_verified_email (ensure_user j ?q) = pu_verified_email (ensure_user j p)"
      "pu_avatar (ensure_user j ?q) = pu_avatar (ensure_user j p)"
      "pu_deleted (ensure_user j ?q) = pu_deleted (ensure_user j p)" for j
    unfolding new by (cases "j = b"; simp add: old active_entry_def)+
  have invs: "login_inv p" "email_inv p" "avatar_inv p"
    using inv by (simp_all add: accounts_inv_def)
  have "login_inv ?q"
    by (rule login_inv_cong [OF invs(1) _ entries(1,2)]) simp
  moreover have "email_inv ?q"
    by (rule email_inv_cong [OF invs(2) _ entries(3,2)]) simp
  moreover have "avatar_inv ?q"
    by (rule avatar_inv_cong [OF invs(3) entries(4,5)]) simp
  moreover have "bots_inv ?q"
  proof -
    have mem: "b |\<in>| owned_bots (ua_owner_bots p) x \<longleftrightarrow> us_bot_owner usr = x \<and> x \<noteq> []" for x
      using inv old ok by (auto simp: accounts_inv_def bots_inv_def active_entry_def bot_owner_of_def)
    have others: "y |\<in>| owned_bots (ua_owner_bots p) x \<longleftrightarrow>
        active_entry (ensure_user y p) \<and> bot_owner_of (ensure_user y p) = Some x \<and> x \<noteq> []" for x y
      using inv by (simp add: accounts_inv_def bots_inv_def)
    have owner: "bot_owner_of u = Some (us_bot_owner usr)" "bot_owner_of ?u' = Some ow" "active_entry ?u'"
      using ok by (simp_all add: bot_owner_of_def active_entry_def)
    show ?thesis
      unfolding bots_inv_def
    proof (intro allI)
      fix x y
      show "y |\<in>| owned_bots (ua_owner_bots ?q) x \<longleftrightarrow>
          active_entry (ensure_user y ?q) \<and> bot_owner_of (ensure_user y ?q) = Some x \<and> x \<noteq> []"
        using owner mem ok(2) others [of y x] by (cases "y = b") (auto simp: active_entry_def)
    qed
  qed
  ultimately show ?thesis by (simp add: q accounts_inv_def)
qed

text \<open>An account that goes away leaves every index.\<close>

lemma login_inv_retired:
  assumes inv: "login_inv p" and others: "\<And>j. j \<noteq> i \<Longrightarrow> ensure_user j q = ensure_user j p"
    and index: "ua_login_index q = ua_login_index (release_login i (pu_login_hash (ensure_user i p)) p)"
  shows "login_inv q"
  unfolding login_inv_def
proof (intro allI impI)
  fix h j
  assume "fmlookup (ua_login_index q) h = Some j"
  then have rel: "fmlookup (ua_login_index (release_login i (pu_login_hash (ensure_user i p)) p)) h = Some j"
    by (simp only: index)
  then have h: "fmlookup (ua_login_index p) h = Some j" by (simp split: if_splits)
  have "j \<noteq> i"
  proof
    assume "j = i"
    with h inv have "h \<noteq> []" "pu_login_hash (ensure_user i p) = h" by (auto simp: login_inv_def)
    with rel h \<open>j = i\<close> show False by simp
  qed
  with h inv others show "h \<noteq> [] \<and> pu_login_hash (ensure_user j q) = h \<and> active_entry (ensure_user j q)"
    by (simp add: login_inv_def)
qed

lemma email_inv_retired:
  assumes inv: "email_inv p" and others: "\<And>j. j \<noteq> i \<Longrightarrow> ensure_user j q = ensure_user j p"
    and index: "ua_email_index q = ua_email_index (release_emails i p)"
  shows "email_inv q"
  unfolding email_inv_def
proof (intro allI impI)
  fix h j
  assume "fmlookup (ua_email_index q) h = Some j"
  then have h: "fmlookup (ua_email_index p) h = Some j" "j \<noteq> i"
    by (auto simp: index split: if_splits)
  with inv others show "fmlookup (pu_verified_email (ensure_user j q)) h \<noteq> None \<and> active_entry (ensure_user j q)"
    by (simp add: email_inv_def)
qed

lemma bots_inv_retired:
  assumes inv: "bots_inv p" and others: "\<And>j. j \<noteq> i \<Longrightarrow> ensure_user j q = ensure_user j p"
    and index: "ua_owner_bots q = ua_owner_bots (removeBotOwnerIndexLocked i u p')"
    and base: "ua_owner_bots p' = ua_owner_bots p"
    and owner: "bot_owner_of u = bot_owner_of (ensure_user i p)"
    and gone: "\<not> active_entry (ensure_user i q)"
  shows "bots_inv q"
  unfolding bots_inv_def
proof (intro allI)
  fix x y
  have p: "y |\<in>| owned_bots (ua_owner_bots p) x \<longleftrightarrow>
      active_entry (ensure_user y p) \<and> bot_owner_of (ensure_user y p) = Some x \<and> x \<noteq> []"
    using inv by (simp add: bots_inv_def)
  show "y |\<in>| owned_bots (ua_owner_bots q) x \<longleftrightarrow>
      active_entry (ensure_user y q) \<and> bot_owner_of (ensure_user y q) = Some x \<and> x \<noteq> []"
    using p others gone owner by (cases "y = i") (auto simp: index base)
qed

lemma accounts_inv_deleted:
  assumes inv: "accounts_inv p"
  shows "accounts_inv (applyAccountDeleted i p)"
proof (cases "i = []")
  case True
  with inv show ?thesis by (simp add: applyAccountDeleted_def)
next
  case False
  let ?u = "(ensure_user i p)\<lparr>pu_deleted := True\<rparr>"
  let ?p3 = "release_emails i (release_login i (pu_login_hash ?u) (removeBotOwnerIndexLocked i ?u p))"
  let ?p4 = "replaceAvatarLocked i ?u None ?p3"
  have invs: "login_inv p" "email_inv p" "bots_inv p" "avatar_inv p"
    using inv by (simp_all add: accounts_inv_def)
  have avatar3: "avatar_inv ?p3"
    by (rule avatar_inv_cong [OF invs(4)]) simp_all
  have avatar4: "avatar_inv ?p4"
    by (rule avatar_inv_replace [OF avatar3]) simp_all
  have others: "j \<noteq> i \<Longrightarrow> ensure_user j (applyAccountDeleted i p) = ensure_user j p" for j
    using False by (simp add: applyAccountDeleted_def Let_def)
  have entry: "pu_deleted (ensure_user i (applyAccountDeleted i p))"
    "pu_avatar (ensure_user i (applyAccountDeleted i p)) = None"
    using False by (simp_all add: applyAccountDeleted_def Let_def)
  have ix: "ua_login_index (applyAccountDeleted i p) = ua_login_index (release_login i (pu_login_hash (ensure_user i p)) p)"
    "ua_email_index (applyAccountDeleted i p) = ua_email_index (release_emails i p)"
    "ua_owner_bots (applyAccountDeleted i p) = ua_owner_bots (removeBotOwnerIndexLocked i ?u p)"
    "ua_avatar_index (applyAccountDeleted i p) = ua_avatar_index ?p4"
    using False by (simp_all add: applyAccountDeleted_def Let_def release_login_def release_emails_def)
  have "login_inv (applyAccountDeleted i p)"
    by (rule login_inv_retired [OF invs(1) others ix(1)])
  moreover have "email_inv (applyAccountDeleted i p)"
    by (rule email_inv_retired [OF invs(2) others ix(2)])
  moreover have "bots_inv (applyAccountDeleted i p)"
    by (rule bots_inv_retired [OF invs(3) others ix(3) refl])
      (simp_all add: entry bot_owner_of_def active_entry_def)
  moreover have "avatar_inv (applyAccountDeleted i p)"
  proof (rule avatar_inv_cong [OF avatar4 _ _ ix(4)])
    show "pu_avatar (ensure_user j (applyAccountDeleted i p)) = pu_avatar (ensure_user j ?p4)" for j
      by (cases "j = i") (simp_all add: entry others)
    show "pu_deleted (ensure_user j (applyAccountDeleted i p)) = pu_deleted (ensure_user j ?p4)" for j
      by (cases "j = i") (simp_all add: entry others)
  qed
  ultimately show ?thesis by (simp add: accounts_inv_def)
qed

lemma accounts_inv_shredded:
  assumes inv: "accounts_inv p"
  shows "accounts_inv (applyKeyShredded i p)"
proof (cases "i = []")
  case True
  with inv show ?thesis by (simp add: applyKeyShredded_def)
next
  case False
  let ?q = "applyKeyShredded i p"
  have invs: "login_inv p" "email_inv p" "bots_inv p" "avatar_inv p"
    using inv by (simp_all add: accounts_inv_def)
  have others: "j \<noteq> i \<Longrightarrow> ensure_user j ?q = ensure_user j p" for j
    using False by (simp add: applyKeyShredded_def Let_def)
  have entry: "pu_shredded (ensure_user i ?q)" "pu_avatar (ensure_user i ?q) = pu_avatar (ensure_user i p)"
    "pu_deleted (ensure_user i ?q) = pu_deleted (ensure_user i p)"
    using False by (simp_all add: applyKeyShredded_def Let_def)
  let ?p0 = "p\<lparr>ua_dek_events := fmdrop i (ua_dek_events p)\<rparr>"
  have ix: "ua_login_index ?q = ua_login_index (release_login i (pu_login_hash (ensure_user i p)) p)"
    "ua_email_index ?q = ua_email_index (release_emails i p)"
    "ua_owner_bots ?q = ua_owner_bots (removeBotOwnerIndexLocked i (ensure_user i p) ?p0)"
    "ua_avatar_index ?q = ua_avatar_index p"
    using False by (simp_all add: applyKeyShredded_def Let_def release_login_def release_emails_def)
  have "login_inv ?q" "email_inv ?q"
    using login_inv_retired [OF invs(1) others ix(1)] email_inv_retired [OF invs(2) others ix(2)] by simp_all
  moreover have "bots_inv ?q"
    by (rule bots_inv_retired [OF invs(3) others ix(3)]) (simp_all add: entry active_entry_def)
  moreover have "avatar_inv ?q"
  proof (rule avatar_inv_cong [OF invs(4) _ _ ix(4)])
    show "pu_avatar (ensure_user j ?q) = pu_avatar (ensure_user j p)" for j
      by (cases "j = i") (simp_all add: entry others)
    show "pu_deleted (ensure_user j ?q) = pu_deleted (ensure_user j p)" for j
      by (cases "j = i") (simp_all add: entry others)
  qed
  ultimately show ?thesis by (simp add: accounts_inv_def)
qed

text \<open>The digest of a lookup value is never empty: it is the hex form of a SHA-256.\<close>

definition digest_ok :: "crypto \<Rightarrow> bool" where
  "digest_ok c \<longleftrightarrow> (\<forall>v. lookup_digest c v \<noteq> [])"

lemma accounts_inv_created:
  assumes inv: "accounts_inv p" and digest: "digest_ok c"
    and new: "fmlookup (ua_users p) (ac_user_id a) = None"
  shows "accounts_inv (applyAccountCreatedWithLogin c ei a t login p)"
proof -
  let ?i = "ac_user_id a" and ?h = "userPIILookupHash c login"
  let ?q = "applyAccountCreatedWithLogin c ei a t login p"
  have old: "ensure_user ?i p = empty_user" using new by (simp add: ensure_user_def)
  have h: "?h \<noteq> []" using digest by (simp add: digest_ok_def userPIILookupHash_def)
  have invs: "login_inv p" "email_inv p" "bots_inv p" "avatar_inv p"
    using inv by (simp_all add: accounts_inv_def)
  have others: "j \<noteq> ?i \<Longrightarrow> ensure_user j ?q = ensure_user j p" for j
    by (simp add: applyAccountCreatedWithLogin_def Let_def)
  have entry: "pu_login_hash (ensure_user ?i ?q) = ?h" "active_entry (ensure_user ?i ?q)"
    "pu_avatar (ensure_user ?i ?q) = None" "\<not> pu_deleted (ensure_user ?i ?q)"
    "bot_owner_of (ensure_user ?i ?q) = (if ac_is_bot a then Some (ac_bot_owner a) else None)"
    by (simp_all add: applyAccountCreatedWithLogin_def Let_def active_entry_def bot_owner_of_def old empty_user_def)
  have ix: "ua_login_index ?q = fmupd ?h ?i (ua_login_index p)" "ua_email_index ?q = ua_email_index p"
    "ua_avatar_index ?q = ua_avatar_index p"
    "owned_bots (ua_owner_bots ?q) x =
       (if ac_is_bot a \<and> ac_bot_owner a \<noteq> [] \<and> x = ac_bot_owner a
        then finsert ?i (owned_bots (ua_owner_bots p) x) else owned_bots (ua_owner_bots p) x)" for x
    by (simp_all add: applyAccountCreatedWithLogin_def Let_def)
  have none: "pu_login_hash empty_user = []" "fmlookup (pu_verified_email empty_user) x = None"
    "bot_owner_of empty_user = None" "pu_avatar empty_user = None" "\<not> pu_deleted empty_user" for x
    by (simp_all add: empty_user_def bot_owner_of_def)
  have unnamed: "fmlookup (ua_login_index p) x \<noteq> Some ?i" "fmlookup (ua_email_index p) x \<noteq> Some ?i"
    "?i |\<notin>| owned_bots (ua_owner_bots p) x" for x
    using invs(1) [unfolded login_inv_def, rule_format, of x ?i] invs(2) [unfolded email_inv_def, rule_format, of x ?i]
      invs(3) [unfolded bots_inv_def, rule_format, of ?i x]
    by (auto simp: none old)
  have "login_inv ?q"
    unfolding login_inv_def ix(1)
  proof (intro allI impI)
    fix x j
    assume x: "fmlookup (fmupd ?h ?i (ua_login_index p)) x = Some j"
    show "x \<noteq> [] \<and> pu_login_hash (ensure_user j ?q) = x \<and> active_entry (ensure_user j ?q)"
    proof (cases "x = ?h")
      case True
      with x h entry show ?thesis by simp
    next
      case False
      with x have "fmlookup (ua_login_index p) x = Some j" by simp
      moreover from this unnamed(1) have "j \<noteq> ?i" by blast
      ultimately show ?thesis using invs(1) others by (simp add: login_inv_def)
    qed
  qed
  moreover have "email_inv ?q"
    unfolding email_inv_def ix(2)
    using invs(2) others unnamed(2) unfolding email_inv_def by metis
  moreover have "bots_inv ?q"
    unfolding bots_inv_def
  proof (intro allI)
    fix x y
    show "y |\<in>| owned_bots (ua_owner_bots ?q) x \<longleftrightarrow>
        active_entry (ensure_user y ?q) \<and> bot_owner_of (ensure_user y ?q) = Some x \<and> x \<noteq> []"
      using invs(3) others [of y] entry unnamed(3) [of x] unfolding bots_inv_def ix(4)
      by (cases "y = ?i") auto
  qed
  moreover have "avatar_inv ?q"
  proof (rule avatar_inv_cong [OF invs(4) _ _ ix(3)])
    show "pu_avatar (ensure_user j ?q) = pu_avatar (ensure_user j p)" for j
      by (cases "j = ?i") (simp_all add: entry others old none)
    show "pu_deleted (ensure_user j ?q) = pu_deleted (ensure_user j p)" for j
      by (cases "j = ?i") (simp_all add: entry others old none)
  qed
  ultimately show ?thesis by (simp add: accounts_inv_def)
qed

lemma accounts_inv_login_changed:
  assumes inv: "accounts_inv p" and digest: "digest_ok c" and active: "active_entry (ensure_user i p)"
  shows "accounts_inv (applyLoginChangedWithLogin c ei i enc t login p)"
proof -
  let ?h = "userPIILookupHash c login"
  let ?q = "applyLoginChangedWithLogin c ei i enc t login p"
  have h: "?h \<noteq> []" using digest by (simp add: digest_ok_def userPIILookupHash_def)
  have invs: "login_inv p" "email_inv p" "bots_inv p" "avatar_inv p"
    using inv by (simp_all add: accounts_inv_def)
  have others: "j \<noteq> i \<Longrightarrow> ensure_user j ?q = ensure_user j p" for j
    by (simp add: applyLoginChangedWithLogin_def Let_def)
  have entry: "pu_login_hash (ensure_user i ?q) = ?h"
    "active_entry (ensure_user i ?q) = active_entry (ensure_user i p)"
    "pu_verified_email (ensure_user i ?q) = pu_verified_email (ensure_user i p)"
    "pu_avatar (ensure_user i ?q) = pu_avatar (ensure_user i p)"
    "pu_deleted (ensure_user i ?q) = pu_deleted (ensure_user i p)"
    "bot_owner_of (ensure_user i ?q) = bot_owner_of (ensure_user i p)"
    by (simp_all add: applyLoginChangedWithLogin_def Let_def active_entry_def bot_owner_of_def plain_user_def
        split: option.split)
  have same: "active_entry (ensure_user j ?q) = active_entry (ensure_user j p)"
    "pu_verified_email (ensure_user j ?q) = pu_verified_email (ensure_user j p)"
    "pu_avatar (ensure_user j ?q) = pu_avatar (ensure_user j p)"
    "pu_deleted (ensure_user j ?q) = pu_deleted (ensure_user j p)"
    "bot_owner_of (ensure_user j ?q) = bot_owner_of (ensure_user j p)" for j
    by (cases "j = i"; simp add: entry others)+
  have ix: "ua_login_index ?q = fmupd ?h i (ua_login_index (release_login i (pu_login_hash (ensure_user i p)) p))"
    "ua_email_index ?q = ua_email_index p" "ua_avatar_index ?q = ua_avatar_index p"
    "ua_owner_bots ?q = ua_owner_bots p"
    by (simp_all add: applyLoginChangedWithLogin_def Let_def split: option.split)
  have "login_inv ?q"
    unfolding login_inv_def ix(1)
  proof (intro allI impI)
    fix x j
    assume x: "fmlookup (fmupd ?h i (ua_login_index (release_login i (pu_login_hash (ensure_user i p)) p))) x = Some j"
    show "x \<noteq> [] \<and> pu_login_hash (ensure_user j ?q) = x \<and> active_entry (ensure_user j ?q)"
    proof (cases "x = ?h")
      case True
      with x h entry active show ?thesis by simp
    next
      case False
      with x have x': "fmlookup (ua_login_index p) x = Some j"
        and rel: "\<not> (x = pu_login_hash (ensure_user i p) \<and> x \<noteq> [] \<and> fmlookup (ua_login_index p) x = Some i)"
        by (auto split: if_splits)
      then have "j \<noteq> i" using invs(1) by (auto simp: login_inv_def)
      with x' show ?thesis using invs(1) others by (simp add: login_inv_def)
    qed
  qed
  moreover have "email_inv ?q" by (rule email_inv_cong [OF invs(2) ix(2) same(2,1)])
  moreover have "bots_inv ?q" by (rule bots_inv_cong [OF invs(3) ix(4) same(5,1)])
  moreover have "avatar_inv ?q" by (rule avatar_inv_cong [OF invs(4) same(3,4) ix(3)])
  ultimately show ?thesis by (simp add: accounts_inv_def)
qed

lemma accounts_inv_email_added:
  assumes inv: "accounts_inv p" and active: "active_entry (ensure_user i p)"
  shows "accounts_inv (applyVerifiedEmailAddedWithEmail c now ei i enc t email p)"
proof -
  let ?h = "emailHash c email"
  let ?q = "applyVerifiedEmailAddedWithEmail c now ei i enc t email p"
  have invs: "login_inv p" "email_inv p" "bots_inv p" "avatar_inv p"
    using inv by (simp_all add: accounts_inv_def)
  have others: "j \<noteq> i \<Longrightarrow> ensure_user j ?q = ensure_user j p" for j
    by (simp add: applyVerifiedEmailAddedWithEmail_def Let_def)
  have entry: "pu_login_hash (ensure_user i ?q) = pu_login_hash (ensure_user i p)"
    "active_entry (ensure_user i ?q) = active_entry (ensure_user i p)"
    "fmlookup (pu_verified_email (ensure_user i ?q)) x = None \<longleftrightarrow>
       x \<noteq> ?h \<and> fmlookup (pu_verified_email (ensure_user i p)) x = None"
    "pu_avatar (ensure_user i ?q) = pu_avatar (ensure_user i p)"
    "pu_deleted (ensure_user i ?q) = pu_deleted (ensure_user i p)"
    "bot_owner_of (ensure_user i ?q) = bot_owner_of (ensure_user i p)" for x
    by (simp_all add: applyVerifiedEmailAddedWithEmail_def Let_def active_entry_def bot_owner_of_def)
  have same: "active_entry (ensure_user j ?q) = active_entry (ensure_user j p)"
    "pu_login_hash (ensure_user j ?q) = pu_login_hash (ensure_user j p)"
    "pu_avatar (ensure_user j ?q) = pu_avatar (ensure_user j p)"
    "pu_deleted (ensure_user j ?q) = pu_deleted (ensure_user j p)"
    "bot_owner_of (ensure_user j ?q) = bot_owner_of (ensure_user j p)" for j
    by (cases "j = i"; simp add: entry others)+
  have ix: "ua_email_index ?q = fmupd ?h i (ua_email_index p)" "ua_login_index ?q = ua_login_index p"
    "ua_avatar_index ?q = ua_avatar_index p" "ua_owner_bots ?q = ua_owner_bots p"
    by (simp_all add: applyVerifiedEmailAddedWithEmail_def Let_def)
  have "email_inv ?q"
    unfolding email_inv_def ix(1)
  proof (intro allI impI)
    fix x j
    assume x: "fmlookup (fmupd ?h i (ua_email_index p)) x = Some j"
    show "fmlookup (pu_verified_email (ensure_user j ?q)) x \<noteq> None \<and> active_entry (ensure_user j ?q)"
      using x invs(2) others [of j] entry(2,3) active
      by (cases "x = ?h"; cases "j = i") (auto simp: email_inv_def)
  qed
  moreover have "login_inv ?q" by (rule login_inv_cong [OF invs(1) ix(2) same(2,1)])
  moreover have "bots_inv ?q" by (rule bots_inv_cong [OF invs(3) ix(4) same(5,1)])
  moreover have "avatar_inv ?q" by (rule avatar_inv_cong [OF invs(4) same(3,4) ix(3)])
  ultimately show ?thesis by (simp add: accounts_inv_def)
qed

section \<open>Shredding seals an account\<close>

text \<open>
  A sealed account has no key, so no event can resolve one of its lookup values
  again, and no e-mail claim. Every operation keeps sealed accounts sealed, and
  shreds an account only by sealing it.
\<close>

definition sealed :: "string \<Rightarrow> user_projection \<Rightarrow> bool" where
  "sealed i p \<longleftrightarrow>
     pu_shredded (ensure_user i p) \<and> fmlookup (ua_dek_events p) i = None \<and>
     (\<forall>h. fmlookup (ua_email_index p) h \<noteq> Some i)"

definition seal_step :: "user_projection \<Rightarrow> user_projection \<Rightarrow> bool" where
  "seal_step p q \<longleftrightarrow>
     (\<forall>i. (sealed i p \<longrightarrow> sealed i q) \<and>
          (pu_shredded (ensure_user i q) \<longrightarrow> pu_shredded (ensure_user i p) \<or> sealed i q))"

lemma seal_step_refl [simp]: "seal_step p p"
  by (simp add: seal_step_def)

lemma seal_step_trans: "seal_step p q \<Longrightarrow> seal_step q r \<Longrightarrow> seal_step p r"
  unfolding seal_step_def by blast

lemma seal_step_same:
  assumes "\<And>i. pu_shredded (ensure_user i q) = pu_shredded (ensure_user i p)"
    and "ua_dek_events q = ua_dek_events p" and "ua_email_index q = ua_email_index p"
  shows "seal_step p q"
  using assms by (simp add: seal_step_def sealed_def)

lemma seal_step_quiet: "quiet p q \<Longrightarrow> ua_dek_events q = ua_dek_events p \<Longrightarrow> seal_step p q"
  by (rule seal_step_same) (auto simp: quiet_def entry_view_def)

lemma seal_step_operations:
  "seal_step p (applyDisplayNameChanged ei i enc p)"
  "seal_step p (applyBioChanged ei i enc p)"
  "seal_step p (applyPrimaryEmailChanged i x p)"
  "seal_step p (applyServerPreferencesChanged i pf p)"
  "seal_step p (applyLoginCooldownStarted i t p)"
  "seal_step p (applyLoginCooldownCleared i p)"
  "seal_step p (applyCustomStatusSet i s p)"
  "seal_step p (applyCustomStatusCleared i p)"
  by (rule seal_step_quiet, rule quiet_operations,
      simp add: applyDisplayNameChanged_def applyBioChanged_def applyPrimaryEmailChanged_def
        applyServerPreferencesChanged_def applyLoginCooldownStarted_def applyLoginCooldownCleared_def
        applyCustomStatusSet_def applyCustomStatusCleared_def edit_user_def split: option.split)+

lemma seal_step_deactivation: "seal_step p (applyAccountDeactivationChanged i b p)"
  by (rule seal_step_quiet [OF quiet_deactivation])
    (simp add: applyAccountDeactivationChanged_def split: option.split)

lemma seal_step_replace: "seal_step p (replaceAvatarLocked i (ensure_user i p) a p)"
  by (rule seal_step_same) simp_all

lemma seal_step_clear_if: "seal_step p (clear_avatar_if x i p)"
  using seal_step_replace [of p i None]
  by (auto simp: clear_avatar_if_def ensure_user_def split: option.splits)

lemma seal_step_avatar_operations:
  "seal_step p (applyAvatarSet i av p)" "seal_step p (applyAssetCreated i asset p)"
  "seal_step p (applyAvatarCleared i p)" "seal_step p (applyAssetDeleted x p)"
proof -
  have put: "seal_step p (put_user i (ensure_user i p) p)" by (rule seal_step_same) simp_all
  have "seal_step p (fold (clear_avatar_if x) is p)" for "is"
    by (induction "is" arbitrary: p) (auto intro: seal_step_clear_if seal_step_trans)
  with put seal_step_replace show "seal_step p (applyAvatarSet i av p)"
    "seal_step p (applyAssetCreated i asset p)"
    "seal_step p (applyAvatarCleared i p)" "seal_step p (applyAssetDeleted x p)"
    by (auto simp: applyAvatarSet_def applyAssetCreated_def applyAvatarCleared_def applyAssetDeleted_def
        Let_def split: option.split)
qed

lemma seal_step_reassigned: "seal_step p (applyBotOwnerReassigned b ow p)"
  by (rule seal_step_same)
    (auto simp: applyBotOwnerReassigned_def ensure_user_def addBotOwnerIndex_def removeBotOwnerIndexLocked_def
        put_user_def Let_def split: option.split)

lemma seal_step_dek: "seal_step p (applyDEKGenerated d p)"
proof -
  have "fmlookup (ua_dek_events (applyDEKGenerated d p)) i = None"
    if "pu_shredded (ensure_user i p)" "fmlookup (ua_dek_events p) i = None" for i
    using that by (auto simp: applyDEKGenerated_def ensure_user_def empty_user_def split: option.splits)
  moreover have "ua_users (applyDEKGenerated d p) = ua_users p"
    "ua_email_index (applyDEKGenerated d p) = ua_email_index p"
    by (simp_all add: applyDEKGenerated_def)
  ultimately show ?thesis
    by (auto simp: seal_step_def sealed_def ensure_user_def)
qed

text \<open>A lookup value that resolved belongs to an account with a key.\<close>

lemma userPIIString_needs_key:
  "userPIIString c p ei i ty pu enc = Inr (Some v) \<Longrightarrow> fmlookup (ua_dek_events p) i \<noteq> None"
  by (auto simp: userPIIString_def pii_dek_def user_deks_def split: option.splits)

lemma seal_step_with_key:
  assumes key: "fmlookup (ua_dek_events p) k \<noteq> None"
    and others: "\<And>j. j \<noteq> k \<Longrightarrow> ensure_user j q = ensure_user j p"
    and shred: "pu_shredded (ensure_user k q) \<longrightarrow> pu_shredded (ensure_user k p)"
    and dek: "ua_dek_events q = ua_dek_events p"
    and mail: "\<And>h j. j \<noteq> k \<Longrightarrow> fmlookup (ua_email_index q) h = Some j \<Longrightarrow> fmlookup (ua_email_index p) h = Some j"
  shows "seal_step p q"
  unfolding seal_step_def
proof (intro allI conjI impI)
  fix i
  assume s: "sealed i p"
  with key have "i \<noteq> k" by (auto simp: sealed_def)
  with s others dek mail show "sealed i q" by (auto simp: sealed_def)
next
  fix i
  assume "pu_shredded (ensure_user i q)"
  with others shred show "pu_shredded (ensure_user i p) \<or> sealed i q" by (cases "i = k") auto
qed

lemma seal_step_lookup_operations:
  "fmlookup (ua_dek_events p) (ac_user_id a) \<noteq> None \<Longrightarrow>
     seal_step p (applyAccountCreatedWithLogin c ei a t v p)"
  "fmlookup (ua_dek_events p) i \<noteq> None \<Longrightarrow> seal_step p (applyLoginChangedWithLogin c ei i enc t v p)"
  "fmlookup (ua_dek_events p) i \<noteq> None \<Longrightarrow> seal_step p (applyVerifiedEmailAddedWithEmail c now ei i enc t v p)"
  by (erule seal_step_with_key;
      auto simp: applyAccountCreatedWithLogin_def applyLoginChangedWithLogin_def
        applyVerifiedEmailAddedWithEmail_def Let_def addBotOwnerIndex_def release_login_def
        split: option.splits if_splits)+

lemma seal_step_deleted: "seal_step p (applyAccountDeleted i p)"
proof (cases "i = []")
  case True
  then show ?thesis by (simp add: applyAccountDeleted_def)
next
  case False
  then have "pu_shredded (ensure_user j (applyAccountDeleted i p)) = pu_shredded (ensure_user j p)"
    "fmlookup (ua_dek_events (applyAccountDeleted i p)) j = (if j = i then None else fmlookup (ua_dek_events p) j)"
    "fmlookup (ua_email_index (applyAccountDeleted i p)) h =
       (if fmlookup (ua_email_index p) h = Some i then None else fmlookup (ua_email_index p) h)" for j h
    by (simp_all add: applyAccountDeleted_def Let_def release_emails_def)
  then show ?thesis by (auto simp: seal_step_def sealed_def)
qed

lemma seal_step_shredded: "seal_step p (applyKeyShredded i p)"
proof (cases "i = []")
  case True
  then show ?thesis by (simp add: applyKeyShredded_def)
next
  case False
  then have "pu_shredded (ensure_user j (applyKeyShredded i p)) = (j = i \<or> pu_shredded (ensure_user j p))"
    "fmlookup (ua_dek_events (applyKeyShredded i p)) j = (if j = i then None else fmlookup (ua_dek_events p) j)"
    "fmlookup (ua_email_index (applyKeyShredded i p)) h =
       (if fmlookup (ua_email_index p) h = Some i then None else fmlookup (ua_email_index p) h)" for j h
    by (simp_all add: applyKeyShredded_def Let_def release_emails_def)
  then show ?thesis by (auto simp: seal_step_def sealed_def)
qed

section \<open>The projection as a guarded projection\<close>

lemma seal_step_dispatch: "seal_step p (snd (user_dispatch c now ev e p))"
proof -
  have created: "seal_step p (snd (applyAccountCreated c ei a t p))" for ei a t
    by (auto simp: applyAccountCreated_def split: sum.split option.split
        intro!: seal_step_lookup_operations(1) dest: userPIIString_needs_key)
  have login: "seal_step p (snd (applyLoginChanged c ei i enc t p))" for ei i enc t
    by (auto simp: applyLoginChanged_def split: sum.split option.split
        intro!: seal_step_lookup_operations(2) dest: userPIIString_needs_key)
  have email: "seal_step p (snd (applyVerifiedEmailAdded c now ei i enc t p))" for ei i enc t
    by (auto simp: applyVerifiedEmailAdded_def split: sum.split option.split
        intro!: seal_step_lookup_operations(3) dest: userPIIString_needs_key)
  show ?thesis
    by (cases e) (simp_all add: user_dispatch_def user_switch_def created login email seal_step_operations
        seal_step_deactivation seal_step_avatar_operations seal_step_reassigned seal_step_dek
        seal_step_deleted seal_step_shredded)
qed

lemma seal_step_apply:
  assumes "Users_Apply c now p (Some ev) sq = Some (r, q)"
  shows "seal_step p q"
proof -
  have guard: "seal_step p (set_ua_guard g p)" for g
    by (rule seal_step_same) (simp_all add: set_ua_guard_def)
  have step: "seal_step p (snd (user_dispatch c now ev e (set_ua_guard g p)))" for g e
    by (rule seal_step_trans [OF guard seal_step_dispatch])
  from assms obtain seen g where mark: "guard_seenOrMark (ua_guard p) ev sq = Some (seen, g)"
    by (cases "guard_seenOrMark (ua_guard p) ev sq") (auto simp: Users_Apply_def)
  consider "q = set_ua_guard g p"
    | e where "q = snd (user_dispatch c now ev e (set_ua_guard g p))"
    using assms by (cases seen; cases "ev_payload ev") (simp_all add: Users_Apply_def mark Let_def, metis snd_conv)
  then show ?thesis using guard step by cases simp_all
qed

text \<open>
  The state an event leaves, whatever \<open>Apply\<close> returned; \<open>clock\<close> is the wall clock
  at each delivery.
\<close>

definition users_step ::
  "crypto \<Rightarrow> (seq \<Rightarrow> time) \<Rightarrow> user_projection \<Rightarrow> user_event event option \<Rightarrow> seq \<Rightarrow> user_projection option" where
  "users_step c clock p event sq = map_option snd (Users_Apply c (clock sq) p event sq)"

definition users_reduce ::
  "crypto \<Rightarrow> (seq \<Rightarrow> time) \<Rightarrow> user_event event \<Rightarrow> seq \<Rightarrow> user_projection \<Rightarrow> user_projection" where
  "users_reduce c clock ev sq p =
     (case ev_payload ev of None \<Rightarrow> p | Some e \<Rightarrow> snd (user_dispatch c (clock sq) ev e p))"

text \<open>No operation reads or writes the guard.\<close>

lemma guard_commutes_index:
  "set_ua_guard g (put_user i u p) = put_user i u (set_ua_guard g p)"
  "ensure_user i (set_ua_guard g p) = ensure_user i p"
  "set_ua_guard g (addBotOwnerIndex ow b p) = addBotOwnerIndex ow b (set_ua_guard g p)"
  "set_ua_guard g (removeBotOwnerIndexLocked i u p) = removeBotOwnerIndexLocked i u (set_ua_guard g p)"
  "set_ua_guard g (release_login i h p) = release_login i h (set_ua_guard g p)"
  "set_ua_guard g (release_emails i p) = release_emails i (set_ua_guard g p)"
  "set_ua_guard g (replaceAvatarLocked i u a p) = replaceAvatarLocked i u a (set_ua_guard g p)"
  "ua_users (set_ua_guard g p) = ua_users p"
  "ua_login_index (set_ua_guard g p) = ua_login_index p"
  "ua_email_index (set_ua_guard g p) = ua_email_index p"
  "ua_dek_events (set_ua_guard g p) = ua_dek_events p"
  "set_ua_guard g (p\<lparr>ua_login_index := li\<rparr>) = (set_ua_guard g p)\<lparr>ua_login_index := li\<rparr>"
  "set_ua_guard g (p\<lparr>ua_email_index := li\<rparr>) = (set_ua_guard g p)\<lparr>ua_email_index := li\<rparr>"
  "set_ua_guard g (p\<lparr>ua_dek_events := dk\<rparr>) = (set_ua_guard g p)\<lparr>ua_dek_events := dk\<rparr>"
  by (simp_all add: set_ua_guard_def put_user_def ensure_user_def addBotOwnerIndex_def
      removeBotOwnerIndexLocked_def release_login_def release_emails_def replaceAvatarLocked_def Let_def
      split: option.split)

lemma guard_commutes_edit: "set_ua_guard g (edit_user i f p) = edit_user i f (set_ua_guard g p)"
  by (simp add: edit_user_def guard_commutes_index)

lemma guard_commutes_clear:
  "set_ua_guard g (clear_avatar_if x i p) = clear_avatar_if x i (set_ua_guard g p)"
  by (simp add: clear_avatar_if_def guard_commutes_index split: option.split)

lemma guard_commutes_fold:
  "set_ua_guard g (fold (clear_avatar_if x) is p) = fold (clear_avatar_if x) is (set_ua_guard g p)"
  by (induction "is" arbitrary: p) (simp_all add: guard_commutes_clear)

lemma userPIIString_guard: "userPIIString c (set_ua_guard g p) = userPIIString c p"
proof -
  have "user_deks (set_ua_guard g p) = user_deks p"
    by (intro ext) (simp add: user_deks_def guard_commutes_index)
  then have "pii_dek (set_ua_guard g p) = pii_dek p"
    by (intro ext) (simp only: pii_dek_def)
  then show ?thesis by (intro ext) (simp only: userPIIString_def)
qed

lemma guard_commutes_switch:
  "set_ua_guard g (user_switch ev e p) = user_switch ev e (set_ua_guard g p)"
  by (cases e)
    (simp_all add: user_switch_def applyDisplayNameChanged_def applyBioChanged_def applyPrimaryEmailChanged_def
      applyServerPreferencesChanged_def applyLoginCooldownStarted_def applyLoginCooldownCleared_def
      applyCustomStatusSet_def applyCustomStatusCleared_def applyAccountDeactivationChanged_def
      applyDEKGenerated_def applyBotOwnerReassigned_def applyAvatarSet_def applyAvatarCleared_def
      applyAssetCreated_def applyAssetDeleted_def applyAccountDeleted_def applyKeyShredded_def
      guard_commutes_index guard_commutes_edit guard_commutes_fold user_deks_def Let_def split: option.split)

lemma release_login_guard:
  "ua_login_index (release_login i h (set_ua_guard g p)) = ua_login_index (release_login i h p)"
  by (simp add: release_login_def set_ua_guard_def)

lemma guard_commutes_lookup:
  "set_ua_guard g (applyAccountCreatedWithLogin c ei a t v p) = applyAccountCreatedWithLogin c ei a t v (set_ua_guard g p)"
  "set_ua_guard g (applyLoginChangedWithLogin c ei i enc t v p) = applyLoginChangedWithLogin c ei i enc t v (set_ua_guard g p)"
  "set_ua_guard g (applyVerifiedEmailAddedWithEmail c now ei i enc t v p)
     = applyVerifiedEmailAddedWithEmail c now ei i enc t v (set_ua_guard g p)"
  by (simp_all add: applyAccountCreatedWithLogin_def applyLoginChangedWithLogin_def
      applyVerifiedEmailAddedWithEmail_def Let_def guard_commutes_index release_login_guard
      split: option.split)

lemma guard_commutes_dispatch:
  "snd (user_dispatch c now ev e (set_ua_guard g p)) = set_ua_guard g (snd (user_dispatch c now ev e p))"
  by (cases e)
    (simp_all add: user_dispatch_def guard_commutes_switch applyAccountCreated_def applyLoginChanged_def
      applyVerifiedEmailAdded_def userPIIString_guard guard_commutes_lookup split: sum.split option.split)

interpretation accounts: guarded_projection ua_guard set_ua_guard "users_reduce c clock" "users_step c clock"
  Users_CompleteStartupReplay for c clock
proof
  show "users_step c clock p (Some ev) sq =
      (case guard_seenOrMark (ua_guard p) ev sq of
         None \<Rightarrow> None
       | Some (seen, g) \<Rightarrow>
           Some (if seen then set_ua_guard g p else users_reduce c clock ev sq (set_ua_guard g p)))" for p ev sq
    by (auto simp: users_step_def Users_Apply_def users_reduce_def Let_def split: option.split)
  show "users_reduce c clock ev sq (set_ua_guard g p) = set_ua_guard g (users_reduce c clock ev sq p)" for ev sq g p
    by (simp add: users_reduce_def guard_commutes_dispatch split: option.split)
qed (simp_all add: set_ua_guard_def users_step_def Users_Apply_def Users_CompleteStartupReplay_def)

section \<open>A sample key service\<close>

text \<open>A crypto service that answers every question, for the closed instances below.\<close>

definition sample_crypto :: crypto where
  "sample_crypto =
     \<lparr>lookup_digest = (\<lambda>v. CHR ''h'' # v), resolve_dek = Some (\<lambda>d pu. Inr (Some ''key'')),
      aead_open = (\<lambda>k v n a. Some v)\<rparr>"

definition sample_user_event :: "string \<Rightarrow> user_event \<Rightarrow> user_event event" where
  "sample_user_event i e = \<lparr>ev_id = i, ev_actor = ''Uadmin'', ev_created_at = Some 7, ev_payload = Some e\<rparr>"

definition sample_dek :: "string \<Rightarrow> dek_generated" where
  "sample_dek i =
     \<lparr>dg_user_id = i, dg_purpose = DEK_PURPOSE_USER_PII, dg_epoch = 1, dg_content_key_ref = ''ref'',
      dg_wrapping_key_ref = ''kek'', dg_wrapping_algorithm = ''alg'', dg_wrapping_metadata = []\<rparr>"

definition sample_enc :: "string \<Rightarrow> encrypted_string" where
  "sample_enc v = \<lparr>es_value = v, es_nonce = ''n'', es_epoch = 1\<rparr>"

definition sample_bot :: account_created where
  "sample_bot =
     \<lparr>ac_user_id = ''Ubot'', ac_is_bot = True, ac_bot_owner = ''Uown'',
      ac_login = Some (sample_enc ''robo''), ac_display_name = Some (sample_enc ''Robo'')\<rparr>"

definition sample_account_log :: "(user_event event \<times> seq) list" where
  "sample_account_log =
     [(sample_user_event ''e1'' (UserDekGenerated (sample_dek ''Ubot'')), 1),
      (sample_user_event ''e2'' (UserAccountCreated sample_bot), 2),
      (sample_user_event ''e3'' (UserAvatarSet ''Ubot'' (Some (Some (NatsAsset ''pic'')))), 3)]"

section \<open>The two paths agree\<close>

lemma guard_seen_marks:
  "guard_seenOrMark g ev sq = Some (seen, g') \<Longrightarrow> fst (guard_seen g ev sq) = seen"
  by (auto simp: guard_seenOrMark_def split: prod.splits bool.splits)

lemma lookup_of_event_dispatch:
  "user_dispatch c now ev e p =
     (case lookup_of_event c ev e p of
        Inl err \<Rightarrow> (Some err, p)
      | Inr v \<Rightarrow> (None, prepared_dispatch c now ev e v p))"
  by (cases e)
    (auto simp: user_dispatch_def lookup_of_event_def prepared_dispatch_def applyAccountCreated_def
      applyLoginChanged_def applyVerifiedEmailAdded_def split: sum.split option.split)

lemma lookup_of_event_guard: "lookup_of_event c ev e (set_ua_guard g p) = lookup_of_event c ev e p"
  by (cases e) (simp_all add: lookup_of_event_def userPIIString_guard)

text \<open>C38 (equivalence). The content view's two-phase path and the direct \<open>Apply\<close> agree on
  every event and every state: where \<open>Apply\<close> returns an error, \<open>Prepare\<close> returns the same
  error (and, unlike \<open>Apply\<close>, has not marked the event as seen), and otherwise the mutation
  \<open>Prepare\<close> hands back leaves the very state \<open>Apply\<close> leaves.\<close>

theorem prepared_equals_direct:
  assumes "Users_Apply c now p (Some ev) sq = Some (r, q)"
  shows "case r of
      Some err \<Rightarrow> Users_Prepare c p ev sq = Inl err
    | None \<Rightarrow> (\<exists>v. Users_Prepare c p ev sq = Inr v \<and>
                  applyPreparedContentEvent c now ev sq v p = Some q)"
proof -
  from assms obtain seen g where mark: "guard_seenOrMark (ua_guard p) ev sq = Some (seen, g)"
    by (cases "guard_seenOrMark (ua_guard p) ev sq") (auto simp: Users_Apply_def)
  note seen = guard_seen_marks [OF mark]
  show ?thesis
  proof (cases "seen \<or> ev_payload ev = None")
    case True
    with assms mark seen show ?thesis
      by (auto simp: Users_Apply_def Users_Prepare_def applyPreparedContentEvent_def)
  next
    case False
    then obtain e where e: "ev_payload ev = Some e" "\<not> seen" by auto
    show ?thesis
      using assms mark seen e
      by (cases "lookup_of_event c ev e p")
        (auto simp: Users_Apply_def Users_Prepare_def applyPreparedContentEvent_def
          lookup_of_event_dispatch lookup_of_event_guard)
  qed
qed

section \<open>Shredding is final\<close>

lemma sealed_deliver:
  "deliver (users_step c clock) log p = Some q \<Longrightarrow> seal_step p q"
proof (induction log arbitrary: p)
  case Nil
  then show ?case by simp
next
  case (Cons x log)
  obtain ev sq where x: "x = (ev, sq)" by force
  from Cons.prems obtain p' where p': "users_step c clock p (Some ev) sq = Some p'"
    "deliver (users_step c clock) log p' = Some q"
    by (auto simp: x split: option.splits)
  then have "seal_step p p'"
    by (auto simp: users_step_def dest: seal_step_apply)
  with Cons.IH [OF p'(2)] show ?case by (rule seal_step_trans [rotated])
qed

lemma shredded_is_sealed:
  assumes "deliver (users_step c clock) log newUserProjection = Some p"
    and "pu_shredded (ensure_user i p)"
  shows "sealed i p"
  using sealed_deliver [OF assms(1)] assms(2)
  by (auto simp: seal_step_def newUserProjection_def ensure_user_def empty_user_def)

lemma shredding_flag: "KeyShreddingRequested p i \<longleftrightarrow> pu_shredded (ensure_user i p)"
  by (simp add: KeyShreddingRequested_def ensure_user_def empty_user_def split: option.split)

text \<open>C12 (safety). Key shredding is final. Whatever log was delivered (replayed, repeated,
  with failing key lookups), once an account's shredding is requested, no further log brings
  it back: the account stays shredded, no key of it is held, it is no account or bot to
  anyone, its profile cannot be read, and no e-mail address is claimed by it.\<close>

theorem shredding_is_final:
  assumes "deliver (users_step c clock) log newUserProjection = Some p"
    and "KeyShreddingRequested p i"
    and "deliver (users_step c clock) log' p = Some q"
  shows "KeyShreddingRequested q i \<and> fmlookup (ua_dek_events q) i = None
     \<and> IsBotAndOwner q i = None \<and> i \<notin> set (AllActiveIDs q)
     \<and> GetContext c now q i = Inr None \<and> EmailOwnerID c q email \<noteq> Some i"
proof -
  have "sealed i q"
    using sealed_deliver [OF assms(3)] shredded_is_sealed [OF assms(1)] assms(2)
    by (simp add: seal_step_def shredding_flag)
  then show ?thesis
    by (auto simp: sealed_def shredding_flag IsBotAndOwner_def AllActiveIDs_def is_active_def active_entry_def
        GetContext_def EmailOwnerID_def ensure_user_def empty_user_def split: option.splits)
qed

section \<open>Reachable states\<close>

text \<open>
  The events the writers emit: an account is created under a new identifier, a
  login or a verified e-mail is recorded only for an account that is active, and
  an avatar only for one that is not deleted. A redelivered event the guard
  filters out may be anything.
\<close>

definition admissible :: "user_projection \<Rightarrow> user_event \<Rightarrow> bool" where
  "admissible p e =
     (case e of
        UserAccountCreated a \<Rightarrow> fmlookup (ua_users p) (ac_user_id a) = None
      | UserLoginChanged i _ \<Rightarrow> active_entry (ensure_user i p)
      | UserVerifiedEmailAdded i _ \<Rightarrow> active_entry (ensure_user i p)
      | UserAvatarSet i _ \<Rightarrow> \<not> pu_deleted (ensure_user i p)
      | AssetCreated i _ \<Rightarrow> \<not> pu_deleted (ensure_user i p)
      | _ \<Rightarrow> True)"

definition admissible_event :: "user_projection \<Rightarrow> user_event event \<Rightarrow> seq \<Rightarrow> bool" where
  "admissible_event p ev sq \<longleftrightarrow>
     fst (guard_seen (ua_guard p) ev sq) \<or> (case ev_payload ev of None \<Rightarrow> True | Some e \<Rightarrow> admissible p e)"

inductive users_reachable :: "crypto \<Rightarrow> user_projection \<Rightarrow> bool" for c where
  start: "users_reachable c newUserProjection"
| event: "users_reachable c p \<Longrightarrow> admissible_event p ev sq \<Longrightarrow>
    Users_Apply c now p (Some ev) sq = Some (r, q) \<Longrightarrow> users_reachable c q"
| complete: "users_reachable c p \<Longrightarrow> users_reachable c (Users_CompleteStartupReplay p)"

lemma accounts_inv_switch:
  assumes "accounts_inv p" and "admissible p e"
  shows "accounts_inv (user_switch ev e p)"
  using assms accounts_inv_quiet [OF quiet_operations(1)] accounts_inv_quiet [OF quiet_operations(2)]
    accounts_inv_quiet [OF quiet_operations(3)] accounts_inv_quiet [OF quiet_operations(4)]
    accounts_inv_quiet [OF quiet_operations(5)] accounts_inv_quiet [OF quiet_operations(6)]
    accounts_inv_quiet [OF quiet_operations(7)] accounts_inv_quiet [OF quiet_operations(8)]
    accounts_inv_quiet [OF quiet_deactivation] accounts_inv_quiet [OF quiet_dek]
  by (cases e)
    (simp_all add: user_switch_def admissible_def accounts_inv_reassigned accounts_inv_avatar_operations
      accounts_inv_avatar_removals accounts_inv_deleted accounts_inv_shredded)

lemma accounts_inv_prepared:
  assumes "accounts_inv p" and "admissible p e" and "digest_ok c"
  shows "accounts_inv (prepared_dispatch c now ev e v p)"
  using assms accounts_inv_switch [OF assms(1,2)]
  by (cases e)
    (auto simp: prepared_dispatch_def admissible_def split: option.split
      intro: accounts_inv_created accounts_inv_login_changed accounts_inv_email_added)

lemma accounts_inv_dispatch:
  assumes "accounts_inv p" and "admissible p e" and "digest_ok c"
  shows "accounts_inv (snd (user_dispatch c now ev e p))"
  using assms accounts_inv_prepared [OF assms] by (simp add: lookup_of_event_dispatch split: sum.split)

lemma admissible_guard: "admissible (set_ua_guard g p) e = admissible p e"
  by (cases e) (simp_all add: admissible_def guard_commutes_index)

lemma accounts_inv_apply:
  assumes inv: "accounts_inv p" and ok: "admissible_event p ev sq" and digest: "digest_ok c"
    and ap: "Users_Apply c now p (Some ev) sq = Some (r, q)"
  shows "accounts_inv q"
proof -
  from ap obtain seen g where mark: "guard_seenOrMark (ua_guard p) ev sq = Some (seen, g)"
    by (cases "guard_seenOrMark (ua_guard p) ev sq") (auto simp: Users_Apply_def)
  note seen = guard_seen_marks [OF mark]
  have inv': "accounts_inv (set_ua_guard g p)"
    by (rule accounts_inv_quiet [OF quiet_guard inv])
  show ?thesis
  proof (cases "seen \<or> ev_payload ev = None")
    case True
    with ap mark inv' show ?thesis by (auto simp: Users_Apply_def Let_def split: if_splits)
  next
    case False
    then obtain e where e: "ev_payload ev = Some e" "\<not> seen" by auto
    with ok seen have "admissible (set_ua_guard g p) e"
      by (simp add: admissible_event_def admissible_guard)
    from accounts_inv_dispatch [OF inv' this digest] ap mark e show ?thesis
      by (simp add: Users_Apply_def Let_def) (metis snd_conv)
  qed
qed

lemma accounts_inv_new: "accounts_inv newUserProjection"
  by (simp add: accounts_inv_def login_inv_def email_inv_def bots_inv_def avatar_inv_def avatar_holders_def
      newUserProjection_def ensure_user_def empty_user_def owned_bots_def avatar_count_def bot_owner_of_def
      assetRecordKeys_def)

lemma reachable_inv:
  assumes "users_reachable c p" and "digest_ok c"
  shows "accounts_inv p"
  using assms
proof (induction rule: users_reachable.induct)
  case start
  show ?case by (rule accounts_inv_new)
next
  case (event p ev sq now r q)
  then show ?case using accounts_inv_apply by blast
next
  case (complete p)
  then show ?case
    unfolding Users_CompleteStartupReplay_def using accounts_inv_quiet [OF quiet_guard] by blast
qed

text \<open>C25 (invariant). On every state the writers' events reach, a login or e-mail digest in a
  lookup index names an active account, and that account's own entry holds the same claim:
  a deleted or shredded account blocks no login and no address, and a lookup cannot lead to
  an account that has since moved on to another login.\<close>

theorem lookup_indexes_sound:
  assumes "users_reachable c p" and "\<And>v. lookup_digest c v \<noteq> []"
  shows "(fmlookup (ua_login_index p) h = Some i \<longrightarrow>
            i \<in> set (AllActiveIDs p) \<and> pu_login_hash (the (fmlookup (ua_users p) i)) = h)
     \<and> (EmailOwnerID c p email = Some i \<longrightarrow>
            i \<in> set (AllActiveIDs p) \<and> HasVerifiedEmail p i
            \<and> fmlookup (pu_verified_email (the (fmlookup (ua_users p) i))) (emailHash c email) \<noteq> None)"
proof -
  have inv: "login_inv p" "email_inv p"
    using reachable_inv [OF assms(1)] assms(2) by (simp_all add: accounts_inv_def digest_ok_def)
  have present: "fmlookup (ua_users p) i = Some (ensure_user i p)" if "ensure_user i p \<noteq> empty_user" for i
    using that by (simp add: ensure_user_def split: option.splits)
  have login: "i \<in> set (AllActiveIDs p) \<and> pu_login_hash (the (fmlookup (ua_users p) i)) = h"
    if "fmlookup (ua_login_index p) h = Some i"
  proof -
    from that inv(1) have e: "h \<noteq> []" "pu_login_hash (ensure_user i p) = h" "active_entry (ensure_user i p)"
      by (auto simp: login_inv_def)
    then have "ensure_user i p \<noteq> empty_user" by (auto simp: empty_user_def)
    with e present show ?thesis by (simp add: AllActiveIDs_def is_active_def fmlookup_dom_iff)
  qed
  have email: "i \<in> set (AllActiveIDs p) \<and> HasVerifiedEmail p i
      \<and> fmlookup (pu_verified_email (the (fmlookup (ua_users p) i))) (emailHash c email) \<noteq> None"
    if "EmailOwnerID c p email = Some i"
  proof -
    from that have "fmlookup (ua_email_index p) (emailHash c email) = Some i"
      by (auto simp: EmailOwnerID_def split: option.splits if_splits)
    with inv(2) have e: "fmlookup (pu_verified_email (ensure_user i p)) (emailHash c email) \<noteq> None"
      "active_entry (ensure_user i p)"
      by (auto simp: email_inv_def)
    then have "ensure_user i p \<noteq> empty_user" by (auto simp: empty_user_def)
    moreover have "sortedMapKeys (pu_verified_email (ensure_user i p)) \<noteq> []"
      using e(1) mem_sortedMapKeys_iff [of "emailHash c email" "pu_verified_email (ensure_user i p)"]
      by (metis empty_iff list.set(1))
    ultimately show ?thesis using e present
      by (simp add: AllActiveIDs_def is_active_def fmlookup_dom_iff HasVerifiedEmail_def live_entry_def
          active_entry_def)
  qed
  from login email show ?thesis by blast
qed

text \<open>The bots listed for an owner are exactly the active bot accounts whose
  recorded owner it is: none is missing after a reassignment, and none remains after the bot
  was deleted, shredded or handed to someone else.\<close>

theorem owned_bots_exact:
  assumes "users_reachable c p" and "\<And>v. lookup_digest c v \<noteq> []" and "ow \<noteq> []"
  shows "BotIDsOwnedBy p ow = filter (\<lambda>b. IsBotAndOwner p b = Some (True, ow)) (BotIDs p)"
proof (rule sorted_distinct_set_unique)
  have inv: "bots_inv p"
    using reachable_inv [OF assms(1)] assms(2) by (simp add: accounts_inv_def digest_ok_def)
  have "b \<in> set (BotIDsOwnedBy p ow) \<longleftrightarrow> b \<in> set (BotIDs p) \<and> IsBotAndOwner p b = Some (True, ow)" for b
  proof (cases "fmlookup (ua_users p) b")
    case None
    then show ?thesis by (auto simp: BotIDsOwnedBy_def is_active_def IsBotAndOwner_def)
  next
    case (Some u)
    with inv assms(3) show ?thesis
      by (auto simp: BotIDsOwnedBy_def BotIDs_def is_active_def IsBotAndOwner_def bots_inv_def
          active_bot_entry_def ensure_user_def bot_owner_of_def fmlookup_dom_iff
          sorted_list_of_fset.rep_eq split: option.splits if_splits)
  qed
  then show "set (BotIDsOwnedBy p ow) = set (filter (\<lambda>b. IsBotAndOwner p b = Some (True, ow)) (BotIDs p))"
    by auto
qed (simp_all add: BotIDsOwnedBy_def BotIDs_def sorted_list_of_fset.rep_eq sorted_wrt_filter)

text \<open>An asset is served as a public avatar exactly when it, or its storage
  key, belongs to the current avatar of some account that is not deleted: replacing,
  clearing or deleting an avatar, or deleting the account, ends its public reach at once,
  unless another account shows the same asset.\<close>

theorem public_avatar_exact:
  assumes "users_reachable c p" and "\<And>v. lookup_digest c v \<noteq> []"
  shows "IsPublicAvatarAsset p a \<longleftrightarrow> a \<noteq> [] \<and> (\<exists>i rec. Avatar p i = Some rec \<and> a |\<in>| assetRecordKeys (Some rec))"
proof -
  have inv: "avatar_inv p"
    using reachable_inv [OF assms(1)] assms(2) by (simp add: accounts_inv_def digest_ok_def)
  have holder: "i \<in> avatar_holders p a \<longleftrightarrow> (\<exists>rec. Avatar p i = Some rec \<and> a |\<in>| assetRecordKeys (Some rec))" for i
    by (auto simp: avatar_holders_def Avatar_def live_entry_def ensure_user_def empty_user_def
        assetRecordKeys_def split: option.splits)
  have "0 < avatar_count (ua_avatar_index p) a \<longleftrightarrow> avatar_holders p a \<noteq> {}"
    using inv by (simp add: avatar_inv_def card_gt_0_iff)
  with holder show ?thesis by (auto simp: IsPublicAvatarAsset_def)
qed

section \<open>Closed instances\<close>

text \<open>A whole log of admissible events reaches a reachable state.\<close>

fun admissible_log :: "crypto \<Rightarrow> (seq \<Rightarrow> time) \<Rightarrow> (user_event event \<times> seq) list \<Rightarrow> user_projection \<Rightarrow> bool" where
  "admissible_log c clock [] p = True"
| "admissible_log c clock ((ev, sq) # log) p =
     (admissible_event p ev sq \<and>
      (case users_step c clock p (Some ev) sq of None \<Rightarrow> False | Some q \<Rightarrow> admissible_log c clock log q))"

lemma reachable_log:
  assumes "users_reachable c p" and "admissible_log c clock log p"
    and "deliver (users_step c clock) log p = Some q"
  shows "users_reachable c q"
  using assms
proof (induction log arbitrary: p)
  case Nil
  then show ?case by simp
next
  case (Cons x log)
  obtain ev sq where x: "x = (ev, sq)" by force
  from Cons.prems(3) obtain p' where p': "users_step c clock p (Some ev) sq = Some p'"
    "deliver (users_step c clock) log p' = Some q"
    by (auto simp: x split: option.splits)
  then obtain r where "Users_Apply c (clock sq) p (Some ev) sq = Some (r, p')"
    by (auto simp: users_step_def)
  with Cons.prems p' have "users_reachable c p'"
    by (auto simp: x intro: users_reachable.event)
  with Cons.IH [OF this _ p'(2)] Cons.prems(2) p'(1) show ?case by (simp add: x)
qed

definition sample_accounts :: user_projection where
  "sample_accounts = the (deliver (users_step sample_crypto (\<lambda>_. 0)) sample_account_log newUserProjection)"

lemma sample_delivered:
  "deliver (users_step sample_crypto (\<lambda>_. 0)) sample_account_log newUserProjection = Some sample_accounts"
proof -
  have "deliver (users_step sample_crypto (\<lambda>_. 0)) sample_account_log newUserProjection \<noteq> None"
    by code_simp
  then show ?thesis by (auto simp: sample_accounts_def)
qed

lemma sample_reachable: "users_reachable sample_crypto sample_accounts"
proof (rule reachable_log [OF users_reachable.start _ sample_delivered])
  show "admissible_log sample_crypto (\<lambda>_. 0) sample_account_log newUserProjection" by code_simp
qed

lemma sample_digest: "lookup_digest sample_crypto v \<noteq> []"
  by (simp add: sample_crypto_def)

lemma prepared_equals_direct_witness:
  "\<exists>v q. Users_Prepare sample_crypto newUserProjection (sample_user_event ''e1'' (UserBioChanged ''U1'' None)) 1 = Inr v
     \<and> applyPreparedContentEvent sample_crypto 0 (sample_user_event ''e1'' (UserBioChanged ''U1'' None)) 1 v
         newUserProjection = Some q"
proof -
  let ?r = "Users_Apply sample_crypto 0 newUserProjection (Some (sample_user_event ''e1'' (UserBioChanged ''U1'' None))) 1"
  have "\<exists>q. ?r = Some (None, q)"
  proof -
    have "map_option fst ?r = Some None" by code_simp
    then show ?thesis by (cases ?r) auto
  qed
  then obtain q where "?r = Some (None, q)" by blast
  from prepared_equals_direct [OF this] show ?thesis by auto
qed

lemma shredding_is_final_witness:
  "\<exists>p q. deliver (users_step sample_crypto (\<lambda>_. 0)) [(sample_user_event ''e4'' (UserKeyShredded ''Ubot''), 4)] sample_accounts = Some p
     \<and> deliver (users_step sample_crypto (\<lambda>_. 0)) [(sample_user_event ''e5'' (UserAccountCreated sample_bot), 5)] p = Some q
     \<and> IsBotAndOwner q ''Ubot'' = None \<and> EmailOwnerID sample_crypto q ''a@b'' \<noteq> Some ''Ubot''"
proof -
  let ?d = "deliver (users_step sample_crypto (\<lambda>_. 0))"
  let ?l1 = "[(sample_user_event ''e4'' (UserKeyShredded ''Ubot''), 4)]"
  let ?l2 = "[(sample_user_event ''e5'' (UserAccountCreated sample_bot), 5)]"
  have "map_option (\<lambda>p. KeyShreddingRequested p ''Ubot'') (?d ?l1 sample_accounts) = Some True"
    by code_simp
  then obtain p where p: "?d ?l1 sample_accounts = Some p" "KeyShreddingRequested p ''Ubot''" by auto
  have "?d (?l1 @ ?l2) sample_accounts \<noteq> None" by code_simp
  then obtain q where q: "?d ?l2 p = Some q" using p by (auto simp: deliver_append split: option.splits)
  have "?d (sample_account_log @ ?l1) newUserProjection = Some p"
    using sample_delivered p by (simp add: deliver_append)
  from shredding_is_final [OF this p(2) q] p q show ?thesis by blast
qed

lemma lookup_indexes_sound_witness:
  "fmlookup (ua_login_index sample_accounts) ''hrobo'' = Some ''Ubot'' \<and> ''Ubot'' \<in> set (AllActiveIDs sample_accounts)"
proof -
  have "fmlookup (ua_login_index sample_accounts) ''hrobo'' = Some ''Ubot''" by code_simp
  with lookup_indexes_sound [OF sample_reachable sample_digest] show ?thesis by blast
qed

lemma owned_bots_exact_witness:
  "BotIDsOwnedBy sample_accounts ''Uown''
     = filter (\<lambda>b. IsBotAndOwner sample_accounts b = Some (True, ''Uown'')) (BotIDs sample_accounts)"
  by (rule owned_bots_exact [OF sample_reachable sample_digest]) simp

lemma public_avatar_exact_witness:
  "\<exists>i rec. Avatar sample_accounts i = Some rec \<and> ''pic'' |\<in>| assetRecordKeys (Some rec)"
proof -
  have "IsPublicAvatarAsset sample_accounts ''pic''" by code_simp
  with public_avatar_exact [OF sample_reachable sample_digest] show ?thesis by blast
qed

text \<open>
  Without the avatar condition the count can lose another account's asset: an
  account that was deleted, then twice sent an avatar, gives up a count it never held.
\<close>

definition stray_avatar_log :: "(user_event event \<times> seq) list" where
  "stray_avatar_log =
     sample_account_log @
     [(sample_user_event ''e4'' (UserAccountDeleted ''Ugone''), 4),
      (sample_user_event ''e5'' (UserAvatarSet ''Ugone'' (Some (Some (NatsAsset ''pic'')))), 5),
      (sample_user_event ''e6'' (UserAvatarCleared ''Ugone''), 6)]"

lemma stray_avatar_loses_count:
  "map_option (\<lambda>p. (Avatar p ''Ubot'' \<noteq> None, IsPublicAvatarAsset p ''pic''))
     (deliver (users_step sample_crypto (\<lambda>_. 0)) stray_avatar_log newUserProjection) = Some (True, False)"
  by code_simp

end
