(* ===== verification/Permission_Resolver.thy ===== *)
theory Permission_Resolver
  imports RBAC_Projection Room_Directory Room_Groups User_Accounts
begin

text \<open>
  The permission resolver (\<open>permission_resolver.go\<close>): effective authorization of a
  human or a bot at server, group, room and direct-message scope, over the states
  the projections hold. The resolver reads one content-view generation, so its
  state is one record of the four projections; the request context carries the
  credential, a fixed privileged-mode evaluation if there is one, and the wall
  clock at the check.

  Every error branch of the resolver comes from reading the roles of a user,
  which returns no error (\<open>rbac_role_reads.go\<close>); the resolve functions are
  therefore total and give the decision itself. The argument errors of the
  \<open>Has*Permission\<close> functions are the left side of a sum.
\<close>

section \<open>The state and the request\<close>

datatype room_kind = KindChannel | KindDM

record server_state =
  sv_rooms :: room_directory
  sv_groups :: group_layout
  sv_users :: user_projection
  sv_rbac :: rbac_projection

definition ProtoKindForRoomKind :: "room_kind \<Rightarrow> int" where
  "ProtoKindForRoomKind kind = (if kind = KindDM then ROOM_KIND_DM else ROOM_KIND_CHANNEL)"

definition KindOfRoom :: "room \<Rightarrow> room_kind" where
  "KindOfRoom r = (if rm_kind r = ROOM_KIND_DM then KindDM else KindChannel)"

definition with_group :: "server_state \<Rightarrow> string \<Rightarrow> room \<Rightarrow> room" where
  "with_group s roomID r =
     (let gid = GroupForRoom (gl_groups (sv_groups s)) roomID
      in if gid \<noteq> [] then r\<lparr>rm_group_id := gid\<rparr> else r)"

text \<open>\<^const>\<open>None\<close> is the error \<open>ErrNotFound\<close>: no such room, or one of another kind.\<close>

definition GetRoom :: "server_state \<Rightarrow> room_kind \<Rightarrow> string \<Rightarrow> room option" where
  "GetRoom s kind roomID =
     (case Catalog_Get (Catalog (sv_rooms s)) roomID of
        None \<Rightarrow> None
      | Some r \<Rightarrow>
          if rm_kind r \<noteq> ProtoKindForRoomKind kind then None else Some (with_group s roomID r))"

definition FindRoomByID :: "server_state \<Rightarrow> string \<Rightarrow> room option" where
  "FindRoomByID s roomID =
     map_option (with_group s roomID) (Catalog_Get (Catalog (sv_rooms s)) roomID)"

text \<open>The roles of a user as the resolver sees them: the implicit role is left out.\<close>

definition explicitRoles :: "server_state \<Rightarrow> string \<Rightarrow> string list" where
  "explicitRoles s userID = filter (\<lambda>r. r \<noteq> RoleEveryone) (GetUserRoles (sv_rbac s) userID)"

record credential =
  cd_kind :: string
  cd_user_id :: string
  cd_handle :: string
  cd_privileged_until :: time

abbreviation CredentialBotAPIKey :: string where "CredentialBotAPIKey \<equiv> ''bot_api_key''"

record request =
  rq_evaluation :: "(string \<times> bool) option"
  rq_credential :: "credential option"
  rq_now :: time

definition CredentialForContext :: "request \<Rightarrow> credential option" where
  "CredentialForContext rq =
     (case rq_credential rq of
        None \<Rightarrow> None
      | Some c \<Rightarrow>
          if cd_kind c \<noteq> [] \<and> cd_user_id c \<noteq> [] \<and> cd_handle c \<noteq> [] then Some c else None)"

section \<open>Privileged mode\<close>

definition privilegedModeAllows :: "request \<Rightarrow> string \<Rightarrow> bool" where
  "privilegedModeAllows rq userID =
     (case rq_evaluation rq of
        Some (evaluated, active) \<Rightarrow> active \<and> evaluated = userID
      | None \<Rightarrow>
          (case CredentialForContext rq of
             None \<Rightarrow> True
           | Some c \<Rightarrow>
               if cd_user_id c \<noteq> userID then False
               else if cd_kind c = CredentialBotAPIKey then True
               else rq_now rq < cd_privileged_until c))"

definition withPrivilegedModeEvaluation :: "request \<Rightarrow> string \<Rightarrow> bool \<Rightarrow> request" where
  "withPrivilegedModeEvaluation rq userID active = rq\<lparr>rq_evaluation := Some (userID, active)\<rparr>"

definition PrivilegedModeDeadline :: "request \<Rightarrow> string \<Rightarrow> time" where
  "PrivilegedModeDeadline rq userID =
     (case CredentialForContext rq of
        None \<Rightarrow> zero_time
      | Some c \<Rightarrow>
          if cd_kind c = CredentialBotAPIKey \<or> cd_user_id c \<noteq> userID
             \<or> \<not> rq_now rq < cd_privileged_until c
          then zero_time else cd_privileged_until c)"

section \<open>Decisions at a scope\<close>

datatype permission_level = LevelServer | LevelGroup | LevelRoom | LevelDM

record trace_entry =
  te_level :: permission_level
  te_role :: string
  te_decision :: decision_kind
  te_object :: string

record scope_target =
  st_scope :: permission_scope
  st_level :: permission_level
  st_id :: string

abbreviation ObjectIdAny :: string where "ObjectIdAny \<equiv> ''any''"

definition objectID :: "scope_target \<Rightarrow> string" where
  "objectID t = (if st_id t = [] then ObjectIdAny else st_id t)"

definition permissionLevelSpecificity :: "permission_level \<Rightarrow> nat" where
  "permissionLevelSpecificity level =
     (case level of LevelRoom \<Rightarrow> 3 | LevelDM \<Rightarrow> 2 | LevelGroup \<Rightarrow> 2 | LevelServer \<Rightarrow> 1)"

definition applicableScopeTargets ::
  "room_kind \<Rightarrow> string \<Rightarrow> string \<Rightarrow> permission \<Rightarrow> scope_target list" where
  "applicableScopeTargets kind roomID groupID perm =
     (if kind = KindDM \<and> PermissionAppliesAtScope perm ScopeDM
      then [\<lparr>st_scope = ScopeDM, st_level = LevelDM, st_id = []\<rparr>]
      else if roomID \<noteq> [] \<and> PermissionAppliesAtScope perm ScopeRoom
      then [\<lparr>st_scope = ScopeRoom, st_level = LevelRoom, st_id = roomID\<rparr>]
      else [])
     @ (if kind = KindChannel \<and> groupID \<noteq> [] \<and> PermissionAppliesAtScope perm ScopeGroup
        then [\<lparr>st_scope = ScopeGroup, st_level = LevelGroup, st_id = groupID\<rparr>] else [])
     @ (if PermissionAppliesAtScope perm ScopeServer
        then [\<lparr>st_scope = ScopeServer, st_level = LevelServer, st_id = []\<rparr>] else [])"

definition decisionFor ::
  "server_state \<Rightarrow> permission_scope \<Rightarrow> string \<Rightarrow> string \<Rightarrow> permission \<Rightarrow> decision_kind" where
  "decisionFor s scope scopeID subject perm =
     (if subject = [] then DecisionNone
      else if GetPermissionMetadata perm = None then DecisionNone
      else GetDecision (sv_rbac s) scope scopeID subject perm)"

fun nearestDecision ::
  "server_state \<Rightarrow> string \<Rightarrow> permission \<Rightarrow> scope_target list \<Rightarrow> trace_entry option" where
  "nearestDecision s subject perm [] = None"
| "nearestDecision s subject perm (target # targets) =
     (let decision = decisionFor s (st_scope target) (st_id target) subject perm in
      if decision = DecisionNone then nearestDecision s subject perm targets
      else Some \<lparr>te_level = st_level target, te_role = subject, te_decision = decision,
                 te_object = objectID target\<rparr>)"

text \<open>
  Deny wins across the direct-user and named-role entries; among allows the most
  specific one wins, the first of them on a tie.
\<close>

fun decision_loop :: "trace_entry list \<Rightarrow> trace_entry option \<Rightarrow> (decision_kind \<times> trace_entry) option" where
  "decision_loop [] nearestAllow = map_option (Pair DecisionAllow) nearestAllow"
| "decision_loop (entry # entries) nearestAllow =
     (if te_decision entry = DecisionDeny then Some (DecisionDeny, entry)
      else if te_decision entry = DecisionAllow
        \<and> (case nearestAllow of None \<Rightarrow> True
           | Some a \<Rightarrow> permissionLevelSpecificity (te_level a) < permissionLevelSpecificity (te_level entry))
      then decision_loop entries (Some entry)
      else decision_loop entries nearestAllow)"

definition resolveDecisionEntries :: "trace_entry list \<Rightarrow> (decision_kind \<times> trace_entry) option" where
  "resolveDecisionEntries entries = decision_loop entries None"

record applicable_decisions =
  ad_named :: "trace_entry list"
  ad_everyone :: "trace_entry option"

text \<open>The winning decision with its entry; \<^const>\<open>None\<close> where nothing decided.\<close>

definition resolveApplicablePermissionDecisions ::
  "applicable_decisions \<Rightarrow> (decision_kind \<times> trace_entry) option" where
  "resolveApplicablePermissionDecisions ds =
     (let named = resolveDecisionEntries (ad_named ds) in
      if map_option fst named = Some DecisionDeny then named
      else case ad_everyone ds of
        None \<Rightarrow> named
      | Some baseline \<Rightarrow>
          (case named of
             None \<Rightarrow> Some (te_decision baseline, baseline)
           | Some (state, winner) \<Rightarrow>
               if te_decision baseline = DecisionDeny
                  \<and> permissionLevelSpecificity (te_level winner) < permissionLevelSpecificity (te_level baseline)
               then Some (DecisionDeny, baseline)
               else if te_decision baseline = DecisionAllow
                  \<and> permissionLevelSpecificity (te_level winner) < permissionLevelSpecificity (te_level baseline)
               then Some (DecisionAllow, baseline)
               else Some (state, winner)))"

definition decision_of :: "(decision_kind \<times> trace_entry) option \<Rightarrow> decision_kind" where
  "decision_of r = (case r of None \<Rightarrow> DecisionNone | Some (d, _) \<Rightarrow> d)"

definition applicableDecisions ::
  "server_state \<Rightarrow> string \<Rightarrow> room_kind \<Rightarrow> string \<Rightarrow> string \<Rightarrow> permission \<Rightarrow> applicable_decisions" where
  "applicableDecisions s userID kind roomID groupID perm =
     (let scopes = applicableScopeTargets kind roomID groupID perm in
      if GetPermissionMetadata perm = None \<or> scopes = []
      then \<lparr>ad_named = [], ad_everyone = None\<rparr>
      else \<lparr>ad_named = List.map_filter (\<lambda>subject. nearestDecision s subject perm scopes)
                         (userID # explicitRoles s userID),
            ad_everyone = nearestDecision s RoleEveryone perm scopes\<rparr>)"

fun including_loop :: "(permission \<Rightarrow> decision_kind) \<Rightarrow> permission list \<Rightarrow> decision_kind \<Rightarrow> decision_kind" where
  "including_loop resolveExact [] own = own"
| "including_loop resolveExact (including # rest) own =
     (if resolveExact including = DecisionAllow then DecisionAllow
      else including_loop resolveExact rest own)"

definition resolvePermissionWithInclusions :: "permission \<Rightarrow> (permission \<Rightarrow> decision_kind) \<Rightarrow> decision_kind" where
  "resolvePermissionWithInclusions perm resolveExact =
     including_loop resolveExact (includingPermissions perm) (resolveExact perm)"

section \<open>Humans, bots, and the entry points\<close>

text \<open>The group a channel room resolves through, unless the caller names one.\<close>

definition effectiveGroup :: "server_state \<Rightarrow> room_kind \<Rightarrow> string \<Rightarrow> string \<Rightarrow> permission \<Rightarrow> string" where
  "effectiveGroup s kind roomID explicitGroupID perm =
     (if kind = KindChannel \<and> roomID \<noteq> [] \<and> PermissionAppliesAtScope perm ScopeRoom \<and> explicitGroupID = []
      then (case GetRoom s KindChannel roomID of None \<Rightarrow> [] | Some r \<Rightarrow> rm_group_id r)
      else explicitGroupID)"

definition exactDecision ::
  "server_state \<Rightarrow> string \<Rightarrow> room_kind \<Rightarrow> string \<Rightarrow> string \<Rightarrow> permission \<Rightarrow> decision_kind" where
  "exactDecision s userID kind roomID groupID candidate =
     decision_of (resolveApplicablePermissionDecisions
       (applicableDecisions s userID kind roomID groupID candidate))"

definition resolveHumanWithGroup ::
  "server_state \<Rightarrow> string \<Rightarrow> room_kind \<Rightarrow> string \<Rightarrow> string \<Rightarrow> permission \<Rightarrow> bool \<Rightarrow> decision_kind" where
  "resolveHumanWithGroup s userID kind roomID explicitGroupID perm ownerOverride =
     (if Deactivated (sv_users s) userID then DecisionDeny
      else if GetPermissionMetadata perm \<noteq> None \<and> kind = KindDM \<and> \<not> PermissionAppliesAtScope perm ScopeDM
      then DecisionDeny
      else if GetPermissionMetadata perm \<noteq> None \<and> ownerOverride \<and> HasRole (sv_rbac s) userID RoleOwner
      then DecisionAllow
      else resolvePermissionWithInclusions perm
             (exactDecision s userID kind roomID (effectiveGroup s kind roomID explicitGroupID perm)))"

definition botPermissionDelegable :: "permission \<Rightarrow> bool" where
  "botPermissionDelegable perm \<longleftrightarrow> GetPermissionMetadata perm \<noteq> None \<and> perm \<noteq> PermUserDeleteSelf"

definition botDelegatedExactDecision ::
  "server_state \<Rightarrow> string \<Rightarrow> room_kind \<Rightarrow> string \<Rightarrow> string \<Rightarrow> permission \<Rightarrow> decision_kind" where
  "botDelegatedExactDecision s botUserID kind roomID groupID perm =
     (if GetPermissionMetadata perm = None then DecisionNone
      else case nearestDecision s botUserID perm (applicableScopeTargets kind roomID groupID perm) of
             None \<Rightarrow> DecisionNone
           | Some entry \<Rightarrow> te_decision entry)"

definition botDelegatedDecision ::
  "server_state \<Rightarrow> string \<Rightarrow> room_kind \<Rightarrow> string \<Rightarrow> string \<Rightarrow> permission \<Rightarrow> decision_kind" where
  "botDelegatedDecision s botUserID kind roomID groupID perm =
     resolvePermissionWithInclusions perm (botDelegatedExactDecision s botUserID kind roomID groupID)"

text \<open>
  The owner's ceiling is the owner's entitlement. The owner is no bot at that
  point, so the entitlement is the human one (lemma \<open>owner_entitlement\<close> below).
\<close>

definition resolveBotWithGroup ::
  "server_state \<Rightarrow> string \<Rightarrow> string \<Rightarrow> room_kind \<Rightarrow> string \<Rightarrow> string \<Rightarrow> permission \<Rightarrow> decision_kind" where
  "resolveBotWithGroup s botUserID ownerUserID kind roomID explicitGroupID perm =
     (if \<not> botPermissionDelegable perm then DecisionDeny
      else if kind = KindDM \<and> \<not> PermissionAppliesAtScope perm ScopeDM then DecisionDeny
      else case IsBotAndOwner (sv_users s) ownerUserID of
        None \<Rightarrow> DecisionDeny
      | Some (ownerIsBot, _) \<Rightarrow>
          if ownerIsBot then DecisionDeny
          else
            let groupID = effectiveGroup s kind roomID explicitGroupID perm in
            if botDelegatedDecision s botUserID kind roomID groupID perm \<noteq> DecisionAllow then DecisionDeny
            else if resolveHumanWithGroup s ownerUserID kind roomID groupID perm True \<noteq> DecisionAllow
            then DecisionDeny
            else DecisionAllow)"

definition resolveEntitlementWithGroup ::
  "server_state \<Rightarrow> string \<Rightarrow> room_kind \<Rightarrow> string \<Rightarrow> string \<Rightarrow> permission \<Rightarrow> decision_kind" where
  "resolveEntitlementWithGroup s userID kind roomID explicitGroupID perm =
     (case IsBotAndOwner (sv_users s) userID of
        Some (True, owner) \<Rightarrow> resolveBotWithGroup s userID owner kind roomID explicitGroupID perm
      | _ \<Rightarrow> resolveHumanWithGroup s userID kind roomID explicitGroupID perm True)"

definition requiresPrivilegedMode :: "permission \<Rightarrow> bool" where
  "requiresPrivilegedMode perm =
     (case GetPermissionMetadata perm of None \<Rightarrow> False | Some md \<Rightarrow> pm_requires_privileged md)"

definition resolveWithGroup ::
  "server_state \<Rightarrow> request \<Rightarrow> string \<Rightarrow> room_kind \<Rightarrow> string \<Rightarrow> string \<Rightarrow> permission \<Rightarrow> decision_kind" where
  "resolveWithGroup s rq userID kind roomID explicitGroupID perm =
     (case IsBotAndOwner (sv_users s) userID of
        Some (True, owner) \<Rightarrow> resolveBotWithGroup s userID owner kind roomID explicitGroupID perm
      | _ \<Rightarrow>
          let privileged = privilegedModeAllows rq userID;
              decision = resolveHumanWithGroup s userID kind roomID explicitGroupID perm privileged
          in if decision \<noteq> DecisionAllow then decision
             else if requiresPrivilegedMode perm \<and> \<not> privileged then DecisionDeny
             else decision)"

definition Resolve ::
  "server_state \<Rightarrow> request \<Rightarrow> string \<Rightarrow> room_kind \<Rightarrow> string \<Rightarrow> permission \<Rightarrow> decision_kind" where
  "Resolve s rq userID kind roomID perm = resolveWithGroup s rq userID kind roomID [] perm"

definition ResolveGroup ::
  "server_state \<Rightarrow> request \<Rightarrow> string \<Rightarrow> room_kind \<Rightarrow> string \<Rightarrow> permission \<Rightarrow> decision_kind" where
  "ResolveGroup s rq userID kind groupID perm = resolveWithGroup s rq userID kind [] groupID perm"

datatype scope_error = NotAtServerScope permission | NotAtRoomScope permission

definition known_off_scope :: "permission \<Rightarrow> permission_scope \<Rightarrow> bool" where
  "known_off_scope perm scope \<longleftrightarrow>
     GetPermissionMetadata perm \<noteq> None \<and> \<not> PermissionAppliesAtScope perm scope"

definition HasServerPermission ::
  "server_state \<Rightarrow> request \<Rightarrow> string \<Rightarrow> permission \<Rightarrow> scope_error + bool" where
  "HasServerPermission s rq userID perm =
     (if known_off_scope perm ScopeServer then Inl (NotAtServerScope perm)
      else Inr (Resolve s rq userID KindChannel [] perm = DecisionAllow))"

definition HasSpacePermission ::
  "server_state \<Rightarrow> request \<Rightarrow> string \<Rightarrow> room_kind \<Rightarrow> permission \<Rightarrow> scope_error + bool" where
  "HasSpacePermission s rq userID kind perm =
     (if kind \<noteq> KindDM \<and> known_off_scope perm ScopeServer then Inl (NotAtServerScope perm)
      else Inr (Resolve s rq userID kind [] perm = DecisionAllow))"

definition HasRoomPermission ::
  "server_state \<Rightarrow> request \<Rightarrow> string \<Rightarrow> room_kind \<Rightarrow> string \<Rightarrow> permission \<Rightarrow> scope_error + bool" where
  "HasRoomPermission s rq userID kind roomID perm =
     (if \<not> PermissionAppliesAtScope perm ScopeRoom \<and> \<not> PermissionAppliesAtScope perm ScopeGroup
         \<and> \<not> PermissionAppliesAtScope perm ScopeDM \<and> \<not> PermissionAppliesAtScope perm ScopeServer
      then Inl (NotAtRoomScope perm)
      else Inr (Resolve s rq userID kind roomID perm = DecisionAllow))"

end
