(* ===== verification/Permission_Resolver_Properties.thy ===== *)
theory Permission_Resolver_Properties
  imports Permission_Resolver
begin

text \<open>
  The rules of the resolver, proved of the code's walk: the meaning of one
  permission's decision in terms of the subjects' nearest decisions, the
  privileged-mode gate, the ceilings of bots, and what no state can allow.
\<close>

section \<open>Nearest decisions\<close>

lemma decision_allow_or_deny: "d \<noteq> DecisionNone \<Longrightarrow> d = DecisionAllow \<or> d = DecisionDeny"
  by (cases d) auto

lemma nearestDecision_decides:
  "nearestDecision s subject perm ts = Some e \<Longrightarrow> te_decision e = DecisionAllow \<or> te_decision e = DecisionDeny"
  by (induction s subject perm ts rule: nearestDecision.induct)
    (auto simp: Let_def split: if_splits dest: decision_allow_or_deny)

lemma nearestDecision_target:
  "nearestDecision s subject perm ts = Some e \<Longrightarrow>
     \<exists>t\<in>set ts. te_decision e = decisionFor s (st_scope t) (st_id t) subject perm \<and> te_level e = st_level t
        \<and> te_role e = subject"
  by (induction s subject perm ts rule: nearestDecision.induct) (auto simp: Let_def split: if_splits)

lemma nearestDecision_none:
  "nearestDecision s subject perm ts = None \<longleftrightarrow>
     (\<forall>t\<in>set ts. decisionFor s (st_scope t) (st_id t) subject perm = DecisionNone)"
  by (induction s subject perm ts rule: nearestDecision.induct) (auto simp: Let_def)

section \<open>Named decisions against the baseline\<close>

definition decided :: "trace_entry \<Rightarrow> bool" where
  "decided e \<longleftrightarrow> te_decision e = DecisionAllow \<or> te_decision e = DecisionDeny"

abbreviation spec :: "trace_entry \<Rightarrow> nat" where
  "spec e \<equiv> permissionLevelSpecificity (te_level e)"

text \<open>The loop's result: the first deny, or an allow that is as specific as any.\<close>

lemma decision_loop_deny:
  "(\<exists>e\<in>set es. te_decision e = DecisionDeny) \<Longrightarrow> decision_of (decision_loop es acc) = DecisionDeny"
  by (induction es acc rule: decision_loop.induct) (auto simp: decision_of_def)

lemma decision_loop_allow:
  assumes "\<forall>e\<in>set es. te_decision e = DecisionAllow"
  shows "case decision_loop es acc of
      None \<Rightarrow> es = [] \<and> acc = None
    | Some (d, w) \<Rightarrow> d = DecisionAllow \<and> (w \<in> set es \<or> acc = Some w)
        \<and> (\<forall>e\<in>set es. spec e \<le> spec w) \<and> (\<forall>a. acc = Some a \<longrightarrow> spec a \<le> spec w)"
  using assms
proof (induction es acc rule: decision_loop.induct)
  case (1 acc)
  then show ?case by (cases acc) auto
next
  case (2 e es acc)
  let ?better = "case acc of None \<Rightarrow> True | Some a \<Rightarrow> spec a < spec e"
  have e: "te_decision e = DecisionAllow" using "2.prems" by simp
  show ?case
  proof (cases ?better)
    case True
    with e have step: "decision_loop (e # es) acc = decision_loop es (Some e)" by simp
    have "case decision_loop es (Some e) of
        None \<Rightarrow> es = [] \<and> Some e = None
      | Some (d, w) \<Rightarrow> d = DecisionAllow \<and> (w \<in> set es \<or> Some e = Some w)
          \<and> (\<forall>e'\<in>set es. spec e' \<le> spec w) \<and> (\<forall>a. Some e = Some a \<longrightarrow> spec a \<le> spec w)"
      using "2.IH"(1) e True "2.prems" by simp
    with True show ?thesis unfolding step
      by (cases "decision_loop es (Some e)"; cases acc) fastforce+
  next
    case False
    with e have step: "decision_loop (e # es) acc = decision_loop es acc" by simp
    from False obtain a where a: "acc = Some a" "spec e \<le> spec a" by (cases acc) auto
    have "case decision_loop es acc of
        None \<Rightarrow> es = [] \<and> acc = None
      | Some (d, w) \<Rightarrow> d = DecisionAllow \<and> (w \<in> set es \<or> acc = Some w)
          \<and> (\<forall>e'\<in>set es. spec e' \<le> spec w) \<and> (\<forall>a. acc = Some a \<longrightarrow> spec a \<le> spec w)"
      using "2.IH"(2) e False "2.prems" by simp
    with a show ?thesis unfolding step
      by (cases "decision_loop es acc") fastforce+
  qed
qed

definition baseline_allows :: "trace_entry option \<Rightarrow> trace_entry \<Rightarrow> bool" where
  "baseline_allows everyone e \<longleftrightarrow>
     (\<forall>b. everyone = Some b \<and> te_decision b = DecisionDeny \<longrightarrow> spec b \<le> spec e)"

lemma resolve_named_cases:
  fixes ds
  defines "named \<equiv> ad_named ds" and "everyone \<equiv> ad_everyone ds"
  assumes "\<forall>e\<in>set named. decided e" and "\<forall>b. everyone = Some b \<longrightarrow> decided b"
  shows "decision_of (resolveApplicablePermissionDecisions ds) =
     (if \<exists>e\<in>set named. te_decision e = DecisionDeny then DecisionDeny
      else if \<exists>e\<in>set named. te_decision e = DecisionAllow \<and> baseline_allows everyone e then DecisionAllow
      else case everyone of None \<Rightarrow> DecisionNone | Some b \<Rightarrow> te_decision b)"
proof (cases "\<exists>e\<in>set named. te_decision e = DecisionDeny")
  case True
  then have "decision_of (resolveDecisionEntries named) = DecisionDeny"
    unfolding resolveDecisionEntries_def by (rule decision_loop_deny)
  then obtain w where "resolveDecisionEntries named = Some (DecisionDeny, w)"
    by (auto simp: decision_of_def split: option.splits)
  with True show ?thesis
    by (simp add: resolveApplicablePermissionDecisions_def decision_of_def named_def)
next
  case False
  with assms(3) have allow: "\<forall>e\<in>set named. te_decision e = DecisionAllow" by (auto simp: decided_def)
  note loop = decision_loop_allow [OF allow, of None]
  show ?thesis
  proof (cases "resolveDecisionEntries named")
    case None
    with loop have "named = []" by (simp add: resolveDecisionEntries_def)
    with None show ?thesis
      by (simp add: resolveApplicablePermissionDecisions_def decision_of_def everyone_def [symmetric]
          named_def [symmetric] split: option.split)
  next
    case (Some r)
    then obtain w where r: "r = (DecisionAllow, w)" and w: "w \<in> set named" and max: "\<forall>e\<in>set named. spec e \<le> spec w"
      using loop by (auto simp: resolveDecisionEntries_def)
    have best: "(\<exists>e\<in>set named. te_decision e = DecisionAllow \<and> baseline_allows everyone e) \<longleftrightarrow> baseline_allows everyone w"
    proof
      assume "\<exists>e\<in>set named. te_decision e = DecisionAllow \<and> baseline_allows everyone e"
      then obtain e where "e \<in> set named" "baseline_allows everyone e" by blast
      with max show "baseline_allows everyone w" by (fastforce simp: baseline_allows_def)
    qed (use w allow in blast)
    show ?thesis
      using assms(4) Some r best False
      by (cases everyone)
        (auto simp: resolveApplicablePermissionDecisions_def decision_of_def baseline_allows_def decided_def
          everyone_def [symmetric] named_def [symmetric])
  qed
qed

text \<open>The subjects of a check, and the entry each contributes.\<close>

definition named_entries ::
  "server_state \<Rightarrow> string \<Rightarrow> room_kind \<Rightarrow> string \<Rightarrow> string \<Rightarrow> permission \<Rightarrow> trace_entry set" where
  "named_entries s userID kind roomID groupID perm =
     {e. \<exists>subject. (subject = userID \<or> HasRole (sv_rbac s) userID subject \<and> subject \<noteq> RoleEveryone)
         \<and> nearestDecision s subject perm (applicableScopeTargets kind roomID groupID perm) = Some e}"

definition everyone_entry ::
  "server_state \<Rightarrow> room_kind \<Rightarrow> string \<Rightarrow> string \<Rightarrow> permission \<Rightarrow> trace_entry option" where
  "everyone_entry s kind roomID groupID perm =
     nearestDecision s RoleEveryone perm (applicableScopeTargets kind roomID groupID perm)"

lemma explicitRoles_iff:
  "r \<in> set (explicitRoles s userID) \<longleftrightarrow> HasRole (sv_rbac s) userID r \<and> r \<noteq> RoleEveryone"
  by (auto simp: explicitRoles_def GetUserRoles_def HasRole_def fmlookup_dom_iff)

lemma nearest_unknown:
  "GetPermissionMetadata perm = None \<Longrightarrow> nearestDecision s subject perm ts = None"
  by (simp add: nearestDecision_none decisionFor_def)

lemma set_map_filter_iff: "y \<in> set (List.map_filter f xs) \<longleftrightarrow> (\<exists>x\<in>set xs. f x = Some y)"
  by (induction xs) (auto simp: List.map_filter_simps split: option.splits)

lemma applicableDecisions_entries:
  "set (ad_named (applicableDecisions s userID kind roomID groupID perm))
     = named_entries s userID kind roomID groupID perm"
  "ad_everyone (applicableDecisions s userID kind roomID groupID perm) = everyone_entry s kind roomID groupID perm"
proof -
  consider "GetPermissionMetadata perm = None" | "applicableScopeTargets kind roomID groupID perm = []"
    | "GetPermissionMetadata perm \<noteq> None" "applicableScopeTargets kind roomID groupID perm \<noteq> []"
    by blast
  then have "set (ad_named (applicableDecisions s userID kind roomID groupID perm))
     = named_entries s userID kind roomID groupID perm
    \<and> ad_everyone (applicableDecisions s userID kind roomID groupID perm) = everyone_entry s kind roomID groupID perm"
  proof cases
    case 3
    then have "ad_named (applicableDecisions s userID kind roomID groupID perm)
        = List.map_filter (\<lambda>subject. nearestDecision s subject perm (applicableScopeTargets kind roomID groupID perm))
            (userID # explicitRoles s userID)"
      by (simp only: applicableDecisions_def Let_def) simp
    then have "e \<in> set (ad_named (applicableDecisions s userID kind roomID groupID perm)) \<longleftrightarrow>
        e \<in> named_entries s userID kind roomID groupID perm" for e
      by (simp only: set_map_filter_iff) (auto simp: named_entries_def explicitRoles_iff)
    moreover have "ad_everyone (applicableDecisions s userID kind roomID groupID perm)
        = everyone_entry s kind roomID groupID perm"
      using 3 by (auto simp: applicableDecisions_def everyone_entry_def Let_def)
    ultimately show ?thesis by blast
  qed (simp_all add: applicableDecisions_def named_entries_def everyone_entry_def nearest_unknown)
  then show "set (ad_named (applicableDecisions s userID kind roomID groupID perm))
      = named_entries s userID kind roomID groupID perm"
    "ad_everyone (applicableDecisions s userID kind roomID groupID perm) = everyone_entry s kind roomID groupID perm"
    by auto
qed

lemma exact_decision_cases:
  "exactDecision s userID kind roomID groupID perm =
     (if \<exists>e\<in>named_entries s userID kind roomID groupID perm. te_decision e = DecisionDeny then DecisionDeny
      else if \<exists>e\<in>named_entries s userID kind roomID groupID perm.
           te_decision e = DecisionAllow \<and> baseline_allows (everyone_entry s kind roomID groupID perm) e
      then DecisionAllow
      else case everyone_entry s kind roomID groupID perm of
             None \<Rightarrow> DecisionNone | Some b \<Rightarrow> te_decision b)"
proof -
  let ?d = "applicableDecisions s userID kind roomID groupID perm"
  have named: "\<forall>e\<in>set (ad_named ?d). decided e"
    using nearestDecision_decides
    by (fastforce simp: applicableDecisions_entries named_entries_def decided_def)
  have everyone: "\<forall>b. ad_everyone ?d = Some b \<longrightarrow> decided b"
    using nearestDecision_decides by (fastforce simp: applicableDecisions_entries everyone_entry_def decided_def)
  show ?thesis
    using resolve_named_cases [OF named everyone] by (simp only: exactDecision_def applicableDecisions_entries)
qed


section \<open>Inclusion\<close>

lemma including_loop_allow:
  "including_loop f ps own = DecisionAllow \<longleftrightarrow> own = DecisionAllow \<or> (\<exists>p\<in>set ps. f p = DecisionAllow)"
  by (induction f ps own rule: including_loop.induct) auto

lemma inclusions_allow:
  "resolvePermissionWithInclusions perm f = DecisionAllow \<longleftrightarrow>
     (\<exists>p \<in> insert perm (set (includingPermissions perm)). f p = DecisionAllow)"
  by (simp add: resolvePermissionWithInclusions_def including_loop_allow)

lemma including_unknown: "GetPermissionMetadata perm = None \<Longrightarrow> includingPermissions perm = []"
  by (simp add: includingPermissions_def includingPermissionsFrom_def GetPermissionMetadata_def)

lemma exact_unknown: "GetPermissionMetadata perm = None \<Longrightarrow> exactDecision s u kind roomID groupID perm = DecisionNone"
  by (simp add: exactDecision_def applicableDecisions_def resolveApplicablePermissionDecisions_def
      resolveDecisionEntries_def decision_of_def)

text \<open>No permission of the catalog includes itself, and inclusion keeps the permission's shape.\<close>

lemma including_shape:
  assumes "p \<in> set (includingPermissions perm)"
  shows "p \<noteq> perm \<and> GetPermissionMetadata p \<noteq> None \<and> GetPermissionMetadata perm \<noteq> None
     \<and> requiresPrivilegedMode p = requiresPrivilegedMode perm
     \<and> PermissionAppliesAtScope p sc = PermissionAppliesAtScope perm sc"
proof -
  from assms obtain md where md: "GetPermissionMetadata p = Some md" "perm \<in> set (pm_includes md)"
    by (auto simp: includingPermissions_def includingPermissionsFrom_def GetPermissionMetadata_def
        fmlookup_dom_iff split: if_splits option.splits)
  then have "includes_ok permissionIndex md perm"
    using validatePermissionCatalog_Inr(4) [OF allPermissions_valid] metadata_in_catalog by blast
  then obtain md' where md': "GetPermissionMetadata perm = Some md'" "pm_permission md \<noteq> perm"
    "samePermissionScopes (pm_scopes md) (pm_scopes md')" "pm_requires_privileged md = pm_requires_privileged md'"
    by (auto simp: includes_ok_def GetPermissionMetadata_def)
  then have "mset (pm_scopes md) = mset (pm_scopes md')"
    using samePermissionScopes_iff_mset by blast
  then have "set (pm_scopes md) = set (pm_scopes md')" by (metis set_mset_mset)
  moreover have "pm_permission md = p" using md(1) by (simp add: metadata_in_catalog)
  ultimately show ?thesis
    using md(1) md'
    by (simp add: requiresPrivilegedMode_def PermissionAppliesAtScope_def GetPermissionMetadata_def)
qed

section \<open>Humans\<close>

definition is_human :: "server_state \<Rightarrow> string \<Rightarrow> bool" where
  "is_human s u \<longleftrightarrow> (\<forall>ow. IsBotAndOwner (sv_users s) u \<noteq> Some (True, ow))"

lemma entitlement_human:
  "is_human s u \<Longrightarrow> resolveEntitlementWithGroup s u kind roomID g perm = resolveHumanWithGroup s u kind roomID g perm True"
  by (auto simp: resolveEntitlementWithGroup_def is_human_def split: option.split prod.split bool.split)

lemma resolve_human:
  "is_human s u \<Longrightarrow> resolveWithGroup s rq u kind roomID g perm =
     (let d = resolveHumanWithGroup s u kind roomID g perm (privilegedModeAllows rq u) in
      if d \<noteq> DecisionAllow then d
      else if requiresPrivilegedMode perm \<and> \<not> privilegedModeAllows rq u then DecisionDeny else d)"
  by (auto simp: resolveWithGroup_def is_human_def Let_def split: option.split prod.split bool.split)

lemma resolve_bot:
  "IsBotAndOwner (sv_users s) u = Some (True, ow) \<Longrightarrow>
     resolveWithGroup s rq u kind roomID g perm = resolveBotWithGroup s u ow kind roomID g perm
     \<and> resolveEntitlementWithGroup s u kind roomID g perm = resolveBotWithGroup s u ow kind roomID g perm"
  by (simp add: resolveWithGroup_def resolveEntitlementWithGroup_def)

lemma owner_entitlement:
  "IsBotAndOwner (sv_users s) ow = Some (False, x) \<Longrightarrow>
     resolveEntitlementWithGroup s ow kind roomID g perm = resolveHumanWithGroup s ow kind roomID g perm True"
  by (simp add: resolveEntitlementWithGroup_def)

lemma override_only_adds:
  "resolveHumanWithGroup s u kind roomID g perm b = DecisionAllow \<Longrightarrow>
     resolveHumanWithGroup s u kind roomID g perm True = DecisionAllow"
  by (auto simp: resolveHumanWithGroup_def split: if_splits)

text \<open>Privileged mode only ever lowers authority. What a check allows is always
  within the account's durable entitlement, and while the mode is active the check and the
  entitlement are the same decision, for humans and bots, at every scope.\<close>

theorem effective_within_entitlement:
  "(resolveWithGroup s rq u kind roomID g perm = DecisionAllow \<longrightarrow>
      resolveEntitlementWithGroup s u kind roomID g perm = DecisionAllow)
   \<and> (privilegedModeAllows rq u \<longrightarrow>
      resolveWithGroup s rq u kind roomID g perm = resolveEntitlementWithGroup s u kind roomID g perm)"
proof (cases "is_human s u")
  case True
  then show ?thesis
    using override_only_adds [of s u kind roomID g perm]
    by (auto simp: resolve_human entitlement_human Let_def split: if_splits)
next
  case False
  then obtain ow where "IsBotAndOwner (sv_users s) u = Some (True, ow)" by (auto simp: is_human_def)
  then show ?thesis using resolve_bot by simp
qed

text \<open>C3 (safety). The privileged-mode gate. A request with a human credential is allowed a
  permission that requires privileged mode only for the credential's own account and only
  before the activation deadline, owners included; that deadline is the one recorded for
  work that outlives the request.\<close>

theorem privileged_mode_gate:
  assumes "is_human s u" and "requiresPrivilegedMode perm"
    and "rq_evaluation rq = None" and "CredentialForContext rq = Some c"
    and "cd_kind c \<noteq> CredentialBotAPIKey"
    and "resolveWithGroup s rq u kind roomID g perm = DecisionAllow"
  shows "cd_user_id c = u \<and> rq_now rq < cd_privileged_until c
     \<and> PrivilegedModeDeadline rq u = cd_privileged_until c"
proof -
  have "privilegedModeAllows rq u"
    using assms(1,2,6) by (auto simp: resolve_human Let_def split: if_splits)
  with assms(3-5) show ?thesis
    by (auto simp: privilegedModeAllows_def PrivilegedModeDeadline_def split: if_splits)
qed

lemma human_unknown:
  "GetPermissionMetadata perm = None \<Longrightarrow> resolveHumanWithGroup s u kind roomID g perm b \<noteq> DecisionAllow"
  by (simp add: resolveHumanWithGroup_def inclusions_allow including_unknown exact_unknown)

text \<open>C1 (safety). What no state, role or privileged mode can allow: a permission outside the
  catalog, anything to a deactivated human or to that human's bots, and a permission that
  does not apply to direct messages inside one.\<close>

theorem never_allowed:
  "(GetPermissionMetadata perm = None \<longrightarrow> resolveWithGroup s rq u kind roomID g perm \<noteq> DecisionAllow)
   \<and> (Deactivated (sv_users s) u \<and> is_human s u \<longrightarrow> resolveWithGroup s rq u kind roomID g perm = DecisionDeny)
   \<and> (IsBotAndOwner (sv_users s) u = Some (True, ow) \<and> Deactivated (sv_users s) ow \<longrightarrow>
        resolveWithGroup s rq u kind roomID g perm = DecisionDeny)
   \<and> (kind = KindDM \<and> GetPermissionMetadata perm \<noteq> None \<and> \<not> PermissionAppliesAtScope perm ScopeDM \<longrightarrow>
        resolveWithGroup s rq u kind roomID g perm = DecisionDeny)"
proof (cases "is_human s u")
  case True
  then have no_bot: "IsBotAndOwner (sv_users s) u \<noteq> Some (True, ow)" by (simp add: is_human_def)
  have dead: "Deactivated (sv_users s) u \<Longrightarrow> resolveHumanWithGroup s u kind roomID g perm b = DecisionDeny" for b
    by (simp add: resolveHumanWithGroup_def)
  have dm: "kind = KindDM \<and> GetPermissionMetadata perm \<noteq> None \<and> \<not> PermissionAppliesAtScope perm ScopeDM \<Longrightarrow>
      resolveHumanWithGroup s u kind roomID g perm b = DecisionDeny" for b
    by (simp add: resolveHumanWithGroup_def)
  from True no_bot dead dm human_unknown [of perm s u kind roomID g] show ?thesis
    by (simp add: resolve_human Let_def)
next
  case False
  then obtain ow' where b: "IsBotAndOwner (sv_users s) u = Some (True, ow')" by (auto simp: is_human_def)
  have dead: "Deactivated (sv_users s) ow' \<Longrightarrow> resolveBotWithGroup s u ow' kind roomID g perm = DecisionDeny"
    by (simp add: resolveBotWithGroup_def resolveHumanWithGroup_def Let_def split: option.split)
  have unknown: "GetPermissionMetadata perm = None \<Longrightarrow> resolveBotWithGroup s u ow' kind roomID g perm \<noteq> DecisionAllow"
    by (simp add: resolveBotWithGroup_def botPermissionDelegable_def)
  have dm: "kind = KindDM \<and> \<not> PermissionAppliesAtScope perm ScopeDM \<Longrightarrow>
      resolveBotWithGroup s u ow' kind roomID g perm = DecisionDeny"
    by (simp add: resolveBotWithGroup_def)
  from b dead unknown dm False show ?thesis by (auto simp: resolve_bot [OF b])
qed


section \<open>Bots\<close>

text \<open>C2 (safety). A bot never exceeds its owner or its own grants. What a bot is allowed, its
  owner is entitled to in the same place; the owner exists, is a human and is not
  deactivated; the permission can be delegated; and an explicit allow recorded for the bot
  itself, at a scope that applies here, covers it. No role, not even everyone, helps a bot.\<close>

theorem bot_ceiling:
  assumes bot: "IsBotAndOwner (sv_users s) b = Some (True, ow)"
    and allow: "resolveWithGroup s rq b kind roomID g perm = DecisionAllow"
  shows "(\<exists>x. IsBotAndOwner (sv_users s) ow = Some (False, x)) \<and> \<not> Deactivated (sv_users s) ow
    \<and> resolveEntitlementWithGroup s ow kind roomID (effectiveGroup s kind roomID g perm) perm = DecisionAllow
    \<and> botPermissionDelegable perm
    \<and> (\<exists>p \<in> insert perm (set (includingPermissions perm)).
         \<exists>t \<in> set (applicableScopeTargets kind roomID (effectiveGroup s kind roomID g perm) p).
           GetDecision (sv_rbac s) (st_scope t) (st_id t) b p = DecisionAllow)"
proof -
  let ?g = "effectiveGroup s kind roomID g perm"
  have bot_allow: "resolveBotWithGroup s b ow kind roomID g perm = DecisionAllow"
    using allow resolve_bot [OF bot] by simp
  then obtain x where x: "IsBotAndOwner (sv_users s) ow = Some (False, x)"
    and deleg: "botPermissionDelegable perm"
    and given: "botDelegatedDecision s b kind roomID ?g perm = DecisionAllow"
    and ceiling: "resolveHumanWithGroup s ow kind roomID ?g perm True = DecisionAllow"
    by (auto simp: resolveBotWithGroup_def Let_def split: if_splits option.splits prod.splits)
  from given obtain p where p: "p \<in> insert perm (set (includingPermissions perm))"
    "botDelegatedExactDecision s b kind roomID ?g p = DecisionAllow"
    by (auto simp: botDelegatedDecision_def inclusions_allow)
  then obtain e where e: "nearestDecision s b p (applicableScopeTargets kind roomID ?g p) = Some e"
    "te_decision e = DecisionAllow"
    by (auto simp: botDelegatedExactDecision_def split: if_splits option.splits)
  from nearestDecision_target [OF e(1)] e(2) obtain t where
    "t \<in> set (applicableScopeTargets kind roomID ?g p)"
    "GetDecision (sv_rbac s) (st_scope t) (st_id t) b p = DecisionAllow"
    by (auto simp: decisionFor_def split: if_splits)
  moreover have "\<not> Deactivated (sv_users s) ow"
    using ceiling by (auto simp: resolveHumanWithGroup_def)
  ultimately show ?thesis
    using x deleg ceiling p(1) owner_entitlement [OF x] by auto
qed

section \<open>Closed instances\<close>

definition sample_person :: "string \<Rightarrow> bool \<Rightarrow> string \<Rightarrow> bool \<Rightarrow> projected_user" where
  "sample_person i is_bot owner off =
     empty_user\<lparr>pu_user := Some ((plain_user i None)\<lparr>us_is_bot := is_bot, us_bot_owner := owner,
                                    us_deactivated := off\<rparr>)\<rparr>"

text \<open>An owner with an explicit denial, the owner's bot with a grant, a moderator, a deactivated account.\<close>

definition sample_server :: server_state where
  "sample_server =
     \<lparr>sv_rooms = NewRoomDirectoryProjection, sv_groups = NewRoomGroupLayoutProjection,
      sv_users = newUserProjection\<lparr>ua_users := fmap_of_list
        [(''Uown'', sample_person ''Uown'' False [] False), (''Ubot'', sample_person ''Ubot'' True ''Uown'' False),
         (''Umod'', sample_person ''Umod'' False [] False), (''Uoff'', sample_person ''Uoff'' False [] True)]\<rparr>,
      sv_rbac = NewRBACProjection\<lparr>
        assignments := fmap_of_list
          [(''Uown'', fmap_of_list [(RoleOwner, [])]), (''Umod'', fmap_of_list [(RoleModerator, [])])],
        decisions := fmap_of_list
          [(rbacDecisionKeyFor ScopeServer [] ''Uown'' PermServerManage, DecisionDeny),
           (rbacDecisionKeyFor ScopeServer [] ''Ubot'' PermMessagePost, DecisionAllow),
           (rbacDecisionKeyFor ScopeServer [] RoleModerator PermMessageManage, DecisionAllow),
           (rbacDecisionKeyFor ScopeServer [] RoleEveryone PermMessagePost, DecisionAllow)]\<rparr>\<rparr>"

definition sample_request :: "string \<Rightarrow> request" where
  "sample_request u =
     \<lparr>rq_evaluation = None,
      rq_credential = Some \<lparr>cd_kind = ''cookie_session'', cd_user_id = u, cd_handle = ''h'', cd_privileged_until = 100\<rparr>,
      rq_now = 50\<rparr>"

lemma privileged_mode_gate_witness:
  "rq_now (sample_request ''Uown'') < 100"
proof -
  have h: "is_human sample_server ''Uown''"
  proof -
    have "map_option fst (IsBotAndOwner (sv_users sample_server) ''Uown'') = Some False" by code_simp
    then show ?thesis by (auto simp: is_human_def)
  qed
  have "requiresPrivilegedMode PermServerManage" by code_simp
  moreover have "resolveWithGroup sample_server (sample_request ''Uown'') ''Uown'' KindChannel [] [] PermServerManage = DecisionAllow"
    by code_simp
  ultimately show ?thesis
    using privileged_mode_gate [OF h, of PermServerManage "sample_request ''Uown''"
        "\<lparr>cd_kind = ''cookie_session'', cd_user_id = ''Uown'', cd_handle = ''h'', cd_privileged_until = 100\<rparr>"
        KindChannel "[]" "[]"]
    by (simp add: sample_request_def CredentialForContext_def)
qed

lemma never_allowed_witness:
  "resolveWithGroup sample_server (sample_request ''Uoff'') ''Uoff'' KindChannel [] [] PermMessagePost = DecisionDeny"
proof -
  have "map_option fst (IsBotAndOwner (sv_users sample_server) ''Uoff'') = Some False" by code_simp
  then have "is_human sample_server ''Uoff''" by (auto simp: is_human_def)
  moreover have "Deactivated (sv_users sample_server) ''Uoff''" by code_simp
  ultimately show ?thesis using never_allowed [of PermMessagePost sample_server "sample_request ''Uoff''" "''Uoff''"]
    by blast
qed

lemma effective_within_entitlement_witness:
  "resolveEntitlementWithGroup sample_server ''Uown'' KindChannel [] [] PermServerManage = DecisionAllow"
proof -
  have "resolveWithGroup sample_server (sample_request ''Uown'') ''Uown'' KindChannel [] [] PermServerManage = DecisionAllow"
    by code_simp
  then show ?thesis using effective_within_entitlement by blast
qed


lemma bot_ceiling_witness:
  "\<not> Deactivated (sv_users sample_server) ''Uown'' \<and> botPermissionDelegable PermMessagePost"
proof -
  have bot: "IsBotAndOwner (sv_users sample_server) ''Ubot'' = Some (True, ''Uown'')" by code_simp
  have "resolveWithGroup sample_server (sample_request ''Ubot'') ''Ubot'' KindChannel [] [] PermMessagePost = DecisionAllow"
    by code_simp
  from bot_ceiling [OF bot this] show ?thesis by blast
qed

end
