(* ===== verification/Permission_Explainer.thy ===== *)
theory Permission_Explainer
  imports Permission_Resolver_Properties
begin

text \<open>
  The permission inspector (\<open>permission_explainer.go\<close>): the decision of a check
  together with the trace that led to it, and how far it agrees with the resolver.
\<close>

section \<open>Explanations\<close>

record explanation =
  ex_permission :: permission
  ex_included_by :: permission
  ex_state :: decision_kind
  ex_decided_at :: "permission_level option"
  ex_decided_by :: string
  ex_trace :: "trace_entry list"

definition new_explanation :: "permission \<Rightarrow> explanation" where
  "new_explanation perm =
     \<lparr>ex_permission = perm, ex_included_by = [], ex_state = DecisionNone, ex_decided_at = None,
      ex_decided_by = [], ex_trace = []\<rparr>"

definition policy_entry :: "permission_level \<Rightarrow> string \<Rightarrow> trace_entry" where
  "policy_entry level marker =
     \<lparr>te_level = level, te_role = marker, te_decision = DecisionDeny, te_object = []\<rparr>"

definition applyDMApplicabilityDeny :: "permission_level \<Rightarrow> explanation \<Rightarrow> explanation" where
  "applyDMApplicabilityDeny level exp =
     exp\<lparr>ex_state := DecisionDeny, ex_decided_at := Some level, ex_decided_by := ''@dm-policy'',
         ex_trace := [policy_entry level ''@dm-policy'']\<rparr>"

definition applyBotPolicyDeny :: "string \<Rightarrow> string \<Rightarrow> explanation \<Rightarrow> explanation" where
  "applyBotPolicyDeny roomID marker exp =
     (let level = (if roomID \<noteq> [] then LevelRoom else LevelServer) in
      exp\<lparr>ex_state := DecisionDeny, ex_decided_at := Some level, ex_decided_by := marker,
          ex_trace := [policy_entry level marker]\<rparr>)"

definition collectFullTraceExact ::
  "server_state \<Rightarrow> string \<Rightarrow> room_kind \<Rightarrow> string \<Rightarrow> string \<Rightarrow> permission \<Rightarrow> explanation \<Rightarrow> explanation" where
  "collectFullTraceExact s userID kind roomID groupID perm exp =
     (let ds = applicableDecisions s userID kind roomID groupID perm;
          traced = exp\<lparr>ex_trace := ex_trace exp @ ad_named ds
                     @ (case ad_everyone ds of None \<Rightarrow> [] | Some b \<Rightarrow> [b])\<rparr>
      in case resolveApplicablePermissionDecisions ds of
           None \<Rightarrow> traced
         | Some (state, winner) \<Rightarrow>
             traced\<lparr>ex_state := state, ex_decided_at := Some (te_level winner),
                    ex_decided_by := te_role winner\<rparr>)"

text \<open>The loop over including permissions: the first that is allowed explains the result.\<close>

fun explain_including ::
  "(permission \<Rightarrow> explanation) \<Rightarrow> permission list \<Rightarrow> (permission \<times> explanation) option" where
  "explain_including exact [] = None"
| "explain_including exact (including # rest) =
     (let included = exact including in
      if ex_state included = DecisionAllow then Some (including, included)
      else explain_including exact rest)"

definition collectHumanFullTrace ::
  "server_state \<Rightarrow> string \<Rightarrow> room_kind \<Rightarrow> string \<Rightarrow> permission \<Rightarrow> explanation \<Rightarrow> bool \<Rightarrow> explanation" where
  "collectHumanFullTrace s userID kind roomID perm exp ownerOverride =
     (if GetPermissionMetadata perm \<noteq> None \<and> kind = KindDM \<and> \<not> PermissionAppliesAtScope perm ScopeDM
      then applyDMApplicabilityDeny LevelDM exp
      else if GetPermissionMetadata perm \<noteq> None \<and> ownerOverride \<and> HasRole (sv_rbac s) userID RoleOwner
      then exp\<lparr>ex_state := DecisionAllow, ex_decided_at := Some LevelServer, ex_decided_by := RoleOwner,
               ex_trace := [\<lparr>te_level = LevelServer, te_role = RoleOwner, te_decision = DecisionAllow,
                             te_object = ObjectIdAny\<rparr>]\<rparr>
      else
        let groupID = effectiveGroup s kind roomID [] perm in
        case explain_including
               (\<lambda>p. collectFullTraceExact s userID kind roomID groupID p (new_explanation p))
               (includingPermissions perm) of
          Some (including, included) \<Rightarrow>
            exp\<lparr>ex_included_by := including, ex_state := ex_state included,
                ex_decided_at := ex_decided_at included, ex_decided_by := ex_decided_by included,
                ex_trace := ex_trace included\<rparr>
        | None \<Rightarrow> collectFullTraceExact s userID kind roomID groupID perm exp)"

fun explain_delegated ::
  "server_state \<Rightarrow> string \<Rightarrow> room_kind \<Rightarrow> string \<Rightarrow> string \<Rightarrow> permission \<Rightarrow> permission list
     \<Rightarrow> decision_kind \<times> permission \<times> trace_entry option" where
  "explain_delegated s b kind roomID groupID perm [] = (DecisionNone, perm, None)"
| "explain_delegated s b kind roomID groupID perm (candidate # rest) =
     (if GetPermissionMetadata candidate = None then explain_delegated s b kind roomID groupID perm rest
      else case nearestDecision s b candidate (applicableScopeTargets kind roomID groupID candidate) of
        None \<Rightarrow> explain_delegated s b kind roomID groupID perm rest
      | Some entry \<Rightarrow>
          if te_decision entry = DecisionAllow then (DecisionAllow, candidate, Some entry)
          else if candidate = perm then (DecisionDeny, candidate, Some entry)
          else explain_delegated s b kind roomID groupID perm rest)"

definition botDelegatedExplanation ::
  "server_state \<Rightarrow> string \<Rightarrow> room_kind \<Rightarrow> string \<Rightarrow> string \<Rightarrow> permission
     \<Rightarrow> decision_kind \<times> permission \<times> trace_entry option" where
  "botDelegatedExplanation s b kind roomID groupID perm =
     explain_delegated s b kind roomID groupID perm (includingPermissions perm @ [perm])"

definition collectBotFullTrace ::
  "server_state \<Rightarrow> string \<Rightarrow> string \<Rightarrow> room_kind \<Rightarrow> string \<Rightarrow> permission \<Rightarrow> explanation \<Rightarrow> explanation" where
  "collectBotFullTrace s botUserID ownerUserID kind roomID perm exp =
     (if \<not> botPermissionDelegable perm then applyBotPolicyDeny roomID ''@bot-policy'' exp
      else if kind = KindDM \<and> \<not> PermissionAppliesAtScope perm ScopeDM then applyDMApplicabilityDeny LevelDM exp
      else if (case IsBotAndOwner (sv_users s) ownerUserID of None \<Rightarrow> True | Some (ownerIsBot, _) \<Rightarrow> ownerIsBot)
      then applyBotPolicyDeny roomID ''@bot-owner-ceiling'' exp
      else
        let groupID = effectiveGroup s kind roomID [] perm in
        case botDelegatedExplanation s botUserID kind roomID groupID perm of
          (delegated, sourcePermission, sourceEntry) \<Rightarrow>
            if delegated \<noteq> DecisionAllow then
              (case sourceEntry of
                 Some entry \<Rightarrow>
                   exp\<lparr>ex_state := DecisionDeny, ex_decided_at := Some (te_level entry),
                       ex_decided_by := te_role entry, ex_trace := [entry]\<rparr>
               | None \<Rightarrow> applyBotPolicyDeny roomID ''@bot-allowlist'' exp)
            else
              let owner = collectHumanFullTrace s ownerUserID kind roomID perm (new_explanation perm) True in
              if ex_state owner \<noteq> DecisionAllow then
                (let denied = applyBotPolicyDeny roomID ''@bot-owner-ceiling'' exp
                 in denied\<lparr>ex_trace := ex_trace denied @ ex_trace owner\<rparr>)
              else
                exp\<lparr>ex_included_by := (if sourcePermission \<noteq> perm then sourcePermission else ex_included_by owner),
                    ex_state := DecisionAllow,
                    ex_decided_at := map_option te_level sourceEntry,
                    ex_decided_by := (case sourceEntry of None \<Rightarrow> [] | Some e \<Rightarrow> te_role e),
                    ex_trace := (case sourceEntry of None \<Rightarrow> [] | Some e \<Rightarrow> [e]) @ ex_trace owner\<rparr>)"

definition collectFullTrace ::
  "server_state \<Rightarrow> request \<Rightarrow> string \<Rightarrow> room_kind \<Rightarrow> string \<Rightarrow> permission \<Rightarrow> explanation \<Rightarrow> explanation" where
  "collectFullTrace s rq userID kind roomID perm exp =
     (if GetPermissionMetadata perm = None then exp
      else case IsBotAndOwner (sv_users s) userID of
        Some (True, owner) \<Rightarrow> collectBotFullTrace s userID owner kind roomID perm exp
      | _ \<Rightarrow>
          let privileged = privilegedModeAllows rq userID;
              human = collectHumanFullTrace s userID kind roomID perm exp privileged
          in if ex_state human = DecisionAllow \<and> requiresPrivilegedMode perm \<and> \<not> privileged
             then human\<lparr>ex_state := DecisionDeny, ex_included_by := [], ex_decided_at := Some LevelServer,
                        ex_decided_by := ''@privileged-mode'',
                        ex_trace := \<lparr>te_level = LevelServer, te_role = ''@privileged-mode'',
                                     te_decision = DecisionDeny, te_object = ObjectIdAny\<rparr> # ex_trace human\<rparr>
             else human)"

section \<open>Entry points\<close>

definition explainServerPermission ::
  "server_state \<Rightarrow> request \<Rightarrow> string \<Rightarrow> permission \<Rightarrow> scope_error + explanation" where
  "explainServerPermission s rq userID perm =
     (if known_off_scope perm ScopeServer then Inl (NotAtServerScope perm)
      else Inr (collectFullTrace s rq userID KindChannel [] perm (new_explanation perm)))"

definition explainServerKindPermission ::
  "server_state \<Rightarrow> request \<Rightarrow> string \<Rightarrow> room_kind \<Rightarrow> permission \<Rightarrow> scope_error + explanation" where
  "explainServerKindPermission s rq userID kind perm =
     (if kind \<noteq> KindDM \<and> known_off_scope perm ScopeServer then Inl (NotAtServerScope perm)
      else Inr (collectFullTrace s rq userID kind [] perm (new_explanation perm)))"

definition explainRoomPermission ::
  "server_state \<Rightarrow> request \<Rightarrow> string \<Rightarrow> room_kind \<Rightarrow> string \<Rightarrow> permission \<Rightarrow> scope_error + explanation" where
  "explainRoomPermission s rq userID kind roomID perm =
     (if \<not> PermissionAppliesAtScope perm ScopeRoom \<and> \<not> PermissionAppliesAtScope perm ScopeDM
         \<and> \<not> PermissionAppliesAtScope perm ScopeServer
      then Inl (NotAtRoomScope perm)
      else Inr (collectFullTrace s rq userID kind roomID perm (new_explanation perm)))"

datatype explain_error = RoomRequiresKind | ExplainFailed permission scope_error

text \<open>An unset kind is \<^const>\<open>None\<close>.\<close>

definition explainAllPermissions ::
  "server_state \<Rightarrow> request \<Rightarrow> string \<Rightarrow> room_kind option \<Rightarrow> string \<Rightarrow> explain_error + explanation list" where
  "explainAllPermissions s rq userID kind roomID =
     (if roomID \<noteq> [] \<and> kind = None then Inl RoomRequiresKind
      else
        let scope = (if kind = Some KindDM then ScopeDM else if roomID \<noteq> [] then ScopeRoom else ScopeServer)
        in fold_res
             (\<lambda>meta results.
                case (case kind of
                        Some k \<Rightarrow>
                          if roomID \<noteq> [] then explainRoomPermission s rq userID k roomID (pm_permission meta)
                          else explainServerKindPermission s rq userID k (pm_permission meta)
                      | None \<Rightarrow> explainServerPermission s rq userID (pm_permission meta)) of
                  Inl err \<Rightarrow> Inl (ExplainFailed (pm_permission meta) err)
                | Inr exp \<Rightarrow> Inr (results @ [exp]))
             (PermissionsForScope scope) [])"

section \<open>Agreement with the resolver\<close>

lemma exact_state:
  "ex_state (collectFullTraceExact s u kind roomID g p (new_explanation p)) = exactDecision s u kind roomID g p"
  by (simp add: collectFullTraceExact_def exactDecision_def decision_of_def new_explanation_def Let_def
      split: option.split prod.split)

lemma including_state:
  "explain_including (\<lambda>p. collectFullTraceExact s u kind roomID g p (new_explanation p)) ps =
     Some (q, e) \<Longrightarrow> ex_state e = DecisionAllow"
  by (induction ps) (auto simp: Let_def split: if_splits)

lemma including_none:
  "explain_including (\<lambda>p. collectFullTraceExact s u kind roomID g p (new_explanation p)) ps = None \<longleftrightarrow>
     (\<forall>p\<in>set ps. exactDecision s u kind roomID g p \<noteq> DecisionAllow)"
  by (induction ps) (auto simp: Let_def exact_state)

lemma including_loop_none:
  "\<forall>p\<in>set ps. f p \<noteq> DecisionAllow \<Longrightarrow> including_loop f ps own = own"
  by (induction ps) auto

lemma human_state:
  assumes "\<not> Deactivated (sv_users s) u"
  shows "ex_state (collectHumanFullTrace s u kind roomID perm (new_explanation perm) b)
      = resolveHumanWithGroup s u kind roomID [] perm b"
proof (cases "explain_including (\<lambda>p. collectFullTraceExact s u kind roomID (effectiveGroup s kind roomID [] perm) p
      (new_explanation p)) (includingPermissions perm)")
  case None
  then have "resolvePermissionWithInclusions perm (exactDecision s u kind roomID (effectiveGroup s kind roomID [] perm))
      = exactDecision s u kind roomID (effectiveGroup s kind roomID [] perm) perm"
    by (simp add: including_none resolvePermissionWithInclusions_def including_loop_none)
  with assms None show ?thesis
    by (cases "GetPermissionMetadata perm")
      (simp_all add: collectHumanFullTrace_def resolveHumanWithGroup_def applyDMApplicabilityDeny_def exact_state Let_def)
next
  case (Some r)
  then obtain q e where r: "r = (q, e)" by force
  have "\<not> (\<forall>p\<in>set (includingPermissions perm).
      exactDecision s u kind roomID (effectiveGroup s kind roomID [] perm) p \<noteq> DecisionAllow)"
    using Some including_none by (metis option.distinct(1))
  then have "resolvePermissionWithInclusions perm (exactDecision s u kind roomID (effectiveGroup s kind roomID [] perm))
      = DecisionAllow"
    by (auto simp: inclusions_allow)
  with assms Some r including_state [OF Some [unfolded r]] show ?thesis
    by (cases "GetPermissionMetadata perm")
      (simp_all add: collectHumanFullTrace_def resolveHumanWithGroup_def applyDMApplicabilityDeny_def Let_def)
qed

lemma delegated_state:
  "fst (explain_delegated s b kind roomID g perm ps) = DecisionAllow \<longleftrightarrow>
     (\<exists>p\<in>set ps. botDelegatedExactDecision s b kind roomID g p = DecisionAllow)"
  if "\<forall>p\<in>set (butlast ps). p \<noteq> perm"
  using that
proof (induction ps)
  case Nil
  then show ?case by simp
next
  case (Cons p ps)
  show ?case
  proof (cases "ps = []")
    case True
    then show ?thesis
      by (auto simp: botDelegatedExactDecision_def split: option.split)
  next
    case False
    with Cons show ?thesis
      by (auto simp: botDelegatedExactDecision_def split: option.split)
  qed
qed

lemma bot_delegated_state:
  "fst (botDelegatedExplanation s b kind roomID g perm) = DecisionAllow \<longleftrightarrow>
     botDelegatedDecision s b kind roomID g perm = DecisionAllow"
proof -
  have "\<forall>p\<in>set (butlast (includingPermissions perm @ [perm])). p \<noteq> perm"
    using including_shape by auto
  from delegated_state [OF this] show ?thesis
    by (auto simp: botDelegatedExplanation_def botDelegatedDecision_def inclusions_allow)
qed

lemma effectiveGroup_twice:
  "effectiveGroup s kind roomID (effectiveGroup s kind roomID [] perm) perm = effectiveGroup s kind roomID [] perm"
  by (simp add: effectiveGroup_def)

lemma human_explicit_group:
  "resolveHumanWithGroup s u kind roomID (effectiveGroup s kind roomID [] perm) perm b
     = resolveHumanWithGroup s u kind roomID [] perm b"
  unfolding resolveHumanWithGroup_def effectiveGroup_twice ..

lemma bot_state:
  assumes "\<not> Deactivated (sv_users s) ow"
  shows "ex_state (collectBotFullTrace s b ow kind roomID perm (new_explanation perm))
      = resolveBotWithGroup s b ow kind roomID [] perm"
proof -
  let ?g = "effectiveGroup s kind roomID [] perm"
  obtain d q e where x: "botDelegatedExplanation s b kind roomID ?g perm = (d, q, e)"
    by (metis prod_cases3)
  have d: "d = DecisionAllow \<longleftrightarrow> botDelegatedDecision s b kind roomID ?g perm = DecisionAllow"
    using bot_delegated_state [of s b kind roomID ?g perm] x by simp
  show ?thesis
    using human_state [OF assms, of kind roomID perm True]
    by (auto simp: collectBotFullTrace_def resolveBotWithGroup_def applyBotPolicyDeny_def applyDMApplicabilityDeny_def
        Let_def x d human_explicit_group split: option.split)
qed

text \<open>The inspector tells the truth about active accounts: for a permission
  of the catalog, unless the human (or the bot's owner) is deactivated, the state it
  explains is the decision the resolver enforces for the same request, at server, room and
  direct-message scope, with and without privileged mode.\<close>

theorem explainer_agrees:
  assumes "GetPermissionMetadata perm \<noteq> None"
    and "case IsBotAndOwner (sv_users s) u of
           Some (True, ow) \<Rightarrow> \<not> Deactivated (sv_users s) ow
         | _ \<Rightarrow> \<not> Deactivated (sv_users s) u"
  shows "ex_state (collectFullTrace s rq u kind roomID perm (new_explanation perm)) = Resolve s rq u kind roomID perm"
proof (cases "is_human s u")
  case True
  with assms(2) have "\<not> Deactivated (sv_users s) u"
    by (auto simp: is_human_def split: option.splits prod.splits bool.splits)
  from human_state [OF this] True assms(1) show ?thesis
    by (auto simp: collectFullTrace_def Resolve_def resolve_human Let_def is_human_def
        split: option.split prod.split bool.split)
next
  case False
  then obtain ow where bot: "IsBotAndOwner (sv_users s) u = Some (True, ow)" by (auto simp: is_human_def)
  with assms(2) have "\<not> Deactivated (sv_users s) ow" by simp
  from bot_state [OF this] bot assms(1) show ?thesis
    by (auto simp: collectFullTrace_def Resolve_def resolve_bot [OF bot])
qed

lemma explainer_agrees_witness:
  "ex_state (collectFullTrace sample_server (sample_request ''Umod'') ''Umod'' KindChannel [] PermMessageManage
      (new_explanation PermMessageManage))
     = Resolve sample_server (sample_request ''Umod'') ''Umod'' KindChannel [] PermMessageManage"
proof -
  have "GetPermissionMetadata PermMessageManage \<noteq> None" by code_simp
  moreover have "map_option fst (IsBotAndOwner (sv_users sample_server) ''Umod'') = Some False" by code_simp
  moreover have "\<not> Deactivated (sv_users sample_server) ''Umod''" by code_simp
  ultimately show ?thesis
    using explainer_agrees [of PermMessageManage sample_server "''Umod''"]
    by (auto split: option.splits prod.splits)
qed

text \<open>
  For a deactivated account the two differ: the inspector never looks at the
  flag, so it explains an allow that the resolver denies.
\<close>

lemma explainer_ignores_deactivation:
  "ex_state (collectFullTrace sample_server (sample_request ''Uoff'') ''Uoff'' KindChannel [] PermMessagePost
      (new_explanation PermMessagePost)) = DecisionAllow
   \<and> Resolve sample_server (sample_request ''Uoff'') ''Uoff'' KindChannel [] PermMessagePost = DecisionDeny"
  by code_simp

end
