(* ===== verification/Authorization.thy ===== *)
theory Authorization
  imports Permission_Resolver_Properties Room_Directory_Properties RBAC_Properties
begin

text \<open>
  The authorization model: the named permission checks (\<open>can.go\<close>,
  \<open>rbac_policy.go\<close>), effective room membership (\<open>authorization_model.go\<close>) and the
  limits on assigning roles (\<open>role_assignment_authorization.go\<close>). The checks on
  one thread need the thread projection and are not part of this theory.
\<close>

section \<open>Policy building blocks\<close>

datatype auth_error = ErrNotFound | ErrPermissionDenied | ErrNotAuthenticated | CheckFailed scope_error

text \<open>The error of a scope check, as the caller returns it.\<close>

definition lift_check :: "scope_error + bool \<Rightarrow> auth_error + bool" where
  "lift_check r = (case r of Inl e \<Rightarrow> Inl (CheckFailed e) | Inr b \<Rightarrow> Inr b)"

definition isServerOwner :: "server_state \<Rightarrow> string \<Rightarrow> bool" where
  "isServerOwner s userID \<longleftrightarrow> HasRole (sv_rbac s) userID RoleOwner"

definition IsServerAdmin :: "server_state \<Rightarrow> string \<Rightarrow> bool" where
  "IsServerAdmin s userID \<longleftrightarrow> HasRole (sv_rbac s) userID RoleAdmin"

definition hasServerPermission :: "server_state \<Rightarrow> request \<Rightarrow> string \<Rightarrow> permission \<Rightarrow> auth_error + bool" where
  "hasServerPermission s rq userID perm = lift_check (HasSpacePermission s rq userID KindChannel perm)"

definition hasKindPermission ::
  "server_state \<Rightarrow> request \<Rightarrow> room_kind \<Rightarrow> string \<Rightarrow> permission \<Rightarrow> auth_error + bool" where
  "hasKindPermission s rq kind userID perm = lift_check (HasSpacePermission s rq userID kind perm)"

definition hasRoomPermission ::
  "server_state \<Rightarrow> request \<Rightarrow> room_kind \<Rightarrow> string \<Rightarrow> string \<Rightarrow> permission \<Rightarrow> auth_error + bool" where
  "hasRoomPermission s rq kind roomID userID perm = lift_check (HasRoomPermission s rq userID kind roomID perm)"

definition hasGroupPermission ::
  "server_state \<Rightarrow> request \<Rightarrow> room_kind \<Rightarrow> string \<Rightarrow> string \<Rightarrow> permission \<Rightarrow> auth_error + bool" where
  "hasGroupPermission s rq kind groupID userID perm =
     Inr (ResolveGroup s rq userID kind groupID perm = DecisionAllow)"

section \<open>Server-tier checks\<close>

definition server_check :: "server_state \<Rightarrow> request \<Rightarrow> string \<Rightarrow> permission \<Rightarrow> auth_error + bool" where
  "server_check s rq userID perm = lift_check (HasServerPermission s rq userID perm)"

definition CanAdminUsersView :: "server_state \<Rightarrow> request \<Rightarrow> string \<Rightarrow> auth_error + bool" where
  "CanAdminUsersView s rq userID = server_check s rq userID PermAdminUsersView"

definition CanAssignRoles :: "server_state \<Rightarrow> request \<Rightarrow> string \<Rightarrow> auth_error + bool" where
  "CanAssignRoles s rq userID = server_check s rq userID PermRoleAssign"

definition CanManageRoles :: "server_state \<Rightarrow> request \<Rightarrow> string \<Rightarrow> auth_error + bool" where
  "CanManageRoles s rq userID = server_check s rq userID PermRoleManage"

definition CanAdminSystemView :: "server_state \<Rightarrow> request \<Rightarrow> string \<Rightarrow> bool" where
  "CanAdminSystemView s rq userID \<longleftrightarrow> isServerOwner s userID \<and> privilegedModeAllows rq userID"

definition CanAdminAuditView :: "server_state \<Rightarrow> request \<Rightarrow> string \<Rightarrow> auth_error + bool" where
  "CanAdminAuditView s rq userID = server_check s rq userID PermAdminAuditView"

definition CanManageUserPermissions :: "server_state \<Rightarrow> request \<Rightarrow> string \<Rightarrow> auth_error + bool" where
  "CanManageUserPermissions s rq userID = server_check s rq userID PermUserManagePermissions"

definition CanManageUserAccounts :: "server_state \<Rightarrow> request \<Rightarrow> string \<Rightarrow> auth_error + bool" where
  "CanManageUserAccounts s rq userID = server_check s rq userID PermUserManageAccounts"

definition CanCreateBots :: "server_state \<Rightarrow> request \<Rightarrow> string \<Rightarrow> auth_error + bool" where
  "CanCreateBots s rq userID = server_check s rq userID PermBotCreate"

definition CanManageBots :: "server_state \<Rightarrow> request \<Rightarrow> string \<Rightarrow> auth_error + bool" where
  "CanManageBots s rq userID = server_check s rq userID PermBotManage"

definition canStartDM :: "server_state \<Rightarrow> request \<Rightarrow> string \<Rightarrow> auth_error + bool" where
  "canStartDM s rq userID =
     (if IsBotAndOwner (sv_users s) userID = None then Inl ErrNotFound
      else Inr (resolveWithGroup s rq userID KindDM [] [] PermMessagePost = DecisionAllow))"

definition CanDeleteUser :: "server_state \<Rightarrow> request \<Rightarrow> string \<Rightarrow> string \<Rightarrow> auth_error + bool" where
  "CanDeleteUser s rq actorID targetUserID =
     (if actorID = targetUserID then server_check s rq actorID PermUserDeleteSelf
      else server_check s rq actorID PermUserDeleteAny)"

definition adminPermissions :: "permission list" where
  "adminPermissions =
     [PermServerManage, PermUserManageInvites, PermRoleManage, PermRoleAssign, PermRoomManage,
      PermRoomMemberRemove, PermUserDeleteAny, PermUserManageAccounts, PermUserManagePermissions,
      PermAdminUsersView, PermAdminAuditView, PermBotManage]"

definition hasAnyAdminPermission :: "server_state \<Rightarrow> string \<Rightarrow> bool" where
  "hasAnyAdminPermission s userID \<longleftrightarrow>
     list_ex (\<lambda>perm. resolveEntitlementWithGroup s userID KindChannel [] [] perm = DecisionAllow) adminPermissions"

definition HasAnyPrivilegedModeEntitlement :: "server_state \<Rightarrow> string \<Rightarrow> bool" where
  "HasAnyPrivilegedModeEntitlement s userID \<longleftrightarrow>
     list_ex (\<lambda>md. pm_requires_privileged md \<and> ScopeServer \<in> set (pm_scopes md)
        \<and> resolveEntitlementWithGroup s userID KindChannel [] [] (pm_permission md) = DecisionAllow)
       allPermissions
     \<or> HasAnyPrivilegedModeAllow (sv_rbac s) userID"

definition CanManageServer :: "server_state \<Rightarrow> request \<Rightarrow> string \<Rightarrow> auth_error + bool" where
  "CanManageServer s rq userID = hasServerPermission s rq userID PermServerManage"

definition CanManageAnyRoom :: "server_state \<Rightarrow> request \<Rightarrow> string \<Rightarrow> auth_error + bool" where
  "CanManageAnyRoom s rq userID = hasServerPermission s rq userID PermRoomManage"

definition CanManageRoomGroup :: "server_state \<Rightarrow> request \<Rightarrow> string \<Rightarrow> string \<Rightarrow> auth_error + bool" where
  "CanManageRoomGroup s rq userID groupID = hasGroupPermission s rq KindChannel groupID userID PermRoomManage"

section \<open>Rooms\<close>

definition canJoinRoomAt :: "server_state \<Rightarrow> request \<Rightarrow> string \<Rightarrow> room_kind \<Rightarrow> string \<Rightarrow> bool" where
  "canJoinRoomAt s rq userID kind roomID \<longleftrightarrow>
     \<not> (kind = KindChannel \<and> Bans_IsActive (Bans (sv_rooms s)) roomID userID (rq_now rq))
     \<and> resolveWithGroup s rq userID kind roomID [] PermRoomJoin = DecisionAllow"

definition hasExplicitRoomMembership :: "server_state \<Rightarrow> string \<Rightarrow> string \<Rightarrow> bool" where
  "hasExplicitRoomMembership s roomID userID \<longleftrightarrow> IsMember (Membership (sv_rooms s)) roomID userID"

definition canSeeRoom :: "server_state \<Rightarrow> request \<Rightarrow> string \<Rightarrow> room_kind \<Rightarrow> string \<Rightarrow> auth_error + bool" where
  "canSeeRoom s rq userID kind roomID =
     (if kind = KindDM then Inr False
      else if hasExplicitRoomMembership s roomID userID then Inr True
      else case GetRoom s kind roomID of
        None \<Rightarrow> Inl ErrNotFound
      | Some r \<Rightarrow>
          if rm_universal r \<and> canJoinRoomAt s rq userID kind roomID then Inr True
          else Inr (resolveWithGroup s rq userID kind roomID [] PermRoomList = DecisionAllow))"

definition CanCreateRoom :: "server_state \<Rightarrow> request \<Rightarrow> string \<Rightarrow> room_kind \<Rightarrow> string \<Rightarrow> auth_error + bool" where
  "CanCreateRoom s rq userID kind groupID =
     (if kind = KindChannel \<and> groupID \<noteq> []
      then hasGroupPermission s rq kind groupID userID PermRoomCreate
      else hasKindPermission s rq kind userID PermRoomCreate)"

definition CanJoinRoom :: "server_state \<Rightarrow> request \<Rightarrow> string \<Rightarrow> room_kind \<Rightarrow> bool" where
  "CanJoinRoom s rq userID kind \<longleftrightarrow>
     kind = KindDM \<or> Resolve s rq userID kind [] PermRoomJoin \<noteq> DecisionDeny"

definition canReadMessages :: "server_state \<Rightarrow> request \<Rightarrow> string \<Rightarrow> room_kind \<Rightarrow> string \<Rightarrow> auth_error + bool" where
  "canReadMessages s rq userID kind roomID =
     (if roomID \<noteq> [] \<and> (case FindRoomByID s roomID of None \<Rightarrow> False | Some r \<Rightarrow> KindOfRoom r \<noteq> kind)
      then Inl ErrNotFound
      else Inr (resolveWithGroup s rq userID kind roomID [] PermMessageRead = DecisionAllow))"

definition canReadMessageInteractions :: "server_state \<Rightarrow> request \<Rightarrow> string \<Rightarrow> room_kind \<Rightarrow> string \<Rightarrow> bool" where
  "canReadMessageInteractions s rq userID kind roomID \<longleftrightarrow>
     resolveWithGroup s rq userID kind roomID [] PermMessageReadInteractions = DecisionAllow"

definition canAccessRoomMessages :: "server_state \<Rightarrow> request \<Rightarrow> string \<Rightarrow> room_kind \<Rightarrow> string \<Rightarrow> auth_error + bool" where
  "canAccessRoomMessages s rq userID kind roomID =
     (case canReadMessages s rq userID kind roomID of
        Inl e \<Rightarrow> Inl e
      | Inr True \<Rightarrow> Inr True
      | Inr False \<Rightarrow> Inr (canReadMessageInteractions s rq userID kind roomID))"

definition roomMembershipExists :: "server_state \<Rightarrow> request \<Rightarrow> room_kind \<Rightarrow> string \<Rightarrow> string \<Rightarrow> auth_error + bool" where
  "roomMembershipExists s rq kind userID roomID =
     (if hasExplicitRoomMembership s roomID userID then Inr True
      else if kind \<noteq> KindChannel then Inr False
      else case GetRoom s kind roomID of
        None \<Rightarrow> Inl ErrNotFound
      | Some r \<Rightarrow> if \<not> rm_universal r then Inr False else Inr (canJoinRoomAt s rq userID kind roomID))"

definition CanPostMessage :: "server_state \<Rightarrow> request \<Rightarrow> string \<Rightarrow> room_kind \<Rightarrow> string \<Rightarrow> auth_error + bool" where
  "CanPostMessage s rq userID kind roomID = hasRoomPermission s rq kind roomID userID PermMessagePost"

definition CanPostInThread :: "server_state \<Rightarrow> request \<Rightarrow> string \<Rightarrow> room_kind \<Rightarrow> string \<Rightarrow> auth_error + bool" where
  "CanPostInThread s rq userID kind roomID = hasRoomPermission s rq kind roomID userID PermMessagePostInThread"

definition CanAttachFiles :: "server_state \<Rightarrow> request \<Rightarrow> string \<Rightarrow> room_kind \<Rightarrow> string \<Rightarrow> auth_error + bool" where
  "CanAttachFiles s rq userID kind roomID = hasRoomPermission s rq kind roomID userID PermMessageAttach"

definition CanReactToMessage :: "server_state \<Rightarrow> request \<Rightarrow> string \<Rightarrow> room_kind \<Rightarrow> string \<Rightarrow> auth_error + bool" where
  "CanReactToMessage s rq userID kind roomID = hasRoomPermission s rq kind roomID userID PermMessageReact"

definition CanEchoMessage :: "server_state \<Rightarrow> request \<Rightarrow> string \<Rightarrow> room_kind \<Rightarrow> string \<Rightarrow> auth_error + bool" where
  "CanEchoMessage s rq userID kind roomID = hasRoomPermission s rq kind roomID userID PermMessageEcho"

definition CanManageOthersMessage :: "server_state \<Rightarrow> request \<Rightarrow> string \<Rightarrow> room_kind \<Rightarrow> string \<Rightarrow> auth_error + bool" where
  "CanManageOthersMessage s rq userID kind roomID = hasRoomPermission s rq kind roomID userID PermMessageManage"

section \<open>Assigning roles\<close>

abbreviation SystemActorID :: string where "SystemActorID \<equiv> ''system''"

definition actorHasScopedPermission ::
  "server_state \<Rightarrow> request \<Rightarrow> string \<Rightarrow> scoped_role_decision \<Rightarrow> auth_error + bool" where
  "actorHasScopedPermission s rq actorID d =
     (case srd_scope d of
        ScopeServer \<Rightarrow> server_check s rq actorID (srd_permission d)
      | ScopeDM \<Rightarrow> hasRoomPermission s rq KindDM [] actorID (srd_permission d)
      | ScopeGroup \<Rightarrow> hasGroupPermission s rq KindChannel (srd_scope_id d) actorID (srd_permission d)
      | ScopeRoom \<Rightarrow> hasRoomPermission s rq KindChannel (srd_scope_id d) actorID (srd_permission d))"

text \<open>One round of the loop over the role's decisions.\<close>

definition check_role_decision ::
  "server_state \<Rightarrow> request \<Rightarrow> string \<Rightarrow> bool \<Rightarrow> scoped_role_decision \<Rightarrow> unit \<Rightarrow> auth_error + unit" where
  "check_role_decision s rq actorID includeDenials d _ =
     (if srd_decision d \<noteq> DecisionAllow \<and> (\<not> includeDenials \<or> srd_decision d \<noteq> DecisionDeny) then Inr ()
      else case actorHasScopedPermission s rq actorID d of
             Inl e \<Rightarrow> Inl e
           | Inr True \<Rightarrow> Inr ()
           | Inr False \<Rightarrow> Inl ErrPermissionDenied)"

definition requireRoleAssignmentWithinAuthority ::
  "server_state \<Rightarrow> request \<Rightarrow> string \<Rightarrow> string \<Rightarrow> bool \<Rightarrow> auth_error + unit" where
  "requireRoleAssignmentWithinAuthority s rq actorID roleName includeDenials =
     (if actorID = SystemActorID then Inr ()
      else if actorID = [] then Inl ErrNotAuthenticated
      else case CanAssignRoles s rq actorID of
        Inl e \<Rightarrow> Inl e
      | Inr False \<Rightarrow> Inl ErrPermissionDenied
      | Inr True \<Rightarrow>
          if isServerOwner s actorID then Inr ()
          else if roleName = RoleOwner then Inl ErrPermissionDenied
          else fold_res (check_role_decision s rq actorID includeDenials)
                 (RolePermissionDecisions (sv_rbac s) roleName) ())"

definition deny_is_false :: "auth_error + unit \<Rightarrow> auth_error + bool" where
  "deny_is_false r =
     (case r of
        Inr _ \<Rightarrow> Inr True
      | Inl ErrPermissionDenied \<Rightarrow> Inr False
      | Inl e \<Rightarrow> Inl e)"

definition CanAssignRole :: "server_state \<Rightarrow> request \<Rightarrow> string \<Rightarrow> string \<Rightarrow> auth_error + bool" where
  "CanAssignRole s rq actorID roleName =
     (if roleName = RoleEveryone then Inr False
      else deny_is_false (requireRoleAssignmentWithinAuthority s rq actorID roleName False))"

definition CanRevokeRole :: "server_state \<Rightarrow> request \<Rightarrow> string \<Rightarrow> string \<Rightarrow> auth_error + bool" where
  "CanRevokeRole s rq actorID roleName =
     (if roleName = RoleEveryone then Inr False
      else deny_is_false (requireRoleAssignmentWithinAuthority s rq actorID roleName True))"

definition isProtectedSelfRoleRevocation :: "string \<Rightarrow> string \<Rightarrow> string \<Rightarrow> bool" where
  "isProtectedSelfRoleRevocation actorID targetUserID roleName \<longleftrightarrow>
     actorID = targetUserID \<and> (roleName = RoleOwner \<or> roleName = RoleAdmin)"

text \<open>
  \<open>configured\<close> is the answer of the owner configuration (\<open>isConfiguredOwner\<close>): a
  verified address of the target is listed in \<open>owners.emails\<close>.
\<close>

definition CanRevokeRoleFromUser ::
  "(string \<Rightarrow> auth_error + bool) \<Rightarrow> server_state \<Rightarrow> request \<Rightarrow> string \<Rightarrow> string \<Rightarrow> string \<Rightarrow> auth_error + bool" where
  "CanRevokeRoleFromUser configured s rq actorID targetUserID roleName =
     (if isProtectedSelfRoleRevocation actorID targetUserID roleName then Inr False
      else if roleName = RoleOwner then
        (case configured targetUserID of
           Inl e \<Rightarrow> Inl e
         | Inr True \<Rightarrow> Inr False
         | Inr False \<Rightarrow> CanRevokeRole s rq actorID roleName)
      else CanRevokeRole s rq actorID roleName)"

end
