(* ===== verification/Authorization_Properties.thy ===== *)
theory Authorization_Properties
  imports Authorization
begin

text \<open>
  What the authorization model promises across components: a ban keeps its target
  out of the room, the discovery of privileged mode misses no entitlement, and no
  one assigns authority beyond their own.
\<close>

section \<open>Bans\<close>



section \<open>Discovering privileged mode\<close>

lemma exact_allow_decision:
  assumes "exactDecision s u kind roomID g p = DecisionAllow"
  shows "\<exists>subject scope sid. (subject = u \<or> HasRole (sv_rbac s) u subject \<or> subject = RoleEveryone)
     \<and> GetDecision (sv_rbac s) scope sid subject p = DecisionAllow"
proof -
  have entry: "\<exists>scope sid. GetDecision (sv_rbac s) scope sid subject p = DecisionAllow"
    if "nearestDecision s subject p (applicableScopeTargets kind roomID g p) = Some e"
      "te_decision e = DecisionAllow" for subject e
  proof -
    from nearestDecision_target [OF that(1)] obtain t :: scope_target where
      "te_decision e = decisionFor s (st_scope t) (st_id t) subject p" by blast
    with that(2) have "decisionFor s (st_scope t) (st_id t) subject p = DecisionAllow" by simp
    then show ?thesis by (auto simp: decisionFor_def split: if_splits)
  qed
  from assms consider e where "e \<in> named_entries s u kind roomID g p" "te_decision e = DecisionAllow"
    | b where "everyone_entry s kind roomID g p = Some b" "te_decision b = DecisionAllow"
    by (auto simp: exact_decision_cases split: if_splits option.splits)
  then show ?thesis
    by cases (auto simp: named_entries_def everyone_entry_def dest: entry)
qed

lemma decision_key_discovered:
  assumes "GetDecision (sv_rbac s) scope sid subject p = DecisionAllow" and "requiresPrivilegedMode p"
    and "subject = u \<and> IsUserSubject u \<or> HasRole (sv_rbac s) u subject \<and> \<not> IsUserSubject subject
         \<or> subject = RoleEveryone"
  shows "HasAnyPrivilegedModeAllow (sv_rbac s) u"
proof -
  let ?k = "rbacDecisionKeyFor scope sid subject p"
  have k: "fmlookup (decisions (sv_rbac s)) ?k = Some DecisionAllow"
    using assms(1) by (auto simp: GetDecision_def split: option.splits)
  have every: "\<not> IsUserSubject RoleEveryone" by (simp add: IsUserSubject_def)
  have "?k \<in> set (sortedMapKeys (decisions (sv_rbac s)))"
    using k by (simp add: fmlookup_dom_iff)
  then show ?thesis
    using k assms(2,3) every
    by (auto simp: HasAnyPrivilegedModeAllow_def list_ex_iff rbacDecisionKeyFor_def Let_def
        rbacPermissionSubjectKindForID_def requiresPrivilegedMode_def intro!: bexI [of _ ?k])
qed

text \<open>The discovery of privileged mode misses nothing. If a human account is
  entitled to any permission that requires privileged mode, anywhere on the server (any
  room kind, room or group, by ownership, a role, a direct grant, everyone, or an including
  permission), the account is told that it has something to activate. (Account identifiers
  start with U and role names do not.)\<close>

theorem privileged_discovery_complete:
  assumes "is_human s u" and "requiresPrivilegedMode perm"
    and "resolveEntitlementWithGroup s u kind roomID g perm = DecisionAllow"
    and "IsUserSubject u" and "\<And>r. HasRole (sv_rbac s) u r \<Longrightarrow> \<not> IsUserSubject r"
  shows "HasAnyPrivilegedModeEntitlement s u"
proof -
  have human: "resolveHumanWithGroup s u kind roomID g perm True = DecisionAllow"
    using assms(3) entitlement_human [OF assms(1)] by simp
  show ?thesis
  proof (cases "HasRole (sv_rbac s) u RoleOwner")
    case True
    have active: "\<not> Deactivated (sv_users s) u"
      using human by (auto simp: resolveHumanWithGroup_def)
    have md: "\<exists>md\<in>set allPermissions. pm_permission md = PermServerManage \<and> pm_requires_privileged md
        \<and> ScopeServer \<in> set (pm_scopes md)"
      by (simp add: allPermissions_def)
    then have "GetPermissionMetadata PermServerManage \<noteq> None"
      using metadata_in_catalog by fastforce
    then have "resolveEntitlementWithGroup s u KindChannel [] [] PermServerManage = DecisionAllow"
      using True active by (simp add: entitlement_human [OF assms(1)] resolveHumanWithGroup_def)
    with md show ?thesis by (auto simp: HasAnyPrivilegedModeEntitlement_def list_ex_iff)
  next
    case False
    let ?g = "effectiveGroup s kind roomID g perm"
    from human False obtain p where p: "p \<in> insert perm (set (includingPermissions perm))"
      "exactDecision s u kind roomID ?g p = DecisionAllow"
      by (auto simp: resolveHumanWithGroup_def inclusions_allow split: if_splits)
    have priv: "requiresPrivilegedMode p"
      using p(1) assms(2) including_shape by auto
    from exact_allow_decision [OF p(2)] obtain subject scope sid where
      d: "subject = u \<or> HasRole (sv_rbac s) u subject \<or> subject = RoleEveryone"
         "GetDecision (sv_rbac s) scope sid subject p = DecisionAllow"
      by blast
    have "HasAnyPrivilegedModeAllow (sv_rbac s) u"
      by (rule decision_key_discovered [OF d(2) priv]) (use d(1) assms(4,5) in blast)
    then show ?thesis by (simp add: HasAnyPrivilegedModeEntitlement_def)
  qed
qed

lemma privileged_discovery_complete_witness:
  "HasAnyPrivilegedModeEntitlement sample_server ''Umod''"
proof -
  have "map_option fst (IsBotAndOwner (sv_users sample_server) ''Umod'') = Some False" by code_simp
  then have h: "is_human sample_server ''Umod''" by (auto simp: is_human_def)
  have roles: "r = RoleModerator" if "HasRole (sv_rbac sample_server) ''Umod'' r" for r
    using that by (auto simp: HasRole_def sample_server_def user_assignments_def fmlookup_of_list split: if_splits)
  show ?thesis
  proof (rule privileged_discovery_complete [OF h])
    show "requiresPrivilegedMode PermMessageManage" by code_simp
    show "resolveEntitlementWithGroup sample_server ''Umod'' KindChannel ''R1'' [] PermMessageManage = DecisionAllow"
      by code_simp
    show "IsUserSubject ''Umod''" by code_simp
    show "\<not> IsUserSubject r" if "HasRole (sv_rbac sample_server) ''Umod'' r" for r
      using roles [OF that] by (simp add: IsUserSubject_def)
  qed
qed

section \<open>No escalation through role assignment\<close>

definition actor_allowed ::
  "server_state \<Rightarrow> request \<Rightarrow> string \<Rightarrow> permission_scope \<Rightarrow> string \<Rightarrow> permission \<Rightarrow> bool" where
  "actor_allowed s rq actor scope sid perm \<longleftrightarrow>
     (case scope of
        ScopeServer \<Rightarrow> Resolve s rq actor KindChannel [] perm
      | ScopeDM \<Rightarrow> Resolve s rq actor KindDM [] perm
      | ScopeGroup \<Rightarrow> ResolveGroup s rq actor KindChannel sid perm
      | ScopeRoom \<Rightarrow> Resolve s rq actor KindChannel sid perm) = DecisionAllow"

lemma actorHas_allowed:
  "actorHasScopedPermission s rq actor d = Inr True \<Longrightarrow>
     actor_allowed s rq actor (srd_scope d) (srd_scope_id d) (srd_permission d)"
  by (auto simp: actorHasScopedPermission_def actor_allowed_def server_check_def hasRoomPermission_def
      hasGroupPermission_def lift_check_def HasServerPermission_def HasRoomPermission_def
      split: permission_scope.splits sum.splits if_splits)

lemma role_decision_listed:
  assumes "GetDecision p scope sid role perm = d" and "d \<noteq> DecisionNone" and "\<not> IsUserSubject role"
  shows "\<exists>x\<in>set (RolePermissionDecisions p role). srd_scope x = scope \<and> srd_permission x = perm
     \<and> srd_decision x = d \<and> srd_scope_id x = (if scope = ScopeServer \<or> scope = ScopeDM then [] else sid)"
proof -
  let ?k = "rbacDecisionKeyFor scope sid role perm"
  have k: "fmlookup (decisions p) ?k = Some d"
    using assms(1,2) by (auto simp: GetDecision_def split: option.splits)
  then have "?k \<in> set (sortedMapKeys (decisions p))" by (simp add: fmlookup_dom_iff)
  with k assms(3) show ?thesis
    by (auto simp: RolePermissionDecisions_def image_iff rbacDecisionKeyFor_def Let_def
        rbacPermissionSubjectKindForID_def intro!: bexI [of _ ?k])
qed

text \<open>C4 (safety). Assigning roles cannot pass on authority the actor lacks. Where the guard
  lets an actor who is neither the system nor an owner assign a role, the actor is currently
  allowed to assign roles, the role is not the owner role, and every permission the role
  allows at a server, direct-message, group or room scope is one the actor is currently
  allowed at that scope; for revoking, the same holds of what the role denies.\<close>

theorem no_escalation:
  assumes "requireRoleAssignmentWithinAuthority s rq actor role includeDenials = Inr ()"
    and "actor \<noteq> SystemActorID" and "\<not> isServerOwner s actor" and "\<not> IsUserSubject role"
  shows "role \<noteq> RoleOwner \<and> Resolve s rq actor KindChannel [] PermRoleAssign = DecisionAllow
     \<and> (\<forall>scope sid perm. GetDecision (sv_rbac s) scope sid role perm = DecisionAllow
          \<or> includeDenials \<and> GetDecision (sv_rbac s) scope sid role perm = DecisionDeny
          \<longrightarrow> actor_allowed s rq actor scope sid perm)"
proof -
  from assms(1-3) have guards: "CanAssignRoles s rq actor = Inr True" "role \<noteq> RoleOwner"
    and loop: "fold_res (check_role_decision s rq actor includeDenials)
                 (RolePermissionDecisions (sv_rbac s) role) () = Inr ()"
    by (auto simp: requireRoleAssignmentWithinAuthority_def split: if_splits sum.splits bool.splits)
  have each: "check_role_decision s rq actor includeDenials x () = Inr ()"
    if "x \<in> set (RolePermissionDecisions (sv_rbac s) role)" for x
    using loop that by (simp add: fold_check_unit)
  have "actor_allowed s rq actor scope sid perm"
    if d: "GetDecision (sv_rbac s) scope sid role perm = DecisionAllow
          \<or> includeDenials \<and> GetDecision (sv_rbac s) scope sid role perm = DecisionDeny" for scope sid perm
  proof -
    have "GetDecision (sv_rbac s) scope sid role perm \<noteq> DecisionNone" using d by auto
    from role_decision_listed [OF refl this assms(4)] obtain x where
      x: "x \<in> set (RolePermissionDecisions (sv_rbac s) role)" "srd_scope x = scope" "srd_permission x = perm"
         "srd_decision x = GetDecision (sv_rbac s) scope sid role perm"
         "srd_scope_id x = (if scope = ScopeServer \<or> scope = ScopeDM then [] else sid)"
      by blast
    from each [OF x(1)] d x(4) have "actorHasScopedPermission s rq actor x = Inr True"
      by (auto simp: check_role_decision_def split: if_splits sum.splits bool.splits)
    from actorHas_allowed [OF this] x show ?thesis
      by (cases scope) (simp_all add: actor_allowed_def)
  qed
  with guards show ?thesis
    by (auto simp: CanAssignRoles_def server_check_def lift_check_def HasServerPermission_def split: if_splits sum.splits)
qed

text \<open>A moderator who was given \<open>role.assign\<close>, with privileged mode active.\<close>

definition assigning_server :: server_state where
  "assigning_server = sample_server\<lparr>sv_rbac := (sv_rbac sample_server)\<lparr>decisions :=
     fmupd (rbacDecisionKeyFor ScopeServer [] ''Umod'' PermRoleAssign) DecisionAllow
       (decisions (sv_rbac sample_server))\<rparr>\<rparr>"

lemma no_escalation_witness:
  "actor_allowed assigning_server (sample_request ''Umod'') ''Umod'' ScopeServer [] PermMessageManage"
proof -
  have ok: "requireRoleAssignmentWithinAuthority assigning_server (sample_request ''Umod'') ''Umod'' RoleModerator False = Inr ()"
    by code_simp
  have "''Umod'' \<noteq> SystemActorID" "\<not> isServerOwner assigning_server ''Umod''" "\<not> IsUserSubject RoleModerator"
    by code_simp+
  moreover have "GetDecision (sv_rbac assigning_server) ScopeServer [] RoleModerator PermMessageManage = DecisionAllow"
    by code_simp
  ultimately show ?thesis using no_escalation [OF ok] by blast
qed

end
