(* ===== verification/Subject_Filter.thy ===== *)
theory Subject_Filter
  imports Chatto_Prelude
begin

text \<open>
  Subject filters of the event log (\<open>pkg/events/subject_filter.go\<close>): compilation of a
  dotted filter with the wildcards \<open>*\<close> and \<open>>\<close>, and the scan that matches a subject
  in place, index by index, without splitting it. The scan is proved equal to
  matching the two token lists.
\<close>

section \<open>Tokens\<close>

text \<open>\<open>strings.Cut(s, ".")\<close>.\<close>

fun cutToken :: "string \<Rightarrow> string \<times> string \<times> bool" where
  "cutToken [] = ([], [], False)"
| "cutToken (c # s) =
     (if c = CHR ''.'' then ([], s, True)
      else case cutToken s of (token, rest, found) \<Rightarrow> (c # token, rest, found))"

lemma cutToken_length: "cutToken s = (token, rest, True) \<Longrightarrow> length rest < length s"
  by (induction s arbitrary: token rest) (auto split: if_splits prod.splits simp: less_Suc_eq)

function splitLoop :: "string \<Rightarrow> string list" where
  "splitLoop s =
     (case cutToken s of (token, rest, found) \<Rightarrow>
        if found then token # splitLoop rest else [token])"
  by pat_completeness auto
termination by (relation "measure length") (simp, metis cutToken_length in_measure)

declare splitLoop.simps [simp del]

definition splitSubjectTokens :: "string \<Rightarrow> string list" where
  "splitSubjectTokens subject = (if subject = [] then [] else splitLoop subject)"

section \<open>Compiled filters\<close>

record compiled_filter =
  cf_raw :: string
  cf_tokens :: "string list"

definition compileSubjectFilter :: "string \<Rightarrow> compiled_filter" where
  "compileSubjectFilter s = \<lparr>cf_raw = s, cf_tokens = splitSubjectTokens s\<rparr>"

definition compileSubjectFilters :: "string list \<Rightarrow> compiled_filter list" where
  "compileSubjectFilters filters = map compileSubjectFilter filters"

text \<open>The inner loop: the end of the token that starts at \<open>pos\<close>.\<close>

function tokenEnd :: "string \<Rightarrow> nat \<Rightarrow> nat" where
  "tokenEnd subject i =
     (if i < length subject \<and> subject ! i \<noteq> CHR ''.'' then tokenEnd subject (i + 1) else i)"
  by pat_completeness auto
termination by (relation "measure (\<lambda>(subject, i). length subject - i)") auto

declare tokenEnd.simps [simp del]

fun matchLoop :: "string list \<Rightarrow> string \<Rightarrow> nat \<Rightarrow> bool" where
  "matchLoop [] subject pos \<longleftrightarrow> pos = length subject + 1"
| "matchLoop (filterToken # tokens) subject pos \<longleftrightarrow>
     (if filterToken = ''>'' then tokens = [] \<and> pos < length subject
      else if length subject < pos then False
      else
        let subjectEnd = tokenEnd subject pos in
        if subjectEnd = pos then False
        else if filterToken \<noteq> ''*'' \<and> filterToken \<noteq> take (subjectEnd - pos) (drop pos subject)
        then False
        else matchLoop tokens subject (subjectEnd + 1))"

definition filter_matches :: "compiled_filter \<Rightarrow> string \<Rightarrow> bool" where
  "filter_matches f subject \<longleftrightarrow>
     cf_raw f \<noteq> [] \<and> subject \<noteq> [] \<and> matchLoop (cf_tokens f) subject 0"

definition matchesAnySubject :: "compiled_filter list \<Rightarrow> string \<Rightarrow> bool" where
  "matchesAnySubject filters subject \<longleftrightarrow> (\<exists>f \<in> set filters. filter_matches f subject)"

definition subjectMatchesFilter :: "string \<Rightarrow> string \<Rightarrow> bool" where
  "subjectMatchesFilter f subject \<longleftrightarrow> filter_matches (compileSubjectFilter f) subject"

section \<open>Matching token lists\<close>

text \<open>
  The reference: a \<open>*\<close> stands for one nonempty token, a final \<open>>\<close> for a nonempty rest
  of the subject, any other token for itself.
\<close>

fun tokens_match :: "string list \<Rightarrow> string list \<Rightarrow> bool" where
  "tokens_match [] ts \<longleftrightarrow> ts = []"
| "tokens_match (f # fs) ts \<longleftrightarrow>
     (if f = ''>'' then fs = [] \<and> ts \<noteq> [] \<and> ts \<noteq> [[]]
      else (case ts of [] \<Rightarrow> False
            | t # rest \<Rightarrow> t \<noteq> [] \<and> (f = ''*'' \<or> f = t) \<and> tokens_match fs rest))"

text \<open>The tokens of what follows position \<open>i\<close>; past the end there are none.\<close>

definition tokens_from :: "string \<Rightarrow> nat \<Rightarrow> string list" where
  "tokens_from s i = (if i \<le> length s then splitLoop (drop i s) else [])"

lemma tokenEnd_cut:
  assumes "i \<le> length s" and "cutToken (drop i s) = (token, rest, found)"
  shows "tokenEnd s i = i + length token \<and> token = take (length token) (drop i s)
    \<and> i + length token \<le> length s
    \<and> (if found then i + length token < length s \<and> rest = drop (i + length token + 1) s
       else i + length token = length s)"
  using assms
proof (induction "length s - i" arbitrary: i token)
  case 0
  then show ?case by (simp add: tokenEnd.simps)
next
  case (Suc n)
  then have i: "i < length s" by simp
  then have d: "drop i s = s ! i # drop (Suc i) s" by (simp add: Cons_nth_drop_Suc)
  show ?case
  proof (cases "s ! i = CHR ''.''")
    case True
    with Suc.prems d i show ?thesis by (auto simp: tokenEnd.simps [of s i])
  next
    case False
    with Suc.prems(2) d obtain t where t: "token = s ! i # t" "cutToken (drop (Suc i) s) = (t, rest, found)"
      by (auto split: prod.splits)
    have "tokenEnd s (Suc i) = Suc i + length t \<and> t = take (length t) (drop (Suc i) s)
        \<and> Suc i + length t \<le> length s
        \<and> (if found then Suc i + length t < length s \<and> rest = drop (Suc i + length t + 1) s
           else Suc i + length t = length s)"
      using Suc.hyps(2) i t(2) by (intro Suc.hyps(1)) auto
    with False i d t(1) show ?thesis by (auto simp: tokenEnd.simps [of s i])
  qed
qed

lemma tokens_from_step:
  assumes "i \<le> length s"
  shows "tokens_from s i = take (tokenEnd s i - i) (drop i s) # tokens_from s (tokenEnd s i + 1)"
proof -
  obtain token rest found where c: "cutToken (drop i s) = (token, rest, found)" by (metis prod_cases3)
  show ?thesis
    using tokenEnd_cut [OF assms c] assms
    by (auto simp: tokens_from_def splitLoop.simps [of "drop i s"] c)
qed

lemma splitLoop_nonempty: "splitLoop s \<noteq> []"
  by (subst splitLoop.simps) (auto split: prod.splits)

lemma splitLoop_eq_empty_token: "splitLoop s = [[]] \<longleftrightarrow> s = []"
proof (cases s)
  case Nil
  then show ?thesis by (simp add: splitLoop.simps)
next
  case (Cons c r)
  then show ?thesis
    by (subst splitLoop.simps) (cases "cutToken r"; auto simp: splitLoop_nonempty)
qed

lemma tokens_from_tail: "tokens_from s i \<noteq> [] \<and> tokens_from s i \<noteq> [[]] \<longleftrightarrow> i < length s"
  by (auto simp: tokens_from_def splitLoop_eq_empty_token splitLoop_nonempty)

lemma matchLoop_tokens:
  "i \<le> length s + 1 \<Longrightarrow> matchLoop fs s i \<longleftrightarrow> tokens_match fs (tokens_from s i)"
proof (induction fs arbitrary: i)
  case Nil
  then show ?case by (auto simp: tokens_from_def splitLoop_nonempty)
next
  case (Cons f fs)
  show ?case
  proof (cases "i \<le> length s")
    case True
    let ?e = "tokenEnd s i"
    obtain token rest found where c: "cutToken (drop i s) = (token, rest, found)" by (metis prod_cases3)
    have e: "?e = i + length token" "?e \<le> length s" "token = take (?e - i) (drop i s)"
      using tokenEnd_cut [OF True c] by auto
    have "matchLoop fs s (?e + 1) \<longleftrightarrow> tokens_match fs (tokens_from s (?e + 1))"
      using e by (intro Cons.IH) simp
    moreover have "take (?e - i) (drop i s) = [] \<longleftrightarrow> ?e = i"
      unfolding e(3) [symmetric] using e(1) by simp
    ultimately show ?thesis
      using True tokens_from_step [OF True] tokens_from_tail [of s i] by (simp add: Let_def)
  next
    case False
    with Cons.prems have "i = length s + 1" by simp
    then show ?thesis by (simp add: tokens_from_def)
  qed
qed

text \<open>C37 (equivalence). Routing a record by subject: the scan that runs once per delivered
  message, in place and without splitting the subject, decides exactly whether the tokens
  of the subject match the tokens of the filter, for every filter and subject, also those
  with empty tokens, a \<open>>\<close> that is not last, or more filter tokens than subject tokens.\<close>

theorem filter_scan_exact:
  "subjectMatchesFilter f subject \<longleftrightarrow>
     f \<noteq> [] \<and> subject \<noteq> [] \<and> tokens_match (splitSubjectTokens f) (splitSubjectTokens subject)"
  using matchLoop_tokens [of 0 subject "splitSubjectTokens f"]
  by (auto simp: subjectMatchesFilter_def filter_matches_def compileSubjectFilter_def
      splitSubjectTokens_def tokens_from_def)

lemma filter_examples:
  "subjectMatchesFilter ''evt.room.*.>'' ''evt.room.R1.created''"
  "\<not> subjectMatchesFilter ''evt.room.*.>'' ''evt.room.R1''"
  "\<not> subjectMatchesFilter ''evt.>.x'' ''evt.a.x''"
  "subjectMatchesFilter ''a.>'' ''a..b''" and "\<not> subjectMatchesFilter ''a.*.b'' ''a..b''"
  by code_simp+

end
