(* ===== verification/Projector.thy ===== *)
theory Projector
  imports Subject_Filter
begin

text \<open>
  The projector (\<open>pkg/events/projector.go\<close>): the loop that feeds one projection from the
  ordered consumer of the event log. It restores a snapshot or checkpoint, applies the
  retained history up to a target captured at the start, singly or in batches, completes
  startup, applies live records, singly or in batches that a timer flushes, and wakes the
  writers that wait until their own record has been applied. A failure stops it for good.

  The state is what the Go struct keeps. A channel is the identity of its waiter and the
  closed channels are a set; a goroutine that waits is the pair of the moment it registers
  (\<open>waitForSeq\<close>) and the moment its channel closes (\<open>waitResult\<close>). Each definition is
  one critical section of \<open>applyMu\<close>. The projection, the decoder, and the stream are
  parameters. Log lines, times and the diagnostic fields of the status are left out.
\<close>

section \<open>Configuration and state\<close>

datatype 'x fault = MetadataFault | DecodeFault 'x | ApplyFault 'x | RunFault 'x

text \<open>
  \<open>pc_prepare\<close> is the composition of the code's \<open>prepare\<close> and the commit of the mutation
  it returns: a projection that applies directly may have changed its state when it fails.
  \<open>pc_startup_batch\<close> and \<open>pc_live_batch\<close> are present when the projection implements the
  batch interfaces; \<open>pc_complete\<close> is its \<open>CompleteStartupReplay\<close>, the identity if none.
\<close>

record ('m, 'e, 'x) projector_config =
  pc_subjects :: "string list"
  pc_decode :: "string \<Rightarrow> 'x + 'e"
  pc_prepare :: "'e \<Rightarrow> string \<Rightarrow> seq \<Rightarrow> 'm \<Rightarrow> 'x option \<times> 'm"
  pc_startup_batch :: "(nat \<times> (('e \<times> seq) list \<Rightarrow> 'm \<Rightarrow> 'x option \<times> 'm)) option"
  pc_live_batch :: "(nat \<times> (('e \<times> seq) list \<Rightarrow> 'm \<Rightarrow> 'x option \<times> 'm)) option"
  pc_complete :: "'m \<Rightarrow> 'm"

record ('m, 'e, 'x) projector =
  pr_model :: 'm
  pr_last :: seq
  pr_waiters :: "(seq \<times> nat) list"
  pr_closed :: "nat fset"
  pr_failed :: "(seq \<times> 'x fault) option"
  pr_started :: bool
  pr_target :: seq
  pr_ended :: bool
  pr_completed :: bool
  pr_messages :: seq
  pr_startup_batch :: "('e \<times> seq) list"
  pr_live_batch :: "('e \<times> seq) list"
  pr_restored :: seq

definition newProjector :: "'m \<Rightarrow> ('m, 'e, 'x) projector" where
  "newProjector m =
     \<lparr>pr_model = m, pr_last = 0, pr_waiters = [], pr_closed = {||}, pr_failed = None,
      pr_started = False, pr_target = 0, pr_ended = False, pr_completed = False, pr_messages = 0,
      pr_startup_batch = [], pr_live_batch = [], pr_restored = 0\<rparr>"

section \<open>Progress, failure and startup\<close>

definition consumesSubject :: "('m, 'e, 'x) projector_config \<Rightarrow> string \<Rightarrow> bool" where
  "consumesSubject cfg subject =
     matchesAnySubject (compileSubjectFilters (pc_subjects cfg)) subject"

text \<open>Waiters are sorted by sequence; those met by the new \<open>lastSeq\<close> are released.\<close>

definition advance :: "seq \<Rightarrow> ('m, 'e, 'x) projector \<Rightarrow> ('m, 'e, 'x) projector" where
  "advance sq p =
     (let last = (if pr_last p < sq then sq else pr_last p)
      in p\<lparr>pr_last := last,
           pr_waiters := dropWhile (\<lambda>(s, _). s \<le> last) (pr_waiters p),
           pr_closed := pr_closed p |\<union>| fset_of_list (map snd (takeWhile (\<lambda>(s, _). s \<le> last) (pr_waiters p)))\<rparr>)"

definition fail :: "seq \<Rightarrow> 'x fault \<Rightarrow> ('m, 'e, 'x) projector \<Rightarrow> ('m, 'e, 'x) projector" where
  "fail sq err p =
     (let p1 = (if pr_failed p = None
                then p\<lparr>pr_failed := Some (sq, err), pr_ended := pr_ended p \<or> pr_started p\<rparr> else p)
      in p1\<lparr>pr_closed := pr_closed p1 |\<union>| fset_of_list (map snd (pr_waiters p1)), pr_waiters := []\<rparr>)"

definition hasFailed :: "('m, 'e, 'x) projector \<Rightarrow> bool" where
  "hasFailed p \<longleftrightarrow> pr_failed p \<noteq> None"

definition shouldSkipRestored :: "seq \<Rightarrow> ('m, 'e, 'x) projector \<Rightarrow> bool" where
  "shouldSkipRestored sq p \<longleftrightarrow> 0 < pr_restored p \<and> sq \<le> pr_restored p"

definition countStartupMessages :: "nat \<Rightarrow> ('m, 'e, 'x) projector \<Rightarrow> ('m, 'e, 'x) projector" where
  "countStartupMessages n p =
     (if pr_started p \<and> \<not> pr_ended p then p\<lparr>pr_messages := pr_messages p + of_nat n\<rparr> else p)"

text \<open>The second component tells whether startup was completed by this call.\<close>

definition completeStartupLocked ::
  "('m, 'e, 'x) projector_config \<Rightarrow> ('m, 'e, 'x) projector \<Rightarrow> ('m, 'e, 'x) projector \<times> bool" where
  "completeStartupLocked cfg p =
     (if \<not> pr_started p \<or> pr_ended p \<or> pr_last p < pr_target p then (p, False)
      else (p\<lparr>pr_ended := True, pr_model := pc_complete cfg (pr_model p), pr_completed := True\<rparr>, True))"

definition maybeCompleteStartup ::
  "('m, 'e, 'x) projector_config \<Rightarrow> ('m, 'e, 'x) projector \<Rightarrow> ('m, 'e, 'x) projector" where
  "maybeCompleteStartup cfg p = (if pr_completed p then p else fst (completeStartupLocked cfg p))"

section \<open>Batches\<close>

definition shouldBatchStartup ::
  "('m, 'e, 'x) projector_config \<Rightarrow> seq \<Rightarrow> ('m, 'e, 'x) projector \<Rightarrow> bool" where
  "shouldBatchStartup cfg sq p \<longleftrightarrow>
     (case pc_startup_batch cfg of
        None \<Rightarrow> False
      | Some (limit, _) \<Rightarrow> 1 < limit \<and> pr_started p \<and> \<not> pr_ended p \<and> sq \<le> pr_target p)"

text \<open>A flush returns the sequence and the error to fail with, if any.\<close>

definition flushStartupBatch ::
  "('m, 'e, 'x) projector_config \<Rightarrow> ('m, 'e, 'x) projector \<Rightarrow> (seq \<times> 'x fault) option \<times> ('m, 'e, 'x) projector" where
  "flushStartupBatch cfg p =
     (case (pr_startup_batch p, pc_startup_batch cfg) of
        ([], _) \<Rightarrow> (None, p)
      | (_, None) \<Rightarrow> (None, p)
      | (first # rest, Some (_, apply)) \<Rightarrow>
          (case apply (pr_startup_batch p) (pr_model p) of
             (Some x, m) \<Rightarrow> (Some (snd first, ApplyFault x), p\<lparr>pr_model := m\<rparr>)
           | (None, m) \<Rightarrow>
               (None, advance (snd (last (first # rest)))
                  (countStartupMessages (length (first # rest)) (p\<lparr>pr_model := m, pr_startup_batch := []\<rparr>)))))"

definition flushLiveBatch ::
  "('m, 'e, 'x) projector_config \<Rightarrow> ('m, 'e, 'x) projector \<Rightarrow> (seq \<times> 'x fault) option \<times> ('m, 'e, 'x) projector" where
  "flushLiveBatch cfg p =
     (if hasFailed p then (None, p)
      else case (pr_live_batch p, pc_live_batch cfg) of
        ([], _) \<Rightarrow> (None, p)
      | (_, None) \<Rightarrow> (None, p)
      | (first # rest, Some (_, apply)) \<Rightarrow>
          (case apply (pr_live_batch p) (pr_model p) of
             (Some x, m) \<Rightarrow>
               (Some (snd first, ApplyFault x), fail (snd first) (ApplyFault x) (p\<lparr>pr_model := m\<rparr>))
           | (None, m) \<Rightarrow>
               (None, advance (snd (last (first # rest)))
                  (countStartupMessages (length (first # rest)) (p\<lparr>pr_model := m, pr_live_batch := []\<rparr>)))))"

definition failPendingBatch :: "seq \<Rightarrow> 'x fault \<Rightarrow> ('m, 'e, 'x) projector \<Rightarrow> ('m, 'e, 'x) projector" where
  "failPendingBatch fallback err p =
     fail (case (pr_startup_batch p, pr_live_batch p) of
             (first # _, _) \<Rightarrow> snd first
           | ([], first # _) \<Rightarrow> snd first
           | ([], []) \<Rightarrow> fallback) err p"

section \<open>Messages\<close>

text \<open>The three ways an event is applied once the startup batch is out of the way.\<close>

definition applySingle ::
  "('m, 'e, 'x) projector_config \<Rightarrow> 'e \<Rightarrow> string \<Rightarrow> seq \<Rightarrow> ('m, 'e, 'x) projector
     \<Rightarrow> (seq \<times> 'x fault) option \<times> ('m, 'e, 'x) projector" where
  "applySingle cfg ev subject sq p =
     (case pc_prepare cfg ev subject sq (pr_model p) of
        (Some x, m) \<Rightarrow> (Some (sq, ApplyFault x), p\<lparr>pr_model := m\<rparr>)
      | (None, m) \<Rightarrow> (None, advance sq (countStartupMessages 1 (p\<lparr>pr_model := m\<rparr>))))"

text \<open>
  Ordered delivery past the target proves that the retained startup records have been
  handled, so startup ends at the committed sequence before live records are buffered.
\<close>

definition endStartupForLive ::
  "('m, 'e, 'x) projector_config \<Rightarrow> ('m, 'e, 'x) projector \<Rightarrow> ('m, 'e, 'x) projector" where
  "endStartupForLive cfg p =
     fst (completeStartupLocked cfg
       (if \<not> pr_ended p \<and> pr_last p < pr_target p then p\<lparr>pr_target := pr_last p\<rparr> else p))"

definition bufferLive ::
  "('m, 'e, 'x) projector_config \<Rightarrow> 'e \<Rightarrow> seq \<Rightarrow> nat \<Rightarrow> ('m, 'e, 'x) projector
     \<Rightarrow> (seq \<times> 'x fault) option \<times> ('m, 'e, 'x) projector" where
  "bufferLive cfg ev sq limit p =
     (let p1 = endStartupForLive cfg p;
          p2 = p1\<lparr>pr_live_batch := pr_live_batch p1 @ [(ev, sq)]\<rparr>
      in if limit \<le> length (pr_live_batch p2) then flushLiveBatch cfg p2 else (None, p2))"

definition applyPastStartup ::
  "('m, 'e, 'x) projector_config \<Rightarrow> 'e \<Rightarrow> string \<Rightarrow> seq \<Rightarrow> ('m, 'e, 'x) projector
     \<Rightarrow> (seq \<times> 'x fault) option \<times> ('m, 'e, 'x) projector" where
  "applyPastStartup cfg ev subject sq p =
     (case pc_live_batch cfg of
        None \<Rightarrow> applySingle cfg ev subject sq p
      | Some (limit, _) \<Rightarrow>
          if pr_target p < sq then bufferLive cfg ev sq limit p else applySingle cfg ev subject sq p)"

definition applyEvent ::
  "('m, 'e, 'x) projector_config \<Rightarrow> 'e \<Rightarrow> string \<Rightarrow> seq \<Rightarrow> ('m, 'e, 'x) projector
     \<Rightarrow> (seq \<times> 'x fault) option \<times> ('m, 'e, 'x) projector" where
  "applyEvent cfg ev subject sq p =
     (if hasFailed p \<or> shouldSkipRestored sq p then (None, p)
      else case pc_startup_batch cfg of
        None \<Rightarrow> applyPastStartup cfg ev subject sq p
      | Some (limit, _) \<Rightarrow>
          if shouldBatchStartup cfg sq p then
            (let p1 = p\<lparr>pr_startup_batch := pr_startup_batch p @ [(ev, sq)]\<rparr>
             in if length (pr_startup_batch p1) < limit \<and> sq < pr_target p1 then (None, p1)
                else flushStartupBatch cfg p1)
          else
            (case flushStartupBatch cfg p of
               (Some f, p1) \<Rightarrow> (Some f, p1)
             | (None, p1) \<Rightarrow> applyPastStartup cfg ev subject sq p1))"

text \<open>One delivered message; the sequence is missing when its metadata cannot be read.\<close>

record message =
  ms_subject :: string
  ms_seq :: "seq option"
  ms_data :: string

definition handleMessage ::
  "('m, 'e, 'x) projector_config \<Rightarrow> message \<Rightarrow> ('m, 'e, 'x) projector \<Rightarrow> ('m, 'e, 'x) projector" where
  "handleMessage cfg msg p =
     (if hasFailed p then p
      else case ms_seq msg of
        None \<Rightarrow> fail 0 MetadataFault p
      | Some sq \<Rightarrow>
          if \<not> consumesSubject cfg (ms_subject msg) then p
          else if shouldSkipRestored sq p then p
          else case pc_decode cfg (ms_data msg) of
            Inl x \<Rightarrow> failPendingBatch sq (DecodeFault x) p
          | Inr ev \<Rightarrow>
              (case applyEvent cfg ev (ms_subject msg) sq p of
                 (Some (failureSeq, err), p1) \<Rightarrow> fail failureSeq err p1
               | (None, p1) \<Rightarrow> maybeCompleteStartup cfg p1))"

text \<open>The live timer.\<close>

definition liveTick :: "('m, 'e, 'x) projector_config \<Rightarrow> ('m, 'e, 'x) projector \<Rightarrow> ('m, 'e, 'x) projector" where
  "liveTick cfg p = maybeCompleteStartup cfg (snd (flushLiveBatch cfg p))"

section \<open>Startup without its target\<close>

definition startupProgress :: "('m, 'e, 'x) projector \<Rightarrow> seq \<times> bool" where
  "startupProgress p =
     (if pr_startup_batch p = [] then pr_last p else snd (last (pr_startup_batch p)),
      \<not> pr_ended p \<and> pr_failed p = None)"

text \<open>
  \<open>reconcileStartup\<close> from the second time it takes the barrier: \<open>current\<close> is the newest
  matching sequence the stream reported in between.
\<close>

definition reconcileStartup ::
  "('m, 'e, 'x) projector_config \<Rightarrow> seq \<Rightarrow> ('m, 'e, 'x) projector \<Rightarrow> ('m, 'e, 'x) projector" where
  "reconcileStartup cfg current p =
     (case startupProgress p of (handledSeq, pending) \<Rightarrow>
        if \<not> pending \<or> handledSeq < current then p
        else case flushStartupBatch cfg p of
          (Some (failureSeq, err), p1) \<Rightarrow> fail failureSeq err p1
        | (None, p1) \<Rightarrow>
            fst (completeStartupLocked cfg
              (if pr_last p1 < pr_target p1 then p1\<lparr>pr_target := pr_last p1\<rparr> else p1)))"

section \<open>Waiting\<close>

datatype 'x wait_error =
    WaitFailed "'x fault"
  | LoadSequence
  | SequenceSubjectMismatch string
  | SubjectNotConsumed string

text \<open>
  Registration: \<^const>\<open>Some\<close> result is the immediate return; otherwise the caller blocks
  on its channel, which stands in the sorted list of waiters.
\<close>

definition insert_waiter :: "seq \<Rightarrow> nat \<Rightarrow> (seq \<times> nat) list \<Rightarrow> (seq \<times> nat) list" where
  "insert_waiter sq ch ws =
     takeWhile (\<lambda>(s, _). s < sq) ws @ (sq, ch) # dropWhile (\<lambda>(s, _). s < sq) ws"

definition waitForSeq ::
  "nat \<Rightarrow> seq \<Rightarrow> ('m, 'e, 'x) projector \<Rightarrow> ('x wait_error + unit) option \<times> ('m, 'e, 'x) projector" where
  "waitForSeq ch sq p =
     (case pr_failed p of
        Some (failedSeq, err) \<Rightarrow>
          if failedSeq \<le> sq then (Some (Inl (WaitFailed err)), p)
          else if sq \<le> pr_last p then (Some (Inr ()), p)
          else (None, p\<lparr>pr_waiters := insert_waiter sq ch (pr_waiters p)\<rparr>)
      | None \<Rightarrow>
          if sq \<le> pr_last p then (Some (Inr ()), p)
          else (None, p\<lparr>pr_waiters := insert_waiter sq ch (pr_waiters p)\<rparr>))"

text \<open>What the caller returns once its channel is closed.\<close>

definition waitResult :: "seq \<Rightarrow> ('m, 'e, 'x) projector \<Rightarrow> 'x wait_error + unit" where
  "waitResult sq p =
     (case pr_failed p of
        Some (failedSeq, err) \<Rightarrow> if failedSeq \<le> sq then Inl (WaitFailed err) else Inr ()
      | None \<Rightarrow> Inr ())"

definition cancelWait :: "nat \<Rightarrow> ('m, 'e, 'x) projector \<Rightarrow> ('m, 'e, 'x) projector" where
  "cancelWait ch p = p\<lparr>pr_waiters := filter (\<lambda>(_, c). c \<noteq> ch) (pr_waiters p)\<rparr>"

text \<open>
  \<open>WaitFor\<close>: a position is a filter with a sequence; \<open>subject_of\<close> is the stream's lookup of
  a message by sequence.
\<close>

definition validateSeqSubject ::
  "('m, 'e, 'x) projector_config \<Rightarrow> (seq \<Rightarrow> string option) \<Rightarrow> string \<Rightarrow> seq \<Rightarrow> 'x wait_error option" where
  "validateSeqSubject cfg subject_of filterSubject sq =
     (case subject_of sq of
        None \<Rightarrow> Some LoadSequence
      | Some subject \<Rightarrow>
          if \<not> subjectMatchesFilter filterSubject subject then Some (SequenceSubjectMismatch subject)
          else if \<not> consumesSubject cfg subject then Some (SubjectNotConsumed subject)
          else None)"

definition WaitFor ::
  "('m, 'e, 'x) projector_config \<Rightarrow> (seq \<Rightarrow> string option) \<Rightarrow> nat \<Rightarrow> string \<Rightarrow> seq
     \<Rightarrow> ('m, 'e, 'x) projector \<Rightarrow> ('x wait_error + unit) option \<times> ('m, 'e, 'x) projector" where
  "WaitFor cfg subject_of ch filterSubject sq p =
     (if sq = 0 then (Some (Inr ()), p)
      else case validateSeqSubject cfg subject_of filterSubject sq of
        Some e \<Rightarrow> (Some (Inl e), p)
      | None \<Rightarrow> waitForSeq ch sq p)"

definition WithReadBarrier :: "('m, 'e, 'x) projector \<Rightarrow> 'x fault + (seq \<times> 'm)" where
  "WithReadBarrier p =
     (case pr_failed p of Some (_, err) \<Rightarrow> Inl err | None \<Rightarrow> Inr (pr_last p, pr_model p))"

section \<open>Starting a run\<close>

definition resetRestoreState :: "('m, 'e, 'x) projector \<Rightarrow> ('m, 'e, 'x) projector" where
  "resetRestoreState p = p\<lparr>pr_last := 0, pr_restored := 0\<rparr>"

text \<open>\<open>reset\<close> is present when the projection supports snapshots (\<open>ResetComponents\<close>).\<close>

definition resetForColdReplay ::
  "('m \<Rightarrow> 'x option \<times> 'm) option \<Rightarrow> ('m, 'e, 'x) projector \<Rightarrow> 'x option \<times> ('m, 'e, 'x) projector" where
  "resetForColdReplay reset p =
     (case reset of
        None \<Rightarrow> (None, resetRestoreState p)
      | Some f \<Rightarrow>
          (case f (pr_model p) of
             (Some x, m) \<Rightarrow> (Some x, p\<lparr>pr_model := m\<rparr>)
           | (None, m) \<Rightarrow> (None, resetRestoreState (p\<lparr>pr_model := m\<rparr>))))"

text \<open>
  The restore of a snapshot. \<open>sn_stream\<close> is the name and the identity of the stream, or
  the error of reading either; \<open>sn_load\<close> gets the greatest admissible cutoff, the target;
  \<open>sn_current\<close> reads the identity again after the load.
\<close>

record snapshot_component =
  sc_key :: string
  sc_contract :: string
  sc_parts :: "(string \<times> string) list"

record stored_snapshot =
  st_contract :: string
  st_stream :: string
  st_identity :: string
  st_cutoff :: seq
  st_components :: "snapshot_component list"

record ('m, 'x) snapshot_source =
  sn_contract :: string
  sn_stream :: "'x + (string \<times> string)"
  sn_load :: "seq \<Rightarrow> 'x + stored_snapshot"
  sn_current :: "'x + string"
  sn_restore :: "snapshot_component list \<Rightarrow> 'm \<Rightarrow> 'x option \<times> 'm"
  sn_reset :: "'m \<Rightarrow> 'x option \<times> 'm"

datatype 'x restore_error = RestoreEmpty 'x | RecheckIdentity 'x | IdentityChanged
  | StreamUnavailable 'x | CheckpointFailed 'x | CheckpointReset 'x

definition cold :: "'x option \<times> ('m, 'e, 'x) projector \<Rightarrow> 'x restore_error option \<times> ('m, 'e, 'x) projector" where
  "cold r = (map_option RestoreEmpty (fst r), snd r)"

definition restoreSnapshotForRun ::
  "('m, 'x) snapshot_source \<Rightarrow> seq \<Rightarrow> ('m, 'e, 'x) projector
     \<Rightarrow> 'x restore_error option \<times> ('m, 'e, 'x) projector" where
  "restoreSnapshotForRun src targetSeq p =
     (case sn_stream src of
        Inl _ \<Rightarrow> cold (resetForColdReplay (Some (sn_reset src)) p)
      | Inr (name, identity) \<Rightarrow>
          (case sn_load src targetSeq of
             Inl _ \<Rightarrow> cold (resetForColdReplay (Some (sn_reset src)) p)
           | Inr snapshot \<Rightarrow>
               if st_contract snapshot \<noteq> sn_contract src \<or> st_stream snapshot \<noteq> name
                  \<or> st_identity snapshot \<noteq> identity
               then cold (resetForColdReplay (Some (sn_reset src)) p)
               else case sn_current src of
                 Inl x \<Rightarrow> (Some (RecheckIdentity x), p)
               | Inr current \<Rightarrow>
                   if current \<noteq> identity then (Some IdentityChanged, p)
                   else if targetSeq < st_cutoff snapshot
                   then cold (resetForColdReplay (Some (sn_reset src)) p)
                   else (case sn_restore src (st_components snapshot) (pr_model p) of
                     (Some _, m) \<Rightarrow> cold (resetForColdReplay (Some (sn_reset src)) (p\<lparr>pr_model := m\<rparr>))
                   | (None, m) \<Rightarrow>
                       (None, advance (st_cutoff snapshot)
                         (p\<lparr>pr_model := m, pr_restored := st_cutoff snapshot\<rparr>)))))"

text \<open>
  The restore of a local checkpoint: \<open>ck_stream\<close> gives the first and last retained
  sequences, \<open>ck_restore\<close> the cutoff, \<open>InvalidCheckpoint\<close> or another error.
\<close>

datatype 'x checkpoint_error = InvalidCheckpoint | CheckpointError 'x

record ('m, 'x) checkpoint_store =
  ck_stream :: "'x + (seq \<times> seq)"
  ck_restore :: "seq \<Rightarrow> seq \<Rightarrow> 'm \<Rightarrow> ('x checkpoint_error + seq) \<times> 'm"
  ck_reset :: "'m \<Rightarrow> 'x option \<times> 'm"

definition checkpoint_usable :: "seq \<Rightarrow> seq \<Rightarrow> seq \<Rightarrow> bool" where
  "checkpoint_usable firstSeq lastSeq cutoff \<longleftrightarrow>
     \<not> lastSeq < cutoff \<and> \<not> (0 < cutoff \<and> cutoff + 1 < firstSeq)"

definition restoreCheckpointForRun ::
  "('m, 'x) checkpoint_store \<Rightarrow> ('m, 'e, 'x) projector
     \<Rightarrow> 'x restore_error option \<times> ('m, 'e, 'x) projector" where
  "restoreCheckpointForRun store p =
     (case ck_stream store of
        Inl x \<Rightarrow> (Some (StreamUnavailable x), p)
      | Inr (firstSeq, lastSeq) \<Rightarrow>
          (case ck_restore store firstSeq lastSeq (pr_model p) of (result, m) \<Rightarrow>
             let p1 = p\<lparr>pr_model := m\<rparr>;
                 discard = (case ck_reset store m of
                     (Some x, m') \<Rightarrow> (Some (CheckpointReset x), p\<lparr>pr_model := m'\<rparr>)
                   | (None, m') \<Rightarrow> (None, resetRestoreState (p\<lparr>pr_model := m'\<rparr>)))
             in case result of
                  Inl (CheckpointError x) \<Rightarrow> (Some (CheckpointFailed x), p1)
                | Inl InvalidCheckpoint \<Rightarrow> discard
                | Inr cutoff \<Rightarrow>
                    if \<not> checkpoint_usable firstSeq lastSeq cutoff then discard
                    else (None, (if 0 < cutoff then advance cutoff (p1\<lparr>pr_restored := cutoff\<rparr>)
                                 else p1\<lparr>pr_restored := 0\<rparr>))))"

datatype ('m, 'x) restore_mode =
    FromCheckpoint "('m, 'x) checkpoint_store"
  | FromSnapshot "('m, 'x) snapshot_source"
  | ColdReplay "('m \<Rightarrow> 'x option \<times> 'm) option"

definition restoreForRun ::
  "('m, 'x) restore_mode \<Rightarrow> seq \<Rightarrow> ('m, 'e, 'x) projector
     \<Rightarrow> 'x restore_error option \<times> ('m, 'e, 'x) projector" where
  "restoreForRun mode targetSeq p =
     (case mode of
        FromCheckpoint store \<Rightarrow> restoreCheckpointForRun store p
      | FromSnapshot src \<Rightarrow> restoreSnapshotForRun src targetSeq p
      | ColdReplay reset \<Rightarrow> cold (resetForColdReplay reset p))"

text \<open>
  \<open>Run\<close> up to the start of consumption; \<open>target\<close> is the newest matching sequence or the
  error of reading it. The consumer starts after the restored sequence. (An error because
  the process is shutting down does not mark the projector as failed; that case is left out.)
\<close>

datatype 'x run_error = ErrProjectorAlreadyStarted | RunStopped "'x restore_error option"

definition startRun ::
  "('m, 'e, 'x) projector_config \<Rightarrow> ('m, 'x) restore_mode \<Rightarrow> 'x + seq \<Rightarrow> ('x restore_error \<Rightarrow> 'x)
     \<Rightarrow> ('m, 'e, 'x) projector \<Rightarrow> 'x run_error option \<times> ('m, 'e, 'x) projector" where
  "startRun cfg mode target wrap p =
     (if pr_started p then (Some ErrProjectorAlreadyStarted, p)
      else
        let p1 = p\<lparr>pr_started := True\<rparr> in
        case target of
          Inl x \<Rightarrow> (Some (RunStopped None), fail 0 (RunFault x) p1)
        | Inr targetSeq \<Rightarrow>
            (case restoreForRun mode targetSeq p1 of
               (Some e, p2) \<Rightarrow> (Some (RunStopped (Some e)), fail 0 (RunFault (wrap e)) p2)
             | (None, p2) \<Rightarrow> (None, maybeCompleteStartup cfg (p2\<lparr>pr_target := targetSeq\<rparr>))))"

definition consumerStart :: "('m, 'e, 'x) projector \<Rightarrow> seq option" where
  "consumerStart p = (if 0 < pr_restored p then Some (pr_restored p + 1) else None)"

end
