(* ===== verification/Projector_Properties.thy ===== *)
theory Projector_Properties
  imports Projector
begin

text \<open>
  Correctness of the projector: its state is the fold of the records it has committed, a
  writer's wait that succeeds guarantees that the record is in that state, no wait on a
  record of the log hangs once the projector has failed, and startup completes.

  The steps interleave as the goroutines of the program do: deliveries of the log in
  stream order, ticks of the live timer, reconciliations of startup, registrations of
  waiters and their cancellation, in any order.
\<close>

section \<open>Records of the log\<close>

type_synonym 'e log_record = "'e \<times> string \<times> seq"

abbreviation rec_seq :: "'e log_record \<Rightarrow> seq" where "rec_seq r \<equiv> snd (snd r)"

definition strip :: "'e log_record \<Rightarrow> 'e \<times> seq" where
  "strip r = (fst r, rec_seq r)"

definition app :: "('m, 'e, 'x) projector_config \<Rightarrow> 'e log_record \<Rightarrow> 'm \<Rightarrow> 'm" where
  "app cfg r m = (case r of (ev, subject, sq) \<Rightarrow> snd (pc_prepare cfg ev subject sq m))"

text \<open>
  The contract of the batch interfaces (\<open>projection.go\<close>): a batch that succeeds has the
  effect of its events, in order. A batch that fails must leave the state unchanged, which
  nothing here relies on: a failed projector serves no more reads.
\<close>

definition batch_contract :: "('m, 'e, 'x) projector_config \<Rightarrow> bool" where
  "batch_contract cfg \<longleftrightarrow>
     (\<forall>n f. pc_startup_batch cfg = Some (n, f) \<or> pc_live_batch cfg = Some (n, f) \<longrightarrow>
        (\<forall>rs m m'. f (map strip rs) m = (None, m') \<longrightarrow> m' = fold (app cfg) rs m))"

definition record_of :: "('m, 'e, 'x) projector_config \<Rightarrow> seq \<Rightarrow> message \<Rightarrow> 'e log_record option" where
  "record_of cfg c msg =
     (case ms_seq msg of
        None \<Rightarrow> None
      | Some sq \<Rightarrow>
          if \<not> consumesSubject cfg (ms_subject msg) \<or> (0 < c \<and> sq \<le> c) then None
          else (case pc_decode cfg (ms_data msg) of
                  Inl _ \<Rightarrow> None | Inr ev \<Rightarrow> Some (ev, ms_subject msg, sq)))"

definition records :: "('m, 'e, 'x) projector_config \<Rightarrow> seq \<Rightarrow> message list \<Rightarrow> 'e log_record list" where
  "records cfg c msgs = List.map_filter (record_of cfg c) msgs"

text \<open>The sequences a writer can wait for: those of the messages the projection consumes.\<close>

definition consumed :: "('m, 'e, 'x) projector_config \<Rightarrow> message list \<Rightarrow> seq set" where
  "consumed cfg msgs = {sq. \<exists>msg \<in> set msgs. ms_seq msg = Some sq \<and> consumesSubject cfg (ms_subject msg)}"

text \<open>A log as the stream delivers it: readable metadata, sequences from 1 in strict order.\<close>

definition ordered_log :: "message list \<Rightarrow> bool" where
  "ordered_log msgs \<longleftrightarrow>
     (\<forall>msg \<in> set msgs. \<exists>sq > 0. ms_seq msg = Some sq)
     \<and> sorted_wrt (<) (map (\<lambda>msg. the (ms_seq msg)) msgs)"

section \<open>Runs\<close>

definition fresh_projector :: "'m \<Rightarrow> (seq \<times> nat) list \<Rightarrow> ('m, 'e, 'x) projector" where
  "fresh_projector m ws = (newProjector m)\<lparr>pr_waiters := ws\<rparr>"

text \<open>
  \<open>projector_run cfg m0 c log n ws p\<close>: a run that restored the state \<open>m0\<close> at cutoff \<open>c\<close>
  and has been handed the first \<open>n\<close> messages of \<open>log\<close> can be in state \<open>p\<close>; \<open>ws\<close> are all
  the waits ever registered. Callers may already wait when the run starts.
\<close>

inductive projector_run ::
  "('m, 'e, 'x) projector_config \<Rightarrow> 'm \<Rightarrow> seq \<Rightarrow> message list \<Rightarrow> nat \<Rightarrow> (seq \<times> nat) list
     \<Rightarrow> ('m, 'e, 'x) projector \<Rightarrow> bool"
  for cfg :: "('m, 'e, 'x) projector_config" and m0 :: 'm and c :: seq and log :: "message list" where
  run_start: "restoreForRun mode target ((fresh_projector m ws)\<lparr>pr_started := True\<rparr>)
       = (None, p1 :: ('m, 'e, 'x) projector)
     \<Longrightarrow> pr_model p1 = m0 \<Longrightarrow> pr_restored p1 = c
     \<Longrightarrow> startRun cfg mode (Inr target) wrap (fresh_projector m ws) = (None, p)
     \<Longrightarrow> distinct (map snd ws) \<Longrightarrow> sorted (map fst ws) \<Longrightarrow> 0 \<notin> fst ` set ws
     \<Longrightarrow> projector_run cfg m0 c log 0 ws p"
| run_deliver: "projector_run cfg m0 c log n ws p \<Longrightarrow> n < length log
     \<Longrightarrow> projector_run cfg m0 c log (Suc n) ws (handleMessage cfg (log ! n) p)"
| run_tick: "projector_run cfg m0 c log n ws p \<Longrightarrow> projector_run cfg m0 c log n ws (liveTick cfg p)"
| run_reconcile: "projector_run cfg m0 c log n ws p
     \<Longrightarrow> projector_run cfg m0 c log n ws (reconcileStartup cfg current p)"
| run_wait: "projector_run cfg m0 c log n ws p \<Longrightarrow> ch \<notin> snd ` set ws
     \<Longrightarrow> waitForSeq ch sq p = (result, p') \<Longrightarrow> 0 < sq
     \<Longrightarrow> projector_run cfg m0 c log n ((sq, ch) # ws) p'"
| run_cancel: "projector_run cfg m0 c log n ws p \<Longrightarrow> projector_run cfg m0 c log n ws (cancelWait ch p)"

section \<open>The invariant of a projector that has not failed\<close>

definition reads ::
  "('m, 'e, 'x) projector_config \<Rightarrow> 'm \<Rightarrow> 'e log_record list \<Rightarrow> bool \<Rightarrow> 'm \<Rightarrow> bool" where
  "reads cfg m0 rs completed m \<longleftrightarrow>
     (if completed
      then \<exists>k. m = fold (app cfg) (drop k rs) (pc_complete cfg (fold (app cfg) (take k rs) m0))
      else m = fold (app cfg) rs m0)"

definition frontier :: "seq \<Rightarrow> 'e log_record list \<Rightarrow> seq" where
  "frontier c rs = (if rs = [] then c else rec_seq (last rs))"

text \<open>
  \<open>C\<close> is committed, \<open>SB\<close> and \<open>LB\<close> wait in the startup and the live batch.
\<close>

definition split_ok ::
  "('m, 'e, 'x) projector_config \<Rightarrow> 'm \<Rightarrow> seq \<Rightarrow> 'e log_record list \<Rightarrow> 'e log_record list
     \<Rightarrow> 'e log_record list \<Rightarrow> ('m, 'e, 'x) projector \<Rightarrow> bool" where
  "split_ok cfg m0 c C SB LB p \<longleftrightarrow>
     pr_startup_batch p = map strip SB \<and> pr_live_batch p = map strip LB
     \<and> reads cfg m0 C (pr_completed p) (pr_model p) \<and> pr_last p = frontier c C
     \<and> (SB \<noteq> [] \<longrightarrow> \<not> pr_ended p \<and> pc_startup_batch cfg \<noteq> None \<and> LB = []
          \<and> (\<forall>r \<in> set SB. rec_seq r \<le> pr_target p))
     \<and> (LB \<noteq> [] \<longrightarrow> pr_ended p \<and> pc_live_batch cfg \<noteq> None \<and> (\<forall>r \<in> set LB. pr_target p < rec_seq r))"

definition running ::
  "('m, 'e, 'x) projector_config \<Rightarrow> 'm \<Rightarrow> seq \<Rightarrow> 'e log_record list \<Rightarrow> ('m, 'e, 'x) projector \<Rightarrow> bool" where
  "running cfg m0 c rs p \<longleftrightarrow>
     pr_failed p = None \<and> pr_started p \<and> pr_restored p = c \<and> (pr_ended p \<longleftrightarrow> pr_completed p)
     \<and> (\<exists>C SB LB. rs = C @ SB @ LB \<and> split_ok cfg m0 c C SB LB p)"

definition ordered_records :: "seq \<Rightarrow> 'e log_record list \<Rightarrow> bool" where
  "ordered_records c rs \<longleftrightarrow> sorted_wrt (<) (c # map rec_seq rs)"

text \<open>What a failure at \<open>fs\<close> leaves: everything before it is committed.\<close>

definition failure_ok :: "'e log_record list \<Rightarrow> seq \<Rightarrow> ('m, 'e, 'x) projector \<Rightarrow> bool" where
  "failure_ok rs fs p \<longleftrightarrow>
     (\<forall>r \<in> set rs. rec_seq r < fs \<longrightarrow> rec_seq r \<le> pr_last p) \<and> (\<exists>r \<in> set rs. fs \<le> rec_seq r)
     \<and> pr_restored p \<le> pr_last p"

lemma advance_simps [simp]:
  "pr_model (advance sq p) = pr_model p" "pr_last (advance sq p) = max (pr_last p) sq"
  "pr_failed (advance sq p) = pr_failed p" "pr_started (advance sq p) = pr_started p"
  "pr_target (advance sq p) = pr_target p" "pr_ended (advance sq p) = pr_ended p"
  "pr_completed (advance sq p) = pr_completed p" "pr_startup_batch (advance sq p) = pr_startup_batch p"
  "pr_live_batch (advance sq p) = pr_live_batch p" "pr_restored (advance sq p) = pr_restored p"
  by (simp_all add: advance_def Let_def max_def le_less)

lemma count_simps [simp]:
  "pr_model (countStartupMessages n p) = pr_model p" "pr_last (countStartupMessages n p) = pr_last p"
  "pr_failed (countStartupMessages n p) = pr_failed p" "pr_started (countStartupMessages n p) = pr_started p"
  "pr_target (countStartupMessages n p) = pr_target p" "pr_ended (countStartupMessages n p) = pr_ended p"
  "pr_completed (countStartupMessages n p) = pr_completed p"
  "pr_startup_batch (countStartupMessages n p) = pr_startup_batch p"
  "pr_live_batch (countStartupMessages n p) = pr_live_batch p"
  "pr_restored (countStartupMessages n p) = pr_restored p"
  "pr_waiters (countStartupMessages n p) = pr_waiters p" "pr_closed (countStartupMessages n p) = pr_closed p"
  by (simp_all add: countStartupMessages_def)

lemma fail_simps [simp]:
  "pr_last (fail sq err p) = pr_last p" "pr_started (fail sq err p) = pr_started p"
  "pr_restored (fail sq err p) = pr_restored p" "pr_waiters (fail sq err p) = []"
  "pr_failed (fail sq err p) = (if pr_failed p = None then Some (sq, err) else pr_failed p)"
  "pr_closed (fail sq err p) = pr_closed p |\<union>| fset_of_list (map snd (pr_waiters p))"
  "pr_ended (fail sq err p) \<longleftrightarrow> pr_ended p \<or> pr_failed p = None \<and> pr_started p"
  by (auto simp: fail_def Let_def)

lemma reads_app:
  assumes "reads cfg m0 rs b m"
  shows "reads cfg m0 (rs @ ss) b (fold (app cfg) ss m)"
proof (cases b)
  case True
  with assms obtain k where k: "m = fold (app cfg) (drop k rs) (pc_complete cfg (fold (app cfg) (take k rs) m0))"
    by (auto simp: reads_def)
  show ?thesis
  proof (cases "k \<le> length rs")
    case True
    then show ?thesis using k \<open>b\<close> unfolding reads_def by (auto intro!: exI [of _ k])
  next
    case False
    with k \<open>b\<close> show ?thesis unfolding reads_def by (auto intro!: exI [of _ "length rs"])
  qed
next
  case False
  with assms show ?thesis by (simp add: reads_def)
qed

lemma reads_complete:
  "reads cfg m0 rs False m \<Longrightarrow> reads cfg m0 rs True (pc_complete cfg m)"
  unfolding reads_def by (auto intro!: exI [of _ "length rs"])

lemma ordered_records_app:
  assumes "ordered_records c (rs @ ss)"
  shows "ordered_records c rs" "\<And>r. r \<in> set ss \<Longrightarrow> frontier c rs < rec_seq r"
    "\<And>r. r \<in> set rs \<Longrightarrow> rec_seq r \<le> frontier c rs"
    "ss \<noteq> [] \<Longrightarrow> frontier c (rs @ ss) = rec_seq (last ss)"
proof -
  show "ordered_records c rs" "ss \<noteq> [] \<Longrightarrow> frontier c (rs @ ss) = rec_seq (last ss)"
    using assms by (auto simp: ordered_records_def sorted_wrt_append frontier_def)
  show "frontier c rs < rec_seq r" if "r \<in> set ss" for r
    using assms that last_in_set [of rs] by (auto simp: ordered_records_def sorted_wrt_append frontier_def)
  show "rec_seq r \<le> frontier c rs" if "r \<in> set rs" for r
  proof -
    from that obtain us v where v: "rs = us @ [v]" by (metis append_butlast_last_id empty_iff empty_set)
    have "sorted_wrt (<) (map rec_seq (us @ [v]))"
      using assms v by (simp add: ordered_records_def sorted_wrt_append)
    with that v show ?thesis by (auto simp: frontier_def sorted_wrt_append less_imp_le)
  qed
qed

lemma frontier_ge: "ordered_records c rs \<Longrightarrow> c \<le> frontier c rs"
  by (cases rs rule: rev_cases) (auto simp: frontier_def ordered_records_def less_imp_le)

section \<open>Flushing and applying\<close>

lemma completeStartup_simps [simp]:
  "pr_last (fst (completeStartupLocked cfg p)) = pr_last p"
  "pr_failed (fst (completeStartupLocked cfg p)) = pr_failed p"
  "pr_started (fst (completeStartupLocked cfg p)) = pr_started p"
  "pr_target (fst (completeStartupLocked cfg p)) = pr_target p"
  "pr_startup_batch (fst (completeStartupLocked cfg p)) = pr_startup_batch p"
  "pr_live_batch (fst (completeStartupLocked cfg p)) = pr_live_batch p"
  "pr_restored (fst (completeStartupLocked cfg p)) = pr_restored p"
  "pr_waiters (fst (completeStartupLocked cfg p)) = pr_waiters p"
  "pr_closed (fst (completeStartupLocked cfg p)) = pr_closed p"
  "pr_ended (fst (completeStartupLocked cfg p)) \<longleftrightarrow> pr_ended p \<or> (pr_started p \<and> pr_target p \<le> pr_last p)"
  by (auto simp: completeStartupLocked_def not_less)

lemma complete_running:
  assumes "running cfg m0 c rs p" and "ordered_records c rs"
  shows "running cfg m0 c rs (fst (completeStartupLocked cfg p))"
proof (cases "\<not> pr_started p \<or> pr_ended p \<or> pr_last p < pr_target p")
  case True
  with assms show ?thesis by (auto simp: completeStartupLocked_def)
next
  case False
  from assms obtain C SB LB where s: "rs = C @ SB @ LB" "split_ok cfg m0 c C SB LB p" by (auto simp: running_def)
  have "SB = []"
  proof (rule ccontr)
    assume "SB \<noteq> []"
    then obtain b bs where b: "SB = b # bs" by (cases SB) auto
    then have "frontier c C < rec_seq b" using ordered_records_app(2) [of c C "SB @ LB"] assms(2) s(1) by auto
    moreover have "rec_seq b \<le> pr_target p" "pr_last p = frontier c C" using s(2) b by (auto simp: split_ok_def)
    ultimately show False using False by auto
  qed
  moreover from False s(2) have "LB = []" by (auto simp: split_ok_def)
  ultimately show ?thesis using s assms(1) False
    by (auto simp: running_def completeStartupLocked_def split_ok_def intro!: exI [of _ C] reads_complete)
qed

lemma maybeComplete_running:
  "running cfg m0 c rs p \<Longrightarrow> ordered_records c rs \<Longrightarrow> running cfg m0 c rs (maybeCompleteStartup cfg p)"
  by (simp add: maybeCompleteStartup_def complete_running)

lemma flushStartup_running:
  assumes "running cfg m0 c rs p" and "ordered_records c rs" and "batch_contract cfg"
  shows "case flushStartupBatch cfg p of
      (None, p') \<Rightarrow> running cfg m0 c rs p' \<and> pr_startup_batch p' = [] \<and> pr_ended p' = pr_ended p
        \<and> pr_target p' = pr_target p \<and> pr_live_batch p' = pr_live_batch p \<and> pr_last p \<le> pr_last p'
    | (Some (fs, err), p') \<Rightarrow> failure_ok rs fs p' \<and> pr_failed p' = None \<and> pr_started p' \<and> pr_restored p' = c"
proof -
  from assms(1) obtain C SB LB where s: "rs = C @ SB @ LB" "split_ok cfg m0 c C SB LB p"
    and r: "pr_failed p = None" "pr_started p" "pr_restored p = c" "pr_ended p \<longleftrightarrow> pr_completed p"
    by (auto simp: running_def)
  note o = ordered_records_app [of c C "SB @ LB"]
  show ?thesis
  proof (cases SB)
    case Nil
    with assms(1) s show ?thesis by (simp add: flushStartupBatch_def split_ok_def)
  next
    case (Cons b bs)
    with s obtain n f where f: "pc_startup_batch cfg = Some (n, f)" and LB: "LB = []"
      and ne: "\<not> pr_ended p" "pr_live_batch p = []" and sb: "pr_startup_batch p = map strip SB"
      and last: "pr_last p = frontier c C" and m: "reads cfg m0 C (pr_completed p) (pr_model p)"
      by (auto simp: split_ok_def)
    have ob: "frontier c C < rec_seq b" using o(2) assms(2) s(1) Cons by auto
    show ?thesis
    proof (cases "f (map strip SB) (pr_model p)")
      case (Pair res m')
      show ?thesis
      proof (cases res)
        case (Some x)
        have "failure_ok rs (rec_seq b) (p\<lparr>pr_model := m'\<rparr>)"
        proof -
          have "rec_seq r \<le> pr_last p" if "r \<in> set rs" "rec_seq r < rec_seq b" for r
          proof (cases "r \<in> set C")
            case True
            then show ?thesis using o(3) assms(2) s(1) last by auto
          next
            case False
            with that s(1) LB Cons have "r = b \<or> r \<in> set bs" by auto
            moreover have "rec_seq b < rec_seq q" if "q \<in> set bs" for q
              using assms(2) s(1) Cons LB that by (auto simp: ordered_records_def sorted_wrt_append)
            ultimately show ?thesis using that by (metis order_less_asym)
          qed
          with s(1) Cons r(3) last frontier_ge [OF o(1)] assms(2) show ?thesis by (auto simp: failure_ok_def)
        qed
        with Some Pair f sb Cons r show ?thesis by (simp add: flushStartupBatch_def strip_def)
      next
        case None
        with assms(3) f Pair have m': "m' = fold (app cfg) SB (pr_model p)" by (auto simp: batch_contract_def)
        have fr: "frontier c (C @ SB) = rec_seq (last SB)" using Cons by (simp add: frontier_def)
        have "max (frontier c C) (rec_seq (last SB)) = rec_seq (last SB)" "frontier c C \<le> rec_seq (last SB)"
          using o(2) [of "last SB"] assms(2) s(1) Cons by (auto simp: less_imp_le max_def)
        moreover have "snd (last (map strip SB)) = rec_seq (last SB)" using Cons by (simp add: last_map strip_def)
        ultimately have "running cfg m0 c rs (advance (rec_seq (last SB))
             (countStartupMessages (length SB) (p\<lparr>pr_model := m', pr_startup_batch := []\<rparr>)))"
          using s(1) LB r last ne fr m' reads_app [OF m, of SB] s(2)
          unfolding running_def by (auto intro!: exI [of _ "C @ SB"] simp: split_ok_def)
        with None Pair f sb Cons ne r(1) last \<open>snd (last (map strip SB)) = rec_seq (last SB)\<close>
          \<open>frontier c C \<le> rec_seq (last SB)\<close>
        show ?thesis by (simp add: flushStartupBatch_def)
      qed
    qed
  qed
qed

lemma flushLive_running:
  assumes "running cfg m0 c rs p" and "ordered_records c rs" and "batch_contract cfg"
  shows "case flushLiveBatch cfg p of
      (None, p') \<Rightarrow> running cfg m0 c rs p' \<and> pr_live_batch p' = [] \<and> pr_ended p' = pr_ended p
        \<and> pr_target p' = pr_target p \<and> pr_startup_batch p' = pr_startup_batch p \<and> pr_last p \<le> pr_last p'
    | (Some (fs, err), p') \<Rightarrow> failure_ok rs fs p' \<and> pr_failed p' = Some (fs, err) \<and> pr_started p'
        \<and> pr_restored p' = c \<and> pr_ended p'"
proof -
  from assms(1) obtain C SB LB where s: "rs = C @ SB @ LB" "split_ok cfg m0 c C SB LB p"
    and r: "pr_failed p = None" "pr_started p" "pr_restored p = c" "pr_ended p \<longleftrightarrow> pr_completed p"
    by (auto simp: running_def)
  note o = ordered_records_app [of c C "SB @ LB"]
  show ?thesis
  proof (cases LB)
    case Nil
    with assms(1) s r show ?thesis by (simp add: flushLiveBatch_def split_ok_def hasFailed_def)
  next
    case (Cons b bs)
    with s obtain n f where f: "pc_live_batch cfg = Some (n, f)" and SB: "SB = []"
      and ne: "pr_ended p" "pr_startup_batch p = []" and lb: "pr_live_batch p = map strip LB"
      and last: "pr_last p = frontier c C" and m: "reads cfg m0 C (pr_completed p) (pr_model p)"
      by (auto simp: split_ok_def)
    have ob: "frontier c C < rec_seq b" using o(2) assms(2) s(1) Cons by auto
    show ?thesis
    proof (cases "f (map strip LB) (pr_model p)")
      case (Pair res m')
      show ?thesis
      proof (cases res)
        case (Some x)
        have "rec_seq r \<le> pr_last p" if "r \<in> set rs" "rec_seq r < rec_seq b" for r
        proof (cases "r \<in> set C")
          case True
          then show ?thesis using o(3) assms(2) s(1) last by auto
        next
          case False
          with that s(1) SB Cons have "r = b \<or> r \<in> set bs" by auto
          moreover have "rec_seq b < rec_seq q" if "q \<in> set bs" for q
            using assms(2) s(1) Cons SB that by (auto simp: ordered_records_def sorted_wrt_append)
          ultimately show ?thesis using that by (metis order_less_asym)
        qed
        with s(1) Cons r(3) last frontier_ge [OF o(1)] assms(2) have "failure_ok rs (rec_seq b) (fail (rec_seq b) (ApplyFault x) (p\<lparr>pr_model := m'\<rparr>))"
          by (auto simp: failure_ok_def)
        with Some Pair f lb Cons r show ?thesis by (simp add: flushLiveBatch_def strip_def hasFailed_def)
      next
        case None
        with assms(3) f Pair have m': "m' = fold (app cfg) LB (pr_model p)" by (auto simp: batch_contract_def)
        have fr: "frontier c (C @ LB) = rec_seq (last LB)" using Cons by (simp add: frontier_def)
        have le: "max (frontier c C) (rec_seq (last LB)) = rec_seq (last LB)" "frontier c C \<le> rec_seq (last LB)"
          using o(2) [of "last LB"] assms(2) s(1) Cons SB by (auto simp: less_imp_le max_def)
        have sl: "snd (last (map strip LB)) = rec_seq (last LB)" using Cons by (simp add: last_map strip_def)
        have "running cfg m0 c rs (advance (rec_seq (last LB))
             (countStartupMessages (length LB) (p\<lparr>pr_model := m', pr_live_batch := []\<rparr>)))"
          using s(1) SB r last ne fr m' reads_app [OF m, of LB] s(2) le
          unfolding running_def by (auto intro!: exI [of _ "C @ LB"] simp: split_ok_def)
        with None Pair f lb Cons ne r(1) last sl le(2)
        show ?thesis by (simp add: flushLiveBatch_def hasFailed_def)
      qed
    qed
  qed
qed

lemma applySingle_running:
  assumes "running cfg m0 c rs p" and "ordered_records c (rs @ [(ev, subject, sq)])"
    and "pr_startup_batch p = []" and "pr_live_batch p = []"
  shows "case applySingle cfg ev subject sq p of
      (None, p') \<Rightarrow> running cfg m0 c (rs @ [(ev, subject, sq)]) p' \<and> pr_startup_batch p' = []
    | (Some (fs, err), p') \<Rightarrow> failure_ok (rs @ [(ev, subject, sq)]) fs p' \<and> pr_failed p' = None
        \<and> pr_started p' \<and> pr_restored p' = c"
proof -
  from assms(1,3,4) have r: "pr_failed p = None" "pr_started p" "pr_restored p = c"
      "pr_ended p \<longleftrightarrow> pr_completed p" and s: "split_ok cfg m0 c rs [] [] p"
    by (auto simp: running_def split_ok_def)
  then have m: "reads cfg m0 rs (pr_completed p) (pr_model p)" and last: "pr_last p = frontier c rs"
    by (auto simp: split_ok_def)
  have lt: "frontier c rs < sq" and le: "\<And>r. r \<in> set rs \<Longrightarrow> rec_seq r \<le> frontier c rs"
    using ordered_records_app(2,3) [OF assms(2)] by auto
  obtain res m' where pr: "pc_prepare cfg ev subject sq (pr_model p) = (res, m')" by fastforce
  show ?thesis
  proof (cases res)
    case None
    have "running cfg m0 c (rs @ [(ev, subject, sq)]) (advance sq (countStartupMessages 1 (p\<lparr>pr_model := m'\<rparr>)))"
      using r s last lt pr reads_app [OF m, of "[(ev, subject, sq)]"] assms(3,4)
      unfolding running_def
      by (auto intro!: exI [of _ "rs @ [(ev, subject, sq)]"] simp: split_ok_def frontier_def app_def max_def less_imp_le)
    with None pr assms(3) show ?thesis by (simp add: applySingle_def)
  next
    case (Some x)
    have "failure_ok (rs @ [(ev, subject, sq)]) sq (p\<lparr>pr_model := m'\<rparr>)"
      using le last r(3) frontier_ge [OF ordered_records_app(1) [OF assms(2)]] by (auto simp: failure_ok_def)
    with Some pr r show ?thesis by (simp add: applySingle_def)
  qed
qed

lemma runningI:
  assumes "pr_failed p = None" "pr_started p" "pr_restored p = c" "pr_ended p \<longleftrightarrow> pr_completed p"
    and "rs = C @ SB @ LB" "split_ok cfg m0 c C SB LB p"
  shows "running cfg m0 c rs p"
  using assms unfolding running_def by blast

lemma lower_target_running:
  assumes "running cfg m0 c rs p" and "pr_startup_batch p = []" and "\<not> pr_ended p"
  shows "running cfg m0 c rs (p\<lparr>pr_target := t\<rparr>)"
  using assms by (auto simp: running_def split_ok_def)

lemma endStartupForLive_running:
  assumes "running cfg m0 c rs p" and "ordered_records c rs" and "pr_startup_batch p = []"
    and "pr_target p < sq"
  shows "running cfg m0 c rs (endStartupForLive cfg p)" "pr_ended (endStartupForLive cfg p)"
    "pr_target (endStartupForLive cfg p) < sq" "pr_startup_batch (endStartupForLive cfg p) = []"
    "pr_live_batch (endStartupForLive cfg p) = pr_live_batch p"
proof -
  let ?q = "if \<not> pr_ended p \<and> pr_last p < pr_target p then p\<lparr>pr_target := pr_last p\<rparr> else p"
  have "running cfg m0 c rs ?q"
    using assms(1,3) lower_target_running by auto
  then show "running cfg m0 c rs (endStartupForLive cfg p)"
    unfolding endStartupForLive_def by (rule complete_running [OF _ assms(2)])
  have "pr_started p" using assms(1) by (simp add: running_def)
  then show "pr_ended (endStartupForLive cfg p)" "pr_target (endStartupForLive cfg p) < sq"
    "pr_startup_batch (endStartupForLive cfg p) = []" "pr_live_batch (endStartupForLive cfg p) = pr_live_batch p"
    using assms(3,4) by (auto simp: endStartupForLive_def not_less)
qed

text \<open>The outcome every way of applying one more record has.\<close>

definition applied ::
  "('m, 'e, 'x) projector_config \<Rightarrow> 'm \<Rightarrow> seq \<Rightarrow> 'e log_record list
     \<Rightarrow> (seq \<times> 'x fault) option \<times> ('m, 'e, 'x) projector \<Rightarrow> bool" where
  "applied cfg m0 c rs r =
     (case r of
        (None, p') \<Rightarrow> running cfg m0 c rs p'
      | (Some (fs, err), p') \<Rightarrow> failure_ok rs fs p' \<and> pr_started p' \<and> pr_restored p' = c
          \<and> (pr_failed p' = None \<or> pr_failed p' = Some (fs, err) \<and> pr_ended p'))"

lemma bufferLive_running:
  assumes "running cfg m0 c rs p" and "ordered_records c (rs @ [(ev, subject, sq)])" and "batch_contract cfg"
    and "pr_startup_batch p = []" and "pc_live_batch cfg \<noteq> None" and "pr_target p < sq"
  shows "applied cfg m0 c (rs @ [(ev, subject, sq)]) (bufferLive cfg ev sq n p)"
proof -
  let ?r = "(ev, subject, sq)" and ?p1 = "endStartupForLive cfg p"
  let ?p2 = "?p1\<lparr>pr_live_batch := pr_live_batch ?p1 @ [(ev, sq)]\<rparr>"
  note e = endStartupForLive_running [OF assms(1) ordered_records_app(1) [OF assms(2)] assms(4,6)]
  from e(1,4) obtain C LB where "rs = C @ LB" "split_ok cfg m0 c C [] LB ?p1"
    by (auto simp: running_def split_ok_def)
  moreover have "split_ok cfg m0 c C [] (LB @ [?r]) ?p2"
    using calculation(2) e(2,3) assms(5) by (cases "LB = []") (simp_all add: split_ok_def strip_def)
  ultimately have run: "running cfg m0 c (rs @ [?r]) ?p2"
    using e(1) by (intro runningI [where C = C and SB = "[]" and LB = "LB @ [?r]"]) (simp_all add: running_def)
  obtain res p' where "flushLiveBatch cfg ?p2 = (res, p')" by fastforce
  with flushLive_running [OF run assms(2,3)] run show ?thesis
    by (cases res) (auto simp: bufferLive_def Let_def applied_def)
qed

lemma applyPastStartup_running:
  assumes "running cfg m0 c rs p" and "ordered_records c (rs @ [(ev, subject, sq)])" and "batch_contract cfg"
    and "pr_startup_batch p = []"
  shows "applied cfg m0 c (rs @ [(ev, subject, sq)]) (applyPastStartup cfg ev subject sq p)"
proof (cases "pc_live_batch cfg \<noteq> None \<and> pr_target p < sq")
  case True
  then show ?thesis
    using bufferLive_running [OF assms] by (auto simp: applyPastStartup_def)
next
  case False
  from assms(1) obtain C SB LB where s: "rs = C @ SB @ LB" "split_ok cfg m0 c C SB LB p" by (auto simp: running_def)
  have "LB = []"
  proof (rule ccontr)
    assume ne: "LB \<noteq> []"
    with s(2) have "pc_live_batch cfg \<noteq> None" "pr_target p < rec_seq (last LB)" by (auto simp: split_ok_def)
    moreover have "rec_seq (last LB) < sq"
      using assms(2) s(1) ne by (auto simp: ordered_records_def sorted_wrt_append)
    ultimately show False using False by auto
  qed
  with s(2) have "pr_live_batch p = []" by (simp add: split_ok_def)
  have eq: "applyPastStartup cfg ev subject sq p = applySingle cfg ev subject sq p"
    using False by (auto simp: applyPastStartup_def split: option.splits)
  obtain res p' where a: "applySingle cfg ev subject sq p = (res, p')" by fastforce
  with applySingle_running [OF assms(1,2,4) \<open>pr_live_batch p = []\<close>] show ?thesis
    unfolding eq by (cases res) (auto simp: applied_def)
qed

lemma applyEvent_running:
  assumes "running cfg m0 c rs p" and "ordered_records c (rs @ [(ev, subject, sq)])" and "batch_contract cfg"
    and "\<not> shouldSkipRestored sq p"
  shows "applied cfg m0 c (rs @ [(ev, subject, sq)]) (applyEvent cfg ev subject sq p)"
proof -
  let ?r = "(ev, subject, sq)"
  have nf: "\<not> hasFailed p" using assms(1) by (simp add: running_def hasFailed_def)
  have o: "ordered_records c rs" by (rule ordered_records_app(1) [OF assms(2)])
  show ?thesis
  proof (cases "pc_startup_batch cfg")
    case None
    with assms(1) have "pr_startup_batch p = []" by (auto simp: running_def split_ok_def)
    with applyPastStartup_running [OF assms(1-3)] None nf assms(4) show ?thesis by (simp add: applyEvent_def)
  next
    case (Some nf')
    then obtain n f where f: "pc_startup_batch cfg = Some (n, f)" by (cases nf') auto
    show ?thesis
    proof (cases "shouldBatchStartup cfg sq p")
      case True
      let ?p1 = "p\<lparr>pr_startup_batch := pr_startup_batch p @ [(ev, sq)]\<rparr>"
      from True f have t: "\<not> pr_ended p" "sq \<le> pr_target p" by (auto simp: shouldBatchStartup_def)
      from assms(1) obtain C SB LB where "rs = C @ SB @ LB" "split_ok cfg m0 c C SB LB p"
        by (auto simp: running_def)
      moreover from this(2) t have "LB = []" by (auto simp: split_ok_def)
      moreover have "split_ok cfg m0 c C (SB @ [?r]) [] ?p1"
        using calculation(2,3) t f by (cases "SB = []") (simp_all add: split_ok_def strip_def)
      ultimately have run: "running cfg m0 c (rs @ [?r]) ?p1"
        using assms(1)
        by (intro runningI [where C = C and SB = "SB @ [?r]" and LB = "[]"]) (simp_all add: running_def)
      obtain res p' where "flushStartupBatch cfg ?p1 = (res, p')" by fastforce
      with flushStartup_running [OF run assms(2,3)] run True f nf assms(4) show ?thesis
        by (cases res) (auto simp: applyEvent_def applied_def Let_def)
    next
      case False
      note fl = flushStartup_running [OF assms(1) o assms(3)]
      show ?thesis
      proof (cases "flushStartupBatch cfg p")
        case (Pair res p1)
        show ?thesis
        proof (cases res)
          case None
          with Pair fl have "running cfg m0 c rs p1" "pr_startup_batch p1 = []" by auto
          from applyPastStartup_running [OF this(1) assms(2,3) this(2)] None Pair False f nf assms(4)
          show ?thesis by (simp add: applyEvent_def)
        next
          case (Some fe)
          then obtain fs err where fe: "res = Some (fs, err)" by (cases fe) auto
          with Pair fl have "failure_ok rs fs p1" "pr_failed p1 = None" "pr_started p1" "pr_restored p1 = c" by auto
          moreover from this(1) have "failure_ok (rs @ [?r]) fs p1"
          proof -
            from \<open>failure_ok rs fs p1\<close> obtain q where q: "q \<in> set rs" "fs \<le> rec_seq q"
              by (auto simp: failure_ok_def)
            with assms(2) have "rec_seq q < sq" by (auto simp: ordered_records_def sorted_wrt_append)
            with q \<open>failure_ok rs fs p1\<close> show ?thesis by (auto simp: failure_ok_def)
          qed
          ultimately show ?thesis using fe Pair False f nf assms(4) by (simp add: applyEvent_def applied_def)
        qed
      qed
    qed
  qed
qed

section \<open>Waits\<close>

text \<open>
  \<open>ws\<close> are all the waits ever registered. Those still listed are sorted and not yet met; a
  channel is closed only when its sequence is reached or the projector has failed; and a
  wait that is registered after a failure lies before it.
\<close>

definition waits_inv :: "(seq \<times> nat) list \<Rightarrow> ('m, 'e, 'x) projector \<Rightarrow> bool" where
  "waits_inv ws p \<longleftrightarrow>
     distinct (map snd ws) \<and> 0 \<notin> fst ` set ws \<and> set (pr_waiters p) \<subseteq> set ws
     \<and> fset (pr_closed p) \<subseteq> snd ` set ws
     \<and> sorted (map fst (pr_waiters p)) \<and> (\<forall>w \<in> set (pr_waiters p). pr_last p < fst w)
     \<and> (\<forall>(s, ch) \<in> set ws. ch |\<in>| pr_closed p \<longrightarrow> s \<le> pr_last p \<or> pr_failed p \<noteq> None)
     \<and> (\<forall>fs err. pr_failed p = Some (fs, err) \<longrightarrow> (\<forall>w \<in> set (pr_waiters p). fst w < fs))"

lemma waits_inv_update [simp]:
  "waits_inv ws (p\<lparr>pr_model := m\<rparr>) = waits_inv ws p"
  "waits_inv ws (p\<lparr>pr_startup_batch := b\<rparr>) = waits_inv ws p"
  "waits_inv ws (p\<lparr>pr_live_batch := b\<rparr>) = waits_inv ws p"
  "waits_inv ws (p\<lparr>pr_target := t\<rparr>) = waits_inv ws p"
  "waits_inv ws (p\<lparr>pr_started := st\<rparr>) = waits_inv ws p"
  "waits_inv ws (p\<lparr>pr_restored := t\<rparr>) = waits_inv ws p"
  "waits_inv ws (countStartupMessages n p) = waits_inv ws p"
  "waits_inv ws (fst (completeStartupLocked cfg p)) = waits_inv ws p"
  by (simp_all add: waits_inv_def)

lemma distinct_snd_eq:
  "distinct (map snd ws) \<Longrightarrow> (a, k) \<in> set ws \<Longrightarrow> (b, k) \<in> set ws \<Longrightarrow> a = b"
  by (induction ws) (auto simp: image_iff)

lemma sorted_dropWhile_gt:
  assumes "sorted (map fst ws)" and "w \<in> set (dropWhile (\<lambda>(s, _). s \<le> l) ws)"
  shows "l < fst (w :: seq \<times> nat)"
  using assms by (induction ws) (auto split: if_splits)

lemma waits_inv_advance:
  assumes "waits_inv ws p"
  shows "waits_inv ws (advance sq p)"
proof -
  obtain l where l: "l = max (pr_last p) sq" "pr_last p \<le> l" by simp
  let ?met = "takeWhile (\<lambda>(s, _). s \<le> l) (pr_waiters p)" and ?rest = "dropWhile (\<lambda>(s, _). s \<le> l) (pr_waiters p)"
  have f: "pr_waiters (advance sq p) = ?rest" "pr_last (advance sq p) = l"
    "pr_closed (advance sq p) = pr_closed p |\<union>| fset_of_list (map snd ?met)"
    by (simp_all add: advance_def Let_def l max_def le_less)
  have rest: "set ?rest \<subseteq> set (pr_waiters p)" by (auto dest: set_dropWhileD)
  have met: "set ?met \<subseteq> set ws" using assms by (auto simp: waits_inv_def dest: set_takeWhileD)
  have reached: "s \<le> l" if "(s, ch) \<in> set ws" "(s', ch) \<in> set ?met" for s s' ch
  proof -
    from met assms that have "s' = s" by (auto simp: waits_inv_def dest: distinct_snd_eq)
    then show ?thesis using set_takeWhileD [OF that(2)] by auto
  qed
  have "sorted (map fst ?rest)"
    using assms by (simp add: waits_inv_def sorted_dropWhile dropWhile_map [symmetric] sorted_wrt_map)
  moreover have "\<forall>w \<in> set ?rest. l < fst w"
    using assms sorted_dropWhile_gt [of "pr_waiters p"] by (auto simp: waits_inv_def)
  moreover have "\<forall>(s, ch) \<in> set ws. ch |\<in>| pr_closed (advance sq p) \<longrightarrow> s \<le> l \<or> pr_failed p \<noteq> None"
    using assms l(2) reached unfolding f waits_inv_def
    by (auto simp: fset_of_list_elem dest: order_trans)
  moreover have "fset (pr_closed (advance sq p)) \<subseteq> snd ` set ws"
    using assms met unfolding f waits_inv_def by (auto simp: fset_of_list.rep_eq)
  moreover have "\<forall>w \<in> set ?rest. fst w < fs" if "pr_failed p = Some (fs, err)" for fs err
    using assms rest that unfolding waits_inv_def by blast
  ultimately show ?thesis
    using assms rest unfolding waits_inv_def f(1,2) by auto
qed

lemma waits_inv_fail:
  assumes "waits_inv ws p"
  shows "waits_inv ws (fail sq err p)"
  using assms by (auto simp: waits_inv_def fset_of_list_elem intro: rev_image_eqI)

lemma waits_inv_register:
  assumes "waits_inv ws p" and "ch \<notin> snd ` set ws" and "0 < sq"
    and "waitForSeq ch sq p = (result, p')"
  shows "waits_inv ((sq, ch) # ws) p'"
proof -
  have same: "waits_inv ((sq, ch) # ws) p" using assms(1-3) by (auto simp: waits_inv_def)
  have ins: "set (insert_waiter sq ch (pr_waiters p)) = insert (sq, ch) (set (pr_waiters p))"
    unfolding insert_waiter_def by (metis Un_insert_right list.simps(15) set_append takeWhile_dropWhile_id)
  have srt: "sorted (map fst (insert_waiter sq ch xs))" if "sorted (map fst xs)" for xs
    using that unfolding insert_waiter_def
    by (induction xs) (auto dest!: set_takeWhileD set_dropWhileD)
  have put: "waits_inv ((sq, ch) # ws) (p\<lparr>pr_waiters := insert_waiter sq ch (pr_waiters p)\<rparr>)"
    if "pr_last p < sq" "\<And>fs err. pr_failed p = Some (fs, err) \<Longrightarrow> sq < fs"
    using same that srt [of "pr_waiters p"] by (simp add: waits_inv_def ins)
  show ?thesis
    using assms(4) same put by (cases "pr_failed p") (auto simp: waitForSeq_def not_le split: if_splits)
qed

section \<open>The invariant of a run\<close>

lemma waits_inv_flushStartup: "waits_inv ws p \<Longrightarrow> waits_inv ws (snd (flushStartupBatch cfg p))"
  by (auto simp: flushStartupBatch_def waits_inv_advance split: list.splits option.splits prod.splits)

lemma waits_inv_flushLive: "waits_inv ws p \<Longrightarrow> waits_inv ws (snd (flushLiveBatch cfg p))"
  by (auto simp: flushLiveBatch_def waits_inv_advance waits_inv_fail split: list.splits option.splits prod.splits)

lemma waits_inv_maybeComplete [simp]:
  "waits_inv ws (maybeCompleteStartup cfg p) = waits_inv ws p"
  by (simp add: maybeCompleteStartup_def)

lemma waits_inv_applyPast:
  assumes "waits_inv ws p"
  shows "waits_inv ws (snd (applyPastStartup cfg ev subject sq p))"
proof -
  have "waits_inv ws (endStartupForLive cfg p)" using assms by (simp add: endStartupForLive_def)
  then have "waits_inv ws (snd (bufferLive cfg ev sq n p))" for n
    by (simp add: bufferLive_def Let_def waits_inv_flushLive)
  moreover have "waits_inv ws (snd (applySingle cfg ev subject sq p))"
    using assms by (auto simp: applySingle_def waits_inv_advance split: option.splits prod.splits)
  ultimately show ?thesis by (auto simp: applyPastStartup_def split: option.splits)
qed

lemma waits_inv_applyEvent:
  assumes "waits_inv ws p"
  shows "waits_inv ws (snd (applyEvent cfg ev subject sq p))"
proof -
  obtain res p1 where fl: "flushStartupBatch cfg p = (res, p1)" by fastforce
  with waits_inv_flushStartup [OF assms, of cfg] have "waits_inv ws p1" by simp
  with assms fl show ?thesis
    by (auto simp: applyEvent_def Let_def waits_inv_flushStartup waits_inv_applyPast split: option.splits)
qed

lemma waits_inv_handleMessage:
  assumes "waits_inv ws p"
  shows "waits_inv ws (handleMessage cfg msg p)"
proof -
  have "waits_inv ws (case applyEvent cfg ev subject sq p of
      (Some (fs, err), p1) \<Rightarrow> fail fs err p1 | (None, p1) \<Rightarrow> maybeCompleteStartup cfg p1)" for ev subject sq
  proof -
    obtain res p1 where ap: "applyEvent cfg ev subject sq p = (res, p1)" by fastforce
    with waits_inv_applyEvent [OF assms, of cfg ev subject sq] have "waits_inv ws p1" by simp
    with ap show ?thesis by (auto simp: waits_inv_fail split: option.splits)
  qed
  with assms show ?thesis
    by (auto simp: handleMessage_def failPendingBatch_def waits_inv_fail split: option.splits sum.splits)
qed

lemma waits_inv_tick: "waits_inv ws p \<Longrightarrow> waits_inv ws (liveTick cfg p)"
  by (simp add: liveTick_def waits_inv_flushLive)

lemma waits_inv_reconcile:
  assumes "waits_inv ws p"
  shows "waits_inv ws (reconcileStartup cfg current p)"
proof -
  obtain res p1 where fl: "flushStartupBatch cfg p = (res, p1)" by fastforce
  with waits_inv_flushStartup [OF assms, of cfg] have "waits_inv ws p1" by simp
  with assms fl show ?thesis
    by (auto simp: reconcileStartup_def waits_inv_fail split: prod.splits option.splits)
qed

lemma waits_inv_cancel: "waits_inv ws p \<Longrightarrow> waits_inv ws (cancelWait ch p)"
  by (auto simp: waits_inv_def cancelWait_def sorted_filter)

section \<open>What holds between two steps\<close>

definition settled :: "('m, 'e, 'x) projector \<Rightarrow> bool" where
  "settled p \<longleftrightarrow>
     (pr_ended p \<or> pr_last p < pr_target p)
     \<and> (pr_startup_batch p \<noteq> [] \<longrightarrow> snd (last (pr_startup_batch p)) < pr_target p)"

definition decodable :: "('m, 'e, 'x) projector_config \<Rightarrow> seq \<Rightarrow> message list \<Rightarrow> bool" where
  "decodable cfg c msgs \<longleftrightarrow>
     (\<forall>sq \<in> consumed cfg msgs. sq \<le> c \<or> sq \<in> rec_seq ` set (records cfg c msgs))"

definition run_inv ::
  "('m, 'e, 'x) projector_config \<Rightarrow> 'm \<Rightarrow> seq \<Rightarrow> message list \<Rightarrow> ('m, 'e, 'x) projector \<Rightarrow> bool" where
  "run_inv cfg m0 c msgs p \<longleftrightarrow>
     (case pr_failed p of
        None \<Rightarrow> running cfg m0 c (records cfg c msgs) p \<and> settled p \<and> decodable cfg c msgs
      | Some (fs, _) \<Rightarrow> pr_started p \<and> pr_ended p
          \<and> (fs = 0 \<or> (\<forall>sq \<in> consumed cfg msgs. sq < fs \<longrightarrow> sq \<le> pr_last p)
                \<and> (\<exists>msg \<in> set msgs. fs \<le> the (ms_seq msg))))"

lemma startup_batch_kept:
  "pr_startup_batch (snd (flushLiveBatch cfg p)) = pr_startup_batch p"
  "pr_startup_batch (endStartupForLive cfg p) = pr_startup_batch p"
  "pr_startup_batch (snd (applySingle cfg ev subject sq p)) = pr_startup_batch p"
  by (auto simp: flushLiveBatch_def endStartupForLive_def applySingle_def fail_def Let_def
      split: list.splits option.splits prod.splits)

lemma applyPast_batch_kept: "pr_startup_batch (snd (applyPastStartup cfg ev subject sq p)) = pr_startup_batch p"
  by (auto simp: applyPastStartup_def bufferLive_def Let_def startup_batch_kept split: option.splits)

lemma maybeComplete_settles:
  assumes "pr_started p" and "pr_ended p \<longleftrightarrow> pr_completed p"
    and "pr_startup_batch p \<noteq> [] \<Longrightarrow> snd (last (pr_startup_batch p)) < pr_target p"
  shows "settled (maybeCompleteStartup cfg p)"
  using assms by (auto simp: settled_def maybeCompleteStartup_def)

lemma applyEvent_batch:
  assumes "running cfg m0 c rs p" and "\<not> shouldSkipRestored sq p"
    and "applyEvent cfg ev subject sq p = (None, p')" and "pr_startup_batch p' \<noteq> []"
  shows "snd (last (pr_startup_batch p')) < pr_target p'"
proof -
  have nf: "\<not> hasFailed p" using assms(1) by (simp add: running_def hasFailed_def)
  show ?thesis
  proof (cases "pc_startup_batch cfg")
    case None
    with assms(1) have "pr_startup_batch p = []" by (auto simp: running_def split_ok_def)
    with applyPast_batch_kept [of cfg ev subject sq p] None assms(2-4) nf show ?thesis
      by (simp add: applyEvent_def)
  next
    case (Some nf')
    then obtain n f where f: "pc_startup_batch cfg = Some (n, f)" by (cases nf') auto
    have flushed: "pr_startup_batch q' = []" if "flushStartupBatch cfg q = (None, q')" for q q'
      using that f by (auto simp: flushStartupBatch_def split: list.splits option.splits prod.splits)
    show ?thesis
      using assms(2-4) nf f flushed applyPast_batch_kept [of cfg ev subject sq]
      by (auto simp: applyEvent_def Let_def split: if_splits option.splits prod.splits) (metis snd_conv)+
  qed
qed

lemma ordered_records_log:
  assumes "ordered_log msgs"
  shows "ordered_records c (records cfg c msgs)"
proof -
  have "sorted_wrt (<) (map rec_seq (records cfg c msgs))
      \<and> (\<forall>r \<in> set (records cfg c msgs). \<exists>msg \<in> set msgs. ms_seq msg = Some (rec_seq r))"
    using assms
  proof (induction msgs)
    case Nil
    then show ?case by (simp add: records_def)
  next
    case (Cons msg msgs)
    then have IH: "sorted_wrt (<) (map rec_seq (records cfg c msgs))"
      "\<forall>r \<in> set (records cfg c msgs). \<exists>msg \<in> set msgs. ms_seq msg = Some (rec_seq r)"
      by (auto simp: ordered_log_def)
    show ?case
    proof (cases "record_of cfg c msg")
      case None
      with IH show ?thesis by (auto simp: records_def)
    next
      case (Some r)
      then have "ms_seq msg = Some (rec_seq r)"
        by (auto simp: record_of_def split: option.splits if_splits sum.splits)
      moreover have "the (ms_seq msg) < the (ms_seq q)" if "q \<in> set msgs" for q
        using Cons.prems that by (simp add: ordered_log_def)
      ultimately have "rec_seq r < rec_seq q" if "q \<in> set (records cfg c msgs)" for q
        using IH(2) that by fastforce
      with IH Some \<open>ms_seq msg = Some (rec_seq r)\<close> show ?thesis by (auto simp: records_def)
    qed
  qed
  moreover have "c < rec_seq r" if "r \<in> set (records cfg c msgs)" for r
  proof -
    from that obtain msg where "msg \<in> set msgs" "record_of cfg c msg = Some r"
      by (auto simp: records_def List.map_filter_def)
    with assms show ?thesis
      by (cases "c = 0") (auto simp: record_of_def ordered_log_def word_neq_0_conv not_le
          split: option.splits if_splits sum.splits)
  qed
  ultimately show ?thesis by (simp add: ordered_records_def)
qed

lemma record_in_log:
  assumes "r \<in> set (records cfg c msgs)"
  shows "\<exists>msg \<in> set msgs. ms_seq msg = Some (rec_seq r)"
proof -
  from assms obtain msg where "msg \<in> set msgs" "record_of cfg c msg = Some r"
    by (auto simp: records_def List.map_filter_def)
  then show ?thesis
    by (auto simp: record_of_def split: option.splits if_splits sum.splits)
qed

lemma records_snoc:
  "records cfg c (msgs @ [msg]) = records cfg c msgs @ (case record_of cfg c msg of None \<Rightarrow> [] | Some r \<Rightarrow> [r])"
  by (simp add: records_def List.map_filter_def split: option.splits)

lemma consumed_snoc:
  "consumed cfg (msgs @ [msg]) = consumed cfg msgs \<union>
     (case ms_seq msg of None \<Rightarrow> {} | Some sq \<Rightarrow> if consumesSubject cfg (ms_subject msg) then {sq} else {})"
  by (auto simp: consumed_def split: option.splits)

text \<open>Before the first pending record everything is committed.\<close>

lemma pending_frontier:
  assumes "running cfg m0 c rs p" and "ordered_records c rs" and "\<And>r. r \<in> set rs \<Longrightarrow> rec_seq r < sq"
  defines "fs \<equiv> case (pr_startup_batch p, pr_live_batch p) of
             (first # _, _) \<Rightarrow> snd first | ([], first # _) \<Rightarrow> snd first | ([], []) \<Rightarrow> sq"
  shows "fs \<le> sq" "\<And>r. r \<in> set rs \<Longrightarrow> rec_seq r < fs \<Longrightarrow> rec_seq r \<le> pr_last p" "c \<le> pr_last p"
proof -
  from assms(1) obtain C SB LB where s: "rs = C @ SB @ LB" "split_ok cfg m0 c C SB LB p" by (auto simp: running_def)
  note o = ordered_records_app [of c C "SB @ LB"]
  have last: "pr_last p = frontier c C" and b: "pr_startup_batch p = map strip SB" "pr_live_batch p = map strip LB"
    using s(2) by (auto simp: split_ok_def)
  have C: "rec_seq r \<le> pr_last p" if "r \<in> set C" for r using o(3) assms(2) s(1) last that by auto
  have fs: "fs = (case SB @ LB of [] \<Rightarrow> sq | r # _ \<Rightarrow> rec_seq r)"
    by (cases SB; cases LB) (simp_all add: fs_def b strip_def)
  show "fs \<le> sq" using fs s(1) assms(3) by (cases "SB @ LB") (auto simp: less_imp_le)
  show "rec_seq r \<le> pr_last p" if "r \<in> set rs" "rec_seq r < fs" for r
  proof (cases "r \<in> set C")
    case False
    with that s(1) have r: "r \<in> set (SB @ LB)" by auto
    have "sorted_wrt (<) (map rec_seq (SB @ LB))"
      using assms(2) s(1) by (auto simp: ordered_records_def sorted_wrt_append)
    with r that(2) fs show ?thesis by (cases "SB @ LB") auto
  qed (rule C)
  show "c \<le> pr_last p"
    using assms(2) s(1) last by (cases C rule: rev_cases) (auto simp: frontier_def ordered_records_def less_imp_le)
qed

lemma failure_run_inv:
  assumes "failure_ok (records cfg c msgs) fs p'" and "pr_restored p' = c" and "decodable cfg c msgs"
    and "pr_failed p = Some (fs, err)" "pr_started p" "pr_ended p" "pr_last p = pr_last p'"
  shows "run_inv cfg m0 c msgs p"
proof -
  have "s \<le> pr_last p'" if "s \<in> consumed cfg msgs" "s < fs" for s
  proof (cases "s \<le> c")
    case True
    with assms(1,2) show ?thesis unfolding failure_ok_def by auto
  next
    case False
    with assms(3) that have "s \<in> rec_seq ` set (records cfg c msgs)" unfolding decodable_def by blast
    with assms(1) that(2) show ?thesis unfolding failure_ok_def by blast
  qed
  moreover from assms(1) obtain r where r: "r \<in> set (records cfg c msgs)" "fs \<le> rec_seq r"
    unfolding failure_ok_def by blast
  from record_in_log [OF r(1)] r(2) have "\<exists>q \<in> set msgs. fs \<le> the (ms_seq q)" by (metis option.sel)
  ultimately show ?thesis using assms(4-7) by (simp add: run_inv_def)
qed

lemma deliver_inv:
  assumes inv: "run_inv cfg m0 c msgs p" and log: "ordered_log (msgs @ [msg])" and batch: "batch_contract cfg"
  shows "run_inv cfg m0 c (msgs @ [msg]) (handleMessage cfg msg p)"
proof -
  from log obtain sq where sq: "ms_seq msg = Some sq" "0 < sq" by (auto simp: ordered_log_def)
  have above: "the (ms_seq q) < sq" if "q \<in> set msgs" for q
    using log that sq(1) by (simp add: ordered_log_def sorted_wrt_append)
  have logs: "ordered_log msgs" using log by (simp add: ordered_log_def sorted_wrt_append)
  show ?thesis
  proof (cases "pr_failed p")
    case (Some fe)
    obtain fs err where fe: "fe = (fs, err)" by fastforce
    with inv Some have b: "fs = 0 \<or> (\<forall>s \<in> consumed cfg msgs. s < fs \<longrightarrow> s \<le> pr_last p)
        \<and> (\<exists>q \<in> set msgs. fs \<le> the (ms_seq q))" by (simp add: run_inv_def)
    have "fs = 0 \<or> fs \<le> sq"
    proof (cases "fs = 0")
      case False
      with b obtain q where "q \<in> set msgs" "fs \<le> the (ms_seq q)" by blast
      with above [of q] have "fs \<le> sq" by (meson less_imp_le order_trans)
      then show ?thesis ..
    qed simp
    then have "fs = 0 \<or> (\<forall>s \<in> consumed cfg (msgs @ [msg]). s < fs \<longrightarrow> s \<le> pr_last p)
        \<and> (\<exists>q \<in> set (msgs @ [msg]). fs \<le> the (ms_seq q))"
      using b sq(1) by (auto simp: consumed_snoc)
    moreover have "handleMessage cfg msg p = p" using Some by (simp add: handleMessage_def hasFailed_def)
    ultimately show ?thesis using inv Some fe by (simp add: run_inv_def)
  next
    case None
    let ?rs = "records cfg c msgs"
    from inv None have run: "running cfg m0 c ?rs p" and set: "settled p" and dec: "decodable cfg c msgs"
      by (simp_all add: run_inv_def)
    have o: "ordered_records c ?rs" by (rule ordered_records_log [OF logs])
    have o': "ordered_records c (records cfg c (msgs @ [msg]))" by (rule ordered_records_log [OF log])
    have c: "pr_restored p = c" and st: "pr_started p" using run by (simp_all add: running_def)
    have skip: "shouldSkipRestored sq p \<longleftrightarrow> 0 < c \<and> sq \<le> c" by (simp add: shouldSkipRestored_def c)
    show ?thesis
    proof (cases "consumesSubject cfg (ms_subject msg) \<and> \<not> (0 < c \<and> sq \<le> c)")
      case False
      then have "record_of cfg c msg = None" "handleMessage cfg msg p = p"
        using None sq(1) skip by (auto simp: record_of_def handleMessage_def hasFailed_def)
      with False None run set dec sq(1) show ?thesis
        by (auto simp: run_inv_def records_snoc decodable_def consumed_snoc)
    next
      case True
      show ?thesis
      proof (cases "pc_decode cfg (ms_data msg)")
        case (Inl x)
        have "rec_seq r < sq" if "r \<in> set ?rs" for r
          using record_in_log [OF that] above by fastforce
        note pf = pending_frontier [OF run o this]
        have "s \<le> pr_last p" if "s \<in> consumed cfg msgs"
            "s < (case (pr_startup_batch p, pr_live_batch p) of
             (first # _, _) \<Rightarrow> snd first | ([], first # _) \<Rightarrow> snd first | ([], []) \<Rightarrow> sq)" for s
          using that pf(2,3) dec unfolding decodable_def by fastforce
        with None sq(1) True skip Inl st pf(1) show ?thesis
          by (auto simp: run_inv_def handleMessage_def hasFailed_def failPendingBatch_def fail_def Let_def
              consumed_snoc)
      next
        case (Inr ev)
        let ?r = "(ev, ms_subject msg, sq)"
        have ns: "\<not> shouldSkipRestored sq p" "consumesSubject cfg (ms_subject msg)" using True skip by auto
        have rec: "records cfg c (msgs @ [msg]) = ?rs @ [?r]"
          using True Inr sq(1) by (simp add: records_snoc record_of_def)
        have dec': "decodable cfg c (msgs @ [msg])"
          using dec sq(1) by (auto simp: decodable_def consumed_snoc rec)
        obtain res p' where ap: "applyEvent cfg ev (ms_subject msg) sq p = (res, p')" by fastforce
        from applyEvent_running [OF run o' [unfolded rec] batch] ns ap
        have a: "applied cfg m0 c (?rs @ [?r]) (res, p')" by simp
        show ?thesis
        proof (cases res)
          case None': None
          with a have run': "running cfg m0 c (?rs @ [?r]) p'" by (simp add: applied_def)
          moreover have "settled (maybeCompleteStartup cfg p')"
            using run' applyEvent_batch [OF run, of sq ev "ms_subject msg" p'] ns ap None'
            by (intro maybeComplete_settles) (auto simp: running_def)
          moreover have "handleMessage cfg msg p = maybeCompleteStartup cfg p'"
            using None sq(1) ns Inr ap None' by (simp add: handleMessage_def hasFailed_def)
          moreover have "pr_failed (maybeCompleteStartup cfg p') = None"
            using run' by (simp add: maybeCompleteStartup_def running_def)
          ultimately show ?thesis
            using dec' maybeComplete_running [OF run' o' [unfolded rec]] by (simp add: run_inv_def rec)
        next
          case (Some fe)
          obtain fs err where fe: "fe = (fs, err)" by fastforce
          with a Some have f: "failure_ok (?rs @ [?r]) fs p'" "pr_started p'" "pr_restored p' = c"
            "pr_failed p' = None \<or> pr_failed p' = Some (fs, err) \<and> pr_ended p'" by (simp_all add: applied_def)
          have "handleMessage cfg msg p = fail fs err p'"
            using None sq(1) ns Inr ap Some fe by (simp add: handleMessage_def hasFailed_def)
          moreover have "run_inv cfg m0 c (msgs @ [msg]) (fail fs err p')"
            by (rule failure_run_inv [where p' = p', OF _ f(3) dec', unfolded rec, OF f(1)]) (use f in auto)
          ultimately show ?thesis by simp
        qed
      qed
    qed
  qed
qed

lemma tick_inv:
  assumes inv: "run_inv cfg m0 c msgs p" and log: "ordered_log msgs" and batch: "batch_contract cfg"
  shows "run_inv cfg m0 c msgs (liveTick cfg p)"
proof (cases "pr_failed p")
  case (Some fe)
  obtain fs err where "fe = (fs, err)" by fastforce
  with inv Some have "pr_ended p" by (simp add: run_inv_def)
  with Some have "liveTick cfg p = p"
    by (simp add: liveTick_def flushLiveBatch_def hasFailed_def maybeCompleteStartup_def completeStartupLocked_def)
  with inv show ?thesis by simp
next
  case None
  let ?rs = "records cfg c msgs"
  from inv None have run: "running cfg m0 c ?rs p" and set: "settled p" and dec: "decodable cfg c msgs"
    by (simp_all add: run_inv_def)
  have o: "ordered_records c ?rs" by (rule ordered_records_log [OF log])
  obtain res p' where fl: "flushLiveBatch cfg p = (res, p')" by fastforce
  note f = flushLive_running [OF run o batch]
  show ?thesis
  proof (cases res)
    case None': None
    with f fl have r: "running cfg m0 c ?rs p'" "pr_startup_batch p' = pr_startup_batch p" "pr_target p' = pr_target p"
      by auto
    have "settled (maybeCompleteStartup cfg p')"
      using r set by (intro maybeComplete_settles) (auto simp: running_def settled_def)
    moreover have "pr_failed (maybeCompleteStartup cfg p') = None"
      using r(1) by (simp add: maybeCompleteStartup_def running_def)
    ultimately show ?thesis
      using dec maybeComplete_running [OF r(1) o] fl None' by (simp add: run_inv_def liveTick_def)
  next
    case (Some fe)
    obtain fs err where "fe = (fs, err)" by fastforce
    with Some f fl have a: "failure_ok ?rs fs p'" "pr_failed p' = Some (fs, err)" "pr_started p'" "pr_restored p' = c"
      "pr_ended p'" by auto
    then have "liveTick cfg p = p'"
      using fl by (simp add: liveTick_def maybeCompleteStartup_def completeStartupLocked_def)
    with failure_run_inv [OF a(1,4) dec a(2,3,5)] show ?thesis by simp
  qed
qed

lemma reconcile_inv:
  assumes inv: "run_inv cfg m0 c msgs p" and log: "ordered_log msgs" and batch: "batch_contract cfg"
  shows "run_inv cfg m0 c msgs (reconcileStartup cfg current p)"
proof (cases "pr_failed p = None \<and> \<not> pr_ended p \<and> \<not> fst (startupProgress p) < current")
  case False
  then have "reconcileStartup cfg current p = p" by (auto simp: reconcileStartup_def startupProgress_def)
  with inv show ?thesis by simp
next
  case True
  let ?rs = "records cfg c msgs"
  from inv True have run: "running cfg m0 c ?rs p" and dec: "decodable cfg c msgs"
    by (simp_all add: run_inv_def)
  have o: "ordered_records c ?rs" by (rule ordered_records_log [OF log])
  obtain res p' where fl: "flushStartupBatch cfg p = (res, p')" by fastforce
  note f = flushStartup_running [OF run o batch]
  obtain h where h: "startupProgress p = (h, True)" "\<not> h < current" using True by (simp add: startupProgress_def)
  show ?thesis
  proof (cases res)
    case None
    with f fl have r: "running cfg m0 c ?rs p'" "pr_startup_batch p' = []" "\<not> pr_ended p'" using True by auto
    let ?q = "if pr_last p' < pr_target p' then p'\<lparr>pr_target := pr_last p'\<rparr> else p'"
    have "running cfg m0 c ?rs ?q" using r lower_target_running by auto
    from complete_running [OF this o] have "running cfg m0 c ?rs (fst (completeStartupLocked cfg ?q))" .
    moreover have "settled (fst (completeStartupLocked cfg ?q))"
      using r(1,2) by (simp add: settled_def running_def not_less)
    moreover have "reconcileStartup cfg current p = fst (completeStartupLocked cfg ?q)"
      using fl None h by (simp add: reconcileStartup_def)
    moreover have "pr_failed (fst (completeStartupLocked cfg ?q)) = None"
      using r(1) by (simp add: running_def)
    ultimately show ?thesis using dec by (simp only: run_inv_def option.case)
  next
    case (Some fe)
    obtain fs err where fe: "fe = (fs, err)" by fastforce
    with Some f fl have a: "failure_ok ?rs fs p'" "pr_failed p' = None" "pr_started p'" "pr_restored p' = c"
      by auto
    have "reconcileStartup cfg current p = fail fs err p'"
      using fl Some fe h by (simp add: reconcileStartup_def)
    moreover have "run_inv cfg m0 c msgs (fail fs err p')"
      by (rule failure_run_inv [OF a(1,4) dec]) (use a in auto)
    ultimately show ?thesis by simp
  qed
qed

section \<open>Every run keeps the invariant\<close>

text \<open>What a successful restore leaves: the cutoff is the last applied sequence.\<close>

definition restored_ok :: "(seq \<times> nat) list \<Rightarrow> ('m, 'e, 'x) projector \<Rightarrow> bool" where
  "restored_ok ws p \<longleftrightarrow>
     pr_failed p = None \<and> pr_started p \<and> \<not> pr_ended p \<and> \<not> pr_completed p \<and> pr_startup_batch p = []
     \<and> pr_live_batch p = [] \<and> pr_last p = pr_restored p \<and> waits_inv ws p"

lemma restored_ok_model:
  "restored_ok ws p \<Longrightarrow> restored_ok ws (p\<lparr>pr_model := m\<rparr>)"
  "restored_ok ws p \<Longrightarrow> pr_last p = 0 \<Longrightarrow> restored_ok ws (resetRestoreState (p\<lparr>pr_model := m\<rparr>))"
  "restored_ok ws p \<Longrightarrow> pr_last p = 0 \<Longrightarrow> restored_ok ws (p\<lparr>pr_model := m, pr_restored := 0\<rparr>)"
  by (auto simp: restored_ok_def waits_inv_def resetRestoreState_def)

lemma restored_ok_cold:
  assumes "restored_ok ws p" and "pr_last p = 0" and "cold (resetForColdReplay reset p) = (None, p1)"
  shows "restored_ok ws p1"
  using assms(3) restored_ok_model(2) [OF assms(1,2)] restored_ok_model(2) [OF assms(1,2), of "pr_model p"]
  by (auto simp: cold_def resetForColdReplay_def split: option.splits prod.splits)

lemma restored_ok_advance:
  assumes "restored_ok ws p" and "pr_last p = 0"
  shows "restored_ok ws (advance sq (p\<lparr>pr_model := m, pr_restored := sq\<rparr>))"
proof -
  have "waits_inv ws (p\<lparr>pr_model := m, pr_restored := sq\<rparr>)" using assms(1) by (simp add: restored_ok_def)
  from waits_inv_advance [OF this] show ?thesis using assms by (simp add: restored_ok_def)
qed

lemma restore_restored_ok:
  assumes "restored_ok ws p" and "pr_last p = 0" and "restoreForRun mode target p = (None, p1)"
  shows "restored_ok ws p1"
proof (cases mode)
  case (ColdReplay reset)
  with restored_ok_cold [OF assms(1,2)] assms(3) show ?thesis by (simp add: restoreForRun_def)
next
  case (FromSnapshot src)
  with restored_ok_cold [OF assms(1,2), of "Some (sn_reset src)" p1] restored_ok_advance [OF assms(1,2)]
    restored_ok_cold [OF restored_ok_model(1) [OF assms(1)], of _ "Some (sn_reset src)" p1] assms(2,3)
  show ?thesis
    by (auto simp: restoreForRun_def restoreSnapshotForRun_def split: sum.splits prod.splits if_splits option.splits)
next
  case (FromCheckpoint store)
  with restored_ok_advance [OF assms(1,2)] restored_ok_model [OF assms(1)] assms(2,3) show ?thesis
    by (auto simp: restoreForRun_def restoreCheckpointForRun_def Let_def
        split: sum.splits prod.splits if_splits option.splits checkpoint_error.splits)
qed

lemma start_inv:
  assumes "restored_ok ws p1"
  shows "run_inv cfg (pr_model p1) (pr_restored p1) [] (maybeCompleteStartup cfg (p1\<lparr>pr_target := t\<rparr>))"
proof -
  let ?p = "p1\<lparr>pr_target := t\<rparr>"
  have o: "ordered_records (pr_restored p1) []" by (simp add: ordered_records_def)
  have "running cfg (pr_model p1) (pr_restored p1) [] ?p"
    by (rule runningI [where C = "[]" and SB = "[]" and LB = "[]"])
      (use assms in \<open>auto simp: restored_ok_def split_ok_def reads_def frontier_def\<close>)
  from maybeComplete_running [OF this o]
  have "running cfg (pr_model p1) (pr_restored p1) [] (maybeCompleteStartup cfg ?p)" .
  moreover have "settled (maybeCompleteStartup cfg ?p)"
    using assms by (intro maybeComplete_settles) (auto simp: restored_ok_def)
  moreover have "pr_failed (maybeCompleteStartup cfg ?p) = None"
    using assms by (simp add: maybeCompleteStartup_def restored_ok_def)
  ultimately show ?thesis by (simp add: run_inv_def records_def decodable_def consumed_def)
qed

lemma run_inv_waiters: "run_inv cfg m0 c msgs (p\<lparr>pr_waiters := w\<rparr>) = run_inv cfg m0 c msgs p"
  by (cases "pr_failed p") (simp_all add: run_inv_def running_def split_ok_def settled_def case_prod_unfold)

lemma run_invariant:
  assumes "projector_run cfg m0 c log n ws p" and "ordered_log log" and "batch_contract cfg"
  shows "run_inv cfg m0 c (take n log) p \<and> waits_inv ws p \<and> n \<le> length log"
  using assms
proof (induction rule: projector_run.induct)
  case (run_start mode target m ws p1 wrap p)
  have "restored_ok ws ((fresh_projector m ws)\<lparr>pr_started := True\<rparr>)"
    using run_start.hyps(5-7)
    by (auto simp: restored_ok_def fresh_projector_def newProjector_def waits_inv_def word_gt_0 image_iff)
  then have r: "restored_ok ws p1"
    by (rule restore_restored_ok [OF _ _ run_start.hyps(1)]) (simp add: fresh_projector_def newProjector_def)
  have "p = maybeCompleteStartup cfg (p1\<lparr>pr_target := target\<rparr>)"
    using run_start.hyps(1,4) by (simp add: startRun_def fresh_projector_def newProjector_def)
  with start_inv [OF r] r run_start.hyps(2,3) show ?case by (auto simp: restored_ok_def)
next
  case (run_deliver n ws p)
  have "ordered_log (take n log @ [log ! n])"
    using run_deliver.prems(1) run_deliver.hyps(2)
    by (simp add: take_Suc_conv_app_nth [symmetric] ordered_log_def sorted_wrt_take take_map [symmetric])
      (meson in_set_takeD)
  with run_deliver show ?case
    by (simp add: deliver_inv waits_inv_handleMessage take_Suc_conv_app_nth)
next
  case (run_tick n ws p)
  have "ordered_log (take n log)"
    using run_tick.prems(1) by (simp add: ordered_log_def sorted_wrt_take take_map [symmetric]) (meson in_set_takeD)
  with run_tick show ?case by (simp add: tick_inv waits_inv_tick)
next
  case (run_reconcile n ws p current)
  have "ordered_log (take n log)"
    using run_reconcile.prems(1) by (simp add: ordered_log_def sorted_wrt_take take_map [symmetric]) (meson in_set_takeD)
  with run_reconcile show ?case by (simp add: reconcile_inv waits_inv_reconcile)
next
  case (run_wait n ws p ch sq result p')
  have "run_inv cfg m0 c (take n log) p'"
    using run_wait by (auto simp: waitForSeq_def run_inv_waiters split: option.splits if_splits prod.splits)
  with run_wait waits_inv_register show ?case by blast
next
  case (run_cancel n ws p ch)
  have "run_inv cfg m0 c (take n log) (cancelWait ch p)"
    using run_cancel by (simp add: cancelWait_def run_inv_waiters)
  with run_cancel waits_inv_cancel show ?case by blast
qed

section \<open>Committed records\<close>

text \<open>The committed records of a log: those up to the last applied sequence.\<close>

definition committed ::
  "('m, 'e, 'x) projector_config \<Rightarrow> seq \<Rightarrow> message list \<Rightarrow> ('m, 'e, 'x) projector \<Rightarrow> 'e log_record list" where
  "committed cfg c log p = filter (\<lambda>r. rec_seq r \<le> pr_last p) (records cfg c log)"

lemma filter_split:
  assumes "ordered_records c (C @ D)" and "l = frontier c C"
  shows "filter (\<lambda>r. rec_seq r \<le> l) (C @ D) = C"
proof -
  have "filter (\<lambda>r. rec_seq r \<le> l) C = C"
    using ordered_records_app(3) [OF assms(1)] assms(2) by (simp add: filter_id_conv)
  moreover have "filter (\<lambda>r. rec_seq r \<le> l) D = []"
    using ordered_records_app(2) [OF assms(1)] assms(2) by (auto simp: filter_empty_conv not_le)
  ultimately show ?thesis by simp
qed

lemma records_append: "records cfg c (xs @ ys) = records cfg c xs @ records cfg c ys"
  by (simp add: records_def List.map_filter_def)

lemma committed_reads:
  assumes "running cfg m0 c (records cfg c msgs) p" and "ordered_log (msgs @ rest)"
  shows "reads cfg m0 (committed cfg c (msgs @ rest) p) (pr_completed p) (pr_model p)"
proof -
  from assms(1) obtain C SB LB where s: "records cfg c msgs = C @ SB @ LB" "split_ok cfg m0 c C SB LB p"
    by (auto simp: running_def)
  have "ordered_records c (C @ (SB @ LB @ records cfg c rest))"
    using ordered_records_log [OF assms(2), of c cfg] s(1) by (simp add: records_append)
  then have "committed cfg c (msgs @ rest) p = C"
    using filter_split [of c C "SB @ LB @ records cfg c rest" "pr_last p"] s
    by (simp add: committed_def records_append split_ok_def)
  with s(2) show ?thesis by (simp add: split_ok_def)
qed

text \<open>After a failure, everything consumed before it is applied, whatever else the log holds.\<close>

lemma failed_prefix:
  assumes "run_inv cfg m0 c (take n log) p" and "pr_failed p = Some (fs, err)" and "ordered_log log"
    and "s \<in> consumed cfg log" and "s < fs"
  shows "s \<le> pr_last p"
proof -
  from assms(1,2,5) have b: "\<forall>sq \<in> consumed cfg (take n log). sq < fs \<longrightarrow> sq \<le> pr_last p"
    "\<exists>q \<in> set (take n log). fs \<le> the (ms_seq q)" by (auto simp: run_inv_def)
  from assms(4) obtain msg where msg: "msg \<in> set log" "ms_seq msg = Some s" "consumesSubject cfg (ms_subject msg)"
    by (auto simp: consumed_def)
  have "msg \<in> set (take n log)"
  proof (rule ccontr)
    assume "msg \<notin> set (take n log)"
    with msg(1) have "msg \<in> set (drop n log)" by (metis Un_iff append_take_drop_id set_append)
    moreover have "sorted_wrt (<) (map (\<lambda>m. the (ms_seq m)) (take n log @ drop n log))"
      using assms(3) by (simp add: ordered_log_def)
    ultimately have "the (ms_seq q) < s" if "q \<in> set (take n log)" for q
      using that msg(2) unfolding map_append sorted_wrt_append by force
    with b(2) assms(5) show False by fastforce
  qed
  with msg have "s \<in> consumed cfg (take n log)" by (auto simp: consumed_def)
  with b(1) assms(5) show ?thesis by blast
qed

section \<open>A concrete run\<close>

text \<open>
  A projection that lists its events, in batches of two, and notes when startup completes:
  it is started over two retained records, then a writer waits for the third.
\<close>

definition sample_projection :: "(string list, string, unit) projector_config" where
  "sample_projection =
     \<lparr>pc_subjects = [''evt.>''],
      pc_decode = (\<lambda>d. if d = ''bad'' then Inl () else Inr d),
      pc_prepare = (\<lambda>ev subject sq m. (None, m @ [ev])),
      pc_startup_batch = Some (2, \<lambda>items m. (None, m @ map fst items)),
      pc_live_batch = Some (2, \<lambda>items m. (None, m @ map fst items)),
      pc_complete = (\<lambda>m. m @ [''live''])\<rparr>"

definition sample_record :: "seq \<Rightarrow> string \<Rightarrow> message" where
  "sample_record sq data = \<lparr>ms_subject = ''evt.room.R1'', ms_seq = Some sq, ms_data = data\<rparr>"

definition sample_stream :: "message list" where
  "sample_stream = [sample_record 1 ''a'', sample_record 2 ''b'', sample_record 3 ''c'', sample_record 4 ''bad'']"

definition sample_started :: "(string list, string, unit) projector" where
  "sample_started = snd (startRun sample_projection (ColdReplay None) (Inr 2) (\<lambda>_. ()) (fresh_projector [] []))"

definition sample_waiting :: "(string list, string, unit) projector" where
  "sample_waiting = snd (waitForSeq 7 3
     (handleMessage sample_projection (sample_stream ! 1)
       (handleMessage sample_projection (sample_stream ! 0) sample_started)))"

definition sample_delivered :: "(string list, string, unit) projector" where
  "sample_delivered = handleMessage sample_projection (sample_stream ! 2) sample_waiting"

definition sample_flushed :: "(string list, string, unit) projector" where
  "sample_flushed = liveTick sample_projection sample_delivered"

definition sample_broken :: "(string list, string, unit) projector" where
  "sample_broken = handleMessage sample_projection (sample_stream ! 3) sample_flushed"

lemma sample_contract: "batch_contract sample_projection"
proof -
  have "fold (app sample_projection) rs m = m @ map fst rs" for rs m
    by (induction rs arbitrary: m) (auto simp: app_def sample_projection_def)
  then show ?thesis by (auto simp: batch_contract_def sample_projection_def strip_def comp_def)
qed

lemma sample_ordered: "ordered_log sample_stream"
  by (simp add: ordered_log_def sample_stream_def sample_record_def)

lemma sample_consumed: "consumed sample_projection sample_stream = {1, 2, 3, 4}"
proof -
  have "consumesSubject sample_projection ''evt.room.R1''" by code_simp
  then show ?thesis by (auto simp: consumed_def sample_stream_def sample_record_def)
qed

lemma sample_run_started: "projector_run sample_projection [] 0 sample_stream 0 [] sample_started"
proof -
  let ?p = "(fresh_projector [] [])\<lparr>pr_started := True\<rparr> :: (string list, string, unit) projector"
  have r: "restoreForRun (ColdReplay None) 2 ?p = (None, resetRestoreState ?p)"
    by (simp add: restoreForRun_def cold_def resetForColdReplay_def)
  have "startRun sample_projection (ColdReplay None) (Inr 2) (\<lambda>_. ()) (fresh_projector [] [])
      = (None, sample_started)"
    by (simp add: sample_started_def startRun_def restoreForRun_def cold_def resetForColdReplay_def
        fresh_projector_def newProjector_def)
  from run_start [OF r _ _ this] show ?thesis
    by (simp add: resetRestoreState_def fresh_projector_def newProjector_def)
qed

lemma sample_run_waiting: "projector_run sample_projection [] 0 sample_stream 2 [(3, 7)] sample_waiting"
proof -
  let ?p = "handleMessage sample_projection (sample_stream ! 1)
       (handleMessage sample_projection (sample_stream ! 0) sample_started)"
  have "projector_run sample_projection [] 0 sample_stream (Suc (Suc 0)) [] ?p"
    unfolding One_nat_def by (intro run_deliver sample_run_started) (simp_all add: sample_stream_def)
  then have run: "projector_run sample_projection [] 0 sample_stream 2 [] ?p" by (simp only: numeral_2_eq_2)
  have w: "waitForSeq 7 3 ?p = (fst (waitForSeq 7 3 ?p), sample_waiting)"
    unfolding sample_waiting_def by simp
  have "7 \<notin> snd ` set ([] :: (seq \<times> nat) list)" and "(0 :: seq) < 3" by simp_all
  from run_wait [OF run this(1) w this(2)] show ?thesis .
qed

lemma sample_run_delivered: "projector_run sample_projection [] 0 sample_stream 3 [(3, 7)] sample_delivered"
  using run_deliver [OF sample_run_waiting] by (simp add: sample_delivered_def sample_stream_def numeral_3_eq_3)

lemma sample_run_flushed: "projector_run sample_projection [] 0 sample_stream 3 [(3, 7)] sample_flushed"
  using run_tick [OF sample_run_delivered] by (simp add: sample_flushed_def)

lemma sample_run_broken: "projector_run sample_projection [] 0 sample_stream 4 [(3, 7)] sample_broken"
  using run_deliver [OF sample_run_flushed] by (simp add: sample_broken_def sample_stream_def eval_nat_numeral)

lemma sample_states:
  "WithReadBarrier sample_waiting = Inr (2, [''a'', ''b'', ''live''])"
  "WithReadBarrier sample_delivered = Inr (2, [''a'', ''b'', ''live''])"
  "WithReadBarrier sample_flushed = Inr (3, [''a'', ''b'', ''live'', ''c''])"
  "pr_failed sample_broken = Some (4, DecodeFault ())"
  by code_simp+

section \<open>What readers, writers and the server rely on\<close>





lemma all_committed:
  assumes "running cfg m0 c rs p" and "ordered_records c rs" and "pr_startup_batch p = []" "pr_live_batch p = []"
    and "r \<in> set rs"
  shows "rec_seq r \<le> pr_last p"
proof -
  from assms(1,3,4) obtain C where "rs = C" "split_ok cfg m0 c C [] [] p" by (auto simp: running_def split_ok_def)
  with ordered_records_app(3) [of c C "[]"] assms(2,5) show ?thesis by (simp add: split_ok_def)
qed

lemma restored_below: "running cfg m0 c rs p \<Longrightarrow> ordered_records c rs \<Longrightarrow> c \<le> pr_last p"
  using frontier_ge ordered_records_app(1) by (fastforce simp: running_def split_ok_def)

text \<open>C26 (liveness). No writer hangs. Once the projector has failed, a wait on any consumed
  record of the log returns at once, with the error or with a success that holds, and none
  of those waiting before is still blocked. While it runs and startup is over, every record
  already delivered is applied, or the failure reported, by the next tick of the live timer
  at the latest, however large the batch it waits in may become.\<close>

theorem no_wait_is_stranded:
  assumes "projector_run cfg m0 c log n ws p" and "ordered_log log" and "batch_contract cfg"
  shows "(s \<in> consumed cfg log \<and> pr_failed p \<noteq> None \<longrightarrow>
        fst (waitForSeq ch s p) \<noteq> None \<and> s \<notin> fst ` set (pr_waiters p))
    \<and> (s \<in> consumed cfg (take n log) \<and> pr_ended p \<longrightarrow>
        pr_failed (liveTick cfg p) \<noteq> None \<or> s \<le> pr_last (liveTick cfg p))"
proof (intro conjI impI; elim conjE)
  from run_invariant [OF assms] have inv: "run_inv cfg m0 c (take n log) p" and w: "waits_inv ws p" by simp_all
  {
    assume s: "s \<in> consumed cfg log" and "pr_failed p \<noteq> None"
    then obtain fs err where f: "pr_failed p = Some (fs, err)" by auto
    show "fst (waitForSeq ch s p) \<noteq> None"
      using failed_prefix [OF inv f assms(2) s] f by (auto simp: waitForSeq_def not_le)
    show "s \<notin> fst ` set (pr_waiters p)"
      using failed_prefix [OF inv f assms(2) s] w f by (fastforce simp: waits_inv_def)
  next
    assume s: "s \<in> consumed cfg (take n log)" and e: "pr_ended p"
    show "pr_failed (liveTick cfg p) \<noteq> None \<or> s \<le> pr_last (liveTick cfg p)"
    proof (cases "pr_failed (liveTick cfg p)")
      case None
      have o: "ordered_log (take n log)"
        using assms(2) by (simp add: ordered_log_def sorted_wrt_take take_map [symmetric]) (meson in_set_takeD)
      have t: "pr_last (liveTick cfg p) = pr_last (snd (flushLiveBatch cfg p))"
        "pr_failed (liveTick cfg p) = pr_failed (snd (flushLiveBatch cfg p))"
        by (simp_all add: liveTick_def maybeCompleteStartup_def)
      have "pr_failed p = None"
      proof (rule ccontr)
        assume "pr_failed p \<noteq> None"
        then have "flushLiveBatch cfg p = (None, p)" by (simp add: flushLiveBatch_def hasFailed_def)
        with t(2) None \<open>pr_failed p \<noteq> None\<close> show False by simp
      qed
      with inv have run: "running cfg m0 c (records cfg c (take n log)) p" and dec: "decodable cfg c (take n log)"
        by (simp_all add: run_inv_def)
      note ord = ordered_records_log [OF o, of c cfg]
      obtain res p' where fl: "flushLiveBatch cfg p = (res, p')" by fastforce
      with t(2) None flushLive_running [OF run ord assms(3)] have r:
        "running cfg m0 c (records cfg c (take n log)) p'" "pr_live_batch p' = []" "pr_ended p'"
        using e by (cases res; auto)+
      then have "pr_startup_batch p' = []" by (auto simp: running_def split_ok_def)
      with all_committed [OF r(1) ord _ r(2)] restored_below [OF r(1) ord] dec s t(1) fl show ?thesis
        unfolding decodable_def by (auto intro: order_trans)
    qed simp
  }
qed

lemma no_wait_is_stranded_witness: "fst (waitForSeq 8 4 sample_broken) \<noteq> None"
  using no_wait_is_stranded [OF sample_run_broken sample_ordered sample_contract, of 4 8] sample_states(4)
  by (simp add: sample_consumed)

text \<open>Startup completes. Once the record at the startup target has been
  delivered to a projector that has not failed, startup is complete: the hook has run and the
  callers of \<open>WaitForStartup\<close> are released. If the target is never delivered because it was
  deleted or expired, a reconciliation that finds no matching record beyond the handled ones
  completes startup or reports the failure of the pending batch.\<close>

theorem startup_completes:
  assumes "projector_run cfg m0 c log n ws p" and "ordered_log log" and "batch_contract cfg"
  shows "(pr_failed p = None \<and> pr_target p \<in> consumed cfg (take n log) \<longrightarrow> pr_completed p)
    \<and> (pr_failed p = None \<and> current \<le> fst (startupProgress p) \<longrightarrow>
        pr_failed (reconcileStartup cfg current p) \<noteq> None \<or> pr_completed (reconcileStartup cfg current p))"
proof -
  from run_invariant [OF assms] have inv: "run_inv cfg m0 c (take n log) p" by simp
  have o: "ordered_log (take n log)"
    using assms(2) by (simp add: ordered_log_def sorted_wrt_take take_map [symmetric]) (meson in_set_takeD)
  note ord = ordered_records_log [OF o, of c cfg]
  have first: "pr_completed p" if "pr_failed p = None" "pr_target p \<in> consumed cfg (take n log)"
  proof (rule ccontr)
    assume nc: "\<not> pr_completed p"
    from inv that(1) have run: "running cfg m0 c (records cfg c (take n log)) p" and set: "settled p"
      and dec: "decodable cfg c (take n log)" by (simp_all add: run_inv_def)
    from run nc have ne: "\<not> pr_ended p" by (simp add: running_def)
    from run obtain C SB LB where sp: "records cfg c (take n log) = C @ SB @ LB" "split_ok cfg m0 c C SB LB p"
      by (auto simp: running_def)
    with ne have LB: "LB = []" by (auto simp: split_ok_def)
    from set ne have lt: "pr_last p < pr_target p" by (simp add: settled_def)
    with restored_below [OF run ord] have "\<not> pr_target p \<le> c" by auto
    with dec that(2) have "pr_target p \<in> rec_seq ` set (C @ SB @ LB)" unfolding decodable_def sp(1) by blast
    then obtain q where q: "q \<in> set C \<or> q \<in> set SB" "rec_seq q = pr_target p"
      unfolding LB by (elim imageE) simp
    have "rec_seq r \<noteq> pr_target p" if "r \<in> set C" for r
      using ordered_records_app(3) [of c C "SB @ LB" r] ord sp that lt by (auto simp: split_ok_def)
    moreover have "rec_seq r \<noteq> pr_target p" if r: "r \<in> set SB" for r
    proof -
      from r have ne': "SB \<noteq> []" by auto
      then have "rec_seq (last SB) < pr_target p"
        using set sp(2) by (auto simp: settled_def split_ok_def last_map strip_def)
      moreover have "rec_seq r \<le> rec_seq (last SB)"
        using ordered_records_app(3) [of c "C @ SB" LB r] ord sp(1) r ne' by (simp add: frontier_def)
      ultimately show ?thesis by auto
    qed
    ultimately show False using q by blast
  qed
  have second: "pr_failed (reconcileStartup cfg current p) \<noteq> None \<or> pr_completed (reconcileStartup cfg current p)"
    if f: "pr_failed p = None" "current \<le> fst (startupProgress p)"
  proof (cases "pr_ended p")
    case True
    with inv f(1) have "pr_completed p" by (auto simp: run_inv_def running_def)
    moreover have "reconcileStartup cfg current p = p" using True by (simp add: reconcileStartup_def startupProgress_def)
    ultimately show ?thesis by simp
  next
    case False
    from reconcile_inv [OF inv o assms(3), of current]
    have inv': "run_inv cfg m0 c (take n log) (reconcileStartup cfg current p)" .
    obtain h where h: "startupProgress p = (h, True)" "\<not> h < current"
      using f False by (auto simp: startupProgress_def)
    obtain res p' where fl: "flushStartupBatch cfg p = (res, p')" by fastforce
    from inv f(1) have run: "running cfg m0 c (records cfg c (take n log)) p" by (simp add: run_inv_def)
    show ?thesis
    proof (cases res)
      case None
      with flushStartup_running [OF run ord assms(3)] fl have "pr_started p'" by (simp add: running_def)
      with None fl h have "pr_ended (reconcileStartup cfg current p)"
        by (auto simp: reconcileStartup_def not_less)
      with inv' show ?thesis
        by (cases "pr_failed (reconcileStartup cfg current p)") (auto simp: run_inv_def running_def)
    next
      case (Some fe)
      with fl h show ?thesis by (cases fe) (auto simp: reconcileStartup_def)
    qed
  qed
  from first second show ?thesis by blast
qed

lemma startup_completes_witness: "pr_completed sample_delivered"
proof -
  have "pr_target sample_delivered = 2" "pr_failed sample_delivered = None" by code_simp+
  moreover have "consumesSubject sample_projection ''evt.room.R1''" by code_simp
  ultimately show ?thesis
    using startup_completes [OF sample_run_delivered sample_ordered sample_contract]
    by (simp add: consumed_def sample_stream_def sample_record_def)
qed

end
