(* ===== verification/Component_Projection.thy ===== *)
theory Component_Projection
  imports Projector_Properties
begin

text \<open>
  Several projection models behind one projector
  (\<open>pkg/events/component_projection.go\<close>): every component prepares a record before any
  component changes, and a snapshot is restored for all components or for none. A prepared
  mutation is a function on the model of its component; the models are a list in
  registration order. \<open>server_content_view.go\<close> forwards to these operations.
\<close>

section \<open>Components\<close>

text \<open>\<open>cp_complete\<close> is the identity for a model without a replay hook.\<close>

record ('m, 'e, 'x) component =
  cp_key :: string
  cp_contract :: string
  cp_filters :: "compiled_filter list"
  cp_prepare :: "'e \<Rightarrow> seq \<Rightarrow> 'm \<Rightarrow> 'x + ('m \<Rightarrow> 'm) option"
  cp_snapshot :: "'m \<Rightarrow> 'x + string"
  cp_restore :: "string \<Rightarrow> 'm \<Rightarrow> 'x option \<times> 'm"
  cp_complete :: "'m \<Rightarrow> 'm"

text \<open>The panics of \<open>NewComponentizedProjection\<close>.\<close>

datatype construction_panic = NoSubjects | NoContract | NoComponents | DuplicateKey string

fun duplicateKey :: "string list \<Rightarrow> string fset \<Rightarrow> string option" where
  "duplicateKey [] seen = None"
| "duplicateKey (key # keys) seen = (if key |\<in>| seen then Some key else duplicateKey keys (finsert key seen))"

definition NewComponentizedProjection ::
  "string list \<Rightarrow> string \<Rightarrow> ('m, 'e, 'x) component list
     \<Rightarrow> construction_panic + ('m, 'e, 'x) component list" where
  "NewComponentizedProjection subjects contractID cs =
     (if subjects = [] then Inl NoSubjects
      else if contractID = [] then Inl NoContract
      else if cs = [] then Inl NoComponents
      else case duplicateKey (map cp_key cs) {||} of
        Some key \<Rightarrow> Inl (DuplicateKey key)
      | None \<Rightarrow> Inr cs)"

section \<open>Applying a record\<close>

definition skips :: "('m, 'e, 'x) component \<Rightarrow> string \<Rightarrow> bool" where
  "skips c subject \<longleftrightarrow> subject \<noteq> [] \<and> \<not> matchesAnySubject (cp_filters c) subject"

text \<open>One mutation per component, \<^const>\<open>None\<close> where it skips the record or returns nil.\<close>

fun prepareComponents ::
  "('m, 'e, 'x) component list \<Rightarrow> 'm list \<Rightarrow> 'e \<Rightarrow> string \<Rightarrow> seq
     \<Rightarrow> (string \<times> 'x) + ('m \<Rightarrow> 'm) option list" where
  "prepareComponents (c # cs) (m # ms) ev subject sq =
     (case (if skips c subject then Inr None else cp_prepare c ev sq m) of
        Inl x \<Rightarrow> Inl (cp_key c, x)
      | Inr mutation \<Rightarrow>
          (case prepareComponents cs ms ev subject sq of
             Inl e \<Rightarrow> Inl e
           | Inr mutations \<Rightarrow> Inr (mutation # mutations)))"
| "prepareComponents _ _ ev subject sq = Inr []"

definition commit :: "('m \<Rightarrow> 'm) option \<Rightarrow> 'm \<Rightarrow> 'm" where
  "commit mutation m = (case mutation of None \<Rightarrow> m | Some f \<Rightarrow> f m)"

definition commitAll :: "('m \<Rightarrow> 'm) option list \<Rightarrow> 'm list \<Rightarrow> 'm list" where
  "commitAll mutations ms = map2 commit mutations ms"

text \<open>Preparation and commit, as the projector calls them under its barrier.\<close>

definition applyRecord ::
  "('m, 'e, 'x) component list \<Rightarrow> 'e \<Rightarrow> string \<Rightarrow> seq \<Rightarrow> 'm list \<Rightarrow> (string \<times> 'x) option \<times> 'm list" where
  "applyRecord cs ev subject sq ms =
     (case prepareComponents cs ms ev subject sq of
        Inl e \<Rightarrow> (Some e, ms)
      | Inr mutations \<Rightarrow> (None, commitAll mutations ms))"

definition completeAll :: "('m, 'e, 'x) component list \<Rightarrow> 'm list \<Rightarrow> 'm list" where
  "completeAll cs ms = map2 cp_complete cs ms"

text \<open>The reducer of a model whose \<open>Apply\<close> has no error path: preparation cannot fail.\<close>

definition infallible :: "('e \<Rightarrow> seq \<Rightarrow> 'm \<Rightarrow> 'm) \<Rightarrow> 'e \<Rightarrow> seq \<Rightarrow> 'm \<Rightarrow> 'x + ('m \<Rightarrow> 'm) option" where
  "infallible apply ev sq m = Inr (Some (apply ev sq))"

section \<open>Snapshots\<close>

abbreviation SnapshotStatePartKey :: string where "SnapshotStatePartKey \<equiv> ''state''"

datatype 'x component_error =
    ComponentCount
  | DuplicateComponent string
  | MissingComponent string
  | KeyMismatch string
  | ContractMismatch string
  | PartsMismatch string
  | SnapshotFailed string 'x
  | CaptureFailed string 'x
  | RestoreFailed string 'x "(string \<times> 'x) list"

fun SnapshotComponents ::
  "('m, 'e, 'x) component list \<Rightarrow> 'm list \<Rightarrow> 'x component_error + snapshot_component list" where
  "SnapshotComponents (c # cs) (m # ms) =
     (case cp_snapshot c m of
        Inl x \<Rightarrow> Inl (SnapshotFailed (cp_key c) x)
      | Inr payload \<Rightarrow>
          (case SnapshotComponents cs ms of
             Inl e \<Rightarrow> Inl e
           | Inr rest \<Rightarrow>
               Inr (\<lparr>sc_key = cp_key c, sc_contract = cp_contract c,
                     sc_parts = [(SnapshotStatePartKey, payload)]\<rparr> # rest)))"
| "SnapshotComponents _ _ = Inr []"

definition statePartPayload :: "snapshot_component \<Rightarrow> string \<Rightarrow> string \<Rightarrow> 'x component_error + string" where
  "statePartPayload stored key contractID =
     (if sc_key stored \<noteq> key then Inl (KeyMismatch key)
      else if sc_contract stored \<noteq> contractID then Inl (ContractMismatch key)
      else case sc_parts stored of
        [(part, payload)] \<Rightarrow> if part = SnapshotStatePartKey then Inr payload else Inl (PartsMismatch key)
      | _ \<Rightarrow> Inl (PartsMismatch key))"

definition index_component ::
  "snapshot_component \<Rightarrow> (string, snapshot_component) fmap \<Rightarrow> 'x component_error + (string, snapshot_component) fmap" where
  "index_component stored byKey =
     (if fmlookup byKey (sc_key stored) \<noteq> None then Inl (DuplicateComponent (sc_key stored))
      else Inr (fmupd (sc_key stored) stored byKey))"

text \<open>The rows of the second pass: component, new payload, previous payload, model.\<close>

type_synonym ('m, 'e, 'x) restore_row = "('m, 'e, 'x) component \<times> string \<times> string \<times> 'm"

fun gatherRows ::
  "(string, snapshot_component) fmap \<Rightarrow> ('m, 'e, 'x) component list \<Rightarrow> 'm list
     \<Rightarrow> 'x component_error + ('m, 'e, 'x) restore_row list" where
  "gatherRows byKey (c # cs) (m # ms) =
     (case fmlookup byKey (cp_key c) of
        None \<Rightarrow> Inl (MissingComponent (cp_key c))
      | Some stored \<Rightarrow>
          (case statePartPayload stored (cp_key c) (cp_contract c) of
             Inl e \<Rightarrow> Inl e
           | Inr payload \<Rightarrow>
               (case cp_snapshot c m of
                  Inl x \<Rightarrow> Inl (CaptureFailed (cp_key c) x)
                | Inr previous \<Rightarrow>
                    (case gatherRows byKey cs ms of
                       Inl e \<Rightarrow> Inl e
                     | Inr rows \<Rightarrow> Inr ((c, payload, previous, m) # rows)))))"
| "gatherRows byKey _ _ = Inr []"

definition row_model :: "('m, 'e, 'x) restore_row \<Rightarrow> 'm" where
  "row_model row = (case row of (_, _, _, m) \<Rightarrow> m)"

definition rollbackRow :: "('m, 'e, 'x) restore_row \<Rightarrow> (string \<times> 'x) list \<times> 'm" where
  "rollbackRow row =
     (case row of (c, _, previous, m) \<Rightarrow>
        (case cp_restore c previous m of
           (Some x, m') \<Rightarrow> ([(cp_key c, x)], m')
         | (None, m') \<Rightarrow> ([], m')))"

fun restoreRows ::
  "('m, 'e, 'x) restore_row list \<Rightarrow> ('m, 'e, 'x) restore_row list \<Rightarrow> 'x component_error option \<times> 'm list" where
  "restoreRows done [] = (None, map row_model done)"
| "restoreRows done ((c, payload, previous, m) # rest) =
     (case cp_restore c payload m of
        (None, m') \<Rightarrow> restoreRows (done @ [(c, payload, previous, m')]) rest
      | (Some x, m') \<Rightarrow>
          (let rolled = map rollbackRow (done @ [(c, payload, previous, m')])
           in (Some (RestoreFailed (cp_key c) x (concat (map fst rolled))),
               map snd rolled @ map row_model rest)))"

definition RestoreComponents ::
  "('m, 'e, 'x) component list \<Rightarrow> snapshot_component list \<Rightarrow> 'm list \<Rightarrow> 'x component_error option \<times> 'm list" where
  "RestoreComponents cs stored ms =
     (if length stored \<noteq> length cs then (Some ComponentCount, ms)
      else case fold_res index_component stored fmempty of
        Inl e \<Rightarrow> (Some e, ms)
      | Inr byKey \<Rightarrow>
          (case gatherRows byKey cs ms of
             Inl e \<Rightarrow> (Some e, ms)
           | Inr rows \<Rightarrow> restoreRows [] rows))"

definition ResetComponents ::
  "('m, 'e, 'x) component list \<Rightarrow> 'm list \<Rightarrow> 'x component_error option \<times> 'm list" where
  "ResetComponents cs ms =
     RestoreComponents cs
       (map (\<lambda>c. \<lparr>sc_key = cp_key c, sc_contract = cp_contract c, sc_parts = [(SnapshotStatePartKey, [])]\<rparr>) cs) ms"

section \<open>The content view\<close>

text \<open>
  The configuration of a prepared projector over a componentized projection
  (\<open>NewDecodedPreparedProjector\<close>, which prepares with the delivered subject): no batches,
  preparation and commit as one step under the barrier, the startup hook of every component.
\<close>

definition NewDecodedPreparedProjector ::
  "string list \<Rightarrow> (string \<Rightarrow> (string \<times> 'x) + 'e) \<Rightarrow> ('m, 'e, 'x) component list
     \<Rightarrow> ('m list, 'e, string \<times> 'x) projector_config" where
  "NewDecodedPreparedProjector subjects decode cs =
     \<lparr>pc_subjects = subjects, pc_decode = decode, pc_prepare = applyRecord cs,
      pc_startup_batch = None, pc_live_batch = None, pc_complete = completeAll cs\<rparr>"

text \<open>\<open>newServerContentView\<close>: one view of the whole log.\<close>

definition newServerContentView ::
  "string \<Rightarrow> ('m, 'e, 'x) component list \<Rightarrow> construction_panic + ('m, 'e, 'x) component list" where
  "newServerContentView contractID cs = NewComponentizedProjection [''evt.>''] contractID cs"

section \<open>Isolation\<close>

text \<open>What one component does with a record on its own.\<close>

definition applyOne :: "('m, 'e, 'x) component \<Rightarrow> 'e log_record \<Rightarrow> 'm \<Rightarrow> 'm" where
  "applyOne c r m =
     (case r of (ev, subject, sq) \<Rightarrow>
        if skips c subject then m
        else (case cp_prepare c ev sq m of Inl _ \<Rightarrow> m | Inr mutation \<Rightarrow> commit mutation m))"

lemma prepareComponents_commit:
  assumes "prepareComponents cs ms ev subject sq = Inr mutations" and "length cs = length ms"
  shows "commitAll mutations ms = map2 (\<lambda>c m. applyOne c (ev, subject, sq) m) cs ms"
  using assms
proof (induction cs ms ev subject sq arbitrary: mutations rule: prepareComponents.induct)
  case (1 c cs m ms ev subject sq)
  then show ?case
    by (auto simp: commitAll_def applyOne_def commit_def split: sum.splits if_splits option.splits)
qed (auto simp: commitAll_def)

lemma applyRecord_cases:
  assumes "length cs = length ms"
  shows "applyRecord cs ev subject sq ms =
    (case prepareComponents cs ms ev subject sq of
       Inl e \<Rightarrow> (Some e, ms)
     | Inr _ \<Rightarrow> (None, map2 (\<lambda>c m. applyOne c (ev, subject, sq) m) cs ms))"
  using prepareComponents_commit [OF _ assms] by (auto simp: applyRecord_def split: sum.splits)

lemma prepareComponents_error:
  assumes "length cs = length ms"
  shows "(\<exists>e. prepareComponents cs ms ev subject sq = Inl e) \<longleftrightarrow>
    (\<exists>i < length cs. \<not> skips (cs ! i) subject \<and> (\<exists>x. cp_prepare (cs ! i) ev sq (ms ! i) = Inl x))"
  using assms
proof (induction cs arbitrary: ms)
  case (Cons c cs)
  then obtain m ms' where ms: "ms = m # ms'" "length cs = length ms'" by (cases ms) auto
  show ?case
    using Cons.IH [OF ms(2)] unfolding ms(1)
    by (auto simp: less_Suc_eq_0_disj split: sum.splits if_splits)
qed simp

end
