(* ===== verification/Component_Properties.thy ===== *)
theory Component_Properties
  imports Component_Projection
begin

text \<open>
  Correctness of the componentized projection: the components move together through the log,
  a restore is all or nothing, and a snapshot of the components restores them.
\<close>

section \<open>A log of records\<close>

text \<open>The records in order, up to the first that a component refuses.\<close>

fun replayComponents ::
  "('m, 'e, 'x) component list \<Rightarrow> 'e log_record list \<Rightarrow> 'm list \<Rightarrow> (string \<times> 'x) option \<times> 'm list" where
  "replayComponents cs [] ms = (None, ms)"
| "replayComponents cs ((ev, subject, sq) # rs) ms =
     (case applyRecord cs ev subject sq ms of
        (Some e, ms') \<Rightarrow> (Some e, ms')
      | (None, ms') \<Rightarrow> replayComponents cs rs ms')"

text \<open>Every component on its own, over the same records.\<close>

definition alone ::
  "('m, 'e, 'x) component list \<Rightarrow> 'e log_record list \<Rightarrow> 'm list \<Rightarrow> 'm list" where
  "alone cs rs ms = map2 (\<lambda>c m. fold (applyOne c) rs m) cs ms"

definition refuses :: "('m, 'e, 'x) component \<Rightarrow> 'e log_record \<Rightarrow> 'm \<Rightarrow> bool" where
  "refuses c r m \<longleftrightarrow>
     (case r of (ev, subject, sq) \<Rightarrow> \<not> skips c subject \<and> isl (cp_prepare c ev sq m))"

lemma alone_Nil [simp]: "length cs = length ms \<Longrightarrow> alone cs [] ms = ms"
  by (auto simp: alone_def intro: nth_equalityI)

lemma alone_length [simp]: "length cs = length ms \<Longrightarrow> length (alone cs rs ms) = length ms"
  by (simp add: alone_def)

lemma alone_Cons:
  "length cs = length ms \<Longrightarrow> alone cs (r # rs) ms = alone cs rs (map2 (\<lambda>c m. applyOne c r m) cs ms)"
  by (auto simp: alone_def intro!: nth_equalityI)

lemma refuses_iff:
  assumes "length cs = length ms"
  shows "(\<exists>e. prepareComponents cs ms ev subject sq = Inl e) \<longleftrightarrow>
    (\<exists>i < length cs. refuses (cs ! i) (ev, subject, sq) (ms ! i))"
by (simp only: prepareComponents_error [OF assms] refuses_def isl_def prod.case)

lemma replay_step:
  assumes "length cs = length ms"
  shows "replayComponents cs ((ev, subject, sq) # rs) ms =
    (case prepareComponents cs ms ev subject sq of
       Inl e \<Rightarrow> (Some e, ms)
     | Inr _ \<Rightarrow> replayComponents cs rs (map2 (\<lambda>c m. applyOne c (ev, subject, sq) m) cs ms))"
  by (simp add: applyRecord_cases [OF assms] split: sum.split)

lemma replay_prefix:
  assumes "length cs = length ms" and "replayComponents cs rs ms = (err, ms')"
  obtains n where "n \<le> length rs" and "ms' = alone cs (take n rs) ms"
    and "err = None \<longleftrightarrow> n = length rs"
    and "n < length rs \<Longrightarrow> \<exists>i < length cs. refuses (cs ! i) (rs ! n) (ms' ! i)"
  using assms
proof (induction rs arbitrary: ms thesis)
  case Nil
  then show ?case by simp
next
  case (Cons r rs)
  obtain ev subject sq where r: "r = (ev, subject, sq)" by (cases r) auto
  show ?case
  proof (cases "prepareComponents cs ms ev subject sq")
    case (Inl e)
    with Cons.prems(3) have "err = Some e" "ms' = ms"
      unfolding r replay_step [OF Cons.prems(2)] by auto
    moreover have "\<exists>i < length cs. refuses (cs ! i) r (ms ! i)"
      using refuses_iff [OF Cons.prems(2)] Inl unfolding r by blast
    ultimately show ?thesis using Cons.prems(2) by (intro Cons.prems(1) [of 0]) auto
  next
    case (Inr mutations)
    define ms1 where "ms1 = map2 (\<lambda>c m. applyOne c (ev, subject, sq) m) cs ms"
    have len: "length cs = length ms1" using Cons.prems(2) by (simp add: ms1_def)
    have "replayComponents cs rs ms1 = (err, ms')"
      using Cons.prems(3) Inr unfolding r replay_step [OF Cons.prems(2)] by (simp add: ms1_def)
    from Cons.IH [OF _ len this] obtain n where n: "n \<le> length rs" "ms' = alone cs (take n rs) ms1"
      "err = None \<longleftrightarrow> n = length rs" "n < length rs \<Longrightarrow> \<exists>i < length cs. refuses (cs ! i) (rs ! n) (ms' ! i)"
      by blast
    have "ms' = alone cs (take (Suc n) (r # rs)) ms"
      using n(2) Cons.prems(2) by (simp add: alone_Cons ms1_def r)
    with n show ?thesis by (intro Cons.prems(1) [of "Suc n"]) auto
  qed
qed

text \<open>C27 (safety). The components of one projection see the same prefix of the log: after a
  replay each model is what it would be had the component consumed that prefix alone, and the
  replay stops short of the end exactly when some component refuses the next record, which
  then has changed no component.\<close>

theorem components_move_together:
  assumes "NewComponentizedProjection subjects contract cs = Inr cs" and "length ms = length cs"
    and "replayComponents cs rs ms = (err, ms')"
  shows "\<exists>n \<le> length rs.
    (\<forall>i < length cs. ms' ! i = fold (applyOne (cs ! i)) (take n rs) (ms ! i)) \<and>
    (err = None \<longleftrightarrow> n = length rs) \<and>
    (n < length rs \<longrightarrow> (\<exists>i < length cs. refuses (cs ! i) (rs ! n) (ms' ! i)))"
proof -
  from assms(2) have len: "length cs = length ms" by simp
  from replay_prefix [OF len assms(3)] obtain n where "n \<le> length rs"
    "ms' = alone cs (take n rs) ms" "err = None \<longleftrightarrow> n = length rs"
    "n < length rs \<Longrightarrow> \<exists>i < length cs. refuses (cs ! i) (rs ! n) (ms' ! i)" by blast
  then show ?thesis using len by (intro exI [of _ n]) (auto simp: alone_def)
qed

section \<open>One sequence for the whole view\<close>

lemma infallible_apply:
  assumes "length ms = length cs" and "\<forall>c \<in> set cs. \<forall>m. \<not> refuses c r m"
  shows "app (NewDecodedPreparedProjector subjects decode cs) r ms = alone cs [r] ms"
proof -
  obtain ev subject sq where r: "r = (ev, subject, sq)" by (cases r) auto
  have len: "length cs = length ms" using assms(1) by simp
  have "\<not> (\<exists>e. prepareComponents cs ms ev subject sq = Inl e)"
    unfolding refuses_iff [OF len] using assms(2) by (auto simp: r)
  then obtain mutations where "prepareComponents cs ms ev subject sq = Inr mutations"
    by (cases "prepareComponents cs ms ev subject sq") auto
  then show ?thesis
    by (simp add: app_def r NewDecodedPreparedProjector_def applyRecord_cases [OF len] alone_def)
qed

lemma alone_append: "length ms = length cs \<Longrightarrow> alone cs (rs @ rs') ms = alone cs rs' (alone cs rs ms)"
  by (auto simp: alone_def intro!: nth_equalityI)

lemma infallible_fold:
  assumes "length ms = length cs" and "\<forall>c \<in> set cs. \<forall>r m. \<not> refuses c r m"
  shows "fold (app (NewDecodedPreparedProjector subjects decode cs)) rs ms = alone cs rs ms"
  using assms(1)
proof (induction rs arbitrary: ms)
  case (Cons r rs)
  have "app (NewDecodedPreparedProjector subjects decode cs) r ms = alone cs [r] ms"
    using Cons.prems assms(2) by (intro infallible_apply) blast+
  with Cons show ?case using alone_append [of ms cs "[r]" rs] by simp
qed simp


section \<open>Snapshots\<close>

text \<open>The contract of a focused model: what it serialized restores it, whatever it holds now.\<close>

definition restorable :: "('m, 'e, 'x) component \<Rightarrow> 'm \<Rightarrow> bool" where
  "restorable c m \<longleftrightarrow> (case cp_snapshot c m of
     Inl _ \<Rightarrow> True | Inr payload \<Rightarrow> (\<forall>m'. cp_restore c payload m' = (None, m)))"

lemma duplicateKey_None:
  "duplicateKey ks seen = None \<longleftrightarrow> distinct ks \<and> (\<forall>k \<in> set ks. k |\<notin>| seen)"
  by (induction ks arbitrary: seen) auto

lemma construction_distinct:
  "NewComponentizedProjection subjects contract cs = Inr cs' \<Longrightarrow> cs' = cs \<and> cs \<noteq> [] \<and> distinct (map cp_key cs)"
  by (auto simp: NewComponentizedProjection_def duplicateKey_None split: if_splits option.splits)

text \<open>A row as \<^const>\<open>gatherRows\<close> makes it: the third entry is what the model serialized.\<close>

definition good_row :: "('m, 'e, 'x) restore_row \<Rightarrow> 'm \<Rightarrow> bool" where
  "good_row row m \<longleftrightarrow> (case row of (c, _, previous, _) \<Rightarrow> \<forall>m'. cp_restore c previous m' = (None, m))"

lemma rollback_good: "good_row row m \<Longrightarrow> rollbackRow row = ([], m)"
  by (cases row) (auto simp: good_row_def rollbackRow_def)

lemma rollback_all:
  "list_all2 good_row rows ms \<Longrightarrow> map snd (map rollbackRow rows) = ms"
  by (induction rows ms rule: list_all2_induct) (auto dest: rollback_good)

text \<open>A refused payload undoes the restored components: no model differs from before.\<close>

lemma restoreRows_undo:
  assumes "restoreRows finished rest = (Some e, out)"
    and "list_all2 good_row finished ms0" and "list_all2 good_row rest ms1" and "map row_model rest = ms1"
  shows "out = ms0 @ ms1"
  using assms
proof (induction finished rest arbitrary: ms0 ms1 rule: restoreRows.induct)
  case (2 finished c payload previous m rest)
  then obtain ms2 where ms1: "ms1 = m # ms2" "good_row (c, payload, previous, m) m"
    "list_all2 good_row rest ms2" "map row_model rest = ms2"
    by (auto simp: row_model_def list_all2_Cons1)
  have row: "good_row (c, payload, previous, m') m" for m' using ms1(2) by (simp add: good_row_def)
  obtain r m' where res: "cp_restore c payload m = (r, m')" by fastforce
  show ?case
  proof (cases r)
    case None
    have "list_all2 good_row (finished @ [(c, payload, previous, m')]) (ms0 @ [m])"
      using "2.prems"(2) row by (intro list_all2_appendI) auto
    from "2.IH" [OF res [symmetric] None _ this ms1(3,4)] "2.prems"(1) show ?thesis
      by (simp add: res None ms1(1))
  next
    case (Some x)
    have "map snd (map rollbackRow (finished @ [(c, payload, previous, m')])) = ms0 @ [m]"
      using "2.prems"(2) row by (intro rollback_all list_all2_appendI) auto
    with "2.prems"(1) show ?thesis by (auto simp: res Some Let_def ms1(1,4))
  qed
qed simp

lemma gather_good:
  assumes "gatherRows byKey cs ms = Inr rows" and "list_all2 restorable cs ms"
  shows "list_all2 good_row rows ms \<and> map row_model rows = ms"
  using assms
proof (induction byKey cs ms arbitrary: rows rule: gatherRows.induct)
  case (1 byKey c cs m ms)
  then show ?case
    by (auto simp: good_row_def row_model_def restorable_def split: option.splits sum.splits)
qed auto

text \<open>C29 (error). A snapshot is installed for all components or for none: when restoring
  reports an error - a wrong count, a duplicate or missing component, a wrong contract or
  part, a model that cannot be captured or a payload that a model rejects halfway - every
  model, given that it restores what it serialized itself, is the one from before.\<close>

theorem restore_all_or_nothing:
  assumes "list_all2 restorable cs ms" and "RestoreComponents cs stored ms = (Some e, ms')"
  shows "ms' = ms"
proof (cases "length stored = length cs")
  case True
  with assms(2) consider "ms' = ms"
    | byKey rows where "gatherRows byKey cs ms = Inr rows" "restoreRows [] rows = (Some e, ms')"
    by (auto simp: RestoreComponents_def split: sum.splits)
  then show ?thesis
  proof cases
    case 2
    with gather_good [OF 2(1) assms(1)] show ?thesis
      using restoreRows_undo [OF 2(2), of "[]" ms] by simp
  qed
qed (use assms(2) in \<open>simp add: RestoreComponents_def\<close>)

section \<open>Round trip\<close>

definition stored_of :: "('m, 'e, 'x) component \<Rightarrow> string \<Rightarrow> snapshot_component" where
  "stored_of c payload =
     \<lparr>sc_key = cp_key c, sc_contract = cp_contract c, sc_parts = [(SnapshotStatePartKey, payload)]\<rparr>"

lemma snapshot_stored:
  assumes "SnapshotComponents cs ms = Inr stored" and "length cs = length ms"
  obtains payloads where "length payloads = length cs" and "stored = map2 stored_of cs payloads"
    and "\<And>i. i < length cs \<Longrightarrow> cp_snapshot (cs ! i) (ms ! i) = Inr (payloads ! i)"
  using assms
proof (induction cs ms arbitrary: stored thesis rule: SnapshotComponents.induct)
  case (1 c cs m ms)
  from "1.prems"(2) obtain payload rest where p: "cp_snapshot c m = Inr payload"
    "SnapshotComponents cs ms = Inr rest" "stored = stored_of c payload # rest"
    by (auto simp: stored_of_def split: sum.splits)
  from "1.prems"(3) have "length cs = length ms" by simp
  from "1.IH" [OF p(1) _ p(2) this] obtain payloads where
    "length payloads = length cs" "rest = map2 stored_of cs payloads"
    "\<And>i. i < length cs \<Longrightarrow> cp_snapshot (cs ! i) (ms ! i) = Inr (payloads ! i)" by blast
  with p show ?case
    by (intro "1.prems"(1) [of "payload # payloads"]) (auto simp: nth_Cons split: nat.split)
qed auto

lemma index_stored:
  fixes cs :: "('m, 'e, 'x) component list"
  assumes "length payloads = length cs" and "distinct (map cp_key cs)"
    and "\<And>c. c \<in> set cs \<Longrightarrow> fmlookup byKey0 (cp_key c) = None"
  obtains byKey where "fold_res index_component (map2 stored_of cs payloads) byKey0 = (Inr byKey :: 'x component_error + _)"
    and "\<And>i. i < length cs \<Longrightarrow> fmlookup byKey (cp_key (cs ! i)) = Some (stored_of (cs ! i) (payloads ! i))"
    and "\<And>k. k \<notin> set (map cp_key cs) \<Longrightarrow> fmlookup byKey k = fmlookup byKey0 k"
  using assms
proof (induction cs arbitrary: payloads byKey0 thesis)
  case Nil
  show ?case by (rule Nil.prems(1) [of byKey0]) simp_all
next
  case (Cons c cs)
  from Cons.prems(2) obtain d ds where ds: "payloads = d # ds" "length ds = length cs" by (cases payloads) auto
  define byKey1 where "byKey1 = fmupd (cp_key c) (stored_of c d) byKey0"
  have new: "fmlookup byKey1 (cp_key c') = None" if "c' \<in> set cs" for c'
    using that Cons.prems(3,4) by (auto simp: byKey1_def)
  have dist: "distinct (map cp_key cs)" using Cons.prems(3) by simp
  obtain byKey where b:
    "fold_res index_component (map2 stored_of cs ds) byKey1 = (Inr byKey :: 'x component_error + _)"
    "\<And>i. i < length cs \<Longrightarrow> fmlookup byKey (cp_key (cs ! i)) = Some (stored_of (cs ! i) (ds ! i))"
    "\<And>k. k \<notin> set (map cp_key cs) \<Longrightarrow> fmlookup byKey k = fmlookup byKey1 k"
    by (rule Cons.IH [OF _ ds(2) dist new]) (rule that)
  show ?case
  proof (rule Cons.prems(1) [of byKey])
    show "fold_res index_component (map2 stored_of (c # cs) payloads) byKey0 = (Inr byKey :: 'x component_error + _)"
      using b(1) Cons.prems(4) [of c] by (simp add: ds(1) index_component_def stored_of_def byKey1_def)
    show "fmlookup byKey (cp_key ((c # cs) ! i)) = Some (stored_of ((c # cs) ! i) (payloads ! i))"
      if "i < length (c # cs)" for i
      using that b(2) b(3) [of "cp_key c"] Cons.prems(3)
      by (auto simp: ds(1) nth_Cons byKey1_def split: nat.split)
    show "fmlookup byKey k = fmlookup byKey0 k" if "k \<notin> set (map cp_key (c # cs))" for k
      using that b(3) [of k] by (auto simp: byKey1_def)
  qed
qed

lemma gather_stored:
  assumes "length payloads = length cs" and "length ms = length cs"
    and "\<And>i. i < length cs \<Longrightarrow> fmlookup byKey (cp_key (cs ! i)) = Some (stored_of (cs ! i) (payloads ! i))"
    and "\<And>i. i < length cs \<Longrightarrow> \<not> isl (cp_snapshot (cs ! i) (ms ! i))"
  obtains rows where "gatherRows byKey cs ms = Inr rows"
    and "map (\<lambda>(c, payload, _, m). (c, payload, m)) rows = zip cs (zip payloads ms)"
  using assms
proof (induction cs arbitrary: payloads ms thesis)
  case (Cons c cs)
  from Cons.prems(2,3) obtain d ds m ms' where l: "payloads = d # ds" "ms = m # ms'"
    "length ds = length cs" "length ms' = length cs" by (cases payloads; cases ms) auto
  from Cons.prems(5) [of 0] obtain previous where p: "cp_snapshot c m = Inr previous"
    by (cases "cp_snapshot c m") (auto simp: l(2))
  have look: "fmlookup byKey (cp_key (cs ! i)) = Some (stored_of (cs ! i) (ds ! i))" if "i < length cs" for i
    using Cons.prems(4) [of "Suc i"] that by (simp add: l)
  have snap: "\<not> isl (cp_snapshot (cs ! i) (ms' ! i))" if "i < length cs" for i
    using Cons.prems(5) [of "Suc i"] that by (simp add: l)
  obtain rows where r: "gatherRows byKey cs ms' = Inr rows"
    "map (\<lambda>(c, payload, _, m). (c, payload, m)) rows = zip cs (zip ds ms')"
    by (rule Cons.IH [OF _ l(3,4) look snap]) (rule that)
  show ?case
    using r p Cons.prems(4) [of 0]
    by (intro Cons.prems(1) [of "(c, d, previous, m) # rows"]) (auto simp: l statePartPayload_def stored_of_def)
qed simp

lemma restore_succeeds:
  assumes "map (\<lambda>(c, payload, _, m). (c, payload, m)) rows = zip cs (zip payloads ms)"
    and "length payloads = length cs" and "length ms = length cs" and "length target = length cs"
    and "\<And>i m'. i < length cs \<Longrightarrow> cp_restore (cs ! i) (payloads ! i) m' = (None, target ! i)"
  shows "restoreRows finished rows = (None, map row_model finished @ target)"
  using assms
proof (induction rows arbitrary: finished cs payloads ms target)
  case (Cons row rows)
  obtain c d previous m where row: "row = (c, d, previous, m)" by (cases row) auto
  from Cons.prems(1-4) obtain cs' ds' ms' t ts where l: "cs = c # cs'" "payloads = d # ds'" "ms = m # ms'"
    "target = t # ts"
    by (cases cs; cases payloads; cases ms; cases target) (auto simp: row)
  have "cp_restore c d m = (None, t)" using Cons.prems(5) [of 0] by (simp add: l)
  moreover have "restoreRows (finished @ [(c, d, previous, t)]) rows
      = (None, map row_model (finished @ [(c, d, previous, t)]) @ ts)"
    using Cons.prems by (intro Cons.IH [where cs = cs' and payloads = ds' and ms = ms']) (fastforce simp: l row)+
  ultimately show ?case by (simp add: row l row_model_def)
qed (auto dest: sym)

text \<open>A snapshot of the components, taken in one process and restored over
  whatever a later process holds, succeeds and gives every component the model it had, when
  each model restores what it serialized.\<close>

theorem component_snapshot_roundtrip:
  fixes cs :: "('m, 'e, 'x) component list"
  assumes "NewComponentizedProjection subjects contract cs = Inr cs"
    and "length ms = length cs" and "length now = length cs"
    and "list_all2 restorable cs ms" and "list_all2 (\<lambda>c m. \<not> isl (cp_snapshot c m)) cs now"
    and "SnapshotComponents cs ms = Inr stored"
  shows "RestoreComponents cs stored now = (None, ms)"
proof -
  from assms(2) have "length cs = length ms" by simp
  from snapshot_stored [OF assms(6) this] obtain payloads where p: "length payloads = length cs"
    "stored = map2 stored_of cs payloads"
    "\<And>i. i < length cs \<Longrightarrow> cp_snapshot (cs ! i) (ms ! i) = Inr (payloads ! i)" by blast
  have "distinct (map cp_key cs)" using construction_distinct [OF assms(1)] by simp
  then obtain byKey where b: "fold_res index_component (map2 stored_of cs payloads) fmempty = (Inr byKey :: 'x component_error + _)"
    "\<And>i. i < length cs \<Longrightarrow> fmlookup byKey (cp_key (cs ! i)) = Some (stored_of (cs ! i) (payloads ! i))"
    by (rule index_stored [OF p(1), of fmempty]) (simp, rule that)
  have now: "\<not> isl (cp_snapshot (cs ! i) (now ! i))" if "i < length cs" for i
    using list_all2_nthD [OF assms(5) that] by simp
  have restored: "cp_restore (cs ! i) (payloads ! i) m' = (None, ms ! i)" if "i < length cs" for i m'
    using list_all2_nthD [OF assms(4) that] p(3) [OF that] by (simp add: restorable_def)
  from gather_stored [OF p(1) assms(3) b(2) now] obtain rows where r: "gatherRows byKey cs now = Inr rows"
    "map (\<lambda>(c, payload, _, m). (c, payload, m)) rows = zip cs (zip payloads now)" by blast
  from restore_succeeds [OF r(2) p(1) assms(3,2) restored, of "[]"] have "restoreRows [] rows = (None, ms)" by simp
  then show ?thesis by (simp add: RestoreComponents_def p(1,2) b(1) r(1))
qed

section \<open>A concrete view\<close>

text \<open>Two components, on every subject of the log and on the room subjects. Both refuse the
  event and the payload \<open>''bad''\<close>; a refused payload leaves a model half restored.\<close>

definition sample_component :: "string \<Rightarrow> string \<Rightarrow> (string, string, unit) component" where
  "sample_component key pattern =
     \<lparr>cp_key = key, cp_contract = ''v1'', cp_filters = [compileSubjectFilter pattern],
      cp_prepare = (\<lambda>ev sq m. if ev = ''bad'' then Inl () else Inr (Some (\<lambda>m. m @ ev))),
      cp_snapshot = (\<lambda>m. Inr m),
      cp_restore = (\<lambda>payload m. if payload = ''bad'' then (Some (), ''half'') else (None, payload)),
      cp_complete = (\<lambda>m. m)\<rparr>"

definition sample_view :: "(string, string, unit) component list" where
  "sample_view = [sample_component ''all'' ''evt.>'', sample_component ''room'' ''evt.room.*'']"

definition sample_log :: "string log_record list" where
  "sample_log = [(''a'', ''evt.user.u'', 1), (''b'', ''evt.room.r'', 2), (''bad'', ''evt.room.r'', 3)]"

lemma sample_view_built: "NewComponentizedProjection [''evt.>''] ''view'' sample_view = Inr sample_view"
  by (simp add: NewComponentizedProjection_def sample_view_def sample_component_def)

lemma sample_view_restorable: "list_all2 restorable sample_view [''p'', ''q'']"
  by (simp add: sample_view_def sample_component_def restorable_def)

lemma components_move_together_witness:
  "\<exists>n < 3. (\<forall>i < 2. [''ab'', ''b''] ! i = fold (applyOne (sample_view ! i)) (take n sample_log) ([[], []] ! i)) \<and>
     (\<exists>i < 2. refuses (sample_view ! i) (sample_log ! n) ([''ab'', ''b''] ! i))"
proof -
  have "replayComponents sample_view sample_log [[], []] = (Some (''all'', ()), [''ab'', ''b''])"
    by code_simp
  moreover have "length [[], []] = length sample_view" "length sample_view = 2" "length sample_log = 3"
    by (simp_all add: sample_view_def sample_log_def)
  ultimately show ?thesis
    using components_move_together [OF sample_view_built, of "[[], []]" sample_log] by force
qed

lemma restore_all_or_nothing_witness:
  "snd (RestoreComponents sample_view
     [\<lparr>sc_key = ''all'', sc_contract = ''v1'', sc_parts = [(''state'', ''x'')]\<rparr>,
      \<lparr>sc_key = ''room'', sc_contract = ''v1'', sc_parts = [(''state'', ''bad'')]\<rparr>] [''p'', ''q'']) = [''p'', ''q'']"
proof -
  have "RestoreComponents sample_view
     [\<lparr>sc_key = ''all'', sc_contract = ''v1'', sc_parts = [(''state'', ''x'')]\<rparr>,
      \<lparr>sc_key = ''room'', sc_contract = ''v1'', sc_parts = [(''state'', ''bad'')]\<rparr>] [''p'', ''q'']
     = (Some (RestoreFailed ''room'' () []), [''p'', ''q''])"
    by code_simp
  from restore_all_or_nothing [OF sample_view_restorable this] this show ?thesis by simp
qed

lemma component_snapshot_roundtrip_witness:
  "\<exists>stored. SnapshotComponents sample_view [''p'', ''q''] = Inr stored \<and>
     RestoreComponents sample_view stored [''x'', ''y''] = (None, [''p'', ''q''])"
proof -
  have two: "length [a, b] = length sample_view" for a b :: string by (simp add: sample_view_def)
  have snaps: "list_all2 (\<lambda>c m. \<not> isl (cp_snapshot c m)) sample_view [''x'', ''y'']"
    by (simp add: sample_view_def sample_component_def)
  have "\<exists>stored. SnapshotComponents sample_view [''p'', ''q''] = Inr stored"
    by (simp add: sample_view_def sample_component_def)
  then obtain stored where stored: "SnapshotComponents sample_view [''p'', ''q''] = Inr stored" by blast
  from component_snapshot_roundtrip [OF sample_view_built two two sample_view_restorable snaps this] stored
  show ?thesis by blast
qed

text \<open>A view without refusals, running over the log of the sample projector.\<close>

definition sample_total :: "(string, string, unit) component list" where
  "sample_total = map (\<lambda>c. c\<lparr>cp_prepare := infallible (\<lambda>ev sq m. m @ ev)\<rparr>) sample_view"

definition sample_total_start :: "(string list, string, string \<times> unit) projector" where
  "sample_total_start = snd (startRun (NewDecodedPreparedProjector [''evt.>''] Inr sample_total) (ColdReplay None)
     (Inr 0) (\<lambda>_. (''run'', ())) (fresh_projector [[], []] []))"

definition sample_total_messages :: "message list" where
  "sample_total_messages =
     [\<lparr>ms_subject = ''evt.user.u'', ms_seq = Some 1, ms_data = ''a''\<rparr>,
      \<lparr>ms_subject = ''evt.room.r'', ms_seq = Some 2, ms_data = ''b''\<rparr>]"

lemma sample_total_run:
  "projector_run (NewDecodedPreparedProjector [''evt.>''] Inr sample_total) [[], []] 0 sample_total_messages 2 []
     (handleMessage (NewDecodedPreparedProjector [''evt.>''] Inr sample_total) (sample_total_messages ! 1)
       (handleMessage (NewDecodedPreparedProjector [''evt.>''] Inr sample_total) (sample_total_messages ! 0) sample_total_start))"
  (is "projector_run ?cfg _ _ _ _ _ (handleMessage _ _ ?p1)")
proof -
  have start: "projector_run ?cfg [[], []] 0 sample_total_messages 0 [] sample_total_start"
  proof -
    let ?p = "(fresh_projector [[], []] [])\<lparr>pr_started := True\<rparr> :: (string list, string, string \<times> unit) projector"
    have r: "restoreForRun (ColdReplay None) 0 ?p = (None, resetRestoreState ?p)"
      by (simp add: restoreForRun_def cold_def resetForColdReplay_def)
    have "startRun ?cfg (ColdReplay None) (Inr 0) (\<lambda>_. (''run'', ())) (fresh_projector [[], []] [])
        = (None, sample_total_start)"
      by (simp add: sample_total_start_def startRun_def restoreForRun_def cold_def resetForColdReplay_def
          fresh_projector_def newProjector_def)
    from run_start [OF r _ _ this] show ?thesis
      by (simp add: resetRestoreState_def fresh_projector_def newProjector_def)
  qed
  have "projector_run ?cfg [[], []] 0 sample_total_messages (Suc 0) [] ?p1"
    by (rule run_deliver [OF start]) (simp add: sample_total_messages_def)
  from run_deliver [OF this] show ?thesis by (simp add: sample_total_messages_def numeral_2_eq_2)
qed


end
