(* ===== verification/Event_Log.thy ===== *)
theory Event_Log
  imports Subject_Filter
begin

text \<open>
  Guarded writes to the event log (\<open>pkg/events/expectation.go\<close>, \<open>encoded_event_log.go\<close>,
  \<open>typed_event_log.go\<close>): the optimistic-concurrency guard of a write, its encoding as publish
  options and batch headers, single and atomic batch appends, and the tails the guards name.

  JetStream is a parameter, a record of the requests the code makes. Every request takes and
  returns a state: the stream, the projections and whatever other writers do meanwhile, so
  the interleaving with other processes is in the parameter. A header or option carries its
  number, not the number's decimal text; an acknowledgement is the decoded JSON envelope.
\<close>

section \<open>Guards\<close>

datatype subjectGuardKind = NoSubjectGuard | OwnSubjectGuard | FilterGuard

record expectation =
  ex_subject :: subjectGuardKind
  ex_filter :: string
  ex_seq :: seq
  ex_stream :: bool
  ex_streamSeq :: seq

definition noExpectation :: expectation where
  "noExpectation = \<lparr>ex_subject = NoSubjectGuard, ex_filter = [], ex_seq = 0, ex_stream = False, ex_streamSeq = 0\<rparr>"

definition ExpectSubjectSeq :: "seq \<Rightarrow> expectation" where
  "ExpectSubjectSeq sq = noExpectation\<lparr>ex_subject := OwnSubjectGuard, ex_seq := sq\<rparr>"

definition ExpectFilterSeq :: "string \<Rightarrow> seq \<Rightarrow> expectation" where
  "ExpectFilterSeq f sq = noExpectation\<lparr>ex_subject := FilterGuard, ex_filter := f, ex_seq := sq\<rparr>"

definition AndStreamSeq :: "expectation \<Rightarrow> seq \<Rightarrow> expectation" where
  "AndStreamSeq e sq = e\<lparr>ex_stream := True, ex_streamSeq := sq\<rparr>"

definition ExpectStreamSeq :: "seq \<Rightarrow> expectation" where
  "ExpectStreamSeq sq = noExpectation\<lparr>ex_stream := True, ex_streamSeq := sq\<rparr>"

definition isZeroGuard :: "expectation \<Rightarrow> bool" where
  "isZeroGuard e \<longleftrightarrow> ex_subject e = NoSubjectGuard \<and> \<not> ex_stream e"

definition forSubject :: "expectation \<Rightarrow> string \<Rightarrow> expectation" where
  "forSubject e subject =
     (if ex_subject e = FilterGuard \<and> ex_filter e = subject
      then e\<lparr>ex_subject := OwnSubjectGuard, ex_filter := []\<rparr> else e)"

definition guardCount :: "expectation \<Rightarrow> nat" where
  "guardCount e = (if ex_subject e \<noteq> NoSubjectGuard then 1 else 0) + (if ex_stream e then 1 else 0)"

section \<open>Errors\<close>

datatype conflict_site =
    SubjectAndStream
  | StreamAt seq
  | FilterAt string seq
  | SubjectAt string seq
  | BatchGuards

text \<open>An error of the client library: a key-value error, a numbered API error, any other.\<close>

datatype 'x client_error = KeyExists | KeyRevisionMismatch | APIError nat | ClientError 'x

datatype 'x log_error =
    ErrConflict conflict_site
  | ErrMissingOCC
  | ErrInvalidOCC
  | ErrInvalidEncodedRecord
  | ErrDuplicateBatchMessageID string
  | PublishFailed "'x client_error"
  | DecodeAckFailed
  | ServerFailed string nat
  | NoBatchID 'x
  | ReadFailed 'x
  | EncodeFailed 'x
  | AtBatchEntry nat "'x log_error"
  | AtBatchCommit "'x log_error"

text \<open>\<open>errors.Is(err, ErrConflict)\<close>: wrapping keeps it.\<close>

fun isConflict :: "'x log_error \<Rightarrow> bool" where
  "isConflict (ErrConflict _) = True"
| "isConflict (AtBatchEntry _ e) = isConflict e"
| "isConflict (AtBatchCommit e) = isConflict e"
| "isConflict _ = False"

abbreviation JSErrCodeStreamWrongLastSequence :: nat where "JSErrCodeStreamWrongLastSequence \<equiv> 10071"
abbreviation JSErrCodeStreamWrongLastSequenceConstant :: nat where "JSErrCodeStreamWrongLastSequenceConstant \<equiv> 10164"
abbreviation jetStreamDuplicateBatchMessageIDErrorCode :: nat where "jetStreamDuplicateBatchMessageIDErrorCode \<equiv> 10201"

fun isWrongLastSequence :: "'x client_error \<Rightarrow> bool" where
  "isWrongLastSequence (APIError code) \<longleftrightarrow>
     code = JSErrCodeStreamWrongLastSequence \<or> code = JSErrCodeStreamWrongLastSequenceConstant"
| "isWrongLastSequence _ \<longleftrightarrow> False"

definition isSequenceConflict :: "'x client_error \<Rightarrow> bool" where
  "isSequenceConflict err \<longleftrightarrow> err = KeyExists \<or> err = KeyRevisionMismatch \<or> isWrongLastSequence err"

definition expect_validate :: "expectation \<Rightarrow> 'x log_error option" where
  "expect_validate e =
     (if isZeroGuard e then Some ErrMissingOCC
      else if ex_subject e = FilterGuard \<and> ex_filter e = [] then Some ErrInvalidOCC
      else None)"

definition expect_conflict :: "expectation \<Rightarrow> string \<Rightarrow> 'x log_error" where
  "expect_conflict e subject =
     ErrConflict
       (if ex_subject e \<noteq> NoSubjectGuard \<and> ex_stream e then SubjectAndStream
        else if ex_stream e then StreamAt (ex_streamSeq e)
        else if ex_subject e = FilterGuard then FilterAt (ex_filter e) (ex_seq e)
        else SubjectAt subject (ex_seq e))"

section \<open>Requests\<close>

datatype publish_opt =
    WithExpectLastSequencePerSubject seq
  | WithExpectLastSequenceForSubject seq string
  | WithExpectLastSequence seq
  | WithMsgID string
  | WithMsgTTL int

definition publishOpts :: "expectation \<Rightarrow> publish_opt list" where
  "publishOpts e =
     (case ex_subject e of
        OwnSubjectGuard \<Rightarrow> [WithExpectLastSequencePerSubject (ex_seq e)]
      | FilterGuard \<Rightarrow> [WithExpectLastSequenceForSubject (ex_seq e) (ex_filter e)]
      | NoSubjectGuard \<Rightarrow> [])
     @ (if ex_stream e then [WithExpectLastSequence (ex_streamSeq e)] else [])"

datatype header =
    BatchId string
  | BatchSequence seq
  | BatchCommit
  | ExpectedLastSubjSeq seq
  | ExpectedLastSubjSeqSubj string
  | ExpectedLastSeq seq
  | MsgId string
  | MsgTTL int

definition setHeaders :: "expectation \<Rightarrow> header list" where
  "setHeaders e =
     (case ex_subject e of
        OwnSubjectGuard \<Rightarrow> [ExpectedLastSubjSeq (ex_seq e)]
      | FilterGuard \<Rightarrow> [ExpectedLastSubjSeq (ex_seq e), ExpectedLastSubjSeqSubj (ex_filter e)]
      | NoSubjectGuard \<Rightarrow> [])
     @ (if ex_stream e then [ExpectedLastSeq (ex_streamSeq e)] else [])"

record encoded_record =
  er_id :: string
  er_data :: string
  er_ttl :: int

record batch_entry =
  be_subject :: string
  be_record :: encoded_record
  be_expect :: expectation

record batch_msg =
  bm_subject :: string
  bm_headers :: "header list"
  bm_data :: string

record pub_ack =
  pa_error :: "(nat \<times> string) option"
  pa_seq :: seq

datatype ack_reply = EmptyReply | MalformedReply | Reply pub_ack

record ('s, 'x) broker =
  br_publish :: "string \<Rightarrow> string \<Rightarrow> publish_opt list \<Rightarrow> 's \<Rightarrow> ('x client_error + seq \<times> bool) \<times> 's"
  br_request :: "batch_msg \<Rightarrow> 's \<Rightarrow> ('x + ack_reply) \<times> 's"
  br_last_msg :: "string \<Rightarrow> 's \<Rightarrow> ('x + seq option) \<times> 's"
  br_last_seq :: "'s \<Rightarrow> ('x + seq) \<times> 's"
  br_random :: "'s \<Rightarrow> ('x + string) \<times> 's"
  br_pause :: "nat \<Rightarrow> 's \<Rightarrow> 'x option \<times> 's"

section \<open>Tails\<close>

definition LastStreamSeq :: "('s, 'x) broker \<Rightarrow> 's \<Rightarrow> ('x log_error + seq) \<times> 's" where
  "LastStreamSeq br s =
     (case br_last_seq br s of (Inl x, s') \<Rightarrow> (Inl (ReadFailed x), s') | (Inr sq, s') \<Rightarrow> (Inr sq, s'))"

text \<open>A subject without a message has the tail zero.\<close>

definition lastSubjectSeq :: "('s, 'x) broker \<Rightarrow> string \<Rightarrow> 's \<Rightarrow> ('x log_error + seq) \<times> 's" where
  "lastSubjectSeq br subject s =
     (case br_last_msg br subject s of
        (Inr (Some sq), s') \<Rightarrow> (Inr sq, s')
      | (Inr None, s') \<Rightarrow> (Inr 0, s')
      | (Inl x, s') \<Rightarrow> (Inl (ReadFailed x), s'))"

record stream_position =
  sp_filter :: string
  sp_seq :: seq

definition SubjectPosition :: "string \<Rightarrow> seq \<Rightarrow> stream_position" where
  "SubjectPosition subjectFilter sq = \<lparr>sp_filter = subjectFilter, sp_seq = sq\<rparr>"

definition position_isZero :: "stream_position \<Rightarrow> bool" where
  "position_isZero p \<longleftrightarrow> sp_seq p = 0"

definition LastSubjectPosition ::
  "('s, 'x) broker \<Rightarrow> string \<Rightarrow> 's \<Rightarrow> ('x log_error + stream_position) \<times> 's" where
  "LastSubjectPosition br f s =
     (case lastSubjectSeq br f s of
        (Inl e, s') \<Rightarrow> (Inl e, s')
      | (Inr sq, s') \<Rightarrow> (Inr (SubjectPosition f sq), s'))"

definition LastSubjectSeq :: "('s, 'x) broker \<Rightarrow> string \<Rightarrow> 's \<Rightarrow> ('x log_error + seq) \<times> 's" where
  "LastSubjectSeq br f s =
     (case LastSubjectPosition br f s of
        (Inl e, s') \<Rightarrow> (Inl e, s')
      | (Inr pos, s') \<Rightarrow> (Inr (sp_seq pos), s'))"

section \<open>Single records\<close>

definition validateEncodedRecord :: "encoded_record \<Rightarrow> 'x log_error option" where
  "validateEncodedRecord r =
     (if er_id r = [] then Some ErrInvalidEncodedRecord
      else if er_ttl r < 0 then Some ErrInvalidEncodedRecord
      else None)"

definition publish ::
  "('s, 'x) broker \<Rightarrow> string \<Rightarrow> encoded_record \<Rightarrow> expectation \<Rightarrow> 's
     \<Rightarrow> ('x log_error + seq \<times> bool) \<times> 's" where
  "publish br subject r expect s =
     (let e = forSubject expect subject;
          opts = publishOpts e @ [WithMsgID (er_id r)] @ (if 0 < er_ttl r then [WithMsgTTL (er_ttl r)] else [])
      in case br_publish br subject (er_data r) opts s of
           (Inr (sq, duplicate), s') \<Rightarrow> (Inr (sq, duplicate), s')
         | (Inl err, s') \<Rightarrow>
             (Inl (if isSequenceConflict err then expect_conflict e subject else PublishFailed err), s'))"

definition AppendEventually ::
  "('s, 'x) broker \<Rightarrow> string \<Rightarrow> encoded_record \<Rightarrow> 's \<Rightarrow> ('x log_error + seq) \<times> 's" where
  "AppendEventually br subject r s =
     (case validateEncodedRecord r of
        Some err \<Rightarrow> (Inl err, s)
      | None \<Rightarrow>
          (case publish br subject r noExpectation s of
             (Inl err, s') \<Rightarrow> (Inl err, s')
           | (Inr (sq, _), s') \<Rightarrow> (Inr sq, s')))"

definition AppendAt ::
  "('s, 'x) broker \<Rightarrow> string \<Rightarrow> encoded_record \<Rightarrow> expectation \<Rightarrow> 's \<Rightarrow> ('x log_error + seq) \<times> 's" where
  "AppendAt br subject r expect s =
     (case validateEncodedRecord r of
        Some err \<Rightarrow> (Inl err, s)
      | None \<Rightarrow>
          (case expect_validate expect of
             Some err \<Rightarrow> (Inl err, s)
           | None \<Rightarrow>
               (case publish br subject r expect s of
                  (Inl err, s') \<Rightarrow> (Inl err, s')
                | (Inr (sq, _), s') \<Rightarrow> (Inr sq, s'))))"

section \<open>Atomic batches\<close>

definition entryConflict :: "batch_entry \<Rightarrow> 'x log_error" where
  "entryConflict entry =
     (if isZeroGuard (be_expect entry) then ErrConflict BatchGuards
      else expect_conflict (forSubject (be_expect entry) (be_subject entry)) (be_subject entry))"

definition batchConflict :: "batch_entry list \<Rightarrow> nat \<Rightarrow> 'x log_error" where
  "batchConflict entries guards =
     (if guards = 1 then
        (case find (\<lambda>entry. \<not> isZeroGuard (be_expect entry)) entries of
           Some entry \<Rightarrow> expect_conflict (forSubject (be_expect entry) (be_subject entry)) (be_subject entry)
         | None \<Rightarrow> ErrConflict BatchGuards)
      else ErrConflict BatchGuards)"

definition decodeBatchAck :: "ack_reply \<Rightarrow> 'x log_error \<Rightarrow> 'x log_error + seq" where
  "decodeBatchAck reply conflict =
     (case reply of
        EmptyReply \<Rightarrow> Inr 0
      | MalformedReply \<Rightarrow> Inl DecodeAckFailed
      | Reply ack \<Rightarrow>
          (case pa_error ack of
             Some (errCode, description) \<Rightarrow>
               Inl (if errCode = jetStreamDuplicateBatchMessageIDErrorCode
                    then ErrDuplicateBatchMessageID description
                    else if isSequenceConflict (APIError errCode :: unit client_error) then conflict
                    else ServerFailed description errCode)
           | None \<Rightarrow> Inr (pa_seq ack)))"

definition buildEncodedBatchMsg :: "batch_entry \<Rightarrow> string \<Rightarrow> seq \<Rightarrow> bool \<Rightarrow> batch_msg" where
  "buildEncodedBatchMsg entry batchID batchSeq commit =
     \<lparr>bm_subject = be_subject entry,
      bm_headers = [BatchId batchID, BatchSequence batchSeq]
        @ (if commit then [BatchCommit] else [])
        @ setHeaders (forSubject (be_expect entry) (be_subject entry))
        @ [MsgId (er_id (be_record entry))]
        @ (if 0 < er_ttl (be_record entry) then [MsgTTL (er_ttl (be_record entry))] else []),
      bm_data = er_data (be_record entry)\<rparr>"

definition publishBatchEntry ::
  "('s, 'x) broker \<Rightarrow> batch_entry \<Rightarrow> 'x log_error \<Rightarrow> string \<Rightarrow> seq \<Rightarrow> bool \<Rightarrow> 's
     \<Rightarrow> ('x log_error + seq) \<times> 's" where
  "publishBatchEntry br entry conflict batchID batchSeq commit s =
     (case br_request br (buildEncodedBatchMsg entry batchID batchSeq commit) s of
        (Inl x, s') \<Rightarrow> (Inl (PublishFailed (ClientError x)), s')
      | (Inr reply, s') \<Rightarrow> (decodeBatchAck reply conflict, s'))"

text \<open>The checks before anything is sent: the number of guards in the batch.\<close>

fun checkEntries :: "nat \<Rightarrow> nat \<Rightarrow> batch_entry list \<Rightarrow> 'x log_error + nat" where
  "checkEntries i guards [] = Inr guards"
| "checkEntries i guards (entry # entries) =
     (case validateEncodedRecord (be_record entry) of
        Some err \<Rightarrow> Inl (AtBatchEntry i err)
      | None \<Rightarrow>
          if isZeroGuard (be_expect entry) then checkEntries (Suc i) guards entries
          else case expect_validate (be_expect entry) of
            Some err \<Rightarrow> Inl (AtBatchEntry i err)
          | None \<Rightarrow>
              if ex_stream (be_expect entry) \<and> i \<noteq> 0 then Inl (AtBatchEntry i ErrInvalidOCC)
              else checkEntries (Suc i) (guards + guardCount (be_expect entry)) entries)"

text \<open>All entries but the last, in order.\<close>

fun stageEntries ::
  "('s, 'x) broker \<Rightarrow> string \<Rightarrow> nat \<Rightarrow> batch_entry list \<Rightarrow> 's \<Rightarrow> 'x log_error option \<times> 's" where
  "stageEntries br batchID i [] s = (None, s)"
| "stageEntries br batchID i (entry # entries) s =
     (case publishBatchEntry br entry (entryConflict entry) batchID (of_nat (i + 1)) False s of
        (Inl err, s') \<Rightarrow> (Some (AtBatchEntry i err), s')
      | (Inr _, s') \<Rightarrow> stageEntries br batchID (Suc i) entries s')"

definition appendBatch ::
  "('s, 'x) broker \<Rightarrow> batch_entry list \<Rightarrow> bool \<Rightarrow> 's \<Rightarrow> ('x log_error + seq list) \<times> 's" where
  "appendBatch br entries requireGuard s =
     (if entries = [] then (Inr [], s)
      else case checkEntries 0 0 entries of
        Inl err \<Rightarrow> (Inl err, s)
      | Inr guards \<Rightarrow>
          if guards = 0 \<and> requireGuard then (Inl ErrMissingOCC, s)
          else case br_random br s of
            (Inl x, s1) \<Rightarrow> (Inl (NoBatchID x), s1)
          | (Inr batchID, s1) \<Rightarrow>
              (case stageEntries br batchID 0 (butlast entries) s1 of
                 (Some err, s2) \<Rightarrow> (Inl err, s2)
               | (None, s2) \<Rightarrow>
                   (case publishBatchEntry br (last entries) (batchConflict entries guards) batchID
                           (of_nat (length entries)) True s2 of
                      (Inl err, s3) \<Rightarrow> (Inl (AtBatchCommit err), s3)
                    | (Inr commitSeq, s3) \<Rightarrow>
                        (Inr (map (\<lambda>i. commitSeq - of_nat (length entries - 1 - i)) [0..<length entries]), s3))))"

definition AppendBatch ::
  "('s, 'x) broker \<Rightarrow> batch_entry list \<Rightarrow> 's \<Rightarrow> ('x log_error + seq list) \<times> 's" where
  "AppendBatch br entries s = appendBatch br entries True s"

section \<open>Typed events\<close>

record 'e typed_entry =
  te_subject :: string
  te_event :: 'e
  te_expect :: expectation

fun encodeEntries ::
  "('e \<Rightarrow> 'x + encoded_record) \<Rightarrow> nat \<Rightarrow> 'e typed_entry list \<Rightarrow> 'x log_error + batch_entry list" where
  "encodeEntries encode i [] = Inr []"
| "encodeEntries encode i (entry # entries) =
     (case encode (te_event entry) of
        Inl x \<Rightarrow> Inl (AtBatchEntry i (EncodeFailed x))
      | Inr r \<Rightarrow>
          (case encodeEntries encode (Suc i) entries of
             Inl err \<Rightarrow> Inl err
           | Inr encoded \<Rightarrow>
               Inr (\<lparr>be_subject = te_subject entry, be_record = r, be_expect = te_expect entry\<rparr> # encoded)))"

definition AppendTypedBatch ::
  "('s, 'x) broker \<Rightarrow> ('e \<Rightarrow> 'x + encoded_record) \<Rightarrow> 'e typed_entry list \<Rightarrow> 's
     \<Rightarrow> ('x log_error + seq list) \<times> 's" where
  "AppendTypedBatch br encode entries s =
     (if entries = [] then (Inr [], s)
      else case encodeEntries encode 0 entries of
        Inl err \<Rightarrow> (Inl err, s)
      | Inr encoded \<Rightarrow> AppendBatch br encoded s)"

definition AppendTypedEventually ::
  "('s, 'x) broker \<Rightarrow> ('e \<Rightarrow> 'x + encoded_record) \<Rightarrow> string \<Rightarrow> 'e \<Rightarrow> 's \<Rightarrow> ('x log_error + seq) \<times> 's" where
  "AppendTypedEventually br encode subject event s =
     (case encode event of
        Inl x \<Rightarrow> (Inl (EncodeFailed x), s)
      | Inr r \<Rightarrow> AppendEventually br subject r s)"

definition AppendTypedAt ::
  "('s, 'x) broker \<Rightarrow> ('e \<Rightarrow> 'x + encoded_record) \<Rightarrow> string \<Rightarrow> 'e \<Rightarrow> expectation \<Rightarrow> 's
     \<Rightarrow> ('x log_error + seq) \<times> 's" where
  "AppendTypedAt br encode subject event expect s =
     (case encode event of
        Inl x \<Rightarrow> (Inl (EncodeFailed x), s)
      | Inr r \<Rightarrow> AppendAt br subject r expect s)"

end
