(* ===== verification/Mutation.thy ===== *)
theory Mutation
  imports Event_Log
begin

text \<open>
  Mutations (\<open>pkg/events/mutation.go\<close> and the typed adapter of \<open>typed_event_log.go\<close>): read
  the tail of a boundary, decide, commit against that tail, and decide again on a conflict,
  at most five times. The decision is a parameter that reads and may change the state, for
  other writers and projections move while it runs.
\<close>

section \<open>Boundaries\<close>

datatype mutationBoundaryKind =
    MutationBoundaryInvalid
  | MutationBoundarySubject
  | MutationBoundaryStream
  | MutationBoundaryUnguarded

record mutation_boundary =
  mb_kind :: mutationBoundaryKind
  mb_filter :: string

definition AtSubject :: "string \<Rightarrow> mutation_boundary" where
  "AtSubject f = \<lparr>mb_kind = MutationBoundarySubject, mb_filter = f\<rparr>"

definition Unguarded :: mutation_boundary where
  "Unguarded = \<lparr>mb_kind = MutationBoundaryUnguarded, mb_filter = []\<rparr>"

definition AtStreamTail :: mutation_boundary where
  "AtStreamTail = \<lparr>mb_kind = MutationBoundaryStream, mb_filter = []\<rparr>"

text \<open>
  \<open>strings.TrimSpace(s) == ""\<close>: nothing but the white space of Unicode, one, two or three
  bytes of UTF-8 each.
\<close>

definition asciiSpace :: "char \<Rightarrow> bool" where
  "asciiSpace c \<longleftrightarrow> (let n = of_char c :: nat in 9 \<le> n \<and> n \<le> 13 \<or> n = 32)"

definition twoByteSpace :: "char \<Rightarrow> char \<Rightarrow> bool" where
  "twoByteSpace c d \<longleftrightarrow> c = CHR 0xC2 \<and> (d = CHR 0x85 \<or> d = CHR 0xA0)"

definition threeByteSpace :: "char \<Rightarrow> char \<Rightarrow> char \<Rightarrow> bool" where
  "threeByteSpace c d e \<longleftrightarrow>
     c = CHR 0xE1 \<and> d = CHR 0x9A \<and> e = CHR 0x80
     \<or> c = CHR 0xE2 \<and> d = CHR 0x80
         \<and> (let n = of_char e :: nat in 0x80 \<le> n \<and> n \<le> 0x8A \<or> n = 0xA8 \<or> n = 0xA9 \<or> n = 0xAF)
     \<or> c = CHR 0xE2 \<and> d = CHR 0x81 \<and> e = CHR 0x9F
     \<or> c = CHR 0xE3 \<and> d = CHR 0x80 \<and> e = CHR 0x80"

fun blank :: "string \<Rightarrow> bool" where
  "blank [] \<longleftrightarrow> True"
| "blank [c] \<longleftrightarrow> asciiSpace c"
| "blank [c, d] \<longleftrightarrow> (if asciiSpace c then blank [d] else twoByteSpace c d)"
| "blank (c # d # e # s) \<longleftrightarrow>
     (if asciiSpace c then blank (d # e # s)
      else if twoByteSpace c d then blank (e # s)
      else threeByteSpace c d e \<and> blank s)"

datatype ('d, 'x) mutation_error =
    ErrInvalidMutationBoundary
  | ErrInvalidMutationDecision
  | TailUnread "'x log_error"
  | DecisionFailed 'd
  | CommitFailed "'x log_error"
  | RetryCancelled 'x
  | AttemptsExhausted "'x log_error option"

definition validateMutationBoundary :: "mutation_boundary \<Rightarrow> ('d, 'x) mutation_error option" where
  "validateMutationBoundary b =
     (case mb_kind b of
        MutationBoundarySubject \<Rightarrow> if blank (mb_filter b) then Some ErrInvalidMutationBoundary else None
      | MutationBoundaryStream \<Rightarrow> None
      | MutationBoundaryUnguarded \<Rightarrow> None
      | MutationBoundaryInvalid \<Rightarrow> Some ErrInvalidMutationBoundary)"

definition boundary_expectation :: "mutation_boundary \<Rightarrow> seq \<Rightarrow> expectation" where
  "boundary_expectation b sq =
     (case mb_kind b of
        MutationBoundaryStream \<Rightarrow> ExpectStreamSeq sq
      | MutationBoundaryUnguarded \<Rightarrow> noExpectation
      | _ \<Rightarrow> ExpectFilterSeq (mb_filter b) sq)"

definition mutationBoundarySeq ::
  "('s, 'x) broker \<Rightarrow> mutation_boundary \<Rightarrow> 's \<Rightarrow> (('d, 'x) mutation_error + seq) \<times> 's" where
  "mutationBoundarySeq br b s =
     (case mb_kind b of
        MutationBoundarySubject \<Rightarrow>
          (case LastSubjectSeq br (mb_filter b) s of
             (Inl e, s') \<Rightarrow> (Inl (TailUnread e), s') | (Inr sq, s') \<Rightarrow> (Inr sq, s'))
      | MutationBoundaryStream \<Rightarrow>
          (case LastStreamSeq br s of
             (Inl e, s') \<Rightarrow> (Inl (TailUnread e), s') | (Inr sq, s') \<Rightarrow> (Inr sq, s'))
      | MutationBoundaryUnguarded \<Rightarrow> (Inr 0, s)
      | MutationBoundaryInvalid \<Rightarrow> (Inl ErrInvalidMutationBoundary, s))"

section \<open>Commit\<close>

record mutation_attempt =
  at_number :: nat
  at_expected :: seq

record mutation_entry =
  me_subject :: string
  me_record :: encoded_record

record mutation_result =
  mr_sequences :: "seq list"
  mr_attempts :: nat
  mr_conflicts :: nat
  mr_committed :: bool

definition plain_entry :: "mutation_entry \<Rightarrow> batch_entry" where
  "plain_entry entry = \<lparr>be_subject = me_subject entry, be_record = me_record entry, be_expect = noExpectation\<rparr>"

definition publishMutation ::
  "('s, 'x) broker \<Rightarrow> mutation_boundary \<Rightarrow> seq \<Rightarrow> mutation_entry list \<Rightarrow> 's
     \<Rightarrow> ('x log_error + seq list \<times> bool) \<times> 's" where
  "publishMutation br b expectedSeq entries s =
     (let expect = boundary_expectation b expectedSeq in
      case entries of
        [entry] \<Rightarrow>
          (case validateEncodedRecord (me_record entry) of
             Some err \<Rightarrow> (Inl err, s)
           | None \<Rightarrow>
               (case publish br (me_subject entry) (me_record entry) expect s of
                  (Inl err, s') \<Rightarrow> (Inl err, s')
                | (Inr (sq, duplicate), s') \<Rightarrow> (Inr ([sq], \<not> duplicate), s')))
      | _ \<Rightarrow>
          (let plain = map plain_entry entries;
               batch = (hd plain)\<lparr>be_expect := expect\<rparr> # tl plain
           in case appendBatch br batch (mb_kind b \<noteq> MutationBoundaryUnguarded) s of
                (Inl err, s') \<Rightarrow> (Inl err, s')
              | (Inr sequences, s') \<Rightarrow> (Inr (sequences, True), s')))"

section \<open>The loop\<close>

abbreviation maxMutationAttempts :: nat where "maxMutationAttempts \<equiv> 5"

function mutationLoop ::
  "('s, 'x) broker \<Rightarrow> mutation_boundary \<Rightarrow> (mutation_attempt \<Rightarrow> 's \<Rightarrow> ('d + mutation_entry list) \<times> 's)
     \<Rightarrow> nat \<Rightarrow> 'x log_error option \<Rightarrow> mutation_result \<Rightarrow> 's
     \<Rightarrow> (mutation_result \<times> ('d, 'x) mutation_error option) \<times> 's" where
  "mutationLoop br b decide attempt lastErr result s =
     (if maxMutationAttempts < attempt then ((result, Some (AttemptsExhausted lastErr)), s)
      else case mutationBoundarySeq br b s of
        (Inl err, s1) \<Rightarrow> ((result, Some err), s1)
      | (Inr expectedSeq, s1) \<Rightarrow>
          (let result1 = result\<lparr>mr_attempts := attempt\<rparr> in
           case decide \<lparr>at_number = attempt, at_expected = expectedSeq\<rparr> s1 of
             (Inl x, s2) \<Rightarrow> ((result1, Some (DecisionFailed x)), s2)
           | (Inr entries, s2) \<Rightarrow>
               if entries = [] then ((result1, None), s2)
               else (case publishMutation br b expectedSeq entries s2 of
                   (Inr (seqs, committed), s3) \<Rightarrow>
                     ((result1\<lparr>mr_sequences := seqs, mr_committed := committed\<rparr>, None), s3)
                 | (Inl err, s3) \<Rightarrow>
                     if \<not> isConflict err then ((result1, Some (CommitFailed err)), s3)
                     else (let result2 = result1\<lparr>mr_conflicts := mr_conflicts result1 + 1\<rparr> in
                       if attempt = maxMutationAttempts
                       then ((result2, Some (AttemptsExhausted (Some err))), s3)
                       else (case br_pause br attempt s3 of
                           (Some x, s4) \<Rightarrow> ((result2, Some (RetryCancelled x)), s4)
                         | (None, s4) \<Rightarrow> mutationLoop br b decide (attempt + 1) (Some err) result2 s4)))))"
  by pat_completeness auto
termination by (relation "measure (\<lambda>(_, _, _, attempt, _). maxMutationAttempts + 1 - attempt)") auto

declare mutationLoop.simps [simp del]

definition no_result :: mutation_result where
  "no_result = \<lparr>mr_sequences = [], mr_attempts = 0, mr_conflicts = 0, mr_committed = False\<rparr>"

definition ExecuteMutation ::
  "('s, 'x) broker \<Rightarrow> mutation_boundary
     \<Rightarrow> (mutation_attempt \<Rightarrow> 's \<Rightarrow> ('d + mutation_entry list) \<times> 's) option \<Rightarrow> 's
     \<Rightarrow> (mutation_result \<times> ('d, 'x) mutation_error option) \<times> 's" where
  "ExecuteMutation br b decide s =
     (case validateMutationBoundary b of
        Some err \<Rightarrow> ((no_result, Some err), s)
      | None \<Rightarrow>
          (case decide of
             None \<Rightarrow> ((no_result, Some ErrInvalidMutationDecision), s)
           | Some f \<Rightarrow> mutationLoop br b f 1 None no_result s))"

section \<open>Typed mutations\<close>

datatype ('d, 'x) typed_decision = Refused 'd | NotEncoded nat 'x

fun encodeMutation ::
  "('e \<Rightarrow> 'x + encoded_record) \<Rightarrow> nat \<Rightarrow> (string \<times> 'e) list \<Rightarrow> ('d, 'x) typed_decision + mutation_entry list" where
  "encodeMutation encode i [] = Inr []"
| "encodeMutation encode i ((subject, event) # entries) =
     (case encode event of
        Inl x \<Rightarrow> Inl (NotEncoded i x)
      | Inr r \<Rightarrow>
          (case encodeMutation encode (Suc i) entries of
             Inl err \<Rightarrow> Inl err
           | Inr encoded \<Rightarrow> Inr (\<lparr>me_subject = subject, me_record = r\<rparr> # encoded)))"

definition typed_decide ::
  "('e \<Rightarrow> 'x + encoded_record) \<Rightarrow> (mutation_attempt \<Rightarrow> 's \<Rightarrow> ('d + (string \<times> 'e) list) \<times> 's)
     \<Rightarrow> mutation_attempt \<Rightarrow> 's \<Rightarrow> (('d, 'x) typed_decision + mutation_entry list) \<times> 's" where
  "typed_decide encode decide attempt s =
     (case decide attempt s of
        (Inl x, s') \<Rightarrow> (Inl (Refused x), s')
      | (Inr entries, s') \<Rightarrow> (encodeMutation encode 0 entries, s'))"

definition ExecuteTypedMutation ::
  "('s, 'x) broker \<Rightarrow> ('e \<Rightarrow> 'x + encoded_record) \<Rightarrow> mutation_boundary
     \<Rightarrow> (mutation_attempt \<Rightarrow> 's \<Rightarrow> ('d + (string \<times> 'e) list) \<times> 's) option \<Rightarrow> 's
     \<Rightarrow> (mutation_result \<times> (('d, 'x) typed_decision, 'x) mutation_error option) \<times> 's" where
  "ExecuteTypedMutation br encode b decide s =
     (case decide of
        None \<Rightarrow> ((no_result, Some ErrInvalidMutationDecision), s)
      | Some f \<Rightarrow> ExecuteMutation br b (Some (typed_decide encode f)) s)"

end
