(* ===== verification/Broker_Contract.thy ===== *)
theory Broker_Contract
  imports Mutation "HOL-Library.Sublist"
begin

text \<open>
  What the writers rely on of JetStream, and what its guards mean. The stream is a list of
  stored messages that only grows (nothing in it expires or is purged). A request may find
  that other writers have extended the list; a write is then accepted at one moment, at which
  its guards hold, or rejected as a conflict because a guard failed at some moment of the
  request. A batch is staged under its identity and stored as a whole by its commit.
\<close>

section \<open>The stream\<close>

record stored =
  so_subject :: string
  so_seq :: seq
  so_id :: string
  so_data :: string

definition matching :: "string \<Rightarrow> stored list \<Rightarrow> stored list" where
  "matching f l = filter (\<lambda>m. subjectMatchesFilter f (so_subject m)) l"

definition stream_tail :: "stored list \<Rightarrow> seq" where
  "stream_tail l = (if l = [] then 0 else so_seq (last l))"

definition tail_of :: "string \<Rightarrow> stored list \<Rightarrow> seq" where
  "tail_of f l = stream_tail (matching f l)"

definition stored_ok :: "stored list \<Rightarrow> bool" where
  "stored_ok l \<longleftrightarrow> sorted_wrt (<) (map so_seq l) \<and> (\<forall>m \<in> set l. 0 < so_seq m)"

lemma matching_append [simp]: "matching f (l @ l') = matching f l @ matching f l'"
  by (simp add: matching_def)

lemma stored_ok_append: "stored_ok (l @ l') \<Longrightarrow> stored_ok l"
  by (auto simp: stored_ok_def sorted_wrt_append)

lemma stored_ok_matching: "stored_ok l \<Longrightarrow> stored_ok (matching f l)"
  by (auto simp: stored_ok_def matching_def sorted_wrt_map intro: sorted_wrt_filter)

lemma same_stream_tail:
  assumes "stored_ok (l @ l')" and "stream_tail (l @ l') = stream_tail l"
  shows "l' = []"
proof (rule ccontr)
  assume "l' \<noteq> []"
  then have last_in: "last l' \<in> set l'" by simp
  have "stream_tail l < so_seq (last l')"
  proof (cases "l = []")
    case True
    then show ?thesis using assms(1) last_in by (auto simp: stream_tail_def stored_ok_def)
  next
    case False
    then show ?thesis using assms(1) last_in
      by (auto simp: stream_tail_def stored_ok_def sorted_wrt_append)
  qed
  with assms(2) \<open>l' \<noteq> []\<close> show False by (simp add: stream_tail_def)
qed

lemma same_tail:
  assumes "stored_ok l'" and "prefix l l'" and "tail_of f l' = tail_of f l"
  shows "matching f l' = matching f l"
proof -
  from assms(2) obtain r where "l' = l @ r" by (auto simp: prefix_def)
  with assms(1,3) same_stream_tail [of "matching f l" "matching f r"] stored_ok_matching [of l' f]
  show ?thesis by (simp add: tail_of_def)
qed

section \<open>The meaning of a guard\<close>

fun opt_holds :: "string \<Rightarrow> stored list \<Rightarrow> publish_opt \<Rightarrow> bool" where
  "opt_holds subject l (WithExpectLastSequencePerSubject n) \<longleftrightarrow> tail_of subject l = n"
| "opt_holds subject l (WithExpectLastSequenceForSubject n f) \<longleftrightarrow> tail_of f l = n"
| "opt_holds subject l (WithExpectLastSequence n) \<longleftrightarrow> stream_tail l = n"
| "opt_holds subject l _ \<longleftrightarrow> True"

definition guard_filter :: "header list \<Rightarrow> string \<Rightarrow> string" where
  "guard_filter hs subject =
     (case [f. ExpectedLastSubjSeqSubj f \<leftarrow> hs] of [] \<Rightarrow> subject | f # _ \<Rightarrow> f)"

definition msg_holds :: "stored list \<Rightarrow> batch_msg \<Rightarrow> bool" where
  "msg_holds l msg \<longleftrightarrow>
     (\<forall>h \<in> set (bm_headers msg). case h of
        ExpectedLastSubjSeq n \<Rightarrow> tail_of (guard_filter (bm_headers msg) (bm_subject msg)) l = n
      | ExpectedLastSeq n \<Rightarrow> stream_tail l = n
      | _ \<Rightarrow> True)"

definition opts_id :: "publish_opt list \<Rightarrow> string" where
  "opts_id opts = concat [i. WithMsgID i \<leftarrow> opts]"

definition headers_id :: "header list \<Rightarrow> string" where
  "headers_id hs = concat [i. MsgId i \<leftarrow> hs]"

text \<open>The guard of the code, on a stream.\<close>

definition guard_holds :: "expectation \<Rightarrow> string \<Rightarrow> stored list \<Rightarrow> bool" where
  "guard_holds e subject l \<longleftrightarrow>
     (case ex_subject e of
        NoSubjectGuard \<Rightarrow> True
      | OwnSubjectGuard \<Rightarrow> tail_of subject l = ex_seq e
      | FilterGuard \<Rightarrow> tail_of (ex_filter e) l = ex_seq e)
     \<and> (ex_stream e \<longrightarrow> stream_tail l = ex_streamSeq e)"

text \<open>Replacing a filter guard by the own-subject guard changes nothing, and the options of a
  single publish and the headers of a batch entry mean the same guard.\<close>

lemma forSubject_holds [simp]: "guard_holds (forSubject e subject) subject l = guard_holds e subject l"
  by (simp add: guard_holds_def forSubject_def)

lemma opts_mean_guard:
  "(\<forall>opt \<in> set (publishOpts e @ [WithMsgID i] @ (if b then [WithMsgTTL t] else [])). opt_holds subject l opt)
     \<longleftrightarrow> guard_holds e subject l"
  by (auto simp: publishOpts_def guard_holds_def split: subjectGuardKind.splits)

lemma opts_id_publish [simp]:
  "opts_id (publishOpts e @ [WithMsgID i] @ (if b then [WithMsgTTL t] else [])) = i"
  "opts_id (publishOpts e @ WithMsgID i # (if b then [WithMsgTTL t] else [])) = i"
  by (auto simp: opts_id_def publishOpts_def split: subjectGuardKind.splits)

lemma headers_mean_guard:
  "msg_holds l (buildEncodedBatchMsg entry batchID n commit)
     \<longleftrightarrow> guard_holds (be_expect entry) (be_subject entry) l"
proof -
  have "msg_holds l (buildEncodedBatchMsg entry batchID n commit)
      \<longleftrightarrow> guard_holds (forSubject (be_expect entry) (be_subject entry)) (be_subject entry) l"
    by (auto simp: msg_holds_def buildEncodedBatchMsg_def setHeaders_def guard_holds_def guard_filter_def
        split: subjectGuardKind.splits)
  then show ?thesis by simp
qed

lemma built_msg [simp]:
  "bm_subject (buildEncodedBatchMsg entry batchID n commit) = be_subject entry"
  "bm_data (buildEncodedBatchMsg entry batchID n commit) = er_data (be_record entry)"
  "headers_id (bm_headers (buildEncodedBatchMsg entry batchID n commit)) = er_id (be_record entry)"
  "BatchId b \<in> set (bm_headers (buildEncodedBatchMsg entry batchID n commit)) \<longleftrightarrow> b = batchID"
  "BatchCommit \<in> set (bm_headers (buildEncodedBatchMsg entry batchID n commit)) \<longleftrightarrow> commit"
  by (auto simp: buildEncodedBatchMsg_def headers_id_def setHeaders_def split: subjectGuardKind.splits)

section \<open>The laws\<close>

definition accepted :: "ack_reply \<Rightarrow> bool" where
  "accepted reply \<longleftrightarrow> reply = EmptyReply \<or> (\<exists>ack. reply = Reply ack \<and> pa_error ack = None)"

definition conflict_reply :: "ack_reply \<Rightarrow> bool" where
  "conflict_reply reply \<longleftrightarrow>
     (\<exists>ack code d. reply = Reply ack \<and> pa_error ack = Some (code, d) \<and> isWrongLastSequence (APIError code :: unit client_error))"

text \<open>A committed batch is adjacent and ends at the acknowledged sequence.\<close>

definition stored_batch :: "seq \<Rightarrow> batch_msg list \<Rightarrow> stored list" where
  "stored_batch sq msgs =
     map (\<lambda>i. \<lparr>so_subject = bm_subject (msgs ! i), so_seq = sq - of_nat (length msgs - 1 - i),
               so_id = headers_id (bm_headers (msgs ! i)), so_data = bm_data (msgs ! i)\<rparr>) [0..<length msgs]"

definition only_grows :: "('s, 'x) broker \<Rightarrow> ('s \<Rightarrow> stored list) \<Rightarrow> bool" where
  "only_grows br log \<longleftrightarrow>
     (\<forall>s. stored_ok (log s)
        \<and> (\<forall>subject data opts. prefix (log s) (log (snd (br_publish br subject data opts s))))
        \<and> (\<forall>msg. prefix (log s) (log (snd (br_request br msg s))))
        \<and> (\<forall>f. prefix (log s) (log (snd (br_last_msg br f s))))
        \<and> prefix (log s) (log (snd (br_last_seq br s)))
        \<and> prefix (log s) (log (snd (br_random br s)))
        \<and> (\<forall>n. prefix (log s) (log (snd (br_pause br n s)))))"

definition reads_tails :: "('s, 'x) broker \<Rightarrow> ('s \<Rightarrow> stored list) \<Rightarrow> bool" where
  "reads_tails br log \<longleftrightarrow>
     (\<forall>f s r s'. br_last_msg br f s = (Inr r, s')
        \<longrightarrow> r = (if matching f (log s') = [] then None else Some (tail_of f (log s'))))
     \<and> (\<forall>s sq s'. br_last_seq br s = (Inr sq, s') \<longrightarrow> sq = stream_tail (log s'))"

definition guards_publish :: "('s, 'x) broker \<Rightarrow> ('s \<Rightarrow> stored list) \<Rightarrow> bool" where
  "guards_publish br log \<longleftrightarrow>
     (\<forall>subject data opts s sq s'. br_publish br subject data opts s = (Inr (sq, False), s')
        \<longrightarrow> (\<exists>l. prefix (log s) l \<and> (\<forall>opt \<in> set opts. opt_holds subject l opt)
              \<and> log s' = l @ [\<lparr>so_subject = subject, so_seq = sq, so_id = opts_id opts, so_data = data\<rparr>]))
     \<and> (\<forall>subject data opts s err s'. br_publish br subject data opts s = (Inl err, s') \<and> isSequenceConflict err
        \<longrightarrow> (\<exists>l. prefix (log s) l \<and> prefix l (log s') \<and> \<not> (\<forall>opt \<in> set opts. opt_holds subject l opt)))"

definition guards_batches ::
  "('s, 'x) broker \<Rightarrow> ('s \<Rightarrow> stored list) \<Rightarrow> ('s \<Rightarrow> string \<Rightarrow> batch_msg list) \<Rightarrow> bool" where
  "guards_batches br log staged \<longleftrightarrow>
     (\<forall>s b s'. br_random br s = (Inr b, s') \<longrightarrow> staged s' b = [])
     \<and> (\<forall>msg b s reply s'. br_request br msg s = (Inr reply, s') \<and> BatchId b \<in> set (bm_headers msg)
          \<longrightarrow> (BatchCommit \<notin> set (bm_headers msg) \<and> accepted reply \<longrightarrow> staged s' b = staged s b @ [msg])
            \<and> (BatchCommit \<in> set (bm_headers msg) \<and> accepted reply \<longrightarrow>
                (\<exists>l sq. reply = Reply \<lparr>pa_error = None, pa_seq = sq\<rparr> \<and> prefix (log s) l
                  \<and> (\<forall>m \<in> set (staged s b @ [msg]). msg_holds l m)
                  \<and> log s' = l @ stored_batch sq (staged s b @ [msg])))
            \<and> (conflict_reply reply \<longrightarrow>
                (\<exists>l. prefix (log s) l \<and> prefix l (log s') \<and> \<not> (\<forall>m \<in> set (staged s b @ [msg]). msg_holds l m))))"

definition broker_laws ::
  "('s, 'x) broker \<Rightarrow> ('s \<Rightarrow> stored list) \<Rightarrow> ('s \<Rightarrow> string \<Rightarrow> batch_msg list) \<Rightarrow> bool" where
  "broker_laws br log staged \<longleftrightarrow>
     only_grows br log \<and> reads_tails br log \<and> guards_publish br log \<and> guards_batches br log staged"

end
