(* ===== verification/Mutation_Properties.thy ===== *)
theory Mutation_Properties
  imports Broker_Contract
begin

text \<open>
  What a committed mutation promises: its decision was made on the state its records follow,
  up to records outside its boundary; the number of attempts is bounded and exact; and a
  mutation nobody contends with commits at once.
\<close>

section \<open>Laws in the form the proofs use\<close>

lemma grows_stored: "only_grows br log \<Longrightarrow> stored_ok (log s)"
  by (simp add: only_grows_def)

lemma grows_publish: "only_grows br log \<Longrightarrow> br_publish br subject data opts s = (r, s') \<Longrightarrow> prefix (log s) (log s')"
  by (metis only_grows_def snd_conv)

lemma grows_request: "only_grows br log \<Longrightarrow> br_request br msg s = (r, s') \<Longrightarrow> prefix (log s) (log s')"
  by (metis only_grows_def snd_conv)

lemma grows_last_msg: "only_grows br log \<Longrightarrow> br_last_msg br f s = (r, s') \<Longrightarrow> prefix (log s) (log s')"
  by (metis only_grows_def snd_conv)

lemma grows_random: "only_grows br log \<Longrightarrow> br_random br s = (r, s') \<Longrightarrow> prefix (log s) (log s')"
  by (metis only_grows_def snd_conv)

lemma batch_staged:
  assumes "guards_batches br log staged" and "br_request br msg s = (Inr reply, s')"
    and "BatchId b \<in> set (bm_headers msg)" and "BatchCommit \<notin> set (bm_headers msg)" and "accepted reply"
  shows "staged s' b = staged s b @ [msg]"
  using assms unfolding guards_batches_def by blast

lemma batch_committed:
  assumes "guards_batches br log staged" and "br_request br msg s = (Inr reply, s')"
    and "BatchId b \<in> set (bm_headers msg)" and "BatchCommit \<in> set (bm_headers msg)" and "accepted reply"
  obtains l sq where "reply = Reply \<lparr>pa_error = None, pa_seq = sq\<rparr>" and "prefix (log s) l"
    and "\<forall>m \<in> set (staged s b @ [msg]). msg_holds l m"
    and "log s' = l @ stored_batch sq (staged s b @ [msg])"
  using assms unfolding guards_batches_def by metis

lemma batch_conflicted:
  assumes "guards_batches br log staged" and "br_request br msg s = (Inr reply, s')"
    and "BatchId b \<in> set (bm_headers msg)" and "conflict_reply reply"
  obtains l where "prefix (log s) l" and "prefix l (log s')"
    and "\<not> (\<forall>m \<in> set (staged s b @ [msg]). msg_holds l m)"
  using assms unfolding guards_batches_def by metis

lemma decoded_accepted: "decodeBatchAck reply e = Inr sq \<Longrightarrow> accepted reply"
  by (cases reply) (auto simp: decodeBatchAck_def accepted_def split: option.splits prod.splits)

lemma decoded_conflict:
  "decodeBatchAck reply e = Inl err \<Longrightarrow> isConflict err \<Longrightarrow> conflict_reply reply"
  by (cases reply) (auto simp: decodeBatchAck_def conflict_reply_def isSequenceConflict_def
      split: option.splits prod.splits if_splits)

section \<open>Batches\<close>

text \<open>The messages of a batch as the broker receives them.\<close>

definition batch_msgs :: "string \<Rightarrow> batch_entry list \<Rightarrow> batch_msg list" where
  "batch_msgs b entries =
     map (\<lambda>i. buildEncodedBatchMsg (entries ! i) b (of_nat (i + 1)) (i + 1 = length entries)) [0..<length entries]"

definition staged_msgs :: "string \<Rightarrow> nat \<Rightarrow> batch_entry list \<Rightarrow> batch_msg list" where
  "staged_msgs b i entries =
     map (\<lambda>j. buildEncodedBatchMsg (entries ! j) b (of_nat (i + j + 1)) False) [0..<length entries]"

lemma staged_msgs_Cons:
  "staged_msgs b i (e # es) = buildEncodedBatchMsg e b (of_nat (i + 1)) False # staged_msgs b (Suc i) es"
  by (simp add: staged_msgs_def upt_conv_Cons map_Suc_upt [symmetric] del: upt_Suc)

lemma batch_msgs_snoc:
  "batch_msgs b (es @ [e]) =
     staged_msgs b 0 es @ [buildEncodedBatchMsg e b (of_nat (length es + 1)) True]"
  by (simp add: batch_msgs_def staged_msgs_def nth_append)

lemma staging:
  fixes br :: "('s, 'x) broker"
  assumes "only_grows br log" and "guards_batches br log staged"
    and "stageEntries br b i entries s = (None, s')" 
  shows "prefix (log s) (log s') \<and> staged s' b = staged s b @ staged_msgs b i entries"
  using assms(3)
proof (induction entries arbitrary: i s)
  case Nil
  then show ?case by (simp add: staged_msgs_def)
next
  case (Cons e es)
  let ?m = "buildEncodedBatchMsg e b (of_nat (i + 1)) False"
  from Cons.prems obtain reply s1 sq where r: "br_request br ?m s = (Inr reply, s1)"
    "decodeBatchAck reply (entryConflict e :: 'x log_error) = Inr sq" "stageEntries br b (Suc i) es s1 = (None, s')"
    by (auto simp: publishBatchEntry_def split: sum.splits prod.splits)
  have "staged s1 b = staged s b @ [?m]"
    using batch_staged [OF assms(2) r(1)] decoded_accepted [OF r(2)] by simp
  with Cons.IH [OF r(3)] grows_request [OF assms(1) r(1)] show ?case
    by (auto simp: staged_msgs_Cons intro: prefix_order.trans)
qed

lemma staging_conflict:
  fixes br :: "('s, 'x) broker"
  assumes "only_grows br log" and "guards_batches br log staged"
    and "stageEntries br b i entries s = (Some err, s')" and "isConflict err"
  obtains l where "prefix (log s) l" and "prefix l (log s')"
    and "\<not> (\<forall>m \<in> set (staged s b @ staged_msgs b i entries). msg_holds l m)"
  using assms(3)
proof (induction entries arbitrary: i s thesis)
  case (Cons e es)
  let ?m = "buildEncodedBatchMsg e b (of_nat (i + 1)) False"
  obtain r s1 where r: "br_request br ?m s = (r, s1)" by fastforce
  show ?case
  proof (cases r)
    case (Inl x)
    with Cons.prems(2) r assms(4) show ?thesis by (auto simp: publishBatchEntry_def)
  next
    case (Inr reply)
    note r = r [unfolded Inr]
    show ?thesis
    proof (cases "decodeBatchAck reply (entryConflict e :: 'x log_error)")
      case (Inl err')
      with Cons.prems(2) r have "err = AtBatchEntry i err'" "s' = s1" by (auto simp: publishBatchEntry_def)
      with assms(4) decoded_conflict [OF Inl] have "conflict_reply reply" by simp
      then obtain l where "prefix (log s) l" "prefix l (log s1)"
        "\<not> (\<forall>m \<in> set (staged s b @ [?m]). msg_holds l m)"
        using batch_conflicted [OF assms(2) r] by auto
      with \<open>s' = s1\<close> show ?thesis by (intro Cons.prems(1)) (auto simp: staged_msgs_Cons)
    next
      case (Inr sq)
      with Cons.prems(2) r have rest: "stageEntries br b (Suc i) es s1 = (Some err, s')"
        by (auto simp: publishBatchEntry_def)
      have st: "staged s1 b = staged s b @ [?m]"
        using batch_staged [OF assms(2) r] decoded_accepted [OF Inr] by simp
      obtain l where "prefix (log s1) l" "prefix l (log s')"
        "\<not> (\<forall>m \<in> set (staged s1 b @ staged_msgs b (Suc i) es). msg_holds l m)"
        using Cons.IH [OF _ rest] by blast
      then show ?thesis using grows_request [OF assms(1) r]
        by (intro Cons.prems(1) [of l]) (auto simp: staged_msgs_Cons st intro: prefix_order.trans)
    qed
  qed
qed simp

text \<open>The guards of a batch at the moment it is accepted.\<close>

definition batch_holds :: "batch_entry list \<Rightarrow> stored list \<Rightarrow> bool" where
  "batch_holds entries l \<longleftrightarrow> (\<forall>e \<in> set entries. guard_holds (be_expect e) (be_subject e) l)"

lemma batch_msgs_hold: "(\<forall>m \<in> set (batch_msgs b entries). msg_holds l m) \<longleftrightarrow> batch_holds entries l"
  by (auto simp: batch_msgs_def batch_holds_def headers_mean_guard set_conv_nth)

lemma batch_msgs_split:
  "entries \<noteq> [] \<Longrightarrow> batch_msgs b entries = staged_msgs b 0 (butlast entries)
     @ [buildEncodedBatchMsg (last entries) b (of_nat (length entries)) True]"
  using batch_msgs_snoc [of b "butlast entries" "last entries"] by simp

definition batch_content :: "batch_entry \<Rightarrow> string \<times> string \<times> string" where
  "batch_content e = (be_subject e, er_id (be_record e), er_data (be_record e))"

definition stored_content :: "stored \<Rightarrow> string \<times> string \<times> string" where
  "stored_content m = (so_subject m, so_id m, so_data m)"

lemma stored_batch_content:
  "map stored_content (stored_batch sq (batch_msgs b entries)) = map batch_content entries"
  "map so_seq (stored_batch sq (batch_msgs b entries))
     = map (\<lambda>i. sq - of_nat (length entries - 1 - i)) [0..<length entries]"
  by (auto simp: stored_batch_def batch_msgs_def stored_content_def batch_content_def intro!: nth_equalityI)

lemma appendBatch_commit:
  fixes br :: "('s, 'x) broker"
  assumes "only_grows br log" and "guards_batches br log staged"
    and "appendBatch br entries g s = (Inr seqs, s')" and "entries \<noteq> []"
  obtains l new where "prefix (log s) l" and "batch_holds entries l" and "log s' = l @ new"
    and "map so_seq new = seqs" and "map stored_content new = map batch_content entries"
proof -
  let ?last = "\<lambda>b. buildEncodedBatchMsg (last entries) b (of_nat (length entries)) True"
  from assms(3,4) obtain guards b s1 s2 reply sq where r:
    "br_random br s = (Inr b, s1)" "stageEntries br b 0 (butlast entries) s1 = (None, s2)"
    "br_request br (?last b) s2 = (Inr reply, s')" "decodeBatchAck reply (batchConflict entries guards :: 'x log_error) = Inr sq"
    "seqs = map (\<lambda>i. sq - of_nat (length entries - 1 - i)) [0..<length entries]"
    by (auto simp: appendBatch_def publishBatchEntry_def split: sum.splits if_splits prod.splits option.splits)
  have st: "prefix (log s1) (log s2) \<and> staged s2 b = staged_msgs b 0 (butlast entries)"
    using staging [OF assms(1,2) r(2)] r(1) assms(2) by (simp add: guards_batches_def)
  have acc: "accepted reply" by (rule decoded_accepted [OF r(4)])
  have "BatchId b \<in> set (bm_headers (?last b))" "BatchCommit \<in> set (bm_headers (?last b))" by simp_all
  from batch_committed [OF assms(2) r(3) this acc] obtain l sq' where c:
    "reply = Reply \<lparr>pa_error = None, pa_seq = sq'\<rparr>" "prefix (log s2) l"
    "\<forall>m \<in> set (staged s2 b @ [?last b]). msg_holds l m"
    "log s' = l @ stored_batch sq' (staged s2 b @ [?last b])" by blast
  have msgs: "staged s2 b @ [?last b] = batch_msgs b entries"
    using st batch_msgs_split [OF assms(4)] by simp
  have "sq' = sq" using r(4) c(1) by (simp add: decodeBatchAck_def)
  show ?thesis
  proof
    show "prefix (log s) l"
      using grows_random [OF assms(1) r(1)] st c(2) by (meson prefix_order.trans)
    show "batch_holds entries l" using c(3) unfolding msgs by (simp only: batch_msgs_hold)
    show "log s' = l @ stored_batch sq (batch_msgs b entries)" using c(4) unfolding msgs \<open>sq' = sq\<close> .
  qed (simp_all add: stored_batch_content r(5))
qed

lemma checkEntries_error: "checkEntries i g entries = Inl err \<Longrightarrow> \<not> isConflict err"
  by (induction i g entries arbitrary: err rule: checkEntries.induct)
    (auto simp: validateEncodedRecord_def expect_validate_def split: if_splits option.splits)

lemma appendBatch_conflict:
  fixes br :: "('s, 'x) broker"
  assumes "only_grows br log" and "guards_batches br log staged"
    and "appendBatch br entries g s = (Inl err, s')" and "isConflict err" and "entries \<noteq> []"
  obtains l where "prefix (log s) l" and "prefix l (log s')" and "\<not> batch_holds entries l"
proof -
  let ?last = "\<lambda>b. buildEncodedBatchMsg (last entries) b (of_nat (length entries)) True"
  from assms(3,4,5) obtain guards where guards: "checkEntries 0 0 entries = (Inr guards :: 'x log_error + nat)"
    by (cases "checkEntries 0 0 entries :: 'x log_error + nat") (auto simp: appendBatch_def dest: checkEntries_error)
  from assms(3-5) guards obtain b s1 where r: "br_random br s = (Inr b, s1)"
    by (auto simp: appendBatch_def split: sum.splits if_splits prod.splits)
  have empty: "staged s1 b = []" using r assms(2) by (simp add: guards_batches_def)
  have pre: "prefix (log s) (log s1)" by (rule grows_random [OF assms(1) r])
  obtain res s2 where stage: "stageEntries br b 0 (butlast entries) s1 = (res, s2)" by fastforce
  have msgs: "batch_msgs b entries = staged_msgs b 0 (butlast entries) @ [?last b]"
    by (rule batch_msgs_split [OF assms(5)])
  show ?thesis
  proof (cases res)
    case (Some e)
    with assms(3-5) guards r stage have "e = err" "s2 = s'"
      by (auto simp: appendBatch_def split: if_splits)
    from staging_conflict [OF assms(1,2) stage [unfolded Some this] assms(4)] obtain l where l:
      "prefix (log s1) l" "prefix l (log s')"
      "\<not> (\<forall>m \<in> set (staged s1 b @ staged_msgs b 0 (butlast entries)). msg_holds l m)" by blast
    have "\<not> (\<forall>m \<in> set (batch_msgs b entries). msg_holds l m)"
      using l(3) by (auto simp: msgs empty)
    with l pre show ?thesis by (intro that [of l]) (auto simp: batch_msgs_hold intro: prefix_order.trans)
  next
    case None
    note stage = stage [unfolded None]
    obtain rr s3 where q: "br_request br (?last b) s2 = (rr, s3)" by fastforce
    from assms(3-5) guards r stage q obtain reply err' where e: "rr = Inr reply" "s3 = s'"
      "decodeBatchAck reply (batchConflict entries guards :: 'x log_error) = Inl err'" "isConflict err'"
      by (auto simp: appendBatch_def publishBatchEntry_def split: if_splits sum.splits)
    have st: "prefix (log s1) (log s2) \<and> staged s2 b = staged_msgs b 0 (butlast entries)"
      using staging [OF assms(1,2) stage] empty by simp
    have "BatchId b \<in> set (bm_headers (?last b))" by simp
    from batch_conflicted [OF assms(2) q [unfolded e(1,2)] this decoded_conflict [OF e(3,4)]]
    obtain l where l: "prefix (log s2) l" "prefix l (log s')"
      "\<not> (\<forall>m \<in> set (staged s2 b @ [?last b]). msg_holds l m)" by blast
    have "\<not> batch_holds entries l" using l(3) st by (simp add: msgs flip: batch_msgs_hold [of b])
    with l pre st show ?thesis by (intro that [of l]) (auto intro: prefix_order.trans)
  qed
qed

section \<open>One commit\<close>

definition guarded :: "mutation_boundary \<Rightarrow> bool" where
  "guarded b \<longleftrightarrow> mb_kind b = MutationBoundarySubject \<or> mb_kind b = MutationBoundaryStream"

text \<open>The part of the stream a boundary covers, and its tail.\<close>

definition covers :: "mutation_boundary \<Rightarrow> stored list \<Rightarrow> stored list" where
  "covers b l = (if mb_kind b = MutationBoundaryStream then l else matching (mb_filter b) l)"

definition boundary_tail :: "mutation_boundary \<Rightarrow> stored list \<Rightarrow> seq" where
  "boundary_tail b l = stream_tail (covers b l)"

definition entry_content :: "mutation_entry \<Rightarrow> string \<times> string \<times> string" where
  "entry_content e = (me_subject e, er_id (me_record e), er_data (me_record e))"

lemma boundary_guard:
  "guarded b \<Longrightarrow> guard_holds (boundary_expectation b sq) subject l \<longleftrightarrow> boundary_tail b l = sq"
  by (auto simp: guarded_def guard_holds_def boundary_expectation_def ExpectStreamSeq_def ExpectFilterSeq_def
      noExpectation_def boundary_tail_def covers_def tail_of_def)

lemma unguarded_holds: "mb_kind b = MutationBoundaryUnguarded \<Longrightarrow> guard_holds (boundary_expectation b sq) subject l"
  by (simp add: guard_holds_def boundary_expectation_def noExpectation_def)

lemma plain_holds [simp]: "guard_holds (be_expect (plain_entry e)) subject l"
  by (simp add: guard_holds_def plain_entry_def noExpectation_def)

lemma same_cover:
  assumes "stored_ok l'" and "prefix l l'" and "boundary_tail b l' = boundary_tail b l"
  shows "covers b l' = covers b l"
proof (cases "mb_kind b = MutationBoundaryStream")
  case True
  from assms(2) obtain r where "l' = l @ r" by (auto simp: prefix_def)
  with True assms same_stream_tail [of l r] show ?thesis by (simp add: covers_def boundary_tail_def)
next
  case False
  with assms same_tail [of l' l "mb_filter b"] show ?thesis by (simp add: covers_def boundary_tail_def tail_of_def)
qed

text \<open>A batch of two or more carries the boundary's guard on its first entry only.\<close>

definition mutation_batch :: "mutation_boundary \<Rightarrow> seq \<Rightarrow> mutation_entry list \<Rightarrow> batch_entry list" where
  "mutation_batch b sq entries =
     (hd (map plain_entry entries))\<lparr>be_expect := boundary_expectation b sq\<rparr> # tl (map plain_entry entries)"

lemma mutation_batch_content:
  "entries \<noteq> [] \<Longrightarrow> map batch_content (mutation_batch b sq entries) = map entry_content entries"
  by (cases entries) (auto simp: mutation_batch_def plain_entry_def batch_content_def entry_content_def)

lemma mutation_batch_holds:
  "entries \<noteq> [] \<Longrightarrow> batch_holds (mutation_batch b sq entries) l
     \<longleftrightarrow> guard_holds (boundary_expectation b sq) (me_subject (hd entries)) l"
  by (cases entries) (auto simp: mutation_batch_def batch_holds_def, auto simp: plain_entry_def)

lemma publishMutation_batch:
  assumes "\<And>e. entries \<noteq> [e]"
  shows "publishMutation br b sq entries s =
    (case appendBatch br (mutation_batch b sq entries) (mb_kind b \<noteq> MutationBoundaryUnguarded) s of
       (Inl err, s') \<Rightarrow> (Inl err, s') | (Inr sequences, s') \<Rightarrow> (Inr (sequences, True), s'))"
  using assms by (cases entries; cases "tl entries") (auto simp: publishMutation_def mutation_batch_def Let_def)

lemma publish_commit:
  assumes "broker_laws br log staged" and "publish br subject r e s = (Inr (sq, False), s')"
  obtains l where "prefix (log s) l" and "guard_holds e subject l"
    and "log s' = l @ [\<lparr>so_subject = subject, so_seq = sq, so_id = er_id r, so_data = er_data r\<rparr>]"
proof -
  let ?opts = "publishOpts (forSubject e subject) @ [WithMsgID (er_id r)]
    @ (if 0 < er_ttl r then [WithMsgTTL (er_ttl r)] else [])"
  have "br_publish br subject (er_data r) ?opts s = (Inr (sq, False), s')"
    using assms(2) by (auto simp: publish_def Let_def split: sum.splits prod.splits)
  with assms(1) obtain l where "prefix (log s) l" "\<forall>opt \<in> set ?opts. opt_holds subject l opt"
    "log s' = l @ [\<lparr>so_subject = subject, so_seq = sq, so_id = opts_id ?opts, so_data = er_data r\<rparr>]"
    unfolding broker_laws_def guards_publish_def by blast
  then show ?thesis unfolding opts_mean_guard opts_id_publish forSubject_holds by (rule that)
qed

lemma publish_conflict:
  assumes "broker_laws br log staged" and "publish br subject r e s = (Inl err, s')" and "isConflict err"
  obtains l where "prefix (log s) l" and "prefix l (log s')" and "\<not> guard_holds e subject l"
proof -
  let ?opts = "publishOpts (forSubject e subject) @ [WithMsgID (er_id r)]
    @ (if 0 < er_ttl r then [WithMsgTTL (er_ttl r)] else [])"
  from assms(2,3) obtain x where "br_publish br subject (er_data r) ?opts s = (Inl x, s')" "isSequenceConflict x"
    by (auto simp: publish_def Let_def split: sum.splits prod.splits if_splits)
  with assms(1) obtain l where "prefix (log s) l" "prefix l (log s')"
    "\<not> (\<forall>opt \<in> set ?opts. opt_holds subject l opt)"
    unfolding broker_laws_def guards_publish_def by blast
  then show ?thesis unfolding opts_mean_guard forSubject_holds by (rule that)
qed

lemma publishMutation_commit:
  assumes laws: "broker_laws br log staged" and "entries \<noteq> []"
    and ok: "publishMutation br b sq entries s = (Inr (seqs, True), s')"
  obtains l new where "prefix (log s) l" and "log s' = l @ new"
    and "guard_holds (boundary_expectation b sq) (me_subject (hd entries)) l"
    and "map so_seq new = seqs" and "map stored_content new = map entry_content entries"
proof (cases "\<exists>e. entries = [e]")
  case True
  then obtain e where e: "entries = [e]" by blast
  from ok obtain q where "publish br (me_subject e) (me_record e) (boundary_expectation b sq) s = (Inr (q, False), s')"
    "seqs = [q]"
    by (auto simp: publishMutation_def e split: option.splits sum.splits prod.splits)
  note q = this
  from publish_commit [OF laws q(1)] obtain l where "prefix (log s) l"
    "guard_holds (boundary_expectation b sq) (me_subject e) l"
    "log s' = l @ [\<lparr>so_subject = me_subject e, so_seq = q, so_id = er_id (me_record e), so_data = er_data (me_record e)\<rparr>]"
    by blast
  then show ?thesis
    by (intro that [of l "[\<lparr>so_subject = me_subject e, so_seq = q, so_id = er_id (me_record e), so_data = er_data (me_record e)\<rparr>]"])
      (simp_all add: e q(2) stored_content_def entry_content_def)
next
  case False
  with ok obtain g where app: "appendBatch br (mutation_batch b sq entries) g s = (Inr seqs, s')"
    using publishMutation_batch [of entries br b sq s] by (auto split: sum.splits prod.splits)
  have laws': "only_grows br log" "guards_batches br log staged" using laws by (simp_all add: broker_laws_def)
  have "mutation_batch b sq entries \<noteq> []" by (simp add: mutation_batch_def)
  from appendBatch_commit [OF laws' app this] obtain l new where "prefix (log s) l"
    "batch_holds (mutation_batch b sq entries) l" "log s' = l @ new" "map so_seq new = seqs"
    "map stored_content new = map batch_content (mutation_batch b sq entries)" by blast
  then show ?thesis
    by (intro that [of l new]) (simp_all add: mutation_batch_content mutation_batch_holds assms(2))
qed

lemma publishMutation_conflict:
  assumes laws: "broker_laws br log staged" and "entries \<noteq> []"
    and fails: "publishMutation br b sq entries s = (Inl err, s')" and "isConflict err"
  obtains l where "prefix (log s) l" and "prefix l (log s')"
    and "\<not> guard_holds (boundary_expectation b sq) (me_subject (hd entries)) l"
proof (cases "\<exists>e. entries = [e]")
  case True
  then obtain e where e: "entries = [e]" by blast
  from fails \<open>isConflict err\<close>
  have "publish br (me_subject e) (me_record e) (boundary_expectation b sq) s = (Inl err, s')"
    by (auto simp: publishMutation_def e validateEncodedRecord_def split: if_splits sum.splits prod.splits)
  from publish_conflict [OF laws this \<open>isConflict err\<close>] obtain l where "prefix (log s) l" "prefix l (log s')"
    "\<not> guard_holds (boundary_expectation b sq) (me_subject e) l" by blast
  then show ?thesis by (intro that [of l]) (simp_all add: e)
next
  case False
  with fails obtain g where app: "appendBatch br (mutation_batch b sq entries) g s = (Inl err, s')"
    using publishMutation_batch [of entries br b sq s] by (auto split: sum.splits prod.splits)
  have laws': "only_grows br log" "guards_batches br log staged" using laws by (simp_all add: broker_laws_def)
  have "mutation_batch b sq entries \<noteq> []" by (simp add: mutation_batch_def)
  from appendBatch_conflict [OF laws' app \<open>isConflict err\<close> this] obtain l where "prefix (log s) l"
    "prefix l (log s')" "\<not> batch_holds (mutation_batch b sq entries) l" by blast
  then show ?thesis by (intro that [of l]) (simp_all add: mutation_batch_holds assms(2))
qed

lemma reads_last_msg:
  "reads_tails br log \<Longrightarrow> br_last_msg br f s = (Inr r, s')
     \<Longrightarrow> r = (if matching f (log s') = [] then None else Some (tail_of f (log s')))"
  unfolding reads_tails_def by blast

lemma LastSubjectSeq_reads:
  assumes "broker_laws br log staged" and "LastSubjectSeq br f s = (Inr sq, s')"
  shows "sq = tail_of f (log s') \<and> prefix (log s) (log s')"
proof -
  from assms(2) obtain r where r: "br_last_msg br f s = (Inr r, s')" "sq = (case r of None \<Rightarrow> 0 | Some q \<Rightarrow> q)"
    by (auto simp: LastSubjectSeq_def LastSubjectPosition_def lastSubjectSeq_def SubjectPosition_def
        split: sum.splits prod.splits option.splits)
  have "r = (if matching f (log s') = [] then None else Some (tail_of f (log s')))"
    using assms(1) r(1) by (intro reads_last_msg) (auto simp: broker_laws_def)
  with r assms(1) show ?thesis
    by (auto simp: broker_laws_def tail_of_def stream_tail_def intro: grows_last_msg)
qed

lemma boundarySeq_reads:
  assumes "broker_laws br log staged" and "guarded b" and "mutationBoundarySeq br b s = (Inr sq, s')"
  shows "sq = boundary_tail b (log s')"
  using assms(2,3) LastSubjectSeq_reads [OF assms(1)]
    assms(1) [unfolded broker_laws_def reads_tails_def]
  by (auto simp: guarded_def mutationBoundarySeq_def boundary_tail_def covers_def tail_of_def LastStreamSeq_def
      split: sum.splits prod.splits)

text \<open>How one attempt of the loop ends.\<close>

lemma mutationLoop_cases:
  fixes br :: "('s, 'x) broker" and decide :: "mutation_attempt \<Rightarrow> 's \<Rightarrow> ('d + mutation_entry list) \<times> 's"
  assumes run: "mutationLoop br b decide attempt lastErr result0 s = ((result, err), s')"
  obtains
    (over) "maxMutationAttempts < attempt" "result = result0" "err = Some (AttemptsExhausted lastErr)"
  | (unread) e s1 where "attempt \<le> maxMutationAttempts" "mutationBoundarySeq br b s = (Inl e :: ('d, 'x) mutation_error + seq, s1)"
      "result = result0" "err = Some e"
  | (refused) x where "attempt \<le> maxMutationAttempts" "result = result0\<lparr>mr_attempts := attempt\<rparr>"
      "err = Some (DecisionFailed x)"
  | (nothing) "attempt \<le> maxMutationAttempts" "result = result0\<lparr>mr_attempts := attempt\<rparr>" "err = None"
  | (committed) sq s1 entries s2 seqs fin where "attempt \<le> maxMutationAttempts"
      "mutationBoundarySeq br b s = (Inr sq :: ('d, 'x) mutation_error + seq, s1)"
      "decide \<lparr>at_number = attempt, at_expected = sq\<rparr> s1 = (Inr entries, s2)" "entries \<noteq> []"
      "publishMutation br b sq entries s2 = (Inr (seqs, fin), s')"
      "result = result0\<lparr>mr_attempts := attempt, mr_sequences := seqs, mr_committed := fin\<rparr>" "err = None"
  | (failed) e where "attempt \<le> maxMutationAttempts" "result = result0\<lparr>mr_attempts := attempt\<rparr>"
      "\<not> isConflict e" "err = Some (CommitFailed e)"
  | (conflict) sq s1 entries s2 e s3 where "attempt \<le> maxMutationAttempts"
      "mutationBoundarySeq br b s = (Inr sq :: ('d, 'x) mutation_error + seq, s1)"
      "decide \<lparr>at_number = attempt, at_expected = sq\<rparr> s1 = (Inr entries, s2)" "entries \<noteq> []"
      "publishMutation br b sq entries s2 = (Inl e, s3)" "isConflict e"
      "attempt = maxMutationAttempts \<and> err = Some (AttemptsExhausted (Some e))
         \<and> result = result0\<lparr>mr_attempts := attempt, mr_conflicts := mr_conflicts result0 + 1\<rparr>
       \<or> attempt < maxMutationAttempts \<and> (\<exists>x. err = Some (RetryCancelled x))
         \<and> result = result0\<lparr>mr_attempts := attempt, mr_conflicts := mr_conflicts result0 + 1\<rparr>
       \<or> attempt < maxMutationAttempts \<and> (\<exists>s4. mutationLoop br b decide (attempt + 1) (Some e)
            (result0\<lparr>mr_attempts := attempt, mr_conflicts := mr_conflicts result0 + 1\<rparr>) s4 = ((result, err), s'))"
proof (cases "maxMutationAttempts < attempt")
  case True
  with run over show ?thesis by (simp add: mutationLoop.simps [of br b decide attempt])
next
  case False
  then have le: "attempt \<le> maxMutationAttempts" by simp
  obtain r s1 where tl: "mutationBoundarySeq br b s = (r :: ('d, 'x) mutation_error + seq, s1)" by fastforce
  show ?thesis
  proof (cases r)
    case (Inl e)
    with run le tl unread [OF le] show ?thesis by (simp add: mutationLoop.simps [of br b decide attempt])
  next
    case (Inr sq)
    note tl = tl [unfolded Inr]
    obtain d s2 where d: "decide \<lparr>at_number = attempt, at_expected = sq\<rparr> s1 = (d, s2)" by fastforce
    show ?thesis
    proof (cases d)
      case (Inl x)
      with run le tl d show ?thesis by (intro refused [OF le, of x]) (simp_all add: mutationLoop.simps [of br b decide attempt])
    next
      case (Inr entries)
      note d = d [unfolded Inr]
      obtain p s3 where p: "publishMutation br b sq entries s2 = (p, s3)" by fastforce
      show ?thesis
      proof (cases "entries = []")
        case True
        with run le tl d have "result = result0\<lparr>mr_attempts := attempt\<rparr>" "err = None"
          by (simp_all add: mutationLoop.simps [of br b decide attempt])
        with le show ?thesis by (rule nothing)
      next
        case ne: False
        have unf: "(case p of
            Inr (seqs, fin) \<Rightarrow>
              ((result0\<lparr>mr_attempts := attempt, mr_sequences := seqs, mr_committed := fin\<rparr>, None), s3)
          | Inl err \<Rightarrow>
              if \<not> isConflict err then ((result0\<lparr>mr_attempts := attempt\<rparr>, Some (CommitFailed err)), s3)
              else (let result2 = result0\<lparr>mr_attempts := attempt,
                  mr_conflicts := mr_conflicts (result0\<lparr>mr_attempts := attempt\<rparr>) + 1\<rparr> in
                if attempt = maxMutationAttempts
                then ((result2, Some (AttemptsExhausted (Some err))), s3)
                else (case br_pause br attempt s3 of
                    (Some x, s4) \<Rightarrow> ((result2, Some (RetryCancelled x)), s4)
                  | (None, s4) \<Rightarrow> mutationLoop br b decide (attempt + 1) (Some err) result2 s4)))
          = ((result, err), s')"
          using run le ne tl d p by (cases p) (simp_all only: mutationLoop.simps [of br b decide attempt] Let_def, simp_all)
        show ?thesis
        proof (cases p)
          case (Inr ok)
          obtain seqs fin where ok: "ok = (seqs, fin)" by (cases ok) auto
          show ?thesis
            using unf le ne p by (intro committed [OF le tl d ne]) (auto simp: Inr ok)
        next
          case (Inl e)
          show ?thesis
          proof (cases "isConflict e")
            case False
            with unf le ne failed [OF le _ False] show ?thesis by (auto simp: Inl)
          next
            case True
            obtain w s4 where w: "br_pause br attempt s3 = (w, s4)" by fastforce
            show ?thesis
              using unf le ne True w
              by (intro conflict [OF le tl d ne p [unfolded Inl] True])
                (cases w; auto simp: Inl Let_def split: if_splits)
          qed
        qed
      qed
    qed
  qed
qed

section \<open>A committed decision\<close>

definition decides_forward ::
  "(mutation_attempt \<Rightarrow> 's \<Rightarrow> ('d + mutation_entry list) \<times> 's) \<Rightarrow> ('s \<Rightarrow> stored list) \<Rightarrow> bool" where
  "decides_forward decide log \<longleftrightarrow> (\<forall>a s. prefix (log s) (log (snd (decide a s))))"

text \<open>The records of a commit stand right behind a stream that covers, for the boundary, what
  the stream covered when the decision was made.\<close>

definition decided_on ::
  "('s \<Rightarrow> stored list) \<Rightarrow> mutation_boundary \<Rightarrow> (mutation_attempt \<Rightarrow> 's \<Rightarrow> ('d + mutation_entry list) \<times> 's)
     \<Rightarrow> mutation_result \<Rightarrow> 's \<Rightarrow> bool" where
  "decided_on log b decide result s' \<longleftrightarrow>
     (\<exists>s0 s1 entries l new.
        decide \<lparr>at_number = mr_attempts result, at_expected = boundary_tail b (log s0)\<rparr> s0 = (Inr entries, s1)
        \<and> log s' = l @ new \<and> prefix (log s0) l \<and> covers b l = covers b (log s0)
        \<and> map so_seq new = mr_sequences result \<and> map stored_content new = map entry_content entries)"

lemma mutationLoop_commits:
  fixes br :: "('s, 'x) broker" and decide :: "mutation_attempt \<Rightarrow> 's \<Rightarrow> ('d + mutation_entry list) \<times> 's"
  assumes laws: "broker_laws br log staged" and dec: "decides_forward decide log" and b: "guarded b"
    and run: "mutationLoop br b decide attempt lastErr result0 s = ((result, err), s')"
    and "mr_committed result" and "\<not> mr_committed result0"
  shows "decided_on log b decide result s'"
  using run assms(6)
proof (induction "6 - attempt" arbitrary: attempt lastErr result0 s rule: less_induct)
  case less
  from less.prems(1) show ?case
  proof (cases rule: mutationLoop_cases)
    case (committed sq s1 entries s2 seqs dn)
    with assms(5) have dn: "dn = True" by simp
    have sq: "sq = boundary_tail b (log s1)" by (rule boundarySeq_reads [OF laws b committed(2)])
    from publishMutation_commit [OF laws committed(4) committed(5) [unfolded dn]] obtain l new where
      c: "prefix (log s2) l" "log s' = l @ new"
      "guard_holds (boundary_expectation b sq) (me_subject (hd entries)) l"
      "map so_seq new = seqs" "map stored_content new = map entry_content entries" by blast
    have "prefix (log s1) (log s2)"
      using dec committed(3) unfolding decides_forward_def by (metis snd_conv)
    from this c(1) have pre: "prefix (log s1) l" by (rule prefix_order.trans)
    have "stored_ok l"
      using laws grows_stored [of br log s'] c(2) by (auto simp: broker_laws_def dest: stored_ok_append)
    moreover have "boundary_tail b l = boundary_tail b (log s1)"
      using c(3) boundary_guard [OF b] sq by simp
    ultimately have "covers b l = covers b (log s1)" using pre by (intro same_cover) auto
    with committed(3,6) sq c pre show ?thesis
      unfolding decided_on_def
      by (intro exI [of _ s1] exI [of _ s2] exI [of _ entries] exI [of _ l] exI [of _ new]) simp
  next
    case (conflict sq s1 entries s2 e s3)
    then consider "result = result0\<lparr>mr_attempts := attempt, mr_conflicts := mr_conflicts result0 + 1\<rparr>"
      | s4 where "attempt < maxMutationAttempts" "mutationLoop br b decide (attempt + 1) (Some e)
            (result0\<lparr>mr_attempts := attempt, mr_conflicts := mr_conflicts result0 + 1\<rparr>) s4 = ((result, err), s')"
      by blast
    then show ?thesis
    proof cases
      case 1
      with assms(5) less.prems(2) show ?thesis by simp
    next
      case 2
      from less.hyps [OF _ 2(2)] 2(1) less.prems(2) show ?thesis by simp
    qed
  qed (use assms(5) less.prems(2) in auto)
qed

lemma ExecuteMutation_loop:
  fixes br :: "('s, 'x) broker" and decide :: "mutation_attempt \<Rightarrow> 's \<Rightarrow> ('d + mutation_entry list) \<times> 's"
  assumes "ExecuteMutation br b (Some decide) s = ((result, err), s')"
  obtains "validateMutationBoundary b = (None :: ('d, 'x) mutation_error option)"
      "mutationLoop br b decide 1 None no_result s = ((result, err), s')"
  | "result = no_result" "err \<noteq> None" "err = validateMutationBoundary b" "s' = s"
  using assms by (auto simp: ExecuteMutation_def split: option.splits)

text \<open>C7 (safety). A mutation that commits under a subject or stream boundary was decided on
  the state it lands on: the records stand, in the order of the decision and at the reported
  sequences, behind a stream that within the boundary holds exactly what it held when the
  last decision was made, however other writers, projections and retries interleaved.\<close>

theorem committed_decision_is_current:
  assumes "broker_laws br log staged" and "decides_forward decide log" and "guarded b"
    and "ExecuteMutation br b (Some decide) s = ((result, None), s')" and "mr_committed result"
  shows "\<exists>s0 s1 entries l new.
    decide \<lparr>at_number = mr_attempts result, at_expected = boundary_tail b (log s0)\<rparr> s0 = (Inr entries, s1)
    \<and> log s' = l @ new \<and> prefix (log s0) l \<and> covers b l = covers b (log s0)
    \<and> map so_seq new = mr_sequences result \<and> map stored_content new = map entry_content entries"
  using assms(4)
proof (cases rule: ExecuteMutation_loop)
  case 1
  from mutationLoop_commits [OF assms(1-3) 1(2) assms(5)] show ?thesis
    by (simp add: decided_on_def no_result_def)
qed auto

section \<open>The number of attempts\<close>

definition outcome_ok :: "nat \<Rightarrow> mutation_result \<Rightarrow> ('d, 'x) mutation_error option \<Rightarrow> bool" where
  "outcome_ok conflicts0 result err \<longleftrightarrow>
     mr_attempts result \<le> maxMutationAttempts \<and> mr_conflicts result \<le> mr_attempts result
     \<and> (err = None \<longrightarrow> mr_attempts result = mr_conflicts result + 1)
     \<and> (err \<noteq> None \<longrightarrow> mr_sequences result = [] \<and> \<not> mr_committed result)
     \<and> (\<forall>e. err = Some (AttemptsExhausted e) \<longrightarrow>
          mr_conflicts result = maxMutationAttempts \<and> (\<exists>c. e = Some c \<and> isConflict c))
     \<and> conflicts0 \<le> mr_conflicts result"

lemma mutationLoop_outcome:
  fixes br :: "('s, 'x) broker" and decide :: "mutation_attempt \<Rightarrow> 's \<Rightarrow> ('d + mutation_entry list) \<times> 's"
  assumes "mutationLoop br b decide attempt lastErr result0 s = ((result, err), s')"
    and "mr_conflicts result0 = attempt - 1" and "mr_attempts result0 = attempt - 1"
    and "1 \<le> attempt" and "attempt \<le> maxMutationAttempts"
    and "mr_sequences result0 = [] \<and> \<not> mr_committed result0"
  shows "outcome_ok (attempt - 1) result err"
  using assms
proof (induction "6 - attempt" arbitrary: attempt lastErr result0 s rule: less_induct)
  case less
  from less.prems(1) show ?case
  proof (cases rule: mutationLoop_cases)
    case (conflict sq s1 entries s2 e s3)
    then consider "attempt = maxMutationAttempts" "err = Some (AttemptsExhausted (Some e))"
        "result = result0\<lparr>mr_attempts := attempt, mr_conflicts := mr_conflicts result0 + 1\<rparr>"
      | x where "err = Some (RetryCancelled x)"
        "result = result0\<lparr>mr_attempts := attempt, mr_conflicts := mr_conflicts result0 + 1\<rparr>"
      | s4 where "attempt < maxMutationAttempts" "mutationLoop br b decide (attempt + 1) (Some e)
            (result0\<lparr>mr_attempts := attempt, mr_conflicts := mr_conflicts result0 + 1\<rparr>) s4 = ((result, err), s')"
      by blast
    then show ?thesis
    proof cases
      case 3
      have "6 - (attempt + 1) < 6 - attempt" using 3(1) by arith
      from less.hyps [OF this 3(2)] 3(1) less.prems have "outcome_ok attempt result err" by simp
      then show ?thesis by (simp add: outcome_ok_def, linarith)
    qed (use less.prems conflict(6) in \<open>auto simp: outcome_ok_def\<close>)
  next
    case (unread e s1)
    then show ?thesis using less.prems
      by (auto simp: outcome_ok_def mutationBoundarySeq_def
          split: mutationBoundaryKind.splits prod.splits sum.splits)
  qed (use less.prems in \<open>auto simp: outcome_ok_def\<close>)
qed

text \<open>A mutation makes at most five attempts; a success took one attempt more than
  it met conflicts; giving up means five conflicts and reports the last; and whatever fails
  reports no sequences and no commit.\<close>

theorem mutation_attempts_bounded:
  "case fst (ExecuteMutation br b decide s) of (result, err) \<Rightarrow>
     mr_attempts result \<le> maxMutationAttempts \<and> mr_conflicts result \<le> mr_attempts result
     \<and> (if err = None then mr_attempts result = mr_conflicts result + 1
        else mr_sequences result = [] \<and> \<not> mr_committed result)
     \<and> (case err of
          Some (AttemptsExhausted e) \<Rightarrow> mr_conflicts result = maxMutationAttempts \<and> (\<exists>c. e = Some c \<and> isConflict c)
        | _ \<Rightarrow> True)"
proof (cases decide)
  case None
  then show ?thesis
    by (auto simp: ExecuteMutation_def no_result_def validateMutationBoundary_def
        split: option.splits mutationBoundaryKind.splits)
next
  case (Some f)
  obtain result err s' where run: "ExecuteMutation br b (Some f) s = ((result, err), s')"
    by (metis prod.exhaust)
  from run have "outcome_ok 0 result err"
  proof (cases rule: ExecuteMutation_loop)
    case 1
    from mutationLoop_outcome [OF 1(2)] show ?thesis by (simp add: no_result_def)
  next
    case 2
    then show ?thesis
      by (auto simp: outcome_ok_def no_result_def validateMutationBoundary_def
          split: mutationBoundaryKind.splits if_splits)
  qed
  with run Some show ?thesis by (auto simp: outcome_ok_def split: option.splits mutation_error.splits)
qed

section \<open>Without contention\<close>

text \<open>Nobody else writes inside the boundary while the mutation runs.\<close>

definition uncontended ::
  "('s, 'x) broker \<Rightarrow> ('s \<Rightarrow> stored list) \<Rightarrow> mutation_boundary
     \<Rightarrow> (mutation_attempt \<Rightarrow> 's \<Rightarrow> ('d + mutation_entry list) \<times> 's) \<Rightarrow> bool" where
  "uncontended br log b decide \<longleftrightarrow>
     (\<forall>a s. covers b (log (snd (decide a s))) = covers b (log s))
     \<and> (\<forall>s. covers b (log (snd (br_random br s))) = covers b (log s))
     \<and> (\<forall>subject data opts s err s'. br_publish br subject data opts s = (Inl err, s')
          \<longrightarrow> covers b (log s') = covers b (log s))
     \<and> (\<forall>msg s r s'. br_request br msg s = (r, s')
          \<and> \<not> (BatchCommit \<in> set (bm_headers msg) \<and> (\<exists>reply. r = Inr reply \<and> accepted reply))
          \<longrightarrow> covers b (log s') = covers b (log s))"

lemma covers_prefix: "prefix l l' \<Longrightarrow> prefix (covers b l) (covers b l')"
  by (auto simp: covers_def prefix_def)

lemma covers_between:
  assumes "prefix l0 l" and "prefix l l'" and "covers b l' = covers b l0"
  shows "covers b l = covers b l0"
  using covers_prefix [OF assms(1), of b] covers_prefix [OF assms(2), of b] assms(3)
  by (simp add: prefix_order.antisym)

lemma stage_uncontended:
  assumes "uncontended br log b decide" and "stageEntries br batchID i entries s = (r, s')"
  shows "covers b (log s') = covers b (log s)"
  using assms(2)
proof (induction entries arbitrary: i s)
  case (Cons e es)
  obtain q s1 where q: "br_request br (buildEncodedBatchMsg e batchID (of_nat (i + 1)) False) s = (q, s1)"
    by fastforce
  have "covers b (log s1) = covers b (log s)"
    using assms(1) q unfolding uncontended_def by (metis built_msg(5))
  with Cons q show ?case by (auto simp: publishBatchEntry_def split: sum.splits prod.splits)
qed simp

lemma appendBatch_uncontended:
  assumes "uncontended br log b decide" and "appendBatch br entries g s = (Inl err, s')"
    and "isConflict err"
  shows "covers b (log s') = covers b (log s)"
proof -
  have random: "br_random br s = (r, s1) \<Longrightarrow> covers b (log s1) = covers b (log s)" for r s1
    using assms(1) unfolding uncontended_def by (metis snd_conv)
  have commit: "br_request br m s2 = (r, s3) \<Longrightarrow> (\<forall>reply. r = Inr reply \<longrightarrow> \<not> accepted reply)
      \<Longrightarrow> covers b (log s3) = covers b (log s2)" for m s2 r s3
    using assms(1) unfolding uncontended_def by blast
  have rejected: "decodeBatchAck reply e = Inl x \<Longrightarrow> \<not> accepted reply" for reply and e x :: "'b log_error"
    by (auto simp: decodeBatchAck_def accepted_def split: option.splits)
  from assms(2,3) show ?thesis
    by (auto simp: appendBatch_def publishBatchEntry_def dest!: random stage_uncontended [OF assms(1)] commit
        dest: rejected checkEntries_error split: if_splits sum.splits prod.splits option.splits)
qed

lemma publishMutation_uncontended:
  assumes "uncontended br log b decide" and "entries \<noteq> []"
    and "publishMutation br b sq entries s = (Inl err, s')" and "isConflict err"
  shows "covers b (log s') = covers b (log s)"
proof (cases "\<exists>e. entries = [e]")
  case True
  then obtain e where e: "entries = [e]" by blast
  from assms(3,4) obtain subject data opts x where "br_publish br subject data opts s = (Inl x, s')"
    by (auto simp: e publishMutation_def publish_def validateEncodedRecord_def Let_def
        split: if_splits sum.splits prod.splits option.splits)
  with assms(1) show ?thesis unfolding uncontended_def by blast
next
  case False
  with assms(3) obtain g where "appendBatch br (mutation_batch b sq entries) g s = (Inl err, s')"
    using publishMutation_batch [of entries br b sq s] by (auto split: sum.splits prod.splits)
  from appendBatch_uncontended [OF assms(1) this assms(4)] show ?thesis .
qed

text \<open>A mutation that nobody contends with never conflicts: when no other writer
  adds a record inside the boundary - or the boundary is unguarded, whatever others do - the
  first decision is final, so the call ends after one attempt with no retry.\<close>

theorem uncontended_mutation_is_immediate:
  fixes br :: "('s, 'x) broker" and decide :: "mutation_attempt \<Rightarrow> 's \<Rightarrow> ('d + mutation_entry list) \<times> 's"
  assumes "broker_laws br log staged"
    and "guarded b \<and> uncontended br log b decide \<or> mb_kind b = MutationBoundaryUnguarded"
  shows "case fst (ExecuteMutation br b (Some decide) s) of (result, err) \<Rightarrow>
     mr_conflicts result = 0 \<and> mr_attempts result \<le> 1"
proof -
  have never: False
    if "mutationBoundarySeq br b s0 = (Inr sq :: ('d, 'x) mutation_error + seq, s1)"
      "decide \<lparr>at_number = 1, at_expected = sq\<rparr> s1 = (Inr entries, s2)" "entries \<noteq> []"
      "publishMutation br b sq entries s2 = (Inl e, s3)" "isConflict e" for s0 sq s1 entries s2 e s3
  proof -
    from publishMutation_conflict [OF assms(1) that(3-5)] obtain l where l: "prefix (log s2) l" "prefix l (log s3)"
      "\<not> guard_holds (boundary_expectation b sq) (me_subject (hd entries)) l" by blast
    from assms(2) l(3) have g: "guarded b" "uncontended br log b decide" by (auto simp: unguarded_holds)
    have "covers b (log s3) = covers b (log s2)"
      by (rule publishMutation_uncontended [OF g(2) that(3-5)])
    then have "covers b l = covers b (log s2)" by (rule covers_between [OF l(1,2)])
    moreover have "covers b (log s2) = covers b (log s1)"
      using g(2) that(2) unfolding uncontended_def by (metis snd_conv)
    moreover have "sq = boundary_tail b (log s1)" by (rule boundarySeq_reads [OF assms(1) g(1) that(1)])
    ultimately show False using l(3) by (simp add: boundary_guard [OF g(1)] boundary_tail_def)
  qed
  obtain result err s' where run: "ExecuteMutation br b (Some decide) s = ((result, err), s')"
    by (metis prod.exhaust)
  from run have "mr_conflicts result = 0 \<and> mr_attempts result \<le> 1"
  proof (cases rule: ExecuteMutation_loop)
    case 1
    from 1(2) show ?thesis
    proof (cases rule: mutationLoop_cases)
      case (conflict sq s1 entries s2 e s3)
      from never [OF conflict(2-6)] show ?thesis by blast
    qed (auto simp: no_result_def)
  qed (simp add: no_result_def)
  with run show ?thesis by simp
qed

end
