(* ===== verification/Event_Subjects.thy ===== *)
theory Event_Subjects
  imports Subject_Filter RBAC_Projection
begin

text \<open>
  The subjects of the event log (\<open>internal/evtstream/subjects.go\<close>): aggregates, the subject
  of an event of an aggregate, the wildcard filters that fence one aggregate, one kind of
  aggregate or one event type, and the parsers that read an aggregate's identity back. The
  event type tokens are those of the RBAC aggregate, which \<open>rbac_events.go\<close> writes.
\<close>

section \<open>Aggregates\<close>

abbreviation SubjectRoot :: string where "SubjectRoot \<equiv> ''evt.''"
abbreviation AggregateSetup :: string where "AggregateSetup \<equiv> ''setup''"
abbreviation AggregateRoom :: string where "AggregateRoom \<equiv> ''room''"
abbreviation AggregateConfig :: string where "AggregateConfig \<equiv> ''config''"
abbreviation AggregateGroup :: string where "AggregateGroup \<equiv> ''group''"
abbreviation AggregateLayout :: string where "AggregateLayout \<equiv> ''layout''"
abbreviation AggregateUser :: string where "AggregateUser \<equiv> ''user''"
abbreviation AggregateAsset :: string where "AggregateAsset \<equiv> ''asset''"
abbreviation AggregateRBAC :: string where "AggregateRBAC \<equiv> ''rbac''"
abbreviation AggregateAuth :: string where "AggregateAuth \<equiv> ''auth''"
abbreviation AggregateInvitation :: string where "AggregateInvitation \<equiv> ''invitation''"
abbreviation RBACServerID :: string where "RBACServerID \<equiv> ''server''"
abbreviation RBACDMID :: string where "RBACDMID \<equiv> ''dm''"

record aggregate =
  ag_type :: string
  ag_id :: string

definition Subject :: "aggregate \<Rightarrow> string \<Rightarrow> string" where
  "Subject a eventType = SubjectRoot @ ag_type a @ ''.'' @ ag_id a @ ''.'' @ eventType"

definition AllEventsFilter :: "aggregate \<Rightarrow> string" where
  "AllEventsFilter a = SubjectRoot @ ag_type a @ ''.'' @ ag_id a @ ''.>''"

definition RoomAggregate :: "string \<Rightarrow> aggregate" where
  "RoomAggregate roomID = \<lparr>ag_type = AggregateRoom, ag_id = roomID\<rparr>"

definition GroupAggregate :: "string \<Rightarrow> aggregate" where
  "GroupAggregate groupID = \<lparr>ag_type = AggregateGroup, ag_id = groupID\<rparr>"

definition LayoutAggregate :: aggregate where
  "LayoutAggregate = \<lparr>ag_type = AggregateLayout, ag_id = ''default''\<rparr>"

definition ConfigAggregate :: aggregate where
  "ConfigAggregate = \<lparr>ag_type = AggregateConfig, ag_id = ''server''\<rparr>"

definition ConfigSubjectAggregate :: "string \<Rightarrow> aggregate" where
  "ConfigSubjectAggregate subject = \<lparr>ag_type = AggregateConfig, ag_id = subject\<rparr>"

definition UserAggregate :: "string \<Rightarrow> aggregate" where
  "UserAggregate userID = \<lparr>ag_type = AggregateUser, ag_id = userID\<rparr>"

definition AssetAggregate :: "string \<Rightarrow> aggregate" where
  "AssetAggregate assetID = \<lparr>ag_type = AggregateAsset, ag_id = assetID\<rparr>"

definition RBACServerAggregate :: aggregate where
  "RBACServerAggregate = \<lparr>ag_type = AggregateRBAC, ag_id = RBACServerID\<rparr>"

definition RBACAggregate :: aggregate where
  "RBACAggregate = RBACServerAggregate"

definition RBACDMAggregate :: aggregate where
  "RBACDMAggregate = \<lparr>ag_type = AggregateRBAC, ag_id = RBACDMID\<rparr>"

definition RBACScopedAggregate :: "string \<Rightarrow> aggregate" where
  "RBACScopedAggregate scopeID =
     (if scopeID = [] then RBACServerAggregate else \<lparr>ag_type = AggregateRBAC, ag_id = scopeID\<rparr>)"

definition AuthAggregate :: aggregate where
  "AuthAggregate = \<lparr>ag_type = AggregateAuth, ag_id = ''server''\<rparr>"

definition InvitationAggregate :: "string \<Rightarrow> aggregate" where
  "InvitationAggregate invitationID = \<lparr>ag_type = AggregateInvitation, ag_id = invitationID\<rparr>"

definition SetupAggregate :: aggregate where
  "SetupAggregate = \<lparr>ag_type = AggregateSetup, ag_id = ''server''\<rparr>"

definition ImportAggregate :: aggregate where
  "ImportAggregate = \<lparr>ag_type = ''import'', ag_id = ''server''\<rparr>"

section \<open>Filters\<close>

definition EventSubjectFilter :: string where "EventSubjectFilter = SubjectRoot @ ''>''"
definition RoomSubjectFilter :: string where "RoomSubjectFilter = SubjectRoot @ AggregateRoom @ ''.>''"
definition GroupSubjectFilter :: string where "GroupSubjectFilter = SubjectRoot @ AggregateGroup @ ''.>''"
definition LayoutSubjectFilter :: string where "LayoutSubjectFilter = SubjectRoot @ AggregateLayout @ ''.>''"
definition ConfigSubjectFilter :: string where "ConfigSubjectFilter = SubjectRoot @ AggregateConfig @ ''.>''"
definition UserSubjectFilter :: string where "UserSubjectFilter = SubjectRoot @ AggregateUser @ ''.>''"
definition AssetSubjectFilter :: string where "AssetSubjectFilter = SubjectRoot @ AggregateAsset @ ''.>''"
definition RBACSubjectFilter :: string where "RBACSubjectFilter = SubjectRoot @ AggregateRBAC @ ''.>''"
definition AuthSubjectFilter :: string where "AuthSubjectFilter = SubjectRoot @ AggregateAuth @ ''.>''"
definition InvitationSubjectFilter :: string where "InvitationSubjectFilter = SubjectRoot @ AggregateInvitation @ ''.>''"

definition AggregateEventTypeFilter :: "string \<Rightarrow> string \<Rightarrow> string" where
  "AggregateEventTypeFilter aggregateType eventType = SubjectRoot @ aggregateType @ ''.*.'' @ eventType"

definition RoomEventTypeFilter :: "string \<Rightarrow> string" where
  "RoomEventTypeFilter eventType = AggregateEventTypeFilter AggregateRoom eventType"

definition GroupEventTypeFilter :: "string \<Rightarrow> string" where
  "GroupEventTypeFilter eventType = AggregateEventTypeFilter AggregateGroup eventType"

definition ConfigEventTypeFilter :: "string \<Rightarrow> string" where
  "ConfigEventTypeFilter eventType = AggregateEventTypeFilter AggregateConfig eventType"

definition UserEventTypeFilter :: "string \<Rightarrow> string" where
  "UserEventTypeFilter eventType = AggregateEventTypeFilter AggregateUser eventType"

definition AssetEventTypeFilter :: "string \<Rightarrow> string" where
  "AssetEventTypeFilter eventType = AggregateEventTypeFilter AggregateAsset eventType"

definition RBACEventTypeFilter :: "string \<Rightarrow> string" where
  "RBACEventTypeFilter eventType = AggregateEventTypeFilter AggregateRBAC eventType"

section \<open>Parsing\<close>

definition hasPrefix :: "string \<Rightarrow> string \<Rightarrow> bool" where
  "hasPrefix s p \<longleftrightarrow> take (length p) s = p"

definition stripLivePrefix :: "string \<Rightarrow> string" where
  "stripLivePrefix subject = (if hasPrefix subject ''live.'' then drop 5 subject else subject)"

text \<open>\<open>strings.Index(rest, ".")\<close>, \<^const>\<open>None\<close> for -1.\<close>

fun dotIndex :: "string \<Rightarrow> nat option" where
  "dotIndex [] = None"
| "dotIndex (c # s) = (if c = CHR ''.'' then Some 0 else map_option Suc (dotIndex s))"

definition parseAggregateSubject :: "string \<Rightarrow> string \<Rightarrow> string \<times> bool" where
  "parseAggregateSubject subject aggType =
     (let s = stripLivePrefix subject; p = SubjectRoot @ aggType @ ''.'' in
      if \<not> hasPrefix s p then ([], False)
      else let rest = drop (length p) s in
        case dotIndex rest of
          None \<Rightarrow> ([], False)
        | Some dot \<Rightarrow> if dot < 1 \<or> dot = length rest - 1 then ([], False) else (take dot rest, True))"

definition ParseRoomSubject :: "string \<Rightarrow> string \<times> bool" where
  "ParseRoomSubject subject = parseAggregateSubject subject AggregateRoom"

definition ParseGroupSubject :: "string \<Rightarrow> string \<times> bool" where
  "ParseGroupSubject subject = parseAggregateSubject subject AggregateGroup"

definition ParseUserSubject :: "string \<Rightarrow> string \<times> bool" where
  "ParseUserSubject subject = parseAggregateSubject subject AggregateUser"

definition ParseAssetSubject :: "string \<Rightarrow> string \<times> bool" where
  "ParseAssetSubject subject = parseAggregateSubject subject AggregateAsset"

section \<open>Subjects of RBAC events\<close>

fun rbacEventType :: "rbac_event \<Rightarrow> string" where
  "rbacEventType (RbacRoleCreated _) = ''role_created''"
| "rbacEventType (RbacRoleDisplayNameChanged _ _) = ''role_display_name_changed''"
| "rbacEventType (RbacRoleDescriptionChanged _ _) = ''role_description_changed''"
| "rbacEventType (RbacRolePingableChanged _ _) = ''role_pingable_changed''"
| "rbacEventType (RbacRoleDeleted _) = ''role_deleted''"
| "rbacEventType (RbacRolesReordered _) = ''roles_reordered''"
| "rbacEventType (RbacRoleAssigned _ _ _) = ''role_assigned''"
| "rbacEventType (RbacRoleRevoked _ _) = ''role_revoked''"
| "rbacEventType (RbacPermissionGranted _) = ''permission_granted''"
| "rbacEventType (RbacPermissionDenied _) = ''permission_denied''"
| "rbacEventType (RbacPermissionCleared _) = ''permission_cleared''"

definition rbacAggregateForPermissionScope :: "rbac_scope option \<Rightarrow> aggregate" where
  "rbacAggregateForPermissionScope scope =
     (case scope of
        None \<Rightarrow> RBACServerAggregate
      | Some sc \<Rightarrow>
          if sc_kind sc = SCOPE_KIND_SERVER then RBACServerAggregate
          else if sc_kind sc = SCOPE_KIND_DM then RBACDMAggregate
          else RBACScopedAggregate (sc_id sc))"

fun rbacAggregateForPayload :: "rbac_event \<Rightarrow> aggregate" where
  "rbacAggregateForPayload (RbacPermissionGranted e) = rbacAggregateForPermissionScope (pd_scope e)"
| "rbacAggregateForPayload (RbacPermissionDenied e) = rbacAggregateForPermissionScope (pd_scope e)"
| "rbacAggregateForPayload (RbacPermissionCleared e) = rbacAggregateForPermissionScope (pd_scope e)"
| "rbacAggregateForPayload _ = RBACServerAggregate"

text \<open>An event whose payload is not one of the RBAC events has no entry in the type switch
  that concerns this aggregate: its type token is empty here.\<close>

definition rbacAggregateForEvent :: "rbac_event event option \<Rightarrow> aggregate" where
  "rbacAggregateForEvent event =
     (case event of
        None \<Rightarrow> RBACServerAggregate
      | Some ev \<Rightarrow> (case ev_payload ev of None \<Rightarrow> RBACServerAggregate | Some e \<Rightarrow> rbacAggregateForPayload e))"

definition rbacSubjectForEvent :: "rbac_event event \<Rightarrow> string" where
  "rbacSubjectForEvent event =
     Subject (rbacAggregateForEvent (Some event))
       (case ev_payload event of None \<Rightarrow> [] | Some e \<Rightarrow> rbacEventType e)"

section \<open>Tokens of a subject\<close>

definition plain :: "string \<Rightarrow> bool" where
  "plain t \<longleftrightarrow> t \<noteq> [] \<and> CHR ''.'' \<notin> set t \<and> t \<noteq> ''*'' \<and> t \<noteq> ''>''"

lemma cut_dotless: "CHR ''.'' \<notin> set t \<Longrightarrow> cutToken (t @ CHR ''.'' # s) = (t, s, True)"
  by (induction t) auto

lemma cut_last: "CHR ''.'' \<notin> set t \<Longrightarrow> cutToken t = (t, [], False)"
  by (induction t) auto

lemma split_dotless: "CHR ''.'' \<notin> set t \<Longrightarrow> splitLoop (t @ CHR ''.'' # s) = t # splitLoop s"
  by (subst splitLoop.simps) (simp add: cut_dotless)

lemma split_last: "CHR ''.'' \<notin> set t \<Longrightarrow> splitLoop t = [t]"
  by (subst splitLoop.simps) (simp add: cut_last)

lemma split_evt: "splitLoop (''evt.'' @ s) = ''evt'' # splitLoop s"
  using split_dotless [of "''evt''" s] by simp

lemma match_by_tokens:
  "f \<noteq> [] \<Longrightarrow> s \<noteq> [] \<Longrightarrow> subjectMatchesFilter f s \<longleftrightarrow> tokens_match (splitLoop f) (splitLoop s)"
  using matchLoop_tokens [of 0 s "splitLoop f"]
  by (simp add: subjectMatchesFilter_def filter_matches_def compileSubjectFilter_def splitSubjectTokens_def
      tokens_from_def)

text \<open>The filter of one kind of aggregate, and of one aggregate.\<close>

lemma kind_filter:
  assumes "plain kind" and "CHR ''.'' \<notin> set (ag_type a)"
  shows "subjectMatchesFilter (''evt.'' @ kind @ ''.>'') (Subject a et) \<longleftrightarrow> ag_type a = kind \<and> ag_type a \<noteq> []"
proof -
  have f: "splitLoop (''evt.'' @ kind @ ''.>'') = [''evt'', kind, ''>'']"
    using split_evt [of "kind @ ''.>''"] split_dotless [of kind "''>''"] split_last [of "''>''"] assms(1)
    by (simp add: plain_def)
  have s: "splitLoop (Subject a et) = ''evt'' # ag_type a # splitLoop (ag_id a @ CHR ''.'' # et)"
    using split_evt [of "ag_type a @ ''.'' @ ag_id a @ ''.'' @ et"]
      split_dotless [OF assms(2), of "ag_id a @ ''.'' @ et"]
    by (simp add: Subject_def)
  have "subjectMatchesFilter (''evt.'' @ kind @ ''.>'') (Subject a et)
      \<longleftrightarrow> tokens_match [''evt'', kind, ''>''] (''evt'' # ag_type a # splitLoop (ag_id a @ CHR ''.'' # et))"
    unfolding f [symmetric] s [symmetric] by (rule match_by_tokens) (simp_all add: Subject_def)
  then show ?thesis
    using assms(1) by (auto simp: plain_def splitLoop_nonempty splitLoop_eq_empty_token)
qed

lemma aggregate_filter:
  assumes "plain (ag_type a)" and "plain (ag_id a)"
    and "CHR ''.'' \<notin> set (ag_type b)" and "CHR ''.'' \<notin> set (ag_id b)"
  shows "subjectMatchesFilter (AllEventsFilter a) (Subject b et)
    \<longleftrightarrow> ag_type a = ag_type b \<and> ag_id a = ag_id b \<and> et \<noteq> []"
proof -
  have f: "splitLoop (AllEventsFilter a) = [''evt'', ag_type a, ag_id a, ''>'']"
    using split_evt [of "ag_type a @ ''.'' @ ag_id a @ ''.>''"] split_dotless [of "ag_type a" "ag_id a @ ''.>''"]
      split_dotless [of "ag_id a" "''>''"] split_last [of "''>''"] assms(1,2)
    by (simp add: plain_def AllEventsFilter_def)
  have s: "splitLoop (Subject b et) = ''evt'' # ag_type b # ag_id b # splitLoop et"
    using split_evt [of "ag_type b @ ''.'' @ ag_id b @ ''.'' @ et"]
      split_dotless [OF assms(3), of "ag_id b @ ''.'' @ et"] split_dotless [OF assms(4), of et]
    by (simp add: Subject_def)
  have "subjectMatchesFilter (AllEventsFilter a) (Subject b et)
      \<longleftrightarrow> tokens_match [''evt'', ag_type a, ag_id a, ''>''] (''evt'' # ag_type b # ag_id b # splitLoop et)"
    unfolding f [symmetric] s [symmetric] by (rule match_by_tokens) (simp_all add: Subject_def AllEventsFilter_def)
  then show ?thesis
    using assms(1,2) by (auto simp: plain_def splitLoop_nonempty splitLoop_eq_empty_token)
qed

text \<open>The fence of an aggregate is exact: its all-events filter matches the
  events of that aggregate and of no other, so the guard of one aggregate neither misses a
  write to it nor conflicts with a write to another.\<close>

theorem aggregate_fence_exact:
  assumes "plain (ag_type a)" and "plain (ag_id a)" and "plain (ag_type b)" and "plain (ag_id b)" and "plain et"
  shows "subjectMatchesFilter (AllEventsFilter a) (Subject b et) \<longleftrightarrow> a = b"
  using aggregate_filter [of a b et] assms by (auto simp: plain_def)

lemma aggregate_fence_exact_witness:
  "subjectMatchesFilter ''evt.room.R1.>'' ''evt.room.R1.renamed'' \<and> \<not> subjectMatchesFilter ''evt.room.R1.>'' ''evt.room.R2.renamed''"
  using aggregate_fence_exact [of "RoomAggregate ''R1''" "RoomAggregate ''R1''" "''renamed''"]
    aggregate_fence_exact [of "RoomAggregate ''R1''" "RoomAggregate ''R2''" "''renamed''"]
  by (simp add: plain_def RoomAggregate_def AllEventsFilter_def Subject_def)

lemma rbac_fence: "subjectMatchesFilter RBACSubjectFilter (rbacSubjectForEvent event)"
proof -
  have "ag_type (rbacAggregateForPermissionScope scope) = AggregateRBAC" for scope
    by (simp add: rbacAggregateForPermissionScope_def RBACServerAggregate_def RBACDMAggregate_def
        RBACScopedAggregate_def split: option.split)
  then have "ag_type (rbacAggregateForPayload e) = AggregateRBAC" for e
    by (cases e) (simp_all add: RBACServerAggregate_def)
  then have "ag_type (rbacAggregateForEvent (Some event)) = AggregateRBAC"
    by (simp add: rbacAggregateForEvent_def RBACServerAggregate_def split: option.split)
  then show ?thesis
    using kind_filter [of AggregateRBAC "rbacAggregateForEvent (Some event)"]
    by (simp add: rbacSubjectForEvent_def RBACSubjectFilter_def plain_def)
qed

section \<open>Reading an aggregate back\<close>

lemma dotIndex_dotless: "CHR ''.'' \<notin> set t \<Longrightarrow> dotIndex (t @ CHR ''.'' # s) = Some (length t)"
  by (induction t) auto

lemma hasPrefix_append [simp]: "hasPrefix (p @ s) p"
  by (simp add: hasPrefix_def)

lemma parse_subject:
  assumes "ag_id a \<noteq> []" and "CHR ''.'' \<notin> set (ag_id a)" and "et \<noteq> []"
  shows "parseAggregateSubject (Subject a et) (ag_type a) = (ag_id a, True)"
    and "parseAggregateSubject (''live.'' @ Subject a et) (ag_type a) = (ag_id a, True)"
proof -
  let ?p = "SubjectRoot @ ag_type a @ ''.''" and ?rest = "ag_id a @ CHR ''.'' # et"
  have s: "Subject a et = ?p @ ?rest" by (simp add: Subject_def)
  have "\<not> hasPrefix (Subject a et) ''live.''" by (simp add: Subject_def hasPrefix_def)
  moreover have "stripLivePrefix (''live.'' @ Subject a et) = Subject a et"
    by (simp add: stripLivePrefix_def hasPrefix_def)
  moreover have "hasPrefix (Subject a et) ?p" and "drop (length ?p) (Subject a et) = ?rest"
    unfolding s by (rule hasPrefix_append, simp)
  ultimately show "parseAggregateSubject (Subject a et) (ag_type a) = (ag_id a, True)"
    and "parseAggregateSubject (''live.'' @ Subject a et) (ag_type a) = (ag_id a, True)"
    using dotIndex_dotless [OF assms(2), of et] assms(1,3)
    by (simp_all add: parseAggregateSubject_def Let_def) (simp_all add: stripLivePrefix_def Let_def)
qed

text \<open>The identity of an aggregate survives its subject: for an identity and an
  event type without dots, the parsers read the identity back from the durable subject and
  from its republished live form.\<close>

theorem aggregate_identity_roundtrip:
  assumes "plain roomID" and "plain userID" and "plain et"
  shows "ParseRoomSubject (Subject (RoomAggregate roomID) et) = (roomID, True)
    \<and> ParseRoomSubject (''live.'' @ Subject (RoomAggregate roomID) et) = (roomID, True)
    \<and> ParseUserSubject (Subject (UserAggregate userID) et) = (userID, True)
    \<and> ParseUserSubject (''live.'' @ Subject (UserAggregate userID) et) = (userID, True)"
  using parse_subject [of "RoomAggregate roomID" et] parse_subject [of "UserAggregate userID" et] assms
  by (simp add: plain_def ParseRoomSubject_def ParseUserSubject_def RoomAggregate_def UserAggregate_def)

lemma aggregate_identity_roundtrip_witness:
  "ParseRoomSubject ''live.evt.room.R1.renamed'' = (''R1'', True)"
  using aggregate_identity_roundtrip [of "''R1''" "''U1''" "''renamed''"]
  by (simp add: plain_def Subject_def RoomAggregate_def UserAggregate_def)

end
