(* ===== verification/RBAC_Commands.thy ===== *)
theory RBAC_Commands
  imports Mutation_Properties Event_Subjects
begin

text \<open>
  How an RBAC change is written (\<open>internal/core/rbac_events.go\<close>) and when its permission check
  counts (\<open>authorization_consistency.go\<close>): the projections catch up with the tails read from
  the stream, the check runs, the tails are read again, and only an unchanged reading lets its
  answer stand; the event is appended under the guard of the RBAC tail and everything starts
  over, five times at most, when another writer got there first.

  The waits for projections, the retry delays and the checks are operations on the shared
  state, as the broker's requests are; \<open>Projector\<close> models the wait itself.
\<close>

section \<open>The surroundings\<close>

record ('s, 'x) env =
  env_broker :: "('s, 'x) broker"
  env_encode :: "rbac_event event \<Rightarrow> 'x + encoded_record"
  env_wait_rbac :: "stream_position \<Rightarrow> 's \<Rightarrow> 'x option \<times> 's"
  env_wait_group :: "stream_position \<Rightarrow> 's \<Rightarrow> 'x option \<times> 's"
  env_wait_user :: "stream_position \<Rightarrow> 's \<Rightarrow> 'x option \<times> 's"
  env_wait_room :: "stream_position \<Rightarrow> 's \<Rightarrow> 'x option \<times> 's"
  env_wait_mentionables :: "stream_position \<Rightarrow> 's \<Rightarrow> 'x option \<times> 's"

type_synonym ('s, 'e) check = "'s \<Rightarrow> 'e option \<times> 's"

datatype ('e, 'x) command_error =
    ReadTailFailed "'x log_error"
  | WaitFor 'x
  | Refused 'e
  | UnstableInputs
  | AppendFailed "'x log_error"
  | Cancelled 'x
  | RetryExhausted

section \<open>Stable inputs\<close>

abbreviation maxStableAuthorizationAttempts :: nat where "maxStableAuthorizationAttempts \<equiv> 5"

record input_positions =
  ip_rbac :: stream_position
  ip_group :: stream_position
  ip_user :: stream_position
  ip_room :: stream_position

definition positions_equal :: "input_positions \<Rightarrow> input_positions \<Rightarrow> bool" where
  "positions_equal p q \<longleftrightarrow>
     sp_seq (ip_rbac p) = sp_seq (ip_rbac q) \<and> sp_seq (ip_group p) = sp_seq (ip_group q)
     \<and> sp_seq (ip_user p) = sp_seq (ip_user q) \<and> sp_seq (ip_room p) = sp_seq (ip_room q)"

definition authorizationInputPositions ::
  "('s, 'x) env \<Rightarrow> bool \<Rightarrow> 's \<Rightarrow> (('e, 'x) command_error + input_positions) \<times> 's" where
  "authorizationInputPositions env includeRooms s =
     (case LastSubjectPosition (env_broker env) RBACSubjectFilter s of
        (Inl e, s1) \<Rightarrow> (Inl (ReadTailFailed e), s1)
      | (Inr rbac, s1) \<Rightarrow>
          (case LastSubjectPosition (env_broker env) GroupSubjectFilter s1 of
             (Inl e, s2) \<Rightarrow> (Inl (ReadTailFailed e), s2)
           | (Inr grp, s2) \<Rightarrow>
               (case LastSubjectPosition (env_broker env) UserSubjectFilter s2 of
                  (Inl e, s3) \<Rightarrow> (Inl (ReadTailFailed e), s3)
                | (Inr user, s3) \<Rightarrow>
                    let positions = \<lparr>ip_rbac = rbac, ip_group = grp, ip_user = user, ip_room = SubjectPosition [] 0\<rparr> in
                    if \<not> includeRooms then (Inr positions, s3)
                    else case LastSubjectPosition (env_broker env) RoomSubjectFilter s3 of
                      (Inl e, s4) \<Rightarrow> (Inl (ReadTailFailed e), s4)
                    | (Inr room, s4) \<Rightarrow> (Inr (positions\<lparr>ip_room := room\<rparr>), s4))))"

definition waitUnlessZero ::
  "(stream_position \<Rightarrow> 's \<Rightarrow> 'x option \<times> 's) \<Rightarrow> stream_position \<Rightarrow> 's \<Rightarrow> 'x option \<times> 's" where
  "waitUnlessZero wait pos s = (if position_isZero pos then (None, s) else wait pos s)"

definition waitForAuthorizationInputs ::
  "('s, 'x) env \<Rightarrow> input_positions \<Rightarrow> 's \<Rightarrow> ('e, 'x) command_error option \<times> 's" where
  "waitForAuthorizationInputs env p s =
     (case waitUnlessZero (env_wait_rbac env) (ip_rbac p) s of
        (Some x, s1) \<Rightarrow> (Some (WaitFor x), s1)
      | (None, s1) \<Rightarrow>
          (case waitUnlessZero (env_wait_group env) (ip_group p) s1 of
             (Some x, s2) \<Rightarrow> (Some (WaitFor x), s2)
           | (None, s2) \<Rightarrow>
               (case waitUnlessZero (env_wait_user env) (ip_user p) s2 of
                  (Some x, s3) \<Rightarrow> (Some (WaitFor x), s3)
                | (None, s3) \<Rightarrow>
                    (case waitUnlessZero (env_wait_room env) (ip_room p) s3 of
                       (Some x, s4) \<Rightarrow> (Some (WaitFor x), s4)
                     | (None, s4) \<Rightarrow> (None, s4)))))"

text \<open>\<open>attempt\<close> counts from 0, as the range loop does.\<close>

function authorizeLoop ::
  "('s, 'x) env \<Rightarrow> bool \<Rightarrow> ('s, 'e) check \<Rightarrow> nat \<Rightarrow> 's \<Rightarrow> ('e, 'x) command_error option \<times> 's" where
  "authorizeLoop env includeRooms chk attempt s =
     (if maxStableAuthorizationAttempts \<le> attempt then (Some UnstableInputs, s)
      else case authorizationInputPositions env includeRooms s of
        (Inl err, s1) \<Rightarrow> (Some err, s1)
      | (Inr before, s1) \<Rightarrow>
          (case waitForAuthorizationInputs env before s1 of
             (Some err, s2) \<Rightarrow> (Some err, s2)
           | (None, s2) \<Rightarrow>
               (case chk s2 of
                  (decisionErr, s3) \<Rightarrow>
                    (case authorizationInputPositions env includeRooms s3 of
                       (Inl err, s4) \<Rightarrow> (Some err, s4)
                     | (Inr after, s4) \<Rightarrow>
                         if positions_equal before after then (map_option Refused decisionErr, s4)
                         else case br_pause (env_broker env) attempt s4 of
                           (Some x, s5) \<Rightarrow> (Some (Cancelled x), s5)
                         | (None, s5) \<Rightarrow> authorizeLoop env includeRooms chk (attempt + 1) s5))))"
  by pat_completeness auto
termination by (relation "measure (\<lambda>(_, _, _, attempt, _). maxStableAuthorizationAttempts - attempt)") auto

declare authorizeLoop.simps [simp del]

definition authorizeAtStableInputsWithRoomCatalog ::
  "('s, 'x) env \<Rightarrow> bool \<Rightarrow> ('s, 'e) check option \<Rightarrow> 's \<Rightarrow> ('e, 'x) command_error option \<times> 's" where
  "authorizeAtStableInputsWithRoomCatalog env includeRooms chk s =
     (case chk of None \<Rightarrow> (None, s) | Some f \<Rightarrow> authorizeLoop env includeRooms f 0 s)"

definition authorizeAtStableInputs ::
  "('s, 'x) env \<Rightarrow> ('s, 'e) check option \<Rightarrow> 's \<Rightarrow> ('e, 'x) command_error option \<times> 's" where
  "authorizeAtStableInputs env chk s = authorizeAtStableInputsWithRoomCatalog env False chk s"

definition authorizeAtStableRoomInputs ::
  "('s, 'x) env \<Rightarrow> ('s, 'e) check option \<Rightarrow> 's \<Rightarrow> ('e, 'x) command_error option \<times> 's" where
  "authorizeAtStableRoomInputs env chk s = authorizeAtStableInputsWithRoomCatalog env True chk s"

section \<open>Appending RBAC events\<close>

abbreviation maxRBACMutationRetries :: nat where "maxRBACMutationRetries \<equiv> 5"

type_synonym rbac_entry = "rbac_event event typed_entry"

text \<open>Read the RBAC tail and let the RBAC projection reach it.\<close>

definition rbacTail :: "('s, 'x) env \<Rightarrow> 's \<Rightarrow> (('e, 'x) command_error + seq) \<times> 's" where
  "rbacTail env s =
     (case LastSubjectSeq (env_broker env) RBACSubjectFilter s of
        (Inl e, s1) \<Rightarrow> (Inl (ReadTailFailed e), s1)
      | (Inr filterSeq, s1) \<Rightarrow>
          (case env_wait_rbac env (SubjectPosition RBACSubjectFilter filterSeq) s1 of
             (Some x, s2) \<Rightarrow> (Inl (WaitFor x), s2)
           | (None, s2) \<Rightarrow> (Inr filterSeq, s2)))"

definition guardedEntry :: "rbac_event event \<Rightarrow> expectation \<Rightarrow> rbac_entry" where
  "guardedEntry event expect = \<lparr>te_subject = rbacSubjectForEvent event, te_event = event, te_expect = expect\<rparr>"

text \<open>What one attempt ends in: an answer, or a conflict to retry after.\<close>

datatype 'a attempt = Answer 'a | Conflict

text \<open>The append of one attempt; after a commit, \<open>wait\<close> lets the projections reach it.\<close>

definition appendAttempt ::
  "('s, 'x) env \<Rightarrow> rbac_entry list \<Rightarrow> (string \<Rightarrow> seq \<Rightarrow> 's \<Rightarrow> 'x option \<times> 's) \<Rightarrow> 's
     \<Rightarrow> (('e, 'x) command_error + seq) attempt \<times> 's" where
  "appendAttempt env entries wait s =
     (case AppendTypedBatch (env_broker env) (env_encode env) entries s of
        (Inr seqs, s1) \<Rightarrow>
          (let lastSeq = seqs ! (length entries - 1); lastSubject = te_subject (entries ! (length entries - 1)) in
           case wait lastSubject lastSeq s1 of
             (Some x, s2) \<Rightarrow> (Answer (Inl (WaitFor x)), s2)
           | (None, s2) \<Rightarrow> (Answer (Inr lastSeq), s2))
      | (Inl err, s1) \<Rightarrow>
          if \<not> isConflict err then (Answer (Inl (AppendFailed err)), s1) else (Conflict, s1))"

text \<open>The range loop the appenders share, with its delay after a conflict.\<close>

function occLoop ::
  "('s, 'x) broker \<Rightarrow> ('s \<Rightarrow> (('e, 'x) command_error + 'r) attempt \<times> 's) \<Rightarrow> nat \<Rightarrow> 's
     \<Rightarrow> (('e, 'x) command_error + 'r) \<times> 's" where
  "occLoop br body attempt s =
     (if maxRBACMutationRetries \<le> attempt then (Inl RetryExhausted, s)
      else case body s of
        (Answer r, s1) \<Rightarrow> (r, s1)
      | (Conflict, s1) \<Rightarrow>
          (case br_pause br attempt s1 of
             (Some x, s2) \<Rightarrow> (Inl (Cancelled x), s2)
           | (None, s2) \<Rightarrow> occLoop br body (attempt + 1) s2))"
  by pat_completeness auto
termination by (relation "measure (\<lambda>(_, _, attempt, _). maxRBACMutationRetries - attempt)") auto

declare occLoop.simps [simp del]

definition waitRBAC :: "('s, 'x) env \<Rightarrow> string \<Rightarrow> seq \<Rightarrow> 's \<Rightarrow> 'x option \<times> 's" where
  "waitRBAC env subject sq s = env_wait_rbac env (SubjectPosition subject sq) s"

definition appendRBACEvent_attempt ::
  "('s, 'x) env \<Rightarrow> rbac_event event \<Rightarrow> ('s, 'e) check option \<Rightarrow> 's \<Rightarrow> (('e, 'x) command_error + seq) attempt \<times> 's" where
  "appendRBACEvent_attempt env event chk s =
     (case rbacTail env s of
        (Inl e, s1) \<Rightarrow> (Answer (Inl e), s1)
      | (Inr filterSeq, s1) \<Rightarrow>
          (case authorizeAtStableInputs env chk s1 of
             (Some e, s2) \<Rightarrow> (Answer (Inl e), s2)
           | (None, s2) \<Rightarrow>
               appendAttempt env [guardedEntry event (ExpectFilterSeq RBACSubjectFilter filterSeq)] (waitRBAC env) s2))"

definition appendRBACEvent ::
  "('s, 'x) env \<Rightarrow> rbac_event event \<Rightarrow> ('s, 'e) check option \<Rightarrow> 's \<Rightarrow> (('e, 'x) command_error + seq) \<times> 's" where
  "appendRBACEvent env event chk s = occLoop (env_broker env) (appendRBACEvent_attempt env event chk) 0 s"

text \<open>The check of a role assignment looks the user up first; \<open>getUser\<close> is that lookup.\<close>

definition assignmentCheck ::
  "(string \<Rightarrow> ('s, 'e) check) \<Rightarrow> string \<Rightarrow> bool \<Rightarrow> ('s, 'e) check option \<Rightarrow> ('s, 'e) check" where
  "assignmentCheck getUser userID requireExistingUser chk s =
     (case (if requireExistingUser then getUser userID s else (None, s)) of
        (Some e, s1) \<Rightarrow> (Some e, s1)
      | (None, s1) \<Rightarrow> (case chk of None \<Rightarrow> (None, s1) | Some f \<Rightarrow> f s1))"

definition appendRoleAssignmentEvent_attempt ::
  "('s, 'x) env \<Rightarrow> (string \<Rightarrow> ('s, 'e) check) \<Rightarrow> string \<Rightarrow> bool \<Rightarrow> rbac_event event \<Rightarrow> ('s, 'e) check option \<Rightarrow> 's
     \<Rightarrow> (('e, 'x) command_error + seq) attempt \<times> 's" where
  "appendRoleAssignmentEvent_attempt env getUser userID requireExistingUser event chk s =
     (case rbacTail env s of
        (Inl e, s1) \<Rightarrow> (Answer (Inl e), s1)
      | (Inr rbacSeq, s1) \<Rightarrow>
          (case authorizeAtStableRoomInputs env
                  (Some (assignmentCheck getUser userID requireExistingUser chk)) s1 of
             (Some e, s2) \<Rightarrow> (Answer (Inl e), s2)
           | (None, s2) \<Rightarrow>
               appendAttempt env [guardedEntry event (ExpectFilterSeq RBACSubjectFilter rbacSeq)] (waitRBAC env) s2))"

definition appendRoleAssignmentEvent ::
  "('s, 'x) env \<Rightarrow> (string \<Rightarrow> ('s, 'e) check) \<Rightarrow> string \<Rightarrow> bool \<Rightarrow> rbac_event event \<Rightarrow> ('s, 'e) check option \<Rightarrow> 's
     \<Rightarrow> (('e, 'x) command_error + seq) \<times> 's" where
  "appendRoleAssignmentEvent env getUser userID requireExistingUser event chk s =
     occLoop (env_broker env)
       (appendRoleAssignmentEvent_attempt env getUser userID requireExistingUser event chk) 0 s"

text \<open>A role that can be mentioned is fenced by the whole log, for its handle must be free.\<close>

definition waitBoth :: "('s, 'x) env \<Rightarrow> string \<Rightarrow> seq \<Rightarrow> 's \<Rightarrow> 'x option \<times> 's" where
  "waitBoth env subject sq s =
     (case env_wait_rbac env (SubjectPosition subject sq) s of
        (Some x, s1) \<Rightarrow> (Some x, s1)
      | (None, s1) \<Rightarrow> env_wait_mentionables env (SubjectPosition subject sq) s1)"

definition appendMentionable_attempt ::
  "('s, 'x) env \<Rightarrow> rbac_event event \<Rightarrow> ('s, 'e) check option \<Rightarrow> 's \<Rightarrow> (('e, 'x) command_error + seq) attempt \<times> 's" where
  "appendMentionable_attempt env event chk s =
     (case LastSubjectSeq (env_broker env) EventSubjectFilter s of
        (Inl e, s1) \<Rightarrow> (Answer (Inl (ReadTailFailed e)), s1)
      | (Inr filterSeq, s1) \<Rightarrow>
          (case env_wait_mentionables env (SubjectPosition EventSubjectFilter filterSeq) s1 of
             (Some x, s2) \<Rightarrow> (Answer (Inl (WaitFor x)), s2)
           | (None, s2) \<Rightarrow>
               (case rbacTail env s2 of
                  (Inl e, s3) \<Rightarrow> (Answer (Inl e), s3)
                | (Inr rbacSeq, s3) \<Rightarrow>
                    (case authorizeAtStableInputs env chk s3 of
                       (Some e, s4) \<Rightarrow> (Answer (Inl e), s4)
                     | (None, s4) \<Rightarrow>
                         appendAttempt env [guardedEntry event (ExpectFilterSeq EventSubjectFilter filterSeq)]
                           (waitBoth env) s4))))"

definition appendRBACEventWithMentionableCheck ::
  "('s, 'x) env \<Rightarrow> rbac_event event \<Rightarrow> ('s, 'e) check option \<Rightarrow> 's \<Rightarrow> (('e, 'x) command_error + seq) \<times> 's" where
  "appendRBACEventWithMentionableCheck env event chk s =
     occLoop (env_broker env) (appendMentionable_attempt env event chk) 0 s"

definition appendComputed_attempt ::
  "('s, 'x) env \<Rightarrow> ('s \<Rightarrow> (('e, 'x) command_error + rbac_entry list) \<times> 's) \<Rightarrow> 's
     \<Rightarrow> (('e, 'x) command_error + seq) attempt \<times> 's" where
  "appendComputed_attempt env build s =
     (case rbacTail env s of
        (Inl e, s1) \<Rightarrow> (Answer (Inl e), s1)
      | (Inr filterSeq, s1) \<Rightarrow>
          (case build s1 of
             (Inl e, s2) \<Rightarrow> (Answer (Inl e), s2)
           | (Inr [], s2) \<Rightarrow> (Answer (Inr 0), s2)
           | (Inr (entry # entries), s2) \<Rightarrow>
               appendAttempt env (entry\<lparr>te_expect := ExpectFilterSeq RBACSubjectFilter filterSeq\<rparr> # entries)
                 (waitRBAC env) s2))"

definition appendComputedRBACBatch ::
  "('s, 'x) env \<Rightarrow> ('s \<Rightarrow> (('e, 'x) command_error + rbac_entry list) \<times> 's) \<Rightarrow> 's
     \<Rightarrow> (('e, 'x) command_error + seq) \<times> 's" where
  "appendComputedRBACBatch env build s = occLoop (env_broker env) (appendComputed_attempt env build) 0 s"

definition appendRBACBatch ::
  "('s, 'x) env \<Rightarrow> rbac_entry list \<Rightarrow> ('s, 'e) check option \<Rightarrow> 's \<Rightarrow> (('e, 'x) command_error + seq) \<times> 's" where
  "appendRBACBatch env entries chk s =
     (if entries = [] then (Inr 0, s)
      else appendComputedRBACBatch env
        (\<lambda>s. case authorizeAtStableInputs env chk s of
               (Some e, s1) \<Rightarrow> (Inl e, s1)
             | (None, s1) \<Rightarrow> (Inr entries, s1)) s)"

end
