(* ===== verification/Broker_Memory.thy ===== *)
theory Broker_Memory
  imports Mutation_Properties
begin

text \<open>
  An in-memory stream that satisfies the laws: the hypotheses on JetStream can hold, and the
  properties of the writers are applied to it. It keeps at most \<open>capacity\<close> messages, detects
  duplicate record identities of single writes, stages batches by identity, and lets other
  writers append before it serves a request (\<open>admit\<close>).
\<close>

section \<open>The stream\<close>

record memory =
  my_contents :: "(string \<times> string \<times> string) list"
  my_staged :: "string \<Rightarrow> batch_msg list"
  my_batches :: nat
  my_others :: "(string \<times> string \<times> string) list list"

abbreviation capacity :: nat where "capacity \<equiv> 1000"

definition my_log :: "memory \<Rightarrow> stored list" where
  "my_log m =
     map (\<lambda>i. case my_contents m ! i of (subject, ident, data) \<Rightarrow>
            \<lparr>so_subject = subject, so_seq = of_nat (i + 1), so_id = ident, so_data = data\<rparr>)
       [0..<min capacity (length (my_contents m))]"

definition alone_here :: "memory \<Rightarrow> memory" where
  "alone_here m = m"

definition others_write :: "memory \<Rightarrow> memory" where
  "others_write m =
     (case my_others m of [] \<Rightarrow> m | w # ws \<Rightarrow> m\<lparr>my_contents := my_contents m @ w, my_others := ws\<rparr>)"

definition admits :: "(memory \<Rightarrow> memory) \<Rightarrow> bool" where
  "admits admit \<longleftrightarrow> (\<forall>m. (\<exists>w. my_contents (admit m) = my_contents m @ w) \<and> my_staged (admit m) = my_staged m)"

definition memory_publish ::
  "(memory \<Rightarrow> memory) \<Rightarrow> string \<Rightarrow> string \<Rightarrow> publish_opt list \<Rightarrow> memory
     \<Rightarrow> (unit client_error + seq \<times> bool) \<times> memory" where
  "memory_publish admit subject data opts m =
     (let m1 = admit m; l = my_log m1 in
      case find (\<lambda>r. so_id r = opts_id opts) l of
        Some r \<Rightarrow> (Inr (so_seq r, True), m1)
      | None \<Rightarrow>
          if \<not> (\<forall>opt \<in> set opts. opt_holds subject l opt) then (Inl (APIError 10071), m1)
          else if capacity \<le> length (my_contents m1) then (Inl (APIError 10077), m1)
          else (Inr (of_nat (length (my_contents m1) + 1), False),
                m1\<lparr>my_contents := my_contents m1 @ [(subject, opts_id opts, data)]\<rparr>))"

definition msg_content :: "batch_msg \<Rightarrow> string \<times> string \<times> string" where
  "msg_content msg = (bm_subject msg, headers_id (bm_headers msg), bm_data msg)"

definition refuse :: "nat \<Rightarrow> ack_reply" where
  "refuse code = Reply \<lparr>pa_error = Some (code, ''refused''), pa_seq = 0\<rparr>"

definition memory_request :: "(memory \<Rightarrow> memory) \<Rightarrow> batch_msg \<Rightarrow> memory \<Rightarrow> (unit + ack_reply) \<times> memory" where
  "memory_request admit msg m =
     (let m1 = admit m; l = my_log m1 in
      case [b. BatchId b \<leftarrow> bm_headers msg] of
        [b] \<Rightarrow>
          (let msgs = my_staged m1 b @ [msg] in
           if BatchCommit \<notin> set (bm_headers msg)
           then (Inr EmptyReply, m1\<lparr>my_staged := (my_staged m1)(b := msgs)\<rparr>)
           else if \<not> (\<forall>x \<in> set msgs. msg_holds l x) then (Inr (refuse 10071), m1)
           else if capacity < length (my_contents m1) + length msgs then (Inr (refuse 10077), m1)
           else (Inr (Reply \<lparr>pa_error = None, pa_seq = of_nat (length (my_contents m1) + length msgs)\<rparr>),
                 m1\<lparr>my_contents := my_contents m1 @ map msg_content msgs\<rparr>))
      | _ \<Rightarrow> (Inr (refuse 10199), m1))"

definition memory_broker :: "(memory \<Rightarrow> memory) \<Rightarrow> (memory, unit) broker" where
  "memory_broker admit =
     \<lparr>br_publish = memory_publish admit,
      br_request = memory_request admit,
      br_last_msg = (\<lambda>f m. let m1 = admit m; l = my_log m1 in
        (Inr (if matching f l = [] then None else Some (tail_of f l)), m1)),
      br_last_seq = (\<lambda>m. let m1 = admit m in (Inr (stream_tail (my_log m1)), m1)),
      br_random = (\<lambda>m. let b = replicate (my_batches m) CHR ''b'' in
        (Inr b, m\<lparr>my_batches := my_batches m + 1, my_staged := (my_staged m)(b := [])\<rparr>)),
      br_pause = (\<lambda>n m. (None, admit m))\<rparr>"

section \<open>It keeps the laws\<close>

lemma log_of_contents: "my_contents m = my_contents m' \<Longrightarrow> my_log m = my_log m'"
  by (simp add: my_log_def)

lemma log_update [simp]:
  "my_log (m\<lparr>my_staged := st\<rparr>) = my_log m" "my_log (m\<lparr>my_batches := n\<rparr>) = my_log m"
  "my_log (m\<lparr>my_others := ws\<rparr>) = my_log m"
  by (simp_all add: my_log_def)

lemma log_prefix: "my_contents m' = my_contents m @ w \<Longrightarrow> prefix (my_log m) (my_log m')"
proof -
  assume w: "my_contents m' = my_contents m @ w"
  let ?n = "min capacity (length (my_contents m))"
  have "my_log m = take ?n (my_log m')"
    by (rule nth_equalityI) (auto simp: my_log_def w nth_append)
  then show ?thesis by (metis take_is_prefix)
qed

lemma log_room:
  assumes "length (my_contents m) + length w \<le> capacity"
  shows "my_log (m\<lparr>my_contents := my_contents m @ w\<rparr>) = my_log m
    @ map (\<lambda>i. case w ! i of (subject, ident, data) \<Rightarrow>
        \<lparr>so_subject = subject, so_seq = of_nat (length (my_contents m) + i + 1), so_id = ident, so_data = data\<rparr>)
      [0..<length w]"
  using assms by (intro nth_equalityI) (auto simp: my_log_def nth_append)

lemma log_stored_ok: "stored_ok (my_log m)"
proof -
  have u: "unat (of_nat k :: seq) = k" if "k \<le> capacity" for k
    using that by (simp add: unat_of_nat)
  have "(of_nat (i + 1) :: seq) < of_nat (j + 1)" if "i < j" "j < capacity" for i j
    unfolding word_less_nat_alt using that by (subst (1 2) u) simp_all
  moreover have "(0 :: seq) < of_nat (i + 1)" if "i < capacity" for i
    unfolding word_less_nat_alt using that by (subst u) simp_all
  ultimately show ?thesis
    by (auto simp: stored_ok_def my_log_def sorted_wrt_iff_nth_less split: prod.splits)
qed

lemma admit_log: "admits admit \<Longrightarrow> prefix (my_log m) (my_log (admit m))"
  unfolding admits_def by (metis log_prefix)

lemma extend_log: "prefix (my_log m) (my_log (m\<lparr>my_contents := my_contents m @ w\<rparr>))"
  by (rule log_prefix) simp

lemma memory_publish_grows: "admits admit \<Longrightarrow> prefix (my_log m) (my_log (snd (memory_publish admit subject data opts m)))"
  using admit_log [of admit m] extend_log [of "admit m"]
  by (auto simp: memory_publish_def Let_def split: option.splits intro: prefix_order.trans)

lemma memory_request_grows: "admits admit \<Longrightarrow> prefix (my_log m) (my_log (snd (memory_request admit msg m)))"
  using admit_log [of admit m] extend_log [of "admit m"]
  by (auto simp: memory_request_def Let_def split: list.splits intro: prefix_order.trans)

lemma committed_batch_log:
  assumes "length (my_contents m) + length msgs \<le> capacity"
  shows "my_log (m\<lparr>my_contents := my_contents m @ map msg_content msgs\<rparr>)
    = my_log m @ stored_batch (of_nat (length (my_contents m) + length msgs)) msgs"
proof -
  have "(of_nat (length (my_contents m) + length msgs) :: seq) - of_nat (length msgs - 1 - i)
      = of_nat (length (my_contents m) + i + 1)" if "i < length msgs" for i
  proof -
    have "length (my_contents m) + length msgs - (length msgs - 1 - i) = length (my_contents m) + i + 1"
      using that by simp
    moreover have "length msgs - 1 - i \<le> length (my_contents m) + length msgs" by simp
    ultimately show ?thesis by (metis of_nat_diff)
  qed
  then show ?thesis
    using assms by (subst log_room) (auto simp: stored_batch_def msg_content_def intro!: nth_equalityI)
qed

lemma find_None: "find P l = None \<longleftrightarrow> (\<forall>x \<in> set l. \<not> P x)"
  by (metis find_None_iff)

lemma memory_guards_publish:
  assumes a: "admits admit"
  shows "guards_publish (memory_broker admit) my_log"
proof -
  have "\<exists>l. prefix (my_log s) l \<and> (\<forall>opt \<in> set opts. opt_holds subject l opt)
      \<and> my_log s' = l @ [\<lparr>so_subject = subject, so_seq = sq, so_id = opts_id opts, so_data = data\<rparr>]"
    if "memory_publish admit subject data opts s = (Inr (sq, False), s')" for subject data opts s sq s'
    using that admit_log [OF a, of s]
    by (intro exI [of _ "my_log (admit s)"])
      (auto simp: memory_publish_def Let_def log_room split: option.splits if_splits)
  moreover have "\<exists>l. prefix (my_log s) l \<and> prefix l (my_log s') \<and> \<not> (\<forall>opt \<in> set opts. opt_holds subject l opt)"
    if "memory_publish admit subject data opts s = (Inl err, s')" "isSequenceConflict err" for subject data opts s err s'
    using that admit_log [OF a, of s]
    by (intro exI [of _ "my_log (admit s)"])
      (auto simp: memory_publish_def Let_def isSequenceConflict_def split: option.splits if_splits)
  ultimately show ?thesis unfolding guards_publish_def by (auto simp: memory_broker_def)
qed

lemma memory_guards_batches: "admits admit \<Longrightarrow> guards_batches (memory_broker admit) my_log my_staged"
proof -
  assume a: "admits admit"
  then have st: "my_staged (admit m) = my_staged m" for m by (simp add: admits_def)
  have pre: "prefix (my_log m) (my_log (admit m))" for m by (rule admit_log [OF a])
  have ids: "BatchId b \<in> set hs \<Longrightarrow> [b. BatchId b \<leftarrow> hs] = [b'] \<Longrightarrow> b' = b" for b b' hs
  proof -
    assume "BatchId b \<in> set hs" "[b. BatchId b \<leftarrow> hs] = [b']"
    moreover from this(1) have "b \<in> set [b. BatchId b \<leftarrow> hs]" by force
    ultimately show "b' = b" by simp
  qed
  have "(BatchCommit \<notin> set (bm_headers msg) \<and> accepted reply \<longrightarrow> my_staged s' b = my_staged s b @ [msg])
      \<and> (BatchCommit \<in> set (bm_headers msg) \<and> accepted reply \<longrightarrow>
          (\<exists>l sq. reply = Reply \<lparr>pa_error = None, pa_seq = sq\<rparr> \<and> prefix (my_log s) l
            \<and> (\<forall>m \<in> set (my_staged s b @ [msg]). msg_holds l m)
            \<and> my_log s' = l @ stored_batch sq (my_staged s b @ [msg])))
      \<and> (conflict_reply reply \<longrightarrow>
          (\<exists>l. prefix (my_log s) l \<and> prefix l (my_log s') \<and> \<not> (\<forall>m \<in> set (my_staged s b @ [msg]). msg_holds l m)))"
    if r: "memory_request admit msg s = (Inr reply, s')" and b: "BatchId b \<in> set (bm_headers msg)" for msg b s reply s'
  proof (cases "\<exists>b'. [b. BatchId b \<leftarrow> bm_headers msg] = [b']")
    case True
    with ids [OF b] have one: "[b. BatchId b \<leftarrow> bm_headers msg] = [b]" by blast
    let ?msgs = "my_staged s b @ [msg]" and ?l = "my_log (admit s)"
    note r = r [unfolded memory_request_def Let_def one, simplified st]
    consider (stage) "BatchCommit \<notin> set (bm_headers msg)"
      | (conflict) "BatchCommit \<in> set (bm_headers msg)" "\<not> (\<forall>x \<in> set ?msgs. msg_holds ?l x)"
      | (full) "BatchCommit \<in> set (bm_headers msg)" "\<forall>x \<in> set ?msgs. msg_holds ?l x"
          "capacity < length (my_contents (admit s)) + length ?msgs"
      | (commit) "BatchCommit \<in> set (bm_headers msg)" "\<forall>x \<in> set ?msgs. msg_holds ?l x"
          "length (my_contents (admit s)) + length ?msgs \<le> capacity"
      by linarith
    then show ?thesis
    proof cases
      case stage
      with r show ?thesis by (auto simp: conflict_reply_def)
    next
      case conflict
      with r have "reply = refuse 10071" "s' = admit s" by auto
      with conflict pre show ?thesis by (auto simp: accepted_def refuse_def)
    next
      case full
      with r show ?thesis by (auto simp: accepted_def conflict_reply_def refuse_def)
    next
      case commit
      with r have rep: "reply = Reply \<lparr>pa_error = None, pa_seq = of_nat (length (my_contents (admit s)) + length ?msgs)\<rparr>"
        and s': "s' = (admit s)\<lparr>my_contents := my_contents (admit s) @ map msg_content ?msgs\<rparr>" by auto
      have "my_log s' = ?l @ stored_batch (of_nat (length (my_contents (admit s)) + length ?msgs)) ?msgs"
        unfolding s' by (rule committed_batch_log [OF commit(3)])
      with commit rep pre show ?thesis by (auto simp: conflict_reply_def)
    qed
  next
    case False
    then have "reply = refuse 10199"
      using r by (auto simp: memory_request_def Let_def split: list.splits)
    then show ?thesis by (auto simp: accepted_def conflict_reply_def refuse_def)
  qed
  then show ?thesis
    unfolding guards_batches_def by (auto simp: memory_broker_def Let_def)
qed

lemma memory_laws: "admits admit \<Longrightarrow> broker_laws (memory_broker admit) my_log my_staged"
  using memory_guards_publish [of admit] memory_guards_batches [of admit]
    memory_publish_grows [of admit] memory_request_grows [of admit] admit_log [of admit] log_stored_ok
  unfolding broker_laws_def
  by (auto simp: only_grows_def reads_tails_def memory_broker_def Let_def)

lemma admits_here [simp]: "admits alone_here"
  by (simp add: admits_def alone_here_def)

lemma admits_others [simp]: "admits others_write"
  by (auto simp: admits_def others_write_def split: list.splits)

section \<open>Contended and uncontended runs\<close>

definition empty_memory :: "(string \<times> string \<times> string) list list \<Rightarrow> memory" where
  "empty_memory others = \<lparr>my_contents = [], my_staged = (\<lambda>_. []), my_batches = 0, my_others = others\<rparr>"

definition sample_entry :: "string \<Rightarrow> string \<Rightarrow> mutation_entry" where
  "sample_entry ident data = \<lparr>me_subject = ''evt.room.r.renamed'', me_record = \<lparr>er_id = ident, er_data = data, er_ttl = 0\<rparr>\<rparr>"

text \<open>The decision records whether it saw an empty boundary.\<close>

definition sample_decide :: "mutation_attempt \<Rightarrow> memory \<Rightarrow> (unit + mutation_entry list) \<times> memory" where
  "sample_decide a m =
     (Inr [sample_entry ''e1'' (if at_expected a = 0 then [] else ''xx''), sample_entry ''e2'' ''y''], m)"

lemma sample_forward: "decides_forward sample_decide my_log"
  by (simp add: decides_forward_def sample_decide_def)

text \<open>Another writer renames the room between the read of the tail and the commit.\<close>

definition contended_memory :: memory where
  "contended_memory = empty_memory [[(''evt.user.u.joined'', ''u1'', [])], [], [(''evt.room.r.renamed'', ''o1'', [])]]"

lemma sample_matches [simp]:
  "subjectMatchesFilter ''evt.room.r.>'' ''evt.room.r.renamed''"
  "\<not> subjectMatchesFilter ''evt.room.r.>'' ''evt.user.u.joined''"
  by code_simp+

lemma upt_small: "[0..<Suc 0] = [0]" "[0..<Suc (Suc 0)] = [0, 1]" "[0..<Suc (Suc (Suc 0))] = [0, 1, 2]"
  "[0..<Suc (Suc (Suc (Suc 0)))] = [0, 1, 2, 3]"
  by (simp_all add: upt_rec)

text \<open>The equations that evaluate a run.\<close>

lemmas tail_eval =
  mutationBoundarySeq_def LastSubjectSeq_def LastSubjectPosition_def lastSubjectSeq_def SubjectPosition_def

lemmas guard_eval =
  boundary_expectation_def validateEncodedRecord_def expect_validate_def isZeroGuard_def ExpectFilterSeq_def
  noExpectation_def guardCount_def forSubject_def setHeaders_def publishOpts_def entryConflict_def
  expect_conflict_def batchConflict_def isSequenceConflict_def

lemmas memory_eval =
  memory_broker_def memory_request_def memory_publish_def refuse_def others_write_def alone_here_def
  msg_holds_def guard_filter_def tail_of_def stream_tail_def matching_def my_log_def upt_small headers_id_def
  opts_id_def msg_content_def

lemmas run_eval =
  publishMutation_def publish_def appendBatch_def plain_entry_def publishBatchEntry_def buildEncodedBatchMsg_def
  decodeBatchAck_def

definition before_commit :: memory where
  "before_commit = contended_memory\<lparr>my_contents := [(''evt.user.u.joined'', ''u1'', [])], my_others := tl (my_others contended_memory)\<rparr>"

definition after_conflict :: memory where
  "after_conflict = before_commit
     \<lparr>my_contents := [(''evt.user.u.joined'', ''u1'', []), (''evt.room.r.renamed'', ''o1'', [])],
      my_staged := (\<lambda>_. [])([] := [buildEncodedBatchMsg
        ((plain_entry (sample_entry ''e1'' []))\<lparr>be_expect := ExpectFilterSeq ''evt.room.r.>'' 0\<rparr>) [] 1 False]),
      my_batches := 1, my_others := []\<rparr>"

lemma contended_tail:
  "mutationBoundarySeq (memory_broker others_write) (AtSubject ''evt.room.r.>'') contended_memory = (Inr 0, before_commit)"
  by (simp add: tail_eval memory_eval AtSubject_def before_commit_def contended_memory_def empty_memory_def)

lemma contended_conflict:
  "publishMutation (memory_broker others_write) (AtSubject ''evt.room.r.>'') 0
     [sample_entry ''e1'' [], sample_entry ''e2'' ''y''] before_commit
   = (Inl (AtBatchCommit (ErrConflict (FilterAt ''evt.room.r.>'' 0))), after_conflict)"
  by (simp add: run_eval guard_eval memory_eval AtSubject_def before_commit_def after_conflict_def
      contended_memory_def empty_memory_def sample_entry_def)

lemma contended_tail_again:
  "mutationBoundarySeq (memory_broker others_write) (AtSubject ''evt.room.r.>'') after_conflict = (Inr 2, after_conflict)"
  by (simp add: tail_eval memory_eval AtSubject_def after_conflict_def)

lemma contended_commit:
  "\<exists>s'. publishMutation (memory_broker others_write) (AtSubject ''evt.room.r.>'') 2
     [sample_entry ''e1'' ''xx'', sample_entry ''e2'' ''y''] after_conflict = (Inr ([3, 4], True), s')"
  by (simp add: run_eval guard_eval memory_eval AtSubject_def after_conflict_def before_commit_def
      contended_memory_def empty_memory_def sample_entry_def Let_def)

lemma contended_run:
  obtains s' where
    "ExecuteMutation (memory_broker others_write) (AtSubject ''evt.room.r.>'') (Some sample_decide) contended_memory
       = ((\<lparr>mr_sequences = [3, 4], mr_attempts = 2, mr_conflicts = 1, mr_committed = True\<rparr>, None), s')"
proof -
  let ?br = "memory_broker others_write" and ?b = "AtSubject ''evt.room.r.>''"
  obtain s' where c: "publishMutation ?br ?b 2 [sample_entry ''e1'' ''xx'', sample_entry ''e2'' ''y''] after_conflict
      = (Inr ([3, 4], True), s')"
    using contended_commit by blast
  have d: "sample_decide \<lparr>at_number = 1, at_expected = 0\<rparr> m = (Inr [sample_entry ''e1'' [], sample_entry ''e2'' ''y''], m)"
    "sample_decide \<lparr>at_number = 2, at_expected = 2\<rparr> m = (Inr [sample_entry ''e1'' ''xx'', sample_entry ''e2'' ''y''], m)" for m
    by (simp_all add: sample_decide_def)
  have p: "br_pause ?br 1 after_conflict = (None, after_conflict)"
    by (simp add: memory_eval after_conflict_def)
  have "blank ''evt.room.r.>'' = False" by code_simp
  then have v: "validateMutationBoundary ?b = (None :: (unit, unit) mutation_error option)"
    by (simp add: validateMutationBoundary_def AtSubject_def)
  have "mutationLoop ?br ?b sample_decide 2 e \<lparr>mr_sequences = [], mr_attempts = 1, mr_conflicts = 1, mr_committed = False\<rparr> after_conflict
      = ((\<lparr>mr_sequences = [3, 4], mr_attempts = 2, mr_conflicts = 1, mr_committed = True\<rparr>, None), s')" for e
    by (simp add: mutationLoop.simps [of _ _ _ 2] contended_tail_again d(2) c)
  then have "mutationLoop ?br ?b sample_decide 1 None no_result contended_memory
      = ((\<lparr>mr_sequences = [3, 4], mr_attempts = 2, mr_conflicts = 1, mr_committed = True\<rparr>, None), s')"
    by (subst mutationLoop.simps) (simp only: contended_tail d(1) contended_conflict p sum.case prod.case, simp add: p [simplified] no_result_def numeral_2_eq_2)
  then show ?thesis by (intro that) (simp add: ExecuteMutation_def v)
qed

lemma committed_decision_is_current_witness:
  "\<exists>s' s0 l. prefix (my_log s0) l
     \<and> covers (AtSubject ''evt.room.r.>'') l = covers (AtSubject ''evt.room.r.>'') (my_log s0)
     \<and> (\<exists>new. my_log s' = l @ new \<and> map so_seq new = [3, 4])"
proof -
  have g: "guarded (AtSubject ''evt.room.r.>'')" by (simp add: guarded_def AtSubject_def)
  obtain s' where run: "ExecuteMutation (memory_broker others_write) (AtSubject ''evt.room.r.>'') (Some sample_decide) contended_memory
       = ((\<lparr>mr_sequences = [3, 4], mr_attempts = 2, mr_conflicts = 1, mr_committed = True\<rparr>, None), s')"
    by (rule contended_run)
  from committed_decision_is_current [OF memory_laws [OF admits_others] sample_forward g run] obtain s0 l new where found:
    "prefix (my_log s0) l" "covers (AtSubject ''evt.room.r.>'') l = covers (AtSubject ''evt.room.r.>'') (my_log s0)"
    "my_log s' = l @ new" "map so_seq new = [3, 4]" by auto
  show ?thesis
    by (intro exI [of _ s'] exI [of _ s0] exI [of _ l] exI [of _ new] conjI) (rule found)+
qed

text \<open>A stream with one writer.\<close>

lemma publish_refused: "memory_publish alone_here subject data opts m = (Inl err, m') \<Longrightarrow> m' = m"
  by (auto simp: memory_publish_def alone_here_def Let_def split: option.splits if_splits)

lemma request_keeps:
  assumes "memory_request alone_here msg m = (r, m')"
    and "\<not> (BatchCommit \<in> set (bm_headers msg) \<and> (\<exists>reply. r = Inr reply \<and> accepted reply))"
  shows "my_log m' = my_log m"
  using assms by (simp add: memory_request_def alone_here_def Let_def accepted_def split: list.splits if_splits)
    (auto simp: my_log_def)

lemma sample_uncontended: "uncontended (memory_broker alone_here) my_log b sample_decide"
  unfolding uncontended_def
proof (intro conjI allI impI)
  show "covers b (my_log (snd (br_random (memory_broker alone_here) s))) = covers b (my_log s)" for s
    by (simp add: memory_broker_def Let_def)
qed (auto simp: sample_decide_def memory_broker_def dest: publish_refused request_keeps)

lemma uncontended_mutation_is_immediate_witness:
  "mr_attempts (fst (fst (ExecuteMutation (memory_broker alone_here) (AtSubject ''evt.room.r.>'')
     (Some sample_decide) (empty_memory [])))) \<le> 1"
proof -
  have "guarded (AtSubject ''evt.room.r.>'')" by (simp add: guarded_def AtSubject_def)
  with uncontended_mutation_is_immediate [OF memory_laws [OF admits_here]] sample_uncontended show ?thesis
    by (metis (no_types, lifting) case_prod_beta)
qed

end
