(* ===== verification/RBAC_Commands_Properties.thy ===== *)
theory RBAC_Commands_Properties
  imports RBAC_Commands Broker_Memory
begin

text \<open>
  An RBAC change that commits was permitted by a check on stable inputs that the projections
  had reached, and no RBAC record was written between that check and the change.
\<close>

section \<open>Operations that leave the stream behind them\<close>

definition forward :: "('s \<Rightarrow> stored list) \<Rightarrow> ('s \<Rightarrow> 'r \<times> 's) \<Rightarrow> bool" where
  "forward log f \<longleftrightarrow> (\<forall>s. prefix (log s) (log (snd (f s))))"

definition env_forward :: "('s \<Rightarrow> stored list) \<Rightarrow> ('s, 'x) env \<Rightarrow> bool" where
  "env_forward log env \<longleftrightarrow>
     (\<forall>p. forward log (env_wait_rbac env p) \<and> forward log (env_wait_group env p) \<and> forward log (env_wait_user env p)
        \<and> forward log (env_wait_room env p) \<and> forward log (env_wait_mentionables env p))"

lemma forwardD: "forward log f \<Longrightarrow> f s = (r, s') \<Longrightarrow> prefix (log s) (log s')"
  unfolding forward_def by (metis snd_conv)

lemma forward_waitUnlessZero: "forward log (wait p) \<Longrightarrow> forward log (waitUnlessZero wait p)"
  by (simp add: forward_def waitUnlessZero_def)

section \<open>The positions of the inputs\<close>

text \<open>A position is the tail of its filter at some moment between two states.\<close>

definition tail_between :: "('s \<Rightarrow> stored list) \<Rightarrow> string \<Rightarrow> stream_position \<Rightarrow> 's \<Rightarrow> 's \<Rightarrow> bool" where
  "tail_between log f pos s s' \<longleftrightarrow> sp_filter pos = f \<and>
     (\<exists>t. prefix (log s) (log t) \<and> prefix (log t) (log s') \<and> sp_seq pos = tail_of f (log t))"

lemma tail_between_mono:
  "tail_between log f pos s s' \<Longrightarrow> prefix (log r) (log s) \<Longrightarrow> prefix (log s') (log r') \<Longrightarrow> tail_between log f pos r r'"
  unfolding tail_between_def by (meson prefix_order.trans)

lemma LastSubjectPosition_between:
  assumes "broker_laws br log staged" and "LastSubjectPosition br f s = (Inr pos, s')"
  shows "tail_between log f pos s s' \<and> prefix (log s) (log s')"
proof -
  have "LastSubjectSeq br f s = (Inr (sp_seq pos), s')" using assms(2) by (simp add: LastSubjectSeq_def)
  from LastSubjectSeq_reads [OF assms(1) this] assms(2) show ?thesis
    by (auto simp: tail_between_def LastSubjectPosition_def SubjectPosition_def split: sum.splits prod.splits)
qed

text \<open>The input filters, with the room catalog or without.\<close>

definition inputs :: "bool \<Rightarrow> string set" where
  "inputs includeRooms = {RBACSubjectFilter, GroupSubjectFilter, UserSubjectFilter}
     \<union> (if includeRooms then {RoomSubjectFilter} else {})"

definition input_position :: "string \<Rightarrow> input_positions \<Rightarrow> stream_position" where
  "input_position f p =
     (if f = RBACSubjectFilter then ip_rbac p else if f = GroupSubjectFilter then ip_group p
      else if f = UserSubjectFilter then ip_user p else ip_room p)"

definition input_wait :: "('s, 'x) env \<Rightarrow> string \<Rightarrow> stream_position \<Rightarrow> 's \<Rightarrow> 'x option \<times> 's" where
  "input_wait env f =
     (if f = RBACSubjectFilter then env_wait_rbac env else if f = GroupSubjectFilter then env_wait_group env
      else if f = UserSubjectFilter then env_wait_user env else env_wait_room env)"

lemma filters_differ [simp]:
  "GroupSubjectFilter \<noteq> RBACSubjectFilter" "UserSubjectFilter \<noteq> RBACSubjectFilter"
  "RoomSubjectFilter \<noteq> RBACSubjectFilter" "UserSubjectFilter \<noteq> GroupSubjectFilter"
  "RoomSubjectFilter \<noteq> GroupSubjectFilter" "RoomSubjectFilter \<noteq> UserSubjectFilter"
  by (simp_all add: GroupSubjectFilter_def RBACSubjectFilter_def UserSubjectFilter_def RoomSubjectFilter_def)

lemma positions_between:
  assumes "broker_laws (env_broker env) log staged"
    and "authorizationInputPositions env includeRooms s = (Inr p, s')"
  shows "prefix (log s) (log s') \<and> (\<forall>f \<in> inputs includeRooms. tail_between log f (input_position f p) s s')"
proof -
  note between = LastSubjectPosition_between [OF assms(1)]
  from assms(2) obtain rbac s1 grp s2 user s3 where
    r: "LastSubjectPosition (env_broker env) RBACSubjectFilter s = (Inr rbac, s1)"
    and g: "LastSubjectPosition (env_broker env) GroupSubjectFilter s1 = (Inr grp, s2)"
    and u: "LastSubjectPosition (env_broker env) UserSubjectFilter s2 = (Inr user, s3)"
    by (auto simp: authorizationInputPositions_def split: sum.splits prod.splits)
  have first3: "ip_rbac p = rbac \<and> ip_group p = grp \<and> ip_user p = user"
    using assms(2) r g u by (auto simp: authorizationInputPositions_def Let_def split: if_splits sum.splits prod.splits)
  have m: "prefix (log s) (log s1)" "prefix (log s1) (log s2)" "prefix (log s2) (log s3)"
    using between [OF r] between [OF g] between [OF u] by auto
  show ?thesis
  proof (cases includeRooms)
    case False
    with assms(2) r g u have "s' = s3" by (simp add: authorizationInputPositions_def Let_def)
    with False m between [OF r] between [OF g] between [OF u] first3 show ?thesis
      by (auto simp: inputs_def input_position_def intro: prefix_order.trans tail_between_mono)
  next
    case True
    with assms(2) r g u obtain room where rm: "LastSubjectPosition (env_broker env) RoomSubjectFilter s3 = (Inr room, s')"
      "ip_room p = room"
      by (auto simp: authorizationInputPositions_def Let_def split: sum.splits prod.splits)
    with True m between [OF r] between [OF g] between [OF u] between [OF rm(1)] first3 show ?thesis
      by (auto simp: inputs_def input_position_def intro: prefix_order.trans tail_between_mono)
  qed
qed

text \<open>The projection of an input reached the position before a state.\<close>

definition reached :: "('s, 'x) env \<Rightarrow> ('s \<Rightarrow> stored list) \<Rightarrow> string \<Rightarrow> stream_position \<Rightarrow> 's \<Rightarrow> bool" where
  "reached env log f pos s \<longleftrightarrow>
     sp_seq pos = 0 \<or> (\<exists>w w'. input_wait env f pos w = (None, w') \<and> prefix (log w') (log s))"

lemma waits_reach:
  assumes env: "env_forward log env" and run: "waitForAuthorizationInputs env p s = (None, s')"
  shows "prefix (log s) (log s') \<and> (\<forall>f \<in> inputs True. reached env log f (input_position f p) s')"
proof -
  from run obtain s1 s2 s3 where w:
    "waitUnlessZero (env_wait_rbac env) (ip_rbac p) s = (None, s1)"
    "waitUnlessZero (env_wait_group env) (ip_group p) s1 = (None, s2)"
    "waitUnlessZero (env_wait_user env) (ip_user p) s2 = (None, s3)"
    "waitUnlessZero (env_wait_room env) (ip_room p) s3 = (None, s')"
    by (auto simp: waitForAuthorizationInputs_def split: option.splits prod.splits)
  have fw: "forward log (waitUnlessZero (env_wait_rbac env) q)" "forward log (waitUnlessZero (env_wait_group env) q)"
    "forward log (waitUnlessZero (env_wait_user env) q)" "forward log (waitUnlessZero (env_wait_room env) q)" for q
    using env by (simp_all add: env_forward_def forward_waitUnlessZero)
  have m: "prefix (log s) (log s1)" "prefix (log s1) (log s2)" "prefix (log s2) (log s3)" "prefix (log s3) (log s')"
    by (rule forwardD [OF fw(1) w(1)], rule forwardD [OF fw(2) w(2)], rule forwardD [OF fw(3) w(3)],
        rule forwardD [OF fw(4) w(4)])
  then have to: "prefix (log s1) (log s')" "prefix (log s2) (log s')" "prefix (log s3) (log s')" "prefix (log s) (log s')"
    by (meson prefix_order.trans)+
  have got: "reached env log f pos s'"
    if "waitUnlessZero wait pos r = (None, r')" "input_wait env f = wait" "prefix (log r') (log s')" for f pos wait r r'
    using that by (auto simp: reached_def waitUnlessZero_def position_isZero_def split: if_splits)
  show ?thesis
    using got [OF w(1) _ to(1), of RBACSubjectFilter] got [OF w(2) _ to(2), of GroupSubjectFilter]
      got [OF w(3) _ to(3), of UserSubjectFilter] got [OF w(4) _ prefix_order.refl, of RoomSubjectFilter] to(4)
    by (auto simp: inputs_def input_wait_def input_position_def)
qed

section \<open>A stable check\<close>

lemma matching_prefix: "prefix l l' \<Longrightarrow> prefix (matching f l) (matching f l')"
  by (auto simp: prefix_def)

lemma unchanged_between:
  assumes "stored_ok c" and "prefix a b" and "prefix b c" and "tail_of f c = tail_of f a"
  shows "matching f b = matching f a \<and> matching f c = matching f a"
proof -
  have "matching f c = matching f a" using assms by (intro same_tail) (auto intro: prefix_order.trans)
  with matching_prefix [OF assms(2), of f] matching_prefix [OF assms(3), of f] show ?thesis
    by (auto intro: prefix_order.antisym)
qed

text \<open>What a check that stands was made on: within every input nothing changed while it ran,
  and the input's projection had reached the input's last record.\<close>

definition stable_check ::
  "('s, 'x) env \<Rightarrow> ('s \<Rightarrow> stored list) \<Rightarrow> bool \<Rightarrow> ('s, 'e) check \<Rightarrow> 's \<Rightarrow> 's \<Rightarrow> bool" where
  "stable_check env log includeRooms chk s1 s2 \<longleftrightarrow>
     chk s1 = (None, s2)
     \<and> (\<forall>f \<in> inputs includeRooms. matching f (log s2) = matching f (log s1)
          \<and> reached env log f (SubjectPosition f (tail_of f (log s1))) s1)"

lemma authorizeLoop_cases:
  fixes env :: "('s, 'x) env" and chk :: "('s, 'e) check"
  assumes "authorizeLoop env includeRooms chk attempt s = (None, s')"
  obtains before s1 s2 d s3 after s4 where "attempt < 5"
    "authorizationInputPositions env includeRooms s = (Inr before :: ('e, 'x) command_error + input_positions, s1)"
    "waitForAuthorizationInputs env before s1 = (None :: ('e, 'x) command_error option, s2)" "chk s2 = (d, s3)"
    "authorizationInputPositions env includeRooms s3 = (Inr after :: ('e, 'x) command_error + input_positions, s4)"
    "positions_equal before after \<and> d = None \<and> s4 = s'
     \<or> (\<exists>s5. br_pause (env_broker env) attempt s4 = (None, s5)
          \<and> authorizeLoop env includeRooms chk (attempt + 1) s5 = (None, s'))"
  using assms
  by (subst (asm) (2) authorizeLoop.simps)
    (auto split: if_splits sum.splits prod.splits option.splits)

lemma positions_equal_input:
  "positions_equal p q \<Longrightarrow> sp_seq (input_position f p) = sp_seq (input_position f q)"
  by (simp add: positions_equal_def input_position_def)

lemma authorizeLoop_stable:
  fixes env :: "('s, 'x) env" and chk :: "('s, 'e) check"
  assumes laws: "broker_laws (env_broker env) log staged" and env: "env_forward log env" and chk: "forward log chk"
    and run: "authorizeLoop env includeRooms chk attempt s = (None, s')"
  shows "\<exists>s1 s2. stable_check env log includeRooms chk s1 s2 \<and> prefix (log s) (log s1) \<and> prefix (log s2) (log s')"
  using run
proof (induction "5 - attempt" arbitrary: attempt s rule: less_induct)
  case less
  from less.prems show ?case
  proof (cases rule: authorizeLoop_cases)
    case (1 before s1 s2 d s3 after s4)
    note p1 = positions_between [OF laws 1(2)] and w = waits_reach [OF env 1(3)]
      and p2 = positions_between [OF laws 1(5)]
    have c: "prefix (log s2) (log s3)" by (rule forwardD [OF chk 1(4)])
    from 1(6) consider "positions_equal before after" "d = None" "s4 = s'"
      | s5 where "br_pause (env_broker env) attempt s4 = (None, s5)"
          "authorizeLoop env includeRooms chk (attempt + 1) s5 = (None, s')" by blast
    then show ?thesis
    proof cases
      case 1
      have "matching f (log s3) = matching f (log s2)
          \<and> reached env log f (SubjectPosition f (tail_of f (log s2))) s2" if f: "f \<in> inputs includeRooms" for f
      proof -
        from p1 f obtain t where t: "prefix (log t) (log s1)" "sp_seq (input_position f before) = tail_of f (log t)"
          "sp_filter (input_position f before) = f" by (auto simp: tail_between_def)
        from p2 f obtain u where u: "prefix (log s3) (log u)" "sp_seq (input_position f after) = tail_of f (log u)"
          by (auto simp: tail_between_def)
        have "stored_ok (log u)" using laws by (auto simp: broker_laws_def intro: grows_stored)
        moreover have "tail_of f (log u) = tail_of f (log t)"
          using positions_equal_input [OF 1(1), of f] t(2) u(2) by simp
        moreover have "prefix (log t) (log s2)" "prefix (log s2) (log u)" "prefix (log t) (log s3)"
          using t(1) w c u(1) by (meson prefix_order.trans)+
        ultimately have m: "matching f (log s2) = matching f (log t)" "matching f (log s3) = matching f (log t)"
          using unchanged_between [of "log u" "log t" "log s2" f] unchanged_between [of "log u" "log t" "log s3" f] u(1)
          by auto
        have "input_position f before = SubjectPosition f (tail_of f (log s2))"
          using t(2,3) m(1) by (simp add: SubjectPosition_def tail_of_def)
        moreover have "f \<in> inputs True" using f by (auto simp: inputs_def split: if_splits)
        ultimately show ?thesis using w m by auto
      qed
      moreover have "chk s2 = (None, s3)" using \<open>chk s2 = (d, s3)\<close> 1(2) by simp
      ultimately have "stable_check env log includeRooms chk s2 s3" by (simp add: stable_check_def)
      moreover have "prefix (log s) (log s2)" "prefix (log s3) (log s')"
        using p1 p2 w 1(3) by (auto intro: prefix_order.trans)
      ultimately show ?thesis by blast
    next
      case 2
      have "prefix (log s4) (log s5)"
        using laws 2(1) unfolding broker_laws_def only_grows_def by (metis snd_conv)
      with p1 p2 w c have "prefix (log s) (log s5)" by (meson prefix_order.trans)
      moreover have "5 - (attempt + 1) < 5 - attempt" using \<open>attempt < 5\<close> by simp
      from less.hyps [OF this 2(2)] obtain t1 t2 where
        "stable_check env log includeRooms chk t1 t2" "prefix (log s5) (log t1)" "prefix (log t2) (log s')" by blast
      ultimately show ?thesis by (blast intro: prefix_order.trans)
    qed
  qed
qed

lemma authorize_stable:
  assumes "broker_laws (env_broker env) log staged" and "env_forward log env" and "forward log chk"
    and "authorizeAtStableInputsWithRoomCatalog env includeRooms (Some chk) s = (None, s')"
  shows "\<exists>s1 s2. stable_check env log includeRooms chk s1 s2 \<and> prefix (log s) (log s1) \<and> prefix (log s2) (log s')"
  using authorizeLoop_stable [OF assms(1-3)] assms(4)
  by (simp add: authorizeAtStableInputsWithRoomCatalog_def)

section \<open>An attempt to append\<close>

definition typed_content_ok :: "('s, 'x) env \<Rightarrow> rbac_entry \<Rightarrow> stored \<Rightarrow> bool" where
  "typed_content_ok env e m \<longleftrightarrow> so_subject m = te_subject e
     \<and> (\<exists>r. env_encode env (te_event e) = Inr r \<and> so_id m = er_id r \<and> so_data m = er_data r)"

definition encoded_as :: "('e \<Rightarrow> 'x + encoded_record) \<Rightarrow> 'e typed_entry \<Rightarrow> batch_entry \<Rightarrow> bool" where
  "encoded_as encode e b \<longleftrightarrow> encode (te_event e) = Inr (be_record b) \<and> be_subject b = te_subject e \<and> be_expect b = te_expect e"

lemma encodeEntries_encoded:
  "encodeEntries encode i entries = Inr encoded \<Longrightarrow> list_all2 (encoded_as encode) entries encoded"
  by (induction encode i entries arbitrary: encoded rule: encodeEntries.induct)
    (auto simp: encoded_as_def split: sum.splits)

lemma appendAttempt_commits:
  fixes env :: "('s, 'x) env"
  assumes laws: "broker_laws (env_broker env) log staged" and w: "\<And>f q. forward log (wait f q)" and ne: "entries \<noteq> []"
    and run: "appendAttempt env entries wait s = (Answer (Inr sq) :: (('e, 'x) command_error + seq) attempt, s')"
  obtains l new where "prefix (log s) l" and "guard_holds (te_expect (hd entries)) (te_subject (hd entries)) l"
    and "prefix (l @ new) (log s')" and "list_all2 (typed_content_ok env) entries new" and "so_seq (last new) = sq"
proof -
  from run obtain seqs s1 where b: "AppendTypedBatch (env_broker env) (env_encode env) entries s = (Inr seqs, s1)"
    "sq = seqs ! (length entries - 1)" "wait (te_subject (entries ! (length entries - 1))) sq s1 = (None, s')"
    by (auto simp: appendAttempt_def Let_def split: sum.splits prod.splits option.splits if_splits)
  from b(1) ne obtain encoded where e: "encodeEntries (env_encode env) 0 entries = (Inr encoded :: 'x log_error + batch_entry list)"
    "appendBatch (env_broker env) encoded True s = (Inr seqs, s1)"
    by (auto simp: AppendTypedBatch_def AppendBatch_def split: sum.splits)
  have enc: "list_all2 (encoded_as (env_encode env)) entries encoded" by (rule encodeEntries_encoded [OF e(1)])
  then have len: "length encoded = length entries" and ne': "encoded \<noteq> []"
    using ne by (auto dest: list_all2_lengthD)
  have laws': "only_grows (env_broker env) log" "guards_batches (env_broker env) log staged"
    using laws by (simp_all add: broker_laws_def)
  from appendBatch_commit [OF laws' e(2) ne'] obtain l new where c: "prefix (log s) l" "batch_holds encoded l"
    "log s1 = l @ new" "map so_seq new = seqs" "map stored_content new = map batch_content encoded" by blast
  have len': "length new = length encoded" using c(5) by (metis length_map)
  have hd: "encoded_as (env_encode env) (hd entries) (hd encoded)"
    using enc ne ne' by (cases entries; cases encoded) auto
  show ?thesis
  proof (rule that [OF c(1)])
    show "guard_holds (te_expect (hd entries)) (te_subject (hd entries)) l"
      using c(2) hd list.set_sel(1) [OF ne'] by (auto simp: batch_holds_def encoded_as_def)
    show "prefix (l @ new) (log s')" using forwardD [OF w b(3)] c(3) by simp
    show "list_all2 (typed_content_ok env) entries new"
    proof (rule list_all2_all_nthI)
      fix i assume i: "i < length entries"
      have "encoded_as (env_encode env) (entries ! i) (encoded ! i)" using enc i by (rule list_all2_nthD)
      moreover have "stored_content (new ! i) = batch_content (encoded ! i)"
        using c(5) i len len' by (metis nth_map)
      ultimately show "typed_content_ok env (entries ! i) (new ! i)"
        by (auto simp: typed_content_ok_def encoded_as_def stored_content_def batch_content_def)
    qed (simp add: len len')
    show "so_seq (last new) = sq"
      using b(2) c(4) len len' ne' by (metis last_conv_nth length_map list.map_disc_iff last_map length_0_conv)
  qed
qed

lemma occLoop_answer:
  fixes br :: "('s, 'x) broker" and body :: "'s \<Rightarrow> (('e, 'x) command_error + 'r) attempt \<times> 's"
  assumes "occLoop br body attempt s = (Inr r, s')"
  shows "\<exists>t. body t = (Answer (Inr r), s')"
  using assms
proof (induction "5 - attempt" arbitrary: attempt s rule: less_induct)
  case less
  from less.prems have lt: "attempt < 5" by (subst (asm) occLoop.simps) (auto split: if_splits)
  obtain a s1 where b: "body s = (a, s1)" by fastforce
  show ?case
  proof (cases a)
    case (Answer q)
    with less.prems b lt have "q = Inr r" "s1 = s'" by (subst (asm) occLoop.simps, simp)+
    with b Answer show ?thesis by blast
  next
    case Conflict
    with less.prems b lt obtain s2 where "occLoop br body (attempt + 1) s2 = (Inr r, s')"
      by (subst (asm) occLoop.simps) (auto split: prod.splits option.splits)
    with less.hyps [OF _ this] lt show ?thesis by simp
  qed
qed

lemma rbacTail_reads:
  fixes env :: "('s, 'x) env"
  assumes "broker_laws (env_broker env) log staged" and "env_forward log env"
    and "rbacTail env s = (Inr sq :: ('e, 'x) command_error + seq, s')"
  obtains t where "sq = tail_of RBACSubjectFilter (log t)" and "prefix (log t) (log s')"
proof -
  from assms(3) obtain s1 where r: "LastSubjectSeq (env_broker env) RBACSubjectFilter s = (Inr sq, s1)"
    "env_wait_rbac env (SubjectPosition RBACSubjectFilter sq) s1 = (None, s')"
    by (auto simp: rbacTail_def split: sum.splits prod.splits option.splits)
  have "forward log (env_wait_rbac env p)" for p using assms(2) by (simp add: env_forward_def)
  from forwardD [OF this r(2)] LastSubjectSeq_reads [OF assms(1) r(1)] that show thesis by blast
qed

text \<open>The record of the change stands behind a stream that holds the RBAC records the check saw.\<close>

definition decided_and_written ::
  "('s, 'x) env \<Rightarrow> ('s \<Rightarrow> stored list) \<Rightarrow> bool \<Rightarrow> ('s, 'e) check \<Rightarrow> rbac_event event \<Rightarrow> seq \<Rightarrow> 's \<Rightarrow> bool" where
  "decided_and_written env log includeRooms chk event sq s' \<longleftrightarrow>
     (\<exists>s1 s2 l m. stable_check env log includeRooms chk s1 s2
        \<and> prefix (log s2) l \<and> matching RBACSubjectFilter l = matching RBACSubjectFilter (log s1)
        \<and> prefix (l @ [m]) (log s') \<and> so_seq m = sq
        \<and> typed_content_ok env (guardedEntry event noExpectation) m)"

lemma guarded_append_decided:
  fixes env :: "('s, 'x) env" and chk :: "('s, 'e) check"
  assumes laws: "broker_laws (env_broker env) log staged" and env: "env_forward log env" and chk: "forward log chk"
    and tl: "q = tail_of RBACSubjectFilter (log t)" and pre: "prefix (log t) (log s1)"
    and auth: "authorizeAtStableInputsWithRoomCatalog env includeRooms (Some chk) s1 = (None, s2)"
    and app: "appendAttempt env [guardedEntry event (ExpectFilterSeq RBACSubjectFilter q)] (waitRBAC env) s2
      = (Answer (Inr sq) :: (('e, 'x) command_error + seq) attempt, s')"
  shows "decided_and_written env log includeRooms chk event sq s'"
proof -
  from authorize_stable [OF laws env chk auth] obtain c1 c2 where
    st: "stable_check env log includeRooms chk c1 c2" "prefix (log s1) (log c1)" "prefix (log c2) (log s2)" by blast
  have w: "forward log (waitRBAC env f p)" for f p
    using env by (simp add: env_forward_def waitRBAC_def forward_def)
  have "[guardedEntry event (ExpectFilterSeq RBACSubjectFilter q)] \<noteq> []" by simp
  from appendAttempt_commits [OF laws w this app] obtain l new where a: "prefix (log s2) l"
    "guard_holds (te_expect (hd [guardedEntry event (ExpectFilterSeq RBACSubjectFilter q)]))
       (te_subject (hd [guardedEntry event (ExpectFilterSeq RBACSubjectFilter q)])) l"
    "prefix (l @ new) (log s')"
    "list_all2 (typed_content_ok env) [guardedEntry event (ExpectFilterSeq RBACSubjectFilter q)] new"
    "so_seq (last new) = sq" by blast
  from a(4) obtain m where m: "new = [m]" "typed_content_ok env (guardedEntry event noExpectation) m"
    by (auto simp: list_all2_Cons1 typed_content_ok_def guardedEntry_def)
  have g: "tail_of RBACSubjectFilter l = tail_of RBACSubjectFilter (log t)"
    using a(2) tl by (simp add: guardedEntry_def guard_holds_def ExpectFilterSeq_def noExpectation_def)
  have "stored_ok (log s')" using laws by (auto simp: broker_laws_def intro: grows_stored)
  then have ok: "stored_ok l" using a(3) by (auto simp: prefix_def intro: stored_ok_append)
  have c: "prefix (log c1) (log c2)" using st(1) chk by (auto simp: stable_check_def dest: forwardD)
  have "prefix (log t) (log c1)" "prefix (log c1) l" "prefix (log c2) l"
    using pre st(2,3) a(1) c by (meson prefix_order.trans)+
  with unchanged_between [OF ok this(1,2) g] a(3,5) m st(1) show ?thesis
    unfolding decided_and_written_def by (intro exI [of _ c1] exI [of _ c2] exI [of _ l] exI [of _ m]) simp
qed

section \<open>Committed RBAC changes\<close>


text \<open>A role assignment is decided on the room records too, and on a user that the
  lookup found in the same stable state: with an existing user required, the committed
  assignment had its user looked up and its check passed between two equal readings of the
  RBAC, group, user and room tails.\<close>

theorem role_assignment_decided_on_current_state:
  fixes env :: "('s, 'x) env" and chk :: "('s, 'e) check"
  assumes "broker_laws (env_broker env) log staged" and "env_forward log env"
    and "\<And>u. forward log (getUser u)" and "forward log chk"
    and "appendRoleAssignmentEvent env getUser userID True event (Some chk) s = (Inr sq, s')"
  shows "\<exists>s0 s1 s2 l m. getUser userID s0 = (None, s1) \<and> chk s1 = (None, s2)
    \<and> (\<forall>f \<in> {RBACSubjectFilter, GroupSubjectFilter, UserSubjectFilter, RoomSubjectFilter}.
          matching f (log s2) = matching f (log s0)
          \<and> reached env log f (SubjectPosition f (tail_of f (log s0))) s0)
    \<and> prefix (log s2) l \<and> matching RBACSubjectFilter l = matching RBACSubjectFilter (log s0)
    \<and> prefix (l @ [m]) (log s') \<and> so_seq m = sq \<and> so_subject m = rbacSubjectForEvent event"
proof -
  let ?c = "assignmentCheck getUser userID True (Some chk)"
  have fw: "forward log ?c"
    unfolding forward_def assignmentCheck_def
    by (auto split: prod.split option.split
        intro: prefix_order.trans [OF forwardD [OF assms(3)] assms(4) [unfolded forward_def, rule_format]]
          forwardD [OF assms(3)])
  from assms(5) obtain t where
    "appendRoleAssignmentEvent_attempt env getUser userID True event (Some chk) t = (Answer (Inr sq), s')"
    unfolding appendRoleAssignmentEvent_def by (blast dest: occLoop_answer)
  then obtain q t1 t2 where a: "rbacTail env t = (Inr q :: ('e, 'x) command_error + seq, t1)"
    "authorizeAtStableInputsWithRoomCatalog env True (Some ?c) t1 = (None, t2)"
    "appendAttempt env [guardedEntry event (ExpectFilterSeq RBACSubjectFilter q)] (waitRBAC env) t2
      = (Answer (Inr sq) :: (('e, 'x) command_error + seq) attempt, s')"
    by (auto simp: appendRoleAssignmentEvent_attempt_def authorizeAtStableRoomInputs_def
        split: sum.splits prod.splits option.splits)
  from rbacTail_reads [OF assms(1,2) a(1)] obtain u where u: "q = tail_of RBACSubjectFilter (log u)"
    "prefix (log u) (log t1)" by blast
  from guarded_append_decided [OF assms(1,2) fw u a(2,3)] obtain s1 s2 l m where
    d: "stable_check env log True ?c s1 s2" "prefix (log s2) l"
    "matching RBACSubjectFilter l = matching RBACSubjectFilter (log s1)" "prefix (l @ [m]) (log s')"
    "so_seq m = sq" "typed_content_ok env (guardedEntry event noExpectation) m"
    unfolding decided_and_written_def by blast
  from d(1) obtain si where "getUser userID s1 = (None, si)" "chk si = (None, s2)"
    by (auto simp: stable_check_def assignmentCheck_def split: option.splits prod.splits)
  with d show ?thesis
    by (intro exI [of _ s1] exI [of _ si] exI [of _ s2] exI [of _ l] exI [of _ m])
      (auto simp: stable_check_def inputs_def typed_content_ok_def guardedEntry_def)
qed

section \<open>A committed change\<close>

definition sample_env :: "(memory, unit) env" where
  "sample_env = \<lparr>env_broker = memory_broker alone_here,
     env_encode = (\<lambda>event. Inr \<lparr>er_id = ev_id event, er_data = ''data'', er_ttl = 0\<rparr>),
     env_wait_rbac = (\<lambda>_ s. (None, s)), env_wait_group = (\<lambda>_ s. (None, s)), env_wait_user = (\<lambda>_ s. (None, s)),
     env_wait_room = (\<lambda>_ s. (None, s)), env_wait_mentionables = (\<lambda>_ s. (None, s))\<rparr>"

definition sample_event :: "rbac_event event" where
  "sample_event = \<lparr>ev_id = ''e1'', ev_actor = ''U1'', ev_created_at = None,
     ev_payload = Some (RbacRoleAssigned ''U2'' ''admin'' ''U1'')\<rparr>"

definition permit :: "(memory, string) check" where "permit s = (None, s)"

lemma sample_env_forward: "env_forward my_log sample_env"
  by (simp add: env_forward_def forward_def sample_env_def)

lemma permit_forward: "forward my_log permit"
  by (simp add: forward_def permit_def)

lemma sample_env_laws: "broker_laws (env_broker sample_env) my_log my_staged"
  using memory_laws [OF admits_here] by (simp add: sample_env_def)

lemma sample_tail:
  "LastSubjectPosition (env_broker sample_env) f (empty_memory []) = (Inr (SubjectPosition f 0), empty_memory [])"
  by (simp add: tail_eval memory_eval sample_env_def empty_memory_def)

lemma sample_authorized:
  "authorizeLoop sample_env includeRooms (chk :: (memory, string) check) 0 (empty_memory []) = (None, empty_memory [])"
  if "\<And>s. chk s = (None, s)"
proof -
  have "authorizationInputPositions sample_env includeRooms (empty_memory [])
      = (Inr \<lparr>ip_rbac = SubjectPosition RBACSubjectFilter 0, ip_group = SubjectPosition GroupSubjectFilter 0,
          ip_user = SubjectPosition UserSubjectFilter 0,
          ip_room = SubjectPosition (if includeRooms then RoomSubjectFilter else []) 0\<rparr>
        :: (string, unit) command_error + input_positions, empty_memory [])"
    by (simp add: authorizationInputPositions_def sample_tail)
  then show ?thesis
    by (subst authorizeLoop.simps)
      (simp add: waitForAuthorizationInputs_def waitUnlessZero_def position_isZero_def SubjectPosition_def that
        positions_equal_def)
qed

lemma sample_append:
  obtains s' where "appendAttempt sample_env [guardedEntry sample_event (ExpectFilterSeq RBACSubjectFilter 0)]
    (waitRBAC sample_env) (empty_memory []) = (Answer (Inr 1) :: ((string, unit) command_error + seq) attempt, s')"
  by (simp add: appendAttempt_def AppendTypedBatch_def AppendBatch_def guardedEntry_def sample_env_def run_eval guard_eval
      memory_eval empty_memory_def waitRBAC_def sample_event_def Let_def RBACSubjectFilter_def)

lemma sample_rbac_tail: "rbacTail sample_env (empty_memory []) = (Inr 0 :: (string, unit) command_error + seq, empty_memory [])"
  by (simp add: rbacTail_def LastSubjectSeq_def sample_tail SubjectPosition_def) (simp add: sample_env_def)


lemma role_assignment_decided_on_current_state_witness:
  "\<exists>s' l m. prefix (l @ [m]) (my_log s') \<and> so_seq m = 1 \<and> so_subject m = ''evt.rbac.server.role_assigned''"
proof -
  obtain s' where app: "appendAttempt sample_env [guardedEntry sample_event (ExpectFilterSeq RBACSubjectFilter 0)]
    (waitRBAC sample_env) (empty_memory []) = (Answer (Inr 1) :: ((string, unit) command_error + seq) attempt, s')"
    by (rule sample_append)
  have "assignmentCheck (\<lambda>_. permit) ''U2'' True (Some permit) s = (None, s)" for s
    by (simp add: assignmentCheck_def permit_def)
  from sample_authorized [OF this]
  have "appendRoleAssignmentEvent sample_env (\<lambda>_. permit) ''U2'' True sample_event (Some permit) (empty_memory []) = (Inr 1, s')"
    using app sample_rbac_tail
    by (simp add: appendRoleAssignmentEvent_def occLoop.simps [of _ _ 0] appendRoleAssignmentEvent_attempt_def
        authorizeAtStableRoomInputs_def authorizeAtStableInputsWithRoomCatalog_def)
  from role_assignment_decided_on_current_state [OF sample_env_laws sample_env_forward permit_forward permit_forward this]
  obtain l m where "prefix (l @ [m]) (my_log s')" "so_seq m = 1" "so_subject m = rbacSubjectForEvent sample_event" by blast
  moreover have "rbacSubjectForEvent sample_event = ''evt.rbac.server.role_assigned''"
    by (simp add: sample_event_def rbacSubjectForEvent_def rbacAggregateForEvent_def RBACServerAggregate_def Subject_def)
  ultimately show ?thesis by auto
qed

end
