(* ===== verification/Paged_Reads.thy ===== *)
theory Paged_Reads
  imports Event_Log
begin

text \<open>
  Reading the event log in pages (\<open>SubjectRecordsAfterPage\<close> of \<open>encoded_event_log.go\<close>) and
  the typed read that walks all pages (\<open>typed_event_log.go\<close>). The consumer of JetStream is a
  parameter: its creation, its count of pending messages, its fetches and its deletion, each
  taking and returning a state that other writers may have extended meanwhile.
\<close>

section \<open>Consumers\<close>

text \<open>A fetched message; its metadata may be unreadable.\<close>

record 'x fetched =
  fe_subject :: string
  fe_meta :: "'x + seq"
  fe_id :: string
  fe_data :: string

text \<open>
  The start sequence is absent for \<open>DeliverAllPolicy\<close>. A fetch returns its messages and the
  error of the batch, unless that error is \<open>ErrNoMessages\<close>.
\<close>

record ('c, 's, 'x) reader =
  rd_create :: "string \<Rightarrow> seq option \<Rightarrow> 's \<Rightarrow> ('x + 'c) \<times> 's"
  rd_pending :: "'c \<Rightarrow> 's \<Rightarrow> ('x + nat) \<times> 's"
  rd_fetch :: "'c \<Rightarrow> nat \<Rightarrow> 's \<Rightarrow> ('x + 'x fetched list \<times> 'x option) \<times> 's"
  rd_delete :: "'c \<Rightarrow> 's \<Rightarrow> 's"

datatype 'x read_error =
    ErrInvalidSubjectReadLimit
  | PayloadTooLarge nat
  | MessageMetadata 'x
  | ConsumerFailed 'x
  | ErrNoTypedDecoder
  | DecodeRecord seq 'x

section \<open>One page\<close>

record subject_record =
  sr_subject :: string
  sr_seq :: seq
  sr_id :: string
  sr_data :: string

record subject_page =
  pg_records :: "subject_record list"
  pg_last :: seq
  pg_more :: bool

definition empty_page :: subject_page where
  "empty_page = \<lparr>pg_records = [], pg_last = 0, pg_more = False\<rparr>"

text \<open>The page with the counters \<open>bytesRead\<close> and \<open>largest\<close>.\<close>

record page_read =
  rp_page :: subject_page
  rp_bytes :: nat
  rp_largest :: nat

definition add_record :: "'x fetched \<Rightarrow> seq \<Rightarrow> page_read \<Rightarrow> page_read" where
  "add_record msg sq r =
     r\<lparr>rp_page := (rp_page r)\<lparr>pg_last := sq,
         pg_records := pg_records (rp_page r) @
           [\<lparr>sr_subject = fe_subject msg, sr_seq = sq, sr_id = fe_id msg, sr_data = fe_data msg\<rparr>]\<rparr>,
       rp_bytes := rp_bytes r + length (fe_data msg)\<rparr>"

text \<open>The loop over the messages of one batch: how many there were and whether the page is full.\<close>

fun appendMessages ::
  "nat \<Rightarrow> nat \<Rightarrow> bool \<Rightarrow> 'x fetched list \<Rightarrow> page_read \<Rightarrow> ('x read_error + nat \<times> bool) \<times> page_read" where
  "appendMessages maxBytes fetched full [] r = (Inr (fetched, full), r)"
| "appendMessages maxBytes fetched full (msg # msgs) r =
     (if full then appendMessages maxBytes (fetched + 1) full msgs r
      else if 0 < maxBytes \<and> maxBytes < length (fe_data msg) \<and> pg_records (rp_page r) = []
      then (Inl (PayloadTooLarge (length (fe_data msg))), r)
      else
        (let r1 = r\<lparr>rp_largest := max (max (rp_largest r) (length (fe_data msg))) 1\<rparr> in
         if 0 < maxBytes \<and> maxBytes < rp_bytes r1 + length (fe_data msg)
         then appendMessages maxBytes (fetched + 1) True msgs r1
         else case fe_meta msg of
           Inl x \<Rightarrow> (Inl (MessageMetadata x), r1)
         | Inr sq \<Rightarrow> appendMessages maxBytes (fetched + 1) False msgs (add_record msg sq r1)))"

definition appendPageRecords ::
  "nat \<Rightarrow> 'x fetched list \<times> 'x option \<Rightarrow> page_read \<Rightarrow> ('x read_error + nat \<times> bool) \<times> page_read" where
  "appendPageRecords maxBytes batch r =
     (case appendMessages maxBytes 0 False (fst batch) r of
        (Inl e, r') \<Rightarrow> (Inl e, r')
      | (Inr (fetched, full), r') \<Rightarrow>
          (case snd batch of Some x \<Rightarrow> (Inl (ConsumerFailed x), r') | None \<Rightarrow> (Inr (fetched, full), r')))"

text \<open>A batch that neither failed nor filled the page is in it as a whole.\<close>

lemma appendMessages_full: "appendMessages maxBytes k True msgs r = (Inr (k + length msgs, True), r)"
  by (induction msgs arbitrary: k) simp_all

lemma appendMessages_count:
  assumes "appendMessages maxBytes k False msgs r = (Inr (fetched, False), r')"
  shows "fetched = k + length msgs
    \<and> length (pg_records (rp_page r')) = length (pg_records (rp_page r)) + length msgs"
  using assms
proof (induction msgs arbitrary: k r)
  case (Cons msg msgs)
  then show ?case
    by (fastforce simp: Let_def add_record_def appendMessages_full split: if_splits sum.splits)
qed simp

lemma appendPageRecords_count:
  "appendPageRecords maxBytes batch r = (Inr (fetched, False), r') \<Longrightarrow>
     length (pg_records (rp_page r')) = length (pg_records (rp_page r)) + fetched"
  by (auto simp: appendPageRecords_def split: prod.splits sum.splits option.splits
      dest: appendMessages_count)

abbreviation maxByteBoundedPageFetch :: nat where "maxByteBoundedPageFetch \<equiv> 64"

definition fetchSize :: "nat \<Rightarrow> nat \<Rightarrow> nat \<Rightarrow> page_read \<Rightarrow> nat" where
  "fetchSize maxBytes remaining previousBatch r =
     (if maxBytes = 0 then remaining
      else if rp_largest r = 0 then 1
      else min (max ((maxBytes - rp_bytes r) div rp_largest r) 1)
             (min (2 * previousBatch) (min maxByteBoundedPageFetch remaining)))"

function pageLoop ::
  "('c, 's, 'x) reader \<Rightarrow> 'c \<Rightarrow> nat \<Rightarrow> nat \<Rightarrow> nat \<Rightarrow> page_read \<Rightarrow> 's \<Rightarrow> ('x read_error + page_read) \<times> 's" where
  "pageLoop rd c maxBytes target previousBatch r s =
     (if length (pg_records (rp_page r)) < target \<and> (maxBytes = 0 \<or> rp_bytes r < maxBytes) then
        (let batchSize = fetchSize maxBytes (target - length (pg_records (rp_page r))) previousBatch r in
         case rd_fetch rd c batchSize s of
           (Inl x, s1) \<Rightarrow> (Inl (ConsumerFailed x), s1)
         | (Inr batch, s1) \<Rightarrow>
             (case appendPageRecords maxBytes batch r of
                (Inl e, _) \<Rightarrow> (Inl e, s1)
              | (Inr (fetched, full), r1) \<Rightarrow>
                  if full \<or> fetched = 0 then (Inr r1, s1)
                  else pageLoop rd c maxBytes target batchSize r1 s1))
      else (Inr r, s))"
  by pat_completeness auto
termination
  by (relation "measure (\<lambda>(_, _, _, target, _, r, _). target - length (pg_records (rp_page r)))")
    (auto dest!: appendPageRecords_count [OF sym])

declare pageLoop.simps [simp del]

text \<open>The consumer is deleted on every way out.\<close>

definition readPage ::
  "('c, 's, 'x) reader \<Rightarrow> 'c \<Rightarrow> nat \<Rightarrow> nat \<Rightarrow> 's \<Rightarrow> ('x read_error + subject_page) \<times> 's" where
  "readPage rd c maxRecords maxBytes s =
     (case rd_pending rd c s of
        (Inl x, s1) \<Rightarrow> (Inl (ConsumerFailed x), s1)
      | (Inr numPending, s1) \<Rightarrow>
          (case pageLoop rd c maxBytes (min maxRecords numPending) 0
                  \<lparr>rp_page = empty_page, rp_bytes = 0, rp_largest = 0\<rparr> s1 of
             (Inl e, s2) \<Rightarrow> (Inl e, s2)
           | (Inr r, s2) \<Rightarrow>
               (Inr ((rp_page r)\<lparr>pg_more := length (pg_records (rp_page r)) < numPending\<rparr>), s2)))"

definition SubjectRecordsAfterPage ::
  "('c, 's, 'x) reader \<Rightarrow> string \<Rightarrow> seq \<Rightarrow> int \<Rightarrow> int \<Rightarrow> 's \<Rightarrow> ('x read_error + subject_page) \<times> 's" where
  "SubjectRecordsAfterPage rd subject afterSeq maxRecords maxBytes s =
     (if maxRecords \<le> 0 \<or> maxBytes < 0 then (Inl ErrInvalidSubjectReadLimit, s)
      else case rd_create rd subject (if 0 < afterSeq then Some (afterSeq + 1) else None) s of
        (Inl x, s1) \<Rightarrow> (Inl (ConsumerFailed x), s1)
      | (Inr c, s1) \<Rightarrow>
          (case readPage rd c (nat maxRecords) (nat maxBytes) s1 of
             (result, s2) \<Rightarrow> (result, rd_delete rd c s2)))"

section \<open>All pages\<close>

record 'e typed_record =
  tr_subject :: string
  tr_seq :: seq
  tr_event :: 'e

fun decodeRecords ::
  "(string \<Rightarrow> 'x + 'e) \<Rightarrow> subject_record list \<Rightarrow> 'e typed_record list \<Rightarrow> 'x read_error + 'e typed_record list" where
  "decodeRecords decode [] acc = Inr acc"
| "decodeRecords decode (r # rs) acc =
     (case decode (sr_data r) of
        Inl x \<Rightarrow> Inl (DecodeRecord (sr_seq r) x)
      | Inr ev \<Rightarrow>
          decodeRecords decode rs
            (acc @ [\<lparr>tr_subject = sr_subject r, tr_seq = sr_seq r, tr_event = ev\<rparr>]))"

text \<open>
  The loop over the pages has no bound of its own; \<^const>\<open>None\<close> is a read that never returns.
  An answer has the records, the last sequence and the error.
\<close>

type_synonym ('e, 'x) read_answer = "'e typed_record list \<times> seq \<times> 'x read_error option"

partial_function (option) pagesLoop ::
  "('c, 's, 'x) reader \<Rightarrow> (string \<Rightarrow> 'x + 'e) \<Rightarrow> string \<Rightarrow> int \<Rightarrow> int \<Rightarrow> seq
     \<Rightarrow> 'e typed_record list \<Rightarrow> seq \<Rightarrow> 's \<Rightarrow> (('e, 'x) read_answer \<times> 's) option" where
  "pagesLoop rd decode subject maxRecords maxBytes afterSeq decoded lastSeq s =
     (case SubjectRecordsAfterPage rd subject afterSeq maxRecords maxBytes s of
        (Inl e, s1) \<Rightarrow> Some (([], lastSeq, Some e), s1)
      | (Inr page, s1) \<Rightarrow>
          (case decodeRecords decode (pg_records page) decoded of
             Inl e \<Rightarrow> Some (([], 0, Some e), s1)
           | Inr decoded1 \<Rightarrow>
               (let lastSeq1 = (if lastSeq < pg_last page then pg_last page else lastSeq) in
                if \<not> pg_more page \<or> pg_records page = [] then Some ((decoded1, lastSeq1, None), s1)
                else pagesLoop rd decode subject maxRecords maxBytes (pg_last page) decoded1 lastSeq1 s1)))"

definition SubjectEventsWithSubjectsAfter ::
  "('c, 's, 'x) reader \<Rightarrow> (string \<Rightarrow> 'x + 'e) option \<Rightarrow> string \<Rightarrow> seq \<Rightarrow> int \<Rightarrow> int \<Rightarrow> 's
     \<Rightarrow> (('e, 'x) read_answer \<times> 's) option" where
  "SubjectEventsWithSubjectsAfter rd decode subject afterSeq maxRecords maxBytes s =
     (case decode of
        None \<Rightarrow> Some (([], 0, Some ErrNoTypedDecoder), s)
      | Some d \<Rightarrow> pagesLoop rd d subject maxRecords maxBytes afterSeq [] 0 s)"

text \<open>The reads of Chatto's publisher, with its page size and byte bound.\<close>

abbreviation subjectEventsPageSize :: int where "subjectEventsPageSize \<equiv> 500"
abbreviation subjectEventsPageMaxBytes :: int where "subjectEventsPageMaxBytes \<equiv> 16777216"

definition SubjectEventsAfter ::
  "('c, 's, 'x) reader \<Rightarrow> (string \<Rightarrow> 'x + 'e) \<Rightarrow> string \<Rightarrow> seq \<Rightarrow> 's
     \<Rightarrow> (('e list \<times> seq \<times> 'x read_error option) \<times> 's) option" where
  "SubjectEventsAfter rd decode subject afterSeq s =
     (case SubjectEventsWithSubjectsAfter rd (Some decode) subject afterSeq
             subjectEventsPageSize subjectEventsPageMaxBytes s of
        None \<Rightarrow> None
      | Some ((records, lastSeq, Some e), s1) \<Rightarrow> Some (([], lastSeq, Some e), s1)
      | Some ((records, lastSeq, None), s1) \<Rightarrow> Some ((map tr_event records, lastSeq, None), s1))"

definition SubjectEvents ::
  "('c, 's, 'x) reader \<Rightarrow> (string \<Rightarrow> 'x + 'e) \<Rightarrow> string \<Rightarrow> 's
     \<Rightarrow> (('e list \<times> seq \<times> 'x read_error option) \<times> 's) option" where
  "SubjectEvents rd decode subject s = SubjectEventsAfter rd decode subject 0 s"

end
