(* ===== verification/Paged_Reads_Properties.thy ===== *)
theory Paged_Reads_Properties
  imports Paged_Reads Broker_Contract
begin

text \<open>
  What a paged read returns. A consumer walks the records its filter matches from its start
  sequence on; other writers may append at any time. A page stays within its limits; the walk
  over the pages returns, and its answer is an unbroken piece of the log.
\<close>

section \<open>What a consumer delivers\<close>

text \<open>The records a consumer at \<open>from\<close> still has to deliver.\<close>

definition remaining :: "string \<Rightarrow> nat \<Rightarrow> stored list \<Rightarrow> stored list" where
  "remaining f from l = filter (\<lambda>m. from \<le> unat (so_seq m)) (matching f l)"

definition pos_after :: "nat \<Rightarrow> stored list \<Rightarrow> nat" where
  "pos_after from taken = (if taken = [] then from else Suc (unat (so_seq (last taken))))"

lemma remaining_append [simp]: "remaining f from (l @ l') = remaining f from l @ remaining f from l'"
  by (simp add: remaining_def)

lemma remaining_mono: "prefix l l' \<Longrightarrow> prefix (remaining f from l) (remaining f from l')"
  by (auto simp: prefix_def)

lemma remaining_drop:
  assumes "stored_ok l" and "prefix taken (remaining f from l)"
  shows "remaining f (pos_after from taken) l = drop (length taken) (remaining f from l)"
proof (cases "taken = []")
  case False
  from assms(2) obtain rest where rest: "remaining f from l = taken @ rest" by (auto simp: prefix_def)
  let ?n = "unat (so_seq (last taken))"
  have sorted: "sorted_wrt (\<lambda>a b. so_seq a < so_seq b) (taken @ rest)"
    unfolding rest [symmetric] remaining_def
    using stored_ok_matching [OF assms(1), of f]
    by (intro sorted_wrt_filter) (simp add: stored_ok_def sorted_wrt_map)
  have last_in: "last taken \<in> set taken" and from_last: "from \<le> ?n"
  proof -
    show "last taken \<in> set taken" using False by simp
    then have "last taken \<in> set (remaining f from l)" by (simp add: rest)
    then show "from \<le> ?n" by (simp add: remaining_def)
  qed
  have below: "unat (so_seq m) \<le> ?n" if "m \<in> set taken" for m
  proof -
    obtain ts where ts: "taken = ts @ [last taken]" using False by (metis append_butlast_last_id)
    from that sorted show ?thesis
      by (subst (asm) ts, subst (asm) (2) ts)
        (auto simp: sorted_wrt_append word_less_nat_alt intro: less_imp_le)
  qed
  have above: "Suc ?n \<le> unat (so_seq m)" if "m \<in> set rest" for m
    using that last_in sorted by (auto simp: sorted_wrt_append word_less_nat_alt Suc_le_eq)
  have "remaining f (Suc ?n) l = filter (\<lambda>m. Suc ?n \<le> unat (so_seq m)) (remaining f from l)"
    unfolding remaining_def filter_filter using from_last by (intro filter_cong) auto
  also have "\<dots> = rest"
  proof -
    have "filter (\<lambda>m. Suc ?n \<le> unat (so_seq m)) taken = []"
      using below by (auto simp: filter_empty_conv not_less_eq_eq)
    moreover have "filter (\<lambda>m. Suc ?n \<le> unat (so_seq m)) rest = rest"
      using above by (intro filter_True) auto
    ultimately show ?thesis by (simp add: rest)
  qed
  finally show ?thesis using False by (simp add: pos_after_def rest)
qed (simp add: pos_after_def)

definition fetched_of :: "stored \<Rightarrow> 'x fetched" where
  "fetched_of m = \<lparr>fe_subject = so_subject m, fe_meta = Inr (so_seq m), fe_id = so_id m, fe_data = so_data m\<rparr>"

lemma fetched_of_sel [simp]: "fe_data (fetched_of m) = so_data m" "fe_meta (fetched_of m) = Inr (so_seq m)"
  by (simp_all add: fetched_of_def)

definition record_of :: "stored \<Rightarrow> subject_record" where
  "record_of m = \<lparr>sr_subject = so_subject m, sr_seq = so_seq m, sr_id = so_id m, sr_data = so_data m\<rparr>"

section \<open>The laws of a reader\<close>

text \<open>The stream only grows, and stays below the greatest 64-bit sequence.\<close>

definition log_grows :: "('c, 's, 'x) reader \<Rightarrow> ('s \<Rightarrow> stored list) \<Rightarrow> bool" where
  "log_grows rd log \<longleftrightarrow>
     (\<forall>s. stored_ok (log s) \<and> (\<forall>m \<in> set (log s). so_seq m \<noteq> - 1)
        \<and> (\<forall>f start. prefix (log s) (log (snd (rd_create rd f start s))))
        \<and> (\<forall>c. prefix (log s) (log (snd (rd_pending rd c s))))
        \<and> (\<forall>c n. prefix (log s) (log (snd (rd_fetch rd c n s))))
        \<and> (\<forall>c. prefix (log s) (log (rd_delete rd c s))))"

text \<open>
  \<open>cursor\<close> is the filter and the next sequence of a consumer. A fetch delivers the first
  records that remain, at most as many as were asked for; without an error it delivers at
  least one when one was there.
\<close>

definition reader_laws ::
  "('c, 's, 'x) reader \<Rightarrow> ('s \<Rightarrow> stored list) \<Rightarrow> ('s \<Rightarrow> 'c \<Rightarrow> string \<times> nat) \<Rightarrow> bool" where
  "reader_laws rd log cursor \<longleftrightarrow>
     log_grows rd log
     \<and> (\<forall>f start s c s'. rd_create rd f start s = (Inr c, s')
          \<longrightarrow> cursor s' c = (f, case start of None \<Rightarrow> 0 | Some sq \<Rightarrow> unat sq))
     \<and> (\<forall>c s n s'. rd_pending rd c s = (Inr n, s')
          \<longrightarrow> cursor s' c = cursor s c
            \<and> n = length (remaining (fst (cursor s c)) (snd (cursor s c)) (log s')))
     \<and> (\<forall>c k s msgs err s'. rd_fetch rd c k s = (Inr (msgs, err), s')
          \<longrightarrow> (\<exists>taken. prefix taken (remaining (fst (cursor s c)) (snd (cursor s c)) (log s'))
                \<and> length taken \<le> k \<and> msgs = map fetched_of taken
                \<and> cursor s' c = (fst (cursor s c), pos_after (snd (cursor s c)) taken)
                \<and> (err = None \<and> 0 < k \<and> remaining (fst (cursor s c)) (snd (cursor s c)) (log s) \<noteq> []
                     \<longrightarrow> taken \<noteq> [])))"

lemma reader_grows:
  assumes "reader_laws rd log cursor"
  shows "stored_ok (log s)"
    and "rd_create rd f start s = (q, s') \<Longrightarrow> prefix (log s) (log s')"
    and "rd_pending rd c s = (n, s') \<Longrightarrow> prefix (log s) (log s')"
    and "rd_fetch rd c k s = (b, s') \<Longrightarrow> prefix (log s) (log s')"
    and "prefix (log s) (log (rd_delete rd c s))" and "m \<in> set (log s) \<Longrightarrow> so_seq m \<noteq> - 1"
proof -
  from assms have g: "log_grows rd log" by (simp add: reader_laws_def)
  show "stored_ok (log s)" "prefix (log s) (log (rd_delete rd c s))" using g by (simp_all add: log_grows_def)
  show "m \<in> set (log s) \<Longrightarrow> so_seq m \<noteq> - 1" using g by (auto simp: log_grows_def)
  show "prefix (log s) (log s')" if "rd_create rd f start s = (q, s')"
    using g that by (auto simp: log_grows_def dest!: spec [of _ s]) (metis snd_conv)
  show "prefix (log s) (log s')" if "rd_pending rd c s = (n, s')"
    using g that by (auto simp: log_grows_def dest!: spec [of _ s]) (metis snd_conv)
  show "prefix (log s) (log s')" if "rd_fetch rd c k s = (b, s')"
    using g that by (auto simp: log_grows_def dest!: spec [of _ s]) (metis snd_conv)
qed

section \<open>One batch\<close>

text \<open>What a batch adds to the page is a first piece of it, all of it unless the page is full.\<close>

definition page_of :: "stored list \<Rightarrow> page_read \<Rightarrow> bool" where
  "page_of taken r \<longleftrightarrow>
     pg_records (rp_page r) = map record_of taken
     \<and> pg_last (rp_page r) = (if taken = [] then 0 else so_seq (last taken))
     \<and> rp_bytes r = sum_list (map (length \<circ> so_data) taken)"

lemma page_of_add:
  "page_of taken r \<Longrightarrow> page_of (taken @ [m]) (add_record (fetched_of m) (so_seq m) (r\<lparr>rp_largest := k\<rparr>))"
  by (simp add: page_of_def add_record_def fetched_of_def record_of_def)

lemma appendMessages_page:
  assumes "appendMessages maxBytes k False (map fetched_of ms :: 'x fetched list) r = (Inr (fetched, full), r')"
    and "page_of taken r" and "0 < maxBytes \<longrightarrow> rp_bytes r \<le> maxBytes"
  shows "fetched = k + length ms \<and>
     (\<exists>more. prefix more ms \<and> page_of (taken @ more) r' \<and> (\<not> full \<longrightarrow> more = ms)
        \<and> (taken = [] \<and> ms \<noteq> [] \<longrightarrow> more \<noteq> []) \<and> (0 < maxBytes \<longrightarrow> rp_bytes r' \<le> maxBytes))"
  using assms
proof (induction ms arbitrary: k r taken)
  case Nil
  then show ?case by auto
next
  case (Cons m ms)
  let ?len = "length (so_data m)"
  let ?r1 = "r\<lparr>rp_largest := max (max (rp_largest r) ?len) 1\<rparr>"
  have small: "\<not> (0 < maxBytes \<and> maxBytes < ?len \<and> taken = [])"
    using Cons.prems(1,2) by (auto simp: page_of_def split: if_splits)
  show ?case
  proof (cases "0 < maxBytes \<and> maxBytes < rp_bytes r + ?len")
    case True
    with Cons.prems(1,2) small have "(Inr (fetched, full), r') = (Inr (k + 1 + length ms, True), ?r1)"
      by (auto simp: Let_def page_of_def appendMessages_full simp del: map_map split: if_splits)
    moreover have "taken \<noteq> []" using True small Cons.prems(2) by (auto simp: page_of_def)
    moreover have "page_of taken ?r1" using Cons.prems(2) by (simp add: page_of_def)
    ultimately show ?thesis using Cons.prems(3) by (intro conjI exI [of _ "[]"]) auto
  next
    case False
    let ?r2 = "add_record (fetched_of m :: 'x fetched) (so_seq m) ?r1"
    have empty: "pg_records (rp_page r) = [] \<longleftrightarrow> taken = []" using Cons.prems(2) by (simp add: page_of_def)
    have step: "appendMessages maxBytes k False (map fetched_of (m # ms) :: 'x fetched list) r
        = appendMessages maxBytes (k + 1) False (map fetched_of ms :: 'x fetched list) ?r2"
      using small False by (auto simp: Let_def empty)
    have rest: "appendMessages maxBytes (k + 1) False (map fetched_of ms :: 'x fetched list) ?r2 = (Inr (fetched, full), r')"
      using step Cons.prems(1) by (rule trans [OF sym])
    have bytes: "0 < maxBytes \<longrightarrow> rp_bytes ?r2 \<le> maxBytes" using False by (auto simp: add_record_def)
    from Cons.IH [OF rest page_of_add [OF Cons.prems(2)] bytes]
    obtain more where "fetched = k + 1 + length ms" "prefix more ms" "page_of ((taken @ [m]) @ more) r'"
      "\<not> full \<longrightarrow> more = ms" "0 < maxBytes \<longrightarrow> rp_bytes r' \<le> maxBytes" by blast
    then show ?thesis by (intro conjI exI [of _ "m # more"]) auto
  qed
qed

section \<open>One page\<close>

lemma fetchSize_bounds:
  assumes "0 < n" and "rp_largest r = 0 \<or> 0 < prev"
  shows "0 < fetchSize maxBytes n prev r" and "fetchSize maxBytes n prev r \<le> n"
proof -
  let ?a = "max ((maxBytes - rp_bytes r) div rp_largest r) 1"
  from assms have "0 < min ?a (min (2 * prev) (min maxByteBoundedPageFetch n))" if "rp_largest r \<noteq> 0"
    using that by (simp add: min_less_iff_conj less_max_iff_disj)
  with assms(1) show "0 < fetchSize maxBytes n prev r" by (simp add: fetchSize_def)
  have "min ?a (min (2 * prev) (min maxByteBoundedPageFetch n)) \<le> n" by (intro min.coboundedI2) simp
  with assms(1) show "fetchSize maxBytes n prev r \<le> n" by (simp add: fetchSize_def)
qed

lemma reader_fetch:
  assumes "reader_laws rd log cursor" and "rd_fetch rd c k s = (Inr (msgs, err), s')"
    and "cursor s c = (f, pos_after from taken)" and "prefix taken (remaining f from (log s))"
  obtains new where "prefix (taken @ new) (remaining f from (log s'))" and "length new \<le> k"
    and "msgs = map fetched_of new" and "cursor s' c = (f, pos_after from (taken @ new))"
    and "err = None \<and> 0 < k \<and> taken = [] \<and> remaining f from (log s) \<noteq> [] \<longrightarrow> new \<noteq> []"
proof -
  from reader_grows(1,4) [OF assms(1)] assms(2)
  have grows: "prefix (log s) (log s')" and ok: "stored_ok (log s')" by blast+
  from assms(1) have law: "\<forall>c k s msgs err s'. rd_fetch rd c k s = (Inr (msgs, err), s')
      \<longrightarrow> (\<exists>taken. prefix taken (remaining (fst (cursor s c)) (snd (cursor s c)) (log s'))
            \<and> length taken \<le> k \<and> msgs = map fetched_of taken
            \<and> cursor s' c = (fst (cursor s c), pos_after (snd (cursor s c)) taken)
            \<and> (err = None \<and> 0 < k \<and> remaining (fst (cursor s c)) (snd (cursor s c)) (log s) \<noteq> []
                 \<longrightarrow> taken \<noteq> []))"
    by (simp add: reader_laws_def)
  from law [rule_format, OF assms(2)] assms(3) obtain new where
    new: "prefix new (remaining f (pos_after from taken) (log s'))" "length new \<le> k" "msgs = map fetched_of new"
      "cursor s' c = (f, pos_after (pos_after from taken) new)"
      "err = None \<and> 0 < k \<and> remaining f (pos_after from taken) (log s) \<noteq> [] \<longrightarrow> new \<noteq> []" by auto
  have pre: "prefix taken (remaining f from (log s'))"
    using assms(4) remaining_mono [OF grows] by (rule prefix_order.trans)
  then obtain rest where rest: "remaining f from (log s') = taken @ rest" by (auto simp: prefix_def)
  have "prefix (taken @ new) (remaining f from (log s'))"
    using new(1) remaining_drop [OF ok pre] by (simp add: rest)
  moreover have "pos_after (pos_after from taken) new = pos_after from (taken @ new)"
    by (simp add: pos_after_def)
  ultimately show ?thesis
    using new(2-5) by (intro that [of new]) (auto simp: pos_after_def)
qed

lemma pageLoop_page:
  assumes "reader_laws rd log cursor" and "pageLoop rd c maxBytes target prev r s = (Inr r', s')"
    and "cursor s c = (f, pos_after from taken)" and "prefix taken (remaining f from (log s))"
    and "page_of taken r" and "0 < maxBytes \<longrightarrow> rp_bytes r \<le> maxBytes" and "length taken \<le> target"
    and "rp_largest r = 0 \<or> 0 < prev"
  shows "prefix (log s) (log s') \<and> (\<exists>new. prefix (taken @ new) (remaining f from (log s'))
    \<and> page_of (taken @ new) r' \<and> length (taken @ new) \<le> target \<and> (0 < maxBytes \<longrightarrow> rp_bytes r' \<le> maxBytes)
    \<and> (taken = [] \<and> 0 < target \<and> remaining f from (log s) \<noteq> [] \<longrightarrow> new \<noteq> []))"
  using assms(2-)
proof (induction "target - length taken" arbitrary: taken prev r s rule: less_induct)
  case (less taken prev r s)
  note prems = less.prems
  have len: "length (pg_records (rp_page r)) = length taken" using prems(4) by (simp add: page_of_def)
  show ?case
  proof (cases "length taken < target \<and> (maxBytes = 0 \<or> rp_bytes r < maxBytes)")
    case False
    have "pageLoop rd c maxBytes target prev r s = (Inr r, s)"
      unfolding pageLoop.simps [of rd c maxBytes target prev r s] len if_not_P [OF False] ..
    with prems(1) have "r' = r" "s' = s" by simp_all
    with prems(3-6) False show ?thesis by (auto simp: page_of_def intro!: exI [of _ "[]"])
  next
    case True
    let ?k = "fetchSize maxBytes (target - length taken) prev r"
    have k: "0 < ?k" "?k \<le> target - length taken"
      using fetchSize_bounds [of "target - length taken" r prev maxBytes] True prems(7) by auto
    obtain msgs err s1 fetched full r1 where
      fetch: "rd_fetch rd c ?k s = (Inr (msgs, err), s1)" and
      app: "appendPageRecords maxBytes (msgs, err) r = (Inr (fetched, full), r1)" and
      next_: "if full \<or> fetched = 0 then r' = r1 \<and> s' = s1
        else pageLoop rd c maxBytes target ?k r1 s1 = (Inr r', s')"
      using prems(1) unfolding pageLoop.simps [of rd c maxBytes target prev r s] len if_P [OF True] Let_def
      by (auto split: prod.splits sum.splits if_splits)
    from reader_fetch [OF assms(1) fetch prems(2,3)] obtain new where
      new: "prefix (taken @ new) (remaining f from (log s1))" "length new \<le> ?k" "msgs = map fetched_of new"
        "cursor s1 c = (f, pos_after from (taken @ new))"
        "err = None \<and> 0 < ?k \<and> taken = [] \<and> remaining f from (log s) \<noteq> [] \<longrightarrow> new \<noteq> []" by blast
    from app have err: "err = None" and msgs: "appendMessages maxBytes 0 False msgs r = (Inr (fetched, full), r1)"
      by (auto simp: appendPageRecords_def split: prod.splits sum.splits option.splits)
    from appendMessages_page [OF msgs [unfolded new(3)] prems(4,5)] obtain more where
      more: "fetched = length new" "prefix more new" "page_of (taken @ more) r1" "\<not> full \<longrightarrow> more = new"
        "taken = [] \<and> new \<noteq> [] \<longrightarrow> more \<noteq> []" "0 < maxBytes \<longrightarrow> rp_bytes r1 \<le> maxBytes" by auto
    have grows: "prefix (log s) (log s1)" using reader_grows(4) [OF assms(1) fetch] .
    have pre: "prefix (taken @ more) (remaining f from (log s1))"
      using new(1) more(2) by (auto simp: prefix_def)
    have le: "length (taken @ more) \<le> target"
      using prefix_length_le [OF more(2)] new(2) k(2) prems(6) by simp
    have some: "taken = [] \<and> 0 < target \<and> remaining f from (log s) \<noteq> [] \<longrightarrow> more \<noteq> []"
      using new(5) err k(1) more(5) by blast
    show ?thesis
    proof (cases "full \<or> fetched = 0")
      case True
      with next_ have "r' = r1" "s' = s1" by simp_all
      with grows pre more(3,6) le some show ?thesis by (intro conjI exI [of _ more]) simp_all
    next
      case False
      with next_ more(4) have rec: "pageLoop rd c maxBytes target ?k r1 s1 = (Inr r', s')" and all: "more = new"
        by simp_all
      have "target - length (taken @ more) < target - length taken"
        using False more(1) all le by (cases new) auto
      from less.hyps [OF this rec new(4) [folded all] pre more(3,6) le disjI2 [OF k(1)]]
      obtain new' where "prefix (log s1) (log s')" "prefix ((taken @ more) @ new') (remaining f from (log s'))"
        "page_of ((taken @ more) @ new') r'" "length ((taken @ more) @ new') \<le> target"
        "0 < maxBytes \<longrightarrow> rp_bytes r' \<le> maxBytes" by blast
      with grows some show ?thesis
        by (intro conjI exI [of _ "more @ new'"]) (auto intro: prefix_order.trans)
    qed
  qed
qed

text \<open>The records after a sequence.\<close>

definition after :: "string \<Rightarrow> seq \<Rightarrow> stored list \<Rightarrow> stored list" where
  "after f a l = filter (\<lambda>m. a < so_seq m) (matching f l)"

lemma after_remaining: "after f a l = remaining f (Suc (unat a)) l"
  by (simp add: after_def remaining_def word_less_nat_alt Suc_le_eq)

lemma start_remaining:
  assumes "stored_ok l" and "a \<noteq> - 1"
  shows "remaining f (case if 0 < a then Some (a + 1) else None of None \<Rightarrow> 0 | Some sq \<Rightarrow> unat sq) l = after f a l"
proof (cases "0 < a")
  case True
  from assms(2) have "a + 1 \<noteq> 0" by (metis add.right_inverse add_left_cancel add.commute)
  with True show ?thesis by (simp add: after_remaining unatSuc add.commute)
next
  case False
  then have "a = 0" by (simp add: word_gt_0)
  with assms(1) show ?thesis
    by (auto simp: after_def remaining_def matching_def stored_ok_def intro!: filter_cong)
qed

lemma page_answer:
  assumes laws: "reader_laws rd log cursor"
    and call: "SubjectRecordsAfterPage rd f a maxRecords maxBytes s = (Inr page, s')" and "a \<noteq> - 1"
  shows "prefix (log s) (log s') \<and> (\<exists>taken. prefix taken (after f a (log s'))
    \<and> pg_records page = map record_of taken \<and> pg_last page = (if taken = [] then 0 else so_seq (last taken))
    \<and> (\<not> pg_more page \<longrightarrow> prefix (after f a (log s)) taken) \<and> (taken = [] \<longrightarrow> \<not> pg_more page)
    \<and> length taken \<le> nat maxRecords
    \<and> (0 < maxBytes \<longrightarrow> sum_list (map (length \<circ> so_data) taken) \<le> nat maxBytes))"
proof -
  let ?start = "if 0 < a then Some (a + 1) else None"
  let ?from = "case ?start of None \<Rightarrow> 0 | Some sq \<Rightarrow> unat sq"
  let ?r0 = "\<lparr>rp_page = empty_page, rp_bytes = 0, rp_largest = 0\<rparr>"
  from call obtain c s1 n s2 r s3 where
    limits: "0 < maxRecords" "0 \<le> maxBytes" and
    create: "rd_create rd f ?start s = (Inr c, s1)" and
    pending: "rd_pending rd c s1 = (Inr n, s2)" and
    loop: "pageLoop rd c (nat maxBytes) (min (nat maxRecords) n) 0 ?r0 s2 = (Inr r, s3)" and
    page: "page = (rp_page r)\<lparr>pg_more := length (pg_records (rp_page r)) < n\<rparr>" and s': "s' = rd_delete rd c s3"
    unfolding SubjectRecordsAfterPage_def readPage_def
    by (auto split: if_splits prod.splits sum.splits)
  from laws have "cursor s1 c = (f, ?from)" using create unfolding reader_laws_def by blast
  moreover from laws have "cursor s2 c = cursor s1 c
      \<and> n = length (remaining (fst (cursor s1 c)) (snd (cursor s1 c)) (log s2))"
    using pending unfolding reader_laws_def by blast
  ultimately have cur: "cursor s2 c = (f, pos_after ?from [])" and n: "n = length (after f a (log s2))"
    using start_remaining [OF reader_grows(1) [OF laws] assms(3)] by (simp_all add: pos_after_def)
  have "page_of [] ?r0" by (simp add: page_of_def empty_page_def)
  from pageLoop_page [OF laws loop cur _ this] start_remaining [OF reader_grows(1) [OF laws] assms(3)]
  obtain taken where grows: "prefix (log s2) (log s3)" and taken: "prefix taken (after f a (log s3))"
    "page_of taken r" "length taken \<le> min (nat maxRecords) n" "0 < nat maxBytes \<longrightarrow> rp_bytes r \<le> nat maxBytes"
    "0 < min (nat maxRecords) n \<and> after f a (log s2) \<noteq> [] \<longrightarrow> taken \<noteq> []" by auto
  have chain: "prefix (log s) (log s2)" "prefix (log s3) (log s')"
    using reader_grows(2) [OF laws create] reader_grows(3) [OF laws pending] reader_grows(5) [OF laws]
    by (auto simp: s' intro: prefix_order.trans)
  have fill: "prefix (after f a (log s)) taken" if "\<not> pg_more page"
  proof -
    have "prefix (after f a (log s)) (after f a (log s2))"
      unfolding after_remaining by (rule remaining_mono [OF chain(1)])
    moreover have "prefix (after f a (log s2)) taken"
    proof (rule prefix_length_prefix)
      show "prefix (after f a (log s2)) (after f a (log s3))"
        unfolding after_remaining by (rule remaining_mono [OF grows])
      show "prefix taken (after f a (log s3))" by fact
      show "length (after f a (log s2)) \<le> length taken"
        using that taken(2) by (simp add: page page_of_def n)
    qed
    ultimately show ?thesis by (rule prefix_order.trans)
  qed
  have none: "\<not> pg_more page" if "taken = []"
    using that taken(2,5) limits(1) by (auto simp: page page_of_def n)
  have "prefix taken (after f a (log s'))"
    using taken(1) remaining_mono [OF chain(2)] unfolding after_remaining by (rule prefix_order.trans)
  with chain grows taken fill none limits(2) show ?thesis
    by (intro conjI exI [of _ taken]) (auto simp: page page_of_def intro: prefix_order.trans)
qed

section \<open>All pages\<close>

definition shown :: "'e typed_record \<Rightarrow> string \<times> seq \<times> ('x + 'e)" where
  "shown r = (tr_subject r, tr_seq r, Inr (tr_event r))"

definition expected :: "(string \<Rightarrow> 'x + 'e) \<Rightarrow> stored \<Rightarrow> string \<times> seq \<times> ('x + 'e)" where
  "expected decode m = (so_subject m, so_seq m, decode (so_data m))"

lemma decodeRecords_expected:
  "decodeRecords decode (map record_of ms) acc = Inr out
     \<Longrightarrow> map shown out = map shown acc @ map (expected decode) ms"
  by (induction ms arbitrary: acc)
    (fastforce simp: record_of_def shown_def expected_def split: sum.splits)+

text \<open>The sequence after a first piece of what remains, and what is left then.\<close>

lemma after_step:
  assumes "stored_ok l" and "prefix taken (after f a l)" and "taken \<noteq> []"
  shows "after f a l = taken @ after f (so_seq (last taken)) l" and "a < so_seq (last taken)"
    and "so_seq (last taken) \<in> so_seq ` set l"
proof -
  from assms(2) obtain rest where rest: "after f a l = taken @ rest" by (auto simp: prefix_def)
  from remaining_drop [OF assms(1), of taken f "Suc (unat a)"] assms(2,3)
  show "after f a l = taken @ after f (so_seq (last taken)) l"
    by (simp add: after_remaining [symmetric] pos_after_def rest)
  have "last taken \<in> set (after f a l)" using assms(3) by (simp add: rest)
  then show "a < so_seq (last taken)" "so_seq (last taken) \<in> so_seq ` set l"
    by (auto simp: after_def matching_def)
qed

text \<open>
  The answer of the loop from \<open>a\<close> on, with the records and the last sequence so far: between
  the stream \<open>l\<close> at the start and \<open>l'\<close> at the end.
\<close>

definition unbroken ::
  "(string \<Rightarrow> 'x + 'e) \<Rightarrow> string \<Rightarrow> seq \<Rightarrow> stored list \<Rightarrow> stored list \<Rightarrow> 'e typed_record list \<Rightarrow> seq
     \<Rightarrow> 'e typed_record list \<Rightarrow> seq \<Rightarrow> bool" where
  "unbroken decode f a l l' decoded lastSeq records lastSeq' \<longleftrightarrow>
     prefix l l' \<and> (\<exists>piece. prefix piece (after f a l') \<and> prefix (after f a l) piece
       \<and> map shown records = map shown decoded @ map (expected decode) piece
       \<and> lastSeq' = (if piece = [] then lastSeq else so_seq (last piece)))"

lemma pagesLoop_answer:
  assumes laws: "reader_laws rd log cursor"
  shows "a \<noteq> - 1 \<Longrightarrow> lastSeq \<le> a \<Longrightarrow>
    \<exists>records lastSeq' err s'. pagesLoop rd decode f maxRecords maxBytes a decoded lastSeq s
        = Some ((records, lastSeq', err), s')
      \<and> (err = None \<longrightarrow> unbroken decode f a (log s) (log s') decoded lastSeq records lastSeq')"
proof (induction "unat (- 1 :: seq) - unat a" arbitrary: a decoded lastSeq s rule: less_induct)
  case less
  note eq = pagesLoop.simps [of rd decode f maxRecords maxBytes a decoded lastSeq s]
  obtain answer s1 where call: "SubjectRecordsAfterPage rd f a maxRecords maxBytes s = (answer, s1)" by fastforce
  show ?case
  proof (cases answer)
    case (Inl e)
    then show ?thesis by (simp add: eq call)
  next
    case (Inr page)
    from page_answer [OF laws call [unfolded Inr] less.prems(1)] obtain taken where
      grows: "prefix (log s) (log s1)" and taken: "prefix taken (after f a (log s1))"
        "pg_records page = map record_of taken" "pg_last page = (if taken = [] then 0 else so_seq (last taken))"
        "\<not> pg_more page \<longrightarrow> prefix (after f a (log s)) taken" "taken = [] \<longrightarrow> \<not> pg_more page" by blast
    let ?last = "if lastSeq < pg_last page then pg_last page else lastSeq"
    have ok: "stored_ok (log s1)" by (rule reader_grows(1) [OF laws])
    show ?thesis
    proof (cases "decodeRecords decode (pg_records page) decoded")
      case (Inl e)
      then show ?thesis by (simp add: eq call \<open>answer = Inr page\<close>)
    next
      case decoded1: (Inr decoded1)
      from decodeRecords_expected [OF decoded1 [unfolded taken(2)]]
      have shown1: "map shown decoded1 = map shown decoded @ map (expected decode) taken" .
      have last: "?last = (if taken = [] then lastSeq else so_seq (last taken))"
        using taken(3) after_step(2) [OF ok taken(1)] less.prems(2) by auto
      show ?thesis
      proof (cases "\<not> pg_more page \<or> taken = []")
        case True
        with taken(5) have stop: "\<not> pg_more page" by blast
        then have ret: "pagesLoop rd decode f maxRecords maxBytes a decoded lastSeq s = Some ((decoded1, ?last, None), s1)"
          by (simp add: eq call Inr decoded1)
        have "prefix (after f a (log s)) taken" using taken(4) stop by blast
        then show ?thesis
          unfolding unbroken_def
          by (intro exI [of _ decoded1] exI [of _ ?last] exI [of _ None] exI [of _ s1])
            (simp add: ret grows shown1 last exI [of _ taken] taken(1))
      next
        case False
        let ?b = "so_seq (last taken)"
        note step = after_step [OF ok taken(1)]
        from False taken(3) last have b: "pg_last page = ?b" "?last = ?b" by simp_all
        have nonempty: "pg_records page \<noteq> []" using False by (simp add: taken(2))
        have "pagesLoop rd decode f maxRecords maxBytes a decoded lastSeq s
            = pagesLoop rd decode f maxRecords maxBytes (pg_last page) decoded1 ?last s1"
          using False nonempty by (simp add: eq call Inr decoded1)
        then have rec: "pagesLoop rd decode f maxRecords maxBytes a decoded lastSeq s
            = pagesLoop rd decode f maxRecords maxBytes ?b decoded1 ?b s1"
          unfolding b(2) unfolding b(1) .
        have "?b \<noteq> - 1" using step(3) False reader_grows(6) [OF laws] by (metis imageE)
        moreover have "unat (- 1 :: seq) - unat ?b < unat (- 1 :: seq) - unat a"
        proof (rule diff_less_mono2)
          show "unat a < unat ?b" using step(2) False by (simp add: word_less_nat_alt)
          have "a < - 1" using less.prems(1) word_order.not_eq_extremum by blast
          then show "unat a < unat (- 1 :: seq)" by (simp only: word_less_nat_alt)
        qed
        ultimately obtain records last2 err s2 where
          ih: "pagesLoop rd decode f maxRecords maxBytes ?b decoded1 ?b s1 = Some ((records, last2, err), s2)"
          "err = None \<longrightarrow> unbroken decode f ?b (log s1) (log s2) decoded1 ?b records last2"
          using less.hyps [of ?b ?b decoded1 s1] by blast
        have "unbroken decode f a (log s) (log s2) decoded lastSeq records last2" if "err = None"
        proof -
          from ih(2) that obtain piece where grows2: "prefix (log s1) (log s2)" and piece:
            "prefix piece (after f ?b (log s2))" "prefix (after f ?b (log s1)) piece"
            "map shown records = map shown decoded1 @ map (expected decode) piece"
            "last2 = (if piece = [] then ?b else so_seq (last piece))" unfolding unbroken_def by blast
          have taken2: "prefix taken (after f a (log s2))"
            using taken(1) remaining_mono [OF grows2] unfolding after_remaining by (rule prefix_order.trans)
          have "prefix (taken @ piece) (after f a (log s2))"
            using piece(1) after_step(1) [OF reader_grows(1) [OF laws] taken2] False by simp
          moreover have "prefix (after f a (log s)) (taken @ piece)"
          proof (rule prefix_order.trans)
            show "prefix (after f a (log s)) (after f a (log s1))"
              unfolding after_remaining by (rule remaining_mono [OF grows])
            show "prefix (after f a (log s1)) (taken @ piece)"
              using piece(2) step(1) False by simp
          qed
          moreover have "prefix (log s) (log s2)" using grows grows2 by (rule prefix_order.trans)
          ultimately show ?thesis
            unfolding unbroken_def using False piece(3,4) shown1 by (intro conjI exI [of _ "taken @ piece"]) auto
        qed
        with ih(1) show ?thesis unfolding rec by blast
      qed
    qed
  qed
qed

section \<open>The properties\<close>


text \<open>A read without an error returns an unbroken piece of the log: exactly the
  matching records after the requested sequence up to the reported last one, in stream order,
  each with its subject, sequence and decoded event, none skipped and none twice across the
  page boundaries. Every record that was stored when the read began is among them.\<close>

theorem paged_read_unbroken:
  assumes "reader_laws rd log cursor" and "afterSeq \<noteq> - 1"
    and "SubjectEventsWithSubjectsAfter rd (Some decode) subject afterSeq maxRecords maxBytes s
      = Some ((records, lastSeq, None), s')"
  shows "\<exists>piece. map shown records = map (expected decode) piece
    \<and> prefix piece (after subject afterSeq (log s')) \<and> prefix (after subject afterSeq (log s)) piece
    \<and> lastSeq = (if piece = [] then 0 else so_seq (last piece))"
proof -
  from pagesLoop_answer [OF assms(1,2) word_zero_le, of decode subject maxRecords maxBytes "[]" s] obtain r l e t where
    run: "pagesLoop rd decode subject maxRecords maxBytes afterSeq [] 0 s = Some ((r, l, e), t)" and
    good: "e = None \<longrightarrow> unbroken decode subject afterSeq (log s) (log t) [] 0 r l" by blast
  from run assms(3) have "r = records" "l = lastSeq" "e = None" "t = s'"
    by (simp_all add: SubjectEventsWithSubjectsAfter_def)
  with good have "unbroken decode subject afterSeq (log s) (log s') [] 0 records lastSeq" by simp
  then obtain piece where "map shown records = map shown [] @ map (expected decode) piece"
    "prefix piece (after subject afterSeq (log s'))" "prefix (after subject afterSeq (log s)) piece"
    "lastSeq = (if piece = [] then 0 else so_seq (last piece))" unfolding unbroken_def by blast
  then show ?thesis by (intro exI [of _ piece]) simp
qed

text \<open>A page never exceeds its limits: it has at most the requested number of
  records and, when a byte limit is set, at most that many payload bytes, however large the
  payloads that a fetch brings. It says that there is more only when it holds a record, so the
  caller always makes progress.\<close>

theorem page_within_limits:
  assumes "reader_laws rd log cursor" and "afterSeq \<noteq> - 1"
    and "SubjectRecordsAfterPage rd subject afterSeq maxRecords maxBytes s = (Inr page, s')"
  shows "int (length (pg_records page)) \<le> maxRecords
    \<and> (0 < maxBytes \<longrightarrow> int (sum_list (map (length \<circ> sr_data) (pg_records page))) \<le> maxBytes)
    \<and> (pg_more page \<longrightarrow> pg_records page \<noteq> [] \<and> afterSeq < pg_last page)"
proof -
  have pos: "0 < maxRecords" using assms(3) by (auto simp: SubjectRecordsAfterPage_def split: if_splits)
  from page_answer [OF assms(1,3,2)] obtain taken where taken: "prefix taken (after subject afterSeq (log s'))"
    "pg_records page = map record_of taken" "pg_last page = (if taken = [] then 0 else so_seq (last taken))"
    "taken = [] \<longrightarrow> \<not> pg_more page" "length taken \<le> nat maxRecords"
    "0 < maxBytes \<longrightarrow> sum_list (map (length \<circ> so_data) taken) \<le> nat maxBytes" by blast
  have data: "map (length \<circ> sr_data) (pg_records page) = map (length \<circ> so_data) taken"
    by (simp add: taken(2) record_of_def)
  from pos taken(5) have "int (length (pg_records page)) \<le> maxRecords" by (simp add: taken(2) le_nat_iff)
  moreover from taken(6) have "0 < maxBytes \<longrightarrow> int (sum_list (map (length \<circ> so_data) taken)) \<le> maxBytes"
    by (simp add: le_nat_iff)
  moreover have "pg_more page \<longrightarrow> pg_records page \<noteq> [] \<and> afterSeq < pg_last page"
    using taken(2-4) after_step(2) [OF reader_grows(1) [OF assms(1)] taken(1)] by auto
  ultimately show ?thesis unfolding data by blast
qed

section \<open>A reader in memory\<close>

text \<open>
  The state is how much of a sample stream is there, with the cursor of the one consumer.
  Every fetch meets a writer that appends the next record.
\<close>

definition sample_stream :: "stored list" where
  "sample_stream =
     map (\<lambda>(subject, sq). \<lparr>so_subject = subject, so_seq = sq, so_id = ''id'', so_data = ''ab''\<rparr>)
       [(''evt.a'', 3), (''evt.b'', 5), (''evt.a'', 8), (''evt.a'', 9)]"

type_synonym memory = "nat \<times> string \<times> nat"

definition memory_log :: "memory \<Rightarrow> stored list" where
  "memory_log s = take (fst s) sample_stream"

definition memory_reader :: "(unit, memory, 'x) reader" where
  "memory_reader =
     \<lparr>rd_create = (\<lambda>f start (n, _). (Inr (), (n, f, case start of None \<Rightarrow> 0 | Some sq \<Rightarrow> unat sq))),
      rd_pending = (\<lambda>_ (n, f, from). (Inr (length (remaining f from (take n sample_stream))), (n, f, from))),
      rd_fetch = (\<lambda>_ k (n, f, from).
        (let taken = take k (remaining f from (take (n + 1) sample_stream))
         in (Inr (map fetched_of taken, None), (n + 1, f, pos_after from taken)))),
      rd_delete = (\<lambda>_ s. s)\<rparr>"

lemma sample_stream_ok: "stored_ok sample_stream" "\<forall>m \<in> set sample_stream. so_seq m \<noteq> - 1"
  by (simp_all add: sample_stream_def stored_ok_def)

lemma memory_log_ok: "stored_ok (memory_log s)" "m \<in> set (memory_log s) \<Longrightarrow> so_seq m \<noteq> - 1"
  using sample_stream_ok stored_ok_append [of "memory_log s" "drop (fst s) sample_stream"]
  by (auto simp: memory_log_def dest: in_set_takeD)

lemma take_prefix: "prefix (take n xs) (take (n + 1) xs)"
  unfolding take_add by simp

lemma memory_grows: "log_grows (memory_reader :: (unit, memory, 'x) reader) memory_log"
  using memory_log_ok take_prefix by (auto simp: log_grows_def memory_reader_def memory_log_def Let_def)

lemma memory_reader_laws: "reader_laws (memory_reader :: (unit, memory, 'x) reader) memory_log (\<lambda>s _. snd s)"
proof -
  have "take k (remaining f pos (take (n + 1) sample_stream)) \<noteq> []"
    if "0 < k" "remaining f pos (take n sample_stream) \<noteq> []" for k f pos n
    using that remaining_mono [OF take_prefix, of f pos n sample_stream] by (auto simp: prefix_def)
  note some = this
  show ?thesis unfolding reader_laws_def
  proof (intro conjI allI impI)
    fix c :: unit and k msgs and s s' :: memory and err :: "'x option"
    obtain n f pos where s: "s = (n, f, pos)" by (cases s)
    let ?taken = "take k (remaining f pos (take (n + 1) sample_stream))"
    assume "rd_fetch memory_reader c k s = (Inr (msgs, err), s')"
    then show "\<exists>taken. prefix taken (remaining (fst (snd s)) (snd (snd s)) (memory_log s')) \<and> length taken \<le> k
        \<and> msgs = map fetched_of taken \<and> snd s' = (fst (snd s), pos_after (snd (snd s)) taken)
        \<and> (err = None \<and> 0 < k \<and> remaining (fst (snd s)) (snd (snd s)) (memory_log s) \<noteq> [] \<longrightarrow> taken \<noteq> [])"
      using some [of k f pos n]
      by (intro exI [of _ ?taken]) (auto simp: s memory_reader_def memory_log_def Let_def take_is_prefix)
  qed (rule memory_grows, auto simp: memory_reader_def memory_log_def)
qed

text \<open>Three pages of one record each; the last record arrives during the read.\<close>

abbreviation sample_read ::
  "((string, unit) read_answer \<times> memory) option" where
  "sample_read \<equiv> SubjectEventsWithSubjectsAfter memory_reader (Some Inr) ''evt.a'' 0 1 10 (3, [], 0)"

lemma sample_pages:
  "SubjectRecordsAfterPage (memory_reader :: (unit, memory, unit) reader) ''evt.a'' 0 1 10 (3, [], 0) =
     (Inr \<lparr>pg_records = [\<lparr>sr_subject = ''evt.a'', sr_seq = 3, sr_id = ''id'', sr_data = ''ab''\<rparr>],
           pg_last = 3, pg_more = True\<rparr>, (4, ''evt.a'', 4))"
  "SubjectRecordsAfterPage (memory_reader :: (unit, memory, unit) reader) ''evt.a'' 3 1 10 (4, ''evt.a'', 4) =
     (Inr \<lparr>pg_records = [\<lparr>sr_subject = ''evt.a'', sr_seq = 8, sr_id = ''id'', sr_data = ''ab''\<rparr>],
           pg_last = 8, pg_more = True\<rparr>, (5, ''evt.a'', 9))"
  "SubjectRecordsAfterPage (memory_reader :: (unit, memory, unit) reader) ''evt.a'' 8 1 10 (5, ''evt.a'', 9) =
     (Inr \<lparr>pg_records = [\<lparr>sr_subject = ''evt.a'', sr_seq = 9, sr_id = ''id'', sr_data = ''ab''\<rparr>],
           pg_last = 9, pg_more = False\<rparr>, (6, ''evt.a'', 10))"
  by code_simp+

lemma sample_read_answer:
  "sample_read = Some ((map (\<lambda>sq. \<lparr>tr_subject = ''evt.a'', tr_seq = sq, tr_event = ''ab''\<rparr>) [3, 8, 9], 9, None),
     (6, ''evt.a'', 10))"
  by (simp add: SubjectEventsWithSubjectsAfter_def pagesLoop.simps sample_pages)

lemma sample_page:
  "SubjectRecordsAfterPage (memory_reader :: (unit, memory, unit) reader) ''evt.a'' 3 10 3 (4, [], 0) =
     (Inr \<lparr>pg_records = [\<lparr>sr_subject = ''evt.a'', sr_seq = 8, sr_id = ''id'', sr_data = ''ab''\<rparr>],
           pg_last = 8, pg_more = True\<rparr>, (6, ''evt.a'', 10))"
  by code_simp


lemma paged_read_unbroken_witness:
  "\<exists>piece. length piece = 3 \<and> prefix piece (after ''evt.a'' 0 (memory_log (6, ''evt.a'', 10)))
     \<and> (9::seq) = (if piece = [] then 0 else so_seq (last piece))"
proof -
  have "(0 :: seq) \<noteq> - 1" by simp
  from paged_read_unbroken [OF memory_reader_laws this sample_read_answer] obtain piece where
    "map shown (map (\<lambda>sq. \<lparr>tr_subject = ''evt.a'', tr_seq = sq, tr_event = ''ab''\<rparr>) [3 :: seq, 8, 9])
       = map (expected (Inr :: string \<Rightarrow> unit + string)) piece"
    "prefix piece (after ''evt.a'' 0 (memory_log (6, ''evt.a'', 10)))"
    "(9::seq) = (if piece = [] then 0 else so_seq (last piece))" by blast
  moreover from this(1) have "length piece = 3" by (auto dest!: arg_cong [of _ _ length])
  ultimately show ?thesis by blast
qed

lemma page_within_limits_witness: "int (length [8 :: seq]) \<le> 10 \<and> (3 :: seq) < 8"
  using page_within_limits [OF memory_reader_laws _ sample_page] by simp

end
