(* ===== verification/Intern.thy ===== *)
theory Intern
  imports Chatto_Prelude
begin

text \<open>
  The tables that give every identifier a small handle (\<open>pkg/events/intern\<close>): an arena of
  bytes with packed locations (\<open>arena.go\<close>), the plain table (\<open>table.go\<close>), and the
  concurrent table that indexes its identifiers by hash and keeps them in an arena
  (\<open>concurrent.go\<close>). A panic is \<^const>\<open>None\<close>. The hash is a parameter: nothing is assumed of
  it, any two identifiers may collide. Locks are left out: each operation is one critical
  section.
\<close>

unbundle bit_operations_syntax

section \<open>The arena\<close>

abbreviation arenaFirstChunkBytes :: nat where "arenaFirstChunkBytes \<equiv> 1024"
abbreviation arenaMaxChunkBytes :: nat where "arenaMaxChunkBytes \<equiv> 65536"
abbreviation arenaMaxIDBytes :: nat where "arenaMaxIDBytes \<equiv> 16777215"
abbreviation arenaMaxChunks :: nat where "arenaMaxChunks \<equiv> 16777216"

record arena =
  ar_chunks :: "string list"
  ar_target :: nat
  ar_used :: nat

definition new_arena :: arena where
  "new_arena = \<lparr>ar_chunks = [], ar_target = 0, ar_used = 0\<rparr>"

type_synonym location = "64 word"

definition newLocation :: "nat \<Rightarrow> nat \<Rightarrow> nat \<Rightarrow> location" where
  "newLocation chunk offset len = push_bit 40 (of_nat chunk) OR push_bit 24 (of_nat offset) OR of_nat len"

definition loc_chunk :: "location \<Rightarrow> nat" where
  "loc_chunk l = unat (drop_bit 40 l)"

definition loc_offset :: "location \<Rightarrow> nat" where
  "loc_offset l = unat (drop_bit 24 l AND 0xffff)"

definition loc_len :: "location \<Rightarrow> nat" where
  "loc_len l = unat (l AND 0xffffff)"

text \<open>Go's \<open>copy(chunk[offset:], id)\<close>, and a fresh chunk of zero bytes.\<close>

definition copy_at :: "nat \<Rightarrow> string \<Rightarrow> string \<Rightarrow> string" where
  "copy_at offset i chunk =
     take offset chunk @ take (length chunk - offset) i @ drop (offset + length i) chunk"

definition zeros :: "nat \<Rightarrow> string" where
  "zeros n = replicate n (CHR 0x00)"

definition appendChunk :: "nat \<Rightarrow> string \<Rightarrow> arena \<Rightarrow> (location \<times> arena) option" where
  "appendChunk n i a =
     (if arenaMaxChunks \<le> length (ar_chunks a) then None
      else Some (newLocation (length (ar_chunks a)) 0 (length i),
                 a\<lparr>ar_chunks := ar_chunks a @ [copy_at 0 i (zeros n)]\<rparr>))"

definition arena_Add :: "string \<Rightarrow> arena \<Rightarrow> (location \<times> arena) option" where
  "arena_Add i a =
     (if i = [] then Some (0, a)
      else if arenaMaxIDBytes < length i then None
      else if arenaMaxChunkBytes div 4 < length i then appendChunk (length i) i a
      else
        (let chunk = ar_chunks a ! (ar_target a - 1) in
         if ar_target a \<noteq> 0 \<and> length i \<le> length chunk - ar_used a
         then Some (newLocation (ar_target a - 1) (ar_used a) (length i),
                    a\<lparr>ar_chunks := (ar_chunks a)[ar_target a - 1 := copy_at (ar_used a) i chunk],
                      ar_used := ar_used a + length i\<rparr>)
         else
           (let n = (if ar_target a \<noteq> 0 then min (length chunk * 2) arenaMaxChunkBytes else arenaFirstChunkBytes) in
            case appendChunk (max n (length i)) i a of
              None \<Rightarrow> None
            | Some (location, a') \<Rightarrow>
                Some (location, a'\<lparr>ar_target := loc_chunk location + 1, ar_used := length i\<rparr>))))"

text \<open>Reading outside the chunk is undefined in the source, \<^const>\<open>None\<close> here.\<close>

definition arena_String :: "arena \<Rightarrow> location \<Rightarrow> string option" where
  "arena_String a l =
     (if loc_len l = 0 then Some []
      else if loc_chunk l < length (ar_chunks a)
           \<and> loc_offset l + loc_len l \<le> length (ar_chunks a ! loc_chunk l)
      then Some (take (loc_len l) (drop (loc_offset l) (ar_chunks a ! loc_chunk l)))
      else None)"

section \<open>The plain table\<close>

type_synonym handle = "32 word"

abbreviation max_handles :: nat where "max_handles \<equiv> 4294967295"

record id_table =
  tb_handles :: "(string, handle) fmap"
  tb_ids :: "string list"

definition new_table :: id_table where
  "new_table = \<lparr>tb_handles = fmempty, tb_ids = []\<rparr>"

definition table_Intern :: "string \<Rightarrow> id_table \<Rightarrow> (handle \<times> id_table) option" where
  "table_Intern i t =
     (if i = [] then Some (0, t)
      else case fmlookup (tb_handles t) i of
        Some h \<Rightarrow> Some (h, t)
      | None \<Rightarrow>
          if max_handles \<le> length (tb_ids t) then None
          else
            (let h = of_nat (length (tb_ids t) + 1)
             in Some (h, \<lparr>tb_handles = fmupd i h (tb_handles t), tb_ids = tb_ids t @ [i]\<rparr>)))"

definition table_Lookup :: "id_table \<Rightarrow> string \<Rightarrow> handle option" where
  "table_Lookup t i = (if i = [] then None else fmlookup (tb_handles t) i)"

definition table_Resolve :: "id_table \<Rightarrow> handle \<Rightarrow> string option" where
  "table_Resolve t h =
     (if h = 0 then Some []
      else if unat (h - 1) < length (tb_ids t) then Some (tb_ids t ! unat (h - 1)) else None)"

section \<open>The concurrent table\<close>

abbreviation shardCount :: nat where "shardCount \<equiv> 64"
abbreviation locationPageSize :: nat where "locationPageSize \<equiv> 1024"

record index_shard =
  sh_byHash :: "(64 word, handle) fmap"
  sh_collisions :: "(string, handle) fmap"

record ctable =
  ct_shards :: "index_shard list"
  ct_count :: nat
  ct_pages :: "location list list"
  ct_arena :: arena

definition NewConcurrentTable :: ctable where
  "NewConcurrentTable =
     \<lparr>ct_shards = replicate shardCount \<lparr>sh_byHash = fmempty, sh_collisions = fmempty\<rparr>,
      ct_count = 0, ct_pages = [], ct_arena = new_arena\<rparr>"

definition shard_of :: "64 word \<Rightarrow> nat" where
  "shard_of hash = unat (drop_bit 58 hash AND (of_nat shardCount - 1))"

definition ct_Resolve :: "ctable \<Rightarrow> handle \<Rightarrow> string option" where
  "ct_Resolve t h =
     (if h = 0 then Some []
      else
        (let index = unat (h - 1) in
         if index div locationPageSize < length (ct_pages t)
         then arena_String (ct_arena t) (ct_pages t ! (index div locationPageSize) ! (index mod locationPageSize))
         else None))"

definition lookupLocked :: "ctable \<Rightarrow> index_shard \<Rightarrow> 64 word \<Rightarrow> string \<Rightarrow> handle option" where
  "lookupLocked t shard hash i =
     (case fmlookup (sh_byHash shard) hash of
        Some h \<Rightarrow> if ct_Resolve t h = Some i then Some h else fmlookup (sh_collisions shard) i
      | None \<Rightarrow> fmlookup (sh_collisions shard) i)"

definition ct_Lookup :: "(string \<Rightarrow> 64 word) \<Rightarrow> ctable \<Rightarrow> string \<Rightarrow> handle option" where
  "ct_Lookup hash t i =
     (if i = [] then None else lookupLocked t (ct_shards t ! shard_of (hash i)) (hash i) i)"

definition appendID :: "string \<Rightarrow> ctable \<Rightarrow> (handle \<times> ctable) option" where
  "appendID i t =
     (if max_handles \<le> ct_count t then None
      else
        (let pageIndex = ct_count t div locationPageSize;
             slot = ct_count t mod locationPageSize;
             pages = (if pageIndex = length (ct_pages t) then ct_pages t @ [replicate locationPageSize 0] else ct_pages t)
         in case arena_Add i (ct_arena t) of
              None \<Rightarrow> None
            | Some (location, a) \<Rightarrow>
                Some (of_nat (ct_count t + 1),
                      t\<lparr>ct_pages := pages[pageIndex := (pages ! pageIndex)[slot := location]],
                        ct_count := ct_count t + 1, ct_arena := a\<rparr>)))"

definition ct_Intern :: "(string \<Rightarrow> 64 word) \<Rightarrow> string \<Rightarrow> ctable \<Rightarrow> (handle \<times> ctable) option" where
  "ct_Intern hash i t =
     (if i = [] then Some (0, t)
      else
        (let k = shard_of (hash i); shard = ct_shards t ! k in
         case lookupLocked t shard (hash i) i of
           Some h \<Rightarrow> Some (h, t)
         | None \<Rightarrow>
             (case appendID i t of
                None \<Rightarrow> None
              | Some (h, t') \<Rightarrow>
                  Some (h, t'\<lparr>ct_shards := (ct_shards t')[k :=
                    (case fmlookup (sh_byHash shard) (hash i) of
                       Some _ \<Rightarrow> shard\<lparr>sh_collisions := fmupd i h (sh_collisions shard)\<rparr>
                     | None \<Rightarrow> shard\<lparr>sh_byHash := fmupd (hash i) h (sh_byHash shard)\<rparr>)]\<rparr>))))"

text \<open>A list of identifiers, interned one after the other.\<close>

fun intern_all :: "(string \<Rightarrow> 64 word) \<Rightarrow> string list \<Rightarrow> ctable \<Rightarrow> (handle list \<times> ctable) option" where
  "intern_all hash [] t = Some ([], t)"
| "intern_all hash (i # is) t =
     (case ct_Intern hash i t of
        None \<Rightarrow> None
      | Some (h, t1) \<Rightarrow>
          (case intern_all hash is t1 of
             None \<Rightarrow> None
           | Some (hs, t2) \<Rightarrow> Some (h # hs, t2)))"

end
