(* ===== verification/Intern_Properties.thy ===== *)
theory Intern_Properties
  imports Intern
begin

text \<open>
  Identifiers survive interning: packed locations can be unpacked, the arena never overwrites
  a string it has handed out, and a table gives equal handles exactly to equal identifiers,
  whatever the hash function does.
\<close>

unbundle bit_operations_syntax

section \<open>Packed locations\<close>

lemma high_bit_clear: "k < 2 ^ m \<Longrightarrow> m \<le> n \<Longrightarrow> \<not> bit (k :: nat) n"
  by (metis bit_take_bit_iff linorder_not_less take_bit_nat_eq_self)

lemma mask_eqs: "(0xffff :: 64 word) = mask 16" "(0xffffff :: 64 word) = mask 24"
  by (simp_all add: mask_eq_exp_minus_1)

lemma small_unat: "n < 2 ^ 24 \<Longrightarrow> unat (of_nat n :: 64 word) = n"
  by (simp add: unat_of_nat)

lemma location_fields:
  assumes "chunk < arenaMaxChunks" and "offset < arenaMaxChunkBytes" and "len \<le> arenaMaxIDBytes"
  shows "loc_chunk (newLocation chunk offset len) = chunk"
    and "loc_offset (newLocation chunk offset len) = offset"
    and "loc_len (newLocation chunk offset len) = len"
proof -
  have c: "chunk < 2 ^ 24" and o: "offset < 2 ^ 16" and l: "len < 2 ^ 24" using assms by simp_all
  have clear: "bit chunk n \<Longrightarrow> n < 24" "bit offset n \<Longrightarrow> n < 16" "bit len n \<Longrightarrow> n < 24" for n
    using high_bit_clear [OF c, of n] high_bit_clear [OF o, of n] high_bit_clear [OF l, of n] by (meson linorder_not_less)+
  have "drop_bit 40 (newLocation chunk offset len) = of_nat chunk"
    by (rule bit_word_eqI) (auto simp: newLocation_def bit_simps dest: clear)
  then show "loc_chunk (newLocation chunk offset len) = chunk"
    using c by (simp add: loc_chunk_def small_unat)
  have "drop_bit 24 (newLocation chunk offset len) AND mask 16 = of_nat offset"
    by (rule bit_word_eqI) (auto simp: newLocation_def bit_simps dest: clear)
  then show "loc_offset (newLocation chunk offset len) = offset"
    using o by (simp add: loc_offset_def mask_eqs small_unat)
  have "newLocation chunk offset len AND mask 24 = of_nat len"
    by (rule bit_word_eqI) (auto simp: newLocation_def bit_simps dest: clear)
  then show "loc_len (newLocation chunk offset len) = len"
    using l by (simp add: loc_len_def mask_eqs small_unat)
qed

section \<open>The arena\<close>

definition arena_ok :: "arena \<Rightarrow> bool" where
  "arena_ok a \<longleftrightarrow>
     length (ar_chunks a) \<le> arenaMaxChunks \<and> ar_target a \<le> length (ar_chunks a)
     \<and> (ar_target a \<noteq> 0 \<longrightarrow> ar_used a \<le> length (ar_chunks a ! (ar_target a - 1))
          \<and> length (ar_chunks a ! (ar_target a - 1)) \<le> arenaMaxChunkBytes)"

text \<open>How much of a chunk is written for good.\<close>

definition written :: "arena \<Rightarrow> nat \<Rightarrow> nat" where
  "written a c = (if ar_target a = c + 1 then ar_used a else length (ar_chunks a ! c))"

definition stored_at :: "arena \<Rightarrow> location \<Rightarrow> string \<Rightarrow> bool" where
  "stored_at a l i \<longleftrightarrow>
     (if i = [] then l = 0
      else loc_len l = length i \<and> loc_chunk l < length (ar_chunks a)
        \<and> loc_offset l + length i \<le> written a (loc_chunk l)
        \<and> take (length i) (drop (loc_offset l) (ar_chunks a ! loc_chunk l)) = i)"

lemma new_arena_ok: "arena_ok new_arena"
  by (simp add: arena_ok_def new_arena_def)

lemma written_le: "arena_ok a \<Longrightarrow> c < length (ar_chunks a) \<Longrightarrow> written a c \<le> length (ar_chunks a ! c)"
  by (auto simp: arena_ok_def written_def)

lemma stored_String: "arena_ok a \<Longrightarrow> stored_at a l i \<Longrightarrow> arena_String a l = Some i"
  using written_le [of a "loc_chunk l"]
  by (fastforce simp: stored_at_def arena_String_def loc_len_def split: if_splits)

lemma copy_at_facts:
  assumes "offset + length i \<le> length chunk"
  shows "length (copy_at offset i chunk) = length chunk"
    and "take (length i) (drop offset (copy_at offset i chunk)) = i"
    and "k + n \<le> offset \<Longrightarrow> take n (drop k (copy_at offset i chunk)) = take n (drop k chunk)"
proof -
  have "length i \<le> length chunk - offset" using assms by simp
  then have c: "copy_at offset i chunk = take offset chunk @ i @ drop (offset + length i) chunk"
    by (simp add: copy_at_def)
  show "length (copy_at offset i chunk) = length chunk" using assms by (simp add: c)
  show "take (length i) (drop offset (copy_at offset i chunk)) = i" using assms by (simp add: c)
  assume "k + n \<le> offset"
  then show "take n (drop k (copy_at offset i chunk)) = take n (drop k chunk)"
    using assms by (simp add: c take_drop min_def)
qed

lemma appendChunk_facts:
  assumes "arena_ok a" and "appendChunk n i a = Some (l, a')" and "i \<noteq> []" and "length i \<le> n" and "length i \<le> arenaMaxIDBytes"
  shows "loc_chunk l = length (ar_chunks a)" and "loc_offset l = 0" and "loc_len l = length i"
    and "ar_chunks a' = ar_chunks a @ [copy_at 0 i (zeros n)]" and "ar_target a' = ar_target a" and "ar_used a' = ar_used a"
    and "length (ar_chunks a) < arenaMaxChunks" and "length (copy_at 0 i (zeros n)) = n" and "take (length i) (copy_at 0 i (zeros n)) = i"
proof -
  from assms(2) have room: "length (ar_chunks a) < arenaMaxChunks" and
    eq: "l = newLocation (length (ar_chunks a)) 0 (length i)" "a' = a\<lparr>ar_chunks := ar_chunks a @ [copy_at 0 i (zeros n)]\<rparr>"
    by (auto simp: appendChunk_def split: if_splits)
  show "length (ar_chunks a) < arenaMaxChunks" by (rule room)
  show "loc_chunk l = length (ar_chunks a)" "loc_offset l = 0" "loc_len l = length i"
    using location_fields [OF room _ assms(5), of 0] by (simp_all add: eq)
  show "ar_chunks a' = ar_chunks a @ [copy_at 0 i (zeros n)]" "ar_target a' = ar_target a" "ar_used a' = ar_used a"
    by (simp_all add: eq)
  show "length (copy_at 0 i (zeros n)) = n" "take (length i) (copy_at 0 i (zeros n)) = i"
    using copy_at_facts(1,2) [of 0 i "zeros n"] assms(4) by (simp_all add: zeros_def)
qed

text \<open>What one \<open>Add\<close> may do to the arena: nothing, write behind the target, or a new chunk.\<close>

lemma arena_Add_cases:
  assumes "arena_Add i a = Some (l, a')"
  obtains "i = []" "l = 0" "a' = a"
  | "i \<noteq> []" "length i \<le> arenaMaxIDBytes" "arenaMaxChunkBytes div 4 < length i" "appendChunk (length i) i a = Some (l, a')"
  | "i \<noteq> []" "length i \<le> arenaMaxChunkBytes div 4" "ar_target a \<noteq> 0"
      "length i \<le> length (ar_chunks a ! (ar_target a - 1)) - ar_used a"
      "l = newLocation (ar_target a - 1) (ar_used a) (length i)"
      "a' = a\<lparr>ar_chunks := (ar_chunks a)[ar_target a - 1 := copy_at (ar_used a) i (ar_chunks a ! (ar_target a - 1))],
             ar_used := ar_used a + length i\<rparr>"
  | n b where "i \<noteq> []" "length i \<le> arenaMaxChunkBytes div 4" "length i \<le> n" "n \<le> arenaMaxChunkBytes"
      "appendChunk n i a = Some (l, b)" "a' = b\<lparr>ar_target := loc_chunk l + 1, ar_used := length i\<rparr>"
proof -
  let ?chunk = "ar_chunks a ! (ar_target a - 1)"
  let ?n = "max (if ar_target a \<noteq> 0 then min (length ?chunk * 2) arenaMaxChunkBytes else arenaFirstChunkBytes) (length i)"
  consider "i = []" | "i \<noteq> []" "arenaMaxChunkBytes div 4 < length i" "length i \<le> arenaMaxIDBytes"
    | "i \<noteq> []" "length i \<le> arenaMaxChunkBytes div 4" "ar_target a \<noteq> 0 \<and> length i \<le> length ?chunk - ar_used a"
    | "i \<noteq> []" "length i \<le> arenaMaxChunkBytes div 4" "\<not> (ar_target a \<noteq> 0 \<and> length i \<le> length ?chunk - ar_used a)"
    using assms by (fastforce simp: arena_Add_def split: if_splits)
  then show ?thesis
  proof cases
    case 1
    with assms that(1) show ?thesis by (simp add: arena_Add_def)
  next
    case 2
    with assms show ?thesis by (intro that(2)) (simp_all add: arena_Add_def)
  next
    case 3
    with assms show ?thesis by (intro that(3)) (auto simp: arena_Add_def Let_def)
  next
    case 4
    then have "\<not> arenaMaxIDBytes < length i" by simp
    with 4 have "arena_Add i a = (case appendChunk ?n i a of None \<Rightarrow> None
        | Some (location, b) \<Rightarrow> Some (location, b\<lparr>ar_target := loc_chunk location + 1, ar_used := length i\<rparr>))"
      unfolding arena_Add_def Let_def by (auto simp del: One_nat_def)
    with assms obtain b where "appendChunk ?n i a = Some (l, b)" "a' = b\<lparr>ar_target := loc_chunk l + 1, ar_used := length i\<rparr>"
      by (cases "appendChunk ?n i a") auto
    with 4 show ?thesis by (intro that(4) [of ?n b]) auto
  qed
qed

lemma arena_Add_stored:
  assumes ok: "arena_ok a" and add: "arena_Add i a = Some (l, a')"
  shows "arena_ok a' \<and> stored_at a' l i \<and> (\<forall>l0 s. stored_at a l0 s \<longrightarrow> stored_at a' l0 s)"
  using add
proof (cases rule: arena_Add_cases)
  case 1
  with ok show ?thesis by (simp add: stored_at_def)
next
  case 2
  note f = appendChunk_facts [OF ok 2(4,1) order_refl 2(2)]
  from ok f have "arena_ok a'" by (auto simp: arena_ok_def nth_append)
  moreover have "stored_at a' l i" using ok f 2(1) by (auto simp: stored_at_def written_def arena_ok_def nth_append)
  moreover have "stored_at a' l0 s" if "stored_at a l0 s" for l0 s
    using that f by (auto simp: stored_at_def written_def nth_append split: if_splits)
  ultimately show ?thesis by blast
next
  case 3
  let ?c = "ar_target a - 1" and ?chunk = "ar_chunks a ! (ar_target a - 1)"
  from ok 3(3) have c: "?c < length (ar_chunks a)" "?c < arenaMaxChunks" "ar_used a \<le> length ?chunk"
    "length ?chunk \<le> arenaMaxChunkBytes" by (auto simp: arena_ok_def)
  have fit: "ar_used a + length i \<le> length ?chunk" using 3(4) c(3) by simp
  have off: "ar_used a < arenaMaxChunkBytes" using fit c(4) 3(1) by (cases i) auto
  note fields = location_fields [OF c(2) off, of "length i"]
  note copy = copy_at_facts [OF fit]
  have "arena_ok a'" using ok c fit copy(1) 3(3) by (auto simp: 3(6) arena_ok_def)
  moreover have "stored_at a' l i"
    using fields 3(1-3) c copy by (auto simp: 3(5,6) stored_at_def written_def)
  moreover have "stored_at a' l0 s" if "stored_at a l0 s" for l0 s
    using that c copy 3(3) by (auto simp: 3(6) stored_at_def written_def nth_list_update split: if_splits)
  ultimately show ?thesis by blast
next
  case (4 n b)
  have "length i \<le> arenaMaxIDBytes" using 4(2) by simp
  note f = appendChunk_facts [OF ok 4(5,1,3) this]
  from ok f 4 have "arena_ok a'" by (auto simp: arena_ok_def nth_append)
  moreover have "stored_at a' l i" using f 4(1,6) by (auto simp: stored_at_def written_def nth_append)
  moreover have "stored_at a' l0 s" if "stored_at a l0 s" for l0 s
    using that f written_le [OF ok, of "loc_chunk l0"]
    by (auto simp: 4(6) stored_at_def written_def nth_append split: if_splits)
  ultimately show ?thesis by blast
qed

section \<open>The plain table\<close>

definition handle_of :: "nat \<Rightarrow> handle" where
  "handle_of k = of_nat (k + 1)"

definition table_ok :: "id_table \<Rightarrow> bool" where
  "table_ok t \<longleftrightarrow>
     distinct (tb_ids t) \<and> [] \<notin> set (tb_ids t) \<and> length (tb_ids t) \<le> max_handles
     \<and> (\<forall>i h. fmlookup (tb_handles t) i = Some h
          \<longleftrightarrow> (\<exists>k < length (tb_ids t). tb_ids t ! k = i \<and> h = handle_of k))"

lemma handle_index:
  assumes "k < max_handles"
  shows "handle_of k \<noteq> 0" and "unat (handle_of k - 1) = k"
proof -
  have u: "unat (handle_of k) = k + 1" unfolding handle_of_def unat_of_nat using assms by simp
  then show nz: "handle_of k \<noteq> 0" by auto
  show "unat (handle_of k - 1) = k" using assms by (simp add: handle_of_def unat_of_nat)
qed

lemma handle_inj: "k < max_handles \<Longrightarrow> m < max_handles \<Longrightarrow> handle_of k = handle_of m \<longleftrightarrow> k = m"
  using handle_index(2) by metis

lemma table_Intern_ok:
  assumes "table_ok t" and "table_Intern i t = Some (h, t')"
  shows "table_ok t' \<and> table_Resolve t' h = Some i \<and> table_Lookup t' i = (if i = [] then None else Some h)
    \<and> (\<forall>j g. table_Lookup t j = Some g \<longrightarrow> table_Lookup t' j = Some g \<and> table_Resolve t' g = Some j)"
proof -
  have resolve: "table_Resolve u g = Some j" if "table_ok u" "fmlookup (tb_handles u) j = Some g" for u j g
  proof -
    from that obtain k where "k < length (tb_ids u)" "tb_ids u ! k = j" "g = handle_of k" "length (tb_ids u) \<le> max_handles"
      by (auto simp: table_ok_def)
    with handle_index [of k] show ?thesis by (simp add: table_Resolve_def)
  qed
  have ok': "table_ok t'"
  proof (cases "i = [] \<or> fmlookup (tb_handles t) i \<noteq> None")
    case True
    with assms show ?thesis by (auto simp: table_Intern_def split: if_splits)
  next
    case False
    with assms have room: "length (tb_ids t) < max_handles" and h: "h = handle_of (length (tb_ids t))"
      and t': "t' = \<lparr>tb_handles = fmupd i h (tb_handles t), tb_ids = tb_ids t @ [i]\<rparr>"
      by (auto simp: table_Intern_def Let_def handle_of_def split: if_splits)
    from assms(1) False have fresh: "i \<notin> set (tb_ids t)" by (auto simp: table_ok_def in_set_conv_nth)
    show ?thesis unfolding table_ok_def t'
      using assms(1) False fresh room h
      by (auto simp: table_ok_def nth_append less_Suc_eq)
  qed
  moreover have grow: "fmlookup (tb_handles t') j = Some g" if "fmlookup (tb_handles t) j = Some g" for j g
    using that assms(2) by (auto simp: table_Intern_def Let_def split: if_splits option.splits)
  moreover have "i \<noteq> [] \<Longrightarrow> fmlookup (tb_handles t') i = Some h" and "i = [] \<Longrightarrow> h = 0"
    using assms(2) by (auto simp: table_Intern_def Let_def split: if_splits option.splits)
  moreover have "table_Resolve t' 0 = Some []" by (simp add: table_Resolve_def)
  ultimately show ?thesis
    using resolve [OF ok'] by (cases "i = []") (auto simp: table_Lookup_def)
qed

section \<open>The concurrent table\<close>

definition ct_location :: "ctable \<Rightarrow> nat \<Rightarrow> location" where
  "ct_location t k = ct_pages t ! (k div locationPageSize) ! (k mod locationPageSize)"

text \<open>The handle of every identifier interned so far.\<close>

definition assigned :: "string list \<Rightarrow> (string \<times> handle) set" where
  "assigned ids = {(ids ! k, handle_of k) | k. k < length ids}"

lemma assigned_snoc: "assigned (ids @ [i]) = insert (i, handle_of (length ids)) (assigned ids)"
  by (fastforce simp: assigned_def nth_append less_Suc_eq)

lemma assigned_mono: "(i, v) \<in> assigned ids \<Longrightarrow> (i, v) \<in> assigned (ids @ ms)"
  by (auto simp: assigned_def nth_append)

lemma assigned_Nil [simp]: "assigned [] = {}"
  by (simp add: assigned_def)

lemma assigned_ids: "i \<in> set ids \<longleftrightarrow> (\<exists>v. (i, v) \<in> assigned ids)"
  by (auto simp: assigned_def in_set_conv_nth)

lemma assigned_inj:
  assumes "distinct ids" and "length ids \<le> max_handles" and "(i, v) \<in> assigned ids" and "(j, w) \<in> assigned ids"
  shows "i = j \<longleftrightarrow> v = w"
  using assms handle_inj by (fastforce simp: assigned_def nth_eq_iff_index_eq)

definition shard_ok :: "(string \<Rightarrow> 64 word) \<Rightarrow> string list \<Rightarrow> nat \<Rightarrow> index_shard \<Rightarrow> bool" where
  "shard_ok hash ids s shard \<longleftrightarrow>
     (\<forall>h v. fmlookup (sh_byHash shard) h = Some v \<longrightarrow> (\<exists>i. (i, v) \<in> assigned ids \<and> hash i = h))
     \<and> (\<forall>i v. fmlookup (sh_collisions shard) i = Some v \<longrightarrow> (i, v) \<in> assigned ids)
     \<and> (\<forall>i v. (i, v) \<in> assigned ids \<and> shard_of (hash i) = s
        \<longrightarrow> fmlookup (sh_byHash shard) (hash i) = Some v \<or> fmlookup (sh_collisions shard) i = Some v)"

lemma shard_ok_other:
  "shard_ok hash ids s shard \<Longrightarrow> shard_of (hash i) \<noteq> s \<Longrightarrow> shard_ok hash (ids @ [i]) s shard"
  by (auto simp: shard_ok_def assigned_snoc)

lemma shard_ok_insert:
  assumes "shard_ok hash ids s shard" and "i \<notin> set ids" and "g = handle_of (length ids)"
  shows "shard_ok hash (ids @ [i]) s
    (case fmlookup (sh_byHash shard) (hash i) of
       Some _ \<Rightarrow> shard\<lparr>sh_collisions := fmupd i g (sh_collisions shard)\<rparr>
     | None \<Rightarrow> shard\<lparr>sh_byHash := fmupd (hash i) g (sh_byHash shard)\<rparr>)"
proof (cases "fmlookup (sh_byHash shard) (hash i)")
  case None
  let ?byHash = "fmupd (hash i) g (sh_byHash shard)"
  have coll: "fmlookup (sh_collisions shard) j = Some v"
    if "(j, v) \<in> assigned ids" "hash j = hash i" "shard_of (hash j) = s" for j v
    using that assms(1) None unfolding shard_ok_def by (metis option.distinct(1))
  have "\<exists>j. (j, v) \<in> assigned (ids @ [i]) \<and> hash j = h" if "fmlookup ?byHash h = Some v" for h v
  proof (cases "h = hash i")
    case True
    with that show ?thesis by (intro exI [of _ i]) (simp add: assigned_snoc assms(3))
  next
    case False
    with that assms(1) have "\<exists>j. (j, v) \<in> assigned ids \<and> hash j = h" unfolding shard_ok_def by simp
    then show ?thesis by (auto simp: assigned_snoc)
  qed
  moreover have "(j, v) \<in> assigned (ids @ [i])" if "fmlookup (sh_collisions shard) j = Some v" for j v
    using that assms(1) by (simp add: shard_ok_def assigned_snoc)
  moreover have "fmlookup ?byHash (hash j) = Some v \<or> fmlookup (sh_collisions shard) j = Some v"
    if "(j, v) \<in> assigned (ids @ [i])" "shard_of (hash j) = s" for j v
  proof (cases "hash j = hash i")
    case True
    with that coll [of j v] show ?thesis by (auto simp: assigned_snoc assms(3))
  next
    case False
    with that assms(1) show ?thesis by (auto simp: shard_ok_def assigned_snoc)
  qed
  ultimately show ?thesis unfolding shard_ok_def None by simp
next
  case (Some w)
  have "\<exists>j. (j, v) \<in> assigned (ids @ [i]) \<and> hash j = h" if "fmlookup (sh_byHash shard) h = Some v" for h v
    using that assms(1) unfolding shard_ok_def assigned_snoc by blast
  with assms Some show ?thesis
    unfolding shard_ok_def by (auto simp: assigned_ids assigned_snoc)
qed

definition ctable_ok :: "(string \<Rightarrow> 64 word) \<Rightarrow> string list \<Rightarrow> ctable \<Rightarrow> bool" where
  "ctable_ok hash ids t \<longleftrightarrow>
     arena_ok (ct_arena t) \<and> ct_count t = length ids \<and> length ids \<le> max_handles \<and> distinct ids \<and> [] \<notin> set ids
     \<and> length (ct_pages t) = (length ids + (locationPageSize - 1)) div locationPageSize
     \<and> (\<forall>p \<in> set (ct_pages t). length p = locationPageSize)
     \<and> (\<forall>k < length ids. stored_at (ct_arena t) (ct_location t k) (ids ! k))
     \<and> length (ct_shards t) = shardCount \<and> (\<forall>s < shardCount. shard_ok hash ids s (ct_shards t ! s))"

lemma shard_of_less [simp]: "shard_of h < shardCount"
proof -
  have "drop_bit 58 h AND (63 :: 64 word) \<le> 63" by (rule word_and_le1)
  then show ?thesis by (simp add: shard_of_def word_le_nat_alt)
qed

lemma page_room:
  assumes "ctable_ok hash ids t" and "k < length ids"
  shows "k div locationPageSize < length (ct_pages t)"
  using assms by (simp add: ctable_ok_def)

lemma ct_Resolve_assigned:
  assumes "ctable_ok hash ids t" and "(i, v) \<in> assigned ids"
  shows "ct_Resolve t v = Some i"
proof -
  from assms(2) obtain k where k: "k < length ids" "i = ids ! k" "v = handle_of k" by (auto simp: assigned_def)
  then have "k < max_handles" using assms(1) by (simp add: ctable_ok_def)
  with handle_index [OF this] page_room [OF assms(1) k(1)] assms(1) k show ?thesis
    by (simp add: ct_Resolve_def Let_def ct_location_def ctable_ok_def stored_String)
qed

lemma lookupLocked_exact:
  assumes ok: "ctable_ok hash ids t"
  shows "lookupLocked t (ct_shards t ! shard_of (hash i)) (hash i) i = Some v \<longleftrightarrow> (i, v) \<in> assigned ids"
proof -
  let ?shard = "ct_shards t ! shard_of (hash i)"
  from ok have sh: "shard_ok hash ids (shard_of (hash i)) ?shard"
    and d: "distinct ids" "length ids \<le> max_handles" by (simp_all add: ctable_ok_def)
  from sh have by_hash: "\<exists>j. (j, w) \<in> assigned ids \<and> hash j = hash i" if "fmlookup (sh_byHash ?shard) (hash i) = Some w" for w
    using that unfolding shard_ok_def by blast
  from sh have collision: "(i, w) \<in> assigned ids" if "fmlookup (sh_collisions ?shard) i = Some w" for w
    using that unfolding shard_ok_def by blast
  show ?thesis
  proof
    assume "lookupLocked t ?shard (hash i) i = Some v"
    then consider "fmlookup (sh_collisions ?shard) i = Some v"
      | "fmlookup (sh_byHash ?shard) (hash i) = Some v" "ct_Resolve t v = Some i"
      by (auto simp: lookupLocked_def split: option.splits if_splits)
    then show "(i, v) \<in> assigned ids"
    proof cases
      case 2
      with by_hash obtain j where "(j, v) \<in> assigned ids" by blast
      with ct_Resolve_assigned [OF ok this] 2(2) show ?thesis by simp
    qed (rule collision)
  next
    assume a: "(i, v) \<in> assigned ids"
    with sh consider "fmlookup (sh_byHash ?shard) (hash i) = Some v" | "fmlookup (sh_collisions ?shard) i = Some v"
      unfolding shard_ok_def by blast
    then show "lookupLocked t ?shard (hash i) i = Some v"
    proof cases
      case 1
      with ct_Resolve_assigned [OF ok a] show ?thesis by (simp add: lookupLocked_def)
    next
      case 2
      have "w = v" if "fmlookup (sh_byHash ?shard) (hash i) = Some w" "ct_Resolve t w = Some i" for w
      proof -
        from by_hash [OF that(1)] obtain j where j: "(j, w) \<in> assigned ids" by blast
        with ct_Resolve_assigned [OF ok j] that(2) assigned_inj [OF d j a] show ?thesis by simp
      qed
      with 2 show ?thesis by (auto simp: lookupLocked_def split: option.splits)
    qed
  qed
qed

lemma pages_step:
  fixes n :: nat
  shows "n div 1024 \<le> (n + 1023) div 1024" and "(n + 1024) div 1024 = Suc (n div 1024)"
    and "n div 1024 \<noteq> (n + 1023) div 1024 \<Longrightarrow> (n + 1023) div 1024 = Suc (n div 1024)"
proof -
  show low: "n div 1024 \<le> (n + 1023) div 1024" by (rule div_le_mono) simp
  show eq: "(n + 1024) div 1024 = Suc (n div 1024)" by simp
  have "(n + 1023) div 1024 \<le> (n + 1024) div 1024" by (rule div_le_mono) simp
  with low eq show "n div 1024 \<noteq> (n + 1023) div 1024 \<Longrightarrow> (n + 1023) div 1024 = Suc (n div 1024)" by linarith
qed

lemma appendID_facts:
  assumes ok: "ctable_ok hash ids t" and app: "appendID i t = Some (h, t')" and "i \<noteq> []"
  shows "h = handle_of (length ids)" and "length ids < max_handles" and "ct_count t' = length ids + 1"
    and "ct_shards t' = ct_shards t" and "arena_ok (ct_arena t')"
    and "length (ct_pages t') = (length (ids @ [i]) + (locationPageSize - 1)) div locationPageSize"
    and "\<forall>p \<in> set (ct_pages t'). length p = locationPageSize"
    and "\<forall>k < length (ids @ [i]). stored_at (ct_arena t') (ct_location t' k) ((ids @ [i]) ! k)"
proof -
  let ?n = "length ids" and ?pages = "ct_pages t"
  let ?index = "?n div locationPageSize" and ?slot = "?n mod locationPageSize"
  let ?grown = "if ?index = length ?pages then ?pages @ [replicate locationPageSize 0] else ?pages"
  from ok have n: "ct_count t = ?n" and len: "length ?pages = (?n + (locationPageSize - 1)) div locationPageSize"
    and size: "\<forall>p \<in> set ?pages. length p = locationPageSize"
    and stored: "\<forall>k < ?n. stored_at (ct_arena t) (ct_location t k) (ids ! k)" and arena: "arena_ok (ct_arena t)"
    by (simp_all add: ctable_ok_def)
  from app obtain l a where room: "?n < max_handles" and h: "h = of_nat (?n + 1)"
    and add: "arena_Add i (ct_arena t) = Some (l, a)"
    and t': "t' = t\<lparr>ct_pages := ?grown[?index := (?grown ! ?index)[?slot := l]], ct_count := ?n + 1, ct_arena := a\<rparr>"
    unfolding appendID_def n Let_def by (auto split: if_splits option.splits)
  show "h = handle_of ?n" "?n < max_handles" "ct_count t' = ?n + 1" "ct_shards t' = ct_shards t"
    using room h by (simp_all add: handle_of_def t')
  from arena_Add_stored [OF arena add] show "arena_ok (ct_arena t')" by (simp add: t')
  have index: "?index < length ?grown" using len pages_step(1) [of ?n] by auto
  have full: "\<forall>p \<in> set ?grown. length p = locationPageSize" using size by auto
  have row: "length (?grown ! ?index) = locationPageSize" using index full by (simp only: nth_mem)
  show "length (ct_pages t') = (length (ids @ [i]) + (locationPageSize - 1)) div locationPageSize"
    using len pages_step(2,3) [of ?n] by (auto simp: t' add.commute)
  show "\<forall>p \<in> set (ct_pages t'). length p = locationPageSize"
    using full row by (auto simp: t' dest!: subsetD [OF set_update_subset_insert])
  show "\<forall>k < length (ids @ [i]). stored_at (ct_arena t') (ct_location t' k) ((ids @ [i]) ! k)"
  proof (intro allI impI)
    fix k assume k: "k < length (ids @ [i])"
    have at_new: "ct_location t' ?n = l" using index row by (simp add: ct_location_def t')
    have at_old: "ct_location t' k = ct_location t k" if "k < ?n"
    proof -
      have "k div locationPageSize < length ?pages" using page_room [OF ok that] .
      moreover have "k div locationPageSize \<noteq> ?index \<or> k mod locationPageSize \<noteq> ?slot"
        using that by (metis div_mult_mod_eq nat_neq_iff)
      ultimately show ?thesis using index row
        by (auto simp: ct_location_def t' nth_list_update nth_append)
    qed
    from k show "stored_at (ct_arena t') (ct_location t' k) ((ids @ [i]) ! k)"
      using arena_Add_stored [OF arena add] stored at_new at_old
      by (cases "k < ?n") (auto simp: nth_append t' less_Suc_eq)
  qed
qed

text \<open>Interning extends the identifiers by the new one, if it is new, and keeps every handle.\<close>

lemma ct_Intern_ok:
  assumes ok: "ctable_ok hash ids t" and intern: "ct_Intern hash i t = Some (h, t')"
  shows "i = [] \<and> h = 0 \<and> t' = t
    \<or> i \<noteq> [] \<and> (\<exists>more. ctable_ok hash (ids @ more) t' \<and> (i, h) \<in> assigned (ids @ more) \<and> set more \<subseteq> {i})"
proof (cases "i = []")
  case True
  with intern show ?thesis by (simp add: ct_Intern_def)
next
  case nonempty: False
  let ?s = "shard_of (hash i)"
  let ?shard = "ct_shards t ! ?s"
  have "\<exists>more. ctable_ok hash (ids @ more) t' \<and> (i, h) \<in> assigned (ids @ more) \<and> set more \<subseteq> {i}"
  proof (cases "lookupLocked t ?shard (hash i) i")
    case (Some v)
    with intern nonempty have "h = v" "t' = t" by (simp_all add: ct_Intern_def)
    with lookupLocked_exact [OF ok] Some ok show ?thesis by (intro exI [of _ "[]"]) simp
  next
    case None
    then have fresh: "i \<notin> set ids" using lookupLocked_exact [OF ok, of i] by (auto simp: assigned_ids)
    from intern nonempty None obtain g u where app: "appendID i t = Some (g, u)"
      by (cases "appendID i t") (auto simp: ct_Intern_def Let_def)
    note f = appendID_facts [OF ok app nonempty]
    let ?new = "case fmlookup (sh_byHash ?shard) (hash i) of
        Some _ \<Rightarrow> ?shard\<lparr>sh_collisions := fmupd i g (sh_collisions ?shard)\<rparr>
      | None \<Rightarrow> ?shard\<lparr>sh_byHash := fmupd (hash i) g (sh_byHash ?shard)\<rparr>"
    from intern nonempty None app f(4) have h: "h = g" and t': "t' = u\<lparr>ct_shards := (ct_shards t)[?s := ?new]\<rparr>"
      by (simp_all add: ct_Intern_def Let_def)
    from ok have shards: "length (ct_shards t) = shardCount" "s < shardCount \<Longrightarrow> shard_ok hash ids s (ct_shards t ! s)" for s
      by (simp_all add: ctable_ok_def)
    have "shard_ok hash (ids @ [i]) s (ct_shards t' ! s)" if "s < shardCount" for s
    proof (cases "s = ?s")
      case True
      with shards(1) shard_ok_insert [OF shards(2) [OF shard_of_less] fresh f(1)] show ?thesis by (simp add: t')
    next
      case False
      with that shard_ok_other [OF shards(2) [OF that]] show ?thesis by (simp add: t')
    qed
    moreover have "ct_location t' = ct_location u" by (simp add: fun_eq_iff ct_location_def t')
    moreover have "ct_pages t' = ct_pages u" "ct_arena t' = ct_arena u" "ct_count t' = ct_count u"
      "length (ct_shards t') = shardCount" using shards(1) by (simp_all add: t')
    ultimately have "ctable_ok hash (ids @ [i]) t'"
      using f ok fresh nonempty unfolding ctable_ok_def by simp
    with h f(1) show ?thesis by (intro exI [of _ "[i]"]) (simp add: assigned_snoc)
  qed
  with nonempty show ?thesis by blast
qed

lemma new_table_ok: "ctable_ok hash [] NewConcurrentTable"
  by (auto simp: ctable_ok_def NewConcurrentTable_def new_arena_ok shard_ok_def)

definition handled :: "string list \<Rightarrow> string \<Rightarrow> handle \<Rightarrow> bool" where
  "handled ids i h \<longleftrightarrow> i = [] \<and> h = 0 \<or> i \<noteq> [] \<and> (i, h) \<in> assigned ids"

lemma handled_mono: "handled ids i h \<Longrightarrow> handled (ids @ ms) i h"
  by (auto simp: handled_def assigned_mono)

lemma intern_all_ok:
  assumes "ctable_ok hash ids t" and "intern_all hash is t = Some (hs, t')"
  shows "\<exists>more. ctable_ok hash (ids @ more) t' \<and> list_all2 (handled (ids @ more)) is hs \<and> set more \<subseteq> set is"
  using assms
proof (induction "is" arbitrary: ids t hs)
  case Nil
  then show ?case by (intro exI [of _ "[]"]) simp
next
  case (Cons i "is")
  from Cons.prems(2) obtain h u gs where h: "ct_Intern hash i t = Some (h, u)" and gs: "intern_all hash is u = Some (gs, t')"
    "hs = h # gs" by (auto split: option.splits prod.splits)
  from ct_Intern_ok [OF Cons.prems(1) h] Cons.prems(1) obtain m1 where
    m1: "ctable_ok hash (ids @ m1) u" "handled (ids @ m1) i h" "set m1 \<subseteq> {i}"
    by (cases "i = []") (auto simp: handled_def intro: that [of "[]"])
  from Cons.IH [OF m1(1) gs(1)] obtain m2 where
    m2: "ctable_ok hash ((ids @ m1) @ m2) t'" "list_all2 (handled ((ids @ m1) @ m2)) is gs" "set m2 \<subseteq> set is" by blast
  from m1 m2 handled_mono [OF m1(2), of m2] show ?case
    by (intro exI [of _ "m1 @ m2"]) (auto simp: gs(2))
qed

lemma handled_facts:
  assumes "ctable_ok hash ids t" and "handled ids i h"
  shows "ct_Resolve t h = Some i" and "ct_Lookup hash t i = (if i = [] then None else Some h)"
  using assms ct_Resolve_assigned [OF assms(1), of i h] lookupLocked_exact [OF assms(1), of i h]
  by (auto simp: handled_def ct_Resolve_def ct_Lookup_def)

text \<open>C35 (roundtrip). Interning loses nothing and confuses nothing. After any sequence of
  identifiers has been interned, every handle resolves to its identifier, also handles given
  out long before, two handles are equal exactly when their identifiers are, a lookup finds
  exactly what was interned, and the empty identifier is handle zero. This holds for every
  hash function, so also when all identifiers collide, and across the growth of the arena.\<close>

theorem interning_is_faithful:
  assumes "intern_all hash is NewConcurrentTable = Some (hs, t)"
  shows "map (ct_Resolve t) hs = map Some is
    \<and> (\<forall>a < length is. \<forall>b < length is. hs ! a = hs ! b \<longleftrightarrow> is ! a = is ! b)
    \<and> (\<forall>a < length is. hs ! a = 0 \<longleftrightarrow> is ! a = [])
    \<and> (\<forall>a < length is. is ! a \<noteq> [] \<longrightarrow> ct_Lookup hash t (is ! a) = Some (hs ! a))
    \<and> (\<forall>i. i \<notin> set is \<longrightarrow> ct_Lookup hash t i = None)"
proof -
  from intern_all_ok [OF new_table_ok assms] obtain ids where
    ok: "ctable_ok hash ids t" and all: "list_all2 (handled ids) is hs" and new: "set ids \<subseteq> set is" by auto
  have len: "length hs = length is" using all by (simp add: list_all2_lengthD)
  have each: "handled ids (is ! a) (hs ! a)" if "a < length is" for a
    using all that by (simp add: list_all2_nthD)
  note facts = handled_facts [OF ok each]
  have resolve: "map (ct_Resolve t) hs = map Some is"
    using facts(1) len by (intro nth_equalityI) simp_all
  have equal: "hs ! a = hs ! b \<longleftrightarrow> is ! a = is ! b" if "a < length is" "b < length is" for a b
  proof
    assume "hs ! a = hs ! b"
    with facts(1) [OF that(1)] facts(1) [OF that(2)] show "is ! a = is ! b" by simp
  next
    assume "is ! a = is ! b"
    with facts(2) [OF that(1)] facts(2) [OF that(2)] each [OF that(1)] each [OF that(2)] show "hs ! a = hs ! b"
      by (auto simp: handled_def split: if_splits)
  qed
  have zero: "hs ! a = 0 \<longleftrightarrow> is ! a = []" if "a < length is" for a
    using facts(1) [OF that] each [OF that] by (auto simp: handled_def ct_Resolve_def split: if_splits)
  have absent: "ct_Lookup hash t i = None" if "i \<notin> set is" for i
  proof -
    have "(i, v) \<notin> assigned ids" for v using that new assigned_ids [of i ids] by blast
    then show ?thesis using lookupLocked_exact [OF ok, of i] by (auto simp: ct_Lookup_def not_None_eq [symmetric] simp del: not_None_eq)
  qed
  from resolve equal zero absent facts(2) show ?thesis by simp
qed

section \<open>The limits\<close>

lemma arena_Add_total:
  assumes "length (ar_chunks a) < arenaMaxChunks" and "length i \<le> arenaMaxIDBytes"
  shows "\<exists>l a'. arena_Add i a = Some (l, a') \<and> length (ar_chunks a') \<le> Suc (length (ar_chunks a))"
  using assms by (auto simp: arena_Add_def appendChunk_def Let_def)

lemma ct_Intern_total:
  assumes "length (ar_chunks (ct_arena t)) < arenaMaxChunks" and "ct_count t < arenaMaxChunks" and "length i \<le> arenaMaxIDBytes"
  shows "\<exists>h t'. ct_Intern hash i t = Some (h, t')
    \<and> length (ar_chunks (ct_arena t')) \<le> Suc (length (ar_chunks (ct_arena t))) \<and> ct_count t' \<le> Suc (ct_count t)"
proof -
  from arena_Add_total [OF assms(1,3)] obtain l a where
    add: "arena_Add i (ct_arena t) = Some (l, a)" "length (ar_chunks a) \<le> Suc (length (ar_chunks (ct_arena t)))" by blast
  with assms(2) obtain h u where "appendID i t = Some (h, u)" "ct_arena u = a" "ct_count u = Suc (ct_count t)"
    by (auto simp: appendID_def Let_def)
  with add(2) show ?thesis by (auto simp: ct_Intern_def Let_def split: option.split)
qed

lemma intern_all_total:
  "length (ar_chunks (ct_arena t)) + length is \<le> arenaMaxChunks \<Longrightarrow> ct_count t + length is \<le> arenaMaxChunks
     \<Longrightarrow> \<forall>i \<in> set is. length i \<le> arenaMaxIDBytes \<Longrightarrow> \<exists>hs t'. intern_all hash is t = Some (hs, t')"
proof (induction "is" arbitrary: t)
  case (Cons i "is")
  from Cons.prems ct_Intern_total [of t i hash] obtain h u where
    u: "ct_Intern hash i t = Some (h, u)" "length (ar_chunks (ct_arena u)) \<le> Suc (length (ar_chunks (ct_arena t)))"
      "ct_count u \<le> Suc (ct_count t)" by auto
  with Cons.prems Cons.IH [of u] show ?case by auto
qed simp

text \<open>Interning does not run into the limits of the packed representation: up to
  2^24 identifiers, each within the 16 MiB an arena location can describe, are interned
  without a panic, whatever their lengths and order and however they hash.\<close>

theorem interning_never_panics:
  assumes "length is \<le> arenaMaxChunks" and "\<forall>i \<in> set is. length i \<le> arenaMaxIDBytes"
  shows "\<exists>hs t. intern_all hash is NewConcurrentTable = Some (hs, t)"
  using intern_all_total [of NewConcurrentTable "is" hash] assms
  by (simp add: NewConcurrentTable_def new_arena_def)

text \<open>Three identifiers that all have the same hash.\<close>

lemma interning_never_panics_witness:
  "\<exists>hs t. intern_all (\<lambda>_. 0) [''a'', ''b'', [], ''a''] NewConcurrentTable = Some (hs, t)"
  using interning_never_panics [of "[''a'', ''b'', [], ''a'']"] by simp

lemma interning_is_faithful_witness:
  "\<exists>hs t. intern_all (\<lambda>_. 0) [''a'', ''b'', [], ''a''] NewConcurrentTable = Some (hs, t)
     \<and> hs ! 0 = hs ! 3 \<and> hs ! 0 \<noteq> hs ! 1 \<and> hs ! 2 = 0 \<and> ct_Lookup (\<lambda>_. 0) t ''b'' = Some (hs ! 1)"
proof -
  from intern_all_total [of NewConcurrentTable "[''a'', ''b'', [], ''a'']" "\<lambda>_. 0"] obtain hs t where
    run: "intern_all (\<lambda>_. 0) [''a'', ''b'', [], ''a''] NewConcurrentTable = Some (hs, t)"
    by (auto simp: NewConcurrentTable_def new_arena_def simp del: intern_all.simps)
  from interning_is_faithful [OF run] have
    eq: "\<forall>a < 4. \<forall>b < 4. hs ! a = hs ! b \<longleftrightarrow> [''a'', ''b'', [], ''a''] ! a = [''a'', ''b'', [], ''a''] ! b" and
    zero: "\<forall>a < 4. hs ! a = 0 \<longleftrightarrow> [''a'', ''b'', [], ''a''] ! a = []" and
    lookup: "\<forall>a < 4. [''a'', ''b'', [], ''a''] ! a \<noteq> []
      \<longrightarrow> ct_Lookup (\<lambda>_. 0) t ([''a'', ''b'', [], ''a''] ! a) = Some (hs ! a)" by simp_all
  from eq [rule_format, of 0 3] eq [rule_format, of 0 1] zero [rule_format, of 2] lookup [rule_format, of 1] run
  show ?thesis by (intro exI [of _ hs] exI [of _ t]) simp
qed

end
