(* ===== verification/Room_Events.thy ===== *)
theory Room_Events
  imports Room_Directory
begin

text \<open>
  The events of a room as the content projections read them: the facts of the directory,
  messages, threads, reactions, pins, assets and calls, and the erasure of an account. What
  the projections ask of an event is here once: its type name (\<open>evtstream/subjects.go\<close>), its
  room and author (\<open>event_facts.go\<close>), its time (\<open>projection_time.go\<close>) and the number of
  attachments of a body (\<open>asset_types.go\<close>).
\<close>

section \<open>Payloads\<close>

text \<open>
  A mention has the account and whether its cause is a direct mention; a nil entry of the
  repeated field is \<^const>\<open>None\<close>. An attachment is its identifier.
\<close>

record message_posted =
  mp_room_id :: string
  mp_in_thread :: string
  mp_echo_of :: string
  mp_echo_root :: string
  mp_author_id :: string
  mp_historical :: bool
  mp_mentions :: "(string \<times> bool) option list"

record message_body =
  bd_event_id :: string
  bd_author_id :: string
  bd_asset_ids :: "string list"
  bd_attachments :: "string option list"

record message_body_event =
  mbe_room_id :: string
  mbe_event_id :: string
  mbe_body :: "message_body option"

datatype content_event =
  DirectoryFact room_event
| RoomInvitationCreated string
| RoomInvitationAccepted string
| RoomInvitationDeclined string
| RoomMemberAdded string
| RoomMemberRemoved string
| MessagePosted message_posted
| MessageEdited string string
| MessageRetracted string string
| MessageBody message_body_event
| MessagePinned string string
| MessageUnpinned string string
| ThreadCreated string string
| ThreadFollowed string string string
| ThreadUnfollowed string string string
| ReactionAdded string string string string
| ReactionRemoved string string string
| AssetCreated "string option" string
| AssetProcessingStarted string string
| AssetProcessingSucceeded string string
| AssetProcessingFailed string string
| AssetDeleted string
| AssetAttached string
| VoiceCallParticipantJoined string
| VoiceCallParticipantLeft string
| VoiceCallStarted string
| VoiceCallEnded string
| UserKeyShreddingRequested string
| UserKeyShredded string
| OtherEvent string

text \<open>
  The arguments: room, then message or thread root, for messages, pins and threads; account,
  room and thread root for follows; room, message, emoji and account for a reaction (no
  account for its removal); the asset's identifier, absent without an asset, and the room
  for a created asset; the message and the asset for its processing. \<open>OtherEvent\<close> stands for
  every payload none of the content projections reads, with its type name. The flag of the
  import context that hides a fact from the timeline is part of the payload.
\<close>

record content =
  ct_event :: content_event
  ct_hidden :: bool

type_synonym content_fact = "content event"

definition payload_of :: "content_fact \<Rightarrow> content_event option" where
  "payload_of ev = map_option ct_event (ev_payload ev)"

definition hidden_timeline :: "content_fact \<Rightarrow> bool" where
  "hidden_timeline ev = (case ev_payload ev of None \<Rightarrow> False | Some c \<Rightarrow> ct_hidden c)"

definition posted_of :: "content_fact \<Rightarrow> message_posted option" where
  "posted_of ev = (case payload_of ev of Some (MessagePosted m) \<Rightarrow> Some m | _ \<Rightarrow> None)"

section \<open>The room of an event\<close>

fun room_of_directory :: "room_event \<Rightarrow> string" where
  "room_of_directory (RoomCreated c) = cr_room_id c"
| "room_of_directory (RoomUpdated r _ _ _) = r"
| "room_of_directory (RoomNoticeChanged c) = nc_room_id c"
| "room_of_directory (RoomArchived r) = r"
| "room_of_directory (RoomUnarchived r) = r"
| "room_of_directory (RoomUniversalChanged r _) = r"
| "room_of_directory (RoomSlowModeChanged r _ _) = r"
| "room_of_directory (RoomThreadingModeChanged r _) = r"
| "room_of_directory (RoomMembershipEventsVisibilityChanged r _) = r"
| "room_of_directory (RoomDeleted r) = r"
| "room_of_directory (UserJoinedRoom r) = r"
| "room_of_directory (UserLeftRoom r) = r"
| "room_of_directory (RoomMemberBanned b) = mb_room_id b"
| "room_of_directory (RoomMemberUnbanned r _) = r"

fun room_of_content :: "content_event \<Rightarrow> string" where
  "room_of_content (DirectoryFact e) = room_of_directory e"
| "room_of_content (RoomInvitationCreated r) = r"
| "room_of_content (RoomInvitationAccepted r) = r"
| "room_of_content (RoomInvitationDeclined r) = r"
| "room_of_content (RoomMemberAdded r) = r"
| "room_of_content (RoomMemberRemoved r) = r"
| "room_of_content (MessagePosted m) = mp_room_id m"
| "room_of_content (MessageEdited r _) = r"
| "room_of_content (MessageRetracted r _) = r"
| "room_of_content (MessageBody b) = mbe_room_id b"
| "room_of_content (MessagePinned r _) = r"
| "room_of_content (MessageUnpinned r _) = r"
| "room_of_content (ThreadCreated r _) = r"
| "room_of_content (ThreadFollowed _ r _) = r"
| "room_of_content (ThreadUnfollowed _ r _) = r"
| "room_of_content (ReactionAdded r _ _ _) = r"
| "room_of_content (ReactionRemoved r _ _) = r"
| "room_of_content (VoiceCallParticipantJoined r) = r"
| "room_of_content (VoiceCallParticipantLeft r) = r"
| "room_of_content (VoiceCallStarted r) = r"
| "room_of_content (VoiceCallEnded r) = r"
| "room_of_content _ = []"

definition roomIDOfEvent :: "content_fact \<Rightarrow> string" where
  "roomIDOfEvent ev = (case payload_of ev of None \<Rightarrow> [] | Some e \<Rightarrow> room_of_content e)"

section \<open>Type names\<close>

fun type_of_directory :: "room_event \<Rightarrow> string" where
  "type_of_directory (RoomCreated _) = ''room_created''"
| "type_of_directory (RoomUpdated _ _ _ _) = ''room_updated''"
| "type_of_directory (RoomNoticeChanged _) = ''room_notice_changed''"
| "type_of_directory (RoomArchived _) = ''room_archived''"
| "type_of_directory (RoomUnarchived _) = ''room_unarchived''"
| "type_of_directory (RoomUniversalChanged _ _) = ''room_universal_changed''"
| "type_of_directory (RoomSlowModeChanged _ _ _) = ''room_slow_mode_changed''"
| "type_of_directory (RoomThreadingModeChanged _ _) = ''room_threading_mode_changed''"
| "type_of_directory (RoomMembershipEventsVisibilityChanged _ _) =
     ''room_membership_events_visibility_changed''"
| "type_of_directory (RoomDeleted _) = ''room_deleted''"
| "type_of_directory (UserJoinedRoom _) = ''user_joined''"
| "type_of_directory (UserLeftRoom _) = ''user_left''"
| "type_of_directory (RoomMemberBanned _) = ''room_member_banned''"
| "type_of_directory (RoomMemberUnbanned _ _) = ''room_member_unbanned''"

fun type_of_content :: "content_event \<Rightarrow> string" where
  "type_of_content (DirectoryFact e) = type_of_directory e"
| "type_of_content (RoomInvitationCreated _) = ''room_invitation_created''"
| "type_of_content (RoomInvitationAccepted _) = ''room_invitation_accepted''"
| "type_of_content (RoomInvitationDeclined _) = ''room_invitation_declined''"
| "type_of_content (RoomMemberAdded _) = ''room_member_added''"
| "type_of_content (RoomMemberRemoved _) = ''room_member_removed''"
| "type_of_content (MessagePosted _) = ''message_posted''"
| "type_of_content (MessageEdited _ _) = ''message_edited''"
| "type_of_content (MessageRetracted _ _) = ''message_retracted''"
| "type_of_content (MessageBody _) = ''message_body''"
| "type_of_content (MessagePinned _ _) = ''message_pinned''"
| "type_of_content (MessageUnpinned _ _) = ''message_unpinned''"
| "type_of_content (ThreadCreated _ _) = ''thread_created''"
| "type_of_content (ThreadFollowed _ _ _) = ''thread_followed''"
| "type_of_content (ThreadUnfollowed _ _ _) = ''thread_unfollowed''"
| "type_of_content (ReactionAdded _ _ _ _) = ''reaction_added''"
| "type_of_content (ReactionRemoved _ _ _) = ''reaction_removed''"
| "type_of_content (AssetCreated _ _) = ''asset_created''"
| "type_of_content (AssetProcessingStarted _ _) = ''asset_processing_started''"
| "type_of_content (AssetProcessingSucceeded _ _) = ''asset_processing_succeeded''"
| "type_of_content (AssetProcessingFailed _ _) = ''asset_processing_failed''"
| "type_of_content (AssetDeleted _) = ''asset_deleted''"
| "type_of_content (AssetAttached _) = ''asset_attached''"
| "type_of_content (VoiceCallParticipantJoined _) = ''call_joined''"
| "type_of_content (VoiceCallParticipantLeft _) = ''call_left''"
| "type_of_content (VoiceCallStarted _) = ''call_started''"
| "type_of_content (VoiceCallEnded _) = ''call_ended''"
| "type_of_content (UserKeyShreddingRequested _) = ''user_key_shredding_requested''"
| "type_of_content (UserKeyShredded _) = ''user_key_shredded''"
| "type_of_content (OtherEvent t) = t"

definition EventTypeOf :: "content_fact \<Rightarrow> string" where
  "EventTypeOf ev = (case payload_of ev of None \<Rightarrow> [] | Some e \<Rightarrow> type_of_content e)"

section \<open>Author, visibility, time and attachments\<close>

definition MessageAuthorID :: "content_fact \<Rightarrow> string" where
  "MessageAuthorID ev =
     (case posted_of ev of
        Some m \<Rightarrow> if mp_author_id m \<noteq> [] then mp_author_id m else ev_actor ev
      | None \<Rightarrow> ev_actor ev)"

fun visible_content :: "content_event \<Rightarrow> bool" where
  "visible_content (MessagePosted m) = (mp_in_thread m = [])"
| "visible_content (DirectoryFact (RoomCreated _)) = True"
| "visible_content (DirectoryFact (RoomUpdated _ _ _ _)) = True"
| "visible_content (DirectoryFact (RoomDeleted _)) = True"
| "visible_content (DirectoryFact (RoomArchived _)) = True"
| "visible_content (DirectoryFact (RoomUnarchived _)) = True"
| "visible_content (DirectoryFact (RoomThreadingModeChanged _ _)) = True"
| "visible_content (DirectoryFact (UserJoinedRoom _)) = True"
| "visible_content (DirectoryFact (UserLeftRoom _)) = True"
| "visible_content (VoiceCallStarted _) = True"
| "visible_content (VoiceCallEnded _) = True"
| "visible_content _ = False"

definition isVisibleRoomTimelineEntry :: "content_fact \<Rightarrow> bool" where
  "isVisibleRoomTimelineEntry ev =
     (\<not> hidden_timeline ev \<and>
      (case payload_of ev of None \<Rightarrow> False | Some e \<Rightarrow> visible_content e))"

text \<open>
  A compact time is the number of nanoseconds in an \<open>int64\<close>; zero is \<^emph>\<open>no time\<close>, so the
  instant of the epoch itself reads back as the zero time.
\<close>

definition projectionUnixNanos :: "time \<Rightarrow> 64 word" where
  "projectionUnixNanos t = (if t = zero_time then 0 else word_of_int t)"

definition projectionTime :: "64 word \<Rightarrow> time" where
  "projectionTime n = (if n = 0 then zero_time else sint n)"

definition eventCreatedAt :: "'e event \<Rightarrow> time" where
  "eventCreatedAt ev = (case ev_created_at ev of None \<Rightarrow> zero_time | Some t \<Rightarrow> t)"

definition eventCreatedNanos :: "'e event \<Rightarrow> 64 word" where
  "eventCreatedNanos ev = projectionUnixNanos (eventCreatedAt ev)"

definition messageBodyAttachmentCount :: "message_body \<Rightarrow> nat" where
  "messageBodyAttachmentCount b =
     (if bd_asset_ids b \<noteq> [] then length (filter (\<lambda>i. i \<noteq> []) (bd_asset_ids b))
      else length (filter (\<lambda>a. a \<noteq> None) (bd_attachments b)))"

text \<open>Every instant between the years 1678 and 2262 other than the epoch survives.\<close>

lemma projectionTime_roundtrip:
  assumes "- (2 ^ 63) \<le> t" and "t < 2 ^ 63" and "t \<noteq> 0"
  shows "projectionTime (projectionUnixNanos t) = t"
proof -
  have "sint (word_of_int t :: 64 word) = t"
    using assms(1,2) by (simp add: sint_sbintrunc' signed_take_bit_int_eq_self_iff)
  moreover from this have "(word_of_int t :: 64 word) \<noteq> 0"
    using assms(3) by auto
  moreover have "t \<noteq> zero_time"
    using assms(1) by auto
  ultimately show ?thesis
    by (simp add: projectionTime_def projectionUnixNanos_def)
qed

lemma projectionTime_zero [simp]: "projectionTime (projectionUnixNanos zero_time) = zero_time"
  by (simp add: projectionTime_def projectionUnixNanos_def)

end
