(* ===== verification/Room_Timeline.thy ===== *)
theory Room_Timeline
  imports Room_Events
begin

text \<open>
  The room timeline (\<open>room_timeline_projection.go\<close>): the rows of the visible log of every
  room, the posts of every room with their threads, the current and the superseded bodies of
  messages, retractions, erased authors, echoes, pins and the listing of messages with
  attachments. This theory has the state and \<open>Apply\<close>; the reads are in
  \<open>Room_Timeline_Reads\<close>.

  Identifiers stand for their handles: a handle resolves to the identifier it was given for
  and equal identifiers have equal handles (theory \<open>Intern_Properties\<close>); handle zero is the
  empty identifier. Row and body indexes are natural numbers from zero; the one-based
  indexes of the source are one more, its zero is an absent entry. They are \<open>uint32\<close>
  there: four billion rows do not fit into memory.
\<close>

unbundle bit_operations_syntax

section \<open>Rows and bodies\<close>

datatype timeline_kind =
  timelineUnknown
| timelineMessagePosted
| timelineRoomCreated
| timelineRoomUpdated
| timelineRoomDeleted
| timelineRoomArchived
| timelineRoomUnarchived
| timelineRoomThreadingModeChanged
| timelineUserJoinedRoom
| timelineUserLeftRoom
| timelineCallStarted
| timelineCallEnded

definition timelineKind :: "string \<Rightarrow> timeline_kind" where
  "timelineKind t =
     (if t = ''message_posted'' then timelineMessagePosted
      else if t = ''room_created'' then timelineRoomCreated
      else if t = ''room_updated'' then timelineRoomUpdated
      else if t = ''room_deleted'' then timelineRoomDeleted
      else if t = ''room_archived'' then timelineRoomArchived
      else if t = ''room_unarchived'' then timelineRoomUnarchived
      else if t = ''room_threading_mode_changed'' then timelineRoomThreadingModeChanged
      else if t = ''user_joined'' then timelineUserJoinedRoom
      else if t = ''user_left'' then timelineUserLeftRoom
      else if t = ''call_started'' then timelineCallStarted
      else if t = ''call_ended'' then timelineCallEnded
      else timelineUnknown)"

fun kind_eventType :: "timeline_kind \<Rightarrow> string" where
  "kind_eventType timelineMessagePosted = ''message_posted''"
| "kind_eventType timelineRoomCreated = ''room_created''"
| "kind_eventType timelineRoomUpdated = ''room_updated''"
| "kind_eventType timelineRoomDeleted = ''room_deleted''"
| "kind_eventType timelineRoomArchived = ''room_archived''"
| "kind_eventType timelineRoomUnarchived = ''room_unarchived''"
| "kind_eventType timelineRoomThreadingModeChanged = ''room_threading_mode_changed''"
| "kind_eventType timelineUserJoinedRoom = ''user_joined''"
| "kind_eventType timelineUserLeftRoom = ''user_left''"
| "kind_eventType timelineCallStarted = ''call_started''"
| "kind_eventType timelineCallEnded = ''call_ended''"
| "kind_eventType timelineUnknown = []"

lemma timelineKind_eventType [simp]: "timelineKind (kind_eventType k) = k"
  by (cases k) (simp_all add: timelineKind_def)

lemma posted_type_iff [simp]: "kind_eventType k = ''message_posted'' \<longleftrightarrow> k = timelineMessagePosted"
  by (cases k) simp_all

record timeline_row =
  row_seq :: seq
  row_created :: "64 word"
  row_event :: string
  row_threadRoot :: string
  row_echoOf :: string
  row_room :: string
  row_actor :: string
  row_author :: string
  row_body :: "nat option"
  row_kind :: timeline_kind
  row_reply :: bool
  row_historical :: bool

record timeline_body =
  bs_seq :: seq
  bs_event_id :: string
  bs_author :: string
  bs_flags :: "32 word"

definition zero_body :: timeline_body where
  "zero_body = \<lparr>bs_seq = 0, bs_event_id = [], bs_author = [], bs_flags = 0\<rparr>"

abbreviation timelineBodyActive :: "32 word" where "timelineBodyActive \<equiv> 0x80000000"
abbreviation timelineBodyMaxAttachments :: "32 word" where "timelineBodyMaxAttachments \<equiv> 0x7fffffff"

definition body_active :: "timeline_body \<Rightarrow> bool" where
  "body_active s \<longleftrightarrow> bs_flags s AND timelineBodyActive \<noteq> 0"

definition body_attachmentCount :: "timeline_body \<Rightarrow> 32 word" where
  "body_attachmentCount s = bs_flags s AND timelineBodyMaxAttachments"

record pinned_message =
  pin_event_id :: string
  pin_seq :: seq
  pin_room_id :: string
  pin_message_id :: string

record latest_pin =
  lp_event_id :: string
  lp_seq :: seq

section \<open>The state\<close>

record timeline =
  tl_entries :: "timeline_row list"
  tl_rowByEvent :: "(string, nat) fmap"
  tl_byRoom :: "(string, nat list) fmap"
  tl_posts :: "(string, nat list) fmap"
  tl_latestRootPostAt :: "(string \<times> string, time) fmap"
  tl_guard :: replay_guard
  tl_bodies :: "timeline_body list"
  tl_orphans :: "(string, timeline_body) fmap"
  tl_history :: "(nat, seq list) fmap"
  tl_orphanHistory :: "(string, seq list) fmap"
  tl_retracted :: "string fset"
  tl_tombstonedAt :: "(string, time) fmap"
  tl_shreddedAt :: "(string, time) fmap"
  tl_attachments :: "(string, string list) fmap"
  tl_attachmentRoom :: "(string, string) fmap"
  tl_echoLinks :: "(string, string list) fmap"
  tl_hiddenEchoes :: "string fset"
  tl_shreddedUsers :: "string fset"
  tl_pins :: "(string, (string, pinned_message) fmap) fmap"
  tl_latestPin :: "(string, latest_pin) fmap"

definition NewRoomTimelineProjection :: timeline where
  "NewRoomTimelineProjection =
     \<lparr>tl_entries = [], tl_rowByEvent = fmempty, tl_byRoom = fmempty, tl_posts = fmempty,
      tl_latestRootPostAt = fmempty, tl_guard = newProjectionReplayGuard, tl_bodies = [],
      tl_orphans = fmempty, tl_history = fmempty, tl_orphanHistory = fmempty,
      tl_retracted = {||}, tl_tombstonedAt = fmempty, tl_shreddedAt = fmempty,
      tl_attachments = fmempty, tl_attachmentRoom = fmempty, tl_echoLinks = fmempty,
      tl_hiddenEchoes = {||}, tl_shreddedUsers = {||}, tl_pins = fmempty, tl_latestPin = fmempty\<rparr>"

text \<open>A missing list or string of a Go map reads as empty.\<close>

definition getl :: "('k, 'a list) fmap \<Rightarrow> 'k \<Rightarrow> 'a list" where
  "getl m k = (case fmlookup m k of None \<Rightarrow> [] | Some xs \<Rightarrow> xs)"

section \<open>Detached entries\<close>

record timeline_entry =
  te_seq :: seq
  te_event_id :: string
  te_room_id :: string
  te_actor_id :: string
  te_author_id :: string
  te_created_at :: time
  te_type :: string
  te_thread_root :: string
  te_in_thread :: string
  te_echo_of :: string
  te_historical :: bool

definition IsMessagePost :: "timeline_entry \<Rightarrow> bool" where
  "IsMessagePost e = (te_type e = ''message_posted'')"

definition timelineEntryMessageAuthorID :: "timeline_entry option \<Rightarrow> string" where
  "timelineEntryMessageAuthorID e =
     (case e of None \<Rightarrow> []
      | Some t \<Rightarrow> if te_author_id t \<noteq> [] then te_author_id t else te_actor_id t)"

definition entryOfRow :: "timeline_row \<Rightarrow> timeline_entry" where
  "entryOfRow r =
     \<lparr>te_seq = row_seq r, te_event_id = row_event r, te_room_id = row_room r,
      te_actor_id = row_actor r, te_author_id = row_author r,
      te_created_at = projectionTime (row_created r), te_type = kind_eventType (row_kind r),
      te_thread_root = row_threadRoot r, te_in_thread = (if row_reply r then row_threadRoot r else []),
      te_echo_of = row_echoOf r, te_historical = row_historical r\<rparr>"

definition entryAt :: "timeline \<Rightarrow> nat \<Rightarrow> timeline_entry option" where
  "entryAt p i = (if i < length (tl_entries p) then Some (entryOfRow (tl_entries p ! i)) else None)"

definition rowIndex :: "timeline \<Rightarrow> string \<Rightarrow> nat option" where
  "rowIndex p i = (if i = [] then None else fmlookup (tl_rowByEvent p) i)"

definition entryByEventID :: "timeline \<Rightarrow> string \<Rightarrow> timeline_entry option" where
  "entryByEventID p i = Option.bind (rowIndex p i) (entryAt p)"

section \<open>Appending rows\<close>

definition thread_root_of :: "string \<Rightarrow> message_posted \<Rightarrow> string" where
  "thread_root_of eventID m =
     (if mp_in_thread m \<noteq> [] then mp_in_thread m
      else if mp_echo_root m \<noteq> [] then mp_echo_root m else eventID)"

definition row_of_event :: "seq \<Rightarrow> content_fact \<Rightarrow> nat \<Rightarrow> timeline_row" where
  "row_of_event sq ev nextBody =
     (let base = \<lparr>row_seq = sq, row_created = eventCreatedNanos ev, row_event = ev_id ev,
                  row_threadRoot = [], row_echoOf = [], row_room = roomIDOfEvent ev,
                  row_actor = ev_actor ev, row_author = [], row_body = None,
                  row_kind = timelineKind (EventTypeOf ev), row_reply = False,
                  row_historical = False\<rparr>
      in case posted_of ev of
           None \<Rightarrow> base
         | Some m \<Rightarrow>
             base\<lparr>row_body := Some nextBody, row_author := mp_author_id m,
                  row_historical := mp_historical m,
                  row_threadRoot := thread_root_of (ev_id ev) m,
                  row_reply := mp_in_thread m \<noteq> [], row_echoOf := mp_echo_of m\<rparr>)"

text \<open>A post takes over the body facts that arrived before it.\<close>

definition adopt_orphan :: "string \<Rightarrow> timeline \<Rightarrow> timeline" where
  "adopt_orphan eventID p =
     (let n = length (tl_bodies p);
          p1 = p\<lparr>tl_bodies := tl_bodies p @
                   [case fmlookup (tl_orphans p) eventID of None \<Rightarrow> zero_body | Some s \<Rightarrow> s],
                 tl_orphans := fmdrop eventID (tl_orphans p)\<rparr>;
          history = getl (tl_orphanHistory p) eventID
      in if history \<noteq> []
         then p1\<lparr>tl_history := fmupd n history (tl_history p1),
                 tl_orphanHistory := fmdrop eventID (tl_orphanHistory p1)\<rparr>
         else p1)"

definition appendEntry :: "seq \<Rightarrow> content_fact \<Rightarrow> timeline \<Rightarrow> nat \<times> timeline" where
  "appendEntry sq ev p =
     (let row = row_of_event sq ev (length (tl_bodies p));
          p1 = p\<lparr>tl_entries := tl_entries p @ [row]\<rparr>
      in (length (tl_entries p), if row_body row \<noteq> None then adopt_orphan (ev_id ev) p1 else p1))"

definition indexEvent :: "nat \<Rightarrow> timeline \<Rightarrow> timeline" where
  "indexEvent i p =
     (let e = row_event (tl_entries p ! i) in
      if e = [] then p else p\<lparr>tl_rowByEvent := fmupd e i (tl_rowByEvent p)\<rparr>)"

section \<open>Bodies\<close>

text \<open>The dense body of an indexed post, if the event names one.\<close>

definition body_index :: "timeline \<Rightarrow> string \<Rightarrow> nat option" where
  "body_index p eventID = Option.bind (rowIndex p eventID) (\<lambda>i. row_body (tl_entries p ! i))"

definition bodyState :: "timeline \<Rightarrow> string \<Rightarrow> timeline_body option" where
  "bodyState p eventID =
     (case body_index p eventID of
        Some b \<Rightarrow> (let s = tl_bodies p ! b in if bs_seq s \<noteq> 0 then Some s else None)
      | None \<Rightarrow> fmlookup (tl_orphans p) eventID)"

definition putBodyState :: "string \<Rightarrow> timeline_body \<Rightarrow> timeline \<Rightarrow> timeline" where
  "putBodyState eventID s p =
     (case body_index p eventID of
        Some b \<Rightarrow> p\<lparr>tl_bodies := (tl_bodies p)[b := s]\<rparr>
      | None \<Rightarrow> p\<lparr>tl_orphans := fmupd eventID s (tl_orphans p)\<rparr>)"

definition bodyHistory :: "timeline \<Rightarrow> string \<Rightarrow> seq list" where
  "bodyHistory p eventID =
     (case body_index p eventID of
        Some b \<Rightarrow> getl (tl_history p) b
      | None \<Rightarrow> getl (tl_orphanHistory p) eventID)"

definition putBodyHistory :: "string \<Rightarrow> seq list \<Rightarrow> timeline \<Rightarrow> timeline" where
  "putBodyHistory eventID history p =
     (if history = [] then p
      else case body_index p eventID of
        Some b \<Rightarrow> p\<lparr>tl_history := fmupd b history (tl_history p)\<rparr>
      | None \<Rightarrow> p\<lparr>tl_orphanHistory := fmupd eventID history (tl_orphanHistory p)\<rparr>)"

definition body_flags :: "nat \<Rightarrow> 32 word" where
  "body_flags attachmentCount =
     timelineBodyActive OR of_nat (min attachmentCount (unat timelineBodyMaxAttachments))"

lemma body_flags_code [code]:
  "body_flags n = timelineBodyActive OR word_of_int (min (int n) 0x7fffffff)"
  by (simp add: body_flags_def min_def)

definition setCurrentBody :: "string \<Rightarrow> string \<Rightarrow> string \<Rightarrow> nat \<Rightarrow> seq \<Rightarrow> timeline \<Rightarrow> timeline" where
  "setCurrentBody eventID bodyEventID authorID attachmentCount sq p =
     putBodyState eventID
       \<lparr>bs_seq = sq, bs_event_id = bodyEventID, bs_author = authorID,
        bs_flags = body_flags attachmentCount\<rparr>
       (case bodyState p eventID of
          Some s \<Rightarrow> putBodyHistory eventID (bodyHistory p eventID @ [bs_seq s]) p
        | None \<Rightarrow> p)"

definition clearCurrentBody :: "string \<Rightarrow> timeline \<Rightarrow> timeline" where
  "clearCurrentBody eventID p =
     (case bodyState p eventID of
        None \<Rightarrow> p
      | Some s \<Rightarrow> putBodyState eventID (s\<lparr>bs_flags := 0\<rparr>) p)"

definition setTombstonedAt :: "string \<Rightarrow> time \<Rightarrow> timeline \<Rightarrow> timeline" where
  "setTombstonedAt eventID t p =
     (if eventID = [] \<or> t = zero_time then p
      else case fmlookup (tl_tombstonedAt p) eventID of
        Some existing \<Rightarrow>
          if t < existing then p\<lparr>tl_tombstonedAt := fmupd eventID t (tl_tombstonedAt p)\<rparr> else p
      | None \<Rightarrow> p\<lparr>tl_tombstonedAt := fmupd eventID t (tl_tombstonedAt p)\<rparr>)"

section \<open>The content of a message\<close>

record body_reference =
  br_message_id :: string
  br_body_event_id :: string
  br_room_id :: string
  br_author_id :: string
  br_seq :: seq
  br_attachments :: nat

definition no_reference :: body_reference where
  "no_reference = \<lparr>br_message_id = [], br_body_event_id = [], br_room_id = [], br_author_id = [],
     br_seq = 0, br_attachments = 0\<rparr>"

definition contentEntry :: "timeline \<Rightarrow> string \<Rightarrow> timeline_entry option" where
  "contentEntry p eventID =
     (case entryByEventID p eventID of
        None \<Rightarrow> None
      | Some e \<Rightarrow>
          if \<not> IsMessagePost e then None
          else if eventID |\<in>| tl_hiddenEchoes p then None
          else if te_echo_of e = [] then Some e
          else (case entryByEventID p (te_echo_of e) of
                  None \<Rightarrow> None
                | Some original \<Rightarrow>
                    if \<not> IsMessagePost original \<or> te_echo_of original \<noteq> []
                       \<or> te_in_thread original = [] \<or> te_room_id original \<noteq> te_room_id e
                       \<or> te_in_thread original \<noteq> te_thread_root e
                    then None else Some original))"

definition latestBodyReference :: "timeline \<Rightarrow> string \<Rightarrow> body_reference \<times> bool \<times> bool" where
  "latestBodyReference p eventID =
     (case entryByEventID p eventID of
        None \<Rightarrow> (no_reference, False, False)
      | Some visible \<Rightarrow>
          if \<not> IsMessagePost visible then (no_reference, False, False)
          else if eventID |\<in>| tl_hiddenEchoes p then (no_reference, True, True)
          else if eventID |\<in>| tl_retracted p then (no_reference, True, True)
          else (case contentEntry p eventID of
                  None \<Rightarrow> (no_reference, False, True)
                | Some e \<Rightarrow>
                    if te_event_id e |\<in>| tl_retracted p then (no_reference, True, True)
                    else (case bodyState p (te_event_id e) of
                            None \<Rightarrow> (no_reference, False, True)
                          | Some s \<Rightarrow>
                              if body_active s
                              then (\<lparr>br_message_id = te_event_id e, br_body_event_id = bs_event_id s,
                                     br_room_id = te_room_id e, br_author_id = bs_author s,
                                     br_seq = bs_seq s,
                                     br_attachments = unat (body_attachmentCount s)\<rparr>, False, True)
                              else (no_reference, False, True))))"

definition echoOriginalID :: "timeline \<Rightarrow> string \<Rightarrow> string" where
  "echoOriginalID p eventID =
     (case entryByEventID p eventID of None \<Rightarrow> [] | Some e \<Rightarrow> te_echo_of e)"

section \<open>The listing of messages with attachments\<close>

definition removeAttachmentMessage :: "string \<Rightarrow> timeline \<Rightarrow> timeline" where
  "removeAttachmentMessage eventID p =
     (let roomID = getl (tl_attachmentRoom p) eventID in
      if roomID = [] then p
      else (let ids = remove1 eventID (getl (tl_attachments p) roomID) in
            p\<lparr>tl_attachments := (if ids = [] then fmdrop roomID (tl_attachments p)
                                 else fmupd roomID ids (tl_attachments p)),
              tl_attachmentRoom := fmdrop eventID (tl_attachmentRoom p)\<rparr>))"

text \<open>The position of the first listed message that is unknown or later than \<open>sq\<close>.\<close>

fun insert_position :: "timeline \<Rightarrow> seq \<Rightarrow> string list \<Rightarrow> nat" where
  "insert_position p sq [] = 0"
| "insert_position p sq (i # ids) =
     (case entryByEventID p i of
        None \<Rightarrow> 0
      | Some e \<Rightarrow> if sq < te_seq e then 0 else Suc (insert_position p sq ids))"

definition insert_attachment :: "timeline \<Rightarrow> seq \<Rightarrow> string \<Rightarrow> string list \<Rightarrow> string list" where
  "insert_attachment p sq eventID ids =
     (let append_it =
        (ids = [] \<or>
         (case entryByEventID p (last ids) of None \<Rightarrow> False | Some e \<Rightarrow> te_seq e \<le> sq));
          n = (if append_it then length ids else insert_position p sq ids)
      in take n ids @ eventID # drop n ids)"

definition addAttachmentMessage :: "string \<Rightarrow> string \<Rightarrow> seq \<Rightarrow> timeline \<Rightarrow> timeline" where
  "addAttachmentMessage roomID eventID sq p =
     (if roomID = [] \<or> eventID = [] then p
      else let existingRoom = getl (tl_attachmentRoom p) eventID in
        if existingRoom \<noteq> [] \<and> existingRoom = roomID then p
        else let p1 = (if existingRoom \<noteq> [] then removeAttachmentMessage eventID p else p);
                 ids = insert_attachment p1 sq eventID (getl (tl_attachments p1) roomID)
             in p1\<lparr>tl_attachments := fmupd roomID ids (tl_attachments p1),
                   tl_attachmentRoom := fmupd eventID roomID (tl_attachmentRoom p1)\<rparr>)"

definition refreshAttachmentMessage :: "string \<Rightarrow> string \<Rightarrow> timeline \<Rightarrow> timeline" where
  "refreshAttachmentMessage roomID eventID p =
     (if roomID = [] \<or> eventID = [] then p
      else case latestBodyReference p eventID of
        (ref, retracted, ok) \<Rightarrow>
          if retracted \<or> br_seq ref = 0 \<or> br_attachments ref = 0 then removeAttachmentMessage eventID p
          else (case entryByEventID p eventID of
                  None \<Rightarrow> p
                | Some e \<Rightarrow> addAttachmentMessage roomID eventID (te_seq e) p))"

section \<open>Erasure of an account\<close>

text \<open>What happens to one message whose content is gone.\<close>

definition erase_message :: "string \<Rightarrow> time \<Rightarrow> timeline \<Rightarrow> timeline" where
  "erase_message eventID t p =
     (let p1 = clearCurrentBody eventID p;
          p2 = p1\<lparr>tl_retracted := finsert eventID (tl_retracted p1)\<rparr>;
          p3 = setTombstonedAt eventID t p2
      in removeAttachmentMessage eventID p3)"

text \<open>The author of a row falls back to its actor. A row is skipped when a later row took
  over its identifier.\<close>

definition row_author_or_actor :: "timeline_row \<Rightarrow> string" where
  "row_author_or_actor r = (if row_author r = [] then row_actor r else row_author r)"

definition shred_row :: "string \<Rightarrow> time \<Rightarrow> nat \<Rightarrow> timeline \<Rightarrow> timeline" where
  "shred_row userID t i p =
     (let r = tl_entries p ! i in
      if row_kind r \<noteq> timelineMessagePosted then p
      else if row_author_or_actor r \<noteq> userID then p
      else if rowIndex p (row_event r) \<noteq> Some i then p
      else erase_message (row_event r) t p)"

definition applyUserKeyShredded :: "string \<Rightarrow> time \<Rightarrow> timeline \<Rightarrow> timeline" where
  "applyUserKeyShredded userID t p =
     (if userID = [] then p
      else let p1 = p\<lparr>tl_shreddedUsers := finsert userID (tl_shreddedUsers p)\<rparr>;
               (t', p2) =
                 (if t = zero_time then (t, p1)
                  else let p' = (case fmlookup (tl_shreddedAt p1) userID of
                                   Some existing \<Rightarrow>
                                     if t < existing
                                     then p1\<lparr>tl_shreddedAt := fmupd userID t (tl_shreddedAt p1)\<rparr> else p1
                                 | None \<Rightarrow> p1\<lparr>tl_shreddedAt := fmupd userID t (tl_shreddedAt p1)\<rparr>)
                       in (the (fmlookup (tl_shreddedAt p') userID), p'))
           in fold (shred_row userID t') [0..<length (tl_entries p2)] p2)"

section \<open>Apply\<close>

definition shouldIndexRoomTimelineEvent :: "content_fact \<Rightarrow> bool" where
  "shouldIndexRoomTimelineEvent ev =
     (if posted_of ev \<noteq> None then True else isVisibleRoomTimelineEntry ev)"

definition eventMutatesRoomTimelineProjection :: "content_fact \<Rightarrow> bool" where
  "eventMutatesRoomTimelineProjection ev =
     ((case payload_of ev of
         Some (MessageBody _) \<Rightarrow> True
       | Some (MessageRetracted _ _) \<Rightarrow> True
       | Some (MessagePinned _ _) \<Rightarrow> True
       | Some (MessageUnpinned _ _) \<Rightarrow> True
       | _ \<Rightarrow> False)
      \<or> shouldIndexRoomTimelineEvent ev \<or> isVisibleRoomTimelineEntry ev)"

text \<open>A body: the current content of its message, unless its author or the message is gone.\<close>

definition record_body ::
  "string \<Rightarrow> content_fact \<Rightarrow> string \<Rightarrow> message_body \<Rightarrow> seq \<Rightarrow> timeline \<Rightarrow> timeline" where
  "record_body roomID ev targetID body sq p =
     (let authorID = bd_author_id body in
      if authorID = [] then p
      else if authorID |\<in>| tl_shreddedUsers p
      then erase_message targetID
             (case fmlookup (tl_shreddedAt p) authorID of None \<Rightarrow> zero_time | Some t \<Rightarrow> t) p
      else
        (let bodyEventID = (if bd_event_id body = [] then ev_id ev else bd_event_id body);
             p1 = setCurrentBody targetID bodyEventID authorID (messageBodyAttachmentCount body) sq p
         in if targetID |\<in>| tl_retracted p1
            then removeAttachmentMessage targetID (clearCurrentBody targetID p1)
            else refreshAttachmentMessage roomID targetID p1))"

definition apply_body :: "string \<Rightarrow> content_fact \<Rightarrow> message_body_event \<Rightarrow> seq \<Rightarrow> timeline \<Rightarrow> timeline" where
  "apply_body roomID ev b sq p =
     (let targetID = mbe_event_id b;
          refresh_echoes = (\<lambda>q. fold (refreshAttachmentMessage roomID) (getl (tl_echoLinks q) targetID) q)
      in case mbe_body b of
           Some body \<Rightarrow>
             if targetID = [] then refresh_echoes p
             else if bd_event_id body \<noteq> [] \<and> bd_event_id body \<noteq> ev_id ev then p
             else refresh_echoes (record_body roomID ev targetID body sq p)
         | None \<Rightarrow> refresh_echoes p)"

text \<open>The rows of an event: its entry, its place among the posts and on the visible timeline.\<close>

definition place_post :: "string \<Rightarrow> content_fact \<Rightarrow> message_posted \<Rightarrow> nat \<Rightarrow> timeline \<Rightarrow> timeline" where
  "place_post roomID ev m i p =
     (let p1 = p\<lparr>tl_posts := fmupd roomID (getl (tl_posts p) roomID @ [i]) (tl_posts p)\<rparr> in
      if mp_in_thread m = [] \<and> mp_echo_of m = [] \<and> \<not> mp_historical m \<and> ev_actor ev \<noteq> []
      then p1\<lparr>tl_latestRootPostAt :=
                fmupd (roomID, ev_actor ev) (eventCreatedAt ev) (tl_latestRootPostAt p1)\<rparr>
      else p1)"

definition place_event :: "string \<Rightarrow> content_fact \<Rightarrow> seq \<Rightarrow> timeline \<Rightarrow> timeline" where
  "place_event roomID ev sq p =
     (let (idx, p0) =
            (if shouldIndexRoomTimelineEvent ev
             then (case appendEntry sq ev p of (i, q) \<Rightarrow> (Some i, indexEvent i q))
             else (None, p));
          ensure = (\<lambda>idx q. case idx of Some i \<Rightarrow> (i, q) | None \<Rightarrow> appendEntry sq ev q);
          (idx, p1) =
            (case posted_of ev of
               None \<Rightarrow> (idx, p0)
             | Some m \<Rightarrow> (case ensure idx p0 of (i, q) \<Rightarrow> (Some i, place_post roomID ev m i q)))
      in if isVisibleRoomTimelineEntry ev
         then (case ensure idx p1 of
                 (i, q) \<Rightarrow> q\<lparr>tl_byRoom := fmupd roomID (getl (tl_byRoom q) roomID @ [i]) (tl_byRoom q)\<rparr>)
         else p1)"

definition apply_posted :: "string \<Rightarrow> content_fact \<Rightarrow> message_posted \<Rightarrow> timeline \<Rightarrow> timeline" where
  "apply_posted roomID ev m p =
     (let targetID = ev_id ev;
          authorID = MessageAuthorID ev;
          p1 = (if targetID \<noteq> [] \<and> authorID |\<in>| tl_shreddedUsers p
                then erase_message targetID
                       (case fmlookup (tl_shreddedAt p) authorID of None \<Rightarrow> zero_time | Some t \<Rightarrow> t) p
                else p);
          p2 = (case bodyState p1 targetID of
                  Some s \<Rightarrow> if body_active s then refreshAttachmentMessage roomID targetID p1 else p1
                | None \<Rightarrow> p1);
          origID = mp_echo_of m
      in if origID \<noteq> [] \<and> targetID \<noteq> []
         then refreshAttachmentMessage roomID targetID
                (p2\<lparr>tl_echoLinks := fmupd origID (getl (tl_echoLinks p2) origID @ [targetID]) (tl_echoLinks p2)\<rparr>)
         else p2)"

definition apply_retracted :: "string \<Rightarrow> content_fact \<Rightarrow> string \<Rightarrow> timeline \<Rightarrow> timeline" where
  "apply_retracted roomID ev targetID p =
     (if targetID = [] then p
      else
        (let p1 = setTombstonedAt targetID (eventCreatedAt ev) p;
             origID = echoOriginalID p1 targetID
         in if origID \<noteq> [] \<and> origID |\<notin>| tl_retracted p1
            then (let p2 = clearCurrentBody targetID p1
                  in removeAttachmentMessage targetID
                       (p2\<lparr>tl_hiddenEchoes := finsert targetID (tl_hiddenEchoes p2)\<rparr>))
            else
              (let p2 = clearCurrentBody targetID p1;
                   p3 = removeAttachmentMessage targetID
                          (p2\<lparr>tl_retracted := finsert targetID (tl_retracted p2)\<rparr>)
               in case fmlookup (tl_pins p3) roomID of
                    None \<Rightarrow> p3
                  | Some pins \<Rightarrow> p3\<lparr>tl_pins := fmupd roomID (fmdrop targetID pins) (tl_pins p3)\<rparr>)))"

definition apply_pinned :: "string \<Rightarrow> content_fact \<Rightarrow> string \<Rightarrow> seq \<Rightarrow> timeline \<Rightarrow> timeline" where
  "apply_pinned roomID ev messageID sq p =
     (if messageID = [] then p
      else
        (let latestSeq = (case fmlookup (tl_latestPin p) roomID of None \<Rightarrow> 0 | Some l \<Rightarrow> lp_seq l);
             p1 = (if latestSeq < sq
                   then p\<lparr>tl_latestPin := fmupd roomID \<lparr>lp_event_id = ev_id ev, lp_seq = sq\<rparr> (tl_latestPin p)\<rparr>
                   else p);
             pins = (case fmlookup (tl_pins p1) roomID of None \<Rightarrow> fmempty | Some m \<Rightarrow> m)
         in p1\<lparr>tl_pins :=
                 fmupd roomID
                   (fmupd messageID
                      \<lparr>pin_event_id = ev_id ev, pin_seq = sq, pin_room_id = roomID, pin_message_id = messageID\<rparr>
                      pins)
                   (tl_pins p1)\<rparr>))"

definition apply_unpinned :: "string \<Rightarrow> string \<Rightarrow> timeline \<Rightarrow> timeline" where
  "apply_unpinned roomID messageID p =
     (case fmlookup (tl_pins p) roomID of
        None \<Rightarrow> p
      | Some pins \<Rightarrow> p\<lparr>tl_pins := fmupd roomID (fmdrop messageID pins) (tl_pins p)\<rparr>)"

text \<open>An event that the guard has let through.\<close>

definition timeline_reduce :: "content_fact \<Rightarrow> seq \<Rightarrow> timeline \<Rightarrow> timeline" where
  "timeline_reduce ev sq p =
     (let roomID = roomIDOfEvent ev in
      case payload_of ev of
        Some (MessageBody b) \<Rightarrow> apply_body roomID ev b sq p
      | other \<Rightarrow>
          (let p1 = place_event roomID ev sq p in
           case other of
             Some (MessagePosted m) \<Rightarrow> apply_posted roomID ev m p1
           | Some (MessageRetracted _ targetID) \<Rightarrow> apply_retracted roomID ev targetID p1
           | Some (MessagePinned _ messageID) \<Rightarrow> apply_pinned roomID ev messageID sq p1
           | Some (MessageUnpinned _ messageID) \<Rightarrow> apply_unpinned roomID messageID p1
           | _ \<Rightarrow> p1))"

definition Timeline_Apply :: "timeline \<Rightarrow> content_fact option \<Rightarrow> seq \<Rightarrow> timeline option" where
  "Timeline_Apply p event sq =
     (case event of
        None \<Rightarrow> Some p
      | Some ev \<Rightarrow>
          (case payload_of ev of
             Some (UserKeyShreddingRequested u) \<Rightarrow> Some (applyUserKeyShredded u (eventCreatedAt ev) p)
           | Some (UserKeyShredded u) \<Rightarrow> Some (applyUserKeyShredded u (eventCreatedAt ev) p)
           | _ \<Rightarrow>
               if roomIDOfEvent ev = [] then Some p
               else if \<not> eventMutatesRoomTimelineProjection ev then Some p
               else (case guard_seenOrMark (tl_guard p) ev sq of
                       None \<Rightarrow> None
                     | Some (seen, g) \<Rightarrow>
                         (let p' = p\<lparr>tl_guard := g\<rparr> in
                          Some (if seen then p' else timeline_reduce ev sq p')))))"

definition Timeline_CompleteStartupReplay :: "timeline \<Rightarrow> timeline" where
  "Timeline_CompleteStartupReplay p = p\<lparr>tl_guard := guard_completeReplay (tl_guard p)\<rparr>"

end
