(* ===== verification/Room_Timeline_Reads.thy ===== *)
theory Room_Timeline_Reads
  imports Room_Timeline
begin

text \<open>
  The reads of the room timeline (\<open>room_timeline_projection.go\<close>). An optional predicate of
  the caller decides which entries are visible to it; \<^const>\<open>None\<close> is the nil function. A
  loop over a Go list that runs backwards is a recursion over the reversed list. A missing
  pointer is \<^const>\<open>None\<close>; an index out of range would be a panic where the source
  dereferences the entry, and the rows of a timeline are always in range
  (\<open>timeline_wf\<close> of \<open>Room_Timeline_Invariant\<close>).
\<close>

type_synonym visibility = "(timeline_entry \<Rightarrow> bool) option"

definition passes :: "visibility \<Rightarrow> timeline_entry \<Rightarrow> bool" where
  "passes visible e = (case visible of None \<Rightarrow> True | Some f \<Rightarrow> f e)"

definition isHiddenEchoEntry :: "timeline \<Rightarrow> timeline_entry option \<Rightarrow> bool" where
  "isHiddenEchoEntry p e = (case e of None \<Rightarrow> False | Some t \<Rightarrow> te_event_id t |\<in>| tl_hiddenEchoes p)"

section \<open>Pins\<close>

definition LatestPinEventID :: "timeline \<Rightarrow> string \<Rightarrow> string" where
  "LatestPinEventID p roomID = (case fmlookup (tl_latestPin p) roomID of None \<Rightarrow> [] | Some l \<Rightarrow> lp_event_id l)"

text \<open>Newest first: the comparison of \<open>slices.SortFunc\<close> as a key.\<close>

definition pin_before :: "pinned_message \<Rightarrow> pinned_message \<Rightarrow> bool" where
  "pin_before left right \<longleftrightarrow>
     pin_seq right < pin_seq left \<or> pin_seq right = pin_seq left \<and> pin_event_id right \<le> pin_event_id left"

fun insert_pin :: "pinned_message \<Rightarrow> pinned_message list \<Rightarrow> pinned_message list" where
  "insert_pin x [] = [x]"
| "insert_pin x (y # ys) = (if pin_before x y then x # y # ys else y # insert_pin x ys)"

definition room_pins :: "timeline \<Rightarrow> string \<Rightarrow> (string, pinned_message) fmap" where
  "room_pins p roomID = (case fmlookup (tl_pins p) roomID of None \<Rightarrow> fmempty | Some m \<Rightarrow> m)"

definition PinnedMessagesWithLatest :: "timeline \<Rightarrow> string \<Rightarrow> pinned_message list \<times> string" where
  "PinnedMessagesWithLatest p roomID =
     (let pins = room_pins p roomID;
          out = [the (fmlookup pins m). m \<leftarrow> sortedMapKeys pins, m |\<notin>| tl_retracted p]
      in (foldr insert_pin out [], LatestPinEventID p roomID))"

definition PinnedMessages :: "timeline \<Rightarrow> string \<Rightarrow> pinned_message list" where
  "PinnedMessages p roomID = fst (PinnedMessagesWithLatest p roomID)"

definition PinnedMessage :: "timeline \<Rightarrow> string \<Rightarrow> string \<Rightarrow> pinned_message option" where
  "PinnedMessage p roomID messageID =
     (if messageID |\<in>| tl_retracted p then None else fmlookup (room_pins p roomID) messageID)"

section \<open>Pages of the timeline\<close>

text \<open>
  One loop serves the reads that collect entries until they have enough: \<open>keep\<close> is what the
  loop's \<open>continue\<close> statements let through.
\<close>

fun collect :: "timeline \<Rightarrow> (timeline_entry \<Rightarrow> bool) \<Rightarrow> nat \<Rightarrow> nat list \<Rightarrow> timeline_entry list" where
  "collect p keep n [] = []"
| "collect p keep n (i # is) =
     (if n = 0 then []
      else case entryAt p i of
        None \<Rightarrow> collect p keep n is
      | Some e \<Rightarrow> if keep e then e # collect p keep (n - 1) is else collect p keep n is)"

definition RoomEvents :: "timeline \<Rightarrow> string \<Rightarrow> int \<Rightarrow> seq \<Rightarrow> timeline_entry list" where
  "RoomEvents p roomID limit beforeSeq =
     (if limit \<le> 0 then []
      else collect p (\<lambda>e. \<not> (0 < beforeSeq \<and> beforeSeq \<le> te_seq e)) (nat limit)
             (rev (getl (tl_byRoom p) roomID)))"

definition VisibleRoomTimeline :: "timeline \<Rightarrow> string \<Rightarrow> int \<Rightarrow> seq \<Rightarrow> visibility \<Rightarrow> timeline_entry list" where
  "VisibleRoomTimeline p roomID limit beforeSeq visible =
     (if limit \<le> 0 then []
      else collect p
             (\<lambda>e. \<not> (0 < beforeSeq \<and> beforeSeq \<le> te_seq e) \<and> \<not> isHiddenEchoEntry p (Some e) \<and> passes visible e)
             (nat limit) (rev (getl (tl_byRoom p) roomID)))"

definition VisibleRoomTimelineAfter :: "timeline \<Rightarrow> string \<Rightarrow> int \<Rightarrow> seq \<Rightarrow> visibility \<Rightarrow> timeline_entry list" where
  "VisibleRoomTimelineAfter p roomID limit afterSeq visible =
     (if limit \<le> 0 then []
      else collect p
             (\<lambda>e. \<not> te_seq e \<le> afterSeq \<and> \<not> isHiddenEchoEntry p (Some e) \<and> passes visible e)
             (nat limit) (getl (tl_byRoom p) roomID))"

definition LastVisibleRoomEntry :: "timeline \<Rightarrow> string \<Rightarrow> visibility \<Rightarrow> timeline_entry option" where
  "LastVisibleRoomEntry p roomID visible =
     (case collect p (\<lambda>e. \<not> isHiddenEchoEntry p (Some e) \<and> passes visible e) 1
             (rev (getl (tl_byRoom p) roomID)) of
        [] \<Rightarrow> None
      | e # _ \<Rightarrow> Some e)"

definition LastRoomMessageEntry :: "timeline \<Rightarrow> string \<Rightarrow> timeline_entry option" where
  "LastRoomMessageEntry p roomID =
     (case collect p (\<lambda>e. \<not> isHiddenEchoEntry p (Some e) \<and> \<not> te_historical e) 1
             (rev (getl (tl_posts p) roomID)) of
        [] \<Rightarrow> None
      | e # _ \<Rightarrow> Some e)"

definition VisibleRoomEventCount :: "timeline \<Rightarrow> string \<Rightarrow> nat" where
  "VisibleRoomEventCount p roomID =
     length (filter (\<lambda>i. \<not> isHiddenEchoEntry p (entryAt p i)) (getl (tl_byRoom p) roomID))"

definition timeline_Stats :: "timeline \<Rightarrow> nat \<times> nat \<times> nat" where
  "timeline_Stats p =
     (length (sortedMapKeys (tl_byRoom p)),
      sum_list (map (\<lambda>r. length (getl (tl_byRoom p) r)) (sortedMapKeys (tl_byRoom p))),
      sum_list (map (\<lambda>r. length (getl (tl_posts p) r)) (sortedMapKeys (tl_posts p))))"

subsection \<open>A window around an event\<close>

text \<open>
  Both loops of \<open>VisibleRoomTimelineAround\<close>. The first counts the visible entries and
  remembers the position of the last one with the wanted identifier; an entry that is missing
  counts when no predicate was given.
\<close>

definition around_skips :: "timeline \<Rightarrow> visibility \<Rightarrow> nat \<Rightarrow> bool" where
  "around_skips p visible i =
     (let entry = entryAt p i in
      if isHiddenEchoEntry p entry then True
      else case visible of
        None \<Rightarrow> False
      | Some f \<Rightarrow> (case entry of None \<Rightarrow> True | Some e \<Rightarrow> \<not> f e))"

fun locate :: "timeline \<Rightarrow> visibility \<Rightarrow> string \<Rightarrow> nat list \<Rightarrow> nat option \<Rightarrow> nat \<Rightarrow> nat option \<times> nat" where
  "locate p visible eventID [] target count = (target, count)"
| "locate p visible eventID (i # is) target count =
     (if around_skips p visible i then locate p visible eventID is target count
      else locate p visible eventID is
             (case entryAt p i of
                Some e \<Rightarrow> if te_event_id e = eventID then Some count else target
              | None \<Rightarrow> target)
             (count + 1))"

text \<open>The second loop takes the entries of the window; the appended pointer may be nil.\<close>

fun window :: "timeline \<Rightarrow> visibility \<Rightarrow> nat \<Rightarrow> nat \<Rightarrow> nat list \<Rightarrow> nat \<Rightarrow> timeline_entry option list" where
  "window p visible start stop [] visibleIndex = []"
| "window p visible start stop (i # is) visibleIndex =
     (if around_skips p visible i then window p visible start stop is visibleIndex
      else (if start \<le> visibleIndex \<and> visibleIndex < stop then [entryAt p i] else [])
           @ (if stop \<le> visibleIndex + 1 then []
              else window p visible start stop is (visibleIndex + 1)))"

record timeline_window =
  wd_entries :: "timeline_entry option list"
  wd_target :: nat
  wd_older :: bool
  wd_newer :: bool

definition VisibleRoomTimelineAround ::
  "timeline \<Rightarrow> string \<Rightarrow> string \<Rightarrow> int \<Rightarrow> visibility \<Rightarrow> timeline_window option" where
  "VisibleRoomTimelineAround p roomID eventID limit visible =
     (if limit \<le> 0 \<or> eventID = [] then None
      else
        (let roomEntries = getl (tl_byRoom p) roomID in
         case locate p visible eventID roomEntries None 0 of
           (None, _) \<Rightarrow> None
         | (Some target, count) \<Rightarrow>
             (let start0 = nat (max (int target - (limit - 1) div 2) 0);
                  stop0 = start0 + nat limit;
                  (start, stop) =
                    (if count < stop0 then (nat (max (int count - limit) 0), count) else (start0, stop0))
              in Some \<lparr>wd_entries = window p visible start stop roomEntries 0,
                       wd_target = target - start, wd_older = 0 < start, wd_newer = stop < count\<rparr>)))"

section \<open>Single entries and times\<close>

definition timeline_Get :: "timeline \<Rightarrow> string \<Rightarrow> timeline_entry option" where
  "timeline_Get p eventID = entryByEventID p eventID"

text \<open>The first listed entry that satisfies a test, by its time.\<close>

fun first_time :: "timeline \<Rightarrow> (timeline_entry \<Rightarrow> bool) \<Rightarrow> nat list \<Rightarrow> time" where
  "first_time p test [] = zero_time"
| "first_time p test (i # is) =
     (case entryAt p i of
        None \<Rightarrow> first_time p test is
      | Some e \<Rightarrow> if test e then te_created_at e else first_time p test is)"

definition LastPostedMessageTimes :: "timeline \<Rightarrow> string \<Rightarrow> visibility \<Rightarrow> time \<times> time" where
  "LastPostedMessageTimes p roomID visible =
     (first_time p (\<lambda>e. \<not> te_historical e \<and> passes visible e) (rev (getl (tl_posts p) roomID)),
      first_time p (\<lambda>e. IsMessagePost e \<and> \<not> te_historical e \<and> passes visible e)
        (rev (getl (tl_byRoom p) roomID)))"

definition LatestRootPostAt :: "timeline \<Rightarrow> string \<Rightarrow> string \<Rightarrow> time option" where
  "LatestRootPostAt p roomID actorID =
     (case fmlookup (tl_latestRootPostAt p) (roomID, actorID) of
        None \<Rightarrow> None
      | Some t \<Rightarrow> if t = zero_time then None else Some t)"

definition originalPostAt :: "timeline \<Rightarrow> string \<Rightarrow> string \<Rightarrow> string \<Rightarrow> time option" where
  "originalPostAt p roomID eventID actorID =
     (case rowIndex p eventID of
        None \<Rightarrow> None
      | Some i \<Rightarrow>
          if actorID = [] then None
          else (let r = tl_entries p ! i in
                if row_kind r \<noteq> timelineMessagePosted \<or> row_historical r \<or> row_echoOf r \<noteq> []
                   \<or> row_room r \<noteq> roomID \<or> row_actor r \<noteq> actorID
                then None else Some (projectionTime (row_created r))))"

section \<open>Content\<close>

definition LatestBodyReference :: "timeline \<Rightarrow> string \<Rightarrow> body_reference \<times> bool \<times> bool" where
  "LatestBodyReference p eventID = latestBodyReference p eventID"

definition ContentEventID :: "timeline \<Rightarrow> string \<Rightarrow> string option" where
  "ContentEventID p eventID = map_option te_event_id (contentEntry p eventID)"

definition BodyReferenceCurrent :: "timeline \<Rightarrow> body_reference \<Rightarrow> bool" where
  "BodyReferenceCurrent p reference =
     (case LatestBodyReference p (br_message_id reference) of
        (current, retracted, ok) \<Rightarrow> ok \<and> \<not> retracted \<and> current = reference)"

record attachment_message =
  am_entry :: timeline_entry
  am_message_id :: string
  am_seq :: seq
  am_body_event_id :: string
  am_author_id :: string
  am_count :: nat

definition attachment_message_of :: "timeline \<Rightarrow> string \<Rightarrow> attachment_message option" where
  "attachment_message_of p eventID =
     (case entryByEventID p eventID of
        None \<Rightarrow> None
      | Some e \<Rightarrow>
          if isHiddenEchoEntry p (Some e) then None
          else if eventID |\<in>| tl_retracted p then None
          else if echoOriginalID p eventID \<noteq> [] \<and> echoOriginalID p eventID |\<in>| tl_retracted p then None
          else (case latestBodyReference p eventID of
                  (ref, retracted, _) \<Rightarrow>
                    if retracted \<or> br_seq ref = 0 \<or> br_attachments ref = 0 then None
                    else Some \<lparr>am_entry = e, am_message_id = br_message_id ref, am_seq = br_seq ref,
                               am_body_event_id = br_body_event_id ref, am_author_id = br_author_id ref,
                               am_count = br_attachments ref\<rparr>))"

definition CurrentRoomAttachmentMessages :: "timeline \<Rightarrow> string \<Rightarrow> attachment_message list" where
  "CurrentRoomAttachmentMessages p roomID =
     List.map_filter (attachment_message_of p) (rev (getl (tl_attachments p) roomID))"

section \<open>Body sequences\<close>

definition appendBodySequences :: "seq list \<Rightarrow> seq list \<Rightarrow> seq \<Rightarrow> seq list" where
  "appendBodySequences dst history current = dst @ history @ [current]"

definition BodyEventSeqs :: "timeline \<Rightarrow> string \<Rightarrow> seq list \<times> seq \<times> bool" where
  "BodyEventSeqs p eventID =
     (if eventID = [] then ([], 0, False)
      else if rowIndex p eventID = None then ([], 0, False)
      else case bodyState p eventID of
        None \<Rightarrow> ([], 0, True)
      | Some s \<Rightarrow> (bodyHistory p eventID @ [bs_seq s], bs_seq s, True))"

definition ObsoleteBodyEventSeqs :: "timeline \<Rightarrow> string \<Rightarrow> seq list" where
  "ObsoleteBodyEventSeqs p eventID =
     (if eventID = [] then []
      else case bodyState p eventID of
        None \<Rightarrow> []
      | Some s \<Rightarrow>
          if eventID |\<in>| tl_retracted p then appendBodySequences [] (bodyHistory p eventID) (bs_seq s)
          else if eventID |\<in>| tl_hiddenEchoes p then appendBodySequences [] (bodyHistory p eventID) (bs_seq s)
          else bodyHistory p eventID)"

definition obsolete_of :: "timeline \<Rightarrow> string \<Rightarrow> seq list \<Rightarrow> timeline_body \<Rightarrow> seq list" where
  "obsolete_of p eventID history s =
     (if eventID |\<in>| tl_retracted p then appendBodySequences [] history (bs_seq s)
      else if eventID |\<in>| tl_hiddenEchoes p then appendBodySequences [] history (bs_seq s)
      else history)"

definition AllObsoleteBodyEventSeqs :: "timeline \<Rightarrow> seq list" where
  "AllObsoleteBodyEventSeqs p =
     concat (map (\<lambda>r. case row_body r of
                        None \<Rightarrow> []
                      | Some b \<Rightarrow>
                          (let s = tl_bodies p ! b in
                           if bs_seq s = 0 then []
                           else obsolete_of p (row_event r) (getl (tl_history p) b) s))
                 (tl_entries p))
     @ concat (map (\<lambda>i. obsolete_of p i (getl (tl_orphanHistory p) i) (the (fmlookup (tl_orphans p) i)))
                 (sortedMapKeys (tl_orphans p)))"

section \<open>Echoes and deletions\<close>

definition IsEcho :: "timeline \<Rightarrow> string \<Rightarrow> bool" where
  "IsEcho p eventID = (echoOriginalID p eventID \<noteq> [])"

definition IsHiddenEcho :: "timeline \<Rightarrow> string \<Rightarrow> bool" where
  "IsHiddenEcho p eventID = (eventID |\<in>| tl_hiddenEchoes p)"

definition ChannelEchoEventID :: "timeline \<Rightarrow> string \<Rightarrow> string option" where
  "ChannelEchoEventID p originalID =
     (if originalID = [] then None
      else find (\<lambda>e. e \<noteq> [] \<and> e |\<notin>| tl_hiddenEchoes p \<and> e |\<notin>| tl_retracted p
                     \<and> entryByEventID p e \<noteq> None \<and> echoOriginalID p e = originalID)
             (getl (tl_echoLinks p) originalID))"

definition LinkedChannelEchoEventID :: "timeline \<Rightarrow> string \<Rightarrow> string option" where
  "LinkedChannelEchoEventID p originalID =
     (if originalID = [] then None
      else find (\<lambda>e. e \<noteq> [] \<and> e |\<notin>| tl_hiddenEchoes p
                     \<and> entryByEventID p e \<noteq> None \<and> echoOriginalID p e = originalID)
             (getl (tl_echoLinks p) originalID))"

definition MessageTombstoned :: "timeline \<Rightarrow> string \<Rightarrow> bool" where
  "MessageTombstoned p eventID = (eventID |\<in>| tl_retracted p)"

definition messageTombstonedAt :: "timeline \<Rightarrow> string \<Rightarrow> time option" where
  "messageTombstonedAt p eventID =
     (case fmlookup (tl_tombstonedAt p) eventID of
        Some t \<Rightarrow> Some t
      | None \<Rightarrow>
          if echoOriginalID p eventID \<noteq> [] then fmlookup (tl_tombstonedAt p) (echoOriginalID p eventID)
          else None)"

record hydration_state =
  hy_deleted_at :: "time option"
  hy_channel_echo :: string
  hy_pinned :: bool

definition MessageHydrationState :: "timeline \<Rightarrow> string \<Rightarrow> hydration_state" where
  "MessageHydrationState p eventID =
     (let canonical = (if echoOriginalID p eventID \<noteq> [] then echoOriginalID p eventID else eventID);
          roomID = (case entryByEventID p eventID of None \<Rightarrow> [] | Some e \<Rightarrow> te_room_id e)
      in \<lparr>hy_deleted_at = messageTombstonedAt p eventID,
          hy_channel_echo = (case ChannelEchoEventID p eventID of None \<Rightarrow> [] | Some e \<Rightarrow> e),
          hy_pinned = fmlookup (room_pins p roomID) canonical \<noteq> None\<rparr>)"

definition LinkedEventIDs :: "timeline \<Rightarrow> string \<Rightarrow> string list" where
  "LinkedEventIDs p eventID =
     (if eventID = [] then []
      else filter (\<lambda>e. e \<noteq> eventID) (getl (tl_echoLinks p) eventID)
           @ (case entryByEventID p eventID of
                None \<Rightarrow> []
              | Some e \<Rightarrow>
                  if te_echo_of e \<noteq> [] \<and> te_echo_of e \<noteq> eventID
                  then te_echo_of e
                       # filter (\<lambda>x. x \<noteq> eventID \<and> x \<noteq> te_echo_of e) (getl (tl_echoLinks p) (te_echo_of e))
                  else []))"

end
