(* ===== verification/Content_Contract.thy ===== *)
theory Content_Contract
  imports Projection_Contract
begin

text \<open>
  The contract of the content projections. Unlike the projections of
  \<open>Projection_Contract\<close> they do not put every record through their replay guard: facts they
  do not read are skipped before it, key erasures of the timeline bypass it, and the thread
  projection marks only the facts it used. What they promise is weaker and enough for a log
  without repeated identities: a record the guard has not seen is reduced into the state,
  and the guard is left alone or marks the record.
\<close>

section \<open>Clean logs\<close>

definition log_ids :: "('e event \<times> seq) list \<Rightarrow> string list" where
  "log_ids log = map (\<lambda>r. ev_id (fst r)) log"

lemma log_ids_simps [simp]:
  "log_ids [] = []" "log_ids ((ev, sq) # log) = ev_id ev # log_ids log"
  "log_ids (xs @ ys) = log_ids xs @ log_ids ys"
  by (simp_all add: log_ids_def)

text \<open>The identities are distinct and not empty, and the sequences increase from one.\<close>

definition clean_log :: "('e event \<times> seq) list \<Rightarrow> bool" where
  "clean_log log \<longleftrightarrow> increasing_from 0 log \<and> distinct (log_ids log) \<and> [] \<notin> set (log_ids log)"

lemma increasing_append:
  "increasing_from b (xs @ ys) \<longleftrightarrow> increasing_from b xs \<and> increasing_from (last_seq b xs) ys"
  by (induction b xs rule: increasing_from.induct) auto

lemma last_seq_append: "last_seq b (xs @ ys) = last_seq (last_seq b xs) ys"
  by (induction b xs rule: increasing_from.induct) auto

lemma clean_log_append1: "clean_log (xs @ ys) \<Longrightarrow> clean_log xs"
  by (simp add: clean_log_def increasing_append)

lemma clean_log_snoc:
  "clean_log (xs @ [(ev, sq)]) \<longleftrightarrow>
     clean_log xs \<and> last_seq 0 xs < sq \<and> ev_id ev \<notin> set (log_ids xs) \<and> ev_id ev \<noteq> []"
  by (auto simp: clean_log_def increasing_append)

lemma clean_seq_pos:
  assumes "clean_log log" and "(ev, sq) \<in> set log"
  shows "sq \<noteq> 0"
proof -
  have "0 \<le> b \<Longrightarrow> increasing_from b log \<Longrightarrow> (ev, sq) \<in> set log \<Longrightarrow> 0 < sq" for b log
  proof (induction b log rule: increasing_from.induct)
    case (1 b)
    then show ?case by simp
  next
    case (2 b e s log)
    have "0 < s" using 2(2,3) by (auto intro: le_less_trans)
    then show ?case using 2 by (auto intro: less_imp_le)
  qed
  then show ?thesis using assms by (fastforce simp: clean_log_def)
qed

lemma reduce_log_append: "reduce_log red (xs @ ys) p = reduce_log red ys (reduce_log red xs p)"
  by (simp add: reduce_log_def)

lemma increasing_seq_inj:
  assumes "increasing_from b log" and "(e1, sq) \<in> set log" and "(e2, sq) \<in> set log"
  shows "e1 = e2"
proof -
  have later: "b < s" if "increasing_from b log" "(e, s) \<in> set log" for b e s and log :: "('a event \<times> seq) list"
    using that by (induction b log rule: increasing_from.induct) (auto intro: less_trans)
  from assms show ?thesis
    by (induction b log rule: increasing_from.induct) (auto dest: later)
qed

text \<open>Start-up replay, its completion, and the live records.\<close>

definition replayed ::
  "('p \<Rightarrow> 'e event option \<Rightarrow> seq \<Rightarrow> 'p option) \<Rightarrow> ('p \<Rightarrow> 'p) \<Rightarrow> ('e event \<times> seq) list
     \<Rightarrow> ('e event \<times> seq) list \<Rightarrow> 'p \<Rightarrow> 'p option" where
  "replayed ap complete startup live p =
     (case deliver ap startup p of None \<Rightarrow> None | Some q \<Rightarrow> deliver ap live (complete q))"

section \<open>What the guard knows\<close>

definition guard_within :: "replay_guard \<Rightarrow> seq \<Rightarrow> string set \<Rightarrow> bool" where
  "guard_within g b S \<longleftrightarrow>
     guard_ok g \<and> highestSeq g \<le> b \<and> (\<forall>ids. eventIDs g = Some ids \<longrightarrow> fset ids \<subseteq> S)"

lemma guard_within_new: "guard_within newProjectionReplayGuard 0 {}"
  by (simp add: guard_within_def newProjectionReplayGuard_def newEventIDSet_def guard_ok_def)

lemma guard_within_complete: "guard_within g b S \<Longrightarrow> guard_within (guard_completeReplay g) b S"
  by (auto simp: guard_within_def guard_completeReplay_def guard_ok_def Let_def)

lemma guard_within_mono: "guard_within g b S \<Longrightarrow> b \<le> c \<Longrightarrow> S \<subseteq> T \<Longrightarrow> guard_within g c T"
  by (fastforce simp: guard_within_def)

lemma guard_within_unseen:
  assumes "guard_within g b S" and "b < sq" and "ev_id ev \<notin> S"
  shows "guard_seen g ev sq = (False, g)"
  using assms
  by (auto simp: guard_within_def guard_seen_def eventIDSet_has_def split: option.splits)

lemma guard_within_mark:
  assumes "guard_within g b S" and "b < sq" and "guard_mark g ev sq = Some g'"
  shows "guard_within g' sq (insert (ev_id ev) S)"
  using assms
  by (auto simp: guard_within_def guard_mark_def guard_ok_def Let_def eventIDSet_mark_def
      split: if_splits option.splits)

lemma guard_mark_Some:
  assumes "guard_ok g"
  shows "\<exists>g'. guard_mark g ev sq = Some g'"
  using assms
  by (auto simp: guard_mark_def guard_ok_def Let_def eventIDSet_mark_def split: option.splits)

lemma guard_seenOrMark_unseen:
  assumes "guard_seen g ev sq = (False, g)"
  shows "guard_seenOrMark g ev sq = map_option (Pair False) (guard_mark g ev sq)"
  by (simp add: guard_seenOrMark_def assms)

section \<open>Content projections\<close>

text \<open>The state a log reduces to when a record may panic.\<close>

definition reduce_opt ::
  "('e event \<Rightarrow> seq \<Rightarrow> 'p \<Rightarrow> 'p option) \<Rightarrow> ('e event \<times> seq) list \<Rightarrow> 'p \<Rightarrow> 'p option" where
  "reduce_opt reduce log p = fold_opt (\<lambda>(ev, sq) p. reduce ev sq p) log p"

lemma reduce_opt_simps [simp]:
  "reduce_opt reduce [] p = Some p"
  "reduce_opt reduce ((ev, sq) # log) p =
     (case reduce ev sq p of None \<Rightarrow> None | Some q \<Rightarrow> reduce_opt reduce log q)"
  by (simp_all add: reduce_opt_def split: option.split)

lemma reduce_opt_append:
  "reduce_opt reduce (xs @ ys) p =
     (case reduce_opt reduce xs p of None \<Rightarrow> None | Some q \<Rightarrow> reduce_opt reduce ys q)"
  by (simp add: reduce_opt_def fold_opt_append split: option.split)

lemma reduce_opt_total: "reduce_opt (\<lambda>ev sq p. Some (reduce ev sq p)) log p = Some (reduce_log reduce log p)"
  by (induction log arbitrary: p) (auto simp: reduce_log_def)

locale fallible_content_projection =
  fixes guard :: "'p \<Rightarrow> replay_guard"
    and set_guard :: "replay_guard \<Rightarrow> 'p \<Rightarrow> 'p"
    and reduce :: "'e event \<Rightarrow> seq \<Rightarrow> 'p \<Rightarrow> 'p option"
    and apply_ev :: "'p \<Rightarrow> 'e event option \<Rightarrow> seq \<Rightarrow> 'p option"
    and complete :: "'p \<Rightarrow> 'p"
  assumes guard_set: "guard (set_guard g p) = g"
    and set_guard_twice: "set_guard g (set_guard g' p) = set_guard g p"
    and reduce_set_guard: "reduce ev sq (set_guard g p) = map_option (set_guard g) (reduce ev sq p)"
    and complete_guard: "complete p = set_guard (guard_completeReplay (guard p)) p"
    and set_guard_same: "set_guard (guard p) p = p"
    and apply_fresh: "guard_ok (guard p) \<Longrightarrow> guard_seen (guard p) ev sq = (False, guard p) \<Longrightarrow>
          \<exists>g. apply_ev p (Some ev) sq = map_option (set_guard g) (reduce ev sq p)
              \<and> (g = guard p \<or> guard_mark (guard p) ev sq = Some g)"
begin

lemma reduce_opt_set_guard:
  "reduce_opt reduce log (set_guard g p) = map_option (set_guard g) (reduce_opt reduce log p)"
proof (induction log arbitrary: p)
  case (Cons x log)
  then show ?case by (cases x) (simp add: reduce_set_guard split: option.split)
qed simp

lemma run_fresh:
  assumes "guard_within (guard p) b S" and "increasing_from b log"
    and "distinct (log_ids log)" and "S \<inter> set (log_ids log) = {}"
  shows "deliver apply_ev log p = None \<and> reduce_opt reduce log p = None
    \<or> (\<exists>g. deliver apply_ev log p = map_option (set_guard g) (reduce_opt reduce log p)
           \<and> guard_within g (last_seq b log) (S \<union> set (log_ids log)))"
  using assms
proof (induction log arbitrary: p b S)
  case Nil
  then show ?case by (auto intro!: exI [of _ "guard p"] simp: set_guard_same)
next
  case (Cons x log)
  obtain ev sq where x: "x = (ev, sq)" by force
  have "b < sq" and "increasing_from sq log"
    using Cons.prems(2) by (auto simp: x)
  have unseen: "guard_seen (guard p) ev sq = (False, guard p)"
    using Cons.prems(1,4) \<open>b < sq\<close> by (intro guard_within_unseen [of _ b S]) (auto simp: x)
  have "guard_ok (guard p)"
    using Cons.prems(1) by (simp add: guard_within_def)
  from apply_fresh [OF this unseen] obtain g where
    g: "apply_ev p (Some ev) sq = map_option (set_guard g) (reduce ev sq p)"
       "g = guard p \<or> guard_mark (guard p) ev sq = Some g"
    by blast
  show ?case
  proof (cases "reduce ev sq p")
    case None
    then show ?thesis using g(1) by (simp add: x)
  next
    case (Some q)
    have "guard_within g sq (insert (ev_id ev) S)"
      using g(2) Cons.prems(1) \<open>b < sq\<close>
      by (auto intro: guard_within_mark guard_within_mono)
    then have "guard_within (guard (set_guard g q)) sq (insert (ev_id ev) S)"
      by (simp add: guard_set)
    from Cons.IH [OF this \<open>increasing_from sq log\<close>] show ?thesis
      using Cons.prems g(1)
      by (auto simp: x Some reduce_opt_set_guard set_guard_twice option.map_comp comp_def)
  qed
qed

text \<open>
  A process that replays a clean log from the start, completes its start-up anywhere in it
  and goes on live ends in the state the log reduces to, but for the guard; it panics only
  where the reduction of the log does.
\<close>

lemma run_clean:
  assumes "guard p = newProjectionReplayGuard" and "clean_log (startup @ live)"
  shows "\<exists>g. replayed apply_ev complete startup live p
           = map_option (set_guard g) (reduce_opt reduce (startup @ live) p)"
proof -
  let ?ids = "set (log_ids startup)" and ?b = "last_seq 0 startup"
  have inc: "increasing_from 0 startup" "increasing_from ?b live"
    and ids: "distinct (log_ids startup)" "distinct (log_ids live)"
      "?ids \<inter> set (log_ids live) = {}"
    using assms(2) by (auto simp: clean_log_def increasing_append)
  have "guard_within (guard p) 0 {}"
    by (simp add: assms(1) guard_within_new)
  from run_fresh [OF this inc(1) ids(1)]
  consider "deliver apply_ev startup p = None" "reduce_opt reduce startup p = None"
    | g where "deliver apply_ev startup p = map_option (set_guard g) (reduce_opt reduce startup p)"
        "guard_within g ?b ?ids"
    by auto
  then show ?thesis
  proof cases
    case 1
    then show ?thesis by (simp add: replayed_def reduce_opt_append)
  next
    case (2 g)
    show ?thesis
    proof (cases "reduce_opt reduce startup p")
      case None
      then show ?thesis using 2 by (simp add: replayed_def reduce_opt_append)
    next
      case (Some s)
      let ?q = "complete (set_guard g s)"
      have q: "?q = set_guard (guard_completeReplay g) s"
        by (simp add: complete_guard guard_set set_guard_twice)
      have "guard_within (guard ?q) ?b ?ids"
        using 2(2) by (simp add: q guard_set guard_within_complete)
      from run_fresh [OF this inc(2) ids(2,3)] show ?thesis
        using 2(1) Some
        by (auto simp: replayed_def reduce_opt_append q reduce_opt_set_guard set_guard_twice
            option.map_comp comp_def)
    qed
  qed
qed

end

text \<open>Most projections never panic on a record they have not seen.\<close>

locale content_projection =
  fixes guard :: "'p \<Rightarrow> replay_guard"
    and set_guard :: "replay_guard \<Rightarrow> 'p \<Rightarrow> 'p"
    and reduce :: "'e event \<Rightarrow> seq \<Rightarrow> 'p \<Rightarrow> 'p"
    and apply_ev :: "'p \<Rightarrow> 'e event option \<Rightarrow> seq \<Rightarrow> 'p option"
    and complete :: "'p \<Rightarrow> 'p"
  assumes guard_set: "guard (set_guard g p) = g"
    and set_guard_twice: "set_guard g (set_guard g' p) = set_guard g p"
    and set_guard_same: "set_guard (guard p) p = p"
    and reduce_set_guard: "reduce ev sq (set_guard g p) = set_guard g (reduce ev sq p)"
    and complete_guard: "complete p = set_guard (guard_completeReplay (guard p)) p"
    and apply_fresh: "guard_ok (guard p) \<Longrightarrow> guard_seen (guard p) ev sq = (False, guard p) \<Longrightarrow>
          \<exists>g. apply_ev p (Some ev) sq = Some (set_guard g (reduce ev sq p))
              \<and> (g = guard p \<or> guard_mark (guard p) ev sq = Some g)"

sublocale content_projection \<subseteq>
  fallible: fallible_content_projection guard set_guard "\<lambda>ev sq p. Some (reduce ev sq p)" apply_ev complete
  using apply_fresh
  by unfold_locales (simp_all add: guard_set set_guard_twice set_guard_same reduce_set_guard complete_guard)

context content_projection
begin

lemma run_clean:
  assumes "guard p = newProjectionReplayGuard" and "clean_log (startup @ live)"
  shows "\<exists>g. replayed apply_ev complete startup live p
           = Some (set_guard g (reduce_log reduce (startup @ live) p))"
  using fallible.run_clean [OF assms] by (simp add: reduce_opt_total)

end

text \<open>A projection that puts every record through its guard meets this contract, too.\<close>

context guarded_projection
begin

lemma apply_unseen:
  assumes "guard_ok (guard p)" and "guard_seen (guard p) ev sq = (False, guard p)"
  shows "\<exists>g. apply_ev p (Some ev) sq = Some (set_guard g (reduce ev sq p))
    \<and> (g = guard p \<or> guard_mark (guard p) ev sq = Some g)"
proof -
  obtain g where g: "guard_mark (guard p) ev sq = Some g" using guard_mark_Some [OF assms(1)] by blast
  then have "apply_ev p (Some ev) sq = Some (set_guard g (reduce ev sq p))"
    by (simp add: apply_event guard_seenOrMark_unseen [OF assms(2)] reduce_set_guard)
  with g show ?thesis by blast
qed

end

sublocale guarded_projection \<subseteq> content: content_projection guard set_guard reduce apply_ev complete
  by unfold_locales
    (simp_all add: apply_unseen guard_set set_guard_twice set_guard_same reduce_set_guard complete_guard)

text \<open>Induction over a clean log, record by record.\<close>

lemma clean_log_induct [consumes 1, case_names Nil snoc]:
  assumes "clean_log log"
    and "P []"
    and "\<And>log ev sq. clean_log log \<Longrightarrow> last_seq 0 log < sq \<Longrightarrow> ev_id ev \<notin> set (log_ids log) \<Longrightarrow>
           ev_id ev \<noteq> [] \<Longrightarrow> P log \<Longrightarrow> P (log @ [(ev, sq)])"
  shows "P log"
  using assms(1)
proof (induction log rule: rev_induct)
  case Nil
  show ?case by (rule assms(2))
next
  case (snoc x log)
  obtain ev sq where x: "x = (ev, sq)" by force
  show ?case
    unfolding x using snoc by (intro assms(3)) (auto simp: x clean_log_snoc)
qed

end
