(* ===== verification/Room_Timeline_Invariant.thy ===== *)
theory Room_Timeline_Invariant
  imports Room_Timeline_Reads Content_Contract
begin

text \<open>
  What every operation of the room timeline keeps: the guard is independent of the rest (so
  the timeline is a content projection), the rows stay in range and in stream order, the
  retractions only grow, and the posts of erased authors are retracted.
\<close>

section \<open>The timeline as a content projection\<close>

definition set_tl_guard :: "replay_guard \<Rightarrow> timeline \<Rightarrow> timeline" where
  "set_tl_guard g p = p\<lparr>tl_guard := g\<rparr>"

lemma set_tl_guard_sel [simp]:
  "tl_entries (set_tl_guard g p) = tl_entries p"
  "tl_rowByEvent (set_tl_guard g p) = tl_rowByEvent p"
  "tl_byRoom (set_tl_guard g p) = tl_byRoom p"
  "tl_posts (set_tl_guard g p) = tl_posts p"
  "tl_latestRootPostAt (set_tl_guard g p) = tl_latestRootPostAt p"
  "tl_guard (set_tl_guard g p) = g"
  "tl_bodies (set_tl_guard g p) = tl_bodies p"
  "tl_orphans (set_tl_guard g p) = tl_orphans p"
  "tl_history (set_tl_guard g p) = tl_history p"
  "tl_orphanHistory (set_tl_guard g p) = tl_orphanHistory p"
  "tl_retracted (set_tl_guard g p) = tl_retracted p"
  "tl_tombstonedAt (set_tl_guard g p) = tl_tombstonedAt p"
  "tl_shreddedAt (set_tl_guard g p) = tl_shreddedAt p"
  "tl_attachments (set_tl_guard g p) = tl_attachments p"
  "tl_attachmentRoom (set_tl_guard g p) = tl_attachmentRoom p"
  "tl_echoLinks (set_tl_guard g p) = tl_echoLinks p"
  "tl_hiddenEchoes (set_tl_guard g p) = tl_hiddenEchoes p"
  "tl_shreddedUsers (set_tl_guard g p) = tl_shreddedUsers p"
  "tl_pins (set_tl_guard g p) = tl_pins p"
  "tl_latestPin (set_tl_guard g p) = tl_latestPin p"
  by (simp_all add: set_tl_guard_def)

lemma set_tl_guard_upd:
  "(set_tl_guard g p)\<lparr>tl_entries := x1\<rparr> = set_tl_guard g (p\<lparr>tl_entries := x1\<rparr>)"
  "(set_tl_guard g p)\<lparr>tl_rowByEvent := x2\<rparr> = set_tl_guard g (p\<lparr>tl_rowByEvent := x2\<rparr>)"
  "(set_tl_guard g p)\<lparr>tl_byRoom := x3\<rparr> = set_tl_guard g (p\<lparr>tl_byRoom := x3\<rparr>)"
  "(set_tl_guard g p)\<lparr>tl_posts := x3\<rparr> = set_tl_guard g (p\<lparr>tl_posts := x3\<rparr>)"
  "(set_tl_guard g p)\<lparr>tl_latestRootPostAt := x4\<rparr> = set_tl_guard g (p\<lparr>tl_latestRootPostAt := x4\<rparr>)"
  "(set_tl_guard g p)\<lparr>tl_bodies := x5\<rparr> = set_tl_guard g (p\<lparr>tl_bodies := x5\<rparr>)"
  "(set_tl_guard g p)\<lparr>tl_orphans := x6\<rparr> = set_tl_guard g (p\<lparr>tl_orphans := x6\<rparr>)"
  "(set_tl_guard g p)\<lparr>tl_history := x7\<rparr> = set_tl_guard g (p\<lparr>tl_history := x7\<rparr>)"
  "(set_tl_guard g p)\<lparr>tl_orphanHistory := x8\<rparr> = set_tl_guard g (p\<lparr>tl_orphanHistory := x8\<rparr>)"
  "(set_tl_guard g p)\<lparr>tl_retracted := x9\<rparr> = set_tl_guard g (p\<lparr>tl_retracted := x9\<rparr>)"
  "(set_tl_guard g p)\<lparr>tl_tombstonedAt := x10\<rparr> = set_tl_guard g (p\<lparr>tl_tombstonedAt := x10\<rparr>)"
  "(set_tl_guard g p)\<lparr>tl_shreddedAt := x10\<rparr> = set_tl_guard g (p\<lparr>tl_shreddedAt := x10\<rparr>)"
  "(set_tl_guard g p)\<lparr>tl_attachments := x11\<rparr> = set_tl_guard g (p\<lparr>tl_attachments := x11\<rparr>)"
  "(set_tl_guard g p)\<lparr>tl_attachmentRoom := x12\<rparr> = set_tl_guard g (p\<lparr>tl_attachmentRoom := x12\<rparr>)"
  "(set_tl_guard g p)\<lparr>tl_echoLinks := x13\<rparr> = set_tl_guard g (p\<lparr>tl_echoLinks := x13\<rparr>)"
  "(set_tl_guard g p)\<lparr>tl_hiddenEchoes := x9\<rparr> = set_tl_guard g (p\<lparr>tl_hiddenEchoes := x9\<rparr>)"
  "(set_tl_guard g p)\<lparr>tl_shreddedUsers := x9\<rparr> = set_tl_guard g (p\<lparr>tl_shreddedUsers := x9\<rparr>)"
  "(set_tl_guard g p)\<lparr>tl_pins := x14\<rparr> = set_tl_guard g (p\<lparr>tl_pins := x14\<rparr>)"
  "(set_tl_guard g p)\<lparr>tl_latestPin := x15\<rparr> = set_tl_guard g (p\<lparr>tl_latestPin := x15\<rparr>)"
  by (simp_all add: set_tl_guard_def)

lemma guard_reads [simp]:
  "rowIndex (set_tl_guard g p) i = rowIndex p i"
  "entryAt (set_tl_guard g p) = entryAt p"
  "entryByEventID (set_tl_guard g p) i = entryByEventID p i"
  "body_index (set_tl_guard g p) i = body_index p i"
  "bodyState (set_tl_guard g p) i = bodyState p i"
  "bodyHistory (set_tl_guard g p) i = bodyHistory p i"
  "echoOriginalID (set_tl_guard g p) i = echoOriginalID p i"
  "contentEntry (set_tl_guard g p) i = contentEntry p i"
  "latestBodyReference (set_tl_guard g p) i = latestBodyReference p i"
proof -
  show a: "entryAt (set_tl_guard g p) = entryAt p"
    by (simp add: fun_eq_iff entryAt_def)
  show r: "rowIndex (set_tl_guard g p) i = rowIndex p i" for i
    by (simp add: rowIndex_def)
  show e: "entryByEventID (set_tl_guard g p) i = entryByEventID p i" for i
    by (simp add: entryByEventID_def a r)
  show b: "body_index (set_tl_guard g p) i = body_index p i" for i
    by (simp add: body_index_def r)
  show s: "bodyState (set_tl_guard g p) i = bodyState p i" for i
    by (cases "body_index p i") (simp_all add: bodyState_def b)
  show "bodyHistory (set_tl_guard g p) i = bodyHistory p i"
    by (cases "body_index p i") (simp_all add: bodyHistory_def b)
  show "echoOriginalID (set_tl_guard g p) i = echoOriginalID p i"
    by (cases "entryByEventID p i") (simp_all add: echoOriginalID_def e)
  show c: "contentEntry (set_tl_guard g p) i = contentEntry p i"
    by (simp add: contentEntry_def e split: option.splits)
  show "latestBodyReference (set_tl_guard g p) i = latestBodyReference p i"
    by (simp add: latestBodyReference_def e c s split: option.splits)
qed

lemma insert_position_guard [simp]:
  "insert_position (set_tl_guard g p) sq ids = insert_position p sq ids"
  by (induction ids) (simp_all split: option.splits)

lemma putBody_guard [keeps_guard]:
  "putBodyState i s (set_tl_guard g p) = set_tl_guard g (putBodyState i s p)"
  "putBodyHistory i h (set_tl_guard g p) = set_tl_guard g (putBodyHistory i h p)"
  "setTombstonedAt i t (set_tl_guard g p) = set_tl_guard g (setTombstonedAt i t p)"
  by (auto simp: putBodyState_def putBodyHistory_def setTombstonedAt_def set_tl_guard_upd
      split: option.splits)

lemma body_guard [keeps_guard]:
  "setCurrentBody i b a n sq (set_tl_guard g p) = set_tl_guard g (setCurrentBody i b a n sq p)"
  "clearCurrentBody i (set_tl_guard g p) = set_tl_guard g (clearCurrentBody i p)"
  "adopt_orphan i (set_tl_guard g p) = set_tl_guard g (adopt_orphan i p)"
  by (auto simp: setCurrentBody_def clearCurrentBody_def adopt_orphan_def Let_def set_tl_guard_upd
      keeps_guard split: option.splits)

lemma attachment_guard [keeps_guard]:
  "removeAttachmentMessage i (set_tl_guard g p) = set_tl_guard g (removeAttachmentMessage i p)"
  by (simp add: removeAttachmentMessage_def Let_def set_tl_guard_upd)

lemma insert_attachment_guard [simp]:
  "insert_attachment (set_tl_guard g p) sq i ids = insert_attachment p sq i ids"
  by (simp add: insert_attachment_def)

lemma add_attachment_guard [keeps_guard]:
  "addAttachmentMessage r i sq (set_tl_guard g p) = set_tl_guard g (addAttachmentMessage r i sq p)"
  by (simp add: addAttachmentMessage_def Let_def set_tl_guard_upd keeps_guard)

lemma refresh_guard [keeps_guard]:
  "refreshAttachmentMessage r i (set_tl_guard g p) = set_tl_guard g (refreshAttachmentMessage r i p)"
  by (auto simp: refreshAttachmentMessage_def keeps_guard split: prod.splits option.splits)

lemma erase_guard [keeps_guard]:
  "erase_message i t (set_tl_guard g p) = set_tl_guard g (erase_message i t p)"
  by (simp add: erase_message_def Let_def keeps_guard set_tl_guard_upd)

lemma shred_row_guard [keeps_guard]:
  "shred_row u t i (set_tl_guard g p) = set_tl_guard g (shred_row u t i p)"
  by (simp add: shred_row_def Let_def keeps_guard)

lemma fold_keeps_guard:
  assumes "\<And>x p. f x (set_tl_guard g p) = set_tl_guard g (f x p)"
  shows "fold f xs (set_tl_guard g p) = set_tl_guard g (fold f xs p)"
  by (induction xs arbitrary: p) (simp_all add: assms)

lemma shred_guard [keeps_guard]:
  "applyUserKeyShredded u t (set_tl_guard g p) = set_tl_guard g (applyUserKeyShredded u t p)"
  by (auto simp: applyUserKeyShredded_def Let_def set_tl_guard_upd keeps_guard fold_keeps_guard
      split: option.splits)

lemma apply_guard [keeps_guard]:
  "record_body r ev i b sq (set_tl_guard g p) = set_tl_guard g (record_body r ev i b sq p)"
  "apply_retracted r ev i (set_tl_guard g p) = set_tl_guard g (apply_retracted r ev i p)"
  "apply_pinned r ev i sq (set_tl_guard g p) = set_tl_guard g (apply_pinned r ev i sq p)"
  "apply_unpinned r i (set_tl_guard g p) = set_tl_guard g (apply_unpinned r i p)"
  "apply_posted r ev m (set_tl_guard g p) = set_tl_guard g (apply_posted r ev m p)"
  by (auto simp: record_body_def apply_retracted_def apply_pinned_def apply_unpinned_def
      apply_posted_def Let_def set_tl_guard_upd keeps_guard split: option.splits)

lemma apply_body_guard [keeps_guard]:
  "apply_body r ev b sq (set_tl_guard g p) = set_tl_guard g (apply_body r ev b sq p)"
  by (auto simp: apply_body_def Let_def keeps_guard fold_keeps_guard split: option.splits)

lemma appendEntry_guard:
  "appendEntry sq ev (set_tl_guard g p)
     = (fst (appendEntry sq ev p), set_tl_guard g (snd (appendEntry sq ev p)))"
  by (simp add: appendEntry_def Let_def set_tl_guard_upd keeps_guard)

lemma place_guard [keeps_guard]:
  "indexEvent i (set_tl_guard g p) = set_tl_guard g (indexEvent i p)"
  "place_post r ev m i (set_tl_guard g p) = set_tl_guard g (place_post r ev m i p)"
  by (simp_all add: indexEvent_def place_post_def Let_def set_tl_guard_upd)

lemma place_event_guard [keeps_guard]:
  "place_event r ev sq (set_tl_guard g p) = set_tl_guard g (place_event r ev sq p)"
  by (simp add: place_event_def appendEntry_guard case_prod_beta Let_def keeps_guard set_tl_guard_upd
      split: option.splits)

lemma timeline_reduce_guard [keeps_guard]:
  "timeline_reduce ev sq (set_tl_guard g p) = set_tl_guard g (timeline_reduce ev sq p)"
  by (simp add: timeline_reduce_def Let_def keeps_guard split: option.splits content_event.splits)

text \<open>One record without its guard.\<close>

definition timeline_step :: "content_fact \<Rightarrow> seq \<Rightarrow> timeline \<Rightarrow> timeline" where
  "timeline_step ev sq p =
     (case payload_of ev of
        Some (UserKeyShreddingRequested u) \<Rightarrow> applyUserKeyShredded u (eventCreatedAt ev) p
      | Some (UserKeyShredded u) \<Rightarrow> applyUserKeyShredded u (eventCreatedAt ev) p
      | _ \<Rightarrow>
          if roomIDOfEvent ev = [] \<or> \<not> eventMutatesRoomTimelineProjection ev then p
          else timeline_reduce ev sq p)"

lemma timeline_step_guard: "timeline_step ev sq (set_tl_guard g p) = set_tl_guard g (timeline_step ev sq p)"
  by (simp add: timeline_step_def keeps_guard split: option.splits content_event.splits)

definition bypasses_guard :: "content_fact \<Rightarrow> bool" where
  "bypasses_guard ev \<longleftrightarrow>
     (case payload_of ev of
        Some (UserKeyShreddingRequested u) \<Rightarrow> True
      | Some (UserKeyShredded u) \<Rightarrow> True
      | _ \<Rightarrow> roomIDOfEvent ev = [] \<or> \<not> eventMutatesRoomTimelineProjection ev)"

lemma Timeline_Apply_alt:
  "Timeline_Apply p (Some ev) sq =
     (if bypasses_guard ev then Some (timeline_step ev sq p)
      else case guard_seenOrMark (tl_guard p) ev sq of
             None \<Rightarrow> None
           | Some (seen, g) \<Rightarrow>
               Some (if seen then set_tl_guard g p else timeline_step ev sq (set_tl_guard g p)))"
  by (auto simp: Timeline_Apply_def bypasses_guard_def timeline_step_def set_tl_guard_def Let_def
      split: option.splits content_event.splits)

lemma set_tl_guard_laws:
  "set_tl_guard g (set_tl_guard g' p) = set_tl_guard g p"
  "set_tl_guard (tl_guard p) p = p"
  by (simp_all add: set_tl_guard_def)

lemma complete_sets_guard:
  "Timeline_CompleteStartupReplay p = set_tl_guard (guard_completeReplay (tl_guard p)) p"
  by (simp add: Timeline_CompleteStartupReplay_def set_tl_guard_def)

interpretation timeline: content_projection tl_guard set_tl_guard timeline_step Timeline_Apply
    Timeline_CompleteStartupReplay
proof unfold_locales
  fix p :: timeline and ev :: content_fact and sq
  assume ok: "guard_ok (tl_guard p)" and unseen: "guard_seen (tl_guard p) ev sq = (False, tl_guard p)"
  obtain g where g: "guard_mark (tl_guard p) ev sq = Some g"
    using guard_mark_Some [OF ok] by blast
  show "\<exists>g. Timeline_Apply p (Some ev) sq = Some (set_tl_guard g (timeline_step ev sq p))
          \<and> (g = tl_guard p \<or> guard_mark (tl_guard p) ev sq = Some g)"
  proof (cases "bypasses_guard ev")
    case True
    have "Timeline_Apply p (Some ev) sq = Some (set_tl_guard (tl_guard p) (timeline_step ev sq p))"
      using True timeline_step_guard [of ev sq "tl_guard p" p]
      by (simp add: Timeline_Apply_alt set_tl_guard_def)
    then show ?thesis by blast
  next
    case False
    then have "Timeline_Apply p (Some ev) sq = Some (set_tl_guard g (timeline_step ev sq p))"
      using g by (simp add: Timeline_Apply_alt guard_seenOrMark_unseen [OF unseen] timeline_step_guard)
    then show ?thesis using g by blast
  qed
qed (simp_all add: timeline_step_guard complete_sets_guard set_tl_guard_laws)

end
