(* ===== verification/Room_Timeline_Frame.thy ===== *)
theory Room_Timeline_Frame
  imports Room_Timeline_Invariant
begin

text \<open>
  Which parts of the timeline an operation leaves alone. The rows are only ever extended by
  the placement of an event, so every other operation keeps the reads that depend on the
  rows alone.
\<close>

lemma same_rows:
  assumes "tl_entries q = tl_entries p" and "tl_rowByEvent q = tl_rowByEvent p"
  shows "rowIndex q = rowIndex p" "entryAt q = entryAt p" "entryByEventID q = entryByEventID p"
    "body_index q = body_index p" "echoOriginalID q = echoOriginalID p"
proof -
  show r: "rowIndex q = rowIndex p"
    by (simp add: fun_eq_iff rowIndex_def assms)
  show a: "entryAt q = entryAt p"
    by (simp add: fun_eq_iff entryAt_def assms)
  show e: "entryByEventID q = entryByEventID p"
    by (simp add: fun_eq_iff entryByEventID_def a r)
  show "body_index q = body_index p"
    by (simp add: fun_eq_iff body_index_def r assms)
  show "echoOriginalID q = echoOriginalID p"
    by (simp add: fun_eq_iff echoOriginalID_def e)
qed

lemma same_rows_upd [simp]:
  "rowIndex (p\<lparr>tl_byRoom := x_byRoom\<rparr>) = rowIndex p"
  "rowIndex (p\<lparr>tl_posts := x_posts\<rparr>) = rowIndex p"
  "rowIndex (p\<lparr>tl_latestRootPostAt := x_latestRootPostAt\<rparr>) = rowIndex p"
  "rowIndex (p\<lparr>tl_guard := x_guard\<rparr>) = rowIndex p"
  "rowIndex (p\<lparr>tl_bodies := x_bodies\<rparr>) = rowIndex p"
  "rowIndex (p\<lparr>tl_orphans := x_orphans\<rparr>) = rowIndex p"
  "rowIndex (p\<lparr>tl_history := x_history\<rparr>) = rowIndex p"
  "rowIndex (p\<lparr>tl_orphanHistory := x_orphanHistory\<rparr>) = rowIndex p"
  "rowIndex (p\<lparr>tl_retracted := x_retracted\<rparr>) = rowIndex p"
  "rowIndex (p\<lparr>tl_tombstonedAt := x_tombstonedAt\<rparr>) = rowIndex p"
  "rowIndex (p\<lparr>tl_shreddedAt := x_shreddedAt\<rparr>) = rowIndex p"
  "rowIndex (p\<lparr>tl_attachments := x_attachments\<rparr>) = rowIndex p"
  "rowIndex (p\<lparr>tl_attachmentRoom := x_attachmentRoom\<rparr>) = rowIndex p"
  "rowIndex (p\<lparr>tl_echoLinks := x_echoLinks\<rparr>) = rowIndex p"
  "rowIndex (p\<lparr>tl_hiddenEchoes := x_hiddenEchoes\<rparr>) = rowIndex p"
  "rowIndex (p\<lparr>tl_shreddedUsers := x_shreddedUsers\<rparr>) = rowIndex p"
  "rowIndex (p\<lparr>tl_pins := x_pins\<rparr>) = rowIndex p"
  "rowIndex (p\<lparr>tl_latestPin := x_latestPin\<rparr>) = rowIndex p"
  "entryAt (p\<lparr>tl_byRoom := x_byRoom\<rparr>) = entryAt p"
  "entryAt (p\<lparr>tl_posts := x_posts\<rparr>) = entryAt p"
  "entryAt (p\<lparr>tl_latestRootPostAt := x_latestRootPostAt\<rparr>) = entryAt p"
  "entryAt (p\<lparr>tl_guard := x_guard\<rparr>) = entryAt p"
  "entryAt (p\<lparr>tl_bodies := x_bodies\<rparr>) = entryAt p"
  "entryAt (p\<lparr>tl_orphans := x_orphans\<rparr>) = entryAt p"
  "entryAt (p\<lparr>tl_history := x_history\<rparr>) = entryAt p"
  "entryAt (p\<lparr>tl_orphanHistory := x_orphanHistory\<rparr>) = entryAt p"
  "entryAt (p\<lparr>tl_retracted := x_retracted\<rparr>) = entryAt p"
  "entryAt (p\<lparr>tl_tombstonedAt := x_tombstonedAt\<rparr>) = entryAt p"
  "entryAt (p\<lparr>tl_shreddedAt := x_shreddedAt\<rparr>) = entryAt p"
  "entryAt (p\<lparr>tl_attachments := x_attachments\<rparr>) = entryAt p"
  "entryAt (p\<lparr>tl_attachmentRoom := x_attachmentRoom\<rparr>) = entryAt p"
  "entryAt (p\<lparr>tl_echoLinks := x_echoLinks\<rparr>) = entryAt p"
  "entryAt (p\<lparr>tl_hiddenEchoes := x_hiddenEchoes\<rparr>) = entryAt p"
  "entryAt (p\<lparr>tl_shreddedUsers := x_shreddedUsers\<rparr>) = entryAt p"
  "entryAt (p\<lparr>tl_pins := x_pins\<rparr>) = entryAt p"
  "entryAt (p\<lparr>tl_latestPin := x_latestPin\<rparr>) = entryAt p"
  "entryByEventID (p\<lparr>tl_byRoom := x_byRoom\<rparr>) = entryByEventID p"
  "entryByEventID (p\<lparr>tl_posts := x_posts\<rparr>) = entryByEventID p"
  "entryByEventID (p\<lparr>tl_latestRootPostAt := x_latestRootPostAt\<rparr>) = entryByEventID p"
  "entryByEventID (p\<lparr>tl_guard := x_guard\<rparr>) = entryByEventID p"
  "entryByEventID (p\<lparr>tl_bodies := x_bodies\<rparr>) = entryByEventID p"
  "entryByEventID (p\<lparr>tl_orphans := x_orphans\<rparr>) = entryByEventID p"
  "entryByEventID (p\<lparr>tl_history := x_history\<rparr>) = entryByEventID p"
  "entryByEventID (p\<lparr>tl_orphanHistory := x_orphanHistory\<rparr>) = entryByEventID p"
  "entryByEventID (p\<lparr>tl_retracted := x_retracted\<rparr>) = entryByEventID p"
  "entryByEventID (p\<lparr>tl_tombstonedAt := x_tombstonedAt\<rparr>) = entryByEventID p"
  "entryByEventID (p\<lparr>tl_shreddedAt := x_shreddedAt\<rparr>) = entryByEventID p"
  "entryByEventID (p\<lparr>tl_attachments := x_attachments\<rparr>) = entryByEventID p"
  "entryByEventID (p\<lparr>tl_attachmentRoom := x_attachmentRoom\<rparr>) = entryByEventID p"
  "entryByEventID (p\<lparr>tl_echoLinks := x_echoLinks\<rparr>) = entryByEventID p"
  "entryByEventID (p\<lparr>tl_hiddenEchoes := x_hiddenEchoes\<rparr>) = entryByEventID p"
  "entryByEventID (p\<lparr>tl_shreddedUsers := x_shreddedUsers\<rparr>) = entryByEventID p"
  "entryByEventID (p\<lparr>tl_pins := x_pins\<rparr>) = entryByEventID p"
  "entryByEventID (p\<lparr>tl_latestPin := x_latestPin\<rparr>) = entryByEventID p"
  "body_index (p\<lparr>tl_byRoom := x_byRoom\<rparr>) = body_index p"
  "body_index (p\<lparr>tl_posts := x_posts\<rparr>) = body_index p"
  "body_index (p\<lparr>tl_latestRootPostAt := x_latestRootPostAt\<rparr>) = body_index p"
  "body_index (p\<lparr>tl_guard := x_guard\<rparr>) = body_index p"
  "body_index (p\<lparr>tl_bodies := x_bodies\<rparr>) = body_index p"
  "body_index (p\<lparr>tl_orphans := x_orphans\<rparr>) = body_index p"
  "body_index (p\<lparr>tl_history := x_history\<rparr>) = body_index p"
  "body_index (p\<lparr>tl_orphanHistory := x_orphanHistory\<rparr>) = body_index p"
  "body_index (p\<lparr>tl_retracted := x_retracted\<rparr>) = body_index p"
  "body_index (p\<lparr>tl_tombstonedAt := x_tombstonedAt\<rparr>) = body_index p"
  "body_index (p\<lparr>tl_shreddedAt := x_shreddedAt\<rparr>) = body_index p"
  "body_index (p\<lparr>tl_attachments := x_attachments\<rparr>) = body_index p"
  "body_index (p\<lparr>tl_attachmentRoom := x_attachmentRoom\<rparr>) = body_index p"
  "body_index (p\<lparr>tl_echoLinks := x_echoLinks\<rparr>) = body_index p"
  "body_index (p\<lparr>tl_hiddenEchoes := x_hiddenEchoes\<rparr>) = body_index p"
  "body_index (p\<lparr>tl_shreddedUsers := x_shreddedUsers\<rparr>) = body_index p"
  "body_index (p\<lparr>tl_pins := x_pins\<rparr>) = body_index p"
  "body_index (p\<lparr>tl_latestPin := x_latestPin\<rparr>) = body_index p"
  "echoOriginalID (p\<lparr>tl_byRoom := x_byRoom\<rparr>) = echoOriginalID p"
  "echoOriginalID (p\<lparr>tl_posts := x_posts\<rparr>) = echoOriginalID p"
  "echoOriginalID (p\<lparr>tl_latestRootPostAt := x_latestRootPostAt\<rparr>) = echoOriginalID p"
  "echoOriginalID (p\<lparr>tl_guard := x_guard\<rparr>) = echoOriginalID p"
  "echoOriginalID (p\<lparr>tl_bodies := x_bodies\<rparr>) = echoOriginalID p"
  "echoOriginalID (p\<lparr>tl_orphans := x_orphans\<rparr>) = echoOriginalID p"
  "echoOriginalID (p\<lparr>tl_history := x_history\<rparr>) = echoOriginalID p"
  "echoOriginalID (p\<lparr>tl_orphanHistory := x_orphanHistory\<rparr>) = echoOriginalID p"
  "echoOriginalID (p\<lparr>tl_retracted := x_retracted\<rparr>) = echoOriginalID p"
  "echoOriginalID (p\<lparr>tl_tombstonedAt := x_tombstonedAt\<rparr>) = echoOriginalID p"
  "echoOriginalID (p\<lparr>tl_shreddedAt := x_shreddedAt\<rparr>) = echoOriginalID p"
  "echoOriginalID (p\<lparr>tl_attachments := x_attachments\<rparr>) = echoOriginalID p"
  "echoOriginalID (p\<lparr>tl_attachmentRoom := x_attachmentRoom\<rparr>) = echoOriginalID p"
  "echoOriginalID (p\<lparr>tl_echoLinks := x_echoLinks\<rparr>) = echoOriginalID p"
  "echoOriginalID (p\<lparr>tl_hiddenEchoes := x_hiddenEchoes\<rparr>) = echoOriginalID p"
  "echoOriginalID (p\<lparr>tl_shreddedUsers := x_shreddedUsers\<rparr>) = echoOriginalID p"
  "echoOriginalID (p\<lparr>tl_pins := x_pins\<rparr>) = echoOriginalID p"
  "echoOriginalID (p\<lparr>tl_latestPin := x_latestPin\<rparr>) = echoOriginalID p"
  by (rule same_rows; simp)+

section \<open>Operations\<close>

lemma putBodyState_sel [simp]:
  "tl_entries (putBodyState i s p) = tl_entries p"
  "tl_rowByEvent (putBodyState i s p) = tl_rowByEvent p"
  "tl_byRoom (putBodyState i s p) = tl_byRoom p"
  "tl_posts (putBodyState i s p) = tl_posts p"
  "tl_latestRootPostAt (putBodyState i s p) = tl_latestRootPostAt p"
  "tl_guard (putBodyState i s p) = tl_guard p"
  "tl_history (putBodyState i s p) = tl_history p"
  "tl_orphanHistory (putBodyState i s p) = tl_orphanHistory p"
  "tl_retracted (putBodyState i s p) = tl_retracted p"
  "tl_tombstonedAt (putBodyState i s p) = tl_tombstonedAt p"
  "tl_shreddedAt (putBodyState i s p) = tl_shreddedAt p"
  "tl_attachments (putBodyState i s p) = tl_attachments p"
  "tl_attachmentRoom (putBodyState i s p) = tl_attachmentRoom p"
  "tl_echoLinks (putBodyState i s p) = tl_echoLinks p"
  "tl_hiddenEchoes (putBodyState i s p) = tl_hiddenEchoes p"
  "tl_shreddedUsers (putBodyState i s p) = tl_shreddedUsers p"
  "tl_pins (putBodyState i s p) = tl_pins p"
  "tl_latestPin (putBodyState i s p) = tl_latestPin p"
  by (auto simp: putBodyState_def split: option.splits)

lemma putBodyState_reads [simp]:
  "rowIndex (putBodyState i s p) = rowIndex p"
  "entryAt (putBodyState i s p) = entryAt p"
  "entryByEventID (putBodyState i s p) = entryByEventID p"
  "body_index (putBodyState i s p) = body_index p"
  "echoOriginalID (putBodyState i s p) = echoOriginalID p"
  by (rule same_rows; simp)+

lemma putBodyHistory_sel [simp]:
  "tl_entries (putBodyHistory i h p) = tl_entries p"
  "tl_rowByEvent (putBodyHistory i h p) = tl_rowByEvent p"
  "tl_byRoom (putBodyHistory i h p) = tl_byRoom p"
  "tl_posts (putBodyHistory i h p) = tl_posts p"
  "tl_latestRootPostAt (putBodyHistory i h p) = tl_latestRootPostAt p"
  "tl_guard (putBodyHistory i h p) = tl_guard p"
  "tl_bodies (putBodyHistory i h p) = tl_bodies p"
  "tl_orphans (putBodyHistory i h p) = tl_orphans p"
  "tl_retracted (putBodyHistory i h p) = tl_retracted p"
  "tl_tombstonedAt (putBodyHistory i h p) = tl_tombstonedAt p"
  "tl_shreddedAt (putBodyHistory i h p) = tl_shreddedAt p"
  "tl_attachments (putBodyHistory i h p) = tl_attachments p"
  "tl_attachmentRoom (putBodyHistory i h p) = tl_attachmentRoom p"
  "tl_echoLinks (putBodyHistory i h p) = tl_echoLinks p"
  "tl_hiddenEchoes (putBodyHistory i h p) = tl_hiddenEchoes p"
  "tl_shreddedUsers (putBodyHistory i h p) = tl_shreddedUsers p"
  "tl_pins (putBodyHistory i h p) = tl_pins p"
  "tl_latestPin (putBodyHistory i h p) = tl_latestPin p"
  by (auto simp: putBodyHistory_def split: option.splits)

lemma putBodyHistory_reads [simp]:
  "rowIndex (putBodyHistory i h p) = rowIndex p"
  "entryAt (putBodyHistory i h p) = entryAt p"
  "entryByEventID (putBodyHistory i h p) = entryByEventID p"
  "body_index (putBodyHistory i h p) = body_index p"
  "echoOriginalID (putBodyHistory i h p) = echoOriginalID p"
  by (rule same_rows; simp)+

lemma setTombstonedAt_sel [simp]:
  "tl_entries (setTombstonedAt i t p) = tl_entries p"
  "tl_rowByEvent (setTombstonedAt i t p) = tl_rowByEvent p"
  "tl_byRoom (setTombstonedAt i t p) = tl_byRoom p"
  "tl_posts (setTombstonedAt i t p) = tl_posts p"
  "tl_latestRootPostAt (setTombstonedAt i t p) = tl_latestRootPostAt p"
  "tl_guard (setTombstonedAt i t p) = tl_guard p"
  "tl_bodies (setTombstonedAt i t p) = tl_bodies p"
  "tl_orphans (setTombstonedAt i t p) = tl_orphans p"
  "tl_history (setTombstonedAt i t p) = tl_history p"
  "tl_orphanHistory (setTombstonedAt i t p) = tl_orphanHistory p"
  "tl_retracted (setTombstonedAt i t p) = tl_retracted p"
  "tl_shreddedAt (setTombstonedAt i t p) = tl_shreddedAt p"
  "tl_attachments (setTombstonedAt i t p) = tl_attachments p"
  "tl_attachmentRoom (setTombstonedAt i t p) = tl_attachmentRoom p"
  "tl_echoLinks (setTombstonedAt i t p) = tl_echoLinks p"
  "tl_hiddenEchoes (setTombstonedAt i t p) = tl_hiddenEchoes p"
  "tl_shreddedUsers (setTombstonedAt i t p) = tl_shreddedUsers p"
  "tl_pins (setTombstonedAt i t p) = tl_pins p"
  "tl_latestPin (setTombstonedAt i t p) = tl_latestPin p"
  by (auto simp: setTombstonedAt_def split: option.splits)

lemma setTombstonedAt_reads [simp]:
  "rowIndex (setTombstonedAt i t p) = rowIndex p"
  "entryAt (setTombstonedAt i t p) = entryAt p"
  "entryByEventID (setTombstonedAt i t p) = entryByEventID p"
  "body_index (setTombstonedAt i t p) = body_index p"
  "echoOriginalID (setTombstonedAt i t p) = echoOriginalID p"
  by (rule same_rows; simp)+

lemma clearCurrentBody_sel [simp]:
  "tl_entries (clearCurrentBody i p) = tl_entries p"
  "tl_rowByEvent (clearCurrentBody i p) = tl_rowByEvent p"
  "tl_byRoom (clearCurrentBody i p) = tl_byRoom p"
  "tl_posts (clearCurrentBody i p) = tl_posts p"
  "tl_latestRootPostAt (clearCurrentBody i p) = tl_latestRootPostAt p"
  "tl_guard (clearCurrentBody i p) = tl_guard p"
  "tl_history (clearCurrentBody i p) = tl_history p"
  "tl_orphanHistory (clearCurrentBody i p) = tl_orphanHistory p"
  "tl_retracted (clearCurrentBody i p) = tl_retracted p"
  "tl_tombstonedAt (clearCurrentBody i p) = tl_tombstonedAt p"
  "tl_shreddedAt (clearCurrentBody i p) = tl_shreddedAt p"
  "tl_attachments (clearCurrentBody i p) = tl_attachments p"
  "tl_attachmentRoom (clearCurrentBody i p) = tl_attachmentRoom p"
  "tl_echoLinks (clearCurrentBody i p) = tl_echoLinks p"
  "tl_hiddenEchoes (clearCurrentBody i p) = tl_hiddenEchoes p"
  "tl_shreddedUsers (clearCurrentBody i p) = tl_shreddedUsers p"
  "tl_pins (clearCurrentBody i p) = tl_pins p"
  "tl_latestPin (clearCurrentBody i p) = tl_latestPin p"
  by (auto simp: clearCurrentBody_def split: option.splits)

lemma clearCurrentBody_reads [simp]:
  "rowIndex (clearCurrentBody i p) = rowIndex p"
  "entryAt (clearCurrentBody i p) = entryAt p"
  "entryByEventID (clearCurrentBody i p) = entryByEventID p"
  "body_index (clearCurrentBody i p) = body_index p"
  "echoOriginalID (clearCurrentBody i p) = echoOriginalID p"
  by (rule same_rows; simp)+

lemma setCurrentBody_sel [simp]:
  "tl_entries (setCurrentBody i b a n sq p) = tl_entries p"
  "tl_rowByEvent (setCurrentBody i b a n sq p) = tl_rowByEvent p"
  "tl_byRoom (setCurrentBody i b a n sq p) = tl_byRoom p"
  "tl_posts (setCurrentBody i b a n sq p) = tl_posts p"
  "tl_latestRootPostAt (setCurrentBody i b a n sq p) = tl_latestRootPostAt p"
  "tl_guard (setCurrentBody i b a n sq p) = tl_guard p"
  "tl_retracted (setCurrentBody i b a n sq p) = tl_retracted p"
  "tl_tombstonedAt (setCurrentBody i b a n sq p) = tl_tombstonedAt p"
  "tl_shreddedAt (setCurrentBody i b a n sq p) = tl_shreddedAt p"
  "tl_attachments (setCurrentBody i b a n sq p) = tl_attachments p"
  "tl_attachmentRoom (setCurrentBody i b a n sq p) = tl_attachmentRoom p"
  "tl_echoLinks (setCurrentBody i b a n sq p) = tl_echoLinks p"
  "tl_hiddenEchoes (setCurrentBody i b a n sq p) = tl_hiddenEchoes p"
  "tl_shreddedUsers (setCurrentBody i b a n sq p) = tl_shreddedUsers p"
  "tl_pins (setCurrentBody i b a n sq p) = tl_pins p"
  "tl_latestPin (setCurrentBody i b a n sq p) = tl_latestPin p"
  by (auto simp: setCurrentBody_def split: option.splits)

lemma setCurrentBody_reads [simp]:
  "rowIndex (setCurrentBody i b a n sq p) = rowIndex p"
  "entryAt (setCurrentBody i b a n sq p) = entryAt p"
  "entryByEventID (setCurrentBody i b a n sq p) = entryByEventID p"
  "body_index (setCurrentBody i b a n sq p) = body_index p"
  "echoOriginalID (setCurrentBody i b a n sq p) = echoOriginalID p"
  by (rule same_rows; simp)+

lemma removeAttachmentMessage_sel [simp]:
  "tl_entries (removeAttachmentMessage i p) = tl_entries p"
  "tl_rowByEvent (removeAttachmentMessage i p) = tl_rowByEvent p"
  "tl_byRoom (removeAttachmentMessage i p) = tl_byRoom p"
  "tl_posts (removeAttachmentMessage i p) = tl_posts p"
  "tl_latestRootPostAt (removeAttachmentMessage i p) = tl_latestRootPostAt p"
  "tl_guard (removeAttachmentMessage i p) = tl_guard p"
  "tl_bodies (removeAttachmentMessage i p) = tl_bodies p"
  "tl_orphans (removeAttachmentMessage i p) = tl_orphans p"
  "tl_history (removeAttachmentMessage i p) = tl_history p"
  "tl_orphanHistory (removeAttachmentMessage i p) = tl_orphanHistory p"
  "tl_retracted (removeAttachmentMessage i p) = tl_retracted p"
  "tl_tombstonedAt (removeAttachmentMessage i p) = tl_tombstonedAt p"
  "tl_shreddedAt (removeAttachmentMessage i p) = tl_shreddedAt p"
  "tl_echoLinks (removeAttachmentMessage i p) = tl_echoLinks p"
  "tl_hiddenEchoes (removeAttachmentMessage i p) = tl_hiddenEchoes p"
  "tl_shreddedUsers (removeAttachmentMessage i p) = tl_shreddedUsers p"
  "tl_pins (removeAttachmentMessage i p) = tl_pins p"
  "tl_latestPin (removeAttachmentMessage i p) = tl_latestPin p"
  by (auto simp: removeAttachmentMessage_def Let_def split: option.splits)

lemma removeAttachmentMessage_reads [simp]:
  "rowIndex (removeAttachmentMessage i p) = rowIndex p"
  "entryAt (removeAttachmentMessage i p) = entryAt p"
  "entryByEventID (removeAttachmentMessage i p) = entryByEventID p"
  "body_index (removeAttachmentMessage i p) = body_index p"
  "echoOriginalID (removeAttachmentMessage i p) = echoOriginalID p"
  by (rule same_rows; simp)+

lemma addAttachmentMessage_sel [simp]:
  "tl_entries (addAttachmentMessage r i sq p) = tl_entries p"
  "tl_rowByEvent (addAttachmentMessage r i sq p) = tl_rowByEvent p"
  "tl_byRoom (addAttachmentMessage r i sq p) = tl_byRoom p"
  "tl_posts (addAttachmentMessage r i sq p) = tl_posts p"
  "tl_latestRootPostAt (addAttachmentMessage r i sq p) = tl_latestRootPostAt p"
  "tl_guard (addAttachmentMessage r i sq p) = tl_guard p"
  "tl_bodies (addAttachmentMessage r i sq p) = tl_bodies p"
  "tl_orphans (addAttachmentMessage r i sq p) = tl_orphans p"
  "tl_history (addAttachmentMessage r i sq p) = tl_history p"
  "tl_orphanHistory (addAttachmentMessage r i sq p) = tl_orphanHistory p"
  "tl_retracted (addAttachmentMessage r i sq p) = tl_retracted p"
  "tl_tombstonedAt (addAttachmentMessage r i sq p) = tl_tombstonedAt p"
  "tl_shreddedAt (addAttachmentMessage r i sq p) = tl_shreddedAt p"
  "tl_echoLinks (addAttachmentMessage r i sq p) = tl_echoLinks p"
  "tl_hiddenEchoes (addAttachmentMessage r i sq p) = tl_hiddenEchoes p"
  "tl_shreddedUsers (addAttachmentMessage r i sq p) = tl_shreddedUsers p"
  "tl_pins (addAttachmentMessage r i sq p) = tl_pins p"
  "tl_latestPin (addAttachmentMessage r i sq p) = tl_latestPin p"
  by (auto simp: addAttachmentMessage_def Let_def split: option.splits)

lemma addAttachmentMessage_reads [simp]:
  "rowIndex (addAttachmentMessage r i sq p) = rowIndex p"
  "entryAt (addAttachmentMessage r i sq p) = entryAt p"
  "entryByEventID (addAttachmentMessage r i sq p) = entryByEventID p"
  "body_index (addAttachmentMessage r i sq p) = body_index p"
  "echoOriginalID (addAttachmentMessage r i sq p) = echoOriginalID p"
  by (rule same_rows; simp)+

lemma refreshAttachmentMessage_sel [simp]:
  "tl_entries (refreshAttachmentMessage r i p) = tl_entries p"
  "tl_rowByEvent (refreshAttachmentMessage r i p) = tl_rowByEvent p"
  "tl_byRoom (refreshAttachmentMessage r i p) = tl_byRoom p"
  "tl_posts (refreshAttachmentMessage r i p) = tl_posts p"
  "tl_latestRootPostAt (refreshAttachmentMessage r i p) = tl_latestRootPostAt p"
  "tl_guard (refreshAttachmentMessage r i p) = tl_guard p"
  "tl_bodies (refreshAttachmentMessage r i p) = tl_bodies p"
  "tl_orphans (refreshAttachmentMessage r i p) = tl_orphans p"
  "tl_history (refreshAttachmentMessage r i p) = tl_history p"
  "tl_orphanHistory (refreshAttachmentMessage r i p) = tl_orphanHistory p"
  "tl_retracted (refreshAttachmentMessage r i p) = tl_retracted p"
  "tl_tombstonedAt (refreshAttachmentMessage r i p) = tl_tombstonedAt p"
  "tl_shreddedAt (refreshAttachmentMessage r i p) = tl_shreddedAt p"
  "tl_echoLinks (refreshAttachmentMessage r i p) = tl_echoLinks p"
  "tl_hiddenEchoes (refreshAttachmentMessage r i p) = tl_hiddenEchoes p"
  "tl_shreddedUsers (refreshAttachmentMessage r i p) = tl_shreddedUsers p"
  "tl_pins (refreshAttachmentMessage r i p) = tl_pins p"
  "tl_latestPin (refreshAttachmentMessage r i p) = tl_latestPin p"
  by (auto simp: refreshAttachmentMessage_def case_prod_beta split: option.splits)

lemma refreshAttachmentMessage_reads [simp]:
  "rowIndex (refreshAttachmentMessage r i p) = rowIndex p"
  "entryAt (refreshAttachmentMessage r i p) = entryAt p"
  "entryByEventID (refreshAttachmentMessage r i p) = entryByEventID p"
  "body_index (refreshAttachmentMessage r i p) = body_index p"
  "echoOriginalID (refreshAttachmentMessage r i p) = echoOriginalID p"
  by (rule same_rows; simp)+

lemma erase_message_sel [simp]:
  "tl_entries (erase_message i t p) = tl_entries p"
  "tl_rowByEvent (erase_message i t p) = tl_rowByEvent p"
  "tl_byRoom (erase_message i t p) = tl_byRoom p"
  "tl_posts (erase_message i t p) = tl_posts p"
  "tl_latestRootPostAt (erase_message i t p) = tl_latestRootPostAt p"
  "tl_guard (erase_message i t p) = tl_guard p"
  "tl_history (erase_message i t p) = tl_history p"
  "tl_orphanHistory (erase_message i t p) = tl_orphanHistory p"
  "tl_shreddedAt (erase_message i t p) = tl_shreddedAt p"
  "tl_echoLinks (erase_message i t p) = tl_echoLinks p"
  "tl_hiddenEchoes (erase_message i t p) = tl_hiddenEchoes p"
  "tl_shreddedUsers (erase_message i t p) = tl_shreddedUsers p"
  "tl_pins (erase_message i t p) = tl_pins p"
  "tl_latestPin (erase_message i t p) = tl_latestPin p"
  by (auto simp: erase_message_def Let_def split: option.splits)

lemma erase_message_reads [simp]:
  "rowIndex (erase_message i t p) = rowIndex p"
  "entryAt (erase_message i t p) = entryAt p"
  "entryByEventID (erase_message i t p) = entryByEventID p"
  "body_index (erase_message i t p) = body_index p"
  "echoOriginalID (erase_message i t p) = echoOriginalID p"
  by (rule same_rows; simp)+

lemma shred_row_sel [simp]:
  "tl_entries (shred_row u t k p) = tl_entries p"
  "tl_rowByEvent (shred_row u t k p) = tl_rowByEvent p"
  "tl_byRoom (shred_row u t k p) = tl_byRoom p"
  "tl_posts (shred_row u t k p) = tl_posts p"
  "tl_latestRootPostAt (shred_row u t k p) = tl_latestRootPostAt p"
  "tl_guard (shred_row u t k p) = tl_guard p"
  "tl_history (shred_row u t k p) = tl_history p"
  "tl_orphanHistory (shred_row u t k p) = tl_orphanHistory p"
  "tl_shreddedAt (shred_row u t k p) = tl_shreddedAt p"
  "tl_echoLinks (shred_row u t k p) = tl_echoLinks p"
  "tl_hiddenEchoes (shred_row u t k p) = tl_hiddenEchoes p"
  "tl_shreddedUsers (shred_row u t k p) = tl_shreddedUsers p"
  "tl_pins (shred_row u t k p) = tl_pins p"
  "tl_latestPin (shred_row u t k p) = tl_latestPin p"
  by (auto simp: shred_row_def Let_def split: option.splits)

lemma shred_row_reads [simp]:
  "rowIndex (shred_row u t k p) = rowIndex p"
  "entryAt (shred_row u t k p) = entryAt p"
  "entryByEventID (shred_row u t k p) = entryByEventID p"
  "body_index (shred_row u t k p) = body_index p"
  "echoOriginalID (shred_row u t k p) = echoOriginalID p"
  by (rule same_rows; simp)+

lemma shred_rows_sel [simp]:
  "tl_entries (fold (shred_row u t) ks p) = tl_entries p"
  "tl_rowByEvent (fold (shred_row u t) ks p) = tl_rowByEvent p"
  "tl_byRoom (fold (shred_row u t) ks p) = tl_byRoom p"
  "tl_posts (fold (shred_row u t) ks p) = tl_posts p"
  "tl_latestRootPostAt (fold (shred_row u t) ks p) = tl_latestRootPostAt p"
  "tl_guard (fold (shred_row u t) ks p) = tl_guard p"
  "tl_history (fold (shred_row u t) ks p) = tl_history p"
  "tl_orphanHistory (fold (shred_row u t) ks p) = tl_orphanHistory p"
  "tl_shreddedAt (fold (shred_row u t) ks p) = tl_shreddedAt p"
  "tl_echoLinks (fold (shred_row u t) ks p) = tl_echoLinks p"
  "tl_hiddenEchoes (fold (shred_row u t) ks p) = tl_hiddenEchoes p"
  "tl_shreddedUsers (fold (shred_row u t) ks p) = tl_shreddedUsers p"
  "tl_pins (fold (shred_row u t) ks p) = tl_pins p"
  "tl_latestPin (fold (shred_row u t) ks p) = tl_latestPin p"
  by (induction ks arbitrary: p) simp_all

lemma shred_rows_reads [simp]:
  "rowIndex (fold (shred_row u t) ks p) = rowIndex p"
  "entryAt (fold (shred_row u t) ks p) = entryAt p"
  "entryByEventID (fold (shred_row u t) ks p) = entryByEventID p"
  "body_index (fold (shred_row u t) ks p) = body_index p"
  "echoOriginalID (fold (shred_row u t) ks p) = echoOriginalID p"
  by (rule same_rows; simp)+

lemma refresh_echoes_sel [simp]:
  "tl_entries (fold (refreshAttachmentMessage r) es p) = tl_entries p"
  "tl_rowByEvent (fold (refreshAttachmentMessage r) es p) = tl_rowByEvent p"
  "tl_byRoom (fold (refreshAttachmentMessage r) es p) = tl_byRoom p"
  "tl_posts (fold (refreshAttachmentMessage r) es p) = tl_posts p"
  "tl_latestRootPostAt (fold (refreshAttachmentMessage r) es p) = tl_latestRootPostAt p"
  "tl_guard (fold (refreshAttachmentMessage r) es p) = tl_guard p"
  "tl_bodies (fold (refreshAttachmentMessage r) es p) = tl_bodies p"
  "tl_orphans (fold (refreshAttachmentMessage r) es p) = tl_orphans p"
  "tl_history (fold (refreshAttachmentMessage r) es p) = tl_history p"
  "tl_orphanHistory (fold (refreshAttachmentMessage r) es p) = tl_orphanHistory p"
  "tl_retracted (fold (refreshAttachmentMessage r) es p) = tl_retracted p"
  "tl_tombstonedAt (fold (refreshAttachmentMessage r) es p) = tl_tombstonedAt p"
  "tl_shreddedAt (fold (refreshAttachmentMessage r) es p) = tl_shreddedAt p"
  "tl_echoLinks (fold (refreshAttachmentMessage r) es p) = tl_echoLinks p"
  "tl_hiddenEchoes (fold (refreshAttachmentMessage r) es p) = tl_hiddenEchoes p"
  "tl_shreddedUsers (fold (refreshAttachmentMessage r) es p) = tl_shreddedUsers p"
  "tl_pins (fold (refreshAttachmentMessage r) es p) = tl_pins p"
  "tl_latestPin (fold (refreshAttachmentMessage r) es p) = tl_latestPin p"
  by (induction es arbitrary: p) simp_all

lemma refresh_echoes_reads [simp]:
  "rowIndex (fold (refreshAttachmentMessage r) es p) = rowIndex p"
  "entryAt (fold (refreshAttachmentMessage r) es p) = entryAt p"
  "entryByEventID (fold (refreshAttachmentMessage r) es p) = entryByEventID p"
  "body_index (fold (refreshAttachmentMessage r) es p) = body_index p"
  "echoOriginalID (fold (refreshAttachmentMessage r) es p) = echoOriginalID p"
  by (rule same_rows; simp)+

lemma applyUserKeyShredded_sel [simp]:
  "tl_entries (applyUserKeyShredded u t p) = tl_entries p"
  "tl_rowByEvent (applyUserKeyShredded u t p) = tl_rowByEvent p"
  "tl_byRoom (applyUserKeyShredded u t p) = tl_byRoom p"
  "tl_posts (applyUserKeyShredded u t p) = tl_posts p"
  "tl_latestRootPostAt (applyUserKeyShredded u t p) = tl_latestRootPostAt p"
  "tl_guard (applyUserKeyShredded u t p) = tl_guard p"
  "tl_history (applyUserKeyShredded u t p) = tl_history p"
  "tl_orphanHistory (applyUserKeyShredded u t p) = tl_orphanHistory p"
  "tl_echoLinks (applyUserKeyShredded u t p) = tl_echoLinks p"
  "tl_hiddenEchoes (applyUserKeyShredded u t p) = tl_hiddenEchoes p"
  "tl_pins (applyUserKeyShredded u t p) = tl_pins p"
  "tl_latestPin (applyUserKeyShredded u t p) = tl_latestPin p"
  by (auto simp: applyUserKeyShredded_def Let_def split: option.splits)

lemma applyUserKeyShredded_reads [simp]:
  "rowIndex (applyUserKeyShredded u t p) = rowIndex p"
  "entryAt (applyUserKeyShredded u t p) = entryAt p"
  "entryByEventID (applyUserKeyShredded u t p) = entryByEventID p"
  "body_index (applyUserKeyShredded u t p) = body_index p"
  "echoOriginalID (applyUserKeyShredded u t p) = echoOriginalID p"
  by (rule same_rows; simp)+

lemma record_body_sel [simp]:
  "tl_entries (record_body r ev i bd sq p) = tl_entries p"
  "tl_rowByEvent (record_body r ev i bd sq p) = tl_rowByEvent p"
  "tl_byRoom (record_body r ev i bd sq p) = tl_byRoom p"
  "tl_posts (record_body r ev i bd sq p) = tl_posts p"
  "tl_latestRootPostAt (record_body r ev i bd sq p) = tl_latestRootPostAt p"
  "tl_guard (record_body r ev i bd sq p) = tl_guard p"
  "tl_shreddedAt (record_body r ev i bd sq p) = tl_shreddedAt p"
  "tl_echoLinks (record_body r ev i bd sq p) = tl_echoLinks p"
  "tl_hiddenEchoes (record_body r ev i bd sq p) = tl_hiddenEchoes p"
  "tl_shreddedUsers (record_body r ev i bd sq p) = tl_shreddedUsers p"
  "tl_pins (record_body r ev i bd sq p) = tl_pins p"
  "tl_latestPin (record_body r ev i bd sq p) = tl_latestPin p"
  by (auto simp: record_body_def Let_def split: option.splits)

lemma record_body_reads [simp]:
  "rowIndex (record_body r ev i bd sq p) = rowIndex p"
  "entryAt (record_body r ev i bd sq p) = entryAt p"
  "entryByEventID (record_body r ev i bd sq p) = entryByEventID p"
  "body_index (record_body r ev i bd sq p) = body_index p"
  "echoOriginalID (record_body r ev i bd sq p) = echoOriginalID p"
  by (rule same_rows; simp)+

lemma apply_body_sel [simp]:
  "tl_entries (apply_body r ev b sq p) = tl_entries p"
  "tl_rowByEvent (apply_body r ev b sq p) = tl_rowByEvent p"
  "tl_byRoom (apply_body r ev b sq p) = tl_byRoom p"
  "tl_posts (apply_body r ev b sq p) = tl_posts p"
  "tl_latestRootPostAt (apply_body r ev b sq p) = tl_latestRootPostAt p"
  "tl_guard (apply_body r ev b sq p) = tl_guard p"
  "tl_shreddedAt (apply_body r ev b sq p) = tl_shreddedAt p"
  "tl_echoLinks (apply_body r ev b sq p) = tl_echoLinks p"
  "tl_hiddenEchoes (apply_body r ev b sq p) = tl_hiddenEchoes p"
  "tl_shreddedUsers (apply_body r ev b sq p) = tl_shreddedUsers p"
  "tl_pins (apply_body r ev b sq p) = tl_pins p"
  "tl_latestPin (apply_body r ev b sq p) = tl_latestPin p"
  by (auto simp: apply_body_def Let_def split: option.splits)

lemma apply_body_reads [simp]:
  "rowIndex (apply_body r ev b sq p) = rowIndex p"
  "entryAt (apply_body r ev b sq p) = entryAt p"
  "entryByEventID (apply_body r ev b sq p) = entryByEventID p"
  "body_index (apply_body r ev b sq p) = body_index p"
  "echoOriginalID (apply_body r ev b sq p) = echoOriginalID p"
  by (rule same_rows; simp)+

lemma apply_posted_sel [simp]:
  "tl_entries (apply_posted r ev m p) = tl_entries p"
  "tl_rowByEvent (apply_posted r ev m p) = tl_rowByEvent p"
  "tl_byRoom (apply_posted r ev m p) = tl_byRoom p"
  "tl_posts (apply_posted r ev m p) = tl_posts p"
  "tl_latestRootPostAt (apply_posted r ev m p) = tl_latestRootPostAt p"
  "tl_guard (apply_posted r ev m p) = tl_guard p"
  "tl_history (apply_posted r ev m p) = tl_history p"
  "tl_orphanHistory (apply_posted r ev m p) = tl_orphanHistory p"
  "tl_shreddedAt (apply_posted r ev m p) = tl_shreddedAt p"
  "tl_hiddenEchoes (apply_posted r ev m p) = tl_hiddenEchoes p"
  "tl_shreddedUsers (apply_posted r ev m p) = tl_shreddedUsers p"
  "tl_pins (apply_posted r ev m p) = tl_pins p"
  "tl_latestPin (apply_posted r ev m p) = tl_latestPin p"
  by (auto simp: apply_posted_def Let_def split: option.splits)

lemma apply_posted_reads [simp]:
  "rowIndex (apply_posted r ev m p) = rowIndex p"
  "entryAt (apply_posted r ev m p) = entryAt p"
  "entryByEventID (apply_posted r ev m p) = entryByEventID p"
  "body_index (apply_posted r ev m p) = body_index p"
  "echoOriginalID (apply_posted r ev m p) = echoOriginalID p"
  by (rule same_rows; simp)+

lemma apply_retracted_sel [simp]:
  "tl_entries (apply_retracted r ev i p) = tl_entries p"
  "tl_rowByEvent (apply_retracted r ev i p) = tl_rowByEvent p"
  "tl_byRoom (apply_retracted r ev i p) = tl_byRoom p"
  "tl_posts (apply_retracted r ev i p) = tl_posts p"
  "tl_latestRootPostAt (apply_retracted r ev i p) = tl_latestRootPostAt p"
  "tl_guard (apply_retracted r ev i p) = tl_guard p"
  "tl_history (apply_retracted r ev i p) = tl_history p"
  "tl_orphanHistory (apply_retracted r ev i p) = tl_orphanHistory p"
  "tl_shreddedAt (apply_retracted r ev i p) = tl_shreddedAt p"
  "tl_echoLinks (apply_retracted r ev i p) = tl_echoLinks p"
  "tl_shreddedUsers (apply_retracted r ev i p) = tl_shreddedUsers p"
  "tl_latestPin (apply_retracted r ev i p) = tl_latestPin p"
  by (auto simp: apply_retracted_def Let_def split: option.splits)

lemma apply_retracted_reads [simp]:
  "rowIndex (apply_retracted r ev i p) = rowIndex p"
  "entryAt (apply_retracted r ev i p) = entryAt p"
  "entryByEventID (apply_retracted r ev i p) = entryByEventID p"
  "body_index (apply_retracted r ev i p) = body_index p"
  "echoOriginalID (apply_retracted r ev i p) = echoOriginalID p"
  by (rule same_rows; simp)+

lemma apply_pinned_sel [simp]:
  "tl_entries (apply_pinned r ev i sq p) = tl_entries p"
  "tl_rowByEvent (apply_pinned r ev i sq p) = tl_rowByEvent p"
  "tl_byRoom (apply_pinned r ev i sq p) = tl_byRoom p"
  "tl_posts (apply_pinned r ev i sq p) = tl_posts p"
  "tl_latestRootPostAt (apply_pinned r ev i sq p) = tl_latestRootPostAt p"
  "tl_guard (apply_pinned r ev i sq p) = tl_guard p"
  "tl_bodies (apply_pinned r ev i sq p) = tl_bodies p"
  "tl_orphans (apply_pinned r ev i sq p) = tl_orphans p"
  "tl_history (apply_pinned r ev i sq p) = tl_history p"
  "tl_orphanHistory (apply_pinned r ev i sq p) = tl_orphanHistory p"
  "tl_retracted (apply_pinned r ev i sq p) = tl_retracted p"
  "tl_tombstonedAt (apply_pinned r ev i sq p) = tl_tombstonedAt p"
  "tl_shreddedAt (apply_pinned r ev i sq p) = tl_shreddedAt p"
  "tl_attachments (apply_pinned r ev i sq p) = tl_attachments p"
  "tl_attachmentRoom (apply_pinned r ev i sq p) = tl_attachmentRoom p"
  "tl_echoLinks (apply_pinned r ev i sq p) = tl_echoLinks p"
  "tl_hiddenEchoes (apply_pinned r ev i sq p) = tl_hiddenEchoes p"
  "tl_shreddedUsers (apply_pinned r ev i sq p) = tl_shreddedUsers p"
  by (auto simp: apply_pinned_def Let_def split: option.splits)

lemma apply_pinned_reads [simp]:
  "rowIndex (apply_pinned r ev i sq p) = rowIndex p"
  "entryAt (apply_pinned r ev i sq p) = entryAt p"
  "entryByEventID (apply_pinned r ev i sq p) = entryByEventID p"
  "body_index (apply_pinned r ev i sq p) = body_index p"
  "echoOriginalID (apply_pinned r ev i sq p) = echoOriginalID p"
  by (rule same_rows; simp)+

lemma apply_unpinned_sel [simp]:
  "tl_entries (apply_unpinned r i p) = tl_entries p"
  "tl_rowByEvent (apply_unpinned r i p) = tl_rowByEvent p"
  "tl_byRoom (apply_unpinned r i p) = tl_byRoom p"
  "tl_posts (apply_unpinned r i p) = tl_posts p"
  "tl_latestRootPostAt (apply_unpinned r i p) = tl_latestRootPostAt p"
  "tl_guard (apply_unpinned r i p) = tl_guard p"
  "tl_bodies (apply_unpinned r i p) = tl_bodies p"
  "tl_orphans (apply_unpinned r i p) = tl_orphans p"
  "tl_history (apply_unpinned r i p) = tl_history p"
  "tl_orphanHistory (apply_unpinned r i p) = tl_orphanHistory p"
  "tl_retracted (apply_unpinned r i p) = tl_retracted p"
  "tl_tombstonedAt (apply_unpinned r i p) = tl_tombstonedAt p"
  "tl_shreddedAt (apply_unpinned r i p) = tl_shreddedAt p"
  "tl_attachments (apply_unpinned r i p) = tl_attachments p"
  "tl_attachmentRoom (apply_unpinned r i p) = tl_attachmentRoom p"
  "tl_echoLinks (apply_unpinned r i p) = tl_echoLinks p"
  "tl_hiddenEchoes (apply_unpinned r i p) = tl_hiddenEchoes p"
  "tl_shreddedUsers (apply_unpinned r i p) = tl_shreddedUsers p"
  "tl_latestPin (apply_unpinned r i p) = tl_latestPin p"
  by (auto simp: apply_unpinned_def split: option.splits)

lemma apply_unpinned_reads [simp]:
  "rowIndex (apply_unpinned r i p) = rowIndex p"
  "entryAt (apply_unpinned r i p) = entryAt p"
  "entryByEventID (apply_unpinned r i p) = entryByEventID p"
  "body_index (apply_unpinned r i p) = body_index p"
  "echoOriginalID (apply_unpinned r i p) = echoOriginalID p"
  by (rule same_rows; simp)+

end
