(* ===== verification/Room_Timeline_Rows.thy ===== *)
theory Room_Timeline_Rows
  imports Room_Timeline_Frame
begin

text \<open>
  The rows of the timeline over a log: what the placement of an event adds, that the indexes
  stay in range and in stream order, and what that means for the reads that page over them.
\<close>

section \<open>Placement\<close>

lemma visible_is_indexed: "isVisibleRoomTimelineEntry ev \<Longrightarrow> shouldIndexRoomTimelineEvent ev"
  by (simp add: shouldIndexRoomTimelineEvent_def)

lemma posted_is_indexed: "posted_of ev = Some m \<Longrightarrow> shouldIndexRoomTimelineEvent ev"
  by (simp add: shouldIndexRoomTimelineEvent_def)

lemma not_indexed_not_posted: "\<not> shouldIndexRoomTimelineEvent ev \<Longrightarrow> posted_of ev = None"
  by (simp add: shouldIndexRoomTimelineEvent_def split: if_splits)

lemma adopt_orphan_sel [simp]:
  "tl_entries (adopt_orphan i p) = tl_entries p"
  "tl_rowByEvent (adopt_orphan i p) = tl_rowByEvent p"
  "tl_byRoom (adopt_orphan i p) = tl_byRoom p"
  "tl_posts (adopt_orphan i p) = tl_posts p"
  "tl_latestRootPostAt (adopt_orphan i p) = tl_latestRootPostAt p"
  "tl_guard (adopt_orphan i p) = tl_guard p"
  "tl_retracted (adopt_orphan i p) = tl_retracted p"
  "tl_tombstonedAt (adopt_orphan i p) = tl_tombstonedAt p"
  "tl_shreddedAt (adopt_orphan i p) = tl_shreddedAt p"
  "tl_attachments (adopt_orphan i p) = tl_attachments p"
  "tl_attachmentRoom (adopt_orphan i p) = tl_attachmentRoom p"
  "tl_echoLinks (adopt_orphan i p) = tl_echoLinks p"
  "tl_hiddenEchoes (adopt_orphan i p) = tl_hiddenEchoes p"
  "tl_shreddedUsers (adopt_orphan i p) = tl_shreddedUsers p"
  "tl_pins (adopt_orphan i p) = tl_pins p"
  "tl_latestPin (adopt_orphan i p) = tl_latestPin p"
  by (simp_all add: adopt_orphan_def Let_def)

lemma row_of_event_sel [simp]:
  "row_seq (row_of_event sq ev n) = sq"
  "row_event (row_of_event sq ev n) = ev_id ev"
  "row_room (row_of_event sq ev n) = roomIDOfEvent ev"
  "row_actor (row_of_event sq ev n) = ev_actor ev"
  "row_created (row_of_event sq ev n) = eventCreatedNanos ev"
  "row_kind (row_of_event sq ev n) = timelineKind (EventTypeOf ev)"
  "row_body (row_of_event sq ev n) = (if posted_of ev = None then None else Some n)"
  by (simp_all add: row_of_event_def Let_def split: option.splits)

lemma row_of_posted_sel [simp]:
  assumes "posted_of ev = Some m"
  shows "row_author (row_of_event sq ev n) = mp_author_id m"
    "row_echoOf (row_of_event sq ev n) = mp_echo_of m"
    "row_historical (row_of_event sq ev n) = mp_historical m"
    "row_threadRoot (row_of_event sq ev n) = thread_root_of (ev_id ev) m"
    "row_reply (row_of_event sq ev n) \<longleftrightarrow> mp_in_thread m \<noteq> []"
  by (simp_all add: row_of_event_def Let_def assms)

lemma row_of_other_sel [simp]:
  assumes "posted_of ev = None"
  shows "row_author (row_of_event sq ev n) = []" "row_echoOf (row_of_event sq ev n) = []"
    "row_historical (row_of_event sq ev n) = False" "row_threadRoot (row_of_event sq ev n) = []"
    "row_reply (row_of_event sq ev n) = False"
  by (simp_all add: row_of_event_def Let_def assms)

text \<open>
  A post and only a post has the type of posts, unless an unread event carries its name:
  \<open>OtherEvent\<close> never does, since the name belongs to one payload type.
\<close>

definition honest_type :: "content_fact \<Rightarrow> bool" where
  "honest_type ev = (case payload_of ev of Some (OtherEvent t) \<Rightarrow> timelineKind t = timelineUnknown | _ \<Rightarrow> True)"

lemma type_of_directory_not_posted: "type_of_directory e \<noteq> ''message_posted''"
  by (cases e) simp_all

lemma kind_posted_iff:
  assumes "honest_type ev"
  shows "timelineKind (EventTypeOf ev) = timelineMessagePosted \<longleftrightarrow> posted_of ev \<noteq> None"
proof (cases "payload_of ev")
  case None
  then show ?thesis by (simp add: EventTypeOf_def posted_of_def timelineKind_def)
next
  case (Some e)
  have posted: "timelineKind t = timelineMessagePosted \<longleftrightarrow> t = ''message_posted''" for t
    by (simp add: timelineKind_def)
  show ?thesis
  proof (cases e)
    case (OtherEvent t)
    then show ?thesis using assms by (simp add: Some EventTypeOf_def posted_of_def honest_type_def)
  qed (simp_all add: Some EventTypeOf_def posted_of_def posted type_of_directory_not_posted)
qed

lemma posted_kind:
  "posted_of ev = Some m \<Longrightarrow> timelineKind (EventTypeOf ev) = timelineMessagePosted"
  by (simp add: posted_of_def EventTypeOf_def timelineKind_def
      split: option.splits content_event.splits)

text \<open>Only what is indexed can be a post: an event that is visible has a payload that is read.\<close>

lemma visible_kind_posted:
  assumes "shouldIndexRoomTimelineEvent ev"
  shows "timelineKind (EventTypeOf ev) = timelineMessagePosted \<longleftrightarrow> posted_of ev \<noteq> None"
proof (rule kind_posted_iff)
  show "honest_type ev"
    using assms
    by (auto simp: honest_type_def shouldIndexRoomTimelineEvent_def posted_of_def
        isVisibleRoomTimelineEntry_def split: option.splits content_event.splits if_splits)
qed

lemma place_event_alt:
  "place_event r ev sq p =
     (if \<not> shouldIndexRoomTimelineEvent ev then p
      else
        (let i = length (tl_entries p);
             p1 = indexEvent i (snd (appendEntry sq ev p));
             p2 = (case posted_of ev of None \<Rightarrow> p1 | Some m \<Rightarrow> place_post r ev m i p1)
         in if isVisibleRoomTimelineEntry ev
            then p2\<lparr>tl_byRoom := fmupd r (getl (tl_byRoom p2) r @ [i]) (tl_byRoom p2)\<rparr> else p2))"
  by (auto simp: place_event_def appendEntry_def Let_def shouldIndexRoomTimelineEvent_def
      split: option.splits)

lemma appendEntry_sel [simp]:
  "fst (appendEntry sq ev p) = length (tl_entries p)"
  "tl_entries (snd (appendEntry sq ev p)) = tl_entries p @ [row_of_event sq ev (length (tl_bodies p))]"
  "tl_rowByEvent (snd (appendEntry sq ev p)) = tl_rowByEvent p"
  "tl_byRoom (snd (appendEntry sq ev p)) = tl_byRoom p"
  "tl_posts (snd (appendEntry sq ev p)) = tl_posts p"
  "tl_latestRootPostAt (snd (appendEntry sq ev p)) = tl_latestRootPostAt p"
  "tl_retracted (snd (appendEntry sq ev p)) = tl_retracted p"
  "tl_tombstonedAt (snd (appendEntry sq ev p)) = tl_tombstonedAt p"
  "tl_shreddedAt (snd (appendEntry sq ev p)) = tl_shreddedAt p"
  "tl_attachments (snd (appendEntry sq ev p)) = tl_attachments p"
  "tl_attachmentRoom (snd (appendEntry sq ev p)) = tl_attachmentRoom p"
  "tl_echoLinks (snd (appendEntry sq ev p)) = tl_echoLinks p"
  "tl_hiddenEchoes (snd (appendEntry sq ev p)) = tl_hiddenEchoes p"
  "tl_shreddedUsers (snd (appendEntry sq ev p)) = tl_shreddedUsers p"
  "tl_pins (snd (appendEntry sq ev p)) = tl_pins p"
  "tl_latestPin (snd (appendEntry sq ev p)) = tl_latestPin p"
  by (simp_all add: appendEntry_def Let_def)

lemma place_event_rows [simp]:
  "tl_entries (place_event r ev sq p) =
     (if shouldIndexRoomTimelineEvent ev
      then tl_entries p @ [row_of_event sq ev (length (tl_bodies p))] else tl_entries p)"
  "tl_rowByEvent (place_event r ev sq p) =
     (if shouldIndexRoomTimelineEvent ev \<and> ev_id ev \<noteq> []
      then fmupd (ev_id ev) (length (tl_entries p)) (tl_rowByEvent p) else tl_rowByEvent p)"
  "tl_byRoom (place_event r ev sq p) =
     (if isVisibleRoomTimelineEntry ev
      then fmupd r (getl (tl_byRoom p) r @ [length (tl_entries p)]) (tl_byRoom p) else tl_byRoom p)"
  "tl_posts (place_event r ev sq p) =
     (if posted_of ev \<noteq> None
      then fmupd r (getl (tl_posts p) r @ [length (tl_entries p)]) (tl_posts p) else tl_posts p)"
  by (auto simp: place_event_alt Let_def indexEvent_def place_post_def shouldIndexRoomTimelineEvent_def
      nth_append split: option.splits)

lemma place_event_other [simp]:
  "tl_retracted (place_event r ev sq p) = tl_retracted p"
  "tl_tombstonedAt (place_event r ev sq p) = tl_tombstonedAt p"
  "tl_shreddedAt (place_event r ev sq p) = tl_shreddedAt p"
  "tl_attachments (place_event r ev sq p) = tl_attachments p"
  "tl_attachmentRoom (place_event r ev sq p) = tl_attachmentRoom p"
  "tl_echoLinks (place_event r ev sq p) = tl_echoLinks p"
  "tl_hiddenEchoes (place_event r ev sq p) = tl_hiddenEchoes p"
  "tl_shreddedUsers (place_event r ev sq p) = tl_shreddedUsers p"
  "tl_pins (place_event r ev sq p) = tl_pins p"
  "tl_latestPin (place_event r ev sq p) = tl_latestPin p"
  by (auto simp: place_event_alt Let_def indexEvent_def place_post_def split: option.splits)

section \<open>The step, by kind of event\<close>

text \<open>An event extends the rows by its placement, or leaves them alone.\<close>

definition applies :: "content_fact \<Rightarrow> bool" where
  "applies ev \<longleftrightarrow> roomIDOfEvent ev \<noteq> [] \<and> eventMutatesRoomTimelineProjection ev"

definition erased_user :: "content_fact \<Rightarrow> string option" where
  "erased_user ev =
     (case payload_of ev of
        Some (UserKeyShreddingRequested u) \<Rightarrow> Some u
      | Some (UserKeyShredded u) \<Rightarrow> Some u
      | _ \<Rightarrow> None)"

lemma erased_not_indexed: "erased_user ev = Some u \<Longrightarrow> \<not> shouldIndexRoomTimelineEvent ev"
  by (cases "payload_of ev"; cases "the (payload_of ev)")
    (simp_all add: erased_user_def shouldIndexRoomTimelineEvent_def posted_of_def
      isVisibleRoomTimelineEntry_def)

lemma body_not_indexed: "payload_of ev = Some (MessageBody b) \<Longrightarrow> \<not> shouldIndexRoomTimelineEvent ev"
  by (simp add: shouldIndexRoomTimelineEvent_def posted_of_def isVisibleRoomTimelineEntry_def)

lemma indexed_applies:
  "shouldIndexRoomTimelineEvent ev \<Longrightarrow> roomIDOfEvent ev \<noteq> [] \<Longrightarrow> applies ev"
  by (simp add: applies_def eventMutatesRoomTimelineProjection_def)

lemma timeline_step_erased:
  "erased_user ev = Some u \<Longrightarrow> timeline_step ev sq p = applyUserKeyShredded u (eventCreatedAt ev) p"
  by (cases "payload_of ev"; cases "the (payload_of ev)")
    (simp_all add: erased_user_def timeline_step_def)

lemma timeline_step_other:
  "erased_user ev = None \<Longrightarrow> timeline_step ev sq p = (if applies ev then timeline_reduce ev sq p else p)"
  by (cases "payload_of ev"; cases "the (payload_of ev)")
    (simp_all add: erased_user_def timeline_step_def applies_def)

text \<open>Case analysis on a step: an erasure, nothing, a body, or a placement with its effect.\<close>

definition step_effect :: "content_fact \<Rightarrow> seq \<Rightarrow> timeline \<Rightarrow> timeline" where
  "step_effect ev sq p =
     (let r = roomIDOfEvent ev in
      case payload_of ev of
        Some (MessagePosted m) \<Rightarrow> apply_posted r ev m p
      | Some (MessageRetracted _ targetID) \<Rightarrow> apply_retracted r ev targetID p
      | Some (MessagePinned _ messageID) \<Rightarrow> apply_pinned r ev messageID sq p
      | Some (MessageUnpinned _ messageID) \<Rightarrow> apply_unpinned r messageID p
      | _ \<Rightarrow> p)"

lemma timeline_reduce_body:
  "payload_of ev = Some (MessageBody b) \<Longrightarrow>
     timeline_reduce ev sq p = apply_body (roomIDOfEvent ev) ev b sq p"
  by (simp add: timeline_reduce_def)

lemma timeline_reduce_other:
  "\<forall>b. payload_of ev \<noteq> Some (MessageBody b) \<Longrightarrow>
     timeline_reduce ev sq p = step_effect ev sq (place_event (roomIDOfEvent ev) ev sq p)"
  by (cases "payload_of ev"; cases "the (payload_of ev)")
    (simp_all add: timeline_reduce_def step_effect_def Let_def)

lemma timeline_step_cases [case_names erase skip body event]:
  obtains
    (erase) u where "erased_user ev = Some u"
      "timeline_step ev sq p = applyUserKeyShredded u (eventCreatedAt ev) p"
  | (skip) "erased_user ev = None" "\<not> applies ev" "timeline_step ev sq p = p"
  | (body) b where "payload_of ev = Some (MessageBody b)" "erased_user ev = None" "applies ev"
      "timeline_step ev sq p = apply_body (roomIDOfEvent ev) ev b sq p"
  | (event) "\<forall>b. payload_of ev \<noteq> Some (MessageBody b)" "erased_user ev = None" "applies ev"
      "timeline_step ev sq p = step_effect ev sq (place_event (roomIDOfEvent ev) ev sq p)"
proof (cases "erased_user ev")
  case (Some u)
  then show ?thesis by (rule erase) (rule timeline_step_erased [OF Some])
next
  case None
  note step = timeline_step_other [OF None, of sq p]
  show ?thesis
  proof (cases "applies ev")
    case False
    then show ?thesis using step by (intro skip [OF None]) simp_all
  next
    case True
    show ?thesis
    proof (cases "\<exists>b. payload_of ev = Some (MessageBody b)")
      case True
      then obtain b where b: "payload_of ev = Some (MessageBody b)" by blast
      show ?thesis
        using step \<open>applies ev\<close> None b by (intro body [OF b]) (simp_all add: timeline_reduce_body)
    next
      case False
      then show ?thesis
        using step \<open>applies ev\<close> None by (intro event) (simp_all add: timeline_reduce_other)
    qed
  qed
qed

lemma step_effect_rows [simp]:
  "tl_entries (step_effect ev sq p) = tl_entries p"
  "tl_rowByEvent (step_effect ev sq p) = tl_rowByEvent p"
  "tl_byRoom (step_effect ev sq p) = tl_byRoom p"
  "tl_posts (step_effect ev sq p) = tl_posts p"
  "tl_latestRootPostAt (step_effect ev sq p) = tl_latestRootPostAt p"
  "tl_shreddedUsers (step_effect ev sq p) = tl_shreddedUsers p"
  by (cases "payload_of ev"; cases "the (payload_of ev)"; simp add: step_effect_def Let_def)+

lemma step_effect_reads [simp]:
  "rowIndex (step_effect ev sq p) = rowIndex p"
  "entryAt (step_effect ev sq p) = entryAt p"
  "entryByEventID (step_effect ev sq p) = entryByEventID p"
  "body_index (step_effect ev sq p) = body_index p"
  "echoOriginalID (step_effect ev sq p) = echoOriginalID p"
  by (rule same_rows; simp)+

lemma step_rows:
  "tl_entries (timeline_step ev sq p) =
     (if shouldIndexRoomTimelineEvent ev \<and> roomIDOfEvent ev \<noteq> []
      then tl_entries p @ [row_of_event sq ev (length (tl_bodies p))] else tl_entries p)"
  "tl_rowByEvent (timeline_step ev sq p) =
     (if shouldIndexRoomTimelineEvent ev \<and> roomIDOfEvent ev \<noteq> [] \<and> ev_id ev \<noteq> []
      then fmupd (ev_id ev) (length (tl_entries p)) (tl_rowByEvent p) else tl_rowByEvent p)"
  "tl_byRoom (timeline_step ev sq p) =
     (if isVisibleRoomTimelineEntry ev \<and> roomIDOfEvent ev \<noteq> []
      then fmupd (roomIDOfEvent ev)
             (getl (tl_byRoom p) (roomIDOfEvent ev) @ [length (tl_entries p)]) (tl_byRoom p)
      else tl_byRoom p)"
  "tl_posts (timeline_step ev sq p) =
     (if posted_of ev \<noteq> None \<and> roomIDOfEvent ev \<noteq> []
      then fmupd (roomIDOfEvent ev)
             (getl (tl_posts p) (roomIDOfEvent ev) @ [length (tl_entries p)]) (tl_posts p)
      else tl_posts p)"
  by (rule timeline_step_cases [where ev = ev and sq = sq and p = p];
      auto dest: erased_not_indexed body_not_indexed indexed_applies visible_is_indexed
        posted_is_indexed not_indexed_not_posted simp: applies_def eventMutatesRoomTimelineProjection_def)+

section \<open>The number of bodies\<close>

lemma length_putBodyState [simp]: "length (tl_bodies (putBodyState i s p)) = length (tl_bodies p)"
  by (simp add: putBodyState_def split: option.splits)

lemma length_clear [simp]: "length (tl_bodies (clearCurrentBody i p)) = length (tl_bodies p)"
  by (simp add: clearCurrentBody_def split: option.splits)

lemma length_set [simp]: "length (tl_bodies (setCurrentBody i b a n sq p)) = length (tl_bodies p)"
  by (simp add: setCurrentBody_def split: option.splits)

lemma length_erase [simp]: "length (tl_bodies (erase_message i t p)) = length (tl_bodies p)"
  by (simp add: erase_message_def Let_def)

lemma length_shred_row [simp]: "length (tl_bodies (shred_row u t i p)) = length (tl_bodies p)"
  by (simp add: shred_row_def Let_def)

lemma length_shred_rows [simp]: "length (tl_bodies (fold (shred_row u t) ks p)) = length (tl_bodies p)"
  by (induction ks arbitrary: p) simp_all

lemma length_shredded [simp]: "length (tl_bodies (applyUserKeyShredded u t p)) = length (tl_bodies p)"
  by (auto simp: applyUserKeyShredded_def Let_def split: option.splits)

lemma length_body [simp]: "length (tl_bodies (apply_body r ev b sq p)) = length (tl_bodies p)"
  by (simp add: apply_body_def record_body_def Let_def split: option.splits)

lemma length_step_effect [simp]: "length (tl_bodies (step_effect ev sq p)) = length (tl_bodies p)"
  by (cases "payload_of ev"; cases "the (payload_of ev)")
    (auto simp: step_effect_def apply_posted_def apply_retracted_def apply_pinned_def
      apply_unpinned_def Let_def split: option.splits)

lemma length_place_event [simp]:
  "length (tl_bodies (place_event r ev sq p)) =
     (if posted_of ev \<noteq> None then Suc (length (tl_bodies p)) else length (tl_bodies p))"
  by (auto simp: place_event_alt Let_def indexEvent_def place_post_def appendEntry_def adopt_orphan_def
      shouldIndexRoomTimelineEvent_def split: option.splits)

lemma length_step:
  "length (tl_bodies (timeline_step ev sq p)) =
     (if posted_of ev \<noteq> None \<and> roomIDOfEvent ev \<noteq> [] then Suc (length (tl_bodies p))
      else length (tl_bodies p))"
  by (rule timeline_step_cases [where ev = ev and sq = sq and p = p])
    (auto simp: posted_of_def erased_user_def applies_def eventMutatesRoomTimelineProjection_def
      shouldIndexRoomTimelineEvent_def split: option.splits content_event.splits)

section \<open>Well-formed rows\<close>

text \<open>
  The lookup by identifier points at rows of that identifier; the lists of a room point at
  rows of that room, in order, and the list of posts at posts; rows are in strict stream
  order; and the bodies are numbered by the posts in order.
\<close>

definition rows_ok :: "timeline \<Rightarrow> bool" where
  "rows_ok p \<longleftrightarrow>
     (\<forall>e i. fmlookup (tl_rowByEvent p) e = Some i \<longrightarrow>
        e \<noteq> [] \<and> i < length (tl_entries p) \<and> row_event (tl_entries p ! i) = e)"

definition lists_ok :: "timeline \<Rightarrow> bool" where
  "lists_ok p \<longleftrightarrow>
     (\<forall>r. sorted_wrt (<) (getl (tl_byRoom p) r) \<and> sorted_wrt (<) (getl (tl_posts p) r)
        \<and> (\<forall>i \<in> set (getl (tl_byRoom p) r).
             i < length (tl_entries p) \<and> row_room (tl_entries p ! i) = r)
        \<and> (\<forall>i \<in> set (getl (tl_posts p) r).
             i < length (tl_entries p) \<and> row_room (tl_entries p ! i) = r
             \<and> row_kind (tl_entries p ! i) = timelineMessagePosted))"

definition rows_ordered :: "timeline \<Rightarrow> bool" where
  "rows_ordered p \<longleftrightarrow>
     sorted_wrt (<) (map row_seq (tl_entries p)) \<and> (\<forall>r \<in> set (tl_entries p). row_seq r \<noteq> 0)"

definition bodies_numbered :: "timeline \<Rightarrow> bool" where
  "bodies_numbered p \<longleftrightarrow>
     List.map_filter row_body (tl_entries p) = [0..<length (tl_bodies p)]
     \<and> (\<forall>r \<in> set (tl_entries p). row_kind r = timelineMessagePosted \<longleftrightarrow> row_body r \<noteq> None)"

definition timeline_wf :: "timeline \<Rightarrow> bool" where
  "timeline_wf p \<longleftrightarrow> rows_ok p \<and> lists_ok p \<and> rows_ordered p \<and> bodies_numbered p"

lemma getl_fmupd [simp]: "getl (fmupd k v m) k' = (if k' = k then v else getl m k')"
  by (simp add: getl_def)

lemma getl_empty [simp]: "getl fmempty k = []"
  by (simp add: getl_def)

lemma timeline_wf_new: "timeline_wf NewRoomTimelineProjection"
  by (simp add: timeline_wf_def rows_ok_def lists_ok_def rows_ordered_def bodies_numbered_def
      NewRoomTimelineProjection_def List.map_filter_simps)

lemma rows_ok_step: "rows_ok p \<Longrightarrow> rows_ok (timeline_step ev sq p)"
  by (auto simp: rows_ok_def step_rows nth_append less_Suc_eq split: if_splits)

lemma lists_ok_step: "lists_ok p \<Longrightarrow> lists_ok (timeline_step ev sq p)"
  unfolding lists_ok_def
  by (auto simp: step_rows sorted_wrt_append nth_append less_Suc_eq posted_kind
      dest: visible_is_indexed posted_is_indexed not_indexed_not_posted)

lemma rows_ordered_step:
  assumes "rows_ordered p" and "sq \<noteq> 0" and "\<forall>r \<in> set (tl_entries p). row_seq r < sq"
  shows "rows_ordered (timeline_step ev sq p)"
  using assms
  by (auto simp: rows_ordered_def step_rows sorted_wrt_append split: if_splits)

lemma map_filter_append: "List.map_filter f (xs @ ys) = List.map_filter f xs @ List.map_filter f ys"
  by (induction xs) (simp_all add: List.map_filter_simps split: option.splits)

lemma bodies_numbered_step: "bodies_numbered p \<Longrightarrow> bodies_numbered (timeline_step ev sq p)"
  by (auto simp: bodies_numbered_def step_rows length_step visible_kind_posted map_filter_append
      List.map_filter_simps shouldIndexRoomTimelineEvent_def)

text \<open>Over a clean log; the identifiers and sequences of rows are those of its records.\<close>

definition rows_of_log :: "(content_fact \<times> seq) list \<Rightarrow> timeline \<Rightarrow> bool" where
  "rows_of_log log p \<longleftrightarrow>
     (\<forall>r \<in> set (tl_entries p). row_event r \<in> set (log_ids log) \<and> row_seq r \<le> last_seq 0 log)"

abbreviation timeline_of :: "(content_fact \<times> seq) list \<Rightarrow> timeline" where
  "timeline_of log \<equiv> reduce_log timeline_step log NewRoomTimelineProjection"

lemma timeline_of_snoc: "timeline_of (log @ [(ev, sq)]) = timeline_step ev sq (timeline_of log)"
  by (simp add: reduce_log_append)

lemma rows_of_log_snoc:
  assumes "rows_of_log log p" and "last_seq 0 log < sq"
  shows "rows_of_log (log @ [(ev, sq)]) (timeline_step ev sq p)"
  using assms by (auto simp: rows_of_log_def step_rows last_seq_append)

lemma timeline_of_wf:
  assumes "clean_log log"
  shows "timeline_wf (timeline_of log) \<and> rows_of_log log (timeline_of log)"
  using assms
proof (induction log rule: clean_log_induct)
  case Nil
  then show ?case
    by (simp add: timeline_wf_new rows_of_log_def) (simp add: NewRoomTimelineProjection_def)
next
  case (snoc log ev sq)
  let ?p = "timeline_of log"
  have "sq \<noteq> 0"
    using snoc(2) by auto
  have before: "\<forall>r \<in> set (tl_entries ?p). row_seq r < sq"
    using snoc by (auto simp: rows_of_log_def intro: le_less_trans)
  show ?case
    unfolding timeline_of_snoc
    using snoc before \<open>sq \<noteq> 0\<close>
    by (simp add: timeline_wf_def rows_ok_step lists_ok_step rows_ordered_step bodies_numbered_step
        rows_of_log_snoc)
qed

text \<open>What a service reads after it replayed a clean log and went live.\<close>

lemma replayed_timeline:
  assumes "clean_log (startup @ live)"
    and "replayed Timeline_Apply Timeline_CompleteStartupReplay startup live NewRoomTimelineProjection = Some p"
  obtains g where "p = set_tl_guard g (timeline_of (startup @ live))"
  using timeline.run_clean [OF _ assms(1), of NewRoomTimelineProjection] assms(2)
  by (auto simp: NewRoomTimelineProjection_def)

lemma timeline_wf_guard [simp]: "timeline_wf (set_tl_guard g p) = timeline_wf p"
  by (simp add: timeline_wf_def rows_ok_def lists_ok_def rows_ordered_def bodies_numbered_def)

end
