(* ===== verification/Room_Timeline_Properties.thy ===== *)
theory Room_Timeline_Properties
  imports Room_Timeline_Rows
begin

text \<open>
  What the room timeline promises its readers: content that was deleted or whose author was
  erased stays unreadable, pages and windows are exact, the slow-mode clock is that of the
  last root post, and pins are those of the log.
\<close>

section \<open>Retractions and erasures only grow\<close>

lemma retracted_shred_row: "tl_retracted p |\<subseteq>| tl_retracted (shred_row u t k p)"
  by (auto simp: shred_row_def Let_def erase_message_def)

lemma retracted_shred_rows: "tl_retracted p |\<subseteq>| tl_retracted (fold (shred_row u t) ks p)"
proof (induction ks arbitrary: p)
  case (Cons k ks)
  then show ?case using retracted_shred_row [of p u t k] by fastforce
qed simp

lemma erase_retracts [simp]: "tl_retracted (erase_message i t p) = finsert i (tl_retracted p)"
  by (simp add: erase_message_def Let_def)

definition posts_of :: "string \<Rightarrow> timeline \<Rightarrow> nat \<Rightarrow> bool" where
  "posts_of u p i \<longleftrightarrow>
     row_kind (tl_entries p ! i) = timelineMessagePosted
     \<and> row_author_or_actor (tl_entries p ! i) = u
     \<and> rowIndex p (row_event (tl_entries p ! i)) = Some i"

lemma posts_of_shred_row [simp]: "posts_of u (shred_row v t k p) = posts_of u p"
  by (simp add: fun_eq_iff posts_of_def)

lemma shred_rows_complete:
  assumes "i \<in> set ks" and "posts_of u p i"
  shows "row_event (tl_entries p ! i) |\<in>| tl_retracted (fold (shred_row u t) ks p)"
  using assms
proof (induction ks arbitrary: p)
  case Nil
  then show ?case by simp
next
  case (Cons k ks)
  show ?case
  proof (cases "i = k")
    case True
    then have "row_event (tl_entries p ! i) |\<in>| tl_retracted (shred_row u t k p)"
      using Cons.prems(2) by (simp add: shred_row_def posts_of_def Let_def)
    then show ?thesis
      using retracted_shred_rows [of "shred_row u t k p" u t ks] by auto
  next
    case False
    then show ?thesis using Cons.IH [of "shred_row u t k p"] Cons.prems by simp
  qed
qed

lemma applyUserKeyShredded_fold:
  assumes "u \<noteq> []"
  obtains t' q where "applyUserKeyShredded u t p = fold (shred_row u t') [0..<length (tl_entries p)] q"
    "tl_entries q = tl_entries p" "tl_rowByEvent q = tl_rowByEvent p" "tl_retracted q = tl_retracted p"
    "tl_shreddedUsers q = finsert u (tl_shreddedUsers p)" "tl_tombstonedAt q = tl_tombstonedAt p"
    "tl_bodies q = tl_bodies p" "tl_orphans q = tl_orphans p" "tl_attachments q = tl_attachments p"
    "tl_attachmentRoom q = tl_attachmentRoom p" "tl_history q = tl_history p"
    "tl_orphanHistory q = tl_orphanHistory p" "tl_hiddenEchoes q = tl_hiddenEchoes p"
    "tl_echoLinks q = tl_echoLinks p"
proof (cases "t = zero_time")
  case True
  then show ?thesis
    using assms
    by (intro that [of t "p\<lparr>tl_shreddedUsers := finsert u (tl_shreddedUsers p)\<rparr>"])
      (simp_all add: applyUserKeyShredded_def Let_def)
next
  case False
  let ?p1 = "p\<lparr>tl_shreddedUsers := finsert u (tl_shreddedUsers p)\<rparr>"
  let ?q = "case fmlookup (tl_shreddedAt ?p1) u of
      Some existing \<Rightarrow>
        if t < existing then ?p1\<lparr>tl_shreddedAt := fmupd u t (tl_shreddedAt ?p1)\<rparr> else ?p1
    | None \<Rightarrow> ?p1\<lparr>tl_shreddedAt := fmupd u t (tl_shreddedAt ?p1)\<rparr>"
  have "tl_entries ?q = tl_entries p"
    by (simp split: option.splits)
  then show ?thesis
    using assms False
    by (intro that [of "the (fmlookup (tl_shreddedAt ?q) u)" ?q])
      (simp_all add: applyUserKeyShredded_def Let_def split: option.splits)
qed

lemma retracted_shredded: "tl_retracted p |\<subseteq>| tl_retracted (applyUserKeyShredded u t p)"
proof (cases "u = []")
  case True
  then show ?thesis by (simp add: applyUserKeyShredded_def)
next
  case False
  obtain t' q where "applyUserKeyShredded u t p = fold (shred_row u t') [0..<length (tl_entries p)] q"
    and "tl_retracted q = tl_retracted p"
    by (rule applyUserKeyShredded_fold [OF False])
  then show ?thesis
    using retracted_shred_rows [of q u t' "[0..<length (tl_entries p)]"] by simp
qed

lemma shredded_users:
  "tl_shreddedUsers (applyUserKeyShredded u t p)
     = (if u = [] then tl_shreddedUsers p else finsert u (tl_shreddedUsers p))"
proof (cases "u = []")
  case True
  then show ?thesis by (simp add: applyUserKeyShredded_def)
next
  case False
  obtain t' q where "applyUserKeyShredded u t p = fold (shred_row u t') [0..<length (tl_entries p)] q"
    and "tl_shreddedUsers q = finsert u (tl_shreddedUsers p)"
    by (rule applyUserKeyShredded_fold [OF False])
  then show ?thesis using False by simp
qed

lemma retracted_body: "tl_retracted p |\<subseteq>| tl_retracted (apply_body r ev b sq p)"
  by (auto simp: apply_body_def record_body_def Let_def split: option.splits)

lemma retracted_effect: "tl_retracted p |\<subseteq>| tl_retracted (step_effect ev sq p)"
  by (cases "payload_of ev"; cases "the (payload_of ev)")
    (auto simp: step_effect_def apply_posted_def apply_retracted_def Let_def split: option.splits)

lemma retracted_step: "tl_retracted p |\<subseteq>| tl_retracted (timeline_step ev sq p)"
  by (rule timeline_step_cases [where ev = ev and sq = sq and p = p])
    (auto intro: fsubsetD [OF retracted_shredded] fsubsetD [OF retracted_body]
      fsubsetD [OF retracted_effect])

lemma shreddedUsers_step:
  "tl_shreddedUsers (timeline_step ev sq p) =
     (case erased_user ev of
        None \<Rightarrow> tl_shreddedUsers p
      | Some u \<Rightarrow> if u = [] then tl_shreddedUsers p else finsert u (tl_shreddedUsers p))"
  by (rule timeline_step_cases [where ev = ev and sq = sq and p = p]) (simp_all add: shredded_users)

section \<open>Posts of erased authors are retracted\<close>

definition erased_ok :: "timeline \<Rightarrow> bool" where
  "erased_ok p \<longleftrightarrow>
     (\<forall>e i. rowIndex p e = Some i \<longrightarrow> row_kind (tl_entries p ! i) = timelineMessagePosted \<longrightarrow>
        row_author_or_actor (tl_entries p ! i) |\<in>| tl_shreddedUsers p \<longrightarrow> e |\<in>| tl_retracted p)"

lemma rows_ok_D:
  assumes "rows_ok p" and "rowIndex p e = Some i"
  shows "i < length (tl_entries p)" "row_event (tl_entries p ! i) = e" "e \<noteq> []"
  using assms by (auto simp: rows_ok_def rowIndex_def split: if_splits)

lemma erased_ok_shredded:
  assumes "rows_ok p" and "erased_ok p"
  shows "erased_ok (applyUserKeyShredded u t p)"
proof (cases "u = []")
  case True
  then show ?thesis using assms(2) by (simp add: applyUserKeyShredded_def)
next
  case False
  obtain t' q where q: "applyUserKeyShredded u t p = fold (shred_row u t') [0..<length (tl_entries p)] q"
    "tl_entries q = tl_entries p" "tl_rowByEvent q = tl_rowByEvent p"
    by (rule applyUserKeyShredded_fold [OF False])
  have idx: "rowIndex q = rowIndex p"
    by (rule same_rows(1) [OF q(2,3)])
  have "e |\<in>| tl_retracted (applyUserKeyShredded u t p)"
    if "rowIndex p e = Some i" "row_kind (tl_entries p ! i) = timelineMessagePosted"
      "row_author_or_actor (tl_entries p ! i) |\<in>| finsert u (tl_shreddedUsers p)" for e i
  proof (cases "row_author_or_actor (tl_entries p ! i) = u")
    case True
    then have "posts_of u q i"
      using that rows_ok_D [OF assms(1) that(1)] by (simp add: posts_of_def q(2) idx)
    then show ?thesis
      using shred_rows_complete [of i "[0..<length (tl_entries p)]" u q t']
        rows_ok_D [OF assms(1) that(1)] by (simp add: q(1,2))
  next
    case other: False
    then have "e |\<in>| tl_retracted p"
      using that assms(2) by (auto simp: erased_ok_def)
    then show ?thesis using retracted_shredded [of p u t] by auto
  qed
  then show ?thesis
    by (simp add: erased_ok_def shredded_users False)
qed

lemma author_of_row:
  "posted_of ev = Some m \<Longrightarrow> row_author_or_actor (row_of_event sq ev n) = MessageAuthorID ev"
  by (simp add: row_author_or_actor_def MessageAuthorID_def)

lemma apply_posted_erases:
  assumes "MessageAuthorID ev |\<in>| tl_shreddedUsers p" and "ev_id ev \<noteq> []"
  shows "ev_id ev |\<in>| tl_retracted (apply_posted r ev m p)"
  using assms by (auto simp: apply_posted_def Let_def split: option.splits)

lemma rowIndex_placed:
  "rowIndex (place_event r ev sq p) e =
     (if shouldIndexRoomTimelineEvent ev \<and> ev_id ev \<noteq> [] \<and> e = ev_id ev
      then Some (length (tl_entries p)) else rowIndex p e)"
  by (simp add: rowIndex_def)

lemma erased_ok_event:
  assumes rows: "rows_ok p" and ok: "erased_ok p"
  shows "erased_ok (step_effect ev sq (place_event r ev sq p))"
    (is "erased_ok (step_effect ev sq ?q)")
  unfolding erased_ok_def
proof (intro allI impI)
  fix e i
  assume idx: "rowIndex (step_effect ev sq ?q) e = Some i"
    and kind: "row_kind (tl_entries (step_effect ev sq ?q) ! i) = timelineMessagePosted"
    and erased: "row_author_or_actor (tl_entries (step_effect ev sq ?q) ! i)
        |\<in>| tl_shreddedUsers (step_effect ev sq ?q)"
  have idx: "rowIndex ?q e = Some i"
    using idx by simp
  show "e |\<in>| tl_retracted (step_effect ev sq ?q)"
  proof (cases "shouldIndexRoomTimelineEvent ev \<and> ev_id ev \<noteq> [] \<and> e = ev_id ev")
    case True
    then have i: "i = length (tl_entries p)"
      using idx by (simp add: rowIndex_placed)
    then obtain m where m: "posted_of ev = Some m"
      using True kind by (auto simp: nth_append visible_kind_posted)
    then have payload: "payload_of ev = Some (MessagePosted m)"
      by (simp add: posted_of_def split: option.splits content_event.splits)
    have "MessageAuthorID ev |\<in>| tl_shreddedUsers ?q"
      using erased True i by (simp add: nth_append author_of_row [OF m])
    then show ?thesis
      using True by (simp add: step_effect_def payload Let_def apply_posted_erases)
  next
    case False
    then have "rowIndex p e = Some i"
      using idx by (simp add: rowIndex_placed split: if_splits)
    moreover from this have "i < length (tl_entries p)"
      by (rule rows_ok_D [OF rows])
    ultimately have "e |\<in>| tl_retracted p"
      using ok kind erased by (auto simp: erased_ok_def nth_append split: if_splits)
    then show ?thesis
      using retracted_effect [of ?q ev sq] by auto
  qed
qed

lemma erased_ok_step:
  assumes "rows_ok p" and "erased_ok p"
  shows "erased_ok (timeline_step ev sq p)"
  using assms
proof (rule_tac timeline_step_cases [where ev = ev and sq = sq and p = p])
  fix b
  assume "payload_of ev = Some (MessageBody b)"
    and step: "timeline_step ev sq p = apply_body (roomIDOfEvent ev) ev b sq p"
  show ?thesis
    using assms(2) retracted_body [of p "roomIDOfEvent ev" ev b sq]
    by (auto simp: step erased_ok_def)
qed (simp_all add: erased_ok_shredded erased_ok_event)

text \<open>Any delivery keeps what every step keeps and what does not depend on the guard.\<close>

lemma deliver_keeps:
  assumes "deliver Timeline_Apply log p = Some q" and "P p"
    and "\<And>g p. P (set_tl_guard g p) = P p"
    and "\<And>ev sq p. P p \<Longrightarrow> P (timeline_step ev sq p)"
  shows "P q"
  using assms(1,2)
proof (induction log arbitrary: p)
  case (Cons x log)
  obtain ev sq where x: "x = (ev, sq)" by force
  from Cons.prems(1) obtain p' where p': "Timeline_Apply p (Some ev) sq = Some p'"
      "deliver Timeline_Apply log p' = Some q"
    by (auto simp: x split: option.splits)
  have "P p'"
    using p'(1) Cons.prems(2)
    by (auto simp: Timeline_Apply_alt assms(3) assms(4) split: if_splits option.splits)
  then show ?case by (rule Cons.IH [OF p'(2)])
qed simp

lemma replayed_inv:
  assumes "replayed Timeline_Apply Timeline_CompleteStartupReplay startup live p = Some q" and "P p"
    and "\<And>g p. P (set_tl_guard g p) = P p"
    and "\<And>ev sq p. P p \<Longrightarrow> P (timeline_step ev sq p)"
  shows "P q"
proof -
  from assms(1) obtain r where r: "deliver Timeline_Apply startup p = Some r"
    "deliver Timeline_Apply live (Timeline_CompleteStartupReplay r) = Some q"
    by (auto simp: replayed_def split: option.splits)
  have "P r" by (rule deliver_keeps [OF r(1) assms(2-4)])
  then have "P (Timeline_CompleteStartupReplay r)"
    by (simp add: complete_sets_guard assms(3))
  then show ?thesis by (rule deliver_keeps [OF r(2) _ assms(3,4)])
qed

lemma deliver_erases:
  assumes "deliver Timeline_Apply log p = Some q" and "(ev, sq) \<in> set log"
    and "erased_user ev = Some u" and "u \<noteq> []"
  shows "u |\<in>| tl_shreddedUsers q"
  using assms(1,2)
proof (induction log arbitrary: p)
  case (Cons x log)
  obtain ev' sq' where x: "x = (ev', sq')" by force
  from Cons.prems(1) obtain p' where p': "Timeline_Apply p (Some ev') sq' = Some p'"
      "deliver Timeline_Apply log p' = Some q"
    by (auto simp: x split: option.splits)
  show ?case
  proof (cases "(ev, sq) = x")
    case True
    then have "bypasses_guard ev'"
      using assms(3) by (auto simp: x erased_user_def bypasses_guard_def split: option.splits content_event.splits)
    then have "u |\<in>| tl_shreddedUsers p'"
      using p'(1) True assms(3,4) by (auto simp: Timeline_Apply_alt x shreddedUsers_step)
    then show ?thesis
      by (rule deliver_keeps [OF p'(2)]) (auto simp: shreddedUsers_step split: option.splits)
  next
    case False
    then show ?thesis using Cons.IH [OF p'(2)] Cons.prems(2) by auto
  qed
qed simp

lemma replayed_erases:
  assumes "replayed Timeline_Apply Timeline_CompleteStartupReplay startup live p = Some q"
    and "(ev, sq) \<in> set (startup @ live)" and "erased_user ev = Some u" and "u \<noteq> []"
  shows "u |\<in>| tl_shreddedUsers q"
proof -
  from assms(1) obtain r where r: "deliver Timeline_Apply startup p = Some r"
    "deliver Timeline_Apply live (Timeline_CompleteStartupReplay r) = Some q"
    by (auto simp: replayed_def split: option.splits)
  show ?thesis
  proof (cases "(ev, sq) \<in> set startup")
    case True
    have "u |\<in>| tl_shreddedUsers r" by (rule deliver_erases [OF r(1) True assms(3,4)])
    then have "u |\<in>| tl_shreddedUsers (Timeline_CompleteStartupReplay r)"
      by (simp add: complete_sets_guard)
    then show ?thesis
      by (rule deliver_keeps [OF r(2)]) (auto simp: shreddedUsers_step split: option.splits)
  next
    case False
    then show ?thesis using assms by (intro deliver_erases [OF r(2) _ assms(3,4)]) auto
  qed
qed

section \<open>Unreadable content\<close>

text \<open>
  No read of the timeline leads to the content of the message: not the reference of any
  message (an echo's leads to its original), not the attachment listing of any room, not a
  reference a reader kept from before; and it is not pinned anywhere.
\<close>

definition content_gone :: "timeline \<Rightarrow> string \<Rightarrow> bool" where
  "content_gone p m \<longleftrightarrow>
     (\<forall>i. br_message_id (fst (LatestBodyReference p i)) \<noteq> m)
     \<and> (\<forall>r. \<forall>a \<in> set (CurrentRoomAttachmentMessages p r). am_message_id a \<noteq> m)
     \<and> (\<forall>b. br_message_id b = m \<longrightarrow> \<not> BodyReferenceCurrent p b)
     \<and> (\<forall>r. PinnedMessage p r m = None)"

lemma contentEntry_id:
  assumes "rows_ok p" and "contentEntry p i = Some e"
  shows "entryByEventID p (te_event_id e) = Some e" "IsMessagePost e"
proof -
  have id: "te_event_id x = j" if "entryByEventID p j = Some x" for j x
    using that rows_ok_D [OF assms(1), of j]
    by (auto simp: entryByEventID_def bind_eq_Some_conv entryAt_def entryOfRow_def split: if_splits)
  show "entryByEventID p (te_event_id e) = Some e" "IsMessagePost e"
    using assms(2) by (auto simp: contentEntry_def id split: option.splits if_splits)
qed

lemma reference_not_retracted:
  assumes "m |\<in>| tl_retracted p" and "m \<noteq> []"
  shows "br_message_id (fst (latestBodyReference p i)) \<noteq> m"
  using assms
  by (auto simp: latestBodyReference_def no_reference_def Let_def split: option.splits)

lemma retracted_content_gone:
  assumes "m |\<in>| tl_retracted p" and "m \<noteq> []"
  shows "content_gone p m"
proof -
  note ref = reference_not_retracted [OF assms]
  have "am_message_id a \<noteq> m" if "attachment_message_of p i = Some a" for i a
    using that ref [of i]
    by (auto simp: attachment_message_of_def split: option.splits if_splits prod.splits)
  then have "\<forall>a \<in> set (CurrentRoomAttachmentMessages p r). am_message_id a \<noteq> m" for r
    by (auto simp: CurrentRoomAttachmentMessages_def List.map_filter_def)
  moreover have "\<not> BodyReferenceCurrent p b" if "br_message_id b = m" for b
    using that ref [of m]
    by (auto simp: BodyReferenceCurrent_def LatestBodyReference_def split: prod.splits)
  ultimately show ?thesis
    using ref assms(1) by (auto simp: content_gone_def LatestBodyReference_def PinnedMessage_def)
qed

lemma retracted_reference:
  assumes "m |\<in>| tl_retracted p \<or> m |\<in>| tl_hiddenEchoes p"
    and "entryByEventID p m = Some e" and "IsMessagePost e"
  shows "latestBodyReference p m = (no_reference, True, True)"
  using assms by (auto simp: latestBodyReference_def)

text \<open>C17 (safety). Erasure is final. Once the key of an account was shredded, or its
  shredding was requested, every post of that account is deleted for all readers, whether it
  was recorded before the erasure or arrives after it, and whatever bodies are delivered
  later, in any order and with redelivered or repeated records.\<close>

theorem erasure_is_final:
  assumes "replayed Timeline_Apply Timeline_CompleteStartupReplay startup live
             NewRoomTimelineProjection = Some p"
    and "(ev, sq) \<in> set (startup @ live)" and "erased_user ev = Some u" and "u \<noteq> []"
    and "timeline_Get p m = Some e" and "IsMessagePost e"
    and "timelineEntryMessageAuthorID (Some e) = u"
  shows "MessageTombstoned p m \<and> LatestBodyReference p m = (no_reference, True, True)
    \<and> content_gone p m"
proof -
  have inv: "rows_ok p \<and> erased_ok p"
  proof (rule replayed_inv [OF assms(1)])
    show "rows_ok NewRoomTimelineProjection \<and> erased_ok NewRoomTimelineProjection"
      by (simp add: rows_ok_def erased_ok_def rowIndex_def NewRoomTimelineProjection_def)
  qed (auto simp: rows_ok_step erased_ok_step, auto simp: rows_ok_def erased_ok_def)
  have erased: "u |\<in>| tl_shreddedUsers p"
    by (rule replayed_erases [OF assms(1-4)])
  from assms(5) obtain i where i: "rowIndex p m = Some i" "e = entryOfRow (tl_entries p ! i)"
    by (auto simp: timeline_Get_def entryByEventID_def bind_eq_Some_conv entryAt_def split: if_splits)
  have "row_kind (tl_entries p ! i) = timelineMessagePosted"
    "row_author_or_actor (tl_entries p ! i) = u"
    using assms(6,7)
    by (auto simp: i(2) IsMessagePost_def entryOfRow_def timelineEntryMessageAuthorID_def
        row_author_or_actor_def split: if_splits)
  then have "m |\<in>| tl_retracted p"
    using inv i(1) erased by (auto simp: erased_ok_def)
  moreover have "m \<noteq> []"
    using i(1) by (auto simp: rowIndex_def)
  ultimately show ?thesis
    using assms(5,6)
    by (simp add: MessageTombstoned_def LatestBodyReference_def retracted_content_gone
        timeline_Get_def retracted_reference)
qed

section \<open>Retractions over a clean log\<close>

text \<open>In a clean log no later row takes over an identifier.\<close>

lemma entry_id_logged:
  assumes "clean_log log" and "rowIndex (timeline_of log) m = Some i"
  shows "m \<in> set (log_ids log)"
proof -
  have "rows_ok (timeline_of log)" "rows_of_log log (timeline_of log)"
    using timeline_of_wf [OF assms(1)] by (auto simp: timeline_wf_def)
  then show ?thesis
    using rows_ok_D [OF _ assms(2)] nth_mem by (metis rows_of_log_def)
qed

lemma rowIndex_step:
  "rowIndex (timeline_step ev sq p) e =
     (if shouldIndexRoomTimelineEvent ev \<and> roomIDOfEvent ev \<noteq> [] \<and> ev_id ev \<noteq> [] \<and> e = ev_id ev
      then Some (length (tl_entries p)) else rowIndex p e)"
  by (simp add: rowIndex_def step_rows)

lemma entry_stable:
  assumes "clean_log (log @ [(ev, sq)])" and "entryByEventID (timeline_of log) m = Some e"
  shows "entryByEventID (timeline_of (log @ [(ev, sq)])) m = Some e"
proof -
  have clean: "clean_log log" "ev_id ev \<notin> set (log_ids log)"
    using assms(1) by (auto simp: clean_log_snoc)
  from assms(2) obtain i where i: "rowIndex (timeline_of log) m = Some i"
      "i < length (tl_entries (timeline_of log))" "e = entryOfRow (tl_entries (timeline_of log) ! i)"
    by (auto simp: entryByEventID_def bind_eq_Some_conv entryAt_def split: if_splits)
  have "m \<noteq> ev_id ev"
    using entry_id_logged [OF clean(1) i(1)] clean(2) by auto
  then have "rowIndex (timeline_of (log @ [(ev, sq)])) m = Some i"
    using i(1) unfolding timeline_of_snoc by (simp add: rowIndex_step)
  moreover have "entryAt (timeline_of (log @ [(ev, sq)])) i = Some e"
    using i(2,3) unfolding timeline_of_snoc by (auto simp: entryAt_def step_rows nth_append)
  ultimately show ?thesis by (simp add: entryByEventID_def)
qed

lemma hidden_effect:
  assumes "m |\<in>| tl_hiddenEchoes (step_effect ev sq p)"
  shows "m |\<in>| tl_hiddenEchoes p \<or> echoOriginalID p m \<noteq> []"
  using assms
  by (cases "payload_of ev"; cases "the (payload_of ev)")
    (auto simp: step_effect_def apply_retracted_def Let_def split: if_splits option.splits)

lemma hidden_grows: "tl_hiddenEchoes p |\<subseteq>| tl_hiddenEchoes (step_effect ev sq p)"
  by (cases "payload_of ev"; cases "the (payload_of ev)")
    (auto simp: step_effect_def apply_retracted_def Let_def split: option.splits)

lemma hidden_step: "tl_hiddenEchoes p |\<subseteq>| tl_hiddenEchoes (timeline_step ev sq p)"
  by (rule timeline_step_cases [where ev = ev and sq = sq and p = p])
    (auto intro: fsubsetD [OF hidden_grows])

lemma retraction_effect:
  assumes "payload_of ev = Some (MessageRetracted r m)" and "r \<noteq> []" and "m \<noteq> []"
  shows "m |\<in>| tl_retracted (timeline_step ev sq p) \<or> m |\<in>| tl_hiddenEchoes (timeline_step ev sq p)"
proof -
  have "roomIDOfEvent ev = r" "erased_user ev = None"
    using assms(1) by (simp_all add: roomIDOfEvent_def erased_user_def)
  then have "timeline_step ev sq p = apply_retracted r ev m (place_event r ev sq p)"
    using assms by (simp add: timeline_step_other timeline_reduce_other step_effect_def applies_def
        eventMutatesRoomTimelineProjection_def)
  then show ?thesis
    using assms(3) by (auto simp: apply_retracted_def Let_def split: option.splits)
qed

definition retractions_ok :: "(content_fact \<times> seq) list \<Rightarrow> timeline \<Rightarrow> bool" where
  "retractions_ok log p \<longleftrightarrow>
     (\<forall>h. h |\<in>| tl_hiddenEchoes p \<longrightarrow> IsEcho p h)
     \<and> (\<forall>ev sq r m. (ev, sq) \<in> set log \<longrightarrow> payload_of ev = Some (MessageRetracted r m) \<longrightarrow>
          r \<noteq> [] \<longrightarrow> m \<noteq> [] \<longrightarrow> m |\<in>| tl_retracted p \<or> m |\<in>| tl_hiddenEchoes p)"

lemma echo_stable:
  assumes "clean_log (log @ [(ev, sq)])" and "echoOriginalID (timeline_of log) m \<noteq> []"
  shows "echoOriginalID (timeline_of (log @ [(ev, sq)])) m = echoOriginalID (timeline_of log) m"
  using assms(2) entry_stable [OF assms(1), of m]
  by (auto simp: echoOriginalID_def split: option.splits)

lemma hidden_new:
  assumes "m |\<in>| tl_hiddenEchoes (timeline_step ev sq p)" and "m |\<notin>| tl_hiddenEchoes p"
  shows "echoOriginalID (timeline_step ev sq p) m \<noteq> []"
proof (rule timeline_step_cases [where ev = ev and sq = sq and p = p])
  assume "timeline_step ev sq p = step_effect ev sq (place_event (roomIDOfEvent ev) ev sq p)"
  then show ?thesis
    using assms hidden_effect [of m ev sq "place_event (roomIDOfEvent ev) ev sq p"] by auto
qed (use assms in simp_all)

lemma timeline_of_retractions:
  assumes "clean_log log"
  shows "retractions_ok log (timeline_of log)"
  using assms
proof (induction log rule: clean_log_induct)
  case Nil
  then show ?case by (simp add: retractions_ok_def) (simp add: NewRoomTimelineProjection_def)
next
  case (snoc log ev sq)
  let ?p = "timeline_of log"
  have clean: "clean_log (log @ [(ev, sq)])"
    using snoc by (simp add: clean_log_snoc)
  have "IsEcho (timeline_of (log @ [(ev, sq)])) h"
    if "h |\<in>| tl_hiddenEchoes (timeline_of (log @ [(ev, sq)]))" for h
  proof (cases "h |\<in>| tl_hiddenEchoes ?p")
    case True
    then have "echoOriginalID ?p h \<noteq> []"
      using snoc.IH by (simp add: retractions_ok_def IsEcho_def)
    then show ?thesis using echo_stable [OF clean] by (simp add: IsEcho_def)
  next
    case False
    then show ?thesis
      using that hidden_new [of h ev sq ?p] by (simp add: IsEcho_def timeline_of_snoc)
  qed
  moreover have "m |\<in>| tl_retracted (timeline_step ev sq ?p) \<or> m |\<in>| tl_hiddenEchoes (timeline_step ev sq ?p)"
    if "(ev', sq') \<in> set (log @ [(ev, sq)])" "payload_of ev' = Some (MessageRetracted r m)"
      "r \<noteq> []" "m \<noteq> []" for ev' sq' r m
  proof (cases "(ev', sq') \<in> set log")
    case True
    then have "m |\<in>| tl_retracted ?p \<or> m |\<in>| tl_hiddenEchoes ?p"
      using snoc.IH that(2-4) unfolding retractions_ok_def by blast
    then show ?thesis
      using fsubsetD [OF retracted_step] fsubsetD [OF hidden_step] by blast
  next
    case False
    then show ?thesis using that retraction_effect [of ev r m sq ?p] by auto
  qed
  ultimately show ?case
    unfolding retractions_ok_def timeline_of_snoc by blast
qed


section \<open>Pages\<close>

definition room_entries :: "timeline \<Rightarrow> string \<Rightarrow> timeline_entry list" where
  "room_entries p r = map (\<lambda>i. entryOfRow (tl_entries p ! i)) (getl (tl_byRoom p) r)"

text \<open>The entries a reader sees, oldest first.\<close>

definition shown :: "timeline \<Rightarrow> visibility \<Rightarrow> timeline_entry \<Rightarrow> bool" where
  "shown p visible e \<longleftrightarrow> te_event_id e |\<notin>| tl_hiddenEchoes p \<and> passes visible e"

definition shown_entries :: "timeline \<Rightarrow> string \<Rightarrow> visibility \<Rightarrow> timeline_entry list" where
  "shown_entries p r visible = filter (shown p visible) (room_entries p r)"

lemma collect_filter:
  assumes "\<forall>i \<in> set is. i < length (tl_entries p)"
  shows "collect p keep n is = take n (filter keep (map (\<lambda>i. entryOfRow (tl_entries p ! i)) is))"
  using assms
proof (induction "is" arbitrary: n)
  case Nil
  then show ?case by simp
next
  case (Cons i "is")
  then show ?case by (cases n) (auto simp: entryAt_def)
qed

lemma room_entries_sorted:
  assumes "timeline_wf p"
  shows "sorted_wrt (\<lambda>a b. te_seq a < te_seq b) (room_entries p r)"
proof -
  have rows: "row_seq (tl_entries p ! i) < row_seq (tl_entries p ! j)"
    if "i < j" "j < length (tl_entries p)" for i j
    using assms that sorted_wrt_nth_less [of "(<)" "map row_seq (tl_entries p)" i j]
    by (simp add: timeline_wf_def rows_ordered_def)
  have list: "sorted_wrt (<) (getl (tl_byRoom p) r)"
    and range: "\<forall>i \<in> set (getl (tl_byRoom p) r). i < length (tl_entries p)"
    using assms by (simp_all add: timeline_wf_def lists_ok_def)
  have "sorted_wrt (\<lambda>i j. row_seq (tl_entries p ! i) < row_seq (tl_entries p ! j))
      (getl (tl_byRoom p) r)"
    by (rule sorted_wrt_mono_rel [OF _ list]) (use range in \<open>simp add: rows\<close>)
  then show ?thesis by (simp add: room_entries_def sorted_wrt_map entryOfRow_def)
qed

lemma shown_sorted:
  assumes "timeline_wf p"
  shows "sorted_wrt (\<lambda>a b. te_seq a < te_seq b) (shown_entries p r visible)"
  by (simp add: shown_entries_def sorted_wrt_filter room_entries_sorted [OF assms])

lemma shown_seq_pos:
  assumes "timeline_wf p" and "e \<in> set (shown_entries p r visible)"
  shows "0 < te_seq e"
proof -
  obtain i where "i < length (tl_entries p)" "e = entryOfRow (tl_entries p ! i)"
    using assms by (auto simp: shown_entries_def room_entries_def timeline_wf_def lists_ok_def)
  then show ?thesis
    using assms(1) by (auto simp: timeline_wf_def rows_ordered_def entryOfRow_def word_neq_0_conv)
qed

lemma back_page:
  assumes "timeline_wf p" and "0 < limit"
  shows "VisibleRoomTimeline p r limit before visible =
     take (nat limit) (filter (\<lambda>e. before = 0 \<or> te_seq e < before) (rev (shown_entries p r visible)))"
proof -
  have range: "\<forall>i \<in> set (rev (getl (tl_byRoom p) r)). i < length (tl_entries p)"
    using assms(1) by (simp add: timeline_wf_def lists_ok_def)
  have "filter (\<lambda>e. \<not> (0 < before \<and> before \<le> te_seq e) \<and> \<not> isHiddenEchoEntry p (Some e)
          \<and> passes visible e) xs
      = filter (\<lambda>e. before = 0 \<or> te_seq e < before) (filter (shown p visible) xs)" for xs
    using word_neq_0_conv [of before]
    by (auto simp: shown_def isHiddenEchoEntry_def not_le intro!: filter_cong)
  then show ?thesis
    using assms(2)
    by (simp add: VisibleRoomTimeline_def collect_filter [OF range] shown_entries_def room_entries_def
        rev_map rev_filter)
qed

lemma forward_page:
  assumes "timeline_wf p" and "0 < limit"
  shows "VisibleRoomTimelineAfter p r limit after visible =
     take (nat limit) (filter (\<lambda>e. after < te_seq e) (shown_entries p r visible))"
proof -
  have range: "\<forall>i \<in> set (getl (tl_byRoom p) r). i < length (tl_entries p)"
    using assms(1) by (simp add: timeline_wf_def lists_ok_def)
  have "filter (\<lambda>e. \<not> te_seq e \<le> after \<and> \<not> isHiddenEchoEntry p (Some e) \<and> passes visible e) xs
      = filter (\<lambda>e. after < te_seq e) (filter (shown p visible) xs)" for xs
    by (auto simp: shown_def isHiddenEchoEntry_def not_le intro!: filter_cong)
  then show ?thesis
    using assms(2)
    by (simp add: VisibleRoomTimelineAfter_def collect_filter [OF range] shown_entries_def
        room_entries_def)
qed

text \<open>Filtering a strictly sorted list by a bound from its own elements is a cut.\<close>

lemma filter_after:
  assumes "sorted_wrt (\<lambda>a b. f a < (f b :: 'b :: linorder)) xs" and "k < length xs"
  shows "filter (\<lambda>e. f (xs ! k) < f e) xs = drop (Suc k) xs"
proof -
  have "filter (\<lambda>e. f (xs ! k) < f e) (take (Suc k) xs) = []"
  proof -
    have "f (xs ! j) \<le> f (xs ! k)" if "j < Suc k" for j
      using that assms sorted_wrt_nth_less [OF assms(1), of j k]
      by (cases "j = k") (auto simp: less_imp_le)
    then show ?thesis by (auto simp: filter_empty_conv in_set_conv_nth not_less)
  qed
  moreover have "filter (\<lambda>e. f (xs ! k) < f e) (drop (Suc k) xs) = drop (Suc k) xs"
    using assms sorted_wrt_nth_less [OF assms(1), of k]
    by (auto simp: filter_id_conv in_set_conv_nth)
  ultimately show ?thesis
    by (metis append_Nil append_take_drop_id filter_append)
qed

lemma filter_before:
  assumes "sorted_wrt (\<lambda>a b. f b < (f a :: 'b :: linorder)) xs" and "k < length xs"
  shows "filter (\<lambda>e. f e < f (xs ! k)) xs = drop (Suc k) xs"
proof -
  have "filter (\<lambda>e. f e < f (xs ! k)) (take (Suc k) xs) = []"
  proof -
    have "f (xs ! k) \<le> f (xs ! j)" if "j < Suc k" for j
      using that assms sorted_wrt_nth_less [OF assms(1), of j k]
      by (cases "j = k") (auto simp: less_imp_le)
    then show ?thesis by (auto simp: filter_empty_conv in_set_conv_nth not_less)
  qed
  moreover have "filter (\<lambda>e. f e < f (xs ! k)) (drop (Suc k) xs) = drop (Suc k) xs"
    using assms sorted_wrt_nth_less [OF assms(1), of k]
    by (auto simp: filter_id_conv in_set_conv_nth)
  ultimately show ?thesis
    by (metis append_Nil append_take_drop_id filter_append)
qed

text \<open>C30 (functional). Paging over a room is exact in both directions. A page without a
  cursor starts at the newest, or the oldest, visible entry; the page whose cursor is any
  entry of the sequence continues right behind it. So walking by cursors shows every visible
  entry once and in order, for every predicate of the reader and every page size.\<close>

theorem paging_is_exact:
  assumes "clean_log (startup @ live)"
    and "replayed Timeline_Apply Timeline_CompleteStartupReplay startup live
           NewRoomTimelineProjection = Some p"
    and "0 < limit"
  shows "let xs = shown_entries p r visible in
    VisibleRoomTimelineAfter p r limit 0 visible = take (nat limit) xs
    \<and> (\<forall>k < length xs. VisibleRoomTimelineAfter p r limit (te_seq (xs ! k)) visible
          = take (nat limit) (drop (Suc k) xs))
    \<and> VisibleRoomTimeline p r limit 0 visible = take (nat limit) (rev xs)
    \<and> (\<forall>k < length xs. VisibleRoomTimeline p r limit (te_seq (rev xs ! k)) visible
          = take (nat limit) (drop (Suc k) (rev xs)))"
proof -
  define xs where "xs = shown_entries p r visible"
  obtain g where "p = set_tl_guard g (timeline_of (startup @ live))"
    by (rule replayed_timeline [OF assms(1,2)])
  then have wf: "timeline_wf p"
    using timeline_of_wf [OF assms(1)] by simp
  note fwd = forward_page [OF wf assms(3), of r _ visible, folded xs_def]
  note bwd = back_page [OF wf assms(3), of r _ visible, folded xs_def]
  have sorted: "sorted_wrt (\<lambda>a b. te_seq a < te_seq b) xs"
    unfolding xs_def by (rule shown_sorted [OF wf])
  have pos: "0 < te_seq e" if "e \<in> set xs" for e
    using that shown_seq_pos [OF wf] by (simp add: xs_def)
  have "VisibleRoomTimelineAfter p r limit 0 visible = take (nat limit) xs"
    by (simp add: fwd filter_id_conv pos)
  moreover have "\<forall>k < length xs. VisibleRoomTimelineAfter p r limit (te_seq (xs ! k)) visible
      = take (nat limit) (drop (Suc k) xs)"
    by (simp add: fwd filter_after [OF sorted])
  moreover have "VisibleRoomTimeline p r limit 0 visible = take (nat limit) (rev xs)"
    by (simp add: bwd)
  moreover have "sorted_wrt (\<lambda>a b. te_seq b < te_seq a) (rev xs)"
    using sorted by (simp add: sorted_wrt_rev)
  then have "VisibleRoomTimeline p r limit (te_seq (rev xs ! k)) visible
      = take (nat limit) (drop (Suc k) (rev xs))" if "k < length xs" for k
  proof -
    have "rev xs ! k \<in> set xs" using that nth_mem [of k "rev xs"] by simp
    then have "te_seq (rev xs ! k) \<noteq> 0" using pos by fastforce
    then show ?thesis using filter_before [of te_seq "rev xs" k] that sorted
      by (simp add: bwd sorted_wrt_rev)
  qed
  ultimately show ?thesis
    by (simp add: Let_def flip: xs_def)
qed

end
