(* ===== verification/Room_Timeline_Bodies.thy ===== *)
theory Room_Timeline_Bodies
  imports Room_Timeline_Properties
begin

text \<open>
  The body facts of messages: the projection keeps, for every message, the sequences of its
  bodies in the order of the log, wherever they are stored at the moment (in the dense array
  of a post, or in the maps for bodies that arrived before their post). The physical deletion
  of superseded bodies rests on it.
\<close>

section \<open>Where a body is stored\<close>

definition rows_indexed :: "timeline \<Rightarrow> bool" where
  "rows_indexed p \<longleftrightarrow>
     (\<forall>i < length (tl_entries p). rowIndex p (row_event (tl_entries p ! i)) = Some i)"

definition bodies_ok :: "timeline \<Rightarrow> bool" where
  "bodies_ok p \<longleftrightarrow> rows_ok p \<and> bodies_numbered p
     \<and> (\<forall>m s. fmlookup (tl_orphans p) m = Some s \<longrightarrow> bs_seq s \<noteq> 0 \<and> body_index p m = None)
     \<and> (\<forall>b. getl (tl_history p) b \<noteq> [] \<longrightarrow> b < length (tl_bodies p) \<and> bs_seq (tl_bodies p ! b) \<noteq> 0)
     \<and> (\<forall>m. getl (tl_orphanHistory p) m \<noteq> [] \<longrightarrow> fmlookup (tl_orphans p) m \<noteq> None)"

lemma map_filter_position:
  assumes "distinct (List.map_filter f xs)" and "i < length xs" and "j < length xs"
    and "f (xs ! i) = Some b" and "f (xs ! j) = Some b"
  shows "i = j"
  using assms
proof (induction xs arbitrary: i j)
  case (Cons x xs)
  have mem: "b \<in> set (List.map_filter f xs)" if "k < length xs" "f (xs ! k) = Some b" for k
    using that nth_mem [of k xs] by (force simp: List.map_filter_def)
  have "distinct (List.map_filter f xs)"
    using Cons.prems(1) by (auto simp: List.map_filter_simps split: option.splits)
  then show ?case
    using Cons.IH [of "i - 1" "j - 1"] Cons.prems mem [of "i - 1"] mem [of "j - 1"]
    by (cases i; cases j) (auto simp: List.map_filter_simps)
qed simp

lemma body_index_facts:
  assumes "rows_ok p" and "bodies_numbered p" and "body_index p m = Some b"
  shows "b < length (tl_bodies p)" and "body_index p m' = Some b \<Longrightarrow> m' = m"
proof -
  from assms(3) obtain i where i: "rowIndex p m = Some i" "row_body (tl_entries p ! i) = Some b"
    by (auto simp: body_index_def bind_eq_Some_conv)
  note row = rows_ok_D [OF assms(1) i(1)]
  have "b \<in> set (List.map_filter row_body (tl_entries p))"
    using i(2) row(1) nth_mem [of i "tl_entries p"] by (force simp: List.map_filter_def)
  then show "b < length (tl_bodies p)"
    using assms(2) by (simp add: bodies_numbered_def)
  assume "body_index p m' = Some b"
  then obtain j where j: "rowIndex p m' = Some j" "row_body (tl_entries p ! j) = Some b"
    by (auto simp: body_index_def bind_eq_Some_conv)
  note row' = rows_ok_D [OF assms(1) j(1)]
  have "distinct (List.map_filter row_body (tl_entries p))"
    using assms(2) by (simp add: bodies_numbered_def)
  then have "i = j"
    by (rule map_filter_position) (use i j row row' in simp_all)
  then show "m' = m" using row row' by simp
qed

lemma bodies_ok_D:
  assumes "bodies_ok p" and "body_index p m = Some b"
  shows "b < length (tl_bodies p)" and "body_index p m' = Some b \<Longrightarrow> m' = m"
proof -
  have ok: "rows_ok p" "bodies_numbered p" using assms(1) by (simp_all add: bodies_ok_def)
  show "b < length (tl_bodies p)" by (rule body_index_facts(1) [OF ok assms(2)])
  show "body_index p m' = Some b \<Longrightarrow> m' = m" by (rule body_index_facts(2) [OF ok assms(2)])
qed

lemma bodyState_seq: "bodies_ok p \<Longrightarrow> bodyState p m = Some s \<Longrightarrow> bs_seq s \<noteq> 0"
  by (auto simp: bodyState_def bodies_ok_def Let_def split: option.splits if_splits)

lemma bodyState_put:
  assumes "bodies_ok p" and "bs_seq s \<noteq> 0"
  shows "bodyState (putBodyState i s p) m = (if m = i then Some s else bodyState p m)"
proof (cases "body_index p i")
  case None
  then show ?thesis
    by (simp add: bodyState_def putBodyState_def split: option.splits)
next
  case (Some b)
  note b = bodies_ok_D [OF assms(1) Some]
  show ?thesis
  proof (cases "body_index p m")
    case None
    then show ?thesis using Some by (auto simp: bodyState_def putBodyState_def)
  next
    case (Some c)
    then show ?thesis
      using \<open>body_index p i = Some b\<close> b(1) b(2) [of m] assms(2)
      by (cases "c = b") (auto simp: bodyState_def putBodyState_def Let_def)
  qed
qed

lemma bodyHistory_put [simp]: "bodyHistory (putBodyState i s p) m = bodyHistory p m"
  by (simp add: bodyHistory_def split: option.splits)

lemma bodyHistory_putHistory:
  assumes "bodies_ok p"
  shows "bodyHistory (putBodyHistory i h p) m = (if m = i \<and> h \<noteq> [] then h else bodyHistory p m)"
proof (cases "body_index p i")
  case None
  then show ?thesis
    by (cases "body_index p m") (auto simp: bodyHistory_def putBodyHistory_def)
next
  case (Some b)
  then show ?thesis
    using bodies_ok_D(2) [OF assms Some, of m]
    by (cases "body_index p m") (auto simp: bodyHistory_def putBodyHistory_def)
qed

lemma bodyState_putHistory [simp]: "bodyState (putBodyHistory i h p) m = bodyState p m"
  by (simp add: bodyState_def split: option.splits)

text \<open>Both put operations keep the representation well formed.\<close>

lemma representation_put [simp]:
  "rows_ok (putBodyState i s p) = rows_ok p"
  "rows_ok (putBodyHistory i h p) = rows_ok p"
  "bodies_numbered (putBodyState i s p) = bodies_numbered p"
  "bodies_numbered (putBodyHistory i h p) = bodies_numbered p"
  by (simp_all add: rows_ok_def bodies_numbered_def)

lemma bodies_ok_put:
  assumes "bodies_ok p" and "bs_seq s \<noteq> 0"
  shows "bodies_ok (putBodyState i s p)"
proof -
  have "\<forall>b. getl (tl_history p) b \<noteq> [] \<longrightarrow>
      bs_seq (tl_bodies (putBodyState i s p) ! b) \<noteq> 0"
  proof (intro allI impI)
    fix b
    assume "getl (tl_history p) b \<noteq> []"
    then have b: "b < length (tl_bodies p)" "bs_seq (tl_bodies p ! b) \<noteq> 0"
      using assms(1) by (simp_all add: bodies_ok_def)
    then show "bs_seq (tl_bodies (putBodyState i s p) ! b) \<noteq> 0"
      using assms(2) by (cases "body_index p i = Some b")
        (auto simp: putBodyState_def split: option.splits)
  qed
  moreover have "fmlookup (tl_orphans p) m \<noteq> None \<Longrightarrow> fmlookup (tl_orphans (putBodyState i s p)) m \<noteq> None" for m
    by (simp add: putBodyState_def split: option.splits)
  moreover have "fmlookup (tl_orphans (putBodyState i s p)) m = Some t \<Longrightarrow>
      bs_seq t \<noteq> 0 \<and> body_index p m = None" for m t
    using assms by (auto simp: putBodyState_def bodies_ok_def split: option.splits if_splits)
  ultimately show ?thesis
    using assms(1) by (auto simp: bodies_ok_def)
qed

lemma bodies_ok_putHistory:
  assumes "bodies_ok p" and "bodyState p i = Some s"
  shows "bodies_ok (putBodyHistory i h p)"
proof -
  have "\<forall>b. getl (tl_history (putBodyHistory i h p)) b \<noteq> [] \<longrightarrow>
      b < length (tl_bodies p) \<and> bs_seq (tl_bodies p ! b) \<noteq> 0"
    using assms bodies_ok_D(1) [OF assms(1), of i]
    by (auto simp: putBodyHistory_def bodies_ok_def bodyState_def Let_def split: option.splits if_splits)
  moreover have "\<forall>m. getl (tl_orphanHistory (putBodyHistory i h p)) m \<noteq> [] \<longrightarrow> fmlookup (tl_orphans p) m \<noteq> None"
    using assms by (auto simp: putBodyHistory_def bodies_ok_def bodyState_def split: option.splits if_splits)
  ultimately show ?thesis
    using assms(1) by (auto simp: bodies_ok_def)
qed

section \<open>Setting and clearing\<close>

lemma bodyState_set:
  assumes "bodies_ok p" and "sq \<noteq> 0"
  shows "bodyState (setCurrentBody i b a n sq p) m =
     (if m = i then Some \<lparr>bs_seq = sq, bs_event_id = b, bs_author = a, bs_flags = body_flags n\<rparr>
      else bodyState p m)"
proof (cases "bodyState p i")
  case None
  then show ?thesis using assms by (simp add: setCurrentBody_def bodyState_put)
next
  case (Some s)
  then show ?thesis
    using assms bodies_ok_putHistory [OF assms(1) Some]
    by (simp add: setCurrentBody_def bodyState_put)
qed

lemma bodyHistory_set:
  assumes "bodies_ok p"
  shows "bodyHistory (setCurrentBody i b a n sq p) m =
     (if m = i then (case bodyState p i of None \<Rightarrow> bodyHistory p i | Some s \<Rightarrow> bodyHistory p i @ [bs_seq s])
      else bodyHistory p m)"
  using assms by (simp add: setCurrentBody_def bodyHistory_putHistory split: option.splits)

lemma bodies_ok_set:
  assumes "bodies_ok p" and "sq \<noteq> 0"
  shows "bodies_ok (setCurrentBody i b a n sq p)"
proof (cases "bodyState p i")
  case None
  then show ?thesis using assms by (simp add: setCurrentBody_def bodies_ok_put)
next
  case (Some s)
  then show ?thesis
    using assms bodies_ok_putHistory [OF assms(1) Some]
    by (simp add: setCurrentBody_def bodies_ok_put)
qed

lemma bodyState_clear:
  assumes "bodies_ok p"
  shows "bodyState (clearCurrentBody i p) m =
     (if m = i then map_option (\<lambda>s. s\<lparr>bs_flags := 0\<rparr>) (bodyState p i) else bodyState p m)"
proof (cases "bodyState p i")
  case None
  then show ?thesis by (simp add: clearCurrentBody_def)
next
  case (Some s)
  then show ?thesis
    using assms bodyState_seq [OF assms Some]
    by (simp add: clearCurrentBody_def bodyState_put)
qed

lemma bodyHistory_clear [simp]: "bodyHistory (clearCurrentBody i p) m = bodyHistory p m"
  by (simp add: clearCurrentBody_def split: option.splits)

lemma bodies_ok_clear: "bodies_ok p \<Longrightarrow> bodies_ok (clearCurrentBody i p)"
  using bodyState_seq [of p i]
  by (auto simp: clearCurrentBody_def intro!: bodies_ok_put split: option.splits)

text \<open>The sequences of the bodies of a message.\<close>

definition body_seqs :: "timeline \<Rightarrow> string \<Rightarrow> seq list" where
  "body_seqs p m = (case bodyState p m of None \<Rightarrow> [] | Some s \<Rightarrow> bodyHistory p m @ [bs_seq s])"

lemma no_body_no_history:
  assumes "bodies_ok p" and "bodyState p m = None"
  shows "bodyHistory p m = []"
  using assms bodies_ok_D(1) [OF assms(1), of m]
  by (auto simp: bodyState_def bodyHistory_def bodies_ok_def Let_def split: option.splits if_splits)

lemma body_seqs_clear: "bodies_ok p \<Longrightarrow> body_seqs (clearCurrentBody i p) m = body_seqs p m"
  by (simp add: body_seqs_def bodyState_clear split: option.splits)

lemma body_seqs_set:
  assumes "bodies_ok p" and "sq \<noteq> 0"
  shows "body_seqs (setCurrentBody i b a n sq p) m
     = (if m = i then body_seqs p i @ [sq] else body_seqs p m)"
  using no_body_no_history [OF assms(1), of i]
  by (simp add: body_seqs_def bodyState_set [OF assms] bodyHistory_set [OF assms(1)] split: option.splits)

section \<open>Operations that do not touch bodies\<close>

text \<open>The part of the state that bodies depend on.\<close>

definition body_part ::
  "timeline \<Rightarrow> timeline_row list \<times> (string, nat) fmap \<times> timeline_body list
     \<times> (string, timeline_body) fmap \<times> (nat, seq list) fmap \<times> (string, seq list) fmap" where
  "body_part p = (tl_entries p, tl_rowByEvent p, tl_bodies p, tl_orphans p, tl_history p, tl_orphanHistory p)"

lemma same_body_part:
  assumes "body_part q = body_part p"
  shows "bodies_ok q = bodies_ok p" "bodyState q = bodyState p" "bodyHistory q = bodyHistory p"
    "body_seqs q = body_seqs p"
proof -
  have same: "tl_entries q = tl_entries p" "tl_rowByEvent q = tl_rowByEvent p" "tl_bodies q = tl_bodies p"
    "tl_orphans q = tl_orphans p" "tl_history q = tl_history p" "tl_orphanHistory q = tl_orphanHistory p"
    using assms by (simp_all add: body_part_def)
  have index: "body_index q = body_index p"
    by (rule same_rows(4) [OF same(1,2)])
  show "bodies_ok q = bodies_ok p"
    by (simp add: bodies_ok_def rows_ok_def bodies_numbered_def same index)
  show state: "bodyState q = bodyState p"
    by (simp add: fun_eq_iff bodyState_def index same split: option.splits)
  show history: "bodyHistory q = bodyHistory p"
    by (simp add: fun_eq_iff bodyHistory_def index same split: option.splits)
  show "body_seqs q = body_seqs p"
    by (simp add: fun_eq_iff body_seqs_def state history split: option.splits)
qed

lemma body_part_ops [simp]:
  "body_part (setTombstonedAt i t p) = body_part p"
  "body_part (removeAttachmentMessage i p) = body_part p"
  "body_part (refreshAttachmentMessage r i p) = body_part p"
  "body_part (fold (refreshAttachmentMessage r) es p) = body_part p"
  "body_part (apply_pinned r ev i sq p) = body_part p"
  "body_part (apply_unpinned r i p) = body_part p"
  "body_part (p\<lparr>tl_retracted := x1\<rparr>) = body_part p"
  "body_part (p\<lparr>tl_hiddenEchoes := x1\<rparr>) = body_part p"
  "body_part (p\<lparr>tl_echoLinks := x2\<rparr>) = body_part p"
  "body_part (p\<lparr>tl_pins := x3\<rparr>) = body_part p"
  "body_part (p\<lparr>tl_byRoom := x4\<rparr>) = body_part p"
  "body_part (p\<lparr>tl_posts := x4\<rparr>) = body_part p"
  "body_part (p\<lparr>tl_latestRootPostAt := x5\<rparr>) = body_part p"
  "body_part (p\<lparr>tl_shreddedUsers := x1\<rparr>) = body_part p"
  "body_part (p\<lparr>tl_shreddedAt := x6\<rparr>) = body_part p"
  by (simp_all add: body_part_def)

lemma keeps_bodies [simp]:
  "bodies_ok (setTombstonedAt i t p) = bodies_ok p"
  "bodies_ok (removeAttachmentMessage i p) = bodies_ok p"
  "bodies_ok (refreshAttachmentMessage r i p) = bodies_ok p"
  "bodies_ok (fold (refreshAttachmentMessage r) es p) = bodies_ok p"
  "bodies_ok (apply_pinned r ev i sq p) = bodies_ok p"
  "bodies_ok (apply_unpinned r i p) = bodies_ok p"
  "bodies_ok (p\<lparr>tl_retracted := x1\<rparr>) = bodies_ok p"
  "bodies_ok (p\<lparr>tl_hiddenEchoes := x1\<rparr>) = bodies_ok p"
  "bodies_ok (p\<lparr>tl_echoLinks := x2\<rparr>) = bodies_ok p"
  "bodies_ok (p\<lparr>tl_pins := x3\<rparr>) = bodies_ok p"
  "body_seqs (setTombstonedAt i t p) = body_seqs p"
  "body_seqs (removeAttachmentMessage i p) = body_seqs p"
  "body_seqs (refreshAttachmentMessage r i p) = body_seqs p"
  "body_seqs (fold (refreshAttachmentMessage r) es p) = body_seqs p"
  "body_seqs (apply_pinned r ev i sq p) = body_seqs p"
  "body_seqs (apply_unpinned r i p) = body_seqs p"
  "body_seqs (p\<lparr>tl_retracted := x1\<rparr>) = body_seqs p"
  "body_seqs (p\<lparr>tl_hiddenEchoes := x1\<rparr>) = body_seqs p"
  "body_seqs (p\<lparr>tl_echoLinks := x2\<rparr>) = body_seqs p"
  "body_seqs (p\<lparr>tl_pins := x3\<rparr>) = body_seqs p"
  by (rule same_body_part; simp)+

definition keeps_body_seqs :: "timeline \<Rightarrow> timeline \<Rightarrow> bool" where
  "keeps_body_seqs p q \<longleftrightarrow> (bodies_ok p \<longrightarrow> bodies_ok q \<and> body_seqs q = body_seqs p)"

lemma keeps_erase: "keeps_body_seqs p (erase_message i t p)"
  by (auto simp: keeps_body_seqs_def erase_message_def Let_def bodies_ok_clear body_seqs_clear)

lemma keeps_shred_rows: "keeps_body_seqs p (fold (shred_row u t) ks p)"
proof (induction ks arbitrary: p)
  case Nil
  then show ?case by (simp add: keeps_body_seqs_def)
next
  case (Cons k ks)
  have "keeps_body_seqs p (shred_row u t k p)"
    using keeps_erase by (simp add: shred_row_def Let_def keeps_body_seqs_def)
  then show ?case using Cons [of "shred_row u t k p"] by (simp add: keeps_body_seqs_def)
qed

lemma keeps_shredded: "keeps_body_seqs p (applyUserKeyShredded u t p)"
proof (cases "u = []")
  case True
  then show ?thesis by (simp add: applyUserKeyShredded_def keeps_body_seqs_def)
next
  case False
  obtain t' q where q: "applyUserKeyShredded u t p = fold (shred_row u t') [0..<length (tl_entries p)] q"
    "tl_entries q = tl_entries p" "tl_rowByEvent q = tl_rowByEvent p" "tl_bodies q = tl_bodies p"
    "tl_orphans q = tl_orphans p" "tl_history q = tl_history p" "tl_orphanHistory q = tl_orphanHistory p"
    by (rule applyUserKeyShredded_fold [OF False])
  have "body_part q = body_part p"
    using q(2-7) by (simp add: body_part_def)
  then show ?thesis
    using keeps_shred_rows [of q u t' "[0..<length (tl_entries p)]"] same_body_part [of q p]
    by (simp add: q(1) keeps_body_seqs_def)
qed

lemma keeps_trans: "keeps_body_seqs p q \<Longrightarrow> keeps_body_seqs q r \<Longrightarrow> keeps_body_seqs p r"
  by (simp add: keeps_body_seqs_def)

lemma keeps_same: "body_part q = body_part p \<Longrightarrow> keeps_body_seqs p q"
  using same_body_part [of q p] by (simp add: keeps_body_seqs_def)

lemma keeps_refl: "keeps_body_seqs p p"
  by (simp add: keeps_body_seqs_def)

lemma keeps_clear: "keeps_body_seqs p (clearCurrentBody i p)"
  by (auto simp: keeps_body_seqs_def bodies_ok_clear body_seqs_clear)

text \<open>The first thing a post does is to lose its content when its author was erased.\<close>

definition erase_shredded_post :: "content_fact \<Rightarrow> timeline \<Rightarrow> timeline" where
  "erase_shredded_post ev p =
     (if ev_id ev \<noteq> [] \<and> MessageAuthorID ev |\<in>| tl_shreddedUsers p
      then erase_message (ev_id ev)
             (case fmlookup (tl_shreddedAt p) (MessageAuthorID ev) of None \<Rightarrow> zero_time | Some t \<Rightarrow> t) p
      else p)"

lemma apply_posted_alt:
  "apply_posted r ev m p =
     (let p1 = erase_shredded_post ev p;
          p2 = (case bodyState p1 (ev_id ev) of
                  Some s \<Rightarrow> if body_active s then refreshAttachmentMessage r (ev_id ev) p1 else p1
                | None \<Rightarrow> p1)
      in if mp_echo_of m \<noteq> [] \<and> ev_id ev \<noteq> []
         then refreshAttachmentMessage r (ev_id ev)
                (p2\<lparr>tl_echoLinks := fmupd (mp_echo_of m) (getl (tl_echoLinks p2) (mp_echo_of m) @ [ev_id ev])
                                    (tl_echoLinks p2)\<rparr>)
         else p2)"
  by (simp only: apply_posted_def erase_shredded_post_def Let_def)

lemma keeps_posted: "keeps_body_seqs p (apply_posted r ev m p)"
proof -
  have erase: "keeps_body_seqs p (erase_shredded_post ev p)"
    by (simp add: erase_shredded_post_def keeps_erase keeps_refl)
  have "body_part (apply_posted r ev m p) = body_part (erase_shredded_post ev p)"
    by (simp add: apply_posted_alt Let_def split: option.split)
  then show ?thesis
    by (rule keeps_trans [OF erase keeps_same])
qed

lemma keeps_retracted: "keeps_body_seqs p (apply_retracted r ev i p)"
proof (cases "i = []")
  case True
  then show ?thesis by (simp add: apply_retracted_def keeps_refl)
next
  case False
  have "body_part (apply_retracted r ev i p) =
      body_part (clearCurrentBody i (setTombstonedAt i (eventCreatedAt ev) p))"
    using False by (simp add: apply_retracted_def Let_def split: option.split)
  then have "keeps_body_seqs (clearCurrentBody i (setTombstonedAt i (eventCreatedAt ev) p)) (apply_retracted r ev i p)"
    by (rule keeps_same)
  then show ?thesis
    by (rule keeps_trans [OF keeps_trans [OF keeps_same [OF body_part_ops(1)] keeps_clear]])
qed

lemma keeps_effect: "keeps_body_seqs p (step_effect ev sq p)"
  by (cases "payload_of ev"; cases "the (payload_of ev)")
    (simp_all add: step_effect_def keeps_posted keeps_retracted keeps_refl keeps_same [OF body_part_ops(5)]
      keeps_same [OF body_part_ops(6)])

section \<open>Placement moves bodies, it does not change them\<close>

lemma place_event_bodies:
  "tl_bodies (place_event r ev sq p) =
     (if posted_of ev \<noteq> None then tl_bodies (adopt_orphan (ev_id ev) p) else tl_bodies p)"
  "tl_orphans (place_event r ev sq p) =
     (if posted_of ev \<noteq> None then tl_orphans (adopt_orphan (ev_id ev) p) else tl_orphans p)"
  "tl_history (place_event r ev sq p) =
     (if posted_of ev \<noteq> None then tl_history (adopt_orphan (ev_id ev) p) else tl_history p)"
  "tl_orphanHistory (place_event r ev sq p) =
     (if posted_of ev \<noteq> None then tl_orphanHistory (adopt_orphan (ev_id ev) p) else tl_orphanHistory p)"
  by (auto simp: place_event_alt Let_def indexEvent_def place_post_def appendEntry_def adopt_orphan_def
      shouldIndexRoomTimelineEvent_def split: option.splits)

lemma rows_ok_place: "rows_ok p \<Longrightarrow> rows_ok (place_event r ev sq p)"
  by (auto simp: rows_ok_def nth_append less_Suc_eq split: if_splits)

lemma bodies_numbered_place: "bodies_numbered p \<Longrightarrow> bodies_numbered (place_event r ev sq p)"
  by (auto simp: bodies_numbered_def visible_kind_posted map_filter_append
      List.map_filter_simps shouldIndexRoomTimelineEvent_def)

lemma body_index_place:
  assumes "rows_ok p" and "rowIndex p (ev_id ev) = None" and "ev_id ev \<noteq> []"
  shows "body_index (place_event r ev sq p) m =
     (if m = ev_id ev then (if posted_of ev \<noteq> None then Some (length (tl_bodies p)) else None)
      else body_index p m)"
  using assms rows_ok_D(1) [OF assms(1), of m]
  by (auto simp: body_index_def rowIndex_placed nth_append posted_is_indexed
      shouldIndexRoomTimelineEvent_def bind_eq_Some_conv split: bind_split)

lemma place_bodies:
  assumes ok: "bodies_ok p" and fresh: "rowIndex p (ev_id ev) = None" "ev_id ev \<noteq> []"
  shows "bodies_ok (place_event r ev sq p)" "body_seqs (place_event r ev sq p) = body_seqs p"
proof -
  let ?q = "place_event r ev sq p"
  have rows: "rows_ok p" "bodies_numbered p" using ok by (simp_all add: bodies_ok_def)
  have none: "body_index p (ev_id ev) = None" using fresh(1) by (simp add: body_index_def)
  note index = body_index_place [OF rows(1) fresh]
  have history_n: "getl (tl_history p) (length (tl_bodies p)) = []"
    using ok by (auto simp: bodies_ok_def)
  have state: "bodyState ?q m = bodyState p m" for m
  proof (cases "m = ev_id ev")
    case True
    have "bs_seq s \<noteq> 0" if "fmlookup (tl_orphans p) m = Some s" for s
      using ok that by (simp add: bodies_ok_def)
    then show ?thesis
      using True none
      by (auto simp: bodyState_def index place_event_bodies adopt_orphan_def Let_def zero_body_def
          split: option.splits)
  next
    case False
    then show ?thesis
      using bodies_ok_D(1) [OF ok, of m]
      by (cases "body_index p m")
        (auto simp: bodyState_def index place_event_bodies adopt_orphan_def Let_def nth_append)
  qed
  have history: "bodyHistory ?q m = bodyHistory p m" for m
  proof (cases "m = ev_id ev")
    case True
    then show ?thesis
      using none history_n
      by (auto simp: bodyHistory_def index place_event_bodies adopt_orphan_def Let_def)
  next
    case False
    then show ?thesis
      using bodies_ok_D(1) [OF ok, of m]
      by (cases "body_index p m")
        (auto simp: bodyHistory_def index place_event_bodies adopt_orphan_def Let_def getl_def)
  qed
  show "body_seqs ?q = body_seqs p"
    by (simp add: fun_eq_iff body_seqs_def state history split: option.split)
  show "bodies_ok ?q"
  proof -
    have "\<forall>m s. fmlookup (tl_orphans ?q) m = Some s \<longrightarrow> bs_seq s \<noteq> 0 \<and> body_index ?q m = None"
      using ok
      by (auto simp: bodies_ok_def place_event_bodies adopt_orphan_def Let_def index split: if_splits)
    moreover have "b < length (tl_bodies ?q) \<and> bs_seq (tl_bodies ?q ! b) \<noteq> 0"
      if "getl (tl_history ?q) b \<noteq> []" for b
    proof (cases "posted_of ev \<noteq> None \<and> b = length (tl_bodies p)")
      case True
      then have "getl (tl_orphanHistory p) (ev_id ev) \<noteq> []"
        using that history_n by (auto simp: place_event_bodies adopt_orphan_def Let_def split: if_splits)
      then obtain s where "fmlookup (tl_orphans p) (ev_id ev) = Some s" "bs_seq s \<noteq> 0"
        using ok by (auto simp: bodies_ok_def)
      then show ?thesis
        using True by (simp add: place_event_bodies adopt_orphan_def Let_def nth_append)
    next
      case False
      then have "getl (tl_history p) b \<noteq> []"
        using that by (auto simp: place_event_bodies adopt_orphan_def Let_def split: if_splits)
      then show ?thesis
        using ok by (auto simp: bodies_ok_def place_event_bodies adopt_orphan_def Let_def nth_append)
    qed
    moreover have "fmlookup (tl_orphans ?q) m \<noteq> None" if "getl (tl_orphanHistory ?q) m \<noteq> []" for m
      using that ok
      by (auto simp: bodies_ok_def place_event_bodies adopt_orphan_def Let_def getl_def
          split: if_splits option.splits)
    ultimately show ?thesis
      using rows by (simp add: bodies_ok_def rows_ok_place bodies_numbered_place)
  qed
qed

section \<open>The bodies of a log\<close>

text \<open>
  A body fact counts for a message when it names it, carries a body that belongs to this
  very event, and has an author who was not erased before.
\<close>

definition counts_for :: "string \<Rightarrow> string fset \<Rightarrow> content_fact \<Rightarrow> bool" where
  "counts_for m erased ev \<longleftrightarrow>
     (case payload_of ev of
        Some (MessageBody b) \<Rightarrow>
          mbe_room_id b \<noteq> [] \<and> m \<noteq> [] \<and> mbe_event_id b = m \<and>
          (case mbe_body b of
             None \<Rightarrow> False
           | Some bd \<Rightarrow> (bd_event_id bd = [] \<or> bd_event_id bd = ev_id ev)
                        \<and> bd_author_id bd \<noteq> [] \<and> bd_author_id bd |\<notin>| erased)
      | _ \<Rightarrow> False)"

definition erase_user :: "content_fact \<Rightarrow> string fset \<Rightarrow> string fset" where
  "erase_user ev erased =
     (case erased_user ev of None \<Rightarrow> erased | Some u \<Rightarrow> if u = [] then erased else finsert u erased)"

fun bodies_in_log :: "string \<Rightarrow> string fset \<Rightarrow> (content_fact \<times> seq) list \<Rightarrow> seq list" where
  "bodies_in_log m erased [] = []"
| "bodies_in_log m erased ((ev, sq) # log) =
     (if counts_for m erased ev then [sq] else []) @ bodies_in_log m (erase_user ev erased) log"

definition erased_in_log :: "(content_fact \<times> seq) list \<Rightarrow> string fset" where
  "erased_in_log log = fold (\<lambda>x. erase_user (fst x)) log {||}"

lemma bodies_in_log_snoc:
  "bodies_in_log m E (log @ [(ev, sq)]) = bodies_in_log m E log
     @ (if counts_for m (fold (\<lambda>x. erase_user (fst x)) log E) ev then [sq] else [])"
  by (induction log arbitrary: E) auto

lemma record_body_seqs:
  assumes "bodies_ok p" and "sq \<noteq> 0"
  shows "bodies_ok (record_body r ev i bd sq p)"
    and "body_seqs (record_body r ev i bd sq p) m =
      (if m = i \<and> bd_author_id bd \<noteq> [] \<and> bd_author_id bd |\<notin>| tl_shreddedUsers p
       then body_seqs p i @ [sq] else body_seqs p m)"
proof -
  define b where "b = (if bd_event_id bd = [] then ev_id ev else bd_event_id bd)"
  define n where "n = messageBodyAttachmentCount bd"
  define q where "q = setCurrentBody i b (bd_author_id bd) n sq p"
  have q: "bodies_ok q" "body_seqs q m = (if m = i then body_seqs p i @ [sq] else body_seqs p m)" for m
    using assms by (simp_all add: q_def bodies_ok_set body_seqs_set)
  have rec: "record_body r ev i bd sq p =
      (if bd_author_id bd = [] then p
       else if bd_author_id bd |\<in>| tl_shreddedUsers p
       then erase_message i
              (case fmlookup (tl_shreddedAt p) (bd_author_id bd) of None \<Rightarrow> zero_time | Some t \<Rightarrow> t) p
       else if i |\<in>| tl_retracted q then removeAttachmentMessage i (clearCurrentBody i q)
       else refreshAttachmentMessage r i q)"
    by (simp add: record_body_def Let_def b_def n_def q_def)
  show "bodies_ok (record_body r ev i bd sq p)"
    using assms(1) q(1) keeps_erase by (simp add: rec keeps_body_seqs_def bodies_ok_clear)
  show "body_seqs (record_body r ev i bd sq p) m =
      (if m = i \<and> bd_author_id bd \<noteq> [] \<and> bd_author_id bd |\<notin>| tl_shreddedUsers p
       then body_seqs p i @ [sq] else body_seqs p m)"
    using assms(1) q keeps_erase by (simp add: rec keeps_body_seqs_def body_seqs_clear)
qed

lemma apply_body_seqs:
  assumes "bodies_ok p" and "sq \<noteq> 0" and "payload_of ev = Some (MessageBody b)" and "mbe_room_id b \<noteq> []"
  shows "bodies_ok (apply_body r ev b sq p)"
    and "body_seqs (apply_body r ev b sq p) m =
      body_seqs p m @ (if counts_for m (tl_shreddedUsers p) ev then [sq] else [])"
  using assms record_body_seqs [OF assms(1,2), of r ev "mbe_event_id b"]
  by (auto simp: apply_body_def Let_def counts_for_def split: option.splits)

lemma step_bodies:
  assumes "bodies_ok p" and "rowIndex p (ev_id ev) = None" and "ev_id ev \<noteq> []" and "sq \<noteq> 0"
  shows "bodies_ok (timeline_step ev sq p)"
    and "body_seqs (timeline_step ev sq p) m =
      body_seqs p m @ (if counts_for m (tl_shreddedUsers p) ev then [sq] else [])"
proof -
  have "bodies_ok (timeline_step ev sq p) \<and> body_seqs (timeline_step ev sq p) m =
      body_seqs p m @ (if counts_for m (tl_shreddedUsers p) ev then [sq] else [])"
  proof (rule timeline_step_cases [where ev = ev and sq = sq and p = p])
    fix u
    assume "erased_user ev = Some u"
      and step: "timeline_step ev sq p = applyUserKeyShredded u (eventCreatedAt ev) p"
    then have "\<not> counts_for m (tl_shreddedUsers p) ev"
      by (auto simp: counts_for_def erased_user_def split: option.splits content_event.splits)
    then show ?thesis
      using assms(1) keeps_shredded [of p u "eventCreatedAt ev"] by (simp add: step keeps_body_seqs_def)
  next
    assume "\<not> applies ev" and step: "timeline_step ev sq p = p"
    then have "\<not> counts_for m (tl_shreddedUsers p) ev"
      by (auto simp: counts_for_def applies_def eventMutatesRoomTimelineProjection_def roomIDOfEvent_def
          split: option.splits content_event.splits)
    then show ?thesis using assms(1) by (simp add: step)
  next
    fix b
    assume b: "payload_of ev = Some (MessageBody b)" and "applies ev"
      and step: "timeline_step ev sq p = apply_body (roomIDOfEvent ev) ev b sq p"
    then have "mbe_room_id b \<noteq> []" by (simp add: applies_def roomIDOfEvent_def)
    then show ?thesis using apply_body_seqs [OF assms(1,4) b] by (simp add: step)
  next
    assume other: "\<forall>b. payload_of ev \<noteq> Some (MessageBody b)"
      and step: "timeline_step ev sq p = step_effect ev sq (place_event (roomIDOfEvent ev) ev sq p)"
    have "\<not> counts_for m (tl_shreddedUsers p) ev"
      using other by (auto simp: counts_for_def split: option.splits content_event.splits)
    then show ?thesis
      using keeps_effect [of "place_event (roomIDOfEvent ev) ev sq p" ev sq] place_bodies [OF assms(1-3)]
      by (simp add: step keeps_body_seqs_def)
  qed
  then show "bodies_ok (timeline_step ev sq p)"
    and "body_seqs (timeline_step ev sq p) m =
      body_seqs p m @ (if counts_for m (tl_shreddedUsers p) ev then [sq] else [])"
    by simp_all
qed

lemma rows_indexed_step:
  assumes "rows_ok p" and "rows_indexed p" and "rowIndex p (ev_id ev) = None" and "ev_id ev \<noteq> []"
  shows "rows_indexed (timeline_step ev sq p)"
  using assms
  by (auto simp: rows_indexed_def rowIndex_step step_rows nth_append less_Suc_eq)

lemma timeline_of_bodies:
  assumes "clean_log log"
  shows "bodies_ok (timeline_of log) \<and> rows_indexed (timeline_of log)
    \<and> tl_shreddedUsers (timeline_of log) = erased_in_log log
    \<and> (\<forall>m. body_seqs (timeline_of log) m = bodies_in_log m {||} log)"
  using assms
proof (induction log rule: clean_log_induct)
  case Nil
  have "bodies_ok NewRoomTimelineProjection"
    using timeline_wf_new
    by (simp add: bodies_ok_def timeline_wf_def) (simp add: NewRoomTimelineProjection_def)
  then show ?case
    by (simp add: rows_indexed_def erased_in_log_def body_seqs_def bodyState_def body_index_def rowIndex_def)
      (simp add: NewRoomTimelineProjection_def)
next
  case (snoc log ev sq)
  have fresh: "rowIndex (timeline_of log) (ev_id ev) = None"
    using entry_id_logged [OF snoc(1)] snoc(3) by (cases "rowIndex (timeline_of log) (ev_id ev)") auto
  have "sq \<noteq> 0" using snoc(2) by auto
  have ok: "bodies_ok (timeline_of log)" and idx: "rows_indexed (timeline_of log)"
    using snoc.IH by simp_all
  have rows: "rows_ok (timeline_of log)" using ok by (simp add: bodies_ok_def)
  note step = step_bodies [OF ok fresh snoc(4) \<open>sq \<noteq> 0\<close>]
  have "bodies_ok (timeline_step ev sq (timeline_of log))"
    by (rule step(1))
  moreover have "erased_in_log (log @ [(ev, sq)]) = tl_shreddedUsers (timeline_step ev sq (timeline_of log))"
  proof -
    have "tl_shreddedUsers (timeline_of log) = erased_in_log log" using snoc.IH by simp
    then show ?thesis by (simp add: erased_in_log_def shreddedUsers_step erase_user_def split: option.split)
  qed
  moreover have "body_seqs (timeline_step ev sq (timeline_of log)) m = bodies_in_log m {||} (log @ [(ev, sq)])"
    for m
    using step(2) [of m] snoc.IH by (simp add: bodies_in_log_snoc erased_in_log_def)
  ultimately show ?case
    using rows_indexed_step [OF rows idx fresh snoc(4)] by (simp add: timeline_of_snoc)
qed

section \<open>What is kept and what may be deleted\<close>

text \<open>C19 (refinement). The body history of a message is that of the log: the sequences of the body
  facts that count for it, in order, whether they arrived before or after the post. Without
  any the message has no body; with a row, the last one is current. All of them may be
  deleted physically when the message was retracted or is a hidden echo, and all but the
  last one otherwise.\<close>

theorem body_history_exact:
  assumes "clean_log (startup @ live)"
    and "replayed Timeline_Apply Timeline_CompleteStartupReplay startup live
           NewRoomTimelineProjection = Some p"
    and "m \<noteq> []"
  shows "let seqs = bodies_in_log m {||} (startup @ live) in
    BodyEventSeqs p m =
      (if timeline_Get p m = None then ([], 0, False)
       else if seqs = [] then ([], 0, True) else (seqs, last seqs, True))
    \<and> ObsoleteBodyEventSeqs p m =
        (if MessageTombstoned p m \<or> IsHiddenEcho p m then seqs else butlast seqs)"
proof -
  obtain g where p: "p = set_tl_guard g (timeline_of (startup @ live))"
    by (rule replayed_timeline [OF assms(1,2)])
  have bodies: "bodies_ok (timeline_of (startup @ live))"
    and log: "body_seqs (timeline_of (startup @ live)) m = bodies_in_log m {||} (startup @ live)"
    using timeline_of_bodies [OF assms(1)] assms(3) by simp_all
  have seqs: "bodies_in_log m {||} (startup @ live) =
      (case bodyState p m of None \<Rightarrow> [] | Some s \<Rightarrow> bodyHistory p m @ [bs_seq s])"
    using log by (simp add: body_seqs_def p split: option.splits)
  have "rows_ok p"
    using bodies by (simp add: p bodies_ok_def rows_ok_def)
  then have get: "timeline_Get p m = None \<longleftrightarrow> rowIndex p m = None"
    using rows_ok_D [of p m] by (cases "rowIndex p m") (auto simp: timeline_Get_def entryByEventID_def entryAt_def)
  show ?thesis
    using assms(3)
    by (auto simp: Let_def seqs get BodyEventSeqs_def ObsoleteBodyEventSeqs_def MessageTombstoned_def
        IsHiddenEcho_def appendBodySequences_def split: option.splits)
qed

text \<open>The scan over all rows, in terms of messages.\<close>

lemma all_obsolete_of_message:
  assumes "bodies_ok p" and "rows_indexed p" and "q \<in> set (AllObsoleteBodyEventSeqs p)"
  obtains m s where "bodyState p m = Some s" "q \<in> set (obsolete_of p m (bodyHistory p m) s)"
proof -
  from assms(3) consider
    (row) r b where "r \<in> set (tl_entries p)" "Some b = row_body r" "bs_seq (tl_bodies p ! b) \<noteq> 0"
      "q \<in> set (obsolete_of p (row_event r) (getl (tl_history p) b) (tl_bodies p ! b))"
  | (orphan) i s where "fmlookup (tl_orphans p) i = Some s"
      "q \<in> set (obsolete_of p i (getl (tl_orphanHistory p) i) s)"
    by (auto simp: AllObsoleteBodyEventSeqs_def Let_def fmlookup_dom_iff split: option.splits if_splits)
  then show ?thesis
  proof cases
    case row
    then obtain i where i: "i < length (tl_entries p)" "r = tl_entries p ! i"
      by (auto simp: in_set_conv_nth)
    then have "rowIndex p (row_event r) = Some i"
      using assms(2) by (simp add: rows_indexed_def)
    then have "body_index p (row_event r) = Some b"
      using row(2) i by (simp add: body_index_def)
    then show ?thesis
      using row(3,4) by (intro that [of "row_event r"]) (simp_all add: bodyState_def bodyHistory_def)
  next
    case orphan
    then have "body_index p i = None" using assms(1) by (simp add: bodies_ok_def)
    then show ?thesis
      using orphan by (intro that [of i]) (simp_all add: bodyState_def bodyHistory_def)
  qed
qed

lemma obsolete_of_seqs:
  assumes "q \<in> set (obsolete_of p m (bodyHistory p m) s)" and "bodyState p m = Some s"
  shows "q \<in> set (body_seqs p m)"
    and "m |\<notin>| tl_retracted p \<Longrightarrow> m |\<notin>| tl_hiddenEchoes p \<Longrightarrow> q \<in> set (butlast (body_seqs p m))"
  using assms by (auto simp: obsolete_of_def appendBodySequences_def body_seqs_def split: if_splits)

lemma bodies_in_log_mem:
  assumes "q \<in> set (bodies_in_log m E log)"
  shows "\<exists>ev. (ev, q) \<in> set log \<and> (\<exists>b. payload_of ev = Some (MessageBody b) \<and> mbe_event_id b = m)"
  using assms
proof (induction m E log rule: bodies_in_log.induct)
  case (2 m E ev sq log)
  have "counts_for m E ev \<Longrightarrow> \<exists>b. payload_of ev = Some (MessageBody b) \<and> mbe_event_id b = m"
    by (auto simp: counts_for_def split: option.splits content_event.splits)
  then show ?case using 2 by (auto split: if_splits)
qed simp

lemma bodies_in_log_sorted:
  assumes "increasing_from b log"
  shows "sorted_wrt (<) (bodies_in_log m E log)" and "\<forall>q \<in> set (bodies_in_log m E log). b < q"
  using assms
  by (induction m E log arbitrary: b rule: bodies_in_log.induct) (auto intro: less_trans)

lemma current_is_last:
  assumes "rows_ok p" and "LatestBodyReference p i = (ref, retracted, ok)" and "br_seq ref \<noteq> 0"
    and "\<forall>h. h |\<in>| tl_hiddenEchoes p \<longrightarrow> IsEcho p h"
  obtains m s where "bodyState p m = Some s" "br_seq ref = bs_seq s"
    "m |\<notin>| tl_retracted p" "m |\<notin>| tl_hiddenEchoes p" "br_message_id ref = m"
proof -
  obtain e s where e: "contentEntry p i = Some e" "te_event_id e |\<notin>| tl_retracted p"
      "bodyState p (te_event_id e) = Some s" "br_seq ref = bs_seq s" "br_message_id ref = te_event_id e"
      "i |\<notin>| tl_hiddenEchoes p"
    using assms(2,3)
    by (auto simp: LatestBodyReference_def latestBodyReference_def no_reference_def
        split: option.splits if_splits)
  have entry: "entryByEventID p (te_event_id e) = Some e"
    by (rule contentEntry_id [OF assms(1) e(1)])
  have "te_event_id e |\<notin>| tl_hiddenEchoes p"
  proof
    assume "te_event_id e |\<in>| tl_hiddenEchoes p"
    then have "te_echo_of e \<noteq> []"
      using assms(4) entry by (auto simp: IsEcho_def echoOriginalID_def)
    then have "entryByEventID p i = Some e"
      using e(1) by (auto simp: contentEntry_def split: option.splits if_splits)
    then have "te_event_id e = i"
      using rows_ok_D(2) [OF assms(1), of i]
      by (auto simp: entryByEventID_def bind_eq_Some_conv entryAt_def entryOfRow_def split: if_splits)
    then show False using e(6) \<open>te_event_id e |\<in>| tl_hiddenEchoes p\<close> by simp
  qed
  then show ?thesis using e by (intro that [of "te_event_id e" s]) simp_all
qed

text \<open>C20 (safety). The physical deletion of superseded bodies never takes content that is
  still read: the body any message or echo refers a reader to is not among the sequences the
  timeline gives out for deletion, and it is the last one the log has for its message.\<close>

theorem current_body_is_kept:
  assumes "clean_log (startup @ live)"
    and "replayed Timeline_Apply Timeline_CompleteStartupReplay startup live
           NewRoomTimelineProjection = Some p"
    and "LatestBodyReference p i = (ref, retracted, ok)" and "br_seq ref \<noteq> 0"
  shows "br_seq ref \<notin> set (AllObsoleteBodyEventSeqs p)
    \<and> bodies_in_log (br_message_id ref) {||} (startup @ live) \<noteq> []
    \<and> br_seq ref = last (bodies_in_log (br_message_id ref) {||} (startup @ live))"
proof -
  let ?log = "startup @ live"
  obtain g where p: "p = set_tl_guard g (timeline_of ?log)"
    by (rule replayed_timeline [OF assms(1,2)])
  have part: "body_part p = body_part (timeline_of ?log)" by (simp add: p body_part_def)
  note logged = timeline_of_bodies [OF assms(1)]
  have ok: "bodies_ok p" and log: "body_seqs p m = bodies_in_log m {||} ?log" for m
    using logged by (simp_all add: same_body_part [OF part])
  have idx: "rows_indexed p"
    using logged by (simp add: rows_indexed_def p)
  have "\<forall>h. h |\<in>| tl_hiddenEchoes p \<longrightarrow> IsEcho p h"
    using timeline_of_retractions [OF assms(1)] by (simp add: retractions_ok_def p IsEcho_def)
  moreover have "rows_ok p" using ok by (simp add: bodies_ok_def)
  ultimately obtain m s where s: "bodyState p m = Some s" "br_seq ref = bs_seq s"
      "m |\<notin>| tl_retracted p" "m |\<notin>| tl_hiddenEchoes p" "br_message_id ref = m"
    using current_is_last [OF _ assms(3,4)] by blast
  have seqs: "body_seqs p m = bodyHistory p m @ [br_seq ref]"
    using s by (simp add: body_seqs_def)
  have inc: "increasing_from 0 ?log" using assms(1) by (simp add: clean_log_def)
  have "sorted_wrt (<) (body_seqs p m)"
    using bodies_in_log_sorted(1) [OF inc] log by simp
  then have fresh: "br_seq ref \<notin> set (bodyHistory p m)"
    by (auto simp: seqs sorted_wrt_append)
  have "br_seq ref \<notin> set (AllObsoleteBodyEventSeqs p)"
  proof
    assume "br_seq ref \<in> set (AllObsoleteBodyEventSeqs p)"
    then obtain m' s' where m': "bodyState p m' = Some s'"
        "br_seq ref \<in> set (obsolete_of p m' (bodyHistory p m') s')"
      by (rule all_obsolete_of_message [OF ok idx])
    have "br_seq ref \<in> set (bodies_in_log m' {||} ?log)" "br_seq ref \<in> set (bodies_in_log m {||} ?log)"
      using obsolete_of_seqs(1) [OF m'(2,1)] log seqs by (metis in_set_conv_decomp)+
    from bodies_in_log_mem [OF this(1)] bodies_in_log_mem [OF this(2)]
    obtain ev ev' b b' where
      "(ev', br_seq ref) \<in> set ?log" "payload_of ev' = Some (MessageBody b')" "mbe_event_id b' = m'"
      "(ev, br_seq ref) \<in> set ?log" "payload_of ev = Some (MessageBody b)" "mbe_event_id b = m"
      by blast
    then have "m' = m"
      using increasing_seq_inj [OF inc, of ev' "br_seq ref" ev] by auto
    then show False
      using obsolete_of_seqs(2) [OF m'(2,1)] s(3,4) seqs fresh by simp
  qed
  then show ?thesis
    by (simp add: s(5) seqs flip: log)
qed

end
