(* ===== verification/Room_Timeline_Windows.thy ===== *)
theory Room_Timeline_Windows
  imports Room_Timeline_Properties
begin

text \<open>
  The window around an event, the slow-mode clock and the pins of the room timeline, against
  their declarative meaning over the visible entries and over the log.
\<close>

section \<open>Windows\<close>

text \<open>Both loops over the entries that are shown, instead of the row indexes.\<close>

fun locate_in :: "string \<Rightarrow> timeline_entry list \<Rightarrow> nat option \<Rightarrow> nat \<Rightarrow> nat option" where
  "locate_in m [] target count = target"
| "locate_in m (e # es) target count =
     locate_in m es (if te_event_id e = m then Some count else target) (count + 1)"

lemma around_skips_iff:
  assumes "i < length (tl_entries p)"
  shows "around_skips p visible i \<longleftrightarrow> \<not> shown p visible (entryOfRow (tl_entries p ! i))"
  using assms
  by (simp add: around_skips_def shown_def isHiddenEchoEntry_def passes_def entryAt_def Let_def
      split: option.splits)

lemma locate_shown:
  assumes "\<forall>i \<in> set is. i < length (tl_entries p)"
  shows "locate p visible m is target count =
    (let es = filter (shown p visible) (map (\<lambda>i. entryOfRow (tl_entries p ! i)) is)
     in (locate_in m es target count, count + length es))"
  unfolding Let_def using assms
proof (induction "is" arbitrary: target count)
  case (Cons i "is")
  then show ?case by (simp add: around_skips_iff entryAt_def)
qed simp

lemma window_shown:
  assumes "\<forall>i \<in> set is. i < length (tl_entries p)"
  shows "window p visible start stop is k = map Some (take (stop - max k start) (drop (start - k)
    (filter (shown p visible) (map (\<lambda>i. entryOfRow (tl_entries p ! i)) is))))"
  using assms
proof (induction "is" arbitrary: k)
  case (Cons i "is")
  let ?es = "filter (shown p visible) (map (\<lambda>i. entryOfRow (tl_entries p ! i)) is)"
  have IH: "window p visible start stop is (Suc k)
      = map Some (take (stop - max (Suc k) start) (drop (start - Suc k) ?es))"
    using Cons by simp
  have i: "i < length (tl_entries p)" using Cons.prems by simp
  show ?case
  proof (cases "shown p visible (entryOfRow (tl_entries p ! i))")
    case False
    then show ?thesis using Cons i by (simp add: around_skips_iff)
  next
    case True
    have start: "start - k = Suc (start - Suc k)" "max (Suc k) start = start" "max k start = start"
      if "\<not> start \<le> k"
      using that by auto
    show ?thesis
    proof (cases "start \<le> k")
      case True
      then show ?thesis
        using \<open>shown p visible _\<close> i IH
        by (cases "k < stop") (auto simp: around_skips_iff entryAt_def max_def take_Cons')
    next
      case False
      then show ?thesis
        using \<open>shown p visible _\<close> i IH start [OF False]
        by (auto simp: around_skips_iff)
    qed
  qed
qed simp

lemma locate_in_cases:
  "(\<exists>j < length es. te_event_id (es ! j) = m \<and> locate_in m es target count = Some (count + j))
   \<or> ((\<forall>e \<in> set es. te_event_id e \<noteq> m) \<and> locate_in m es target count = target)"
proof (induction es arbitrary: target count)
  case (Cons e es)
  let ?t = "if te_event_id e = m then Some count else target"
  from Cons [of ?t "count + 1"] show ?case
  proof
    assume "\<exists>j < length es. te_event_id (es ! j) = m \<and> locate_in m es ?t (count + 1) = Some (count + 1 + j)"
    then obtain j where "j < length es" "te_event_id (es ! j) = m"
        "locate_in m es ?t (count + 1) = Some (count + 1 + j)" by blast
    then show ?thesis by (intro disjI1 exI [of _ "Suc j"]) simp
  next
    assume "(\<forall>x \<in> set es. te_event_id x \<noteq> m) \<and> locate_in m es ?t (count + 1) = ?t"
    then show ?thesis by (cases "te_event_id e = m") (auto intro!: exI [of _ 0])
  qed
qed simp

text \<open>The bounds of the window, as the source computes them, are the clamped centre.\<close>

lemma window_bounds:
  fixes t count :: nat and limit :: int
  assumes "t < count" and "0 < limit"
  defines "n \<equiv> min (nat limit) count" and "c \<equiv> nat ((limit - 1) div 2)"
  defines "start \<equiv> min (t - c) (count - n)"
  defines "start0 \<equiv> nat (max (int t - (limit - 1) div 2) 0)"
  shows "(if count < start0 + nat limit then (nat (max (int count - limit) 0), count)
          else (start0, start0 + nat limit)) = (start, start + n)"
    and "start \<le> t" and "t < start + n" and "start + n \<le> count"
proof -
  have half: "0 \<le> (limit - 1) div 2" "(limit - 1) div 2 < limit"
    using assms(2) by (auto simp: div_less_dividend)
  have s0: "start0 = t - c"
    using half(1) by (simp add: start0_def c_def nat_diff_distrib max_def split: if_splits)
  have c: "c < nat limit"
    using half assms(2) by (simp add: c_def)
  have r: "nat (max (int count - limit) 0) = count - nat limit"
    using assms(2) by (simp add: max_def nat_diff_distrib)
  show "(if count < start0 + nat limit then (nat (max (int count - limit) 0), count)
          else (start0, start0 + nat limit)) = (start, start + n)"
    unfolding r s0 start_def n_def by (auto simp: min_def)
  show "start \<le> t" by (simp add: start_def)
  have "t - c \<le> start \<or> start = count - n" by (auto simp: start_def)
  moreover have "t < t - c + n" using c assms(1) unfolding n_def by linarith
  moreover have "n \<le> count" by (simp add: n_def)
  ultimately show "t < start + n" using assms(1) by linarith
  show "start + n \<le> count" by (auto simp: start_def n_def min_def)
qed

text \<open>The window centred on position \<open>t\<close> of the shown entries.\<close>

definition centred :: "timeline_entry list \<Rightarrow> int \<Rightarrow> nat \<Rightarrow> timeline_window" where
  "centred xs limit t =
     (let n = min (nat limit) (length xs); start = min (t - nat ((limit - 1) div 2)) (length xs - n)
      in \<lparr>wd_entries = map Some (take n (drop start xs)), wd_target = t - start,
          wd_older = 0 < start, wd_newer = start + n < length xs\<rparr>)"

lemma around_centred:
  assumes range: "\<forall>i \<in> set (getl (tl_byRoom p) r). i < length (tl_entries p)"
  shows "VisibleRoomTimelineAround p r m limit visible =
    (if limit \<le> 0 \<or> m = [] then None
     else map_option (centred (shown_entries p r visible) limit) (locate_in m (shown_entries p r visible) None 0))"
proof -
  define xs where "xs = shown_entries p r visible"
  note loc = locate_shown [OF range, of visible m None 0, unfolded Let_def, folded room_entries_def,
      folded shown_entries_def, folded xs_def]
  note win = window_shown [OF range, of visible _ _ 0, folded room_entries_def,
      folded shown_entries_def, folded xs_def]
  show ?thesis
  proof (cases "limit \<le> 0 \<or> m = []")
    case True
    then show ?thesis by (auto simp: VisibleRoomTimelineAround_def)
  next
    case False
    then have limit: "0 < limit" by simp
    show ?thesis
    proof (cases "locate_in m xs None 0")
      case None
      then show ?thesis
        using False unfolding xs_def [symmetric] by (simp add: VisibleRoomTimelineAround_def loc)
    next
      case (Some t)
      then have t: "t < length xs" using locate_in_cases [of xs m None 0] by auto
      define n where "n = min (nat limit) (length xs)"
      define start where "start = min (t - nat ((limit - 1) div 2)) (length xs - n)"
      note bounds = window_bounds(1) [OF t limit, folded n_def, folded start_def]
      have "VisibleRoomTimelineAround p r m limit visible = Some (centred xs limit t)"
        unfolding centred_def Let_def n_def [symmetric] start_def [symmetric]
        using False by (simp add: VisibleRoomTimelineAround_def loc Some bounds win Let_def)
      then show ?thesis using False Some unfolding xs_def [symmetric] by simp
    qed
  qed
qed

text \<open>C31 (equivalence). The window around an event is the one its description asks for. It
  exists exactly when the event is visible to the reader and the limit is positive. It holds
  the limit's number of entries, or all of them when there are fewer, in order and without
  gaps; the event is in the middle unless an end of the timeline is nearer, at the position
  reported; and the two flags say exactly whether entries lie before and after it.\<close>

theorem window_is_exact:
  assumes "clean_log (startup @ live)"
    and "replayed Timeline_Apply Timeline_CompleteStartupReplay startup live
           NewRoomTimelineProjection = Some p"
  shows "let xs = shown_entries p r visible; n = min (nat limit) (length xs) in
    (VisibleRoomTimelineAround p r m limit visible = None
       \<longleftrightarrow> limit \<le> 0 \<or> m = [] \<or> m \<notin> te_event_id ` set xs)
    \<and> (\<forall>w. VisibleRoomTimelineAround p r m limit visible = Some w \<longrightarrow>
         (\<exists>start t.
            wd_entries w = map Some (take n (drop start xs)) \<and> start + n \<le> length xs
            \<and> start \<le> t \<and> t < start + n \<and> te_event_id (xs ! t) = m \<and> wd_target w = t - start
            \<and> start = min (t - nat ((limit - 1) div 2)) (length xs - n)
            \<and> wd_older w = (0 < start) \<and> wd_newer w = (start + n < length xs)))"
proof -
  define xs where "xs = shown_entries p r visible"
  define n where "n = min (nat limit) (length xs)"
  obtain g where "p = set_tl_guard g (timeline_of (startup @ live))"
    by (rule replayed_timeline [OF assms])
  then have "timeline_wf p"
    using timeline_of_wf [OF assms(1)] by simp
  then have around: "VisibleRoomTimelineAround p r m limit visible =
      (if limit \<le> 0 \<or> m = [] then None else map_option (centred xs limit) (locate_in m xs None 0))"
    unfolding xs_def by (intro around_centred) (simp add: timeline_wf_def lists_ok_def)
  note located = locate_in_cases [of xs m None 0]
  have none: "VisibleRoomTimelineAround p r m limit visible = None
      \<longleftrightarrow> limit \<le> 0 \<or> m = [] \<or> m \<notin> te_event_id ` set xs"
    using located by (auto simp: around)
  have some: "\<exists>start t. wd_entries w = map Some (take n (drop start xs)) \<and> start + n \<le> length xs
      \<and> start \<le> t \<and> t < start + n \<and> te_event_id (xs ! t) = m \<and> wd_target w = t - start
      \<and> start = min (t - nat ((limit - 1) div 2)) (length xs - n)
      \<and> wd_older w = (0 < start) \<and> wd_newer w = (start + n < length xs)"
    if "VisibleRoomTimelineAround p r m limit visible = Some w" for w
  proof -
    from that obtain t where t: "0 < limit" "w = centred xs limit t" "locate_in m xs None 0 = Some t"
      by (auto simp: around split: if_splits)
    with located have at: "t < length xs" "te_event_id (xs ! t) = m" by auto
    define start where "start = min (t - nat ((limit - 1) div 2)) (length xs - n)"
    note bounds = window_bounds(2-4) [OF at(1) t(1), folded n_def, folded start_def]
    have w: "w = \<lparr>wd_entries = map Some (take n (drop start xs)), wd_target = t - start,
        wd_older = 0 < start, wd_newer = start + n < length xs\<rparr>"
      unfolding t(2) centred_def Let_def n_def [symmetric] start_def [symmetric] ..
    have "wd_entries w = map Some (take n (drop start xs))" "wd_target w = t - start"
      "wd_older w = (0 < start)" "wd_newer w = (start + n < length xs)"
      by (simp_all only: w timeline_window.simps)
    then show ?thesis using bounds at(2) start_def by blast
  qed
  show ?thesis
    unfolding Let_def n_def [symmetric, unfolded xs_def] using none some by (simp add: xs_def)
qed

section \<open>The slow-mode clock\<close>

definition is_root_post :: "string \<Rightarrow> string \<Rightarrow> content_fact \<Rightarrow> bool" where
  "is_root_post r a ev \<longleftrightarrow>
     (case posted_of ev of
        None \<Rightarrow> False
      | Some m \<Rightarrow> mp_room_id m = r \<and> mp_in_thread m = [] \<and> mp_echo_of m = []
                 \<and> \<not> mp_historical m \<and> ev_actor ev = a)"

definition root_post_times :: "string \<Rightarrow> string \<Rightarrow> (content_fact \<times> seq) list \<Rightarrow> time list" where
  "root_post_times r a log = [eventCreatedAt (fst x). x \<leftarrow> log, is_root_post r a (fst x)]"

lemma posted_room: "posted_of ev = Some m \<Longrightarrow> roomIDOfEvent ev = mp_room_id m"
  by (simp add: posted_of_def roomIDOfEvent_def split: option.splits content_event.splits)

lemma place_event_latest:
  "tl_latestRootPostAt (place_event r ev sq p) =
     (case posted_of ev of
        None \<Rightarrow> tl_latestRootPostAt p
      | Some m \<Rightarrow>
          if mp_in_thread m = [] \<and> mp_echo_of m = [] \<and> \<not> mp_historical m \<and> ev_actor ev \<noteq> []
          then fmupd (r, ev_actor ev) (eventCreatedAt ev) (tl_latestRootPostAt p)
          else tl_latestRootPostAt p)"
  by (auto simp: place_event_alt Let_def indexEvent_def place_post_def shouldIndexRoomTimelineEvent_def
      split: option.splits)

lemma latest_step_place:
  "tl_latestRootPostAt (timeline_step ev sq p) =
     (if roomIDOfEvent ev = [] then tl_latestRootPostAt p
      else tl_latestRootPostAt (place_event (roomIDOfEvent ev) ev sq p))"
proof (rule timeline_step_cases [where ev = ev and sq = sq and p = p])
  fix u
  assume "erased_user ev = Some u" and "timeline_step ev sq p = applyUserKeyShredded u (eventCreatedAt ev) p"
  then show ?thesis
    by (simp add: place_event_latest not_indexed_not_posted erased_not_indexed)
next
  assume "\<not> applies ev" and "timeline_step ev sq p = p"
  moreover from this have "posted_of ev = None" if "roomIDOfEvent ev \<noteq> []"
    using that indexed_applies [of ev] not_indexed_not_posted [of ev] by blast
  ultimately show ?thesis by (simp add: place_event_latest)
next
  fix b
  assume "payload_of ev = Some (MessageBody b)"
    and "timeline_step ev sq p = apply_body (roomIDOfEvent ev) ev b sq p"
  then show ?thesis
    by (simp add: place_event_latest not_indexed_not_posted body_not_indexed)
qed (simp add: applies_def)

lemma latest_step:
  assumes "r \<noteq> []" and "a \<noteq> []"
  shows "fmlookup (tl_latestRootPostAt (timeline_step ev sq p)) (r, a) =
     (if is_root_post r a ev then Some (eventCreatedAt ev)
      else fmlookup (tl_latestRootPostAt p) (r, a))"
  using assms posted_room [of ev]
  by (auto simp: latest_step_place place_event_latest is_root_post_def split: option.splits)

text \<open>The slow-mode clock of an account in a room is the time of its last root
  post there: the last record of the log that is a post of the account in the room outside
  any thread, no echo and no import. Edits, retractions, erasures and hidden echoes do not
  move it, so deleting a message does not buy an earlier next one.\<close>

theorem slow_mode_clock_exact:
  assumes "clean_log (startup @ live)"
    and "replayed Timeline_Apply Timeline_CompleteStartupReplay startup live
           NewRoomTimelineProjection = Some p"
    and "r \<noteq> []" and "a \<noteq> []"
  shows "LatestRootPostAt p r a =
    (let times = root_post_times r a (startup @ live) in
     if times = [] \<or> last times = zero_time then None else Some (last times))"
proof -
  obtain g where p: "p = set_tl_guard g (timeline_of (startup @ live))"
    by (rule replayed_timeline [OF assms(1,2)])
  have "fmlookup (tl_latestRootPostAt (timeline_of log)) (r, a)
      = (let times = root_post_times r a log in if times = [] then None else Some (last times))"
    if "clean_log log" for log
    using that
  proof (induction log rule: clean_log_induct)
    case Nil
    show ?case by (simp add: root_post_times_def) (simp add: NewRoomTimelineProjection_def)
  next
    case (snoc log ev sq)
    then show ?case
      by (simp add: timeline_of_snoc latest_step [OF assms(3,4)] root_post_times_def Let_def)
  qed
  then show ?thesis
    using assms(1) by (simp add: LatestRootPostAt_def p Let_def)
qed

section \<open>Pins\<close>

definition pin_of :: "content_fact \<Rightarrow> seq \<Rightarrow> string \<Rightarrow> string \<Rightarrow> pinned_message" where
  "pin_of ev sq r m =
     \<lparr>pin_event_id = ev_id ev, pin_seq = sq, pin_room_id = r, pin_message_id = m\<rparr>"

text \<open>The pin of a message after one more record, and after a log.\<close>

definition pin_step ::
  "string \<Rightarrow> string \<Rightarrow> content_fact \<times> seq \<Rightarrow> pinned_message option \<Rightarrow> pinned_message option" where
  "pin_step r m x s =
     (case payload_of (fst x) of
        Some (MessagePinned r' m') \<Rightarrow> if r' = r \<and> m' = m then Some (pin_of (fst x) (snd x) r m) else s
      | Some (MessageUnpinned r' m') \<Rightarrow> if r' = r \<and> m' = m then None else s
      | _ \<Rightarrow> s)"

definition pin_in_log :: "string \<Rightarrow> string \<Rightarrow> (content_fact \<times> seq) list \<Rightarrow> pinned_message option" where
  "pin_in_log r m log = fold (pin_step r m) log None"

definition pins_message_in :: "string \<Rightarrow> content_fact \<Rightarrow> bool" where
  "pins_message_in r ev \<longleftrightarrow> (\<exists>m. m \<noteq> [] \<and> payload_of ev = Some (MessagePinned r m))"

definition pin_events :: "string \<Rightarrow> (content_fact \<times> seq) list \<Rightarrow> (content_fact \<times> seq) list" where
  "pin_events r log = filter (\<lambda>x. pins_message_in r (fst x)) log"

lemma pins_step:
  assumes "r \<noteq> []" and "m \<noteq> []" and "m |\<notin>| tl_retracted (timeline_step ev sq p)"
  shows "fmlookup (room_pins (timeline_step ev sq p) r) m
     = pin_step r m (ev, sq) (fmlookup (room_pins p r) m)"
proof (rule timeline_step_cases [where ev = ev and sq = sq and p = p])
  fix u
  assume "erased_user ev = Some u"
    and "timeline_step ev sq p = applyUserKeyShredded u (eventCreatedAt ev) p"
  then show ?thesis
    by (auto simp: room_pins_def pin_step_def erased_user_def split: option.splits content_event.splits)
next
  assume "\<not> applies ev" and "timeline_step ev sq p = p"
  then show ?thesis
    using assms(1)
    by (auto simp: pin_step_def applies_def eventMutatesRoomTimelineProjection_def roomIDOfEvent_def
        split: option.splits content_event.splits)
next
  fix b
  assume "payload_of ev = Some (MessageBody b)"
    and "timeline_step ev sq p = apply_body (roomIDOfEvent ev) ev b sq p"
  then show ?thesis by (simp add: room_pins_def pin_step_def)
next
  assume step: "timeline_step ev sq p = step_effect ev sq (place_event (roomIDOfEvent ev) ev sq p)"
  have live: "m |\<notin>| tl_retracted (step_effect ev sq (place_event (roomIDOfEvent ev) ev sq p))"
    using assms(3) by (simp add: step)
  show ?thesis
  proof (cases "payload_of ev")
    case None
    then show ?thesis by (simp add: step step_effect_def room_pins_def pin_step_def)
  next
    case (Some e)
    then show ?thesis
      using assms live
      by (cases e)
        (auto simp: step step_effect_def room_pins_def pin_step_def apply_pinned_def apply_unpinned_def
          apply_retracted_def Let_def roomIDOfEvent_def pin_of_def split: option.splits if_splits)
  qed
qed

lemma pins_of_log:
  assumes "clean_log log" and "r \<noteq> []" and "m \<noteq> []" and "m |\<notin>| tl_retracted (timeline_of log)"
  shows "fmlookup (room_pins (timeline_of log) r) m = pin_in_log r m log"
  using assms(1,4)
proof (induction log rule: clean_log_induct)
  case Nil
  show ?case by (simp add: pin_in_log_def room_pins_def) (simp add: NewRoomTimelineProjection_def)
next
  case (snoc log ev sq)
  have "m |\<notin>| tl_retracted (timeline_of log)"
    using snoc.prems retracted_step [of "timeline_of log" ev sq] by (auto simp: timeline_of_snoc)
  then show ?case
    using snoc pins_step [OF assms(2,3), of ev sq "timeline_of log"]
    by (simp add: timeline_of_snoc pin_in_log_def)
qed

lemma fold_pin_step_Some:
  assumes "fold (pin_step r m) log s = Some pin"
  shows "s = Some pin \<or>
     (\<exists>ev sq. (ev, sq) \<in> set log \<and> payload_of ev = Some (MessagePinned r m) \<and> pin = pin_of ev sq r m)"
  using assms
proof (induction log arbitrary: s)
  case (Cons x log)
  have "pin_step r m x s = Some pin' \<Longrightarrow>
      s = Some pin' \<or> payload_of (fst x) = Some (MessagePinned r m) \<and> pin' = pin_of (fst x) (snd x) r m"
    for pin'
    by (auto simp: pin_step_def split: option.splits content_event.splits if_splits)
  then show ?case
    using Cons.IH [of "pin_step r m x s"] Cons.prems by (cases x) fastforce
qed simp

lemma pin_before_linear:
  "pin_before x y \<or> pin_before y x" "pin_before x y \<Longrightarrow> pin_before y z \<Longrightarrow> pin_before x z"
  "\<not> pin_before x y \<Longrightarrow> pin_before y x"
  by (auto simp: pin_before_def)

lemma set_insert_pins [simp]: "set (foldr insert_pin xs []) = set xs"
proof -
  have ins: "set (insert_pin x ys) = insert x (set ys)" for x ys
    by (induction ys) auto
  show ?thesis by (induction xs) (auto simp: ins)
qed

lemma sorted_insert_pins: "sorted_wrt pin_before (foldr insert_pin xs [])"
proof -
  have mem: "set (insert_pin x ys) = insert x (set ys)" for x ys
    by (induction ys) auto
  have "sorted_wrt pin_before (insert_pin x ys)" if "sorted_wrt pin_before ys" for x ys
    using that
    using that by (induction ys) (auto simp: mem intro: pin_before_linear(2) pin_before_linear(3))
  then show ?thesis by (induction xs) auto
qed

lemma distinct_insert_pins: "distinct xs \<Longrightarrow> distinct (foldr insert_pin xs [])"
proof -
  have mem: "set (insert_pin x ys) = insert x (set ys)" for x ys
    by (induction ys) auto
  have "distinct (insert_pin x ys) \<longleftrightarrow> x \<notin> set ys \<and> distinct ys" for x ys
    by (induction ys) (auto simp: mem)
  then show "distinct xs \<Longrightarrow> distinct (foldr insert_pin xs [])"
    by (induction xs) auto
qed

definition no_empty_pins :: "timeline \<Rightarrow> bool" where
  "no_empty_pins p \<longleftrightarrow> (\<forall>r. fmlookup (room_pins p r) [] = None)"

lemma no_empty_pins_step: "no_empty_pins p \<Longrightarrow> no_empty_pins (timeline_step ev sq p)"
proof (rule timeline_step_cases [where ev = ev and sq = sq and p = p])
  assume ok: "no_empty_pins p"
    and step: "timeline_step ev sq p = step_effect ev sq (place_event (roomIDOfEvent ev) ev sq p)"
  have place: "room_pins (place_event r ev sq p) = room_pins p" for r
    by (simp add: fun_eq_iff room_pins_def)
  show ?thesis
  proof (cases "payload_of ev")
    case None
    then show ?thesis using ok by (simp add: step step_effect_def no_empty_pins_def place)
  next
    case (Some e)
    then show ?thesis
      using ok
      by (cases e)
        (auto simp: step step_effect_def no_empty_pins_def room_pins_def apply_pinned_def apply_unpinned_def
          apply_retracted_def Let_def split: option.splits)
  qed
qed (simp_all add: no_empty_pins_def room_pins_def)

lemma latest_pin_step:
  assumes "\<forall>l. fmlookup (tl_latestPin p) r = Some l \<longrightarrow> lp_seq l < sq" and "r \<noteq> []" and "0 < sq"
  shows "fmlookup (tl_latestPin (timeline_step ev sq p)) r =
     (if pins_message_in r ev then Some \<lparr>lp_event_id = ev_id ev, lp_seq = sq\<rparr>
      else fmlookup (tl_latestPin p) r)"
proof (rule timeline_step_cases [where ev = ev and sq = sq and p = p])
  assume "timeline_step ev sq p = step_effect ev sq (place_event (roomIDOfEvent ev) ev sq p)"
  then show ?thesis
    using assms
    by (cases "payload_of ev"; cases "the (payload_of ev)")
      (auto simp: step_effect_def pins_message_in_def apply_pinned_def roomIDOfEvent_def Let_def
        split: option.splits)
next
  assume "\<not> applies ev" and "timeline_step ev sq p = p"
  then show ?thesis
    using assms(2)
    by (auto simp: pins_message_in_def applies_def eventMutatesRoomTimelineProjection_def roomIDOfEvent_def)
qed (auto simp: pins_message_in_def erased_user_def)

lemma latest_pin_of_log:
  assumes "clean_log log" and "r \<noteq> []"
  shows "fmlookup (tl_latestPin (timeline_of log)) r =
     (if pin_events r log = [] then None
      else Some \<lparr>lp_event_id = ev_id (fst (last (pin_events r log))), lp_seq = snd (last (pin_events r log))\<rparr>)"
  using assms(1)
proof (induction log rule: clean_log_induct)
  case Nil
  show ?case by (simp add: pin_events_def) (simp add: NewRoomTimelineProjection_def)
next
  case (snoc log ev sq)
  have "s < sq" if "(e, s) \<in> set (pin_events r log)" for e s
    using that snoc(1,2) increasing_le_last [of 0 log e s]
    by (auto simp: pin_events_def clean_log_def intro: le_less_trans)
  then have "\<forall>l. fmlookup (tl_latestPin (timeline_of log)) r = Some l \<longrightarrow> lp_seq l < sq"
    using snoc.IH last_in_set [of "pin_events r log"] by (cases "last (pin_events r log)") auto
  moreover have "0 < sq"
    using snoc(2) by (metis word_gt_0 word_not_simps(1))
  ultimately show ?case
    using assms(2) snoc.IH by (simp add: timeline_of_snoc latest_pin_step pin_events_def)
qed

lemma timeline_no_empty_pins: "clean_log log \<Longrightarrow> no_empty_pins (timeline_of log)"
proof (induction log rule: clean_log_induct)
  case Nil
  show ?case by (simp add: no_empty_pins_def room_pins_def) (simp add: NewRoomTimelineProjection_def)
qed (simp add: timeline_of_snoc no_empty_pins_step)

text \<open>The listing is an insertion sort of the pins that are not deleted.\<close>

definition listed_pins :: "timeline \<Rightarrow> string \<Rightarrow> string list" where
  "listed_pins p r = filter (\<lambda>m. m |\<notin>| tl_retracted p) (sortedMapKeys (room_pins p r))"

lemma pinned_list:
  "PinnedMessages p r = foldr insert_pin (map (\<lambda>m. the (fmlookup (room_pins p r) m)) (listed_pins p r)) []"
proof -
  have "concat (map (\<lambda>m. if m |\<notin>| tl_retracted p then [the (fmlookup (room_pins p r) m)] else []) ks)
      = map (\<lambda>m. the (fmlookup (room_pins p r) m)) (filter (\<lambda>m. m |\<notin>| tl_retracted p) ks)" for ks
    by (induction ks) simp_all
  then show ?thesis by (simp add: PinnedMessages_def PinnedMessagesWithLatest_def Let_def listed_pins_def)
qed

lemma listed_pins_iff:
  assumes "fmlookup (room_pins p r) [] = None"
  shows "m \<in> set (listed_pins p r) \<longleftrightarrow> m \<noteq> [] \<and> PinnedMessage p r m \<noteq> None"
    and "m \<in> set (listed_pins p r) \<Longrightarrow> PinnedMessage p r m = Some (the (fmlookup (room_pins p r) m))"
  using assms by (auto simp: listed_pins_def PinnedMessage_def mem_sortedMapKeys_iff fmlookup_dom_iff)

lemma pinned_set:
  assumes "fmlookup (room_pins p r) [] = None"
  shows "set (PinnedMessages p r) = {pin. \<exists>m. m \<noteq> [] \<and> PinnedMessage p r m = Some pin}"
proof -
  have "set (PinnedMessages p r) = (\<lambda>m. the (fmlookup (room_pins p r) m)) ` set (listed_pins p r)"
    by (simp add: pinned_list)
  also have "\<dots> = {pin. \<exists>m. m \<noteq> [] \<and> PinnedMessage p r m = Some pin}"
  proof (intro set_eqI iffI)
    fix pin assume "pin \<in> (\<lambda>m. the (fmlookup (room_pins p r) m)) ` set (listed_pins p r)"
    then show "pin \<in> {pin. \<exists>m. m \<noteq> [] \<and> PinnedMessage p r m = Some pin}"
      using listed_pins_iff [OF assms] by blast
  next
    fix pin assume "pin \<in> {pin. \<exists>m. m \<noteq> [] \<and> PinnedMessage p r m = Some pin}"
    then obtain m where m: "m \<noteq> []" "PinnedMessage p r m = Some pin" by blast
    then have "m \<in> set (listed_pins p r)" using listed_pins_iff(1) [OF assms] by simp
    then show "pin \<in> (\<lambda>m. the (fmlookup (room_pins p r) m)) ` set (listed_pins p r)"
      using listed_pins_iff(2) [OF assms] m(2) by (metis image_eqI option.inject)
  qed
  finally show ?thesis .
qed

lemma pinned_newest_first:
  assumes "fmlookup (room_pins p r) [] = None"
    and apart: "\<And>m n a b. PinnedMessage p r m = Some a \<Longrightarrow> PinnedMessage p r n = Some b \<Longrightarrow> m \<noteq> [] \<Longrightarrow>
      n \<noteq> [] \<Longrightarrow> m \<noteq> n \<Longrightarrow> pin_seq a \<noteq> pin_seq b"
  shows "sorted_wrt (\<lambda>a b. pin_seq b < pin_seq a) (PinnedMessages p r)"
proof -
  note key = listed_pins_iff [OF assms(1)]
  let ?out = "map (\<lambda>m. the (fmlookup (room_pins p r) m)) (listed_pins p r)"
  have "distinct (listed_pins p r)" by (simp add: listed_pins_def)
  moreover have "pin_seq (the (fmlookup (room_pins p r) m)) \<noteq> pin_seq (the (fmlookup (room_pins p r) n))"
    if "m \<in> set (listed_pins p r)" "n \<in> set (listed_pins p r)" "m \<noteq> n" for m n
    using apart [OF key(2) [OF that(1)] key(2) [OF that(2)]] key(1) that by blast
  ultimately have "distinct (map pin_seq ?out)"
    by (auto simp: distinct_map inj_on_def)
  then have seqs: "distinct (map pin_seq (PinnedMessages p r))"
    unfolding pinned_list using distinct_insert_pins [of ?out]
    by (simp add: distinct_map inj_on_def) (metis (no_types, lifting))
  have sorted: "sorted_wrt pin_before (PinnedMessages p r)"
    unfolding pinned_list by (rule sorted_insert_pins)
  show ?thesis
    unfolding sorted_wrt_iff_nth_less
  proof (intro allI impI)
    fix i j
    assume ij: "i < j" "j < length (PinnedMessages p r)"
    then have "pin_before (PinnedMessages p r ! i) (PinnedMessages p r ! j)"
      using sorted by (simp add: sorted_wrt_iff_nth_less)
    moreover have "pin_seq (PinnedMessages p r ! i) \<noteq> pin_seq (PinnedMessages p r ! j)"
      using seqs ij nth_eq_iff_index_eq [of "map pin_seq (PinnedMessages p r)" i j] by simp
    ultimately show "pin_seq (PinnedMessages p r ! j) < pin_seq (PinnedMessages p r ! i)"
      by (auto simp: pin_before_def)
  qed
qed

text \<open>Pins of different messages stand at different sequences of the log.\<close>

lemma pins_apart:
  assumes "clean_log log" and "pin_in_log r m log = Some a" and "pin_in_log r n log = Some b" and "m \<noteq> n"
  shows "pin_seq a \<noteq> pin_seq b"
proof -
  obtain e1 s1 where 1: "(e1, s1) \<in> set log" "payload_of e1 = Some (MessagePinned r m)" "a = pin_of e1 s1 r m"
    using fold_pin_step_Some [of r m log None a] assms(2) by (auto simp: pin_in_log_def)
  obtain e2 s2 where 2: "(e2, s2) \<in> set log" "payload_of e2 = Some (MessagePinned r n)" "b = pin_of e2 s2 r n"
    using fold_pin_step_Some [of r n log None b] assms(3) by (auto simp: pin_in_log_def)
  have "increasing_from 0 log" using assms(1) by (simp add: clean_log_def)
  then have "s1 \<noteq> s2" using increasing_seq_inj [of 0 log e1 s1 e2] 1(1,2) 2(1,2) assms(4) by auto
  then show ?thesis by (simp add: 1(3) 2(3) pin_of_def)
qed

text \<open>C32 (functional). The pins of a room are those of the log. A message is pinned exactly when
  its last pin fact in that room is a pin and it was not deleted; the listing has every pinned
  message once, the newest pin first; and the marker of the latest pin is that of the last
  pin fact, which unpinning and deleting do not move back.\<close>

theorem pins_follow_the_log:
  assumes "clean_log (startup @ live)"
    and "replayed Timeline_Apply Timeline_CompleteStartupReplay startup live
           NewRoomTimelineProjection = Some p"
    and "r \<noteq> []"
  shows "(\<forall>m. m \<noteq> [] \<longrightarrow> PinnedMessage p r m =
            (if MessageTombstoned p m then None else pin_in_log r m (startup @ live)))
    \<and> set (PinnedMessages p r) = {pin. \<exists>m. m \<noteq> [] \<and> PinnedMessage p r m = Some pin}
    \<and> sorted_wrt (\<lambda>a b. pin_seq b < pin_seq a) (PinnedMessages p r)
    \<and> LatestPinEventID p r =
        (if pin_events r (startup @ live) = [] then []
         else ev_id (fst (last (pin_events r (startup @ live)))))"
proof -
  let ?log = "startup @ live"
  obtain g where p: "p = set_tl_guard g (timeline_of ?log)"
    by (rule replayed_timeline [OF assms(1,2)])
  have pins: "room_pins p = room_pins (timeline_of ?log)"
    by (simp add: fun_eq_iff room_pins_def p)
  have one: "PinnedMessage p r m = (if MessageTombstoned p m then None else pin_in_log r m ?log)"
    if "m \<noteq> []" for m
    using pins_of_log [OF assms(1,3) that]
    by (simp add: PinnedMessage_def pins) (simp add: MessageTombstoned_def p)
  have none: "fmlookup (room_pins p r) [] = None"
    using timeline_no_empty_pins [OF assms(1)] by (simp add: no_empty_pins_def pins)
  have "sorted_wrt (\<lambda>a b. pin_seq b < pin_seq a) (PinnedMessages p r)"
    by (rule pinned_newest_first [OF none]) (use pins_apart [OF assms(1)] one in \<open>auto split: if_splits\<close>)
  moreover have "LatestPinEventID p r =
      (if pin_events r ?log = [] then [] else ev_id (fst (last (pin_events r ?log))))"
    by (simp add: LatestPinEventID_def p latest_pin_of_log [OF assms(1,3)])
  ultimately show ?thesis using one pinned_set [OF none] by blast
qed

end
