(* ===== verification/Room_Timeline_Witnesses.thy ===== *)
theory Room_Timeline_Witnesses
  imports Room_Timeline_Bodies Room_Timeline_Windows
begin

text \<open>
  Small rooms on which the properties of the timeline apply, and the shape of every replayed
  state of the timeline.
\<close>

definition tl_fact :: "string \<Rightarrow> string \<Rightarrow> time \<Rightarrow> content_event \<Rightarrow> content_fact" where
  "tl_fact i actor t e = \<lparr>ev_id = i, ev_actor = actor, ev_created_at = Some t,
     ev_payload = Some \<lparr>ct_event = e, ct_hidden = False\<rparr>\<rparr>"

definition tl_post :: "string \<Rightarrow> content_event" where
  "tl_post thread = MessagePosted \<lparr>mp_room_id = ''R'', mp_in_thread = thread, mp_echo_of = [],
     mp_echo_root = [], mp_author_id = [], mp_historical = False, mp_mentions = []\<rparr>"

definition tl_body :: "string \<Rightarrow> string \<Rightarrow> content_event" where
  "tl_body m author = MessageBody \<lparr>mbe_room_id = ''R'', mbe_event_id = m,
     mbe_body = Some \<lparr>bd_event_id = [], bd_author_id = author, bd_asset_ids = [''A''], bd_attachments = []\<rparr>\<rparr>"

text \<open>A post with two bodies; the retraction of a post; the erasure of an author.\<close>

definition edited_room :: "(content_fact \<times> seq) list" where
  "edited_room =
     [(tl_fact ''M'' ''U'' 10 (tl_post []), 1), (tl_fact ''B'' ''U'' 10 (tl_body ''M'' ''U''), 2),
      (tl_fact ''C'' ''U'' 12 (tl_body ''M'' ''U''), 5)]"

definition retracted_room :: "(content_fact \<times> seq) list" where
  "retracted_room =
     [(tl_fact ''M'' ''U'' 10 (tl_post []), 1), (tl_fact ''X'' ''U'' 30 (MessageRetracted ''R'' ''M''), 4)]"

definition erased_room :: "(content_fact \<times> seq) list" where
  "erased_room =
     [(tl_fact ''M'' ''U'' 10 (tl_post []), 1), (tl_fact ''X'' [] 30 (UserKeyShredded ''U''), 4)]"

text \<open>Two root posts and a pin of the first.\<close>

definition pinned_room :: "(content_fact \<times> seq) list" where
  "pinned_room =
     [(tl_fact ''M'' ''U'' 10 (tl_post []), 1), (tl_fact ''N'' ''U'' 20 (tl_post []), 2),
      (tl_fact ''P'' ''V'' 30 (MessagePinned ''R'' ''M''), 3)]"

lemma sample_rooms_clean:
  "clean_log ([] @ edited_room)" "clean_log ([] @ retracted_room)" "clean_log ([] @ erased_room)"
  "clean_log (pinned_room @ [])"
  by code_simp+

lemma goes_live:
  assumes "clean_log (startup @ live)"
  obtains p g where "replayed Timeline_Apply Timeline_CompleteStartupReplay startup live
      NewRoomTimelineProjection = Some p" and "p = set_tl_guard g (timeline_of (startup @ live))"
  using timeline.run_clean [OF _ assms, of NewRoomTimelineProjection]
  by (auto simp: NewRoomTimelineProjection_def)

lemma timeline_Get_guard [simp]: "timeline_Get (set_tl_guard g p) m = timeline_Get p m"
  by (simp add: timeline_Get_def)

lemma posted_by:
  assumes "map_option te_type (timeline_Get p m) = Some ''message_posted''"
    and "timelineEntryMessageAuthorID (timeline_Get p m) = u"
  obtains e where "timeline_Get p m = Some e" "IsMessagePost e" "timelineEntryMessageAuthorID (Some e) = u"
  using assms by (auto simp: IsMessagePost_def)

lemma erasure_is_final_witness:
  "\<exists>p. replayed Timeline_Apply Timeline_CompleteStartupReplay [] erased_room
          NewRoomTimelineProjection = Some p
     \<and> MessageTombstoned p ''M'' \<and> LatestBodyReference p ''M'' = (no_reference, True, True)"
proof -
  obtain p g where r: "replayed Timeline_Apply Timeline_CompleteStartupReplay [] erased_room
      NewRoomTimelineProjection = Some p" and p: "p = set_tl_guard g (timeline_of ([] @ erased_room))"
    by (rule goes_live [OF sample_rooms_clean(3)])
  have "map_option te_type (timeline_Get (timeline_of erased_room) ''M'') = Some ''message_posted''"
    "timelineEntryMessageAuthorID (timeline_Get (timeline_of erased_room) ''M'') = ''U''"
    by code_simp+
  from posted_by [OF this] obtain e where
    e: "timeline_Get p ''M'' = Some e" "IsMessagePost e" "timelineEntryMessageAuthorID (Some e) = ''U''"
    by (auto simp: p)
  have "(tl_fact ''X'' [] 30 (UserKeyShredded ''U''), 4) \<in> set ([] @ erased_room)"
    "erased_user (tl_fact ''X'' [] 30 (UserKeyShredded ''U'')) = Some ''U''"
    by (simp add: erased_room_def) code_simp
  from erasure_is_final [OF r this _ e] r show ?thesis by simp
qed


lemma paging_is_exact_witness:
  "\<exists>p. replayed Timeline_Apply Timeline_CompleteStartupReplay pinned_room []
          NewRoomTimelineProjection = Some p
     \<and> VisibleRoomTimeline p ''R'' 1 0 None = take 1 (rev (shown_entries p ''R'' None))"
proof -
  obtain p g where r: "replayed Timeline_Apply Timeline_CompleteStartupReplay pinned_room []
      NewRoomTimelineProjection = Some p"
    by (rule goes_live [OF sample_rooms_clean(4)])
  have "(0::int) < 1" by simp
  from paging_is_exact [OF sample_rooms_clean(4) r this, of "''R''" None] r show ?thesis
    by (simp add: Let_def)
qed

lemma window_is_exact_witness:
  "\<exists>p. replayed Timeline_Apply Timeline_CompleteStartupReplay pinned_room []
          NewRoomTimelineProjection = Some p \<and> VisibleRoomTimelineAround p ''R'' [] 3 None = None"
proof -
  obtain p g where r: "replayed Timeline_Apply Timeline_CompleteStartupReplay pinned_room []
      NewRoomTimelineProjection = Some p"
    by (rule goes_live [OF sample_rooms_clean(4)])
  from window_is_exact [OF sample_rooms_clean(4) r, where r = "''R''" and m = "[]" and limit = 3 and visible = None] r show ?thesis
    by (simp add: Let_def)
qed

lemma slow_mode_clock_exact_witness:
  "\<exists>p. replayed Timeline_Apply Timeline_CompleteStartupReplay pinned_room []
          NewRoomTimelineProjection = Some p \<and> LatestRootPostAt p ''R'' ''U'' = Some 20"
proof -
  obtain p g where r: "replayed Timeline_Apply Timeline_CompleteStartupReplay pinned_room []
      NewRoomTimelineProjection = Some p"
    by (rule goes_live [OF sample_rooms_clean(4)])
  have "root_post_times ''R'' ''U'' pinned_room = [10, 20]" "(20::time) \<noteq> zero_time"
    by code_simp+
  with slow_mode_clock_exact [OF sample_rooms_clean(4) r, of "''R''" "''U''"] r show ?thesis
    by simp
qed

lemma pins_follow_the_log_witness:
  "\<exists>p. replayed Timeline_Apply Timeline_CompleteStartupReplay pinned_room []
          NewRoomTimelineProjection = Some p \<and> LatestPinEventID p ''R'' = ''P''"
proof -
  obtain p g where r: "replayed Timeline_Apply Timeline_CompleteStartupReplay pinned_room []
      NewRoomTimelineProjection = Some p"
    by (rule goes_live [OF sample_rooms_clean(4)])
  have "pin_events ''R'' pinned_room = [(tl_fact ''P'' ''V'' 30 (MessagePinned ''R'' ''M''), 3)]"
    by (simp add: pin_events_def pinned_room_def pins_message_in_def tl_fact_def tl_post_def payload_of_def)
  with pins_follow_the_log [OF sample_rooms_clean(4) r, of "''R''"] r show ?thesis
    by (simp add: tl_fact_def)
qed

lemma edited_room_bodies: "bodies_in_log ''M'' {||} edited_room = [2, 5]"
  by code_simp

lemma body_history_exact_witness:
  "\<exists>p. replayed Timeline_Apply Timeline_CompleteStartupReplay [] edited_room
          NewRoomTimelineProjection = Some p \<and> BodyEventSeqs p ''M'' = ([2, 5], 5, True)"
proof -
  obtain p g where r: "replayed Timeline_Apply Timeline_CompleteStartupReplay [] edited_room
      NewRoomTimelineProjection = Some p" and p: "p = set_tl_guard g (timeline_of ([] @ edited_room))"
    by (rule goes_live [OF sample_rooms_clean(1)])
  have "timeline_Get (timeline_of edited_room) ''M'' \<noteq> None"
    by code_simp
  then have "timeline_Get p ''M'' \<noteq> None" by (simp add: p)
  with body_history_exact [OF sample_rooms_clean(1) r, of "''M''"] r show ?thesis
    by (simp add: edited_room_bodies Let_def)
qed

lemma current_body_is_kept_witness:
  "\<exists>p. replayed Timeline_Apply Timeline_CompleteStartupReplay [] edited_room
          NewRoomTimelineProjection = Some p \<and> 5 \<notin> set (AllObsoleteBodyEventSeqs p)"
proof -
  obtain p g where r: "replayed Timeline_Apply Timeline_CompleteStartupReplay [] edited_room
      NewRoomTimelineProjection = Some p" and p: "p = set_tl_guard g (timeline_of ([] @ edited_room))"
    by (rule goes_live [OF sample_rooms_clean(1)])
  obtain ref gone ok where l: "LatestBodyReference p ''M'' = (ref, gone, ok)"
    by (metis prod_cases3)
  have "br_seq (fst (LatestBodyReference (timeline_of edited_room) ''M'')) = 5"
    by code_simp
  moreover have "LatestBodyReference p ''M'' = LatestBodyReference (timeline_of edited_room) ''M''"
    by (simp add: p LatestBodyReference_def)
  ultimately have "br_seq ref = 5" by (metis fst_conv l)
  with current_body_is_kept [OF sample_rooms_clean(1) r l] r show ?thesis by auto
qed

text \<open>C33 (type). The state a replay leads to is well formed: every list of row numbers (the
  visible rows and the posts of each room, the index by identifier) stays within the rows, the
  index names a row that carries the identifier, the rows are in stream order with no repeated
  place, and the bodies are numbered by the posts in order, so no read of the timeline leaves
  its arrays. Every row names the identity of a record of the log.\<close>

theorem timeline_stays_well_formed:
  assumes "clean_log (startup @ live)"
    and "replayed Timeline_Apply Timeline_CompleteStartupReplay startup live
           NewRoomTimelineProjection = Some p"
  shows "timeline_wf p \<and> (\<forall>r \<in> set (tl_entries p). row_event r \<in> set (log_ids (startup @ live)))"
proof -
  obtain g where p: "p = set_tl_guard g (timeline_of (startup @ live))"
    by (rule replayed_timeline [OF assms])
  show ?thesis
    using timeline_of_wf [OF assms(1)] by (simp add: p rows_of_log_def)
qed

lemma timeline_stays_well_formed_witness:
  "\<exists>p. replayed Timeline_Apply Timeline_CompleteStartupReplay [] edited_room
          NewRoomTimelineProjection = Some p \<and> timeline_wf p"
proof -
  obtain p g where r: "replayed Timeline_Apply Timeline_CompleteStartupReplay [] edited_room
      NewRoomTimelineProjection = Some p"
    by (rule goes_live [OF sample_rooms_clean(1)])
  with timeline_stays_well_formed [OF sample_rooms_clean(1) r] show ?thesis by auto
qed

end
