(* ===== verification/Reactions.thy ===== *)
theory Reactions
  imports Room_Events Intern
begin

text \<open>
  The active reactions of every message (\<open>reaction_projection.go\<close>). Emoji, accounts and rooms
  are interned in the projection's own table, kept here as it is: the reactions of a message
  are sorted by their handles and searched by bisection. Message identifiers stand for their
  handles in the table that is shared with the room timeline. \<^const>\<open>None\<close> is a panic: a full
  table, a handle out of range, or the guard's nil map.
\<close>

section \<open>The state\<close>

record reaction_entry =
  rx_nanos :: "64 word"
  rx_source :: string
  rx_emoji :: handle
  rx_user :: handle

record reactions =
  rs_ids :: id_table
  rs_byMessage :: "(string, reaction_entry list) fmap"
  rs_roomSeq :: "(string, seq) fmap"
  rs_messageRooms :: "(string, handle) fmap"
  rs_echoOriginal :: "(string, string) fmap"
  rs_assetRoom :: "(string, string) fmap"
  rs_guard :: replay_guard

definition NewReactionProjection :: reactions where
  "NewReactionProjection =
     \<lparr>rs_ids = new_table, rs_byMessage = fmempty, rs_roomSeq = fmempty, rs_messageRooms = fmempty,
      rs_echoOriginal = fmempty, rs_assetRoom = fmempty, rs_guard = newProjectionReplayGuard\<rparr>"

definition stringAt :: "(string, string) fmap \<Rightarrow> string \<Rightarrow> string" where
  "stringAt m k = (case fmlookup m k of None \<Rightarrow> [] | Some s \<Rightarrow> s)"

definition reactionsAt :: "reactions \<Rightarrow> string \<Rightarrow> reaction_entry list" where
  "reactionsAt p m = (case fmlookup (rs_byMessage p) m of None \<Rightarrow> [] | Some xs \<Rightarrow> xs)"

definition canonicalMessage :: "reactions \<Rightarrow> string \<Rightarrow> string" where
  "canonicalMessage p m =
     (let original = stringAt (rs_echoOriginal p) m in if original \<noteq> [] then original else m)"

section \<open>Searching the reactions of a message\<close>

text \<open>\<open>slices.BinarySearchFunc\<close>: the first position that is not before the target.\<close>

function bisect :: "(nat \<Rightarrow> bool) \<Rightarrow> nat \<Rightarrow> nat \<Rightarrow> nat" where
  "bisect before i j =
     (if i < j
      then (let h = (i + j) div 2 in if before h then bisect before (h + 1) j else bisect before i h)
      else i)"
  by pat_completeness auto
termination by (relation "measure (\<lambda>(_, i, j). j - i)") auto

text \<open>Emoji handle first, then user handle.\<close>

definition compareReactions :: "reaction_entry \<Rightarrow> reaction_entry \<Rightarrow> int" where
  "compareReactions a b =
     (if rx_emoji a < rx_emoji b then - 1 else if rx_emoji b < rx_emoji a then 1
      else if rx_user a < rx_user b then - 1 else if rx_user b < rx_user a then 1 else 0)"

definition reactionSearch :: "reaction_entry list \<Rightarrow> handle \<Rightarrow> handle \<Rightarrow> nat \<times> bool" where
  "reactionSearch xs emoji user =
     (let target = \<lparr>rx_nanos = 0, rx_source = [], rx_emoji = emoji, rx_user = user\<rparr>;
          i = bisect (\<lambda>k. compareReactions (xs ! k) target < 0) 0 (length xs)
      in (i, i < length xs \<and> compareReactions (xs ! i) target = 0))"

section \<open>Attribution to rooms\<close>

definition messageRoom :: "reactions \<Rightarrow> string \<Rightarrow> string option" where
  "messageRoom p m =
     (if m = [] then Some []
      else table_Resolve (rs_ids p)
             (case fmlookup (rs_messageRooms p) m of None \<Rightarrow> 0 | Some h \<Rightarrow> h))"

definition roomOfProcessing :: "reactions \<Rightarrow> string \<Rightarrow> string \<Rightarrow> string option" where
  "roomOfProcessing p m asset =
     (case messageRoom p m of
        None \<Rightarrow> None
      | Some r \<Rightarrow> Some (if r \<noteq> [] then r else stringAt (rs_assetRoom p) asset))"

definition roomSeqID :: "reactions \<Rightarrow> content_fact \<Rightarrow> string option" where
  "roomSeqID p ev =
     (let roomID = roomIDOfEvent ev in
      if roomID \<noteq> [] then Some roomID
      else case payload_of ev of
             Some (AssetCreated _ r) \<Rightarrow> Some r
           | Some (AssetProcessingStarted m a) \<Rightarrow> roomOfProcessing p m a
           | Some (AssetProcessingSucceeded m a) \<Rightarrow> roomOfProcessing p m a
           | Some (AssetProcessingFailed m a) \<Rightarrow> roomOfProcessing p m a
           | Some (AssetDeleted a) \<Rightarrow> Some (stringAt (rs_assetRoom p) a)
           | _ \<Rightarrow> Some [])"

definition RoomSequence :: "reactions \<Rightarrow> string \<Rightarrow> seq" where
  "RoomSequence p r = (case fmlookup (rs_roomSeq p) r of None \<Rightarrow> 0 | Some s \<Rightarrow> s)"

definition noteRoomSeq :: "string \<Rightarrow> seq \<Rightarrow> reactions \<Rightarrow> reactions" where
  "noteRoomSeq r sq p =
     (if RoomSequence p r < sq then p\<lparr>rs_roomSeq := fmupd r sq (rs_roomSeq p)\<rparr> else p)"

definition noteRoomOwnership :: "content_fact \<Rightarrow> string \<Rightarrow> reactions \<Rightarrow> reactions option" where
  "noteRoomOwnership ev roomID p =
     (if roomID = [] then Some p
      else case payload_of ev of
             Some (MessagePosted m) \<Rightarrow>
               if ev_id ev = [] then Some p
               else (case table_Intern roomID (rs_ids p) of
                       None \<Rightarrow> None
                     | Some (h, ids) \<Rightarrow>
                         (let p1 = p\<lparr>rs_ids := ids, rs_messageRooms := fmupd (ev_id ev) h (rs_messageRooms p)\<rparr>
                          in Some (if mp_echo_of m \<noteq> []
                                   then p1\<lparr>rs_echoOriginal := fmupd (ev_id ev) (mp_echo_of m) (rs_echoOriginal p1)\<rparr>
                                   else p1)))
           | Some (AssetCreated (Some a) _) \<Rightarrow>
               Some (if a \<noteq> [] then p\<lparr>rs_assetRoom := fmupd a roomID (rs_assetRoom p)\<rparr> else p)
           | Some (AssetDeleted a) \<Rightarrow> Some (p\<lparr>rs_assetRoom := fmdrop a (rs_assetRoom p)\<rparr>)
           | _ \<Rightarrow> Some p)"

section \<open>Adding and removing\<close>

definition applyAdded ::
  "string \<Rightarrow> string \<Rightarrow> string \<Rightarrow> 64 word \<Rightarrow> string \<Rightarrow> reactions \<Rightarrow> reactions option" where
  "applyAdded messageID emoji userID nanos source p =
     (if userID = [] \<or> messageID = [] \<or> emoji = [] then Some p
      else case table_Intern emoji (rs_ids p) of
             None \<Rightarrow> None
           | Some (e, ids1) \<Rightarrow>
               (case table_Intern userID ids1 of
                  None \<Rightarrow> None
                | Some (u, ids2) \<Rightarrow>
                    (let m = canonicalMessage p messageID;
                         p1 = p\<lparr>rs_ids := ids2\<rparr>;
                         xs = reactionsAt p m;
                         (i, exists) = reactionSearch xs e u
                     in Some
                          (if exists then p1
                           else p1\<lparr>rs_byMessage :=
                                  fmupd m
                                    (take i xs @ \<lparr>rx_nanos = nanos, rx_source = source, rx_emoji = e, rx_user = u\<rparr>
                                       # drop i xs)
                                    (rs_byMessage p1)\<rparr>))))"

definition applyRemoved :: "string \<Rightarrow> string \<Rightarrow> string \<Rightarrow> reactions \<Rightarrow> reactions" where
  "applyRemoved messageID emoji userID p =
     (if userID = [] \<or> messageID = [] \<or> emoji = [] then p
      else case (table_Lookup (rs_ids p) emoji, table_Lookup (rs_ids p) userID) of
             (Some e, Some u) \<Rightarrow>
               (let m = canonicalMessage p messageID;
                    xs = reactionsAt p m;
                    (i, exists) = reactionSearch xs e u
                in if \<not> exists then p
                   else if length xs = 1 then p\<lparr>rs_byMessage := fmdrop m (rs_byMessage p)\<rparr>
                   else p\<lparr>rs_byMessage := fmupd m (take i xs @ drop (Suc i) xs) (rs_byMessage p)\<rparr>)
           | _ \<Rightarrow> p)"

definition reaction_switch :: "content_fact \<Rightarrow> reactions \<Rightarrow> reactions option" where
  "reaction_switch ev p =
     (case payload_of ev of
        Some (ReactionAdded _ m e u) \<Rightarrow>
          applyAdded m e (if u = [] then ev_actor ev else u) (eventCreatedNanos ev) (ev_id ev) p
      | Some (ReactionRemoved _ m e) \<Rightarrow> Some (applyRemoved m e (ev_actor ev) p)
      | _ \<Rightarrow> Some p)"

definition is_reaction :: "content_fact \<Rightarrow> bool" where
  "is_reaction ev \<longleftrightarrow>
     (case payload_of ev of
        Some (ReactionAdded _ _ _ _) \<Rightarrow> True
      | Some (ReactionRemoved _ _ _) \<Rightarrow> True
      | _ \<Rightarrow> False)"

definition Reaction_Apply :: "reactions \<Rightarrow> content_fact option \<Rightarrow> seq \<Rightarrow> reactions option" where
  "Reaction_Apply p event sq =
     (case event of
        None \<Rightarrow> Some p
      | Some ev \<Rightarrow>
          (case roomSeqID p ev of
             None \<Rightarrow> None
           | Some roomID \<Rightarrow>
               if roomID = [] then Some p
               else (case noteRoomOwnership ev roomID (noteRoomSeq roomID sq p) of
                       None \<Rightarrow> None
                     | Some p1 \<Rightarrow>
                         if \<not> is_reaction ev then Some p1
                         else (case guard_seenOrMark (rs_guard p1) ev sq of
                                 None \<Rightarrow> None
                               | Some (seen, g) \<Rightarrow>
                                   (let p2 = p1\<lparr>rs_guard := g\<rparr> in
                                    if seen then Some p2 else reaction_switch ev p2)))))"

definition Reaction_CompleteStartupReplay :: "reactions \<Rightarrow> reactions" where
  "Reaction_CompleteStartupReplay p = p\<lparr>rs_guard := guard_completeReplay (rs_guard p)\<rparr>"

section \<open>Reads\<close>

definition reactionsForMessage :: "reactions \<Rightarrow> string \<Rightarrow> reaction_entry list" where
  "reactionsForMessage p m = (if m = [] then [] else reactionsAt p (canonicalMessage p m))"

record reaction_snapshot =
  rn_exists :: bool
  rn_count :: nat
  rn_seq :: seq
  rn_source :: string

definition ReactionMutationSnapshot :: "reactions \<Rightarrow> string \<Rightarrow> string \<Rightarrow> string \<Rightarrow> string \<Rightarrow> reaction_snapshot" where
  "ReactionMutationSnapshot p roomID m emoji userID =
     (let s0 = \<lparr>rn_exists = False, rn_count = 0, rn_seq = RoomSequence p roomID, rn_source = []\<rparr> in
      case table_Lookup (rs_ids p) userID of
        None \<Rightarrow> s0
      | Some u \<Rightarrow>
          fold (\<lambda>r s. if rx_user r \<noteq> u then s
                      else (let s1 = s\<lparr>rn_count := rn_count s + 1\<rparr> in
                            if table_Lookup (rs_ids p) emoji = Some (rx_emoji r)
                            then s1\<lparr>rn_exists := True, rn_source := rx_source r\<rparr> else s1))
            (reactionsForMessage p m) s0)"

definition HasReaction :: "reactions \<Rightarrow> string \<Rightarrow> string \<Rightarrow> string \<Rightarrow> bool" where
  "HasReaction p m emoji userID = rn_exists (ReactionMutationSnapshot p [] m emoji userID)"

record reaction_summary =
  rsum_emoji :: string
  rsum_users :: "string list"

text \<open>One group per run of equal emoji handles, with its earliest time; zero is no time.\<close>

function emoji_runs :: "reaction_entry list \<Rightarrow> reaction_entry list list" where
  "emoji_runs [] = []"
| "emoji_runs (r # rs) =
     (r # takeWhile (\<lambda>x. rx_emoji x = rx_emoji r) rs)
       # emoji_runs (dropWhile (\<lambda>x. rx_emoji x = rx_emoji r) rs)"
  by pat_completeness auto
termination by (relation "measure length") (auto simp: length_dropWhile_le less_Suc_eq_le)

definition earliest_nanos :: "reaction_entry list \<Rightarrow> 64 word" where
  "earliest_nanos run =
     fold (\<lambda>r e. if e = 0 \<or> sint (rx_nanos r) < sint e then rx_nanos r else e) run (rx_nanos (hd run))"

definition summary_of_run :: "id_table \<Rightarrow> reaction_entry list \<Rightarrow> ((int \<times> string) \<times> reaction_summary) option" where
  "summary_of_run ids run =
     (case (table_Resolve ids (rx_emoji (hd run)), those (map (\<lambda>r. table_Resolve ids (rx_user r)) run)) of
        (Some emoji, Some users) \<Rightarrow>
          Some ((sint (earliest_nanos run), emoji), \<lparr>rsum_emoji = emoji, rsum_users = sort users\<rparr>)
      | _ \<Rightarrow> None)"

definition reactionSummaries :: "reactions \<Rightarrow> reaction_entry list \<Rightarrow> reaction_summary list option" where
  "reactionSummaries p xs =
     map_option (\<lambda>gs. map snd (sort_key fst gs)) (those (map (summary_of_run (rs_ids p)) (emoji_runs xs)))"

definition Reactions :: "reactions \<Rightarrow> string \<Rightarrow> reaction_summary list option" where
  "Reactions p m = reactionSummaries p (reactionsForMessage p m)"

definition ReactionsBatch :: "reactions \<Rightarrow> string list \<Rightarrow> (string, reaction_summary list) fmap option" where
  "ReactionsBatch p ms =
     fold_opt (\<lambda>m result.
        let xs = reactionsForMessage p m in
        if xs = [] then Some result
        else map_option (\<lambda>ss. fmupd m ss result) (reactionSummaries p xs)) ms fmempty"

definition reaction_Stats :: "reactions \<Rightarrow> nat \<times> nat" where
  "reaction_Stats p =
     (length (sortedMapKeys (rs_byMessage p)),
      sum_list (map (\<lambda>m. length (reactionsAt p m)) (sortedMapKeys (rs_byMessage p))))"

end
