(* ===== verification/Reactions_Properties.thy ===== *)
theory Reactions_Properties
  imports Reactions Content_Contract Intern_Properties
begin

text \<open>
  The reaction projection refines a map from message, emoji and account to the reaction: the
  sorted lists, their bisection and the handles are an implementation of it. Also here: the
  interpretation of the contract of content projections that may panic (their tables can
  fill up), the summaries, and the fence that mutations of reactions use.
\<close>

section \<open>Bisection\<close>

declare bisect.simps [simp del]

lemma bisect_spec:
  assumes "i \<le> j" and "j \<le> n" and "\<forall>k < i. before k" and "\<forall>k. j \<le> k \<and> k < n \<longrightarrow> \<not> before k"
    and "\<forall>a b. a \<le> b \<and> b < n \<and> before b \<longrightarrow> before a"
  shows "bisect before i j \<le> n \<and> (\<forall>k < bisect before i j. before k)
    \<and> (\<forall>k. bisect before i j \<le> k \<and> k < n \<longrightarrow> \<not> before k)"
  using assms
proof (induction before i j rule: bisect.induct)
  case (1 before i j)
  show ?case
  proof (cases "i < j")
    case True
    let ?h = "(i + j) div 2"
    have h: "i \<le> ?h" "?h < j" using True by auto
    show ?thesis
    proof (cases "before ?h")
      case yes: True
      have "bisect before (?h + 1) j \<le> n \<and> (\<forall>k < bisect before (?h + 1) j. before k)
          \<and> (\<forall>k. bisect before (?h + 1) j \<le> k \<and> k < n \<longrightarrow> \<not> before k)"
      proof (rule "1.IH"(1) [OF True refl yes])
        show "\<forall>k < ?h + 1. before k"
          using yes "1.prems"(2,5) h by (metis Suc_eq_plus1 less_Suc_eq_le less_le_trans)
      qed (use "1.prems" h in auto)
      then show ?thesis using True yes by (simp add: bisect.simps [of before i j] Let_def)
    next
      case no: False
      have "bisect before i ?h \<le> n \<and> (\<forall>k < bisect before i ?h. before k)
          \<and> (\<forall>k. bisect before i ?h \<le> k \<and> k < n \<longrightarrow> \<not> before k)"
      proof (rule "1.IH"(2) [OF True refl no])
        show "\<forall>k. ?h \<le> k \<and> k < n \<longrightarrow> \<not> before k"
          using no "1.prems"(5) by blast
      qed (use "1.prems" h in auto)
      then show ?thesis using True no by (simp add: bisect.simps [of before i j] Let_def)
    qed
  next
    case False
    then have "i = j" using "1.prems"(1) by simp
    then show ?thesis using "1.prems" by (simp add: bisect.simps [of before j j])
  qed
qed

section \<open>The order of the reactions of a message\<close>

definition rx_key :: "reaction_entry \<Rightarrow> handle \<times> handle" where
  "rx_key r = (rx_emoji r, rx_user r)"

definition rx_sorted :: "reaction_entry list \<Rightarrow> bool" where
  "rx_sorted = sorted_wrt (\<lambda>a b. rx_key a < rx_key b)"

lemma compareReactions_iff:
  "compareReactions a b < 0 \<longleftrightarrow> rx_key a < rx_key b" "compareReactions a b = 0 \<longleftrightarrow> rx_key a = rx_key b"
  by (auto simp: compareReactions_def rx_key_def less_prod_def)

lemma reactionSearch_spec:
  assumes "rx_sorted xs" and "reactionSearch xs e u = (i, found)"
  shows "i \<le> length xs \<and> (\<forall>k < i. rx_key (xs ! k) < (e, u))
    \<and> (\<forall>k. i \<le> k \<and> k < length xs \<longrightarrow> (e, u) \<le> rx_key (xs ! k))
    \<and> (found \<longleftrightarrow> i < length xs \<and> rx_key (xs ! i) = (e, u))
    \<and> (found \<longleftrightarrow> (e, u) \<in> rx_key ` set xs)"
proof -
  let ?t = "\<lparr>rx_nanos = 0, rx_source = [], rx_emoji = e, rx_user = u\<rparr>"
  let ?before = "\<lambda>k. compareReactions (xs ! k) ?t < 0"
  have t: "rx_key ?t = (e, u)" by (simp add: rx_key_def)
  have i: "i = bisect ?before 0 (length xs)"
    and found: "found \<longleftrightarrow> i < length xs \<and> rx_key (xs ! i) = (e, u)"
    using assms(2) by (auto simp: reactionSearch_def Let_def compareReactions_iff t)
  have step: "rx_key (xs ! a) < rx_key (xs ! b)" if "a < b" "b < length xs" for a b
    using assms(1) that by (simp add: rx_sorted_def sorted_wrt_iff_nth_less)
  have "\<forall>a b. a \<le> b \<and> b < length xs \<and> ?before b \<longrightarrow> ?before a"
  proof (intro allI impI)
    fix a b assume "a \<le> b \<and> b < length xs \<and> ?before b"
    then show "?before a"
      unfolding compareReactions_iff t using step [of a b] by (cases "a = b") auto
  qed
  then have "i \<le> length xs \<and> (\<forall>k < i. ?before k) \<and> (\<forall>k. i \<le> k \<and> k < length xs \<longrightarrow> \<not> ?before k)"
    unfolding i by (intro bisect_spec) auto
  then have b: "i \<le> length xs" "\<forall>k < i. rx_key (xs ! k) < (e, u)"
      "\<forall>k. i \<le> k \<and> k < length xs \<longrightarrow> (e, u) \<le> rx_key (xs ! k)"
    by (auto simp: compareReactions_iff t not_less)
  have "i < length xs \<and> rx_key (xs ! i) = (e, u)" if "(e, u) \<in> rx_key ` set xs"
  proof -
    from that obtain k where k: "k < length xs" "rx_key (xs ! k) = (e, u)"
      by (metis imageE in_set_conv_nth)
    then have "i \<le> k" using b(2) by (metis leI less_irrefl)
    moreover have "\<not> i < k"
    proof
      assume "i < k"
      then have "(e, u) \<le> rx_key (xs ! i)" using b(3) k(1) by simp
      then show False using step [OF \<open>i < k\<close> k(1)] k(2) by simp
    qed
    ultimately show ?thesis using k by (metis le_neq_implies_less)
  qed
  then show ?thesis using b found by (metis image_eqI nth_mem)
qed

text \<open>The reactions of a message as a map from the pair of handles.\<close>

definition rx_map :: "reaction_entry list \<Rightarrow> handle \<times> handle \<Rightarrow> (64 word \<times> string) option" where
  "rx_map xs = map_of (map (\<lambda>r. (rx_key r, (rx_nanos r, rx_source r))) xs)"

lemma rx_map_simps [simp]:
  "rx_map [] = Map.empty"
  "rx_map (r # xs) = (rx_map xs)(rx_key r \<mapsto> (rx_nanos r, rx_source r))"
  by (simp_all add: rx_map_def)

lemma rx_map_append: "rx_map (xs @ ys) = rx_map xs ++ rx_map ys" if "rx_key ` set xs \<inter> rx_key ` set ys = {}"
proof -
  have "rx_map (xs @ ys) = rx_map ys ++ rx_map xs" by (simp add: rx_map_def map_of_append)
  also have "\<dots> = rx_map xs ++ rx_map ys"
    using that by (intro map_add_comm) (force simp: rx_map_def dom_map_of_conv_image_fst)
  finally show ?thesis .
qed

lemma rx_map_None: "rx_map xs k = None \<longleftrightarrow> k \<notin> rx_key ` set xs"
  by (force simp: rx_map_def map_of_eq_None_iff)

lemma rx_map_Some:
  assumes "rx_sorted xs" and "r \<in> set xs"
  shows "rx_map xs (rx_key r) = Some (rx_nanos r, rx_source r)"
proof -
  have "distinct (map rx_key xs)"
    using assms(1) by (simp add: rx_sorted_def strict_sorted_iff flip: sorted_wrt_map)
  then show ?thesis
    using assms(2) by (auto simp: rx_map_def map_of_eq_Some_iff comp_def)
qed

lemma rx_sorted_split:
  assumes "rx_sorted (xs @ r # ys)"
  shows "rx_sorted (xs @ ys)" and "rx_key r \<notin> rx_key ` set (xs @ ys)"
  using assms by (auto simp: rx_sorted_def sorted_wrt_append)

lemma rx_map_split:
  assumes "rx_sorted (xs @ r # ys)"
  shows "rx_map (xs @ r # ys) = (rx_map (xs @ ys))(rx_key r \<mapsto> (rx_nanos r, rx_source r))"
    and "rx_map (xs @ ys) = (rx_map (xs @ r # ys))(rx_key r := None)"
proof -
  have "rx_key ` set xs \<inter> rx_key ` set (r # ys) = {}" "rx_key ` set xs \<inter> rx_key ` set ys = {}"
    using assms by (fastforce simp: rx_sorted_def sorted_wrt_append)+
  then show first: "rx_map (xs @ r # ys) = (rx_map (xs @ ys))(rx_key r \<mapsto> (rx_nanos r, rx_source r))"
    by (simp add: rx_map_append)
  have "rx_map (xs @ ys) (rx_key r) = None"
    using rx_sorted_split(2) [OF assms] by (simp add: rx_map_None)
  then show "rx_map (xs @ ys) = (rx_map (xs @ r # ys))(rx_key r := None)"
    by (auto simp: first fun_eq_iff)
qed

lemma take_insert_sorted:
  assumes "rx_sorted xs" and "reactionSearch xs e u = (i, False)" and "rx_key r = (e, u)"
  shows "rx_sorted (take i xs @ r # drop i xs)"
proof -
  note s = reactionSearch_spec [OF assms(1,2)]
  have before: "rx_key x < rx_key r" if "x \<in> set (take i xs)" for x
    using that s assms(3) by (auto simp: in_set_conv_nth)
  have after: "rx_key r < rx_key x" if x: "x \<in> set (drop i xs)" for x
  proof -
    from x obtain k where "i \<le> k" "k < length xs" "x = xs ! k"
      by (auto simp: in_set_conv_nth) (metis add.commute le_add1 less_diff_conv)
    then have "(e, u) \<le> rx_key x" using s by blast
    moreover have "rx_key x \<noteq> (e, u)" using s in_set_dropD [OF x] by (metis image_eqI)
    ultimately show ?thesis using assms(3) by simp
  qed
  have "rx_sorted (take i xs @ drop i xs)" using assms(1) by simp
  then show ?thesis
    using before after unfolding rx_sorted_def sorted_wrt_append by simp
qed

section \<open>A content projection that may panic\<close>

definition set_rs_guard :: "replay_guard \<Rightarrow> reactions \<Rightarrow> reactions" where
  "set_rs_guard g p = p\<lparr>rs_guard := g\<rparr>"

lemma set_rs_guard_sel [simp]:
  "rs_ids (set_rs_guard g p) = rs_ids p" "rs_byMessage (set_rs_guard g p) = rs_byMessage p"
  "rs_roomSeq (set_rs_guard g p) = rs_roomSeq p" "rs_messageRooms (set_rs_guard g p) = rs_messageRooms p"
  "rs_echoOriginal (set_rs_guard g p) = rs_echoOriginal p" "rs_assetRoom (set_rs_guard g p) = rs_assetRoom p"
  "rs_guard (set_rs_guard g p) = g"
  by (simp_all add: set_rs_guard_def)

lemma rs_guard_reads [simp]:
  "reactionsAt (set_rs_guard g p) m = reactionsAt p m"
  "canonicalMessage (set_rs_guard g p) m = canonicalMessage p m"
  "RoomSequence (set_rs_guard g p) r = RoomSequence p r"
  "roomSeqID (set_rs_guard g p) ev = roomSeqID p ev"
  "reactionsForMessage (set_rs_guard g p) m = reactionsForMessage p m"
  "reactionSummaries (set_rs_guard g p) xs = reactionSummaries p xs"
proof -
  show a: "reactionsAt (set_rs_guard g p) m = reactionsAt p m"
    by (simp add: reactionsAt_def)
  show c: "canonicalMessage (set_rs_guard g p) m = canonicalMessage p m"
    by (simp add: canonicalMessage_def)
  have room: "roomOfProcessing (set_rs_guard g p) i j = roomOfProcessing p i j" for i j
    by (simp add: roomOfProcessing_def messageRoom_def split: option.split)
  show "roomSeqID (set_rs_guard g p) ev = roomSeqID p ev"
    by (simp add: roomSeqID_def room Let_def split: option.split content_event.split)
qed (simp_all add: RoomSequence_def reactionsForMessage_def reactionSummaries_def reactionsAt_def
    canonicalMessage_def)

lemma rs_guard_ops:
  "noteRoomSeq r sq (set_rs_guard g p) = set_rs_guard g (noteRoomSeq r sq p)"
  "noteRoomOwnership ev r (set_rs_guard g p) = map_option (set_rs_guard g) (noteRoomOwnership ev r p)"
  "applyAdded m e u n src (set_rs_guard g p) = map_option (set_rs_guard g) (applyAdded m e u n src p)"
  "applyRemoved m e u (set_rs_guard g p) = set_rs_guard g (applyRemoved m e u p)"
  by (simp_all add: noteRoomSeq_def noteRoomOwnership_def applyAdded_def applyRemoved_def
      RoomSequence_def set_rs_guard_def Let_def reactionsAt_def canonicalMessage_def
      split: option.split content_event.split prod.split)

lemma reaction_switch_guard:
  "reaction_switch ev (set_rs_guard g p) = map_option (set_rs_guard g) (reaction_switch ev p)"
  by (simp add: reaction_switch_def rs_guard_ops split: option.split content_event.split)

text \<open>One record without its guard.\<close>

definition reaction_step :: "content_fact \<Rightarrow> seq \<Rightarrow> reactions \<Rightarrow> reactions option" where
  "reaction_step ev sq p =
     (case roomSeqID p ev of
        None \<Rightarrow> None
      | Some roomID \<Rightarrow>
          if roomID = [] then Some p
          else (case noteRoomOwnership ev roomID (noteRoomSeq roomID sq p) of
                  None \<Rightarrow> None
                | Some p1 \<Rightarrow> reaction_switch ev p1))"

lemma reaction_switch_other: "\<not> is_reaction ev \<Longrightarrow> reaction_switch ev p = Some p"
  by (simp add: reaction_switch_def is_reaction_def split: option.splits content_event.splits)

lemma note_guard:
  "rs_guard (noteRoomSeq r sq p) = rs_guard p"
  "noteRoomOwnership ev r p = Some q \<Longrightarrow> rs_guard q = rs_guard p"
  by (auto simp: noteRoomSeq_def noteRoomOwnership_def Let_def
      split: option.splits content_event.splits if_splits)

lemma reaction_step_guard:
  "reaction_step ev sq (set_rs_guard g p) = map_option (set_rs_guard g) (reaction_step ev sq p)"
  by (auto simp: reaction_step_def rs_guard_ops reaction_switch_guard split: option.split)

lemma set_rs_guard_laws:
  "set_rs_guard g (set_rs_guard g' p) = set_rs_guard g p" "set_rs_guard (rs_guard p) p = p"
  "Reaction_CompleteStartupReplay p = set_rs_guard (guard_completeReplay (rs_guard p)) p"
  by (simp_all add: set_rs_guard_def Reaction_CompleteStartupReplay_def)

interpretation reactions: fallible_content_projection rs_guard set_rs_guard reaction_step
    Reaction_Apply Reaction_CompleteStartupReplay
proof unfold_locales
  fix p :: reactions and ev :: content_fact and sq
  assume ok: "guard_ok (rs_guard p)" and unseen: "guard_seen (rs_guard p) ev sq = (False, rs_guard p)"
  obtain g where g: "guard_mark (rs_guard p) ev sq = Some g"
    using guard_mark_Some [OF ok] by blast
  have same: "set_rs_guard (rs_guard p) q = q" if "rs_guard q = rs_guard p" for q
    by (simp add: set_rs_guard_def flip: that)
  show "\<exists>g. Reaction_Apply p (Some ev) sq = map_option (set_rs_guard g) (reaction_step ev sq p)
          \<and> (g = rs_guard p \<or> guard_mark (rs_guard p) ev sq = Some g)"
  proof (cases "roomSeqID p ev = None \<or> roomSeqID p ev = Some [] \<or>
      noteRoomOwnership ev (the (roomSeqID p ev)) (noteRoomSeq (the (roomSeqID p ev)) sq p) = None")
    case True
    then show ?thesis
      by (intro exI [of _ "rs_guard p"])
        (auto simp: Reaction_Apply_def reaction_step_def same split: option.split)
  next
    case False
    then obtain r p1 where r: "roomSeqID p ev = Some r" "r \<noteq> []"
      and p1: "noteRoomOwnership ev r (noteRoomSeq r sq p) = Some p1"
      by auto
    have guard: "rs_guard p1 = rs_guard p" using p1 by (simp add: note_guard)
    show ?thesis
    proof (cases "is_reaction ev")
      case True
      have "Reaction_Apply p (Some ev) sq = map_option (set_rs_guard g) (reaction_step ev sq p)"
        using True r p1 g guard
        by (simp add: Reaction_Apply_def reaction_step_def guard_seenOrMark_unseen [OF unseen]
            reaction_switch_guard flip: set_rs_guard_def)
      then show ?thesis using g by blast
    next
      case False
      then show ?thesis
        using r p1 guard
        by (intro exI [of _ "rs_guard p"])
          (simp add: Reaction_Apply_def reaction_step_def reaction_switch_other same)
    qed
  qed
qed (simp_all add: reaction_step_guard set_rs_guard_laws)

section \<open>Handles that name identifiers\<close>

definition table_grows :: "id_table \<Rightarrow> id_table \<Rightarrow> bool" where
  "table_grows t t' \<longleftrightarrow> (\<forall>i h. table_Lookup t i = Some h \<longrightarrow> table_Lookup t' i = Some h)"

lemma table_grows_trans: "table_grows t t' \<Longrightarrow> table_grows t' t'' \<Longrightarrow> table_grows t t''"
  by (simp add: table_grows_def)

lemma Lookup_Resolve:
  assumes "table_ok t" and "table_Lookup t i = Some h"
  shows "table_Resolve t h = Some i" and "i \<noteq> []"
proof -
  obtain g t' where g: "table_Intern i t = Some (g, t')" and "t' = t" and "g = h"
    using assms(2) by (auto simp: table_Lookup_def table_Intern_def split: if_splits)
  then show "table_Resolve t h = Some i" using table_Intern_ok [OF assms(1) g] by simp
  show "i \<noteq> []" using assms(2) by (auto simp: table_Lookup_def)
qed

lemma Lookup_inj: "table_ok t \<Longrightarrow> table_Lookup t i = Some h \<Longrightarrow> table_Lookup t j = Some h \<Longrightarrow> i = j"
  by (metis Lookup_Resolve(1) option.inject)

lemma Intern_grows:
  assumes "table_ok t" and "table_Intern i t = Some (h, t')" and "i \<noteq> []"
  shows "table_ok t'" and "table_grows t t'" and "table_Lookup t' i = Some h"
  using table_Intern_ok [OF assms(1,2)] assms(3) by (auto simp: table_grows_def)

definition rx_named :: "id_table \<Rightarrow> reaction_entry \<Rightarrow> bool" where
  "rx_named t r \<longleftrightarrow>
     (\<exists>e. table_Lookup t e = Some (rx_emoji r)) \<and> (\<exists>u. table_Lookup t u = Some (rx_user r))"

lemma rx_named_grows: "rx_named t r \<Longrightarrow> table_grows t t' \<Longrightarrow> rx_named t' r"
  unfolding rx_named_def table_grows_def by blast

text \<open>What a list of reactions says about an emoji and an account.\<close>

definition decode_rx ::
  "id_table \<Rightarrow> reaction_entry list \<Rightarrow> string \<Rightarrow> string \<Rightarrow> (64 word \<times> string) option" where
  "decode_rx t xs e u =
     (case (table_Lookup t e, table_Lookup t u) of
        (Some he, Some hu) \<Rightarrow> rx_map xs (he, hu)
      | _ \<Rightarrow> None)"

lemma decode_rx_grows:
  assumes "table_ok t'" and "table_grows t t'" and "\<forall>r \<in> set xs. rx_named t r"
  shows "decode_rx t' xs e u = decode_rx t xs e u"
proof (cases "table_Lookup t e = None \<or> table_Lookup t u = None")
  case True
  have "rx_map xs (he, hu) = None" if new: "table_Lookup t' e = Some he" "table_Lookup t' u = Some hu" for he hu
  proof (rule ccontr)
    assume "rx_map xs (he, hu) \<noteq> None"
    then obtain r where r: "r \<in> set xs" "rx_emoji r = he" "rx_user r = hu"
      by (auto simp: rx_map_None rx_key_def)
    with assms(3) obtain e' u' where old: "table_Lookup t e' = Some he" "table_Lookup t u' = Some hu"
      by (auto simp: rx_named_def)
    then have "table_Lookup t' e' = Some he" "table_Lookup t' u' = Some hu"
      using assms(2) by (auto simp: table_grows_def)
    then have "e' = e" "u' = u"
      using new Lookup_inj [OF assms(1)] by blast+
    then show False using True old by simp
  qed
  then show ?thesis using True by (auto simp: decode_rx_def split: option.splits)
next
  case False
  then obtain he hu where "table_Lookup t e = Some he" "table_Lookup t u = Some hu" by auto
  then show ?thesis using assms(2) by (simp add: decode_rx_def table_grows_def)
qed

lemma decode_rx_upd:
  assumes "table_ok t" and "table_Lookup t e = Some he" and "table_Lookup t u = Some hu"
    and "rx_map ys = (rx_map xs)((he, hu) := v)"
  shows "decode_rx t ys e' u' = (if e' = e \<and> u' = u then v else decode_rx t xs e' u')"
  using assms Lookup_inj [OF assms(1)] by (auto simp: decode_rx_def split: option.splits)

section \<open>The state refines the reactions of the log\<close>

definition rs_inv :: "reactions \<Rightarrow> bool" where
  "rs_inv p \<longleftrightarrow>
     table_ok (rs_ids p)
     \<and> (\<forall>m xs. fmlookup (rs_byMessage p) m = Some xs \<longrightarrow> m \<noteq> [] \<and> xs \<noteq> [])
     \<and> (\<forall>m. rx_sorted (reactionsAt p m) \<and> (\<forall>r \<in> set (reactionsAt p m). rx_named (rs_ids p) r))"

definition reaction_of :: "reactions \<Rightarrow> string \<Rightarrow> string \<Rightarrow> string \<Rightarrow> (64 word \<times> string) option" where
  "reaction_of p m = decode_rx (rs_ids p) (reactionsAt p m)"

text \<open>The abstract state: the originals of echoes and the reactions.\<close>

type_synonym reaction_view =
  "(string \<Rightarrow> string) \<times> (string \<Rightarrow> string \<Rightarrow> string \<Rightarrow> (64 word \<times> string) option)"

definition rs_view :: "reactions \<Rightarrow> reaction_view" where
  "rs_view p = (stringAt (rs_echoOriginal p), reaction_of p)"

definition original_of :: "(string \<Rightarrow> string) \<Rightarrow> string \<Rightarrow> string" where
  "original_of echo m = (if echo m \<noteq> [] then echo m else m)"

definition set_reaction ::
  "string \<Rightarrow> string \<Rightarrow> string \<Rightarrow> (64 word \<times> string) option \<Rightarrow> reaction_view \<Rightarrow> reaction_view" where
  "set_reaction m e u v w =
     (fst w, \<lambda>m' e' u'. if m' = m \<and> e' = e \<and> u' = u then v else snd w m' e' u')"

definition view_step :: "content_fact \<Rightarrow> reaction_view \<Rightarrow> reaction_view" where
  "view_step ev w =
     (case payload_of ev of
        Some (MessagePosted m) \<Rightarrow>
          if mp_room_id m \<noteq> [] \<and> ev_id ev \<noteq> [] \<and> mp_echo_of m \<noteq> []
          then ((fst w)(ev_id ev := mp_echo_of m), snd w) else w
      | Some (ReactionAdded r m e u) \<Rightarrow>
          (let u' = if u = [] then ev_actor ev else u; m' = original_of (fst w) m in
           if r \<noteq> [] \<and> m \<noteq> [] \<and> e \<noteq> [] \<and> u' \<noteq> [] \<and> snd w m' e u' = None
           then set_reaction m' e u' (Some (eventCreatedNanos ev, ev_id ev)) w else w)
      | Some (ReactionRemoved r m e) \<Rightarrow>
          if r \<noteq> [] \<and> m \<noteq> [] \<and> e \<noteq> [] \<and> ev_actor ev \<noteq> []
          then set_reaction (original_of (fst w) m) e (ev_actor ev) None w else w
      | _ \<Rightarrow> w)"

lemma canonical_original: "canonicalMessage p m = original_of (stringAt (rs_echoOriginal p)) m"
  by (simp add: canonicalMessage_def original_of_def Let_def)

lemma rs_inv_at:
  assumes "rs_inv p"
  shows "table_ok (rs_ids p)" "rx_sorted (reactionsAt p m)"
    "\<forall>r \<in> set (reactionsAt p m). rx_named (rs_ids p) r"
  using assms by (auto simp: rs_inv_def)

lemma rs_inv_ids:
  assumes "rs_inv p" and "table_ok t" and "table_grows (rs_ids p) t"
  shows "rs_inv (p\<lparr>rs_ids := t\<rparr>) \<and> reaction_of (p\<lparr>rs_ids := t\<rparr>) = reaction_of p"
proof -
  have at: "reactionsAt (p\<lparr>rs_ids := t\<rparr>) m = reactionsAt p m" for m by (simp add: reactionsAt_def)
  show ?thesis
    using assms rx_named_grows [OF _ assms(3)] decode_rx_grows [OF assms(2,3)]
    by (auto simp: rs_inv_def at reaction_of_def fun_eq_iff)
qed

lemma reactionsAt_upd:
  "reactionsAt (p\<lparr>rs_byMessage := fmupd c ys (rs_byMessage p)\<rparr>) m = (if m = c then ys else reactionsAt p m)"
  "reactionsAt (p\<lparr>rs_byMessage := fmdrop c (rs_byMessage p)\<rparr>) m = (if m = c then [] else reactionsAt p m)"
  by (auto simp: reactionsAt_def)

text \<open>Replacing the reactions of one message.\<close>

lemma replace_refines:
  assumes "rs_inv p" and "table_Lookup (rs_ids p) e = Some he" and "table_Lookup (rs_ids p) u = Some hu"
    and "rx_map ys = (rx_map (reactionsAt p c))((he, hu) := v)" and "rx_sorted ys"
    and "\<forall>r \<in> set ys. rx_named (rs_ids p) r" and "c \<noteq> []"
    and "q = p\<lparr>rs_byMessage := (if ys = [] then fmdrop c (rs_byMessage p) else fmupd c ys (rs_byMessage p))\<rparr>"
  shows "rs_inv q \<and> rs_view q = set_reaction c e u v (rs_view p)"
proof -
  have at: "reactionsAt q m = (if m = c then ys else reactionsAt p m)" for m
    by (simp add: assms(8) reactionsAt_upd)
  have ids: "rs_ids q = rs_ids p" "rs_echoOriginal q = rs_echoOriginal p"
    by (simp_all add: assms(8))
  have "rs_inv q"
    unfolding rs_inv_def at ids
    using assms by (auto simp: rs_inv_def split: if_splits)
  moreover have "reaction_of q m' e' u' = (if m' = c \<and> e' = e \<and> u' = u then v else reaction_of p m' e' u')"
    for m' e' u'
    using decode_rx_upd [OF rs_inv_at(1) [OF assms(1)] assms(2,3,4)]
    by (simp add: reaction_of_def at ids)
  ultimately show ?thesis
    by (simp add: rs_view_def set_reaction_def ids fun_eq_iff)
qed

lemma added_refines:
  assumes "rs_inv p" and "applyAdded m e u n src p = Some q"
  shows "rs_inv q \<and> rs_view q =
    (let m' = original_of (fst (rs_view p)) m in
     if m \<noteq> [] \<and> e \<noteq> [] \<and> u \<noteq> [] \<and> snd (rs_view p) m' e u = None
     then set_reaction m' e u (Some (n, src)) (rs_view p) else rs_view p)"
proof (cases "m = [] \<or> e = [] \<or> u = []")
  case True
  then show ?thesis using assms by (auto simp: applyAdded_def Let_def)
next
  case False
  then obtain he ids1 hu ids2 where
    e: "table_Intern e (rs_ids p) = Some (he, ids1)" and u: "table_Intern u ids1 = Some (hu, ids2)"
    using assms(2) by (auto simp: applyAdded_def split: option.splits)
  note g1 = Intern_grows [OF rs_inv_at(1) [OF assms(1)] e] and g2 = Intern_grows [OF _ u]
  have ok: "table_ok ids2" and grows: "table_grows (rs_ids p) ids2"
    and he: "table_Lookup ids2 e = Some he" and hu: "table_Lookup ids2 u = Some hu"
    using False g1 g2 by (auto intro: table_grows_trans simp: table_grows_def)
  let ?p = "p\<lparr>rs_ids := ids2\<rparr>"
  have p1: "rs_inv ?p" "reaction_of ?p = reaction_of p"
    using rs_inv_ids [OF assms(1) ok grows] by auto
  have view: "rs_view ?p = rs_view p" using p1(2) by (simp add: rs_view_def)
  let ?c = "canonicalMessage p m"
  let ?xs = "reactionsAt p ?c"
  have c: "?c = original_of (fst (rs_view p)) m" by (simp add: canonical_original rs_view_def)
  have "?c \<noteq> []" using False by (simp add: canonicalMessage_def Let_def)
  have xs: "reactionsAt ?p ?c = ?xs" by (simp add: reactionsAt_def)
  obtain i found where search: "reactionSearch ?xs he hu = (i, found)" by force
  have mem: "found \<longleftrightarrow> (he, hu) \<in> rx_key ` set ?xs"
    using reactionSearch_spec [OF rs_inv_at(2) [OF assms(1)] search] by blast
  have now: "reaction_of p ?c e u = rx_map ?xs (he, hu)"
  proof -
    have "reaction_of ?p ?c e u = rx_map ?xs (he, hu)"
      using he hu by (simp add: reaction_of_def decode_rx_def xs)
    then show ?thesis by (simp add: p1(2))
  qed
  show ?thesis
  proof (cases found)
    case True
    then have "q = ?p" and "reaction_of p ?c e u \<noteq> None"
      using assms(2) False e u search mem by (auto simp: applyAdded_def Let_def now rx_map_None)
    then show ?thesis using p1 view by (auto simp: Let_def rs_view_def canonical_original)
  next
    case no: False
    let ?r = "\<lparr>rx_nanos = n, rx_source = src, rx_emoji = he, rx_user = hu\<rparr>"
    let ?ys = "take i ?xs @ ?r # drop i ?xs"
    have key: "rx_key ?r = (he, hu)" by (simp add: rx_key_def)
    have sorted: "rx_sorted ?ys"
      using search no by (intro take_insert_sorted [OF rs_inv_at(2) [OF assms(1)] _ key]) simp
    have map: "rx_map ?ys = (rx_map (reactionsAt ?p ?c))((he, hu) := Some (n, src))"
      using rx_map_split(1) [OF sorted] by (simp add: key xs)
    have named: "\<forall>r \<in> set ?ys. rx_named (rs_ids ?p) r"
      using rs_inv_at(3) [OF p1(1), of ?c] he hu
      by (auto simp: xs rx_named_def dest!: in_set_takeD in_set_dropD)
    have "reaction_of p ?c e u = None" using no mem by (simp add: now rx_map_None)
    moreover have "q = ?p\<lparr>rs_byMessage := fmupd ?c ?ys (rs_byMessage ?p)\<rparr>"
      using assms(2) False e u search no by (auto simp: applyAdded_def Let_def)
    ultimately show ?thesis
      using replace_refines [OF p1(1) _ _ map sorted named \<open>?c \<noteq> []\<close>, of e u q] he hu False view
      by (simp add: Let_def flip: c) (simp add: rs_view_def)
  qed
qed

lemma removed_refines:
  assumes "rs_inv p"
  shows "rs_inv (applyRemoved m e u p) \<and> rs_view (applyRemoved m e u p) =
    (if m \<noteq> [] \<and> e \<noteq> [] \<and> u \<noteq> []
     then set_reaction (original_of (fst (rs_view p)) m) e u None (rs_view p) else rs_view p)"
proof (cases "m = [] \<or> e = [] \<or> u = []")
  case True
  then show ?thesis using assms by (auto simp: applyRemoved_def)
next
  case False
  let ?c = "canonicalMessage p m"
  let ?xs = "reactionsAt p ?c"
  have c: "?c = original_of (fst (rs_view p)) m" by (simp add: canonical_original rs_view_def)
  have "?c \<noteq> []" using False by (simp add: canonicalMessage_def Let_def)
  have absent: "rs_view p = set_reaction ?c e u None (rs_view p)" if "reaction_of p ?c e u = None"
    using that by (auto simp: rs_view_def set_reaction_def fun_eq_iff)
  show ?thesis
  proof (cases "table_Lookup (rs_ids p) e = None \<or> table_Lookup (rs_ids p) u = None")
    case True
    then have "reaction_of p ?c e u = None" "applyRemoved m e u p = p"
      using False by (auto simp: reaction_of_def decode_rx_def applyRemoved_def split: option.splits)
    then show ?thesis using False assms absent by (simp flip: c)
  next
    case known: False
    then obtain he hu where h: "table_Lookup (rs_ids p) e = Some he" "table_Lookup (rs_ids p) u = Some hu"
      by auto
    obtain i found where search: "reactionSearch ?xs he hu = (i, found)" by force
    note spec = reactionSearch_spec [OF rs_inv_at(2) [OF assms] search]
    show ?thesis
    proof (cases found)
      case no: False
      then have "reaction_of p ?c e u = None" "applyRemoved m e u p = p"
        using False spec search h
        by (auto simp: reaction_of_def decode_rx_def rx_map_None applyRemoved_def Let_def)
      then show ?thesis using False assms absent by (simp flip: c)
    next
      case True
      then have i: "i < length ?xs" "rx_key (?xs ! i) = (he, hu)" using spec by auto
      let ?ys = "take i ?xs @ drop (Suc i) ?xs"
      have split: "?xs = take i ?xs @ ?xs ! i # drop (Suc i) ?xs" using i(1) by (rule id_take_nth_drop)
      have sorted: "rx_sorted (take i ?xs @ ?xs ! i # drop (Suc i) ?xs)"
        using rs_inv_at(2) [OF assms, of ?c] split by simp
      have map: "rx_map ?ys = (rx_map ?xs)((he, hu) := None)"
        using rx_map_split(2) [OF sorted] i(2) split by simp
      have named: "\<forall>r \<in> set ?ys. rx_named (rs_ids p) r"
        using rs_inv_at(3) [OF assms, of ?c] by (auto dest!: in_set_takeD in_set_dropD)
      have "?ys = [] \<longleftrightarrow> length ?xs = 1" using i(1) by (auto simp: le_Suc_eq)
      then have "applyRemoved m e u p = p\<lparr>rs_byMessage :=
          (if ?ys = [] then fmdrop ?c (rs_byMessage p) else fmupd ?c ?ys (rs_byMessage p))\<rparr>"
        using False search h True by (simp add: applyRemoved_def Let_def)
      from replace_refines [OF assms h map rx_sorted_split(1) [OF sorted] named \<open>?c \<noteq> []\<close> this]
      show ?thesis using False by (simp flip: c)
    qed
  qed
qed

lemma noted_refines:
  assumes "rs_inv p"
  shows "rs_inv (noteRoomSeq r sq p) \<and> rs_view (noteRoomSeq r sq p) = rs_view p"
  using assms by (auto simp: noteRoomSeq_def rs_inv_def rs_view_def reaction_of_def reactionsAt_def fun_eq_iff)

lemma frame_refines:
  assumes "rs_inv p" and "rs_ids q = rs_ids p" and "rs_byMessage q = rs_byMessage p"
    and "rs_echoOriginal q = rs_echoOriginal p"
  shows "rs_inv q \<and> rs_view q = rs_view p"
  using assms by (auto simp: rs_inv_def rs_view_def reaction_of_def reactionsAt_def fun_eq_iff)

lemma posted_refines:
  assumes "rs_inv p" and "r \<noteq> []" and "payload_of ev = Some (MessagePosted m)"
    and "noteRoomOwnership ev r p = Some q"
  shows "rs_inv q \<and> rs_view q =
    (if ev_id ev \<noteq> [] \<and> mp_echo_of m \<noteq> []
     then ((fst (rs_view p))(ev_id ev := mp_echo_of m), snd (rs_view p)) else rs_view p)"
proof (cases "ev_id ev = []")
  case True
  then show ?thesis using assms by (simp add: noteRoomOwnership_def)
next
  case False
  then obtain h ids where i: "table_Intern r (rs_ids p) = Some (h, ids)"
    using assms by (auto simp: noteRoomOwnership_def split: option.splits)
  note g = Intern_grows [OF rs_inv_at(1) [OF assms(1)] i assms(2)]
  note p1 = rs_inv_ids [OF assms(1) g(1,2)]
  have q: "rs_ids q = ids" "rs_byMessage q = rs_byMessage p"
    "stringAt (rs_echoOriginal q) = (if mp_echo_of m \<noteq> []
       then (stringAt (rs_echoOriginal p))(ev_id ev := mp_echo_of m) else stringAt (rs_echoOriginal p))"
    using assms False i by (auto simp: noteRoomOwnership_def Let_def stringAt_def fun_eq_iff)
  have at: "reactionsAt q = reactionsAt (p\<lparr>rs_ids := ids\<rparr>)"
    by (simp add: reactionsAt_def fun_eq_iff q)
  have "rs_inv q" using p1 by (simp add: rs_inv_def at q)
  moreover have "reaction_of q = reaction_of p"
    using p1 by (simp add: reaction_of_def fun_eq_iff at q)
  ultimately show ?thesis using False by (simp add: rs_view_def q)
qed

lemma roomSeqID_room: "roomIDOfEvent ev \<noteq> [] \<Longrightarrow> roomSeqID p ev = Some (roomIDOfEvent ev)"
  by (simp add: roomSeqID_def Let_def)

lemma roomSeqID_no_room:
  assumes "roomIDOfEvent ev = []" and "roomSeqID p ev = Some r" and "r \<noteq> []"
  shows "view_step ev w = w \<and> \<not> is_reaction ev \<and> (\<forall>m. payload_of ev \<noteq> Some (MessagePosted m))"
  using assms
  by (simp add: roomSeqID_def Let_def view_step_def is_reaction_def split: option.splits content_event.splits)

lemma step_refines:
  assumes "rs_inv p" and "reaction_step ev sq p = Some q"
  shows "rs_inv q \<and> rs_view q = view_step ev (rs_view p)"
proof (cases "roomSeqID p ev = Some []")
  case True
  then have room: "roomIDOfEvent ev = []" using roomSeqID_room [of ev p] by auto
  have "view_step ev w = w" for w
    using room by (auto simp: roomIDOfEvent_def view_step_def split: option.splits content_event.splits)
  then show ?thesis using True assms by (simp add: reaction_step_def)
next
  case False
  then obtain r p1 where r: "roomSeqID p ev = Some r" "r \<noteq> []"
    and p1: "noteRoomOwnership ev r (noteRoomSeq r sq p) = Some p1"
    and q: "reaction_switch ev p1 = Some q"
    using assms(2) by (auto simp: reaction_step_def split: option.splits)
  note n = noted_refines [OF assms(1), of r sq]
  show ?thesis
  proof (cases "\<exists>m. payload_of ev = Some (MessagePosted m)")
    case True
    then obtain m where m: "payload_of ev = Some (MessagePosted m)" by blast
    have "roomIDOfEvent ev = mp_room_id m" by (simp add: roomIDOfEvent_def m)
    moreover have "roomSeqID p ev = Some (mp_room_id m)"
      by (simp add: roomSeqID_def Let_def m roomIDOfEvent_def)
    ultimately have "mp_room_id m \<noteq> []" using r by simp
    then show ?thesis
      using posted_refines [OF _ r(2) m p1] n q
      by (simp add: view_step_def m reaction_switch_def)
  next
    case other: False
    have same: "rs_inv p1 \<and> rs_view p1 = rs_view p"
      using frame_refines [of "noteRoomSeq r sq p" p1] n p1 r(2) other
      by (auto simp: noteRoomOwnership_def split: option.splits content_event.splits if_splits)
    show ?thesis
    proof (cases "roomIDOfEvent ev = []")
      case True
      with roomSeqID_no_room [OF this r] same q show ?thesis by (simp add: reaction_switch_other)
    next
      case False
      show ?thesis
      proof (cases "is_reaction ev")
        case False
        then have "view_step ev w = w" for w
          using other by (auto simp: view_step_def is_reaction_def split: option.splits content_event.splits)
        then show ?thesis using same q False by (simp add: reaction_switch_other)
      next
        case True
        then consider (added) r' m e u where "payload_of ev = Some (ReactionAdded r' m e u)"
          | (removed) r' m e where "payload_of ev = Some (ReactionRemoved r' m e)"
          by (auto simp: is_reaction_def split: option.splits content_event.splits)
        then show ?thesis
        proof cases
          case (added r' m e u)
          have "r' \<noteq> []" using False by (simp add: roomIDOfEvent_def added)
          then show ?thesis
            using added_refines [of p1 m e "if u = [] then ev_actor ev else u" _ _ q] same q
            by (simp add: reaction_switch_def added view_step_def Let_def)
        next
          case (removed r' m e)
          have "r' \<noteq> []" using False by (simp add: roomIDOfEvent_def removed)
          then show ?thesis
            using removed_refines [of p1 m e "ev_actor ev"] same q
            by (auto simp: reaction_switch_def removed view_step_def)
        qed
      qed
    qed
  qed
qed

definition view_of :: "(content_fact \<times> seq) list \<Rightarrow> reaction_view" where
  "view_of log = fold (\<lambda>x. view_step (fst x)) log (\<lambda>_. [], \<lambda>_ _ _. None)"

lemma new_refines: "rs_inv NewReactionProjection \<and> rs_view NewReactionProjection = view_of []"
  by (simp add: rs_inv_def NewReactionProjection_def table_ok_def new_table_def reactionsAt_def rx_sorted_def
      rs_view_def view_of_def reaction_of_def decode_rx_def stringAt_def fun_eq_iff split: option.split)

lemma reduce_refines:
  assumes "reduce_opt reaction_step log NewReactionProjection = Some p"
  shows "rs_inv p \<and> rs_view p = view_of log"
  using assms
proof (induction log arbitrary: p rule: rev_induct)
  case Nil
  then show ?case using new_refines by simp
next
  case (snoc x log)
  obtain ev sq where x: "x = (ev, sq)" by force
  from snoc.prems obtain q where q: "reduce_opt reaction_step log NewReactionProjection = Some q"
    and p: "reaction_step ev sq q = Some p"
    by (auto simp: x reduce_opt_append split: option.splits)
  have "rs_inv q" and view: "rs_view q = view_of log" using snoc.IH [OF q] by auto
  then show ?case using step_refines [OF \<open>rs_inv q\<close> p] by (simp add: x view_of_def)
qed

lemma replayed_reactions:
  assumes "clean_log (startup @ live)"
    and "replayed Reaction_Apply Reaction_CompleteStartupReplay startup live NewReactionProjection = Some p"
  obtains g q where "p = set_rs_guard g q"
    and "reduce_opt reaction_step (startup @ live) NewReactionProjection = Some q"
    and "rs_inv q" and "rs_view q = view_of (startup @ live)"
proof -
  have "rs_guard NewReactionProjection = newProjectionReplayGuard"
    by (simp add: NewReactionProjection_def)
  from reactions.run_clean [OF this assms(1)] obtain g where
    "Some p = map_option (set_rs_guard g) (reduce_opt reaction_step (startup @ live) NewReactionProjection)"
    unfolding assms(2) by blast
  then obtain q where
    "p = set_rs_guard g q" "reduce_opt reaction_step (startup @ live) NewReactionProjection = Some q"
    by (cases "reduce_opt reaction_step (startup @ live) NewReactionProjection") auto
  with reduce_refines that show thesis by blast
qed

section \<open>What mutations and readers see\<close>

lemma snapshot_fold:
  "fold (\<lambda>r s. if rx_user r \<noteq> hu then s
               else (let s1 = s\<lparr>rn_count := rn_count s + 1\<rparr> in
                     if he = Some (rx_emoji r) then s1\<lparr>rn_exists := True, rn_source := rx_source r\<rparr> else s1))
     xs s =
   (let hits = filter (\<lambda>r. rx_user r = hu \<and> he = Some (rx_emoji r)) xs in
    s\<lparr>rn_count := rn_count s + length (filter (\<lambda>r. rx_user r = hu) xs),
      rn_exists := rn_exists s \<or> hits \<noteq> [],
      rn_source := (if hits = [] then rn_source s else rx_source (last hits))\<rparr>)"
  by (induction xs arbitrary: s) (auto simp: Let_def)

lemma decode_rx_member:
  assumes "table_ok t" and "rx_sorted xs" and "table_Lookup t u = Some hu"
  shows "decode_rx t xs e u = Some (n, src) \<longleftrightarrow>
    (\<exists>r \<in> set xs. table_Lookup t e = Some (rx_emoji r) \<and> rx_user r = hu \<and> rx_nanos r = n \<and> rx_source r = src)"
proof (cases "table_Lookup t e")
  case None
  then show ?thesis by (simp add: decode_rx_def)
next
  case (Some he)
  have "rx_map xs (he, hu) = Some (n, src) \<longleftrightarrow>
      (\<exists>r \<in> set xs. rx_key r = (he, hu) \<and> rx_nanos r = n \<and> rx_source r = src)"
  proof (cases "(he, hu) \<in> rx_key ` set xs")
    case True
    then obtain r where r: "r \<in> set xs" "rx_key r = (he, hu)" by force
    have "rx_map xs (rx_key r') = Some (rx_nanos r', rx_source r')" if "r' \<in> set xs" for r'
      by (rule rx_map_Some [OF assms(2) that])
    then show ?thesis using r by (metis option.inject prod.inject)
  next
    case False
    then have "rx_map xs (he, hu) = None" by (simp add: rx_map_None)
    then show ?thesis using False by (auto simp: image_iff)
  qed
  then show ?thesis using Some assms(3) by (auto simp: decode_rx_def rx_key_def)
qed

text \<open>The emoji an account reacted with, counted through the handles.\<close>

lemma count_user:
  assumes "table_ok t" and "rx_sorted xs" and "\<forall>r \<in> set xs. rx_named t r" and "table_Lookup t u = Some hu"
  shows "length (filter (\<lambda>r. rx_user r = hu) xs) = card {e. decode_rx t xs e u \<noteq> None}"
proof -
  let ?ys = "filter (\<lambda>r. rx_user r = hu) xs"
  let ?name = "\<lambda>r. THE e. table_Lookup t e = Some (rx_emoji r)"
  have name: "table_Lookup t (?name r) = Some (rx_emoji r)" if r: "r \<in> set xs" for r
  proof -
    obtain e where e: "table_Lookup t e = Some (rx_emoji r)"
      using r assms(3) by (auto simp: rx_named_def)
    show ?thesis
      by (rule theI [of "\<lambda>e. table_Lookup t e = Some (rx_emoji r)", OF e])
        (rule Lookup_inj [OF assms(1) _ e])
  qed
  have "distinct (map rx_key xs)"
    using assms(2) by (simp add: rx_sorted_def strict_sorted_iff flip: sorted_wrt_map)
  then have inj: "inj_on rx_emoji (set ?ys)" and "distinct ?ys"
    by (auto simp: distinct_map inj_on_def rx_key_def)
  have "inj_on ?name (set ?ys)"
  proof (rule inj_onI)
    fix r r' assume rs: "r \<in> set ?ys" "r' \<in> set ?ys" and eq: "?name r = ?name r'"
    have "Some (rx_emoji r) = table_Lookup t (?name r)" using name [of r] rs by simp
    also have "\<dots> = Some (rx_emoji r')" unfolding eq using name [of r'] rs by simp
    finally have "rx_emoji r = rx_emoji r'" by simp
    then show "r = r'" using inj rs by (simp add: inj_on_def)
  qed
  from card_image [OF this] have "length ?ys = card (?name ` set ?ys)"
    using distinct_card [OF \<open>distinct ?ys\<close>] by simp
  also have "?name ` set ?ys = {e. decode_rx t xs e u \<noteq> None}"
  proof -
    have "decode_rx t xs e u \<noteq> None \<longleftrightarrow> (\<exists>r \<in> set xs. table_Lookup t e = Some (rx_emoji r) \<and> rx_user r = hu)" for e
      using decode_rx_member [OF assms(1,2,4), of e] by (cases "decode_rx t xs e u") auto
    moreover have "e = ?name r" if "r \<in> set xs" "table_Lookup t e = Some (rx_emoji r)" for e r
      using name [OF that(1)] that(2) Lookup_inj [OF assms(1)] by blast
    ultimately show ?thesis using name by (auto simp: image_iff) blast
  qed
  finally show ?thesis .
qed

text \<open>C23 (refinement). What a mutation of reactions reads is what the log says, through the
  handles, the sorted lists and the bisection: over a log without repeated identities, an
  account has reacted with an emoji to a message exactly when a reaction was added and not
  removed since (the first addition counts, and a reaction to an echo is one to its
  original), the source is the identity of the fact that added it, and the count is the
  number of the account's emoji on the message.\<close>

theorem reactions_are_those_of_the_log:
  assumes "clean_log (startup @ live)"
    and "replayed Reaction_Apply Reaction_CompleteStartupReplay startup live
           NewReactionProjection = Some p"
    and "m \<noteq> []"
  shows "let w = view_of (startup @ live); active = snd w (original_of (fst w) m);
             s = ReactionMutationSnapshot p r m e u in
    HasReaction p m e u = (active e u \<noteq> None) \<and> rn_exists s = (active e u \<noteq> None)
    \<and> rn_count s = card {e. active e u \<noteq> None}
    \<and> rn_source s = (case active e u of None \<Rightarrow> [] | Some (n, src) \<Rightarrow> src)"
proof -
  obtain g q where p: "p = set_rs_guard g q" and inv: "rs_inv q" and view: "rs_view q = view_of (startup @ live)"
    by (rule replayed_reactions [OF assms(1,2)])
  define c where "c = canonicalMessage q m"
  define xs where "xs = reactionsAt q c"
  note at = rs_inv_at(1) [OF inv] rs_inv_at(2,3) [OF inv, of c, folded xs_def]
  have active: "snd (view_of (startup @ live)) (original_of (fst (view_of (startup @ live))) m) = decode_rx (rs_ids q) xs"
    by (simp add: rs_view_def reaction_of_def c_def canonical_original xs_def flip: view)
  have reads: "reactionsForMessage q m = xs" using assms(3) by (simp add: reactionsForMessage_def c_def xs_def)
  have "rn_exists s = (decode_rx (rs_ids q) xs e u \<noteq> None)
      \<and> rn_count s = card {e. decode_rx (rs_ids q) xs e u \<noteq> None}
      \<and> rn_source s = (case decode_rx (rs_ids q) xs e u of None \<Rightarrow> [] | Some (n, src) \<Rightarrow> src)"
    if s: "s = ReactionMutationSnapshot p r m e u" for r s
  proof (cases "table_Lookup (rs_ids q) u")
    case None
    then have "decode_rx (rs_ids q) xs e' u = None" for e'
      by (simp add: decode_rx_def split: option.split)
    then show ?thesis using None by (simp add: s ReactionMutationSnapshot_def p)
  next
    case (Some hu)
    let ?he = "table_Lookup (rs_ids q) e"
    let ?hits = "filter (\<lambda>r. rx_user r = hu \<and> ?he = Some (rx_emoji r)) xs"
    note member = decode_rx_member [OF at(1,2) Some, of e]
    have fold: "rn_exists s = (?hits \<noteq> [])" "rn_count s = length (filter (\<lambda>r. rx_user r = hu) xs)"
      "rn_source s = (if ?hits = [] then [] else rx_source (last ?hits))"
      by (simp_all add: s ReactionMutationSnapshot_def p Some reads snapshot_fold Let_def)
    show ?thesis
    proof (cases "?hits = []")
      case True
      then have "decode_rx (rs_ids q) xs e u = None"
        using member by (cases "decode_rx (rs_ids q) xs e u") (auto simp: filter_empty_conv)
      then show ?thesis using True fold count_user [OF at Some] by simp
    next
      case False
      then have "last ?hits \<in> set ?hits" by (rule last_in_set)
      then have "decode_rx (rs_ids q) xs e u = Some (rx_nanos (last ?hits), rx_source (last ?hits))"
        unfolding member by auto
      then show ?thesis using False fold count_user [OF at Some] by simp
    qed
  qed
  then show ?thesis by (simp add: active Let_def HasReaction_def)
qed

section \<open>Summaries\<close>

lemma takeWhile_equal:
  assumes "\<forall>x \<in> set rs. k \<le> f x" and "sorted (map f rs)"
  shows "takeWhile (\<lambda>x. f x = k) rs = filter (\<lambda>x. f x = k) rs
    \<and> dropWhile (\<lambda>x. f x = k) rs = filter (\<lambda>x. f x \<noteq> (k :: 'a :: linorder)) rs"
  using assms
proof (induction rs)
  case (Cons r rs)
  show ?case
  proof (cases "f r = k")
    case True
    then show ?thesis using Cons by simp
  next
    case False
    then have "\<forall>x \<in> set rs. f x \<noteq> k" using Cons.prems by fastforce
    then show ?thesis using False by (simp add: filter_id_conv)
  qed
qed simp

lemma emoji_runs_spec:
  assumes "sorted (map rx_emoji xs)"
  shows "(\<forall>R \<in> set (emoji_runs xs). R \<noteq> [] \<and> set R = {r \<in> set xs. rx_emoji r = rx_emoji (hd R)})
    \<and> distinct (map (\<lambda>R. rx_emoji (hd R)) (emoji_runs xs))
    \<and> rx_emoji ` hd ` set (emoji_runs xs) = rx_emoji ` set xs"
  using assms
proof (induction xs rule: emoji_runs.induct)
  case (2 r rs)
  let ?eq = "filter (\<lambda>x. rx_emoji x = rx_emoji r) rs" and ?ne = "filter (\<lambda>x. rx_emoji x \<noteq> rx_emoji r) rs"
  have split: "takeWhile (\<lambda>x. rx_emoji x = rx_emoji r) rs = ?eq" "dropWhile (\<lambda>x. rx_emoji x = rx_emoji r) rs = ?ne"
    using takeWhile_equal [of rs "rx_emoji r" rx_emoji] "2.prems" by auto
  have "sorted (map rx_emoji ?ne)" using "2.prems" by (simp add: sorted_filter)
  note IH = "2.IH" [unfolded split, OF this]
  note set_run = IH [THEN conjunct1] and dist = IH [THEN conjunct2, THEN conjunct1]
    and firsts_eq = IH [THEN conjunct2, THEN conjunct2]
  have runs: "emoji_runs (r # rs) = (r # ?eq) # emoji_runs ?ne" by (simp add: split)
  have other: "rx_emoji (hd R) \<noteq> rx_emoji r" if "R \<in> set (emoji_runs ?ne)" for R
  proof -
    have "rx_emoji (hd R) \<in> rx_emoji ` hd ` set (emoji_runs ?ne)" using that by simp
    then show ?thesis unfolding firsts_eq by auto
  qed
  have sets: "R \<noteq> [] \<and> set R = {x \<in> set (r # rs). rx_emoji x = rx_emoji (hd R)}"
    if "R \<in> set (emoji_runs ?ne)" for R
  proof -
    have "R \<noteq> [] \<and> set R = {x \<in> set ?ne. rx_emoji x = rx_emoji (hd R)}" using set_run that by blast
    moreover have "rx_emoji x = rx_emoji (hd R) \<Longrightarrow> rx_emoji x \<noteq> rx_emoji r" for x
      using other [OF that] by simp
    ultimately show ?thesis using other [OF that] by auto
  qed
  have firsts: "rx_emoji r \<notin> rx_emoji ` hd ` set (emoji_runs ?ne)"
    using other by fastforce
  show ?case
    unfolding runs
  proof (intro conjI)
    show "\<forall>R \<in> set ((r # ?eq) # emoji_runs ?ne).
        R \<noteq> [] \<and> set R = {x \<in> set (r # rs). rx_emoji x = rx_emoji (hd R)}"
    proof
      fix R assume "R \<in> set ((r # ?eq) # emoji_runs ?ne)"
      then consider "R = r # ?eq" | "R \<in> set (emoji_runs ?ne)" by (simp only: list.set insert_iff) blast
      then show "R \<noteq> [] \<and> set R = {x \<in> set (r # rs). rx_emoji x = rx_emoji (hd R)}"
      proof cases
        case 1
        have "set (r # ?eq) = {x \<in> set (r # rs). rx_emoji x = rx_emoji r}" by auto
        then show ?thesis unfolding 1 list.sel by blast
      next
        case 2
        then show ?thesis by (rule sets)
      qed
    qed
  next
    show "distinct (map (\<lambda>R. rx_emoji (hd R)) ((r # ?eq) # emoji_runs ?ne))"
      using dist firsts by (simp add: image_image)
    have "rx_emoji ` hd ` set ((r # ?eq) # emoji_runs ?ne) = insert (rx_emoji r) (rx_emoji ` set ?ne)"
      by (simp only: list.set image_insert list.sel firsts_eq)
    also have "\<dots> = rx_emoji ` set (r # rs)" by auto
    finally show "rx_emoji ` hd ` set ((r # ?eq) # emoji_runs ?ne) = rx_emoji ` set (r # rs)" .
  qed
qed simp

lemma concat_emoji_runs: "concat (emoji_runs xs) = xs"
  by (induction xs rule: emoji_runs.induct) simp_all

lemma those_map_Some: "(\<And>x. x \<in> set xs \<Longrightarrow> f x = Some (g x)) \<Longrightarrow> those (map f xs) = Some (map g xs)"
  by (induction xs) simp_all

lemma earliest_fold:
  assumes "e \<noteq> 0" and "\<forall>r \<in> set xs. rx_nanos r \<noteq> 0"
  shows "sint (fold (\<lambda>r e. if e = 0 \<or> sint (rx_nanos r) < sint e then rx_nanos r else e) xs e)
    = Min (insert (sint e) ((\<lambda>r. sint (rx_nanos r)) ` set xs))"
  using assms
proof (induction xs arbitrary: e)
  case (Cons r xs)
  let ?e = "if e = 0 \<or> sint (rx_nanos r) < sint e then rx_nanos r else e"
  have "Min (insert (sint ?e) ((\<lambda>r. sint (rx_nanos r)) ` set xs))
      = Min (insert (sint e) ((\<lambda>r. sint (rx_nanos r)) ` set (r # xs)))"
    using Cons.prems(1) by (cases "set xs = {}") (auto simp: min_def)
  then show ?case using Cons.IH [of ?e] Cons.prems by simp
qed simp

lemma earliest_nanos_Min:
  assumes "R \<noteq> []" and "\<forall>r \<in> set R. rx_nanos r \<noteq> 0"
  shows "sint (earliest_nanos R) = Min ((\<lambda>r. sint (rx_nanos r)) ` set R)"
proof -
  have "hd R \<in> set R" using assms(1) by simp
  then have "insert (sint (rx_nanos (hd R))) ((\<lambda>r. sint (rx_nanos r)) ` set R) = (\<lambda>r. sint (rx_nanos r)) ` set R"
    by blast
  then show ?thesis
    using earliest_fold [of "rx_nanos (hd R)" R] assms \<open>hd R \<in> set R\<close> by (simp add: earliest_nanos_def)
qed

lemma decode_rx_ne:
  "decode_rx t xs e u \<noteq> None \<longleftrightarrow>
    (\<exists>r \<in> set xs. table_Lookup t e = Some (rx_emoji r) \<and> table_Lookup t u = Some (rx_user r))"
proof -
  have "rx_map xs (he, hu) \<noteq> None \<longleftrightarrow> (\<exists>r \<in> set xs. rx_emoji r = he \<and> rx_user r = hu)" for he hu
    by (simp add: rx_map_None rx_key_def image_iff) blast
  then show ?thesis by (auto simp: decode_rx_def simp del: not_None_eq split: option.splits)
qed

lemma rx_sorted_emoji: "rx_sorted xs \<Longrightarrow> sorted (map rx_emoji xs)"
  unfolding rx_sorted_def sorted_wrt_map
  by (erule sorted_wrt_mono_rel [rotated]) (auto simp: rx_key_def less_prod_def)

lemma summary_of_run_spec:
  assumes ok: "table_ok t" and sorted: "rx_sorted xs" and named: "\<forall>r \<in> set xs. rx_named t r"
    and R: "R \<in> set (emoji_runs xs)"
  obtains e us where "table_Lookup t e = Some (rx_emoji (hd R))" and "distinct us" and "us \<noteq> []"
    and "summary_of_run t R = Some ((sint (earliest_nanos R), e), \<lparr>rsum_emoji = e, rsum_users = sort us\<rparr>)"
    and "set us = {u. decode_rx t xs e u \<noteq> None}"
proof -
  note runs = emoji_runs_spec [OF rx_sorted_emoji [OF sorted]]
  have R_set: "R \<noteq> []" "set R = {r \<in> set xs. rx_emoji r = rx_emoji (hd R)}"
    using runs R by blast+
  have mem: "r \<in> set R \<longleftrightarrow> r \<in> set xs \<and> rx_emoji r = rx_emoji (hd R)" for r
    using R_set(2) by blast
  let ?name = "\<lambda>r. the (table_Resolve t (rx_user r))"
  have name: "table_Lookup t (?name r) = Some (rx_user r)" "table_Resolve t (rx_user r) = Some (?name r)"
    if "r \<in> set R" for r
  proof -
    have "rx_named t r" using that mem named by blast
    then obtain u where u: "table_Lookup t u = Some (rx_user r)" by (auto simp: rx_named_def)
    with Lookup_Resolve(1) [OF ok u] show "table_Lookup t (?name r) = Some (rx_user r)"
      "table_Resolve t (rx_user r) = Some (?name r)" by simp_all
  qed
  have "hd R \<in> set xs" using mem [of "hd R"] R_set(1) by simp
  then obtain e where e: "table_Lookup t e = Some (rx_emoji (hd R))"
    using named by (auto simp: rx_named_def)
  have keys: "distinct (map rx_key xs)"
    using sorted by (simp add: rx_sorted_def strict_sorted_iff flip: sorted_wrt_map)
  then have "distinct (concat (emoji_runs xs))" by (simp add: concat_emoji_runs distinct_map)
  then have "distinct R" using R by (auto simp: distinct_concat_iff)
  moreover have "inj_on ?name (set R)"
  proof (rule inj_onI)
    fix r r' assume rs: "r \<in> set R" "r' \<in> set R" and eq: "?name r = ?name r'"
    have "Some (rx_user r) = table_Lookup t (?name r)" by (rule name(1) [OF rs(1), symmetric])
    also have "\<dots> = table_Lookup t (?name r')" by (simp only: eq)
    also have "\<dots> = Some (rx_user r')" by (rule name(1) [OF rs(2)])
    finally have "rx_user r = rx_user r'" by simp
    moreover have "rx_emoji r = rx_emoji r'" and "r \<in> set xs" "r' \<in> set xs"
      using mem [of r, THEN iffD1, OF rs(1)] mem [of r', THEN iffD1, OF rs(2)] by simp_all
    ultimately show "r = r'" using keys by (auto simp: distinct_map inj_on_def rx_key_def)
  qed
  ultimately have distinct: "distinct (map ?name R)" by (simp add: distinct_map)
  have users: "those (map (\<lambda>r. table_Resolve t (rx_user r)) R) = Some (map ?name R)"
    by (rule those_map_Some) (rule name(2))
  have "set (map ?name R) = {u. decode_rx t xs e u \<noteq> None}"
  proof -
    have "decode_rx t xs e u \<noteq> None \<longleftrightarrow> (\<exists>r \<in> set R. table_Lookup t u = Some (rx_user r))" for u
    proof
      assume "decode_rx t xs e u \<noteq> None"
      then obtain r where "r \<in> set xs" "rx_emoji r = rx_emoji (hd R)" "table_Lookup t u = Some (rx_user r)"
        unfolding decode_rx_ne e by force
      then show "\<exists>r \<in> set R. table_Lookup t u = Some (rx_user r)" using mem [of r] by blast
    next
      assume "\<exists>r \<in> set R. table_Lookup t u = Some (rx_user r)"
      then obtain r where r: "r \<in> set R" "table_Lookup t u = Some (rx_user r)" by blast
      show "decode_rx t xs e u \<noteq> None"
        unfolding decode_rx_ne e
        using mem [of r, THEN iffD1, OF r(1)] r(2) by (intro bexI [of _ r]) auto
    qed
    moreover have "u = ?name r" if "table_Lookup t u = Some (rx_user r)" "r \<in> set R" for u r
      using Lookup_inj [OF ok that(1) name(1) [OF that(2)]] .
    ultimately show ?thesis using name(1) by auto blast
  qed
  moreover have "summary_of_run t R
      = Some ((sint (earliest_nanos R), e), \<lparr>rsum_emoji = e, rsum_users = sort (map ?name R)\<rparr>)"
    unfolding summary_of_run_def users Lookup_Resolve(1) [OF ok e] by simp
  ultimately show thesis using that [OF e distinct] R_set(1) by simp
qed

text \<open>The times of an emoji on a message, as numbers.\<close>

definition added_times :: "(string \<Rightarrow> string \<Rightarrow> (64 word \<times> string) option) \<Rightarrow> string \<Rightarrow> int set" where
  "added_times active e = {sint n | n. \<exists>u src. active e u = Some (n, src)}"

lemma run_times:
  assumes "table_ok t" and "rx_sorted xs" and "\<forall>r \<in> set xs. rx_named t r"
    and "R \<in> set (emoji_runs xs)" and "table_Lookup t e = Some (rx_emoji (hd R))"
  shows "added_times (decode_rx t xs) e = (\<lambda>r. sint (rx_nanos r)) ` set R"
proof -
  have mem: "r \<in> set R \<longleftrightarrow> r \<in> set xs \<and> rx_emoji r = rx_emoji (hd R)" for r
    using emoji_runs_spec [OF rx_sorted_emoji [OF assms(2)]] assms(4) by blast
  have "(\<exists>u src. decode_rx t xs e u = Some (n, src)) \<longleftrightarrow> (\<exists>r \<in> set R. rx_nanos r = n)" for n
  proof
    assume "\<exists>u src. decode_rx t xs e u = Some (n, src)"
    then obtain u src where d: "decode_rx t xs e u = Some (n, src)" by blast
    then obtain hu where "table_Lookup t u = Some hu" by (auto simp: decode_rx_def split: option.splits)
    from d [unfolded decode_rx_member [OF assms(1,2) this]] obtain r where
      "r \<in> set xs" "Some (rx_emoji (hd R)) = Some (rx_emoji r)" "rx_nanos r = n"
      unfolding assms(5) by blast
    then show "\<exists>r \<in> set R. rx_nanos r = n" using mem [of r] by auto
  next
    assume "\<exists>r \<in> set R. rx_nanos r = n"
    then obtain r where r: "r \<in> set R" "rx_nanos r = n" by blast
    then have xs: "r \<in> set xs" "rx_emoji r = rx_emoji (hd R)" using mem [of r] by simp_all
    then obtain u where u: "table_Lookup t u = Some (rx_user r)" using assms(3) by (auto simp: rx_named_def)
    have "decode_rx t xs e u = Some (n, rx_source r)"
      unfolding decode_rx_member [OF assms(1,2) u]
      using r xs assms(5) by (intro bexI [of _ r]) auto
    then show "\<exists>u src. decode_rx t xs e u = Some (n, src)" by blast
  qed
  then show ?thesis by (auto simp: added_times_def)
qed

lemma sort_Nil_iff: "sort us = [] \<longleftrightarrow> us = []"
  by (metis set_empty set_sort)

text \<open>What the summaries of a list of reactions say.\<close>

lemma summaries_of_list:
  assumes inv: "rs_inv p" and xs: "xs = reactionsAt p c"
  defines "active \<equiv> reaction_of p c"
  shows "\<exists>ss. reactionSummaries p xs = Some ss
    \<and> distinct (map rsum_emoji ss)
    \<and> (\<forall>s \<in> set ss. rsum_users s \<noteq> [] \<and> sorted (rsum_users s) \<and> distinct (rsum_users s)
          \<and> set (rsum_users s) = {u. active (rsum_emoji s) u \<noteq> None})
    \<and> {e. \<exists>u. active e u \<noteq> None} = rsum_emoji ` set ss
    \<and> ((\<forall>e u src. active e u \<noteq> Some (0, src)) \<longrightarrow>
         sorted (map (\<lambda>s. (Min (added_times active (rsum_emoji s)), rsum_emoji s)) ss))"
proof -
  let ?t = "rs_ids p"
  note at = rs_inv_at(1) [OF inv] rs_inv_at(2,3) [OF inv, of c, folded xs]
  note runs = emoji_runs_spec [OF rx_sorted_emoji [OF at(2)]]
  have active: "active = decode_rx ?t xs" by (simp add: active_def reaction_of_def xs)
  let ?good = "\<lambda>R g. table_Lookup ?t (rsum_emoji (snd g)) = Some (rx_emoji (hd R))
      \<and> fst g = (sint (earliest_nanos R), rsum_emoji (snd g))
      \<and> rsum_users (snd g) \<noteq> [] \<and> sorted (rsum_users (snd g)) \<and> distinct (rsum_users (snd g))
      \<and> set (rsum_users (snd g)) = {u. active (rsum_emoji (snd g)) u \<noteq> None}"
  have "\<exists>g. summary_of_run ?t R = Some g \<and> ?good R g" if R: "R \<in> set (emoji_runs xs)" for R
    by (rule summary_of_run_spec [OF at R]) (auto simp: active sort_Nil_iff)
  then obtain f where f: "\<And>R. R \<in> set (emoji_runs xs) \<Longrightarrow> summary_of_run ?t R = Some (f R)"
    and good: "\<And>R. R \<in> set (emoji_runs xs) \<Longrightarrow> ?good R (f R)"
    by metis
  define gs where "gs = sort_key fst (map f (emoji_runs xs))"
  have gs: "set gs = f ` set (emoji_runs xs)" by (simp add: gs_def)
  have read: "reactionSummaries p xs = Some (map snd gs)"
    by (simp add: reactionSummaries_def those_map_Some [OF f] gs_def)
  have "inj_on (\<lambda>R. rsum_emoji (snd (f R))) (set (emoji_runs xs))"
  proof (rule inj_onI)
    fix R R' assume RR: "R \<in> set (emoji_runs xs)" "R' \<in> set (emoji_runs xs)"
      and eq: "rsum_emoji (snd (f R)) = rsum_emoji (snd (f R'))"
    have "rx_emoji (hd R) = rx_emoji (hd R')" using good [OF RR(1)] good [OF RR(2)] eq by simp
    then show "R = R'" using runs RR by (simp add: distinct_map inj_on_def)
  qed
  moreover have "distinct (emoji_runs xs)" using runs by (simp add: distinct_map)
  ultimately have "distinct (map (rsum_emoji \<circ> snd) (map f (emoji_runs xs)))"
    by (simp add: distinct_map comp_def)
  then have "distinct (map (rsum_emoji \<circ> snd) gs)"
    by (simp only: gs_def distinct_map distinct_sort set_sort)
  moreover have "{e. \<exists>u. active e u \<noteq> None} = rsum_emoji ` set (map snd gs)"
  proof (intro equalityI subsetI)
    fix e assume "e \<in> {e. \<exists>u. active e u \<noteq> None}"
    then obtain r where r: "r \<in> set xs" "table_Lookup ?t e = Some (rx_emoji r)"
      unfolding active decode_rx_ne by blast
    then have "rx_emoji r \<in> rx_emoji ` hd ` set (emoji_runs xs)" using runs by blast
    then obtain R where R: "R \<in> set (emoji_runs xs)" "rx_emoji r = rx_emoji (hd R)" by auto
    have "e = rsum_emoji (snd (f R))"
      using good [OF R(1)] r(2) R(2) Lookup_inj [OF at(1)] by metis
    then show "e \<in> rsum_emoji ` set (map snd gs)" using R(1) by (auto simp: gs)
  next
    fix e assume "e \<in> rsum_emoji ` set (map snd gs)"
    then obtain R where R: "R \<in> set (emoji_runs xs)" "e = rsum_emoji (snd (f R))" by (auto simp: gs)
    have "{u. active e u \<noteq> None} \<noteq> {}" unfolding R(2) using good [OF R(1)] by (metis set_empty)
    then show "e \<in> {e. \<exists>u. active e u \<noteq> None}" by blast
  qed
  moreover have "sorted (map (\<lambda>s. (Min (added_times active (rsum_emoji s)), rsum_emoji s)) (map snd gs))"
    if nonzero: "\<forall>e u src. active e u \<noteq> Some (0, src)"
  proof -
    have "(Min (added_times active (rsum_emoji (snd g))), rsum_emoji (snd g)) = fst g" if g: "g \<in> set gs" for g
    proof -
      obtain R where R: "R \<in> set (emoji_runs xs)" "g = f R" using g by (auto simp: gs)
      let ?e = "rsum_emoji (snd g)"
      have times: "added_times active ?e = (\<lambda>r. sint (rx_nanos r)) ` set R"
        unfolding active using run_times [OF at R(1)] good [OF R(1)] R(2) by simp
      have "0 \<notin> added_times active ?e" using nonzero by (auto simp: added_times_def signed_eq_0_iff)
      then have "\<forall>r \<in> set R. rx_nanos r \<noteq> 0" unfolding times by force
      moreover have "R \<noteq> []" using runs R(1) by blast
      ultimately have "sint (earliest_nanos R) = Min (added_times active ?e)"
        unfolding times by (rule earliest_nanos_Min [rotated])
      moreover have "fst g = (sint (earliest_nanos R), ?e)" using good [OF R(1)] R(2) by blast
      ultimately show ?thesis by simp
    qed
    then have "map (\<lambda>s. (Min (added_times active (rsum_emoji s)), rsum_emoji s)) (map snd gs) = map fst gs"
      by simp
    then show ?thesis by (simp only: gs_def sorted_sort_key)
  qed
  ultimately show ?thesis
    using read good by (intro exI [of _ "map snd gs"]) (auto simp: gs)
qed

text \<open>The summaries of a message are complete and in order: reading them never
  panics; each active emoji has exactly one summary, its accounts are those that reacted
  with it, sorted and without repetition, and no summary is empty; when every reaction has a
  time, the summaries come by their earliest reaction and then by the emoji.\<close>

theorem reaction_summaries_exact:
  assumes "clean_log (startup @ live)"
    and "replayed Reaction_Apply Reaction_CompleteStartupReplay startup live
           NewReactionProjection = Some p"
    and "m \<noteq> []"
  shows "let w = view_of (startup @ live); active = snd w (original_of (fst w) m) in
    \<exists>ss. Reactions p m = Some ss
    \<and> distinct (map rsum_emoji ss)
    \<and> (\<forall>s \<in> set ss. rsum_users s \<noteq> [] \<and> sorted (rsum_users s) \<and> distinct (rsum_users s)
          \<and> set (rsum_users s) = {u. active (rsum_emoji s) u \<noteq> None})
    \<and> {e. \<exists>u. active e u \<noteq> None} = rsum_emoji ` set ss
    \<and> ((\<forall>e u src. active e u \<noteq> Some (0, src)) \<longrightarrow>
         sorted (map (\<lambda>s. (Min (added_times active (rsum_emoji s)), rsum_emoji s)) ss))"
proof -
  obtain g q where p: "p = set_rs_guard g q" and inv: "rs_inv q" and view: "rs_view q = view_of (startup @ live)"
    by (rule replayed_reactions [OF assms(1,2)])
  let ?c = "original_of (stringAt (rs_echoOriginal q)) m"
  have "Reactions p m = reactionSummaries q (reactionsAt q ?c)"
    using assms(3) by (simp add: Reactions_def p reactionsForMessage_def canonical_original)
  then show ?thesis
    using summaries_of_list [OF inv refl, of ?c] by (simp add: rs_view_def Let_def flip: view)
qed

section \<open>The fence of mutations\<close>

lemma RoomSequence_noted: "RoomSequence (noteRoomSeq r sq p) r' = (if r' = r then max (RoomSequence p r) sq else RoomSequence p r')"
  by (auto simp: noteRoomSeq_def RoomSequence_def max_def split: option.splits)

lemma roomSeq_kept:
  "noteRoomOwnership ev r p = Some q \<Longrightarrow> rs_roomSeq q = rs_roomSeq p"
  "reaction_switch ev p = Some q \<Longrightarrow> rs_roomSeq q = rs_roomSeq p"
  by (auto simp: noteRoomOwnership_def reaction_switch_def applyAdded_def applyRemoved_def Let_def
      split: option.splits content_event.splits if_splits prod.splits)

lemma step_RoomSequence:
  assumes "reaction_step ev sq p = Some q"
  shows "RoomSequence q r = (if roomSeqID p ev = Some r \<and> r \<noteq> [] then max (RoomSequence p r) sq else RoomSequence p r)"
proof (cases "roomSeqID p ev = Some []")
  case True
  then show ?thesis using assms by (auto simp: reaction_step_def)
next
  case False
  then obtain r' p1 where r': "roomSeqID p ev = Some r'" "r' \<noteq> []"
    and p1: "noteRoomOwnership ev r' (noteRoomSeq r' sq p) = Some p1" "reaction_switch ev p1 = Some q"
    using assms by (auto simp: reaction_step_def split: option.splits)
  have "RoomSequence q r = RoomSequence (noteRoomSeq r' sq p) r"
    using roomSeq_kept(1) [OF p1(1)] roomSeq_kept(2) [OF p1(2)] by (simp add: RoomSequence_def)
  then show ?thesis using r' by (simp add: RoomSequence_noted)
qed

lemma reduce_RoomSequence:
  assumes "reduce_opt reaction_step log NewReactionProjection = Some p" and "r \<noteq> []"
  shows "(\<forall>(ev, sq) \<in> set log. roomIDOfEvent ev = r \<longrightarrow> sq \<le> RoomSequence p r)
    \<and> (RoomSequence p r = 0 \<or> (\<exists>ev. (ev, RoomSequence p r) \<in> set log))"
  using assms(1)
proof (induction log arbitrary: p rule: rev_induct)
  case Nil
  then show ?case by (auto simp: NewReactionProjection_def RoomSequence_def)
next
  case (snoc x log)
  obtain ev sq where x: "x = (ev, sq)" by force
  from snoc.prems obtain q where q: "reduce_opt reaction_step log NewReactionProjection = Some q"
    and p: "reaction_step ev sq q = Some p"
    by (auto simp: x reduce_opt_append split: option.splits)
  note step = step_RoomSequence [OF p, of r]
  have mono: "RoomSequence q r \<le> RoomSequence p r" by (simp add: step)
  have "sq \<le> RoomSequence p r" if "roomIDOfEvent ev = r"
    using that assms(2) roomSeqID_room [of ev q] by (simp add: step)
  moreover have "RoomSequence p r = 0 \<or> (\<exists>ev. (ev, RoomSequence p r) \<in> set (log @ [x]))"
    using snoc.IH [OF q] by (auto simp: step x max_def)
  ultimately show ?case
    using snoc.IH [OF q] mono by (fastforce simp: x)
qed

text \<open>The fence a mutation of reactions is guarded by is exact: no fact of the room that
  the projection has seen lies beyond the room's sequence, so a concurrent reaction in the
  room always conflicts, and the sequence is zero or that of a fact in the log, so a
  mutation never waits for a position that does not exist.\<close>

theorem reaction_fence_exact:
  assumes "clean_log (startup @ live)"
    and "replayed Reaction_Apply Reaction_CompleteStartupReplay startup live
           NewReactionProjection = Some p"
    and "r \<noteq> []"
  shows "(\<forall>(ev, sq) \<in> set (startup @ live). roomIDOfEvent ev = r \<longrightarrow> sq \<le> rn_seq (ReactionMutationSnapshot p r m e u))
    \<and> (RoomSequence p r = 0 \<or> (\<exists>ev. (ev, RoomSequence p r) \<in> set (startup @ live)))
    \<and> rn_seq (ReactionMutationSnapshot p r m e u) = RoomSequence p r"
proof -
  obtain g q where p: "p = set_rs_guard g q"
    and q: "reduce_opt reaction_step (startup @ live) NewReactionProjection = Some q"
    by (rule replayed_reactions [OF assms(1,2)])
  have seq: "rn_seq (ReactionMutationSnapshot p r m e u) = RoomSequence p r"
    by (simp add: ReactionMutationSnapshot_def snapshot_fold Let_def split: option.split)
  show ?thesis
    unfolding seq using reduce_RoomSequence [OF q assms(3)] by (simp add: p)
qed

section \<open>A sample\<close>

definition rx_fact :: "string \<Rightarrow> string \<Rightarrow> time \<Rightarrow> content_event \<Rightarrow> content_fact" where
  "rx_fact i actor t e = \<lparr>ev_id = i, ev_actor = actor, ev_created_at = Some t,
     ev_payload = Some \<lparr>ct_event = e, ct_hidden = False\<rparr>\<rparr>"

definition reacted_log :: "(content_fact \<times> seq) list" where
  "reacted_log =
     [(rx_fact ''a'' ''U'' 10 (ReactionAdded ''R'' ''M'' ''x'' ''U''), 1),
      (rx_fact ''b'' ''V'' 12 (ReactionAdded ''R'' ''M'' ''x'' []), 2),
      (rx_fact ''c'' ''U'' 14 (ReactionRemoved ''R'' ''M'' ''x''), 5)]"

lemma table_Intern_code [code]:
  "table_Intern i t =
     (if i = [] then Some (0, t)
      else case fmlookup (tb_handles t) i of
        Some h \<Rightarrow> Some (h, t)
      | None \<Rightarrow>
          if (4294967295 :: int) \<le> int (length (tb_ids t)) then None
          else
            (let h = of_nat (length (tb_ids t) + 1)
             in Some (h, \<lparr>tb_handles = fmupd i h (tb_handles t), tb_ids = tb_ids t @ [i]\<rparr>)))"
proof -
  have "(4294967295 :: int) \<le> int (length (tb_ids t)) \<longleftrightarrow> max_handles \<le> length (tb_ids t)" by linarith
  then show ?thesis by (simp only: table_Intern_def)
qed

lemma reacted_clean: "clean_log ([] @ reacted_log)"
  by code_simp

lemma reacted_runs: "reduce_opt reaction_step reacted_log NewReactionProjection \<noteq> None"
  by code_simp

lemma reacted_replayed:
  obtains p where "replayed Reaction_Apply Reaction_CompleteStartupReplay [] reacted_log
      NewReactionProjection = Some p"
proof -
  have "rs_guard NewReactionProjection = newProjectionReplayGuard"
    by (simp add: NewReactionProjection_def)
  from reactions.run_clean [OF this reacted_clean] reacted_runs that show thesis by auto
qed

lemma reacted_view:
  "snd (view_of reacted_log) (original_of (fst (view_of reacted_log)) ''M'') ''x'' ''V'' \<noteq> None"
  by code_simp

lemma reactions_are_those_of_the_log_witness:
  "\<exists>p. replayed Reaction_Apply Reaction_CompleteStartupReplay [] reacted_log NewReactionProjection = Some p
     \<and> HasReaction p ''M'' ''x'' ''V''"
proof -
  obtain p where p: "replayed Reaction_Apply Reaction_CompleteStartupReplay [] reacted_log
      NewReactionProjection = Some p"
    by (rule reacted_replayed)
  from reactions_are_those_of_the_log [OF reacted_clean p, where m = "''M''" and e = "''x''" and u = "''V''"] p reacted_view
  show ?thesis by (simp add: Let_def)
qed

lemma reaction_summaries_exact_witness:
  "\<exists>p. replayed Reaction_Apply Reaction_CompleteStartupReplay [] reacted_log NewReactionProjection = Some p
     \<and> Reactions p ''M'' \<noteq> None"
proof -
  obtain p where p: "replayed Reaction_Apply Reaction_CompleteStartupReplay [] reacted_log
      NewReactionProjection = Some p"
    by (rule reacted_replayed)
  from reaction_summaries_exact [OF reacted_clean p, of "''M''"] p show ?thesis by (auto simp: Let_def)
qed

lemma reaction_fence_exact_witness:
  "\<exists>p. replayed Reaction_Apply Reaction_CompleteStartupReplay [] reacted_log NewReactionProjection = Some p
     \<and> 5 \<le> RoomSequence p ''R''"
proof -
  obtain p where p: "replayed Reaction_Apply Reaction_CompleteStartupReplay [] reacted_log
      NewReactionProjection = Some p"
    by (rule reacted_replayed)
  have "(rx_fact ''c'' ''U'' 14 (ReactionRemoved ''R'' ''M'' ''x''), 5) \<in> set ([] @ reacted_log)"
    "roomIDOfEvent (rx_fact ''c'' ''U'' 14 (ReactionRemoved ''R'' ''M'' ''x'')) = ''R''"
    by (simp_all add: reacted_log_def roomIDOfEvent_def payload_of_def rx_fact_def)
  with reaction_fence_exact [OF reacted_clean p, where r = "''R''" and m = "''M''" and e = "''x''" and u = "''U''"] p show ?thesis by fastforce
qed

end
