(* ===== verification/Threads.thy ===== *)
theory Threads
  imports Room_Timeline_Reads
begin

text \<open>
  The threads of every room (\<open>thread_projection.go\<close>): the replies of a thread in stream order,
  a cached summary of its visible replies and their authors, explicit follows with the
  indexes that list them in both directions, the thread of every message, and the accounts
  that have a relationship with a thread. Identifiers stand for their handles, as in
  \<open>Room_Timeline\<close>.
\<close>

section \<open>Replies and summaries\<close>

record thread_entry =
  th_seq :: seq
  th_created :: "64 word"
  th_event :: string
  th_actor :: string
  th_retracted :: bool

record thread_participant =
  pt_actor :: string
  pt_replies :: "32 word"

record thread_summary =
  ts_count :: nat
  ts_lastAt :: "64 word"
  ts_latest :: string
  ts_participants :: "thread_participant list"
  ts_index :: "(string, nat) fmap option"

definition empty_summary :: thread_summary where
  "empty_summary =
     \<lparr>ts_count = 0, ts_lastAt = 0, ts_latest = [], ts_participants = [], ts_index = None\<rparr>"

abbreviation threadParticipantIndexMin :: nat where "threadParticipantIndexMin \<equiv> 32"
abbreviation maxThreadParticipants :: nat where "maxThreadParticipants \<equiv> 50"

definition participant_at :: "string \<Rightarrow> thread_participant list \<Rightarrow> nat option" where
  "participant_at actor ps =
     (let i = length (takeWhile (\<lambda>x. pt_actor x \<noteq> actor) ps) in
      if i < length ps then Some i else None)"

definition participant_index :: "thread_participant list \<Rightarrow> (string, nat) fmap" where
  "participant_index ps = fold (\<lambda>i m. fmupd (pt_actor (ps ! i)) i m) [0..<length ps] fmempty"

text \<open>Small threads scan their participants, larger ones have an index.\<close>

definition find_participant :: "thread_summary \<Rightarrow> string \<Rightarrow> nat option" where
  "find_participant s actor =
     (case ts_index s of
        Some ix \<Rightarrow> fmlookup ix actor
      | None \<Rightarrow> participant_at actor (ts_participants s))"

definition add_participant :: "string \<Rightarrow> thread_summary \<Rightarrow> thread_summary" where
  "add_participant actor s =
     (let ps = ts_participants s @ [\<lparr>pt_actor = actor, pt_replies = 0\<rparr>] in
      s\<lparr>ts_participants := ps,
        ts_index :=
          (case ts_index s of
             Some ix \<Rightarrow> Some (fmupd actor (length ps - 1) ix)
           | None \<Rightarrow> if threadParticipantIndexMin < length ps then Some (participant_index ps) else None)\<rparr>)"

definition countReply :: "string \<Rightarrow> thread_summary \<Rightarrow> thread_summary" where
  "countReply actor s =
     (let (i, s1) =
            (case find_participant s actor of
               Some i \<Rightarrow> (i, s)
             | None \<Rightarrow> (length (ts_participants s), add_participant actor s));
          ps = ts_participants s1
      in s1\<lparr>ts_participants := ps[i := (ps ! i)\<lparr>pt_replies := pt_replies (ps ! i) + 1\<rparr>]\<rparr>)"

definition applyReplyToSummary :: "string fset \<Rightarrow> thread_entry \<Rightarrow> thread_summary \<Rightarrow> thread_summary" where
  "applyReplyToSummary shredded e s =
     (if th_event e = [] \<or> th_retracted e then s
      else if th_actor e |\<in>| shredded then s
      else (let s1 = s\<lparr>ts_count := ts_count s + 1, ts_latest := th_event e, ts_lastAt := th_created e\<rparr> in
            if th_actor e \<noteq> [] then countReply (th_actor e) s1 else s1))"

section \<open>The state\<close>

datatype follow_state = FollowNone | Following | Unfollowed

record threads =
  td_byThread :: "(string, thread_entry list) fmap"
  td_replyRoots :: "(string, string) fmap"
  td_channelRooms :: "string fset"
  td_dmRooms :: "(string, string fset) fmap"
  td_messageRefs :: "(string, string \<times> string) fmap"
  td_interactions :: "(string \<times> string, string) fmap"
  td_summaries :: "(string, thread_summary) fmap"
  td_followState :: "(string \<times> string \<times> string, follow_state) fmap"
  td_followers :: "(string \<times> string, string list) fmap"
  td_followed :: "(string, (string \<times> string) list) fmap"
  td_guard :: replay_guard
  td_shredded :: "string fset"

definition NewThreadProjection :: threads where
  "NewThreadProjection =
     \<lparr>td_byThread = fmempty, td_replyRoots = fmempty, td_channelRooms = {||}, td_dmRooms = fmempty,
      td_messageRefs = fmempty, td_interactions = fmempty, td_summaries = fmempty,
      td_followState = fmempty, td_followers = fmempty, td_followed = fmempty,
      td_guard = newProjectionReplayGuard, td_shredded = {||}\<rparr>"

definition summary_of :: "threads \<Rightarrow> string \<Rightarrow> thread_summary" where
  "summary_of p root = (case fmlookup (td_summaries p) root of None \<Rightarrow> empty_summary | Some s \<Rightarrow> s)"

definition recomputeSummary :: "string \<Rightarrow> threads \<Rightarrow> threads" where
  "recomputeSummary root p =
     p\<lparr>td_summaries :=
        fmupd root (fold (applyReplyToSummary (td_shredded p)) (getl (td_byThread p) root) empty_summary)
          (td_summaries p)\<rparr>"

section \<open>Relationships\<close>

definition isInteractionRoom :: "threads \<Rightarrow> string \<Rightarrow> bool" where
  "isInteractionRoom p r \<longleftrightarrow> r |\<in>| td_channelRooms p \<or> fmlookup (td_dmRooms p) r \<noteq> None"

definition addInteraction :: "string \<Rightarrow> string \<Rightarrow> string \<Rightarrow> threads \<Rightarrow> threads" where
  "addInteraction userID room root p =
     (if userID = [] \<or> room = [] \<or> root = [] then p
      else if fmlookup (td_interactions p) (userID, root) = None
      then p\<lparr>td_interactions := fmupd (userID, root) room (td_interactions p)\<rparr> else p)"

definition room_members :: "threads \<Rightarrow> string \<Rightarrow> string list" where
  "room_members p r =
     (case fmlookup (td_dmRooms p) r of None \<Rightarrow> [] | Some ms \<Rightarrow> sorted_list_of_fset ms)"

definition directly_mentioned :: "string \<Rightarrow> message_posted \<Rightarrow> string list" where
  "directly_mentioned actor m =
     [u. Some (u, direct) \<leftarrow> mp_mentions m, u \<noteq> [] \<and> u \<noteq> actor \<and> direct]"

definition applyMessageInteractionState :: "content_fact \<Rightarrow> message_posted \<Rightarrow> threads \<Rightarrow> threads" where
  "applyMessageInteractionState ev m p =
     (if ev_id ev = [] \<or> mp_room_id m = [] then p
      else
        (let root = thread_root_of (ev_id ev) m;
             room = mp_room_id m;
             p1 = p\<lparr>td_messageRefs := fmupd (ev_id ev) (room, root) (td_messageRefs p)\<rparr>
         in if mp_historical m then p1
            else if mp_echo_of m \<noteq> [] \<or> mp_echo_root m \<noteq> [] then p1
            else
              (let p2 = (if mp_in_thread m = [] then addInteraction (ev_actor ev) room root p1 else p1);
                   p3 = fold (\<lambda>u. addInteraction u room root)
                          (filter (\<lambda>u. u \<noteq> ev_actor ev) (room_members p2 room)) p2
               in fold (\<lambda>u. addInteraction u room root) (directly_mentioned (ev_actor ev) m) p3)))"

definition removeRoomInteractionState :: "string \<Rightarrow> threads \<Rightarrow> threads" where
  "removeRoomInteractionState roomID p =
     (if roomID = [] then p
      else p\<lparr>td_messageRefs :=
               fmfilter (\<lambda>i. map_option fst (fmlookup (td_messageRefs p) i) \<noteq> Some roomID) (td_messageRefs p),
             td_interactions :=
               fmfilter (\<lambda>k. fmlookup (td_interactions p) k \<noteq> Some roomID) (td_interactions p)\<rparr>)"

section \<open>Follows\<close>

definition followState :: "threads \<Rightarrow> string \<Rightarrow> string \<times> string \<Rightarrow> follow_state" where
  "followState p user target =
     (case fmlookup (td_followState p) (user, target) of None \<Rightarrow> FollowNone | Some s \<Rightarrow> s)"

text \<open>A list left empty is deleted from its map.\<close>

definition put_list :: "'k \<Rightarrow> 'a list \<Rightarrow> ('k, 'a list) fmap \<Rightarrow> ('k, 'a list) fmap" where
  "put_list k xs m = (if xs = [] then fmdrop k m else fmupd k xs m)"

definition setThreadFollowState :: "string \<Rightarrow> string \<Rightarrow> string \<Rightarrow> follow_state \<Rightarrow> threads \<Rightarrow> threads" where
  "setThreadFollowState user room root st p =
     (if user = [] \<or> room = [] \<or> root = [] then p
      else
        (let target = (room, root);
             previous = followState p user target
         in if previous = st then p
            else
              (let p1 = (if previous = Following
                         then p\<lparr>td_followers :=
                                  put_list target (filter (\<lambda>u. u \<noteq> user) (getl (td_followers p) target)) (td_followers p),
                                td_followed :=
                                  put_list user (filter (\<lambda>t. t \<noteq> target) (getl (td_followed p) user)) (td_followed p)\<rparr>
                         else p);
                   p2 = p1\<lparr>td_followState := fmupd (user, target) st (td_followState p1)\<rparr>
               in if st = Following
                  then p2\<lparr>td_followers := fmupd target (getl (td_followers p2) target @ [user]) (td_followers p2),
                          td_followed := fmupd user (getl (td_followed p2) user @ [target]) (td_followed p2)\<rparr>
                  else p2)))"

section \<open>Apply\<close>

text \<open>
  Every branch returns whether it marks the record as applied. A root post is marked only in
  a room the projection knows; facts it does not use are not marked.
\<close>

definition apply_room_created :: "room_created \<Rightarrow> threads \<Rightarrow> bool \<times> threads" where
  "apply_room_created c p =
     (if cr_room_id c = [] then (False, p)
      else if cr_kind c = ROOM_KIND_CHANNEL
      then (True, p\<lparr>td_channelRooms := finsert (cr_room_id c) (td_channelRooms p)\<rparr>)
      else if cr_kind c = ROOM_KIND_DM
      then (True, p\<lparr>td_dmRooms := fmupd (cr_room_id c) {||} (td_dmRooms p)\<rparr>)
      else (False, p))"

definition apply_membership :: "string \<Rightarrow> (string fset \<Rightarrow> string fset) \<Rightarrow> threads \<Rightarrow> bool \<times> threads" where
  "apply_membership r change p =
     (case fmlookup (td_dmRooms p) r of
        None \<Rightarrow> (False, p)
      | Some members \<Rightarrow> (True, p\<lparr>td_dmRooms := fmupd r (change members) (td_dmRooms p)\<rparr>))"

definition apply_room_deleted :: "string \<Rightarrow> threads \<Rightarrow> bool \<times> threads" where
  "apply_room_deleted r p =
     (if \<not> isInteractionRoom p r then (False, p)
      else (True, removeRoomInteractionState r
                    (p\<lparr>td_channelRooms := td_channelRooms p |-| {|r|}, td_dmRooms := fmdrop r (td_dmRooms p)\<rparr>)))"

definition apply_directory :: "content_fact \<Rightarrow> room_event \<Rightarrow> threads \<Rightarrow> bool \<times> threads" where
  "apply_directory ev e p =
     (case e of
        RoomCreated c \<Rightarrow> apply_room_created c p
      | UserJoinedRoom r \<Rightarrow>
          if ev_actor ev = [] then (False, p) else apply_membership r (finsert (ev_actor ev)) p
      | UserLeftRoom r \<Rightarrow> apply_membership r (\<lambda>ms. ms |-| {|ev_actor ev|}) p
      | RoomMemberBanned b \<Rightarrow> apply_membership (mb_room_id b) (\<lambda>ms. ms |-| {|mb_user_id b|}) p
      | RoomDeleted r \<Rightarrow> apply_room_deleted r p
      | _ \<Rightarrow> (False, p))"

definition threads_shred :: "string \<Rightarrow> threads \<Rightarrow> bool \<times> threads" where
  "threads_shred userID p =
     (if userID = [] then (False, p)
      else (let p1 = p\<lparr>td_shredded := finsert userID (td_shredded p)\<rparr>
            in (True, fold recomputeSummary (sortedMapKeys (td_summaries p1)) p1)))"

definition apply_thread_created :: "string \<Rightarrow> threads \<Rightarrow> bool \<times> threads" where
  "apply_thread_created root p =
     (if root = [] then (False, p)
      else (let p1 = (if fmlookup (td_byThread p) root = None
                      then p\<lparr>td_byThread := fmupd root [] (td_byThread p)\<rparr> else p)
            in (True, if fmlookup (td_summaries p1) root = None
                      then p1\<lparr>td_summaries := fmupd root empty_summary (td_summaries p1)\<rparr> else p1)))"

definition entry_of_reply :: "content_fact \<Rightarrow> seq \<Rightarrow> thread_entry" where
  "entry_of_reply ev sq =
     \<lparr>th_seq = sq, th_created = eventCreatedNanos ev, th_event = ev_id ev,
      th_actor = MessageAuthorID ev, th_retracted = False\<rparr>"

definition append_reply :: "string \<Rightarrow> thread_entry \<Rightarrow> threads \<Rightarrow> threads" where
  "append_reply root e p =
     p\<lparr>td_byThread := fmupd root (getl (td_byThread p) root @ [e]) (td_byThread p),
       td_replyRoots := fmupd (th_event e) root (td_replyRoots p),
       td_summaries := fmupd root (applyReplyToSummary (td_shredded p) e (summary_of p root)) (td_summaries p)\<rparr>"

definition apply_thread_post :: "content_fact \<Rightarrow> message_posted \<Rightarrow> seq \<Rightarrow> threads \<Rightarrow> bool \<times> threads" where
  "apply_thread_post ev m sq p =
     (let known = isInteractionRoom p (mp_room_id m);
          p1 = (if known then applyMessageInteractionState ev m p else p)
      in if mp_in_thread m = [] then (known, p1)
         else if ev_id ev = [] then (False, p1)
         else (True, append_reply (mp_in_thread m) (entry_of_reply ev sq) p1))"

definition replyRoot :: "threads \<Rightarrow> string \<Rightarrow> string option" where
  "replyRoot p i = (if i = [] then None else fmlookup (td_replyRoots p) i)"

definition apply_thread_retracted :: "string \<Rightarrow> threads \<Rightarrow> bool \<times> threads" where
  "apply_thread_retracted i p =
     (case replyRoot p i of
        None \<Rightarrow> (False, p)
      | Some root \<Rightarrow>
          (True, recomputeSummary root
                   (p\<lparr>td_byThread :=
                       (case fmlookup (td_byThread p) root of
                          None \<Rightarrow> td_byThread p
                        | Some es \<Rightarrow>
                            fmupd root (map (\<lambda>e. if th_event e = i then e\<lparr>th_retracted := True\<rparr> else e) es)
                              (td_byThread p))\<rparr>)))"

definition thread_switch :: "content_fact \<Rightarrow> seq \<Rightarrow> threads \<Rightarrow> bool \<times> threads" where
  "thread_switch ev sq p =
     (case payload_of ev of
        Some (DirectoryFact e) \<Rightarrow> apply_directory ev e p
      | Some (UserKeyShreddingRequested u) \<Rightarrow> threads_shred u p
      | Some (UserKeyShredded u) \<Rightarrow> threads_shred u p
      | Some (ThreadCreated _ root) \<Rightarrow> apply_thread_created root p
      | Some (ThreadFollowed u r root) \<Rightarrow> (True, setThreadFollowState u r root Following p)
      | Some (ThreadUnfollowed u r root) \<Rightarrow> (True, setThreadFollowState u r root Unfollowed p)
      | Some (MessagePosted m) \<Rightarrow> apply_thread_post ev m sq p
      | Some (MessageEdited _ i) \<Rightarrow> (replyRoot p i \<noteq> None, p)
      | Some (MessageRetracted _ i) \<Rightarrow> apply_thread_retracted i p
      | _ \<Rightarrow> (False, p))"

definition Threads_Apply :: "threads \<Rightarrow> content_fact option \<Rightarrow> seq \<Rightarrow> threads option" where
  "Threads_Apply p event sq =
     (case event of
        None \<Rightarrow> Some p
      | Some ev \<Rightarrow>
          (case guard_seen (td_guard p) ev sq of
             (seen, g) \<Rightarrow>
               (let p1 = p\<lparr>td_guard := g\<rparr> in
                if seen then Some p1
                else (case thread_switch ev sq p1 of
                        (marks, p2) \<Rightarrow>
                          if marks
                          then map_option (\<lambda>g. p2\<lparr>td_guard := g\<rparr>) (guard_mark (td_guard p2) ev sq)
                          else Some p2))))"

definition Threads_CompleteStartupReplay :: "threads \<Rightarrow> threads" where
  "Threads_CompleteStartupReplay p = p\<lparr>td_guard := guard_completeReplay (td_guard p)\<rparr>"

section \<open>Reads\<close>

text \<open>The empty identifier has no handle.\<close>

definition thread_entries :: "threads \<Rightarrow> string \<Rightarrow> thread_entry list" where
  "thread_entries p root = (if root = [] then [] else getl (td_byThread p) root)"

definition ThreadEvents :: "threads \<Rightarrow> string \<Rightarrow> (string \<times> seq) list" where
  "ThreadEvents p root = map (\<lambda>e. (th_event e, th_seq e)) (thread_entries p root)"

definition summary_at :: "threads \<Rightarrow> string \<Rightarrow> thread_summary option" where
  "summary_at p root = (if root = [] then None else fmlookup (td_summaries p) root)"

definition ReplyCount :: "threads \<Rightarrow> string \<Rightarrow> nat" where
  "ReplyCount p root = (case summary_at p root of None \<Rightarrow> 0 | Some s \<Rightarrow> ts_count s)"

fun list_participants :: "nat \<Rightarrow> string \<Rightarrow> string list \<Rightarrow> string list \<Rightarrow> string list" where
  "list_participants limit root ids [] = ids"
| "list_participants limit root ids (a # as) =
     (if length ids = limit then ids
      else list_participants limit root (if a \<noteq> root then ids @ [a] else ids) as)"

definition participantsIncludingRoot ::
  "threads \<Rightarrow> thread_summary \<Rightarrow> string \<Rightarrow> nat \<Rightarrow> string list \<times> nat" where
  "participantsIncludingRoot p s rootAuthorID limit =
     (let root = (if rootAuthorID |\<in>| td_shredded p then [] else rootAuthorID);
          replied = (root \<noteq> [] \<and> find_participant s root \<noteq> None);
          count = length (ts_participants s) + (if root \<noteq> [] \<and> \<not> replied then 1 else 0)
      in if count = 0 then ([], 0)
         else (list_participants limit root (if root \<noteq> [] then [root] else [])
                 (map pt_actor (ts_participants s)), count))"

record thread_metadata =
  tm_exists :: bool
  tm_count :: nat
  tm_lastAt :: "time option"
  tm_latest :: string
  tm_participants :: "string list"
  tm_participant_count :: nat

definition Threads_Metadata :: "threads \<Rightarrow> string \<Rightarrow> string \<Rightarrow> thread_metadata" where
  "Threads_Metadata p root rootAuthorID =
     (case summary_at p root of
        None \<Rightarrow> \<lparr>tm_exists = False, tm_count = 0, tm_lastAt = None, tm_latest = [],
                 tm_participants = [], tm_participant_count = 0\<rparr>
      | Some s \<Rightarrow>
          (case participantsIncludingRoot p s rootAuthorID maxThreadParticipants of
             (ids, count) \<Rightarrow>
               \<lparr>tm_exists = True, tm_count = ts_count s,
                tm_lastAt = (if ts_lastAt s \<noteq> 0 then Some (projectionTime (ts_lastAt s)) else None),
                tm_latest = ts_latest s, tm_participants = ids, tm_participant_count = count\<rparr>))"

definition ParticipantIDs :: "threads \<Rightarrow> string \<Rightarrow> string \<Rightarrow> string list" where
  "ParticipantIDs p root rootAuthorID =
     (case summary_at p root of
        None \<Rightarrow> []
      | Some s \<Rightarrow> fst (participantsIncludingRoot p s rootAuthorID (length (ts_participants s) + 1)))"

definition FollowState :: "threads \<Rightarrow> string \<Rightarrow> string \<Rightarrow> string \<Rightarrow> follow_state" where
  "FollowState p user room root =
     (if user = [] \<or> room = [] \<or> root = [] then FollowNone else followState p user (room, root))"

definition ThreadFollowers :: "threads \<Rightarrow> string \<Rightarrow> string \<Rightarrow> string list" where
  "ThreadFollowers p room root =
     (if room = [] \<or> root = [] then [] else sort (getl (td_followers p) (room, root)))"

definition FollowedThreadsForUser :: "threads \<Rightarrow> string \<Rightarrow> (string \<times> string) list" where
  "FollowedThreadsForUser p user = (if user = [] then [] else sort (getl (td_followed p) user))"

definition ThreadRootForMessage :: "threads \<Rightarrow> string \<Rightarrow> string \<Rightarrow> string option" where
  "ThreadRootForMessage p room i =
     (if i = [] then None
      else case fmlookup (td_messageRefs p) i of
             None \<Rightarrow> None
           | Some (r, root) \<Rightarrow> if root = [] \<or> r \<noteq> room then None else Some root)"

definition HasInteraction :: "threads \<Rightarrow> string \<Rightarrow> string \<Rightarrow> string \<Rightarrow> bool" where
  "HasInteraction p user room root \<longleftrightarrow>
     user \<noteq> [] \<and> root \<noteq> [] \<and> fmlookup (td_interactions p) (user, root) = Some room"

definition ThreadExists :: "threads \<Rightarrow> string \<Rightarrow> bool" where
  "ThreadExists p root \<longleftrightarrow> root \<noteq> [] \<and> fmlookup (td_byThread p) root \<noteq> None"

definition ThreadCount :: "threads \<Rightarrow> nat" where
  "ThreadCount p = length (sortedMapKeys (td_byThread p))"

definition thread_Stats :: "threads \<Rightarrow> nat \<times> nat \<times> nat" where
  "thread_Stats p =
     (let lists = map (getl (td_byThread p)) (sortedMapKeys (td_byThread p)) in
      (length lists, sum_list (map length lists),
       sum_list (map (\<lambda>es. length (filter (\<lambda>e. th_event e \<noteq> []) es)) lists)))"

text \<open>Two reads join the threads with the room timeline.\<close>

fun latest_original_post :: "timeline \<Rightarrow> string \<Rightarrow> string \<Rightarrow> thread_entry list \<Rightarrow> time option" where
  "latest_original_post rt room actorID [] = None"
| "latest_original_post rt room actorID (e # es) =
     (if th_actor e \<noteq> actorID then latest_original_post rt room actorID es
      else case originalPostAt rt room (th_event e) actorID of
             Some at \<Rightarrow> Some at
           | None \<Rightarrow> latest_original_post rt room actorID es)"

definition latestPostAt :: "threads \<Rightarrow> timeline \<Rightarrow> string \<Rightarrow> string \<Rightarrow> string \<Rightarrow> time option" where
  "latestPostAt p rt room root actorID =
     (case (if actorID = [] then None
            else latest_original_post rt room actorID (rev (thread_entries p root))) of
        Some at \<Rightarrow> Some at
      | None \<Rightarrow> originalPostAt rt room root actorID)"

definition lastInteractionPostedMessageTimes ::
  "threads \<Rightarrow> timeline \<Rightarrow> string \<Rightarrow> string \<Rightarrow> time \<times> time" where
  "lastInteractionPostedMessageTimes p rt user room =
     LastPostedMessageTimes rt room (Some (\<lambda>e. HasInteraction p user room (te_thread_root e)))"

end
