(* ===== verification/Threads_Properties.thy ===== *)
theory Threads_Properties
  imports Threads Room_Timeline_Bodies
begin

text \<open>
  The thread projection as a content projection, and what its state says about the log: the
  cached summaries are those of the replies, the replies are those of the log, and the
  indexes of follows list exactly the current follows.
\<close>

section \<open>The guard is independent of the rest\<close>

definition set_td_guard :: "replay_guard \<Rightarrow> threads \<Rightarrow> threads" where
  "set_td_guard g p = p\<lparr>td_guard := g\<rparr>"

lemma set_td_guard_sel [simp]:
  "td_byThread (set_td_guard g p) = td_byThread p" "td_replyRoots (set_td_guard g p) = td_replyRoots p"
  "td_channelRooms (set_td_guard g p) = td_channelRooms p" "td_dmRooms (set_td_guard g p) = td_dmRooms p"
  "td_messageRefs (set_td_guard g p) = td_messageRefs p"
  "td_interactions (set_td_guard g p) = td_interactions p"
  "td_summaries (set_td_guard g p) = td_summaries p" "td_followState (set_td_guard g p) = td_followState p"
  "td_followers (set_td_guard g p) = td_followers p" "td_followed (set_td_guard g p) = td_followed p"
  "td_guard (set_td_guard g p) = g" "td_shredded (set_td_guard g p) = td_shredded p"
  by (simp_all add: set_td_guard_def)

lemma set_td_guard_upd:
  "(set_td_guard g p)\<lparr>td_byThread := a\<rparr> = set_td_guard g (p\<lparr>td_byThread := a\<rparr>)"
  "(set_td_guard g p)\<lparr>td_replyRoots := b\<rparr> = set_td_guard g (p\<lparr>td_replyRoots := b\<rparr>)"
  "(set_td_guard g p)\<lparr>td_channelRooms := c\<rparr> = set_td_guard g (p\<lparr>td_channelRooms := c\<rparr>)"
  "(set_td_guard g p)\<lparr>td_dmRooms := d\<rparr> = set_td_guard g (p\<lparr>td_dmRooms := d\<rparr>)"
  "(set_td_guard g p)\<lparr>td_messageRefs := e\<rparr> = set_td_guard g (p\<lparr>td_messageRefs := e\<rparr>)"
  "(set_td_guard g p)\<lparr>td_interactions := f\<rparr> = set_td_guard g (p\<lparr>td_interactions := f\<rparr>)"
  "(set_td_guard g p)\<lparr>td_summaries := h\<rparr> = set_td_guard g (p\<lparr>td_summaries := h\<rparr>)"
  "(set_td_guard g p)\<lparr>td_followState := i\<rparr> = set_td_guard g (p\<lparr>td_followState := i\<rparr>)"
  "(set_td_guard g p)\<lparr>td_followers := j\<rparr> = set_td_guard g (p\<lparr>td_followers := j\<rparr>)"
  "(set_td_guard g p)\<lparr>td_followed := k\<rparr> = set_td_guard g (p\<lparr>td_followed := k\<rparr>)"
  "(set_td_guard g p)\<lparr>td_shredded := l\<rparr> = set_td_guard g (p\<lparr>td_shredded := l\<rparr>)"
  by (simp_all add: set_td_guard_def)

lemma td_guard_reads [simp]:
  "summary_of (set_td_guard g p) r = summary_of p r"
  "isInteractionRoom (set_td_guard g p) r = isInteractionRoom p r"
  "room_members (set_td_guard g p) r = room_members p r"
  "followState (set_td_guard g p) u t = followState p u t"
  "replyRoot (set_td_guard g p) i = replyRoot p i"
  by (simp_all add: summary_of_def isInteractionRoom_def room_members_def followState_def replyRoot_def)

lemma fold_td_guard:
  assumes "\<And>x p. f x (set_td_guard g p) = set_td_guard g (f x p)"
  shows "fold f xs (set_td_guard g p) = set_td_guard g (fold f xs p)"
  by (induction xs arbitrary: p) (simp_all add: assms)

lemma td_guard_ops [keeps_guard]:
  "recomputeSummary r (set_td_guard g p) = set_td_guard g (recomputeSummary r p)"
  "addInteraction u a b (set_td_guard g p) = set_td_guard g (addInteraction u a b p)"
  "removeRoomInteractionState r (set_td_guard g p) = set_td_guard g (removeRoomInteractionState r p)"
  "setThreadFollowState u a b st (set_td_guard g p) = set_td_guard g (setThreadFollowState u a b st p)"
  "append_reply r e (set_td_guard g p) = set_td_guard g (append_reply r e p)"
  by (simp_all add: recomputeSummary_def addInteraction_def removeRoomInteractionState_def
      setThreadFollowState_def append_reply_def Let_def set_td_guard_upd)

lemma td_guard_message [keeps_guard]:
  "applyMessageInteractionState ev m (set_td_guard g p) = set_td_guard g (applyMessageInteractionState ev m p)"
  by (simp add: applyMessageInteractionState_def Let_def set_td_guard_upd td_guard_ops fold_td_guard)

lemma td_guard_branches [keeps_guard]:
  "apply_room_created c (set_td_guard g p) = map_prod id (set_td_guard g) (apply_room_created c p)"
  "apply_membership r f (set_td_guard g p) = map_prod id (set_td_guard g) (apply_membership r f p)"
  "apply_room_deleted r (set_td_guard g p) = map_prod id (set_td_guard g) (apply_room_deleted r p)"
  "threads_shred u (set_td_guard g p) = map_prod id (set_td_guard g) (threads_shred u p)"
  "apply_thread_created r (set_td_guard g p) = map_prod id (set_td_guard g) (apply_thread_created r p)"
  "apply_thread_post ev m sq (set_td_guard g p) = map_prod id (set_td_guard g) (apply_thread_post ev m sq p)"
  "apply_thread_retracted i (set_td_guard g p) = map_prod id (set_td_guard g) (apply_thread_retracted i p)"
  by (auto simp: apply_room_created_def apply_membership_def apply_room_deleted_def threads_shred_def
      apply_thread_created_def apply_thread_post_def apply_thread_retracted_def Let_def set_td_guard_upd
      keeps_guard fold_td_guard split: option.split)

lemma td_guard_directory [keeps_guard]:
  "apply_directory ev e (set_td_guard g p) = map_prod id (set_td_guard g) (apply_directory ev e p)"
  by (cases e) (simp_all add: apply_directory_def keeps_guard)

lemma thread_switch_guard:
  "thread_switch ev sq (set_td_guard g p) = map_prod id (set_td_guard g) (thread_switch ev sq p)"
  by (cases "payload_of ev"; cases "the (payload_of ev)") (simp_all add: thread_switch_def keeps_guard)

definition thread_step :: "content_fact \<Rightarrow> seq \<Rightarrow> threads \<Rightarrow> threads" where
  "thread_step ev sq p = snd (thread_switch ev sq p)"

lemma set_td_guard_laws:
  "set_td_guard g (set_td_guard g' p) = set_td_guard g p" "set_td_guard (td_guard p) p = p"
  "Threads_CompleteStartupReplay p = set_td_guard (guard_completeReplay (td_guard p)) p"
  by (simp_all add: set_td_guard_def Threads_CompleteStartupReplay_def)

interpretation threads: content_projection td_guard set_td_guard thread_step Threads_Apply
    Threads_CompleteStartupReplay
proof unfold_locales
  fix p :: threads and ev :: content_fact and sq
  assume ok: "guard_ok (td_guard p)" and unseen: "guard_seen (td_guard p) ev sq = (False, td_guard p)"
  obtain g where g: "guard_mark (td_guard p) ev sq = Some g"
    using guard_mark_Some [OF ok] by blast
  obtain marks q where q: "thread_switch ev sq p = (marks, q)" by force
  have same: "td_guard q = td_guard p"
    using thread_switch_guard [of ev sq "td_guard p" p] q by (simp add: set_td_guard_laws) (metis set_td_guard_sel(11))
  have "Threads_Apply p (Some ev) sq = Some (set_td_guard (if marks then g else td_guard p) (thread_step ev sq p))"
    using set_td_guard_laws(2) [of q] g
    by (simp add: Threads_Apply_def unseen q same thread_step_def set_td_guard_def)
  then show "\<exists>g. Threads_Apply p (Some ev) sq = Some (set_td_guard g (thread_step ev sq p))
          \<and> (g = td_guard p \<or> guard_mark (td_guard p) ev sq = Some g)"
    using g by auto
qed (simp_all add: thread_step_def thread_switch_guard set_td_guard_laws)

section \<open>Participants\<close>

text \<open>The authors of the counted replies by first reply, each with its number of replies.\<close>

definition first_order :: "string list \<Rightarrow> string list" where
  "first_order as = rev (remdups (rev as))"

lemma first_order_snoc: "first_order (as @ [a]) = (if a \<in> set as then first_order as else first_order as @ [a])"
  by (simp add: first_order_def)

lemma first_order_simps [simp]: "set (first_order as) = set as" "distinct (first_order as)" "first_order [] = []"
  by (simp_all add: first_order_def)

definition participants_of :: "string list \<Rightarrow> thread_participant list" where
  "participants_of as = map (\<lambda>a. \<lparr>pt_actor = a, pt_replies = of_nat (count_list as a)\<rparr>) (first_order as)"

lemma actors_of_participants [simp]: "map pt_actor (participants_of as) = first_order as"
  by (simp add: participants_of_def comp_def)

lemma length_participants [simp]: "length (participants_of as) = length (first_order as)"
  by (simp add: participants_of_def)

lemma participant_at_Some:
  assumes "distinct (map pt_actor ps)"
  shows "participant_at a ps = Some i \<longleftrightarrow> i < length ps \<and> pt_actor (ps ! i) = a"
proof
  assume "participant_at a ps = Some i"
  then have i: "i = length (takeWhile (\<lambda>x. pt_actor x \<noteq> a) ps)" "i < length ps"
    by (auto simp: participant_at_def Let_def split: if_splits)
  then show "i < length ps \<and> pt_actor (ps ! i) = a"
    using nth_length_takeWhile [of "\<lambda>x. pt_actor x \<noteq> a" ps] by simp
next
  assume i: "i < length ps \<and> pt_actor (ps ! i) = a"
  let ?k = "length (takeWhile (\<lambda>x. pt_actor x \<noteq> a) ps)"
  have "\<not> i < ?k"
  proof
    assume "i < ?k"
    then have "ps ! i \<in> set (takeWhile (\<lambda>x. pt_actor x \<noteq> a) ps)"
      by (metis nth_mem takeWhile_nth)
    then show False using i by (auto dest: set_takeWhileD)
  qed
  then have "?k < length ps" using i by simp
  then have "pt_actor (ps ! ?k) = a" using nth_length_takeWhile [of "\<lambda>x. pt_actor x \<noteq> a" ps] by simp
  then have "?k = i"
    using assms i \<open>?k < length ps\<close> by (auto simp: distinct_conv_nth)
  then show "participant_at a ps = Some i" using \<open>?k < length ps\<close> by (simp add: participant_at_def Let_def)
qed

lemma participant_at_None: "participant_at a ps = None \<longleftrightarrow> a \<notin> pt_actor ` set ps"
proof -
  have "length (takeWhile (\<lambda>x. pt_actor x \<noteq> a) ps) < length ps \<longleftrightarrow> (\<exists>x \<in> set ps. pt_actor x = a)"
    by (induction ps) auto
  then show ?thesis by (auto simp: participant_at_def Let_def image_iff)
qed

text \<open>The index finds what a scan finds.\<close>

definition index_exact :: "thread_summary \<Rightarrow> bool" where
  "index_exact s \<longleftrightarrow> (\<forall>a. find_participant s a = participant_at a (ts_participants s))"

lemma participant_index_lookup:
  assumes "distinct (map pt_actor ps)"
  shows "fmlookup (participant_index ps) a = participant_at a ps"
proof -
  have "fmlookup (fold (\<lambda>i m. fmupd (pt_actor (ps ! i)) i m) [0..<n] fmempty) a =
      (if \<exists>i < n. pt_actor (ps ! i) = a then participant_at a ps else None)" if "n \<le> length ps" for n
    using that
  proof (induction n)
    case (Suc n)
    have "participant_at a ps = Some n" if "pt_actor (ps ! n) = a"
      using that Suc.prems participant_at_Some [OF assms, of a n] by simp
    then show ?case using Suc by (auto simp: less_Suc_eq)
  qed simp
  from this [of "length ps"] show ?thesis
    using participant_at_None [of a ps]
    by (auto simp: participant_index_def in_set_conv_nth image_iff)
qed

lemma add_participant_exact:
  assumes "index_exact s" and "distinct (map pt_actor (ts_participants s))"
    and "a \<notin> pt_actor ` set (ts_participants s)"
  shows "index_exact (add_participant a s)"
proof -
  let ?ps = "ts_participants s @ [\<lparr>pt_actor = a, pt_replies = 0\<rparr>]"
  have d: "distinct (map pt_actor ?ps)" using assms(2,3) by auto
  have old: "participant_at b ?ps = participant_at b (ts_participants s)" if "b \<noteq> a" for b
  proof (cases "participant_at b (ts_participants s)")
    case None
    then have "participant_at b ?ps = None"
      unfolding participant_at_None using that by auto
    then show ?thesis using None by simp
  next
    case (Some i)
    then show ?thesis
      using participant_at_Some [OF assms(2), of b i] participant_at_Some [OF d, of b i]
      by (simp add: nth_append)
  qed
  have new: "participant_at a ?ps = Some (length (ts_participants s))"
    using participant_at_Some [OF d, of a "length (ts_participants s)"] by simp
  show ?thesis
    unfolding index_exact_def
  proof
    fix b
    show "find_participant (add_participant a s) b = participant_at b (ts_participants (add_participant a s))"
      using assms(1) old new participant_index_lookup [OF d]
      by (cases "ts_index s") (auto simp: find_participant_def add_participant_def Let_def index_exact_def)
  qed
qed

lemma participant_at_cong:
  assumes "map pt_actor ps = map pt_actor qs"
  shows "participant_at a ps = participant_at a qs"
proof -
  have names: "length (takeWhile (\<lambda>x. pt_actor x \<noteq> a) xs) = length (takeWhile (\<lambda>b. b \<noteq> a) (map pt_actor xs))" for xs
    by (simp add: takeWhile_map comp_def)
  have "length (takeWhile (\<lambda>x. pt_actor x \<noteq> a) ps) = length (takeWhile (\<lambda>x. pt_actor x \<noteq> a) qs)"
    unfolding names assms ..
  moreover have "length ps = length qs" using assms by (metis length_map)
  ultimately show ?thesis unfolding participant_at_def by simp
qed

definition bump :: "nat \<Rightarrow> thread_participant list \<Rightarrow> thread_participant list" where
  "bump i ps = ps[i := (ps ! i)\<lparr>pt_replies := pt_replies (ps ! i) + 1\<rparr>]"

lemma bump_actors: "map pt_actor (bump i ps) = map pt_actor ps"
proof (cases "i < length ps")
  case True
  then show ?thesis by (simp add: bump_def map_update list_update_same_conv)
next
  case False
  then show ?thesis by (simp add: bump_def list_update_beyond)
qed

lemma index_exact_bump:
  assumes "index_exact s"
  shows "index_exact (s\<lparr>ts_participants := bump i (ts_participants s)\<rparr>)"
  using assms participant_at_cong [OF bump_actors [of i "ts_participants s"]]
  by (simp add: index_exact_def find_participant_def split: option.splits)

lemma bump_participants:
  assumes "map pt_actor ps = first_order (as @ [a])" and "i < length ps" and "pt_actor (ps ! i) = a"
    and "\<forall>x \<in> set ps. pt_replies x = of_nat (count_list as (pt_actor x))"
  shows "bump i ps = participants_of (as @ [a])"
proof (rule nth_equalityI)
  have len: "length ps = length (first_order (as @ [a]))" using assms(1) by (metis length_map)
  then show "length (bump i ps) = length (participants_of (as @ [a]))" by (simp add: bump_def)
  fix k assume "k < length (bump i ps)"
  then have k: "k < length ps" by (simp add: bump_def)
  have actor: "pt_actor (ps ! j) = first_order (as @ [a]) ! j" if "j < length ps" for j
    using assms(1) that by (metis nth_map)
  have goal: "participants_of (as @ [a]) ! k =
      \<lparr>pt_actor = pt_actor (ps ! k), pt_replies = of_nat (count_list (as @ [a]) (pt_actor (ps ! k)))\<rparr>"
    using k len by (simp add: participants_of_def actor)
  have replies: "pt_replies (ps ! k) = of_nat (count_list as (pt_actor (ps ! k)))"
    using assms(4) k by simp
  show "bump i ps ! k = participants_of (as @ [a]) ! k"
  proof (cases "k = i")
    case True
    then show ?thesis
      unfolding goal using k replies assms(3) by (simp add: bump_def)
  next
    case False
    have "distinct (map pt_actor ps)" by (simp add: assms(1))
    then have "pt_actor (ps ! k) \<noteq> a"
      using False k assms(2,3) by (auto simp: distinct_conv_nth)
    then show ?thesis
      unfolding goal using False replies by (cases "ps ! k") (simp add: bump_def)
  qed
qed

lemma countReply_bump:
  "countReply a s =
     (case find_participant s a of
        Some i \<Rightarrow> s\<lparr>ts_participants := bump i (ts_participants s)\<rparr>
      | None \<Rightarrow> (let t = add_participant a s in
                 t\<lparr>ts_participants := bump (length (ts_participants s)) (ts_participants t)\<rparr>))"
  by (simp add: countReply_def bump_def Let_def split: option.split)

lemma countReply_exact:
  assumes "index_exact s" and "ts_participants s = participants_of as"
  shows "index_exact (countReply a s) \<and> ts_participants (countReply a s) = participants_of (as @ [a])"
proof -
  have distinct: "distinct (map pt_actor (ts_participants s))" by (simp add: assms(2))
  have find: "find_participant s a = participant_at a (ts_participants s)"
    using assms(1) by (simp add: index_exact_def)
  have replies: "\<forall>x \<in> set (ts_participants s). pt_replies x = of_nat (count_list as (pt_actor x))"
    by (auto simp: assms(2) participants_of_def)
  have actors: "pt_actor ` set (ts_participants s) = set as"
    by (metis actors_of_participants assms(2) first_order_simps(1) list.set_map)
  show ?thesis
  proof (cases "participant_at a (ts_participants s)")
    case (Some i)
    then have i: "i < length (ts_participants s)" "pt_actor (ts_participants s ! i) = a"
      using participant_at_Some [OF distinct] by auto
    then have "a \<in> set as" using actors by (metis image_eqI nth_mem)
    then have "map pt_actor (ts_participants s) = first_order (as @ [a])"
      by (simp add: assms(2) first_order_snoc)
    note bumped = bump_participants [OF this i replies]
    have "index_exact (s\<lparr>ts_participants := participants_of (as @ [a])\<rparr>)"
      using index_exact_bump [OF assms(1), of i] by (simp only: bumped)
    then show ?thesis
      using Some find bumped by (simp add: countReply_bump)
  next
    case None
    then have fresh: "a \<notin> pt_actor ` set (ts_participants s)" by (simp add: participant_at_None)
    let ?t = "add_participant a s"
    have t: "ts_participants ?t = ts_participants s @ [\<lparr>pt_actor = a, pt_replies = 0\<rparr>]"
      by (simp add: add_participant_def Let_def)
    have "map pt_actor (ts_participants ?t) = first_order (as @ [a])"
      using fresh actors by (simp add: t assms(2) first_order_snoc)
    moreover have "\<forall>x \<in> set (ts_participants ?t). pt_replies x = of_nat (count_list as (pt_actor x))"
      using replies fresh actors by (auto simp: t count_notin)
    ultimately have bumped: "bump (length (ts_participants s)) (ts_participants ?t) = participants_of (as @ [a])"
      by (intro bump_participants) (simp_all add: t)
    have "index_exact (?t\<lparr>ts_participants := participants_of (as @ [a])\<rparr>)"
      using index_exact_bump [OF add_participant_exact [OF assms(1) distinct fresh], of "length (ts_participants s)"]
      by (simp only: bumped)
    then show ?thesis
      using None find bumped by (simp add: countReply_bump Let_def)
  qed
qed

section \<open>Summaries\<close>

definition visible_reply :: "string fset \<Rightarrow> thread_entry \<Rightarrow> bool" where
  "visible_reply shredded e \<longleftrightarrow> th_event e \<noteq> [] \<and> \<not> th_retracted e \<and> th_actor e |\<notin>| shredded"

definition counted_actors :: "thread_entry list \<Rightarrow> string list" where
  "counted_actors es = filter (\<lambda>a. a \<noteq> []) (map th_actor es)"

text \<open>What a summary of these visible replies has to say.\<close>

definition summary_exact :: "thread_entry list \<Rightarrow> thread_summary \<Rightarrow> bool" where
  "summary_exact vis s \<longleftrightarrow>
     ts_count s = length vis
     \<and> ts_latest s = (if vis = [] then [] else th_event (last vis))
     \<and> ts_lastAt s = (if vis = [] then 0 else th_created (last vis))
     \<and> ts_participants s = participants_of (counted_actors vis) \<and> index_exact s"

lemma empty_summary_exact: "summary_exact [] empty_summary"
  by (simp add: summary_exact_def empty_summary_def counted_actors_def participants_of_def index_exact_def
      find_participant_def)

lemma countReply_rest [simp]:
  "ts_count (countReply a s) = ts_count s" "ts_latest (countReply a s) = ts_latest s"
  "ts_lastAt (countReply a s) = ts_lastAt s"
  by (simp_all add: countReply_bump add_participant_def Let_def split: option.split)

lemma index_exact_upd:
  "index_exact (s\<lparr>ts_count := n, ts_latest := i, ts_lastAt := t\<rparr>) = index_exact s"
  by (simp add: index_exact_def find_participant_def cong: option.case_cong)

lemma applyReply_exact:
  assumes "summary_exact (filter (visible_reply sh) es) s"
  shows "summary_exact (filter (visible_reply sh) (es @ [e])) (applyReplyToSummary sh e s)"
proof (cases "visible_reply sh e")
  case False
  then show ?thesis using assms by (auto simp: visible_reply_def applyReplyToSummary_def)
next
  case True
  let ?s = "s\<lparr>ts_count := ts_count s + 1, ts_latest := th_event e, ts_lastAt := th_created e\<rparr>"
  have "index_exact ?s" "ts_participants ?s = participants_of (counted_actors (filter (visible_reply sh) es))"
    using assms index_exact_upd by (simp_all add: summary_exact_def)
  from countReply_exact [OF this, of "th_actor e"] this show ?thesis
    using assms True
    by (auto simp: summary_exact_def applyReplyToSummary_def visible_reply_def counted_actors_def Let_def)
qed

lemma recomputed_exact:
  "summary_exact (filter (visible_reply sh) es) (fold (applyReplyToSummary sh) es empty_summary)"
proof (induction es rule: rev_induct)
  case Nil
  then show ?case by (simp add: empty_summary_exact)
next
  case (snoc e es)
  then show ?case using applyReply_exact [OF snoc] by simp
qed

section \<open>The replies of the log\<close>

definition mark_retracted :: "string \<Rightarrow> thread_entry list \<Rightarrow> thread_entry list" where
  "mark_retracted i es = map (\<lambda>e. if th_event e = i then e\<lparr>th_retracted := True\<rparr> else e) es"

definition reply_step :: "string \<Rightarrow> content_fact \<times> seq \<Rightarrow> thread_entry list \<Rightarrow> thread_entry list" where
  "reply_step root x es =
     (case payload_of (fst x) of
        Some (MessagePosted m) \<Rightarrow>
          if mp_in_thread m = root then es @ [entry_of_reply (fst x) (snd x)] else es
      | Some (MessageRetracted _ i) \<Rightarrow> mark_retracted i es
      | _ \<Rightarrow> es)"

definition thread_replies :: "string \<Rightarrow> (content_fact \<times> seq) list \<Rightarrow> thread_entry list" where
  "thread_replies root log = fold (reply_step root) log []"

lemma mark_retracted_none: "i \<notin> th_event ` set es \<Longrightarrow> mark_retracted i es = es"
  by (auto simp: mark_retracted_def intro!: map_idI)

lemma mark_retracted_events [simp]: "map th_event (mark_retracted i es) = map th_event es"
  by (simp add: mark_retracted_def comp_def if_distrib [of th_event] cong: if_cong)

lemma mark_retracted_set [simp]: "th_event ` set (mark_retracted i es) = th_event ` set es"
  by (metis list.set_map mark_retracted_events)

text \<open>The part of the state that replies and summaries live in.\<close>

definition td_core :: "threads \<Rightarrow> (string, thread_entry list) fmap \<times> (string, string) fmap
    \<times> (string, thread_summary) fmap \<times> string fset" where
  "td_core p = (td_byThread p, td_replyRoots p, td_summaries p, td_shredded p)"

lemma fold_core: "(\<And>x p. td_core (f x p) = td_core p) \<Longrightarrow> td_core (fold f xs p) = td_core p"
  by (induction xs arbitrary: p) auto

lemma core_ops:
  "td_core (addInteraction u a b p) = td_core p"
  "td_core (removeRoomInteractionState r p) = td_core p"
  "td_core (setThreadFollowState u a b st p) = td_core p"
  by (auto simp: td_core_def addInteraction_def removeRoomInteractionState_def setThreadFollowState_def Let_def)

lemma core_message: "td_core (applyMessageInteractionState ev m p) = td_core p"
proof -
  have "td_core (p\<lparr>td_messageRefs := x\<rparr>) = td_core p" for x by (simp add: td_core_def)
  then show ?thesis
    by (simp add: applyMessageInteractionState_def Let_def fold_core core_ops)
qed

lemma core_directory: "td_core (snd (apply_directory ev e p)) = td_core p"
proof (cases e)
  case (RoomDeleted r)
  have "td_core (p\<lparr>td_channelRooms := c, td_dmRooms := d\<rparr>) = td_core p" for c d by (simp add: td_core_def)
  then show ?thesis by (simp add: RoomDeleted apply_directory_def apply_room_deleted_def core_ops)
qed (auto simp: apply_directory_def apply_room_created_def apply_membership_def td_core_def split: option.split)

definition threads_ok :: "(content_fact \<times> seq) list \<Rightarrow> threads \<Rightarrow> bool" where
  "threads_ok log p \<longleftrightarrow>
     (\<forall>root. root \<noteq> [] \<longrightarrow> getl (td_byThread p) root = thread_replies root log)
     \<and> fmlookup (td_byThread p) [] = None
     \<and> (\<forall>root. fmlookup (td_summaries p) root =
           map_option (\<lambda>es. fold (applyReplyToSummary (td_shredded p)) es empty_summary)
             (fmlookup (td_byThread p) root))
     \<and> (\<forall>i root. fmlookup (td_replyRoots p) i = Some root \<longleftrightarrow> i \<in> th_event ` set (getl (td_byThread p) root))
     \<and> (\<forall>root. th_event ` set (getl (td_byThread p) root) \<subseteq> set (log_ids log))
     \<and> td_shredded p = erased_in_log log"

lemma threads_okD:
  assumes "threads_ok log p"
  shows "root \<noteq> [] \<Longrightarrow> getl (td_byThread p) root = thread_replies root log"
    and "fmlookup (td_byThread p) [] = None"
    and "fmlookup (td_summaries p) root =
           map_option (\<lambda>es. fold (applyReplyToSummary (td_shredded p)) es empty_summary)
             (fmlookup (td_byThread p) root)"
    and "fmlookup (td_replyRoots p) i = Some root \<longleftrightarrow> i \<in> th_event ` set (getl (td_byThread p) root)"
    and "th_event ` set (getl (td_byThread p) root) \<subseteq> set (log_ids log)"
    and "td_shredded p = erased_in_log log"
  using assms unfolding threads_ok_def by blast+

text \<open>The same invariant by the fields of the state after a step.\<close>

lemma threads_okI:
  assumes "td_byThread q = by" and "td_replyRoots q = rr" and "td_shredded q = sh"
    and "\<And>root. fmlookup (td_summaries q) root =
           map_option (\<lambda>es. fold (applyReplyToSummary sh) es empty_summary) (fmlookup by root)"
    and "\<And>root. root \<noteq> [] \<Longrightarrow> getl by root = thread_replies root log" and "fmlookup by [] = None"
    and "\<And>i root. fmlookup rr i = Some root \<longleftrightarrow> i \<in> th_event ` set (getl by root)"
    and "\<And>root. th_event ` set (getl by root) \<subseteq> set (log_ids log)" and "sh = erased_in_log log"
  shows "threads_ok log q"
  unfolding threads_ok_def assms(1-3) using assms(4-9) by blast

lemma threads_ok_core:
  assumes "threads_ok log p" and "td_core q = td_core p"
    and "\<And>root. root \<noteq> [] \<Longrightarrow> thread_replies root log' = thread_replies root log"
    and "erased_in_log log' = erased_in_log log" and "set (log_ids log) \<subseteq> set (log_ids log')"
  shows "threads_ok log' q"
proof -
  have fields: "td_byThread q = td_byThread p" "td_replyRoots q = td_replyRoots p"
    "td_summaries q = td_summaries p" "td_shredded q = td_shredded p"
    using assms(2) by (simp_all add: td_core_def)
  show ?thesis
  proof (rule threads_okI [of q "td_byThread p" "td_replyRoots p" "td_shredded p"])
    show "th_event ` set (getl (td_byThread p) root) \<subseteq> set (log_ids log')" for root
      using threads_okD(5) [OF assms(1)] assms(5) by blast
    show "root \<noteq> [] \<Longrightarrow> getl (td_byThread p) root = thread_replies root log'" for root
      using threads_okD(1) [OF assms(1)] assms(3) by simp
    show "td_shredded p = erased_in_log log'"
      using threads_okD(6) [OF assms(1)] assms(4) by simp
    show "fmlookup (td_summaries q) root =
        map_option (\<lambda>es. fold (applyReplyToSummary (td_shredded p)) es empty_summary) (fmlookup (td_byThread p) root)"
      for root
      unfolding fields by (rule threads_okD(3) [OF assms(1)])
    show "fmlookup (td_replyRoots p) i = Some root \<longleftrightarrow> i \<in> th_event ` set (getl (td_byThread p) root)"
      for i root by (rule threads_okD(4) [OF assms(1)])
  qed (simp_all add: fields threads_okD(2) [OF assms(1)])
qed

lemma erased_snoc: "erased_in_log (log @ [(ev, sq)]) = erase_user ev (erased_in_log log)"
  by (simp add: erased_in_log_def)

lemma replies_snoc: "thread_replies root (log @ [x]) = reply_step root x (thread_replies root log)"
  by (simp add: thread_replies_def)

lemma recompute_fold:
  "td_byThread (fold recomputeSummary rs p) = td_byThread p
   \<and> td_replyRoots (fold recomputeSummary rs p) = td_replyRoots p
   \<and> td_shredded (fold recomputeSummary rs p) = td_shredded p
   \<and> fmlookup (td_summaries (fold recomputeSummary rs p)) root =
       (if root \<in> set rs
        then Some (fold (applyReplyToSummary (td_shredded p)) (getl (td_byThread p) root) empty_summary)
        else fmlookup (td_summaries p) root)"
  by (induction rs arbitrary: p) (auto simp: recomputeSummary_def)

lemma shred_ok:
  assumes "threads_ok log p" and "erased_user ev = Some u"
  shows "threads_ok (log @ [(ev, sq)]) (snd (threads_shred u p))"
proof -
  have payload: "payload_of ev = Some (UserKeyShreddingRequested u) \<or> payload_of ev = Some (UserKeyShredded u)"
    using assms(2) by (auto simp: erased_user_def split: option.splits content_event.splits)
  then have same: "thread_replies root (log @ [(ev, sq)]) = thread_replies root log" for root
    by (auto simp: replies_snoc reply_step_def)
  show ?thesis
  proof (cases "u = []")
    case True
    then have "td_core (snd (threads_shred u p)) = td_core p" by (simp add: threads_shred_def)
    then show ?thesis
      by (rule threads_ok_core [OF assms(1)])
        (auto simp: same erased_snoc erase_user_def assms(2) True)
  next
    case False
    let ?p = "p\<lparr>td_shredded := finsert u (td_shredded p)\<rparr>"
    have dom: "root \<in> set (sortedMapKeys (td_summaries p)) \<longleftrightarrow> fmlookup (td_byThread p) root \<noteq> None" for root
      unfolding mem_sortedMapKeys_iff threads_okD(3) [OF assms(1)] by simp
    have "fmlookup (td_summaries (fold recomputeSummary (sortedMapKeys (td_summaries ?p)) ?p)) root =
        map_option (\<lambda>es. fold (applyReplyToSummary (finsert u (td_shredded p))) es empty_summary)
          (fmlookup (td_byThread p) root)" for root
      using recompute_fold [of "sortedMapKeys (td_summaries ?p)" ?p root] dom [of root]
        threads_okD(3) [OF assms(1), of root]
      by (cases "fmlookup (td_byThread p) root") (simp_all add: getl_def)
    moreover have "snd (threads_shred u p) = fold recomputeSummary (sortedMapKeys (td_summaries ?p)) ?p"
      using False by (simp add: threads_shred_def Let_def)
    moreover have "erased_in_log (log @ [(ev, sq)]) = finsert u (td_shredded p)"
      using False threads_okD(6) [OF assms(1)] by (simp add: erased_snoc erase_user_def assms(2))
    moreover note r = recompute_fold [of "sortedMapKeys (td_summaries ?p)" ?p]
    have "th_event ` set (getl (td_byThread p) root) \<subseteq> set (log_ids (log @ [(ev, sq)]))" for root
      using threads_okD(5) [OF assms(1), of root] by auto
    ultimately show ?thesis
      using r threads_okD(1,2,4) [OF assms(1)]
      by (intro threads_okI [of _ "td_byThread p" "td_replyRoots p" "finsert u (td_shredded p)"])
        (simp_all add: same del: set_sortedMapKeys)
  qed
qed

lemma posted_ok:
  assumes "threads_ok log p" and "payload_of ev = Some (MessagePosted m)" and "ev_id ev \<notin> set (log_ids log)"
    and "ev_id ev \<noteq> []"
  shows "threads_ok (log @ [(ev, sq)]) (snd (apply_thread_post ev m sq p))"
proof -
  let ?root = "mp_in_thread m"
  let ?e = "entry_of_reply ev sq"
  define q where "q = (if isInteractionRoom p (mp_room_id m) then applyMessageInteractionState ev m p else p)"
  have core: "td_core q = td_core p" by (simp add: q_def core_message)
  have step: "reply_step r (ev, sq) es = (if ?root = r then es @ [?e] else es)" for r es
    by (simp add: reply_step_def assms(2))
  have erased: "erased_in_log (log @ [(ev, sq)]) = erased_in_log log"
    by (simp add: erased_snoc erase_user_def erased_user_def assms(2))
  show ?thesis
  proof (cases "?root = []")
    case True
    have "td_core (snd (apply_thread_post ev m sq p)) = td_core p"
      using True core by (simp add: apply_thread_post_def q_def Let_def)
    then show ?thesis
      by (rule threads_ok_core [OF assms(1)]) (use True in \<open>auto simp: replies_snoc step erased\<close>)
  next
    case False
    have q: "td_byThread q = td_byThread p" "td_replyRoots q = td_replyRoots p"
      "td_summaries q = td_summaries p" "td_shredded q = td_shredded p"
      using core by (simp_all add: td_core_def)
    let ?by = "fmupd ?root (getl (td_byThread p) ?root @ [?e]) (td_byThread p)"
    let ?rr = "fmupd (ev_id ev) ?root (td_replyRoots p)"
    have post: "snd (apply_thread_post ev m sq p) = append_reply ?root ?e q"
      using False assms(4) by (simp add: apply_thread_post_def q_def Let_def)
    have event: "th_event ?e = ev_id ev" by (simp add: entry_of_reply_def)
    have getl: "getl ?by r = (if r = ?root then getl (td_byThread p) r @ [?e] else getl (td_byThread p) r)" for r
      by (simp add: getl_def)
    note ok = threads_okD [OF assms(1)]
    have fresh: "ev_id ev \<notin> th_event ` set (getl (td_byThread p) r)" for r
      using ok(5) [of r] assms(3) by blast
    have summary: "summary_of q ?root =
        fold (applyReplyToSummary (td_shredded p)) (getl (td_byThread p) ?root) empty_summary"
      using ok(3) [of ?root] by (simp add: summary_of_def q getl_def split: option.split)
    show ?thesis
      unfolding post
    proof (rule threads_okI [of _ ?by ?rr "td_shredded p"])
      show "fmlookup (td_summaries (append_reply ?root ?e q)) r =
          map_option (\<lambda>es. fold (applyReplyToSummary (td_shredded p)) es empty_summary) (fmlookup ?by r)" for r
        using ok(3) [of r] summary by (simp add: append_reply_def q)
      show "r \<noteq> [] \<Longrightarrow> getl ?by r = thread_replies r (log @ [(ev, sq)])" for r
        using ok(1) [of r] by (simp add: getl replies_snoc step)
      show "fmlookup ?rr i = Some r \<longleftrightarrow> i \<in> th_event ` set (getl ?by r)" for i r
      proof (cases "i = ev_id ev")
        case True
        then show ?thesis using fresh [of r] by (auto simp: getl event)
      next
        case False
        then show ?thesis using ok(4) [of i r] by (auto simp: getl event)
      qed
      show "th_event ` set (getl ?by r) \<subseteq> set (log_ids (log @ [(ev, sq)]))" for r
        using ok(5) [of r] by (auto simp: getl event)
      show "td_shredded p = erased_in_log (log @ [(ev, sq)])" using ok(6) by (simp add: erased)
    qed (use False ok(2) in \<open>simp_all add: append_reply_def q event\<close>)
  qed
qed

lemma created_ok:
  assumes "threads_ok log p" and "payload_of ev = Some (ThreadCreated r root)"
  shows "threads_ok (log @ [(ev, sq)]) (snd (apply_thread_created root p))"
proof -
  note ok = threads_okD [OF assms(1)]
  have same: "thread_replies r (log @ [(ev, sq)]) = thread_replies r log" for r
    by (simp add: replies_snoc reply_step_def assms(2))
  have erased: "erased_in_log (log @ [(ev, sq)]) = erased_in_log log"
    by (simp add: erased_snoc erase_user_def erased_user_def assms(2))
  show ?thesis
  proof (cases "root = [] \<or> fmlookup (td_byThread p) root \<noteq> None")
    case True
    then have "td_core (snd (apply_thread_created root p)) = td_core p"
      using ok(3) [of root] by (auto simp: apply_thread_created_def td_core_def)
    then show ?thesis
      by (rule threads_ok_core [OF assms(1)]) (auto simp: same erased)
  next
    case False
    let ?by = "fmupd root [] (td_byThread p)"
    have getl: "getl ?by r = getl (td_byThread p) r" for r
      using False by (auto simp: getl_def)
    have none: "fmlookup (td_summaries p) root = None" using False ok(3) [of root] by simp
    have q: "snd (apply_thread_created root p) =
        p\<lparr>td_byThread := ?by, td_summaries := fmupd root empty_summary (td_summaries p)\<rparr>"
      using False none by (simp add: apply_thread_created_def)
    show ?thesis
      unfolding q
    proof (rule threads_okI [of _ ?by "td_replyRoots p" "td_shredded p"])
      show "fmlookup (td_summaries (p\<lparr>td_byThread := ?by, td_summaries := fmupd root empty_summary (td_summaries p)\<rparr>)) r
          = map_option (\<lambda>es. fold (applyReplyToSummary (td_shredded p)) es empty_summary) (fmlookup ?by r)" for r
        using ok(3) [of r] by simp
      show "th_event ` set (getl ?by r) \<subseteq> set (log_ids (log @ [(ev, sq)]))" for r
        using ok(5) [of r] by (auto simp: getl)
      show "td_shredded p = erased_in_log (log @ [(ev, sq)])" using ok(6) by (simp add: erased)
      show "r \<noteq> [] \<Longrightarrow> getl ?by r = thread_replies r (log @ [(ev, sq)])" for r
        unfolding getl same by (rule ok(1))
      show "fmlookup (td_replyRoots p) i = Some r \<longleftrightarrow> i \<in> th_event ` set (getl ?by r)" for i r
        unfolding getl by (rule ok(4))
    qed (use False ok(2) in simp_all)
  qed
qed

lemma retracted_ok:
  assumes "threads_ok log p" and "payload_of ev = Some (MessageRetracted r i)" and "[] \<notin> set (log_ids log)"
  shows "threads_ok (log @ [(ev, sq)]) (snd (apply_thread_retracted i p))"
proof -
  note ok = threads_okD [OF assms(1)]
  have step: "thread_replies root (log @ [(ev, sq)]) = mark_retracted i (thread_replies root log)" for root
    by (simp add: replies_snoc reply_step_def assms(2))
  have erased: "erased_in_log (log @ [(ev, sq)]) = erased_in_log log"
    by (simp add: erased_snoc erase_user_def erased_user_def assms(2))
  show ?thesis
  proof (cases "replyRoot p i")
    case None
    then have "i \<notin> th_event ` set (getl (td_byThread p) root)" for root
      using ok(4) [of i root] ok(5) [of root] assms(3) by (auto simp: replyRoot_def split: if_splits)
    then have "mark_retracted i (getl (td_byThread p) root) = getl (td_byThread p) root" for root
      by (intro mark_retracted_none)
    then have "mark_retracted i (thread_replies root log) = thread_replies root log" if "root \<noteq> []" for root
      using ok(1) [OF that] by metis
    then show ?thesis
      using None by (intro threads_ok_core [OF assms(1)]) (auto simp: apply_thread_retracted_def step erased)
  next
    case (Some root)
    then have "fmlookup (td_replyRoots p) i = Some root" by (auto simp: replyRoot_def split: if_splits)
    then have mem: "i \<in> th_event ` set (getl (td_byThread p) root)" using ok(4) by blast
    then obtain es where es: "fmlookup (td_byThread p) root = Some es"
      by (cases "fmlookup (td_byThread p) root") (auto simp: getl_def)
    then have root: "root \<noteq> []" using ok(2) by auto
    have others: "i \<notin> th_event ` set (getl (td_byThread p) r)" if "r \<noteq> root" for r
      using that ok(4) [of i r] \<open>fmlookup (td_replyRoots p) i = Some root\<close> by auto
    let ?by = "fmupd root (mark_retracted i es) (td_byThread p)"
    have getl: "getl ?by r = mark_retracted i (getl (td_byThread p) r)" for r
      using es mark_retracted_none [OF others, of r] by (auto simp: getl_def)
    have q: "snd (apply_thread_retracted i p) = recomputeSummary root (p\<lparr>td_byThread := ?by\<rparr>)"
      using Some es by (simp add: apply_thread_retracted_def mark_retracted_def)
    show ?thesis
      unfolding q
    proof (rule threads_okI [of _ ?by "td_replyRoots p" "td_shredded p"])
      show "fmlookup (td_summaries (recomputeSummary root (p\<lparr>td_byThread := ?by\<rparr>))) r =
          map_option (\<lambda>es. fold (applyReplyToSummary (td_shredded p)) es empty_summary) (fmlookup ?by r)" for r
        using ok(3) [of r] by (simp add: recomputeSummary_def getl_def)
      show "th_event ` set (getl ?by r) \<subseteq> set (log_ids (log @ [(ev, sq)]))" for r
        unfolding getl mark_retracted_set using ok(5) [of r] by auto
      show "td_shredded p = erased_in_log (log @ [(ev, sq)])" using ok(6) by (simp add: erased)
      show "r \<noteq> [] \<Longrightarrow> getl ?by r = thread_replies r (log @ [(ev, sq)])" for r
        unfolding getl step by (rule arg_cong [where f = "mark_retracted i"], rule ok(1))
      show "fmlookup (td_replyRoots p) j = Some r \<longleftrightarrow> j \<in> th_event ` set (getl ?by r)" for j r
        unfolding getl mark_retracted_set by (rule ok(4))
    qed (use root ok(2) in \<open>simp_all add: recomputeSummary_def\<close>)
  qed
qed

lemma threads_ok_step:
  assumes "threads_ok log p" and "ev_id ev \<notin> set (log_ids log)" and "ev_id ev \<noteq> []" and "[] \<notin> set (log_ids log)"
  shows "threads_ok (log @ [(ev, sq)]) (thread_step ev sq p)"
proof -
  have frame: "threads_ok (log @ [(ev, sq)]) q"
    if "td_core q = td_core p" "erased_user ev = None"
      "\<And>root es. reply_step root (ev, sq) es = es" for q
    by (rule threads_ok_core [OF assms(1) that(1)])
      (auto simp: replies_snoc that erased_snoc erase_user_def)
  show ?thesis
  proof (cases "payload_of ev")
    case None
    then show ?thesis
      unfolding thread_step_def by (intro frame) (simp_all add: thread_switch_def erased_user_def reply_step_def)
  next
    case (Some e)
    note pl = Some
    show ?thesis
    proof (cases e)
      case (DirectoryFact d)
      then show ?thesis
        unfolding thread_step_def using pl core_directory
        by (intro frame) (simp_all add: thread_switch_def erased_user_def reply_step_def)
    next
      case (MessagePosted m)
      then show ?thesis
        using pl posted_ok [OF assms(1) _ assms(2,3)] by (simp add: thread_step_def thread_switch_def)
    next
      case (MessageRetracted r i)
      then show ?thesis
        using pl retracted_ok [OF assms(1) _ assms(4)] by (simp add: thread_step_def thread_switch_def)
    next
      case (ThreadCreated r root)
      then show ?thesis
        using pl created_ok [OF assms(1)] by (simp add: thread_step_def thread_switch_def)
    next
      case (UserKeyShreddingRequested u)
      then show ?thesis
        using pl shred_ok [OF assms(1), of ev u] by (simp add: thread_step_def thread_switch_def erased_user_def)
    next
      case (UserKeyShredded u)
      then show ?thesis
        using pl shred_ok [OF assms(1), of ev u] by (simp add: thread_step_def thread_switch_def erased_user_def)
    qed (unfold thread_step_def, (rule frame; simp add: pl thread_switch_def erased_user_def reply_step_def core_ops)+)
  qed
qed

abbreviation threads_of :: "(content_fact \<times> seq) list \<Rightarrow> threads" where
  "threads_of log \<equiv> reduce_log thread_step log NewThreadProjection"

lemma threads_of_ok:
  assumes "clean_log log"
  shows "threads_ok log (threads_of log)"
  using assms
proof (induction log rule: clean_log_induct)
  case Nil
  show ?case
    by (rule threads_okI [of _ fmempty fmempty "{||}"])
      (simp_all add: NewThreadProjection_def getl_def thread_replies_def erased_in_log_def)
next
  case (snoc log ev sq)
  have "[] \<notin> set (log_ids log)" using snoc(1) by (simp add: clean_log_def)
  with threads_ok_step [OF snoc(5,3,4)] show ?case by (simp add: reduce_log_append)
qed

lemma replayed_threads:
  assumes "clean_log (startup @ live)"
    and "replayed Threads_Apply Threads_CompleteStartupReplay startup live NewThreadProjection = Some p"
  obtains g where "p = set_td_guard g (threads_of (startup @ live))"
  using threads.run_clean [OF _ assms(1), of NewThreadProjection] assms(2)
  by (auto simp: NewThreadProjection_def)

section \<open>What readers of a thread see\<close>

text \<open>The replies of a thread that are neither retracted nor by an erased author, over the whole log.\<close>

definition visible_replies :: "string \<Rightarrow> (content_fact \<times> seq) list \<Rightarrow> thread_entry list" where
  "visible_replies root log = filter (visible_reply (erased_in_log log)) (thread_replies root log)"

lemma summary_of_log:
  assumes "threads_ok log p" and "root \<noteq> []"
  shows "ThreadEvents p root = map (\<lambda>e. (th_event e, th_seq e)) (thread_replies root log)"
    and "summary_at p root = Some s \<Longrightarrow> summary_exact (visible_replies root log) s"
    and "summary_at p root = None \<longleftrightarrow> \<not> ThreadExists p root"
    and "summary_at p root = None \<Longrightarrow> thread_replies root log = []"
proof -
  note ok = threads_okD [OF assms(1)]
  show "ThreadEvents p root = map (\<lambda>e. (th_event e, th_seq e)) (thread_replies root log)"
    using assms(2) ok(1) by (simp add: ThreadEvents_def thread_entries_def)
  show "summary_exact (visible_replies root log) s" if "summary_at p root = Some s"
  proof -
    from that ok(3) [of root] obtain es where
      es: "fmlookup (td_byThread p) root = Some es" "s = fold (applyReplyToSummary (td_shredded p)) es empty_summary"
      using assms(2) by (cases "fmlookup (td_byThread p) root") (auto simp: summary_at_def)
    then have "es = thread_replies root log" using ok(1) [OF assms(2)] by (simp add: getl_def)
    then show ?thesis using es(2) recomputed_exact ok(6) by (simp add: visible_replies_def)
  qed
  show "summary_at p root = None \<longleftrightarrow> \<not> ThreadExists p root"
    using assms(2) ok(3) [of root] by (simp add: summary_at_def ThreadExists_def)
  show "thread_replies root log = []" if "summary_at p root = None"
    using that assms(2) ok(3) [of root] ok(1) [OF assms(2)] by (simp add: summary_at_def getl_def)
qed

lemma list_participants_take:
  assumes "length ids \<le> limit"
  shows "list_participants limit root ids as = take limit (ids @ filter (\<lambda>a. a \<noteq> root) as)"
  using assms
proof (induction limit root ids as rule: list_participants.induct)
  case (2 limit root ids a as)
  show ?case
  proof (cases "length ids = limit")
    case True
    then show ?thesis by simp
  next
    case False
    then show ?thesis using 2 by (cases "a = root") simp_all
  qed
qed simp

text \<open>The author of the root first, unless erased or unknown, then the other authors by first reply.\<close>

definition thread_people :: "string \<Rightarrow> string \<Rightarrow> (content_fact \<times> seq) list \<Rightarrow> string list" where
  "thread_people rootAuthor root log =
     (let author = (if rootAuthor |\<in>| erased_in_log log then [] else rootAuthor) in
      (if author \<noteq> [] then [author] else [])
      @ filter (\<lambda>a. a \<noteq> author) (first_order (counted_actors (visible_replies root log))))"

lemma participants_exact:
  assumes "threads_ok log p" and "summary_exact (visible_replies root log) s" and "0 < limit"
  shows "participantsIncludingRoot p s rootAuthor limit =
    (take limit (thread_people rootAuthor root log), length (thread_people rootAuthor root log))"
proof -
  let ?author = "if rootAuthor |\<in>| erased_in_log log then [] else rootAuthor"
  let ?as = "first_order (counted_actors (visible_replies root log))"
  have shredded: "td_shredded p = erased_in_log log" by (rule threads_okD(6) [OF assms(1)])
  have ps: "map pt_actor (ts_participants s) = ?as" "length (ts_participants s) = length ?as"
    using assms(2) by (simp_all add: summary_exact_def)
  have replied: "find_participant s a \<noteq> None \<longleftrightarrow> a \<in> set ?as" for a
    using assms(2) participant_at_None [of a "ts_participants s"]
    by (metis index_exact_def list.set_map ps(1) summary_exact_def)
  have nonempty: "[] \<notin> set ?as" by (simp add: counted_actors_def)
  have once: "length (filter (\<lambda>a. a \<noteq> b) ?as) = (if b \<in> set ?as then length ?as - 1 else length ?as)" for b
    using length_remove1 [of b ?as]
    by (simp add: distinct_remove1_removeAll removeAll_filter_not_eq eq_commute)
  have all: "filter (\<lambda>a. a \<noteq> []) ?as = ?as"
    using nonempty by (simp add: filter_id_conv) blast
  have count: "length (ts_participants s) + (if ?author \<noteq> [] \<and> \<not> (?author \<noteq> [] \<and> find_participant s ?author \<noteq> None) then 1 else 0)
      = length (thread_people rootAuthor root log)"
  proof (cases "?author = []")
    case True
    then show ?thesis using all by (simp add: thread_people_def Let_def ps(2))
  next
    case False
    have "?author \<in> set ?as \<Longrightarrow> 0 < length ?as" by (cases ?as) auto
    then show ?thesis
      unfolding replied using False once [of ?author] by (auto simp: thread_people_def Let_def ps(2))
  qed
  have listed: "list_participants limit ?author (if ?author \<noteq> [] then [?author] else []) ?as
      = take limit (thread_people rootAuthor root log)"
    using assms(3) by (subst list_participants_take) (auto simp: thread_people_def Let_def)
  show ?thesis
    unfolding participantsIncludingRoot_def shredded Let_def count ps(1) listed by simp
qed

lemma participants_guard [simp]:
  "participantsIncludingRoot (set_td_guard g p) s a n = participantsIncludingRoot p s a n"
  by (simp add: participantsIncludingRoot_def)

lemma threads_reads_guard [simp]:
  "ThreadEvents (set_td_guard g p) root = ThreadEvents p root"
  "ThreadExists (set_td_guard g p) root = ThreadExists p root"
  "summary_at (set_td_guard g p) root = summary_at p root"
  "ReplyCount (set_td_guard g p) root = ReplyCount p root"
  "Threads_Metadata (set_td_guard g p) root a = Threads_Metadata p root a"
  "ParticipantIDs (set_td_guard g p) root a = ParticipantIDs p root a"
  by (simp_all add: ThreadEvents_def thread_entries_def ThreadExists_def summary_at_def ReplyCount_def
      Threads_Metadata_def ParticipantIDs_def split: option.split)

text \<open>C22 (refinement). The cached summary of a thread is that of its replies in the log: over a log
  without repeated identities, the rows of a thread are its replies in stream order, and
  its reply count, its latest reply and the time of that are those of the replies that no
  later record retracted and whose author was never erased, although the cache is updated
  reply by reply and rebuilt only after a retraction or an erasure.\<close>

theorem thread_summary_exact:
  assumes "clean_log (startup @ live)"
    and "replayed Threads_Apply Threads_CompleteStartupReplay startup live NewThreadProjection = Some p"
    and "root \<noteq> []"
  shows "let vis = visible_replies root (startup @ live); md = Threads_Metadata p root rootAuthor in
    ThreadEvents p root = map (\<lambda>e. (th_event e, th_seq e)) (thread_replies root (startup @ live))
    \<and> ReplyCount p root = length vis \<and> tm_count md = length vis \<and> tm_exists md = ThreadExists p root
    \<and> tm_latest md = (if vis = [] then [] else th_event (last vis))
    \<and> tm_lastAt md = (if vis = [] \<or> th_created (last vis) = 0 then None
                       else Some (projectionTime (th_created (last vis))))"
proof -
  obtain g where p: "p = set_td_guard g (threads_of (startup @ live))"
    by (rule replayed_threads [OF assms(1,2)])
  note r = summary_of_log [OF threads_of_ok [OF assms(1)] assms(3)]
  show ?thesis
  proof (cases "summary_at (threads_of (startup @ live)) root")
    case None
    then have "visible_replies root (startup @ live) = []" using r(4) by (simp add: visible_replies_def)
    then show ?thesis using None r(1,3) by (simp add: p ReplyCount_def Threads_Metadata_def Let_def)
  next
    case (Some s)
    have "tm_exists (Threads_Metadata (threads_of (startup @ live)) root rootAuthor)" using Some
      by (simp add: Threads_Metadata_def split: prod.split)
    moreover have "ThreadExists (threads_of (startup @ live)) root" using Some r(3) by simp
    ultimately show ?thesis
      using Some r(1) r(2) [OF Some]
      by (simp add: p ReplyCount_def Threads_Metadata_def Let_def summary_exact_def split: prod.split)
  qed
qed

text \<open>The people of a thread: the author of the root first, then everyone with a
  visible reply in the order of their first reply, each once and no erased account. The
  full list has them all, the metadata show the first fifty of them and count them all.\<close>

theorem thread_participants_exact:
  assumes "clean_log (startup @ live)"
    and "replayed Threads_Apply Threads_CompleteStartupReplay startup live NewThreadProjection = Some p"
    and "ThreadExists p root"
  shows "let people = thread_people rootAuthor root (startup @ live) in
    ParticipantIDs p root rootAuthor = people
    \<and> tm_participants (Threads_Metadata p root rootAuthor) = take 50 people
    \<and> tm_participant_count (Threads_Metadata p root rootAuthor) = length people
    \<and> distinct people \<and> (\<forall>a \<in> set people. a \<noteq> [] \<and> a |\<notin>| erased_in_log (startup @ live))"
proof -
  obtain g where p: "p = set_td_guard g (threads_of (startup @ live))"
    by (rule replayed_threads [OF assms(1,2)])
  note ok = threads_of_ok [OF assms(1)]
  have root: "root \<noteq> []" using assms(3) by (simp add: ThreadExists_def)
  note r = summary_of_log [OF ok root]
  obtain s where s: "summary_at (threads_of (startup @ live)) root = Some s"
    using assms(3) r(3) by (auto simp: p)
  let ?people = "thread_people rootAuthor root (startup @ live)"
  note exact = participants_exact [OF ok r(2) [OF s], where rootAuthor = rootAuthor]
  have "length (ts_participants s) = length (first_order (counted_actors (visible_replies root (startup @ live))))"
    using r(2) [OF s] by (simp add: summary_exact_def)
  then have "length ?people \<le> length (ts_participants s) + 1"
    by (auto simp: thread_people_def Let_def intro: le_trans [OF length_filter_le])
  moreover have "distinct ?people" by (simp add: thread_people_def Let_def)
  moreover have "\<forall>a \<in> set ?people. a \<noteq> [] \<and> a |\<notin>| erased_in_log (startup @ live)"
    by (auto simp: thread_people_def Let_def counted_actors_def visible_replies_def visible_reply_def)
  ultimately show ?thesis
    using exact by (simp add: p ParticipantIDs_def Threads_Metadata_def s Let_def)
qed

lemma erased_mono:
  assumes "(ev, sq) \<in> set log" and "erased_user ev = Some u" and "u \<noteq> []"
  shows "u |\<in>| erased_in_log log"
proof -
  have grow: "u |\<in>| fold (\<lambda>x. erase_user (fst x)) xs E" if "u |\<in>| E" for E and xs :: "(content_fact \<times> seq) list"
    using that by (induction xs arbitrary: E) (auto simp: erase_user_def split: option.split)
  obtain xs ys where "log = xs @ (ev, sq) # ys" using assms(1) by (metis split_list)
  then show ?thesis
    unfolding erased_in_log_def using assms(2,3) by (simp add: erase_user_def grow)
qed


end
