(* ===== verification/Threads_Follows.thy ===== *)
theory Threads_Follows
  imports Threads_Properties
begin

text \<open>
  Follows and relationships of threads: the two indexes list exactly the current follows,
  a follow state is that of the last fact about it, and a relationship always has a post
  that caused it.
\<close>

section \<open>Follows\<close>

definition follow_of :: "content_fact \<Rightarrow> ((string \<times> string \<times> string) \<times> follow_state) option" where
  "follow_of ev =
     (case payload_of ev of
        Some (ThreadFollowed u r root) \<Rightarrow>
          if u \<noteq> [] \<and> r \<noteq> [] \<and> root \<noteq> [] then Some ((u, r, root), Following) else None
      | Some (ThreadUnfollowed u r root) \<Rightarrow>
          if u \<noteq> [] \<and> r \<noteq> [] \<and> root \<noteq> [] then Some ((u, r, root), Unfollowed) else None
      | _ \<Rightarrow> None)"

text \<open>The state the last fact about a follow gives it.\<close>

definition last_follow :: "(content_fact \<times> seq) list \<Rightarrow> string \<times> string \<times> string \<Rightarrow> follow_state" where
  "last_follow log =
     fold (\<lambda>x f. case follow_of (fst x) of None \<Rightarrow> f | Some (k, st) \<Rightarrow> f(k := st)) log (\<lambda>_. FollowNone)"

definition follows_ok :: "threads \<Rightarrow> bool" where
  "follows_ok p \<longleftrightarrow>
     (\<forall>room root. distinct (getl (td_followers p) (room, root))
        \<and> set (getl (td_followers p) (room, root)) = {u. followState p u (room, root) = Following})
     \<and> (\<forall>u. distinct (getl (td_followed p) u)
        \<and> set (getl (td_followed p) u) = {t. followState p u t = Following})"

text \<open>The fields follows live in.\<close>

definition td_follows :: "threads \<Rightarrow> (string \<times> string \<times> string, follow_state) fmap
    \<times> (string \<times> string, string list) fmap \<times> (string, (string \<times> string) list) fmap" where
  "td_follows p = (td_followState p, td_followers p, td_followed p)"

lemma fold_follows: "(\<And>x p. td_follows (f x p) = td_follows p) \<Longrightarrow> td_follows (fold f xs p) = td_follows p"
  by (induction xs arbitrary: p) auto

lemma follows_ops:
  "td_follows (addInteraction u a b p) = td_follows p"
  "td_follows (removeRoomInteractionState r p) = td_follows p"
  "td_follows (recomputeSummary r p) = td_follows p"
  "td_follows (append_reply r e p) = td_follows p"
  by (auto simp: td_follows_def addInteraction_def removeRoomInteractionState_def recomputeSummary_def
      append_reply_def)

lemma follows_upd:
  "td_follows (p\<lparr>td_messageRefs := a\<rparr>) = td_follows p" "td_follows (p\<lparr>td_channelRooms := b\<rparr>) = td_follows p"
  "td_follows (p\<lparr>td_dmRooms := c\<rparr>) = td_follows p" "td_follows (p\<lparr>td_shredded := d\<rparr>) = td_follows p"
  "td_follows (p\<lparr>td_byThread := e\<rparr>) = td_follows p" "td_follows (p\<lparr>td_summaries := f\<rparr>) = td_follows p"
  by (simp_all add: td_follows_def)

lemma follows_branches:
  "td_follows (snd (apply_directory ev e p)) = td_follows p"
  "td_follows (snd (threads_shred u p)) = td_follows p"
  "td_follows (snd (apply_thread_created r p)) = td_follows p"
  "td_follows (snd (apply_thread_post ev m sq p)) = td_follows p"
  "td_follows (snd (apply_thread_retracted i p)) = td_follows p"
proof -
  show "td_follows (snd (apply_directory ev e p)) = td_follows p"
    by (cases e) (auto simp: apply_directory_def apply_room_created_def apply_membership_def
        apply_room_deleted_def follows_upd follows_ops split: option.split)
  show "td_follows (snd (threads_shred u p)) = td_follows p"
    by (simp add: threads_shred_def Let_def fold_follows follows_ops follows_upd)
  show "td_follows (snd (apply_thread_created r p)) = td_follows p"
    by (simp add: apply_thread_created_def Let_def follows_upd)
  have "td_follows (applyMessageInteractionState ev m p) = td_follows p"
    by (simp add: applyMessageInteractionState_def Let_def fold_follows follows_ops follows_upd)
  then show "td_follows (snd (apply_thread_post ev m sq p)) = td_follows p"
    by (simp add: apply_thread_post_def Let_def follows_ops)
  show "td_follows (snd (apply_thread_retracted i p)) = td_follows p"
    by (simp add: apply_thread_retracted_def follows_ops follows_upd split: option.split)
qed

lemma step_follows_none:
  assumes "follow_of ev = None"
  shows "td_follows (thread_step ev sq p) = td_follows p"
  using assms
  by (cases "payload_of ev"; cases "the (payload_of ev)")
    (auto simp: thread_step_def thread_switch_def follows_branches follow_of_def setThreadFollowState_def
      split: if_splits)

lemma step_follows_some:
  assumes "follow_of ev = Some ((u, r, root), st)"
  shows "thread_step ev sq p = setThreadFollowState u r root st p" and "u \<noteq> []" "r \<noteq> []" "root \<noteq> []"
    and "st \<noteq> FollowNone"
  using assms
  by (cases "payload_of ev"; cases "the (payload_of ev)";
      auto simp: thread_step_def thread_switch_def follow_of_def split: if_splits)+

lemma getl_put_list: "getl (put_list k xs m) k' = (if k' = k then xs else getl m k')"
  by (simp add: getl_def put_list_def)

lemma followState_set:
  assumes "u \<noteq> []" and "r \<noteq> []" and "root \<noteq> []"
  shows "followState (setThreadFollowState u r root st p) v t =
    (if v = u \<and> t = (r, root) then st else followState p v t)"
  using assms by (auto simp: setThreadFollowState_def followState_def Let_def)

lemma follows_ok_set:
  assumes "follows_ok p" and "u \<noteq> []" and "r \<noteq> []" and "root \<noteq> []" and "st \<noteq> FollowNone"
  shows "follows_ok (setThreadFollowState u r root st p)"
proof (cases "followState p u (r, root) = st")
  case True
  then show ?thesis using assms by (simp add: setThreadFollowState_def)
next
  case False
  let ?q = "setThreadFollowState u r root st p"
  let ?us = "getl (td_followers p) (r, root)" and ?ts = "getl (td_followed p) u"
  have absent: "filter (\<lambda>v. v \<noteq> u) ?us = ?us" "filter (\<lambda>t. t \<noteq> (r, root)) ?ts = ?ts"
    if "followState p u (r, root) \<noteq> Following"
    using that assms(1) by (auto simp: follows_ok_def filter_id_conv)
  have getl_upd: "getl (fmupd k xs m) k' = (if k' = k then xs else getl m k')" for k k' and xs :: "'a list" and m
    by (simp add: getl_def)
  have followers: "getl (td_followers ?q) t =
      (let old = getl (td_followers p) t in
       if t \<noteq> (r, root) then old
       else filter (\<lambda>v. v \<noteq> u) old @ (if st = Following then [u] else []))" for t
    using False assms(2-4) absent
    by (auto simp: setThreadFollowState_def Let_def getl_put_list getl_upd)
  have followed: "getl (td_followed ?q) v =
      (let old = getl (td_followed p) v in
       if v \<noteq> u then old
       else filter (\<lambda>t. t \<noteq> (r, root)) old @ (if st = Following then [(r, root)] else []))" for v
    using False assms(2-4) absent
    by (auto simp: setThreadFollowState_def Let_def getl_put_list getl_upd)
  show ?thesis
    using assms(1) unfolding follows_ok_def followers followed followState_set [OF assms(2-4)] Let_def
    by auto
qed

lemma follows_ok_fields: "td_follows q = td_follows p \<Longrightarrow> follows_ok p \<Longrightarrow> follows_ok q"
  by (simp add: td_follows_def follows_ok_def followState_def)

lemma follows_of_log:
  "follows_ok (threads_of log) \<and> (\<forall>u t. followState (threads_of log) u t = last_follow log (u, t))
   \<and> (\<forall>u t. followState (threads_of log) u t \<noteq> FollowNone \<longrightarrow> u \<noteq> [] \<and> fst t \<noteq> [] \<and> snd t \<noteq> [])"
proof (induction log rule: rev_induct)
  case Nil
  show ?case
    by (simp add: follows_ok_def followState_def last_follow_def NewThreadProjection_def getl_def)
next
  case (snoc x log)
  obtain ev sq where x: "x = (ev, sq)" by force
  have step: "threads_of (log @ [x]) = thread_step ev sq (threads_of log)"
    by (simp add: x reduce_log_append)
  have spec: "last_follow (log @ [x]) =
      (case follow_of ev of None \<Rightarrow> last_follow log | Some (k, st) \<Rightarrow> (last_follow log)(k := st))"
    by (cases "follow_of ev") (auto simp: last_follow_def x)
  show ?case
  proof (cases "follow_of ev")
    case None
    have same: "td_follows (thread_step ev sq (threads_of log)) = td_follows (threads_of log)"
      by (rule step_follows_none [OF None])
    then have "followState (thread_step ev sq (threads_of log)) u t = followState (threads_of log) u t" for u t
      by (simp add: td_follows_def followState_def)
    then show ?thesis
      using follows_ok_fields [OF same] snoc by (simp add: step spec None)
  next
    case (Some a)
    obtain u r root st where a: "a = ((u, r, root), st)" by (metis prod.exhaust)
    note f1 = step_follows_some(1) [OF Some [unfolded a], of sq "threads_of log"]
    note f = step_follows_some(2-5) [OF Some [unfolded a]]
    show ?thesis
      unfolding step f1 spec Some a
      using snoc follows_ok_set [OF _ f] followState_set [OF f(1-3)] f
      by auto
  qed
qed

text \<open>C34 (invariant). The follow indexes are exact in both directions: the followers of a thread are
  the accounts whose state is following, the threads an account follows are those for which
  its state is following, both sorted and without repetition, and the state is the one the
  last follow or unfollow in the log gave it.\<close>

theorem follow_indexes_exact:
  assumes "clean_log (startup @ live)"
    and "replayed Threads_Apply Threads_CompleteStartupReplay startup live NewThreadProjection = Some p"
  shows "set (ThreadFollowers p room root) = {u. FollowState p u room root = Following}
    \<and> set (FollowedThreadsForUser p u) = {(room, root). FollowState p u room root = Following}
    \<and> sorted (ThreadFollowers p room root) \<and> distinct (ThreadFollowers p room root)
    \<and> sorted (FollowedThreadsForUser p u) \<and> distinct (FollowedThreadsForUser p u)
    \<and> FollowState p u room root = last_follow (startup @ live) (u, room, root)"
proof -
  obtain g where p: "p = set_td_guard g (threads_of (startup @ live))"
    by (rule replayed_threads [OF assms])
  let ?q = "threads_of (startup @ live)"
  note f = follows_of_log [of "startup @ live"]
  have state: "FollowState p v room root = followState ?q v (room, root)" for v room root
  proof (cases "v = [] \<or> room = [] \<or> root = []")
    case True
    then have "followState ?q v (room, root) = FollowNone" using f by fastforce
    then show ?thesis using True by (auto simp: FollowState_def)
  qed (simp add: FollowState_def p)
  have "followState ?q v t = Following \<Longrightarrow> v \<noteq> [] \<and> fst t \<noteq> [] \<and> snd t \<noteq> []" for v t
    using f by (metis follow_state.distinct(1))
  then have none: "\<not> followState ?q [] t = Following" "\<not> followState ?q v ([], root) = Following"
    "\<not> followState ?q v (room, []) = Following" for v t room root by fastforce+
  have ok: "follows_ok ?q" using f by blast
  show ?thesis
    unfolding state using f ok none
    by (auto simp: ThreadFollowers_def FollowedThreadsForUser_def p follows_ok_def)
qed

section \<open>Relationships\<close>

definition joined_in :: "(content_fact \<times> seq) list \<Rightarrow> string \<Rightarrow> string \<Rightarrow> bool" where
  "joined_in log room u \<longleftrightarrow>
     (\<exists>(ev, sq) \<in> set log. payload_of ev = Some (DirectoryFact (UserJoinedRoom room)) \<and> ev_actor ev = u)
     \<and> (\<exists>(ev, sq) \<in> set log. \<exists>c. payload_of ev = Some (DirectoryFact (RoomCreated c))
          \<and> cr_room_id c = room \<and> cr_kind c = ROOM_KIND_DM)"

text \<open>The posts that relate an account to a thread, given the log before them.\<close>

definition relates :: "(content_fact \<times> seq) list \<Rightarrow> content_fact \<Rightarrow> string \<Rightarrow> string \<Rightarrow> string \<Rightarrow> bool" where
  "relates log ev u room root \<longleftrightarrow>
     (case posted_of ev of
        None \<Rightarrow> False
      | Some m \<Rightarrow>
          mp_room_id m = room \<and> thread_root_of (ev_id ev) m = root
          \<and> \<not> mp_historical m \<and> mp_echo_of m = [] \<and> mp_echo_root m = []
          \<and> (mp_in_thread m = [] \<and> ev_actor ev = u
             \<or> u \<in> set (directly_mentioned (ev_actor ev) m)
             \<or> u \<noteq> ev_actor ev \<and> joined_in log room u))"

definition has_cause :: "(content_fact \<times> seq) list \<Rightarrow> string \<Rightarrow> string \<Rightarrow> string \<Rightarrow> bool" where
  "has_cause log u room root \<longleftrightarrow>
     (\<exists>before ev sq later. log = before @ (ev, sq) # later \<and> relates before ev u room root)"

lemma joined_mono: "joined_in log room u \<Longrightarrow> joined_in (log @ ys) room u"
  unfolding joined_in_def by (simp add: bex_Un)

lemma cause_mono: "has_cause log u room root \<Longrightarrow> has_cause (log @ ys) u room root"
  unfolding has_cause_def by (metis append_assoc append_Cons)

text \<open>The rooms that exist at the end of a log.\<close>

definition room_exists_step :: "string \<Rightarrow> content_fact \<Rightarrow> bool \<Rightarrow> bool" where
  "room_exists_step room ev b =
     (case payload_of ev of
        Some (DirectoryFact (RoomCreated c)) \<Rightarrow>
          b \<or> cr_room_id c = room \<and> room \<noteq> [] \<and> (cr_kind c = ROOM_KIND_CHANNEL \<or> cr_kind c = ROOM_KIND_DM)
      | Some (DirectoryFact (RoomDeleted r)) \<Rightarrow> b \<and> r \<noteq> room
      | _ \<Rightarrow> b)"

definition room_exists_in :: "string \<Rightarrow> (content_fact \<times> seq) list \<Rightarrow> bool" where
  "room_exists_in room log = fold (\<lambda>x. room_exists_step room (fst x)) log False"

text \<open>Every relationship is in a room that exists and has a cause, and members of a direct
  message have joined it.\<close>

definition created_dm :: "(content_fact \<times> seq) list \<Rightarrow> string \<Rightarrow> bool" where
  "created_dm log room \<longleftrightarrow> (\<exists>(ev, sq) \<in> set log. \<exists>c. payload_of ev = Some (DirectoryFact (RoomCreated c))
     \<and> cr_room_id c = room \<and> cr_kind c = ROOM_KIND_DM)"

definition members_ok :: "(content_fact \<times> seq) list \<Rightarrow> threads \<Rightarrow> bool" where
  "members_ok log p \<longleftrightarrow>
     (\<forall>r ms. fmlookup (td_dmRooms p) r = Some ms \<longrightarrow> created_dm log r \<and> (\<forall>u. u |\<in>| ms \<longrightarrow> joined_in log r u))"

definition relationships_ok :: "(content_fact \<times> seq) list \<Rightarrow> threads \<Rightarrow> bool" where
  "relationships_ok log p \<longleftrightarrow>
     (\<forall>u root room. fmlookup (td_interactions p) (u, root) = Some room \<longrightarrow>
        isInteractionRoom p room \<and> has_cause log u room root)"

definition rooms_ok :: "(content_fact \<times> seq) list \<Rightarrow> threads \<Rightarrow> bool" where
  "rooms_ok log p \<longleftrightarrow> (\<forall>r. isInteractionRoom p r = room_exists_in r log)"

lemma no_nameless_room: "\<not> room_exists_in [] log"
proof -
  have step: "room_exists_step [] ev b = b" if "\<not> b" for ev b
    using that
    by (cases "payload_of ev"; cases "the (payload_of ev)")
      (auto simp: room_exists_step_def split: room_event.split)
  show ?thesis by (induction log rule: rev_induct) (auto simp: room_exists_in_def step)
qed

lemma created_mono: "created_dm log r \<Longrightarrow> created_dm (log @ ys) r"
  unfolding created_dm_def by (simp add: bex_Un)

lemma members_mono: "members_ok log p \<Longrightarrow> members_ok (log @ ys) p"
  unfolding members_ok_def using created_mono joined_mono by blast

lemma relationships_mono: "relationships_ok log p \<Longrightarrow> relationships_ok (log @ ys) p"
  unfolding relationships_ok_def using cause_mono by blast

lemma room_exists_snoc: "room_exists_in r (log @ [(ev, sq)]) = room_exists_step r ev (room_exists_in r log)"
  by (simp add: room_exists_in_def)

text \<open>The fields relationships live in.\<close>

definition td_relations :: "threads \<Rightarrow> (string \<times> string, string) fmap \<times> (string, string fset) fmap \<times> string fset" where
  "td_relations p = (td_interactions p, td_dmRooms p, td_channelRooms p)"

lemma relations_cong:
  assumes "td_relations q = td_relations p"
  shows "isInteractionRoom q = isInteractionRoom p" "td_interactions q = td_interactions p"
    "members_ok log q = members_ok log p" "relationships_ok log q = relationships_ok log p"
    "rooms_ok log q = rooms_ok log p"
proof -
  show room: "isInteractionRoom q = isInteractionRoom p" and int: "td_interactions q = td_interactions p"
    using assms by (auto simp: td_relations_def isInteractionRoom_def)
  show "members_ok log q = members_ok log p"
    using assms by (simp add: td_relations_def members_ok_def)
  show "relationships_ok log q = relationships_ok log p" "rooms_ok log q = rooms_ok log p"
    by (simp_all add: relationships_ok_def rooms_ok_def room int)
qed

lemma fold_relations:
  "(\<And>x p. td_relations (f x p) = td_relations p) \<Longrightarrow> td_relations (fold f xs p) = td_relations p"
  by (induction xs arbitrary: p) auto

lemma relations_upd:
  "td_relations (p\<lparr>td_messageRefs := a\<rparr>) = td_relations p" "td_relations (p\<lparr>td_followState := b\<rparr>) = td_relations p"
  "td_relations (p\<lparr>td_followers := c\<rparr>) = td_relations p" "td_relations (p\<lparr>td_shredded := d\<rparr>) = td_relations p"
  "td_relations (p\<lparr>td_byThread := e\<rparr>) = td_relations p" "td_relations (p\<lparr>td_summaries := f\<rparr>) = td_relations p"
  "td_relations (p\<lparr>td_followed := g\<rparr>) = td_relations p"
  "td_relations (recomputeSummary r p) = td_relations p"
  "td_relations (append_reply r en p) = td_relations p"
  by (simp_all add: td_relations_def recomputeSummary_def append_reply_def)

lemma relations_branches:
  "td_relations (snd (threads_shred u p)) = td_relations p"
  "td_relations (snd (apply_thread_created r p)) = td_relations p"
  "td_relations (snd (apply_thread_retracted i p)) = td_relations p"
  "td_relations (setThreadFollowState u r root st p) = td_relations p"
proof -
  show "td_relations (snd (threads_shred u p)) = td_relations p"
    by (simp add: threads_shred_def Let_def fold_relations relations_upd)
  show "td_relations (snd (apply_thread_created r p)) = td_relations p"
    by (simp add: apply_thread_created_def Let_def relations_upd)
  show "td_relations (snd (apply_thread_retracted i p)) = td_relations p"
    by (simp add: apply_thread_retracted_def relations_upd split: option.split)
  show "td_relations (setThreadFollowState u r root st p) = td_relations p"
    by (simp add: setThreadFollowState_def Let_def relations_upd)
qed

lemma step_relations:
  assumes "\<And>e. payload_of ev \<noteq> Some (DirectoryFact e)" and "posted_of ev = None"
  shows "td_relations (thread_step ev sq p) = td_relations p"
  using assms
  by (cases "payload_of ev"; cases "the (payload_of ev)")
    (auto simp: thread_step_def thread_switch_def relations_branches posted_of_def)

text \<open>A post relates its author, the members of a direct message and those it mentions.\<close>

lemma addInteraction_rooms [simp]:
  "td_dmRooms (addInteraction u a b p) = td_dmRooms p"
  "td_channelRooms (addInteraction u a b p) = td_channelRooms p"
  by (simp_all add: addInteraction_def)

lemma fold_addInteraction_rooms [simp]:
  "td_dmRooms (fold (\<lambda>u. addInteraction u room root) us p) = td_dmRooms p"
  "td_channelRooms (fold (\<lambda>u. addInteraction u room root) us p) = td_channelRooms p"
  by (induction us arbitrary: p) auto

lemma addInteraction_adds:
  "fmlookup (td_interactions (addInteraction u room root p)) (v, rt) = Some r \<Longrightarrow>
   fmlookup (td_interactions p) (v, rt) = Some r \<or> v = u \<and> rt = root \<and> r = room"
  by (auto simp: addInteraction_def split: if_splits)

lemma fold_addInteraction_adds:
  "fmlookup (td_interactions (fold (\<lambda>u. addInteraction u room root) us p)) (v, rt) = Some r \<Longrightarrow>
   fmlookup (td_interactions p) (v, rt) = Some r \<or> v \<in> set us \<and> rt = root \<and> r = room"
proof (induction us arbitrary: p)
  case (Cons u us)
  then show ?case using addInteraction_adds [of u room root p] by fastforce
qed simp

definition room_member :: "threads \<Rightarrow> string \<Rightarrow> string \<Rightarrow> bool" where
  "room_member p r u \<longleftrightarrow> (\<exists>ms. fmlookup (td_dmRooms p) r = Some ms \<and> u |\<in>| ms)"

lemma room_members_set: "u \<in> set (room_members p r) \<longleftrightarrow> room_member p r u"
  by (cases "fmlookup (td_dmRooms p) r") (simp_all add: room_members_def room_member_def)

lemma message_rooms:
  "td_dmRooms (applyMessageInteractionState ev m p) = td_dmRooms p"
  "td_channelRooms (applyMessageInteractionState ev m p) = td_channelRooms p"
  by (simp_all add: applyMessageInteractionState_def Let_def)

lemma message_relates:
  assumes "fmlookup (td_interactions (applyMessageInteractionState ev m p)) (v, rt) = Some r"
    and "fmlookup (td_interactions p) (v, rt) \<noteq> Some r"
  shows "r = mp_room_id m" "rt = thread_root_of (ev_id ev) m"
    "\<not> mp_historical m \<and> mp_echo_of m = [] \<and> mp_echo_root m = []"
    "mp_in_thread m = [] \<and> v = ev_actor ev \<or> v \<in> set (directly_mentioned (ev_actor ev) m)
     \<or> v \<noteq> ev_actor ev \<and> room_member p (mp_room_id m) v"
proof -
  let ?root = "thread_root_of (ev_id ev) m"
  let ?p1 = "p\<lparr>td_messageRefs := fmupd (ev_id ev) (mp_room_id m, ?root) (td_messageRefs p)\<rparr>"
  let ?p2 = "if mp_in_thread m = [] then addInteraction (ev_actor ev) (mp_room_id m) ?root ?p1 else ?p1"
  let ?others = "filter (\<lambda>u. u \<noteq> ev_actor ev) (room_members ?p2 (mp_room_id m))"
  let ?p3 = "fold (\<lambda>u. addInteraction u (mp_room_id m) ?root) ?others ?p2"
  have live: "\<not> mp_historical m \<and> mp_echo_of m = [] \<and> mp_echo_root m = []"
    and q: "applyMessageInteractionState ev m p =
      fold (\<lambda>u. addInteraction u (mp_room_id m) ?root) (directly_mentioned (ev_actor ev) m) ?p3"
    using assms by (auto simp: applyMessageInteractionState_def Let_def split: if_splits)
  have others: "v \<in> set ?others \<Longrightarrow> v \<noteq> ev_actor ev \<and> room_member p (mp_room_id m) v"
    by (auto simp: room_members_set room_member_def split: if_splits)
  have "fmlookup (td_interactions ?p3) (v, rt) = Some r
      \<or> v \<in> set (directly_mentioned (ev_actor ev) m) \<and> rt = ?root \<and> r = mp_room_id m"
    using fold_addInteraction_adds assms(1) unfolding q by blast
  then have "fmlookup (td_interactions ?p2) (v, rt) = Some r
      \<or> (v \<in> set ?others \<or> v \<in> set (directly_mentioned (ev_actor ev) m)) \<and> rt = ?root \<and> r = mp_room_id m"
    using fold_addInteraction_adds by blast
  moreover have "mp_in_thread m = [] \<and> v = ev_actor ev \<and> rt = ?root \<and> r = mp_room_id m"
    if "fmlookup (td_interactions ?p2) (v, rt) = Some r"
    using that assms(2) addInteraction_adds [of "ev_actor ev" "mp_room_id m" ?root ?p1 v rt r]
    by (auto split: if_splits)
  ultimately show "r = mp_room_id m" "rt = ?root"
    "mp_in_thread m = [] \<and> v = ev_actor ev \<or> v \<in> set (directly_mentioned (ev_actor ev) m)
     \<or> v \<noteq> ev_actor ev \<and> room_member p (mp_room_id m) v"
    using others by blast+
  show "\<not> mp_historical m \<and> mp_echo_of m = [] \<and> mp_echo_root m = []" by (rule live)
qed

text \<open>The three parts over the records of rooms and posts.\<close>

definition all_ok :: "(content_fact \<times> seq) list \<Rightarrow> threads \<Rightarrow> bool" where
  "all_ok log p \<longleftrightarrow> members_ok log p \<and> relationships_ok log p \<and> rooms_ok log p"

lemma all_ok_frame:
  assumes "all_ok log p" and "td_relations q = td_relations p" and "\<And>r b. room_exists_step r ev b = b"
  shows "all_ok (log @ [(ev, sq)]) q"
  using assms(1,3) members_mono [of log p "[(ev, sq)]"] relationships_mono [of log p "[(ev, sq)]"]
  unfolding all_ok_def relations_cong(3-5) [OF assms(2)] by (simp add: rooms_ok_def room_exists_snoc)

lemma post_all_ok:
  assumes "all_ok log p" and "posted_of ev = Some m"
  shows "all_ok (log @ [(ev, sq)]) (snd (apply_thread_post ev m sq p))"
proof (cases "isInteractionRoom p (mp_room_id m)")
  case False
  have "td_relations (snd (apply_thread_post ev m sq p)) = td_relations p"
    using False by (simp add: apply_thread_post_def Let_def relations_upd)
  then show ?thesis
    by (rule all_ok_frame [OF assms(1)]) (use assms(2) in \<open>auto simp: room_exists_step_def posted_of_def split: option.splits content_event.splits\<close>)
next
  case True
  let ?q = "applyMessageInteractionState ev m p" and ?log = "log @ [(ev, sq)]"
  have q: "td_relations (snd (apply_thread_post ev m sq p)) = td_relations ?q"
    using True by (simp add: apply_thread_post_def Let_def relations_upd)
  have rooms: "isInteractionRoom ?q r = isInteractionRoom p r" for r
    by (simp add: isInteractionRoom_def message_rooms)
  have still: "room_exists_step r ev b = b" for r b
    using assms(2) by (auto simp: room_exists_step_def posted_of_def split: option.splits content_event.splits)
  have "relationships_ok ?log ?q"
    unfolding relationships_ok_def
  proof (intro allI impI)
    fix u root room
    assume new: "fmlookup (td_interactions ?q) (u, root) = Some room"
    show "isInteractionRoom ?q room \<and> has_cause ?log u room root"
    proof (cases "fmlookup (td_interactions p) (u, root) = Some room")
      case True
      then show ?thesis
        using assms(1) rooms cause_mono by (auto simp: all_ok_def relationships_ok_def)
    next
      case False
      note r = message_relates [OF new False]
      have "room_member p (mp_room_id m) u \<Longrightarrow> joined_in log (mp_room_id m) u"
        using assms(1) by (auto simp: all_ok_def members_ok_def room_member_def)
      then have "relates log ev u room root"
        using r assms(2) by (auto simp: relates_def)
      then have "has_cause ?log u room root" unfolding has_cause_def by blast
      then show ?thesis using r(1) True rooms by simp
    qed
  qed
  then show ?thesis
    using assms(1) members_mono [of log p "[(ev, sq)]"] rooms
    unfolding all_ok_def relations_cong(3-5) [OF q]
    by (simp add: rooms_ok_def room_exists_snoc still members_ok_def message_rooms)
qed

lemma membership_all_ok:
  assumes "all_ok log p" and "\<And>r b. room_exists_step r ev b = b"
    and "\<And>ms v. v |\<in>| change ms \<Longrightarrow> v |\<in>| ms \<or>
      v = ev_actor ev \<and> payload_of ev = Some (DirectoryFact (UserJoinedRoom r))"
  shows "all_ok (log @ [(ev, sq)]) (snd (apply_membership r change p))"
proof (cases "fmlookup (td_dmRooms p) r")
  case None
  then show ?thesis
    using all_ok_frame [OF assms(1) refl assms(2)] by (simp add: apply_membership_def)
next
  case (Some ms)
  let ?q = "p\<lparr>td_dmRooms := fmupd r (change ms) (td_dmRooms p)\<rparr>" and ?log = "log @ [(ev, sq)]"
  have rooms: "isInteractionRoom ?q = isInteractionRoom p"
    using Some by (auto simp: isInteractionRoom_def fun_eq_iff)
  have old: "all_ok ?log p" by (rule all_ok_frame [OF assms(1) refl assms(2)])
  have dm: "created_dm log r" using assms(1) Some by (simp add: all_ok_def members_ok_def)
  have "joined_in ?log r v" if "v |\<in>| change ms" for v
  proof (cases "v |\<in>| ms")
    case True
    then show ?thesis using old Some by (simp add: all_ok_def members_ok_def)
  next
    case False
    then have "ev_actor ev = v \<and> payload_of ev = Some (DirectoryFact (UserJoinedRoom r))"
      using assms(3) [OF that] by simp
    moreover have "created_dm ?log r" by (rule created_mono [OF dm])
    ultimately show ?thesis unfolding joined_in_def created_dm_def by auto
  qed
  then have "members_ok ?log ?q"
    using old created_mono [OF dm] by (auto simp: all_ok_def members_ok_def)
  then show ?thesis
    using old rooms Some
    by (auto simp: apply_membership_def all_ok_def relationships_ok_def rooms_ok_def)
qed

lemma created_all_ok:
  assumes "all_ok log p" and pl: "payload_of ev = Some (DirectoryFact (RoomCreated c))"
  shows "all_ok (log @ [(ev, sq)]) (snd (apply_room_created c p))"
proof -
  let ?q = "snd (apply_room_created c p)" and ?log = "log @ [(ev, sq)]"
  have rooms: "isInteractionRoom ?q r \<longleftrightarrow> isInteractionRoom p r \<or>
      cr_room_id c = r \<and> r \<noteq> [] \<and> (cr_kind c = ROOM_KIND_CHANNEL \<or> cr_kind c = ROOM_KIND_DM)" for r
    by (auto simp: apply_room_created_def isInteractionRoom_def)
  have members: "members_ok ?log ?q"
    unfolding members_ok_def
  proof (intro allI impI)
    fix r ms assume dm: "fmlookup (td_dmRooms ?q) r = Some ms"
    show "created_dm ?log r \<and> (\<forall>u. u |\<in>| ms \<longrightarrow> joined_in ?log r u)"
    proof (cases "fmlookup (td_dmRooms p) r = Some ms")
      case True
      then show ?thesis
        using assms(1) members_mono by (auto simp: all_ok_def members_ok_def)
    next
      case False
      then have "cr_room_id c = r" "cr_kind c = ROOM_KIND_DM" "ms = {||}"
        using dm by (auto simp: apply_room_created_def split: if_splits)
      then show ?thesis using pl by (auto simp: created_dm_def)
    qed
  qed
  have "td_interactions ?q = td_interactions p" by (simp add: apply_room_created_def)
  then have "relationships_ok ?log ?q"
    using assms(1) rooms cause_mono unfolding all_ok_def relationships_ok_def by simp
  then show ?thesis
    using assms members rooms
    by (auto simp: all_ok_def rooms_ok_def room_exists_snoc room_exists_step_def)
qed

lemma deleted_all_ok:
  assumes "all_ok log p" and pl: "payload_of ev = Some (DirectoryFact (RoomDeleted d))"
  shows "all_ok (log @ [(ev, sq)]) (snd (apply_room_deleted d p))"
proof (cases "isInteractionRoom p d")
  case False
  then have "\<not> room_exists_in d log" using assms(1) by (simp add: all_ok_def rooms_ok_def)
  then have "room_exists_in r (log @ [(ev, sq)]) = room_exists_in r log" for r
    using pl by (auto simp: room_exists_snoc room_exists_step_def)
  then show ?thesis
    using False assms(1) members_mono relationships_mono by (simp add: apply_room_deleted_def all_ok_def rooms_ok_def)
next
  case True
  let ?q = "snd (apply_room_deleted d p)" and ?log = "log @ [(ev, sq)]"
  have "d \<noteq> []" using True assms(1) no_nameless_room by (auto simp: all_ok_def rooms_ok_def)
  then have rooms: "isInteractionRoom ?q r \<longleftrightarrow> isInteractionRoom p r \<and> r \<noteq> d" 
    and dms: "fmlookup (td_dmRooms ?q) r = (if r = d then None else fmlookup (td_dmRooms p) r)"
    and ints: "fmlookup (td_interactions ?q) k =
      (if fmlookup (td_interactions p) k = Some d then None else fmlookup (td_interactions p) k)" for r k
    using True by (auto simp: apply_room_deleted_def removeRoomInteractionState_def isInteractionRoom_def)
  have "members_ok ?log ?q"
    using members_mono [of log p] assms(1) by (simp add: all_ok_def members_ok_def dms)
  moreover have "relationships_ok ?log ?q"
    using relationships_mono [of log p] assms(1) by (auto simp: all_ok_def relationships_ok_def ints rooms)
  moreover have "rooms_ok ?log ?q"
    using assms by (auto simp: all_ok_def rooms_ok_def rooms room_exists_snoc room_exists_step_def)
  ultimately show ?thesis by (simp add: all_ok_def)
qed

lemma all_ok_step:
  assumes "all_ok log p"
  shows "all_ok (log @ [(ev, sq)]) (thread_step ev sq p)"
proof (cases "\<exists>e. payload_of ev = Some (DirectoryFact e)")
  case True
  then obtain e where pl: "payload_of ev = Some (DirectoryFact e)" by blast
  have step: "thread_step ev sq p = snd (apply_directory ev e p)"
    by (simp add: thread_step_def thread_switch_def pl)
  have still: "\<forall>c. e \<noteq> RoomCreated c \<Longrightarrow> \<forall>r. e \<noteq> RoomDeleted r \<Longrightarrow> room_exists_step r ev b = b" for r b
    by (simp add: room_exists_step_def pl split: room_event.split)
  show ?thesis
  proof (cases e)
    case (RoomCreated c)
    then show ?thesis using created_all_ok [OF assms] pl by (simp add: step apply_directory_def)
  next
    case (RoomDeleted d)
    then show ?thesis using deleted_all_ok [OF assms] pl by (simp add: step apply_directory_def)
  next
    case (UserJoinedRoom r)
    then show ?thesis
      unfolding step
      using membership_all_ok [OF assms still, of "finsert (ev_actor ev)" r sq] all_ok_frame [OF assms refl still]
      by (auto simp: apply_directory_def pl)
  next
    case (UserLeftRoom r)
    then show ?thesis
      unfolding step
      using membership_all_ok [OF assms still, of "\<lambda>ms. ms |-| {|ev_actor ev|}" r sq]
      by (auto simp: apply_directory_def)
  next
    case (RoomMemberBanned b)
    then show ?thesis
      unfolding step
      using membership_all_ok [OF assms still, of "\<lambda>ms. ms |-| {|mb_user_id b|}" "mb_room_id b" sq]
      by (auto simp: apply_directory_def)
  qed (use all_ok_frame [OF assms refl still] in \<open>simp_all add: step apply_directory_def\<close>)
next
  case False
  show ?thesis
  proof (cases "posted_of ev")
    case None
    have "room_exists_step r ev b = b" for r b
      using False by (auto simp: room_exists_step_def split: option.split content_event.split)
    then show ?thesis using all_ok_frame [OF assms step_relations] False None by blast
  next
    case (Some m)
    then have "payload_of ev = Some (MessagePosted m)"
      by (auto simp: posted_of_def split: option.splits content_event.splits)
    then show ?thesis using post_all_ok [OF assms Some] by (simp add: thread_step_def thread_switch_def)
  qed
qed

lemma relationships_of_log: "all_ok log (threads_of log)"
proof (induction log rule: rev_induct)
  case Nil
  show ?case
    by (simp add: all_ok_def members_ok_def relationships_ok_def rooms_ok_def NewThreadProjection_def
        isInteractionRoom_def room_exists_in_def)
next
  case (snoc x log)
  then show ?case using all_ok_step [of log _ "fst x" "snd x"] by (cases x) (simp add: reduce_log_append)
qed

text \<open>A relationship with a thread, which makes its messages count as missed by an account,
  always has a cause and a place: the room it names exists at the end of the log, and the
  log has a post in that thread, not imported and no echo, that the account wrote as the
  root, that mentions it directly, or that another account wrote in a direct message the
  account had joined before.\<close>

theorem relationships_have_a_cause:
  assumes "clean_log (startup @ live)"
    and "replayed Threads_Apply Threads_CompleteStartupReplay startup live NewThreadProjection = Some p"
    and "HasInteraction p u room root"
  shows "room_exists_in room (startup @ live) \<and> has_cause (startup @ live) u room root"
proof -
  obtain g where p: "p = set_td_guard g (threads_of (startup @ live))"
    by (rule replayed_threads [OF assms(1,2)])
  have "fmlookup (td_interactions (threads_of (startup @ live))) (u, root) = Some room"
    using assms(3) by (simp add: HasInteraction_def p)
  then show ?thesis
    using relationships_of_log [of "startup @ live"] by (auto simp: all_ok_def relationships_ok_def rooms_ok_def)
qed

end
