(* ===== verification/Threads_Witnesses.thy ===== *)
theory Threads_Witnesses
  imports Threads_Follows
begin

text \<open>Small logs on which the properties of the threads apply.\<close>

definition td_fact :: "string \<Rightarrow> string \<Rightarrow> content_event \<Rightarrow> content_fact" where
  "td_fact i actor e = \<lparr>ev_id = i, ev_actor = actor, ev_created_at = Some 10,
     ev_payload = Some \<lparr>ct_event = e, ct_hidden = False\<rparr>\<rparr>"

definition td_post :: "string \<Rightarrow> content_event" where
  "td_post thread = MessagePosted \<lparr>mp_room_id = ''R'', mp_in_thread = thread, mp_echo_of = [],
     mp_echo_root = [], mp_author_id = [], mp_historical = False, mp_mentions = []\<rparr>"

text \<open>Two replies, the second by an account then erased; a follow; a direct message.\<close>

definition thread_log :: "(content_fact \<times> seq) list" where
  "thread_log =
     [(td_fact ''A'' ''U'' (td_post ''M''), 1), (td_fact ''B'' ''V'' (td_post ''M''), 2),
      (td_fact ''X'' [] (UserKeyShredded ''V''), 3)]"

definition follow_log :: "(content_fact \<times> seq) list" where
  "follow_log = [(td_fact ''F'' ''U'' (ThreadFollowed ''U'' ''R'' ''M''), 1)]"

definition dm_log :: "(content_fact \<times> seq) list" where
  "dm_log =
     [(td_fact ''D'' ''U'' (DirectoryFact (RoomCreated
         \<lparr>cr_room_id = ''R'', cr_name = [], cr_description = [], cr_purpose = [], cr_kind = ROOM_KIND_DM,
          cr_universal = False, cr_threading_mode = 0\<rparr>)), 1),
      (td_fact ''J'' ''V'' (DirectoryFact (UserJoinedRoom ''R'')), 2),
      (td_fact ''M'' ''U'' (td_post []), 3)]"

lemma thread_logs_clean:
  "clean_log ([] @ thread_log)" "clean_log (follow_log @ [])" "clean_log (dm_log @ [])"
  by code_simp+

lemma threads_go_live:
  assumes "clean_log (startup @ live)"
  obtains p g where "replayed Threads_Apply Threads_CompleteStartupReplay startup live
      NewThreadProjection = Some p" and "p = set_td_guard g (threads_of (startup @ live))"
  using threads.run_clean [OF _ assms, of NewThreadProjection]
  by (auto simp: NewThreadProjection_def)

lemma thread_summary_exact_witness:
  "\<exists>p. replayed Threads_Apply Threads_CompleteStartupReplay [] thread_log NewThreadProjection = Some p
     \<and> ReplyCount p ''M'' = 1 \<and> tm_latest (Threads_Metadata p ''M'' []) = ''A''"
proof -
  obtain p g where r: "replayed Threads_Apply Threads_CompleteStartupReplay [] thread_log
      NewThreadProjection = Some p"
    by (rule threads_go_live [OF thread_logs_clean(1)])
  have "map th_event (visible_replies ''M'' ([] @ thread_log)) = [''A'']" by code_simp
  then have "length (visible_replies ''M'' ([] @ thread_log)) = 1"
    "th_event (last (visible_replies ''M'' ([] @ thread_log))) = ''A''"
    "visible_replies ''M'' ([] @ thread_log) \<noteq> []" by auto
  with thread_summary_exact [OF thread_logs_clean(1) r, where root = "''M''" and rootAuthor = "[]"] r
  show ?thesis by (simp add: Let_def)
qed

lemma thread_participants_exact_witness:
  "\<exists>p. replayed Threads_Apply Threads_CompleteStartupReplay [] thread_log NewThreadProjection = Some p
     \<and> ParticipantIDs p ''M'' ''W'' = [''W'', ''U'']"
proof -
  obtain p g where r: "replayed Threads_Apply Threads_CompleteStartupReplay [] thread_log
      NewThreadProjection = Some p" and p: "p = set_td_guard g (threads_of ([] @ thread_log))"
    by (rule threads_go_live [OF thread_logs_clean(1)])
  have "ThreadExists (threads_of thread_log) ''M''" by code_simp
  then have e: "ThreadExists p ''M''" by (simp add: p)
  have "thread_people ''W'' ''M'' ([] @ thread_log) = [''W'', ''U'']" by code_simp
  with thread_participants_exact [OF thread_logs_clean(1) r e, where rootAuthor = "''W''"] r
  show ?thesis by (simp add: Let_def)
qed


lemma follow_indexes_exact_witness:
  "\<exists>p. replayed Threads_Apply Threads_CompleteStartupReplay follow_log [] NewThreadProjection = Some p
     \<and> set (ThreadFollowers p ''R'' ''M'') = {u. FollowState p u ''R'' ''M'' = Following}
     \<and> FollowState p ''U'' ''R'' ''M'' = Following"
proof -
  obtain p g where r: "replayed Threads_Apply Threads_CompleteStartupReplay follow_log []
      NewThreadProjection = Some p"
    by (rule threads_go_live [OF thread_logs_clean(2)])
  have "last_follow (follow_log @ []) (''U'', ''R'', ''M'') = Following" by code_simp
  with follow_indexes_exact [OF thread_logs_clean(2) r, where room = "''R''" and root = "''M''" and u = "''U''"] r
  show ?thesis by simp
qed

lemma relationships_have_a_cause_witness:
  "\<exists>p. replayed Threads_Apply Threads_CompleteStartupReplay dm_log [] NewThreadProjection = Some p
     \<and> HasInteraction p ''V'' ''R'' ''M'' \<and> has_cause dm_log ''V'' ''R'' ''M''"
proof -
  obtain p g where r: "replayed Threads_Apply Threads_CompleteStartupReplay dm_log []
      NewThreadProjection = Some p" and p: "p = set_td_guard g (threads_of (dm_log @ []))"
    by (rule threads_go_live [OF thread_logs_clean(3)])
  have "HasInteraction (threads_of dm_log) ''V'' ''R'' ''M''" by code_simp
  then have h: "HasInteraction p ''V'' ''R'' ''M''" by (simp add: HasInteraction_def p)
  from relationships_have_a_cause [OF thread_logs_clean(3) r h] r h show ?thesis by simp
qed

end
