(* ===== verification/Content_Keys.thy ===== *)
theory Content_Keys
  imports User_Accounts Content_Contract
begin

text \<open>
  The wrapped data-encryption keys of every account (\<open>content_key_projection.go\<close>) and their
  snapshot (\<open>content_key_projection_snapshot.go\<close>). Accounts stand for their handles; the
  table that shares equal algorithm names is memory only and left out. Erasing an account
  drops its keys for good: what they encrypted can never be read again.
\<close>

section \<open>The state\<close>

type_synonym purpose_id = "string \<times> int"

record key_record =
  kr_content_key_ref :: string
  kr_wrapping_key_ref :: string
  kr_wrapping_algorithm :: string
  kr_wrapping_metadata :: string

record content_keys =
  ck_keys :: "(purpose_id \<times> i32, key_record) fmap"
  ck_active :: "(purpose_id, i32) fmap"
  ck_shredded :: "string fset"
  ck_guard :: replay_guard

definition NewContentKeyProjection :: content_keys where
  "NewContentKeyProjection =
     \<lparr>ck_keys = fmempty, ck_active = fmempty, ck_shredded = {||}, ck_guard = newProjectionReplayGuard\<rparr>"

section \<open>Apply\<close>

definition record_of_key :: "dek_generated \<Rightarrow> key_record" where
  "record_of_key e =
     \<lparr>kr_content_key_ref = dg_content_key_ref e, kr_wrapping_key_ref = dg_wrapping_key_ref e,
      kr_wrapping_algorithm = dg_wrapping_algorithm e, kr_wrapping_metadata = dg_wrapping_metadata e\<rparr>"

definition key_event :: "key_record \<Rightarrow> string \<Rightarrow> int \<Rightarrow> i32 \<Rightarrow> dek_generated" where
  "key_event r userID purpose epoch =
     \<lparr>dg_user_id = userID, dg_purpose = purpose, dg_epoch = epoch,
      dg_content_key_ref = kr_content_key_ref r, dg_wrapping_key_ref = kr_wrapping_key_ref r,
      dg_wrapping_algorithm = kr_wrapping_algorithm r, dg_wrapping_metadata = kr_wrapping_metadata r\<rparr>"

text \<open>An epoch that is not stored is zero.\<close>

definition active_epoch :: "content_keys \<Rightarrow> purpose_id \<Rightarrow> i32" where
  "active_epoch p pid = (case fmlookup (ck_active p) pid of None \<Rightarrow> 0 | Some e \<Rightarrow> e)"

definition clearUser :: "string \<Rightarrow> content_keys \<Rightarrow> content_keys" where
  "clearUser userID p =
     (if userID = [] then p
      else p\<lparr>ck_keys := fmfilter (\<lambda>((u, pu), e). u \<noteq> userID) (ck_keys p),
             ck_active := fmfilter (\<lambda>(u, pu). u \<noteq> userID) (ck_active p),
             ck_shredded := finsert userID (ck_shredded p)\<rparr>)"

definition keys_applyDEKGenerated :: "dek_generated \<Rightarrow> content_keys \<Rightarrow> content_keys" where
  "keys_applyDEKGenerated e p =
     (if dg_user_id e = [] \<or> sint (dg_epoch e) \<le> 0 \<or> dg_content_key_ref e = [] then p
      else if dg_user_id e |\<in>| ck_shredded p then p
      else
        (let pid = (dg_user_id e, dg_purpose e);
             k = (pid, dg_epoch e);
             p1 = (if fmlookup (ck_keys p) k = None
                   then p\<lparr>ck_keys := fmupd k (record_of_key e) (ck_keys p)\<rparr> else p)
         in if sint (active_epoch p1 pid) < sint (dg_epoch e)
            then p1\<lparr>ck_active := fmupd pid (dg_epoch e) (ck_active p1)\<rparr> else p1))"

definition keys_switch :: "user_event event \<Rightarrow> content_keys \<Rightarrow> content_keys" where
  "keys_switch ev p =
     (case ev_payload ev of
        Some (UserDekGenerated e) \<Rightarrow> keys_applyDEKGenerated e p
      | Some (UserKeyShreddingRequested u) \<Rightarrow> clearUser u p
      | Some (UserKeyShredded u) \<Rightarrow> clearUser u p
      | _ \<Rightarrow> p)"

definition ContentKeys_Apply :: "content_keys \<Rightarrow> user_event event option \<Rightarrow> seq \<Rightarrow> content_keys option" where
  "ContentKeys_Apply p event sq =
     (case event of
        None \<Rightarrow> Some p
      | Some ev \<Rightarrow>
          (case guard_seenOrMark (ck_guard p) ev sq of
             None \<Rightarrow> None
           | Some (seen, g) \<Rightarrow>
               (let p1 = p\<lparr>ck_guard := g\<rparr> in Some (if seen then p1 else keys_switch ev p1))))"

definition ContentKeys_CompleteStartupReplay :: "content_keys \<Rightarrow> content_keys" where
  "ContentKeys_CompleteStartupReplay p = p\<lparr>ck_guard := guard_completeReplay (ck_guard p)\<rparr>"

section \<open>Reads\<close>

definition getKey :: "content_keys \<Rightarrow> string \<Rightarrow> int \<Rightarrow> i32 \<Rightarrow> dek_generated option" where
  "getKey p userID purpose epoch =
     map_option (\<lambda>r. key_event r userID purpose epoch) (fmlookup (ck_keys p) ((userID, purpose), epoch))"

text \<open>Keys from before purposes existed serve every purpose.\<close>

definition ContentKeys_Active :: "content_keys \<Rightarrow> string \<Rightarrow> int \<Rightarrow> dek_generated option" where
  "ContentKeys_Active p userID purpose =
     (let epoch = active_epoch p (userID, purpose) in
      if 0 < sint epoch then getKey p userID purpose epoch
      else if purpose = DEK_PURPOSE_UNSPECIFIED then None
      else (let legacy = active_epoch p (userID, DEK_PURPOSE_UNSPECIFIED) in
            if sint legacy \<le> 0 then None else getKey p userID DEK_PURPOSE_UNSPECIFIED legacy))"

definition ContentKeys_Get :: "content_keys \<Rightarrow> string \<Rightarrow> int \<Rightarrow> i32 \<Rightarrow> dek_generated option" where
  "ContentKeys_Get p userID purpose epoch =
     (case getKey p userID purpose epoch of
        Some e \<Rightarrow> Some e
      | None \<Rightarrow> if purpose = DEK_PURPOSE_UNSPECIFIED then None
                else getKey p userID DEK_PURPOSE_UNSPECIFIED epoch)"

section \<open>The snapshot\<close>

record content_key_snapshot =
  kn_guard :: "guard_snapshot option"
  kn_shredded :: "string list"
  kn_keys :: "dek_generated list"

definition empty_key_snapshot :: content_key_snapshot where
  "empty_key_snapshot = \<lparr>kn_guard = None, kn_shredded = [], kn_keys = []\<rparr>"

text \<open>The keys by account, purpose and epoch, the epoch as a signed number.\<close>

definition sorted_key_ids :: "content_keys \<Rightarrow> (purpose_id \<times> i32) list" where
  "sorted_key_ids p = sort_key (\<lambda>(pid, e). (pid, sint e)) (sortedMapKeys (ck_keys p))"

definition key_snapshot_message :: "content_keys \<Rightarrow> content_key_snapshot" where
  "key_snapshot_message p =
     \<lparr>kn_guard = Some (snapshotReplayGuard (ck_guard p)),
      kn_shredded = sorted_list_of_fset (ck_shredded p),
      kn_keys = map (\<lambda>((u, pu), e). key_event (the (fmlookup (ck_keys p) ((u, pu), e))) u pu e)
                  (sorted_key_ids p)\<rparr>"

definition ContentKeys_Snapshot ::
  "(content_key_snapshot \<Rightarrow> 8 word list option) \<Rightarrow> content_keys \<Rightarrow> 8 word list option" where
  "ContentKeys_Snapshot marshal p = marshal (key_snapshot_message p)"

datatype key_restore_error =
  KeyUnmarshalFailed
| KeyGuardRejected guard_error
| EmptyShreddedUser
| RepeatedShreddedUser string
| InvalidKey
| RepeatedKey "purpose_id \<times> i32"

definition restore_shredded :: "string \<Rightarrow> string fset \<Rightarrow> key_restore_error + string fset" where
  "restore_shredded u s =
     (if u = [] then Inl EmptyShreddedUser
      else if u |\<in>| s then Inl (RepeatedShreddedUser u)
      else Inr (finsert u s))"

text \<open>The identities seen so far and the projection being built.\<close>

definition restore_key ::
  "dek_generated \<Rightarrow> (purpose_id \<times> i32) fset \<times> content_keys
     \<Rightarrow> key_restore_error + (purpose_id \<times> i32) fset \<times> content_keys" where
  "restore_key key acc =
     (case acc of (seen, p) \<Rightarrow>
        (let k = ((dg_user_id key, dg_purpose key), dg_epoch key) in
         if dg_user_id key = [] \<or> sint (dg_epoch key) \<le> 0 \<or> dg_content_key_ref key = [] then Inl InvalidKey
         else if k |\<in>| seen then Inl (RepeatedKey k)
         else Inr (finsert k seen, keys_applyDEKGenerated key p)))"

definition restore_key_message :: "content_key_snapshot \<Rightarrow> key_restore_error + content_keys" where
  "restore_key_message s =
     (case restoreReplayGuard (kn_guard s) of
        Inl e \<Rightarrow> Inl (KeyGuardRejected e)
      | Inr g \<Rightarrow>
          (case fold_res restore_shredded (kn_shredded s) {||} of
             Inl e \<Rightarrow> Inl e
           | Inr shredded \<Rightarrow>
               (case fold_res restore_key (kn_keys s)
                       ({||}, NewContentKeyProjection\<lparr>ck_guard := g, ck_shredded := shredded\<rparr>) of
                  Inl e \<Rightarrow> Inl e
                | Inr (seen, p) \<Rightarrow> Inr p)))"

text \<open>A restore that fails leaves the projection as it was.\<close>

definition ContentKeys_Restore ::
  "(8 word list \<Rightarrow> content_key_snapshot option) \<Rightarrow> 8 word list \<Rightarrow> content_keys
     \<Rightarrow> key_restore_error option \<times> content_keys" where
  "ContentKeys_Restore unmarshal data p =
     (case (if data = [] then Some empty_key_snapshot else unmarshal data) of
        None \<Rightarrow> (Some KeyUnmarshalFailed, p)
      | Some s \<Rightarrow>
          (case restore_key_message s of
             Inl e \<Rightarrow> (Some e, p)
           | Inr q \<Rightarrow> (None, q)))"

end
