(* ===== verification/Content_Keys_Properties.thy ===== *)
theory Content_Keys_Properties
  imports Content_Keys
begin

text \<open>
  What the projection of content keys promises: it holds the first key of every epoch the log
  generated, the newest epoch is the active one, an erased account has no key and never gets
  one again, and a snapshot restores the state.
\<close>

section \<open>The contract of a guarded projection\<close>

definition set_ck_guard :: "replay_guard \<Rightarrow> content_keys \<Rightarrow> content_keys" where
  "set_ck_guard g p = p\<lparr>ck_guard := g\<rparr>"

lemma set_ck_guard_sel [simp]:
  "ck_keys (set_ck_guard g p) = ck_keys p" "ck_active (set_ck_guard g p) = ck_active p"
  "ck_shredded (set_ck_guard g p) = ck_shredded p" "ck_guard (set_ck_guard g p) = g"
  by (simp_all add: set_ck_guard_def)

lemma ck_guard_ops [keeps_guard]:
  "clearUser u (set_ck_guard g p) = set_ck_guard g (clearUser u p)"
  "keys_applyDEKGenerated e (set_ck_guard g p) = set_ck_guard g (keys_applyDEKGenerated e p)"
  by (simp_all add: clearUser_def keys_applyDEKGenerated_def active_epoch_def Let_def set_ck_guard_def)

lemma keys_switch_guard: "keys_switch ev (set_ck_guard g p) = set_ck_guard g (keys_switch ev p)"
  by (cases "ev_payload ev"; cases "the (ev_payload ev)") (simp_all add: keys_switch_def keeps_guard)

section \<open>The invariant\<close>

text \<open>The newest epoch of a purpose, epochs compared as signed numbers.\<close>

definition newest :: "(purpose_id \<times> i32, key_record) fmap \<Rightarrow> purpose_id \<Rightarrow> i32 \<Rightarrow> bool" where
  "newest m pid e \<longleftrightarrow>
     fmlookup m (pid, e) \<noteq> None \<and> (\<forall>e'. fmlookup m (pid, e') \<noteq> None \<longrightarrow> sint e' \<le> sint e)"

definition slot_ok :: "(purpose_id \<times> i32, key_record) fmap \<Rightarrow> (purpose_id, i32) fmap \<Rightarrow> purpose_id \<Rightarrow> bool" where
  "slot_ok m a pid \<longleftrightarrow>
     (case fmlookup a pid of
        None \<Rightarrow> (\<forall>e. fmlookup m (pid, e) = None)
      | Some e \<Rightarrow> newest m pid e)"

definition active_ok :: "(purpose_id \<times> i32, key_record) fmap \<Rightarrow> (purpose_id, i32) fmap \<Rightarrow> bool" where
  "active_ok m a \<longleftrightarrow> (\<forall>pid. slot_ok m a pid)"

lemma slot_cong:
  assumes "fmlookup a pid = fmlookup b pid"
    and "\<And>e. (fmlookup m (pid, e) = None) = (fmlookup n (pid, e) = None)"
  shows "slot_ok m a pid = slot_ok n b pid"
  by (simp only: slot_ok_def newest_def assms)

definition key_ok :: "string fset \<Rightarrow> purpose_id \<times> i32 \<Rightarrow> key_record \<Rightarrow> bool" where
  "key_ok S k r \<longleftrightarrow>
     fst (fst k) \<noteq> [] \<and> 0 < sint (snd k) \<and> kr_content_key_ref r \<noteq> [] \<and> fst (fst k) |\<notin>| S"

definition ck_wf :: "content_keys \<Rightarrow> bool" where
  "ck_wf p \<longleftrightarrow> fmpred (key_ok (ck_shredded p)) (ck_keys p) \<and> active_ok (ck_keys p) (ck_active p)
     \<and> [] |\<notin>| ck_shredded p"

lemma newest_unique: "newest m pid e \<Longrightarrow> newest m pid e' \<Longrightarrow> e = e'"
  unfolding newest_def by (metis order_antisym signed_word_eqI)

lemma active_ok_unique:
  assumes "active_ok m a" and "active_ok m b"
  shows "a = b"
proof (rule fmap_eqI)
  fix pid
  show "fmlookup a pid = fmlookup b pid"
    using assms [unfolded active_ok_def, THEN spec [of _ pid]] newest_unique [of m pid]
    by (auto simp: slot_ok_def newest_def split: option.splits)
qed

lemma active_epoch_ok:
  assumes "active_ok (ck_keys p) (ck_active p)" and "fmpred (key_ok S) (ck_keys p)"
  shows "0 < sint (active_epoch p pid) \<Longrightarrow> newest (ck_keys p) pid (active_epoch p pid)"
    and "sint (active_epoch p pid) \<le> 0 \<Longrightarrow> fmlookup (ck_keys p) (pid, e) = None"
  using assms(1) [unfolded active_ok_def, THEN spec [of _ pid]] assms(2)
  by (auto simp: slot_ok_def active_epoch_def newest_def key_ok_def dest: fmpredD split: option.splits)

lemma ck_wf_new: "ck_wf NewContentKeyProjection"
  by (simp add: ck_wf_def NewContentKeyProjection_def active_ok_def slot_ok_def)

lemma ck_wf_clear:
  assumes "ck_wf p"
  shows "ck_wf (clearUser u p)"
proof (cases "u = []")
  case False
  have "slot_ok (ck_keys (clearUser u p)) (ck_active (clearUser u p)) pid" for pid
  proof (cases "fst pid = u")
    case True
    then show ?thesis using False by (cases pid) (simp add: slot_ok_def clearUser_def)
  next
    case other: False
    have "slot_ok (ck_keys p) (ck_active p) pid" using assms unfolding ck_wf_def active_ok_def by blast
    moreover have "slot_ok (ck_keys (clearUser u p)) (ck_active (clearUser u p)) pid
        = slot_ok (ck_keys p) (ck_active p) pid"
      using other by (intro slot_cong; cases pid) (simp_all add: clearUser_def)
    ultimately show ?thesis by simp
  qed
  then have "active_ok (ck_keys (clearUser u p)) (ck_active (clearUser u p))"
    by (simp add: active_ok_def)
  moreover have "fmpred (key_ok (ck_shredded (clearUser u p))) (ck_keys (clearUser u p))"
    using assms False by (auto simp: ck_wf_def clearUser_def key_ok_def fmpred_iff split: if_splits)
  ultimately show ?thesis
    using assms False by (simp add: ck_wf_def) (simp add: clearUser_def)
qed (use assms in \<open>simp add: clearUser_def\<close>)

text \<open>What a generated key changes.\<close>

definition valid_key :: "dek_generated \<Rightarrow> bool" where
  "valid_key e \<longleftrightarrow> dg_user_id e \<noteq> [] \<and> 0 < sint (dg_epoch e) \<and> dg_content_key_ref e \<noteq> []"

definition id_of_key :: "dek_generated \<Rightarrow> purpose_id \<times> i32" where
  "id_of_key e = ((dg_user_id e, dg_purpose e), dg_epoch e)"

definition add_key :: "dek_generated \<Rightarrow> (purpose_id \<times> i32, key_record) fmap \<Rightarrow> (purpose_id \<times> i32, key_record) fmap" where
  "add_key e m = (if fmlookup m (id_of_key e) = None then fmupd (id_of_key e) (record_of_key e) m else m)"

lemma generated_keys:
  "ck_keys (keys_applyDEKGenerated e p) =
     (if valid_key e \<and> dg_user_id e |\<notin>| ck_shredded p then add_key e (ck_keys p) else ck_keys p)"
  "ck_shredded (keys_applyDEKGenerated e p) = ck_shredded p"
  by (auto simp: keys_applyDEKGenerated_def valid_key_def add_key_def id_of_key_def Let_def)

lemma ck_wf_generated:
  assumes "ck_wf p"
  shows "ck_wf (keys_applyDEKGenerated e p)"
proof (cases "valid_key e \<and> dg_user_id e |\<notin>| ck_shredded p")
  case True
  let ?q = "keys_applyDEKGenerated e p" and ?pid = "(dg_user_id e, dg_purpose e)"
  have keys: "ck_keys ?q = add_key e (ck_keys p)" using True by (simp add: generated_keys)
  have act: "ck_active ?q =
      (if sint (active_epoch p ?pid) < sint (dg_epoch e) then fmupd ?pid (dg_epoch e) (ck_active p) else ck_active p)"
    using True by (auto simp: keys_applyDEKGenerated_def valid_key_def active_epoch_def Let_def)
  have ok: "active_ok (ck_keys p) (ck_active p)" "fmpred (key_ok (ck_shredded p)) (ck_keys p)"
    using assms by (auto simp: ck_wf_def)
  have dom: "fmlookup (ck_keys ?q) k \<noteq> None \<longleftrightarrow> fmlookup (ck_keys p) k \<noteq> None \<or> k = (?pid, dg_epoch e)" for k
    by (auto simp: keys add_key_def id_of_key_def)
  have "slot_ok (ck_keys ?q) (ck_active ?q) pid" for pid
  proof (cases "pid = ?pid")
    case False
    have "slot_ok (ck_keys p) (ck_active p) pid" using ok(1) unfolding active_ok_def by blast
    moreover have "(fmlookup (ck_keys ?q) (pid, e') = None) = (fmlookup (ck_keys p) (pid, e') = None)" for e'
      using dom [of "(pid, e')"] False by blast
    then have "slot_ok (ck_keys ?q) (ck_active ?q) pid = slot_ok (ck_keys p) (ck_active p) pid"
      using False by (intro slot_cong) (simp_all add: act)
    ultimately show ?thesis by simp
  next
    case same: True
    show ?thesis
    proof (cases "sint (active_epoch p ?pid) < sint (dg_epoch e)")
      case True
      have "sint e' \<le> sint (dg_epoch e)" if "fmlookup (ck_keys p) (?pid, e') \<noteq> None" for e'
      proof (cases "0 < sint (active_epoch p ?pid)")
        case pos: True
        then have "sint e' \<le> sint (active_epoch p ?pid)"
          using active_epoch_ok(1) [OF ok pos] that by (simp add: newest_def)
        then show ?thesis using True by simp
      next
        case False
        then show ?thesis using active_epoch_ok(2) [OF ok, of ?pid e'] that by simp
      qed
      then show ?thesis using True dom by (auto simp: act same slot_ok_def newest_def)
    next
      case False
      then have pos: "0 < sint (active_epoch p ?pid)" using \<open>valid_key e \<and> _\<close> by (simp add: valid_key_def)
      then obtain a where a: "fmlookup (ck_active p) ?pid = Some a" "active_epoch p ?pid = a"
        by (auto simp: active_epoch_def split: option.splits)
      then show ?thesis
        using active_epoch_ok(1) [OF ok pos] False dom by (auto simp: act same slot_ok_def newest_def)
    qed
  qed
  then have "active_ok (ck_keys ?q) (ck_active ?q)" by (simp add: active_ok_def)
  moreover have "fmpred (key_ok (ck_shredded ?q)) (ck_keys ?q)"
    using ok(2) True
    by (auto simp: generated_keys add_key_def id_of_key_def key_ok_def valid_key_def record_of_key_def fmpred_iff
        split: if_splits)
  ultimately show ?thesis using assms by (simp add: ck_wf_def generated_keys)
next
  case False
  then have "keys_applyDEKGenerated e p = p"
    by (auto simp: keys_applyDEKGenerated_def valid_key_def)
  then show ?thesis using assms by simp
qed

lemma ck_wf_switch: "ck_wf p \<Longrightarrow> ck_wf (keys_switch ev p)"
  by (cases "ev_payload ev"; cases "the (ev_payload ev)") (simp_all add: keys_switch_def ck_wf_clear ck_wf_generated)

lemma ck_wf_set_guard: "ck_wf (set_ck_guard g p) = ck_wf p"
  by (simp add: ck_wf_def)

section \<open>The snapshot\<close>

lemma set_sorted_key_ids: "set (sorted_key_ids p) = fset (fmdom (ck_keys p))" "distinct (sorted_key_ids p)"
  by (simp_all add: sorted_key_ids_def)

lemma key_event_simps [simp]:
  "record_of_key (key_event r u pu e) = r" "id_of_key (key_event r u pu e) = ((u, pu), e)"
  "dg_user_id (key_event r u pu e) = u"
  by (simp_all add: record_of_key_def key_event_def id_of_key_def)

lemma valid_key_event: "key_ok S ((u, pu), e) r \<Longrightarrow> valid_key (key_event r u pu e) \<and> u |\<notin>| S"
  by (simp add: key_ok_def valid_key_def key_event_def)

text \<open>The rows of a well-formed map, added one after the other, rebuild it.\<close>

lemma restore_rows:
  assumes "fmpred (key_ok (ck_shredded q)) m" and "distinct ks" and "set ks \<subseteq> fset (fmdom m)"
    and "fset seen \<inter> set ks = {}" and "\<And>k. k \<in> set ks \<Longrightarrow> fmlookup (ck_keys q) k = None" and "ck_wf q"
  shows "\<exists>seen' q'. fold_res restore_key (map (\<lambda>((u, pu), e). key_event (the (fmlookup m ((u, pu), e))) u pu e) ks)
      (seen, q) = Inr (seen', q') \<and> ck_wf q' \<and> ck_shredded q' = ck_shredded q \<and> ck_guard q' = ck_guard q
      \<and> (\<forall>k. fmlookup (ck_keys q') k = (if k \<in> set ks then fmlookup m k else fmlookup (ck_keys q) k))"
  using assms
proof (induction ks arbitrary: seen q)
  case (Cons k ks)
  obtain u pu e where k: "k = ((u, pu), e)" by (metis prod.exhaust)
  obtain r where r: "fmlookup m k = Some r" using Cons.prems(3) by (auto simp: fmlookup_dom_iff)
  let ?ev = "key_event r u pu e"
  let ?q = "keys_applyDEKGenerated ?ev q"
  have ok: "valid_key ?ev" "u |\<notin>| ck_shredded q"
    using valid_key_event fmpredD [OF Cons.prems(1) r] by (auto simp: k)
  have keys: "ck_keys ?q = fmupd k r (ck_keys q)"
    using ok Cons.prems(5) [of k] by (simp add: generated_keys add_key_def k)
  have step: "restore_key ?ev (seen, q) = Inr (finsert k seen, ?q)"
    using ok(1) Cons.prems(4) by (auto simp: restore_key_def valid_key_def key_event_def k)
  have same: "ck_shredded ?q = ck_shredded q" "ck_guard ?q = ck_guard q"
    by (simp_all add: generated_keys) (simp add: keys_applyDEKGenerated_def Let_def)
  have "\<exists>seen' q'. fold_res restore_key (map (\<lambda>((u, pu), e). key_event (the (fmlookup m ((u, pu), e))) u pu e) ks)
      (finsert k seen, ?q) = Inr (seen', q') \<and> ck_wf q' \<and> ck_shredded q' = ck_shredded ?q \<and> ck_guard q' = ck_guard ?q
      \<and> (\<forall>x. fmlookup (ck_keys q') x = (if x \<in> set ks then fmlookup m x else fmlookup (ck_keys ?q) x))"
    using Cons.prems by (intro Cons.IH) (auto simp: same keys ck_wf_generated)
  then show ?case
    using step r Cons.prems(2) unfolding same keys by (auto simp: k)
qed (auto intro: exI)

lemma restore_key_snapshot:
  assumes "ck_wf p" and "guard_ok (ck_guard p)" and "replayComplete (ck_guard p)"
  shows "restore_key_message (key_snapshot_message p) = Inr p"
proof -
  have guard: "restoreReplayGuard (Some (snapshotReplayGuard (ck_guard p))) = Inr (ck_guard p)"
    using restore_snapshot_guard [OF assms(2)] assms(3) by simp
  have erased: "fold_res restore_shredded (sorted_list_of_fset (ck_shredded p)) {||} = Inr (ck_shredded p)"
  proof -
    have "fold_res restore_shredded us S = Inr (fset_of_list us |\<union>| S)"
      if "distinct us" "[] \<notin> set us" "set us \<inter> fset S = {}" for us S
      using that by (induction us arbitrary: S) (auto simp: restore_shredded_def)
    then show ?thesis
      using assms(1) by (simp add: ck_wf_def sorted_list_of_fset.rep_eq fset_of_list.abs_eq fset_inverse eq_onp_same_args)
  qed
  define q0 where "q0 = NewContentKeyProjection\<lparr>ck_guard := ck_guard p, ck_shredded := ck_shredded p\<rparr>"
  have q0: "ck_keys q0 = fmempty" "ck_shredded q0 = ck_shredded p" "ck_guard q0 = ck_guard p"
    by (simp_all add: q0_def NewContentKeyProjection_def)
  have wf: "ck_wf q0"
    using assms(1) ck_wf_new by (simp add: ck_wf_def q0) (simp add: q0_def NewContentKeyProjection_def)
  have keys: "fmpred (key_ok (ck_shredded q0)) (ck_keys p)" using assms(1) by (simp add: ck_wf_def q0)
  from restore_rows [OF keys set_sorted_key_ids(2) [of p], of "{||}"] wf obtain seen q where
    q: "fold_res restore_key (map (\<lambda>((u, pu), e). key_event (the (fmlookup (ck_keys p) ((u, pu), e))) u pu e)
          (sorted_key_ids p)) ({||}, q0) = Inr (seen, q)"
      "ck_wf q" "ck_shredded q = ck_shredded p" "ck_guard q = ck_guard p"
      "\<And>k. fmlookup (ck_keys q) k = (if k \<in> fset (fmdom (ck_keys p)) then fmlookup (ck_keys p) k else None)"
    unfolding set_sorted_key_ids q0 by fastforce
  have "ck_keys q = ck_keys p" by (rule fmap_eqI) (simp add: q(5) fmdom_notD)
  moreover have "ck_active q = ck_active p"
    using active_ok_unique [of "ck_keys p"] assms(1) q(2) calculation by (simp add: ck_wf_def)
  ultimately have "q = p" using q(3,4) by simp
  then show ?thesis using guard erased q(1) by (simp add: restore_key_message_def key_snapshot_message_def flip: q0_def)
qed

lemma set_ck_guard_laws:
  "set_ck_guard g (set_ck_guard g' p) = set_ck_guard g p" "set_ck_guard (ck_guard p) p = p"
  "ContentKeys_CompleteStartupReplay p = set_ck_guard (guard_completeReplay (ck_guard p)) p"
  by (simp_all add: set_ck_guard_def ContentKeys_CompleteStartupReplay_def)

interpretation content_keys: snapshot_projection ck_guard set_ck_guard "\<lambda>ev sq. keys_switch ev"
  ContentKeys_Apply ContentKeys_CompleteStartupReplay key_snapshot_message restore_key_message ck_wf
proof
  fix p :: content_keys and ev :: "user_event event" and sq
  show "ContentKeys_Apply p (Some ev) sq =
      (case guard_seenOrMark (ck_guard p) ev sq of
         None \<Rightarrow> None
       | Some (seen, g) \<Rightarrow> Some (if seen then set_ck_guard g p else keys_switch ev (set_ck_guard g p)))"
    by (simp add: ContentKeys_Apply_def set_ck_guard_def Let_def split: option.split)
qed (simp_all add: set_ck_guard_laws keys_switch_guard ck_wf_switch ck_wf_set_guard restore_key_snapshot,
     simp_all add: ContentKeys_Apply_def)

section \<open>The keys of a log\<close>

definition generated_of :: "user_event event \<Rightarrow> dek_generated option" where
  "generated_of ev =
     (case ev_payload ev of
        Some (UserDekGenerated e) \<Rightarrow> if valid_key e then Some e else None
      | _ \<Rightarrow> None)"

definition erases :: "user_event event \<Rightarrow> string \<Rightarrow> bool" where
  "erases ev u \<longleftrightarrow>
     u \<noteq> [] \<and> (ev_payload ev = Some (UserKeyShreddingRequested u) \<or> ev_payload ev = Some (UserKeyShredded u))"

definition erased_account :: "(user_event event \<times> seq) list \<Rightarrow> string \<Rightarrow> bool" where
  "erased_account log u \<longleftrightarrow> (\<exists>x \<in> set log. erases (fst x) u)"

text \<open>The first key the log generated for an account, a purpose and an epoch.\<close>

definition first_key :: "(user_event event \<times> seq) list \<Rightarrow> purpose_id \<times> i32 \<Rightarrow> dek_generated option" where
  "first_key log k =
     fold (\<lambda>x found. if found = None \<and> map_option id_of_key (generated_of (fst x)) = Some k
                     then generated_of (fst x) else found) log None"

definition key_in_log :: "(user_event event \<times> seq) list \<Rightarrow> string \<Rightarrow> int \<Rightarrow> i32 \<Rightarrow> dek_generated option" where
  "key_in_log log u pu e = (if erased_account log u then None else first_key log ((u, pu), e))"

abbreviation keys_of :: "(user_event event \<times> seq) list \<Rightarrow> content_keys" where
  "keys_of log \<equiv> reduce_log (\<lambda>ev sq. keys_switch ev) log NewContentKeyProjection"

lemma key_of_record: "key_event (record_of_key e) (dg_user_id e) (dg_purpose e) (dg_epoch e) = e"
  by (simp add: key_event_def record_of_key_def)

lemma keys_switch_effect:
  "fmlookup (ck_keys (keys_switch ev p)) k =
     (if erases ev (fst (fst k)) then None
      else case generated_of ev of
             None \<Rightarrow> fmlookup (ck_keys p) k
           | Some e \<Rightarrow>
               if id_of_key e = k \<and> fst (fst k) |\<notin>| ck_shredded p \<and> fmlookup (ck_keys p) k = None
               then Some (record_of_key e) else fmlookup (ck_keys p) k)"
  "u |\<in>| ck_shredded (keys_switch ev p) \<longleftrightarrow> u |\<in>| ck_shredded p \<or> erases ev u"
proof -
  show "u |\<in>| ck_shredded (keys_switch ev p) \<longleftrightarrow> u |\<in>| ck_shredded p \<or> erases ev u"
    by (cases "ev_payload ev"; cases "the (ev_payload ev)")
      (auto simp: keys_switch_def generated_keys clearUser_def erases_def)
  show "fmlookup (ck_keys (keys_switch ev p)) k =
     (if erases ev (fst (fst k)) then None
      else case generated_of ev of
             None \<Rightarrow> fmlookup (ck_keys p) k
           | Some e \<Rightarrow>
               if id_of_key e = k \<and> fst (fst k) |\<notin>| ck_shredded p \<and> fmlookup (ck_keys p) k = None
               then Some (record_of_key e) else fmlookup (ck_keys p) k)"
    by (cases "ev_payload ev"; cases "the (ev_payload ev)")
      (auto simp: keys_switch_def generated_keys clearUser_def erases_def generated_of_def add_key_def
        id_of_key_def split: prod.split)
qed

lemma first_key_id: "first_key log k = Some e \<Longrightarrow> id_of_key e = k \<and> valid_key e"
proof (induction log rule: rev_induct)
  case (snoc x log)
  then show ?case
    by (auto simp: first_key_def generated_of_def split: if_splits option.splits user_event.splits)
qed (simp add: first_key_def)

lemma keys_of_log:
  "(\<forall>u. u |\<in>| ck_shredded (keys_of log) \<longleftrightarrow> erased_account log u)
   \<and> (\<forall>k. fmlookup (ck_keys (keys_of log)) k =
        (if erased_account log (fst (fst k)) then None else map_option record_of_key (first_key log k)))
   \<and> ck_wf (keys_of log)"
proof (induction log rule: rev_induct)
  case Nil
  show ?case using ck_wf_new
    by (simp add: erased_account_def first_key_def) (simp add: NewContentKeyProjection_def)
next
  case (snoc x log)
  obtain ev sq where x: "x = (ev, sq)" by force
  have step: "keys_of (log @ [x]) = keys_switch ev (keys_of log)"
    by (simp add: x reduce_log_append)
  have first: "first_key (log @ [x]) k =
      (if first_key log k = None \<and> map_option id_of_key (generated_of ev) = Some k then generated_of ev
       else first_key log k)" for k
    by (auto simp: first_key_def x)
  have erased: "erased_account (log @ [x]) u \<longleftrightarrow> erased_account log u \<or> erases ev u" for u
    by (auto simp: erased_account_def x)
  have shredded: "u |\<in>| ck_shredded (keys_of log) \<longleftrightarrow> erased_account log u"
    and keys: "fmlookup (ck_keys (keys_of log)) k =
        (if erased_account log (fst (fst k)) then None else map_option record_of_key (first_key log k))" for u k
    using snoc.IH by blast+
  have "fmlookup (ck_keys (keys_switch ev (keys_of log))) k =
      (if erased_account (log @ [x]) (fst (fst k)) then None else map_option record_of_key (first_key (log @ [x]) k))" for k
    unfolding first erased keys_switch_effect(1) keys shredded
    by (cases "generated_of ev"; cases "first_key log k") auto
  then show ?case
    unfolding step using snoc.IH ck_wf_switch keys_switch_effect(2) erased by blast
qed

lemma replayed_keys:
  assumes "clean_log (startup @ live)"
    and "replayed ContentKeys_Apply ContentKeys_CompleteStartupReplay startup live NewContentKeyProjection = Some p"
  obtains g where "p = set_ck_guard g (keys_of (startup @ live))"
  using content_keys.content.run_clean [OF _ assms(1), of NewContentKeyProjection] assms(2)
  by (auto simp: NewContentKeyProjection_def)

lemma getKey_log:
  "getKey (set_ck_guard g (keys_of log)) u pu e = key_in_log log u pu e"
proof -
  have "key_event (record_of_key d) u pu e = d" if "first_key log ((u, pu), e) = Some d" for d
    using first_key_id [OF that] key_of_record [of d] by (auto simp: id_of_key_def)
  then show ?thesis
    using keys_of_log [of log] by (cases "first_key log ((u, pu), e)") (auto simp: getKey_def key_in_log_def)
qed

text \<open>The stored epoch of a purpose is the newest the log generated.\<close>

lemma active_epoch_log:
  assumes "p = set_ck_guard g (keys_of log)"
  shows "0 < sint (active_epoch p (u, q)) \<Longrightarrow>
      \<exists>d. getKey p u q (active_epoch p (u, q)) = Some d \<and> key_in_log log u q (dg_epoch d) = Some d
          \<and> (\<forall>e. key_in_log log u q e \<noteq> None \<longrightarrow> sint e \<le> sint (dg_epoch d))"
    and "sint (active_epoch p (u, q)) \<le> 0 \<Longrightarrow> key_in_log log u q e = None"
proof -
  have "ck_wf p" using keys_of_log [of log] by (simp add: assms ck_wf_set_guard)
  then have ok: "active_ok (ck_keys p) (ck_active p)" "fmpred (key_ok (ck_shredded p)) (ck_keys p)"
    by (simp_all add: ck_wf_def)
  have get: "getKey p u q e = key_in_log log u q e" for e by (simp add: assms getKey_log)
  have stored: "fmlookup (ck_keys p) ((u, q), e) = None \<longleftrightarrow> key_in_log log u q e = None" for e
    using get [of e] by (auto simp: getKey_def)
  have epoch_of: "key_in_log log u q e = Some d \<Longrightarrow> dg_epoch d = e" for e d
    using first_key_id by (auto simp: key_in_log_def id_of_key_def split: if_splits)
  show "\<exists>d. getKey p u q (active_epoch p (u, q)) = Some d \<and> key_in_log log u q (dg_epoch d) = Some d
      \<and> (\<forall>e. key_in_log log u q e \<noteq> None \<longrightarrow> sint e \<le> sint (dg_epoch d))"
    if "0 < sint (active_epoch p (u, q))"
    using active_epoch_ok(1) [OF ok that] epoch_of unfolding newest_def stored get by fastforce
  show "key_in_log log u q e = None" if "sint (active_epoch p (u, q)) \<le> 0"
    using active_epoch_ok(2) [OF ok that, of e] by (simp add: stored)
qed

text \<open>C13 (refinement). The key store is that of the log: the key of an account, a purpose and an epoch is
  the first one the log generated for it, unless the account was erased anywhere in the log;
  a purpose without a key falls back to the keys from before purposes; and the active key is
  the one of the newest epoch, so that nothing is encrypted with an older key.\<close>

theorem content_keys_exact:
  assumes "clean_log (startup @ live)"
    and "replayed ContentKeys_Apply ContentKeys_CompleteStartupReplay startup live NewContentKeyProjection = Some p"
  shows "let key = key_in_log (startup @ live) u;
             served = (if \<exists>e. key pu e \<noteq> None then pu else DEK_PURPOSE_UNSPECIFIED) in
    ContentKeys_Get p u pu e = (if key pu e \<noteq> None then key pu e else key DEK_PURPOSE_UNSPECIFIED e)
    \<and> (case ContentKeys_Active p u pu of
         None \<Rightarrow> \<forall>e. key served e = None
       | Some d \<Rightarrow> key served (dg_epoch d) = Some d
           \<and> (\<forall>e. key served e \<noteq> None \<longrightarrow> sint e \<le> sint (dg_epoch d)))"
proof -
  let ?log = "startup @ live"
  let ?key = "key_in_log ?log u"
  define served where "served = (if \<exists>e. ?key pu e \<noteq> None then pu else DEK_PURPOSE_UNSPECIFIED)"
  obtain g where p: "p = set_ck_guard g (keys_of ?log)" by (rule replayed_keys [OF assms])
  note act = active_epoch_log [OF p, of u]
  have "ContentKeys_Get p u pu e = (if ?key pu e \<noteq> None then ?key pu e else ?key DEK_PURPOSE_UNSPECIFIED e)"
    by (auto simp: ContentKeys_Get_def p getKey_log split: option.split)
  moreover have "case ContentKeys_Active p u pu of
         None \<Rightarrow> \<forall>e. ?key served e = None
       | Some d \<Rightarrow> ?key served (dg_epoch d) = Some d
           \<and> (\<forall>e. ?key served e \<noteq> None \<longrightarrow> sint e \<le> sint (dg_epoch d))"
  proof (cases "0 < sint (active_epoch p (u, pu))")
    case True
    from act(1) [OF this] obtain d where d: "getKey p u pu (active_epoch p (u, pu)) = Some d"
      "?key pu (dg_epoch d) = Some d" "\<forall>e. ?key pu e \<noteq> None \<longrightarrow> sint e \<le> sint (dg_epoch d)" by blast
    then have "served = pu" by (auto simp: served_def)
    then show ?thesis using True d by (simp add: ContentKeys_Active_def Let_def)
  next
    case False
    then have "served = DEK_PURPOSE_UNSPECIFIED" using act(2) [of pu] by (simp add: served_def)
    then show ?thesis
      using False act [of DEK_PURPOSE_UNSPECIFIED]
      by (cases "pu = DEK_PURPOSE_UNSPECIFIED"; cases "0 < sint (active_epoch p (u, DEK_PURPOSE_UNSPECIFIED))")
        (auto simp: ContentKeys_Active_def Let_def)
  qed
  ultimately show ?thesis unfolding Let_def served_def by (rule conjI)
qed

text \<open>A snapshot of the content keys, encoded and restored in a fresh process, is the
  state it was taken from, and going on from it is going on from the original: no key is
  lost, none is revived, and the active epochs, which are not stored, come back.\<close>

theorem key_snapshot_restores_state:
  assumes "proto_codec empty_key_snapshot marshal unmarshal"
    and "deliver ContentKeys_Apply log NewContentKeyProjection = Some p"
    and "deliver ContentKeys_Apply live (ContentKeys_CompleteStartupReplay p) = Some q"
    and "ContentKeys_Snapshot marshal q = Some data"
  shows "ContentKeys_Restore unmarshal data fresh = (None, q)"
proof -
  have "guard_ok (ck_guard NewContentKeyProjection)" by (simp add: NewContentKeyProjection_def)
  from content_keys.run_total [OF this, of log] assms(2) have "guard_ok (ck_guard p)" by auto
  then have g: "guard_ok (ck_guard (ContentKeys_CompleteStartupReplay p))"
    "replayComplete (ck_guard (ContentKeys_CompleteStartupReplay p))"
    by (simp_all add: ContentKeys_CompleteStartupReplay_def) (simp add: guard_completeReplay_def Let_def)
  have q: "guard_ok (ck_guard q)" "replayComplete (ck_guard q)"
    using content_keys.run_total [OF g(1), of live] g(2) assms(3) by auto
  have "ck_wf q"
    using content_keys.wf_complete [OF content_keys.wf_run [OF ck_wf_new assms(2)]] assms(3)
    by (rule content_keys.wf_run)
  then have "restore_key_message (key_snapshot_message q) = Inr q"
    using q by (simp add: restore_key_snapshot)
  moreover have "(if data = [] then Some empty_key_snapshot else unmarshal data) = Some (key_snapshot_message q)"
    using assms(1,4) by (auto simp: proto_codec_def ContentKeys_Snapshot_def)
  ultimately show ?thesis by (simp add: ContentKeys_Restore_def)
qed

section \<open>A small log\<close>

definition key_fact :: "string \<Rightarrow> user_event \<Rightarrow> user_event event" where
  "key_fact i e = \<lparr>ev_id = i, ev_actor = ''U'', ev_created_at = Some 10, ev_payload = Some e\<rparr>"

definition sample_key :: "i32 \<Rightarrow> dek_generated" where
  "sample_key epoch =
     \<lparr>dg_user_id = ''U'', dg_purpose = DEK_PURPOSE_MESSAGE_BODY, dg_epoch = epoch, dg_content_key_ref = ''C'',
      dg_wrapping_key_ref = ''W'', dg_wrapping_algorithm = ''A'', dg_wrapping_metadata = []\<rparr>"

definition key_log :: "(user_event event \<times> seq) list" where
  "key_log = [(key_fact ''a'' (UserDekGenerated (sample_key 1)), 1),
              (key_fact ''b'' (UserDekGenerated (sample_key 2)), 2)]"

lemma content_keys_exact_witness:
  "\<exists>p. replayed ContentKeys_Apply ContentKeys_CompleteStartupReplay [] key_log NewContentKeyProjection = Some p
     \<and> ContentKeys_Get p ''U'' DEK_PURPOSE_MESSAGE_BODY 1 = Some (sample_key 1)"
proof -
  have clean: "clean_log ([] @ key_log)" by code_simp
  obtain p where p: "replayed ContentKeys_Apply ContentKeys_CompleteStartupReplay [] key_log
      NewContentKeyProjection = Some p"
    using content_keys.content.run_clean [OF _ clean, of NewContentKeyProjection]
    by (auto simp: NewContentKeyProjection_def)
  have "key_in_log ([] @ key_log) ''U'' DEK_PURPOSE_MESSAGE_BODY 1 = Some (sample_key 1)" by code_simp
  with content_keys_exact [OF clean p, where u = "''U''" and pu = DEK_PURPOSE_MESSAGE_BODY and e = 1] p
  show ?thesis by (simp add: Let_def)
qed

lemma key_snapshot_restores_state_witness:
  "\<exists>q. ContentKeys_Restore (\<lambda>d. Some (if d = [] then empty_key_snapshot else key_snapshot_message q)) [1]
         NewContentKeyProjection = (None, q) \<and> ck_keys q \<noteq> fmempty"
proof -
  have ok: "guard_ok (ck_guard NewContentKeyProjection)" by (simp add: NewContentKeyProjection_def)
  have "map_option (\<lambda>p. fmlookup (ck_keys p) ((''U'', DEK_PURPOSE_MESSAGE_BODY), 1) \<noteq> None)
      (deliver ContentKeys_Apply key_log NewContentKeyProjection) = Some True"
    by code_simp
  then obtain p where p: "deliver ContentKeys_Apply key_log NewContentKeyProjection = Some p"
    and held: "fmlookup (ck_keys p) ((''U'', DEK_PURPOSE_MESSAGE_BODY), 1) \<noteq> None" by auto
  have keys: "ck_keys (ContentKeys_CompleteStartupReplay p) \<noteq> fmempty"
    using held by (auto simp: ContentKeys_CompleteStartupReplay_def)
  let ?q = "ContentKeys_CompleteStartupReplay p"
  let ?un = "\<lambda>d. Some (if d = [] then empty_key_snapshot else key_snapshot_message ?q)"
  let ?ma = "\<lambda>m. if m = key_snapshot_message ?q then Some [1 :: 8 word] else None"
  have "proto_codec empty_key_snapshot ?ma ?un" by (simp add: proto_codec_def)
  moreover have "ContentKeys_Snapshot ?ma ?q = Some [1]" by (simp add: ContentKeys_Snapshot_def)
  ultimately have "ContentKeys_Restore ?un [1] NewContentKeyProjection = (None, ?q)"
    using key_snapshot_restores_state [OF _ p, of ?ma ?un "[]" ?q] by simp
  then show ?thesis using keys by blast
qed

end
