(* ===== verification/Credentials.thy ===== *)
theory Credentials
  imports User_Accounts Content_Contract Mutation
begin

text \<open>
  The credentials of every account (\<open>user_auth_projection.go\<close>): password hashes, external
  identities with the index that signs in by them, OAuth consents, the API keys and incoming
  webhooks of bots, the generation that invalidates what was issued before, and the
  connections that watch a key or an account (\<open>user_deactivation.go\<close>). A connection is the
  number of the channel allocated for it; closing it is recorded in a set.

  Parameters (record \<open>auth_env\<close>): the hex SHA-256 of a string and the Unicode lower case.
\<close>

section \<open>Events\<close>

record api_key_fact =
  ak_user_id :: string
  ak_verifier :: string
  ak_key_id :: string
  ak_name :: string
  ak_revoked_key_id :: string

record webhook_fact =
  wh_user_id :: string
  wh_verifier :: string
  wh_webhook_id :: string
  wh_name :: string

record identity_fact =
  xf_user_id :: string
  xf_issuer :: string
  xf_subject :: string
  xf_subject_hash :: string
  xf_provider_id :: string
  xf_provider_type :: string

record consent_fact =
  oc_user_id :: string
  oc_client_id :: string
  oc_redirect_origin :: string
  oc_resource :: string
  oc_scopes :: "string list"

text \<open>The facts the projection shares with the accounts, and its own. The flag of a password
  change or an unlink says that existing credentials stay valid.\<close>

datatype auth_event =
  AccountFact user_event
| BotApiKeyCreated api_key_fact
| BotApiKeyRotated api_key_fact
| BotApiKeyAdded api_key_fact
| BotApiKeyRevoked string string
| BotIncomingWebhookCreated webhook_fact
| BotIncomingWebhookRotated webhook_fact
| BotIncomingWebhookRevoked string string
| UserPasswordHashChanged string string bool
| UserOidcSubjectLinked identity_fact
| UserExternalIdentityLinked identity_fact
| UserExternalIdentityUnlinked string string bool
| OauthConsentGranted consent_fact
| OauthScopedConsentGranted consent_fact

record auth_env =
  sha256_hex :: "string \<Rightarrow> string"
  lower_case :: "string \<Rightarrow> string"

section \<open>Strings\<close>

text \<open>\<open>strings.TrimSpace\<close>, from the front and, on the reversed bytes, from the back.\<close>

fun trimLeft :: "string \<Rightarrow> string" where
  "trimLeft [] = []"
| "trimLeft [c] = (if asciiSpace c then [] else [c])"
| "trimLeft [c, d] = (if asciiSpace c then trimLeft [d] else if twoByteSpace c d then [] else [c, d])"
| "trimLeft (c # d # e # s) =
     (if asciiSpace c then trimLeft (d # e # s)
      else if twoByteSpace c d then trimLeft (e # s)
      else if threeByteSpace c d e then trimLeft s else c # d # e # s)"

fun trimBack :: "string \<Rightarrow> string" where
  "trimBack [] = []"
| "trimBack [c] = (if asciiSpace c then [] else [c])"
| "trimBack [d, c] = (if asciiSpace d then trimBack [c] else if twoByteSpace c d then [] else [d, c])"
| "trimBack (e # d # c # s) =
     (if asciiSpace e then trimBack (d # c # s)
      else if twoByteSpace d e then trimBack (c # s)
      else if threeByteSpace c d e then trimBack s else e # d # c # s)"

definition TrimSpace :: "string \<Rightarrow> string" where
  "TrimSpace s = rev (trimBack (rev (trimLeft s)))"

fun join :: "string \<Rightarrow> string list \<Rightarrow> string" where
  "join sep [] = []"
| "join sep [s] = s"
| "join sep (s # ss) = s @ sep @ join sep ss"

abbreviation legacyBotAPIKeyID :: string where "legacyBotAPIKeyID \<equiv> ''legacy''"
abbreviation defaultBotAPIKeyName :: string where "defaultBotAPIKeyName \<equiv> ''Default key''"
abbreviation legacyBotIncomingWebhookID :: string where "legacyBotIncomingWebhookID \<equiv> ''legacy''"

definition normalizedBotAPIKeyID :: "string \<Rightarrow> string" where
  "normalizedBotAPIKeyID i = (if i = [] then legacyBotAPIKeyID else i)"

definition normalizedBotAPIKeyName :: "string \<Rightarrow> string" where
  "normalizedBotAPIKeyName n = (let t = TrimSpace n in if t = [] then defaultBotAPIKeyName else t)"

definition normalizedIncomingWebhookID :: "string \<Rightarrow> string" where
  "normalizedIncomingWebhookID i = (if i = [] then legacyBotIncomingWebhookID else i)"

definition externalIdentityHash :: "auth_env \<Rightarrow> string \<Rightarrow> string \<Rightarrow> string" where
  "externalIdentityHash env issuer subject = sha256_hex env (issuer @ '':'' @ subject)"

definition OAuthConsentOrigin :: "auth_env \<Rightarrow> string \<Rightarrow> string" where
  "OAuthConsentOrigin env origin = lower_case env (TrimSpace origin)"

definition OAuthConsentKey :: "auth_env \<Rightarrow> string \<Rightarrow> string \<Rightarrow> string" where
  "OAuthConsentKey env clientID origin =
     (let c = TrimSpace clientID in if c \<noteq> [] then c else OAuthConsentOrigin env origin)"

definition OAuthScopedConsentKey :: "auth_env \<Rightarrow> string \<Rightarrow> string \<Rightarrow> string \<Rightarrow> string list \<Rightarrow> string" where
  "OAuthScopedConsentKey env clientID origin resource scopes =
     (let base = OAuthConsentKey env clientID origin in
      if base = [] \<or> resource = [] \<and> scopes = [] then base
      else base @ [CHR 0x00] @ resource @ [CHR 0x00] @ join '' '' scopes)"

section \<open>The state\<close>

record external_identity =
  xi_provider_id :: string
  xi_provider_type :: string
  xi_issuer :: string
  xi_subject :: string
  xi_subject_hash :: string

record bot_api_key =
  bk_name :: string
  bk_verifier :: string
  bk_created_at :: time
  bk_rollback_visible :: bool

record bot_webhook =
  bw_name :: string
  bw_verifier :: string
  bw_created_at :: time

record user_auth =
  xu_deleted :: bool
  xu_deactivated :: bool
  xu_is_bot :: bool
  xu_owner :: string
  xu_keys :: "(string, bot_api_key) fmap"
  xu_key_created_at :: time
  xu_webhooks :: "(string, bot_webhook) fmap"
  xu_password :: string
  xu_generation :: seq
  xu_identities :: "(string, external_identity) fmap"
  xu_consents :: "string fset"

definition new_user_auth :: user_auth where
  "new_user_auth =
     \<lparr>xu_deleted = False, xu_deactivated = False, xu_is_bot = False, xu_owner = [], xu_keys = fmempty,
      xu_key_created_at = zero_time, xu_webhooks = fmempty, xu_password = [], xu_generation = 0,
      xu_identities = fmempty, xu_consents = {||}\<rparr>"

text \<open>A watcher of a key: the verifier it was opened with, and its channel.\<close>

type_synonym channel = nat
type_synonym key_watcher = "string \<times> channel"

record credentials =
  au_users :: "(string, user_auth) fmap"
  au_identityIndex :: "(string, string) fmap"
  au_guard :: replay_guard
  au_nextWatcher :: "64 word"
  au_keyWatchers :: "(string, (64 word, key_watcher) fmap) fmap"
  au_accessWatchers :: "(string, channel fset) fmap"
  au_channels :: channel
  au_closed :: "channel fset"

definition newUserAuthProjection :: credentials where
  "newUserAuthProjection =
     \<lparr>au_users = fmempty, au_identityIndex = fmempty, au_guard = newProjectionReplayGuard, au_nextWatcher = 0,
      au_keyWatchers = fmempty, au_accessWatchers = fmempty, au_channels = 0, au_closed = {||}\<rparr>"

definition auth_of :: "credentials \<Rightarrow> string \<Rightarrow> user_auth" where
  "auth_of p u = (case fmlookup (au_users p) u of None \<Rightarrow> new_user_auth | Some a \<Rightarrow> a)"

text \<open>\<open>u := p.ensureUserLocked(id)\<close> and a change of its fields: the entry exists afterwards.\<close>

definition edit_auth :: "string \<Rightarrow> (user_auth \<Rightarrow> user_auth) \<Rightarrow> credentials \<Rightarrow> credentials" where
  "edit_auth u f p = p\<lparr>au_users := fmupd u (f (auth_of p u)) (au_users p)\<rparr>"

text \<open>A timestamp outside the years 1 to 9999 is not valid.\<close>

definition timestampTime :: "time option \<Rightarrow> time" where
  "timestampTime t =
     (case t of
        None \<Rightarrow> zero_time
      | Some x \<Rightarrow> if zero_time \<le> x \<and> x \<le> 253402300799999999999 then x else zero_time)"

section \<open>Closing connections\<close>

definition watchers_of :: "credentials \<Rightarrow> string \<Rightarrow> (64 word, key_watcher) fmap" where
  "watchers_of p u = (case fmlookup (au_keyWatchers p) u of None \<Rightarrow> fmempty | Some ws \<Rightarrow> ws)"

text \<open>Close the watchers whose verifier passes the test, and forget an empty list of watchers.\<close>

definition close_watchers :: "(string \<Rightarrow> bool) \<Rightarrow> string \<Rightarrow> credentials \<Rightarrow> credentials" where
  "close_watchers test u p =
     (let ws = watchers_of p u;
          gone = fmfilter (\<lambda>i. case fmlookup ws i of None \<Rightarrow> False | Some w \<Rightarrow> test (fst w)) ws;
          rest = fmfilter (\<lambda>i. case fmlookup ws i of None \<Rightarrow> False | Some w \<Rightarrow> \<not> test (fst w)) ws
      in p\<lparr>au_closed := au_closed p |\<union>| snd |`| fmran gone,
           au_keyWatchers := (if rest = fmempty then fmdrop u (au_keyWatchers p)
                              else fmupd u rest (au_keyWatchers p))\<rparr>)"

definition closeBotAPIKeyWatchers :: "string \<Rightarrow> credentials \<Rightarrow> credentials" where
  "closeBotAPIKeyWatchers u p =
     p\<lparr>au_closed := au_closed p |\<union>| snd |`| fmran (watchers_of p u),
       au_keyWatchers := fmdrop u (au_keyWatchers p)\<rparr>"

definition deleteIdentityIndex :: "string \<Rightarrow> credentials \<Rightarrow> credentials" where
  "deleteIdentityIndex u p =
     p\<lparr>au_identityIndex :=
        fmfilter (\<lambda>h. fmlookup (au_identityIndex p) h \<noteq> Some u) (au_identityIndex p)\<rparr>"

section \<open>Operations\<close>

definition auth_applyAccountCreated :: "account_created \<Rightarrow> credentials \<Rightarrow> credentials" where
  "auth_applyAccountCreated e p =
     edit_auth (ac_user_id e) (\<lambda>a. a\<lparr>xu_is_bot := ac_is_bot e, xu_owner := ac_bot_owner e\<rparr>) p"

definition auth_applyOwnerReassigned :: "string \<Rightarrow> string \<Rightarrow> credentials \<Rightarrow> credentials" where
  "auth_applyOwnerReassigned u owner p =
     edit_auth u (\<lambda>a. if xu_is_bot a \<and> \<not> xu_deleted a then a\<lparr>xu_owner := owner\<rparr> else a) p"

definition applyPasswordHashChanged :: "string \<Rightarrow> string \<Rightarrow> bool \<Rightarrow> seq \<Rightarrow> credentials \<Rightarrow> credentials" where
  "applyPasswordHashChanged u hash preserve sq p =
     (if u = [] then p
      else edit_auth u
             (\<lambda>a. if xu_deleted a then a
                  else (let a1 = a\<lparr>xu_password := hash\<rparr> in if preserve then a1 else a1\<lparr>xu_generation := sq\<rparr>)) p)"

definition identity_hash_of :: "auth_env \<Rightarrow> identity_fact \<Rightarrow> string" where
  "identity_hash_of env e =
     (if xf_subject_hash e = [] \<and> xf_issuer e \<noteq> [] \<and> xf_subject e \<noteq> []
      then externalIdentityHash env (xf_issuer e) (xf_subject e) else xf_subject_hash e)"

text \<open>Both ways to link an identity differ only in the names of its provider.\<close>

definition link_identity :: "string \<Rightarrow> string \<Rightarrow> external_identity \<Rightarrow> credentials \<Rightarrow> credentials" where
  "link_identity u hash identity p =
     (let p1 = edit_auth u (\<lambda>a. a) p in
      if xu_deleted (auth_of p u) then p1
      else edit_auth u (\<lambda>a. a\<lparr>xu_identities := fmupd hash identity (xu_identities a)\<rparr>)
             (p1\<lparr>au_identityIndex := fmupd hash u (au_identityIndex p1)\<rparr>))"

definition applyOIDCSubjectLinked :: "auth_env \<Rightarrow> identity_fact \<Rightarrow> credentials \<Rightarrow> credentials" where
  "applyOIDCSubjectLinked env e p =
     (let hash = identity_hash_of env e in
      if xf_user_id e = [] \<or> hash = [] then p
      else link_identity (xf_user_id e) hash
             \<lparr>xi_provider_id = ''oidc'', xi_provider_type = ''oidc'', xi_issuer = xf_issuer e,
              xi_subject = xf_subject e, xi_subject_hash = hash\<rparr> p)"

definition applyExternalIdentityLinked :: "auth_env \<Rightarrow> identity_fact \<Rightarrow> credentials \<Rightarrow> credentials" where
  "applyExternalIdentityLinked env e p =
     (let hash = identity_hash_of env e;
          providerID = (if xf_provider_id e = [] then xf_issuer e else xf_provider_id e);
          providerType = (if xf_provider_type e = [] then providerID else xf_provider_type e)
      in if xf_user_id e = [] \<or> hash = [] then p
         else link_identity (xf_user_id e) hash
                \<lparr>xi_provider_id = providerID, xi_provider_type = providerType, xi_issuer = xf_issuer e,
                 xi_subject = xf_subject e, xi_subject_hash = hash\<rparr> p)"

definition applyExternalIdentityUnlinked :: "string \<Rightarrow> string \<Rightarrow> bool \<Rightarrow> seq \<Rightarrow> credentials \<Rightarrow> credentials" where
  "applyExternalIdentityUnlinked u hash preserve sq p =
     (if u = [] \<or> hash = [] then p
      else
        (let p1 = (if fmlookup (au_identityIndex p) hash = Some u
                   then p\<lparr>au_identityIndex := fmdrop hash (au_identityIndex p)\<rparr> else p)
         in edit_auth u
              (\<lambda>a. if xu_deleted a then a
                   else (let a1 = a\<lparr>xu_identities := fmdrop hash (xu_identities a)\<rparr>
                         in if preserve then a1 else a1\<lparr>xu_generation := sq\<rparr>)) p1))"

definition add_consent :: "string \<Rightarrow> string \<Rightarrow> credentials \<Rightarrow> credentials" where
  "add_consent u key p =
     (if u = [] \<or> key = [] then p
      else edit_auth u (\<lambda>a. if xu_deleted a then a else a\<lparr>xu_consents := finsert key (xu_consents a)\<rparr>) p)"

definition applyOAuthConsentGranted :: "auth_env \<Rightarrow> consent_fact \<Rightarrow> credentials \<Rightarrow> credentials" where
  "applyOAuthConsentGranted env e =
     add_consent (oc_user_id e) (OAuthConsentKey env (oc_client_id e) (oc_redirect_origin e))"

definition applyOAuthScopedConsentGranted :: "auth_env \<Rightarrow> consent_fact \<Rightarrow> credentials \<Rightarrow> credentials" where
  "applyOAuthScopedConsentGranted env e =
     add_consent (oc_user_id e)
       (OAuthScopedConsentKey env (oc_client_id e) (oc_redirect_origin e) (oc_resource e) (oc_scopes e))"

text \<open>Deletion and erasure: nothing the account could sign in with is left.\<close>

definition erase_auth :: "seq \<Rightarrow> user_auth \<Rightarrow> user_auth" where
  "erase_auth sq a =
     a\<lparr>xu_deleted := True, xu_generation := sq, xu_password := [], xu_identities := fmempty,
       xu_consents := {||}, xu_keys := fmempty, xu_key_created_at := zero_time, xu_webhooks := fmempty\<rparr>"

definition auth_applyAccountDeleted :: "string \<Rightarrow> seq \<Rightarrow> credentials \<Rightarrow> credentials" where
  "auth_applyAccountDeleted u sq p =
     (if u = [] then p
      else deleteIdentityIndex u (closeBotAPIKeyWatchers u (edit_auth u (erase_auth sq) p)))"

definition auth_applyKeyShredded :: "string \<Rightarrow> seq \<Rightarrow> credentials \<Rightarrow> credentials" where
  "auth_applyKeyShredded u sq p =
     (if u = [] then p
      else deleteIdentityIndex u (closeBotAPIKeyWatchers u (edit_auth u (erase_auth sq) p)))"

definition close_access :: "string \<Rightarrow> credentials \<Rightarrow> credentials" where
  "close_access u p =
     p\<lparr>au_closed := (case fmlookup (au_accessWatchers p) u of None \<Rightarrow> au_closed p | Some cs \<Rightarrow> au_closed p |\<union>| cs),
       au_accessWatchers := fmdrop u (au_accessWatchers p)\<rparr>"

definition bots_owned :: "credentials \<Rightarrow> string \<Rightarrow> string list" where
  "bots_owned p owner =
     filter (\<lambda>b. xu_is_bot (auth_of p b) \<and> xu_owner (auth_of p b) = owner) (sortedMapKeys (au_users p))"

definition applyDeactivationChanged :: "string \<Rightarrow> bool \<Rightarrow> seq \<Rightarrow> credentials \<Rightarrow> credentials" where
  "applyDeactivationChanged u deactivated sq p =
     (if u = [] then p
      else
        (let p1 = close_access u (edit_auth u (\<lambda>a. a\<lparr>xu_deactivated := deactivated, xu_generation := sq\<rparr>) p)
         in if \<not> deactivated then p1
            else (let p2 = closeBotAPIKeyWatchers u p1 in fold closeBotAPIKeyWatchers (bots_owned p2 u) p2)))"

definition live_bot :: "user_auth \<Rightarrow> bool" where
  "live_bot a \<longleftrightarrow> \<not> xu_deleted a \<and> xu_is_bot a"

definition api_key_of :: "api_key_fact \<Rightarrow> time option \<Rightarrow> bool \<Rightarrow> bot_api_key" where
  "api_key_of e at visible =
     \<lparr>bk_name = normalizedBotAPIKeyName (ak_name e), bk_verifier = ak_verifier e,
      bk_created_at = timestampTime at, bk_rollback_visible = visible\<rparr>"

definition applyBotAPIKeyCreated :: "api_key_fact \<Rightarrow> time option \<Rightarrow> credentials \<Rightarrow> credentials" where
  "applyBotAPIKeyCreated e at p =
     (if ak_user_id e = [] \<or> ak_verifier e = [] then p
      else edit_auth (ak_user_id e)
             (\<lambda>a. if \<not> live_bot a then a
                  else a\<lparr>xu_keys := fmupd (normalizedBotAPIKeyID (ak_key_id e)) (api_key_of e at True) (xu_keys a),
                         xu_key_created_at := timestampTime at\<rparr>) p)"

definition revokeBotAPIKey :: "string \<Rightarrow> string \<Rightarrow> credentials \<Rightarrow> credentials" where
  "revokeBotAPIKey u keyID p =
     (case fmlookup (xu_keys (auth_of p u)) keyID of
        None \<Rightarrow> p
      | Some credential \<Rightarrow>
          close_watchers (\<lambda>v. v = bk_verifier credential) u
            (edit_auth u (\<lambda>a. a\<lparr>xu_keys := fmdrop keyID (xu_keys a)\<rparr>) p))"

definition applyBotAPIKeyRotated :: "api_key_fact \<Rightarrow> time option \<Rightarrow> credentials \<Rightarrow> credentials" where
  "applyBotAPIKeyRotated e at p =
     (if ak_user_id e = [] \<or> ak_verifier e = [] then p
      else
        (let u = ak_user_id e; p1 = edit_auth u (\<lambda>a. a) p in
         if \<not> live_bot (auth_of p u) then p1
         else if ak_revoked_key_id e \<noteq> [] then revokeBotAPIKey u (ak_revoked_key_id e) p1
         else edit_auth u
                (\<lambda>a. a\<lparr>xu_keys := fmupd (normalizedBotAPIKeyID (ak_key_id e)) (api_key_of e at True) fmempty\<rparr>)
                (close_watchers (\<lambda>v. v \<noteq> ak_verifier e) u p1)))"

definition applyBotAPIKeyAdded :: "api_key_fact \<Rightarrow> time option \<Rightarrow> credentials \<Rightarrow> credentials" where
  "applyBotAPIKeyAdded e at p =
     (if ak_user_id e = [] \<or> ak_key_id e = [] \<or> ak_verifier e = [] then p
      else edit_auth (ak_user_id e)
             (\<lambda>a. if \<not> live_bot a \<or> fmlookup (xu_keys a) (ak_key_id e) \<noteq> None then a
                  else a\<lparr>xu_keys := fmupd (ak_key_id e) (api_key_of e at False) (xu_keys a)\<rparr>) p)"

definition applyBotAPIKeyRevoked :: "string \<Rightarrow> string \<Rightarrow> credentials \<Rightarrow> credentials" where
  "applyBotAPIKeyRevoked u keyID p =
     (if u = [] \<or> keyID = [] then p
      else
        (let p1 = edit_auth u (\<lambda>a. a) p in
         if \<not> live_bot (auth_of p u) then p1 else revokeBotAPIKey u keyID p1))"

definition applyBotIncomingWebhookCreated :: "webhook_fact \<Rightarrow> time option \<Rightarrow> credentials \<Rightarrow> credentials" where
  "applyBotIncomingWebhookCreated e at p =
     (if wh_user_id e = [] \<or> wh_verifier e = [] then p
      else
        (let i = normalizedIncomingWebhookID (wh_webhook_id e) in
         edit_auth (wh_user_id e)
           (\<lambda>a. if \<not> live_bot a \<or> i = [] \<or> fmlookup (xu_webhooks a) i \<noteq> None then a
                else a\<lparr>xu_webhooks :=
                         fmupd i \<lparr>bw_name = wh_name e, bw_verifier = wh_verifier e, bw_created_at = timestampTime at\<rparr>
                           (xu_webhooks a)\<rparr>) p))"

definition applyBotIncomingWebhookRotated :: "webhook_fact \<Rightarrow> credentials \<Rightarrow> credentials" where
  "applyBotIncomingWebhookRotated e p =
     (if wh_user_id e = [] \<or> wh_verifier e = [] then p
      else
        (let i = normalizedIncomingWebhookID (wh_webhook_id e) in
         edit_auth (wh_user_id e)
           (\<lambda>a. case fmlookup (xu_webhooks a) i of
                  None \<Rightarrow> a
                | Some w \<Rightarrow>
                    if \<not> live_bot a then a
                    else a\<lparr>xu_webhooks := fmupd i (w\<lparr>bw_verifier := wh_verifier e\<rparr>) (xu_webhooks a)\<rparr>) p))"

definition applyBotIncomingWebhookRevoked :: "string \<Rightarrow> string \<Rightarrow> credentials \<Rightarrow> credentials" where
  "applyBotIncomingWebhookRevoked u webhookID p =
     (if u = [] then p
      else edit_auth u
             (\<lambda>a. if \<not> live_bot a then a
                  else a\<lparr>xu_webhooks := fmdrop (normalizedIncomingWebhookID webhookID) (xu_webhooks a)\<rparr>) p)"

section \<open>Apply\<close>

definition account_switch :: "user_event \<Rightarrow> seq \<Rightarrow> credentials \<Rightarrow> credentials" where
  "account_switch e sq p =
     (case e of
        UserAccountCreated a \<Rightarrow> auth_applyAccountCreated a p
      | BotOwnerReassigned u _ owner \<Rightarrow> auth_applyOwnerReassigned u owner p
      | UserAccountDeleted u \<Rightarrow> auth_applyAccountDeleted u sq p
      | UserAccountDeactivationChanged u d \<Rightarrow> applyDeactivationChanged u d sq p
      | UserKeyShreddingRequested u \<Rightarrow> auth_applyKeyShredded u sq p
      | UserKeyShredded u \<Rightarrow> auth_applyKeyShredded u sq p
      | _ \<Rightarrow> p)"

definition auth_switch :: "auth_env \<Rightarrow> auth_event event \<Rightarrow> seq \<Rightarrow> credentials \<Rightarrow> credentials" where
  "auth_switch env ev sq p =
     (case ev_payload ev of
        None \<Rightarrow> p
      | Some e \<Rightarrow>
          (case e of
             AccountFact f \<Rightarrow> account_switch f sq p
           | BotApiKeyCreated k \<Rightarrow> applyBotAPIKeyCreated k (ev_created_at ev) p
           | BotApiKeyRotated k \<Rightarrow> applyBotAPIKeyRotated k (ev_created_at ev) p
           | BotApiKeyAdded k \<Rightarrow> applyBotAPIKeyAdded k (ev_created_at ev) p
           | BotApiKeyRevoked u i \<Rightarrow> applyBotAPIKeyRevoked u i p
           | BotIncomingWebhookCreated w \<Rightarrow> applyBotIncomingWebhookCreated w (ev_created_at ev) p
           | BotIncomingWebhookRotated w \<Rightarrow> applyBotIncomingWebhookRotated w p
           | BotIncomingWebhookRevoked u i \<Rightarrow> applyBotIncomingWebhookRevoked u i p
           | UserPasswordHashChanged u h keep \<Rightarrow> applyPasswordHashChanged u h keep sq p
           | UserOidcSubjectLinked i \<Rightarrow> applyOIDCSubjectLinked env i p
           | UserExternalIdentityLinked i \<Rightarrow> applyExternalIdentityLinked env i p
           | UserExternalIdentityUnlinked u h keep \<Rightarrow> applyExternalIdentityUnlinked u h keep sq p
           | OauthConsentGranted c \<Rightarrow> applyOAuthConsentGranted env c p
           | OauthScopedConsentGranted c \<Rightarrow> applyOAuthScopedConsentGranted env c p))"

definition Auth_Apply :: "auth_env \<Rightarrow> credentials \<Rightarrow> auth_event event option \<Rightarrow> seq \<Rightarrow> credentials option" where
  "Auth_Apply env p event sq =
     (case event of
        None \<Rightarrow> Some p
      | Some ev \<Rightarrow>
          (case guard_seenOrMark (au_guard p) ev sq of
             None \<Rightarrow> None
           | Some (seen, g) \<Rightarrow>
               (let p1 = p\<lparr>au_guard := g\<rparr> in Some (if seen then p1 else auth_switch env ev sq p1))))"

definition Auth_CompleteStartupReplay :: "credentials \<Rightarrow> credentials" where
  "Auth_CompleteStartupReplay p = p\<lparr>au_guard := guard_completeReplay (au_guard p)\<rparr>"

section \<open>Reads\<close>

text \<open>An account that is known and not deleted; a bot among them.\<close>

definition live_auth :: "credentials \<Rightarrow> string \<Rightarrow> user_auth option" where
  "live_auth p u =
     (case fmlookup (au_users p) u of None \<Rightarrow> None | Some a \<Rightarrow> if xu_deleted a then None else Some a)"

definition live_bot_auth :: "credentials \<Rightarrow> string \<Rightarrow> user_auth option" where
  "live_bot_auth p u =
     (case live_auth p u of None \<Rightarrow> None | Some a \<Rightarrow> if xu_is_bot a then Some a else None)"

record api_key_credential =
  kc_id :: string
  kc_name :: string
  kc_verifier :: string
  kc_created_at :: time
  kc_rollback_visible :: bool

definition key_credential :: "string \<Rightarrow> bot_api_key \<Rightarrow> api_key_credential" where
  "key_credential i k =
     \<lparr>kc_id = i, kc_name = bk_name k, kc_verifier = bk_verifier k, kc_created_at = bk_created_at k,
      kc_rollback_visible = bk_rollback_visible k\<rparr>"

text \<open>The range over the keys has no order; the last match of the sorted identifiers stands for it.\<close>

definition MatchBotAPIKeyCredential :: "credentials \<Rightarrow> string \<Rightarrow> string \<Rightarrow> api_key_credential option" where
  "MatchBotAPIKeyCredential p u verifier =
     (case live_bot_auth p u of
        None \<Rightarrow> None
      | Some a \<Rightarrow>
          if verifier = [] then None
          else fold (\<lambda>i found.
                 let k = the (fmlookup (xu_keys a) i) in
                 if verifier = bk_verifier k then Some (key_credential i k) else found)
               (sortedMapKeys (xu_keys a)) None)"

definition BotAPIKeyCredentials :: "credentials \<Rightarrow> string \<Rightarrow> api_key_credential list" where
  "BotAPIKeyCredentials p u =
     (case live_bot_auth p u of
        None \<Rightarrow> []
      | Some a \<Rightarrow>
          sort_key (\<lambda>c. (kc_created_at c, kc_id c))
            (map (\<lambda>i. key_credential i (the (fmlookup (xu_keys a) i))) (sortedMapKeys (xu_keys a))))"

definition BotAPIKeyLegacyCreatedAt :: "credentials \<Rightarrow> string \<Rightarrow> time" where
  "BotAPIKeyLegacyCreatedAt p u =
     (case live_bot_auth p u of None \<Rightarrow> zero_time | Some a \<Rightarrow> xu_key_created_at a)"

record webhook_credential =
  wc_id :: string
  wc_name :: string
  wc_verifier :: string
  wc_created_at :: time

definition webhook_credential_of :: "string \<Rightarrow> bot_webhook \<Rightarrow> webhook_credential" where
  "webhook_credential_of i w =
     \<lparr>wc_id = i, wc_name = bw_name w, wc_verifier = bw_verifier w, wc_created_at = bw_created_at w\<rparr>"

definition BotIncomingWebhookCredential :: "credentials \<Rightarrow> string \<Rightarrow> string \<Rightarrow> webhook_credential option" where
  "BotIncomingWebhookCredential p u webhookID =
     (case live_bot_auth p u of
        None \<Rightarrow> None
      | Some a \<Rightarrow>
          (let i = normalizedIncomingWebhookID webhookID in
           case fmlookup (xu_webhooks a) i of
             None \<Rightarrow> None
           | Some w \<Rightarrow> if bw_verifier w = [] then None else Some (webhook_credential_of i w)))"

definition BotIncomingWebhookCredentials :: "credentials \<Rightarrow> string \<Rightarrow> webhook_credential list" where
  "BotIncomingWebhookCredentials p u =
     (case live_bot_auth p u of
        None \<Rightarrow> []
      | Some a \<Rightarrow>
          sort_key (\<lambda>c. (wc_created_at c, wc_id c))
            (map (\<lambda>i. webhook_credential_of i (the (fmlookup (xu_webhooks a) i))) (sortedMapKeys (xu_webhooks a))))"

definition ExternalIdentityOwnerID :: "auth_env \<Rightarrow> credentials \<Rightarrow> string \<Rightarrow> string \<Rightarrow> string option" where
  "ExternalIdentityOwnerID env p issuer subject =
     (case fmlookup (au_identityIndex p) (externalIdentityHash env issuer subject) of
        None \<Rightarrow> None
      | Some u \<Rightarrow> if u = [] then None else Some u)"

text \<open>The owner of an identity with the generation its sign-in must carry.\<close>

definition ExternalIdentityAuthentication ::
  "auth_env \<Rightarrow> credentials \<Rightarrow> string \<Rightarrow> string \<Rightarrow> (string \<times> seq) option" where
  "ExternalIdentityAuthentication env p issuer subject =
     (case ExternalIdentityOwnerID env p issuer subject of
        None \<Rightarrow> None
      | Some u \<Rightarrow>
          (case live_auth p u of None \<Rightarrow> None | Some a \<Rightarrow> Some (u, xu_generation a)))"

definition ExternalIdentities :: "credentials \<Rightarrow> string \<Rightarrow> external_identity list" where
  "ExternalIdentities p u =
     (case live_auth p u of
        None \<Rightarrow> []
      | Some a \<Rightarrow> sort_key (\<lambda>i. (xi_provider_id i, xi_subject_hash i)) (sortedMapValues (xu_identities a)))"

definition PasswordHash :: "credentials \<Rightarrow> string \<Rightarrow> string option" where
  "PasswordHash p u =
     (case live_auth p u of
        None \<Rightarrow> None
      | Some a \<Rightarrow> if xu_password a = [] then None else Some (xu_password a))"

definition AuthGeneration :: "credentials \<Rightarrow> string \<Rightarrow> seq option" where
  "AuthGeneration p u =
     (case live_auth p u of
        None \<Rightarrow> None
      | Some a \<Rightarrow> if xu_deactivated a then None else Some (xu_generation a))"

definition HasExternalIdentity :: "credentials \<Rightarrow> string \<Rightarrow> bool" where
  "HasExternalIdentity p u = (case live_auth p u of None \<Rightarrow> False | Some a \<Rightarrow> xu_identities a \<noteq> fmempty)"

definition HasOAuthConsent :: "credentials \<Rightarrow> string \<Rightarrow> string \<Rightarrow> bool" where
  "HasOAuthConsent p u key =
     (case live_auth p u of None \<Rightarrow> False | Some a \<Rightarrow> key \<noteq> [] \<and> key |\<in>| xu_consents a)"

definition VerifiedAccountIDs :: "credentials \<Rightarrow> string list" where
  "VerifiedAccountIDs p =
     sorted_list_of_fset (ffilter (\<lambda>u. live_auth p u \<noteq> None) (fmran (au_identityIndex p)))"

definition IdentityCount :: "credentials \<Rightarrow> nat" where
  "IdentityCount p = length (sortedMapKeys (au_identityIndex p))"

section \<open>Watching\<close>

definition key_active :: "credentials \<Rightarrow> string \<Rightarrow> string \<Rightarrow> bool" where
  "key_active p u verifier \<longleftrightarrow>
     (case live_bot_auth p u of
        None \<Rightarrow> False
      | Some a \<Rightarrow>
          \<not> xu_deactivated a
          \<and> (case fmlookup (au_users p) (xu_owner a) of None \<Rightarrow> False | Some o' \<Rightarrow> \<not> xu_deactivated o')
          \<and> list_ex (\<lambda>i. bk_verifier (the (fmlookup (xu_keys a) i)) = verifier) (sortedMapKeys (xu_keys a)))"

text \<open>A refused watch returns a channel that is closed already.\<close>

definition watchBotAPIKeyInvalidated ::
  "string \<Rightarrow> string \<Rightarrow> credentials \<Rightarrow> channel \<times> 64 word option \<times> credentials" where
  "watchBotAPIKeyInvalidated u verifier p =
     (let c = au_channels p; p1 = p\<lparr>au_channels := c + 1\<rparr> in
      if \<not> key_active p u verifier then (c, None, p1\<lparr>au_closed := finsert c (au_closed p1)\<rparr>)
      else (let i = au_nextWatcher p + 1
            in (c, Some i,
                p1\<lparr>au_nextWatcher := i,
                   au_keyWatchers := fmupd u (fmupd i (verifier, c) (watchers_of p u)) (au_keyWatchers p1)\<rparr>)))"

definition cancelBotAPIKeyWatch :: "string \<Rightarrow> 64 word \<Rightarrow> credentials \<Rightarrow> credentials" where
  "cancelBotAPIKeyWatch u i p =
     (case fmlookup (au_keyWatchers p) u of
        None \<Rightarrow> p
      | Some ws \<Rightarrow>
          (let rest = fmdrop i ws in
           p\<lparr>au_keyWatchers := (if rest = fmempty then fmdrop u (au_keyWatchers p)
                                else fmupd u rest (au_keyWatchers p))\<rparr>))"

definition access_watchers :: "credentials \<Rightarrow> string \<Rightarrow> channel fset" where
  "access_watchers p u = (case fmlookup (au_accessWatchers p) u of None \<Rightarrow> {||} | Some cs \<Rightarrow> cs)"

definition WatchAccountAccessInvalidated :: "string \<Rightarrow> credentials \<Rightarrow> channel \<times> credentials" where
  "WatchAccountAccessInvalidated u p =
     (let c = au_channels p; p1 = p\<lparr>au_channels := c + 1\<rparr> in
      if (case live_auth p u of None \<Rightarrow> True | Some a \<Rightarrow> xu_deactivated a)
      then (c, p1\<lparr>au_closed := finsert c (au_closed p1)\<rparr>)
      else (c, p1\<lparr>au_accessWatchers := fmupd u (finsert c (access_watchers p u)) (au_accessWatchers p1)\<rparr>))"

definition cancelAccountAccessWatch :: "string \<Rightarrow> channel \<Rightarrow> credentials \<Rightarrow> credentials" where
  "cancelAccountAccessWatch u c p =
     (let rest = access_watchers p u |-| {|c|} in
      p\<lparr>au_accessWatchers := (if rest = {||} then fmdrop u (au_accessWatchers p)
                              else fmupd u rest (au_accessWatchers p))\<rparr>)"

end
