(* ===== verification/Credentials_Properties.thy ===== *)
theory Credentials_Properties
  imports Credentials
begin

text \<open>
  What the projection of credentials promises: a deleted or erased account has nothing left to
  sign in with and never gets anything again, the generation of an account is the sequence of
  the last fact that invalidated its credentials, an identity signs in to a live account that
  lists it, and a connection watching a key is closed as soon as the key stops working.
\<close>

section \<open>The contract of a guarded projection\<close>

definition set_au_guard :: "replay_guard \<Rightarrow> credentials \<Rightarrow> credentials" where
  "set_au_guard g p = p\<lparr>au_guard := g\<rparr>"

lemma set_au_guard_sel [simp]:
  "au_users (set_au_guard g p) = au_users p" "au_identityIndex (set_au_guard g p) = au_identityIndex p"
  "au_guard (set_au_guard g p) = g" "au_nextWatcher (set_au_guard g p) = au_nextWatcher p"
  "au_keyWatchers (set_au_guard g p) = au_keyWatchers p"
  "au_accessWatchers (set_au_guard g p) = au_accessWatchers p"
  "au_channels (set_au_guard g p) = au_channels p" "au_closed (set_au_guard g p) = au_closed p"
  by (simp_all add: set_au_guard_def)

lemma au_guard_reads [simp]:
  "auth_of (set_au_guard g p) u = auth_of p u" "watchers_of (set_au_guard g p) u = watchers_of p u"
  "bots_owned (set_au_guard g p) u = bots_owned p u"
  by (simp_all add: auth_of_def watchers_of_def bots_owned_def)

lemma au_guard_parts [keeps_guard]:
  "edit_auth u f (set_au_guard g p) = set_au_guard g (edit_auth u f p)"
  "close_watchers t u (set_au_guard g p) = set_au_guard g (close_watchers t u p)"
  "closeBotAPIKeyWatchers u (set_au_guard g p) = set_au_guard g (closeBotAPIKeyWatchers u p)"
  "deleteIdentityIndex u (set_au_guard g p) = set_au_guard g (deleteIdentityIndex u p)"
  "close_access u (set_au_guard g p) = set_au_guard g (close_access u p)"
  "(set_au_guard g p)\<lparr>au_identityIndex := ix\<rparr> = set_au_guard g (p\<lparr>au_identityIndex := ix\<rparr>)"
  by (simp_all add: edit_auth_def close_watchers_def closeBotAPIKeyWatchers_def deleteIdentityIndex_def
      close_access_def set_au_guard_def auth_of_def watchers_of_def Let_def split: option.split)

lemma au_guard_fold [keeps_guard]:
  "fold closeBotAPIKeyWatchers us (set_au_guard g p) = set_au_guard g (fold closeBotAPIKeyWatchers us p)"
  by (induction us arbitrary: p) (simp_all add: keeps_guard)

lemma au_guard_revoke [keeps_guard]:
  "revokeBotAPIKey u i (set_au_guard g p) = set_au_guard g (revokeBotAPIKey u i p)"
  by (simp add: revokeBotAPIKey_def keeps_guard split: option.split)

lemma au_guard_link [keeps_guard]:
  "link_identity u h i (set_au_guard g p) = set_au_guard g (link_identity u h i p)"
  by (simp add: link_identity_def keeps_guard Let_def)

lemmas auth_op_defs =
  auth_applyAccountCreated_def auth_applyOwnerReassigned_def applyPasswordHashChanged_def
  applyOIDCSubjectLinked_def applyExternalIdentityLinked_def applyExternalIdentityUnlinked_def
  add_consent_def applyOAuthConsentGranted_def applyOAuthScopedConsentGranted_def
  auth_applyAccountDeleted_def auth_applyKeyShredded_def applyDeactivationChanged_def
  applyBotAPIKeyCreated_def applyBotAPIKeyRotated_def applyBotAPIKeyAdded_def applyBotAPIKeyRevoked_def
  applyBotIncomingWebhookCreated_def applyBotIncomingWebhookRotated_def applyBotIncomingWebhookRevoked_def

lemma account_switch_guard: "account_switch e sq (set_au_guard g p) = set_au_guard g (account_switch e sq p)"
  by (cases e) (simp_all add: account_switch_def auth_op_defs keeps_guard Let_def)

lemma auth_switch_guard: "auth_switch env ev sq (set_au_guard g p) = set_au_guard g (auth_switch env ev sq p)"
proof (cases "ev_payload ev")
  case (Some e)
  then show ?thesis
    by (cases e) (simp_all add: auth_switch_def account_switch_guard auth_op_defs keeps_guard Let_def)
qed (simp add: auth_switch_def)

interpretation credentials: guarded_projection au_guard set_au_guard "auth_switch env" "Auth_Apply env"
  Auth_CompleteStartupReplay for env
proof
  fix p :: credentials and ev :: "auth_event event" and sq
  show "Auth_Apply env p (Some ev) sq =
      (case guard_seenOrMark (au_guard p) ev sq of
         None \<Rightarrow> None
       | Some (seen, g) \<Rightarrow> Some (if seen then set_au_guard g p else auth_switch env ev sq (set_au_guard g p)))"
    by (simp add: Auth_Apply_def set_au_guard_def Let_def split: option.split)
qed (simp_all add: auth_switch_guard, simp_all add: set_au_guard_def Auth_Apply_def Auth_CompleteStartupReplay_def)

abbreviation credentials_of :: "auth_env \<Rightarrow> (auth_event event \<times> seq) list \<Rightarrow> credentials" where
  "credentials_of env log \<equiv> reduce_log (auth_switch env) log newUserAuthProjection"

lemma replayed_credentials:
  assumes "clean_log (startup @ live)"
    and "replayed (Auth_Apply env) Auth_CompleteStartupReplay startup live newUserAuthProjection = Some p"
  obtains g where "p = set_au_guard g (credentials_of env (startup @ live))"
  using credentials.content.run_clean [OF _ assms(1), of newUserAuthProjection env] assms(2)
  by (auto simp: newUserAuthProjection_def)

section \<open>The accounts a fact touches\<close>

text \<open>Every fact that counts is about one account, whose entry exists afterwards.\<close>

definition account_of :: "auth_env \<Rightarrow> auth_event event \<Rightarrow> string option" where
  "account_of env ev =
     (let named = (\<lambda>u ok. if u \<noteq> [] \<and> ok then Some u else None) in
      case ev_payload ev of
        None \<Rightarrow> None
      | Some e \<Rightarrow>
          (case e of
             AccountFact f \<Rightarrow>
               (case f of
                  UserAccountCreated a \<Rightarrow> Some (ac_user_id a)
                | BotOwnerReassigned u _ _ \<Rightarrow> Some u
                | UserAccountDeleted u \<Rightarrow> named u True
                | UserAccountDeactivationChanged u _ \<Rightarrow> named u True
                | UserKeyShreddingRequested u \<Rightarrow> named u True
                | UserKeyShredded u \<Rightarrow> named u True
                | _ \<Rightarrow> None)
           | BotApiKeyCreated k \<Rightarrow> named (ak_user_id k) (ak_verifier k \<noteq> [])
           | BotApiKeyRotated k \<Rightarrow> named (ak_user_id k) (ak_verifier k \<noteq> [])
           | BotApiKeyAdded k \<Rightarrow> named (ak_user_id k) (ak_key_id k \<noteq> [] \<and> ak_verifier k \<noteq> [])
           | BotApiKeyRevoked u i \<Rightarrow> named u (i \<noteq> [])
           | BotIncomingWebhookCreated w \<Rightarrow> named (wh_user_id w) (wh_verifier w \<noteq> [])
           | BotIncomingWebhookRotated w \<Rightarrow> named (wh_user_id w) (wh_verifier w \<noteq> [])
           | BotIncomingWebhookRevoked u i \<Rightarrow> named u True
           | UserPasswordHashChanged u h keep \<Rightarrow> named u True
           | UserOidcSubjectLinked i \<Rightarrow> named (xf_user_id i) (identity_hash_of env i \<noteq> [])
           | UserExternalIdentityLinked i \<Rightarrow> named (xf_user_id i) (identity_hash_of env i \<noteq> [])
           | UserExternalIdentityUnlinked u h keep \<Rightarrow> named u (h \<noteq> [])
           | OauthConsentGranted c \<Rightarrow>
               named (oc_user_id c) (OAuthConsentKey env (oc_client_id c) (oc_redirect_origin c) \<noteq> [])
           | OauthScopedConsentGranted c \<Rightarrow>
               named (oc_user_id c)
                 (OAuthScopedConsentKey env (oc_client_id c) (oc_redirect_origin c) (oc_resource c) (oc_scopes c) \<noteq> [])))"

lemma edit_lookup: "fmlookup (au_users (edit_auth u f p)) v = (if v = u then Some (f (auth_of p u)) else fmlookup (au_users p) v)"
  by (simp add: edit_auth_def)

lemma edit_auth_of [simp]: "auth_of (edit_auth u f p) v = (if v = u then f (auth_of p u) else auth_of p v)"
  by (simp add: auth_of_def edit_auth_def)

lemma users_kept [simp]:
  "au_users (close_watchers t u p) = au_users p" "au_users (closeBotAPIKeyWatchers u p) = au_users p"
  "au_users (deleteIdentityIndex u p) = au_users p" "au_users (close_access u p) = au_users p"
  "au_users (fold closeBotAPIKeyWatchers us p) = au_users p"
proof -
  show close: "au_users (closeBotAPIKeyWatchers u p) = au_users p" for u p
    by (simp add: closeBotAPIKeyWatchers_def)
  show "au_users (fold closeBotAPIKeyWatchers us p) = au_users p"
    by (induction us arbitrary: p) (simp_all add: close)
qed (simp_all add: close_watchers_def deleteIdentityIndex_def close_access_def Let_def)

lemma auth_kept [simp]:
  "auth_of (close_watchers t u p) v = auth_of p v" "auth_of (closeBotAPIKeyWatchers u p) v = auth_of p v"
  "auth_of (deleteIdentityIndex u p) v = auth_of p v" "auth_of (close_access u p) v = auth_of p v"
  "auth_of (p\<lparr>au_identityIndex := ix\<rparr>) v = auth_of p v"
  by (simp_all add: auth_of_def)

lemma auth_revoke [simp]:
  "auth_of (revokeBotAPIKey u i p) v =
     (if v = u then (auth_of p u)\<lparr>xu_keys := fmdrop i (xu_keys (auth_of p u))\<rparr> else auth_of p v)"
proof (cases "fmlookup (xu_keys (auth_of p u)) i")
  case None
  then have "fmdrop i (xu_keys (auth_of p u)) = xu_keys (auth_of p u)" by (intro fmap_eqI) auto
  then show ?thesis using None by (simp add: revokeBotAPIKey_def)
qed (simp add: revokeBotAPIKey_def)

lemma known_revoke:
  "fmlookup (au_users (revokeBotAPIKey u i (edit_auth u f p))) v = None \<longleftrightarrow>
     v \<noteq> u \<and> fmlookup (au_users p) v = None"
  by (auto simp: revokeBotAPIKey_def edit_lookup split: option.split)

lemma known_edit: "fmlookup (au_users (edit_auth u f p)) v = None \<longleftrightarrow> v \<noteq> u \<and> fmlookup (au_users p) v = None"
  by (simp add: edit_lookup)

lemma link_auth [simp]:
  "auth_of (link_identity u h i p) v =
     (if v = u \<and> \<not> xu_deleted (auth_of p u)
      then (auth_of p u)\<lparr>xu_identities := fmupd h i (xu_identities (auth_of p u))\<rparr> else auth_of p v)"
  by (auto simp: link_identity_def Let_def)

lemma known_link: "fmlookup (au_users (link_identity u h i p)) v = None \<longleftrightarrow> v \<noteq> u \<and> fmlookup (au_users p) v = None"
  by (simp add: link_identity_def Let_def known_edit)

lemma deactivation_auth [simp]:
  "auth_of (applyDeactivationChanged u d sq p) v =
     (if v = u \<and> u \<noteq> [] then (auth_of p u)\<lparr>xu_deactivated := d, xu_generation := sq\<rparr> else auth_of p v)"
proof -
  have "auth_of (fold closeBotAPIKeyWatchers us q) w = auth_of q w" for us q w
    by (simp add: auth_of_def)
  then show ?thesis by (simp add: applyDeactivationChanged_def Let_def)
qed

text \<open>What a fact says of an account.\<close>

definition deletes :: "auth_event event \<Rightarrow> string \<Rightarrow> bool" where
  "deletes ev u \<longleftrightarrow>
     u \<noteq> [] \<and> (ev_payload ev = Some (AccountFact (UserAccountDeleted u))
                \<or> ev_payload ev = Some (AccountFact (UserKeyShreddingRequested u))
                \<or> ev_payload ev = Some (AccountFact (UserKeyShredded u)))"

definition sets_deactivated :: "auth_event event \<Rightarrow> string \<Rightarrow> bool option" where
  "sets_deactivated ev u =
     (case ev_payload ev of
        Some (AccountFact (UserAccountDeactivationChanged v d)) \<Rightarrow> if v = u \<and> u \<noteq> [] then Some d else None
      | _ \<Rightarrow> None)"

text \<open>The facts after which a credential issued before must not be accepted any more.\<close>

definition invalidates :: "auth_event event \<Rightarrow> string \<Rightarrow> bool" where
  "invalidates ev u \<longleftrightarrow>
     deletes ev u \<or> sets_deactivated ev u \<noteq> None
     \<or> u \<noteq> [] \<and> (\<exists>h. ev_payload ev = Some (UserPasswordHashChanged u h False))
     \<or> u \<noteq> [] \<and> (\<exists>h. h \<noteq> [] \<and> ev_payload ev = Some (UserExternalIdentityUnlinked u h False))"

lemma step_known:
  "fmlookup (au_users (auth_switch env ev sq p)) u = None \<longleftrightarrow>
     fmlookup (au_users p) u = None \<and> account_of env ev \<noteq> Some u"
proof (cases "ev_payload ev")
  case (Some e)
  show ?thesis
  proof (cases e)
    case (AccountFact f)
    then show ?thesis
      using Some
      by (cases f) (auto simp: auth_switch_def account_switch_def account_of_def auth_op_defs known_edit Let_def)
  qed (use Some in \<open>auto simp: auth_switch_def account_of_def auth_op_defs known_edit known_link known_revoke Let_def\<close>)
qed (simp add: auth_switch_def account_of_def)

lemma step_deleted:
  "xu_deleted (auth_of (auth_switch env ev sq p) u) \<longleftrightarrow> xu_deleted (auth_of p u) \<or> deletes ev u"
proof (cases "ev_payload ev")
  case (Some e)
  show ?thesis
  proof (cases e)
    case (AccountFact f)
    then show ?thesis
      using Some
      by (cases f) (auto simp: auth_switch_def account_switch_def deletes_def auth_op_defs(1,2,10,11) erase_auth_def)
  qed (use Some in \<open>auto simp: auth_switch_def deletes_def auth_op_defs Let_def split: option.split\<close>)
qed (simp add: auth_switch_def deletes_def)

lemma step_deactivated:
  "xu_deactivated (auth_of (auth_switch env ev sq p) u) =
     (case sets_deactivated ev u of None \<Rightarrow> xu_deactivated (auth_of p u) | Some d \<Rightarrow> d)"
proof (cases "ev_payload ev")
  case (Some e)
  show ?thesis
  proof (cases e)
    case (AccountFact f)
    then show ?thesis
      using Some
      by (cases f) (auto simp: auth_switch_def account_switch_def sets_deactivated_def auth_op_defs(1,2,10,11) erase_auth_def)
  qed (use Some in \<open>auto simp: auth_switch_def sets_deactivated_def auth_op_defs Let_def split: option.split\<close>)
qed (simp add: auth_switch_def sets_deactivated_def)

lemma step_generation:
  assumes "\<not> xu_deleted (auth_of p u)"
  shows "xu_generation (auth_of (auth_switch env ev sq p) u) =
     (if invalidates ev u then sq else xu_generation (auth_of p u))"
proof (cases "ev_payload ev")
  case (Some e)
  show ?thesis
  proof (cases e)
    case (AccountFact f)
    then show ?thesis
      using Some
      by (cases f) (auto simp: auth_switch_def account_switch_def invalidates_def deletes_def sets_deactivated_def
          auth_op_defs(1,2,10,11) erase_auth_def)
  qed (use Some assms in \<open>auto simp: auth_switch_def invalidates_def deletes_def sets_deactivated_def auth_op_defs Let_def split: option.split\<close>)
qed (simp add: auth_switch_def invalidates_def deletes_def sets_deactivated_def)

section \<open>Generations\<close>

definition known_in :: "auth_env \<Rightarrow> (auth_event event \<times> seq) list \<Rightarrow> string \<Rightarrow> bool" where
  "known_in env log u \<longleftrightarrow> (\<exists>x \<in> set log. account_of env (fst x) = Some u)"

definition deleted_in :: "(auth_event event \<times> seq) list \<Rightarrow> string \<Rightarrow> bool" where
  "deleted_in log u \<longleftrightarrow> (\<exists>x \<in> set log. deletes (fst x) u)"

definition deactivated_in :: "(auth_event event \<times> seq) list \<Rightarrow> string \<Rightarrow> bool" where
  "deactivated_in log u =
     fold (\<lambda>x b. case sets_deactivated (fst x) u of None \<Rightarrow> b | Some d \<Rightarrow> d) log False"

definition last_invalidation :: "(auth_event event \<times> seq) list \<Rightarrow> string \<Rightarrow> seq" where
  "last_invalidation log u = fold (\<lambda>(ev, sq) g. if invalidates ev u then sq else g) log 0"

lemma account_of_log:
  "(fmlookup (au_users (credentials_of env log)) u = None \<longleftrightarrow> \<not> known_in env log u)
   \<and> (xu_deleted (auth_of (credentials_of env log) u) \<longleftrightarrow> deleted_in log u)
   \<and> xu_deactivated (auth_of (credentials_of env log) u) = deactivated_in log u
   \<and> (\<not> deleted_in log u \<longrightarrow> xu_generation (auth_of (credentials_of env log) u) = last_invalidation log u)"
proof (induction log rule: rev_induct)
  case Nil
  show ?case
    by (simp add: newUserAuthProjection_def auth_of_def new_user_auth_def known_in_def deleted_in_def
        deactivated_in_def last_invalidation_def)
next
  case (snoc x log)
  obtain ev sq where x: "x = (ev, sq)" by force
  have step: "credentials_of env (log @ [x]) = auth_switch env ev sq (credentials_of env log)"
    by (simp add: x reduce_log_append)
  have known: "known_in env (log @ [x]) u \<longleftrightarrow> known_in env log u \<or> account_of env ev = Some u"
    and deleted: "deleted_in (log @ [x]) u \<longleftrightarrow> deleted_in log u \<or> deletes ev u"
    by (auto simp: x known_in_def deleted_in_def)
  have state: "deactivated_in (log @ [x]) u = (case sets_deactivated ev u of None \<Rightarrow> deactivated_in log u | Some d \<Rightarrow> d)"
    "last_invalidation (log @ [x]) u = (if invalidates ev u then sq else last_invalidation log u)"
    unfolding x deactivated_in_def last_invalidation_def by simp_all
  from snoc have users: "(fmlookup (au_users (credentials_of env log)) u = None) = (\<not> known_in env log u)"
    and gone: "xu_deleted (auth_of (credentials_of env log) u) = deleted_in log u"
    and off: "xu_deactivated (auth_of (credentials_of env log) u) = deactivated_in log u"
    and gen: "\<not> deleted_in log u \<Longrightarrow> xu_generation (auth_of (credentials_of env log) u) = last_invalidation log u"
    by blast+
  have "xu_generation (auth_of (auth_switch env ev sq (credentials_of env log)) u)
      = (if invalidates ev u then sq else last_invalidation log u)"
    if "\<not> deleted_in log u"
    using step_generation [of "credentials_of env log" u env ev sq] that
    unfolding gone gen [OF that] by blast
  then show ?case
    unfolding step known deleted state step_known step_deleted step_deactivated users gone off by simp
qed

lemma live_auth_log:
  "live_auth (set_au_guard g (credentials_of env log)) u =
     (if known_in env log u \<and> \<not> deleted_in log u then Some (auth_of (credentials_of env log) u) else None)"
  using account_of_log [of env log u]
  by (auto simp: live_auth_def auth_of_def split: option.splits)

text \<open>C15 (refinement). The generation that a session must carry is the sequence of the last fact that
  invalidated the credentials of its account: a changed password or an unlinked identity
  that did not keep them, a deactivation or a reactivation. So a session issued before such a
  fact is refused for ever after, also when the account is reactivated, one issued later is
  accepted, and an unknown, deactivated, deleted or erased account has no generation at all.\<close>

theorem auth_generation_exact:
  assumes "clean_log (startup @ live)"
    and "replayed (Auth_Apply env) Auth_CompleteStartupReplay startup live newUserAuthProjection = Some p"
  shows "AuthGeneration p u =
    (if known_in env (startup @ live) u \<and> \<not> deleted_in (startup @ live) u
        \<and> \<not> deactivated_in (startup @ live) u
     then Some (last_invalidation (startup @ live) u) else None)"
proof -
  obtain g where p: "p = set_au_guard g (credentials_of env (startup @ live))"
    by (rule replayed_credentials [OF assms])
  show ?thesis
    using account_of_log [of env "startup @ live" u] by (simp add: AuthGeneration_def p live_auth_log)
qed

section \<open>Nothing is left after a deletion\<close>

definition wiped :: "user_auth \<Rightarrow> bool" where
  "wiped a \<longleftrightarrow> xu_password a = [] \<and> xu_identities a = fmempty \<and> xu_consents a = {||}
     \<and> xu_keys a = fmempty \<and> xu_webhooks a = fmempty"

definition deleted_wiped :: "credentials \<Rightarrow> bool" where
  "deleted_wiped p \<longleftrightarrow> (\<forall>u. xu_deleted (auth_of p u) \<longrightarrow> wiped (auth_of p u))"

text \<open>The index leads to live accounts that list the identity.\<close>

definition index_ok :: "credentials \<Rightarrow> bool" where
  "index_ok p \<longleftrightarrow>
     (\<forall>h u. fmlookup (au_identityIndex p) h = Some u \<longrightarrow>
        h \<noteq> [] \<and> u \<noteq> [] \<and> fmlookup (au_users p) u \<noteq> None \<and> \<not> xu_deleted (auth_of p u)
        \<and> fmlookup (xu_identities (auth_of p u)) h \<noteq> None)"

lemma step_wiped:
  assumes "deleted_wiped p"
  shows "deleted_wiped (auth_switch env ev sq p)"
proof -
  have "wiped (auth_of (auth_switch env ev sq p) u)"
    if "xu_deleted (auth_of (auth_switch env ev sq p) u)" for u
  proof -
    have old: "xu_deleted (auth_of p u) \<Longrightarrow> wiped (auth_of p u)" using assms by (simp add: deleted_wiped_def)
    show ?thesis
    proof (cases "ev_payload ev")
      case (Some e)
      show ?thesis
      proof (cases e)
        case (AccountFact f)
        then show ?thesis
          using Some that old
          by (cases f) (auto simp: auth_switch_def account_switch_def auth_op_defs(1,2,10,11) erase_auth_def
              wiped_def split: if_splits)
      qed (use Some that old in \<open>auto simp: auth_switch_def auth_op_defs Let_def live_bot_def wiped_def
             split: option.splits if_splits\<close>)
    qed (use that old in \<open>simp add: auth_switch_def\<close>)
  qed
  then show ?thesis by (simp add: deleted_wiped_def)
qed

lemma index_kept [simp]:
  "au_identityIndex (edit_auth u f p) = au_identityIndex p"
  "au_identityIndex (close_watchers t u p) = au_identityIndex p"
  "au_identityIndex (closeBotAPIKeyWatchers u p) = au_identityIndex p"
  "au_identityIndex (close_access u p) = au_identityIndex p"
  "au_identityIndex (revokeBotAPIKey u i p) = au_identityIndex p"
  "au_identityIndex (applyDeactivationChanged u d sq p) = au_identityIndex p"
proof -
  show close: "au_identityIndex (closeBotAPIKeyWatchers u p) = au_identityIndex p" for u p
    by (simp add: closeBotAPIKeyWatchers_def)
  show access: "au_identityIndex (close_access u p) = au_identityIndex p" for u p
    by (simp add: close_access_def)
  show edit: "au_identityIndex (edit_auth u f p) = au_identityIndex p" for u f p
    by (simp add: edit_auth_def)
  show "au_identityIndex (close_watchers t u p) = au_identityIndex p" for t u p
    by (simp add: close_watchers_def Let_def)
  then show "au_identityIndex (revokeBotAPIKey u i p) = au_identityIndex p"
    by (simp add: revokeBotAPIKey_def edit split: option.split)
  have "au_identityIndex (fold closeBotAPIKeyWatchers us q) = au_identityIndex q" for us q
    by (induction us arbitrary: q) (simp_all add: close)
  then show "au_identityIndex (applyDeactivationChanged u d sq p) = au_identityIndex p"
    by (simp add: applyDeactivationChanged_def Let_def close access edit)
qed

text \<open>The three facts that change the index.\<close>

definition index_entry :: "auth_env \<Rightarrow> auth_event event \<Rightarrow> credentials \<Rightarrow> string \<Rightarrow> string option" where
  "index_entry env ev p h =
     (let old = fmlookup (au_identityIndex p) h;
          linked = (\<lambda>i. if xf_user_id i \<noteq> [] \<and> identity_hash_of env i = h \<and> h \<noteq> []
                          \<and> \<not> xu_deleted (auth_of p (xf_user_id i)) then Some (xf_user_id i) else old)
      in case ev_payload ev of
           Some (UserOidcSubjectLinked i) \<Rightarrow> linked i
         | Some (UserExternalIdentityLinked i) \<Rightarrow> linked i
         | Some (UserExternalIdentityUnlinked u g keep) \<Rightarrow>
             if u \<noteq> [] \<and> g \<noteq> [] \<and> g = h \<and> old = Some u then None else old
         | _ \<Rightarrow> if \<exists>u. old = Some u \<and> deletes ev u then None else old)"

lemma step_index:
  "fmlookup (au_identityIndex (auth_switch env ev sq p)) h = index_entry env ev p h"
proof (cases "ev_payload ev")
  case (Some e)
  show ?thesis
  proof (cases e)
    case (AccountFact f)
    then show ?thesis
      using Some
      by (cases f) (auto simp: auth_switch_def account_switch_def auth_op_defs(1,2,10,11) index_entry_def deletes_def
          deleteIdentityIndex_def Let_def)
  qed (use Some in \<open>auto simp: auth_switch_def auth_op_defs index_entry_def deletes_def link_identity_def Let_def\<close>)
qed (simp add: auth_switch_def index_entry_def deletes_def Let_def)

lemma step_identity_kept:
  assumes "fmlookup (xu_identities (auth_of p u)) h \<noteq> None" and "\<not> deletes ev u"
    and "\<And>keep. ev_payload ev \<noteq> Some (UserExternalIdentityUnlinked u h keep)"
  shows "fmlookup (xu_identities (auth_of (auth_switch env ev sq p) u)) h \<noteq> None"
proof (cases "ev_payload ev")
  case (Some e)
  show ?thesis
  proof (cases e)
    case (AccountFact f)
    then show ?thesis
      using Some assms
      by (cases f) (auto simp: auth_switch_def account_switch_def deletes_def auth_op_defs(1,2,10,11))
  qed (use Some assms in \<open>auto simp: auth_switch_def auth_op_defs Let_def split: option.split\<close>)
qed (use assms in \<open>simp add: auth_switch_def\<close>)

lemma step_identity_linked:
  assumes "ev_payload ev = Some (UserOidcSubjectLinked i) \<or> ev_payload ev = Some (UserExternalIdentityLinked i)"
    and "xf_user_id i = u" and "u \<noteq> []" and "identity_hash_of env i = h" and "h \<noteq> []"
    and "\<not> xu_deleted (auth_of p u)"
  shows "fmlookup (xu_identities (auth_of (auth_switch env ev sq p) u)) h \<noteq> None" and "account_of env ev = Some u"
    and "\<not> deletes ev u"
  using assms by (auto simp: auth_switch_def auth_op_defs Let_def account_of_def deletes_def)

lemma step_index_ok:
  assumes "index_ok p"
  shows "index_ok (auth_switch env ev sq p)"
  unfolding index_ok_def
proof (intro allI impI)
  fix h u
  let ?q = "auth_switch env ev sq p"
  assume "fmlookup (au_identityIndex ?q) h = Some u"
  then have entry: "index_entry env ev p h = Some u" by (simp add: step_index)
  show "h \<noteq> [] \<and> u \<noteq> [] \<and> fmlookup (au_users ?q) u \<noteq> None \<and> \<not> xu_deleted (auth_of ?q u)
      \<and> fmlookup (xu_identities (auth_of ?q u)) h \<noteq> None"
  proof (cases "fmlookup (au_identityIndex p) h = Some u")
    case True
    then have old: "h \<noteq> []" "u \<noteq> []" "fmlookup (au_users p) u \<noteq> None" "\<not> xu_deleted (auth_of p u)"
      "fmlookup (xu_identities (auth_of p u)) h \<noteq> None"
      using assms by (auto simp: index_ok_def)
    have kept: "\<not> deletes ev u"
      using entry True by (auto simp: index_entry_def deletes_def)
    have "ev_payload ev \<noteq> Some (UserExternalIdentityUnlinked u h keep)" for keep
      using entry True old(1,2) by (auto simp: index_entry_def)
    then show ?thesis
      using old kept step_identity_kept [OF old(5) kept] by (simp add: step_known step_deleted)
  next
    case False
    then obtain i where i: "ev_payload ev = Some (UserOidcSubjectLinked i) \<or> ev_payload ev = Some (UserExternalIdentityLinked i)"
      "xf_user_id i = u" "u \<noteq> []" "identity_hash_of env i = h" "h \<noteq> []" "\<not> xu_deleted (auth_of p u)"
      using entry by (auto simp: index_entry_def Let_def split: option.splits auth_event.splits if_splits)
    show ?thesis
      using step_identity_linked [OF i] i(3,5,6) by (simp add: step_known step_deleted)
  qed
qed

lemma credentials_ok_of_log:
  "index_ok (credentials_of env log) \<and> deleted_wiped (credentials_of env log)"
proof (induction log rule: rev_induct)
  case Nil
  show ?case
    by (simp add: index_ok_def deleted_wiped_def newUserAuthProjection_def auth_of_def new_user_auth_def)
next
  case (snoc x log)
  then show ?case
    by (cases x) (simp add: reduce_log_append step_index_ok step_wiped)
qed

text \<open>C14 (safety). A deleted or erased account never signs in again. Whatever facts come before or after
  the deletion, the account has no password, no API key, no webhook, no external identity and
  no consent, no identity of any provider leads to it, no session of it is accepted, and the
  stored record holds none of the secrets any more.\<close>

theorem deleted_account_has_no_credentials:
  assumes "clean_log (startup @ live)"
    and "replayed (Auth_Apply env) Auth_CompleteStartupReplay startup live newUserAuthProjection = Some p"
    and "(ev, sq) \<in> set (startup @ live)" and "deletes ev u"
  shows "PasswordHash p u = None \<and> MatchBotAPIKeyCredential p u verifier = None
    \<and> BotIncomingWebhookCredential p u webhook = None \<and> ExternalIdentities p u = []
    \<and> \<not> HasOAuthConsent p u key \<and> AuthGeneration p u = None
    \<and> ExternalIdentityOwnerID env p issuer subject \<noteq> Some u
    \<and> (\<forall>a. fmlookup (au_users p) u = Some a \<longrightarrow>
          xu_password a = [] \<and> xu_keys a = fmempty \<and> xu_webhooks a = fmempty \<and> xu_identities a = fmempty)"
proof -
  let ?log = "startup @ live"
  obtain g where p: "p = set_au_guard g (credentials_of env ?log)"
    by (rule replayed_credentials [OF assms(1,2)])
  have "deleted_in ?log u" using assms(3,4) by (force simp: deleted_in_def)
  then have dead: "live_auth p u = None" and deleted: "xu_deleted (auth_of (credentials_of env ?log) u)"
    using account_of_log [of env ?log u] by (simp_all add: p live_auth_log)
  note ok = credentials_ok_of_log [of env ?log]
  have "fmlookup (au_identityIndex p) h \<noteq> Some u" for h
    using ok deleted by (auto simp: index_ok_def p)
  moreover have "wiped a" if "fmlookup (au_users p) u = Some a" for a
  proof -
    have "auth_of (credentials_of env ?log) u = a" using that by (simp add: p auth_of_def)
    then show ?thesis using ok deleted unfolding deleted_wiped_def by blast
  qed
  ultimately show ?thesis
    using dead
    by (auto simp: PasswordHash_def MatchBotAPIKeyCredential_def live_bot_auth_def BotIncomingWebhookCredential_def
        ExternalIdentities_def HasOAuthConsent_def AuthGeneration_def ExternalIdentityOwnerID_def wiped_def
        split: option.splits)
qed

text \<open>Signing in with an external identity reaches a live account that lists this identity, and
  carries its current generation, so an unlink that comes between sign-in and the issue of a
  session invalidates it.\<close>

theorem identity_sign_in_sound:
  assumes "clean_log (startup @ live)"
    and "replayed (Auth_Apply env) Auth_CompleteStartupReplay startup live newUserAuthProjection = Some p"
    and "ExternalIdentityAuthentication env p issuer subject = Some (u, gen)"
  shows "HasExternalIdentity p u \<and> u \<in> set (VerifiedAccountIDs p)
    \<and> \<not> deleted_in (startup @ live) u \<and> gen = last_invalidation (startup @ live) u"
proof -
  let ?log = "startup @ live"
  obtain g where p: "p = set_au_guard g (credentials_of env ?log)"
    by (rule replayed_credentials [OF assms(1,2)])
  let ?h = "externalIdentityHash env issuer subject"
  have ix: "fmlookup (au_identityIndex p) ?h = Some u"
    using assms(3) by (auto simp: ExternalIdentityAuthentication_def ExternalIdentityOwnerID_def split: option.splits if_splits)
  obtain a where a: "live_auth p u = Some a" "gen = xu_generation a"
    using assms(3) by (auto simp: ExternalIdentityAuthentication_def ExternalIdentityOwnerID_def split: option.splits if_splits)
  then have "\<not> deleted_in ?log u" "a = auth_of (credentials_of env ?log) u"
    by (auto simp: p live_auth_log split: if_splits)
  moreover have "fmlookup (xu_identities (auth_of (credentials_of env ?log) u)) ?h \<noteq> None"
    using credentials_ok_of_log [of env ?log] ix by (auto simp: index_ok_def p)
  ultimately show ?thesis
    using account_of_log [of env ?log u] a ix
    by (auto simp: HasExternalIdentity_def VerifiedAccountIDs_def intro: fmranI)
qed

end
