(* ===== verification/Credentials_Connections.thy ===== *)
theory Credentials_Connections
  imports Credentials_Properties
begin

text \<open>
  Connections opened with the API key of a bot or in the name of an account: which facts close
  them, and that every other fact leaves them open.
\<close>

section \<open>Watchers survive or are closed\<close>

definition watcher_at :: "credentials \<Rightarrow> string \<Rightarrow> 64 word \<Rightarrow> key_watcher option" where
  "watcher_at p u i = fmlookup (watchers_of p u) i"

text \<open>No step forgets a watcher without closing its channel.\<close>

definition no_leak :: "credentials \<Rightarrow> credentials \<Rightarrow> bool" where
  "no_leak p q \<longleftrightarrow>
     au_closed p |\<subseteq>| au_closed q
     \<and> (\<forall>u i v c. watcher_at p u i = Some (v, c) \<longrightarrow> watcher_at q u i = Some (v, c) \<or> c |\<in>| au_closed q)"

lemma no_leak_refl [simp]: "no_leak p p"
  by (simp add: no_leak_def)

lemma no_leak_trans: "no_leak p q \<Longrightarrow> no_leak q r \<Longrightarrow> no_leak p r"
  unfolding no_leak_def by blast

lemma watcher_edit [simp]: "watcher_at (edit_auth u f p) v i = watcher_at p v i"
  by (simp add: watcher_at_def watchers_of_def edit_auth_def)

lemma watcher_index [simp]: "watcher_at (deleteIdentityIndex u p) v i = watcher_at p v i"
  "watcher_at (p\<lparr>au_identityIndex := ix\<rparr>) v i = watcher_at p v i"
  by (simp_all add: watcher_at_def watchers_of_def deleteIdentityIndex_def)

lemma watcher_access [simp]: "watcher_at (close_access u p) v i = watcher_at p v i"
  by (simp add: watcher_at_def watchers_of_def close_access_def)

lemma watcher_link [simp]: "watcher_at (link_identity u h x p) v i = watcher_at p v i"
  by (simp add: link_identity_def Let_def)

lemma watcher_close_all [simp]:
  "watcher_at (closeBotAPIKeyWatchers u p) v i = (if v = u then None else watcher_at p v i)"
  by (simp add: watcher_at_def watchers_of_def closeBotAPIKeyWatchers_def)

lemma watcher_close [simp]:
  "watcher_at (close_watchers t u p) v i =
     (case watcher_at p v i of None \<Rightarrow> None | Some w \<Rightarrow> if v = u \<and> t (fst w) then None else Some w)"
proof (cases "v = u")
  case False
  then show ?thesis
    by (auto simp: watcher_at_def watchers_of_def close_watchers_def Let_def split: option.split)
next
  case True
  define rest where
    "rest = fmfilter (\<lambda>i. case fmlookup (watchers_of p u) i of None \<Rightarrow> False | Some w \<Rightarrow> \<not> t (fst w)) (watchers_of p u)"
  have "watchers_of (close_watchers t u p) u = rest"
    unfolding rest_def by (simp add: close_watchers_def watchers_of_def Let_def)
  then show ?thesis using True by (auto simp: watcher_at_def rest_def split: option.split)
qed

lemma watcher_close_many [simp]:
  "watcher_at (fold closeBotAPIKeyWatchers us p) v i = (if v \<in> set us then None else watcher_at p v i)"
  by (induction us arbitrary: p) auto

lemma watcher_revoke [simp]:
  "watcher_at (revokeBotAPIKey u k p) v i =
     (case watcher_at p v i of
        None \<Rightarrow> None
      | Some w \<Rightarrow>
          if v = u \<and> map_option bk_verifier (fmlookup (xu_keys (auth_of p u)) k) = Some (fst w)
          then None else Some w)"
  by (auto simp: revokeBotAPIKey_def split: option.splits)

lemma leak_edit [simp]: "no_leak p (edit_auth u f p)"
  unfolding no_leak_def by (simp add: edit_auth_def watcher_at_def watchers_of_def)

lemma leak_index [simp]: "no_leak p (deleteIdentityIndex u p)" "no_leak p (p\<lparr>au_identityIndex := ix\<rparr>)"
  unfolding no_leak_def by (simp_all add: deleteIdentityIndex_def watcher_at_def watchers_of_def)

lemma leak_access [simp]: "no_leak p (close_access u p)"
  unfolding no_leak_def by (auto simp: close_access_def watcher_at_def watchers_of_def split: option.split)

lemma leak_close_all [simp]: "no_leak p (closeBotAPIKeyWatchers u p)"
  unfolding no_leak_def watcher_close_all
  by (auto simp: closeBotAPIKeyWatchers_def watcher_at_def intro: rev_image_eqI fmranI)

lemma leak_close_many [simp]: "no_leak p (fold closeBotAPIKeyWatchers us p)"
proof (induction us arbitrary: p)
  case (Cons u us)
  show ?case using no_leak_trans [OF leak_close_all Cons.IH] by simp
qed simp

lemma leak_close [simp]: "no_leak p (close_watchers t u p)"
proof -
  have "c |\<in>| au_closed (close_watchers t u p)"
    if w: "fmlookup (watchers_of p u) i = Some (v, c)" and "t v" for i v c
  proof -
    let ?gone = "fmfilter (\<lambda>i. case fmlookup (watchers_of p u) i of None \<Rightarrow> False | Some w \<Rightarrow> t (fst w)) (watchers_of p u)"
    have "fmlookup ?gone i = Some (v, c)" using that by simp
    then have "(v, c) |\<in>| fmran ?gone" by (rule fmranI)
    then have "c |\<in>| snd |`| fmran ?gone" by (rule rev_fimage_eqI) simp
    then show ?thesis by (simp add: close_watchers_def Let_def)
  qed
  moreover have "au_closed p |\<subseteq>| au_closed (close_watchers t u p)"
    by (simp add: close_watchers_def Let_def)
  ultimately show ?thesis
    unfolding no_leak_def watcher_close by (auto simp: watcher_at_def)
qed

lemma leak_revoke [simp]: "no_leak p (revokeBotAPIKey u k p)"
  by (simp add: revokeBotAPIKey_def no_leak_trans [OF leak_edit leak_close] split: option.split)

lemma leak_link [simp]: "no_leak p (link_identity u h x p)"
  by (simp add: link_identity_def Let_def no_leak_trans [OF no_leak_trans [OF leak_edit leak_index(2)] leak_edit])

lemma leak_deleted [simp]:
  "no_leak p (deleteIdentityIndex u (closeBotAPIKeyWatchers u (edit_auth u f p)))"
  by (rule no_leak_trans [OF no_leak_trans [OF leak_edit leak_close_all] leak_index(1)])

lemma leak_deactivated [simp]: "no_leak p (applyDeactivationChanged u d sq p)"
proof -
  have "no_leak p (close_access u (edit_auth u f p))" for f
    by (rule no_leak_trans [OF leak_edit leak_access])
  moreover have "no_leak q (fold closeBotAPIKeyWatchers us (closeBotAPIKeyWatchers u q))" for q us
    by (rule no_leak_trans [OF leak_close_all leak_close_many])
  ultimately show ?thesis
    by (auto simp: applyDeactivationChanged_def Let_def intro: no_leak_trans)
qed

lemmas leak_chains =
  no_leak_trans [OF leak_edit leak_revoke] no_leak_trans [OF leak_index(2) leak_edit]
  no_leak_trans [OF no_leak_trans [OF leak_edit leak_close] leak_edit]

lemma step_no_leak: "no_leak p (auth_switch env ev sq p)"
proof (cases "ev_payload ev")
  case (Some e)
  show ?thesis
  proof (cases e)
    case (AccountFact f)
    then show ?thesis
      using Some by (cases f) (simp_all add: auth_switch_def account_switch_def auth_op_defs(1,2,10,11))
  qed (use Some in \<open>simp_all add: auth_switch_def auth_op_defs Let_def leak_chains\<close>)
qed (simp add: auth_switch_def)

section \<open>What closes a connection\<close>

definition revokes :: "auth_event event \<Rightarrow> credentials \<Rightarrow> string \<Rightarrow> string \<Rightarrow> bool" where
  "revokes ev p u v \<longleftrightarrow>
     u \<noteq> [] \<and> live_bot (auth_of p u)
     \<and> (case ev_payload ev of
          Some (BotApiKeyRevoked u' i) \<Rightarrow>
            u' = u \<and> i \<noteq> [] \<and> map_option bk_verifier (fmlookup (xu_keys (auth_of p u)) i) = Some v
        | Some (BotApiKeyRotated k) \<Rightarrow>
            ak_user_id k = u \<and> ak_verifier k \<noteq> []
            \<and> (if ak_revoked_key_id k = [] then v \<noteq> ak_verifier k
               else map_option bk_verifier (fmlookup (xu_keys (auth_of p u)) (ak_revoked_key_id k)) = Some v)
        | _ \<Rightarrow> False)"

definition shuts_off :: "auth_event event \<Rightarrow> credentials \<Rightarrow> string \<Rightarrow> bool" where
  "shuts_off ev p u \<longleftrightarrow>
     sets_deactivated ev u = Some True
     \<or> fmlookup (au_users p) u \<noteq> None \<and> xu_is_bot (auth_of p u)
       \<and> sets_deactivated ev (xu_owner (auth_of p u)) = Some True"

text \<open>A deleted or erased bot, a deactivated bot, a deactivated owner, a key revoked or replaced.\<close>

definition cuts :: "auth_event event \<Rightarrow> credentials \<Rightarrow> string \<Rightarrow> string \<Rightarrow> bool" where
  "cuts ev p u v \<longleftrightarrow> deletes ev u \<or> shuts_off ev p u \<or> revokes ev p u v"

lemma set_bots_owned:
  "b \<in> set (bots_owned p o') \<longleftrightarrow>
     fmlookup (au_users p) b \<noteq> None \<and> xu_is_bot (auth_of p b) \<and> xu_owner (auth_of p b) = o'"
  by (auto simp: bots_owned_def sortedMapKeys_def fmdom_notD intro: fmdomI)


lemma set_bots_closed [simp]: "bots_owned (closeBotAPIKeyWatchers v p) u = bots_owned p u"
  "bots_owned (close_access v p) u = bots_owned p u"
  by (simp_all add: bots_owned_def)

lemma watcher_deactivated:
  "watcher_at (applyDeactivationChanged o' d sq p) u i =
     (if o' \<noteq> [] \<and> d \<and> (u = o' \<or> fmlookup (au_users p) u \<noteq> None \<and> xu_is_bot (auth_of p u) \<and> xu_owner (auth_of p u) = o')
      then None else watcher_at p u i)"
  by (auto simp: applyDeactivationChanged_def Let_def set_bots_owned known_edit edit_lookup)

lemma step_watcher:
  "watcher_at (auth_switch env ev sq p) u i =
     (case watcher_at p u i of None \<Rightarrow> None | Some (v, c) \<Rightarrow> if cuts ev p u v then None else Some (v, c))"
proof (cases "ev_payload ev")
  case (Some e)
  show ?thesis
  proof (cases e)
    case (AccountFact f)
    then show ?thesis
      using Some
      by (cases f) (auto simp: auth_switch_def account_switch_def auth_op_defs(1,2,10,11) watcher_deactivated
          cuts_def shuts_off_def revokes_def deletes_def sets_deactivated_def split: option.split)
  qed (use Some in \<open>auto simp: auth_switch_def auth_op_defs Let_def cuts_def shuts_off_def revokes_def
         deletes_def sets_deactivated_def split: option.split\<close>)
qed (simp add: auth_switch_def cuts_def shuts_off_def revokes_def deletes_def sets_deactivated_def split: option.split)

section \<open>The life of a connection\<close>

definition follow :: "auth_env \<Rightarrow> (auth_event event \<times> seq) list \<Rightarrow> credentials \<Rightarrow> credentials" where
  "follow env facts p = fold (\<lambda>(ev, sq) q. auth_switch env ev sq q) facts p"

fun survives :: "auth_env \<Rightarrow> (auth_event event \<times> seq) list \<Rightarrow> credentials \<Rightarrow> string \<Rightarrow> string \<Rightarrow> bool" where
  "survives env [] p u v \<longleftrightarrow> True"
| "survives env ((ev, sq) # facts) p u v \<longleftrightarrow>
     \<not> cuts ev p u v \<and> survives env facts (auth_switch env ev sq p) u v"

lemma follow_simps [simp]:
  "follow env [] p = p" "follow env ((ev, sq) # facts) p = follow env facts (auth_switch env ev sq p)"
  by (simp_all add: follow_def)

lemma follow_no_leak: "no_leak p (follow env facts p)"
proof (induction facts arbitrary: p)
  case (Cons x facts)
  obtain ev sq where x: "x = (ev, sq)" by force
  show ?case unfolding x follow_simps by (rule no_leak_trans [OF step_no_leak Cons.IH])
qed simp

lemma follow_watcher:
  assumes "watcher_at p u i = Some (v, c)"
  shows "watcher_at (follow env facts p) u i = (if survives env facts p u v then Some (v, c) else None)"
  using assms
proof (induction facts arbitrary: p)
  case (Cons x facts)
  obtain ev sq where x: "x = (ev, sq)" by force
  let ?q = "auth_switch env ev sq p"
  show ?case
  proof (cases "cuts ev p u v")
    case True
    have none: "watcher_at (follow env facts q) u i = None" if "watcher_at q u i = None" for q
      using that
    proof (induction facts arbitrary: q)
      case (Cons y facts)
      then show ?case by (cases y) (simp add: step_watcher)
    qed simp
    have "watcher_at ?q u i = None" using True Cons.prems by (simp add: step_watcher)
    then show ?thesis using True by (simp add: x none)
  next
    case False
    then have "watcher_at ?q u i = Some (v, c)" using Cons.prems by (simp add: step_watcher)
    then show ?thesis using False Cons.IH by (simp add: x)
  qed
qed simp

lemma follow_closed:
  assumes "watcher_at p u i = Some (v, c)" and "\<not> survives env facts p u v"
  shows "c |\<in>| au_closed (follow env facts p)"
proof -
  have "watcher_at (follow env facts p) u i \<noteq> Some (v, c)" using follow_watcher [OF assms(1), of env facts] assms(2) by simp
  then show ?thesis using follow_no_leak [of p env facts] assms(1) unfolding no_leak_def by blast
qed


text \<open>Not among those facts: a new owner. When he is deactivated, the key is refused from then on, but
  a connection that is open already stays open.\<close>

lemma reassignment_keeps_connection:
  assumes "watcher_at p u i = Some (v, c)"
    and "ev_payload ev = Some (AccountFact (BotOwnerReassigned u old owner))"
    and "live_bot (auth_of p u)" and "xu_deactivated (auth_of p owner)"
  shows "watcher_at (auth_switch env ev sq p) u i = Some (v, c)"
    and "\<not> key_active (auth_switch env ev sq p) u v"
proof -
  show "watcher_at (auth_switch env ev sq p) u i = Some (v, c)"
    using assms(1,2) by (simp add: step_watcher cuts_def shuts_off_def revokes_def deletes_def sets_deactivated_def)
  let ?q = "auth_switch env ev sq p"
  have known: "fmlookup (au_users p) owner \<noteq> None"
    using assms(4) by (auto simp: auth_of_def new_user_auth_def split: option.splits)
  have users: "fmlookup (au_users ?q) x =
      (if x = u then Some ((auth_of p u)\<lparr>xu_owner := owner\<rparr>) else fmlookup (au_users p) x)" for x
    using assms(2,3) by (simp add: auth_switch_def account_switch_def auth_applyOwnerReassigned_def edit_lookup live_bot_def)
  have "xu_deactivated (the (fmlookup (au_users ?q) owner))"
    using assms(4) known by (auto simp: users auth_of_def)
  then show "\<not> key_active ?q u v"
    using assms(3) by (auto simp: key_active_def live_bot_auth_def live_auth_def live_bot_def users split: option.split)
qed

text \<open>A connection in the name of an account: every change of its deactivation closes it.\<close>

lemma step_access:
  "access_watchers (auth_switch env ev sq p) u =
     (if sets_deactivated ev u = None then access_watchers p u else {||})"
proof -
  have kept: "au_accessWatchers (edit_auth v f q) = au_accessWatchers q"
    "au_accessWatchers (close_watchers t v q) = au_accessWatchers q"
    "au_accessWatchers (closeBotAPIKeyWatchers v q) = au_accessWatchers q"
    "au_accessWatchers (deleteIdentityIndex v q) = au_accessWatchers q" for v f t q
    by (simp_all add: edit_auth_def close_watchers_def closeBotAPIKeyWatchers_def deleteIdentityIndex_def Let_def)
  have many: "au_accessWatchers (fold closeBotAPIKeyWatchers us q) = au_accessWatchers q" for us q
    by (induction us arbitrary: q) (simp_all add: kept)
  have link: "au_accessWatchers (link_identity v h x q) = au_accessWatchers q" for v h x q
    by (simp add: link_identity_def Let_def kept)
  have revoke: "au_accessWatchers (revokeBotAPIKey v k q) = au_accessWatchers q" for v k q
    by (simp add: revokeBotAPIKey_def kept split: option.split)
  have off: "access_watchers (applyDeactivationChanged v d sq q) u =
      (if v = u \<and> u \<noteq> [] then {||} else access_watchers q u)" for v d q
    by (simp add: applyDeactivationChanged_def Let_def access_watchers_def many kept close_access_def)
  show ?thesis
  proof (cases "ev_payload ev")
    case (Some e)
    show ?thesis
    proof (cases e)
      case (AccountFact f)
      then show ?thesis
        using Some by (cases f) (simp_all add: auth_switch_def account_switch_def auth_op_defs(1,2,10,11)
            sets_deactivated_def off, simp_all add: access_watchers_def kept)
    qed (use Some in \<open>simp_all add: auth_switch_def auth_op_defs Let_def sets_deactivated_def access_watchers_def
           kept link revoke\<close>)
  qed (simp add: auth_switch_def sets_deactivated_def)
qed

section \<open>Examples\<close>

definition plain_env :: auth_env where
  "plain_env = \<lparr>sha256_hex = (\<lambda>s. s), lower_case = (\<lambda>s. s)\<rparr>"

definition auth_fact :: "string \<Rightarrow> auth_event \<Rightarrow> auth_event event" where
  "auth_fact i e = \<lparr>ev_id = i, ev_actor = ''S'', ev_created_at = Some 0, ev_payload = Some e\<rparr>"

definition new_account :: "string \<Rightarrow> string \<Rightarrow> auth_event" where
  "new_account u owner =
     AccountFact (UserAccountCreated
       \<lparr>ac_user_id = u, ac_is_bot = (owner \<noteq> []), ac_bot_owner = owner, ac_login = None, ac_display_name = None\<rparr>)"

definition switched_log :: "(auth_event event \<times> seq) list" where
  "switched_log =
     [(auth_fact ''1'' (new_account ''U'' []), 1),
      (auth_fact ''2'' (AccountFact (UserAccountDeactivationChanged ''U'' True)), 2),
      (auth_fact ''3'' (AccountFact (UserAccountDeactivationChanged ''U'' False)), 3)]"

definition deleted_log :: "(auth_event event \<times> seq) list" where
  "deleted_log =
     [(auth_fact ''1'' (new_account ''U'' []), 1), (auth_fact ''2'' (UserPasswordHashChanged ''U'' ''hash'' False), 2),
      (auth_fact ''3'' (AccountFact (UserAccountDeleted ''U'')), 3)]"

lemma auth_generation_exact_witness:
  "\<exists>p. replayed (Auth_Apply plain_env) Auth_CompleteStartupReplay [] switched_log newUserAuthProjection = Some p
     \<and> AuthGeneration p ''U'' = Some 3"
proof -
  have clean: "clean_log ([] @ switched_log)" by code_simp
  obtain p where p: "replayed (Auth_Apply plain_env) Auth_CompleteStartupReplay [] switched_log newUserAuthProjection = Some p"
    using credentials.content.run_clean [OF _ clean, of newUserAuthProjection plain_env]
    by (auto simp: newUserAuthProjection_def)
  have "known_in plain_env ([] @ switched_log) ''U'' \<and> \<not> deleted_in ([] @ switched_log) ''U''
      \<and> \<not> deactivated_in ([] @ switched_log) ''U'' \<and> last_invalidation ([] @ switched_log) ''U'' = 3"
    by (auto simp: switched_log_def auth_fact_def new_account_def known_in_def account_of_def deleted_in_def deletes_def
        deactivated_in_def sets_deactivated_def last_invalidation_def invalidates_def Let_def)
  with auth_generation_exact [OF clean p, where u = "''U''"] p show ?thesis by simp
qed

lemma deleted_account_has_no_credentials_witness:
  "\<exists>p. replayed (Auth_Apply plain_env) Auth_CompleteStartupReplay [] deleted_log newUserAuthProjection = Some p
     \<and> PasswordHash p ''U'' = None"
proof -
  have clean: "clean_log ([] @ deleted_log)" by code_simp
  obtain p where p: "replayed (Auth_Apply plain_env) Auth_CompleteStartupReplay [] deleted_log newUserAuthProjection = Some p"
    using credentials.content.run_clean [OF _ clean, of newUserAuthProjection plain_env]
    by (auto simp: newUserAuthProjection_def)
  have "(auth_fact ''3'' (AccountFact (UserAccountDeleted ''U'')), 3) \<in> set ([] @ deleted_log)"
    by (simp add: deleted_log_def)
  moreover have "deletes (auth_fact ''3'' (AccountFact (UserAccountDeleted ''U''))) ''U''"
    by (simp add: deletes_def auth_fact_def)
  ultimately show ?thesis
    using deleted_account_has_no_credentials [OF clean p] p by blast
qed

text \<open>A bot with two keys: revoking the key of a connection closes it.\<close>

definition bot_key :: "string \<Rightarrow> string \<Rightarrow> api_key_fact" where
  "bot_key i v = \<lparr>ak_user_id = ''B'', ak_verifier = v, ak_key_id = i, ak_name = [], ak_revoked_key_id = []\<rparr>"

definition bot_state :: credentials where
  "bot_state =
     follow plain_env
       [(auth_fact ''1'' (new_account ''U'' []), 1), (auth_fact ''2'' (new_account ''B'' ''U''), 2),
        (auth_fact ''3'' (BotApiKeyAdded (bot_key ''k1'' ''v1'')), 3), (auth_fact ''4'' (BotApiKeyAdded (bot_key ''k2'' ''v2'')), 4)]
       newUserAuthProjection"

definition revocations :: "(auth_event event \<times> seq) list" where
  "revocations = [(auth_fact ''5'' (BotApiKeyRevoked ''B'' ''k2''), 5), (auth_fact ''6'' (BotApiKeyRevoked ''B'' ''k1''), 6)]"


end
