(* ===== verification/Spec2Isabelle.thy ===== *)
theory Spec2Isabelle
  imports
    RBAC_Properties
    RBAC_Snapshot
    Room_Directory_Properties
    Room_Directory_Snapshot
    Room_Groups_Properties
    Room_Groups_Snapshot
    User_Accounts_Properties
    Permission_Explainer
    Authorization_Properties
    Projector_Properties
    Component_Properties
    RBAC_Commands_Properties
    Paged_Reads_Properties
    Intern_Properties
    Room_Timeline_Witnesses
    Reactions_Properties
    Threads_Witnesses
    Content_Keys_Properties
    Credentials_Connections
begin

text \<open>
  A verification development for the core of Chatto, an event-sourced chat server
  written in Go (\<open>cli/internal/core\<close>).

  \<^bold>\<open>The program.\<close> Every durable change is an event in one append-only log (the EVT
  stream of NATS JetStream). A \<^emph>\<open>projection\<close> folds the events of its subjects into an
  in-memory state: \<open>Apply(event, seq)\<close> is called once per delivered record, in
  stream order, and again for records that are redelivered or replayed after a
  restart. Some projections save a snapshot of their state and restore it at the
  next start. Several projections share one content view: the view first asks each
  of them to \<open>Prepare\<close> a record and commits only when none failed. Reads and
  authorization checks look at the projections only.

  \<^bold>\<open>Theories.\<close>
  \<^item> \<open>Chatto_Prelude\<close>: the event envelope, sequences and widths, folds that can stop,
    finite-map and list lemmas, and the named collections the proofs use.
  \<^item> \<open>Replay_Guard\<close>: \<open>projection_helpers.go\<close> and its snapshot. \<open>eventIDSet\<close> is an
    optional finite set, absent for the nil map; a write into the nil map is a panic,
    \<^const>\<open>None\<close> in the model.
  \<^item> \<open>Projection_Contract\<close>: the locales every projection is proved against. A
    \<open>guarded_projection\<close> marks the record before it folds it; a
    \<open>snapshot_projection\<close> has an invariant that its records keep and a snapshot that
    restores it. Replay safety, first-wins, exactly-once in effect and restart are
    proved once there and used through the interpretations \<open>rbac\<close>, \<open>accounts\<close>,
    \<open>directory\<close>, \<open>sidebar\<close> and \<open>content_keys\<close>.
  \<^item> \<open>Permission_Catalog\<close>: \<open>permission.go\<close>, \<open>permissions.go\<close>, \<open>rbac_positions.go\<close>,
    \<open>rbac_subject.go\<close>. The catalog index is the result of running the package
    initialiser's validation over the list of the source.
  \<^item> \<open>RBAC_Projection\<close>, \<open>RBAC_Snapshot\<close>, \<open>RBAC_Properties\<close>: roles, assignments and
    permission decisions (\<open>rbac_projection.go\<close>, \<open>rbac_events.go\<close> for the event
    builders, \<open>rbac_projection_snapshot.go\<close>).
  \<^item> \<open>Room_Directory\<close>, \<open>Room_Directory_Snapshot\<close>, \<open>Room_Directory_Properties\<close>: the room
    catalog, memberships and bans and the projection that combines them
    (\<open>room_catalog_projection.go\<close>, \<open>room_membership_projection.go\<close>,
    \<open>room_ban_projection.go\<close>, \<open>room_directory_projection.go\<close>, and the snapshot).
  \<^item> \<open>Room_Groups\<close>, \<open>Room_Groups_Snapshot\<close>, \<open>Room_Groups_Properties\<close>: room groups, the
    sidebar layout and the placement of items in it (\<open>room_group_projection.go\<close>,
    \<open>room_group_layout_projection.go\<close>, parts of \<open>room_groups.go\<close>).
  \<^item> \<open>User_Accounts\<close>, \<open>User_Accounts_Properties\<close>: accounts with encrypted profile fields,
    the login, e-mail, avatar and owner indexes, and key shredding
    (\<open>user_projection.go\<close>, \<open>user_pii_crypto.go\<close>).
  \<^item> \<open>Room_Events\<close>: the facts of rooms, messages, threads, reactions and erasures the
    content projections read, with their room, type, author, visibility and time
    (\<open>event_facts.go\<close>, \<open>projection_time.go\<close>, \<open>evtstream/subjects.go\<close>).
  \<^item> \<open>Content_Contract\<close>: the locale \<open>fallible_content_projection\<close> for projections that skip
    or bypass their guard and may panic: over a log without repeated identities a start-up
    replay, its completion and the live records end in the state the log reduces to. The
    locale \<open>content_projection\<close> is its case without panics. Interpreted as \<open>timeline\<close>,
    \<open>reactions\<close> and \<open>threads\<close>; every guarded projection meets it, too.
  \<^item> \<open>Room_Timeline\<close> (state and \<open>Apply\<close>), \<open>Room_Timeline_Reads\<close> (reads): rows, posts,
    bodies, retractions, erasures, echoes, pins and attachment listings of every room
    (\<open>room_timeline_projection.go\<close>). \<open>Room_Timeline_Invariant\<close> interprets the contract,
    \<open>Room_Timeline_Frame\<close> has what each operation leaves alone, \<open>Room_Timeline_Rows\<close> the
    well-formedness; \<open>Room_Timeline_Properties\<close>, \<open>Room_Timeline_Windows\<close> and
    \<open>Room_Timeline_Bodies\<close> have the properties, \<open>Room_Timeline_Witnesses\<close> their rooms.
  \<^item> \<open>Reactions\<close>, \<open>Reactions_Properties\<close>: the active reactions of every message
    (\<open>reaction_projection.go\<close>), with the projection's own identifier table, the bisection
    over handles, echoes and the attribution of records to rooms.
  \<^item> \<open>Threads\<close>: replies with their cached summaries, follows and relationships
    (\<open>thread_projection.go\<close>). \<open>Threads_Properties\<close> has the summaries and participants,
    \<open>Threads_Follows\<close> the follows and relationships, \<open>Threads_Witnesses\<close> their logs.
  \<^item> \<open>Content_Keys\<close>, \<open>Content_Keys_Properties\<close>: the wrapped data-encryption keys of every
    account and their snapshot (\<open>content_key_projection.go\<close>,
    \<open>content_key_projection_snapshot.go\<close>), over the events of \<open>User_Accounts\<close>.
  \<^item> \<open>Credentials\<close>, \<open>Credentials_Properties\<close>, \<open>Credentials_Connections\<close>: passwords, external
    identities, consents, API keys and webhooks (\<open>user_auth_projection.go\<close>), what is left of
    them after each fact, and the connections that watch them (with \<open>user_deactivation.go\<close>).
  \<^item> \<open>Permission_Resolver\<close>, \<open>Permission_Resolver_Properties\<close>: effective authorization
    (\<open>permission_resolver.go\<close>) over one generation of the four projections, and its
    declarative meaning.
  \<^item> \<open>Permission_Explainer\<close>: the inspector (\<open>permission_explainer.go\<close>).
  \<^item> \<open>Authorization\<close>, \<open>Authorization_Properties\<close>: the named checks (\<open>can.go\<close>,
    \<open>rbac_policy.go\<close>, \<open>authorization_model.go\<close>) and the limits on assigning roles
    (\<open>role_assignment_authorization.go\<close>).
  \<^item> \<open>Subject_Filter\<close>, \<open>Projector\<close>, \<open>Projector_Properties\<close>: the framework around one
    projection (\<open>pkg/events/subject_filter.go\<close>, \<open>projector.go\<close>,
    \<open>projection_snapshot.go\<close>, \<open>projection_checkpoint.go\<close>): delivery, batches, failure,
    waiters and the restore before a run.
  \<^item> \<open>Component_Projection\<close>, \<open>Component_Properties\<close>: several projections behind one
    (\<open>component_projection.go\<close>) and the server content view built of them
    (\<open>server_content_view.go\<close>).
  \<^item> \<open>Event_Log\<close>, \<open>Mutation\<close>, \<open>Mutation_Properties\<close>: the writing side
    (\<open>expectation.go\<close>, \<open>encoded_event_log.go\<close>, \<open>typed_event_log.go\<close>, \<open>mutation.go\<close>):
    guards, single and batch appends, and the loop that decides again after a conflict.
  \<^item> \<open>Broker_Contract\<close>: what the writing side relies on of JetStream, the predicate
    \<open>broker_laws\<close>; \<open>Broker_Memory\<close>: an in-memory broker that satisfies it, on which the
    witnesses run.
  \<^item> \<open>Paged_Reads\<close>, \<open>Paged_Reads_Properties\<close>: reading the log in pages
    (\<open>encoded_event_log.go\<close>, \<open>typed_event_log.go\<close>) through consumers, whose laws are
    \<open>reader_laws\<close>.
  \<^item> \<open>Intern\<close>, \<open>Intern_Properties\<close>: the tables that give identifiers small handles
    (\<open>pkg/events/intern\<close>): the arena with its packed locations and the table that
    indexes by hash.
  \<^item> \<open>Event_Subjects\<close>: aggregates, their subjects, filters and parsers
    (\<open>evtstream/subjects.go\<close>).
  \<^item> \<open>RBAC_Commands\<close>, \<open>RBAC_Commands_Properties\<close>: the appenders of RBAC events and the
    stable authorization read (\<open>rbac_events.go\<close>, \<open>authorization_consistency.go\<close>).

  \<^bold>\<open>What the lemmas show.\<close> For each projection: the invariant that every operation
  keeps, the functional meaning of its reads after its events, and that replay,
  redelivery and restart from a snapshot give the state of the log. For the resolver:
  the walk over subjects and scopes is the declarative policy, privileged mode and
  deactivation only ever take authority away, a bot stays within its own grants and
  its owner's, and nobody assigns a role that carries more than they have. Across
  components: a room ban recorded in the directory stops joining, seeing through
  universal membership, and the checks built on it. For the projector: what it shows
  between two messages is the fold of the records up to its position, a waiter that was
  released reads its own write, none is left behind by a failure, and startup ends. For
  the content view: its components change together or not at all, also in a restore that
  fails half way. For the writing side: a committed decision was made on the state it was
  guarded by, within a bounded number of attempts, and the first attempt commits when
  nobody interferes; the RBAC appenders inherit this together with their permission check.
  For reading: a paged read returns, and what it returns is an unbroken piece of the log.
  For the room timeline: what was retracted or erased stays so whatever arrives later, the
  pages and windows are exact pieces of the visible log, the bodies of a message are those of
  its log, the current one is never handed to the deletion of obsolete ones, and the pins and
  the slow-mode clock are those of the log. For reactions and threads: the reactions of a
  message, the summary and the people of a thread and the follows in both directions are
  those of the log although they are kept incrementally, an erased account leaves every
  thread, and a relationship with a thread always has a post that caused it. For content
  keys: the store is that of the log, the newest epoch is active, and an erased account has
  no key whatever is generated later.
  For credentials: a deleted account has nothing left to sign in with, the generation that
  sessions carry is the sequence of the last fact that invalidated them, and a connection
  opened with an API key is closed by the first fact that withdraws the key.
  For the identifier tables: a handle resolves to the identifier it was given for, whatever
  the hashes.

  \<^bold>\<open>Conventions.\<close> A Go map is a finite map, a set a finite set, a nil pointer
  \<^const>\<open>None\<close>. Sequences are 64-bit words, positions and key epochs 32-bit words compared as
  signed numbers. Protobuf enumerations are integers, since the wire may carry an
  unknown value. Times are integers; the zero time of Go is \<open>zero_time\<close>. Locks are left
  out: each definition is one critical section. The range over a Go map has no fixed
  order; a definition that needs one sorts the keys, and the result does not depend on it.
  The content projections intern identifiers; the model keeps the identifiers themselves,
  which \<open>Intern_Properties\<close> justifies. Row numbers and page limits are naturals and
  integers: a room of four billion rows or a page of nearly \<open>2^63\<close> entries does not fit into memory.

  \<^bold>\<open>Parameters.\<close> The protobuf codec of a snapshot (\<open>proto_codec\<close>: what was marshalled
  is unmarshalled), the digest, key service and AEAD of profile fields (record
  \<open>crypto\<close>), the comparison key of room names, the configuration of server owners, the
  broker and its consumers with their laws, the hash of identifiers, the hash of external identities with the Unicode lower case
  (record \<open>auth_env\<close>), and, for the appenders, the waits for projections, the permission
  check and the encoder. The loops that retry after a conflict run on fuel, the five
  attempts of the source (\<open>maxMutationAttempts\<close>, \<open>maxRBACMutationRetries\<close>,
  \<open>maxStableAuthorizationAttempts\<close>), so the bound is the code's own.

  \<^bold>\<open>Not modelled.\<close> The validation of most commands, the creation and deletion of the
  JetStream consumer of a projection, the capture of snapshots, the commands on messages
  and their hydration, the snapshots of the timeline, of reactions and of threads, the commands on
  threads and reactions, notifications, the commands on credentials, sessions and their tokens, assets, calls, presence, live delivery, transport, generated code, the
  separate programs under \<open>authling\<close> and \<open>experimental\<close>, and the clients. The manifest
  lists each part with its reason.
\<close>

end
